(* ===== verification/Prelude.thy ===== *)
theory Prelude
  imports Main "HOL-Library.Char_ord" "HOL-Library.List_Lexorder" "HOL-Library.Product_Lexorder"
begin

text \<open>
  Shared vocabulary of the development: the Python exceptions the runtime raises, the effect
  types (a database transaction that commits or rolls back), the few SQL table operations the
  stores are written with, text helpers, the JSON values and the envelope cipher that seals them,
  and two locales every stateful component uses: a step function that keeps an invariant, and a
  clocked system whose steps carry non-decreasing timestamps.
\<close>

named_theorems table_simps \<open>rewriting of table updates and counts\<close>
named_theorems row_ok \<open>row-level preservation facts\<close>

section \<open>Exceptions\<close>

text \<open>
  Strings are lists of characters, one character per code point below 256. The constructors name
  the exception classes the modelled code raises or distinguishes.
\<close>

datatype exn =
    ValueError string
  | LookupError string
  | RuntimeError string
  | PermissionError string
  | TypeError string
  | IntegrityError string
  | TimeoutError string
  | PermanentTaskError string
  | TaskDeferred string int
  | WallTimeBudgetExceeded string
  | CancelledError
  | CancelledByPolicyError string
  | OtherError string string

text \<open>\<open>type(exc).__name__\<close>\<close>

fun exn_name :: "exn \<Rightarrow> string" where
  "exn_name (ValueError _) = ''ValueError''"
| "exn_name (LookupError _) = ''LookupError''"
| "exn_name (RuntimeError _) = ''RuntimeError''"
| "exn_name (PermissionError _) = ''PermissionError''"
| "exn_name (TypeError _) = ''TypeError''"
| "exn_name (IntegrityError _) = ''IntegrityError''"
| "exn_name (TimeoutError _) = ''TimeoutError''"
| "exn_name (PermanentTaskError _) = ''PermanentTaskError''"
| "exn_name (TaskDeferred _ _) = ''TaskDeferred''"
| "exn_name (WallTimeBudgetExceeded _) = ''WallTimeBudgetExceeded''"
| "exn_name CancelledError = ''CancelledError''"
| "exn_name (CancelledByPolicyError _) = ''CancelledByPolicyError''"
| "exn_name (OtherError c _) = c"

text \<open>\<open>str(exc)\<close>\<close>

fun exn_message :: "exn \<Rightarrow> string" where
  "exn_message (ValueError m) = m"
| "exn_message (LookupError m) = m"
| "exn_message (RuntimeError m) = m"
| "exn_message (PermissionError m) = m"
| "exn_message (TypeError m) = m"
| "exn_message (IntegrityError m) = m"
| "exn_message (TimeoutError m) = m"
| "exn_message (PermanentTaskError m) = m"
| "exn_message (TaskDeferred m _) = m"
| "exn_message (WallTimeBudgetExceeded m) = m"
| "exn_message CancelledError = []"
| "exn_message (CancelledByPolicyError m) = m"
| "exn_message (OtherError _ m) = m"

text \<open>
  The class hierarchy where an \<open>except\<close> clause depends on it: \<open>asyncio.CancelledError\<close> and its
  subclass are not \<open>Exception\<close>s; the task errors are \<open>RuntimeError\<close>s; the wall-time error is a
  \<open>ValueError\<close>.
\<close>

fun is_cancelled_error :: "exn \<Rightarrow> bool" where
  "is_cancelled_error CancelledError = True"
| "is_cancelled_error (CancelledByPolicyError _) = True"
| "is_cancelled_error _ = False"

definition is_exception :: "exn \<Rightarrow> bool" where
  "is_exception e \<longleftrightarrow> \<not> is_cancelled_error e"

fun is_value_error :: "exn \<Rightarrow> bool" where
  "is_value_error (ValueError _) = True"
| "is_value_error (WallTimeBudgetExceeded _) = True"
| "is_value_error _ = False"

fun is_runtime_error :: "exn \<Rightarrow> bool" where
  "is_runtime_error (RuntimeError _) = True"
| "is_runtime_error (PermanentTaskError _) = True"
| "is_runtime_error (TaskDeferred _ _) = True"
| "is_runtime_error _ = False"

fun is_lookup_error :: "exn \<Rightarrow> bool" where
  "is_lookup_error (LookupError _) = True"
| "is_lookup_error _ = False"

fun is_permission_error :: "exn \<Rightarrow> bool" where
  "is_permission_error (PermissionError _) = True"
| "is_permission_error _ = False"

section \<open>Effects\<close>

text \<open>
  A transaction body either raises, or returns a value and the new tables. The database actor
  commits the tables of a body that returns and rolls back the body that raises; what a caller of
  the store sees is the result together with the tables it leaves.
\<close>

type_synonym ('s, 'a) tx = "'s \<Rightarrow> exn + ('a \<times> 's)"
type_synonym ('s, 'a) eff = "'s \<Rightarrow> (exn + 'a) \<times> 's"

definition transaction :: "('s, 'a) tx \<Rightarrow> ('s, 'a) eff" where
  "transaction operation s =
     (case operation s of
        Inl e \<Rightarrow> (Inl e, s)
      | Inr r \<Rightarrow> (Inr (fst r), snd r))"

definition raise :: "exn \<Rightarrow> ('s, 'a) eff" where
  "raise e s = (Inl e, s)"

lemma transaction_Inl [simp]: "operation s = Inl e \<Longrightarrow> transaction operation s = (Inl e, s)"
  by (simp add: transaction_def)

lemma transaction_Inr [simp]: "operation s = Inr (a, t) \<Longrightarrow> transaction operation s = (Inr a, t)"
  by (simp add: transaction_def)

lemma transaction_InrD: "transaction operation s = (Inr a, t) \<Longrightarrow> operation s = Inr (a, t)"
  by (auto simp: transaction_def split: sum.splits)

lemma transaction_cases:
  obtains (rolled_back) e where "operation s = Inl e" "transaction operation s = (Inl e, s)"
  | (committed) a t where "operation s = Inr (a, t)" "transaction operation s = (Inr a, t)"
  by (cases "operation s") (auto simp: transaction_def)

lemma transaction_inv:
  assumes "P s" and "\<And>a t. operation s = Inr (a, t) \<Longrightarrow> P t"
  shows "P (snd (transaction operation s))"
  using assms by (cases rule: transaction_cases [of operation s]) auto

lemma transaction_atomic: "fst (transaction operation s) = Inl e \<Longrightarrow> snd (transaction operation s) = s"
  by (cases rule: transaction_cases [of operation s]) auto

text \<open>Decoding rows one after the other, stopping at the first that fails; and sequencing results.\<close>

fun decode_all :: "('r \<Rightarrow> exn + 'a) \<Rightarrow> 'r list \<Rightarrow> exn + 'a list" where
  "decode_all f [] = Inr []"
| "decode_all f (r # rs) =
     (case f r of
        Inl e \<Rightarrow> Inl e
      | Inr a \<Rightarrow> (case decode_all f rs of Inl e \<Rightarrow> Inl e | Inr as \<Rightarrow> Inr (a # as)))"

lemma decode_all_set:
  "decode_all f rs = Inr as \<Longrightarrow> a \<in> set as \<Longrightarrow> \<exists>r \<in> set rs. f r = Inr a"
  by (induction rs arbitrary: as) (auto split: sum.splits)

lemma decode_all_length: "decode_all f rs = Inr as \<Longrightarrow> length as = length rs"
  by (induction rs arbitrary: as) (auto split: sum.splits)

lemma decode_all_ok: "\<forall>r \<in> set rs. \<exists>a. f r = Inr a \<Longrightarrow> \<exists>as. decode_all f rs = Inr as"
  by (induction rs) auto

definition chain :: "exn + 'a \<Rightarrow> ('a \<Rightarrow> exn + 'c) \<Rightarrow> exn + 'c" where
  "chain r f = (case r of Inl e \<Rightarrow> Inl e | Inr a \<Rightarrow> f a)"

lemma chain_simps [simp]: "chain (Inl e) f = Inl e" "chain (Inr a) f = f a"
  by (simp_all add: chain_def)

lemma chain_Inr: "chain r f = Inr b \<longleftrightarrow> (\<exists>a. r = Inr a \<and> f a = Inr b)"
  by (cases r) auto

lemma decode_all_map: "(\<And>x. x \<in> set xs \<Longrightarrow> f (g x) = Inr x) \<Longrightarrow> decode_all f (map g xs) = Inr xs"
  by (induction xs) auto

text \<open>
  \<open>asyncio.gather\<close> returns the results in the order of the coroutines, or raises the first error to
  occur; the others run to their end all the same.
\<close>

fun first_error :: "(exn + 'a) list \<Rightarrow> exn option" where
  "first_error [] = None"
| "first_error (Inl e # rs) = Some e"
| "first_error (Inr _ # rs) = first_error rs"

fun results :: "(exn + 'a) list \<Rightarrow> 'a list" where
  "results [] = []"
| "results (Inl e # rs) = results rs"
| "results (Inr a # rs) = a # results rs"

lemma first_error_None: "first_error rs = None \<Longrightarrow> map Inr (results rs) = rs"
  by (induction rs rule: first_error.induct) auto

lemma first_error_Some: "first_error rs = Some e \<Longrightarrow> Inl e \<in> set rs"
  by (induction rs rule: first_error.induct) auto

section \<open>Tables\<close>

text \<open>
  A table is the list of its rows in insertion order. \<open>update_where\<close> is \<open>UPDATE ... SET ... WHERE\<close>
  (every row that satisfies the condition is rewritten from its old value), \<open>count_where\<close> is the
  number of rows a condition selects (also \<open>cursor.rowcount\<close>), \<open>delete_where\<close> is \<open>DELETE\<close>, and
  \<open>first_by\<close> is \<open>ORDER BY key LIMIT 1\<close>.
\<close>

definition update_where :: "('r \<Rightarrow> bool) \<Rightarrow> ('r \<Rightarrow> 'r) \<Rightarrow> 'r list \<Rightarrow> 'r list" where
  "update_where P f rows = map (\<lambda>r. if P r then f r else r) rows"

definition count_where :: "('r \<Rightarrow> bool) \<Rightarrow> 'r list \<Rightarrow> nat" where
  "count_where P rows = length (filter P rows)"

definition delete_where :: "('r \<Rightarrow> bool) \<Rightarrow> 'r list \<Rightarrow> 'r list" where
  "delete_where P rows = filter (\<lambda>r. \<not> P r) rows"

definition first_by :: "('r \<Rightarrow> 'k::linorder) \<Rightarrow> 'r list \<Rightarrow> 'r option" where
  "first_by key rows = (case sort_key key rows of [] \<Rightarrow> None | r # _ \<Rightarrow> Some r)"

text \<open>Comparisons with a column that may be \<open>NULL\<close>: \<open>NULL\<close> satisfies none of them.\<close>

definition null_le :: "int option \<Rightarrow> int \<Rightarrow> bool" where
  "null_le c n = (case c of None \<Rightarrow> False | Some v \<Rightarrow> v \<le> n)"

definition null_gt :: "int option \<Rightarrow> int \<Rightarrow> bool" where
  "null_gt c n = (case c of None \<Rightarrow> False | Some v \<Rightarrow> n < v)"

lemma null_simps [simp]:
  "\<not> null_le None n" "null_le (Some v) n \<longleftrightarrow> v \<le> n"
  "\<not> null_gt None n" "null_gt (Some v) n \<longleftrightarrow> n < v"
  by (simp_all add: null_le_def null_gt_def)

lemma null_gt_mono: "null_gt c n \<Longrightarrow> m \<le> n \<Longrightarrow> null_gt c m"
  by (cases c) auto

lemma null_gt_not_le: "null_gt c n \<Longrightarrow> \<not> null_le c n"
  by (cases c) auto

lemma set_update_where [table_simps]:
  "set (update_where P f rows) = (\<lambda>r. if P r then f r else r) ` set rows"
  by (simp add: update_where_def)

lemma update_where_Nil [simp]: "update_where P f [] = []"
  by (simp add: update_where_def)

lemma update_where_Cons [simp]:
  "update_where P f (r # rows) = (if P r then f r else r) # update_where P f rows"
  by (simp add: update_where_def)

lemma length_update_where [simp]: "length (update_where P f rows) = length rows"
  by (simp add: update_where_def)

lemma update_where_map_key [table_simps]:
  assumes "\<And>r. P r \<Longrightarrow> k (f r) = k r"
  shows "map k (update_where P f rows) = map k rows"
  using assms by (induction rows) auto

lemma ball_update_where:
  assumes "\<forall>r \<in> set rows. Q r" and "\<And>r. r \<in> set rows \<Longrightarrow> P r \<Longrightarrow> Q r \<Longrightarrow> Q (f r)"
  shows "\<forall>r \<in> set (update_where P f rows). Q r"
  using assms by (auto simp: table_simps)

lemma count_where_Nil [simp]: "count_where P [] = 0"
  by (simp add: count_where_def)

lemma count_where_Cons [simp]:
  "count_where P (r # rows) = (if P r then Suc (count_where P rows) else count_where P rows)"
  by (simp add: count_where_def)

lemma count_where_append [simp]: "count_where P (xs @ ys) = count_where P xs + count_where P ys"
  by (simp add: count_where_def)

lemma count_where_mono:
  "(\<And>r. r \<in> set rows \<Longrightarrow> P r \<Longrightarrow> Q r) \<Longrightarrow> count_where P rows \<le> count_where Q rows"
  by (induction rows) (auto simp: le_SucI)

lemma count_where_cong:
  "(\<And>r. r \<in> set rows \<Longrightarrow> P r \<longleftrightarrow> Q r) \<Longrightarrow> count_where P rows = count_where Q rows"
  by (induction rows) auto

lemma count_where_update_le:
  assumes "\<And>r. r \<in> set rows \<Longrightarrow> P r \<Longrightarrow> Q (f r) \<Longrightarrow> Q r"
  shows "count_where Q (update_where P f rows) \<le> count_where Q rows"
  using assms by (induction rows) (auto simp: le_SucI)

lemma count_where_update_eq:
  assumes "\<And>r. r \<in> set rows \<Longrightarrow> P r \<Longrightarrow> Q (f r) \<longleftrightarrow> Q r"
  shows "count_where Q (update_where P f rows) = count_where Q rows"
  using assms by (induction rows) auto

lemma count_where_zero: "count_where P rows = 0 \<longleftrightarrow> (\<forall>r \<in> set rows. \<not> P r)"
  by (induction rows) auto

lemma count_where_pos: "0 < count_where P rows \<longleftrightarrow> (\<exists>r \<in> set rows. P r)"
  by (induction rows) auto

text \<open>With a key that is unique in the table, a condition that fixes the key selects one row.\<close>

lemma count_where_key_le1:
  assumes "distinct (map k rows)" and "\<And>r. P r \<Longrightarrow> k r = x"
  shows "count_where P rows \<le> 1"
  using assms
proof (induction rows)
  case (Cons r rows)
  have "count_where P rows = 0" if "P r"
    using Cons.prems that unfolding count_where_zero by (auto simp: image_iff)
  with Cons show ?case by auto
qed simp

lemma count_where_key_one:
  assumes "distinct (map k rows)" and "\<And>r. P r \<Longrightarrow> k r = x" and "r \<in> set rows" "P r"
  shows "count_where P rows = 1"
proof -
  have "count_where P rows \<le> 1" using assms(1,2) by (rule count_where_key_le1)
  moreover have "0 < count_where P rows" using assms(3,4) by (auto simp: count_where_pos)
  ultimately show ?thesis by simp
qed

text \<open>Changing one keyed row raises a count by at most one.\<close>

lemma count_where_update_key:
  assumes "distinct (map k rows)" and "\<And>r. P r \<Longrightarrow> k r = x"
  shows "count_where Q (update_where P f rows) \<le> Suc (count_where Q rows)"
  using assms
proof (induction rows)
  case (Cons r rows)
  show ?case
  proof (cases "P r")
    case True
    then have "\<And>u. u \<in> set rows \<Longrightarrow> \<not> P u"
      using Cons.prems by (auto simp: image_iff)
    then have "count_where Q (update_where P f rows) = count_where Q rows"
      by (intro count_where_update_eq) auto
    then show ?thesis by simp
  next
    case False
    with Cons show ?thesis by auto
  qed
qed simp

lemma key_unique:
  assumes "distinct (map k rows)" "r \<in> set rows" "u \<in> set rows" "k r = k u"
  shows "r = u"
  using assms by (auto simp: distinct_map inj_on_def)

lemma set_delete_where [table_simps]: "set (delete_where P rows) = {r \<in> set rows. \<not> P r}"
  by (auto simp: delete_where_def)

lemma distinct_delete_where [simp]: "distinct (map k rows) \<Longrightarrow> distinct (map k (delete_where P rows))"
  by (simp add: delete_where_def distinct_map_filter)

lemma first_by_None [simp]: "first_by key rows = None \<longleftrightarrow> rows = []"
proof -
  have "sort_key key rows = [] \<longleftrightarrow> rows = []"
    by (metis length_0_conv length_sort)
  then show ?thesis by (auto simp: first_by_def split: list.splits)
qed

lemma first_by_Some:
  assumes "first_by key rows = Some r"
  shows "r \<in> set rows" and "u \<in> set rows \<Longrightarrow> key r \<le> key u"
proof -
  from assms obtain rs where eq: "sort_key key rows = r # rs"
    by (auto simp: first_by_def split: list.splits)
  have s: "set (sort_key key rows) = set rows" by simp
  show "r \<in> set rows" using s eq by auto
  have "sorted (map key (sort_key key rows))" by (rule sorted_sort_key)
  then have "\<forall>u \<in> set (r # rs). key r \<le> key u" using eq by auto
  then show "u \<in> set rows \<Longrightarrow> key r \<le> key u" using s eq by auto
qed

lemma find_in_set: "find P rows = Some r \<Longrightarrow> r \<in> set rows \<and> P r"
  by (induction rows) (auto split: if_splits)

lemma find_None: "find P rows = None \<longleftrightarrow> (\<forall>r \<in> set rows. \<not> P r)"
  by (induction rows) auto

lemma find_key:
  assumes "distinct (map k rows)" "r \<in> set rows" "k r = x"
  shows "find (\<lambda>r. k r = x) rows = Some r"
  using assms by (induction rows) (auto simp: image_iff)

section \<open>Sequence numbers\<close>

text \<open>
  \<open>COALESCE(MAX(sequence), 0)\<close> over the selected rows. Rows that are numbered with one more than the
  maximum are numbered 1, 2, 3 and so on.
\<close>

definition max_sequence :: "('r \<Rightarrow> int) \<Rightarrow> 'r list \<Rightarrow> int" where
  "max_sequence f rows = (case map f rows of [] \<Rightarrow> 0 | s # ss \<Rightarrow> fold max ss s)"

definition numbered :: "int list \<Rightarrow> bool" where
  "numbered ns \<longleftrightarrow> ns = map int [1..<Suc (length ns)]"

lemma numbered_Nil [simp]: "numbered []"
  by (simp add: numbered_def)

lemma numbered_append: "numbered ns \<Longrightarrow> numbered (ns @ [int (length ns) + 1])"
  by (simp add: numbered_def)

lemma fold_max_upt: "fold max (map int [2..<Suc n]) 1 = (if n = 0 then 1 else int n)"
  by (induction n) auto

lemma max_sequence_numbered:
  assumes "numbered (map f rows)"
  shows "max_sequence f rows = int (length rows)"
proof (cases rows)
  case Nil
  then show ?thesis by (simp add: max_sequence_def)
next
  case (Cons e es)
  have "map f rows = map int [1..<Suc (length rows)]" using assms by (simp add: numbered_def)
  also have "\<dots> = 1 # map int [2..<Suc (length rows)]" using Cons by (subst upt_rec) (simp add: numeral_2_eq_2)
  finally have "max_sequence f rows = fold max (map int [2..<Suc (length rows)]) 1"
    by (simp add: max_sequence_def)
  then show ?thesis using Cons by (simp only: fold_max_upt) simp
qed

lemma max_sequence_ge: "r \<in> set rows \<Longrightarrow> f r \<le> max_sequence f rows"
proof -
  have "s \<le> fold max ss s \<and> (\<forall>x \<in> set ss. x \<le> fold max ss s)" for s :: int and ss
    by (induction ss arbitrary: s) (auto intro: order_trans [OF max.cobounded1] order_trans [OF max.cobounded2])
  then show "r \<in> set rows \<Longrightarrow> f r \<le> max_sequence f rows"
    by (cases rows) (auto simp: max_sequence_def)
qed

section \<open>Text\<close>

text \<open>\<open>str.isspace\<close> on code points below 256; \<open>str.strip\<close> leaves nothing exactly on blank text.\<close>

definition is_space :: "char \<Rightarrow> bool" where
  "is_space c = (let n = of_char c :: nat in
     (9 \<le> n \<and> n \<le> 13) \<or> (28 \<le> n \<and> n \<le> 32) \<or> n = 133 \<or> n = 160)"

definition blank :: "string \<Rightarrow> bool" where
  "blank s \<longleftrightarrow> list_all is_space s"

fun show_nat :: "nat \<Rightarrow> string" where
  "show_nat n = (if n < 10 then [char_of (48 + n)] else show_nat (n div 10) @ [char_of (48 + n mod 10)])"

declare show_nat.simps [simp del]

definition show_int :: "int \<Rightarrow> string" where
  "show_int i = (if i < 0 then CHR ''-'' # show_nat (nat (- i)) else show_nat (nat i))"

section \<open>JSON values and the envelope cipher\<close>

text \<open>
  Payload columns hold sealed JSON objects. The code serialises a value with \<open>json.dumps\<close>, seals
  the bytes with the envelope cipher under associated data that names table and row, and undoes
  both on reading. \<open>json.dumps\<close> followed by \<open>json.loads\<close> is the identity on the values stored
  here, so the model seals JSON values. The cipher rests on AES-GCM from a third-party package: it
  is a parameter, and what the stores rely on is that a value opens under the associated data it
  was sealed with.
\<close>

datatype json =
    JNull
  | JBool bool
  | JInt int
  | JFloat string
  | JStr string
  | JArr "json list"
  | JObj "(string \<times> json) list"

type_synonym payload = "(string \<times> json) list"

record 'b cipher =
  seal :: "string \<Rightarrow> json \<Rightarrow> 'b"
  unseal :: "string \<Rightarrow> 'b \<Rightarrow> json option"
  seal_bytes :: "string \<Rightarrow> string \<Rightarrow> 'b"
  unseal_bytes :: "string \<Rightarrow> 'b \<Rightarrow> string option"

definition opens_sealed :: "'b cipher \<Rightarrow> bool" where
  "opens_sealed c \<longleftrightarrow> (\<forall>aad v. unseal c aad (seal c aad v) = Some v) \<and>
     (\<forall>aad s. unseal_bytes c aad (seal_bytes c aad s) = Some s)"

definition encrypt_json :: "'b cipher \<Rightarrow> payload \<Rightarrow> string \<Rightarrow> 'b" where
  "encrypt_json c value aad = seal c aad (JObj value)"

definition decrypt_json :: "'b cipher \<Rightarrow> string \<Rightarrow> 'b \<Rightarrow> string \<Rightarrow> exn + payload" where
  "decrypt_json c not_object blob aad =
     (case unseal c aad blob of
        None \<Rightarrow> Inl (OtherError ''InvalidTag'' [])
      | Some (JObj o') \<Rightarrow> Inr o'
      | Some _ \<Rightarrow> Inl (ValueError not_object))"

lemma decrypt_encrypt [simp]:
  "opens_sealed c \<Longrightarrow> decrypt_json c m (encrypt_json c v aad) aad = Inr v"
  by (simp add: decrypt_json_def encrypt_json_def opens_sealed_def)

text \<open>A cipher that satisfies the law, for witnesses: the blob carries its associated data.\<close>

definition plain_cipher :: "(string \<times> json) cipher" where
  "plain_cipher = \<lparr>seal = (\<lambda>aad v. (aad, v)),
     unseal = (\<lambda>aad b. if fst b = aad then Some (snd b) else None),
     seal_bytes = (\<lambda>aad s. (aad, JStr s)),
     unseal_bytes = (\<lambda>aad b. if fst b = aad then (case snd b of JStr s \<Rightarrow> Some s | _ \<Rightarrow> None) else None)\<rparr>"

lemma opens_plain_cipher [simp]: "opens_sealed plain_cipher"
  by (simp add: opens_sealed_def plain_cipher_def)

text \<open>
  \<open>repr\<close> and \<open>str\<close> of a decoded value, for code points below 256. A float keeps the text Python
  prints for it.
\<close>

definition hex_char :: "nat \<Rightarrow> char" where
  "hex_char n = char_of (if n < 10 then 48 + n else 87 + n)"

definition repr_char :: "char \<Rightarrow> char \<Rightarrow> string" where
  "repr_char q c = (let n = of_char c :: nat; backslash = char_of (92::nat) in
     if c = q \<or> c = backslash then [backslash, c]
     else if n = 9 then [backslash, CHR ''t'']
     else if n = 10 then [backslash, CHR ''n'']
     else if n = 13 then [backslash, CHR ''r'']
     else if n < 32 \<or> (127 \<le> n \<and> n \<le> 160) \<or> n = 173
     then [backslash, CHR ''x'', hex_char (n div 16), hex_char (n mod 16)]
     else [c])"

definition repr_string :: "string \<Rightarrow> string" where
  "repr_string s = (let single = char_of (39::nat); double = char_of (34::nat);
       q = (if List.member s single \<and> \<not> List.member s double then double else single)
     in q # concat (map (repr_char q) s) @ [q])"

fun py_repr :: "json \<Rightarrow> string" and repr_items :: "json list \<Rightarrow> string"
  and repr_fields :: "(string \<times> json) list \<Rightarrow> string" where
  "py_repr JNull = ''None''"
| "py_repr (JBool b) = (if b then ''True'' else ''False'')"
| "py_repr (JInt i) = show_int i"
| "py_repr (JFloat f) = f"
| "py_repr (JStr s) = repr_string s"
| "py_repr (JArr xs) = ''['' @ repr_items xs @ '']''"
| "py_repr (JObj kvs) = ''{'' @ repr_fields kvs @ ''}''"
| "repr_items [] = []"
| "repr_items (x # xs) = py_repr x @ (if xs = [] then [] else '', '' @ repr_items xs)"
| "repr_fields [] = []"
| "repr_fields ((k, v) # kvs) = repr_string k @ '': '' @ py_repr v @
     (if kvs = [] then [] else '', '' @ repr_fields kvs)"

fun py_str :: "json \<Rightarrow> string" where
  "py_str (JStr s) = s"
| "py_str v = py_repr v"

text \<open>Subscription of a decoded object: a missing key raises \<open>KeyError\<close>.\<close>

definition json_at :: "payload \<Rightarrow> string \<Rightarrow> exn + json" where
  "json_at p k = (case map_of p k of None \<Rightarrow> Inl (LookupError k) | Some v \<Rightarrow> Inr v)"

section \<open>Invariants of runs\<close>

text \<open>
  Several operations that share one contract: each step keeps the invariant. Every run keeps it.
\<close>

locale invariant_steps =
  fixes step :: "'op \<Rightarrow> 's \<Rightarrow> 's"
    and inv :: "'s \<Rightarrow> bool"
  assumes step_inv: "inv s \<Longrightarrow> inv (step op s)"
begin

lemma run_inv: "inv s \<Longrightarrow> inv (fold step ops s)"
  by (induction ops arbitrary: s) (auto intro: step_inv)

end

text \<open>
  With a clock: an operation carries the time it runs at, the clock never goes back, and the
  invariant may speak of the time of the last operation. \<open>legal\<close> says which operations a client may
  submit (the constructors' checks have passed).
\<close>

definition timed_run :: "(int \<Rightarrow> 'op \<Rightarrow> 's \<Rightarrow> 's) \<Rightarrow> (int \<times> 'op) list \<Rightarrow> 's \<Rightarrow> 's" where
  "timed_run step ops = fold (\<lambda>(t, op). step t op) ops"

definition timely :: "('op \<Rightarrow> bool) \<Rightarrow> int \<Rightarrow> (int \<times> 'op) list \<Rightarrow> bool" where
  "timely legal now ops \<longleftrightarrow> sorted (now # map fst ops) \<and> list_all (legal \<circ> snd) ops"

lemma timed_run_simps [simp]:
  "timed_run step [] s = s" "timed_run step ((t, op) # ops) s = timed_run step ops (step t op s)"
  by (simp_all add: timed_run_def)

lemma timely_simps [simp]:
  "timely legal now []"
  "timely legal now ((t, op) # ops) \<longleftrightarrow> now \<le> t \<and> legal op \<and> timely legal t ops"
  by (auto simp: timely_def)

locale clocked_steps =
  fixes step :: "int \<Rightarrow> 'op \<Rightarrow> 's \<Rightarrow> 's"
    and legal :: "'op \<Rightarrow> bool"
    and inv :: "int \<Rightarrow> 's \<Rightarrow> bool"
  assumes tick_inv: "inv now s \<Longrightarrow> now \<le> later \<Longrightarrow> inv later s"
    and step_at: "inv now s \<Longrightarrow> legal op \<Longrightarrow> inv now (step now op s)"
begin

lemma step_later: "inv now s \<Longrightarrow> now \<le> later \<Longrightarrow> legal op \<Longrightarrow> inv later (step later op s)"
  by (blast intro: tick_inv step_at)

lemma run_inv:
  assumes "inv now s" and "timely legal now ops"
  shows "inv (last (now # map fst ops)) (timed_run step ops s)"
  using assms
proof (induction ops arbitrary: now s)
  case Nil
  then show ?case by simp
next
  case (Cons x ops)
  obtain t op where x: "x = (t, op)" by fastforce
  have "inv t (step t op s)" using Cons.prems x by (auto intro: step_later)
  moreover have "timely legal t ops" using Cons.prems x by auto
  ultimately have "inv (last (t # map fst ops)) (timed_run step ops (step t op s))" by (rule Cons.IH)
  then show ?case using x by simp
qed

text \<open>What one legal step keeps under the invariant, every run keeps.\<close>

lemma run_keeps:
  assumes "inv now s" "timely legal now ops" "P s"
    and "\<And>t op s. inv t s \<Longrightarrow> legal op \<Longrightarrow> P s \<Longrightarrow> P (step t op s)"
  shows "P (timed_run step ops s)"
  using assms(1-3)
proof (induction ops arbitrary: now s)
  case Nil
  then show ?case by simp
next
  case (Cons x ops)
  obtain t op where x: "x = (t, op)" by fastforce
  have tick: "inv t s" and leg: "legal op" using Cons.prems x by (auto intro: tick_inv)
  have "inv t (step t op s)" by (rule step_at [OF tick leg])
  moreover have "timely legal t ops" using Cons.prems x by auto
  moreover have "P (step t op s)" by (rule assms(4) [OF tick leg Cons.prems(3)])
  ultimately have "P (timed_run step ops (step t op s))" by (rule Cons.IH)
  then show ?case using x by simp
qed

end

end
