(* ===== verification/Events.thy ===== *)
theory Events
  imports Prelude
begin

text \<open>
  The contracts shared by the stores and the workers (\<open>core/events.py\<close>, \<open>core/scheduling.py\<close>,
  \<open>runtime/controls.py\<close>): normalized events, task commands, outbox drafts, what a worker receives
  when it leases one, and the checks their constructors make.
\<close>

datatype task_state =
  TaskPending | TaskLeased | TaskSucceeded | TaskBlocked | TaskFailed | TaskCancelled

fun task_state_value :: "task_state \<Rightarrow> string" where
  "task_state_value TaskPending = ''pending''"
| "task_state_value TaskLeased = ''leased''"
| "task_state_value TaskSucceeded = ''succeeded''"
| "task_state_value TaskBlocked = ''blocked''"
| "task_state_value TaskFailed = ''failed''"
| "task_state_value TaskCancelled = ''cancelled''"

datatype outbox_state = OutboxPending | OutboxLeased | OutboxSent | OutboxFailed

definition task_terminal :: "task_state \<Rightarrow> bool" where
  "task_terminal s \<longleftrightarrow> s \<in> {TaskSucceeded, TaskBlocked, TaskFailed, TaskCancelled}"

lemma task_terminal_simps [simp]:
  "\<not> task_terminal TaskPending" "\<not> task_terminal TaskLeased" "task_terminal TaskSucceeded"
  "task_terminal TaskBlocked" "task_terminal TaskFailed" "task_terminal TaskCancelled"
  by (simp_all add: task_terminal_def)

record normalized_event =
  ev_event_id :: string
  ev_plugin_id :: string
  ev_event_type :: string
  ev_tenant_key :: string
  ev_app_id :: string
  ev_occurred_at_ms :: int
  ev_received_at_ms :: int
  ev_resource_kind :: string
  ev_resource_id :: string
  ev_trace_id :: string
  ev_schema_version :: int
  ev_correlation_id :: "string option"
  ev_source_payload :: "string option"
  ev_payload_expires_at_ms :: "int option"

text \<open>\<open>NormalizedEvent.__post_init__\<close>\<close>

definition check_event :: "normalized_event \<Rightarrow> exn + normalized_event" where
  "check_event e =
     (if list_ex blank [ev_event_id e, ev_plugin_id e, ev_event_type e, ev_tenant_key e,
          ev_app_id e, ev_resource_kind e, ev_resource_id e, ev_trace_id e]
      then Inl (ValueError ''event identity fields must be non-empty'')
      else if ev_schema_version e < 1 then Inl (ValueError ''schema_version must be positive'')
      else Inr e)"

record task_command =
  tc_plugin_id :: string
  tc_command_type :: string
  tc_session_key :: string
  tc_payload :: payload
  tc_priority :: int
  tc_available_at_ms :: int
  tc_max_attempts :: int
  tc_group_id :: "string option"

definition check_task_command :: "task_command \<Rightarrow> exn + task_command" where
  "check_task_command c =
     (if tc_plugin_id c = [] \<or> tc_command_type c = [] \<or> tc_session_key c = []
      then Inl (ValueError ''task routing fields must be non-empty'')
      else if tc_max_attempts c < 1 then Inl (ValueError ''max_attempts must be positive'')
      else case tc_group_id c of
        None \<Rightarrow> Inr c
      | Some g \<Rightarrow> if blank g then Inl (ValueError ''group_id cannot be empty'') else Inr c)"

record outbox_draft =
  od_publisher_id :: string
  od_destination_ref :: string
  od_message_kind :: string
  od_idempotency_key :: string
  od_payload :: payload
  od_available_at_ms :: int

definition check_outbox_draft :: "outbox_draft \<Rightarrow> exn + outbox_draft" where
  "check_outbox_draft d =
     (if od_publisher_id d = [] \<or> od_destination_ref d = [] \<or> od_message_kind d = [] \<or>
         od_idempotency_key d = []
      then Inl (ValueError ''outbox routing fields must be non-empty'')
      else Inr d)"

record leased_task =
  lt_task_id :: string
  lt_event_id :: "string option"
  lt_plugin_id :: string
  lt_command_type :: string
  lt_session_key :: string
  lt_payload :: payload
  lt_attempt_count :: int
  lt_max_attempts :: int
  lt_lease_expires_at_ms :: "int option"
  lt_recovery_error_code :: "string option"
  lt_tenant_key :: string
  lt_app_id :: string
  lt_group_id :: "string option"
  lt_trace_id :: string

record leased_outbox_message =
  lo_outbox_id :: string
  lo_run_id :: "string option"
  lo_publisher_id :: string
  lo_destination_ref :: string
  lo_message_kind :: string
  lo_idempotency_key :: string
  lo_payload :: payload
  lo_attempt_count :: int
  lo_lease_expires_at_ms :: "int option"

record task_concurrency_limits =
  global_limit :: int
  tenant_limit :: int
  app_limit :: int
  group_limit :: int

text \<open>\<open>TaskConcurrencyLimits.__post_init__\<close>: positive, and group <= app <= tenant <= global.\<close>

definition check_limits :: "task_concurrency_limits \<Rightarrow> exn + task_concurrency_limits" where
  "check_limits l =
     (let values = [group_limit l, app_limit l, tenant_limit l, global_limit l]
      in if Min (set values) < 1
         then Inl (ValueError ''task concurrency limits must be positive'')
         else if sort values \<noteq> values
         then Inl (ValueError ''task concurrency limits must satisfy group <= app <= tenant <= global'')
         else Inr l)"

lemma check_limits_ok:
  "check_limits l = Inr l' \<longleftrightarrow>
     l' = l \<and> 1 \<le> group_limit l \<and> group_limit l \<le> app_limit l \<and>
     app_limit l \<le> tenant_limit l \<and> tenant_limit l \<le> global_limit l"
proof -
  have "sort xs = xs \<longleftrightarrow> sorted xs" for xs :: "int list"
    by (metis sorted_sort sorted_sort_id)
  then show ?thesis by (auto simp: check_limits_def Let_def)
qed

datatype run_control_kind = STEER | FOLLOW_UP | INTERRUPT | CANCEL

fun run_control_kind_value :: "run_control_kind \<Rightarrow> string" where
  "run_control_kind_value STEER = ''steer''"
| "run_control_kind_value FOLLOW_UP = ''follow_up''"
| "run_control_kind_value INTERRUPT = ''interrupt''"
| "run_control_kind_value CANCEL = ''cancel''"

record run_control =
  ct_control_id :: string
  ct_target_task_id :: string
  ct_kind :: run_control_kind
  ct_text :: string
  ct_actor_id :: string
  ct_source_message_id :: string
  ct_created_at_ms :: int

end
