(* ===== verification/RuntimeSchema.thy ===== *)
theory RuntimeSchema
  imports Events
begin

text \<open>
  The runtime and session tables of \<open>storage/migrations.py\<close> as one record of row lists: events,
  tasks, runs and their journal, outbox, idempotency records, run controls, approvals, checkpoints
  with their sources, and the scheduler's lanes. Columns that hold a \<open>StrEnum\<close> value are of the
  enumeration's type, nullable columns are options, sealed columns have the type \<open>'b\<close> of the
  cipher's envelopes. The surrogate key of \<open>runtime_run_events\<close>, which no code reads, is left out.
\<close>

record 'b event_row =
  re_event_pk :: int
  re_event_id :: string
  re_plugin_id :: string
  re_event_type :: string
  re_tenant_key :: string
  re_app_id :: string
  re_occurred_at_ms :: int
  re_received_at_ms :: int
  re_schema_version :: int
  re_resource_kind :: string
  re_resource_id :: string
  re_correlation_id :: "string option"
  re_trace_id :: string
  re_payload :: "'b option"
  re_payload_expires_at_ms :: "int option"
  re_status :: string
  re_created_at_ms :: int

record 'b task_row =
  tk_task_id :: string
  tk_event_pk :: "int option"
  tk_plugin_id :: string
  tk_command_type :: string
  tk_session_key :: string
  tk_tenant_key :: string
  tk_app_id :: string
  tk_group_id :: "string option"
  tk_priority :: int
  tk_payload :: 'b
  tk_state :: task_state
  tk_available_at_ms :: int
  tk_lease_owner :: "string option"
  tk_lease_expires_at_ms :: "int option"
  tk_attempt_count :: int
  tk_max_attempts :: int
  tk_last_error_code :: "string option"
  tk_created_at_ms :: int
  tk_updated_at_ms :: int

datatype run_status =
  RUNNING | WAITING | COMPLETED | BLOCKED | FAILED | CANCELLED

record run_row =
  rn_run_id :: string
  rn_task_id :: string
  rn_session_key :: string
  rn_agent_definition_id :: string
  rn_agent_definition_version :: int
  rn_policy_version :: int
  rn_status :: run_status
  rn_created_at_ms :: int
  rn_updated_at_ms :: int
  rn_trace_id :: string

record 'b run_event_row =
  rv_run_id :: string
  rv_sequence :: int
  rv_event_type :: string
  rv_payload :: 'b
  rv_created_at_ms :: int

record 'b outbox_row =
  ob_outbox_id :: string
  ob_run_id :: "string option"
  ob_task_id :: "string option"
  ob_publisher_id :: string
  ob_destination_ref :: string
  ob_message_kind :: string
  ob_idempotency_key :: string
  ob_payload :: 'b
  ob_state :: outbox_state
  ob_available_at_ms :: int
  ob_lease_owner :: "string option"
  ob_lease_expires_at_ms :: "int option"
  ob_attempt_count :: int
  ob_max_attempts :: int
  ob_last_error_code :: "string option"
  ob_upstream_ref :: "string option"
  ob_created_at_ms :: int
  ob_updated_at_ms :: int

record idempotency_row =
  ik_key :: string
  ik_operation_kind :: string
  ik_state :: string
  ik_owner :: string
  ik_result_ref :: "string option"
  ik_expires_at_ms :: int
  ik_created_at_ms :: int
  ik_updated_at_ms :: int

record 'b control_row =
  rc_control_id :: string
  rc_event_pk :: int
  rc_target_task_id :: string
  rc_session_key :: string
  rc_kind :: run_control_kind
  rc_payload :: 'b
  rc_state :: string
  rc_created_at_ms :: int
  rc_applied_at_ms :: "int option"

record approval_row =
  ap_approval_id :: string
  ap_task_id :: string
  ap_run_id :: string
  ap_tenant_key :: string
  ap_app_id :: string
  ap_session_key :: string
  ap_actor_id :: string
  ap_tool_id :: string
  ap_argument_digest :: string
  ap_state :: string
  ap_expires_at_ms :: int
  ap_created_at_ms :: int
  ap_decided_at_ms :: "int option"
  ap_trace_id :: string

record 'b checkpoint_row =
  cp_run_id :: string
  cp_payload :: 'b
  cp_next_turn :: int
  cp_agent_id :: string
  cp_agent_version :: int
  cp_compactor_version :: int
  cp_created_at_ms :: int
  cp_updated_at_ms :: int

record checkpoint_source_row =
  cs_run_id :: string
  cs_source_ref :: string
  cs_source_version :: string

record lane_row =
  ln_last_served_sequence :: int
  ln_updated_at_ms :: int

record 'b rt_db =
  db_events :: "'b event_row list"
  db_event_seq :: int
  db_tasks :: "'b task_row list"
  db_runs :: "run_row list"
  db_run_events :: "'b run_event_row list"
  db_outbox :: "'b outbox_row list"
  db_idempotency :: "idempotency_row list"
  db_controls :: "'b control_row list"
  db_approvals :: "approval_row list"
  db_checkpoints :: "'b checkpoint_row list"
  db_checkpoint_sources :: "checkpoint_source_row list"
  db_next_sequence :: int
  db_lanes :: "(string \<times> string) \<rightharpoonup> lane_row"

definition empty_db :: "'b rt_db" where
  "empty_db = \<lparr>db_events = [], db_event_seq = 0, db_tasks = [], db_runs = [], db_run_events = [],
     db_outbox = [], db_idempotency = [], db_controls = [], db_approvals = [],
     db_checkpoints = [], db_checkpoint_sources = [], db_next_sequence = 0, db_lanes = Map.empty\<rparr>"

section \<open>Associated data\<close>

definition event_aad :: "normalized_event \<Rightarrow> string" where
  "event_aad e = ''runtime_events:'' @ ev_tenant_key e @ '':'' @ ev_app_id e @ '':'' @
     ev_event_id e @ '':v'' @ show_int (ev_schema_version e)"

definition task_aad :: "string \<Rightarrow> string" where
  "task_aad task_id = ''runtime_tasks:'' @ task_id @ '':v1''"

definition outbox_aad :: "string \<Rightarrow> string" where
  "outbox_aad outbox_id = ''runtime_outbox:'' @ outbox_id @ '':v1''"

definition control_aad :: "string \<Rightarrow> string" where
  "control_aad control_id = ''runtime_run_controls:'' @ control_id @ '':v1''"

definition runtime_decrypt :: "'b cipher \<Rightarrow> 'b \<Rightarrow> string \<Rightarrow> exn + payload" where
  "runtime_decrypt c blob aad = decrypt_json c ''stored payload must be an object'' blob aad"

lemma runtime_decrypt_encrypt [simp]:
  "opens_sealed c \<Longrightarrow> runtime_decrypt c (encrypt_json c v aad) aad = Inr v"
  by (simp add: runtime_decrypt_def)

text \<open>\<open>dict.get\<close> on a decoded object.\<close>

definition json_get :: "payload \<Rightarrow> string \<Rightarrow> json option" where
  "json_get p k = map_of p k"

end
