(* ===== verification/Budgets.thy ===== *)
theory Budgets
  imports Prelude
begin

text \<open>
  The in-memory budget ledger of one run (\<open>core/budgets.py\<close>): limits, consumption and
  reservations per budget kind. Every operation validates its amount, refuses to exceed what is
  available, and leaves the ledger unchanged when it raises.
\<close>

datatype budget_kind = TOOL_CALLS | EXTERNAL_WRITES | WALL_TIME_MS | COST_MICROS | AGENT_NODES

fun budget_kind_value :: "budget_kind \<Rightarrow> string" where
  "budget_kind_value TOOL_CALLS = ''tool_calls''"
| "budget_kind_value EXTERNAL_WRITES = ''external_writes''"
| "budget_kind_value WALL_TIME_MS = ''wall_time_ms''"
| "budget_kind_value COST_MICROS = ''cost_micros''"
| "budget_kind_value AGENT_NODES = ''agent_nodes''"

lemma budget_kind_value_inject [simp]:
  "budget_kind_value a = budget_kind_value b \<longleftrightarrow> a = b"
  by (cases a; cases b; simp)

record budget_limit =
  bl_kind :: budget_kind
  bl_maximum :: int

definition make_budget_limit :: "budget_kind \<Rightarrow> int \<Rightarrow> exn + budget_limit" where
  "make_budget_limit kind maximum =
     (if maximum < 0 then Inl (ValueError ''budget maximum cannot be negative'')
      else Inr \<lparr>bl_kind = kind, bl_maximum = maximum\<rparr>)"

record budget_ledger =
  ledger_limits :: "budget_kind \<rightharpoonup> int"
  ledger_consumed :: "budget_kind \<rightharpoonup> int"
  ledger_reserved :: "budget_kind \<rightharpoonup> int"

text \<open>\<open>dict.get(kind, 0)\<close>\<close>

definition get0 :: "('k \<rightharpoonup> int) \<Rightarrow> 'k \<Rightarrow> int" where
  "get0 m k = (case m k of None \<Rightarrow> 0 | Some v \<Rightarrow> v)"

lemma get0_upd [simp]: "get0 (m(k \<mapsto> v)) j = (if j = k then v else get0 m j)"
  by (simp add: get0_def)

lemma get0_empty [simp]: "get0 Map.empty k = 0" "get0 (\<lambda>x. None) k = 0"
  by (simp_all add: get0_def)

text \<open>The dictionary comprehension keeps the last value of a repeated kind; then the sizes differ.\<close>

definition from_limits :: "budget_limit list \<Rightarrow> exn + budget_ledger" where
  "from_limits ls =
     (if length (remdups (map bl_kind ls)) \<noteq> length ls
      then Inl (ValueError ''budget kinds must be unique'')
      else Inr \<lparr>ledger_limits = map_of (rev (map (\<lambda>l. (bl_kind l, bl_maximum l)) ls)),
                ledger_consumed = Map.empty, ledger_reserved = Map.empty\<rparr>)"

definition available :: "budget_ledger \<Rightarrow> budget_kind \<Rightarrow> int" where
  "available l kind = get0 (ledger_limits l) kind - get0 (ledger_consumed l) kind - get0 (ledger_reserved l) kind"

definition reserve :: "budget_kind \<Rightarrow> int \<Rightarrow> budget_ledger \<Rightarrow> exn + budget_ledger" where
  "reserve kind amount l =
     (if amount < 0 then Inl (ValueError ''budget amount cannot be negative'')
      else if available l kind < amount
      then Inl (ValueError (budget_kind_value kind @ '' budget exceeded''))
      else Inr (l\<lparr>ledger_reserved := (ledger_reserved l)(kind \<mapsto> get0 (ledger_reserved l) kind + amount)\<rparr>))"

definition consume :: "budget_kind \<Rightarrow> int \<Rightarrow> bool \<Rightarrow> budget_ledger \<Rightarrow> exn + budget_ledger" where
  "consume kind amount from_reservation l =
     (if amount < 0 then Inl (ValueError ''budget amount cannot be negative'')
      else if from_reservation then
        (if get0 (ledger_reserved l) kind < amount
         then Inl (ValueError (budget_kind_value kind @ '' reservation exceeded''))
         else Inr (l\<lparr>ledger_reserved := (ledger_reserved l)(kind \<mapsto> get0 (ledger_reserved l) kind - amount),
                     ledger_consumed := (ledger_consumed l)(kind \<mapsto> get0 (ledger_consumed l) kind + amount)\<rparr>))
      else if available l kind < amount
      then Inl (ValueError (budget_kind_value kind @ '' budget exceeded''))
      else Inr (l\<lparr>ledger_consumed := (ledger_consumed l)(kind \<mapsto> get0 (ledger_consumed l) kind + amount)\<rparr>))"

definition release :: "budget_kind \<Rightarrow> int \<Rightarrow> budget_ledger \<Rightarrow> exn + budget_ledger" where
  "release kind amount l =
     (if amount < 0 then Inl (ValueError ''budget amount cannot be negative'')
      else if get0 (ledger_reserved l) kind < amount
      then Inl (ValueError (budget_kind_value kind @ '' reservation release exceeded''))
      else Inr (l\<lparr>ledger_reserved := (ledger_reserved l)(kind \<mapsto> get0 (ledger_reserved l) kind - amount)\<rparr>))"

section \<open>The ledger never overdraws\<close>

text \<open>
  The invariant: nothing negative, and per kind consumption plus reservations stay within the
  limit (zero for a kind without one).
\<close>

definition ledger_ok :: "budget_ledger \<Rightarrow> bool" where
  "ledger_ok l \<longleftrightarrow> (\<forall>k. 0 \<le> get0 (ledger_consumed l) k \<and> 0 \<le> get0 (ledger_reserved l) k \<and>
     get0 (ledger_consumed l) k + get0 (ledger_reserved l) k \<le> get0 (ledger_limits l) k)"

lemma available_nonneg: "ledger_ok l \<Longrightarrow> 0 \<le> available l k"
  unfolding ledger_ok_def available_def by (drule spec [of _ k]) linarith

lemma reserve_ok: "ledger_ok l \<Longrightarrow> reserve k n l = Inr l' \<Longrightarrow> ledger_ok l' \<and> ledger_limits l' = ledger_limits l"
  by (auto simp: reserve_def ledger_ok_def available_def split: if_splits)

lemma consume_ok: "ledger_ok l \<Longrightarrow> consume k n b l = Inr l' \<Longrightarrow> ledger_ok l' \<and> ledger_limits l' = ledger_limits l"
  by (auto simp: consume_def ledger_ok_def available_def split: if_splits)

lemma release_ok: "ledger_ok l \<Longrightarrow> release k n l = Inr l' \<Longrightarrow> ledger_ok l' \<and> ledger_limits l' = ledger_limits l"
proof -
  assume ok: "ledger_ok l" and r: "release k n l = Inr l'"
  from r have n: "0 \<le> n" "n \<le> get0 (ledger_reserved l) k"
    and l': "l' = l\<lparr>ledger_reserved := (ledger_reserved l)(k \<mapsto> get0 (ledger_reserved l) k - n)\<rparr>"
    by (auto simp: release_def split: if_splits)
  from ok have "get0 (ledger_consumed l) k + get0 (ledger_reserved l) k \<le> get0 (ledger_limits l) k"
    by (simp add: ledger_ok_def)
  with n have "get0 (ledger_consumed l) k + (get0 (ledger_reserved l) k - n) \<le> get0 (ledger_limits l) k" by linarith
  with ok n l' show ?thesis by (auto simp: ledger_ok_def)
qed

text \<open>A caller's sequence of operations, keeping the ledger when one raises.\<close>

datatype ledger_op = Reserve budget_kind int | Consume budget_kind int bool | Release budget_kind int

fun apply_ledger_op :: "ledger_op \<Rightarrow> budget_ledger \<Rightarrow> exn + budget_ledger" where
  "apply_ledger_op (Reserve k n) l = reserve k n l"
| "apply_ledger_op (Consume k n b) l = consume k n b l"
| "apply_ledger_op (Release k n) l = release k n l"

definition ledger_step :: "ledger_op \<Rightarrow> budget_ledger \<Rightarrow> budget_ledger" where
  "ledger_step op l = (case apply_ledger_op op l of Inl _ \<Rightarrow> l | Inr l' \<Rightarrow> l')"

definition ledger_within :: "(budget_kind \<rightharpoonup> int) \<Rightarrow> budget_ledger \<Rightarrow> bool" where
  "ledger_within lim l \<longleftrightarrow> ledger_ok l \<and> ledger_limits l = lim"

lemma ledger_step_within: "ledger_within lim l \<Longrightarrow> ledger_within lim (ledger_step op l)"
proof (cases "apply_ledger_op op l")
  case (Inr l')
  assume w: "ledger_within lim l"
  have "ledger_ok l' \<and> ledger_limits l' = ledger_limits l"
    using w Inr unfolding ledger_within_def
    by (cases op) (auto dest: reserve_ok consume_ok release_ok)
  with w Inr show ?thesis by (simp add: ledger_step_def ledger_within_def)
qed (simp add: ledger_step_def)

interpretation ledger: invariant_steps ledger_step "ledger_within lim"
  by unfold_locales (rule ledger_step_within)

lemma from_limits_ok:
  assumes "from_limits ls = Inr l" and "\<forall>x \<in> set ls. 0 \<le> bl_maximum x"
  shows "ledger_ok l"
proof -
  from assms have l: "l = \<lparr>ledger_limits = map_of (rev (map (\<lambda>x. (bl_kind x, bl_maximum x)) ls)),
      ledger_consumed = Map.empty, ledger_reserved = Map.empty\<rparr>"
    by (auto simp: from_limits_def split: if_splits)
  have "0 \<le> get0 (ledger_limits l) k" for k
    using assms(2) l by (auto simp: get0_def split: option.splits dest!: map_of_SomeD)
  with l show ?thesis by (simp add: ledger_ok_def)
qed

text \<open>
  C20. A ledger built from non-negative limits can never be overdrawn: after any sequence of
  reservations, consumptions (direct or from a reservation) and releases, whatever their amounts
  and whether or not single calls raised, every kind has consumption and reservations that are
  non-negative and together within its original limit.
\<close>

theorem ledger_never_overdrawn:
  assumes "from_limits ls = Inr l" and "\<forall>x \<in> set ls. 0 \<le> bl_maximum x"
  shows "\<forall>k. 0 \<le> get0 (ledger_consumed (fold ledger_step ops l)) k \<and>
    0 \<le> get0 (ledger_reserved (fold ledger_step ops l)) k \<and>
    get0 (ledger_consumed (fold ledger_step ops l)) k + get0 (ledger_reserved (fold ledger_step ops l)) k
      \<le> get0 (ledger_limits l) k"
proof -
  have "ledger_within (ledger_limits l) l"
    using from_limits_ok [OF assms] by (simp add: ledger_within_def)
  then have "ledger_within (ledger_limits l) (fold ledger_step ops l)" by (rule ledger.run_inv)
  then have w: "ledger_ok (fold ledger_step ops l)" "ledger_limits (fold ledger_step ops l) = ledger_limits l"
    by (simp_all add: ledger_within_def)
  from w(1) show ?thesis unfolding ledger_ok_def w(2) .
qed

theorem ledger_never_overdrawn_witness:
  "\<exists>l. from_limits [\<lparr>bl_kind = TOOL_CALLS, bl_maximum = 3\<rparr>] = Inr l \<and>
     get0 (ledger_consumed (fold ledger_step [Consume TOOL_CALLS 2 False, Consume TOOL_CALLS 2 False,
        Reserve TOOL_CALLS 1] l)) TOOL_CALLS = 2 \<and>
     get0 (ledger_consumed (fold ledger_step [Consume TOOL_CALLS 2 False, Consume TOOL_CALLS 2 False,
        Reserve TOOL_CALLS 1] l)) TOOL_CALLS +
     get0 (ledger_reserved (fold ledger_step [Consume TOOL_CALLS 2 False, Consume TOOL_CALLS 2 False,
        Reserve TOOL_CALLS 1] l)) TOOL_CALLS \<le> 3"
proof -
  let ?ls = "[\<lparr>bl_kind = TOOL_CALLS, bl_maximum = 3\<rparr>]"
  let ?l = "\<lparr>ledger_limits = [TOOL_CALLS \<mapsto> 3], ledger_consumed = Map.empty, ledger_reserved = Map.empty\<rparr>"
  let ?ops = "[Consume TOOL_CALLS 2 False, Consume TOOL_CALLS 2 False, Reserve TOOL_CALLS 1]"
  have l: "from_limits ?ls = Inr ?l" by (simp add: from_limits_def)
  have c: "get0 (ledger_consumed (fold ledger_step ?ops ?l)) TOOL_CALLS = 2"
    by (simp add: ledger_step_def consume_def reserve_def available_def get0_def)
  have "\<forall>x \<in> set ?ls. 0 \<le> bl_maximum x" by simp
  then have "get0 (ledger_consumed (fold ledger_step ?ops ?l)) TOOL_CALLS +
      get0 (ledger_reserved (fold ledger_step ?ops ?l)) TOOL_CALLS \<le> get0 (ledger_limits ?l) TOOL_CALLS"
    using ledger_never_overdrawn [OF l, of ?ops] by blast
  then have "get0 (ledger_consumed (fold ledger_step ?ops ?l)) TOOL_CALLS +
      get0 (ledger_reserved (fold ledger_step ?ops ?l)) TOOL_CALLS \<le> 3" by (simp add: get0_def)
  with l c show ?thesis by blast
qed

lemma reserve_consume_available:
  assumes "reserve k n l = Inr l1" and "consume k m True l1 = Inr l2"
  shows "available l2 k = available l k - n"
  using assms by (auto simp: reserve_def consume_def available_def split: if_splits)

lemma reserve_release_available:
  assumes "ledger_ok l" and "reserve k n l = Inr l1"
  shows "\<exists>l2. release k n l1 = Inr l2 \<and> available l2 = available l"
proof -
  from assms have n: "0 \<le> n" and l1: "l1 = l\<lparr>ledger_reserved := (ledger_reserved l)(k \<mapsto> get0 (ledger_reserved l) k + n)\<rparr>"
    by (auto simp: reserve_def split: if_splits)
  have "0 \<le> get0 (ledger_reserved l) k" using assms(1) by (simp add: ledger_ok_def)
  with n l1 show ?thesis by (auto simp: release_def available_def fun_eq_iff)
qed

end
