(* ===== verification/RunTypes.thy ===== *)
theory RunTypes
  imports RuntimeSchema Budgets
begin

text \<open>
  The data of an agent run (\<open>runtime/types.py\<close>) and the stored form of a checkpoint
  (\<open>_checkpoint_dict\<close> and \<open>_checkpoint_from_dict\<close> of \<open>storage/session_store.py\<close>), with the round trip.
  Dictionaries are association lists in insertion order; their keys are distinct.
\<close>

section \<open>Types\<close>

datatype message_role = SYSTEM | USER | ASSISTANT | TOOL

datatype tool_effect = READ | WRITE | DESTRUCTIVE

datatype verification_state = NOT_REQUIRED | VERIFIED | UNCERTAIN | VERIFICATION_FAILED

fun message_role_value :: "message_role \<Rightarrow> string" where
  "message_role_value SYSTEM = ''system''"
| "message_role_value USER = ''user''"
| "message_role_value ASSISTANT = ''assistant''"
| "message_role_value TOOL = ''tool''"

fun run_status_value :: "run_status \<Rightarrow> string" where
  "run_status_value RUNNING = ''running''"
| "run_status_value WAITING = ''waiting''"
| "run_status_value COMPLETED = ''completed''"
| "run_status_value BLOCKED = ''blocked''"
| "run_status_value FAILED = ''failed''"
| "run_status_value CANCELLED = ''cancelled''"

fun tool_effect_value :: "tool_effect \<Rightarrow> string" where
  "tool_effect_value READ = ''read''"
| "tool_effect_value WRITE = ''write''"
| "tool_effect_value DESTRUCTIVE = ''destructive''"

fun verification_state_value :: "verification_state \<Rightarrow> string" where
  "verification_state_value NOT_REQUIRED = ''not_required''"
| "verification_state_value VERIFIED = ''verified''"
| "verification_state_value UNCERTAIN = ''uncertain''"
| "verification_state_value VERIFICATION_FAILED = ''failed''"

text \<open>A \<open>StrEnum\<close> looked up by value.\<close>

definition enum_of :: "string \<Rightarrow> ('e \<Rightarrow> string) \<Rightarrow> 'e list \<Rightarrow> string \<Rightarrow> exn + 'e" where
  "enum_of name value members v = (case find (\<lambda>e. value e = v) members of
     None \<Rightarrow> Inl (ValueError (repr_string v @ '' is not a valid '' @ name)) | Some e \<Rightarrow> Inr e)"

definition message_role_of :: "string \<Rightarrow> exn + message_role" where
  "message_role_of = enum_of ''MessageRole'' message_role_value [SYSTEM, USER, ASSISTANT, TOOL]"

definition run_status_of :: "string \<Rightarrow> exn + run_status" where
  "run_status_of = enum_of ''RunStatus'' run_status_value
     [RUNNING, WAITING, COMPLETED, BLOCKED, FAILED, CANCELLED]"

definition verification_state_of :: "string \<Rightarrow> exn + verification_state" where
  "verification_state_of = enum_of ''VerificationState'' verification_state_value
     [NOT_REQUIRED, VERIFIED, UNCERTAIN, VERIFICATION_FAILED]"

lemma enum_values [simp]:
  "message_role_of (message_role_value r) = Inr r" "run_status_of (run_status_value s) = Inr s"
  "verification_state_of (verification_state_value v) = Inr v"
proof -
  show "message_role_of (message_role_value r) = Inr r"
    by (cases r; simp add: message_role_of_def enum_of_def)
  show "run_status_of (run_status_value s) = Inr s"
    by (cases s; simp add: run_status_of_def enum_of_def)
  show "verification_state_of (verification_state_value v) = Inr v"
    by (cases v; simp add: verification_state_of_def enum_of_def)
qed

record tool_call =
  call_call_id :: string
  call_tool_id :: string
  call_arguments :: payload

record model_message =
  mm_role :: message_role
  mm_content :: string
  mm_name :: "string option"
  mm_tool_call_id :: "string option"
  mm_trusted :: bool
  mm_tool_calls :: "tool_call list"

record tool_definition =
  td_tool_id :: string
  td_version :: int
  td_description :: string
  td_input_schema :: payload
  td_effect :: tool_effect
  td_parallel_safe :: bool

record model_usage =
  mu_input_tokens :: int
  mu_output_tokens :: int
  mu_cost_micros :: int

record model_response =
  mr_content :: string
  mr_tool_calls :: "tool_call list"
  mr_usage :: model_usage
  mr_provider_response_id :: "string option"

record model_request =
  mq_run_id :: string
  mq_node_id :: string
  mq_model_profile :: string
  mq_messages :: "model_message list"
  mq_tools :: "tool_definition list"
  mq_remaining_budget :: "(string \<times> int) list"

record verification_record =
  vr_state :: verification_state
  vr_verifier_id :: string
  vr_summary :: string
  vr_resource_refs :: "string list"

record tool_result =
  tr_call_id :: string
  tr_tool_id :: string
  tr_observation :: payload
  tr_effect :: tool_effect
  tr_verification :: verification_record
  tr_error_code :: "string option"
  tr_checkpoint_safe :: bool

definition tool_succeeded :: "tool_result \<Rightarrow> bool" where
  "tool_succeeded r \<longleftrightarrow> tr_error_code r = None"

record run_event =
  en_run_id :: string
  en_sequence :: int
  en_event_type :: string
  en_payload :: payload
  en_created_at_ms :: int

record agent_definition =
  ad_agent_id :: string
  ad_version :: int
  ad_instructions :: string
  ad_model_profile :: string
  ad_tool_ids :: "string list"
  ad_resource_packages :: "string list"
  ad_budget_limits :: "budget_limit list"
  ad_max_context_tokens :: int
  ad_require_verified_external_effect :: bool
  ad_policy_version :: int
  ad_compactor_version :: int

definition check_agent_definition :: "agent_definition \<Rightarrow> exn + agent_definition" where
  "check_agent_definition d =
     (if ad_agent_id d = [] \<or> ad_version d < 1 \<or> ad_instructions d = []
      then Inl (ValueError ''AgentDefinition identity and instructions are required'')
      else if ad_max_context_tokens d < 1
      then Inl (ValueError ''AgentDefinition context capacity must be positive'')
      else if length (remdups (ad_tool_ids d)) \<noteq> length (ad_tool_ids d)
      then Inl (ValueError ''AgentDefinition tool_ids must be unique'')
      else Inr d)"

text \<open>\<open>AgentDefinition.budget_limit\<close>: the first limit of the kind.\<close>

definition agent_budget_limit :: "agent_definition \<Rightarrow> budget_kind \<Rightarrow> int" where
  "agent_budget_limit d kind = (case find (\<lambda>l. bl_kind l = kind) (ad_budget_limits d) of
     None \<Rightarrow> 0 | Some l \<Rightarrow> bl_maximum l)"

record run_checkpoint =
  ck_run_id :: string
  ck_agent_id :: string
  ck_agent_version :: int
  ck_resource_versions :: "(string \<times> string) list"
  ck_next_turn :: int
  ck_messages :: "model_message list"
  ck_verified_effects :: "verification_record list"
  ck_blockers :: "string list"
  ck_source_versions :: "(string \<times> string) list"
  ck_consumed_budget :: "(string \<times> int) list"
  ck_compactor_version :: int
  ck_applied_control_ids :: "string list"
  ck_unresolved_external_effects :: "string list"
  ck_policy_version :: int
  ck_tool_schema_fingerprint :: string

record agent_outcome =
  oc_status :: run_status
  oc_summary :: string
  oc_resource_refs :: "string list"
  oc_warnings :: "string list"

definition check_outcome :: "agent_outcome \<Rightarrow> exn + agent_outcome" where
  "check_outcome o' = (if oc_status o' = RUNNING
     then Inl (ValueError ''AgentOutcome must be terminal or waiting'') else Inr o')"

section \<open>The stored form of a checkpoint\<close>

definition jstrs :: "string list \<Rightarrow> json" where
  "jstrs xs = JArr (map JStr xs)"

definition jdict :: "('v \<Rightarrow> json) \<Rightarrow> (string \<times> 'v) list \<Rightarrow> json" where
  "jdict f d = JObj (map (\<lambda>(k, v). (k, f v)) d)"

definition jopt :: "string option \<Rightarrow> json" where
  "jopt o' = (case o' of None \<Rightarrow> JNull | Some s \<Rightarrow> JStr s)"

definition call_json :: "tool_call \<Rightarrow> json" where
  "call_json t = JObj [(''call_id'', JStr (call_call_id t)), (''tool_id'', JStr (call_tool_id t)),
     (''arguments'', JObj (call_arguments t))]"

definition message_json :: "model_message \<Rightarrow> json" where
  "message_json m = JObj [(''role'', JStr (message_role_value (mm_role m))),
     (''content'', JStr (mm_content m)), (''name'', jopt (mm_name m)),
     (''tool_call_id'', jopt (mm_tool_call_id m)), (''trusted'', JBool (mm_trusted m)),
     (''tool_calls'', JArr (map call_json (mm_tool_calls m)))]"

definition verification_json :: "verification_record \<Rightarrow> json" where
  "verification_json v = JObj [(''state'', JStr (verification_state_value (vr_state v))),
     (''verifier_id'', JStr (vr_verifier_id v)), (''summary'', JStr (vr_summary v)),
     (''resource_refs'', jstrs (vr_resource_refs v))]"

definition checkpoint_dict :: "run_checkpoint \<Rightarrow> payload" where
  "checkpoint_dict c = [
     (''run_id'', JStr (ck_run_id c)), (''agent_id'', JStr (ck_agent_id c)),
     (''agent_version'', JInt (ck_agent_version c)),
     (''resource_versions'', jdict JStr (ck_resource_versions c)),
     (''next_turn'', JInt (ck_next_turn c)),
     (''messages'', JArr (map message_json (ck_messages c))),
     (''verified_effects'', JArr (map verification_json (ck_verified_effects c))),
     (''blockers'', jstrs (ck_blockers c)),
     (''source_versions'', jdict JStr (ck_source_versions c)),
     (''consumed_budget'', jdict JInt (ck_consumed_budget c)),
     (''compactor_version'', JInt (ck_compactor_version c)),
     (''applied_control_ids'', jstrs (ck_applied_control_ids c)),
     (''unresolved_external_effects'', jstrs (ck_unresolved_external_effects c)),
     (''policy_version'', JInt (ck_policy_version c)),
     (''tool_schema_fingerprint'', JStr (ck_tool_schema_fingerprint c))]"

section \<open>Reading it back\<close>

text \<open>
  Readers of a decoded value: \<open>str(...)\<close>, \<open>int(...)\<close>, iteration and \<open>dict.items\<close>. Where a stored
  document has another shape than the writer's, the readers raise a \<open>TypeError\<close>; Python raises there
  too, or coerces a value that is never stored.
\<close>

definition as_int :: "json \<Rightarrow> exn + int" where
  "as_int v = (case v of JInt i \<Rightarrow> Inr i | JBool b \<Rightarrow> Inr (if b then 1 else 0)
     | _ \<Rightarrow> Inl (TypeError ''int() argument must be a number''))"

definition as_list :: "json \<Rightarrow> exn + json list" where
  "as_list v = (case v of JArr xs \<Rightarrow> Inr xs | _ \<Rightarrow> Inl (TypeError ''object is not iterable''))"

definition as_dict :: "json \<Rightarrow> exn + payload" where
  "as_dict v = (case v of JObj d \<Rightarrow> Inr d | _ \<Rightarrow> Inl (TypeError ''object is not a mapping''))"

definition as_opt :: "json option \<Rightarrow> exn + string option" where
  "as_opt v = (case v of None \<Rightarrow> Inr None | Some JNull \<Rightarrow> Inr None | Some (JStr s) \<Rightarrow> Inr (Some s)
     | _ \<Rightarrow> Inl (TypeError ''expected a string''))"

definition as_strs :: "json \<Rightarrow> exn + string list" where
  "as_strs v = chain (as_list v) (\<lambda>xs. Inr (map py_str xs))"

definition truthy :: "json option \<Rightarrow> bool" where
  "truthy v = (case v of None \<Rightarrow> False | Some JNull \<Rightarrow> False | Some (JBool b) \<Rightarrow> b
     | Some (JInt i) \<Rightarrow> i \<noteq> 0 | Some (JFloat f) \<Rightarrow> f \<noteq> ''0.0'' \<and> f \<noteq> ''-0.0''
     | Some (JStr s) \<Rightarrow> s \<noteq> [] | Some (JArr xs) \<Rightarrow> xs \<noteq> [] | Some (JObj d) \<Rightarrow> d \<noteq> [])"

definition str_dict :: "json \<Rightarrow> exn + (string \<times> string) list" where
  "str_dict v = chain (as_dict v) (\<lambda>d. Inr (map (\<lambda>(k, x). (k, py_str x)) d))"

definition int_dict :: "json \<Rightarrow> exn + (string \<times> int) list" where
  "int_dict v = chain (as_dict v) (decode_all (\<lambda>(k, x). chain (as_int x) (\<lambda>i. Inr (k, i))))"

definition call_of :: "json \<Rightarrow> exn + tool_call" where
  "call_of v = chain (as_dict v) (\<lambda>d. chain (json_at d ''call_id'') (\<lambda>i.
     chain (json_at d ''tool_id'') (\<lambda>t. chain (json_at d ''arguments'') (\<lambda>a.
     chain (as_dict a) (\<lambda>args.
       Inr \<lparr>call_call_id = py_str i, call_tool_id = py_str t, call_arguments = args\<rparr>)))))"

definition message_of :: "json \<Rightarrow> exn + model_message" where
  "message_of v = chain (as_dict v) (\<lambda>d. chain (json_at d ''role'') (\<lambda>r.
     chain (message_role_of (py_str r)) (\<lambda>role. chain (json_at d ''content'') (\<lambda>content.
     chain (as_opt (json_get d ''name'')) (\<lambda>name. chain (as_opt (json_get d ''tool_call_id'')) (\<lambda>call_id.
     chain (case json_get d ''tool_calls'' of None \<Rightarrow> Inr [] | Some x \<Rightarrow> as_list x) (\<lambda>xs.
     chain (decode_all call_of xs) (\<lambda>calls.
       Inr \<lparr>mm_role = role, mm_content = py_str content, mm_name = name, mm_tool_call_id = call_id,
            mm_trusted = truthy (json_get d ''trusted''), mm_tool_calls = calls\<rparr>))))))))"

definition verification_of :: "json \<Rightarrow> exn + verification_record" where
  "verification_of v = chain (as_dict v) (\<lambda>d. chain (json_at d ''state'') (\<lambda>s.
     chain (verification_state_of (py_str s)) (\<lambda>state. chain (json_at d ''verifier_id'') (\<lambda>i.
     chain (json_at d ''summary'') (\<lambda>m. chain (json_at d ''resource_refs'') (\<lambda>r.
     chain (as_strs r) (\<lambda>refs.
       Inr \<lparr>vr_state = state, vr_verifier_id = py_str i, vr_summary = py_str m,
            vr_resource_refs = refs\<rparr>)))))))"

definition checkpoint_from_dict :: "payload \<Rightarrow> exn + run_checkpoint" where
  "checkpoint_from_dict d =
     chain (json_at d ''run_id'') (\<lambda>run_id. chain (json_at d ''agent_id'') (\<lambda>agent_id.
     chain (chain (json_at d ''agent_version'') as_int) (\<lambda>agent_version.
     chain (chain (json_at d ''resource_versions'') str_dict) (\<lambda>resource_versions.
     chain (chain (json_at d ''next_turn'') as_int) (\<lambda>next_turn.
     chain (chain (chain (json_at d ''messages'') as_list) (decode_all message_of)) (\<lambda>messages.
     chain (chain (chain (json_at d ''verified_effects'') as_list) (decode_all verification_of)) (\<lambda>effects.
     chain (chain (json_at d ''blockers'') as_strs) (\<lambda>blockers.
     chain (chain (json_at d ''source_versions'') str_dict) (\<lambda>source_versions.
     chain (chain (json_at d ''consumed_budget'') int_dict) (\<lambda>consumed.
     chain (chain (json_at d ''compactor_version'') as_int) (\<lambda>compactor.
     chain (case json_get d ''applied_control_ids'' of None \<Rightarrow> Inr [] | Some x \<Rightarrow> as_strs x) (\<lambda>applied.
     chain (case json_get d ''unresolved_external_effects'' of None \<Rightarrow> Inr [] | Some x \<Rightarrow> as_strs x) (\<lambda>unresolved.
     chain (case json_get d ''policy_version'' of None \<Rightarrow> Inr 0 | Some x \<Rightarrow> as_int x) (\<lambda>policy.
     Inr \<lparr>ck_run_id = py_str run_id, ck_agent_id = py_str agent_id, ck_agent_version = agent_version,
          ck_resource_versions = resource_versions, ck_next_turn = next_turn, ck_messages = messages,
          ck_verified_effects = effects, ck_blockers = blockers, ck_source_versions = source_versions,
          ck_consumed_budget = consumed, ck_compactor_version = compactor,
          ck_applied_control_ids = applied, ck_unresolved_external_effects = unresolved,
          ck_policy_version = policy,
          ck_tool_schema_fingerprint = (case json_get d ''tool_schema_fingerprint'' of None \<Rightarrow> []
             | Some x \<Rightarrow> py_str x)\<rparr>))))))))))))))"

section \<open>Round trip\<close>

named_theorems json_read \<open>reading what was written\<close>

lemma as_simps [json_read, simp]:
  "as_int (JInt i) = Inr i" "as_list (JArr vs) = Inr vs" "as_dict (JObj d) = Inr d"
  "as_opt (Some (jopt s)) = Inr s" "as_strs (jstrs xs) = Inr xs" "truthy (Some (JBool b)) = b"
  "str_dict (jdict JStr sd) = Inr sd"
  by (simp_all add: as_int_def as_list_def as_dict_def as_opt_def jopt_def as_strs_def jstrs_def
      truthy_def str_dict_def jdict_def comp_def case_prod_unfold split: option.splits)

lemma int_dict_jdict [json_read, simp]: "int_dict (jdict JInt d) = Inr d"
proof -
  have "decode_all (\<lambda>(k, x). chain (as_int x) (\<lambda>i. Inr (k, i))) (map (\<lambda>(k, v). (k, JInt v)) d) = Inr d"
    by (rule decode_all_map) auto
  then show ?thesis by (simp add: int_dict_def jdict_def)
qed

lemma call_of_json [json_read, simp]: "call_of (call_json t) = Inr t"
  by (simp add: call_of_def call_json_def json_at_def)

lemma decode_calls [json_read, simp]: "decode_all call_of (map call_json ts) = Inr ts"
  by (rule decode_all_map) simp

lemma message_of_json [json_read, simp]: "message_of (message_json m) = Inr m"
  by (simp add: message_of_def message_json_def json_at_def json_get_def)

lemma verification_of_json [json_read, simp]: "verification_of (verification_json v) = Inr v"
  by (simp add: verification_of_def verification_json_def json_at_def)

lemma decode_messages [json_read, simp]: "decode_all message_of (map message_json ms) = Inr ms"
  by (rule decode_all_map) simp

lemma decode_verifications [json_read, simp]:
  "decode_all verification_of (map verification_json vs) = Inr vs"
  by (rule decode_all_map) simp

lemma checkpoint_from_dict_dict: "checkpoint_from_dict (checkpoint_dict c) = Inr c"
  by (simp add: checkpoint_from_dict_def checkpoint_dict_def json_at_def json_get_def)

end
