(* ===== verification/TaskQueue.thy ===== *)
theory TaskQueue
  imports RuntimeSchema
begin

text \<open>
  The durable task queue of \<open>storage/runtime_store.py\<close>: leasing with recovery of expired leases,
  selection of the next tasks (plain or under concurrency limits with fair lanes), and the three
  ways a worker gives a lease back. Each definition is one method; the SQL conditions are kept as
  predicates on rows.
\<close>

section \<open>Leasing\<close>

definition exhausted_code :: "string option \<Rightarrow> bool" where
  "exhausted_code c \<longleftrightarrow> c = Some ''retry_exhausted'' \<or> c = Some ''lease_retry_exhausted''"

definition lease_expired :: "int \<Rightarrow> 'b task_row \<Rightarrow> bool" where
  "lease_expired now t \<longleftrightarrow> tk_state t = TaskLeased \<and> null_le (tk_lease_expires_at_ms t) now"

text \<open>The two \<open>UPDATE\<close> statements that open \<open>lease_tasks\<close>.\<close>

definition release_expired :: "int \<Rightarrow> 'b task_row list \<Rightarrow> 'b task_row list" where
  "release_expired now = update_where
     (\<lambda>t. lease_expired now t \<and> tk_attempt_count t < tk_max_attempts t)
     (\<lambda>t. t\<lparr>tk_state := TaskPending, tk_lease_owner := None, tk_lease_expires_at_ms := None,
            tk_updated_at_ms := now\<rparr>)"

definition exhaust_expired :: "int \<Rightarrow> 'b task_row list \<Rightarrow> 'b task_row list" where
  "exhaust_expired now = update_where
     (\<lambda>t. lease_expired now t \<and> tk_max_attempts t \<le> tk_attempt_count t)
     (\<lambda>t. t\<lparr>tk_state := TaskPending, tk_last_error_code := Some ''lease_retry_exhausted'',
            tk_lease_owner := None, tk_lease_expires_at_ms := None, tk_updated_at_ms := now\<rparr>)"

definition reclaim_leases :: "int \<Rightarrow> 'b rt_db \<Rightarrow> 'b rt_db" where
  "reclaim_leases now db = db\<lparr>db_tasks := exhaust_expired now (release_expired now (db_tasks db))\<rparr>"

definition task_live :: "int \<Rightarrow> 'b task_row \<Rightarrow> bool" where
  "task_live now t \<longleftrightarrow> tk_state t = TaskLeased \<and> null_gt (tk_lease_expires_at_ms t) now"

text \<open>The \<open>WHERE\<close> clause of the \<open>ranked\<close> subquery.\<close>

definition task_ready :: "int \<Rightarrow> 'b task_row list \<Rightarrow> 'b task_row \<Rightarrow> bool" where
  "task_ready now tasks t \<longleftrightarrow>
     tk_state t = TaskPending \<and> tk_available_at_ms t \<le> now \<and>
     (tk_attempt_count t < tk_max_attempts t \<or> exhausted_code (tk_last_error_code t)) \<and>
     \<not> list_ex (\<lambda>a. tk_session_key a = tk_session_key t \<and> task_live now a) tasks"

text \<open>\<open>ORDER BY priority DESC, created_at_ms, task_id\<close>\<close>

definition task_order :: "'b task_row \<Rightarrow> int \<times> int \<times> string" where
  "task_order t = (- tk_priority t, tk_created_at_ms t, tk_task_id t)"

text \<open>\<open>session_rank = 1\<close>: the first ready row of its session.\<close>

definition session_first :: "'b task_row list \<Rightarrow> 'b task_row \<Rightarrow> bool" where
  "session_first ready t \<longleftrightarrow>
     list_all (\<lambda>u. tk_session_key u = tk_session_key t \<longrightarrow> task_order t \<le> task_order u) ready"

definition ranked :: "int \<Rightarrow> 'b task_row list \<Rightarrow> 'b task_row list" where
  "ranked now tasks = (let ready = filter (task_ready now tasks) tasks
                       in filter (session_first ready) ready)"

text \<open>\<open>_lease_task\<close>\<close>

definition mark_leased :: "string \<Rightarrow> int \<Rightarrow> int \<Rightarrow> 'b task_row \<Rightarrow> 'b task_row" where
  "mark_leased worker_id now expires t =
     t\<lparr>tk_state := TaskLeased, tk_lease_owner := Some worker_id,
       tk_lease_expires_at_ms := Some expires,
       tk_attempt_count := (if exhausted_code (tk_last_error_code t) then tk_attempt_count t
                            else tk_attempt_count t + 1),
       tk_updated_at_ms := now\<rparr>"

definition lease_task :: "string \<Rightarrow> string \<Rightarrow> int \<Rightarrow> int \<Rightarrow> 'b rt_db \<Rightarrow> exn + 'b rt_db" where
  "lease_task task_id worker_id now expires db =
     (let P = (\<lambda>t. tk_task_id t = task_id \<and> tk_state t = TaskPending)
      in if count_where P (db_tasks db) \<noteq> 1
         then Inl (RuntimeError ''selected task could not be leased'')
         else Inr (db\<lparr>db_tasks := update_where P (mark_leased worker_id now expires) (db_tasks db)\<rparr>))"

fun lease_all :: "string list \<Rightarrow> string \<Rightarrow> int \<Rightarrow> int \<Rightarrow> 'b rt_db \<Rightarrow> exn + 'b rt_db" where
  "lease_all [] worker_id now expires db = Inr db"
| "lease_all (i # ids) worker_id now expires db =
     (case lease_task i worker_id now expires db of
        Inl e \<Rightarrow> Inl e
      | Inr db' \<Rightarrow> lease_all ids worker_id now expires db')"

section \<open>Fair selection under limits\<close>

text \<open>The separator \<open>char(31)\<close> of the composed lane keys.\<close>

definition lane_sep :: string where
  "lane_sep = [char_of (31::nat)]"

definition tenant_lane :: "'b task_row \<Rightarrow> string \<times> string" where
  "tenant_lane t = (''tenant'', tk_tenant_key t)"

definition app_lane :: "'b task_row \<Rightarrow> string \<times> string" where
  "app_lane t = (''app'', tk_tenant_key t @ lane_sep @ tk_app_id t)"

definition group_lane :: "'b task_row \<Rightarrow> (string \<times> string) option" where
  "group_lane t = (case tk_group_id t of None \<Rightarrow> None
     | Some g \<Rightarrow> Some (''group'', tk_tenant_key t @ lane_sep @ tk_app_id t @ lane_sep @ g))"

definition session_lane :: "'b task_row \<Rightarrow> string \<times> string" where
  "session_lane t = (''session'', tk_session_key t)"

text \<open>\<open>COALESCE(last_served_sequence, 0)\<close> of the joined lane row\<close>

definition lane_served :: "((string \<times> string) \<rightharpoonup> lane_row) \<Rightarrow> (string \<times> string) option \<Rightarrow> int" where
  "lane_served lanes key = (case key of None \<Rightarrow> 0
     | Some k \<Rightarrow> (case lanes k of None \<Rightarrow> 0 | Some l \<Rightarrow> ln_last_served_sequence l))"

definition fair_order ::
  "((string \<times> string) \<rightharpoonup> lane_row) \<Rightarrow> 'b task_row \<Rightarrow> int \<times> int \<times> int \<times> int \<times> int \<times> int \<times> string" where
  "fair_order lanes t =
     (lane_served lanes (Some (tenant_lane t)), lane_served lanes (Some (app_lane t)),
      lane_served lanes (group_lane t), lane_served lanes (Some (session_lane t)), task_order t)"

definition same_tenant :: "'b task_row \<Rightarrow> 'b task_row \<Rightarrow> bool" where
  "same_tenant c a \<longleftrightarrow> tk_tenant_key a = tk_tenant_key c"

definition same_app :: "'b task_row \<Rightarrow> 'b task_row \<Rightarrow> bool" where
  "same_app c a \<longleftrightarrow> tk_tenant_key a = tk_tenant_key c \<and> tk_app_id a = tk_app_id c"

text \<open>\<open>active.group_id = candidate.group_id\<close>: no row equals a \<open>NULL\<close> group.\<close>

definition same_group :: "'b task_row \<Rightarrow> 'b task_row \<Rightarrow> bool" where
  "same_group c a \<longleftrightarrow> same_app c a \<and> tk_group_id c \<noteq> None \<and> tk_group_id a = tk_group_id c"

definition live_count :: "int \<Rightarrow> ('b task_row \<Rightarrow> bool) \<Rightarrow> 'b task_row list \<Rightarrow> int" where
  "live_count now Q tasks = int (count_where (\<lambda>a. task_live now a \<and> Q a) tasks)"

definition within_limits ::
  "int \<Rightarrow> task_concurrency_limits \<Rightarrow> 'b task_row list \<Rightarrow> 'b task_row \<Rightarrow> bool" where
  "within_limits now L tasks c \<longleftrightarrow>
     live_count now (same_tenant c) tasks < tenant_limit L \<and>
     live_count now (same_app c) tasks < app_limit L \<and>
     (tk_group_id c = None \<or> live_count now (same_group c) tasks < group_limit L)"

definition next_candidate ::
  "int \<Rightarrow> task_concurrency_limits \<Rightarrow> 'b rt_db \<Rightarrow> 'b task_row option" where
  "next_candidate now L db =
     first_by (fair_order (db_lanes db))
       (filter (within_limits now L (db_tasks db)) (ranked now (db_tasks db)))"

text \<open>\<open>_advance_scheduler_lanes\<close>: the served lanes move behind every other lane.\<close>

definition task_lanes :: "'b task_row \<Rightarrow> (string \<times> string) list" where
  "task_lanes t = [tenant_lane t, app_lane t, session_lane t] @
     (case group_lane t of None \<Rightarrow> [] | Some k \<Rightarrow> [k])"

definition advance_lanes :: "'b task_row \<Rightarrow> int \<Rightarrow> 'b rt_db \<Rightarrow> 'b rt_db" where
  "advance_lanes row now db =
     (let seq = db_next_sequence db + 1
      in db\<lparr>db_next_sequence := seq,
            db_lanes := fold (\<lambda>k m. m(k \<mapsto> \<lparr>ln_last_served_sequence = seq, ln_updated_at_ms = now\<rparr>))
              (task_lanes row) (db_lanes db)\<rparr>)"

text \<open>The \<open>for _ in range(remaining)\<close> loop.\<close>

fun select_fair ::
  "nat \<Rightarrow> string \<Rightarrow> int \<Rightarrow> int \<Rightarrow> task_concurrency_limits \<Rightarrow> 'b rt_db \<Rightarrow> exn + (string list \<times> 'b rt_db)" where
  "select_fair 0 worker_id now expires L db = Inr ([], db)"
| "select_fair (Suc n) worker_id now expires L db =
     (case next_candidate now L db of
        None \<Rightarrow> Inr ([], db)
      | Some row \<Rightarrow>
          (case lease_task (tk_task_id row) worker_id now expires db of
             Inl e \<Rightarrow> Inl e
           | Inr db1 \<Rightarrow>
               (case select_fair n worker_id now expires L (advance_lanes row now db1) of
                  Inl e \<Rightarrow> Inl e
                | Inr r \<Rightarrow> Inr (tk_task_id row # fst r, snd r))))"

text \<open>\<open>_select_task_ids\<close>\<close>

definition select_task_ids ::
  "string \<Rightarrow> int \<Rightarrow> int \<Rightarrow> int \<Rightarrow> task_concurrency_limits option \<Rightarrow> 'b rt_db
     \<Rightarrow> exn + (string list \<times> 'b rt_db)" where
  "select_task_ids worker_id now expires limit limits db =
     (case limits of
        None \<Rightarrow>
          (let ids = map tk_task_id (take (nat limit) (sort_key task_order (ranked now (db_tasks db))))
           in case lease_all ids worker_id now expires db of
                Inl e \<Rightarrow> Inl e
              | Inr db' \<Rightarrow> Inr (ids, db'))
      | Some L \<Rightarrow>
          (let active = live_count now (\<lambda>_. True) (db_tasks db);
               remaining = min limit (max 0 (global_limit L - active))
           in select_fair (nat remaining) worker_id now expires L db))"

text \<open>\<open>_leased_task\<close>: the row joined with its event, its payload opened.\<close>

definition task_event :: "'b rt_db \<Rightarrow> 'b task_row \<Rightarrow> 'b event_row option" where
  "task_event db t = (case tk_event_pk t of None \<Rightarrow> None
     | Some pk \<Rightarrow> find (\<lambda>e. re_event_pk e = pk) (db_events db))"

definition leased_task_of :: "'b cipher \<Rightarrow> 'b rt_db \<Rightarrow> 'b task_row \<Rightarrow> exn + leased_task" where
  "leased_task_of c db t =
     (case runtime_decrypt c (tk_payload t) (task_aad (tk_task_id t)) of
        Inl e \<Rightarrow> Inl e
      | Inr p \<Rightarrow> Inr \<lparr>lt_task_id = tk_task_id t,
          lt_event_id = map_option re_event_id (task_event db t),
          lt_plugin_id = tk_plugin_id t, lt_command_type = tk_command_type t,
          lt_session_key = tk_session_key t, lt_payload = p,
          lt_attempt_count = tk_attempt_count t, lt_max_attempts = tk_max_attempts t,
          lt_lease_expires_at_ms = tk_lease_expires_at_ms t,
          lt_recovery_error_code =
            (if exhausted_code (tk_last_error_code t) then tk_last_error_code t else None),
          lt_tenant_key = tk_tenant_key t, lt_app_id = tk_app_id t, lt_group_id = tk_group_id t,
          lt_trace_id = (case map_option re_trace_id (task_event db t) of
             None \<Rightarrow> tk_task_id t | Some tr \<Rightarrow> if tr = [] then tk_task_id t else tr)\<rparr>)"

definition leased_rows :: "string list \<Rightarrow> string \<Rightarrow> 'b task_row list \<Rightarrow> 'b task_row list" where
  "leased_rows ids worker_id tasks =
     sort_key task_order
       (filter (\<lambda>t. List.member ids (tk_task_id t) \<and> tk_lease_owner t = Some worker_id) tasks)"

definition lease_tasks_tx ::
  "'b cipher \<Rightarrow> string \<Rightarrow> int \<Rightarrow> int \<Rightarrow> int \<Rightarrow> task_concurrency_limits option
     \<Rightarrow> ('b rt_db, leased_task list) tx" where
  "lease_tasks_tx c worker_id now lease_ms limit limits db =
     (case select_task_ids worker_id now (now + lease_ms) limit limits (reclaim_leases now db) of
        Inl e \<Rightarrow> Inl e
      | Inr r \<Rightarrow>
          (if fst r = [] then Inr ([], snd r)
           else case decode_all (leased_task_of c (snd r))
                       (leased_rows (fst r) worker_id (db_tasks (snd r))) of
                  Inl e \<Rightarrow> Inl e
                | Inr ts \<Rightarrow> Inr (ts, snd r)))"

definition lease_tasks ::
  "'b cipher \<Rightarrow> string \<Rightarrow> int \<Rightarrow> int \<Rightarrow> int \<Rightarrow> task_concurrency_limits option
     \<Rightarrow> ('b rt_db, leased_task list) eff" where
  "lease_tasks c worker_id now lease_ms limit limits =
     (if worker_id = [] \<or> lease_ms \<le> 0 \<or> limit \<le> 0
      then raise (ValueError ''worker_id, lease_ms, and limit must be positive'')
      else transaction (lease_tasks_tx c worker_id now lease_ms limit limits))"


section \<open>Counting live leases\<close>

text \<open>
  A row predicate about routing (session, tenant, application, group) is not changed by a lease
  transition; \<open>routing\<close> says so.
\<close>

definition routing :: "('b task_row \<Rightarrow> bool) \<Rightarrow> bool" where
  "routing Q \<longleftrightarrow> (\<forall>t u. tk_session_key t = tk_session_key u \<and> tk_tenant_key t = tk_tenant_key u \<and>
     tk_app_id t = tk_app_id u \<and> tk_group_id t = tk_group_id u \<longrightarrow> Q t = Q u)"

lemma routing_all [simp]: "routing (\<lambda>_. True)"
  by (simp add: routing_def)

lemma routing_tenant [simp]: "routing (same_tenant c)"
  by (simp add: routing_def same_tenant_def)

lemma routing_app [simp]: "routing (same_app c)"
  by (simp add: routing_def same_app_def)

lemma routing_group [simp]: "routing (same_group c)"
  by (simp add: routing_def same_app_def same_group_def)

lemma routing_session [simp]: "routing (\<lambda>a. tk_session_key a = s)"
  by (simp add: routing_def)

lemma routing_cong:
  assumes "routing Q" "tk_session_key t = tk_session_key u" "tk_tenant_key t = tk_tenant_key u"
    "tk_app_id t = tk_app_id u" "tk_group_id t = tk_group_id u"
  shows "Q t = Q u"
  using assms unfolding routing_def by metis

lemma routing_mark_leased: "routing Q \<Longrightarrow> Q (mark_leased w n e t) = Q t"
  by (rule routing_cong) (simp_all add: mark_leased_def)

lemma mark_leased_fields [simp]:
  "tk_task_id (mark_leased w n e t) = tk_task_id t"
  "tk_session_key (mark_leased w n e t) = tk_session_key t"
  "tk_state (mark_leased w n e t) = TaskLeased"
  "tk_lease_owner (mark_leased w n e t) = Some w"
  "tk_lease_expires_at_ms (mark_leased w n e t) = Some e"
  "tk_max_attempts (mark_leased w n e t) = tk_max_attempts t"
  "tk_payload (mark_leased w n e t) = tk_payload t"
  "tk_event_pk (mark_leased w n e t) = tk_event_pk t"
  by (simp_all add: mark_leased_def)

lemma live_count_nonneg: "0 \<le> live_count now Q tasks"
  by (simp add: live_count_def)

lemma release_expired_ids [simp]: "map tk_task_id (release_expired now tasks) = map tk_task_id tasks"
  unfolding release_expired_def by (rule update_where_map_key) simp

lemma exhaust_expired_ids [simp]: "map tk_task_id (exhaust_expired now tasks) = map tk_task_id tasks"
  unfolding exhaust_expired_def by (rule update_where_map_key) simp

lemma release_expired_live:
  "live_count now Q (release_expired now tasks) = live_count now Q tasks"
  unfolding release_expired_def live_count_def of_nat_eq_iff
  by (rule count_where_update_eq) (auto simp: lease_expired_def task_live_def dest: null_gt_not_le)

lemma exhaust_expired_live:
  "live_count now Q (exhaust_expired now tasks) = live_count now Q tasks"
  unfolding exhaust_expired_def live_count_def of_nat_eq_iff
  by (rule count_where_update_eq) (auto simp: lease_expired_def task_live_def dest: null_gt_not_le)

lemma reclaim_live [simp]: "live_count now Q (db_tasks (reclaim_leases now db)) = live_count now Q (db_tasks db)"
  by (simp add: reclaim_leases_def exhaust_expired_live release_expired_live)

lemma reclaim_ids [simp]: "map tk_task_id (db_tasks (reclaim_leases now db)) = map tk_task_id (db_tasks db)"
  by (simp add: reclaim_leases_def)

text \<open>What one lease does: exactly one pending row with that identifier becomes leased.\<close>

lemma lease_task_row:
  assumes "lease_task i w now ex db = Inr db'" and "distinct (map tk_task_id (db_tasks db))"
  obtains t where "t \<in> set (db_tasks db)" "tk_task_id t = i" "tk_state t = TaskPending"
    "db' = db\<lparr>db_tasks := update_where (\<lambda>u. u = t) (mark_leased w now ex) (db_tasks db)\<rparr>"
proof -
  let ?P = "\<lambda>t. tk_task_id t = i \<and> tk_state t = TaskPending"
  from assms(1) have one: "count_where ?P (db_tasks db) = 1"
    and db': "db' = db\<lparr>db_tasks := update_where ?P (mark_leased w now ex) (db_tasks db)\<rparr>"
    by (auto simp: lease_task_def Let_def split: if_splits)
  from one have "0 < count_where ?P (db_tasks db)" by simp
  then obtain t where t: "t \<in> set (db_tasks db)" "?P t" unfolding count_where_pos by blast
  have eq: "?P u \<longleftrightarrow> u = t" if "u \<in> set (db_tasks db)" for u
    using t key_unique [OF assms(2) that t(1)] by metis
  have "update_where ?P (mark_leased w now ex) (db_tasks db) =
        update_where (\<lambda>u. u = t) (mark_leased w now ex) (db_tasks db)"
    using eq unfolding update_where_def by (simp cong: map_cong)
  with t db' that show ?thesis by metis
qed

lemma lease_task_ok:
  assumes "distinct (map tk_task_id (db_tasks db))" "t \<in> set (db_tasks db)" "tk_state t = TaskPending"
  shows "\<exists>db'. lease_task (tk_task_id t) w now ex db = Inr db'"
proof -
  have "count_where (\<lambda>u. tk_task_id u = tk_task_id t \<and> tk_state u = TaskPending) (db_tasks db) = 1"
    using assms by (intro count_where_key_one [where k = tk_task_id and r = t]) auto
  then show ?thesis by (simp add: lease_task_def)
qed

lemma lease_task_frame:
  assumes "lease_task i w now ex db = Inr db'"
  shows "map tk_task_id (db_tasks db') = map tk_task_id (db_tasks db)"
    "db_next_sequence db' = db_next_sequence db" "db_lanes db' = db_lanes db"
    "db_events db' = db_events db" "db_outbox db' = db_outbox db"
  using assms by (auto simp: lease_task_def Let_def split: if_splits intro!: update_where_map_key)

lemma lease_task_live_le:
  assumes "lease_task i w now ex db = Inr db'" "distinct (map tk_task_id (db_tasks db))"
  shows "live_count now' Q (db_tasks db') \<le> live_count now' Q (db_tasks db) + 1"
proof -
  obtain t where t: "t \<in> set (db_tasks db)"
    "db' = db\<lparr>db_tasks := update_where (\<lambda>u. u = t) (mark_leased w now ex) (db_tasks db)\<rparr>"
    using lease_task_row [OF assms] by metis
  have "count_where (\<lambda>a. task_live now' a \<and> Q a)
      (update_where (\<lambda>u. u = t) (mark_leased w now ex) (db_tasks db))
    \<le> Suc (count_where (\<lambda>a. task_live now' a \<and> Q a) (db_tasks db))"
    using assms(2) by (rule count_where_update_key [where x = "tk_task_id t"]) simp
  with t show ?thesis by (simp add: live_count_def)
qed

lemma lease_task_live_other:
  assumes "lease_task i w now ex db = Inr db'" "distinct (map tk_task_id (db_tasks db))"
    and "routing Q" and "\<And>t. t \<in> set (db_tasks db) \<Longrightarrow> tk_task_id t = i \<Longrightarrow> \<not> Q t"
  shows "live_count now' Q (db_tasks db') = live_count now' Q (db_tasks db)"
proof -
  obtain t where t: "t \<in> set (db_tasks db)" "tk_task_id t = i"
    "db' = db\<lparr>db_tasks := update_where (\<lambda>u. u = t) (mark_leased w now ex) (db_tasks db)\<rparr>"
    using lease_task_row [OF assms(1,2)] by metis
  have "count_where (\<lambda>a. task_live now' a \<and> Q a)
      (update_where (\<lambda>u. u = t) (mark_leased w now ex) (db_tasks db))
    = count_where (\<lambda>a. task_live now' a \<and> Q a) (db_tasks db)"
    using assms(4) [OF t(1,2)] routing_mark_leased [OF assms(3)]
    by (intro count_where_update_eq) simp
  with t show ?thesis by (simp add: live_count_def)
qed

text \<open>The step of every bound: the leased row's scopes had room, the others do not change.\<close>

lemma lease_task_bound:
  assumes "lease_task (tk_task_id c) w now ex db = Inr db'" "distinct (map tk_task_id (db_tasks db))"
    and "c \<in> set (db_tasks db)" and "routing Q"
    and "live_count now' Q (db_tasks db) \<le> n" and "Q c \<Longrightarrow> live_count now' Q (db_tasks db) < n"
  shows "live_count now' Q (db_tasks db') \<le> n"
proof (cases "Q c")
  case True
  then show ?thesis using assms(6) lease_task_live_le [OF assms(1,2), of now' Q] by simp
next
  case False
  then have "\<not> Q t" if "t \<in> set (db_tasks db)" "tk_task_id t = tk_task_id c" for t
    using key_unique [OF assms(2) that(1) assms(3) that(2)] by simp
  then show ?thesis using lease_task_live_other [OF assms(1,2,4)] assms(5) by simp
qed

end
