(* ===== verification/TaskQueueInv.thy ===== *)
theory TaskQueueInv
  imports TaskQueue
begin

text \<open>
  What leasing keeps and guarantees: well-formed task rows, at most one live lease per session,
  and the concurrency limits of every scope.
\<close>

section \<open>The queue invariant\<close>

definition task_row_ok :: "'b task_row \<Rightarrow> bool" where
  "task_row_ok t \<longleftrightarrow> 0 \<le> tk_attempt_count t \<and> tk_attempt_count t \<le> tk_max_attempts t \<and>
     (tk_state t = TaskLeased \<longleftrightarrow> tk_lease_owner t \<noteq> None) \<and>
     (tk_lease_owner t = None \<longleftrightarrow> tk_lease_expires_at_ms t = None)"

definition session_live :: "int \<Rightarrow> string \<Rightarrow> 'b task_row list \<Rightarrow> int" where
  "session_live now s = live_count now (\<lambda>a. tk_session_key a = s)"

definition queue_ok :: "int \<Rightarrow> 'b rt_db \<Rightarrow> bool" where
  "queue_ok now db \<longleftrightarrow> distinct (map tk_task_id (db_tasks db)) \<and>
     (\<forall>t \<in> set (db_tasks db). task_row_ok t) \<and>
     (\<forall>s. session_live now s (db_tasks db) \<le> 1)"

lemma queue_okI:
  "distinct (map tk_task_id (db_tasks db)) \<Longrightarrow> \<forall>t \<in> set (db_tasks db). task_row_ok t \<Longrightarrow>
   (\<And>s. session_live now s (db_tasks db) \<le> 1) \<Longrightarrow> queue_ok now db"
  by (simp add: queue_ok_def)

lemma queue_okD:
  assumes "queue_ok now db"
  shows "distinct (map tk_task_id (db_tasks db))" "\<forall>t \<in> set (db_tasks db). task_row_ok t"
    "session_live now s (db_tasks db) \<le> 1"
  using assms by (simp_all add: queue_ok_def)

lemma live_count_mono:
  "now \<le> later \<Longrightarrow> live_count later Q tasks \<le> live_count now Q tasks"
  unfolding live_count_def of_nat_le_iff
  by (rule count_where_mono) (auto simp: task_live_def intro: null_gt_mono)

lemma queue_ok_later: "queue_ok now db \<Longrightarrow> now \<le> later \<Longrightarrow> queue_ok later db"
  unfolding queue_ok_def session_live_def by (meson live_count_mono order_trans)

lemma reclaim_row_ok:
  assumes "\<forall>t \<in> set (db_tasks db). task_row_ok t"
  shows "\<forall>t \<in> set (db_tasks (reclaim_leases now db)). task_row_ok t"
proof -
  have "\<forall>t \<in> set (release_expired now (db_tasks db)). task_row_ok t"
    unfolding release_expired_def
    by (rule ball_update_where [OF assms]) (simp add: task_row_ok_def)
  then show ?thesis
    unfolding reclaim_leases_def exhaust_expired_def
    by (simp, intro ball_update_where) (auto simp: task_row_ok_def)
qed

lemma reclaim_queue_ok: "queue_ok now db \<Longrightarrow> queue_ok now (reclaim_leases now db)"
  by (intro queue_okI) (auto simp: session_live_def dest: queue_okD reclaim_row_ok)

text \<open>A row that one lease transition may take.\<close>

definition leasable :: "int \<Rightarrow> 'b task_row list \<Rightarrow> 'b task_row \<Rightarrow> bool" where
  "leasable now tasks c \<longleftrightarrow> c \<in> set tasks \<and> tk_state c = TaskPending \<and>
     (tk_attempt_count c < tk_max_attempts c \<or> exhausted_code (tk_last_error_code c)) \<and>
     session_live now (tk_session_key c) tasks = 0"

lemma ranked_leasable: "c \<in> set (ranked now tasks) \<Longrightarrow> leasable now tasks c"
  by (auto simp: ranked_def Let_def leasable_def task_ready_def session_live_def live_count_def
      count_where_zero list_ex_iff)

lemma lease_task_queue_ok:
  assumes ok: "queue_ok now db" and c: "leasable now (db_tasks db) c"
    and l: "lease_task (tk_task_id c) w now ex db = Inr db'"
  shows "queue_ok now db'"
proof (rule queue_okI)
  note d = queue_okD(1) [OF ok]
  show "distinct (map tk_task_id (db_tasks db'))" using d lease_task_frame(1) [OF l] by simp
  obtain t where t: "t \<in> set (db_tasks db)" "tk_task_id t = tk_task_id c"
    "db' = db\<lparr>db_tasks := update_where (\<lambda>u. u = t) (mark_leased w now ex) (db_tasks db)\<rparr>"
    using lease_task_row [OF l d] by metis
  have tc: "t = c" using key_unique [OF d t(1) _ t(2)] c by (simp add: leasable_def)
  have "\<forall>u \<in> set (update_where (\<lambda>u. u = t) (mark_leased w now ex) (db_tasks db)). task_row_ok u"
    by (rule ball_update_where [OF queue_okD(2) [OF ok]])
      (use c tc in \<open>auto simp: task_row_ok_def mark_leased_def leasable_def\<close>)
  then show "\<forall>u \<in> set (db_tasks db'). task_row_ok u" using t(3) by simp
  show "session_live now s (db_tasks db') \<le> 1" for s
    unfolding session_live_def
    by (rule lease_task_bound [OF l d])
      (use c queue_okD(3) [OF ok, of s] in \<open>auto simp: leasable_def session_live_def\<close>)
qed

lemma leasable_after:
  assumes ok: "queue_ok now db" and c: "leasable now (db_tasks db) c"
    and l: "lease_task (tk_task_id c) w now ex db = Inr db'"
    and u: "leasable now (db_tasks db) u" and ne: "tk_session_key u \<noteq> tk_session_key c"
  shows "leasable now (db_tasks db') u"
proof -
  note d = queue_okD(1) [OF ok]
  obtain t where t: "t \<in> set (db_tasks db)" "tk_task_id t = tk_task_id c"
    "db' = db\<lparr>db_tasks := update_where (\<lambda>u. u = t) (mark_leased w now ex) (db_tasks db)\<rparr>"
    using lease_task_row [OF l d] by metis
  have tc: "t = c" using key_unique [OF d t(1) _ t(2)] c by (simp add: leasable_def)
  have "u \<noteq> c" using ne by auto
  then have "u \<in> set (db_tasks db')" using u t(3) tc by (force simp: table_simps leasable_def)
  moreover have "session_live now (tk_session_key u) (db_tasks db') = session_live now (tk_session_key u) (db_tasks db)"
    unfolding session_live_def
  proof (rule lease_task_live_other [OF l d])
    fix x assume "x \<in> set (db_tasks db)" "tk_task_id x = tk_task_id c"
    then have "x = c" using key_unique [OF d] c by (simp add: leasable_def)
    with ne show "tk_session_key x \<noteq> tk_session_key u" by simp
  qed simp
  ultimately show ?thesis using u by (simp add: leasable_def)
qed

lemma lease_all_queue_ok:
  assumes "queue_ok now db" and "\<forall>c \<in> set cs. leasable now (db_tasks db) c"
    and "distinct (map tk_session_key cs)"
  shows "\<exists>db'. lease_all (map tk_task_id cs) w now ex db = Inr db' \<and> queue_ok now db'"
  using assms
proof (induction cs arbitrary: db)
  case Nil
  then show ?case by simp
next
  case (Cons c cs)
  have c: "leasable now (db_tasks db) c" using Cons.prems by simp
  obtain db1 where l: "lease_task (tk_task_id c) w now ex db = Inr db1"
    using lease_task_ok [OF queue_okD(1) [OF Cons.prems(1)]] c by (fastforce simp: leasable_def)
  have "queue_ok now db1" by (rule lease_task_queue_ok [OF Cons.prems(1) c l])
  moreover have "\<forall>u \<in> set cs. leasable now (db_tasks db1) u"
    using Cons.prems(2,3) leasable_after [OF Cons.prems(1) c l] by (auto simp: image_iff)
  ultimately have "\<exists>db'. lease_all (map tk_task_id cs) w now ex db1 = Inr db' \<and> queue_ok now db'"
    using Cons.IH Cons.prems(3) by simp
  with l show ?case by simp
qed

lemma ranked_sessions_distinct:
  assumes "distinct (map tk_task_id tasks)"
  shows "distinct (map tk_session_key (ranked now tasks))"
proof -
  have d: "distinct (ranked now tasks)"
    using assms by (simp add: ranked_def Let_def distinct_map)
  moreover have "inj_on tk_session_key (set (ranked now tasks))"
  proof (rule inj_onI)
    fix a b assume a: "a \<in> set (ranked now tasks)" and b: "b \<in> set (ranked now tasks)"
      and eq: "tk_session_key a = tk_session_key b"
    have "task_order a \<le> task_order b" "task_order b \<le> task_order a"
      using a b eq by (auto simp: ranked_def Let_def session_first_def list_all_iff)
    then have "task_order a = task_order b" by (rule antisym)
    then have "tk_task_id a = tk_task_id b" by (simp add: task_order_def)
    then show "a = b"
      using key_unique [OF assms] ranked_leasable [OF a] ranked_leasable [OF b]
      by (simp add: leasable_def)
  qed
  ultimately show ?thesis by (simp add: distinct_map)
qed

text \<open>The plain selection: sorted, cut to the limit.\<close>

definition plain_choice :: "int \<Rightarrow> int \<Rightarrow> 'b task_row list \<Rightarrow> 'b task_row list" where
  "plain_choice now limit tasks = take (nat limit) (sort_key task_order (ranked now tasks))"

lemma plain_choice_ok:
  assumes "queue_ok now db"
  shows "\<forall>c \<in> set (plain_choice now limit (db_tasks db)). leasable now (db_tasks db) c"
    and "distinct (map tk_session_key (plain_choice now limit (db_tasks db)))"
proof -
  show "\<forall>c \<in> set (plain_choice now limit (db_tasks db)). leasable now (db_tasks db) c"
    by (auto simp: plain_choice_def dest!: in_set_takeD intro: ranked_leasable)
  let ?r = "ranked now (db_tasks db)"
  have "distinct (map tk_session_key ?r)"
    by (rule ranked_sessions_distinct [OF queue_okD(1) [OF assms]])
  then have "distinct (map tk_session_key (sort_key task_order ?r))"
    by (simp add: distinct_map)
  then show "distinct (map tk_session_key (plain_choice now limit (db_tasks db)))"
    by (metis plain_choice_def distinct_take take_map)
qed

section \<open>The fair selection\<close>

lemma next_candidate_some:
  assumes "next_candidate now L db = Some c"
  shows "c \<in> set (ranked now (db_tasks db))" "within_limits now L (db_tasks db) c"
    "leasable now (db_tasks db) c"
    "\<And>u. u \<in> set (ranked now (db_tasks db)) \<Longrightarrow> within_limits now L (db_tasks db) u \<Longrightarrow>
       fair_order (db_lanes db) c \<le> fair_order (db_lanes db) u"
  using first_by_Some [OF assms [unfolded next_candidate_def]] ranked_leasable by auto

lemma advance_lanes_tasks [simp]: "db_tasks (advance_lanes row now db) = db_tasks db"
  by (simp add: advance_lanes_def Let_def)

lemma advance_lanes_frame [simp]:
  "db_events (advance_lanes row now db) = db_events db"
  "db_next_sequence (advance_lanes row now db) = db_next_sequence db + 1"
  by (simp_all add: advance_lanes_def Let_def)

lemma queue_ok_advance [simp]: "queue_ok now (advance_lanes row now' db) = queue_ok now db"
  by (simp add: queue_ok_def)

text \<open>
  The loop keeps any property of the tables that leasing a candidate within the limits keeps; the
  invariant and every scope bound are instances.
\<close>

lemma select_fair_keeps:
  assumes "queue_ok now db" and "I db"
    and step: "\<And>db c db1. queue_ok now db \<Longrightarrow> I db \<Longrightarrow> next_candidate now L db = Some c \<Longrightarrow>
      lease_task (tk_task_id c) w now ex db = Inr db1 \<Longrightarrow> I (advance_lanes c now db1)"
  shows "\<exists>ids db'. select_fair n w now ex L db = Inr (ids, db') \<and> queue_ok now db' \<and> I db'"
  using assms(1,2)
proof (induction n arbitrary: db)
  case 0
  then show ?case by simp
next
  case (Suc n)
  show ?case
  proof (cases "next_candidate now L db")
    case None
    with Suc.prems show ?thesis by simp
  next
    case (Some c)
    have c: "leasable now (db_tasks db) c" by (rule next_candidate_some(3) [OF Some])
    obtain db1 where l: "lease_task (tk_task_id c) w now ex db = Inr db1"
      using lease_task_ok [OF queue_okD(1) [OF Suc.prems(1)]] c by (fastforce simp: leasable_def)
    have "queue_ok now (advance_lanes c now db1)"
      using lease_task_queue_ok [OF Suc.prems(1) c l] by simp
    from Suc.IH [OF this step [OF Suc.prems Some l]] Some l show ?thesis by auto
  qed
qed

text \<open>The four scope bounds of the limits, at a time.\<close>

definition capacity_ok :: "int \<Rightarrow> task_concurrency_limits \<Rightarrow> 'b rt_db \<Rightarrow> bool" where
  "capacity_ok now L db \<longleftrightarrow> (\<forall>c.
     live_count now (same_tenant c) (db_tasks db) \<le> tenant_limit L \<and>
     live_count now (same_app c) (db_tasks db) \<le> app_limit L \<and>
     (tk_group_id c \<noteq> None \<longrightarrow> live_count now (same_group c) (db_tasks db) \<le> group_limit L))"

lemma capacity_step:
  assumes ok: "queue_ok now db" and cap: "capacity_ok now L db"
    and n: "next_candidate now L db = Some c"
    and l: "lease_task (tk_task_id c) w now ex db = Inr db1"
  shows "capacity_ok now L (advance_lanes c now db1)"
proof -
  note d = queue_okD(1) [OF ok]
  have cin: "c \<in> set (db_tasks db)" using next_candidate_some(3) [OF n] by (simp add: leasable_def)
  have lim: "within_limits now L (db_tasks db) c" by (rule next_candidate_some(2) [OF n])
  have "live_count now (same_tenant u) (db_tasks db1) \<le> tenant_limit L" for u
  proof (rule lease_task_bound [OF l d cin])
    assume "same_tenant u c"
    then have "same_tenant u = same_tenant c" by (auto simp: same_tenant_def fun_eq_iff)
    then show "live_count now (same_tenant u) (db_tasks db) < tenant_limit L"
      using lim by (simp add: within_limits_def)
  qed (use cap in \<open>auto simp: capacity_ok_def\<close>)
  moreover have "live_count now (same_app u) (db_tasks db1) \<le> app_limit L" for u
  proof (rule lease_task_bound [OF l d cin])
    assume "same_app u c"
    then have "same_app u = same_app c" by (auto simp: same_app_def fun_eq_iff)
    then show "live_count now (same_app u) (db_tasks db) < app_limit L"
      using lim by (simp add: within_limits_def)
  qed (use cap in \<open>auto simp: capacity_ok_def\<close>)
  moreover have "live_count now (same_group u) (db_tasks db1) \<le> group_limit L"
    if "tk_group_id u \<noteq> None" for u
  proof (rule lease_task_bound [OF l d cin])
    assume "same_group u c"
    then have "same_group u = same_group c" "tk_group_id c \<noteq> None"
      by (auto simp: same_group_def same_app_def fun_eq_iff)
    then show "live_count now (same_group u) (db_tasks db) < group_limit L"
      using lim by (auto simp: within_limits_def)
  qed (use cap that in \<open>auto simp: capacity_ok_def\<close>)
  ultimately show ?thesis by (simp add: capacity_ok_def)
qed

lemma select_fair_total:
  assumes "queue_ok now db" and "select_fair n w now ex L db = Inr (ids, db')"
  shows "live_count now Q (db_tasks db') \<le> live_count now Q (db_tasks db) + int n"
  using assms
proof (induction n arbitrary: db ids)
  case 0
  then show ?case by simp
next
  case (Suc n)
  show ?case
  proof (cases "next_candidate now L db")
    case None
    with Suc.prems show ?thesis by simp
  next
    case (Some c)
    have c: "leasable now (db_tasks db) c" by (rule next_candidate_some(3) [OF Some])
    from Suc.prems(2) Some obtain db1 r where l: "lease_task (tk_task_id c) w now ex db = Inr db1"
      and r: "select_fair n w now ex L (advance_lanes c now db1) = Inr r" "db' = snd r"
      by (auto split: sum.splits)
    have ok1: "queue_ok now (advance_lanes c now db1)"
      using lease_task_queue_ok [OF Suc.prems(1) c l] by simp
    have "live_count now Q (db_tasks db') \<le> live_count now Q (db_tasks db1) + int n"
      using Suc.IH [OF ok1] r by (cases r) simp
    moreover have "live_count now Q (db_tasks db1) \<le> live_count now Q (db_tasks db) + 1"
      by (rule lease_task_live_le [OF l queue_okD(1) [OF Suc.prems(1)]])
    ultimately show ?thesis by simp
  qed
qed

section \<open>Selection and leasing\<close>

lemma select_task_ids_ok:
  assumes "queue_ok now db"
  shows "\<exists>ids db'. select_task_ids w now ex limit limits db = Inr (ids, db') \<and> queue_ok now db' \<and>
     (case limits of None \<Rightarrow> True | Some L \<Rightarrow> capacity_ok now L db \<longrightarrow> capacity_ok now L db')"
proof (cases limits)
  case None
  from lease_all_queue_ok [OF assms plain_choice_ok [OF assms, of limit], of w ex]
  show ?thesis using None by (auto simp: select_task_ids_def plain_choice_def)
next
  case (Some L)
  from select_fair_keeps [OF assms, of "\<lambda>d. capacity_ok now L db \<longrightarrow> capacity_ok now L d"]
  have "\<exists>ids db'. select_fair n w now ex L db = Inr (ids, db') \<and> queue_ok now db' \<and>
      (capacity_ok now L db \<longrightarrow> capacity_ok now L db')" for n
    using capacity_step by fastforce
  with Some show ?thesis by (simp add: select_task_ids_def Let_def)
qed

lemma lease_tasks_tx_cases:
  assumes "lease_tasks_tx c w now lease limit limits db = Inr (ts, db')"
  obtains ids where
    "select_task_ids w now (now + lease) limit limits (reclaim_leases now db) = Inr (ids, db')"
    "ids = [] \<longrightarrow> ts = []"
    "ids \<noteq> [] \<longrightarrow> decode_all (leased_task_of c db') (leased_rows ids w (db_tasks db')) = Inr ts"
  using assms by (auto simp: lease_tasks_tx_def split: sum.splits if_splits)

lemma lease_tasks_keeps:
  assumes "P db" and "\<And>ts db'. lease_tasks_tx c w now lease limit limits db = Inr (ts, db') \<Longrightarrow> P db'"
  shows "P (snd (lease_tasks c w now lease limit limits db))"
  using assms by (auto simp: lease_tasks_def raise_def intro: transaction_inv)

lemma lease_tasks_queue_ok:
  assumes "queue_ok now db"
  shows "queue_ok now (snd (lease_tasks c w now lease limit limits db))"
  using assms
proof (rule lease_tasks_keeps)
  fix ts db' assume "lease_tasks_tx c w now lease limit limits db = Inr (ts, db')"
  then show "queue_ok now db'"
    using select_task_ids_ok [OF reclaim_queue_ok [OF assms], of w "now + lease" limit limits]
    by (auto elim!: lease_tasks_tx_cases)
qed

end
