(* ===== verification/TaskLeasing.thy ===== *)
theory TaskLeasing
  imports TaskQueueInv
begin

text \<open>
  What a worker can rely on when \<open>lease_tasks\<close> returns: the tasks are leased to it until the
  requested expiry, there is progress whenever work fits the limits, and the lanes serve tenants
  in turn.
\<close>

section \<open>The leased rows\<close>

definition leased_to :: "string \<Rightarrow> int \<Rightarrow> 'b task_row \<Rightarrow> bool" where
  "leased_to w ex t \<longleftrightarrow> tk_state t = TaskLeased \<and> tk_lease_owner t = Some w \<and>
     tk_lease_expires_at_ms t = Some ex"

lemma lease_task_leases:
  assumes "lease_task i w now ex db = Inr db'" "distinct (map tk_task_id (db_tasks db))"
  shows "\<exists>t \<in> set (db_tasks db'). tk_task_id t = i \<and> leased_to w ex t"
proof -
  obtain t where t: "t \<in> set (db_tasks db)" "tk_task_id t = i"
    "db' = db\<lparr>db_tasks := update_where (\<lambda>u. u = t) (mark_leased w now ex) (db_tasks db)\<rparr>"
    using lease_task_row [OF assms] by metis
  then have "mark_leased w now ex t \<in> set (db_tasks db')" by (force simp: table_simps)
  with t(2) show ?thesis by (intro bexI) (auto simp: leased_to_def)
qed

lemma lease_task_keeps:
  assumes "lease_task i w now ex db = Inr db'" "t \<in> set (db_tasks db)" "tk_state t = TaskLeased"
  shows "t \<in> set (db_tasks db')"
  using assms by (force simp: lease_task_def Let_def table_simps split: if_splits)

lemma lease_all_keeps:
  "lease_all ids w now ex db = Inr db' \<Longrightarrow> t \<in> set (db_tasks db) \<Longrightarrow> tk_state t = TaskLeased \<Longrightarrow>
   t \<in> set (db_tasks db')"
  by (induction ids arbitrary: db) (auto split: sum.splits dest: lease_task_keeps)

lemma lease_all_ids:
  "lease_all ids w now ex db = Inr db' \<Longrightarrow> map tk_task_id (db_tasks db') = map tk_task_id (db_tasks db)"
  by (induction ids arbitrary: db) (auto split: sum.splits dest: lease_task_frame(1))

lemma lease_all_leases:
  assumes "lease_all ids w now ex db = Inr db'" "distinct (map tk_task_id (db_tasks db))" "i \<in> set ids"
  shows "\<exists>t \<in> set (db_tasks db'). tk_task_id t = i \<and> leased_to w ex t"
  using assms
proof (induction ids arbitrary: db)
  case (Cons j ids)
  from Cons.prems(1) obtain db1 where l: "lease_task j w now ex db = Inr db1"
    and r: "lease_all ids w now ex db1 = Inr db'" by (auto split: sum.splits)
  have d1: "distinct (map tk_task_id (db_tasks db1))"
    using Cons.prems(2) lease_task_frame(1) [OF l] by simp
  show ?case
  proof (cases "i = j")
    case True
    with lease_task_leases [OF l Cons.prems(2)] lease_all_keeps [OF r] show ?thesis
      by (fastforce simp: leased_to_def)
  next
    case False
    with Cons.IH [OF r d1] Cons.prems(3) show ?thesis by simp
  qed
qed simp

lemma select_fair_step:
  assumes "select_fair (Suc n) w now ex L db = Inr (ids, db')" "next_candidate now L db = Some c"
  obtains db1 ids' where "lease_task (tk_task_id c) w now ex db = Inr db1"
    "select_fair n w now ex L (advance_lanes c now db1) = Inr (ids', db')" "ids = tk_task_id c # ids'"
  using assms by (auto split: sum.splits)

lemma select_fair_leases:
  assumes "select_fair n w now ex L db = Inr (ids, db')" "distinct (map tk_task_id (db_tasks db))"
  shows "(\<forall>t \<in> set (db_tasks db). tk_state t = TaskLeased \<longrightarrow> t \<in> set (db_tasks db')) \<and>
    (\<forall>i \<in> set ids. \<exists>t \<in> set (db_tasks db'). tk_task_id t = i \<and> leased_to w ex t)"
  using assms
proof (induction n arbitrary: db ids)
  case 0
  then show ?case by simp
next
  case (Suc n)
  show ?case
  proof (cases "next_candidate now L db")
    case None
    with Suc.prems show ?thesis by simp
  next
    case (Some c)
    obtain db1 ids' where l: "lease_task (tk_task_id c) w now ex db = Inr db1"
      and r: "select_fair n w now ex L (advance_lanes c now db1) = Inr (ids', db')"
      and ids: "ids = tk_task_id c # ids'"
      by (rule select_fair_step [OF Suc.prems(1) Some])
    have d1: "distinct (map tk_task_id (db_tasks (advance_lanes c now db1)))"
      using Suc.prems(2) lease_task_frame(1) [OF l] by simp
    from Suc.IH [OF r d1] have keep: "\<forall>t \<in> set (db_tasks db1). tk_state t = TaskLeased \<longrightarrow> t \<in> set (db_tasks db')"
      and new: "\<forall>i \<in> set ids'. \<exists>t \<in> set (db_tasks db'). tk_task_id t = i \<and> leased_to w ex t" by auto
    have "\<exists>t \<in> set (db_tasks db'). tk_task_id t = tk_task_id c \<and> leased_to w ex t"
      using lease_task_leases [OF l Suc.prems(2)] keep by (fastforce simp: leased_to_def)
    with new ids keep lease_task_keeps [OF l] show ?thesis by auto
  qed
qed

lemma select_task_ids_leases:
  assumes "select_task_ids w now ex limit limits db = Inr (ids, db')"
    "distinct (map tk_task_id (db_tasks db))" "i \<in> set ids"
  shows "\<exists>t \<in> set (db_tasks db'). tk_task_id t = i \<and> leased_to w ex t"
proof (cases limits)
  case None
  with assms show ?thesis
    by (auto simp: select_task_ids_def Let_def split: sum.splits intro: lease_all_leases)
next
  case (Some L)
  with assms show ?thesis by (auto simp: select_task_ids_def Let_def dest: select_fair_leases)
qed

lemma select_task_ids_distinct:
  assumes "select_task_ids w now ex limit limits db = Inr (ids, db')" "queue_ok now db"
  shows "distinct (map tk_task_id (db_tasks db'))"
  using select_task_ids_ok [OF assms(2), of w ex limit limits] assms(1) by (auto dest: queue_okD(1))

lemma leased_task_fields:
  assumes "leased_task_of c db t = Inr lt"
  shows "lt_task_id lt = tk_task_id t" "lt_session_key lt = tk_session_key t"
    "lt_attempt_count lt = tk_attempt_count t" "lt_max_attempts lt = tk_max_attempts t"
    "lt_command_type lt = tk_command_type t"
    "lt_lease_expires_at_ms lt = tk_lease_expires_at_ms t"
    "runtime_decrypt c (tk_payload t) (task_aad (tk_task_id t)) = Inr (lt_payload lt)"
    "lt_recovery_error_code lt = (if exhausted_code (tk_last_error_code t) then tk_last_error_code t else None)"
  using assms by (auto simp: leased_task_of_def split: sum.splits)

lemma lease_tasks_Inr:
  assumes "lease_tasks c w now lease limit limits db = (Inr ts, db')"
  shows "lease_tasks_tx c w now lease limit limits db = Inr (ts, db') \<and> w \<noteq> [] \<and> 0 < lease \<and> 0 < limit"
  using assms by (auto simp: lease_tasks_def raise_def transaction_def split: if_splits sum.splits)

lemma lease_tasks_decoded:
  assumes "lease_tasks c w now lease limit limits db = (Inr ts, db')" and "lt \<in> set ts"
  shows "\<exists>t \<in> set (db_tasks db'). leased_task_of c db' t = Inr lt"
proof -
  from lease_tasks_Inr [OF assms(1)] obtain ids where
    "ids = [] \<longrightarrow> ts = []"
    "ids \<noteq> [] \<longrightarrow> decode_all (leased_task_of c db') (leased_rows ids w (db_tasks db')) = Inr ts"
    by (auto elim: lease_tasks_tx_cases)
  then have dec: "decode_all (leased_task_of c db') (leased_rows ids w (db_tasks db')) = Inr ts"
    using assms(2) by auto
  from decode_all_set [OF dec assms(2)] show ?thesis by (auto simp: leased_rows_def)
qed

text \<open>
  Every task that a call of \<open>lease_tasks\<close> returns is a row of the committed queue that is now
  leased to the calling worker until exactly \<open>now + lease_ms\<close>; the record the worker receives
  carries the row's session, counters and the payload that opens under the row's own associated
  data, and the recovery code is set exactly on exhausted rows.
\<close>

theorem lease_tasks_returns_leased_rows:
  assumes "queue_ok now db" and "lease_tasks c w now lease limit limits db = (Inr ts, db')"
    and "lt \<in> set ts"
  shows "\<exists>t \<in> set (db_tasks db'). tk_task_id t = lt_task_id lt \<and> tk_state t = TaskLeased \<and>
    tk_lease_owner t = Some w \<and> tk_lease_expires_at_ms t = Some (now + lease) \<and>
    lt_session_key lt = tk_session_key t \<and> lt_attempt_count lt = tk_attempt_count t \<and>
    runtime_decrypt c (tk_payload t) (task_aad (tk_task_id t)) = Inr (lt_payload lt) \<and>
    (lt_recovery_error_code lt = None \<longleftrightarrow> \<not> exhausted_code (tk_last_error_code t))"
proof -
  from lease_tasks_Inr [OF assms(2)] obtain ids where
    sel: "select_task_ids w now (now + lease) limit limits (reclaim_leases now db) = Inr (ids, db')"
    and nil: "ids = [] \<longrightarrow> ts = []"
    and dec: "ids \<noteq> [] \<longrightarrow> decode_all (leased_task_of c db') (leased_rows ids w (db_tasks db')) = Inr ts"
    by (auto elim: lease_tasks_tx_cases)
  have dec': "decode_all (leased_task_of c db') (leased_rows ids w (db_tasks db')) = Inr ts"
    using nil dec assms(3) by auto
  from decode_all_set [OF dec' assms(3)] obtain t where t: "t \<in> set (leased_rows ids w (db_tasks db'))"
    and lt: "leased_task_of c db' t = Inr lt" by blast
  from t have tin: "t \<in> set (db_tasks db')" "tk_task_id t \<in> set ids"
    by (auto simp: leased_rows_def)
  note ok = reclaim_queue_ok [OF assms(1)]
  obtain u where u: "u \<in> set (db_tasks db')" "tk_task_id u = tk_task_id t" "leased_to w (now + lease) u"
    using select_task_ids_leases [OF sel queue_okD(1) [OF ok] tin(2)] by blast
  have "u = t" using key_unique [OF select_task_ids_distinct [OF sel ok] u(1) tin(1) u(2)] .
  with u(3) tin(1) leased_task_fields [OF lt] show ?thesis
    by (intro bexI [of _ t]) (auto simp: leased_to_def exhausted_code_def)
qed

section \<open>The columns no lease changes\<close>

definition task_identity ::
  "'b task_row \<Rightarrow> string \<times> int option \<times> string \<times> string \<times> string \<times> string \<times> string \<times>
     string option \<times> int \<times> 'b \<times> int \<times> int" where
  "task_identity t = (tk_task_id t, tk_event_pk t, tk_plugin_id t, tk_command_type t,
     tk_session_key t, tk_tenant_key t, tk_app_id t, tk_group_id t, tk_priority t, tk_payload t,
     tk_max_attempts t, tk_created_at_ms t)"

definition identities :: "'b rt_db \<Rightarrow> _" where
  "identities db = map task_identity (db_tasks db)"

lemma identities_reclaim [simp]: "identities (reclaim_leases now db) = identities db"
  unfolding identities_def reclaim_leases_def release_expired_def exhaust_expired_def
  by (simp add: update_where_map_key task_identity_def)

lemma identities_lease_task: "lease_task i w now ex db = Inr db' \<Longrightarrow> identities db' = identities db"
  by (auto simp: identities_def lease_task_def Let_def update_where_map_key task_identity_def
      mark_leased_def split: if_splits)

lemma identities_advance [simp]: "identities (advance_lanes row now db) = identities db"
  by (simp add: identities_def)

lemma identities_lease_all: "lease_all ids w now ex db = Inr db' \<Longrightarrow> identities db' = identities db"
  by (induction ids arbitrary: db) (auto split: sum.splits dest: identities_lease_task)

lemma identities_select_fair:
  "select_fair n w now ex L db = Inr (ids, db') \<Longrightarrow> identities db' = identities db"
proof (induction n arbitrary: db ids)
  case (Suc n)
  show ?case
  proof (cases "next_candidate now L db")
    case (Some c)
    obtain db1 ids' where l: "lease_task (tk_task_id c) w now ex db = Inr db1"
      and r: "select_fair n w now ex L (advance_lanes c now db1) = Inr (ids', db')"
      by (rule select_fair_step [OF Suc.prems Some])
    from Suc.IH [OF r] identities_lease_task [OF l] show ?thesis by simp
  qed (use Suc.prems in simp)
qed simp

lemma identities_select:
  "select_task_ids w now ex limit limits db = Inr (ids, db') \<Longrightarrow> identities db' = identities db"
  by (auto simp: select_task_ids_def Let_def split: option.splits sum.splits
      dest: identities_lease_all identities_select_fair)

lemma identities_mem:
  assumes "identities db' = identities db" "t \<in> set (db_tasks db')"
  shows "\<exists>u \<in> set (db_tasks db). task_identity u = task_identity t"
  using assms unfolding identities_def by (metis (no_types, opaque_lifting) imageE image_eqI list.set_map)

section \<open>Progress\<close>

lemma select_fair_Cons:
  assumes "next_candidate now L db = Some c" "queue_ok now db" "0 < n"
  shows "\<exists>ids db'. select_fair n w now ex L db = Inr (tk_task_id c # ids, db')"
proof -
  obtain m where m: "n = Suc m" using assms(3) by (cases n) auto
  have c: "leasable now (db_tasks db) c" by (rule next_candidate_some(3) [OF assms(1)])
  obtain db1 where l: "lease_task (tk_task_id c) w now ex db = Inr db1"
    using lease_task_ok [OF queue_okD(1) [OF assms(2)]] c by (fastforce simp: leasable_def)
  have "queue_ok now (advance_lanes c now db1)"
    using lease_task_queue_ok [OF assms(2) c l] by simp
  from select_fair_keeps [OF this, of "\<lambda>_. True" L w ex m] obtain ids db' where
    "select_fair m w now ex L (advance_lanes c now db1) = Inr (ids, db')" by auto
  with m assms(1) l show ?thesis by simp
qed

text \<open>Some ready task that the limits admit, after expired leases are taken back.\<close>

definition work_available :: "int \<Rightarrow> task_concurrency_limits option \<Rightarrow> 'b rt_db \<Rightarrow> bool" where
  "work_available now limits db \<longleftrightarrow>
     (case limits of
        None \<Rightarrow> ranked now (db_tasks db) \<noteq> []
      | Some L \<Rightarrow> next_candidate now L db \<noteq> None \<and>
          live_count now (\<lambda>_. True) (db_tasks db) < global_limit L)"

lemma sort_key_empty [simp]: "sort_key f xs = [] \<longleftrightarrow> xs = []"
  by (metis length_0_conv length_sort)

lemma select_progress:
  assumes "queue_ok now db" "work_available now limits db" "0 < limit"
  shows "\<exists>ids db'. select_task_ids w now ex limit limits db = Inr (ids, db') \<and> ids \<noteq> []"
proof (cases limits)
  case None
  from select_task_ids_ok [OF assms(1), of w ex limit limits] obtain ids db' where
    sel: "select_task_ids w now ex limit limits db = Inr (ids, db')" by blast
  have "sort_key task_order (ranked now (db_tasks db)) \<noteq> []"
    using None assms(2) by (simp add: work_available_def sort_key_empty)
  with None sel assms(3) show ?thesis
    by (auto simp: select_task_ids_def Let_def split: sum.splits)
next
  case (Some L)
  then obtain c where c: "next_candidate now L db = Some c"
    and room: "live_count now (\<lambda>_. True) (db_tasks db) < global_limit L"
    using assms(2) by (auto simp: work_available_def)
  have "0 < nat (min limit (max 0 (global_limit L - live_count now (\<lambda>_. True) (db_tasks db))))"
    using room assms(3) by simp
  from select_fair_Cons [OF c assms(1) this, of w ex] Some show ?thesis
    by (auto simp: select_task_ids_def Let_def)
qed

text \<open>
  The queue does not stall: when some ready task fits the limits (after expired leases are
  taken back), the arguments are valid and every stored payload opens, \<open>lease_tasks\<close> returns at
  least one task.
\<close>

theorem lease_tasks_progress:
  assumes "queue_ok now db" and "work_available now limits (reclaim_leases now db)"
    and "w \<noteq> []" "0 < lease" "0 < limit"
    and "\<forall>t \<in> set (db_tasks db). \<exists>p. runtime_decrypt c (tk_payload t) (task_aad (tk_task_id t)) = Inr p"
  shows "\<exists>ts db'. lease_tasks c w now lease limit limits db = (Inr ts, db') \<and> ts \<noteq> []"
proof -
  let ?db = "reclaim_leases now db"
  note ok = reclaim_queue_ok [OF assms(1)]
  from select_progress [OF ok assms(2,5), of w "now + lease"] obtain ids db' where
    sel: "select_task_ids w now (now + lease) limit limits ?db = Inr (ids, db')" and ne: "ids \<noteq> []"
    by blast
  have ident: "identities db' = identities db" using identities_select [OF sel] by simp
  have "\<exists>lt. leased_task_of c db' t = Inr lt" if tin: "t \<in> set (db_tasks db')" for t
  proof -
    obtain u where u: "u \<in> set (db_tasks db)" "task_identity u = task_identity t"
      using identities_mem [OF ident tin] by blast
    then obtain p where "runtime_decrypt c (tk_payload t) (task_aad (tk_task_id t)) = Inr p"
      using assms(6) by (auto simp: task_identity_def)
    then show ?thesis by (simp add: leased_task_of_def)
  qed
  then obtain ts where ts: "decode_all (leased_task_of c db') (leased_rows ids w (db_tasks db')) = Inr ts"
    using decode_all_ok [of "leased_rows ids w (db_tasks db')" "leased_task_of c db'"]
    by (auto simp: leased_rows_def)
  obtain i where i: "i \<in> set ids" using ne by (cases ids) auto
  have "leased_rows ids w (db_tasks db') \<noteq> []"
  proof -
    obtain t where "t \<in> set (db_tasks db')" "tk_task_id t = i" "leased_to w (now + lease) t"
      using select_task_ids_leases [OF sel queue_okD(1) [OF ok] i] by blast
    then have "t \<in> set (leased_rows ids w (db_tasks db'))"
      using i by (simp add: leased_rows_def leased_to_def)
    then show ?thesis by auto
  qed
  then have "ts \<noteq> []" using decode_all_length [OF ts] by auto
  moreover have "lease_tasks c w now lease limit limits db = (Inr ts, db')"
    using assms(3-5) sel ne ts by (simp add: lease_tasks_def lease_tasks_tx_def)
  ultimately show ?thesis by blast
qed

section \<open>Limits\<close>

text \<open>
  C4. Leasing under concurrency limits never exceeds them: from a queue whose live leases are
  within the global, tenant, application and group limits, any call of \<open>lease_tasks\<close> leaves a
  queue whose live leases are within all four, and at most one live lease per session.
\<close>

theorem lease_tasks_within_limits:
  assumes "queue_ok now db" and "capacity_ok now L db"
    and "live_count now (\<lambda>_. True) (db_tasks db) \<le> global_limit L"
  shows "capacity_ok now L (snd (lease_tasks c w now lease limit (Some L) db)) \<and>
    live_count now (\<lambda>_. True) (db_tasks (snd (lease_tasks c w now lease limit (Some L) db)))
      \<le> global_limit L \<and>
    (\<forall>s. session_live now s (db_tasks (snd (lease_tasks c w now lease limit (Some L) db))) \<le> 1)"
proof -
  let ?P = "\<lambda>d. capacity_ok now L d \<and> live_count now (\<lambda>_. True) (db_tasks d) \<le> global_limit L"
  have cap: "capacity_ok now L (reclaim_leases now db)"
    using assms(2) by (simp add: capacity_ok_def)
  have "?P (snd (lease_tasks c w now lease limit (Some L) db))"
  proof (rule lease_tasks_keeps)
    show "?P db" using assms(2,3) by simp
    fix ts db' assume "lease_tasks_tx c w now lease limit (Some L) db = Inr (ts, db')"
    then obtain ids where
      sel: "select_task_ids w now (now + lease) limit (Some L) (reclaim_leases now db) = Inr (ids, db')"
      by (auto elim: lease_tasks_tx_cases)
    let ?n = "nat (min limit (max 0 (global_limit L - live_count now (\<lambda>_. True) (db_tasks db))))"
    have "select_fair ?n w now (now + lease) L (reclaim_leases now db) = Inr (ids, db')"
      using sel by (simp add: select_task_ids_def Let_def)
    from select_fair_total [OF reclaim_queue_ok [OF assms(1)] this, of "\<lambda>_. True"] assms(3)
    have "live_count now (\<lambda>_. True) (db_tasks db') \<le> global_limit L"
      by (auto simp: min_def split: if_splits)
    moreover have "capacity_ok now L db'"
      using select_task_ids_ok [OF reclaim_queue_ok [OF assms(1)], of w "now + lease" limit "Some L"]
        sel cap by auto
    ultimately show "?P db'" by blast
  qed
  moreover have "session_live now s (db_tasks (snd (lease_tasks c w now lease limit (Some L) db))) \<le> 1" for s
    using queue_okD(3) [OF lease_tasks_queue_ok [OF assms(1)]] .
  ultimately show ?thesis by simp
qed

section \<open>Fairness\<close>

text \<open>
  The lanes: every recorded sequence is positive and at most the scheduler's counter, and two
  tenants never share one.
\<close>

definition lanes_ok :: "'b rt_db \<Rightarrow> bool" where
  "lanes_ok db \<longleftrightarrow> 0 \<le> db_next_sequence db \<and>
     (\<forall>k l. db_lanes db k = Some l \<longrightarrow>
        0 < ln_last_served_sequence l \<and> ln_last_served_sequence l \<le> db_next_sequence db) \<and>
     (\<forall>x y l m. db_lanes db (''tenant'', x) = Some l \<longrightarrow> db_lanes db (''tenant'', y) = Some m \<longrightarrow>
        ln_last_served_sequence l = ln_last_served_sequence m \<longrightarrow> x = y)"

definition tenant_served :: "'b rt_db \<Rightarrow> string \<Rightarrow> int" where
  "tenant_served db x = lane_served (db_lanes db) (Some (''tenant'', x))"

lemma fold_lanes:
  "fold (\<lambda>k m. m(k \<mapsto> v)) ks m k' = (if k' \<in> set ks then Some v else m k')"
  by (induction ks arbitrary: m) auto

lemma tenant_lane_mem [simp]:
  "(''tenant'', x) \<in> set (task_lanes t) \<longleftrightarrow> x = tk_tenant_key t"
  by (auto simp: task_lanes_def tenant_lane_def app_lane_def session_lane_def group_lane_def
      split: option.splits)

lemma lanes_ok_advance:
  assumes "lanes_ok db" shows "lanes_ok (advance_lanes t now db)"
  using assms by (auto simp: lanes_ok_def advance_lanes_def Let_def fold_lanes split: if_splits; force)

lemma tenant_served_advance:
  "tenant_served (advance_lanes t now db) x =
     (if x = tk_tenant_key t then db_next_sequence db + 1 else tenant_served db x)"
  by (simp add: tenant_served_def lane_served_def advance_lanes_def Let_def fold_lanes)

lemma lanes_ok_cong:
  "db_lanes db' = db_lanes db \<Longrightarrow> db_next_sequence db' = db_next_sequence db \<Longrightarrow> lanes_ok db' = lanes_ok db"
  by (simp add: lanes_ok_def)

lemma lanes_ok_lease_task: "lease_task i w now ex db = Inr db' \<Longrightarrow> lanes_ok db' = lanes_ok db"
  using lease_task_frame(2,3) lanes_ok_cong by metis

lemma lanes_ok_lease_all: "lease_all ids w now ex db = Inr db' \<Longrightarrow> lanes_ok db' = lanes_ok db"
  by (induction ids arbitrary: db) (auto split: sum.splits dest: lanes_ok_lease_task)

lemma lanes_ok_select_fair:
  "select_fair n w now ex L db = Inr (ids, db') \<Longrightarrow> lanes_ok db \<Longrightarrow> lanes_ok db'"
proof (induction n arbitrary: db ids)
  case (Suc n)
  show ?case
  proof (cases "next_candidate now L db")
    case (Some c)
    obtain db1 ids' where l: "lease_task (tk_task_id c) w now ex db = Inr db1"
      and r: "select_fair n w now ex L (advance_lanes c now db1) = Inr (ids', db')"
      by (rule select_fair_step [OF Suc.prems(1) Some])
    from Suc.IH [OF r] lanes_ok_lease_task [OF l] Suc.prems(2) lanes_ok_advance show ?thesis by blast
  qed (use Suc.prems in simp)
qed simp

lemma lease_tasks_lanes_ok:
  assumes "lanes_ok db"
  shows "lanes_ok (snd (lease_tasks c w now lease limit limits db))"
  using assms
proof (rule lease_tasks_keeps)
  fix ts db' assume "lease_tasks_tx c w now lease limit limits db = Inr (ts, db')"
  then obtain ids where
    sel: "select_task_ids w now (now + lease) limit limits (reclaim_leases now db) = Inr (ids, db')"
    by (auto elim: lease_tasks_tx_cases)
  have "lanes_ok (reclaim_leases now db)"
    using assms by (simp add: lanes_ok_def reclaim_leases_def)
  with sel show "lanes_ok db'"
    by (auto simp: select_task_ids_def Let_def split: option.splits sum.splits
        dest: lanes_ok_lease_all lanes_ok_select_fair)
qed

text \<open>
  C16. Tenants are served in turn: when the scheduler picks a task of a tenant it has served before,
  every other tenant that currently has a ready task within the limits has been served more
  recently. So no tenant gets a second turn while another one that could run is still waiting for
  its turn since then.
\<close>

theorem fair_selection_least_recent_tenant:
  assumes "lanes_ok db" and "next_candidate now L db = Some c"
    and "u \<in> set (ranked now (db_tasks db))" "within_limits now L (db_tasks db) u"
    and "tk_tenant_key u \<noteq> tk_tenant_key c" and "0 < tenant_served db (tk_tenant_key c)"
  shows "tenant_served db (tk_tenant_key c) < tenant_served db (tk_tenant_key u)"
proof -
  have "fair_order (db_lanes db) c \<le> fair_order (db_lanes db) u"
    by (rule next_candidate_some(4) [OF assms(2-4)])
  then have le: "tenant_served db (tk_tenant_key c) \<le> tenant_served db (tk_tenant_key u)"
    by (auto simp: fair_order_def less_eq_prod_def tenant_served_def tenant_lane_def)
  have "tenant_served db (tk_tenant_key c) \<noteq> tenant_served db (tk_tenant_key u)"
    using assms(1,5,6) le
    by (auto simp: lanes_ok_def tenant_served_def lane_served_def split: option.splits)
  with le show ?thesis by simp
qed

end
