(* ===== verification/Outbox.thy ===== *)
theory Outbox
  imports TaskLeasing
begin

text \<open>
  The transactional outbox of \<open>storage/runtime_store.py\<close>: an intent is inserted once per idempotency
  key in the transaction that decides it, a worker leases intents in the causal order of their task,
  and marks each sent or gives it back for a bounded number of attempts.
\<close>

section \<open>Inserting intents\<close>

definition task_exists :: "string \<Rightarrow> 'b rt_db \<Rightarrow> bool" where
  "task_exists task_id db \<longleftrightarrow> list_ex (\<lambda>t. tk_task_id t = task_id) (db_tasks db)"

definition new_outbox_row ::
  "'b cipher \<Rightarrow> string \<Rightarrow> outbox_draft \<Rightarrow> string \<Rightarrow> int \<Rightarrow> 'b outbox_row" where
  "new_outbox_row c outbox_id draft task_id now =
     \<lparr>ob_outbox_id = outbox_id, ob_run_id = None, ob_task_id = Some task_id,
      ob_publisher_id = od_publisher_id draft, ob_destination_ref = od_destination_ref draft,
      ob_message_kind = od_message_kind draft, ob_idempotency_key = od_idempotency_key draft,
      ob_payload = encrypt_json c (od_payload draft) (outbox_aad outbox_id),
      ob_state = OutboxPending, ob_available_at_ms = od_available_at_ms draft,
      ob_lease_owner = None, ob_lease_expires_at_ms = None,
      ob_attempt_count = 0, ob_max_attempts = 8, ob_last_error_code = None, ob_upstream_ref = None,
      ob_created_at_ms = now, ob_updated_at_ms = now\<rparr>"

text \<open>
  \<open>_insert_outbox\<close>: \<open>INSERT OR IGNORE\<close> does nothing when the identifier or the idempotency key is
  taken; a task that does not exist violates the foreign key, which is not ignored. The fresh
  identifier is an argument.
\<close>

definition insert_outbox ::
  "'b cipher \<Rightarrow> string \<Rightarrow> outbox_draft \<Rightarrow> string \<Rightarrow> int \<Rightarrow> 'b rt_db \<Rightarrow> exn + 'b rt_db" where
  "insert_outbox c outbox_id draft task_id now db =
     (if list_ex (\<lambda>o'. ob_outbox_id o' = outbox_id \<or>
            ob_idempotency_key o' = od_idempotency_key draft) (db_outbox db)
      then Inr db
      else if \<not> task_exists task_id db then Inl (IntegrityError ''FOREIGN KEY constraint failed'')
      else Inr (db\<lparr>db_outbox := db_outbox db @ [new_outbox_row c outbox_id draft task_id now]\<rparr>))"

text \<open>\<open>enqueue_task_outbox\<close>\<close>

definition enqueue_task_outbox ::
  "'b cipher \<Rightarrow> string \<Rightarrow> string \<Rightarrow> outbox_draft \<Rightarrow> int \<Rightarrow> ('b rt_db, unit) eff" where
  "enqueue_task_outbox c outbox_id task_id draft now = transaction (\<lambda>db.
     if \<not> task_exists task_id db then Inl (LookupError ''outbox task does not exist'')
     else case insert_outbox c outbox_id draft task_id now db of
            Inl e \<Rightarrow> Inl e
          | Inr db' \<Rightarrow> Inr ((), db'))"

section \<open>Leasing intents\<close>

text \<open>\<open>CASE message_kind WHEN 'acknowledgement' THEN 0 ...\<close>\<close>

definition kind_rank :: "string \<Rightarrow> int" where
  "kind_rank k = (if k = ''acknowledgement'' then 0 else if k = ''progress'' then 1
     else if k = ''approval'' then 2 else 3)"

definition outbox_before :: "'b outbox_row \<Rightarrow> 'b outbox_row \<Rightarrow> bool" where
  "outbox_before p q \<longleftrightarrow> ob_created_at_ms p < ob_created_at_ms q \<or>
     (ob_created_at_ms p = ob_created_at_ms q \<and>
      kind_rank (ob_message_kind p) < kind_rank (ob_message_kind q))"

definition same_task :: "'b outbox_row \<Rightarrow> 'b outbox_row \<Rightarrow> bool" where
  "same_task p q \<longleftrightarrow> ob_task_id q \<noteq> None \<and> ob_task_id p = ob_task_id q"

definition outbox_ready :: "int \<Rightarrow> 'b outbox_row list \<Rightarrow> 'b outbox_row \<Rightarrow> bool" where
  "outbox_ready now rows q \<longleftrightarrow>
     ob_state q = OutboxPending \<and> ob_available_at_ms q \<le> now \<and>
     ob_attempt_count q < ob_max_attempts q \<and>
     \<not> list_ex (\<lambda>p. same_task p q \<and> ob_state p \<noteq> OutboxSent \<and> outbox_before p q) rows"

definition outbox_order :: "'b outbox_row \<Rightarrow> int \<times> int \<times> string" where
  "outbox_order q = (ob_created_at_ms q, kind_rank (ob_message_kind q), ob_outbox_id q)"

definition outbox_expired :: "int \<Rightarrow> 'b outbox_row \<Rightarrow> bool" where
  "outbox_expired now q \<longleftrightarrow> ob_state q = OutboxLeased \<and> null_le (ob_lease_expires_at_ms q) now"

definition reclaim_outbox :: "int \<Rightarrow> 'b outbox_row list \<Rightarrow> 'b outbox_row list" where
  "reclaim_outbox now rows =
     update_where (\<lambda>q. outbox_expired now q \<and> ob_max_attempts q \<le> ob_attempt_count q)
       (\<lambda>q. q\<lparr>ob_state := OutboxFailed, ob_last_error_code := Some ''retry_exhausted'',
              ob_lease_owner := None, ob_lease_expires_at_ms := None, ob_updated_at_ms := now\<rparr>)
       (update_where (\<lambda>q. outbox_expired now q \<and> ob_attempt_count q < ob_max_attempts q)
         (\<lambda>q. q\<lparr>ob_state := OutboxPending, ob_lease_owner := None, ob_lease_expires_at_ms := None,
                ob_updated_at_ms := now\<rparr>) rows)"

definition mark_outbox_leased :: "string \<Rightarrow> int \<Rightarrow> int \<Rightarrow> 'b outbox_row \<Rightarrow> 'b outbox_row" where
  "mark_outbox_leased w now expires q =
     q\<lparr>ob_state := OutboxLeased, ob_lease_owner := Some w, ob_lease_expires_at_ms := Some expires,
       ob_attempt_count := ob_attempt_count q + 1, ob_updated_at_ms := now\<rparr>"

definition lease_outbox_ids ::
  "string \<Rightarrow> int \<Rightarrow> int \<Rightarrow> string list \<Rightarrow> 'b outbox_row list \<Rightarrow> 'b outbox_row list" where
  "lease_outbox_ids w now expires ids rows =
     fold (\<lambda>i. update_where (\<lambda>q. ob_outbox_id q = i \<and> ob_state q = OutboxPending)
                 (mark_outbox_leased w now expires)) ids rows"

definition leased_outbox_of :: "'b cipher \<Rightarrow> 'b outbox_row \<Rightarrow> exn + leased_outbox_message" where
  "leased_outbox_of c q =
     (case runtime_decrypt c (ob_payload q) (outbox_aad (ob_outbox_id q)) of
        Inl e \<Rightarrow> Inl e
      | Inr p \<Rightarrow> Inr \<lparr>lo_outbox_id = ob_outbox_id q, lo_run_id = ob_run_id q,
          lo_publisher_id = ob_publisher_id q, lo_destination_ref = ob_destination_ref q,
          lo_message_kind = ob_message_kind q, lo_idempotency_key = ob_idempotency_key q,
          lo_payload = p, lo_attempt_count = ob_attempt_count q,
          lo_lease_expires_at_ms = ob_lease_expires_at_ms q\<rparr>)"

text \<open>The rows a call selects, in their order.\<close>

definition outbox_choice :: "int \<Rightarrow> int \<Rightarrow> 'b outbox_row list \<Rightarrow> 'b outbox_row list" where
  "outbox_choice now limit rows =
     take (nat limit) (sort_key outbox_order (filter (outbox_ready now rows) rows))"

definition lease_outbox_tx ::
  "'b cipher \<Rightarrow> string \<Rightarrow> int \<Rightarrow> int \<Rightarrow> int \<Rightarrow> ('b rt_db, leased_outbox_message list) tx" where
  "lease_outbox_tx c w now lease_ms limit db =
     (let rows = reclaim_outbox now (db_outbox db);
          ids = map ob_outbox_id (outbox_choice now limit rows);
          rows' = lease_outbox_ids w now (now + lease_ms) ids rows;
          db' = db\<lparr>db_outbox := rows'\<rparr>
      in if ids = [] then Inr ([], db')
         else case decode_all (leased_outbox_of c)
                (sort_key outbox_order
                  (filter (\<lambda>q. List.member ids (ob_outbox_id q) \<and> ob_lease_owner q = Some w) rows')) of
                Inl e \<Rightarrow> Inl e
              | Inr ms \<Rightarrow> Inr (ms, db'))"

definition lease_outbox ::
  "'b cipher \<Rightarrow> string \<Rightarrow> int \<Rightarrow> int \<Rightarrow> int \<Rightarrow> ('b rt_db, leased_outbox_message list) eff" where
  "lease_outbox c w now lease_ms limit =
     (if w = [] \<or> lease_ms \<le> 0 \<or> limit \<le> 0
      then raise (ValueError ''worker_id, lease_ms, and limit must be positive'')
      else transaction (lease_outbox_tx c w now lease_ms limit))"

section \<open>Giving intents back\<close>

definition outbox_owned :: "string \<Rightarrow> string \<Rightarrow> 'b outbox_row \<Rightarrow> bool" where
  "outbox_owned outbox_id w q \<longleftrightarrow>
     ob_outbox_id q = outbox_id \<and> ob_state q = OutboxLeased \<and> ob_lease_owner q = Some w"

definition update_owned_outbox ::
  "string \<Rightarrow> string \<Rightarrow> ('b outbox_row \<Rightarrow> 'b outbox_row) \<Rightarrow> ('b rt_db, unit) tx" where
  "update_owned_outbox outbox_id w f db =
     (if count_where (outbox_owned outbox_id w) (db_outbox db) \<noteq> 1
      then Inl (RuntimeError ''outbox lease is not owned by worker'')
      else Inr ((), db\<lparr>db_outbox := update_where (outbox_owned outbox_id w) f (db_outbox db)\<rparr>))"

definition mark_outbox_sent ::
  "string \<Rightarrow> string \<Rightarrow> string \<Rightarrow> int \<Rightarrow> ('b rt_db, unit) eff" where
  "mark_outbox_sent outbox_id w upstream_ref now = transaction (update_owned_outbox outbox_id w
     (\<lambda>q. q\<lparr>ob_state := OutboxSent, ob_upstream_ref := Some upstream_ref, ob_lease_owner := None,
            ob_lease_expires_at_ms := None, ob_updated_at_ms := now\<rparr>))"

definition retry_outbox ::
  "string \<Rightarrow> string \<Rightarrow> string \<Rightarrow> int \<Rightarrow> int \<Rightarrow> ('b rt_db, unit) eff" where
  "retry_outbox outbox_id w error_code available_at now = transaction (update_owned_outbox outbox_id w
     (\<lambda>q. q\<lparr>ob_state := (if ob_max_attempts q \<le> ob_attempt_count q then OutboxFailed else OutboxPending),
            ob_available_at_ms := available_at, ob_lease_owner := None, ob_lease_expires_at_ms := None,
            ob_last_error_code := Some error_code, ob_updated_at_ms := now\<rparr>))"

section \<open>The outbox invariant\<close>

text \<open>
  Identifiers and idempotency keys are unique; a row has an owner and an expiry exactly while it is
  leased; attempts never exceed the maximum; a sent row carries its upstream reference.
\<close>

definition outbox_row_ok :: "'b outbox_row \<Rightarrow> bool" where
  "outbox_row_ok q \<longleftrightarrow> 0 \<le> ob_attempt_count q \<and> ob_attempt_count q \<le> ob_max_attempts q \<and>
     (ob_state q = OutboxLeased \<longleftrightarrow> ob_lease_owner q \<noteq> None) \<and>
     (ob_lease_owner q = None \<longleftrightarrow> ob_lease_expires_at_ms q = None) \<and>
     (ob_state q = OutboxSent \<longrightarrow> ob_upstream_ref q \<noteq> None)"

definition outbox_ok :: "'b rt_db \<Rightarrow> bool" where
  "outbox_ok db \<longleftrightarrow> distinct (map ob_outbox_id (db_outbox db)) \<and>
     distinct (map ob_idempotency_key (db_outbox db)) \<and>
     (\<forall>q \<in> set (db_outbox db). outbox_row_ok q)"

lemma outbox_okD:
  assumes "outbox_ok db"
  shows "distinct (map ob_outbox_id (db_outbox db))" "distinct (map ob_idempotency_key (db_outbox db))"
    "\<forall>q \<in> set (db_outbox db). outbox_row_ok q"
  using assms by (simp_all add: outbox_ok_def)

lemma outbox_ok_cong: "db_outbox db' = db_outbox db \<Longrightarrow> outbox_ok db' = outbox_ok db"
  by (simp add: outbox_ok_def)

lemma outbox_ok_update:
  assumes "outbox_ok db" and "\<And>q. P q \<Longrightarrow> ob_outbox_id (f q) = ob_outbox_id q"
    and "\<And>q. P q \<Longrightarrow> ob_idempotency_key (f q) = ob_idempotency_key q"
    and "\<And>q. q \<in> set (db_outbox db) \<Longrightarrow> P q \<Longrightarrow> outbox_row_ok q \<Longrightarrow> outbox_row_ok (f q)"
  shows "outbox_ok (db\<lparr>db_outbox := update_where P f (db_outbox db)\<rparr>)"
proof -
  have "map ob_outbox_id (update_where P f (db_outbox db)) = map ob_outbox_id (db_outbox db)"
    by (rule update_where_map_key) (rule assms(2))
  moreover have "map ob_idempotency_key (update_where P f (db_outbox db)) = map ob_idempotency_key (db_outbox db)"
    by (rule update_where_map_key) (rule assms(3))
  moreover have "\<forall>q \<in> set (update_where P f (db_outbox db)). outbox_row_ok q"
    by (rule ball_update_where [OF outbox_okD(3) [OF assms(1)] assms(4)])
  ultimately show ?thesis using outbox_okD(1,2) [OF assms(1)] by (simp add: outbox_ok_def)
qed

lemma outbox_ok_reclaim:
  assumes "outbox_ok db"
  shows "outbox_ok (db\<lparr>db_outbox := reclaim_outbox now (db_outbox db)\<rparr>)"
proof -
  let ?db1 = "db\<lparr>db_outbox := update_where (\<lambda>q. outbox_expired now q \<and> ob_attempt_count q < ob_max_attempts q)
         (\<lambda>q. q\<lparr>ob_state := OutboxPending, ob_lease_owner := None, ob_lease_expires_at_ms := None,
                ob_updated_at_ms := now\<rparr>) (db_outbox db)\<rparr>"
  have "outbox_ok ?db1" by (rule outbox_ok_update [OF assms]) (auto simp: outbox_row_ok_def)
  from outbox_ok_update [OF this, of "\<lambda>q. outbox_expired now q \<and> ob_max_attempts q \<le> ob_attempt_count q"
      "\<lambda>q. q\<lparr>ob_state := OutboxFailed, ob_last_error_code := Some ''retry_exhausted'',
              ob_lease_owner := None, ob_lease_expires_at_ms := None, ob_updated_at_ms := now\<rparr>"]
  show ?thesis by (simp add: reclaim_outbox_def outbox_row_ok_def)
qed

lemma lease_outbox_ids_Cons:
  "lease_outbox_ids w now ex (i # ids) rows = lease_outbox_ids w now ex ids
     (update_where (\<lambda>q. ob_outbox_id q = i \<and> ob_state q = OutboxPending) (mark_outbox_leased w now ex) rows)"
  by (simp add: lease_outbox_ids_def)

text \<open>Leasing a set of identifiers rewrites each pending row among them once.\<close>

lemma lease_outbox_ids_map:
  "lease_outbox_ids w now ex ids rows =
     update_where (\<lambda>q. ob_outbox_id q \<in> set ids \<and> ob_state q = OutboxPending) (mark_outbox_leased w now ex) rows"
proof (induction ids arbitrary: rows)
  case Nil
  show ?case by (simp add: lease_outbox_ids_def update_where_def)
next
  case (Cons i ids)
  show ?case
    unfolding lease_outbox_ids_Cons Cons.IH
    by (auto simp: update_where_def mark_outbox_leased_def)
qed

lemma outbox_ok_lease:
  assumes "outbox_ok db" "\<forall>q \<in> set (db_outbox db). ob_outbox_id q \<in> set ids \<longrightarrow>
      ob_state q = OutboxPending \<longrightarrow> ob_attempt_count q < ob_max_attempts q"
  shows "outbox_ok (db\<lparr>db_outbox := lease_outbox_ids w now ex ids (db_outbox db)\<rparr>)"
  unfolding lease_outbox_ids_map
  by (rule outbox_ok_update [OF assms(1)])
    (use assms(2) in \<open>auto simp: outbox_row_ok_def mark_outbox_leased_def\<close>)

lemma outbox_choice_ready:
  "q \<in> set (outbox_choice now limit rows) \<Longrightarrow> q \<in> set rows \<and> outbox_ready now rows q"
  by (auto simp: outbox_choice_def dest!: in_set_takeD)

lemma lease_outbox_tx_db:
  assumes "lease_outbox_tx c w now lease limit db = Inr (ms, db')"
  shows "db' = db\<lparr>db_outbox := lease_outbox_ids w now (now + lease)
    (map ob_outbox_id (outbox_choice now limit (reclaim_outbox now (db_outbox db))))
    (reclaim_outbox now (db_outbox db))\<rparr>"
  using assms unfolding lease_outbox_tx_def Let_def by (simp split: if_splits sum.splits)

lemma lease_outbox_ok:
  assumes "outbox_ok db"
  shows "outbox_ok (snd (lease_outbox c w now lease limit db))"
proof -
  let ?db1 = "db\<lparr>db_outbox := reclaim_outbox now (db_outbox db)\<rparr>"
  let ?ids = "map ob_outbox_id (outbox_choice now limit (db_outbox ?db1))"
  have ok1: "outbox_ok ?db1" by (rule outbox_ok_reclaim [OF assms])
  have att: "\<forall>q \<in> set (db_outbox ?db1). ob_outbox_id q \<in> set ?ids \<longrightarrow>
      ob_state q = OutboxPending \<longrightarrow> ob_attempt_count q < ob_max_attempts q"
  proof (intro ballI impI)
    fix q assume q: "q \<in> set (db_outbox ?db1)" "ob_outbox_id q \<in> set ?ids"
    then obtain u where u: "u \<in> set (outbox_choice now limit (db_outbox ?db1))"
      "ob_outbox_id u = ob_outbox_id q" by auto
    then have "u = q" using key_unique [OF outbox_okD(1) [OF ok1] _ q(1)] outbox_choice_ready by blast
    with u outbox_choice_ready show "ob_attempt_count q < ob_max_attempts q"
      by (auto simp: outbox_ready_def)
  qed
  have keep: "outbox_ok db'" if "lease_outbox_tx c w now lease limit db = Inr (ms, db')" for ms db'
    using outbox_ok_lease [OF ok1 att, of w now "now + lease"] lease_outbox_tx_db [OF that] by simp
  have "outbox_ok (snd (transaction (lease_outbox_tx c w now lease limit) db))"
    by (rule transaction_inv [where P = outbox_ok, OF assms keep])
  with assms show ?thesis by (simp add: lease_outbox_def raise_def)
qed

lemma insert_outbox_ok:
  assumes "outbox_ok db" "insert_outbox c i d task_id now db = Inr db'"
  shows "outbox_ok db'"
proof (cases "list_ex (\<lambda>o'. ob_outbox_id o' = i \<or> ob_idempotency_key o' = od_idempotency_key d) (db_outbox db)")
  case True
  with assms show ?thesis by (simp add: insert_outbox_def)
next
  case False
  then have "i \<notin> ob_outbox_id ` set (db_outbox db)"
    "od_idempotency_key d \<notin> ob_idempotency_key ` set (db_outbox db)"
    by (auto simp: list_ex_iff)
  moreover have "db' = db\<lparr>db_outbox := db_outbox db @ [new_outbox_row c i d task_id now]\<rparr>"
    using assms(2) False by (auto simp: insert_outbox_def split: if_splits)
  ultimately show ?thesis
    using assms(1) by (simp add: outbox_ok_def outbox_row_ok_def new_outbox_row_def)
qed

lemma insert_outbox_frame:
  assumes "insert_outbox c i d task_id now db = Inr db'"
  shows "db_tasks db' = db_tasks db" "db_events db' = db_events db" "db_runs db' = db_runs db"
    "db_next_sequence db' = db_next_sequence db" "db_lanes db' = db_lanes db"
    "db_approvals db' = db_approvals db" "db_controls db' = db_controls db"
    "db_idempotency db' = db_idempotency db" "db_event_seq db' = db_event_seq db"
  using assms by (auto simp: insert_outbox_def split: if_splits)

lemma insert_outbox_task: "task_exists task_id db \<Longrightarrow> \<exists>db'. insert_outbox c i d task_id now db = Inr db'"
  by (simp add: insert_outbox_def)

lemma enqueue_outbox_ok: "outbox_ok db \<Longrightarrow> outbox_ok (snd (enqueue_task_outbox c i task_id d now db))"
  unfolding enqueue_task_outbox_def
  by (rule transaction_inv) (auto split: if_splits sum.splits dest: insert_outbox_ok)

lemma update_owned_outbox_ok:
  assumes "outbox_ok db" and "\<And>q. ob_outbox_id (f q) = ob_outbox_id q"
    and "\<And>q. ob_idempotency_key (f q) = ob_idempotency_key q"
    and "\<And>q. outbox_row_ok q \<Longrightarrow> outbox_row_ok (f q)"
  shows "outbox_ok (snd (transaction (update_owned_outbox i w f) db))"
  using assms(1)
proof (rule transaction_inv)
  fix a t assume "update_owned_outbox i w f db = Inr (a, t)"
  then have "t = db\<lparr>db_outbox := update_where (outbox_owned i w) f (db_outbox db)\<rparr>"
    by (auto simp: update_owned_outbox_def split: if_splits)
  with outbox_ok_update [OF assms(1), of "outbox_owned i w" f] assms show "outbox_ok t" by simp
qed

lemma mark_outbox_sent_ok: "outbox_ok db \<Longrightarrow> outbox_ok (snd (mark_outbox_sent i w r now db))"
  unfolding mark_outbox_sent_def by (rule update_owned_outbox_ok) (auto simp: outbox_row_ok_def)

lemma retry_outbox_ok: "outbox_ok db \<Longrightarrow> outbox_ok (snd (retry_outbox i w code av now db))"
  unfolding retry_outbox_def by (rule update_owned_outbox_ok) (auto simp: outbox_row_ok_def)

end
