(* ===== verification/LeaseStore.thy ===== *)
theory LeaseStore
  imports Prelude
begin

text \<open>
  The contract between a durable worker and a store of leases: an item leased to the worker can be
  given back once, with one of several outcomes; giving it back succeeds, ends the lease and leaves
  the other leases alone; a worker that does not hold the lease is refused and nothing changes. The
  task queue and the outbox both provide it, the two workers are its clients.
\<close>

text \<open>The worker's part: give back a list of items, stopping at the first refusal.\<close>

fun settle :: "('a \<Rightarrow> string \<Rightarrow> string \<Rightarrow> ('s, unit) eff) \<Rightarrow> string \<Rightarrow> ('a \<times> string) list \<Rightarrow> ('s, unit) eff" where
  "settle give_back w [] s = (Inr (), s)"
| "settle give_back w ((a, i) # acts) s =
     (case give_back a w i s of
        (Inl e, s') \<Rightarrow> (Inl e, s')
      | (Inr _, s') \<Rightarrow> settle give_back w acts s')"

locale lease_store =
  fixes inv :: "'s \<Rightarrow> bool"
    and owns :: "string \<Rightarrow> string \<Rightarrow> 's \<Rightarrow> bool"
    and valid :: "'a \<Rightarrow> bool"
    and give_back :: "'a \<Rightarrow> string \<Rightarrow> string \<Rightarrow> ('s, unit) eff"
  assumes give_back_inv: "inv s \<Longrightarrow> inv (snd (give_back a w i s))"
    and give_back_owned: "inv s \<Longrightarrow> valid a \<Longrightarrow> owns w i s \<Longrightarrow> fst (give_back a w i s) = Inr ()"
    and give_back_frees: "inv s \<Longrightarrow> valid a \<Longrightarrow> owns w i s \<Longrightarrow>
      owns v j (snd (give_back a w i s)) \<longleftrightarrow> j \<noteq> i \<and> owns v j s"
    and give_back_refused: "inv s \<Longrightarrow> \<not> owns w i s \<Longrightarrow> \<exists>e. give_back a w i s = (Inl e, s)"
begin

lemma settle_inv: "inv s \<Longrightarrow> inv (snd (settle give_back w acts s))"
proof (induction acts arbitrary: s)
  case (Cons x acts)
  obtain a i where x: "x = (a, i)" by fastforce
  obtain r s' where g: "give_back a w i s = (r, s')" by fastforce
  have "inv s'" using give_back_inv [OF Cons.prems, of a w i] g by simp
  with Cons.IH x g show ?case by (cases r) auto
qed simp

text \<open>Distinct held items, valid outcomes: every one is given back, and only those.\<close>

lemma settle_all:
  assumes "inv s" "distinct (map snd acts)" "\<forall>(a, i) \<in> set acts. valid a \<and> owns w i s"
  shows "fst (settle give_back w acts s) = Inr () \<and>
    (\<forall>v j. owns v j (snd (settle give_back w acts s)) \<longleftrightarrow> j \<notin> snd ` set acts \<and> owns v j s)"
  using assms
proof (induction acts arbitrary: s)
  case (Cons x acts)
  obtain a i where x: "x = (a, i)" by fastforce
  have ai: "valid a" "owns w i s" using Cons.prems(3) x by auto
  obtain s' where g: "give_back a w i s = (Inr (), s')"
    using give_back_owned [OF Cons.prems(1) ai] by (metis prod.collapse)
  have s': "inv s'" using give_back_inv [OF Cons.prems(1), of a w i] g by simp
  have own: "owns v j s' \<longleftrightarrow> j \<noteq> i \<and> owns v j s" for v j
    using give_back_frees [OF Cons.prems(1) ai, of v j] g by simp
  have "\<forall>(b, j) \<in> set acts. valid b \<and> owns w j s'"
    using Cons.prems(2,3) x own by force
  from Cons.IH [OF s' _ this] Cons.prems(2) x g own show ?case by auto
qed simp

text \<open>A second attempt to give the same item back is refused.\<close>

lemma give_back_once:
  assumes "inv s" "valid a" "owns w i s"
  shows "\<exists>e. give_back b v i (snd (give_back a w i s)) = (Inl e, snd (give_back a w i s))"
proof -
  have "\<not> owns v i (snd (give_back a w i s))" using give_back_frees [OF assms, of v i] by simp
  then show ?thesis by (rule give_back_refused [OF give_back_inv [OF assms(1)]])
qed

end

text \<open>
  A store that also shows what became of an item: the outcome of an act is visible after it, and no
  later act takes it away. Then a settled batch shows the outcome of every act.
\<close>

locale lease_outcomes = lease_store inv owns valid give_back
  for inv :: "'s \<Rightarrow> bool" and owns :: "string \<Rightarrow> string \<Rightarrow> 's \<Rightarrow> bool" and valid :: "'a \<Rightarrow> bool"
    and give_back :: "'a \<Rightarrow> string \<Rightarrow> string \<Rightarrow> ('s, unit) eff" +
  fixes outcome :: "'a \<Rightarrow> string \<Rightarrow> 's \<Rightarrow> bool"
  assumes outcome_shown: "inv s \<Longrightarrow> give_back a w i s = (Inr (), s') \<Longrightarrow> outcome a i s'"
    and outcome_kept: "inv s \<Longrightarrow> outcome a i s \<Longrightarrow> outcome a i (snd (give_back b v j s))"
begin

lemma settle_keeps: "inv s \<Longrightarrow> outcome a i s \<Longrightarrow> outcome a i (snd (settle give_back w acts s))"
proof (induction acts arbitrary: s)
  case (Cons x acts)
  obtain b j where x: "x = (b, j)" by fastforce
  obtain r s1 where g: "give_back b w j s = (r, s1)" by fastforce
  have "inv s1" "outcome a i s1"
    using give_back_inv [OF Cons.prems(1), of b w j] outcome_kept [OF Cons.prems, of b w j] g by simp_all
  with Cons.IH x g show ?case by (cases r) auto
qed simp

lemma settle_outcome:
  "inv s \<Longrightarrow> settle give_back w acts s = (Inr (), s') \<Longrightarrow> (a, i) \<in> set acts \<Longrightarrow> outcome a i s'"
proof (induction acts arbitrary: s)
  case (Cons x acts)
  obtain b j where x: "x = (b, j)" by fastforce
  obtain r s1 where g: "give_back b w j s = (r, s1)" by fastforce
  with Cons.prems(2) x have r: "r = Inr ()" by (cases r) auto
  have s1: "inv s1" using give_back_inv [OF Cons.prems(1), of b w j] g by simp
  have st: "settle give_back w acts s1 = (Inr (), s')" using Cons.prems(2) x g r by simp
  show ?case
  proof (cases "(a, i) = (b, j)")
    case True
    then have "outcome a i s1" using outcome_shown [OF Cons.prems(1)] g r by simp
    from settle_keeps [OF s1 this, of w acts] st show ?thesis by simp
  next
    case False
    with Cons.IH [OF s1 st] Cons.prems(3) x show ?thesis by auto
  qed
qed simp

end

section \<open>Owned rows of a table\<close>

text \<open>
  The table behind such a store: rows with a unique key, an ownership predicate that fixes the key,
  and an update that ends ownership. \<open>own i w r\<close> reads: row \<open>r\<close> is item \<open>i\<close>, leased to \<open>w\<close>.
\<close>

lemma bex_update_where:
  "(\<exists>r \<in> set (update_where P f rows). Q r) \<longleftrightarrow> (\<exists>r \<in> set rows. Q (if P r then f r else r))"
  unfolding set_update_where by blast

lemma own_count:
  assumes "distinct (map k rows)" and "\<And>r. own i w r \<Longrightarrow> k r = i"
  shows "count_where (own i w) rows = (if \<exists>r \<in> set rows. own i w r then 1 else 0)"
proof (cases "\<exists>r \<in> set rows. own i w r")
  case True
  then obtain r where r: "r \<in> set rows" "own i w r" by blast
  have "count_where (own i w) rows = 1"
    by (rule count_where_key_one [where k = k and x = i and r = r]) (use assms r in auto)
  with True show ?thesis by simp
next
  case False
  then show ?thesis by (simp add: count_where_zero)
qed

lemma own_update:
  assumes d: "distinct (map k rows)" and key: "\<And>i w r. own i w r \<Longrightarrow> k r = i"
    and f: "\<And>j v r. \<not> own j v (f r)" and own: "\<exists>r \<in> set rows. own i w r"
  shows "(\<exists>r \<in> set (update_where (own i w) f rows). own j v r) \<longleftrightarrow> j \<noteq> i \<and> (\<exists>r \<in> set rows. own j v r)"
proof -
  obtain q where q: "q \<in> set rows" "own i w q" using own by blast
  have eq: "own i w r" if "r \<in> set rows" "own i v r" for r v
    using key_unique [OF d that(1) q(1)] key [OF that(2)] key [OF q(2)] q(2) by simp
  have "own j v (if own i w r then f r else r) \<longleftrightarrow> j \<noteq> i \<and> own j v r" if r: "r \<in> set rows" for r
    using f [of j v r] eq [OF r, of v] key [of i w r] key [of j v r] by (cases "own i w r") auto
  then show ?thesis unfolding bex_update_where by auto
qed

end
