(* ===== verification/TaskStore.thy ===== *)
theory TaskStore
  imports Outbox LeaseStore
begin

text \<open>
  How a worker gives a task lease back (\<open>storage/runtime_store.py\<close>): \<open>finish_task\<close> with a terminal
  state and at most one terminal message, \<open>retry_task\<close> and \<open>defer_task\<close>. The task queue provides
  the lease contract, keeps its invariant, and terminal tasks are final.
\<close>

definition task_owned :: "string \<Rightarrow> string \<Rightarrow> 'b task_row \<Rightarrow> bool" where
  "task_owned task_id w t \<longleftrightarrow> tk_task_id t = task_id \<and> tk_state t = TaskLeased \<and> tk_lease_owner t = Some w"

text \<open>The shared \<open>UPDATE ... WHERE state = 'leased' AND lease_owner = ?\<close> with its \<open>rowcount\<close> check.\<close>

definition update_owned_task ::
  "string \<Rightarrow> string \<Rightarrow> ('b task_row \<Rightarrow> 'b task_row) \<Rightarrow> 'b rt_db \<Rightarrow> exn + 'b rt_db" where
  "update_owned_task task_id w f db =
     (if count_where (task_owned task_id w) (db_tasks db) \<noteq> 1
      then Inl (RuntimeError ''task lease is not owned by worker'')
      else Inr (db\<lparr>db_tasks := update_where (task_owned task_id w) f (db_tasks db)\<rparr>))"

definition finished :: "task_state \<Rightarrow> int \<Rightarrow> string option \<Rightarrow> 'b task_row \<Rightarrow> 'b task_row" where
  "finished state now error_code t = t\<lparr>tk_state := state, tk_lease_owner := None,
     tk_lease_expires_at_ms := None, tk_last_error_code := error_code, tk_updated_at_ms := now\<rparr>"

definition finish_task_tx ::
  "'b cipher \<Rightarrow> string \<Rightarrow> string \<Rightarrow> string \<Rightarrow> task_state \<Rightarrow> int \<Rightarrow> string option \<Rightarrow> outbox_draft option
     \<Rightarrow> ('b rt_db, unit) tx" where
  "finish_task_tx c outbox_id task_id w state now error_code terminal_message db =
     (case update_owned_task task_id w (finished state now error_code) db of
        Inl e \<Rightarrow> Inl e
      | Inr db1 \<Rightarrow>
          (case terminal_message of
             None \<Rightarrow> Inr ((), db1)
           | Some draft \<Rightarrow>
               (case insert_outbox c outbox_id draft task_id now db1 of
                  Inl e \<Rightarrow> Inl e
                | Inr db2 \<Rightarrow> Inr ((), db2))))"

definition finish_task ::
  "'b cipher \<Rightarrow> string \<Rightarrow> string \<Rightarrow> string \<Rightarrow> task_state \<Rightarrow> int \<Rightarrow> string option \<Rightarrow> outbox_draft option
     \<Rightarrow> ('b rt_db, unit) eff" where
  "finish_task c outbox_id task_id w state now error_code terminal_message =
     (if \<not> task_terminal state then raise (ValueError ''finish_task requires a terminal task state'')
      else transaction (finish_task_tx c outbox_id task_id w state now error_code terminal_message))"

definition retried :: "int \<Rightarrow> int \<Rightarrow> string \<Rightarrow> 'b task_row \<Rightarrow> 'b task_row" where
  "retried available_at now error_code t = t\<lparr>tk_state := TaskPending,
     tk_available_at_ms := available_at, tk_lease_owner := None, tk_lease_expires_at_ms := None,
     tk_last_error_code := Some (if tk_max_attempts t \<le> tk_attempt_count t
        then ''retry_exhausted'' else error_code),
     tk_updated_at_ms := now\<rparr>"

definition retry_task ::
  "string \<Rightarrow> string \<Rightarrow> int \<Rightarrow> int \<Rightarrow> string \<Rightarrow> ('b rt_db, unit) eff" where
  "retry_task task_id w available_at now error_code = transaction (\<lambda>db.
     map_sum id (Pair ()) (update_owned_task task_id w (retried available_at now error_code) db))"

definition deferred :: "int \<Rightarrow> int \<Rightarrow> string \<Rightarrow> 'b task_row \<Rightarrow> 'b task_row" where
  "deferred available_at now reason t = t\<lparr>tk_state := TaskPending,
     tk_available_at_ms := available_at, tk_lease_owner := None, tk_lease_expires_at_ms := None,
     tk_attempt_count := max (tk_attempt_count t - 1) 0,
     tk_last_error_code := Some reason, tk_updated_at_ms := now\<rparr>"

definition defer_task ::
  "string \<Rightarrow> string \<Rightarrow> int \<Rightarrow> int \<Rightarrow> string \<Rightarrow> ('b rt_db, unit) eff" where
  "defer_task task_id w available_at now reason =
     (if reason = [] then raise (ValueError ''task deferral reason is required'')
      else transaction (\<lambda>db.
        map_sum id (Pair ()) (update_owned_task task_id w (deferred available_at now reason) db)))"

section \<open>The queue provides the lease contract\<close>

text \<open>What a worker does with a task.\<close>

datatype 'b task_act =
    ActFinish "'b cipher" string task_state int "string option" "outbox_draft option"
  | ActRetryTask int int string
  | ActDefer int int string

fun task_give_back :: "'b task_act \<Rightarrow> string \<Rightarrow> string \<Rightarrow> ('b rt_db, unit) eff" where
  "task_give_back (ActFinish c outbox_id state now code msg) w i =
     finish_task c outbox_id i w state now code msg"
| "task_give_back (ActRetryTask av now code) w i = retry_task i w av now code"
| "task_give_back (ActDefer av now reason) w i = defer_task i w av now reason"

fun valid_act :: "'b task_act \<Rightarrow> bool" where
  "valid_act (ActFinish _ _ state _ _ _) = task_terminal state"
| "valid_act (ActRetryTask _ _ _) = True"
| "valid_act (ActDefer _ _ reason) = (reason \<noteq> [])"

text \<open>The row an act leaves.\<close>

fun act_task :: "'b task_act \<Rightarrow> 'b task_row \<Rightarrow> 'b task_row" where
  "act_task (ActFinish _ _ state now code _) t = finished state now code t"
| "act_task (ActRetryTask av now code) t = retried av now code t"
| "act_task (ActDefer av now reason) t = deferred av now reason t"

lemma act_task_fields [simp]:
  "tk_task_id (act_task a t) = tk_task_id t" "tk_session_key (act_task a t) = tk_session_key t"
  "tk_lease_owner (act_task a t) = None" "tk_lease_expires_at_ms (act_task a t) = None"
  "tk_max_attempts (act_task a t) = tk_max_attempts t"
  by (cases a; simp add: finished_def retried_def deferred_def)+

lemma act_task_not_leased: "valid_act a \<Longrightarrow> tk_state (act_task a t) \<noteq> TaskLeased"
  by (cases a) (auto simp: finished_def retried_def deferred_def task_terminal_def)

lemma act_task_row_ok: "valid_act a \<Longrightarrow> task_row_ok t \<Longrightarrow> task_row_ok (act_task a t)"
  using act_task_not_leased [of a t]
  by (cases a) (auto simp: task_row_ok_def finished_def retried_def deferred_def)

definition owns_task :: "string \<Rightarrow> string \<Rightarrow> 'b rt_db \<Rightarrow> bool" where
  "owns_task w i db \<longleftrightarrow> (\<exists>t \<in> set (db_tasks db). task_owned i w t)"

lemma task_owned_count:
  assumes "queue_ok now db"
  shows "count_where (task_owned i w) (db_tasks db) = (if owns_task w i db then 1 else 0)"
  unfolding owns_task_def
  by (rule own_count [OF queue_okD(1) [OF assms]]) (simp add: task_owned_def)

lemma update_owned_task_Inr:
  assumes "queue_ok now db" "owns_task w i db"
  shows "update_owned_task i w f db =
    Inr (db\<lparr>db_tasks := update_where (task_owned i w) f (db_tasks db)\<rparr>)"
  using task_owned_count [OF assms(1), of i w] assms(2) by (simp add: update_owned_task_def)

lemma update_owned_task_Inl:
  assumes "queue_ok now db" "\<not> owns_task w i db"
  shows "update_owned_task i w f db = Inl (RuntimeError ''task lease is not owned by worker'')"
  using task_owned_count [OF assms(1), of i w] assms(2) by (simp add: update_owned_task_def)

lemma owns_task_exists: "owns_task w i db \<Longrightarrow> task_exists i db"
  by (auto simp: owns_task_def task_exists_def task_owned_def list_ex_iff)

lemma task_exists_update:
  "(\<And>t. tk_task_id (f t) = tk_task_id t) \<Longrightarrow>
   task_exists i (db\<lparr>db_tasks := update_where P f (db_tasks db)\<rparr>) = task_exists i db"
  by (auto simp: task_exists_def list_ex_iff bex_update_where split: if_splits)

text \<open>The exact effect of a valid act of the owner on the task table; the outbox only grows.\<close>

lemma task_give_back_owned:
  assumes ok: "queue_ok now db" and v: "valid_act a" and own: "owns_task w i db"
  shows "\<exists>db'. task_give_back a w i db = (Inr (), db') \<and>
    db_tasks db' = update_where (task_owned i w) (act_task a) (db_tasks db)"
proof (cases a)
  case (ActFinish c outbox_id state n code msg)
  note up = update_owned_task_Inr [OF ok own, of "finished state n code"]
  let ?db1 = "db\<lparr>db_tasks := update_where (task_owned i w) (finished state n code) (db_tasks db)\<rparr>"
  have ex: "task_exists i ?db1"
    using owns_task_exists [OF own] by (subst task_exists_update) (simp_all add: finished_def)
  have act: "act_task a = finished state n code" using ActFinish by (simp add: fun_eq_iff)
  show ?thesis
  proof (cases msg)
    case None
    with ActFinish v up act show ?thesis
      by (simp add: finish_task_def finish_task_tx_def transaction_def)
  next
    case (Some draft)
    obtain db2 where ins: "insert_outbox c outbox_id draft i n ?db1 = Inr db2"
      using insert_outbox_task [OF ex] by blast
    with Some ActFinish v up act insert_outbox_frame(1) [OF ins] show ?thesis
      by (simp add: finish_task_def finish_task_tx_def transaction_def)
  qed
next
  case (ActRetryTask av n code)
  then have "act_task a = retried av n code" by (simp add: fun_eq_iff)
  with ActRetryTask update_owned_task_Inr [OF ok own] show ?thesis
    by (simp add: retry_task_def transaction_def)
next
  case (ActDefer av n reason)
  then have "act_task a = deferred av n reason" by (simp add: fun_eq_iff)
  with ActDefer v update_owned_task_Inr [OF ok own] show ?thesis
    by (simp add: defer_task_def transaction_def)
qed

lemma task_give_back_refused:
  assumes "queue_ok now db" "\<not> owns_task w i db"
  shows "\<exists>e. task_give_back a w i db = (Inl e, db)"
  using update_owned_task_Inl [OF assms]
  by (cases a) (auto simp: finish_task_def finish_task_tx_def retry_task_def defer_task_def
      transaction_def raise_def)

lemma task_give_back_invalid: "\<not> valid_act a \<Longrightarrow> \<exists>e. task_give_back a w i db = (Inl e, db)"
  by (cases a) (auto simp: finish_task_def defer_task_def raise_def)

lemma act_queue_ok:
  assumes "queue_ok now db" "valid_act a"
  shows "queue_ok now (db\<lparr>db_tasks := update_where (task_owned i w) (act_task a) (db_tasks db)\<rparr>)"
proof (rule queue_okI; simp)
  show "distinct (map tk_task_id (update_where (task_owned i w) (act_task a) (db_tasks db)))"
    using queue_okD(1) [OF assms(1)] by (simp add: update_where_map_key)
  show "\<forall>t \<in> set (update_where (task_owned i w) (act_task a) (db_tasks db)). task_row_ok t"
    by (rule ball_update_where [OF queue_okD(2) [OF assms(1)] act_task_row_ok [OF assms(2)]])
  show "session_live now s (update_where (task_owned i w) (act_task a) (db_tasks db)) \<le> 1" for s
  proof -
    have "count_where (\<lambda>t. task_live now t \<and> tk_session_key t = s)
        (update_where (task_owned i w) (act_task a) (db_tasks db))
      \<le> count_where (\<lambda>t. task_live now t \<and> tk_session_key t = s) (db_tasks db)"
      by (rule count_where_update_le) (use act_task_not_leased [OF assms(2)] in \<open>auto simp: task_live_def\<close>)
    with queue_okD(3) [OF assms(1), of s] show ?thesis by (simp add: session_live_def live_count_def)
  qed
qed

lemma task_give_back_queue_ok:
  assumes "queue_ok now db"
  shows "queue_ok now (snd (task_give_back a w i db))"
proof (cases "valid_act a \<and> owns_task w i db")
  case True
  then obtain db' where "task_give_back a w i db = (Inr (), db')"
    "db_tasks db' = update_where (task_owned i w) (act_task a) (db_tasks db)"
    using task_give_back_owned [OF assms] by blast
  with act_queue_ok [OF assms, of a i w] True show ?thesis by (simp add: queue_ok_def)
next
  case False
  then obtain e where "task_give_back a w i db = (Inl e, db)"
    using task_give_back_refused [OF assms] task_give_back_invalid by metis
  with assms show ?thesis by simp
qed

interpretation task_leases: lease_store "queue_ok now" owns_task valid_act task_give_back
proof
  fix db :: "'a rt_db" and a :: "'a task_act" and w i v j
  assume ok: "queue_ok now db"
  show "queue_ok now (snd (task_give_back a w i db))" by (rule task_give_back_queue_ok [OF ok])
  show "\<exists>e. task_give_back a w i db = (Inl e, db)" if "\<not> owns_task w i db"
    by (rule task_give_back_refused [OF ok that])
  show "fst (task_give_back a w i db) = Inr ()" if "valid_act a" "owns_task w i db"
    using task_give_back_owned [OF ok that] by auto
  show "owns_task v j (snd (task_give_back a w i db)) \<longleftrightarrow> j \<noteq> i \<and> owns_task v j db"
    if v: "valid_act a" and own: "owns_task w i db"
  proof -
    have "(\<exists>t \<in> set (update_where (task_owned i w) (act_task a) (db_tasks db)). task_owned j v t) \<longleftrightarrow>
        j \<noteq> i \<and> (\<exists>t \<in> set (db_tasks db). task_owned j v t)"
      by (rule own_update [OF queue_okD(1) [OF ok]])
        (use own act_task_not_leased [OF v] in \<open>auto simp: task_owned_def owns_task_def\<close>)
    with task_give_back_owned [OF ok v own] show ?thesis by (auto simp: owns_task_def)
  qed
qed

section \<open>What became of a task\<close>

definition task_outcome :: "'b task_act \<Rightarrow> string \<Rightarrow> 'b rt_db \<Rightarrow> bool" where
  "task_outcome a i db \<longleftrightarrow> valid_act a \<and>
     (\<exists>t \<in> set (db_tasks db). \<exists>u. t = act_task a u \<and> tk_task_id u = i \<and> tk_state u = TaskLeased)"

lemma task_unleased_kept:
  assumes "queue_ok now db" "t \<in> set (db_tasks db)" "tk_state t \<noteq> TaskLeased"
  shows "t \<in> set (db_tasks (snd (task_give_back a w i db)))"
proof (cases "valid_act a \<and> owns_task w i db")
  case True
  then obtain db' where "task_give_back a w i db = (Inr (), db')"
    "db_tasks db' = update_where (task_owned i w) (act_task a) (db_tasks db)"
    using task_give_back_owned [OF assms(1)] by blast
  with assms(2,3) show ?thesis by (force simp: set_update_where task_owned_def)
next
  case False
  then obtain e where "task_give_back a w i db = (Inl e, db)"
    using task_give_back_refused [OF assms(1)] task_give_back_invalid by metis
  with assms(2) show ?thesis by simp
qed

interpretation task_outcomes: lease_outcomes "queue_ok now" owns_task valid_act task_give_back task_outcome
proof
  fix db db' :: "'a rt_db" and a b :: "'a task_act" and w v i j
  assume ok: "queue_ok now db"
  show "task_outcome a i db'" if g: "task_give_back a w i db = (Inr (), db')"
  proof -
    have v: "valid_act a" and own: "owns_task w i db"
      using g task_give_back_invalid [of a w i db] task_give_back_refused [OF ok, of w i a]
      by (metis Inl_Inr_False prod.inject)+
    then obtain t where t: "t \<in> set (db_tasks db)" "task_owned i w t" by (auto simp: owns_task_def)
    have "db_tasks db' = update_where (task_owned i w) (act_task a) (db_tasks db)"
      using task_give_back_owned [OF ok v own] g by auto
    then have "act_task a t \<in> set (db_tasks db')" using t by (force simp: set_update_where)
    then show ?thesis using v t(2) unfolding task_outcome_def task_owned_def by blast
  qed
  show "task_outcome a i (snd (task_give_back b v j db))" if "task_outcome a i db"
    using that task_unleased_kept [OF ok] act_task_not_leased unfolding task_outcome_def by blast
qed

end
