(* ===== verification/Admission.thy ===== *)
theory Admission
  imports TaskStore
begin

text \<open>
  Admission of normalized events (\<open>RuntimeStore.admit\<close>): the event, its task and its acknowledgement
  are written in one transaction, once per tenant, application and event identifier.
\<close>

section \<open>The event table\<close>

definition event_key :: "'b event_row \<Rightarrow> string \<times> string \<times> string" where
  "event_key e = (re_tenant_key e, re_app_id e, re_event_id e)"

definition key_of_event :: "normalized_event \<Rightarrow> string \<times> string \<times> string" where
  "key_of_event e = (ev_tenant_key e, ev_app_id e, ev_event_id e)"

definition find_event :: "normalized_event \<Rightarrow> 'b rt_db \<Rightarrow> 'b event_row option" where
  "find_event e db = find (\<lambda>r. event_key r = key_of_event e) (db_events db)"

definition new_event_row :: "'b cipher \<Rightarrow> normalized_event \<Rightarrow> int \<Rightarrow> int \<Rightarrow> 'b event_row" where
  "new_event_row c e pk now = \<lparr>re_event_pk = pk, re_event_id = ev_event_id e,
     re_plugin_id = ev_plugin_id e, re_event_type = ev_event_type e,
     re_tenant_key = ev_tenant_key e, re_app_id = ev_app_id e,
     re_occurred_at_ms = ev_occurred_at_ms e, re_received_at_ms = ev_received_at_ms e,
     re_schema_version = ev_schema_version e, re_resource_kind = ev_resource_kind e,
     re_resource_id = ev_resource_id e, re_correlation_id = ev_correlation_id e,
     re_trace_id = ev_trace_id e,
     re_payload = map_option (seal_bytes c (event_aad e)) (ev_source_payload e),
     re_payload_expires_at_ms = ev_payload_expires_at_ms e,
     re_status = ''admitted'', re_created_at_ms = now\<rparr>"

text \<open>
  \<open>INSERT INTO runtime_events\<close>: the unique constraint on tenant, application and event identifier,
  and the \<open>AUTOINCREMENT\<close> key, which is returned.
\<close>

definition insert_event :: "'b cipher \<Rightarrow> normalized_event \<Rightarrow> int \<Rightarrow> 'b rt_db \<Rightarrow> exn + (int \<times> 'b rt_db)" where
  "insert_event c e now db =
     (if find_event e db \<noteq> None then Inl (IntegrityError ''UNIQUE constraint failed: runtime_events'')
      else let pk = db_event_seq db + 1
           in Inr (pk, db\<lparr>db_events := db_events db @ [new_event_row c e pk now], db_event_seq := pk\<rparr>))"

section \<open>The task table\<close>

definition new_task_row ::
  "'b cipher \<Rightarrow> string \<Rightarrow> int \<Rightarrow> normalized_event \<Rightarrow> task_command \<Rightarrow> int \<Rightarrow> 'b task_row" where
  "new_task_row c task_id pk e command now = \<lparr>tk_task_id = task_id, tk_event_pk = Some pk,
     tk_plugin_id = tc_plugin_id command, tk_command_type = tc_command_type command,
     tk_session_key = tc_session_key command, tk_tenant_key = ev_tenant_key e,
     tk_app_id = ev_app_id e, tk_group_id = tc_group_id command, tk_priority = tc_priority command,
     tk_payload = encrypt_json c (tc_payload command) (task_aad task_id), tk_state = TaskPending,
     tk_available_at_ms = tc_available_at_ms command, tk_lease_owner = None,
     tk_lease_expires_at_ms = None, tk_attempt_count = 0, tk_max_attempts = tc_max_attempts command,
     tk_last_error_code = None, tk_created_at_ms = now, tk_updated_at_ms = now\<rparr>"

text \<open>\<open>INSERT INTO runtime_tasks\<close>: primary key and the unique index on the event.\<close>

definition insert_task :: "'b task_row \<Rightarrow> 'b rt_db \<Rightarrow> exn + 'b rt_db" where
  "insert_task row db =
     (if list_ex (\<lambda>t. tk_task_id t = tk_task_id row \<or>
            (tk_event_pk t \<noteq> None \<and> tk_event_pk t = tk_event_pk row)) (db_tasks db)
      then Inl (IntegrityError ''UNIQUE constraint failed: runtime_tasks'')
      else Inr (db\<lparr>db_tasks := db_tasks db @ [row]\<rparr>))"

text \<open>The first query of \<open>admit\<close>: the event joined with its task.\<close>

definition existing_task :: "normalized_event \<Rightarrow> 'b rt_db \<Rightarrow> 'b task_row option" where
  "existing_task e db = (case find_event e db of None \<Rightarrow> None
     | Some r \<Rightarrow> find (\<lambda>t. tk_event_pk t = Some (re_event_pk r)) (db_tasks db))"

record admission_result =
  ar_created :: bool
  ar_task_id :: string

text \<open>\<open>admit\<close>; \<open>task_id\<close> and \<open>outbox_id\<close> are the identifiers it generates.\<close>

definition admit_tx ::
  "'b cipher \<Rightarrow> string \<Rightarrow> string \<Rightarrow> normalized_event \<Rightarrow> task_command \<Rightarrow> outbox_draft option \<Rightarrow> int \<Rightarrow>
     ('b rt_db, admission_result) tx" where
  "admit_tx c task_id outbox_id event command acknowledgement now db =
     (case existing_task event db of
        Some t \<Rightarrow> Inr (\<lparr>ar_created = False, ar_task_id = tk_task_id t\<rparr>, db)
      | None \<Rightarrow>
          (case insert_event c event now db of
             Inl e \<Rightarrow> Inl e
           | Inr (pk, db1) \<Rightarrow>
               (case insert_task (new_task_row c task_id pk event command now) db1 of
                  Inl e \<Rightarrow> Inl e
                | Inr db2 \<Rightarrow>
                    (case acknowledgement of
                       None \<Rightarrow> Inr (\<lparr>ar_created = True, ar_task_id = task_id\<rparr>, db2)
                     | Some draft \<Rightarrow>
                         (case insert_outbox c outbox_id draft task_id now db2 of
                            Inl e \<Rightarrow> Inl e
                          | Inr db3 \<Rightarrow> Inr (\<lparr>ar_created = True, ar_task_id = task_id\<rparr>, db3))))))"

definition admit ::
  "'b cipher \<Rightarrow> string \<Rightarrow> string \<Rightarrow> normalized_event \<Rightarrow> task_command \<Rightarrow> outbox_draft option \<Rightarrow> int \<Rightarrow>
     ('b rt_db, admission_result) eff" where
  "admit c task_id outbox_id event command acknowledgement now =
     transaction (admit_tx c task_id outbox_id event command acknowledgement now)"

section \<open>The invariant of events and their tasks\<close>

definition task_binding :: "'b task_row \<Rightarrow> string \<times> int option" where
  "task_binding t = (tk_task_id t, tk_event_pk t)"

definition bindings_ok :: "int set \<Rightarrow> (string \<times> int option) list \<Rightarrow> bool" where
  "bindings_ok pks bs \<longleftrightarrow> (\<forall>i n. (i, Some n) \<in> set bs \<longrightarrow> n \<in> pks) \<and>
     (\<forall>i j n. (i, Some n) \<in> set bs \<longrightarrow> (j, Some n) \<in> set bs \<longrightarrow> i = j)"

definition events_ok :: "'b rt_db \<Rightarrow> bool" where
  "events_ok db \<longleftrightarrow> distinct (map event_key (db_events db)) \<and> distinct (map re_event_pk (db_events db)) \<and>
     (\<forall>e \<in> set (db_events db). re_event_pk e \<le> db_event_seq db) \<and>
     bindings_ok (re_event_pk ` set (db_events db)) (map task_binding (db_tasks db))"

lemma bindings_ok_mono: "bindings_ok A bs \<Longrightarrow> A \<subseteq> B \<Longrightarrow> bindings_ok B bs"
  unfolding bindings_ok_def by blast

lemma bindings_ok_append:
  assumes "bindings_ok A bs" "n \<in> A" "\<And>j. (j, Some n) \<notin> set bs"
  shows "bindings_ok A (bs @ [(i, Some n)])"
  using assms unfolding bindings_ok_def by auto

lemma events_okD:
  assumes "events_ok db"
  shows "distinct (map event_key (db_events db))" "distinct (map re_event_pk (db_events db))"
    "e \<in> set (db_events db) \<Longrightarrow> re_event_pk e \<le> db_event_seq db"
    "bindings_ok (re_event_pk ` set (db_events db)) (map task_binding (db_tasks db))"
  using assms unfolding events_ok_def by auto

lemma binding_mem: "t \<in> set ts \<Longrightarrow> tk_event_pk t = Some n \<Longrightarrow> (tk_task_id t, Some n) \<in> set (map task_binding ts)"
  by (force simp: task_binding_def)

lemma binding_unique:
  assumes "events_ok db" "t \<in> set (db_tasks db)" "u \<in> set (db_tasks db)"
    "tk_event_pk t = Some n" "tk_event_pk u = Some n"
  shows "tk_task_id t = tk_task_id u"
  using events_okD(4) [OF assms(1)] binding_mem [OF assms(2,4)] binding_mem [OF assms(3,5)]
  unfolding bindings_ok_def by blast

lemma events_ok_cong:
  assumes "db_events db' = db_events db" "db_event_seq db' = db_event_seq db"
    "map task_binding (db_tasks db') = map task_binding (db_tasks db)"
  shows "events_ok db' = events_ok db"
  unfolding events_ok_def assms ..

lemma find_event_None: "find_event e db = None \<longleftrightarrow> key_of_event e \<notin> event_key ` set (db_events db)"
  unfolding find_event_def find_None image_iff by metis

lemma insert_event_cases:
  assumes "insert_event c e now db = Inr (pk, db1)"
  shows "find_event e db = None" "pk = db_event_seq db + 1"
    "db1 = db\<lparr>db_events := db_events db @ [new_event_row c e pk now], db_event_seq := pk\<rparr>"
  using assms by (auto simp: insert_event_def Let_def split: if_splits)

lemma new_event_row_keys [simp]:
  "event_key (new_event_row c e pk now) = key_of_event e" "re_event_pk (new_event_row c e pk now) = pk"
  by (simp_all add: new_event_row_def event_key_def key_of_event_def)

lemma insert_event_events_ok:
  assumes "events_ok db" "insert_event c e now db = Inr (pk, db1)"
  shows "events_ok db1"
proof -
  note ins = insert_event_cases [OF assms(2)]
  have pk: "re_event_pk r < pk" if "r \<in> set (db_events db)" for r
    using events_okD(3) [OF assms(1) that] ins(2) by simp
  have "key_of_event e \<notin> event_key ` set (db_events db)" using ins(1) find_event_None by blast
  then have "distinct (map event_key (db_events db1))" "distinct (map re_event_pk (db_events db1))"
    using events_okD(1,2) [OF assms(1)] pk by (fastforce simp: ins(3))+
  moreover have "\<forall>r \<in> set (db_events db1). re_event_pk r \<le> db_event_seq db1"
    using pk by (fastforce simp: ins(3))
  moreover have "bindings_ok (re_event_pk ` set (db_events db1)) (map task_binding (db_tasks db1))"
    using bindings_ok_mono [OF events_okD(4) [OF assms(1)], of "re_event_pk ` set (db_events db1)"]
    by (auto simp: ins(3))
  ultimately show ?thesis unfolding events_ok_def by blast
qed

lemma insert_event_frame:
  assumes "insert_event c e now db = Inr (pk, db1)"
  shows "db_tasks db1 = db_tasks db" "db_outbox db1 = db_outbox db" "db_lanes db1 = db_lanes db"
    "db_next_sequence db1 = db_next_sequence db" "db_idempotency db1 = db_idempotency db"
    "db_approvals db1 = db_approvals db" "db_controls db1 = db_controls db" "db_runs db1 = db_runs db"
  using insert_event_cases(3) [OF assms] by simp_all

lemma insert_task_cases:
  assumes "insert_task row db = Inr db1"
  shows "db1 = db\<lparr>db_tasks := db_tasks db @ [row]\<rparr>"
    "tk_task_id row \<notin> tk_task_id ` set (db_tasks db)"
    "tk_event_pk row = Some n \<Longrightarrow> t \<in> set (db_tasks db) \<Longrightarrow> tk_event_pk t \<noteq> Some n"
  using assms by (auto simp: insert_task_def list_ex_iff split: if_splits)

lemma insert_task_events_ok:
  assumes ok: "events_ok db" and ins: "insert_task row db = Inr db1"
    and pk: "tk_event_pk row = Some n" "n \<in> re_event_pk ` set (db_events db)"
  shows "events_ok db1"
proof -
  note tasks = insert_task_cases [OF ins]
  have "(j, Some n) \<notin> set (map task_binding (db_tasks db))" for j
    using tasks(3) [OF pk(1)] unfolding set_map image_iff task_binding_def by (metis prod.inject)
  from bindings_ok_append [OF events_okD(4) [OF ok] pk(2) this, of "tk_task_id row"]
  have "bindings_ok (re_event_pk ` set (db_events db1)) (map task_binding (db_tasks db1))"
    using pk(1) by (simp add: tasks(1) task_binding_def)
  with ok show ?thesis unfolding events_ok_def by (simp add: tasks(1))
qed

lemma insert_task_queue_ok:
  assumes ok: "queue_ok now db" and ins: "insert_task row db = Inr db1"
    and row: "task_row_ok row" "tk_state row = TaskPending"
  shows "queue_ok now db1"
proof -
  note tasks = insert_task_cases [OF ins]
  have "session_live now s (db_tasks db1) = session_live now s (db_tasks db)" for s
    using row(2) by (simp add: tasks(1) session_live_def live_count_def task_live_def)
  with ok row(1) tasks(1,2) show ?thesis by (simp add: queue_ok_def)
qed

text \<open>The cases of a successful call.\<close>

lemma admit_tx_cases:
  assumes "admit_tx c task_id outbox_id e command ack now db = Inr (r, db')"
  obtains (existing) t where "existing_task e db = Some t"
      "r = \<lparr>ar_created = False, ar_task_id = tk_task_id t\<rparr>" "db' = db"
  | (fresh) pk db1 db2 where "existing_task e db = None" "insert_event c e now db = Inr (pk, db1)"
      "insert_task (new_task_row c task_id pk e command now) db1 = Inr db2"
      "r = \<lparr>ar_created = True, ar_task_id = task_id\<rparr>"
      "case ack of None \<Rightarrow> db' = db2 | Some d \<Rightarrow> insert_outbox c outbox_id d task_id now db2 = Inr db'"
  using assms unfolding admit_tx_def by (auto split: option.splits sum.splits)

lemma new_task_row_ok:
  assumes "check_task_command command = Inr command'"
  shows "task_row_ok (new_task_row c task_id pk e command now)"
  using assms by (auto simp: check_task_command_def task_row_ok_def new_task_row_def split: if_splits)

lemma acknowledged:
  assumes "case ack of None \<Rightarrow> db' = db2 | Some d \<Rightarrow> insert_outbox c outbox_id d task_id now db2 = Inr db'"
  shows "db_tasks db' = db_tasks db2" "db_events db' = db_events db2" "db_event_seq db' = db_event_seq db2"
    "db_lanes db' = db_lanes db2" "db_next_sequence db' = db_next_sequence db2"
    "db_idempotency db' = db_idempotency db2" "db_approvals db' = db_approvals db2"
    "outbox_ok db2 \<Longrightarrow> outbox_ok db'"
  using assms by (auto split: option.splits dest: insert_outbox_frame insert_outbox_ok)

lemma admit_events_ok:
  assumes "events_ok db"
  shows "events_ok (snd (admit c task_id outbox_id e command ack now db))"
  unfolding admit_def
proof (rule transaction_inv [where P = events_ok, OF assms])
  fix r db' assume "admit_tx c task_id outbox_id e command ack now db = Inr (r, db')"
  then show "events_ok db'"
  proof (cases rule: admit_tx_cases)
    case existing
    with assms show ?thesis by simp
  next
    case (fresh pk db1 db2)
    have "pk \<in> re_event_pk ` set (db_events db1)"
      using insert_event_cases(3) [OF fresh(2)] by simp
    then have "events_ok db2"
      by (rule insert_task_events_ok [OF insert_event_events_ok [OF assms fresh(2)] fresh(3), rotated])
        (simp add: new_task_row_def)
    then show ?thesis using acknowledged(1-3) [OF fresh(5)] events_ok_cong by metis
  qed
qed

lemma admit_queue_ok:
  assumes "queue_ok now db" "check_task_command command = Inr command'"
  shows "queue_ok now (snd (admit c task_id outbox_id e command ack n db))"
  unfolding admit_def
proof (rule transaction_inv [where P = "queue_ok now", OF assms(1)])
  fix r db' assume "admit_tx c task_id outbox_id e command ack n db = Inr (r, db')"
  then show "queue_ok now db'"
  proof (cases rule: admit_tx_cases)
    case existing
    with assms show ?thesis by simp
  next
    case (fresh pk db1 db2)
    have "queue_ok now db1" using assms(1) insert_event_frame(1) [OF fresh(2)] by (simp add: queue_ok_def)
    then have "queue_ok now db2"
      by (rule insert_task_queue_ok [OF _ fresh(3) new_task_row_ok [OF assms(2)]]) (simp add: new_task_row_def)
    then show ?thesis using acknowledged(1) [OF fresh(5)] by (simp add: queue_ok_def)
  qed
qed

lemma admit_outbox_ok:
  assumes "outbox_ok db"
  shows "outbox_ok (snd (admit c task_id outbox_id e command ack now db))"
  unfolding admit_def
proof (rule transaction_inv [where P = outbox_ok, OF assms])
  fix r db' assume "admit_tx c task_id outbox_id e command ack now db = Inr (r, db')"
  then show "outbox_ok db'"
  proof (cases rule: admit_tx_cases)
    case existing
    with assms show ?thesis by simp
  next
    case (fresh pk db1 db2)
    have "db_outbox db2 = db_outbox db"
      using insert_task_cases(1) [OF fresh(3)] insert_event_frame(2) [OF fresh(2)] by simp
    then have "outbox_ok db2" using assms outbox_ok_cong by metis
    then show ?thesis using acknowledged(8) [OF fresh(5)] by simp
  qed
qed

section \<open>One task per event\<close>

text \<open>\<open>bound e i db\<close>: the event with the key of \<open>e\<close> is admitted with task \<open>i\<close>.\<close>

definition bound :: "normalized_event \<Rightarrow> string \<Rightarrow> 'b rt_db \<Rightarrow> bool" where
  "bound e i db \<longleftrightarrow> (\<exists>r \<in> set (db_events db). event_key r = key_of_event e \<and>
     (i, Some (re_event_pk r)) \<in> set (map task_binding (db_tasks db)))"

lemma bound_existing:
  assumes "events_ok db" "bound e i db"
  shows "\<exists>t. existing_task e db = Some t \<and> tk_task_id t = i"
proof -
  obtain r t where r: "r \<in> set (db_events db)" "event_key r = key_of_event e"
    and t: "t \<in> set (db_tasks db)" "tk_task_id t = i" "tk_event_pk t = Some (re_event_pk r)"
    using assms(2) by (auto simp: bound_def task_binding_def)
  have f: "find_event e db = Some r"
    unfolding find_event_def by (rule find_key [OF events_okD(1) [OF assms(1)] r])
  obtain u where u: "find (\<lambda>t. tk_event_pk t = Some (re_event_pk r)) (db_tasks db) = Some u"
    using t(1,3) find_None by (metis (mono_tags, lifting) not_Some_eq)
  then have "u \<in> set (db_tasks db)" "tk_event_pk u = Some (re_event_pk r)" using find_in_set by fast+
  then have "tk_task_id u = i" using binding_unique [OF assms(1)] t by metis
  with f u show ?thesis by (simp add: existing_task_def)
qed

lemma admit_bound:
  assumes "admit c task_id outbox_id e command ack now db = (Inr r, db')"
  shows "bound e (ar_task_id r) db'"
proof -
  have "admit_tx c task_id outbox_id e command ack now db = Inr (r, db')"
    by (rule transaction_InrD [OF assms [unfolded admit_def]])
  then show ?thesis
  proof (cases rule: admit_tx_cases)
    case (existing t)
    then obtain v where v: "find_event e db = Some v"
      and f: "find (\<lambda>t. tk_event_pk t = Some (re_event_pk v)) (db_tasks db) = Some t"
      by (auto simp: existing_task_def split: option.splits)
    have "v \<in> set (db_events db) \<and> event_key v = key_of_event e"
      using v unfolding find_event_def by (rule find_in_set)
    moreover have "(tk_task_id t, Some (re_event_pk v)) \<in> set (map task_binding (db_tasks db))"
      using find_in_set [OF f] by (force simp: task_binding_def)
    ultimately show ?thesis using existing by (auto simp: bound_def)
  next
    case (fresh pk db1 db2)
    have "db_events db' = db_events db @ [new_event_row c e pk now]"
      using acknowledged(2) [OF fresh(5)] insert_task_cases(1) [OF fresh(3)] insert_event_cases(3) [OF fresh(2)]
      by simp
    moreover have "db_tasks db' = db_tasks db @ [new_task_row c task_id pk e command now]"
      using acknowledged(1) [OF fresh(5)] insert_task_cases(1) [OF fresh(3)] insert_event_frame(1) [OF fresh(2)]
      by simp
    ultimately show ?thesis using fresh(4) by (simp add: bound_def task_binding_def new_task_row_def)
  qed
qed

lemma bound_admit_again:
  assumes "events_ok db" "bound e i db"
  shows "admit c task_id outbox_id e command ack now db =
    (Inr \<lparr>ar_created = False, ar_task_id = i\<rparr>, db)"
  using bound_existing [OF assms] by (auto simp: admit_def admit_tx_def intro!: transaction_Inr)

lemma bound_grow:
  assumes "bound e i db" "set (db_events db) \<subseteq> set (db_events db')"
    and "set (map task_binding (db_tasks db)) \<subseteq> set (map task_binding (db_tasks db'))"
  shows "bound e i db'"
  using assms unfolding bound_def by blast

end
