(* ===== verification/ApprovalStore.thy ===== *)
theory ApprovalStore
  imports Admission
begin

text \<open>
  Approvals of dangerous tool calls (\<open>request_approval\<close> and \<open>decide_approval\<close> of
  \<open>storage/runtime_store.py\<close>): a request is recorded once with its draft, and is decided once, before
  it expires, by the actor, tenant and application it was requested for.
\<close>

record approval_request =
  aq_approval_id :: string
  aq_task_id :: string
  aq_run_id :: string
  aq_tenant_key :: string
  aq_app_id :: string
  aq_session_key :: string
  aq_actor_id :: string
  aq_tool_id :: string
  aq_argument_digest :: string
  aq_trace_id :: string
  aq_expires_at_ms :: int

definition new_approval :: "approval_request \<Rightarrow> int \<Rightarrow> approval_row" where
  "new_approval q now = \<lparr>ap_approval_id = aq_approval_id q, ap_task_id = aq_task_id q,
     ap_run_id = aq_run_id q, ap_tenant_key = aq_tenant_key q, ap_app_id = aq_app_id q,
     ap_session_key = aq_session_key q, ap_actor_id = aq_actor_id q, ap_tool_id = aq_tool_id q,
     ap_argument_digest = aq_argument_digest q, ap_state = ''pending'',
     ap_expires_at_ms = aq_expires_at_ms q, ap_created_at_ms = now, ap_decided_at_ms = None,
     ap_trace_id = aq_trace_id q\<rparr>"

definition find_approval :: "string \<Rightarrow> 'b rt_db \<Rightarrow> approval_row option" where
  "find_approval approval_id db = find (\<lambda>a. ap_approval_id a = approval_id) (db_approvals db)"

text \<open>\<open>UPDATE runtime_approvals SET state = ?, decided_at_ms = ? WHERE approval_id = ? AND state = 'pending'\<close>\<close>

definition settle_approval :: "string \<Rightarrow> string \<Rightarrow> int \<Rightarrow> 'b rt_db \<Rightarrow> 'b rt_db" where
  "settle_approval approval_id state now db = db\<lparr>db_approvals := update_where
     (\<lambda>a. ap_approval_id a = approval_id \<and> ap_state a = ''pending'')
     (\<lambda>a. a\<lparr>ap_state := state, ap_decided_at_ms := Some now\<rparr>) (db_approvals db)\<rparr>"

definition request_approval_tx ::
  "'b cipher \<Rightarrow> string \<Rightarrow> approval_request \<Rightarrow> outbox_draft \<Rightarrow> int \<Rightarrow> ('b rt_db, string) tx" where
  "request_approval_tx c outbox_id q draft now db =
     (case find_approval (aq_approval_id q) db of
        Some row \<Rightarrow>
          (if (ap_task_id row, ap_run_id row, ap_actor_id row, ap_tool_id row, ap_argument_digest row)
              \<noteq> (aq_task_id q, aq_run_id q, aq_actor_id q, aq_tool_id q, aq_argument_digest q)
           then Inl (RuntimeError ''approval identity collision'')
           else if ap_state row = ''pending'' \<and> ap_expires_at_ms row \<le> now
           then Inr (''expired'', settle_approval (aq_approval_id q) ''expired'' now db)
           else Inr (ap_state row, db))
      | None \<Rightarrow>
          (if \<not> task_exists (aq_task_id q) db then Inl (IntegrityError ''FOREIGN KEY constraint failed'')
           else case insert_outbox c outbox_id draft (aq_task_id q) now
                  (db\<lparr>db_approvals := db_approvals db @ [new_approval q now]\<rparr>) of
                  Inl e \<Rightarrow> Inl e
                | Inr db' \<Rightarrow> Inr (''pending'', db')))"

definition request_approval ::
  "'b cipher \<Rightarrow> string \<Rightarrow> approval_request \<Rightarrow> outbox_draft \<Rightarrow> int \<Rightarrow> ('b rt_db, string) eff" where
  "request_approval c outbox_id q draft now = transaction (request_approval_tx c outbox_id q draft now)"

text \<open>The branches of a decision on the recorded approval: the new tables and the result.\<close>

definition approval_verdict ::
  "approval_row \<Rightarrow> normalized_event \<Rightarrow> string \<Rightarrow> string \<Rightarrow> int \<Rightarrow> 'b rt_db \<Rightarrow> string \<times> 'b rt_db" where
  "approval_verdict a event actor_id decision now db =
     (if \<not> (ap_tenant_key a = ev_tenant_key event \<and> ap_app_id a = ev_app_id event \<and> ap_actor_id a = actor_id)
      then (''unauthorized'', db)
      else if ap_state a = ''pending'' \<and> ap_expires_at_ms a \<le> now
      then (''expired'', settle_approval (ap_approval_id a) ''expired'' now db)
      else if ap_state a = ''pending''
      then (decision, settle_approval (ap_approval_id a) decision now db)
      else (ap_state a, db))"

definition decide_approval_tx ::
  "'b cipher \<Rightarrow> string \<Rightarrow> normalized_event \<Rightarrow> string \<Rightarrow> string \<Rightarrow> string \<Rightarrow> (string \<Rightarrow> outbox_draft) \<Rightarrow> int
     \<Rightarrow> ('b rt_db, string) tx" where
  "decide_approval_tx c outbox_id event approval_id actor_id decision acknowledgement now db =
     (case find_approval approval_id db of
        None \<Rightarrow> Inl (LookupError ''approval request does not exist'')
      | Some a \<Rightarrow>
          (if find_event event db \<noteq> None then Inr (ap_state a, db)
           else case insert_event c event now db of
                  Inl e \<Rightarrow> Inl e
                | Inr (pk, db1) \<Rightarrow>
                    (case approval_verdict a event actor_id decision now db1 of
                       (result, db2) \<Rightarrow>
                         (case insert_outbox c outbox_id (acknowledgement result) (ap_task_id a) now db2 of
                            Inl e \<Rightarrow> Inl e
                          | Inr db3 \<Rightarrow> Inr (result, db3)))))"

definition decide_approval ::
  "'b cipher \<Rightarrow> string \<Rightarrow> normalized_event \<Rightarrow> string \<Rightarrow> string \<Rightarrow> string \<Rightarrow> (string \<Rightarrow> outbox_draft) \<Rightarrow> int
     \<Rightarrow> ('b rt_db, string) eff" where
  "decide_approval c outbox_id event approval_id actor_id decision acknowledgement now =
     (if decision \<noteq> ''approved'' \<and> decision \<noteq> ''rejected''
      then raise (ValueError ''approval decision is invalid'')
      else transaction
        (decide_approval_tx c outbox_id event approval_id actor_id decision acknowledgement now))"

section \<open>What the two operations do to the table\<close>

definition approval_row_ok :: "approval_row \<Rightarrow> bool" where
  "approval_row_ok a \<longleftrightarrow> (ap_state a = ''pending'' \<longleftrightarrow> ap_decided_at_ms a = None) \<and>
     ap_state a \<in> {''pending'', ''approved'', ''rejected'', ''expired''}"

definition approvals_ok :: "'b rt_db \<Rightarrow> bool" where
  "approvals_ok db \<longleftrightarrow> distinct (map ap_approval_id (db_approvals db)) \<and>
     (\<forall>a \<in> set (db_approvals db). approval_row_ok a)"

lemma approvals_ok_cong: "db_approvals db' = db_approvals db \<Longrightarrow> approvals_ok db' = approvals_ok db"
  by (simp add: approvals_ok_def)

text \<open>
  One step of the table: unchanged, one new pending request, or one pending request settled; the
  last carries who may settle it and how.
\<close>

definition settles :: "string \<Rightarrow> string \<Rightarrow> int \<Rightarrow> approval_row list \<Rightarrow> approval_row list" where
  "settles i state now = update_where (\<lambda>a. ap_approval_id a = i \<and> ap_state a = ''pending'')
     (\<lambda>a. a\<lparr>ap_state := state, ap_decided_at_ms := Some now\<rparr>)"

lemma settle_approval_eq: "settle_approval i s now db = db\<lparr>db_approvals := settles i s now (db_approvals db)\<rparr>"
  by (simp add: settle_approval_def settles_def)

lemma settle_approval_frame [simp]:
  "db_tasks (settle_approval i s now db) = db_tasks db" "db_events (settle_approval i s now db) = db_events db"
  "db_event_seq (settle_approval i s now db) = db_event_seq db"
  "db_outbox (settle_approval i s now db) = db_outbox db"
  "db_lanes (settle_approval i s now db) = db_lanes db"
  "db_next_sequence (settle_approval i s now db) = db_next_sequence db"
  "db_idempotency (settle_approval i s now db) = db_idempotency db"
  by (simp_all add: settle_approval_def)

lemma request_approval_effect:
  assumes db': "db' = snd (request_approval c outbox_id q draft now db)"
  shows "db_approvals db' = db_approvals db \<or>
     (find_approval (aq_approval_id q) db = None \<and> db_approvals db' = db_approvals db @ [new_approval q now]) \<or>
     (\<exists>a. find_approval (aq_approval_id q) db = Some a \<and> ap_expires_at_ms a \<le> now \<and>
        db_approvals db' = settles (aq_approval_id q) ''expired'' now (db_approvals db))"
    and "db_tasks db' = db_tasks db" "db_events db' = db_events db" "db_event_seq db' = db_event_seq db"
    "db_lanes db' = db_lanes db" "db_next_sequence db' = db_next_sequence db"
    "db_idempotency db' = db_idempotency db" "outbox_ok db \<Longrightarrow> outbox_ok db'"
proof -
  let ?Q = "\<lambda>t. (db_approvals t = db_approvals db \<or>
     (find_approval (aq_approval_id q) db = None \<and> db_approvals t = db_approvals db @ [new_approval q now]) \<or>
     (\<exists>a. find_approval (aq_approval_id q) db = Some a \<and> ap_expires_at_ms a \<le> now \<and>
        db_approvals t = settles (aq_approval_id q) ''expired'' now (db_approvals db))) \<and>
     db_tasks t = db_tasks db \<and> db_events t = db_events db \<and> db_event_seq t = db_event_seq db \<and>
     db_lanes t = db_lanes db \<and> db_next_sequence t = db_next_sequence db \<and>
     db_idempotency t = db_idempotency db \<and> (outbox_ok db \<longrightarrow> outbox_ok t)"
  have "?Q (snd (transaction (request_approval_tx c outbox_id q draft now) db))"
  proof (rule transaction_inv [where P = ?Q])
    show "?Q db" by simp
    fix r t assume tx: "request_approval_tx c outbox_id q draft now db = Inr (r, t)"
    show "?Q t"
    proof (cases "find_approval (aq_approval_id q) db")
      case None
      let ?db1 = "db\<lparr>db_approvals := db_approvals db @ [new_approval q now]\<rparr>"
      have ins: "insert_outbox c outbox_id draft (aq_task_id q) now ?db1 = Inr t"
        using tx None by (auto simp: request_approval_tx_def split: if_splits sum.splits)
      have "outbox_ok ?db1 = outbox_ok db" by (rule outbox_ok_cong) simp
      with insert_outbox_ok [OF _ ins] insert_outbox_frame [OF ins] None show ?thesis by simp
    next
      case (Some a)
      have o: "outbox_ok (settle_approval (aq_approval_id q) ''expired'' now db) = outbox_ok db"
        by (rule outbox_ok_cong) simp
      from tx Some have "t = db \<or> (ap_expires_at_ms a \<le> now \<and> t = settle_approval (aq_approval_id q) ''expired'' now db)"
        by (auto simp: request_approval_tx_def split: if_splits)
      with Some o show ?thesis by (auto simp: settle_approval_eq)
    qed
  qed
  then show "db_approvals db' = db_approvals db \<or>
     (find_approval (aq_approval_id q) db = None \<and> db_approvals db' = db_approvals db @ [new_approval q now]) \<or>
     (\<exists>a. find_approval (aq_approval_id q) db = Some a \<and> ap_expires_at_ms a \<le> now \<and>
        db_approvals db' = settles (aq_approval_id q) ''expired'' now (db_approvals db))"
    and "db_tasks db' = db_tasks db" "db_events db' = db_events db" "db_event_seq db' = db_event_seq db"
    "db_lanes db' = db_lanes db" "db_next_sequence db' = db_next_sequence db"
    "db_idempotency db' = db_idempotency db" "outbox_ok db \<Longrightarrow> outbox_ok db'"
    by (simp_all add: db' request_approval_def)
qed

text \<open>Who a decision must come from for the request \<open>a\<close>.\<close>

definition authorized :: "approval_row \<Rightarrow> normalized_event \<Rightarrow> string \<Rightarrow> bool" where
  "authorized a event actor_id \<longleftrightarrow> ap_tenant_key a = ev_tenant_key event \<and>
     ap_app_id a = ev_app_id event \<and> ap_actor_id a = actor_id"

lemma approval_verdict_cases:
  "approval_verdict a e actor d now db =
     (if \<not> authorized a e actor then (''unauthorized'', db)
      else if ap_state a = ''pending'' \<and> ap_expires_at_ms a \<le> now
      then (''expired'', settle_approval (ap_approval_id a) ''expired'' now db)
      else if ap_state a = ''pending'' then (d, settle_approval (ap_approval_id a) d now db)
      else (ap_state a, db))"
  by (simp add: approval_verdict_def authorized_def)

lemma approval_verdict_frame:
  assumes "approval_verdict a e actor d now db = (r, db')"
  shows "db_tasks db' = db_tasks db" "db_events db' = db_events db" "db_event_seq db' = db_event_seq db"
    "db_lanes db' = db_lanes db" "db_next_sequence db' = db_next_sequence db"
    "db_idempotency db' = db_idempotency db" "db_outbox db' = db_outbox db"
  using assms by (auto simp: approval_verdict_cases split: if_splits)

lemma approval_verdict_approvals:
  assumes "approval_verdict a e actor d now db = (r, db')"
  shows "db_approvals db' = db_approvals db \<or> (authorized a e actor \<and>
    ((ap_expires_at_ms a \<le> now \<and> db_approvals db' = settles (ap_approval_id a) ''expired'' now (db_approvals db)) \<or>
     (now < ap_expires_at_ms a \<and> db_approvals db' = settles (ap_approval_id a) d now (db_approvals db))))"
  using assms unfolding approval_verdict_cases settle_approval_eq by (auto split: if_splits)

lemma decide_approval_tx_cases:
  assumes "decide_approval_tx c outbox_id e i actor d ack now db = Inr (r, db')"
  obtains (again) a where "find_approval i db = Some a" "find_event e db \<noteq> None" "r = ap_state a" "db' = db"
  | (decided) a pk db1 db2 where "find_approval i db = Some a" "find_event e db = None"
      "insert_event c e now db = Inr (pk, db1)" "approval_verdict a e actor d now db1 = (r, db2)"
      "insert_outbox c outbox_id (ack r) (ap_task_id a) now db2 = Inr db'"
  using assms unfolding decide_approval_tx_def
  by (auto split: option.splits sum.splits if_splits prod.splits)

lemma find_approval_Some:
  assumes "find_approval i db = Some a"
  shows "a \<in> set (db_approvals db)" "ap_approval_id a = i"
  using find_in_set [OF assms [unfolded find_approval_def]] by simp_all

lemma decide_approval_effect:
  assumes db': "db' = snd (decide_approval c outbox_id e i actor d ack now db)"
  shows "db_approvals db' = db_approvals db \<or>
     (\<exists>a. find_approval i db = Some a \<and> authorized a e actor \<and>
        ((ap_expires_at_ms a \<le> now \<and> db_approvals db' = settles i ''expired'' now (db_approvals db)) \<or>
         (now < ap_expires_at_ms a \<and> (d = ''approved'' \<or> d = ''rejected'') \<and>
          db_approvals db' = settles i d now (db_approvals db))))"
    and "db_tasks db' = db_tasks db" "db_lanes db' = db_lanes db"
    "db_next_sequence db' = db_next_sequence db" "db_idempotency db' = db_idempotency db"
    "outbox_ok db \<Longrightarrow> outbox_ok db'" "events_ok db \<Longrightarrow> events_ok db'"
    "set (db_events db) \<subseteq> set (db_events db')"
proof -
  let ?A = "\<lambda>t. db_approvals t = db_approvals db \<or>
     (\<exists>a. find_approval i db = Some a \<and> authorized a e actor \<and>
        ((ap_expires_at_ms a \<le> now \<and> db_approvals t = settles i ''expired'' now (db_approvals db)) \<or>
         (now < ap_expires_at_ms a \<and> (d = ''approved'' \<or> d = ''rejected'') \<and>
          db_approvals t = settles i d now (db_approvals db))))"
  let ?Q = "\<lambda>t. ?A t \<and> db_tasks t = db_tasks db \<and> db_lanes t = db_lanes db \<and>
     db_next_sequence t = db_next_sequence db \<and> db_idempotency t = db_idempotency db \<and>
     (outbox_ok db \<longrightarrow> outbox_ok t) \<and> (events_ok db \<longrightarrow> events_ok t) \<and>
     set (db_events db) \<subseteq> set (db_events t)"
  have "?Q (snd (decide_approval c outbox_id e i actor d ack now db))"
  proof (cases "d = ''approved'' \<or> d = ''rejected''")
    case False
    then show ?thesis by (simp add: decide_approval_def raise_def)
  next
    case True
    have "?Q (snd (transaction (decide_approval_tx c outbox_id e i actor d ack now) db))"
    proof (rule transaction_inv [where P = ?Q])
      show "?Q db" by simp
      fix r t assume "decide_approval_tx c outbox_id e i actor d ack now db = Inr (r, t)"
      then show "?Q t"
      proof (cases rule: decide_approval_tx_cases)
        case again
        then show ?thesis by simp
      next
        case (decided a pk db1 db2)
        note v = approval_verdict_frame [OF decided(4)] and ins = insert_outbox_frame [OF decided(5)]
          and ev = insert_event_frame [OF decided(3)]
        have i: "ap_approval_id a = i" by (rule find_approval_Some(2) [OF decided(1)])
        have "?A t"
          using approval_verdict_approvals [OF decided(4)] decided(1) True unfolding ins(6) ev(6) i by blast
        moreover have "outbox_ok t" if "outbox_ok db"
        proof -
          have "outbox_ok db2" using that outbox_ok_cong [of db2 db] v(7) ev(2) by simp
          then show ?thesis by (rule insert_outbox_ok [OF _ decided(5)])
        qed
        moreover have "events_ok t" if "events_ok db"
        proof -
          have "events_ok db2"
            using insert_event_events_ok [OF that decided(3)] events_ok_cong [of db2 db1] v(1-3) by simp
          then show ?thesis using events_ok_cong [of t db2] ins(1,2,9) by simp
        qed
        moreover have "set (db_events db) \<subseteq> set (db_events t)"
          using insert_event_cases(3) [OF decided(3)] v(2) ins(2) by auto
        ultimately show ?thesis using v ins ev by simp
      qed
    qed
    then show ?thesis using True by (auto simp: decide_approval_def)
  qed
  then show "?A db'" and "db_tasks db' = db_tasks db" "db_lanes db' = db_lanes db"
    "db_next_sequence db' = db_next_sequence db" "db_idempotency db' = db_idempotency db"
    "outbox_ok db \<Longrightarrow> outbox_ok db'" "events_ok db \<Longrightarrow> events_ok db'"
    "set (db_events db) \<subseteq> set (db_events db')"
    by (simp_all add: db')
qed

lemma settles_ok:
  assumes "approvals_ok db" "db_approvals db' = settles i s now (db_approvals db)"
    "s = ''approved'' \<or> s = ''rejected'' \<or> s = ''expired''"
  shows "approvals_ok db'"
proof -
  have "map ap_approval_id (settles i s now (db_approvals db)) = map ap_approval_id (db_approvals db)"
    unfolding settles_def by (rule update_where_map_key) simp
  moreover have "\<forall>a \<in> set (settles i s now (db_approvals db)). approval_row_ok a"
    unfolding settles_def
    by (rule ball_update_where)
      (use assms(1,3) in \<open>auto simp: approvals_ok_def approval_row_ok_def\<close>)
  ultimately show ?thesis using assms(1,2) by (simp add: approvals_ok_def)
qed

lemma request_approval_ok:
  assumes "approvals_ok db"
  shows "approvals_ok (snd (request_approval c outbox_id q draft now db))"
proof -
  have new: "approvals_ok db'" if none: "find_approval (aq_approval_id q) db = None"
    and db': "db_approvals db' = db_approvals db @ [new_approval q now]" for db' :: "'a rt_db"
  proof -
    have "aq_approval_id q \<notin> ap_approval_id ` set (db_approvals db)"
      using none unfolding find_approval_def find_None image_iff by metis
    then show ?thesis
      using assms by (simp add: db' approvals_ok_def) (simp add: new_approval_def approval_row_ok_def)
  qed
  show ?thesis
    using request_approval_effect(1) [OF refl, of c outbox_id q draft now db]
  proof (elim disjE exE conjE)
    assume "db_approvals (snd (request_approval c outbox_id q draft now db)) = db_approvals db"
    then show ?thesis using assms approvals_ok_cong by metis
  qed (erule (1) new, rule settles_ok [OF assms], simp, simp)
qed

lemma decide_approval_ok:
  assumes "approvals_ok db"
  shows "approvals_ok (snd (decide_approval c outbox_id e i actor d ack now db))"
  using decide_approval_effect(1) [OF refl, of c outbox_id e i actor d ack now db]
proof (elim disjE exE conjE)
  assume "db_approvals (snd (decide_approval c outbox_id e i actor d ack now db)) = db_approvals db"
  then show ?thesis using assms approvals_ok_cong by metis
qed (rule settles_ok [OF assms], simp, simp)+

text \<open>A settled request is not touched again.\<close>

lemma settles_final: "a \<in> set rows \<Longrightarrow> ap_state a \<noteq> ''pending'' \<Longrightarrow> a \<in> set (settles i s now rows)"
  by (force simp: settles_def table_simps)

end
