(* ===== verification/ControlStore.thy ===== *)
theory ControlStore
  imports ApprovalStore
begin

text \<open>
  Steering a running task (\<open>admit_control\<close>, \<open>pending_controls\<close> and \<open>acknowledge_controls\<close> of
  \<open>storage/runtime_store.py\<close>): a follow-up message of the actor who started the session's open task
  becomes a control of that task.
\<close>

record control_admission_result =
  cr_created :: bool
  cr_control_id :: string
  cr_task_id :: string

text \<open>The open mention tasks of a session: no run yet, or a run that is running.\<close>

definition control_candidate :: "string \<Rightarrow> 'b rt_db \<Rightarrow> 'b task_row \<Rightarrow> bool" where
  "control_candidate session_key db t \<longleftrightarrow>
     tk_session_key t = session_key \<and> tk_command_type t = ''im.handle_mention'' \<and>
     (tk_state t = TaskPending \<or> tk_state t = TaskLeased) \<and>
     (\<not> list_ex (\<lambda>r. rn_task_id r = tk_task_id t) (db_runs db) \<or>
      list_ex (\<lambda>r. rn_task_id r = tk_task_id t \<and> rn_status r = RUNNING) (db_runs db))"

definition control_order :: "'b task_row \<Rightarrow> int \<times> int \<times> string" where
  "control_order t = (if tk_state t = TaskLeased then 0 else 1, tk_created_at_ms t, tk_task_id t)"

definition control_target :: "string \<Rightarrow> 'b rt_db \<Rightarrow> 'b task_row option" where
  "control_target session_key db =
     first_by control_order (filter (control_candidate session_key db) (db_tasks db))"

definition existing_control :: "normalized_event \<Rightarrow> 'b rt_db \<Rightarrow> 'b control_row option" where
  "existing_control e db = (case find_event e db of None \<Rightarrow> None
     | Some r \<Rightarrow> find (\<lambda>x. rc_event_pk x = re_event_pk r) (db_controls db))"

definition control_payload :: "string \<Rightarrow> string \<Rightarrow> normalized_event \<Rightarrow> payload" where
  "control_payload text_value actor_id e = [(''text'', JStr text_value), (''actor_id'', JStr actor_id),
     (''source_message_id'', JStr (ev_resource_id e))]"

definition new_control_row ::
  "'b cipher \<Rightarrow> string \<Rightarrow> int \<Rightarrow> string \<Rightarrow> string \<Rightarrow> run_control_kind \<Rightarrow> payload \<Rightarrow> int \<Rightarrow> 'b control_row" where
  "new_control_row c control_id pk target session_key kind p now = \<lparr>rc_control_id = control_id,
     rc_event_pk = pk, rc_target_task_id = target, rc_session_key = session_key, rc_kind = kind,
     rc_payload = encrypt_json c p (control_aad control_id), rc_state = ''pending'',
     rc_created_at_ms = now, rc_applied_at_ms = None\<rparr>"

text \<open>The insert: primary key and the unique event; the referenced rows are there.\<close>

definition insert_control :: "'b control_row \<Rightarrow> 'b rt_db \<Rightarrow> exn + 'b rt_db" where
  "insert_control row db =
     (if list_ex (\<lambda>x. rc_control_id x = rc_control_id row \<or> rc_event_pk x = rc_event_pk row) (db_controls db)
      then Inl (IntegrityError ''UNIQUE constraint failed: runtime_run_controls'')
      else Inr (db\<lparr>db_controls := db_controls db @ [row]\<rparr>))"

text \<open>\<open>admit_control\<close>; \<open>None\<close> means that the message is not a control. \<open>control_id\<close> and \<open>outbox_id\<close> are fresh.\<close>

definition admit_control_tx ::
  "'b cipher \<Rightarrow> string \<Rightarrow> string \<Rightarrow> normalized_event \<Rightarrow> string \<Rightarrow> string \<Rightarrow> run_control_kind \<Rightarrow> string \<Rightarrow>
     outbox_draft \<Rightarrow> int \<Rightarrow> ('b rt_db, control_admission_result option) tx" where
  "admit_control_tx c control_id outbox_id event session_key actor_id kind text_value acknowledgement now db =
     (case existing_control event db of
        Some x \<Rightarrow> Inr (Some \<lparr>cr_created = False, cr_control_id = rc_control_id x,
                            cr_task_id = rc_target_task_id x\<rparr>, db)
      | None \<Rightarrow>
          (if find_event event db \<noteq> None then Inr (None, db)
           else case control_target session_key db of
             None \<Rightarrow> Inr (None, db)
           | Some t \<Rightarrow>
               (case runtime_decrypt c (tk_payload t) (task_aad (tk_task_id t)) of
                  Inl e \<Rightarrow> Inl e
                | Inr p \<Rightarrow>
                    (if json_get p ''sender_id'' \<noteq> Some (JStr actor_id) then Inr (None, db)
                     else case insert_event c event now db of
                       Inl e \<Rightarrow> Inl e
                     | Inr (pk, db1) \<Rightarrow>
                         (case insert_control (new_control_row c control_id pk (tk_task_id t) session_key kind
                                 (control_payload text_value actor_id event) now) db1 of
                            Inl e \<Rightarrow> Inl e
                          | Inr db2 \<Rightarrow>
                              (case insert_outbox c outbox_id acknowledgement (tk_task_id t) now db2 of
                                 Inl e \<Rightarrow> Inl e
                               | Inr db3 \<Rightarrow> Inr (Some \<lparr>cr_created = True, cr_control_id = control_id,
                                                  cr_task_id = tk_task_id t\<rparr>, db3)))))))"

definition admit_control ::
  "'b cipher \<Rightarrow> string \<Rightarrow> string \<Rightarrow> normalized_event \<Rightarrow> string \<Rightarrow> string \<Rightarrow> run_control_kind \<Rightarrow> string \<Rightarrow>
     outbox_draft \<Rightarrow> int \<Rightarrow> ('b rt_db, control_admission_result option) eff" where
  "admit_control c control_id outbox_id event session_key actor_id kind text_value acknowledgement now =
     transaction (admit_control_tx c control_id outbox_id event session_key actor_id kind text_value
       acknowledgement now)"

text \<open>\<open>pending_controls\<close>: in order of creation, each with its payload opened.\<close>

definition control_of_row :: "'b cipher \<Rightarrow> 'b control_row \<Rightarrow> exn + run_control" where
  "control_of_row c x =
     (case runtime_decrypt c (rc_payload x) (control_aad (rc_control_id x)) of
        Inl e \<Rightarrow> Inl e
      | Inr p \<Rightarrow>
          (case (json_at p ''text'', json_at p ''actor_id'', json_at p ''source_message_id'') of
             (Inl e, _, _) \<Rightarrow> Inl e
           | (_, Inl e, _) \<Rightarrow> Inl e
           | (_, _, Inl e) \<Rightarrow> Inl e
           | (Inr t, Inr a, Inr m) \<Rightarrow> Inr \<lparr>ct_control_id = rc_control_id x,
               ct_target_task_id = rc_target_task_id x, ct_kind = rc_kind x, ct_text = py_str t,
               ct_actor_id = py_str a, ct_source_message_id = py_str m,
               ct_created_at_ms = rc_created_at_ms x\<rparr>))"

definition pending_rows :: "string \<Rightarrow> 'b rt_db \<Rightarrow> 'b control_row list" where
  "pending_rows task_id db = sort_key (\<lambda>x. (rc_created_at_ms x, rc_control_id x))
     (filter (\<lambda>x. rc_target_task_id x = task_id \<and> rc_state x = ''pending'') (db_controls db))"

definition pending_controls :: "'b cipher \<Rightarrow> string \<Rightarrow> 'b rt_db \<Rightarrow> exn + run_control list" where
  "pending_controls c task_id db = decode_all (control_of_row c) (pending_rows task_id db)"

definition apply_controls :: "string \<Rightarrow> string list \<Rightarrow> int \<Rightarrow> 'b rt_db \<Rightarrow> 'b rt_db" where
  "apply_controls task_id control_ids now db = db\<lparr>db_controls := update_where
     (\<lambda>x. rc_target_task_id x = task_id \<and> rc_state x = ''pending'' \<and> List.member control_ids (rc_control_id x))
     (\<lambda>x. x\<lparr>rc_state := ''applied'', rc_applied_at_ms := Some now\<rparr>) (db_controls db)\<rparr>"

definition acknowledge_controls :: "string \<Rightarrow> string list \<Rightarrow> int \<Rightarrow> ('b rt_db, unit) eff" where
  "acknowledge_controls task_id control_ids now =
     (if control_ids = [] then (\<lambda>db. (Inr (), db))
      else transaction (\<lambda>db. Inr ((), apply_controls task_id control_ids now db)))"

text \<open>\<open>counts\<close>\<close>

definition counts :: "'b rt_db \<Rightarrow> (string \<times> nat) list" where
  "counts db = [(''runtime_events'', length (db_events db)), (''runtime_tasks'', length (db_tasks db)),
     (''runtime_outbox'', length (db_outbox db)), (''runtime_idempotency'', length (db_idempotency db))]"

section \<open>Effect and authority\<close>

lemma admit_control_tx_cases:
  assumes "admit_control_tx c cid oid e s actor kind tx ack now db = Inr (r, db')"
  obtains (known) x where "existing_control e db = Some x" "db' = db"
      "r = Some \<lparr>cr_created = False, cr_control_id = rc_control_id x, cr_task_id = rc_target_task_id x\<rparr>"
  | (none) "r = None" "db' = db"
  | (fresh) t p pk db1 db2 where "find_event e db = None" "control_target s db = Some t"
      "runtime_decrypt c (tk_payload t) (task_aad (tk_task_id t)) = Inr p"
      "json_get p ''sender_id'' = Some (JStr actor)" "insert_event c e now db = Inr (pk, db1)"
      "insert_control (new_control_row c cid pk (tk_task_id t) s kind (control_payload tx actor e) now) db1 = Inr db2"
      "insert_outbox c oid ack (tk_task_id t) now db2 = Inr db'"
      "r = Some \<lparr>cr_created = True, cr_control_id = cid, cr_task_id = tk_task_id t\<rparr>"
  using assms unfolding admit_control_tx_def
  by (auto split: option.splits sum.splits if_splits prod.splits)

lemma control_targetD:
  assumes "control_target s db = Some t"
  shows "t \<in> set (db_tasks db)" "tk_session_key t = s" "tk_command_type t = ''im.handle_mention''"
    "\<not> task_terminal (tk_state t)"
  using first_by_Some(1) [OF assms [unfolded control_target_def]] by (auto simp: control_candidate_def)

text \<open>
  A control that is created targets an open task of the same session whose stored payload names the
  acting user as its sender; it is pending, and reads back as it was sent.
\<close>

definition control_sent_by :: "'b cipher \<Rightarrow> string \<Rightarrow> string \<Rightarrow> 'b task_row \<Rightarrow> bool" where
  "control_sent_by c s actor t \<longleftrightarrow> tk_session_key t = s \<and> \<not> task_terminal (tk_state t) \<and>
     (\<exists>p. runtime_decrypt c (tk_payload t) (task_aad (tk_task_id t)) = Inr p \<and>
          json_get p ''sender_id'' = Some (JStr actor))"

lemma control_of_new_row:
  assumes "opens_sealed c"
  shows "control_of_row c (new_control_row c cid pk target s kind (control_payload tx actor e) now) =
    Inr \<lparr>ct_control_id = cid, ct_target_task_id = target, ct_kind = kind, ct_text = tx,
         ct_actor_id = actor, ct_source_message_id = ev_resource_id e, ct_created_at_ms = now\<rparr>"
  using assms
  by (simp add: control_of_row_def new_control_row_def control_payload_def json_at_def)

lemma admit_control_frame:
  assumes db': "db' = snd (admit_control c cid oid e s actor kind tx ack now db)"
  shows "db_tasks db' = db_tasks db" "db_lanes db' = db_lanes db"
    "db_next_sequence db' = db_next_sequence db" "db_idempotency db' = db_idempotency db"
    "db_approvals db' = db_approvals db" "db_runs db' = db_runs db"
    "outbox_ok db \<Longrightarrow> outbox_ok db'" "events_ok db \<Longrightarrow> events_ok db'"
    "set (db_events db) \<subseteq> set (db_events db')"
proof -
  let ?Q = "\<lambda>t. db_tasks t = db_tasks db \<and> db_lanes t = db_lanes db \<and>
     db_next_sequence t = db_next_sequence db \<and> db_idempotency t = db_idempotency db \<and>
     db_approvals t = db_approvals db \<and> db_runs t = db_runs db \<and>
     (outbox_ok db \<longrightarrow> outbox_ok t) \<and> (events_ok db \<longrightarrow> events_ok t) \<and>
     set (db_events db) \<subseteq> set (db_events t)"
  have "?Q (snd (transaction (admit_control_tx c cid oid e s actor kind tx ack now) db))"
  proof (rule transaction_inv [where P = ?Q])
    show "?Q db" by simp
    fix r t assume "admit_control_tx c cid oid e s actor kind tx ack now db = Inr (r, t)"
    then show "?Q t"
    proof (cases rule: admit_control_tx_cases)
      case (fresh u p pk db1 db2)
      have db2: "\<exists>x. db2 = db1\<lparr>db_controls := db_controls db1 @ [x]\<rparr>"
        using fresh(6) by (auto simp: insert_control_def split: if_splits)
      note ev = insert_event_frame [OF fresh(5)] and ins = insert_outbox_frame [OF fresh(7)]
      have "outbox_ok t" if "outbox_ok db"
      proof -
        have "outbox_ok db2" using that db2 ev(2) outbox_ok_cong [of db2 db] by auto
        then show ?thesis by (rule insert_outbox_ok [OF _ fresh(7)])
      qed
      moreover have "events_ok t" if "events_ok db"
      proof -
        have "events_ok db2"
          using insert_event_events_ok [OF that fresh(5)] db2 events_ok_cong [of db2 db1] by auto
        then show ?thesis using events_ok_cong [of t db2] ins(1,2,9) by simp
      qed
      moreover have "set (db_events db) \<subseteq> set (db_events t)"
        using insert_event_cases(3) [OF fresh(5)] db2 ins(2) by auto
      ultimately show ?thesis using db2 ev ins by auto
    qed simp_all
  qed
  then show "db_tasks db' = db_tasks db" "db_lanes db' = db_lanes db"
    "db_next_sequence db' = db_next_sequence db" "db_idempotency db' = db_idempotency db"
    "db_approvals db' = db_approvals db" "db_runs db' = db_runs db"
    "outbox_ok db \<Longrightarrow> outbox_ok db'" "events_ok db \<Longrightarrow> events_ok db'"
    "set (db_events db) \<subseteq> set (db_events db')"
    by (simp_all add: db' admit_control_def)
qed

lemma acknowledge_controls_frame:
  assumes db': "db' = snd (acknowledge_controls task_id ids now db)"
  shows "db_tasks db' = db_tasks db" "db_lanes db' = db_lanes db"
    "db_next_sequence db' = db_next_sequence db" "db_idempotency db' = db_idempotency db"
    "db_approvals db' = db_approvals db" "db_outbox db' = db_outbox db" "db_events db' = db_events db"
    "db_event_seq db' = db_event_seq db" "db_runs db' = db_runs db"
  using db' by (simp_all add: acknowledge_controls_def transaction_def apply_controls_def)

end
