(* ===== verification/SessionStore.thy ===== *)
theory SessionStore
  imports RunTypes ControlStore
begin

text \<open>
  The durable session store (\<open>storage/session_store.py\<close>): runs, their numbered journal, one
  checkpoint per run and the terminal outcome, which is written in the transaction that checks that
  the run is still running and that no control is waiting.
\<close>

section \<open>Runs and their journal\<close>

definition run_event_aad :: "string \<Rightarrow> int \<Rightarrow> string" where
  "run_event_aad run_id sequence = ''runtime_run_events:'' @ run_id @ '':'' @ show_int sequence @ '':v1''"

definition checkpoint_aad :: "string \<Rightarrow> string" where
  "checkpoint_aad run_id = ''runtime_checkpoints:'' @ run_id @ '':v1''"

definition session_decrypt :: "'b cipher \<Rightarrow> 'b \<Rightarrow> string \<Rightarrow> exn + payload" where
  "session_decrypt c blob aad = decrypt_json c ''stored session payload must be an object'' blob aad"

definition find_run :: "string \<Rightarrow> 'b rt_db \<Rightarrow> run_row option" where
  "find_run run_id db = find (\<lambda>r. rn_run_id r = run_id) (db_runs db)"

definition run_missing :: "string \<Rightarrow> exn" where
  "run_missing run_id = LookupError (''run does not exist: '' @ run_id)"

text \<open>\<open>start_run\<close>\<close>

definition start_run_tx ::
  "string \<Rightarrow> string \<Rightarrow> string \<Rightarrow> string \<Rightarrow> int \<Rightarrow> int \<Rightarrow> int \<Rightarrow> string \<Rightarrow> ('b rt_db, unit) tx" where
  "start_run_tx run_id task_id session_key agent_id agent_version policy_version now trace_id db =
     (if find_run run_id db \<noteq> None then Inl (IntegrityError ''UNIQUE constraint failed: runtime_runs.run_id'')
      else if \<not> task_exists task_id db then Inl (IntegrityError ''FOREIGN KEY constraint failed'')
      else Inr ((), db\<lparr>db_runs := db_runs db @ [\<lparr>rn_run_id = run_id, rn_task_id = task_id,
        rn_session_key = session_key, rn_agent_definition_id = agent_id,
        rn_agent_definition_version = agent_version, rn_policy_version = policy_version,
        rn_status = RUNNING, rn_created_at_ms = now, rn_updated_at_ms = now,
        rn_trace_id = (if trace_id = [] then run_id else trace_id)\<rparr>]\<rparr>))"

definition start_run ::
  "string \<Rightarrow> string \<Rightarrow> string \<Rightarrow> string \<Rightarrow> int \<Rightarrow> int \<Rightarrow> int \<Rightarrow> string \<Rightarrow> ('b rt_db, unit) eff" where
  "start_run run_id task_id session_key agent_id agent_version policy_version now trace_id =
     transaction (start_run_tx run_id task_id session_key agent_id agent_version policy_version now trace_id)"

text \<open>\<open>COALESCE(MAX(sequence), 0) + 1\<close>\<close>

definition run_events :: "string \<Rightarrow> 'b rt_db \<Rightarrow> 'b run_event_row list" where
  "run_events run_id db = filter (\<lambda>e. rv_run_id e = run_id) (db_run_events db)"

definition next_sequence :: "string \<Rightarrow> 'b rt_db \<Rightarrow> int" where
  "next_sequence run_id db = max_sequence rv_sequence (run_events run_id db) + 1"

definition insert_run_event ::
  "'b cipher \<Rightarrow> string \<Rightarrow> string \<Rightarrow> payload \<Rightarrow> int \<Rightarrow> 'b rt_db \<Rightarrow> 'b rt_db" where
  "insert_run_event c run_id event_type p now db = (let n = next_sequence run_id db in
     db\<lparr>db_run_events := db_run_events db @ [\<lparr>rv_run_id = run_id, rv_sequence = n,
       rv_event_type = event_type, rv_payload = encrypt_json c p (run_event_aad run_id n),
       rv_created_at_ms = now\<rparr>]\<rparr>)"

text \<open>\<open>append_event\<close>\<close>

definition append_event_tx ::
  "'b cipher \<Rightarrow> string \<Rightarrow> string \<Rightarrow> payload \<Rightarrow> int \<Rightarrow> ('b rt_db, run_event) tx" where
  "append_event_tx c run_id event_type p now db =
     (if find_run run_id db = None then Inl (run_missing run_id)
      else Inr (\<lparr>en_run_id = run_id, en_sequence = next_sequence run_id db,
                 en_event_type = event_type, en_payload = p, en_created_at_ms = now\<rparr>,
                insert_run_event c run_id event_type p now db))"

definition append_event :: "'b cipher \<Rightarrow> string \<Rightarrow> string \<Rightarrow> payload \<Rightarrow> int \<Rightarrow> ('b rt_db, run_event) eff" where
  "append_event c run_id event_type p now = transaction (append_event_tx c run_id event_type p now)"

text \<open>\<open>events\<close>: the journal in order.\<close>

definition event_of_row :: "'b cipher \<Rightarrow> 'b run_event_row \<Rightarrow> exn + run_event" where
  "event_of_row c e = chain (session_decrypt c (rv_payload e) (run_event_aad (rv_run_id e) (rv_sequence e)))
     (\<lambda>p. Inr \<lparr>en_run_id = rv_run_id e, en_sequence = rv_sequence e, en_event_type = rv_event_type e,
               en_payload = p, en_created_at_ms = rv_created_at_ms e\<rparr>)"

definition journal :: "'b cipher \<Rightarrow> string \<Rightarrow> 'b rt_db \<Rightarrow> exn + run_event list" where
  "journal c run_id db = decode_all (event_of_row c) (sort_key rv_sequence (run_events run_id db))"

section \<open>Checkpoints\<close>

definition checkpoint_row_of :: "'b cipher \<Rightarrow> run_checkpoint \<Rightarrow> int \<Rightarrow> 'b checkpoint_row" where
  "checkpoint_row_of c k now = \<lparr>cp_run_id = ck_run_id k,
     cp_payload = encrypt_json c (checkpoint_dict k) (checkpoint_aad (ck_run_id k)),
     cp_next_turn = ck_next_turn k, cp_agent_id = ck_agent_id k, cp_agent_version = ck_agent_version k,
     cp_compactor_version = ck_compactor_version k, cp_created_at_ms = now, cp_updated_at_ms = now\<rparr>"

text \<open>\<open>INSERT ... ON CONFLICT(run_id) DO UPDATE\<close>; the foreign key on the run is checked for a new row.\<close>

definition upsert_checkpoint :: "'b checkpoint_row \<Rightarrow> 'b rt_db \<Rightarrow> exn + 'b rt_db" where
  "upsert_checkpoint row db =
     (if list_ex (\<lambda>p. cp_run_id p = cp_run_id row) (db_checkpoints db)
      then Inr (db\<lparr>db_checkpoints := update_where (\<lambda>p. cp_run_id p = cp_run_id row)
        (\<lambda>p. row\<lparr>cp_created_at_ms := cp_created_at_ms p\<rparr>) (db_checkpoints db)\<rparr>)
      else if find_run (cp_run_id row) db = None then Inl (IntegrityError ''FOREIGN KEY constraint failed'')
      else Inr (db\<lparr>db_checkpoints := db_checkpoints db @ [row]\<rparr>))"

definition save_checkpoint_tx :: "'b cipher \<Rightarrow> run_checkpoint \<Rightarrow> int \<Rightarrow> ('b rt_db, unit) tx" where
  "save_checkpoint_tx c k now db =
     chain (upsert_checkpoint (checkpoint_row_of c k now) db) (\<lambda>db1.
       Inr ((), db1\<lparr>db_checkpoint_sources :=
         delete_where (\<lambda>s. cs_run_id s = ck_run_id k) (db_checkpoint_sources db1) @
         map (\<lambda>(r, v). \<lparr>cs_run_id = ck_run_id k, cs_source_ref = r, cs_source_version = v\<rparr>)
           (sort (ck_source_versions k))\<rparr>))"

definition save_checkpoint :: "'b cipher \<Rightarrow> run_checkpoint \<Rightarrow> int \<Rightarrow> ('b rt_db, unit) eff" where
  "save_checkpoint c k now = transaction (save_checkpoint_tx c k now)"

text \<open>\<open>discard_checkpoint\<close>; the sources go with their checkpoint (\<open>ON DELETE CASCADE\<close>).\<close>

definition discard_checkpoint :: "string \<Rightarrow> ('b rt_db, unit) eff" where
  "discard_checkpoint run_id = transaction (\<lambda>db. Inr ((), db\<lparr>
     db_checkpoints := delete_where (\<lambda>p. cp_run_id p = run_id) (db_checkpoints db),
     db_checkpoint_sources := delete_where (\<lambda>s. cs_run_id s = run_id) (db_checkpoint_sources db)\<rparr>))"

definition load_checkpoint :: "'b cipher \<Rightarrow> string \<Rightarrow> 'b rt_db \<Rightarrow> exn + run_checkpoint option" where
  "load_checkpoint c run_id db =
     (case find (\<lambda>p. cp_run_id p = run_id) (db_checkpoints db) of
        None \<Rightarrow> Inr None
      | Some row \<Rightarrow> chain (session_decrypt c (cp_payload row) (checkpoint_aad run_id))
          (\<lambda>p. chain (checkpoint_from_dict p) (\<lambda>k. Inr (Some k))))"

definition run_status_of_run :: "string \<Rightarrow> 'b rt_db \<Rightarrow> run_status option" where
  "run_status_of_run run_id db = map_option rn_status (find_run run_id db)"

section \<open>Outcomes\<close>

definition outcome_payload :: "agent_outcome \<Rightarrow> payload" where
  "outcome_payload o' = [(''status'', JStr (run_status_value (oc_status o'))),
     (''summary'', JStr (oc_summary o')), (''resource_refs'', jstrs (oc_resource_refs o')),
     (''warnings'', jstrs (oc_warnings o'))]"

definition outcome_of_payload :: "payload \<Rightarrow> exn + agent_outcome" where
  "outcome_of_payload p = chain (json_at p ''status'') (\<lambda>s. chain (run_status_of (py_str s)) (\<lambda>status.
     chain (json_at p ''summary'') (\<lambda>m. chain (chain (json_at p ''resource_refs'') as_strs) (\<lambda>refs.
     chain (chain (json_at p ''warnings'') as_strs) (\<lambda>warnings.
       check_outcome \<lparr>oc_status = status, oc_summary = py_str m, oc_resource_refs = refs,
                      oc_warnings = warnings\<rparr>)))))"

lemma outcome_of_payload_payload:
  "oc_status o' \<noteq> RUNNING \<Longrightarrow> outcome_of_payload (outcome_payload o') = Inr o'"
  by (simp add: outcome_of_payload_def outcome_payload_def json_at_def check_outcome_def)

text \<open>\<open>load_outcome\<close>: the last terminal event.\<close>

definition terminal_rows :: "string \<Rightarrow> 'b rt_db \<Rightarrow> 'b run_event_row list" where
  "terminal_rows run_id db = filter (\<lambda>e. rv_event_type e = ''run_terminal'') (run_events run_id db)"

definition load_outcome :: "'b cipher \<Rightarrow> string \<Rightarrow> 'b rt_db \<Rightarrow> exn + agent_outcome option" where
  "load_outcome c run_id db =
     (case first_by (\<lambda>e. - rv_sequence e) (terminal_rows run_id db) of
        None \<Rightarrow> Inr None
      | Some e \<Rightarrow> chain (session_decrypt c (rv_payload e) (run_event_aad run_id (rv_sequence e)))
          (\<lambda>p. chain (outcome_of_payload p) (\<lambda>o'. Inr (Some o'))))"

definition set_run_status :: "string \<Rightarrow> run_status \<Rightarrow> int \<Rightarrow> 'b rt_db \<Rightarrow> 'b rt_db" where
  "set_run_status run_id status now db = db\<lparr>db_runs := update_where (\<lambda>r. rn_run_id r = run_id)
     (\<lambda>r. r\<lparr>rn_status := status, rn_updated_at_ms := now\<rparr>) (db_runs db)\<rparr>"

text \<open>\<open>finish_run\<close>\<close>

definition finish_run :: "string \<Rightarrow> run_status \<Rightarrow> int \<Rightarrow> ('b rt_db, unit) eff" where
  "finish_run run_id status now =
     (if status = RUNNING \<or> status = WAITING
      then raise (ValueError ''finish_run requires a terminal status'')
      else transaction (\<lambda>db.
        if count_where (\<lambda>r. rn_run_id r = run_id) (db_runs db) \<noteq> 1 then Inl (run_missing run_id)
        else Inr ((), set_run_status run_id status now db)))"

text \<open>\<open>try_finish_with_outcome\<close>\<close>

definition pending_control :: "string \<Rightarrow> 'b control_row \<Rightarrow> bool" where
  "pending_control task_id x \<longleftrightarrow> rc_target_task_id x = task_id \<and> rc_state x = ''pending''"

definition supersede_controls :: "string \<Rightarrow> int \<Rightarrow> 'b rt_db \<Rightarrow> 'b rt_db" where
  "supersede_controls task_id now db = db\<lparr>db_controls := update_where (pending_control task_id)
     (\<lambda>x. x\<lparr>rc_state := ''superseded'', rc_applied_at_ms := Some now\<rparr>) (db_controls db)\<rparr>"

definition try_finish_tx ::
  "'b cipher \<Rightarrow> string \<Rightarrow> agent_outcome \<Rightarrow> string list \<Rightarrow> int \<Rightarrow> ('b rt_db, bool) tx" where
  "try_finish_tx c run_id outcome applied now db =
     (case find_run run_id db of
        None \<Rightarrow> Inl (run_missing run_id)
      | Some run \<Rightarrow>
          (if rn_status run \<noteq> RUNNING then Inl (ValueError ''run is already terminal'')
           else
             let db1 = (if applied = [] then db else apply_controls (rn_task_id run) applied now db);
                 pending = list_ex (pending_control (rn_task_id run)) (db_controls db1)
             in if pending \<and> oc_status outcome = COMPLETED then Inr (False, db1)
                else
                  let db2 = (if pending then supersede_controls (rn_task_id run) now db1 else db1)
                  in Inr (True, set_run_status run_id (oc_status outcome) now
                       (insert_run_event c run_id ''run_terminal'' (outcome_payload outcome) now db2))))"

definition try_finish_with_outcome ::
  "'b cipher \<Rightarrow> string \<Rightarrow> agent_outcome \<Rightarrow> string list \<Rightarrow> int \<Rightarrow> ('b rt_db, bool) eff" where
  "try_finish_with_outcome c run_id outcome applied now =
     (if oc_status outcome = RUNNING \<or> oc_status outcome = WAITING
      then raise (ValueError ''terminal outcome is required'')
      else transaction (try_finish_tx c run_id outcome applied now))"

end
