(* ===== verification/SessionInv.thy ===== *)
theory SessionInv
  imports SessionStore
begin

text \<open>
  What the session store guarantees: journals are numbered without gaps, a run has at most one
  outcome and it reads back as written, a checkpoint reads back as saved, and a run completes only
  when no control is waiting.
\<close>

section \<open>The invariant\<close>

text \<open>The tables of the session store.\<close>

definition session_view ::
  "'b rt_db \<Rightarrow> run_row list \<times> 'b run_event_row list \<times> 'b checkpoint_row list" where
  "session_view db = (db_runs db, db_run_events db, db_checkpoints db)"

definition run_ok :: "string \<Rightarrow> 'b rt_db \<Rightarrow> bool" where
  "run_ok i db \<longleftrightarrow> numbered (map rv_sequence (run_events i db)) \<and> length (terminal_rows i db) \<le> 1 \<and>
     (terminal_rows i db \<noteq> [] \<longrightarrow> (\<exists>r. find_run i db = Some r \<and> rn_status r \<noteq> RUNNING)) \<and>
     (find_run i db = None \<longrightarrow> run_events i db = [])"

definition sessions_ok :: "'b rt_db \<Rightarrow> bool" where
  "sessions_ok db \<longleftrightarrow> distinct (map rn_run_id (db_runs db)) \<and> distinct (map cp_run_id (db_checkpoints db)) \<and>
     (\<forall>i. run_ok i db)"

lemma session_view_cong:
  assumes "session_view db' = session_view db"
  shows "find_run i db' = find_run i db" "run_events i db' = run_events i db"
    "terminal_rows i db' = terminal_rows i db" "run_ok i db' = run_ok i db" "sessions_ok db' = sessions_ok db"
    "load_outcome c i db' = load_outcome c i db" "load_checkpoint c i db' = load_checkpoint c i db"
proof -
  have eq: "db_runs db' = db_runs db" "db_run_events db' = db_run_events db" "db_checkpoints db' = db_checkpoints db"
    using assms by (simp_all add: session_view_def)
  show a: "find_run i db' = find_run i db" and b: "run_events i db' = run_events i db" for i
    by (simp_all add: find_run_def run_events_def eq)
  show c: "terminal_rows i db' = terminal_rows i db" for i by (simp add: terminal_rows_def b)
  show d: "run_ok i db' = run_ok i db" for i by (simp add: run_ok_def a b c)
  show "sessions_ok db' = sessions_ok db" by (simp add: sessions_ok_def d eq)
  show "load_outcome cc i db' = load_outcome cc i db" for cc by (simp add: load_outcome_def c)
  show "load_checkpoint cc i db' = load_checkpoint cc i db" for cc by (simp add: load_checkpoint_def eq)
qed

lemma next_sequence_numbered:
  "numbered (map rv_sequence (run_events i db)) \<Longrightarrow> next_sequence i db = int (length (run_events i db)) + 1"
  by (simp add: next_sequence_def max_sequence_numbered)

text \<open>The effect of appending one event on the journals.\<close>

lemma run_events_insert:
  "run_events j (insert_run_event c i ty p now db) = run_events j db @
     (if i = j then [\<lparr>rv_run_id = i, rv_sequence = next_sequence i db, rv_event_type = ty,
        rv_payload = encrypt_json c p (run_event_aad i (next_sequence i db)), rv_created_at_ms = now\<rparr>] else [])"
  by (simp add: run_events_def insert_run_event_def Let_def)

lemma insert_run_event_frame [simp]:
  "db_runs (insert_run_event c i ty p now db) = db_runs db"
  "db_checkpoints (insert_run_event c i ty p now db) = db_checkpoints db"
  "find_run j (insert_run_event c i ty p now db) = find_run j db"
  by (simp_all add: insert_run_event_def Let_def find_run_def)

lemma terminal_rows_insert:
  "terminal_rows j (insert_run_event c i ty p now db) = terminal_rows j db @
     (if i = j \<and> ty = ''run_terminal'' then [\<lparr>rv_run_id = i, rv_sequence = next_sequence i db,
        rv_event_type = ty, rv_payload = encrypt_json c p (run_event_aad i (next_sequence i db)),
        rv_created_at_ms = now\<rparr>] else [])"
  by (simp add: terminal_rows_def run_events_insert)

lemma numbered_insert:
  assumes "numbered (map rv_sequence (run_events j db))"
  shows "numbered (map rv_sequence (run_events j (insert_run_event c i ty p now db)))"
  using assms numbered_append [OF assms] next_sequence_numbered [OF assms]
  by (auto simp: run_events_insert)

lemma run_ok_insert:
  assumes "run_ok j db" "ty \<noteq> ''run_terminal''" "find_run i db \<noteq> None"
  shows "run_ok j (insert_run_event c i ty p now db)"
  using assms numbered_insert [of j db c i ty p now]
  by (auto simp: run_ok_def terminal_rows_insert run_events_insert)

lemma find_run_set_status:
  "find_run j (set_run_status i st now db) =
     (case find_run j db of None \<Rightarrow> None
      | Some r \<Rightarrow> Some (if j = i then r\<lparr>rn_status := st, rn_updated_at_ms := now\<rparr> else r))"
proof -
  have "find (\<lambda>r. rn_run_id r = j) (update_where (\<lambda>r. rn_run_id r = i)
      (\<lambda>r. r\<lparr>rn_status := st, rn_updated_at_ms := now\<rparr>) rows) =
    (case find (\<lambda>r. rn_run_id r = j) rows of None \<Rightarrow> None
     | Some r \<Rightarrow> Some (if j = i then r\<lparr>rn_status := st, rn_updated_at_ms := now\<rparr> else r))" for rows
    by (induction rows) auto
  then show ?thesis by (simp add: find_run_def set_run_status_def)
qed

lemma set_run_status_frame [simp]:
  "run_events j (set_run_status i st now db) = run_events j db"
  "terminal_rows j (set_run_status i st now db) = terminal_rows j db"
  "db_checkpoints (set_run_status i st now db) = db_checkpoints db"
  "map rn_run_id (db_runs (set_run_status i st now db)) = map rn_run_id (db_runs db)"
  by (simp_all add: set_run_status_def run_events_def terminal_rows_def update_where_map_key)

lemma run_ok_set_status:
  assumes "run_ok j db" "st \<noteq> RUNNING"
  shows "run_ok j (set_run_status i st now db)"
  using assms by (auto simp: run_ok_def find_run_set_status split: option.splits)

lemma find_snoc:
  "find P (xs @ [y]) = (case find P xs of None \<Rightarrow> if P y then Some y else None | Some x \<Rightarrow> Some x)"
  by (induction xs) auto

section \<open>Every operation keeps it\<close>

lemma start_run_ok:
  assumes "sessions_ok db"
  shows "sessions_ok (snd (start_run i task s a v p now tr db))"
  unfolding start_run_def
proof (rule transaction_inv [where P = sessions_ok, OF assms])
  fix u db' assume "start_run_tx i task s a v p now tr db = Inr (u, db')"
  then have none: "find_run i db = None" and "\<exists>r. rn_run_id r = i \<and> db' = db\<lparr>db_runs := db_runs db @ [r]\<rparr>"
    unfolding start_run_tx_def by (auto split: if_splits intro!: exI conjI)
  then obtain r where r: "rn_run_id r = i" and db': "db' = db\<lparr>db_runs := db_runs db @ [r]\<rparr>" by blast
  have i: "i \<notin> rn_run_id ` set (db_runs db)" using none unfolding find_run_def find_None image_iff by metis
  have run: "run_ok j db'" for j
  proof -
    have old: "run_ok j db" using assms by (simp add: sessions_ok_def)
    have ev: "run_events j db' = run_events j db" "terminal_rows j db' = terminal_rows j db"
      by (simp_all add: db' run_events_def terminal_rows_def)
    have f: "find_run j db' = (case find_run j db of None \<Rightarrow> if j = i then Some r else None | Some x \<Rightarrow> Some x)"
      by (simp add: find_run_def db' find_snoc r)
    have "find_run j db' = find_run j db" if "j \<noteq> i" using that f by (auto split: option.splits)
    moreover have "run_events i db = []" using none assms by (auto simp: sessions_ok_def run_ok_def)
    ultimately show ?thesis using old unfolding run_ok_def ev
      by (cases "j = i") (auto simp: terminal_rows_def)
  qed
  show "sessions_ok db'" unfolding sessions_ok_def
    using assms i r run by (auto simp: sessions_ok_def db')
qed

lemma append_event_ok:
  assumes "sessions_ok db" "ty \<noteq> ''run_terminal''"
  shows "sessions_ok (snd (append_event c i ty p now db))"
  unfolding append_event_def
  by (rule transaction_inv [where P = sessions_ok, OF assms(1)])
    (use assms in \<open>auto simp: append_event_tx_def sessions_ok_def split: if_splits intro: run_ok_insert\<close>)

lemma checkpoints_only:
  assumes "sessions_ok db" "db_runs db' = db_runs db" "db_run_events db' = db_run_events db"
    "distinct (map cp_run_id (db_checkpoints db'))"
  shows "sessions_ok db'"
  using assms unfolding sessions_ok_def run_ok_def run_events_def terminal_rows_def find_run_def by simp

lemma save_checkpoint_tx_cases:
  assumes "save_checkpoint_tx c k now db = Inr (u, db')"
  shows "db_runs db' = db_runs db" "db_run_events db' = db_run_events db"
    "db_checkpoints db' =
       (if list_ex (\<lambda>p. cp_run_id p = ck_run_id k) (db_checkpoints db)
        then update_where (\<lambda>p. cp_run_id p = ck_run_id k)
          (\<lambda>p. checkpoint_row_of c k now\<lparr>cp_created_at_ms := cp_created_at_ms p\<rparr>) (db_checkpoints db)
        else db_checkpoints db @ [checkpoint_row_of c k now])"
  using assms
  by (auto simp: save_checkpoint_tx_def chain_Inr upsert_checkpoint_def checkpoint_row_of_def split: if_splits)

lemma save_checkpoint_ok:
  assumes "sessions_ok db"
  shows "sessions_ok (snd (save_checkpoint c k now db))"
  unfolding save_checkpoint_def
proof (rule transaction_inv [where P = sessions_ok, OF assms])
  fix u db' assume tx: "save_checkpoint_tx c k now db = Inr (u, db')"
  note cs = save_checkpoint_tx_cases [OF tx]
  have d: "distinct (map cp_run_id (db_checkpoints db))" using assms by (simp add: sessions_ok_def)
  have "distinct (map cp_run_id (db_checkpoints db'))"
  proof (cases "list_ex (\<lambda>p. cp_run_id p = ck_run_id k) (db_checkpoints db)")
    case True
    have "map cp_run_id (db_checkpoints db') = map cp_run_id (db_checkpoints db)"
      unfolding cs(3) using True by (simp add: update_where_map_key checkpoint_row_of_def)
    with d show ?thesis by simp
  next
    case False
    with d show ?thesis unfolding cs(3) by (auto simp: checkpoint_row_of_def list_ex_iff)
  qed
  with checkpoints_only [OF assms cs(1,2)] show "sessions_ok db'" by simp
qed

lemma find_update_first:
  assumes "list_ex P rows" "\<And>r. P r \<Longrightarrow> P (f r)"
  shows "\<exists>r. find P (update_where P f rows) = Some (f r)"
  using assms by (induction rows) auto

text \<open>The row of a checkpoint that was saved, whether it was there before or not.\<close>

lemma saved_checkpoint_row:
  assumes "save_checkpoint c k now db = (Inr (), db')"
  shows "\<exists>p. find (\<lambda>p. cp_run_id p = ck_run_id k) (db_checkpoints db') = Some p \<and>
    cp_payload p = encrypt_json c (checkpoint_dict k) (checkpoint_aad (ck_run_id k))"
proof -
  let ?row = "checkpoint_row_of c k now"
  note cs = save_checkpoint_tx_cases(3) [OF transaction_InrD [OF assms [unfolded save_checkpoint_def]]]
  have id: "cp_run_id ?row = ck_run_id k"
    "cp_payload ?row = encrypt_json c (checkpoint_dict k) (checkpoint_aad (ck_run_id k))" by (simp_all add: checkpoint_row_of_def)
  show ?thesis
  proof (cases "list_ex (\<lambda>p. cp_run_id p = ck_run_id k) (db_checkpoints db)")
    case True
    from find_update_first [OF True, of "\<lambda>p. ?row\<lparr>cp_created_at_ms := cp_created_at_ms p\<rparr>"] id
    show ?thesis unfolding cs using True by auto
  next
    case False
    then have "find (\<lambda>p. cp_run_id p = ck_run_id k) (db_checkpoints db) = None"
      unfolding find_None list_ex_iff by blast
    then show ?thesis unfolding cs using False by (simp add: find_snoc id)
  qed
qed

lemma discard_checkpoint_ok:
  assumes "sessions_ok db"
  shows "sessions_ok (snd (discard_checkpoint i db))"
  using checkpoints_only [OF assms, of "snd (discard_checkpoint i db)"] assms
  by (simp add: discard_checkpoint_def transaction_def sessions_ok_def)

lemma finish_run_ok:
  assumes "sessions_ok db"
  shows "sessions_ok (snd (finish_run i st now db))"
proof (cases "st = RUNNING \<or> st = WAITING")
  case False
  have "sessions_ok (set_run_status i st now db)"
    using assms False by (auto simp: sessions_ok_def intro: run_ok_set_status)
  with assms False show ?thesis by (auto simp: finish_run_def transaction_def)
qed (use assms in \<open>auto simp: finish_run_def raise_def\<close>)

text \<open>The cases of a finish: not yet (a control is waiting), or the outcome is written.\<close>

lemma try_finish_tx_cases:
  assumes "try_finish_tx c i outcome applied now db = Inr (b, db')"
  obtains run db1 where "find_run i db = Some run" "rn_status run = RUNNING"
    "db1 = (if applied = [] then db else apply_controls (rn_task_id run) applied now db)"
    "b = False \<longrightarrow> db' = db1 \<and> oc_status outcome = COMPLETED \<and>
       list_ex (pending_control (rn_task_id run)) (db_controls db1)"
    "b \<longrightarrow> (oc_status outcome = COMPLETED \<longrightarrow> \<not> list_ex (pending_control (rn_task_id run)) (db_controls db1)) \<and>
       (\<exists>db2. (if list_ex (pending_control (rn_task_id run)) (db_controls db1)
               then db2 = supersede_controls (rn_task_id run) now db1 else db2 = db1) \<and>
         db' = set_run_status i (oc_status outcome) now
           (insert_run_event c i ''run_terminal'' (outcome_payload outcome) now db2))"
proof -
  from assms obtain run where run: "find_run i db = Some run" "rn_status run = RUNNING"
    by (auto simp: try_finish_tx_def split: option.splits if_splits)
  show ?thesis
    by (rule that [OF run refl])
      (use assms run in \<open>auto simp: try_finish_tx_def Let_def split: if_splits\<close>)
qed

lemma view_apply_controls [simp]: "session_view (apply_controls t ids now db) = session_view db"
  by (simp add: session_view_def apply_controls_def)

lemma view_supersede [simp]: "session_view (supersede_controls t now db) = session_view db"
  by (simp add: session_view_def supersede_controls_def)

lemma run_ok_finish:
  assumes "run_ok j db" "find_run i db = Some run" "rn_status run = RUNNING" "st \<noteq> RUNNING"
  shows "run_ok j (set_run_status i st now (insert_run_event c i ''run_terminal'' p now db))"
proof (cases "j = i")
  case True
  then have "terminal_rows i db = []" using assms(1-3) by (auto simp: run_ok_def)
  with True assms numbered_insert [of j db c i "''run_terminal''" p now] show ?thesis
    by (auto simp: run_ok_def find_run_set_status terminal_rows_insert)
next
  case False
  with assms numbered_insert [of j db c i "''run_terminal''" p now] show ?thesis
    by (auto simp: run_ok_def find_run_set_status terminal_rows_insert run_events_insert split: option.splits)
qed

lemma try_finish_ok:
  assumes "sessions_ok db"
  shows "sessions_ok (snd (try_finish_with_outcome c i outcome applied now db))"
proof (cases "oc_status outcome = RUNNING \<or> oc_status outcome = WAITING")
  case True
  with assms show ?thesis by (auto simp: try_finish_with_outcome_def raise_def)
next
  case False
  have "sessions_ok (snd (transaction (try_finish_tx c i outcome applied now) db))"
  proof (rule transaction_inv [where P = sessions_ok, OF assms])
    fix b db' assume "try_finish_tx c i outcome applied now db = Inr (b, db')"
    then show "sessions_ok db'"
    proof (cases rule: try_finish_tx_cases)
      case (1 run db1)
      have view: "session_view db1 = session_view db" using 1(3) by simp
      show ?thesis
      proof (cases b)
        case False
        with 1(4) session_view_cong(5) [OF view] assms show ?thesis by simp
      next
        case True
        then obtain db2 where v2: "session_view db2 = session_view db"
          and db': "db' = set_run_status i (oc_status outcome) now
            (insert_run_event c i ''run_terminal'' (outcome_payload outcome) now db2)"
          using 1(5) view view_supersede [of "rn_task_id run" now db1] by metis
        note c2 = session_view_cong [OF v2]
        have ok2: "sessions_ok db2" using c2(5) assms by simp
        have "run_ok j db'" for j
          unfolding db'
          by (rule run_ok_finish [of j db2 i run])
            (use ok2 1(1,2) c2(1) False \<open>\<not> (oc_status outcome = RUNNING \<or> oc_status outcome = WAITING)\<close>
              in \<open>auto simp: sessions_ok_def\<close>)
        then show ?thesis using ok2 by (simp add: sessions_ok_def db')
      qed
    qed
  qed
  with False show ?thesis by (simp add: try_finish_with_outcome_def)
qed

end
