(* ===== verification/OutboxOrder.thy ===== *)
theory OutboxOrder
  imports Outbox
begin

text \<open>
  Runs of outbox operations: intents stay unique and bounded, a leased message comes after the sent
  predecessors of its task, and sent or failed intents are final.
\<close>

section \<open>Runs of outbox operations\<close>

datatype 'b outbox_op =
    EnqueueOutbox "'b cipher" string string outbox_draft int
  | LeaseOutbox "'b cipher" string int int int
  | MarkOutboxSent string string string int
  | RetryOutbox string string string int int

fun outbox_step :: "'b outbox_op \<Rightarrow> 'b rt_db \<Rightarrow> 'b rt_db" where
  "outbox_step (EnqueueOutbox c i task_id d now) db = snd (enqueue_task_outbox c i task_id d now db)"
| "outbox_step (LeaseOutbox c w now lease limit) db = snd (lease_outbox c w now lease limit db)"
| "outbox_step (MarkOutboxSent i w ref now) db = snd (mark_outbox_sent i w ref now db)"
| "outbox_step (RetryOutbox i w code av now) db = snd (retry_outbox i w code av now db)"

interpretation outbox_runs: invariant_steps outbox_step outbox_ok
proof
  show "outbox_ok s \<Longrightarrow> outbox_ok (outbox_step op s)" for s :: "'a rt_db" and op
    by (cases op) (simp_all add: enqueue_outbox_ok lease_outbox_ok mark_outbox_sent_ok retry_outbox_ok)
qed

text \<open>
  Whatever sequence of enqueues, leases, sent marks and retries runs on an outbox that starts
  empty, an idempotency key never has two intents, no intent is attempted more often than its
  maximum, an intent has an owner exactly while it is leased, and one that is marked sent carries the
  upstream reference.
\<close>

theorem outbox_runs_keep_intents_unique:
  "db_outbox db = [] \<Longrightarrow>
   distinct (map ob_idempotency_key (db_outbox (fold outbox_step ops db))) \<and>
   (\<forall>q \<in> set (db_outbox (fold outbox_step ops db)).
      ob_attempt_count q \<le> ob_max_attempts q \<and>
      (ob_state q = OutboxLeased \<longleftrightarrow> ob_lease_owner q \<noteq> None) \<and>
      (ob_state q = OutboxSent \<longrightarrow> ob_upstream_ref q \<noteq> None))"
proof -
  assume "db_outbox db = []"
  then have "outbox_ok db" by (simp add: outbox_ok_def)
  then have ok: "outbox_ok (fold outbox_step ops db)" by (rule outbox_runs.run_inv)
  show ?thesis
    using outbox_okD(2) [OF ok] outbox_okD(3) [OF ok] unfolding outbox_row_ok_def by blast
qed

section \<open>Causal order\<close>

lemma lease_outbox_Inr:
  assumes "lease_outbox c w now lease limit db = (Inr ms, db')"
  shows "lease_outbox_tx c w now lease limit db = Inr (ms, db')"
  using assms by (auto simp: lease_outbox_def raise_def transaction_def split: if_splits sum.splits)

lemma reclaim_outbox_row:
  assumes "q \<in> set (reclaim_outbox now rows)"
  shows "\<exists>p \<in> set rows. q = p \<or> (ob_state p = OutboxLeased \<and> ob_lease_owner q = None \<and>
    ob_state q \<in> {OutboxPending, OutboxFailed})"
  using assms by (auto simp: reclaim_outbox_def table_simps outbox_expired_def split: if_splits)

lemma before_leased:
  assumes "outbox_ready now rows q" "q \<in> set rows" "p \<in> set rows" "same_task p q" "outbox_before p q"
  shows "ob_state p = OutboxSent"
  using assms by (auto simp: outbox_ready_def list_ex_iff)

lemma mark_outbox_leased_order [simp]:
  "same_task (mark_outbox_leased w n e p) q = same_task p q"
  "same_task p (mark_outbox_leased w n e q) = same_task p q"
  "outbox_before (mark_outbox_leased w n e p) q = outbox_before p q"
  "outbox_before p (mark_outbox_leased w n e q) = outbox_before p q"
  by (simp_all add: same_task_def outbox_before_def mark_outbox_leased_def)

definition outbox_leased_to :: "string \<Rightarrow> int \<Rightarrow> 'b outbox_row \<Rightarrow> bool" where
  "outbox_leased_to w ex q \<longleftrightarrow> ob_state q = OutboxLeased \<and> ob_lease_owner q = Some w \<and>
     ob_lease_expires_at_ms q = Some ex"

lemma leased_outbox_fields:
  assumes "leased_outbox_of c q = Inr m"
  shows "lo_outbox_id m = ob_outbox_id q" "lo_publisher_id m = ob_publisher_id q"
    "lo_idempotency_key m = ob_idempotency_key q"
    "runtime_decrypt c (ob_payload q) (outbox_aad (ob_outbox_id q)) = Inr (lo_payload m)"
  using assms by (auto simp: leased_outbox_of_def split: sum.splits)

text \<open>What a returned message is: a chosen row, marked.\<close>

lemma lease_outbox_message:
  assumes ok: "outbox_ok db" and l: "lease_outbox c w now lease limit db = (Inr ms, db')" and m: "m \<in> set ms"
  obtains q where "q \<in> set (outbox_choice now limit (reclaim_outbox now (db_outbox db)))"
    "mark_outbox_leased w now (now + lease) q \<in> set (db_outbox db')"
    "leased_outbox_of c (mark_outbox_leased w now (now + lease) q) = Inr m"
proof -
  let ?rows = "reclaim_outbox now (db_outbox db)"
  let ?ids = "map ob_outbox_id (outbox_choice now limit ?rows)"
  note tx = lease_outbox_Inr [OF l]
  note db' = lease_outbox_tx_db [OF tx]
  have "decode_all (leased_outbox_of c) (sort_key outbox_order
      (filter (\<lambda>q. List.member ?ids (ob_outbox_id q) \<and> ob_lease_owner q = Some w) (db_outbox db'))) = Inr ms"
    using tx m unfolding db' by (auto simp: lease_outbox_tx_def Let_def split: if_splits sum.splits)
  from decode_all_set [OF this m] obtain r where r: "r \<in> set (db_outbox db')"
    "ob_outbox_id r \<in> set ?ids" "leased_outbox_of c r = Inr m" by auto
  from r(1) obtain q where q: "q \<in> set ?rows"
    "r = (if ob_outbox_id q \<in> set ?ids \<and> ob_state q = OutboxPending
          then mark_outbox_leased w now (now + lease) q else q)"
    unfolding db' by (auto simp: lease_outbox_ids_map table_simps)
  have "ob_outbox_id r = ob_outbox_id q" using q(2) by (simp add: mark_outbox_leased_def)
  with r(2) obtain u where u: "u \<in> set (outbox_choice now limit ?rows)" "ob_outbox_id u = ob_outbox_id q"
    by auto
  have "distinct (map ob_outbox_id ?rows)" using outbox_okD(1) [OF outbox_ok_reclaim [OF ok]] by simp
  then have uq: "u = q" using key_unique q(1) u outbox_choice_ready by metis
  then have "ob_state q = OutboxPending" using u(1) outbox_choice_ready by (metis outbox_ready_def)
  moreover have "ob_outbox_id q \<in> set ?ids" using u(1) uq by auto
  ultimately have "r = mark_outbox_leased w now (now + lease) q" using q(2) by simp
  with r u uq show ?thesis by (intro that [of q]) auto
qed

lemma lease_outbox_prior_sent:
  assumes "outbox_ok db" and "lease_outbox c w now lease limit db = (Inr ms, db')" and "m \<in> set ms"
  shows "\<exists>q \<in> set (db_outbox db'). ob_outbox_id q = lo_outbox_id m \<and>
    outbox_leased_to w (now + lease) q \<and> leased_outbox_of c q = Inr m \<and>
    (\<forall>p \<in> set (db_outbox db'). same_task p q \<longrightarrow> outbox_before p q \<longrightarrow> ob_state p = OutboxSent)"
proof -
  let ?rows = "reclaim_outbox now (db_outbox db)"
  let ?ids = "map ob_outbox_id (outbox_choice now limit ?rows)"
  obtain q where q: "q \<in> set (outbox_choice now limit ?rows)"
    "mark_outbox_leased w now (now + lease) q \<in> set (db_outbox db')" (is "?q \<in> _")
    "leased_outbox_of c (mark_outbox_leased w now (now + lease) q) = Inr m"
    by (rule lease_outbox_message [OF assms])
  note ready = outbox_choice_ready [OF q(1)]
  have prior: "ob_state p = OutboxSent" if "p \<in> set (db_outbox db')" "same_task p ?q" "outbox_before p ?q" for p
  proof -
    from that(1) obtain p0 where p0: "p0 \<in> set ?rows"
      "p = (if ob_outbox_id p0 \<in> set ?ids \<and> ob_state p0 = OutboxPending
          then mark_outbox_leased w now (now + lease) p0 else p0)"
      unfolding lease_outbox_tx_db [OF lease_outbox_Inr [OF assms(2)]]
      by (auto simp: lease_outbox_ids_map table_simps)
    have "same_task p0 q" "outbox_before p0 q" using that(2,3) p0(2) by (auto split: if_splits)
    then have "ob_state p0 = OutboxSent" using before_leased ready p0(1) by metis
    with p0(2) show ?thesis by simp
  qed
  have "ob_outbox_id ?q = lo_outbox_id m" using leased_outbox_fields(1) [OF q(3)] by simp
  moreover have "outbox_leased_to w (now + lease) ?q" by (simp add: outbox_leased_to_def mark_outbox_leased_def)
  ultimately show ?thesis using q(2,3) prior by blast
qed

text \<open>
  C7. Causal delivery: every message a call of \<open>lease_outbox\<close> hands to the dispatcher is leased to
  it until \<open>now + lease_ms\<close>, and every earlier intent of the same task (created before, or at the same
  millisecond with a kind that goes first: acknowledgement, progress, approval, then the rest) has
  already been sent.
\<close>

theorem lease_outbox_causal_order:
  assumes "outbox_ok db" and "lease_outbox c w now lease limit db = (Inr ms, db')" and "m \<in> set ms"
  shows "\<exists>q \<in> set (db_outbox db'). ob_outbox_id q = lo_outbox_id m \<and>
    outbox_leased_to w (now + lease) q \<and> ob_attempt_count q \<le> ob_max_attempts q \<and>
    (\<forall>p \<in> set (db_outbox db'). same_task p q \<longrightarrow> outbox_before p q \<longrightarrow> ob_state p = OutboxSent)"
proof -
  obtain q where q: "q \<in> set (db_outbox db')" "ob_outbox_id q = lo_outbox_id m"
    "outbox_leased_to w (now + lease) q"
    "\<forall>p \<in> set (db_outbox db'). same_task p q \<longrightarrow> outbox_before p q \<longrightarrow> ob_state p = OutboxSent"
    using lease_outbox_prior_sent [OF assms] by blast
  have "outbox_ok db'" using lease_outbox_ok [OF assms(1)] assms(2) by (metis snd_conv)
  then have "outbox_row_ok q" using q(1) outbox_okD(3) by blast
  with q show ?thesis unfolding outbox_row_ok_def by blast
qed

text \<open>Sent and failed rows are final: no operation rewrites them.\<close>

definition outbox_final :: "'b outbox_row \<Rightarrow> bool" where
  "outbox_final q \<longleftrightarrow> ob_state q = OutboxSent \<or> ob_state q = OutboxFailed"

lemma final_update:
  assumes "q \<in> set rows" "outbox_final q" "\<And>p. P p \<Longrightarrow> \<not> outbox_final p"
  shows "q \<in> set (update_where P f rows)"
  using assms by (force simp: table_simps)

lemma final_reclaim: "q \<in> set rows \<Longrightarrow> outbox_final q \<Longrightarrow> q \<in> set (reclaim_outbox now rows)"
  unfolding reclaim_outbox_def
  by (intro final_update) (auto simp: outbox_final_def outbox_expired_def)

lemma final_owned:
  assumes "q \<in> set (db_outbox db)" "outbox_final q"
  shows "q \<in> set (db_outbox (snd (transaction (update_owned_outbox i w f) db)))"
proof (rule transaction_inv [where P = "\<lambda>d. q \<in> set (db_outbox d)", OF assms(1)])
  fix a t assume "update_owned_outbox i w f db = Inr (a, t)"
  then have "db_outbox t = update_where (outbox_owned i w) f (db_outbox db)"
    by (auto simp: update_owned_outbox_def split: if_splits)
  then show "q \<in> set (db_outbox t)"
    using final_update [OF assms, of "outbox_owned i w" f]
    by (auto simp: outbox_owned_def outbox_final_def)
qed

lemma final_lease:
  assumes "q \<in> set (db_outbox db)" "outbox_final q"
  shows "q \<in> set (db_outbox (snd (lease_outbox c w now lease limit db)))"
proof -
  have "q \<in> set (db_outbox t)" if "lease_outbox_tx c w now lease limit db = Inr (a, t)" for a t
    unfolding lease_outbox_tx_db [OF that] lease_outbox_ids_map
    by (simp, rule final_update [OF final_reclaim [OF assms] assms(2)]) (auto simp: outbox_final_def)
  then have "q \<in> set (db_outbox (snd (transaction (lease_outbox_tx c w now lease limit) db)))"
    by (rule transaction_inv [where P = "\<lambda>d. q \<in> set (db_outbox d)", OF assms(1)])
  with assms(1) show ?thesis by (simp add: lease_outbox_def raise_def)
qed

lemma final_enqueue:
  assumes "q \<in> set (db_outbox db)"
  shows "q \<in> set (db_outbox (snd (enqueue_task_outbox c i task_id d now db)))"
  unfolding enqueue_task_outbox_def
  by (rule transaction_inv [where P = "\<lambda>d. q \<in> set (db_outbox d)", OF assms])
    (use assms in \<open>auto simp: insert_outbox_def split: if_splits sum.splits\<close>)

lemma final_step:
  assumes "q \<in> set (db_outbox db)" "outbox_final q"
  shows "q \<in> set (db_outbox (outbox_step op db))"
  using final_enqueue [OF assms(1)] final_lease [OF assms] final_owned [OF assms]
  by (cases op) (simp_all add: mark_outbox_sent_def retry_outbox_def)

lemma final_run:
  "q \<in> set (db_outbox db) \<Longrightarrow> outbox_final q \<Longrightarrow> q \<in> set (db_outbox (fold outbox_step ops db))"
  by (induction ops arbitrary: db) (auto dest: final_step)

text \<open>
  A permanently failed intent silences its task: once an intent has failed, no later call of
  \<open>lease_outbox\<close>, after whatever further outbox operations, returns an intent of the same task that
  comes after it in causal order. (Order is never given up for delivery.)
\<close>

theorem failed_intent_blocks_successors:
  assumes "outbox_ok db" and "p \<in> set (db_outbox db)" and "ob_state p = OutboxFailed"
    and "lease_outbox c w now lease limit (fold outbox_step ops db) = (Inr ms, db')"
    and "m \<in> set ms" and "q \<in> set (db_outbox db')" and "ob_outbox_id q = lo_outbox_id m"
  shows "\<not> (same_task p q \<and> outbox_before p q)"
proof -
  let ?db = "fold outbox_step ops db"
  have ok: "outbox_ok ?db" by (rule outbox_runs.run_inv [OF assms(1)])
  have fin: "outbox_final p" using assms(3) by (simp add: outbox_final_def)
  have p: "p \<in> set (db_outbox db')"
    using final_lease [OF final_run [OF assms(2) fin] fin, of c w now lease limit] assms(4)
    by (metis snd_conv)
  from lease_outbox_prior_sent [OF ok assms(4,5)] obtain u where u: "u \<in> set (db_outbox db')"
    "ob_outbox_id u = lo_outbox_id m"
    "\<forall>p \<in> set (db_outbox db'). same_task p u \<longrightarrow> outbox_before p u \<longrightarrow> ob_state p = OutboxSent" by blast
  have "outbox_ok db'" using lease_outbox_ok [OF ok] assms(4) by (metis snd_conv)
  then have "u = q" using key_unique [OF outbox_okD(1)] u(1,2) assms(6,7) by metis
  with u(3) p assms(3) show ?thesis by auto
qed

end
