(* ===== verification/Dispatcher.thy ===== *)
theory Dispatcher
  imports OutboxOrder LeaseStore
begin

text \<open>
  The outbox dispatcher of \<open>runtime/outbox.py\<close>, a client of the lease contract: it leases a batch,
  publishes each message once and gives it back as sent or for a retry. Publishers are services
  outside the repository; they are functions on a world of their own that return an upstream
  reference or raise.
\<close>

type_synonym 'w publisher = "leased_outbox_message \<Rightarrow> 'w \<Rightarrow> (exn + string) \<times> 'w"

record 'w dispatcher =
  dp_publishers :: "string \<rightharpoonup> 'w publisher"
  dp_worker_id :: string
  dp_lease_ms :: int
  dp_retry_delay_ms :: int

definition make_dispatcher ::
  "(string \<rightharpoonup> 'w publisher) \<Rightarrow> string \<Rightarrow> int \<Rightarrow> int \<Rightarrow> exn + 'w dispatcher" where
  "make_dispatcher publishers w lease_ms delay =
     (if w = [] \<or> lease_ms < 1 \<or> delay < 0
      then Inl (ValueError ''outbox worker configuration is invalid'')
      else Inr \<lparr>dp_publishers = publishers, dp_worker_id = w, dp_lease_ms = lease_ms,
                dp_retry_delay_ms = delay\<rparr>)"

text \<open>The \<open>try\<close> block.\<close>

definition publish_item :: "'w dispatcher \<Rightarrow> leased_outbox_message \<Rightarrow> 'w \<Rightarrow> (exn + string) \<times> 'w" where
  "publish_item d item world =
     (case dp_publishers d (lo_publisher_id item) of
        None \<Rightarrow> (Inl (LookupError ''outbox publisher is unavailable''), world)
      | Some publish \<Rightarrow> publish item world)"

text \<open>
  The loop over the leased items. \<open>except Exception\<close> does not catch a cancellation, which ends the
  call with the item still leased; an error of the store ends it too.
\<close>

fun dispatch_items ::
  "'w dispatcher \<Rightarrow> int \<Rightarrow> leased_outbox_message list \<Rightarrow> string list \<Rightarrow> string list \<Rightarrow>
     'b rt_db \<Rightarrow> 'w \<Rightarrow> (exn + string list \<times> string list) \<times> 'b rt_db \<times> 'w" where
  "dispatch_items d now [] sent retries db world = (Inr (sent, retries), db, world)"
| "dispatch_items d now (item # items) sent retries db world =
     (case publish_item d item world of
        (Inl e, world') \<Rightarrow>
          (if \<not> is_exception e then (Inl e, db, world')
           else case retry_outbox (lo_outbox_id item) (dp_worker_id d) (exn_name e)
                       (now + dp_retry_delay_ms d) now db of
                  (Inl e', db') \<Rightarrow> (Inl e', db', world')
                | (Inr _, db') \<Rightarrow>
                    dispatch_items d now items sent (retries @ [lo_outbox_id item]) db' world')
      | (Inr ref, world') \<Rightarrow>
          (case mark_outbox_sent (lo_outbox_id item) (dp_worker_id d) ref now db of
             (Inl e', db') \<Rightarrow> (Inl e', db', world')
           | (Inr _, db') \<Rightarrow>
               dispatch_items d now items (sent @ [lo_outbox_id item]) retries db' world'))"

definition dispatch_once ::
  "'b cipher \<Rightarrow> 'w dispatcher \<Rightarrow> int \<Rightarrow> int \<Rightarrow> 'b rt_db \<Rightarrow> 'w \<Rightarrow>
     (exn + string list \<times> string list) \<times> 'b rt_db \<times> 'w" where
  "dispatch_once c d now limit db world =
     (case lease_outbox c (dp_worker_id d) now (dp_lease_ms d) limit db of
        (Inl e, db') \<Rightarrow> (Inl e, db', world)
      | (Inr items, db') \<Rightarrow> dispatch_items d now items [] [] db' world)"

section \<open>The outbox provides the lease contract\<close>

text \<open>What a dispatcher does with an item, and the lease a worker holds on one.\<close>

datatype outbox_act = ActSent string int | ActRetry string int int

fun outbox_give_back :: "outbox_act \<Rightarrow> string \<Rightarrow> string \<Rightarrow> ('b rt_db, unit) eff" where
  "outbox_give_back (ActSent ref now) w i = mark_outbox_sent i w ref now"
| "outbox_give_back (ActRetry code av now) w i = retry_outbox i w code av now"

definition owns_outbox :: "string \<Rightarrow> string \<Rightarrow> 'b rt_db \<Rightarrow> bool" where
  "owns_outbox w i db \<longleftrightarrow> (\<exists>q \<in> set (db_outbox db). outbox_owned i w q)"

lemma owned_count:
  assumes "outbox_ok db"
  shows "count_where (outbox_owned i w) (db_outbox db) = (if owns_outbox w i db then 1 else 0)"
  unfolding owns_outbox_def
  by (rule own_count [OF outbox_okD(1) [OF assms]]) (simp add: outbox_owned_def)

lemma update_owned_owns:
  assumes "outbox_ok db" "owns_outbox w i db" and f: "\<And>q. ob_state (f q) \<noteq> OutboxLeased"
  shows "fst (transaction (update_owned_outbox i w f) db) = Inr ()"
    and "owns_outbox v j (snd (transaction (update_owned_outbox i w f) db)) \<longleftrightarrow> j \<noteq> i \<and> owns_outbox v j db"
proof -
  have tx: "transaction (update_owned_outbox i w f) db =
      (Inr (), db\<lparr>db_outbox := update_where (outbox_owned i w) f (db_outbox db)\<rparr>)"
    using owned_count [OF assms(1), of i w] assms(2)
    by (intro transaction_Inr) (simp add: update_owned_outbox_def)
  then show "fst (transaction (update_owned_outbox i w f) db) = Inr ()" by simp
  have "(\<exists>q \<in> set (update_where (outbox_owned i w) f (db_outbox db)). outbox_owned j v q) \<longleftrightarrow>
      j \<noteq> i \<and> (\<exists>q \<in> set (db_outbox db). outbox_owned j v q)"
    by (rule own_update [OF outbox_okD(1) [OF assms(1)]])
      (use assms(2) f in \<open>auto simp: outbox_owned_def owns_outbox_def\<close>)
  then show "owns_outbox v j (snd (transaction (update_owned_outbox i w f) db)) \<longleftrightarrow> j \<noteq> i \<and> owns_outbox v j db"
    unfolding tx by (simp add: owns_outbox_def)
qed

lemma update_not_owned:
  assumes "outbox_ok db" "\<not> owns_outbox w i db"
  shows "transaction (update_owned_outbox i w f) db =
    (Inl (RuntimeError ''outbox lease is not owned by worker''), db)"
  using owned_count [OF assms(1), of i w] assms(2)
  by (intro transaction_Inl) (simp add: update_owned_outbox_def)

interpretation outbox_leases: lease_store outbox_ok owns_outbox "\<lambda>_. True" outbox_give_back
proof
  fix db :: "'a rt_db" and a w i v j
  assume ok: "outbox_ok db"
  show "outbox_ok (snd (outbox_give_back a w i db))"
    using ok by (cases a) (simp_all add: mark_outbox_sent_ok retry_outbox_ok)
  show "\<exists>e. outbox_give_back a w i db = (Inl e, db)" if "\<not> owns_outbox w i db"
    using update_not_owned [OF ok that]
    by (cases a) (simp_all add: mark_outbox_sent_def retry_outbox_def)
  show "fst (outbox_give_back a w i db) = Inr ()" if "owns_outbox w i db"
    by (cases a) (simp_all add: mark_outbox_sent_def retry_outbox_def update_owned_owns(1) [OF ok that])
  show "owns_outbox v j (snd (outbox_give_back a w i db)) \<longleftrightarrow> j \<noteq> i \<and> owns_outbox v j db"
    if "owns_outbox w i db"
    by (cases a) (simp_all add: mark_outbox_sent_def retry_outbox_def update_owned_owns(2) [OF ok that])
qed

section \<open>A dispatch settles what it leased\<close>

fun act_sent :: "outbox_act \<Rightarrow> bool" where
  "act_sent (ActSent _ _) = True"
| "act_sent (ActRetry _ _ _) = False"

definition acts_sent :: "(outbox_act \<times> string) list \<Rightarrow> string list" where
  "acts_sent acts = map snd (filter (\<lambda>a. act_sent (fst a)) acts)"

definition acts_retried :: "(outbox_act \<times> string) list \<Rightarrow> string list" where
  "acts_retried acts = map snd (filter (\<lambda>a. \<not> act_sent (fst a)) acts)"

lemma acts_Cons [simp]:
  "acts_sent ((a, i) # acts) = (if act_sent a then i # acts_sent acts else acts_sent acts)"
  "acts_retried ((a, i) # acts) = (if act_sent a then acts_retried acts else i # acts_retried acts)"
  "acts_sent [] = []" "acts_retried [] = []"
  by (simp_all add: acts_sent_def acts_retried_def)

lemma acts_partition:
  "set (acts_sent acts) \<union> set (acts_retried acts) = snd ` set acts"
  "distinct (map snd acts) \<Longrightarrow> distinct (acts_sent acts @ acts_retried acts)"
proof -
  show "set (acts_sent acts) \<union> set (acts_retried acts) = snd ` set acts"
    by (auto simp: acts_sent_def acts_retried_def)
  show "distinct (acts_sent acts @ acts_retried acts)" if "distinct (map snd acts)"
    using that by (induction acts) (auto simp: acts_sent_def acts_retried_def image_iff)
qed

text \<open>No publisher is cancelled while it publishes.\<close>

definition no_cancellation :: "'w dispatcher \<Rightarrow> bool" where
  "no_cancellation d \<longleftrightarrow> (\<forall>item world e world'.
     publish_item d item world = (Inl e, world') \<longrightarrow> is_exception e)"

text \<open>The loop gives back one act per item, in the order of the batch.\<close>

lemma dispatch_items_settles:
  assumes "no_cancellation d"
  shows "\<exists>acts. map snd acts = map lo_outbox_id items \<and>
    (\<forall>db'. settle outbox_give_back (dp_worker_id d) acts db = (Inr (), db') \<longrightarrow>
      (\<exists>world'. dispatch_items d now items sent retries db world =
        (Inr (sent @ acts_sent acts, retries @ acts_retried acts), db', world')))"
proof (induction items arbitrary: sent retries db world)
  case Nil
  show ?case by (intro exI [of _ "[]"]) simp
next
  case (Cons item items)
  obtain r world1 where p: "publish_item d item world = (r, world1)" by fastforce
  define a where "a = (case r of Inl e \<Rightarrow> ActRetry (exn_name e) (now + dp_retry_delay_ms d) now
    | Inr ref \<Rightarrow> ActSent ref now)"
  obtain g db1 where g: "outbox_give_back a (dp_worker_id d) (lo_outbox_id item) db = (g, db1)" by fastforce
  let ?i = "lo_outbox_id item"
  let ?sent = "if act_sent a then sent @ [?i] else sent"
  let ?retries = "if act_sent a then retries else retries @ [?i]"
  from Cons.IH [of db1 ?sent ?retries world1] obtain acts where
    acts: "map snd acts = map lo_outbox_id items"
    and loop: "\<And>db'. settle outbox_give_back (dp_worker_id d) acts db1 = (Inr (), db') \<Longrightarrow>
      \<exists>world'. dispatch_items d now items ?sent ?retries db1 world1 =
        (Inr (?sent @ acts_sent acts, ?retries @ acts_retried acts), db', world')" by blast
  show ?case
  proof (intro exI [of _ "(a, ?i) # acts"] conjI allI impI)
    show "map snd ((a, ?i) # acts) = map lo_outbox_id (item # items)" using acts by simp
    fix db' assume s: "settle outbox_give_back (dp_worker_id d) ((a, ?i) # acts) db = (Inr (), db')"
    then obtain g' where g': "g = Inr g'" using g by (cases g) auto
    with s g have "settle outbox_give_back (dp_worker_id d) acts db1 = (Inr (), db')" by simp
    from loop [OF this] obtain world' where
      l: "dispatch_items d now items ?sent ?retries db1 world1 =
        (Inr (?sent @ acts_sent acts, ?retries @ acts_retried acts), db', world')" by blast
    have "dispatch_items d now (item # items) sent retries db world =
        dispatch_items d now items ?sent ?retries db1 world1"
    proof (cases r)
      case (Inl e)
      then have "is_exception e" using assms p by (auto simp: no_cancellation_def)
      with Inl p g g' show ?thesis by (simp add: a_def)
    next
      case (Inr ref)
      with p g g' show ?thesis by (simp add: a_def)
    qed
    with l show "\<exists>world'. dispatch_items d now (item # items) sent retries db world =
        (Inr (sent @ acts_sent ((a, ?i) # acts), retries @ acts_retried ((a, ?i) # acts)), db', world')"
      by (intro exI [of _ world']) simp
  qed
qed

text \<open>The row an act leaves, and that later acts on other items leave it alone.\<close>

definition act_row :: "outbox_act \<Rightarrow> 'b outbox_row \<Rightarrow> bool" where
  "act_row a q = (case a of
     ActSent ref _ \<Rightarrow> ob_state q = OutboxSent \<and> ob_upstream_ref q = Some ref
   | ActRetry code av _ \<Rightarrow> ob_last_error_code q = Some code \<and> ob_available_at_ms q = av \<and>
       ob_state q = (if ob_max_attempts q \<le> ob_attempt_count q then OutboxFailed else OutboxPending))"

lemma act_row_unleased: "act_row a q \<Longrightarrow> ob_state q \<noteq> OutboxLeased"
  by (cases a) (auto simp: act_row_def)

lemma unleased_kept:
  assumes "q \<in> set (db_outbox db)" "ob_state q \<noteq> OutboxLeased"
  shows "q \<in> set (db_outbox (snd (outbox_give_back a w i db)))"
proof -
  have "q \<in> set (db_outbox (snd (transaction (update_owned_outbox i w f) db)))" for f
  proof (rule transaction_inv [where P = "\<lambda>d. q \<in> set (db_outbox d)", OF assms(1)])
    fix u t assume "update_owned_outbox i w f db = Inr (u, t)"
    then have "db_outbox t = update_where (outbox_owned i w) f (db_outbox db)"
      by (auto simp: update_owned_outbox_def split: if_splits)
    moreover have "\<not> outbox_owned i w q" using assms(2) by (simp add: outbox_owned_def)
    ultimately show "q \<in> set (db_outbox t)" using assms(1) by (force simp: table_simps)
  qed
  then show ?thesis by (cases a) (simp_all add: mark_outbox_sent_def retry_outbox_def)
qed

lemma update_owned_row:
  assumes "update_owned_outbox i w f db = Inr (u, t)"
    and f: "\<And>q. outbox_owned i w q \<Longrightarrow> ob_outbox_id (f q) = i \<and> act_row a (f q)"
  shows "\<exists>q \<in> set (db_outbox t). ob_outbox_id q = i \<and> act_row a q"
proof -
  from assms(1) have "count_where (outbox_owned i w) (db_outbox db) = 1"
    and t: "db_outbox t = update_where (outbox_owned i w) f (db_outbox db)"
    by (auto simp: update_owned_outbox_def split: if_splits)
  then have "\<exists>q \<in> set (db_outbox db). outbox_owned i w q" by (metis count_where_pos zero_less_one)
  then show ?thesis unfolding t bex_update_where using f by auto
qed

lemma give_back_row:
  assumes "outbox_give_back a w i db = (Inr u, db')"
  shows "\<exists>q \<in> set (db_outbox db'). ob_outbox_id q = i \<and> act_row a q"
proof (cases a)
  case (ActSent ref now)
  show ?thesis
    by (rule update_owned_row [OF transaction_InrD [OF assms [unfolded ActSent outbox_give_back.simps mark_outbox_sent_def]]])
      (auto simp: ActSent act_row_def outbox_owned_def)
next
  case (ActRetry code av now)
  show ?thesis
    by (rule update_owned_row [OF transaction_InrD [OF assms [unfolded ActRetry outbox_give_back.simps retry_outbox_def]]])
      (auto simp: ActRetry act_row_def outbox_owned_def)
qed

lemma acts_mem:
  "i \<in> set (acts_sent acts) \<Longrightarrow> \<exists>a. (a, i) \<in> set acts \<and> act_sent a"
  "i \<in> set (acts_retried acts) \<Longrightarrow> \<exists>a. (a, i) \<in> set acts \<and> \<not> act_sent a"
  by (force simp: acts_sent_def acts_retried_def)+

definition outbox_outcome :: "outbox_act \<Rightarrow> string \<Rightarrow> 'b rt_db \<Rightarrow> bool" where
  "outbox_outcome a i db \<longleftrightarrow> (\<exists>q \<in> set (db_outbox db). ob_outbox_id q = i \<and> act_row a q)"

interpretation outbox_outcomes: lease_outcomes outbox_ok owns_outbox "\<lambda>_. True" outbox_give_back outbox_outcome
proof
  fix db db' :: "'a rt_db" and a b w v i j
  show "outbox_outcome a i db'" if "outbox_give_back a w i db = (Inr (), db')"
    using give_back_row [OF that] by (simp add: outbox_outcome_def)
  show "outbox_outcome a i (snd (outbox_give_back b v j db))" if "outbox_outcome a i db"
    using that unleased_kept act_row_unleased unfolding outbox_outcome_def by metis
qed

lemma lease_outbox_ids_distinct:
  assumes "outbox_ok db" "lease_outbox c w now lease limit db = (Inr ms, db')"
  shows "distinct (map lo_outbox_id ms)"
proof -
  have ok: "outbox_ok db'" using lease_outbox_ok [OF assms(1)] assms(2) by (metis snd_conv)
  have dec: "decode_all (leased_outbox_of c) rs = Inr xs \<Longrightarrow> map lo_outbox_id xs = map ob_outbox_id rs" for rs xs
    by (induction rs arbitrary: xs) (auto split: sum.splits dest: leased_outbox_fields(1))
  have "ms = [] \<or> (\<exists>P. decode_all (leased_outbox_of c) (sort_key outbox_order (filter P (db_outbox db'))) = Inr ms)"
    using lease_outbox_Inr [OF assms(2)] unfolding lease_outbox_tx_def Let_def
    by (auto split: if_splits sum.splits)
  moreover have "distinct (map ob_outbox_id (sort_key outbox_order (filter P (db_outbox db'))))" for P
    using outbox_okD(1) [OF ok] by (simp add: distinct_map inj_on_def)
  ultimately show ?thesis using dec by fastforce
qed

text \<open>
  A dispatch settles every message it leased: when no publisher is cancelled, \<open>run_once\<close> returns,
  the sent and the retried identifiers are disjoint and together are exactly the leased batch, each
  sent row is marked sent, each retried row is pending again or, with its attempts used up, failed,
  the worker holds no lease of the batch any more, and the outbox invariant holds.
\<close>

theorem dispatch_settles_batch:
  assumes "outbox_ok db" and "no_cancellation d"
    and "lease_outbox c (dp_worker_id d) now (dp_lease_ms d) limit db = (Inr ms, db1)"
  shows "\<exists>sent retries db' world'. dispatch_once c d now limit db world = (Inr (sent, retries), db', world') \<and>
    outbox_ok db' \<and> distinct (sent @ retries) \<and>
    set sent \<union> set retries = lo_outbox_id ` set ms \<and>
    (\<forall>i \<in> set sent. \<exists>q \<in> set (db_outbox db'). ob_outbox_id q = i \<and> ob_state q = OutboxSent) \<and>
    (\<forall>i \<in> set retries. \<exists>q \<in> set (db_outbox db'). ob_outbox_id q = i \<and>
       ob_state q = (if ob_max_attempts q \<le> ob_attempt_count q then OutboxFailed else OutboxPending)) \<and>
    (\<forall>i \<in> lo_outbox_id ` set ms. \<not> owns_outbox (dp_worker_id d) i db')"
proof -
  let ?w = "dp_worker_id d"
  have ok1: "outbox_ok db1" using lease_outbox_ok [OF assms(1)] assms(3) by (metis snd_conv)
  from dispatch_items_settles [OF assms(2), of ms db1 now "[]" "[]" world] obtain acts where
    acts: "map snd acts = map lo_outbox_id ms"
    and loop: "\<And>db'. settle outbox_give_back ?w acts db1 = (Inr (), db') \<Longrightarrow>
      \<exists>world'. dispatch_items d now ms [] [] db1 world = (Inr (acts_sent acts, acts_retried acts), db', world')"
    by auto
  have dist: "distinct (map snd acts)" unfolding acts by (rule lease_outbox_ids_distinct [OF assms(1,3)])
  have ids: "snd ` set acts = lo_outbox_id ` set ms" using acts by (metis list.set_map)
  have "owns_outbox ?w i db1" if "i \<in> snd ` set acts" for i
    using lease_outbox_prior_sent [OF assms(1,3)] that unfolding ids
    by (fastforce simp: owns_outbox_def outbox_owned_def outbox_leased_to_def)
  then have "\<forall>(a, i) \<in> set acts. True \<and> owns_outbox ?w i db1" by force
  from outbox_leases.settle_all [OF ok1 dist this]
  obtain db' where s: "settle outbox_give_back ?w acts db1 = (Inr (), db')"
    and own: "\<And>v j. owns_outbox v j db' \<longleftrightarrow> j \<notin> snd ` set acts \<and> owns_outbox v j db1"
    by (metis prod.collapse)
  obtain world' where "dispatch_items d now ms [] [] db1 world =
      (Inr (acts_sent acts, acts_retried acts), db', world')" using loop [OF s] by blast
  then have run: "dispatch_once c d now limit db world = (Inr (acts_sent acts, acts_retried acts), db', world')"
    using assms(3) by (simp add: dispatch_once_def)
  have "outbox_ok db'" using outbox_leases.settle_inv [OF ok1, of ?w acts] s by simp
  moreover have "\<exists>q \<in> set (db_outbox db'). ob_outbox_id q = i \<and> ob_state q = OutboxSent"
    if i: "i \<in> set (acts_sent acts)" for i
  proof -
    obtain a where "(a, i) \<in> set acts" "act_sent a" using acts_mem(1) [OF i] by blast
    with outbox_outcomes.settle_outcome [OF ok1 s] show ?thesis
      by (cases a) (fastforce simp: act_row_def outbox_outcome_def)+
  qed
  moreover have "\<exists>q \<in> set (db_outbox db'). ob_outbox_id q = i \<and>
       ob_state q = (if ob_max_attempts q \<le> ob_attempt_count q then OutboxFailed else OutboxPending)"
    if i: "i \<in> set (acts_retried acts)" for i
  proof -
    obtain a where "(a, i) \<in> set acts" "\<not> act_sent a" using acts_mem(2) [OF i] by blast
    with outbox_outcomes.settle_outcome [OF ok1 s] show ?thesis
      by (cases a) (fastforce simp: act_row_def outbox_outcome_def)+
  qed
  ultimately show ?thesis
    using run acts_partition(1) [of acts] acts_partition(2) [OF dist] own unfolding ids [symmetric]
    by blast
qed

end
