(* ===== verification/Idempotency.thy ===== *)
theory Idempotency
  imports RuntimeSchema
begin

text \<open>
  Claims on external effects (\<open>claim_idempotency\<close> and \<open>complete_idempotency\<close> of
  \<open>storage/runtime_store.py\<close>): a key is claimed fresh once; later claims learn the result, wait for
  the holder, or take over for reconciliation.
\<close>

record idempotency_claim =
  cl_acquired :: bool
  cl_state :: string
  cl_result_ref :: "string option"
  cl_recovery_required :: bool

definition find_claim :: "string \<Rightarrow> 'b rt_db \<Rightarrow> idempotency_row option" where
  "find_claim key db = find (\<lambda>r. ik_key r = key) (db_idempotency db)"

definition claim_tx ::
  "string \<Rightarrow> string \<Rightarrow> string \<Rightarrow> int \<Rightarrow> int \<Rightarrow> ('b rt_db, idempotency_claim) tx" where
  "claim_tx key operation_kind owner expires_at now db =
     (case find_claim key db of
        Some row \<Rightarrow>
          (if ik_state row = ''completed''
           then Inr (\<lparr>cl_acquired = False, cl_state = ''completed'', cl_result_ref = ik_result_ref row,
                      cl_recovery_required = False\<rparr>, db)
           else if now < ik_expires_at_ms row
           then Inr (\<lparr>cl_acquired = False, cl_state = ik_state row, cl_result_ref = ik_result_ref row,
                      cl_recovery_required = False\<rparr>, db)
           else Inr (\<lparr>cl_acquired = True, cl_state = ''reconciliation_required'', cl_result_ref = None,
                      cl_recovery_required = True\<rparr>,
                     db\<lparr>db_idempotency := update_where (\<lambda>r. ik_key r = key)
                       (\<lambda>r. r\<lparr>ik_state := ''reconciliation_required'', ik_owner := owner,
                              ik_expires_at_ms := expires_at, ik_updated_at_ms := now\<rparr>)
                       (db_idempotency db)\<rparr>))
      | None \<Rightarrow>
          Inr (\<lparr>cl_acquired = True, cl_state = ''claimed'', cl_result_ref = None,
                cl_recovery_required = False\<rparr>,
               db\<lparr>db_idempotency := db_idempotency db @
                 [\<lparr>ik_key = key, ik_operation_kind = operation_kind, ik_state = ''claimed'',
                   ik_owner = owner, ik_result_ref = None, ik_expires_at_ms = expires_at,
                   ik_created_at_ms = now, ik_updated_at_ms = now\<rparr>]\<rparr>))"

definition claim_idempotency ::
  "string \<Rightarrow> string \<Rightarrow> string \<Rightarrow> int \<Rightarrow> int \<Rightarrow> ('b rt_db, idempotency_claim) eff" where
  "claim_idempotency key operation_kind owner expires_at now =
     transaction (claim_tx key operation_kind owner expires_at now)"

definition claim_open :: "string \<Rightarrow> string \<Rightarrow> idempotency_row \<Rightarrow> bool" where
  "claim_open key owner r \<longleftrightarrow> ik_key r = key \<and>
     (ik_state r = ''claimed'' \<or> ik_state r = ''reconciliation_required'') \<and> ik_owner r = owner"

definition complete_tx :: "string \<Rightarrow> string \<Rightarrow> string \<Rightarrow> int \<Rightarrow> ('b rt_db, unit) tx" where
  "complete_tx key owner result_ref now db =
     (if count_where (claim_open key owner) (db_idempotency db) \<noteq> 1
      then Inl (RuntimeError ''idempotency claim is not owned by caller'')
      else Inr ((), db\<lparr>db_idempotency := update_where (claim_open key owner)
        (\<lambda>r. r\<lparr>ik_state := ''completed'', ik_result_ref := Some result_ref, ik_updated_at_ms := now\<rparr>)
        (db_idempotency db)\<rparr>))"

definition complete_idempotency :: "string \<Rightarrow> string \<Rightarrow> string \<Rightarrow> int \<Rightarrow> ('b rt_db, unit) eff" where
  "complete_idempotency key owner result_ref now = transaction (complete_tx key owner result_ref now)"

section \<open>Runs of claims\<close>

text \<open>
  The invariant of the table: one record per key, whose state is claimed, completed or awaiting
  reconciliation; only a completed record has a result.
\<close>

definition claim_row_ok :: "idempotency_row \<Rightarrow> bool" where
  "claim_row_ok r \<longleftrightarrow>
     (ik_state r = ''claimed'' \<or> ik_state r = ''completed'' \<or> ik_state r = ''reconciliation_required'') \<and>
     (ik_state r = ''completed'' \<longleftrightarrow> ik_result_ref r \<noteq> None)"

definition claims_ok :: "'b rt_db \<Rightarrow> bool" where
  "claims_ok db \<longleftrightarrow> distinct (map ik_key (db_idempotency db)) \<and> (\<forall>r \<in> set (db_idempotency db). claim_row_ok r)"

lemma claims_ok_cong: "db_idempotency db' = db_idempotency db \<Longrightarrow> claims_ok db' = claims_ok db"
  by (simp add: claims_ok_def)

lemma claims_ok_update:
  assumes "claims_ok db" and "\<And>r. P r \<Longrightarrow> ik_key (f r) = ik_key r"
    and "\<And>r. r \<in> set (db_idempotency db) \<Longrightarrow> P r \<Longrightarrow> claim_row_ok r \<Longrightarrow> claim_row_ok (f r)"
  shows "claims_ok (db\<lparr>db_idempotency := update_where P f (db_idempotency db)\<rparr>)"
proof -
  have "map ik_key (update_where P f (db_idempotency db)) = map ik_key (db_idempotency db)"
    by (rule update_where_map_key) (rule assms(2))
  moreover have "\<forall>r \<in> set (update_where P f (db_idempotency db)). claim_row_ok r"
    by (rule ball_update_where) (use assms in \<open>auto simp: claims_ok_def\<close>)
  ultimately show ?thesis using assms(1) by (simp add: claims_ok_def)
qed

lemma find_claim_Some:
  "claims_ok db \<Longrightarrow> r \<in> set (db_idempotency db) \<Longrightarrow> ik_key r = key \<Longrightarrow> find_claim key db = Some r"
  unfolding find_claim_def claims_ok_def by (blast intro: find_key)

lemma find_claim_set: "find_claim key db = Some r \<Longrightarrow> r \<in> set (db_idempotency db) \<and> ik_key r = key"
  unfolding find_claim_def by (rule find_in_set)

lemma claim_ok: "claims_ok db \<Longrightarrow> claims_ok (snd (claim_idempotency key kind owner ex now db))"
proof -
  assume ok: "claims_ok db"
  show ?thesis
  proof (cases "find_claim key db")
    case None
    then have "key \<notin> ik_key ` set (db_idempotency db)"
      unfolding find_claim_def find_None by blast
    with None ok show ?thesis
      by (simp add: claim_idempotency_def claim_tx_def transaction_def claims_ok_def)
        (simp add: claim_row_ok_def)
  next
    case (Some row)
    have "claims_ok (db\<lparr>db_idempotency := update_where (\<lambda>r. ik_key r = key)
       (\<lambda>r. r\<lparr>ik_state := ''reconciliation_required'', ik_owner := owner,
              ik_expires_at_ms := ex, ik_updated_at_ms := now\<rparr>) (db_idempotency db)\<rparr>)"
      if open_row: "ik_state row \<noteq> ''completed''"
    proof (rule claims_ok_update [OF ok])
      fix r assume r: "r \<in> set (db_idempotency db)" "ik_key r = key" "claim_row_ok r"
      have "r = row"
        using find_claim_Some [OF ok r(1,2)] Some by simp
      with r(3) open_row show "claim_row_ok (r\<lparr>ik_state := ''reconciliation_required'', ik_owner := owner,
              ik_expires_at_ms := ex, ik_updated_at_ms := now\<rparr>)"
        by (simp add: claim_row_ok_def)
    qed simp
    with Some ok show ?thesis
      by (simp add: claim_idempotency_def claim_tx_def transaction_def)
  qed
qed

lemma complete_ok: "claims_ok db \<Longrightarrow> claims_ok (snd (complete_idempotency key owner ref now db))"
  unfolding complete_idempotency_def
  by (rule transaction_inv)
    (auto simp: complete_tx_def claim_open_def claim_row_ok_def split: if_splits intro!: claims_ok_update)

text \<open>A key is on record; its record is completed with a result.\<close>

definition recorded :: "string \<Rightarrow> 'b rt_db \<Rightarrow> bool" where
  "recorded key db \<longleftrightarrow> key \<in> ik_key ` set (db_idempotency db)"

definition completed_with :: "string \<Rightarrow> string \<Rightarrow> 'b rt_db \<Rightarrow> bool" where
  "completed_with key ref db \<longleftrightarrow> (\<exists>r \<in> set (db_idempotency db).
     ik_key r = key \<and> ik_state r = ''completed'' \<and> ik_result_ref r = Some ref)"

lemma recorded_find: "recorded key db \<longleftrightarrow> find_claim key db \<noteq> None"
  unfolding recorded_def find_claim_def find_None image_iff by metis

lemma recorded_update:
  "recorded key db \<Longrightarrow> (\<And>r. P r \<Longrightarrow> ik_key (f r) = ik_key r) \<Longrightarrow>
   recorded key (db\<lparr>db_idempotency := update_where P f (db_idempotency db)\<rparr>)"
  unfolding recorded_def set_map [symmetric] by (simp add: update_where_map_key)

lemma recorded_append:
  "recorded key (db\<lparr>db_idempotency := db_idempotency db @ rs\<rparr>) \<longleftrightarrow> recorded key db \<or> key \<in> ik_key ` set rs"
  by (auto simp: recorded_def)

lemma claim_records: "recorded key (snd (claim_idempotency key kind owner ex now db))"
proof (cases "find_claim key db")
  case None
  then show ?thesis by (simp add: claim_idempotency_def claim_tx_def transaction_def recorded_def)
next
  case (Some row)
  then have "recorded key db" using recorded_find [of key db] by simp
  with Some show ?thesis
    by (auto simp: claim_idempotency_def claim_tx_def transaction_def intro!: recorded_update)
qed

lemma recorded_claim: "recorded k db \<Longrightarrow> recorded k (snd (claim_idempotency key kind owner ex now db))"
  unfolding claim_idempotency_def
  by (rule transaction_inv)
    (auto simp: claim_tx_def recorded_append split: option.splits if_splits intro!: recorded_update)

lemma recorded_complete: "recorded k db \<Longrightarrow> recorded k (snd (complete_idempotency key owner ref now db))"
  unfolding complete_idempotency_def
  by (rule transaction_inv) (auto simp: complete_tx_def claim_open_def split: if_splits intro!: recorded_update)

lemma fresh_claim:
  assumes "claim_idempotency key kind owner ex now db = (Inr cl, db')" "cl_acquired cl" "\<not> cl_recovery_required cl"
  shows "\<not> recorded key db"
  using assms unfolding recorded_find
  by (auto simp: claim_idempotency_def claim_tx_def transaction_def split: option.splits if_splits)

lemma completed_with_keep:
  assumes "completed_with k ref db" "\<And>r. P r \<Longrightarrow> ik_state r = ''completed'' \<Longrightarrow> ik_key r \<noteq> k"
  shows "completed_with k ref (db\<lparr>db_idempotency := update_where P f (db_idempotency db)\<rparr>)"
proof -
  obtain r where r: "r \<in> set (db_idempotency db)" "ik_key r = k" "ik_state r = ''completed''"
    "ik_result_ref r = Some ref" using assms(1) by (auto simp: completed_with_def)
  then have "\<not> P r" using assms(2) by blast
  with r show ?thesis unfolding completed_with_def by (force simp: table_simps)
qed

lemma completed_claim:
  assumes ok: "claims_ok db" and c: "completed_with k ref db"
  shows "completed_with k ref (snd (claim_idempotency key kind owner ex now db))"
proof (cases "find_claim key db")
  case None
  with c show ?thesis
    by (auto simp: claim_idempotency_def claim_tx_def transaction_def completed_with_def)
next
  case (Some row)
  have "completed_with k ref (db\<lparr>db_idempotency := update_where (\<lambda>r. ik_key r = key) f (db_idempotency db)\<rparr>)"
    if "ik_state row \<noteq> ''completed''" for f
  proof (cases "k = key")
    case True
    with c find_claim_Some [OF ok] Some that show ?thesis by (fastforce simp: completed_with_def)
  next
    case False
    with c show ?thesis by (auto intro: completed_with_keep)
  qed
  with Some c show ?thesis by (simp add: claim_idempotency_def claim_tx_def transaction_def)
qed

lemma completed_complete:
  assumes "completed_with k ref db"
  shows "completed_with k ref (snd (complete_idempotency key owner r now db))"
  unfolding complete_idempotency_def
  by (rule transaction_inv [where P = "completed_with k ref", OF assms])
    (use assms in \<open>auto simp: complete_tx_def claim_open_def split: if_splits intro!: completed_with_keep\<close>)

lemma completed_claim_result:
  assumes ok: "claims_ok db" and c: "completed_with key ref db"
  shows "claim_idempotency key kind owner ex now db =
    (Inr \<lparr>cl_acquired = False, cl_state = ''completed'', cl_result_ref = Some ref,
          cl_recovery_required = False\<rparr>, db)"
proof -
  obtain r where r: "r \<in> set (db_idempotency db)" "ik_key r = key" "ik_state r = ''completed''"
    "ik_result_ref r = Some ref" using c by (auto simp: completed_with_def)
  with find_claim_Some [OF ok r(1,2)] show ?thesis
    by (simp add: claim_idempotency_def claim_tx_def transaction_def)
qed

lemma complete_completes:
  assumes "complete_idempotency key owner ref now db = (Inr u, db')"
  shows "completed_with key ref db'"
proof -
  note tx = transaction_InrD [OF assms [unfolded complete_idempotency_def]]
  then have "0 < count_where (claim_open key owner) (db_idempotency db)"
    by (auto simp: complete_tx_def split: if_splits)
  then obtain r where "r \<in> set (db_idempotency db)" "claim_open key owner r"
    by (auto simp: count_where_pos)
  with tx show ?thesis
    unfolding completed_with_def complete_tx_def
    by (auto simp: table_simps claim_open_def split: if_splits intro!: bexI [of _ "r\<lparr>ik_state := _, ik_result_ref := _, ik_updated_at_ms := _\<rparr>"])
qed

end
