(* ===== verification/RuntimeFrames.thy ===== *)
theory RuntimeFrames
  imports SessionInv Dispatcher Idempotency
begin

text \<open>
  Which tables each operation of the runtime and session stores leaves alone. Every lemma compares
  the tables before and after with the touched columns blanked out; the collection \<open>frame\<close> holds the
  resulting equations per column.
\<close>

named_theorems frame \<open>columns an operation does not touch\<close>

section \<open>Blanking the touched columns\<close>

definition but_leasing :: "'b rt_db \<Rightarrow> 'b rt_db" where
  "but_leasing db = db\<lparr>db_tasks := [], db_lanes := Map.empty, db_next_sequence := 0\<rparr>"

definition but_inbox :: "'b rt_db \<Rightarrow> 'b rt_db" where
  "but_inbox db = db\<lparr>db_events := [], db_event_seq := 0, db_tasks := [], db_outbox := [],
     db_approvals := [], db_controls := []\<rparr>"

definition but_outbox :: "'b rt_db \<Rightarrow> 'b rt_db" where
  "but_outbox db = db\<lparr>db_outbox := []\<rparr>"

definition but_work :: "'b rt_db \<Rightarrow> 'b rt_db" where
  "but_work db = db\<lparr>db_tasks := [], db_outbox := []\<rparr>"

definition but_claims :: "'b rt_db \<Rightarrow> 'b rt_db" where
  "but_claims db = db\<lparr>db_idempotency := []\<rparr>"

definition but_sessions :: "'b rt_db \<Rightarrow> 'b rt_db" where
  "but_sessions db = db\<lparr>db_runs := [], db_run_events := [], db_checkpoints := [],
     db_checkpoint_sources := [], db_controls := []\<rparr>"

lemma but_leasing_frame:
  assumes "but_leasing db' = but_leasing db"
  shows "db_events db' = db_events db" "db_event_seq db' = db_event_seq db" "db_outbox db' = db_outbox db"
    "db_idempotency db' = db_idempotency db" "db_approvals db' = db_approvals db"
    "db_controls db' = db_controls db" "session_view db' = session_view db"
  using assms by (cases db; cases db'; simp add: but_leasing_def session_view_def)+

lemma but_inbox_frame:
  assumes "but_inbox db' = but_inbox db"
  shows "db_lanes db' = db_lanes db" "db_next_sequence db' = db_next_sequence db"
    "db_idempotency db' = db_idempotency db" "session_view db' = session_view db"
  using assms by (cases db; cases db'; simp add: but_inbox_def session_view_def)+

lemma but_outbox_frame:
  assumes "but_outbox db' = but_outbox db"
  shows "db_tasks db' = db_tasks db" "db_events db' = db_events db" "db_event_seq db' = db_event_seq db"
    "db_approvals db' = db_approvals db" "db_controls db' = db_controls db" "but_inbox db' = but_inbox db"
  using assms by (cases db; cases db'; simp add: but_outbox_def but_inbox_def)+

lemma but_work_frame:
  assumes "but_work db' = but_work db"
  shows "db_events db' = db_events db" "db_event_seq db' = db_event_seq db"
    "db_approvals db' = db_approvals db" "db_controls db' = db_controls db" "but_inbox db' = but_inbox db"
  using assms by (cases db; cases db'; simp add: but_work_def but_inbox_def)+

lemma but_claims_frame:
  assumes "but_claims db' = but_claims db"
  shows "db_lanes db' = db_lanes db" "db_next_sequence db' = db_next_sequence db"
    "db_tasks db' = db_tasks db" "db_events db' = db_events db" "db_event_seq db' = db_event_seq db"
    "db_outbox db' = db_outbox db" "db_approvals db' = db_approvals db"
    "db_controls db' = db_controls db" "session_view db' = session_view db"
  using assms by (cases db; cases db'; simp add: but_claims_def session_view_def)+

lemma but_sessions_frame:
  assumes "but_sessions db' = but_sessions db"
  shows "db_lanes db' = db_lanes db" "db_next_sequence db' = db_next_sequence db"
    "db_tasks db' = db_tasks db" "db_events db' = db_events db" "db_event_seq db' = db_event_seq db"
    "db_outbox db' = db_outbox db" "db_approvals db' = db_approvals db"
    "db_idempotency db' = db_idempotency db"
  using assms by (cases db; cases db'; simp add: but_sessions_def)+

section \<open>The operations\<close>

lemma keeps_tx:
  assumes "\<And>a t. operation db = Inr (a, t) \<Longrightarrow> hide t = hide db"
  shows "hide (snd (transaction operation db)) = hide db"
  by (rule transaction_inv [where P = "\<lambda>d. hide d = hide db"]) (use assms in auto)

lemma but_lease_task: "lease_task i w now ex db = Inr db' \<Longrightarrow> but_leasing db' = but_leasing db"
  by (auto simp: lease_task_def Let_def but_leasing_def split: if_splits)

lemma but_advance: "but_leasing (advance_lanes row now db) = but_leasing db"
  by (simp add: advance_lanes_def Let_def but_leasing_def)

lemma but_lease_all: "lease_all ids w now ex db = Inr db' \<Longrightarrow> but_leasing db' = but_leasing db"
  by (induction ids arbitrary: db) (auto split: sum.splits dest: but_lease_task)

lemma but_select_fair: "select_fair n w now ex L db = Inr (ids, db') \<Longrightarrow> but_leasing db' = but_leasing db"
proof (induction n arbitrary: db ids)
  case (Suc n)
  show ?case
  proof (cases "next_candidate now L db")
    case (Some c)
    obtain db1 ids' where l: "lease_task (tk_task_id c) w now ex db = Inr db1"
      and r: "select_fair n w now ex L (advance_lanes c now db1) = Inr (ids', db')"
      by (rule select_fair_step [OF Suc.prems Some])
    from Suc.IH [OF r] but_lease_task [OF l] show ?thesis by (simp add: but_advance)
  qed (use Suc.prems in simp)
qed simp

lemma but_lease_tasks: "but_leasing (snd (lease_tasks c w now lease limit limits db)) = but_leasing db"
proof (rule lease_tasks_keeps)
  fix ts db' assume "lease_tasks_tx c w now lease limit limits db = Inr (ts, db')"
  then obtain ids where
    "select_task_ids w now (now + lease) limit limits (reclaim_leases now db) = Inr (ids, db')"
    by (auto elim: lease_tasks_tx_cases)
  then have "but_leasing db' = but_leasing (reclaim_leases now db)"
    by (auto simp: select_task_ids_def Let_def split: option.splits sum.splits
        dest: but_lease_all but_select_fair)
  then show "but_leasing db' = but_leasing db" by (simp add: reclaim_leases_def but_leasing_def)
qed simp

lemma bindings_lease_tasks:
  "map task_binding (db_tasks (snd (lease_tasks c w now lease limit limits db))) = map task_binding (db_tasks db)"
proof (rule lease_tasks_keeps)
  fix ts db' assume "lease_tasks_tx c w now lease limit limits db = Inr (ts, db')"
  then obtain ids where
    sel: "select_task_ids w now (now + lease) limit limits (reclaim_leases now db) = Inr (ids, db')"
    by (auto elim: lease_tasks_tx_cases)
  have "identities db' = identities db" using identities_select [OF sel] by simp
  then have "map (\<lambda>(i, pk, _). (i, pk)) (identities db') = map (\<lambda>(i, pk, _). (i, pk)) (identities db)" by simp
  then show "map task_binding (db_tasks db') = map task_binding (db_tasks db)"
    by (simp add: identities_def comp_def task_identity_def task_binding_def [abs_def])
qed simp

lemma but_insert_outbox: "insert_outbox c i d t now db = Inr db' \<Longrightarrow> but_inbox db' = but_inbox db"
  by (auto simp: insert_outbox_def but_inbox_def split: if_splits)

lemma but_insert_event: "insert_event c e now db = Inr (pk, db') \<Longrightarrow> but_inbox db' = but_inbox db"
  by (auto simp: insert_event_def Let_def but_inbox_def split: if_splits)

lemma but_admit: "but_inbox (snd (admit c i oid e cmd ack now db)) = but_inbox db"
  unfolding admit_def
proof (rule keeps_tx)
  fix r db' assume "admit_tx c i oid e cmd ack now db = Inr (r, db')"
  then show "but_inbox db' = but_inbox db"
  proof (cases rule: admit_tx_cases)
    case (fresh pk db1 db2)
    have "but_inbox db' = but_inbox db2" using fresh(5) by (auto split: option.splits dest: but_insert_outbox)
    also have "\<dots> = but_inbox db1" by (simp add: insert_task_cases(1) [OF fresh(3)] but_inbox_def)
    also have "\<dots> = but_inbox db" by (rule but_insert_event [OF fresh(2)])
    finally show ?thesis .
  qed simp
qed

lemma but_outbox_insert: "insert_outbox c i d t now db = Inr db' \<Longrightarrow> but_outbox db' = but_outbox db"
  by (auto simp: insert_outbox_def but_outbox_def split: if_splits)

lemma but_enqueue: "but_outbox (snd (enqueue_task_outbox c i t d now db)) = but_outbox db"
  unfolding enqueue_task_outbox_def
  by (rule keeps_tx) (auto split: if_splits sum.splits dest: but_outbox_insert)

lemma but_lease_outbox: "but_outbox (snd (lease_outbox c w now lease limit db)) = but_outbox db"
proof -
  have "but_outbox (snd (transaction (lease_outbox_tx c w now lease limit) db)) = but_outbox db"
    by (rule keeps_tx) (auto simp: but_outbox_def dest!: lease_outbox_tx_db)
  then show ?thesis by (simp add: lease_outbox_def raise_def)
qed

lemma but_outbox_act: "but_outbox (snd (outbox_give_back a w i db)) = but_outbox db"
proof -
  have "but_outbox (snd (transaction (update_owned_outbox i w f) db)) = but_outbox db" for f
    by (rule keeps_tx) (auto simp: update_owned_outbox_def but_outbox_def split: if_splits)
  then show ?thesis by (cases a) (simp_all add: mark_outbox_sent_def retry_outbox_def)
qed

lemma but_settle: "but_inbox (settle_approval i s now db) = but_inbox db"
  by (simp add: settle_approval_def but_inbox_def)

lemma but_request: "but_inbox (snd (request_approval c oid q draft now db)) = but_inbox db"
  unfolding request_approval_def
proof (rule keeps_tx)
  fix r t assume tx: "request_approval_tx c oid q draft now db = Inr (r, t)"
  show "but_inbox t = but_inbox db"
  proof (cases "find_approval (aq_approval_id q) db")
    case None
    then have "insert_outbox c oid draft (aq_task_id q) now
        (db\<lparr>db_approvals := db_approvals db @ [new_approval q now]\<rparr>) = Inr t"
      using tx by (auto simp: request_approval_tx_def split: if_splits sum.splits)
    from but_insert_outbox [OF this] show ?thesis by (simp add: but_inbox_def)
  next
    case (Some a)
    with tx show ?thesis by (auto simp: request_approval_tx_def but_settle split: if_splits)
  qed
qed

lemma but_verdict: "approval_verdict a e actor d now db = (r, db') \<Longrightarrow> but_inbox db' = but_inbox db"
  by (auto simp: approval_verdict_cases but_settle split: if_splits)

lemma but_decide: "but_inbox (snd (decide_approval c oid e i actor d ack now db)) = but_inbox db"
proof -
  have "but_inbox (snd (transaction (decide_approval_tx c oid e i actor d ack now) db)) = but_inbox db"
  proof (rule keeps_tx)
    fix r t assume "decide_approval_tx c oid e i actor d ack now db = Inr (r, t)"
    then show "but_inbox t = but_inbox db"
    proof (cases rule: decide_approval_tx_cases)
      case (decided a pk db1 db2)
      then show ?thesis using but_insert_outbox but_verdict but_insert_event by metis
    qed simp
  qed
  then show ?thesis by (simp add: decide_approval_def raise_def)
qed

lemma but_control: "but_inbox (snd (admit_control c cid oid e s actor kind tx ack now db)) = but_inbox db"
  unfolding admit_control_def
proof (rule keeps_tx)
  fix r t assume "admit_control_tx c cid oid e s actor kind tx ack now db = Inr (r, t)"
  then show "but_inbox t = but_inbox db"
  proof (cases rule: admit_control_tx_cases)
    case (fresh u p pk db1 db2)
    have "but_inbox db2 = but_inbox db1"
      using fresh(6) by (auto simp: insert_control_def but_inbox_def split: if_splits)
    then show ?thesis using but_insert_outbox [OF fresh(7)] but_insert_event [OF fresh(5)] by simp
  qed simp_all
qed

lemma but_ack: "but_inbox (snd (acknowledge_controls t ids now db)) = but_inbox db"
  by (simp add: acknowledge_controls_def transaction_def apply_controls_def but_inbox_def)

lemma but_work_insert: "insert_outbox c i d t now db = Inr db' \<Longrightarrow> but_work db' = but_work db"
  by (auto simp: insert_outbox_def but_work_def split: if_splits)

lemma but_update_owned_task: "update_owned_task i w f db = Inr db' \<Longrightarrow> but_work db' = but_work db"
  by (auto simp: update_owned_task_def but_work_def split: if_splits)

lemma but_task_act: "but_work (snd (task_give_back a w i db)) = but_work db"
proof (cases a)
  case (ActFinish c oid st now code msg)
  have "but_work (snd (transaction (finish_task_tx c oid i w st now code msg) db)) = but_work db"
    by (rule keeps_tx)
      (auto simp: finish_task_tx_def split: sum.splits option.splits
        dest!: but_work_insert but_update_owned_task)
  with ActFinish show ?thesis by (simp add: finish_task_def raise_def)
next
  case (ActRetryTask av now code)
  then show ?thesis unfolding ActRetryTask task_give_back.simps retry_task_def
    by (intro keeps_tx) (auto simp: map_sum_def split: sum.splits dest!: but_update_owned_task)
next
  case (ActDefer av now reason)
  have "but_work (snd (transaction (\<lambda>db. map_sum id (Pair ())
      (update_owned_task i w (deferred av now reason) db)) db)) = but_work db"
    by (rule keeps_tx) (auto simp: map_sum_def split: sum.splits dest!: but_update_owned_task)
  with ActDefer show ?thesis by (simp add: defer_task_def raise_def)
qed

lemma but_claim: "but_claims (snd (claim_idempotency k kind ow ex now db)) = but_claims db"
  by (simp add: claim_idempotency_def claim_tx_def transaction_def but_claims_def split: option.splits)

lemma but_complete: "but_claims (snd (complete_idempotency k ow r now db)) = but_claims db"
  by (simp add: complete_idempotency_def complete_tx_def transaction_def but_claims_def)

lemma but_start_run: "but_sessions (snd (start_run i task s a v p now tr db)) = but_sessions db"
  unfolding start_run_def
  by (rule keeps_tx) (auto simp: start_run_tx_def but_sessions_def split: if_splits)

lemma but_append_event: "but_sessions (snd (append_event c i ty p now db)) = but_sessions db"
  unfolding append_event_def
  by (rule keeps_tx)
    (auto simp: append_event_tx_def insert_run_event_def Let_def but_sessions_def split: if_splits)

lemma but_save: "but_sessions (snd (save_checkpoint c k now db)) = but_sessions db"
  unfolding save_checkpoint_def
  by (rule keeps_tx)
    (auto simp: save_checkpoint_tx_def chain_Inr upsert_checkpoint_def but_sessions_def split: if_splits)

lemma but_discard: "but_sessions (snd (discard_checkpoint i db)) = but_sessions db"
  by (simp add: discard_checkpoint_def transaction_def but_sessions_def)

lemma but_finish_run: "but_sessions (snd (finish_run i st now db)) = but_sessions db"
  by (simp add: finish_run_def transaction_def raise_def set_run_status_def but_sessions_def)

lemma but_try_finish: "but_sessions (snd (try_finish_with_outcome c i oc ids now db)) = but_sessions db"
proof -
  have "but_sessions (snd (transaction (try_finish_tx c i oc ids now) db)) = but_sessions db"
  proof (rule keeps_tx)
    fix b t assume "try_finish_tx c i oc ids now db = Inr (b, t)"
    then show "but_sessions t = but_sessions db"
      by (cases rule: try_finish_tx_cases; cases b)
        (auto simp: but_sessions_def apply_controls_def supersede_controls_def set_run_status_def
          insert_run_event_def Let_def split: if_splits)
  qed
  then show ?thesis by (simp add: try_finish_with_outcome_def raise_def)
qed

lemmas frame_rules [frame] =
  but_leasing_frame [OF but_lease_tasks] bindings_lease_tasks
  but_inbox_frame [OF but_admit]
  but_outbox_frame [OF but_enqueue] but_inbox_frame [OF but_outbox_frame(6) [OF but_enqueue]]
  but_outbox_frame [OF but_lease_outbox] but_inbox_frame [OF but_outbox_frame(6) [OF but_lease_outbox]]
  but_outbox_frame [OF but_outbox_act] but_inbox_frame [OF but_outbox_frame(6) [OF but_outbox_act]]
  but_inbox_frame [OF but_request] request_approval_effect(2-4) [OF refl]
  but_inbox_frame [OF but_decide] decide_approval_effect(2) [OF refl]
  but_inbox_frame [OF but_control] admit_control_frame(1,5) [OF refl]
  but_inbox_frame [OF but_ack] acknowledge_controls_frame [OF refl]
  but_work_frame [OF but_task_act] but_inbox_frame [OF but_work_frame(5) [OF but_task_act]]
  but_claims_frame [OF but_claim] but_claims_frame [OF but_complete]
  but_sessions_frame [OF but_start_run] but_sessions_frame [OF but_append_event]
  but_sessions_frame [OF but_save] but_sessions_frame [OF but_discard]
  but_sessions_frame [OF but_finish_run] but_sessions_frame [OF but_try_finish]

end
