(* ===== verification/RuntimeSystem.thy ===== *)
theory RuntimeSystem
  imports RuntimeFrames
begin

text \<open>
  The runtime database as one system: every state-changing operation of the runtime store and the
  session store, run in any order by any number of clients on a clock that never goes back. The
  database actor serialises the transactions, so a run is a list of timed operations.
\<close>

datatype 'b rt_op =
    OpAdmit "'b cipher" string string normalized_event task_command "outbox_draft option"
  | OpEnqueue "'b cipher" string string outbox_draft
  | OpRequestApproval "'b cipher" string approval_request outbox_draft
  | OpDecideApproval "'b cipher" string normalized_event string string string "string \<Rightarrow> outbox_draft"
  | OpAdmitControl "'b cipher" string string normalized_event string string run_control_kind string outbox_draft
  | OpAcknowledge string "string list"
  | OpLeaseTasks "'b cipher" string int int "task_concurrency_limits option"
  | OpGiveBackTask "'b task_act" string string
  | OpLeaseOutbox "'b cipher" string int int
  | OpGiveBackOutbox outbox_act string string
  | OpClaim string string string int
  | OpComplete string string string
  | OpStartRun string string string string int int string
  | OpAppendEvent "'b cipher" string string payload
  | OpSaveCheckpoint "'b cipher" run_checkpoint
  | OpDiscardCheckpoint string
  | OpFinishRun string run_status
  | OpTryFinish "'b cipher" string agent_outcome "string list"

fun rt_step :: "int \<Rightarrow> 'b rt_op \<Rightarrow> 'b rt_db \<Rightarrow> 'b rt_db" where
  "rt_step now (OpAdmit c i oid e cmd ack) db = snd (admit c i oid e cmd ack now db)"
| "rt_step now (OpEnqueue c oid i d) db = snd (enqueue_task_outbox c oid i d now db)"
| "rt_step now (OpRequestApproval c oid q d) db = snd (request_approval c oid q d now db)"
| "rt_step now (OpDecideApproval c oid e i actor d ack) db = snd (decide_approval c oid e i actor d ack now db)"
| "rt_step now (OpAdmitControl c cid oid e s actor kind tx ack) db =
     snd (admit_control c cid oid e s actor kind tx ack now db)"
| "rt_step now (OpAcknowledge i ids) db = snd (acknowledge_controls i ids now db)"
| "rt_step now (OpLeaseTasks c w lease limit L) db = snd (lease_tasks c w now lease limit L db)"
| "rt_step now (OpGiveBackTask a w i) db = snd (task_give_back a w i db)"
| "rt_step now (OpLeaseOutbox c w lease limit) db = snd (lease_outbox c w now lease limit db)"
| "rt_step now (OpGiveBackOutbox a w i) db = snd (outbox_give_back a w i db)"
| "rt_step now (OpClaim k kind ow ex) db = snd (claim_idempotency k kind ow ex now db)"
| "rt_step now (OpComplete k ow r) db = snd (complete_idempotency k ow r now db)"
| "rt_step now (OpStartRun i task s a v p tr) db = snd (start_run i task s a v p now tr db)"
| "rt_step now (OpAppendEvent c i ty p) db = snd (append_event c i ty p now db)"
| "rt_step now (OpSaveCheckpoint c k) db = snd (save_checkpoint c k now db)"
| "rt_step now (OpDiscardCheckpoint i) db = snd (discard_checkpoint i db)"
| "rt_step now (OpFinishRun i st) db = snd (finish_run i st now db)"
| "rt_step now (OpTryFinish c i oc ids) db = snd (try_finish_with_outcome c i oc ids now db)"

text \<open>
  The checks a command has passed when it is constructed; and the harness writes terminal events
  through \<open>try_finish_with_outcome\<close> only.
\<close>

fun rt_legal :: "'b rt_op \<Rightarrow> bool" where
  "rt_legal (OpAdmit c i oid e cmd ack) = (check_task_command cmd = Inr cmd)"
| "rt_legal (OpAppendEvent c i ty p) = (ty \<noteq> ''run_terminal'')"
| "rt_legal _ = True"

definition runtime_ok :: "int \<Rightarrow> 'b rt_db \<Rightarrow> bool" where
  "runtime_ok now db \<longleftrightarrow> queue_ok now db \<and> outbox_ok db \<and> lanes_ok db \<and> events_ok db \<and>
     claims_ok db \<and> approvals_ok db \<and> sessions_ok db"

lemma runtime_okD:
  assumes "runtime_ok now db"
  shows "queue_ok now db" "outbox_ok db" "lanes_ok db" "events_ok db" "claims_ok db" "approvals_ok db"
    "sessions_ok db"
  using assms by (simp_all add: runtime_ok_def)

section \<open>Each component's invariant under every operation\<close>

lemma step_queue_ok:
  assumes "queue_ok now db" "rt_legal op"
  shows "queue_ok now (rt_step now op db)"
proof -
  have keep: "db_tasks (rt_step now op db) = db_tasks db \<Longrightarrow> ?thesis"
    using assms(1) by (simp add: queue_ok_def)
  show ?thesis
  proof (cases op)
    case (OpAdmit c i oid e cmd ack)
    with assms show ?thesis by (simp add: admit_queue_ok)
  next
    case (OpLeaseTasks c w lease limit L)
    with assms show ?thesis by (simp add: lease_tasks_queue_ok)
  next
    case (OpGiveBackTask a w i)
    with assms show ?thesis by (simp add: task_give_back_queue_ok)
  qed (rule keep, simp add: frame)+
qed

lemma task_act_outbox_ok: "outbox_ok db \<Longrightarrow> outbox_ok (snd (task_give_back a w i db))"
proof -
  assume ok: "outbox_ok db"
  have up: "outbox_ok db'" if "update_owned_task i w f db = Inr db'" for f db'
    using that ok outbox_ok_cong [of db' db] by (auto simp: update_owned_task_def split: if_splits)
  have simple: "outbox_ok (snd (transaction (\<lambda>db. map_sum id (Pair ()) (update_owned_task i w f db)) db))" for f
    by (rule transaction_inv [where P = outbox_ok, OF ok]) (auto simp: map_sum_def split: sum.splits dest: up)
  show ?thesis
  proof (cases a)
    case (ActFinish c oid st now code msg)
    have "outbox_ok (snd (transaction (finish_task_tx c oid i w st now code msg) db))"
      by (rule transaction_inv [where P = outbox_ok, OF ok])
        (auto simp: finish_task_tx_def split: sum.splits option.splits dest: up insert_outbox_ok)
    with ActFinish ok show ?thesis by (simp add: finish_task_def raise_def)
  qed (use ok simple in \<open>simp_all add: retry_task_def defer_task_def raise_def\<close>)
qed

lemma step_outbox_ok:
  assumes "outbox_ok db"
  shows "outbox_ok (rt_step now op db)"
proof -
  have keep: "db_outbox (rt_step now op db) = db_outbox db \<Longrightarrow> ?thesis"
    using assms by (simp add: outbox_ok_def)
  show ?thesis
  proof (cases op)
    case (OpAdmit c i oid e cmd ack)
    with assms show ?thesis by (simp add: admit_outbox_ok)
  next
    case (OpEnqueue c oid i d)
    with assms show ?thesis by (simp add: enqueue_outbox_ok)
  next
    case (OpRequestApproval c oid q d)
    with assms show ?thesis by (simp add: request_approval_effect(8) [OF refl])
  next
    case (OpDecideApproval c oid e i actor d ack)
    with assms show ?thesis by (simp add: decide_approval_effect(6) [OF refl])
  next
    case (OpAdmitControl c cid oid e s actor kind tx ack)
    with assms show ?thesis by (simp add: admit_control_frame(7) [OF refl])
  next
    case (OpGiveBackTask a w i)
    with assms show ?thesis by (simp add: task_act_outbox_ok)
  next
    case (OpLeaseOutbox c w lease limit)
    with assms show ?thesis by (simp add: lease_outbox_ok)
  next
    case (OpGiveBackOutbox a w i)
    with assms show ?thesis by (simp add: outbox_leases.give_back_inv)
  qed (rule keep, simp add: frame)+
qed

lemma step_lanes_ok:
  assumes "lanes_ok db"
  shows "lanes_ok (rt_step now op db)"
proof -
  have keep: "db_lanes (rt_step now op db) = db_lanes db \<Longrightarrow>
      db_next_sequence (rt_step now op db) = db_next_sequence db \<Longrightarrow> ?thesis"
    using assms lanes_ok_cong by metis
  show ?thesis
  proof (cases op)
    case (OpLeaseTasks c w lease limit L)
    with assms show ?thesis by (simp add: lease_tasks_lanes_ok)
  qed (rule keep; simp add: frame)+
qed

text \<open>The pairs of task and event that a run accumulates.\<close>

lemma task_act_bindings:
  "map task_binding (db_tasks (snd (task_give_back a w i db))) = map task_binding (db_tasks db)"
proof -
  have up: "map task_binding (db_tasks db') = map task_binding (db_tasks db)"
    if "update_owned_task i w f db = Inr db'" "\<And>t. task_binding (f t) = task_binding t" for f db'
    using that by (auto simp: update_owned_task_def update_where_map_key split: if_splits)
  have simple: "map task_binding (db_tasks (snd (transaction
      (\<lambda>db. map_sum id (Pair ()) (update_owned_task i w f db)) db))) = map task_binding (db_tasks db)"
    if "\<And>t. task_binding (f t) = task_binding t" for f
    by (rule keeps_tx) (auto simp: map_sum_def that split: sum.splits dest!: up)
  have keeps: "task_binding (act_task a t) = task_binding t" for t
    by (cases a) (simp_all add: task_binding_def finished_def retried_def deferred_def)
  show ?thesis
  proof (cases a)
    case (ActFinish c oid st now code msg)
    have "map task_binding (db_tasks (snd (transaction (finish_task_tx c oid i w st now code msg) db)))
        = map task_binding (db_tasks db)"
    proof (rule keeps_tx)
      fix u t assume "finish_task_tx c oid i w st now code msg db = Inr (u, t)"
      then obtain db1 where "update_owned_task i w (finished st now code) db = Inr db1"
        "db_tasks t = db_tasks db1"
        by (auto simp: finish_task_tx_def split: sum.splits option.splits dest: insert_outbox_frame(1))
      with up keeps ActFinish show "map task_binding (db_tasks t) = map task_binding (db_tasks db)" by auto
    qed
    with ActFinish show ?thesis by (simp add: finish_task_def raise_def)
  next
    case (ActRetryTask av now code)
    with simple keeps show ?thesis by (simp add: retry_task_def)
  next
    case (ActDefer av now reason)
    with simple keeps show ?thesis by (simp add: defer_task_def raise_def)
  qed
qed

lemma step_events_ok:
  assumes "events_ok db"
  shows "events_ok (rt_step now op db)"
proof -
  have keep: "db_events (rt_step now op db) = db_events db \<Longrightarrow>
      db_event_seq (rt_step now op db) = db_event_seq db \<Longrightarrow>
      map task_binding (db_tasks (rt_step now op db)) = map task_binding (db_tasks db) \<Longrightarrow> ?thesis"
    using assms events_ok_cong by metis
  show ?thesis
  proof (cases op)
    case (OpAdmit c i oid e cmd ack)
    with assms show ?thesis by (simp add: admit_events_ok)
  next
    case (OpDecideApproval c oid e i actor d ack)
    with assms show ?thesis by (simp add: decide_approval_effect(7) [OF refl])
  next
    case (OpAdmitControl c cid oid e s actor kind tx ack)
    with assms show ?thesis by (simp add: admit_control_frame(8) [OF refl])
  qed (rule keep; simp add: frame task_act_bindings)+
qed

lemma step_claims_ok:
  assumes "claims_ok db"
  shows "claims_ok (rt_step now op db)"
proof -
  have keep: "db_idempotency (rt_step now op db) = db_idempotency db \<Longrightarrow> ?thesis"
    using assms by (simp add: claims_ok_def)
  show ?thesis
  proof (cases op)
    case (OpClaim k kind ow ex)
    with assms show ?thesis by (simp add: claim_ok)
  next
    case (OpComplete k ow r)
    with assms show ?thesis by (simp add: complete_ok)
  qed (rule keep, simp add: frame)+
qed

lemma admit_approvals: "db_approvals (snd (admit c i oid e cmd ack now db)) = db_approvals db"
  unfolding admit_def
proof (rule keeps_tx)
  fix r db' assume "admit_tx c i oid e cmd ack now db = Inr (r, db')"
  then show "db_approvals db' = db_approvals db"
  proof (cases rule: admit_tx_cases)
    case (fresh pk db1 db2)
    then show ?thesis
      using acknowledged(7) [OF fresh(5)] insert_event_frame(6) [OF fresh(2)] insert_task_cases(1) [OF fresh(3)]
      by simp
  qed simp
qed

lemma step_approvals_ok:
  assumes "approvals_ok db"
  shows "approvals_ok (rt_step now op db)"
proof -
  have keep: "db_approvals (rt_step now op db) = db_approvals db \<Longrightarrow> ?thesis"
    using assms by (simp add: approvals_ok_def)
  show ?thesis
  proof (cases op)
    case (OpRequestApproval c oid q d)
    with assms show ?thesis by (simp add: request_approval_ok)
  next
    case (OpDecideApproval c oid e i actor d ack)
    with assms show ?thesis by (simp add: decide_approval_ok)
  qed (rule keep, simp add: frame admit_approvals)+
qed

lemma step_sessions_ok:
  assumes "sessions_ok db" "rt_legal op"
  shows "sessions_ok (rt_step now op db)"
proof -
  have keep: "session_view (rt_step now op db) = session_view db \<Longrightarrow> ?thesis"
    using assms(1) session_view_cong(5) by metis
  show ?thesis
  proof (cases op)
    case (OpStartRun i task s a v p tr)
    with assms show ?thesis by (simp add: start_run_ok)
  next
    case (OpAppendEvent c i ty p)
    with assms show ?thesis by (simp add: append_event_ok)
  next
    case (OpSaveCheckpoint c k)
    with assms show ?thesis by (simp add: save_checkpoint_ok)
  next
    case (OpDiscardCheckpoint i)
    with assms show ?thesis by (simp add: discard_checkpoint_ok)
  next
    case (OpFinishRun i st)
    with assms show ?thesis by (simp add: finish_run_ok)
  next
    case (OpTryFinish c i oc ids)
    with assms show ?thesis by (simp add: try_finish_ok)
  qed (rule keep, simp add: frame)+
qed

section \<open>Runs of the runtime\<close>

interpretation runtime: clocked_steps rt_step rt_legal runtime_ok
proof
  fix now later and db :: "'a rt_db" and op
  assume ok: "runtime_ok now db"
  show "runtime_ok later db" if "now \<le> later"
    using ok that by (auto simp: runtime_ok_def intro: queue_ok_later)
  show "runtime_ok now (rt_step now op db)" if "rt_legal op"
    using runtime_okD [OF ok] that
    by (simp add: runtime_ok_def step_queue_ok step_outbox_ok step_lanes_ok step_events_ok step_claims_ok
        step_approvals_ok step_sessions_ok)
qed

lemma runtime_ok_empty: "runtime_ok now empty_db"
proof -
  have "queue_ok now empty_db" "lanes_ok empty_db" "claims_ok empty_db" "approvals_ok empty_db" "outbox_ok empty_db"
    by (simp_all add: queue_ok_def session_live_def live_count_def lanes_ok_def claims_ok_def
        approvals_ok_def outbox_ok_def empty_db_def)
  moreover have "events_ok empty_db" by (simp add: events_ok_def bindings_ok_def empty_db_def)
  moreover have "sessions_ok empty_db"
    by (simp add: sessions_ok_def run_ok_def run_events_def terminal_rows_def empty_db_def)
  ultimately show ?thesis by (simp add: runtime_ok_def)
qed

lemmas runtime_reachable = runtime.run_inv [OF runtime_ok_empty]

end
