(* ===== verification/Samples.thy ===== *)
theory Samples
  imports RuntimeSystem
begin

text \<open>
  Concrete inputs for the witnesses: one tenant's mention event, the task it becomes, and the
  database after admission, lease and finish.
\<close>

definition sample_event :: "string \<Rightarrow> normalized_event" where
  "sample_event i = \<lparr>ev_event_id = i, ev_plugin_id = ''im'', ev_event_type = ''mention'',
     ev_tenant_key = ''tenant'', ev_app_id = ''app'', ev_occurred_at_ms = 1, ev_received_at_ms = 2,
     ev_resource_kind = ''message'', ev_resource_id = ''m1'', ev_trace_id = ''trace'',
     ev_schema_version = 1, ev_correlation_id = None, ev_source_payload = None,
     ev_payload_expires_at_ms = None\<rparr>"

definition sample_command :: task_command where
  "sample_command = \<lparr>tc_plugin_id = ''im'', tc_command_type = ''im.handle_mention'',
     tc_session_key = ''s'', tc_payload = [(''sender_id'', JStr ''u'')], tc_priority = 0,
     tc_available_at_ms = 0, tc_max_attempts = 3, tc_group_id = None\<rparr>"

definition sample_draft :: "string \<Rightarrow> outbox_draft" where
  "sample_draft key = \<lparr>od_publisher_id = ''lark'', od_destination_ref = ''chat'',
     od_message_kind = ''acknowledgement'', od_idempotency_key = key,
     od_payload = [(''text'', JStr ''ok'')], od_available_at_ms = 0\<rparr>"

definition sample_admit :: "(string \<times> json) rt_op" where
  "sample_admit = OpAdmit plain_cipher ''t1'' ''o1'' (sample_event ''e1'') sample_command (Some (sample_draft ''k1''))"

definition sample_admitted :: "(string \<times> json) rt_db" where
  "sample_admitted = rt_step 10 sample_admit empty_db"

lemma sample_admitted_ok: "runtime_ok 10 sample_admitted"
  unfolding sample_admitted_def
  by (rule runtime.step_at [OF runtime_ok_empty])
    (simp add: sample_admit_def sample_command_def check_task_command_def)

text \<open>Reading off a computed result.\<close>

lemma result_Inr:
  assumes "map_sum id g (fst x) = Inr y"
  shows "\<exists>v s. x = (Inr v, s) \<and> g v = y"
  using assms by (cases x; cases "fst x") auto

lemma sample_lease:
  "\<exists>ts db'. lease_tasks plain_cipher ''w'' 20 100 1 None sample_admitted = (Inr ts, db') \<and>
     map lt_task_id ts = [''t1'']"
  by (rule result_Inr) code_simp

definition sample_limits :: task_concurrency_limits where
  "sample_limits = \<lparr>global_limit = 4, tenant_limit = 2, app_limit = 2, group_limit = 1\<rparr>"

definition sample_leased :: "(string \<times> json) rt_db" where
  "sample_leased = rt_step 20 (OpLeaseTasks plain_cipher ''w'' 100 1 None) sample_admitted"

lemma sample_leased_ok: "runtime_ok 20 sample_leased"
proof -
  have "runtime_ok 20 sample_admitted" by (rule runtime.tick_inv [OF sample_admitted_ok]) simp
  then show ?thesis unfolding sample_leased_def by (rule runtime.step_at) simp
qed

text \<open>Two tenants with two sessions each, of which the first two have been served.\<close>

definition tenant_event :: "string \<Rightarrow> string \<Rightarrow> normalized_event" where
  "tenant_event tenant i = (sample_event i)\<lparr>ev_tenant_key := tenant\<rparr>"

definition tenant_admit :: "string \<Rightarrow> string \<Rightarrow> (string \<times> json) rt_op" where
  "tenant_admit tenant i = OpAdmit plain_cipher i [] (tenant_event tenant i)
     (sample_command\<lparr>tc_session_key := i\<rparr>) None"

definition sample_tenants :: "(int \<times> (string \<times> json) rt_op) list" where
  "sample_tenants = [(1, tenant_admit ''A'' ''a1''), (2, tenant_admit ''B'' ''b1''),
     (3, tenant_admit ''A'' ''a2''), (4, tenant_admit ''B'' ''b2''),
     (5, OpLeaseTasks plain_cipher ''w'' 100 1 (Some sample_limits)),
     (6, OpLeaseTasks plain_cipher ''w'' 100 1 (Some sample_limits))]"

definition sample_served :: "(string \<times> json) rt_db" where
  "sample_served = timed_run rt_step sample_tenants empty_db"

lemma sample_tenants_timely: "timely rt_legal 0 sample_tenants"
  by code_simp

lemma sample_served_ok: "runtime_ok 6 sample_served"
  using runtime_reachable [OF sample_tenants_timely] unfolding sample_served_def
  by (simp add: sample_tenants_def)

text \<open>Two tasks with an intent each; the first one's intent has failed for good.\<close>

definition sample_two :: "(string \<times> json) rt_db" where
  "sample_two = rt_step 11 (OpAdmit plain_cipher ''t2'' ''o2'' (sample_event ''e2'') sample_command
     (Some (sample_draft ''k2''))) sample_admitted"

definition sample_failed :: "(string \<times> json) rt_db" where
  "sample_failed = sample_two\<lparr>db_outbox := update_where (\<lambda>q. ob_outbox_id q = ''o1'')
     (\<lambda>q. q\<lparr>ob_state := OutboxFailed\<rparr>) (db_outbox sample_two)\<rparr>"

end
