(* ===== verification/RuntimeProps.thy ===== *)
theory RuntimeProps
  imports RuntimeSystem
begin

text \<open>
  What the runtime database guarantees to its clients over whole runs: one live lease per session,
  one task per event whose payload reaches the worker as it was sent, terminal tasks and settled
  approvals that stay as they are, effects claimed once, and one outcome per run.
\<close>

section \<open>What a run keeps\<close>

lemma identity_updates:
  "map task_identity (update_where P f ts) = map task_identity ts" if "\<And>t. task_identity (f t) = task_identity t"
  by (rule update_where_map_key) (rule that)

lemma act_task_identity: "task_identity (act_task a t) = task_identity t"
  by (cases a) (simp_all add: task_identity_def finished_def retried_def deferred_def)

lemma update_owned_task_identities:
  "update_owned_task i w f db = Inr db' \<Longrightarrow> (\<And>t. task_identity (f t) = task_identity t) \<Longrightarrow>
   identities db' = identities db"
  by (auto simp: update_owned_task_def identities_def identity_updates split: if_splits)

lemma identities_cong: "db_tasks db' = db_tasks db \<Longrightarrow> identities db' = identities db"
  by (simp add: identities_def)

lemma act_identities: "identities (snd (task_give_back a w i db)) = identities db"
proof -
  have id: "task_identity (finished st n code t) = task_identity t"
    "task_identity (retried av n r t) = task_identity t"
    "task_identity (deferred av n r t) = task_identity t" for st n code av r and t :: "'a task_row"
    by (simp_all add: task_identity_def finished_def retried_def deferred_def)
  have simple: "identities (snd (transaction (\<lambda>db. map_sum id (Pair ()) (update_owned_task i w f db)) db)) = identities db"
    if "\<And>t. task_identity (f t) = task_identity t" for f
    by (rule keeps_tx) (auto simp: map_sum_def that split: sum.splits dest!: update_owned_task_identities)
  show ?thesis
  proof (cases a)
    case (ActFinish c oid st now code msg)
    have "identities (snd (transaction (finish_task_tx c oid i w st now code msg) db)) = identities db"
    proof (rule keeps_tx)
      fix u t assume "finish_task_tx c oid i w st now code msg db = Inr (u, t)"
      then obtain db1 where "update_owned_task i w (finished st now code) db = Inr db1" "db_tasks t = db_tasks db1"
        by (auto simp: finish_task_tx_def split: sum.splits option.splits dest: insert_outbox_frame(1))
      then show "identities t = identities db" using update_owned_task_identities id(1) identities_cong by metis
    qed
    with ActFinish show ?thesis by (simp add: finish_task_def raise_def)
  qed (use simple id in \<open>simp_all add: retry_task_def defer_task_def raise_def\<close>)
qed

lemma admit_identities: "set (identities db) \<subseteq> set (identities (snd (admit c i oid e cmd ack now db)))"
  unfolding admit_def
proof (rule transaction_inv [where P = "\<lambda>d. set (identities db) \<subseteq> set (identities d)"])
  fix r db' assume "admit_tx c i oid e cmd ack now db = Inr (r, db')"
  then show "set (identities db) \<subseteq> set (identities db')"
  proof (cases rule: admit_tx_cases)
    case (fresh pk db1 db2)
    then show ?thesis
      using acknowledged(1) [OF fresh(5)] insert_event_frame(1) [OF fresh(2)] insert_task_cases(1) [OF fresh(3)]
      by (auto simp: identities_def)
  qed simp
qed simp

lemma lease_identities: "identities (snd (lease_tasks c w now lease limit L db)) = identities db"
proof (rule lease_tasks_keeps)
  fix ts db' assume "lease_tasks_tx c w now lease limit L db = Inr (ts, db')"
  then obtain ids where
    sel: "select_task_ids w now (now + lease) limit L (reclaim_leases now db) = Inr (ids, db')"
    by (auto elim: lease_tasks_tx_cases)
  then show "identities db' = identities db" using identities_select [OF sel] by simp
qed simp

lemma step_identities: "set (identities db) \<subseteq> set (identities (rt_step now op db))"
proof -
  have keep: "db_tasks (rt_step now op db) = db_tasks db \<Longrightarrow> ?thesis"
    by (simp add: identities_def)
  show ?thesis
  proof (cases op)
    case (OpAdmit c i oid e cmd ack)
    then show ?thesis by (simp add: admit_identities)
  next
    case (OpLeaseTasks c w lease limit L)
    then show ?thesis by (simp add: lease_identities)
  next
    case (OpGiveBackTask a w i)
    then show ?thesis by (simp add: act_identities)
  qed (rule keep, simp add: frame)+
qed

lemma admit_events: "set (db_events db) \<subseteq> set (db_events (snd (admit c i oid e cmd ack now db)))"
  unfolding admit_def
proof (rule transaction_inv [where P = "\<lambda>d. set (db_events db) \<subseteq> set (db_events d)"])
  fix r db' assume "admit_tx c i oid e cmd ack now db = Inr (r, db')"
  then show "set (db_events db) \<subseteq> set (db_events db')"
  proof (cases rule: admit_tx_cases)
    case (fresh pk db1 db2)
    then show ?thesis
      using acknowledged(2) [OF fresh(5)] insert_event_cases(3) [OF fresh(2)] insert_task_cases(1) [OF fresh(3)]
      by auto
  qed simp
qed simp

lemma step_events: "set (db_events db) \<subseteq> set (db_events (rt_step now op db))"
proof -
  have keep: "db_events (rt_step now op db) = db_events db \<Longrightarrow> ?thesis" by simp
  show ?thesis
  proof (cases op)
    case (OpAdmit c i oid e cmd ack)
    then show ?thesis by (simp add: admit_events)
  next
    case (OpDecideApproval c oid e i actor d ack)
    then show ?thesis by (simp add: decide_approval_effect(8) [OF refl])
  next
    case (OpAdmitControl c cid oid e s actor kind tx ack)
    then show ?thesis by (simp add: admit_control_frame(9) [OF refl])
  qed (rule keep, simp add: frame)+
qed

lemma binding_of_identity: "task_binding t = (case task_identity t of (i, pk, _) \<Rightarrow> (i, pk))"
  by (simp add: task_binding_def task_identity_def)

lemma step_bound: "bound e i db \<Longrightarrow> bound e i (rt_step now op db)"
proof (rule bound_grow)
  have "set (map (\<lambda>(i, pk, _). (i, pk)) (identities db)) \<subseteq>
      set (map (\<lambda>(i, pk, _). (i, pk)) (identities (rt_step now op db)))"
    unfolding set_map by (rule image_mono [OF step_identities])
  then show "set (map task_binding (db_tasks db)) \<subseteq> set (map task_binding (db_tasks (rt_step now op db)))"
    by (simp add: identities_def image_image binding_of_identity [abs_def])
qed (simp_all add: step_events)

section \<open>Leases and admission\<close>

text \<open>
  C1. Whatever operations run, in whatever order and with however many workers, as long as the clock
  does not go back: at most one task of a session is under a live lease, every attempt count stays
  within its maximum, and a task has an owner exactly while it is leased.
\<close>

theorem one_live_lease_per_session:
  assumes "timely rt_legal t0 ops"
  shows "session_live (last (t0 # map fst ops)) s (db_tasks (timed_run rt_step ops empty_db)) \<le> 1 \<and>
    (\<forall>t \<in> set (db_tasks (timed_run rt_step ops empty_db)). tk_attempt_count t \<le> tk_max_attempts t \<and>
       (tk_state t = TaskLeased \<longleftrightarrow> tk_lease_owner t \<noteq> None))"
proof -
  have ok: "queue_ok (last (t0 # map fst ops)) (timed_run rt_step ops empty_db)"
    by (rule runtime_okD(1) [OF runtime_reachable [OF assms]])
  show ?thesis using queue_okD(2,3) [OF ok] by (auto simp: task_row_ok_def)
qed


text \<open>
  What was admitted is what the worker gets: whenever a task that \<open>admit\<close> created is leased
  later, after any operations, the record handed to the worker carries the command's payload, type
  and session and the event's tenant and application.
\<close>

theorem admitted_payload_reaches_worker:
  assumes "runtime_ok now db" "check_task_command cmd = Inr cmd" "opens_sealed c"
    and "admit c i oid e cmd ack now db = (Inr \<lparr>ar_created = True, ar_task_id = i\<rparr>, db1)"
    and "timely rt_legal now ops" "last (now # map fst ops) \<le> later"
    and "lease_tasks c w later lease limit L (timed_run rt_step ops db1) = (Inr ts, db2)"
    and "lt \<in> set ts" "lt_task_id lt = i"
  shows "lt_payload lt = tc_payload cmd \<and> lt_command_type lt = tc_command_type cmd \<and>
    lt_session_key lt = tc_session_key cmd \<and> lt_tenant_key lt = ev_tenant_key e \<and>
    lt_app_id lt = ev_app_id e \<and> lt_max_attempts lt = tc_max_attempts cmd"
proof -
  have "runtime_ok now (rt_step now (OpAdmit c i oid e cmd ack) db)"
    by (rule runtime.step_at [OF assms(1)]) (simp add: assms(2))
  then have ok1: "runtime_ok now db1" using assms(4) by simp
  from transaction_InrD [OF assms(4) [unfolded admit_def]]
  have "\<exists>pk. new_task_row c i pk e cmd now \<in> set (db_tasks db1)"
  proof (cases rule: admit_tx_cases)
    case (fresh pk db3 db4)
    show ?thesis
      by (rule exI [of _ pk]) (simp add: acknowledged(1) [OF fresh(5)] insert_task_cases(1) [OF fresh(3)])
  qed simp
  then obtain pk where new: "new_task_row c i pk e cmd now \<in> set (db_tasks db1)" by blast
  let ?id = "task_identity (new_task_row c i pk e cmd now)"
  let ?db = "timed_run rt_step ops db1"
  have "?id \<in> set (identities ?db)"
  proof (rule runtime.run_keeps [where P = "\<lambda>d. ?id \<in> set (identities d)", OF ok1 assms(5)])
    show "?id \<in> set (identities db1)" using new by (simp add: identities_def)
    show "?id \<in> set (identities (rt_step t op s))" if "?id \<in> set (identities s)" for t op s
      using that step_identities by blast
  qed
  then have "?id \<in> set (identities (snd (lease_tasks c w later lease limit L ?db)))"
    by (simp only: lease_identities)
  then obtain u where u: "u \<in> set (db_tasks db2)" "task_identity u = ?id"
    using assms(7) by (auto simp: identities_def)
  have ok: "queue_ok later ?db"
    using runtime_okD(1) [OF runtime.run_inv [OF ok1 assms(5)]] assms(6) by (rule queue_ok_later)
  obtain t where t: "t \<in> set (db_tasks db2)" "leased_task_of c db2 t = Inr lt"
    using lease_tasks_decoded [OF assms(7,8)] by blast
  have "distinct (map tk_task_id (db_tasks db2))"
    using queue_okD(1) [OF lease_tasks_queue_ok [OF ok, of c w lease limit L]] assms(7) by simp
  moreover have "tk_task_id t = tk_task_id u"
    using leased_task_fields(1) [OF t(2)] assms(9) u(2) by (simp add: task_identity_def new_task_row_def)
  ultimately have "t = u" using key_unique t(1) u(1) by metis
  then have id: "task_identity t = ?id" using u(2) by simp
  then have "runtime_decrypt c (tk_payload t) (task_aad (tk_task_id t)) = Inr (tc_payload cmd)"
    using assms(3) by (simp add: task_identity_def new_task_row_def)
  then show ?thesis
    using t(2) id by (auto simp: leased_task_of_def task_identity_def new_task_row_def)
qed

section \<open>Terminal tasks\<close>

lemma lease_task_keeps_other:
  "lease_task i w now ex db = Inr db' \<Longrightarrow> t \<in> set (db_tasks db) \<Longrightarrow> tk_state t \<noteq> TaskPending \<Longrightarrow>
   t \<in> set (db_tasks db')"
  by (force simp: lease_task_def Let_def table_simps split: if_splits)

lemma lease_all_keeps_other:
  "lease_all ids w now ex db = Inr db' \<Longrightarrow> t \<in> set (db_tasks db) \<Longrightarrow> tk_state t \<noteq> TaskPending \<Longrightarrow>
   t \<in> set (db_tasks db')"
  by (induction ids arbitrary: db) (auto split: sum.splits dest: lease_task_keeps_other)

lemma select_fair_keeps_other:
  "select_fair n w now ex L db = Inr (ids, db') \<Longrightarrow> t \<in> set (db_tasks db) \<Longrightarrow> tk_state t \<noteq> TaskPending \<Longrightarrow>
   t \<in> set (db_tasks db')"
proof (induction n arbitrary: db ids)
  case (Suc n)
  show ?case
  proof (cases "next_candidate now L db")
    case (Some c)
    obtain db1 ids' where l: "lease_task (tk_task_id c) w now ex db = Inr db1"
      and r: "select_fair n w now ex L (advance_lanes c now db1) = Inr (ids', db')"
      by (rule select_fair_step [OF Suc.prems(1) Some])
    have "t \<in> set (db_tasks (advance_lanes c now db1))"
      using lease_task_keeps_other [OF l Suc.prems(2,3)] by simp
    then show ?thesis by (rule Suc.IH [OF r _ Suc.prems(3)])
  qed (use Suc.prems in simp)
qed simp

lemma final_task_update:
  assumes "t \<in> set ts" "task_terminal (tk_state t)" "\<And>u. P u \<Longrightarrow> \<not> task_terminal (tk_state u)"
  shows "t \<in> set (update_where P f ts)"
  using assms by (force simp: table_simps)

lemma lease_keeps_final:
  assumes "t \<in> set (db_tasks db)" "task_terminal (tk_state t)"
  shows "t \<in> set (db_tasks (snd (lease_tasks c w now lease limit L db)))"
proof (rule lease_tasks_keeps)
  fix ts db' assume "lease_tasks_tx c w now lease limit L db = Inr (ts, db')"
  then obtain ids where
    sel: "select_task_ids w now (now + lease) limit L (reclaim_leases now db) = Inr (ids, db')"
    by (auto elim: lease_tasks_tx_cases)
  have r: "t \<in> set (db_tasks (reclaim_leases now db))"
    unfolding reclaim_leases_def exhaust_expired_def release_expired_def
    by (simp, intro final_task_update) (use assms in \<open>auto simp: lease_expired_def\<close>)
  have "tk_state t \<noteq> TaskPending" using assms(2) by auto
  with sel r show "t \<in> set (db_tasks db')"
    by (auto simp: select_task_ids_def Let_def split: option.splits sum.splits
        dest: lease_all_keeps_other select_fair_keeps_other)
qed (rule assms(1))

lemma act_keeps_final:
  assumes "t \<in> set (db_tasks db)" "task_terminal (tk_state t)"
  shows "t \<in> set (db_tasks (snd (task_give_back a w i db)))"
proof -
  have up: "t \<in> set (db_tasks db')" if "update_owned_task i w f db = Inr db'" for f db'
    using that final_task_update [OF assms, of "task_owned i w" f]
    by (auto simp: update_owned_task_def task_owned_def split: if_splits)
  have simple: "t \<in> set (db_tasks (snd (transaction (\<lambda>db. map_sum id (Pair ()) (update_owned_task i w f db)) db)))" for f
    by (rule transaction_inv [where P = "\<lambda>d. t \<in> set (db_tasks d)", OF assms(1)])
      (auto simp: map_sum_def split: sum.splits dest: up)
  show ?thesis
  proof (cases a)
    case (ActFinish c oid st now code msg)
    have "t \<in> set (db_tasks (snd (transaction (finish_task_tx c oid i w st now code msg) db)))"
      by (rule transaction_inv [where P = "\<lambda>d. t \<in> set (db_tasks d)", OF assms(1)])
        (auto simp: finish_task_tx_def insert_outbox_frame(1) split: sum.splits option.splits dest: up)
    with ActFinish assms(1) show ?thesis by (simp add: finish_task_def raise_def)
  qed (use assms(1) simple in \<open>simp_all add: retry_task_def defer_task_def raise_def\<close>)
qed

lemma admit_keeps_task:
  assumes "t \<in> set (db_tasks db)"
  shows "t \<in> set (db_tasks (snd (admit c i oid e cmd ack now db)))"
  unfolding admit_def
proof (rule transaction_inv [where P = "\<lambda>d. t \<in> set (db_tasks d)", OF assms])
  fix r db' assume "admit_tx c i oid e cmd ack now db = Inr (r, db')"
  then show "t \<in> set (db_tasks db')"
  proof (cases rule: admit_tx_cases)
    case (fresh pk db1 db2)
    with assms show ?thesis
      using acknowledged(1) [OF fresh(5)] insert_event_frame(1) [OF fresh(2)] insert_task_cases(1) [OF fresh(3)]
      by simp
  qed (use assms in simp)
qed

lemma step_keeps_final:
  assumes "t \<in> set (db_tasks db)" "task_terminal (tk_state t)"
  shows "t \<in> set (db_tasks (rt_step now op db))"
proof -
  have keep: "db_tasks (rt_step now op db) = db_tasks db \<Longrightarrow> ?thesis" using assms(1) by simp
  show ?thesis
  proof (cases op)
    case (OpAdmit c i oid e cmd ack)
    with assms(1) show ?thesis by (simp add: admit_keeps_task)
  next
    case (OpLeaseTasks c w lease limit L)
    with assms show ?thesis by (simp add: lease_keeps_final)
  next
    case (OpGiveBackTask a w i)
    with assms show ?thesis by (simp add: act_keeps_final)
  qed (rule keep, simp add: frame)+
qed

lemma run_keeps_final:
  "t \<in> set (db_tasks db) \<Longrightarrow> task_terminal (tk_state t) \<Longrightarrow> t \<in> set (db_tasks (timed_run rt_step ops db))"
proof (induction ops arbitrary: db)
  case (Cons x ops)
  then show ?case by (cases x) (simp add: step_keeps_final)
qed simp

lemma insert_outbox_present:
  assumes "insert_outbox c oid d i n db = Inr db'"
  shows "\<exists>q \<in> set (db_outbox db'). ob_idempotency_key q = od_idempotency_key d \<or> ob_outbox_id q = oid"
proof (cases "list_ex (\<lambda>q. ob_outbox_id q = oid \<or> ob_idempotency_key q = od_idempotency_key d) (db_outbox db)")
  case True
  with assms show ?thesis by (auto simp: insert_outbox_def list_ex_iff)
next
  case False
  then have "new_outbox_row c oid d i n \<in> set (db_outbox db')"
    using assms by (auto simp: insert_outbox_def split: if_splits)
  then show ?thesis by (rule bexI [rotated]) (simp add: new_outbox_row_def)
qed

text \<open>
  Finishing is final and atomic with the answer: when \<open>finish_task\<close> has returned for the worker
  that held the lease, the task has the given terminal state and, if a terminal message was given,
  the outbox holds an intent under its key; and after any further operations the row is still
  exactly what \<open>finish_task\<close> left, so the task never runs again.
\<close>

theorem finished_task_is_final:
  assumes "runtime_ok now db" and "finish_task c oid i w st n code msg db = (Inr (), db1)"
  shows "\<exists>t \<in> set (db_tasks db1). tk_task_id t = i \<and> tk_state t = st \<and> task_terminal st \<and>
    (case msg of None \<Rightarrow> True
     | Some d \<Rightarrow> \<exists>q \<in> set (db_outbox db1). ob_idempotency_key q = od_idempotency_key d \<or> ob_outbox_id q = oid) \<and>
    (\<forall>ops. t \<in> set (db_tasks (timed_run rt_step ops db1)))"
proof -
  note ok = runtime_okD(1) [OF assms(1)]
  let ?a = "ActFinish c oid st n code msg"
  have act: "task_give_back ?a w i db = (Inr (), db1)" using assms(2) by simp
  have v: "valid_act ?a" using act task_give_back_invalid [of ?a w i db] by (metis Inl_Inr_False prod.inject)
  have own: "owns_task w i db" using act task_give_back_refused [OF ok] by (metis Inl_Inr_False prod.inject)
  obtain db' where eff: "task_give_back ?a w i db = (Inr (), db')"
    "db_tasks db' = update_where (task_owned i w) (act_task ?a) (db_tasks db)"
    using task_give_back_owned [OF ok v own] by blast
  then have tasks: "db_tasks db1 = update_where (task_owned i w) (act_task ?a) (db_tasks db)" using act by simp
  obtain u where u: "u \<in> set (db_tasks db)" "task_owned i w u" using own by (auto simp: owns_task_def)
  let ?t = "finished st n code u"
  have t: "?t \<in> set (db_tasks db1)" unfolding tasks using u by (force simp: table_simps)
  have st: "tk_task_id ?t = i" "tk_state ?t = st" "task_terminal st"
    using u(2) v by (simp_all add: finished_def task_owned_def)
  have msg: "case msg of None \<Rightarrow> True
     | Some d \<Rightarrow> \<exists>q \<in> set (db_outbox db1). ob_idempotency_key q = od_idempotency_key d \<or> ob_outbox_id q = oid"
  proof (cases msg)
    case (Some d)
    have "finish_task_tx c oid i w st n code msg db = Inr ((), db1)"
      by (rule transaction_InrD) (use assms(2) st(3) in \<open>simp add: finish_task_def\<close>)
    then obtain db2 where "insert_outbox c oid d i n db2 = Inr db1"
      using Some by (auto simp: finish_task_tx_def split: sum.splits)
    then show ?thesis using Some insert_outbox_present by simp
  qed simp
  have "task_terminal (tk_state ?t)" using st(2,3) by simp
  then have fin: "\<forall>ops. ?t \<in> set (db_tasks (timed_run rt_step ops db1))" using run_keeps_final [OF t] by blast
  show ?thesis by (intro bexI [OF _ t] conjI st msg fin)
qed

end
