(* ===== verification/RuntimeEffects.thy ===== *)
theory RuntimeEffects
  imports RuntimeSystem
begin

text \<open>
  What the runtime database guarantees about approvals, claims on external effects, run outcomes,
  checkpoints and controls, over whole runs of the system.
\<close>

section \<open>Approvals\<close>

text \<open>What one operation can do to the approval table.\<close>

lemma step_approval_cases:
  obtains (same) "db_approvals (rt_step now op db) = db_approvals db"
  | (new) q c oid d where "find_approval (aq_approval_id q) db = None"
      "db_approvals (rt_step now op db) = db_approvals db @ [new_approval q now]" "op = OpRequestApproval c oid q d"
  | (expired) i where "db_approvals (rt_step now op db) = settles i ''expired'' now (db_approvals db)"
  | (decided) c oid e i actor d ack a where "op = OpDecideApproval c oid e i actor d ack"
      "find_approval i db = Some a" "authorized a e actor" "now < ap_expires_at_ms a"
      "db_approvals (rt_step now op db) = settles i d now (db_approvals db)"
proof (cases op)
  case (OpRequestApproval c oid q d)
  with request_approval_effect(1) [OF refl, of c oid q d now db] same new [OF _ _ OpRequestApproval] expired show ?thesis
    by (simp; blast)
next
  case (OpDecideApproval c oid e i actor d ack)
  with decide_approval_effect(1) [OF refl, of c oid e i actor d ack now db] same expired decided show ?thesis
    by (simp; blast)
qed (rule same, simp add: frame admit_approvals)+

lemma settles_mem:
  assumes "b \<in> set (settles i s now rows)"
  shows "b \<in> set rows \<or> (\<exists>a \<in> set rows. ap_approval_id a = i \<and> ap_state a = ''pending'' \<and>
    b = a\<lparr>ap_state := s, ap_decided_at_ms := Some now\<rparr>)"
  using assms by (auto simp: settles_def table_simps split: if_splits)

lemma step_settled:
  assumes "a \<in> set (db_approvals db)" "ap_state a \<noteq> ''pending''"
  shows "a \<in> set (db_approvals (rt_step now op db))"
  by (cases rule: step_approval_cases [of now op db]) (use assms settles_final in auto)

lemma run_settled:
  "a \<in> set (db_approvals db) \<Longrightarrow> ap_state a \<noteq> ''pending'' \<Longrightarrow>
   a \<in> set (db_approvals (timed_run rt_step ops db))"
proof (induction ops arbitrary: db)
  case (Cons x ops)
  then show ?case by (cases x) (simp add: step_settled)
qed simp

text \<open>
  Only the requester approves, and in time: the one operation of the whole runtime that turns a
  pending approval into an approved one is a decision that names this approval and says approved, of
  the same tenant, application and actor the approval was requested for, taken before it expires.
\<close>

theorem approval_granted_only_by_actor:
  assumes "runtime_ok now db" and "a \<in> set (db_approvals db)" "ap_state a = ''pending''"
    and "b \<in> set (db_approvals (rt_step now op db))" "ap_approval_id b = ap_approval_id a"
      "ap_state b = ''approved''"
  shows "\<exists>c oid e ack. op = OpDecideApproval c oid e (ap_approval_id a) (ap_actor_id a) ''approved'' ack \<and>
    ev_tenant_key e = ap_tenant_key a \<and> ev_app_id e = ap_app_id a \<and> now < ap_expires_at_ms a \<and>
    b = a\<lparr>ap_state := ''approved'', ap_decided_at_ms := Some now\<rparr>"
proof -
  have d: "distinct (map ap_approval_id (db_approvals db))"
    using runtime_okD(6) [OF assms(1)] by (simp add: approvals_ok_def)
  have old: "b \<notin> set (db_approvals db)"
    using key_unique [OF d _ assms(2) assms(5)] assms(3,6) by auto
  show ?thesis
  proof (cases rule: step_approval_cases [of now op db])
    case same
    with old assms(4) show ?thesis by simp
  next
    case (new q)
    with old assms(4,6) show ?thesis by (auto simp: new_approval_def)
  next
    case (expired i)
    with settles_mem [of b i "''expired''" now "db_approvals db"] old assms(4,6) show ?thesis by auto
  next
    case (decided c oid e i actor dd ack x)
    from settles_mem [of b i dd now "db_approvals db"] old assms(4) decided(5) obtain y where
      y: "y \<in> set (db_approvals db)" "ap_approval_id y = i" "b = y\<lparr>ap_state := dd, ap_decided_at_ms := Some now\<rparr>"
      by auto
    have "y = a" using key_unique [OF d y(1) assms(2)] y(3) assms(5) by simp
    moreover have "x = a"
      using find_approval_Some [OF decided(2)] y(2) \<open>y = a\<close> key_unique [OF d _ assms(2)] by simp
    moreover have "dd = ''approved''" using y(3) assms(6) by simp
    ultimately show ?thesis using decided y by (auto simp: authorized_def)
  qed
qed

text \<open>
  A decision is final: once an approval is approved, rejected or expired, its row is unchanged
  after any further operations, whatever other decisions, requests or expiries arrive.
\<close>

theorem approval_decision_final:
  assumes "a \<in> set (db_approvals db)" and "ap_state a \<noteq> ''pending''"
  shows "a \<in> set (db_approvals (timed_run rt_step ops db))"
  using assms by (rule run_settled)

section \<open>Claims on external effects\<close>

lemma step_recorded: "recorded k db \<Longrightarrow> recorded k (rt_step now op db)"
proof -
  assume r: "recorded k db"
  have keep: "db_idempotency (rt_step now op db) = db_idempotency db \<Longrightarrow> ?thesis"
    using r by (simp add: recorded_def)
  show ?thesis
  proof (cases op)
    case (OpClaim key kind ow ex)
    with r show ?thesis by (simp add: recorded_claim)
  next
    case (OpComplete key ow ref)
    with r show ?thesis by (simp add: recorded_complete)
  qed (rule keep, simp add: frame)+
qed

lemma run_recorded: "recorded k db \<Longrightarrow> recorded k (timed_run rt_step ops db)"
proof (induction ops arbitrary: db)
  case (Cons x ops)
  then show ?case by (cases x) (simp add: step_recorded)
qed simp

lemma step_completed:
  assumes "claims_ok db" "completed_with k ref db"
  shows "completed_with k ref (rt_step now op db)"
proof -
  have keep: "db_idempotency (rt_step now op db) = db_idempotency db \<Longrightarrow> ?thesis"
    using assms(2) by (simp add: completed_with_def)
  show ?thesis
  proof (cases op)
    case (OpClaim key kind ow ex)
    with assms show ?thesis by (simp add: completed_claim)
  next
    case (OpComplete key ow r)
    with assms show ?thesis by (simp add: completed_complete)
  qed (rule keep, simp add: frame)+
qed

text \<open>
  C3. An effect is claimed fresh at most once: after any claim of a key, whatever operations of the running
  process follow (other claims, completions, expiries), a later claim of the same key that is granted always
  demands recovery, so a caller may execute an effect without checking for an earlier attempt only
  on the first claim.
\<close>

theorem effect_claimed_fresh_once:
  assumes "claim_idempotency k kind ow ex now db = (Inr cl, db1)"
    and "claim_idempotency k kind' ow' ex' now' (timed_run rt_step ops db1) = (Inr cl', db2)"
    and "cl_acquired cl'"
  shows "cl_recovery_required cl'"
proof (rule ccontr)
  assume "\<not> cl_recovery_required cl'"
  then have "\<not> recorded k (timed_run rt_step ops db1)" by (rule fresh_claim [OF assms(2,3)])
  moreover have "recorded k db1" using claim_records [of k kind ow ex now db] assms(1) by simp
  ultimately show False using run_recorded by blast
qed

text \<open>
  A completed effect stays completed: after \<open>complete_idempotency\<close> has returned, every later
  claim of the key, after any further operations, is refused with the recorded result.
\<close>

theorem completed_effect_returns_result:
  assumes "runtime_ok now db" and "complete_idempotency k ow ref now db = (Inr (), db1)"
    and "timely rt_legal now ops"
  shows "fst (claim_idempotency k kind' ow' ex' now' (timed_run rt_step ops db1)) =
    Inr \<lparr>cl_acquired = False, cl_state = ''completed'', cl_result_ref = Some ref, cl_recovery_required = False\<rparr>"
proof -
  have "runtime_ok now (rt_step now (OpComplete k ow ref) db)"
    by (rule runtime.step_at [OF assms(1)]) simp
  then have ok1: "runtime_ok now db1" using assms(2) by simp
  have "completed_with k ref (timed_run rt_step ops db1)"
    by (rule runtime.run_keeps [where P = "completed_with k ref", OF ok1 assms(3) complete_completes [OF assms(2)]])
      (rule step_completed [OF runtime_okD(5)])
  moreover have "claims_ok (timed_run rt_step ops db1)"
    by (rule runtime_okD(5) [OF runtime.run_inv [OF ok1 assms(3)]])
  ultimately show ?thesis by (simp add: completed_claim_result)
qed

end
