(* ===== verification/RunOutcomes.thy ===== *)
theory RunOutcomes
  imports RuntimeSystem
begin

text \<open>
  What the session store guarantees about a run: its checkpoint and its outcome read back as they
  were written, the outcome is written once, and never claims completion while a control waits.
\<close>

section \<open>Checkpoints\<close>

lemma session_decrypt_encrypt [simp]:
  "opens_sealed c \<Longrightarrow> session_decrypt c (encrypt_json c v aad) aad = Inr v"
  by (simp add: session_decrypt_def)

text \<open>
  C19. A checkpoint reads back exactly as it was saved: messages with their tool calls, verified
  effects, versions, budgets, control identifiers, policy and schema fingerprint, whether it was the
  first checkpoint of the run or replaced another one.
\<close>

theorem checkpoint_roundtrip:
  assumes "opens_sealed c" and "save_checkpoint c k now db = (Inr (), db')"
  shows "load_checkpoint c (ck_run_id k) db' = Inr (Some k)"
proof -
  obtain row where "find (\<lambda>p. cp_run_id p = ck_run_id k) (db_checkpoints db') = Some row"
    "cp_payload row = encrypt_json c (checkpoint_dict k) (checkpoint_aad (ck_run_id k))"
    using saved_checkpoint_row [OF assms(2)] by blast
  then show ?thesis using assms(1) by (auto simp: load_checkpoint_def checkpoint_from_dict_dict)
qed

section \<open>Outcomes\<close>

text \<open>The run has this outcome: its one terminal event, under its own number.\<close>

definition has_outcome :: "'b cipher \<Rightarrow> string \<Rightarrow> agent_outcome \<Rightarrow> 'b rt_db \<Rightarrow> bool" where
  "has_outcome c i outcome db \<longleftrightarrow> (\<exists>e. terminal_rows i db = [e] \<and>
     rv_payload e = encrypt_json c (outcome_payload outcome) (run_event_aad i (rv_sequence e)))"

lemma has_outcome_load:
  assumes "opens_sealed c" "oc_status outcome \<noteq> RUNNING" "has_outcome c i outcome db"
  shows "load_outcome c i db = Inr (Some outcome)"
proof -
  obtain e where e: "terminal_rows i db = [e]"
    "rv_payload e = encrypt_json c (outcome_payload outcome) (run_event_aad i (rv_sequence e))"
    using assms(3) by (auto simp: has_outcome_def)
  with assms(1,2) show ?thesis
    by (simp add: load_outcome_def first_by_def outcome_of_payload_payload)
qed

lemma has_outcome_terminal:
  assumes "sessions_ok db" "has_outcome c i outcome db"
  shows "\<exists>r. find_run i db = Some r \<and> rn_status r \<noteq> RUNNING"
  using assms by (auto simp: has_outcome_def sessions_ok_def run_ok_def)

lemma try_finish_Inr:
  assumes "try_finish_with_outcome c i outcome applied now db = (Inr b, db')"
  shows "try_finish_tx c i outcome applied now db = Inr (b, db')"
    "oc_status outcome \<noteq> RUNNING" "oc_status outcome \<noteq> WAITING"
  using assms by (auto simp: try_finish_with_outcome_def raise_def dest: transaction_InrD split: if_splits)

lemma try_finish_outcome:
  assumes "sessions_ok db" "try_finish_with_outcome c i outcome applied now db = (Inr True, db')"
  shows "has_outcome c i outcome db'"
  using try_finish_Inr(1) [OF assms(2)]
proof (cases rule: try_finish_tx_cases)
  case (1 run db1)
  have "session_view db1 = session_view db" using 1(3) by simp
  then obtain db2 where v2: "session_view db2 = session_view db"
    and db': "db' = set_run_status i (oc_status outcome) now
      (insert_run_event c i ''run_terminal'' (outcome_payload outcome) now db2)"
    using 1(5) view_supersede [of "rn_task_id run" now db1] by metis
  have "terminal_rows i db2 = []"
    using assms(1) 1(1,2) session_view_cong(3) [OF v2] by (auto simp: sessions_ok_def run_ok_def)
  then show ?thesis unfolding db' has_outcome_def by (simp add: terminal_rows_insert)
qed

lemma has_outcome_cong: "terminal_rows i db' = terminal_rows i db \<Longrightarrow> has_outcome c i oc db' = has_outcome c i oc db"
  by (simp add: has_outcome_def)

lemma append_terminal_rows:
  assumes "ty \<noteq> ''run_terminal''"
  shows "terminal_rows j (snd (append_event c i ty p now db)) = terminal_rows j db"
  unfolding append_event_def
  by (rule keeps_tx) (use assms in \<open>auto simp: append_event_tx_def terminal_rows_insert split: if_splits\<close>)

lemma finish_again_refused:
  assumes "find_run i db = Some r" "rn_status r \<noteq> RUNNING" "oc_status oc \<noteq> RUNNING" "oc_status oc \<noteq> WAITING"
  shows "try_finish_with_outcome c i oc ids now db = (Inl (ValueError ''run is already terminal''), db)"
  using assms by (simp add: try_finish_with_outcome_def try_finish_tx_def)

lemma try_finish_terminal_rows:
  assumes "find_run j db = Some r" "rn_status r \<noteq> RUNNING"
  shows "terminal_rows j (snd (try_finish_with_outcome c i oc ids now db)) = terminal_rows j db"
proof (cases "oc_status oc = RUNNING \<or> oc_status oc = WAITING")
  case False
  have "terminal_rows j (snd (transaction (try_finish_tx c i oc ids now) db)) = terminal_rows j db"
  proof (rule keeps_tx)
    fix b t assume "try_finish_tx c i oc ids now db = Inr (b, t)"
    then show "terminal_rows j t = terminal_rows j db"
    proof (cases rule: try_finish_tx_cases)
      case (1 run db1)
      have ne: "j \<noteq> i" using 1(1,2) assms by auto
      have v1: "session_view db1 = session_view db" using 1(3) by simp
      show ?thesis
      proof (cases b)
        case False
        with 1(4) session_view_cong(3) [OF v1] show ?thesis by simp
      next
        case True
        then obtain db2 where v2: "session_view db2 = session_view db"
          and t: "t = set_run_status i (oc_status oc) now
            (insert_run_event c i ''run_terminal'' (outcome_payload oc) now db2)"
          using 1(5) v1 view_supersede [of "rn_task_id run" now db1] by metis
        with ne session_view_cong(3) [OF v2] show ?thesis by (simp add: terminal_rows_insert)
      qed
    qed
  qed
  with False show ?thesis by (simp add: try_finish_with_outcome_def)
qed (auto simp: try_finish_with_outcome_def raise_def)

lemma step_outcome:
  assumes ok: "sessions_ok db" and leg: "rt_legal op" and out: "has_outcome c i outcome db"
  shows "has_outcome c i outcome (rt_step now op db)"
proof -
  have keep: "terminal_rows i (rt_step now op db) = terminal_rows i db \<Longrightarrow> ?thesis"
    using out has_outcome_cong by metis
  have view: "session_view (rt_step now op db) = session_view db \<Longrightarrow> ?thesis"
    using keep session_view_cong(3) by metis
  have events: "db_run_events (rt_step now op db) = db_run_events db \<Longrightarrow> ?thesis"
    by (rule keep) (simp add: terminal_rows_def run_events_def)
  show ?thesis
  proof (cases op)
    case (OpStartRun j task s a v p tr)
    have "db_run_events (snd (start_run j task s a v p now tr db)) = db_run_events db"
      unfolding start_run_def by (rule keeps_tx) (auto simp: start_run_tx_def split: if_splits)
    with OpStartRun show ?thesis by (intro events) simp
  next
    case (OpAppendEvent c' j ty p)
    with leg show ?thesis by (intro keep) (simp add: append_terminal_rows)
  next
    case (OpSaveCheckpoint c' k)
    have "db_run_events (snd (save_checkpoint c' k now db)) = db_run_events db"
      unfolding save_checkpoint_def by (rule keeps_tx) (rule save_checkpoint_tx_cases(2))
    with OpSaveCheckpoint show ?thesis by (intro events) simp
  next
    case (OpDiscardCheckpoint j)
    then show ?thesis by (intro events) (simp add: discard_checkpoint_def transaction_def)
  next
    case (OpFinishRun j st)
    then show ?thesis
      by (intro events) (simp add: finish_run_def transaction_def raise_def set_run_status_def)
  next
    case (OpTryFinish c' j oc ids)
    with has_outcome_terminal [OF ok out] show ?thesis
      by (intro keep) (auto simp: try_finish_terminal_rows)
  qed (rule view, simp add: frame)+
qed

text \<open>Only the bare \<open>finish_run\<close> still touches the row of a run that has ended.\<close>

lemma transaction_find_run:
  assumes "\<And>a db'. f db = Inr (a, db') \<Longrightarrow> find_run i db' = find_run i db"
  shows "find_run i (snd (transaction f db)) = find_run i db"
  using assms by (cases "f db") (auto simp: transaction_def)

lemma step_status:
  assumes run: "find_run i db = Some r" "rn_status r \<noteq> RUNNING" and op: "\<And>st. op \<noteq> OpFinishRun i st"
  shows "run_status_of_run i (rt_step now op db) = run_status_of_run i db"
proof -
  have keep: "find_run i (rt_step now op db) = find_run i db \<Longrightarrow> ?thesis" by (simp add: run_status_of_run_def)
  have view: "session_view (rt_step now op db) = session_view db \<Longrightarrow> ?thesis" using keep session_view_cong(1) by metis
  show ?thesis
  proof (cases op)
    case (OpStartRun j task s a v p tr)
    have "find_run i (snd (start_run j task s a v p now tr db)) = find_run i db"
      unfolding start_run_def
      by (rule transaction_find_run) (use run in \<open>auto simp: start_run_tx_def find_run_def find_snoc split: if_splits\<close>)
    with OpStartRun show ?thesis by (intro keep) simp
  next
    case (OpAppendEvent c' j ty p)
    have "find_run i (snd (append_event c' j ty p now db)) = find_run i db"
      unfolding append_event_def
      by (rule transaction_find_run) (auto simp: append_event_tx_def find_run_def insert_run_event_def Let_def split: if_splits)
    with OpAppendEvent show ?thesis by (intro keep) simp
  next
    case (OpSaveCheckpoint c' k)
    have "find_run i (snd (save_checkpoint c' k now db)) = find_run i db"
      unfolding save_checkpoint_def by (rule transaction_find_run) (simp add: find_run_def save_checkpoint_tx_cases(1))
    with OpSaveCheckpoint show ?thesis by (intro keep) simp
  next
    case (OpDiscardCheckpoint j)
    then show ?thesis by (intro keep) (simp add: discard_checkpoint_def transaction_def find_run_def)
  next
    case (OpFinishRun j st)
    with op have "j \<noteq> i" by auto
    then have "find_run i (set_run_status j st now db) = find_run i db" using run by (simp add: find_run_set_status)
    with OpFinishRun show ?thesis by (intro keep) (auto simp: finish_run_def transaction_def raise_def)
  next
    case (OpTryFinish c' j oc ids)
    have "find_run i (snd (transaction (try_finish_tx c' j oc ids now) db)) = find_run i db"
    proof (rule transaction_find_run)
      fix b t assume "try_finish_tx c' j oc ids now db = Inr (b, t)"
      then show "find_run i t = find_run i db"
      proof (cases rule: try_finish_tx_cases)
        case (1 r1 db1)
        have ne: "i \<noteq> j" using 1(1,2) run by auto
        have v1: "session_view db1 = session_view db" using 1(3) by simp
        show ?thesis
        proof (cases b)
          case False
          with 1(4) session_view_cong(1) [OF v1] show ?thesis by simp
        next
          case True
          then obtain db2 where v2: "session_view db2 = session_view db"
            and t: "t = set_run_status j (oc_status oc) now (insert_run_event c' j ''run_terminal'' (outcome_payload oc) now db2)"
            using 1(5) v1 view_supersede [of "rn_task_id r1" now db1] by metis
          with ne session_view_cong(1) [OF v2] show ?thesis
            by (simp add: find_run_set_status split: option.splits)
        qed
      qed
    qed
    with OpTryFinish show ?thesis by (intro keep) (simp add: try_finish_with_outcome_def raise_def)
  qed (rule view, simp add: frame)+
qed

lemma run_status_kept:
  assumes "find_run i db = Some r" "rn_status r \<noteq> RUNNING" "list_all (\<lambda>x. \<forall>st. snd x \<noteq> OpFinishRun i st) ops"
  shows "run_status_of_run i (timed_run rt_step ops db) = Some (rn_status r)"
  using assms
proof (induction ops arbitrary: db r)
  case Nil
  then show ?case by (simp add: run_status_of_run_def)
next
  case (Cons x ops)
  obtain now op where x: "x = (now, op)" by (cases x)
  have "run_status_of_run i (rt_step now op db) = Some (rn_status r)"
    using step_status [OF Cons.prems(1,2), of op now] Cons.prems(1,3) x by (auto simp: run_status_of_run_def)
  then obtain r' where "find_run i (rt_step now op db) = Some r'" "rn_status r' = rn_status r"
    by (auto simp: run_status_of_run_def split: option.splits)
  with Cons.IH [OF this(1)] Cons.prems(2,3) x show ?case by simp
qed

text \<open>
  C19. A run has one outcome: once \<open>try_finish_with_outcome\<close> has answered true, then after any further operations of the
  runtime, each at a time that is not earlier, \<open>load_outcome\<close> answers that outcome, and every other call of
  \<open>try_finish_with_outcome\<close> with a terminal status is refused and changes nothing. The status of the run stays the one of
  the outcome unless a bare \<open>finish_run\<close> of this run overwrites it: that operation looks at no status.
\<close>

theorem outcome_is_final:
  assumes "runtime_ok now db" and "opens_sealed c"
    and "try_finish_with_outcome c i outcome applied now db = (Inr True, db1)"
    and "timely rt_legal now ops"
    and "oc_status other \<noteq> RUNNING" "oc_status other \<noteq> WAITING"
  shows "load_outcome c i (timed_run rt_step ops db1) = Inr (Some outcome) \<and>
    try_finish_with_outcome c i other ids later (timed_run rt_step ops db1) =
      (Inl (ValueError ''run is already terminal''), timed_run rt_step ops db1) \<and>
    (list_all (\<lambda>x. \<forall>st. snd x \<noteq> OpFinishRun i st) ops \<longrightarrow>
      run_status_of_run i (timed_run rt_step ops db1) = Some (oc_status outcome))"
proof -
  let ?db = "timed_run rt_step ops db1"
  have "runtime_ok now (rt_step now (OpTryFinish c i outcome applied) db)"
    by (rule runtime.step_at [OF assms(1)]) simp
  then have ok1: "runtime_ok now db1" using assms(3) by simp
  have "has_outcome c i outcome db1" by (rule try_finish_outcome [OF runtime_okD(7) [OF assms(1)] assms(3)])
  then have out: "has_outcome c i outcome ?db"
    by (rule runtime.run_keeps [where P = "has_outcome c i outcome", OF ok1 assms(4)])
      (rule step_outcome [OF runtime_okD(7)])
  have "sessions_ok ?db" by (rule runtime_okD(7) [OF runtime.run_inv [OF ok1 assms(4)]])
  then obtain r where "find_run i ?db = Some r" "rn_status r \<noteq> RUNNING" using has_outcome_terminal [OF _ out] by blast
  note refused = finish_again_refused [OF this assms(5,6)]
  have "\<exists>r. find_run i db1 = Some r \<and> rn_status r = oc_status outcome"
    using try_finish_Inr(1) [OF assms(3)]
  proof (cases rule: try_finish_tx_cases)
    case (1 run dba)
    have "session_view dba = session_view db" using 1(3) by simp
    then obtain dbb where v: "session_view dbb = session_view db"
      and d: "db1 = set_run_status i (oc_status outcome) now (insert_run_event c i ''run_terminal'' (outcome_payload outcome) now dbb)"
      using 1(5) view_supersede [of "rn_task_id run" now dba] by metis
    from 1(1) session_view_cong(1) [OF v] show ?thesis unfolding d by (simp add: find_run_set_status)
  qed
  then obtain r1 where r1: "find_run i db1 = Some r1" "rn_status r1 = oc_status outcome" by blast
  have "rn_status r1 \<noteq> RUNNING" using r1(2) try_finish_Inr(2) [OF assms(3)] by simp
  note status = run_status_kept [OF r1(1) this, of ops]
  from refused status r1(2) has_outcome_load [OF assms(2) try_finish_Inr(2) [OF assms(3)] out] show ?thesis by simp
qed


section \<open>Controls\<close>

lemma supersede_none: "\<not> list_ex (pending_control t) (db_controls (supersede_controls t now db))"
proof -
  have "\<not> pending_control t (if pending_control t x
      then x\<lparr>rc_state := ''superseded'', rc_applied_at_ms := Some now\<rparr> else x)" for x :: "'a control_row"
    by (cases "pending_control t x") (simp_all add: pending_control_def)
  then have "\<not> (\<exists>x \<in> set (update_where (pending_control t)
      (\<lambda>x. x\<lparr>rc_state := ''superseded'', rc_applied_at_ms := Some now\<rparr>) (db_controls db)). pending_control t x)"
    unfolding bex_update_where by blast
  then show ?thesis by (simp add: supersede_controls_def list_ex_iff)
qed

lemma applied_pending:
  "list_ex (pending_control t) (db_controls (apply_controls t ids now db)) \<longleftrightarrow>
    (\<exists>x \<in> set (db_controls db). pending_control t x \<and> rc_control_id x \<notin> set ids)"
proof -
  have "pending_control t (if rc_target_task_id x = t \<and> rc_state x = ''pending'' \<and> List.member ids (rc_control_id x)
      then x\<lparr>rc_state := ''applied'', rc_applied_at_ms := Some now\<rparr> else x) \<longleftrightarrow> pending_control t x \<and> rc_control_id x \<notin> set ids"
    for x :: "'a control_row" by (auto simp: pending_control_def)
  then show ?thesis by (simp add: list_ex_iff apply_controls_def bex_update_where)
qed


section \<open>Journals\<close>

text \<open>
  Journals have no gaps: in every reachable state the events of a run are numbered 1, 2, 3 and so
  on in the order they were appended, and at most one of them is the terminal one.
\<close>

theorem journal_numbered_without_gaps:
  assumes "timely rt_legal t0 ops"
  shows "map rv_sequence (run_events i (timed_run rt_step ops empty_db)) =
      map int [1..<Suc (length (run_events i (timed_run rt_step ops empty_db)))] \<and>
    length (terminal_rows i (timed_run rt_step ops empty_db)) \<le> 1"
proof -
  have "run_ok i (timed_run rt_step ops empty_db)"
    using runtime_okD(7) [OF runtime_reachable [OF assms]] by (simp add: sessions_ok_def)
  then show ?thesis by (auto simp: run_ok_def numbered_def)
qed

end
