(* ===== verification/TaskWorker.thy ===== *)
theory TaskWorker
  imports TaskStore "HOL-Library.Multiset"
begin

text \<open>
  The durable task worker of \<open>runtime/tasks.py\<close>, a client of the lease contract: it leases a batch,
  runs the handlers concurrently and gives every task back as finished, for a retry or deferred.
  Handlers are functions on a world of their own; the clock is read from that world; the order in
  which concurrent handlers complete is a parameter.
\<close>

record task_execution_result =
  xr_state :: task_state
  xr_terminal_message :: "outbox_draft option"
  xr_error_code :: "string option"

definition check_execution_result :: "task_execution_result \<Rightarrow> exn + task_execution_result" where
  "check_execution_result r = (if task_terminal (xr_state r) then Inr r
     else Inl (ValueError ''task execution result must be terminal''))"

text \<open>\<open>TaskDeferred.__init__\<close>\<close>

definition make_task_deferred :: "string \<Rightarrow> int \<Rightarrow> exn + exn" where
  "make_task_deferred reason delay_ms = (if reason = [] \<or> delay_ms < 0
     then Inl (ValueError ''task deferral is invalid'') else Inr (TaskDeferred reason delay_ms))"

record 'w task_handler =
  th_execute :: "leased_task \<Rightarrow> int \<Rightarrow> 'w \<Rightarrow> (exn + task_execution_result) \<times> 'w"
  th_failure :: "leased_task \<Rightarrow> exn \<Rightarrow> task_execution_result"

record 'w task_worker =
  wk_handlers :: "string \<rightharpoonup> 'w task_handler"
  wk_worker_id :: string
  wk_lease_ms :: int
  wk_retry_delay_ms :: int
  wk_concurrency :: int
  wk_clock_ms :: "'w \<Rightarrow> int"
  wk_limits :: "task_concurrency_limits option"

definition check_task_worker :: "'w task_worker \<Rightarrow> exn + 'w task_worker" where
  "check_task_worker k = (if wk_worker_id k = [] \<or> min (wk_lease_ms k) (wk_concurrency k) < 1 \<or>
       wk_retry_delay_ms k < 0
     then Inl (ValueError ''task worker configuration is invalid'') else Inr k)"

text \<open>The \<open>try\<close> block of \<open>_execute\<close>.\<close>

definition run_handler ::
  "'w task_worker \<Rightarrow> int \<Rightarrow> leased_task \<Rightarrow> 'w \<Rightarrow> (exn + task_execution_result) \<times> 'w" where
  "run_handler k now t world =
     (case wk_handlers k (lt_command_type t) of
        None \<Rightarrow> (Inl (RuntimeError (''task handler is unavailable: '' @ lt_command_type t)), world)
      | Some h \<Rightarrow>
          (case lt_recovery_error_code t of
             Some code \<Rightarrow> (Inl (PermanentTaskError code), world)
           | None \<Rightarrow> th_execute h t now world))"

fun is_permanent :: "exn \<Rightarrow> bool" where
  "is_permanent (PermanentTaskError _) = True"
| "is_permanent _ = False"

definition finish_act :: "'b cipher \<Rightarrow> string \<Rightarrow> int \<Rightarrow> task_execution_result \<Rightarrow> 'b task_act" where
  "finish_act c outbox_id transition_ms r =
     ActFinish c outbox_id (xr_state r) transition_ms (xr_error_code r) (xr_terminal_message r)"

text \<open>
  The \<open>except\<close> clauses and the final call: which store operation ends the lease, and what the caller
  gets when it succeeds. \<open>True\<close> marks a task that will run again.
\<close>

definition worker_act ::
  "'b cipher \<Rightarrow> 'w task_worker \<Rightarrow> string \<Rightarrow> int \<Rightarrow> leased_task \<Rightarrow> exn + task_execution_result \<Rightarrow>
     'b task_act \<times> (exn + string \<times> bool)" where
  "worker_act c k outbox_id transition_ms t r =
     (case r of
        Inr res \<Rightarrow> (finish_act c outbox_id transition_ms res, Inr (lt_task_id t, False))
      | Inl e \<Rightarrow>
          (if is_cancelled_error e
           then (ActDefer transition_ms transition_ms ''shutdown_cancelled'', Inl e)
           else case e of
             TaskDeferred reason delay_ms \<Rightarrow>
               (ActDefer (transition_ms + delay_ms) transition_ms reason, Inr (lt_task_id t, True))
           | _ \<Rightarrow>
               (if \<not> is_permanent e \<and> lt_attempt_count t < lt_max_attempts t
                then (ActRetryTask (transition_ms + wk_retry_delay_ms k) transition_ms (exn_name e),
                      Inr (lt_task_id t, True))
                else (finish_act c outbox_id transition_ms
                        (case wk_handlers k (lt_command_type t) of
                           Some h \<Rightarrow> th_failure h t e
                         | None \<Rightarrow> \<lparr>xr_state = TaskFailed, xr_terminal_message = None,
                                    xr_error_code = Some ''handler_unavailable''\<rparr>),
                      Inr (lt_task_id t, False)))))"

definition execute_task ::
  "'b cipher \<Rightarrow> 'w task_worker \<Rightarrow> (string \<Rightarrow> string) \<Rightarrow> int \<Rightarrow> leased_task \<Rightarrow> 'b rt_db \<Rightarrow> 'w \<Rightarrow>
     (exn + string \<times> bool) \<times> 'b rt_db \<times> 'w" where
  "execute_task c k fresh now t db world =
     (case run_handler k now t world of
        (r, world') \<Rightarrow>
          (case worker_act c k (fresh (lt_task_id t)) (max now (wk_clock_ms k world')) t r of
             (act, reply) \<Rightarrow>
               (case task_give_back act (wk_worker_id k) (lt_task_id t) db of
                  (Inl e, db') \<Rightarrow> (Inl e, db', world')
                | (Inr _, db') \<Rightarrow> (reply, db', world'))))"

text \<open>The gathered executions, in the order in which they complete; every one runs.\<close>

fun execute_all ::
  "'b cipher \<Rightarrow> 'w task_worker \<Rightarrow> (string \<Rightarrow> string) \<Rightarrow> int \<Rightarrow> leased_task list \<Rightarrow> 'b rt_db \<Rightarrow> 'w \<Rightarrow>
     (exn + string \<times> bool) list \<times> 'b rt_db \<times> 'w" where
  "execute_all c k fresh now [] db world = ([], db, world)"
| "execute_all c k fresh now (t # ts) db world =
     (case execute_task c k fresh now t db world of
        (r, db1, world1) \<Rightarrow>
          (case execute_all c k fresh now ts db1 world1 of
             (rs, db2, world2) \<Rightarrow> (r # rs, db2, world2)))"

record task_batch =
  tb_terminal_task_ids :: "string list"
  tb_retry_task_ids :: "string list"

text \<open>\<open>order\<close> is the order in which the gathered executions complete.\<close>

definition batch_of :: "leased_task list \<Rightarrow> (string \<times> bool) list \<Rightarrow> task_batch" where
  "batch_of ts rs = (let retrying = (\<lambda>t. map_of rs (lt_task_id t) = Some True)
     in \<lparr>tb_terminal_task_ids = map lt_task_id (filter (\<lambda>t. \<not> retrying t) ts),
         tb_retry_task_ids = map lt_task_id (filter retrying ts)\<rparr>)"

definition worker_run_once ::
  "'b cipher \<Rightarrow> 'w task_worker \<Rightarrow> (string \<Rightarrow> string) \<Rightarrow> (leased_task list \<Rightarrow> leased_task list) \<Rightarrow> int \<Rightarrow>
     'b rt_db \<Rightarrow> 'w \<Rightarrow> (exn + task_batch) \<times> 'b rt_db \<times> 'w" where
  "worker_run_once c k fresh order now db world =
     (case lease_tasks c (wk_worker_id k) now (wk_lease_ms k) (wk_concurrency k) (wk_limits k) db of
        (Inl e, db1) \<Rightarrow> (Inl e, db1, world)
      | (Inr ts, db1) \<Rightarrow>
          (case execute_all c k fresh now (order ts) db1 world of
             (rs, db2, world2) \<Rightarrow>
               (case first_error rs of
                  Some e \<Rightarrow> (Inl e, db2, world2)
                | None \<Rightarrow> (Inr (batch_of ts (results rs)), db2, world2))))"

section \<open>Well-behaved handlers\<close>

text \<open>What the constructors enforce: results are terminal, a deferral has a reason.\<close>

fun proper_deferral :: "exn \<Rightarrow> bool" where
  "proper_deferral (TaskDeferred reason delay_ms) = (reason \<noteq> [] \<and> 0 \<le> delay_ms)"
| "proper_deferral _ = True"

definition proper_handler :: "'w task_handler \<Rightarrow> bool" where
  "proper_handler h \<longleftrightarrow>
     (\<forall>t now w. case fst (th_execute h t now w) of
        Inl e \<Rightarrow> proper_deferral e | Inr r \<Rightarrow> task_terminal (xr_state r)) \<and>
     (\<forall>t e. task_terminal (xr_state (th_failure h t e)))"

definition proper_worker :: "'w task_worker \<Rightarrow> bool" where
  "proper_worker k \<longleftrightarrow> (\<forall>ty h. wk_handlers k ty = Some h \<longrightarrow> proper_handler h)"

lemma run_handler_proper:
  assumes "proper_worker k" "run_handler k now t world = (r, world')"
  shows "case r of Inl e \<Rightarrow> proper_deferral e | Inr x \<Rightarrow> task_terminal (xr_state x)"
proof (cases "wk_handlers k (lt_command_type t)")
  case None
  with assms(2) show ?thesis by (auto simp: run_handler_def)
next
  case (Some h)
  have ph: "case fst (th_execute h t now world) of
      Inl e \<Rightarrow> proper_deferral e | Inr x \<Rightarrow> task_terminal (xr_state x)"
    using assms(1) Some unfolding proper_worker_def proper_handler_def by blast
  show ?thesis
  proof (cases "lt_recovery_error_code t")
    case None
    then have "th_execute h t now world = (r, world')" using assms(2) Some by (simp add: run_handler_def)
    with ph show ?thesis by simp
  next
    case (Some code)
    with assms(2) \<open>wk_handlers k (lt_command_type t) = Some h\<close> show ?thesis by (auto simp: run_handler_def)
  qed
qed

lemma worker_act_valid:
  assumes "proper_worker k" "case r of Inl e \<Rightarrow> proper_deferral e | Inr x \<Rightarrow> task_terminal (xr_state x)"
  shows "valid_act (fst (worker_act c k oid tr t r))"
proof (cases r)
  case (Inr x)
  with assms(2) show ?thesis by (simp add: worker_act_def finish_act_def)
next
  case (Inl e)
  have fail: "task_terminal (xr_state (th_failure h t e))" if "wk_handlers k (lt_command_type t) = Some h" for h
    using assms(1) that by (auto simp: proper_worker_def proper_handler_def)
  from Inl assms(2) fail show ?thesis
    by (cases e) (auto simp: worker_act_def finish_act_def split: option.splits)
qed

text \<open>A task leased for recovery is not run: its handler only reports the failure.\<close>

lemma recovery_act:
  assumes "lt_recovery_error_code t = Some code" "wk_handlers k (lt_command_type t) = Some h"
  shows "run_handler k now t world = (Inl (PermanentTaskError code), world)"
    "worker_act c k oid tr t (Inl (PermanentTaskError code)) =
      (finish_act c oid tr (th_failure h t (PermanentTaskError code)), Inr (lt_task_id t, False))"
  using assms by (simp_all add: run_handler_def worker_act_def)

section \<open>A batch is settled\<close>

text \<open>Each reply tells what was done with the task.\<close>

fun is_finish :: "'b task_act \<Rightarrow> bool" where
  "is_finish (ActFinish _ _ _ _ _ _) = True"
| "is_finish _ = False"

definition reply_ok :: "'b task_act \<times> string \<Rightarrow> exn + string \<times> bool \<Rightarrow> bool" where
  "reply_ok ai r = (case r of Inl e \<Rightarrow> is_cancelled_error e
     | Inr (j, retrying) \<Rightarrow> j = snd ai \<and> (retrying \<longleftrightarrow> \<not> is_finish (fst ai)))"

lemma worker_act_reply: "reply_ok (fst (worker_act c k oid tr t r), lt_task_id t) (snd (worker_act c k oid tr t r))"
proof (cases r)
  case (Inr x)
  then show ?thesis by (simp add: worker_act_def reply_ok_def finish_act_def)
next
  case (Inl e)
  then show ?thesis
    by (cases e) (auto simp: worker_act_def reply_ok_def finish_act_def split: option.splits)
qed

lemma execute_all_settles:
  assumes "proper_worker k"
  shows "\<exists>acts. map snd acts = map lt_task_id ts \<and> (\<forall>(a, i) \<in> set acts. valid_act a) \<and>
    (\<forall>db'. settle task_give_back (wk_worker_id k) acts db = (Inr (), db') \<longrightarrow>
      (\<exists>rs world'. execute_all c k fresh now ts db world = (rs, db', world') \<and> list_all2 reply_ok acts rs))"
proof (induction ts arbitrary: db world)
  case Nil
  show ?case by (intro exI [of _ "[]"]) simp
next
  case (Cons t ts)
  obtain r world1 where h: "run_handler k now t world = (r, world1)" by fastforce
  obtain a reply where wa: "worker_act c k (fresh (lt_task_id t)) (max now (wk_clock_ms k world1)) t r = (a, reply)"
    by fastforce
  have v: "valid_act a" using worker_act_valid [OF assms run_handler_proper [OF assms h]] wa by (metis fst_conv)
  have ok: "reply_ok (a, lt_task_id t) reply" using worker_act_reply wa by (metis fst_conv snd_conv)
  obtain g db1 where g: "task_give_back a (wk_worker_id k) (lt_task_id t) db = (g, db1)" by fastforce
  from Cons.IH [of db1 world1] obtain acts where acts: "map snd acts = map lt_task_id ts"
    "\<forall>(a, i) \<in> set acts. valid_act a"
    and loop: "\<And>db'. settle task_give_back (wk_worker_id k) acts db1 = (Inr (), db') \<Longrightarrow>
      \<exists>rs world'. execute_all c k fresh now ts db1 world1 = (rs, db', world') \<and> list_all2 reply_ok acts rs"
    by blast
  show ?case
  proof (intro exI [of _ "(a, lt_task_id t) # acts"] conjI allI impI)
    show "map snd ((a, lt_task_id t) # acts) = map lt_task_id (t # ts)" using acts by simp
    show "\<forall>(a, i) \<in> set ((a, lt_task_id t) # acts). valid_act a" using acts v by simp
    fix db' assume s: "settle task_give_back (wk_worker_id k) ((a, lt_task_id t) # acts) db = (Inr (), db')"
    then obtain g' where g': "g = Inr g'" using g by (cases g) auto
    with s g have "settle task_give_back (wk_worker_id k) acts db1 = (Inr (), db')" by simp
    from loop [OF this] obtain rs world' where "execute_all c k fresh now ts db1 world1 = (rs, db', world')"
      "list_all2 reply_ok acts rs" by blast
    with h wa g g' ok show "\<exists>rs world'. execute_all c k fresh now (t # ts) db world = (rs, db', world') \<and>
        list_all2 reply_ok ((a, lt_task_id t) # acts) rs"
      by (intro exI [of _ "reply # rs"] exI [of _ world']) (simp add: execute_task_def)
  qed
qed

text \<open>The leases that \<open>lease_tasks\<close> hands out, without duplicates.\<close>

lemma lease_tasks_owned:
  assumes ok: "queue_ok now db" and l: "lease_tasks c w now lease limit L db = (Inr ts, db')"
  shows "\<forall>t \<in> set ts. owns_task w (lt_task_id t) db'" and "distinct (map lt_task_id ts)"
proof -
  from lease_tasks_Inr [OF l] obtain ids where
    sel: "select_task_ids w now (now + lease) limit L (reclaim_leases now db) = (Inr (ids, db'))"
    and nil: "ids = [] \<longrightarrow> ts = []"
    and dec: "ids \<noteq> [] \<longrightarrow> decode_all (leased_task_of c db') (leased_rows ids w (db_tasks db')) = Inr ts"
    by (auto elim: lease_tasks_tx_cases)
  note rok = reclaim_queue_ok [OF ok]
  have d: "distinct (map tk_task_id (db_tasks db'))" by (rule select_task_ids_distinct [OF sel rok])
  show "\<forall>t \<in> set ts. owns_task w (lt_task_id t) db'"
  proof
    fix t assume t: "t \<in> set ts"
    with nil dec have "decode_all (leased_task_of c db') (leased_rows ids w (db_tasks db')) = Inr ts" by auto
    from decode_all_set [OF this t] obtain r where r: "r \<in> set (db_tasks db')" "tk_task_id r \<in> set ids"
      "leased_task_of c db' r = Inr t" by (auto simp: leased_rows_def)
    obtain u where u: "u \<in> set (db_tasks db')" "tk_task_id u = tk_task_id r" "leased_to w (now + lease) u"
      using select_task_ids_leases [OF sel queue_okD(1) [OF rok] r(2)] by blast
    then show "owns_task w (lt_task_id t) db'"
      using leased_task_fields(1) [OF r(3)] by (auto simp: owns_task_def task_owned_def leased_to_def)
  qed
  have map: "decode_all (leased_task_of c db') rs = Inr xs \<Longrightarrow> map lt_task_id xs = map tk_task_id rs" for rs xs
    by (induction rs arbitrary: xs) (auto split: sum.splits dest: leased_task_fields(1))
  have "distinct (map tk_task_id (leased_rows ids w (db_tasks db')))"
    using d by (simp add: leased_rows_def distinct_map inj_on_def)
  then show "distinct (map lt_task_id ts)" using nil dec map by (cases "ids = []") auto
qed

lemma replies_map:
  "list_all2 reply_ok acts (map Inr ps) \<Longrightarrow> distinct (map snd acts) \<Longrightarrow> (a, i) \<in> set acts \<Longrightarrow>
   map_of ps i = Some (\<not> is_finish a)"
proof (induction acts arbitrary: ps)
  case (Cons x acts)
  then obtain j rt qs where ps: "ps = (j, rt) # qs" "reply_ok x (Inr (j, rt))" "list_all2 reply_ok acts (map Inr qs)"
    by (auto simp: list_all2_Cons1 map_eq_Cons_conv)
  obtain b where x: "x = (b, j)" using ps(2) by (cases x) (auto simp: reply_ok_def)
  show ?case
  proof (cases "i = j")
    case True
    with Cons.prems(2,3) x have "a = b" by (force simp: image_iff)
    with True ps x show ?thesis by (auto simp: reply_ok_def)
  next
    case False
    with Cons ps x show ?thesis by auto
  qed
qed simp

lemma outcome_state:
  assumes "task_outcome a i db"
  shows "\<exists>u \<in> set (db_tasks db). tk_task_id u = i \<and>
    (if is_finish a then task_terminal (tk_state u) else tk_state u = TaskPending)"
proof -
  obtain u where u: "act_task a u \<in> set (db_tasks db)" "tk_task_id u = i" "valid_act a"
    using assms by (auto simp: task_outcome_def)
  have "if is_finish a then task_terminal (tk_state (act_task a u)) else tk_state (act_task a u) = TaskPending"
    using u(3) by (cases a) (simp_all add: finished_def retried_def deferred_def)
  with u(1,2) act_task_fields(1) [of a u] show ?thesis by metis
qed

text \<open>
  C22. A worker round settles its batch: whatever the handlers do and in whatever order they complete,
  after \<open>run_once\<close> the worker holds none of the leases it took, the queue invariant holds, and the call
  either raises because a handler was cancelled, or returns a batch in which every leased task
  appears once, as terminal or as one to run again, and its row is in the state the batch says.
\<close>

theorem worker_round_settles_batch:
  assumes "queue_ok now db" and "proper_worker k" and "\<forall>ts. mset (order ts) = mset ts"
    and "lease_tasks c (wk_worker_id k) now (wk_lease_ms k) (wk_concurrency k) (wk_limits k) db = (Inr ts, db1)"
  shows "\<exists>r db' world'. worker_run_once c k fresh order now db world = (r, db', world') \<and> queue_ok now db' \<and>
    (\<forall>t \<in> set ts. \<not> owns_task (wk_worker_id k) (lt_task_id t) db') \<and>
    (case r of Inl e \<Rightarrow> is_cancelled_error e
     | Inr b \<Rightarrow> mset (tb_terminal_task_ids b @ tb_retry_task_ids b) = mset (map lt_task_id ts) \<and>
         (\<forall>i \<in> set (tb_terminal_task_ids b). \<exists>u \<in> set (db_tasks db'). tk_task_id u = i \<and> task_terminal (tk_state u)) \<and>
         (\<forall>i \<in> set (tb_retry_task_ids b). \<exists>u \<in> set (db_tasks db'). tk_task_id u = i \<and> tk_state u = TaskPending))"
proof -
  let ?w = "wk_worker_id k"
  have ok1: "queue_ok now db1" using lease_tasks_queue_ok [OF assms(1)] assms(4) by (metis snd_conv)
  note owned = lease_tasks_owned [OF assms(1,4)]
  have ms: "mset (order ts) = mset ts" using assms(3) by blast
  then have ids: "set (map lt_task_id (order ts)) = lt_task_id ` set ts" by (metis list.set_map set_mset_mset)
  have dist: "distinct (map lt_task_id (order ts))"
    using owned(2) ms by (metis mset_eq_imp_distinct_iff mset_map)
  from execute_all_settles [OF assms(2), of "order ts" db1 c fresh now world] obtain acts where
    acts: "map snd acts = map lt_task_id (order ts)" "\<forall>(a, i) \<in> set acts. valid_act a"
    and loop: "\<And>db'. settle task_give_back ?w acts db1 = (Inr (), db') \<Longrightarrow>
      \<exists>rs world'. execute_all c k fresh now (order ts) db1 world = (rs, db', world') \<and> list_all2 reply_ok acts rs"
    by blast
  have snds: "snd ` set acts = lt_task_id ` set ts" using acts(1) ids by (metis list.set_map)
  have "\<forall>(a, i) \<in> set acts. valid_act a \<and> owns_task ?w i db1"
    using acts(2) owned(1) snds by force
  from task_leases.settle_all [OF ok1 _ this] dist obtain db' where
    s: "settle task_give_back ?w acts db1 = (Inr (), db')"
    and own: "\<And>v j. owns_task v j db' \<longleftrightarrow> j \<notin> snd ` set acts \<and> owns_task v j db1"
    unfolding acts(1) by (metis prod.collapse)
  from loop [OF s] obtain rs world' where ex: "execute_all c k fresh now (order ts) db1 world = (rs, db', world')"
    and rs: "list_all2 reply_ok acts rs" by blast
  have ok': "queue_ok now db'" using task_leases.settle_inv [OF ok1, of ?w acts] s by simp
  have free: "\<forall>t \<in> set ts. \<not> owns_task ?w (lt_task_id t) db'" using own snds by auto
  show ?thesis
  proof (cases "first_error rs")
    case (Some e)
    then have "is_cancelled_error e"
      using first_error_Some [OF Some] rs by (fastforce simp: list_all2_conv_all_nth in_set_conv_nth reply_ok_def)
    with Some ex assms(4) ok' free show ?thesis by (simp add: worker_run_once_def)
  next
    case None
    have reps: "list_all2 reply_ok acts (map Inr (results rs))" using rs first_error_None [OF None] by simp
    have shown: "map_of (results rs) i = Some (\<not> is_finish a) \<and> (\<exists>u \<in> set (db_tasks db'). tk_task_id u = i \<and>
        (if is_finish a then task_terminal (tk_state u) else tk_state u = TaskPending))"
      if "(a, i) \<in> set acts" for a i
      using replies_map [OF reps _ that] dist outcome_state [OF task_outcomes.settle_outcome [OF ok1 s that]]
      unfolding acts(1) by blast
    have "mset (tb_terminal_task_ids (batch_of ts ps) @ tb_retry_task_ids (batch_of ts ps)) = mset (map lt_task_id ts)" for ps
      by (simp add: batch_of_def Let_def mset_filter multiset_partition [symmetric] flip: image_mset_union)
    moreover have "\<exists>u \<in> set (db_tasks db'). tk_task_id u = i \<and> task_terminal (tk_state u)"
      if i: "i \<in> set (tb_terminal_task_ids (batch_of ts (results rs)))" for i
    proof -
      have "i \<in> snd ` set acts" "map_of (results rs) i \<noteq> Some True"
        using i unfolding snds by (auto simp: batch_of_def Let_def)
      with shown show ?thesis by fastforce
    qed
    moreover have "\<exists>u \<in> set (db_tasks db'). tk_task_id u = i \<and> tk_state u = TaskPending"
      if i: "i \<in> set (tb_retry_task_ids (batch_of ts (results rs)))" for i
    proof -
      have "i \<in> snd ` set acts" "map_of (results rs) i = Some True"
        using i unfolding snds by (auto simp: batch_of_def Let_def)
      with shown show ?thesis by fastforce
    qed
    ultimately show ?thesis using None ex assms(4) ok' free by (simp add: worker_run_once_def)
  qed
qed

text \<open>
  Exhausted work is reported, not repeated: when a task is leased for recovery (its attempts are
  used up), its handler is not executed, the world it acts on is untouched, and if the worker holds
  the lease the task is finished at once with the terminal result the handler gives for the failure.
\<close>

theorem exhausted_task_reported_not_rerun:
  assumes "queue_ok now' db" and "proper_worker k" and "owns_task (wk_worker_id k) (lt_task_id t) db"
    and "lt_recovery_error_code t = Some code" and "wk_handlers k (lt_command_type t) = Some h"
  shows "\<exists>db'. execute_task c k fresh now t db world = (Inr (lt_task_id t, False), db', world) \<and>
    (\<exists>u \<in> set (db_tasks db'). tk_task_id u = lt_task_id t \<and> task_terminal (tk_state u) \<and>
       tk_state u = xr_state (th_failure h t (PermanentTaskError code)) \<and>
       tk_last_error_code u = xr_error_code (th_failure h t (PermanentTaskError code)))"
proof -
  let ?r = "th_failure h t (PermanentTaskError code)"
  let ?tr = "max now (wk_clock_ms k world)"
  let ?a = "finish_act c (fresh (lt_task_id t)) ?tr ?r"
  have "task_terminal (xr_state ?r)" using assms(2,5) by (auto simp: proper_worker_def proper_handler_def)
  then have v: "valid_act ?a" by (simp add: finish_act_def)
  obtain db' where g: "task_give_back ?a (wk_worker_id k) (lt_task_id t) db = (Inr (), db')"
    using task_give_back_owned [OF assms(1) v assms(3)] by blast
  have run: "execute_task c k fresh now t db world = (Inr (lt_task_id t, False), db', world)"
    using g by (simp add: execute_task_def recovery_act [OF assms(4,5)])
  obtain u where "act_task ?a u \<in> set (db_tasks db')" "tk_task_id u = lt_task_id t"
    using task_outcomes.outcome_shown [OF assms(1) g] by (auto simp: task_outcome_def)
  with run \<open>task_terminal (xr_state ?r)\<close> show ?thesis
    by (intro exI [of _ db'] conjI bexI [of _ "act_task ?a u"]) (simp_all add: finish_act_def finished_def)
qed

end
