(* ===== verification/Witnesses.thy ===== *)
theory Witnesses
  imports Samples RuntimeProps RuntimeEffects RunOutcomes TaskWorker
begin

text \<open>
  Witnesses: every property with hypotheses applied at a concrete input where they hold, with the
  definitions evaluated.
\<close>

section \<open>Leasing\<close>

theorem lease_tasks_returns_leased_rows_witness:
  "\<exists>ts db'. lease_tasks plain_cipher ''w'' 20 100 1 None sample_admitted = (Inr ts, db') \<and> ts \<noteq> [] \<and>
     (\<forall>lt \<in> set ts. \<exists>t \<in> set (db_tasks db'). tk_task_id t = lt_task_id lt \<and>
        tk_lease_owner t = Some ''w'' \<and> tk_lease_expires_at_ms t = Some 120)"
proof -
  have ok: "queue_ok 20 sample_admitted"
    by (rule queue_ok_later [OF runtime_okD(1) [OF sample_admitted_ok]]) simp
  obtain ts db' where l: "lease_tasks plain_cipher ''w'' 20 100 1 None sample_admitted = (Inr ts, db')"
    "map lt_task_id ts = [''t1'']" using sample_lease by (elim exE conjE) (rule that)
  have "\<exists>t \<in> set (db_tasks db'). tk_task_id t = lt_task_id lt \<and>
        tk_lease_owner t = Some ''w'' \<and> tk_lease_expires_at_ms t = Some 120" if "lt \<in> set ts" for lt
    using lease_tasks_returns_leased_rows [OF ok l(1) that] by auto
  with l show ?thesis by auto
qed

theorem lease_tasks_progress_witness:
  "\<exists>ts db'. lease_tasks plain_cipher ''w'' 20 100 1 (Some sample_limits) sample_admitted = (Inr ts, db') \<and> ts \<noteq> []"
proof (rule lease_tasks_progress)
  show "queue_ok 20 sample_admitted"
    by (rule queue_ok_later [OF runtime_okD(1) [OF sample_admitted_ok]]) simp
  show "work_available 20 (Some sample_limits) (reclaim_leases 20 sample_admitted)" by code_simp
  have "list_all (\<lambda>t. \<not> isl (runtime_decrypt plain_cipher (tk_payload t) (task_aad (tk_task_id t))))
      (db_tasks sample_admitted)" by code_simp
  then show "\<forall>t \<in> set (db_tasks sample_admitted).
      \<exists>p. runtime_decrypt plain_cipher (tk_payload t) (task_aad (tk_task_id t)) = Inr p"
    unfolding list_all_iff by (metis sum.collapse(2))
qed simp_all

lemma sample_capacity: "capacity_ok 20 sample_limits sample_admitted"
proof -
  have none: "live_count 20 (\<lambda>_. True) (db_tasks sample_admitted) = 0" by code_simp
  have "live_count 20 Q (db_tasks sample_admitted) \<le> live_count 20 (\<lambda>_. True) (db_tasks sample_admitted)" for Q
    unfolding live_count_def of_nat_le_iff by (rule count_where_mono) simp
  then have "live_count 20 Q (db_tasks sample_admitted) \<le> 0" for Q using none by simp
  then show ?thesis unfolding capacity_ok_def sample_limits_def
    by (simp add: order_trans [of _ "0::int"])
qed

theorem lease_tasks_within_limits_witness:
  "live_count 20 (\<lambda>_. True) (db_tasks (snd (lease_tasks plain_cipher ''w'' 20 100 5 (Some sample_limits)
     sample_admitted))) \<le> 4"
proof -
  have ok: "queue_ok 20 sample_admitted"
    by (rule queue_ok_later [OF runtime_okD(1) [OF sample_admitted_ok]]) simp
  have "live_count 20 (\<lambda>_. True) (db_tasks sample_admitted) \<le> global_limit sample_limits" by code_simp
  from lease_tasks_within_limits [OF ok sample_capacity this, of plain_cipher "''w''" 100 5]
  show ?thesis by (simp add: sample_limits_def)
qed

theorem fair_selection_least_recent_tenant_witness:
  "\<exists>c u. next_candidate 7 sample_limits sample_served = Some c \<and> tk_task_id c = ''a2'' \<and>
     u \<in> set (ranked 7 (db_tasks sample_served)) \<and> tk_task_id u = ''b2'' \<and> tenant_served sample_served ''A'' < tenant_served sample_served ''B''"
proof -
  obtain c where c: "next_candidate 7 sample_limits sample_served = Some c" "tk_task_id c = ''a2''" "tk_tenant_key c = ''A''"
  proof -
    have "map_option (\<lambda>c. (tk_task_id c, tk_tenant_key c)) (next_candidate 7 sample_limits sample_served) = Some (''a2'', ''A'')"
      by code_simp
    with that show ?thesis by auto
  qed
  have "list_ex (\<lambda>u. tk_task_id u = ''b2'' \<and> tk_tenant_key u = ''B'' \<and>
      within_limits 7 sample_limits (db_tasks sample_served) u) (ranked 7 (db_tasks sample_served))" by code_simp
  then obtain u where u: "u \<in> set (ranked 7 (db_tasks sample_served))"
    "within_limits 7 sample_limits (db_tasks sample_served) u" "tk_task_id u = ''b2''" "tk_tenant_key u = ''B''"
    by (auto simp: list_ex_iff)
  have "0 < tenant_served sample_served ''A''" by code_simp
  with fair_selection_least_recent_tenant [OF runtime_okD(3) [OF sample_served_ok] c(1) u(1,2)] c u
  have "tenant_served sample_served ''A'' < tenant_served sample_served ''B''" by simp
  with c u show ?thesis by (intro exI [of _ c] exI [of _ u]) simp
qed

section \<open>The outbox\<close>

theorem outbox_runs_keep_intents_unique_witness:
  "distinct (map ob_idempotency_key (db_outbox (fold outbox_step
     [LeaseOutbox plain_cipher ''w'' 20 100 5, MarkOutboxSent ''o1'' ''w'' ''ref'' 21]
     (sample_admitted\<lparr>db_outbox := []\<rparr>))))"
  using outbox_runs_keep_intents_unique [of "sample_admitted\<lparr>db_outbox := []\<rparr>"
      "[LeaseOutbox plain_cipher ''w'' 20 100 5, MarkOutboxSent ''o1'' ''w'' ''ref'' 21]"] by simp

lemma sample_outbox_lease:
  "\<exists>ms db'. lease_outbox plain_cipher ''w'' 20 100 5 sample_admitted = (Inr ms, db') \<and> map lo_outbox_id ms = [''o1'']"
  by (rule result_Inr) code_simp

theorem lease_outbox_causal_order_witness:
  "\<exists>ms db'. lease_outbox plain_cipher ''w'' 20 100 5 sample_admitted = (Inr ms, db') \<and> ms \<noteq> [] \<and>
     (\<forall>m \<in> set ms. \<exists>q \<in> set (db_outbox db'). ob_outbox_id q = lo_outbox_id m \<and> outbox_leased_to ''w'' 120 q)"
proof -
  obtain ms db' where l: "lease_outbox plain_cipher ''w'' 20 100 5 sample_admitted = (Inr ms, db')"
    "map lo_outbox_id ms = [''o1'']" using sample_outbox_lease by (elim exE conjE) (rule that)
  have "\<exists>q \<in> set (db_outbox db'). ob_outbox_id q = lo_outbox_id m \<and> outbox_leased_to ''w'' 120 q"
    if "m \<in> set ms" for m
    using lease_outbox_causal_order [OF runtime_okD(2) [OF sample_admitted_ok] l(1) that] by auto
  with l show ?thesis by auto
qed

theorem failed_intent_blocks_successors_witness:
  "\<exists>p ms db' m q. p \<in> set (db_outbox sample_failed) \<and> ob_state p = OutboxFailed \<and>
     lease_outbox plain_cipher ''w'' 20 100 5
       (fold outbox_step [EnqueueOutbox plain_cipher ''o3'' ''t1'' (sample_draft ''k3'') 12] sample_failed) = (Inr ms, db') \<and>
     m \<in> set ms \<and> q \<in> set (db_outbox db') \<and> ob_outbox_id q = lo_outbox_id m \<and>
     \<not> (same_task p q \<and> outbox_before p q)"
proof -
  let ?ops = "[EnqueueOutbox plain_cipher ''o3'' ''t1'' (sample_draft ''k3'') 12]"
  have ok: "outbox_ok sample_failed" by code_simp
  have "list_ex (\<lambda>p. ob_state p = OutboxFailed) (db_outbox sample_failed)" by code_simp
  then obtain p where p: "p \<in> set (db_outbox sample_failed)" "ob_state p = OutboxFailed"
    by (auto simp: list_ex_iff)
  obtain ms db' where l: "lease_outbox plain_cipher ''w'' 20 100 5 (fold outbox_step ?ops sample_failed) = (Inr ms, db')"
    "map lo_outbox_id ms = [''o2'']"
  proof -
    have "\<exists>ms db'. lease_outbox plain_cipher ''w'' 20 100 5 (fold outbox_step ?ops sample_failed) = (Inr ms, db') \<and>
        map lo_outbox_id ms = [''o2'']" by (rule result_Inr) code_simp
    then show ?thesis by (elim exE conjE) (rule that)
  qed
  then obtain m where m: "m \<in> set ms" by (cases ms) auto
  have ok2: "outbox_ok (fold outbox_step ?ops sample_failed)" by (rule outbox_runs.run_inv [OF ok])
  from lease_outbox_prior_sent [OF ok2 l(1) m] obtain q where q: "q \<in> set (db_outbox db')"
    "ob_outbox_id q = lo_outbox_id m" by blast
  from failed_intent_blocks_successors [OF ok p l(1) m q] p l(1) m q show ?thesis by blast
qed

definition sample_dispatcher :: "nat dispatcher" where
  "sample_dispatcher = \<lparr>dp_publishers = [''lark'' \<mapsto> (\<lambda>item n. (Inr ''ref'', n + 1))],
     dp_worker_id = ''w'', dp_lease_ms = 100, dp_retry_delay_ms = 5\<rparr>"

theorem dispatch_settles_batch_witness:
  "\<exists>sent retries db' n. dispatch_once plain_cipher sample_dispatcher 20 5 sample_admitted 0 = (Inr (sent, retries), db', n) \<and>
     set sent \<union> set retries = {''o1''} \<and> \<not> owns_outbox ''w'' ''o1'' db'"
proof -
  have nc: "no_cancellation sample_dispatcher"
    by (simp add: no_cancellation_def publish_item_def sample_dispatcher_def is_exception_def split: option.splits)
  obtain ms db1 where l: "lease_outbox plain_cipher ''w'' 20 100 5 sample_admitted = (Inr ms, db1)"
    "map lo_outbox_id ms = [''o1'']" using sample_outbox_lease by (elim exE conjE) (rule that)
  then have ids: "lo_outbox_id ` set ms = {''o1''}" by (metis list.set(1) list.set(2) list.set_map)
  have "lease_outbox plain_cipher (dp_worker_id sample_dispatcher) 20 (dp_lease_ms sample_dispatcher) 5 sample_admitted
      = (Inr ms, db1)" using l(1) by (simp add: sample_dispatcher_def)
  from dispatch_settles_batch [OF runtime_okD(2) [OF sample_admitted_ok] nc this, of 0] ids
  show ?thesis by (auto simp: sample_dispatcher_def)
qed

section \<open>The whole runtime\<close>

theorem one_live_lease_per_session_witness:
  "session_live 6 ''a1'' (db_tasks (timed_run rt_step sample_tenants empty_db)) \<le> 1"
  using one_live_lease_per_session [OF sample_tenants_timely, of "''a1''"] by (simp add: sample_tenants_def)

lemma sample_command_ok: "check_task_command sample_command = Inr sample_command"
  by (simp add: sample_command_def check_task_command_def)

lemma sample_admit_result:
  "\<exists>db1. admit plain_cipher ''t1'' ''o1'' (sample_event ''e1'') sample_command (Some (sample_draft ''k1'')) 10 empty_db =
     (Inr \<lparr>ar_created = True, ar_task_id = ''t1''\<rparr>, db1)"
proof -
  have "fst (admit plain_cipher ''t1'' ''o1'' (sample_event ''e1'') sample_command (Some (sample_draft ''k1'')) 10 empty_db)
      = Inr \<lparr>ar_created = True, ar_task_id = ''t1''\<rparr>" by code_simp
  then show ?thesis by (metis prod.collapse)
qed


theorem admitted_payload_reaches_worker_witness:
  "\<exists>db1 ts db2 lt. lease_tasks plain_cipher ''w'' 20 100 1 None db1 = (Inr ts, db2) \<and> lt \<in> set ts \<and>
     lt_payload lt = tc_payload sample_command"
proof -
  obtain db1 where a: "admit plain_cipher ''t1'' ''o1'' (sample_event ''e1'') sample_command
      (Some (sample_draft ''k1'')) 10 empty_db = (Inr \<lparr>ar_created = True, ar_task_id = ''t1''\<rparr>, db1)"
    using sample_admit_result by (elim exE)
  then have db1: "sample_admitted = db1" by (simp add: sample_admitted_def sample_admit_def)
  obtain ts db2 where l: "lease_tasks plain_cipher ''w'' 20 100 1 None sample_admitted = (Inr ts, db2)"
    "map lt_task_id ts = [''t1'']" using sample_lease by (elim exE conjE) (rule that)
  then obtain lt where lt: "lt \<in> set ts" "lt_task_id lt = ''t1''" by (cases ts) auto
  have t: "timely rt_legal 10 []" "last (10 # map fst ([] :: (int \<times> (string \<times> json) rt_op) list)) \<le> 20" by simp_all
  have "lease_tasks plain_cipher ''w'' 20 100 1 None (timed_run rt_step [] db1) = (Inr ts, db2)"
    using l(1) db1 by simp
  from admitted_payload_reaches_worker [OF runtime_ok_empty sample_command_ok opens_plain_cipher a t this lt]
  have "lt_payload lt = tc_payload sample_command" by simp
  with l(1) lt(1) show ?thesis by (intro exI conjI)
qed

theorem finished_task_is_final_witness:
  "\<exists>db1. finish_task plain_cipher ''o5'' ''t1'' ''w'' TaskSucceeded 30 None (Some (sample_draft ''k5'')) sample_leased = (Inr (), db1) \<and>
     (\<exists>t \<in> set (db_tasks db1). tk_task_id t = ''t1'' \<and> tk_state t = TaskSucceeded \<and>
        t \<in> set (db_tasks (timed_run rt_step [(40, OpLeaseTasks plain_cipher ''v'' 100 1 None)] db1)))"
proof -
  have "fst (finish_task plain_cipher ''o5'' ''t1'' ''w'' TaskSucceeded 30 None (Some (sample_draft ''k5'')) sample_leased) = Inr ()"
    by code_simp
  then obtain db1 where f: "finish_task plain_cipher ''o5'' ''t1'' ''w'' TaskSucceeded 30 None
      (Some (sample_draft ''k5'')) sample_leased = (Inr (), db1)" by (metis prod.collapse)
  from finished_task_is_final [OF sample_leased_ok f] obtain t where t: "t \<in> set (db_tasks db1)"
    "tk_task_id t = ''t1''" "tk_state t = TaskSucceeded"
    "\<And>ops. t \<in> set (db_tasks (timed_run rt_step ops db1))" by blast
  show ?thesis by (intro exI [of _ db1] conjI f bexI [of _ t] t)
qed

section \<open>Approvals and claims\<close>

definition sample_request :: approval_request where
  "sample_request = \<lparr>aq_approval_id = ''ap1'', aq_task_id = ''t1'', aq_run_id = ''r1'', aq_tenant_key = ''tenant'',
     aq_app_id = ''app'', aq_session_key = ''s'', aq_actor_id = ''u'', aq_tool_id = ''delete'',
     aq_argument_digest = ''d'', aq_trace_id = ''trace'', aq_expires_at_ms = 100\<rparr>"

definition sample_pending :: "(string \<times> json) rt_db" where
  "sample_pending = rt_step 20 (OpRequestApproval plain_cipher ''o6'' sample_request (sample_draft ''k6'')) sample_admitted"

definition sample_decision :: "(string \<times> json) rt_op" where
  "sample_decision = OpDecideApproval plain_cipher ''o7'' (sample_event ''e7'') ''ap1'' ''u'' ''approved'' sample_draft"

lemma sample_pending_ok: "runtime_ok 20 sample_pending"
proof -
  have "runtime_ok 20 sample_admitted" by (rule runtime.tick_inv [OF sample_admitted_ok]) simp
  then show ?thesis unfolding sample_pending_def by (rule runtime.step_at) simp
qed

lemma sample_pending_row:
  "\<exists>a \<in> set (db_approvals sample_pending). ap_approval_id a = ''ap1'' \<and> ap_state a = ''pending''"
proof -
  have "list_ex (\<lambda>a. ap_approval_id a = ''ap1'' \<and> ap_state a = ''pending'') (db_approvals sample_pending)"
    by code_simp
  then show ?thesis by (simp add: list_ex_iff)
qed

lemma sample_approved_row:
  "\<exists>b \<in> set (db_approvals (rt_step 30 sample_decision sample_pending)). ap_approval_id b = ''ap1'' \<and> ap_state b = ''approved''"
proof -
  have "list_ex (\<lambda>a. ap_approval_id a = ''ap1'' \<and> ap_state a = ''approved'')
      (db_approvals (rt_step 30 sample_decision sample_pending))" by code_simp
  then show ?thesis by (simp add: list_ex_iff)
qed

theorem approval_granted_only_by_actor_witness:
  "\<exists>a \<in> set (db_approvals sample_pending). ap_approval_id a = ''ap1'' \<and> 30 < ap_expires_at_ms a \<and> ap_actor_id a = ''u''"
proof -
  obtain a where a: "a \<in> set (db_approvals sample_pending)" "ap_approval_id a = ''ap1''" "ap_state a = ''pending''"
    using sample_pending_row by (elim bexE conjE) (rule that)
  obtain b where b: "b \<in> set (db_approvals (rt_step 30 sample_decision sample_pending))"
    "ap_approval_id b = ''ap1''" "ap_state b = ''approved''"
    using sample_approved_row by (elim bexE conjE) (rule that)
  have ok: "runtime_ok 30 sample_pending" by (rule runtime.tick_inv [OF sample_pending_ok]) simp
  have ids: "ap_approval_id b = ap_approval_id a" using a(2) b(2) by simp
  from approval_granted_only_by_actor [OF ok a(1,3) b(1) ids b(3)]
  have "ap_actor_id a = ''u''" "30 < ap_expires_at_ms a" by (auto simp: sample_decision_def)
  with a show ?thesis by (intro bexI [of _ a]) simp_all
qed

theorem approval_decision_final_witness:
  "\<exists>a. ap_approval_id a = ''ap1'' \<and> ap_state a = ''approved'' \<and>
     a \<in> set (db_approvals (timed_run rt_step [(200, OpRequestApproval plain_cipher ''o8'' sample_request (sample_draft ''k8''))]
       (rt_step 30 sample_decision sample_pending)))"
proof -
  obtain b where b: "b \<in> set (db_approvals (rt_step 30 sample_decision sample_pending))"
    "ap_approval_id b = ''ap1''" "ap_state b = ''approved''"
    using sample_approved_row by (elim bexE conjE) (rule that)
  have "ap_state b \<noteq> ''pending''" using b(3) by simp
  from approval_decision_final [OF b(1) this] b(2,3) show ?thesis by (intro exI [of _ b] conjI)
qed

theorem effect_claimed_fresh_once_witness:
  "\<exists>cl db1 cl' db2. claim_idempotency ''k'' ''send'' ''w'' 50 10 sample_admitted = (Inr cl, db1) \<and> \<not> cl_recovery_required cl \<and>
     claim_idempotency ''k'' ''send'' ''v'' 90 60 db1 = (Inr cl', db2) \<and> cl_acquired cl' \<and> cl_recovery_required cl'"
proof -
  have c1: "fst (claim_idempotency ''k'' ''send'' ''w'' 50 10 sample_admitted) =
      Inr \<lparr>cl_acquired = True, cl_state = ''claimed'', cl_result_ref = None, cl_recovery_required = False\<rparr>" by code_simp
  then obtain cl db1 where l1: "claim_idempotency ''k'' ''send'' ''w'' 50 10 sample_admitted = (Inr cl, db1)"
    "\<not> cl_recovery_required cl" by (cases "claim_idempotency ''k'' ''send'' ''w'' 50 10 sample_admitted") auto
  have "map_sum id cl_acquired (fst (claim_idempotency ''k'' ''send'' ''v'' 90 60
      (snd (claim_idempotency ''k'' ''send'' ''w'' 50 10 sample_admitted)))) = Inr True" by code_simp
  then have "map_sum id cl_acquired (fst (claim_idempotency ''k'' ''send'' ''v'' 90 60 db1)) = Inr True"
    using l1(1) by simp
  from result_Inr [OF this] obtain cl' db2 where l2: "claim_idempotency ''k'' ''send'' ''v'' 90 60 db1 = (Inr cl', db2)"
    "cl_acquired cl'" by auto
  have "claim_idempotency ''k'' ''send'' ''v'' 90 60 (timed_run rt_step [] db1) = (Inr cl', db2)" using l2(1) by simp
  from effect_claimed_fresh_once [OF l1(1) this l2(2)] l1 l2 show ?thesis by (intro exI conjI)
qed

theorem completed_effect_returns_result_witness:
  "\<exists>(db0 :: (string \<times> json) rt_db) db1. complete_idempotency ''k'' ''w'' ''ref'' 20 db0 = (Inr (), db1) \<and>
     fst (claim_idempotency ''k'' ''send'' ''v'' 90 60 db1) =
       Inr \<lparr>cl_acquired = False, cl_state = ''completed'', cl_result_ref = Some ''ref'', cl_recovery_required = False\<rparr>"
proof -
  let ?db0 = "rt_step 15 (OpClaim ''k'' ''send'' ''w'' 50) sample_admitted"
  have "runtime_ok 15 sample_admitted" by (rule runtime.tick_inv [OF sample_admitted_ok]) simp
  then have "runtime_ok 15 ?db0" by (rule runtime.step_at) simp
  then have ok: "runtime_ok 20 ?db0" by (rule runtime.tick_inv) simp
  have "fst (complete_idempotency ''k'' ''w'' ''ref'' 20 ?db0) = Inr ()" by code_simp
  then obtain db1 where c: "complete_idempotency ''k'' ''w'' ''ref'' 20 ?db0 = (Inr (), db1)" by (metis prod.collapse)
  have "timely rt_legal 20 []" by simp
  from completed_effect_returns_result [OF ok c this, of "''send''" "''v''" 90 60] c
  show ?thesis by - (rule exI [of _ ?db0], rule exI [of _ db1], simp)
qed

section \<open>Runs\<close>

definition sample_checkpoint :: run_checkpoint where
  "sample_checkpoint = \<lparr>ck_run_id = ''r1'', ck_agent_id = ''main'', ck_agent_version = 1,
     ck_resource_versions = [(''core'', ''v1'')], ck_next_turn = 2,
     ck_messages = [\<lparr>mm_role = ASSISTANT, mm_content = ''hi'', mm_name = None, mm_tool_call_id = None,
       mm_trusted = False, mm_tool_calls = [\<lparr>call_call_id = ''c1'', call_tool_id = ''read'',
         call_arguments = [(''n'', JInt 1)]\<rparr>]\<rparr>],
     ck_verified_effects = [], ck_blockers = [], ck_source_versions = [], ck_consumed_budget = [(''tool_calls'', 1)],
     ck_compactor_version = 1, ck_applied_control_ids = [''x''], ck_unresolved_external_effects = [],
     ck_policy_version = 1, ck_tool_schema_fingerprint = ''f''\<rparr>"

definition sample_run :: "(string \<times> json) rt_db" where
  "sample_run = rt_step 15 (OpStartRun ''r1'' ''t1'' ''s'' ''main'' 1 1 ''trace'') sample_admitted"

lemma sample_run_ok: "runtime_ok 15 sample_run"
proof -
  have "runtime_ok 15 sample_admitted" by (rule runtime.tick_inv [OF sample_admitted_ok]) simp
  then show ?thesis unfolding sample_run_def by (rule runtime.step_at) simp
qed

theorem checkpoint_roundtrip_witness:
  "\<exists>db'. save_checkpoint plain_cipher sample_checkpoint 20 sample_run = (Inr (), db') \<and>
     load_checkpoint plain_cipher ''r1'' db' = Inr (Some sample_checkpoint)"
proof -
  have "fst (save_checkpoint plain_cipher sample_checkpoint 20 sample_run) = Inr ()" by code_simp
  then obtain db' where s: "save_checkpoint plain_cipher sample_checkpoint 20 sample_run = (Inr (), db')"
    by (metis prod.collapse)
  from checkpoint_roundtrip [OF opens_plain_cipher s] s show ?thesis by (simp add: sample_checkpoint_def)
qed

definition sample_outcome :: agent_outcome where
  "sample_outcome = \<lparr>oc_status = COMPLETED, oc_summary = ''done'', oc_resource_refs = [''doc''], oc_warnings = []\<rparr>"

lemma sample_finish:
  "\<exists>db1. try_finish_with_outcome plain_cipher ''r1'' sample_outcome [] 20 sample_run = (Inr True, db1)"
proof -
  have "fst (try_finish_with_outcome plain_cipher ''r1'' sample_outcome [] 20 sample_run) = Inr True" by code_simp
  then show ?thesis by (metis prod.collapse)
qed

theorem outcome_is_final_witness:
  "\<exists>db1. try_finish_with_outcome plain_cipher ''r1'' sample_outcome [] 20 sample_run = (Inr True, db1) \<and>
     load_outcome plain_cipher ''r1'' db1 = Inr (Some sample_outcome) \<and> run_status_of_run ''r1'' db1 = Some COMPLETED"
proof -
  obtain db1 where f: "try_finish_with_outcome plain_cipher ''r1'' sample_outcome [] 20 sample_run = (Inr True, db1)"
    using sample_finish by (elim exE)
  have ok: "runtime_ok 20 sample_run" by (rule runtime.tick_inv [OF sample_run_ok]) simp
  have t: "timely rt_legal 20 []" by simp
  have st: "oc_status sample_outcome \<noteq> RUNNING" "oc_status sample_outcome \<noteq> WAITING" by (simp_all add: sample_outcome_def)
  have "oc_status sample_outcome = COMPLETED" by (simp add: sample_outcome_def)
  with outcome_is_final [OF ok opens_plain_cipher f t st] f show ?thesis by simp
qed

text \<open>The bare \<open>finish_run\<close> makes the status of a finished run and its outcome disagree.\<close>

lemma finish_run_overwrites:
  "run_status_of_run ''r1'' (snd (finish_run ''r1'' FAILED 30
     (snd (try_finish_with_outcome plain_cipher ''r1'' sample_outcome [] 20 sample_run)))) = Some FAILED"
  "load_outcome plain_cipher ''r1'' (snd (finish_run ''r1'' FAILED 30
     (snd (try_finish_with_outcome plain_cipher ''r1'' sample_outcome [] 20 sample_run)))) = Inr (Some sample_outcome)"
  by code_simp+

text \<open>A follow-up waits for the run when it first tries to complete.\<close>

definition sample_steered :: "(string \<times> json) rt_db" where
  "sample_steered = rt_step 16 (OpAdmitControl plain_cipher ''c1'' ''o9'' (sample_event ''e9'') ''s'' ''u'' STEER ''shorter'' (sample_draft ''k9''))
     sample_run"


theorem journal_numbered_without_gaps_witness:
  "length (terminal_rows ''r1'' (timed_run rt_step sample_tenants empty_db)) \<le> 1"
  using journal_numbered_without_gaps [OF sample_tenants_timely] by blast

section \<open>The worker\<close>

definition sample_handler :: "nat task_handler" where
  "sample_handler = \<lparr>th_execute = (\<lambda>t now n. (Inr \<lparr>xr_state = TaskSucceeded, xr_terminal_message = None, xr_error_code = None\<rparr>, n + 1)),
     th_failure = (\<lambda>t e. \<lparr>xr_state = TaskFailed, xr_terminal_message = None, xr_error_code = Some (exn_message e)\<rparr>)\<rparr>"

definition sample_worker :: "nat task_worker" where
  "sample_worker = \<lparr>wk_handlers = [''im.handle_mention'' \<mapsto> sample_handler], wk_worker_id = ''w'', wk_lease_ms = 100,
     wk_retry_delay_ms = 5, wk_concurrency = 1, wk_clock_ms = (\<lambda>n. 20), wk_limits = None\<rparr>"

lemma sample_worker_proper: "proper_worker sample_worker"
  by (simp add: proper_worker_def proper_handler_def sample_worker_def sample_handler_def)

theorem worker_round_settles_batch_witness:
  "\<exists>r db' n. worker_run_once plain_cipher sample_worker id id 20 sample_admitted 0 = (r, db', n) \<and>
     \<not> owns_task ''w'' ''t1'' db'"
proof -
  have ok: "queue_ok 20 sample_admitted"
    by (rule queue_ok_later [OF runtime_okD(1) [OF sample_admitted_ok]]) simp
  obtain ts db1 where l: "lease_tasks plain_cipher ''w'' 20 100 1 None sample_admitted = (Inr ts, db1)"
    "map lt_task_id ts = [''t1'']" using sample_lease by (elim exE conjE) (rule that)
  then obtain lt where lt: "lt \<in> set ts" "lt_task_id lt = ''t1''" by (cases ts) auto
  have l': "lease_tasks plain_cipher (wk_worker_id sample_worker) 20 (wk_lease_ms sample_worker)
      (wk_concurrency sample_worker) (wk_limits sample_worker) sample_admitted = (Inr ts, db1)"
    using l(1) by (simp add: sample_worker_def)
  have order: "\<forall>ts :: leased_task list. mset (id ts) = mset ts" by simp
  from worker_round_settles_batch [OF ok sample_worker_proper order l', of id 0] obtain r db' n where
    "worker_run_once plain_cipher sample_worker id id 20 sample_admitted 0 = (r, db', n)"
    "\<forall>t \<in> set ts. \<not> owns_task (wk_worker_id sample_worker) (lt_task_id t) db'" by blast
  with lt show ?thesis by (intro exI conjI) (auto simp: sample_worker_def)
qed

definition sample_recovery :: leased_task where
  "sample_recovery = \<lparr>lt_task_id = ''t1'', lt_event_id = None, lt_plugin_id = ''im'', lt_command_type = ''im.handle_mention'',
     lt_session_key = ''s'', lt_payload = [], lt_attempt_count = 3, lt_max_attempts = 3, lt_lease_expires_at_ms = None,
     lt_recovery_error_code = Some ''retry_exhausted'', lt_tenant_key = ''tenant'', lt_app_id = ''app'',
     lt_group_id = None, lt_trace_id = ''trace''\<rparr>"

theorem exhausted_task_reported_not_rerun_witness:
  "\<exists>db'. execute_task plain_cipher sample_worker id 30 sample_recovery sample_leased 7 = (Inr (''t1'', False), db', 7)"
proof -
  have "list_ex (task_owned ''t1'' ''w'') (db_tasks sample_leased)" by code_simp
  then have own: "owns_task (wk_worker_id sample_worker) (lt_task_id sample_recovery) sample_leased"
    by (simp add: owns_task_def list_ex_iff sample_worker_def sample_recovery_def)
  have rec: "lt_recovery_error_code sample_recovery = Some ''retry_exhausted''"
    "wk_handlers sample_worker (lt_command_type sample_recovery) = Some sample_handler"
    by (simp_all add: sample_recovery_def sample_worker_def)
  from exhausted_task_reported_not_rerun [OF runtime_okD(1) [OF sample_leased_ok] sample_worker_proper own rec,
      of plain_cipher id 30 7] show ?thesis by (auto simp: sample_recovery_def)
qed

end
