(* ===== verification/AgentTypes.thy ===== *)
theory AgentTypes
  imports RunTypes
begin

text \<open>
  The data of the multi-agent graph (\<open>runtime/multi_agent.py\<close>): roles, statuses, node specifications
  with the checks of their constructors, mailbox items, artifacts and resource targets.
\<close>

section \<open>Enumerations\<close>

datatype agent_role = ORCHESTRATOR | RESEARCHER | AUTHOR | DATA_ANALYST | VERIFIER | OPERATOR

datatype context_mode = ContextNone | ContextSelected | ContextFullSafeHistory

datatype graph_status = GraphActive | GraphCompleted | GraphBlocked | GraphFailed | GraphCancelled

datatype node_status =
    NodeCreated | NodeReady | NodeRunning | NodeWaiting | NodeCompleted | NodeBlocked | NodeFailed
  | NodeInterrupted | NodeCancelling | NodeCancelled

datatype mailbox_kind =
    MailTask | MailMessage | MailFollowUp | MailSteer | MailArtifact | MailQuestion | MailAnswer
  | MailCancel | MailStatus

datatype mailbox_state = MailPending | MailDelivered | MailAcknowledged

fun agent_role_value :: "agent_role \<Rightarrow> string" where
  "agent_role_value ORCHESTRATOR = ''orchestrator''"
| "agent_role_value RESEARCHER = ''researcher''"
| "agent_role_value AUTHOR = ''author''"
| "agent_role_value DATA_ANALYST = ''data_analyst''"
| "agent_role_value VERIFIER = ''verifier''"
| "agent_role_value OPERATOR = ''operator''"

text \<open>\<open>_terminal_node_values\<close>\<close>

fun node_terminal :: "node_status \<Rightarrow> bool" where
  "node_terminal NodeCompleted = True"
| "node_terminal NodeBlocked = True"
| "node_terminal NodeFailed = True"
| "node_terminal NodeCancelled = True"
| "node_terminal _ = False"

section \<open>Specifications\<close>

record graph_limits =
  gl_max_depth :: int
  gl_max_nodes :: int
  gl_max_concurrency :: int

definition default_graph_limits :: graph_limits where
  "default_graph_limits = \<lparr>gl_max_depth = 3, gl_max_nodes = 8, gl_max_concurrency = 3\<rparr>"

definition check_graph_limits :: "graph_limits \<Rightarrow> exn + graph_limits" where
  "check_graph_limits l =
     (if min (gl_max_depth l) (min (gl_max_nodes l) (gl_max_concurrency l)) < 1
      then Inl (ValueError ''graph limits must be positive'') else Inr l)"

record node_spec =
  ns_name :: string
  ns_role :: agent_role
  ns_task_brief :: string
  ns_expected_output_type :: string
  ns_tool_ids :: "string list"
  ns_budgets :: "(string \<times> int) list"
  ns_context_mode :: context_mode
  ns_deadline_ms :: "int option"
  ns_dependency_node_ids :: "string list"
  ns_requires_write_scope :: bool

text \<open>\<open>re.fullmatch(r"[a-z0-9_]+", name)\<close>\<close>

definition name_char :: "char \<Rightarrow> bool" where
  "name_char ch = (let n = of_char ch :: nat in
     (97 \<le> n \<and> n \<le> 122) \<or> (48 \<le> n \<and> n \<le> 57) \<or> n = 95)"

definition check_node_spec :: "node_spec \<Rightarrow> exn + node_spec" where
  "check_node_spec s =
     (if ns_name s = [] \<or> \<not> list_all name_char (ns_name s)
      then Inl (ValueError ''node name must contain lowercase letters, digits, or underscores'')
      else if ns_task_brief s = [] \<or> ns_expected_output_type s = []
      then Inl (ValueError ''node task brief and output type are required'')
      else if \<not> distinct (ns_tool_ids s) then Inl (ValueError ''node tool_ids must be unique'')
      else if list_ex (\<lambda>(k, v). v < 0) (ns_budgets s)
      then Inl (ValueError ''node budgets cannot be negative'') else Inr s)"

text \<open>What a specification that passed its constructor satisfies; a dictionary has distinct keys.\<close>

definition node_spec_ok :: "node_spec \<Rightarrow> bool" where
  "node_spec_ok s \<longleftrightarrow> check_node_spec s = Inr s \<and> distinct (map fst (ns_budgets s))"

lemma check_node_spec_Inr:
  "check_node_spec s = Inr s' \<longleftrightarrow> s' = s \<and> ns_name s \<noteq> [] \<and> list_all name_char (ns_name s) \<and>
     ns_task_brief s \<noteq> [] \<and> ns_expected_output_type s \<noteq> [] \<and> distinct (ns_tool_ids s) \<and>
     \<not> list_ex (\<lambda>(k, v). v < 0) (ns_budgets s)"
  by (auto simp: check_node_spec_def)

lemma node_spec_budgets: "node_spec_ok s \<Longrightarrow> (k, v) \<in> set (ns_budgets s) \<Longrightarrow> 0 \<le> v"
  by (force simp: node_spec_ok_def check_node_spec_Inr list_ex_iff)

section \<open>Records\<close>

record graph_record =
  gp_graph_id :: string
  gp_root_run_id :: string
  gp_root_node_id :: string
  gp_tenant_key :: string
  gp_app_id :: string
  gp_source_resource_kind :: string
  gp_source_resource_id :: string
  gp_agent_definition_id :: string
  gp_agent_definition_version :: int
  gp_status :: graph_status
  gp_limits :: graph_limits
  gp_trace_id :: string

record agent_node =
  an_node_id :: string
  an_graph_id :: string
  an_parent_node_id :: "string option"
  an_canonical_path :: string
  an_spec :: node_spec
  an_depth :: int
  an_status :: node_status
  an_attempt_count :: int
  an_lease_owner :: "string option"
  an_lease_expires_at_ms :: "int option"

record mailbox_item =
  mi_item_id :: string
  mi_graph_id :: string
  mi_sender_node_id :: string
  mi_recipient_node_id :: string
  mi_kind :: mailbox_kind
  mi_sequence :: int
  mi_payload :: payload
  mi_state :: mailbox_state
  mi_correlation_id :: "string option"

record artifact_draft =
  rd_artifact_type :: string
  rd_payload :: payload
  rd_source_versions :: "(string \<times> string) list"
  rd_verification_state :: verification_state
  rd_sensitivity :: string
  rd_expires_at_ms :: "int option"

record artifact =
  rf_artifact_id :: string
  rf_graph_id :: string
  rf_producer_node_id :: string
  rf_artifact_type :: string
  rf_payload :: payload
  rf_source_versions :: "(string \<times> string) list"
  rf_verification_state :: verification_state

record agent_checkpoint =
  an_checkpoint_id :: string
  an_checkpoint_graph_id :: string
  an_checkpoint_node_id :: string
  an_checkpoint_sequence :: int
  an_checkpoint_state :: payload
  an_checkpoint_created_at_ms :: int

record resource_target =
  rg_tenant_key :: string
  rg_resource_type :: string
  rg_resource_id :: string
  rg_expected_revision :: "string option"

record write_scope_target =
  ws_resource_type :: string
  ws_resource_id :: string
  ws_expected_revision :: "string option"

definition check_write_scope_target :: "write_scope_target \<Rightarrow> exn + write_scope_target" where
  "check_write_scope_target t = (if ws_resource_type t = [] \<or> ws_resource_id t = []
     then Inl (ValueError ''write scope target identity is required'') else Inr t)"

record execution_input =
  xi_node :: agent_node
  xi_mailbox :: "mailbox_item list"
  xi_dependency_artifacts :: "artifact list"

record execution_result =
  xo_artifact :: artifact_draft
  xo_acknowledged_mail_ids :: "string list"

record execution_batch =
  xb_completed_artifacts :: "artifact list"
  xb_failed_node_ids :: "string list"

section \<open>Equality of decoded objects\<close>

text \<open>
  Python compares dictionaries without regard to order, and numbers by value across \<open>bool\<close>, \<open>int\<close>
  and \<open>float\<close>. \<open>py_norm\<close> brings a decoded value to a normal form: fields sorted by key, a boolean as
  its number, a float that prints as a decimal with one zero as its integer. A float is held as the text that \<open>repr\<close>
  prints: one that prints with an exponent (from \<open>1e+16\<close> on) is compared as that text, so never equal to an integer, and
  NaN is equal to itself here, which it is not in Python.
\<close>

definition digit_value :: "char \<Rightarrow> int" where
  "digit_value ch = of_char ch - 48"

definition all_digits :: "string \<Rightarrow> bool" where
  "all_digits s \<longleftrightarrow> s \<noteq> [] \<and> list_all (\<lambda>ch. 48 \<le> (of_char ch :: nat) \<and> (of_char ch :: nat) \<le> 57) s"

definition digits_value :: "string \<Rightarrow> int" where
  "digits_value s = foldl (\<lambda>n ch. 10 * n + digit_value ch) 0 s"

definition float_norm :: "string \<Rightarrow> json" where
  "float_norm t = (let body = take (length t - 2) t in
     if drop (length t - 2) t = ''.0'' \<and> all_digits body then JInt (digits_value body)
     else if drop (length t - 2) t = ''.0'' \<and> take 1 body = ''-'' \<and> all_digits (drop 1 body)
     then JInt (- digits_value (drop 1 body)) else JFloat t)"

fun py_norm :: "json \<Rightarrow> json" and norm_items :: "json list \<Rightarrow> json list"
  and norm_fields :: "payload \<Rightarrow> payload" where
  "py_norm JNull = JNull"
| "py_norm (JBool b) = JInt (if b then 1 else 0)"
| "py_norm (JInt i) = JInt i"
| "py_norm (JFloat f) = float_norm f"
| "py_norm (JStr s) = JStr s"
| "py_norm (JArr xs) = JArr (norm_items xs)"
| "py_norm (JObj kvs) = JObj (sort_key fst (norm_fields kvs))"
| "norm_items [] = []"
| "norm_items (x # xs) = py_norm x # norm_items xs"
| "norm_fields [] = []"
| "norm_fields ((k, v) # kvs) = (k, py_norm v) # norm_fields kvs"

definition py_eq :: "json \<Rightarrow> json \<Rightarrow> bool" where
  "py_eq v w \<longleftrightarrow> py_norm v = py_norm w"

lemma py_eq_refl [simp]: "py_eq v v"
  by (simp add: py_eq_def)

lemma py_eq_examples:
  "py_eq (JObj [(''a'', JInt 1), (''b'', JNull)]) (JObj [(''b'', JNull), (''a'', JFloat ''1.0'')])"
  "\<not> py_eq (JObj [(''a'', JInt 1)]) (JObj [(''a'', JInt 2)])"
  by code_simp+

end
