(* ===== verification/AgentSchema.thy ===== *)
theory AgentSchema
  imports AgentTypes
begin

text \<open>
  The multi-agent tables of \<open>storage/migrations.py\<close> (\<open>MULTI_AGENT_SCHEMA\<close> with the columns later
  migrations add) as one record of row lists, and the mapping of rows to the values of
  \<open>runtime/multi_agent.py\<close> that \<open>storage/agent_store.py\<close> returns.
\<close>

record graph_row =
  gr_graph_id :: string
  gr_root_run_id :: string
  gr_root_node_id :: string
  gr_tenant_key :: string
  gr_app_id :: string
  gr_source_resource_kind :: string
  gr_source_resource_id :: string
  gr_agent_definition_id :: string
  gr_agent_definition_version :: int
  gr_status :: graph_status
  gr_max_depth :: int
  gr_max_nodes :: int
  gr_max_concurrency :: int
  gr_created_at_ms :: int
  gr_updated_at_ms :: int
  gr_trace_id :: string

record 'b node_row =
  no_node_id :: string
  no_graph_id :: string
  no_parent_node_id :: "string option"
  no_canonical_path :: string
  no_name :: string
  no_role :: agent_role
  no_task_brief :: 'b
  no_expected_output_type :: string
  no_context_mode :: context_mode
  no_tool_ids :: 'b
  no_budget :: 'b
  no_deadline_ms :: "int option"
  no_depth :: int
  no_status :: node_status
  no_requires_write_scope :: bool
  no_lease_owner :: "string option"
  no_lease_expires_at_ms :: "int option"
  no_attempt_count :: int
  no_created_at_ms :: int
  no_updated_at_ms :: int

record edge_row =
  ed_graph_id :: string
  ed_predecessor_node_id :: string
  ed_dependent_node_id :: string
  ed_edge_kind :: string

record 'b mail_row =
  ma_item_id :: string
  ma_graph_id :: string
  ma_sender_node_id :: string
  ma_recipient_node_id :: string
  ma_kind :: mailbox_kind
  ma_correlation_id :: "string option"
  ma_sequence :: int
  ma_payload :: 'b
  ma_state :: mailbox_state
  ma_created_at_ms :: int
  ma_delivered_at_ms :: "int option"
  ma_acknowledged_at_ms :: "int option"

record 'b artifact_row =
  at_artifact_id :: string
  at_graph_id :: string
  at_producer_node_id :: string
  at_artifact_type :: string
  at_payload :: 'b
  at_source_versions :: 'b
  at_verification_state :: verification_state
  at_sensitivity :: string
  at_expires_at_ms :: "int option"
  at_created_at_ms :: int

record 'b node_checkpoint_row =
  nc_checkpoint_id :: string
  nc_graph_id :: string
  nc_node_id :: string
  nc_sequence :: int
  nc_state :: 'b
  nc_created_at_ms :: int

record lock_row =
  lk_tenant_key :: string
  lk_resource_type :: string
  lk_resource_id :: string
  lk_graph_id :: string
  lk_owner_node_id :: string
  lk_expected_revision :: "string option"
  lk_lease_expires_at_ms :: int
  lk_created_at_ms :: int

record ledger_row =
  lg_graph_id :: string
  lg_node_id :: string
  lg_budget_kind :: string
  lg_maximum :: int
  lg_reserved :: int
  lg_consumed :: int
  lg_updated_at_ms :: int

record 'b ag_db =
  ag_graphs :: "graph_row list"
  ag_nodes :: "'b node_row list"
  ag_edges :: "edge_row list"
  ag_mailbox :: "'b mail_row list"
  ag_artifacts :: "'b artifact_row list"
  ag_checkpoints :: "'b node_checkpoint_row list"
  ag_locks :: "lock_row list"
  ag_ledger :: "ledger_row list"

definition empty_graph_db :: "'b ag_db" where
  "empty_graph_db = \<lparr>ag_graphs = [], ag_nodes = [], ag_edges = [], ag_mailbox = [], ag_artifacts = [],
     ag_checkpoints = [], ag_locks = [], ag_ledger = []\<rparr>"

section \<open>Associated data\<close>

definition node_aad :: "string \<Rightarrow> string \<Rightarrow> string" where
  "node_aad i fld = ''runtime_agent_nodes:'' @ i @ '':'' @ fld @ '':v1''"

definition mail_aad :: "string \<Rightarrow> string" where
  "mail_aad i = ''runtime_mailbox:'' @ i @ '':v1''"

definition artifact_aad :: "string \<Rightarrow> string \<Rightarrow> string" where
  "artifact_aad i fld = ''runtime_artifacts:'' @ i @ '':'' @ fld @ '':v1''"

definition node_checkpoint_aad :: "string \<Rightarrow> string" where
  "node_checkpoint_aad i = ''runtime_agent_checkpoints:'' @ i @ '':state:v1''"

definition agent_decrypt :: "'b cipher \<Rightarrow> 'b \<Rightarrow> string \<Rightarrow> exn + payload" where
  "agent_decrypt c = decrypt_json c ''stored Agent coordination payload must be an object''"

lemma agent_decrypt_encrypt [simp]:
  "opens_sealed c \<Longrightarrow> agent_decrypt c (encrypt_json c v aad) aad = Inr v"
  by (simp add: agent_decrypt_def)

definition decrypt_text :: "'b cipher \<Rightarrow> 'b \<Rightarrow> string \<Rightarrow> exn + string" where
  "decrypt_text c blob aad = (case unseal_bytes c aad blob of
     None \<Rightarrow> Inl (OtherError ''InvalidTag'' []) | Some s \<Rightarrow> Inr s)"

lemma decrypt_text_seal [simp]:
  "opens_sealed c \<Longrightarrow> decrypt_text c (seal_bytes c aad s) aad = Inr s"
  by (simp add: decrypt_text_def opens_sealed_def)

section \<open>Reading rows\<close>

text \<open>\<open>_graph\<close>\<close>

definition graph_of_row :: "graph_row \<Rightarrow> exn + graph_record" where
  "graph_of_row r =
     chain (check_graph_limits \<lparr>gl_max_depth = gr_max_depth r, gl_max_nodes = gr_max_nodes r,
        gl_max_concurrency = gr_max_concurrency r\<rparr>) (\<lambda>limits.
     Inr \<lparr>gp_graph_id = gr_graph_id r, gp_root_run_id = gr_root_run_id r,
       gp_root_node_id = gr_root_node_id r, gp_tenant_key = gr_tenant_key r, gp_app_id = gr_app_id r,
       gp_source_resource_kind = gr_source_resource_kind r,
       gp_source_resource_id = gr_source_resource_id r,
       gp_agent_definition_id = gr_agent_definition_id r,
       gp_agent_definition_version = gr_agent_definition_version r, gp_status = gr_status r,
       gp_limits = limits, gp_trace_id = gr_trace_id r\<rparr>)"

text \<open>\<open>_dependencies\<close>\<close>

definition depends_on :: "string \<Rightarrow> string \<Rightarrow> edge_row \<Rightarrow> bool" where
  "depends_on dependent pred e \<longleftrightarrow> ed_dependent_node_id e = dependent \<and> ed_predecessor_node_id e = pred \<and>
     ed_edge_kind e = ''depends_on''"

definition dependencies :: "string \<Rightarrow> 'b ag_db \<Rightarrow> string list" where
  "dependencies i db = sort (map ed_predecessor_node_id
     (filter (\<lambda>e. ed_dependent_node_id e = i \<and> ed_edge_kind e = ''depends_on'') (ag_edges db)))"

text \<open>\<open>_node\<close>: opening the sealed columns and validating the specification again.\<close>

definition node_budgets :: "'b cipher \<Rightarrow> 'b node_row \<Rightarrow> exn + (string \<times> int) list" where
  "node_budgets c r = chain (agent_decrypt c (no_budget r) (node_aad (no_node_id r) ''budget''))
     (\<lambda>d. int_dict (JObj d))"

definition node_of_row :: "'b cipher \<Rightarrow> string list \<Rightarrow> 'b node_row \<Rightarrow> exn + agent_node" where
  "node_of_row c deps r =
     chain (agent_decrypt c (no_tool_ids r) (node_aad (no_node_id r) ''tools'')) (\<lambda>tools.
     chain (node_budgets c r) (\<lambda>budgets.
     chain (decrypt_text c (no_task_brief r) (node_aad (no_node_id r) ''task'')) (\<lambda>brief.
     chain (chain (json_at tools ''tool_ids'') as_strs) (\<lambda>tool_ids.
     chain (check_node_spec \<lparr>ns_name = no_name r, ns_role = no_role r, ns_task_brief = brief,
         ns_expected_output_type = no_expected_output_type r, ns_tool_ids = tool_ids,
         ns_budgets = budgets, ns_context_mode = no_context_mode r, ns_deadline_ms = no_deadline_ms r,
         ns_dependency_node_ids = deps, ns_requires_write_scope = no_requires_write_scope r\<rparr>) (\<lambda>spec.
     Inr \<lparr>an_node_id = no_node_id r, an_graph_id = no_graph_id r,
       an_parent_node_id = no_parent_node_id r, an_canonical_path = no_canonical_path r,
       an_spec = spec, an_depth = no_depth r, an_status = no_status r,
       an_attempt_count = no_attempt_count r, an_lease_owner = no_lease_owner r,
       an_lease_expires_at_ms = no_lease_expires_at_ms r\<rparr>)))))"

text \<open>\<open>_node_with_lease\<close>\<close>

definition node_with_lease :: "'b cipher \<Rightarrow> string \<Rightarrow> int \<Rightarrow> string list \<Rightarrow> 'b node_row \<Rightarrow> exn + agent_node" where
  "node_with_lease c worker expires deps r = chain (node_of_row c deps r) (\<lambda>n.
     Inr (n\<lparr>an_status := NodeRunning, an_attempt_count := an_attempt_count n + 1,
       an_lease_owner := Some worker, an_lease_expires_at_ms := Some expires\<rparr>))"

text \<open>\<open>_mail\<close> and \<open>_artifact\<close>\<close>

definition mail_of_row :: "'b cipher \<Rightarrow> mailbox_state \<Rightarrow> 'b mail_row \<Rightarrow> exn + mailbox_item" where
  "mail_of_row c st r = chain (agent_decrypt c (ma_payload r) (mail_aad (ma_item_id r))) (\<lambda>p.
     Inr \<lparr>mi_item_id = ma_item_id r, mi_graph_id = ma_graph_id r,
       mi_sender_node_id = ma_sender_node_id r, mi_recipient_node_id = ma_recipient_node_id r,
       mi_kind = ma_kind r, mi_sequence = ma_sequence r, mi_payload = p, mi_state = st,
       mi_correlation_id = ma_correlation_id r\<rparr>)"

definition artifact_of_row :: "'b cipher \<Rightarrow> 'b artifact_row \<Rightarrow> exn + artifact" where
  "artifact_of_row c r =
     chain (agent_decrypt c (at_payload r) (artifact_aad (at_artifact_id r) ''payload'')) (\<lambda>p.
     chain (chain (agent_decrypt c (at_source_versions r) (artifact_aad (at_artifact_id r) ''sources''))
        (\<lambda>d. str_dict (JObj d))) (\<lambda>versions.
     Inr \<lparr>rf_artifact_id = at_artifact_id r, rf_graph_id = at_graph_id r,
       rf_producer_node_id = at_producer_node_id r, rf_artifact_type = at_artifact_type r,
       rf_payload = p, rf_source_versions = versions,
       rf_verification_state = at_verification_state r\<rparr>))"

end
