(* ===== verification/GraphStore.thy ===== *)
theory GraphStore
  imports AgentSchema
begin

text \<open>
  The life of agent nodes in \<open>storage/agent_store.py\<close>: graphs and their root, spawning with the
  reservation of the child's budget at its parent, activation, leasing of ready nodes, completion,
  failure, interruption and the cancellation of a subtree. Identifiers drawn with \<open>uuid4\<close> are
  arguments.
\<close>

section \<open>Finding rows\<close>

definition find_graph :: "string \<Rightarrow> 'b ag_db \<Rightarrow> graph_row option" where
  "find_graph i db = find (\<lambda>g. gr_graph_id g = i) (ag_graphs db)"

definition find_node :: "string \<Rightarrow> 'b ag_db \<Rightarrow> 'b node_row option" where
  "find_node i db = find (\<lambda>n. no_node_id n = i) (ag_nodes db)"

definition get_graph :: "string \<Rightarrow> 'b ag_db \<Rightarrow> exn + graph_record" where
  "get_graph i db = (case find_graph i db of
     None \<Rightarrow> Inl (LookupError (''graph does not exist: '' @ i)) | Some r \<Rightarrow> graph_of_row r)"

definition find_graph_by_root_run :: "string \<Rightarrow> 'b ag_db \<Rightarrow> exn + graph_record option" where
  "find_graph_by_root_run i db = (case find (\<lambda>g. gr_root_run_id g = i) (ag_graphs db) of
     None \<Rightarrow> Inr None | Some r \<Rightarrow> chain (graph_of_row r) (\<lambda>g. Inr (Some g)))"

definition get_node :: "'b cipher \<Rightarrow> string \<Rightarrow> 'b ag_db \<Rightarrow> exn + agent_node" where
  "get_node c i db = (case find_node i db of
     None \<Rightarrow> Inl (LookupError (''Agent node does not exist: '' @ i))
   | Some r \<Rightarrow> node_of_row c (dependencies i db) r)"

definition list_nodes :: "'b cipher \<Rightarrow> string \<Rightarrow> 'b ag_db \<Rightarrow> exn + agent_node list" where
  "list_nodes c i db = decode_all (\<lambda>r. node_of_row c (dependencies (no_node_id r) db) r)
     (sort_key (\<lambda>n. (no_depth n, no_canonical_path n)) (filter (\<lambda>n. no_graph_id n = i) (ag_nodes db)))"

section \<open>Budgets of the parent\<close>

text \<open>\<open>_reserve_parent_budget\<close>\<close>

fun reserve_parent_budget ::
  "string \<Rightarrow> string \<Rightarrow> (string \<times> int) list \<Rightarrow> int \<Rightarrow> ledger_row list \<Rightarrow> exn + ledger_row list" where
  "reserve_parent_budget gid parent [] now ledger = Inr ledger"
| "reserve_parent_budget gid parent ((kind, amount) # budgets) now ledger =
     (let fits = (\<lambda>b. lg_graph_id b = gid \<and> lg_node_id b = parent \<and> lg_budget_kind b = kind \<and>
        amount \<le> lg_maximum b - lg_reserved b - lg_consumed b)
      in if count_where fits ledger \<noteq> 1 then Inl (ValueError (''insufficient parent budget: '' @ kind))
         else reserve_parent_budget gid parent budgets now
           (update_where fits (\<lambda>b. b\<lparr>lg_reserved := lg_reserved b + amount, lg_updated_at_ms := now\<rparr>) ledger))"

text \<open>\<open>_release_parent_budget\<close>\<close>

definition ledger_cell :: "string \<Rightarrow> string \<Rightarrow> string \<Rightarrow> ledger_row \<Rightarrow> bool" where
  "ledger_cell gid i kind b \<longleftrightarrow> lg_graph_id b = gid \<and> lg_node_id b = i \<and> lg_budget_kind b = kind"

fun release_amounts ::
  "string \<Rightarrow> string \<Rightarrow> (string \<times> int) list \<Rightarrow> int \<Rightarrow> ledger_row list \<Rightarrow> ledger_row list" where
  "release_amounts gid parent [] now ledger = ledger"
| "release_amounts gid parent ((kind, amount) # budgets) now ledger =
     release_amounts gid parent budgets now
       (update_where (ledger_cell gid parent kind)
          (\<lambda>b. b\<lparr>lg_reserved := max 0 (lg_reserved b - amount), lg_updated_at_ms := now\<rparr>) ledger)"

definition release_parent_budget :: "'b cipher \<Rightarrow> 'b node_row \<Rightarrow> int \<Rightarrow> 'b ag_db \<Rightarrow> exn + 'b ag_db" where
  "release_parent_budget c n now db = (case no_parent_node_id n of
     None \<Rightarrow> Inr db
   | Some parent \<Rightarrow> chain (node_budgets c n) (\<lambda>budgets.
       Inr (db\<lparr>ag_ledger := release_amounts (no_graph_id n) parent budgets now (ag_ledger db)\<rparr>)))"

section \<open>Inserting nodes\<close>

fun insert_ledger ::
  "string \<Rightarrow> string \<Rightarrow> (string \<times> int) list \<Rightarrow> int \<Rightarrow> ledger_row list \<Rightarrow> exn + ledger_row list" where
  "insert_ledger gid i [] now ledger = Inr ledger"
| "insert_ledger gid i ((kind, maximum) # budgets) now ledger =
     (if list_ex (ledger_cell gid i kind) ledger
      then Inl (IntegrityError ''UNIQUE constraint failed: runtime_budget_ledger'')
      else insert_ledger gid i budgets now (ledger @
        [\<lparr>lg_graph_id = gid, lg_node_id = i, lg_budget_kind = kind, lg_maximum = maximum,
          lg_reserved = 0, lg_consumed = 0, lg_updated_at_ms = now\<rparr>]))"

definition new_node_row ::
  "'b cipher \<Rightarrow> string \<Rightarrow> string \<Rightarrow> string option \<Rightarrow> string \<Rightarrow> node_spec \<Rightarrow> int \<Rightarrow> node_status \<Rightarrow> int \<Rightarrow> 'b node_row"
where
  "new_node_row c i gid parent path spec depth status now =
     \<lparr>no_node_id = i, no_graph_id = gid, no_parent_node_id = parent, no_canonical_path = path,
      no_name = ns_name spec, no_role = ns_role spec,
      no_task_brief = seal_bytes c (node_aad i ''task'') (ns_task_brief spec),
      no_expected_output_type = ns_expected_output_type spec, no_context_mode = ns_context_mode spec,
      no_tool_ids = encrypt_json c [(''tool_ids'', jstrs (ns_tool_ids spec))] (node_aad i ''tools''),
      no_budget = encrypt_json c (map (\<lambda>(k, v). (k, JInt v)) (ns_budgets spec)) (node_aad i ''budget''),
      no_deadline_ms = ns_deadline_ms spec, no_depth = depth, no_status = status,
      no_requires_write_scope = ns_requires_write_scope spec, no_lease_owner = None,
      no_lease_expires_at_ms = None, no_attempt_count = 0, no_created_at_ms = now,
      no_updated_at_ms = now\<rparr>"

text \<open>The uniqueness constraints of the table: identity, path in the graph, name among siblings.\<close>

definition node_conflict :: "'b node_row \<Rightarrow> 'b node_row \<Rightarrow> bool" where
  "node_conflict n m \<longleftrightarrow> no_node_id m = no_node_id n \<or>
     no_graph_id m = no_graph_id n \<and> (no_canonical_path m = no_canonical_path n \<or>
       no_parent_node_id n \<noteq> None \<and> no_parent_node_id m = no_parent_node_id n \<and> no_name m = no_name n)"

definition insert_node ::
  "'b node_row \<Rightarrow> (string \<times> int) list \<Rightarrow> int \<Rightarrow> 'b ag_db \<Rightarrow> exn + 'b ag_db" where
  "insert_node n budgets now db =
     (if list_ex (node_conflict n) (ag_nodes db)
      then Inl (IntegrityError ''UNIQUE constraint failed: runtime_agent_nodes'')
      else if find_graph (no_graph_id n) db = None \<or>
        (case no_parent_node_id n of None \<Rightarrow> False | Some p \<Rightarrow> find_node p db = None)
      then Inl (IntegrityError ''FOREIGN KEY constraint failed'')
      else chain (insert_ledger (no_graph_id n) (no_node_id n) budgets now (ag_ledger db)) (\<lambda>ledger.
        Inr (db\<lparr>ag_nodes := ag_nodes db @ [n], ag_ledger := ledger\<rparr>)))"

fun insert_edges :: "string \<Rightarrow> string \<Rightarrow> string list \<Rightarrow> edge_row list \<Rightarrow> exn + edge_row list" where
  "insert_edges gid i [] edges = Inr edges"
| "insert_edges gid i (d # ds) edges =
     (let e = \<lparr>ed_graph_id = gid, ed_predecessor_node_id = d, ed_dependent_node_id = i,
               ed_edge_kind = ''depends_on''\<rparr>
      in if List.member edges e
         then Inl (IntegrityError ''UNIQUE constraint failed: runtime_agent_edges'')
         else insert_edges gid i ds (edges @ [e]))"

section \<open>Creating graphs and spawning children\<close>

definition spawned_node ::
  "string \<Rightarrow> string \<Rightarrow> string option \<Rightarrow> string \<Rightarrow> node_spec \<Rightarrow> int \<Rightarrow> node_status \<Rightarrow> agent_node" where
  "spawned_node i gid parent path spec depth status =
     \<lparr>an_node_id = i, an_graph_id = gid, an_parent_node_id = parent, an_canonical_path = path,
      an_spec = spec, an_depth = depth, an_status = status, an_attempt_count = 0,
      an_lease_owner = None, an_lease_expires_at_ms = None\<rparr>"

definition new_graph_row :: "graph_record \<Rightarrow> int \<Rightarrow> graph_row" where
  "new_graph_row g now =
     \<lparr>gr_graph_id = gp_graph_id g, gr_root_run_id = gp_root_run_id g,
      gr_root_node_id = gp_root_node_id g, gr_tenant_key = gp_tenant_key g, gr_app_id = gp_app_id g,
      gr_source_resource_kind = gp_source_resource_kind g,
      gr_source_resource_id = gp_source_resource_id g,
      gr_agent_definition_id = gp_agent_definition_id g,
      gr_agent_definition_version = gp_agent_definition_version g, gr_status = GraphActive,
      gr_max_depth = gl_max_depth (gp_limits g), gr_max_nodes = gl_max_nodes (gp_limits g),
      gr_max_concurrency = gl_max_concurrency (gp_limits g), gr_created_at_ms = now,
      gr_updated_at_ms = now, gr_trace_id = gp_trace_id g\<rparr>"

text \<open>
  \<open>create_graph\<close>: the arguments that become the record are given as one, with the status the code
  fixes and the trace identity it falls back to.
\<close>

definition create_graph_tx ::
  "'b cipher \<Rightarrow> graph_record \<Rightarrow> node_spec \<Rightarrow> int \<Rightarrow> ('b ag_db, graph_record \<times> agent_node) tx" where
  "create_graph_tx c g root_spec now db =
     (let g = g\<lparr>gp_status := GraphActive,
                gp_trace_id := (if gp_trace_id g = [] then gp_root_run_id g else gp_trace_id g)\<rparr>;
          root = gp_root_node_id g; gid = gp_graph_id g in
      if list_ex (\<lambda>r. gr_graph_id r = gid \<or> gr_root_run_id r = gp_root_run_id g \<or>
           gr_root_node_id r = root) (ag_graphs db)
      then Inl (IntegrityError ''UNIQUE constraint failed: runtime_graphs'')
      else chain (insert_node (new_node_row c root gid None ''/root'' root_spec 1 NodeReady now)
             (ns_budgets root_spec) now (db\<lparr>ag_graphs := ag_graphs db @ [new_graph_row g now]\<rparr>)) (\<lambda>db.
        Inr ((g, spawned_node root gid None ''/root'' root_spec 1 NodeReady), db)))"

definition create_graph ::
  "'b cipher \<Rightarrow> graph_record \<Rightarrow> node_spec \<Rightarrow> int \<Rightarrow> ('b ag_db, graph_record \<times> agent_node) eff" where
  "create_graph c g root_spec now = transaction (create_graph_tx c g root_spec now)"

definition node_in_graph :: "string \<Rightarrow> string \<Rightarrow> 'b node_row \<Rightarrow> bool" where
  "node_in_graph gid i n \<longleftrightarrow> no_node_id n = i \<and> no_graph_id n = gid"

definition set_node :: "('b node_row \<Rightarrow> bool) \<Rightarrow> ('b node_row \<Rightarrow> 'b node_row) \<Rightarrow> 'b ag_db \<Rightarrow> 'b ag_db" where
  "set_node P f db = db\<lparr>ag_nodes := update_where P f (ag_nodes db)\<rparr>"

definition move_node :: "node_status \<Rightarrow> int \<Rightarrow> 'b node_row \<Rightarrow> 'b node_row" where
  "move_node st now n = n\<lparr>no_status := st, no_updated_at_ms := now\<rparr>"

definition put_waiting :: "string \<Rightarrow> int \<Rightarrow> 'b node_row \<Rightarrow> 'b ag_db \<Rightarrow> 'b ag_db" where
  "put_waiting parent now row db =
     (if no_status row \<in> {NodeReady, NodeInterrupted}
      then set_node (\<lambda>n. no_node_id n = parent) (move_node NodeWaiting now) db else db)"

definition spawn_child_tx ::
  "'b cipher \<Rightarrow> string \<Rightarrow> string \<Rightarrow> string \<Rightarrow> node_spec \<Rightarrow> bool \<Rightarrow> int \<Rightarrow> ('b ag_db, agent_node) tx" where
  "spawn_child_tx c i gid parent spec ready now db =
     (case find_graph gid db of
        None \<Rightarrow> Inl (RuntimeError ''graph is not active'')
      | Some g \<Rightarrow>
     if gr_status g \<noteq> GraphActive then Inl (RuntimeError ''graph is not active'') else
     (case find (node_in_graph gid parent) (ag_nodes db) of
        None \<Rightarrow> Inl (LookupError ''parent node does not exist in graph'')
      | Some p \<Rightarrow>
     if gr_max_nodes g \<le> int (count_where (\<lambda>n. no_graph_id n = gid) (ag_nodes db))
     then Inl (ValueError ''graph node limit exceeded'') else
     if gr_max_depth g < no_depth p + 1 then Inl (ValueError ''graph depth limit exceeded'') else
     if list_ex (\<lambda>d. \<not> list_ex (node_in_graph gid d) (ag_nodes db)) (ns_dependency_node_ids spec)
     then Inl (ValueError ''dependency does not belong to graph'') else
     (let status = (if ready then NodeReady else NodeCreated);
          path = no_canonical_path p @ ''/'' @ ns_name spec;
          db1 = put_waiting parent now p db in
      chain (reserve_parent_budget gid parent (ns_budgets spec) now (ag_ledger db1)) (\<lambda>ledger.
      chain (insert_node (new_node_row c i gid (Some parent) path spec (no_depth p + 1) status now)
               (ns_budgets spec) now (db1\<lparr>ag_ledger := ledger\<rparr>)) (\<lambda>db2.
      chain (insert_edges gid i (ns_dependency_node_ids spec) (ag_edges db2)) (\<lambda>edges.
        Inr (spawned_node i gid (Some parent) path spec (no_depth p + 1) status,
             db2\<lparr>ag_edges := edges\<rparr>)))))))"

definition spawn_child ::
  "'b cipher \<Rightarrow> string \<Rightarrow> string \<Rightarrow> string \<Rightarrow> node_spec \<Rightarrow> bool \<Rightarrow> int \<Rightarrow> ('b ag_db, agent_node) eff" where
  "spawn_child c i gid parent spec ready now = transaction (spawn_child_tx c i gid parent spec ready now)"

section \<open>Activation and leasing\<close>

definition activate_node_tx :: "string \<Rightarrow> int \<Rightarrow> ('b ag_db, 'b node_row) tx" where
  "activate_node_tx i now db =
     (let P = (\<lambda>n. no_node_id n = i \<and> no_status n = NodeCreated);
          db1 = set_node P (move_node NodeReady now) db
      in case find_node i db1 of
           None \<Rightarrow> Inl (LookupError ''Agent node does not exist'')
         | Some r \<Rightarrow> if count_where P (ag_nodes db) \<noteq> 1 \<and> no_status r \<noteq> NodeReady
             then Inl (RuntimeError ''only a created node can be activated'') else Inr (r, db1))"

text \<open>The row is decoded after the commit, so a decoding error leaves the activation in place.\<close>

definition activate_node :: "'b cipher \<Rightarrow> string \<Rightarrow> int \<Rightarrow> ('b ag_db, agent_node) eff" where
  "activate_node c i now db = (case transaction (activate_node_tx i now) db of
     (Inl e, db') \<Rightarrow> (Inl e, db') | (Inr r, db') \<Rightarrow> (node_of_row c (dependencies i db) r, db'))"

definition node_expired :: "string \<Rightarrow> int \<Rightarrow> 'b node_row \<Rightarrow> bool" where
  "node_expired gid now n \<longleftrightarrow> no_graph_id n = gid \<and> no_status n = NodeRunning \<and>
     null_le (no_lease_expires_at_ms n) now"

definition unleased :: "node_status \<Rightarrow> int \<Rightarrow> 'b node_row \<Rightarrow> 'b node_row" where
  "unleased st now n = n\<lparr>no_status := st, no_lease_owner := None, no_lease_expires_at_ms := None,
     no_updated_at_ms := now\<rparr>"

definition drop_expired_locks :: "int \<Rightarrow> 'b ag_db \<Rightarrow> 'b ag_db" where
  "drop_expired_locks now db =
     db\<lparr>ag_locks := delete_where (\<lambda>k. lk_lease_expires_at_ms k \<le> now) (ag_locks db)\<rparr>"

definition open_child :: "'b ag_db \<Rightarrow> string \<Rightarrow> bool" where
  "open_child db i \<longleftrightarrow>
     list_ex (\<lambda>m. no_parent_node_id m = Some i \<and> \<not> node_terminal (no_status m)) (ag_nodes db)"

definition open_dependency :: "'b ag_db \<Rightarrow> 'b node_row \<Rightarrow> bool" where
  "open_dependency db n \<longleftrightarrow> list_ex (\<lambda>e. ed_graph_id e = no_graph_id n \<and>
     ed_dependent_node_id e = no_node_id n \<and> ed_edge_kind e = ''depends_on'' \<and>
     list_ex (\<lambda>p. no_node_id p = ed_predecessor_node_id e \<and> no_status p \<noteq> NodeCompleted) (ag_nodes db))
     (ag_edges db)"

definition node_leasable :: "string \<Rightarrow> int \<Rightarrow> 'b ag_db \<Rightarrow> 'b node_row \<Rightarrow> bool" where
  "node_leasable gid now db n \<longleftrightarrow> no_graph_id n = gid \<and> no_status n \<in> {NodeReady, NodeInterrupted} \<and>
     (no_deadline_ms n = None \<or> null_gt (no_deadline_ms n) now) \<and>
     \<not> open_child db (no_node_id n) \<and> \<not> open_dependency db n"

definition running_count :: "string \<Rightarrow> 'b ag_db \<Rightarrow> nat" where
  "running_count gid db = count_where (\<lambda>n. no_graph_id n = gid \<and> no_status n = NodeRunning) (ag_nodes db)"

definition ready_rows :: "string \<Rightarrow> int \<Rightarrow> int \<Rightarrow> 'b ag_db \<Rightarrow> 'b node_row list" where
  "ready_rows gid now capacity db = take (nat capacity)
     (sort_key (\<lambda>n. (- no_depth n, no_created_at_ms n, no_node_id n))
        (filter (node_leasable gid now db) (ag_nodes db)))"

definition run_node :: "string \<Rightarrow> int \<Rightarrow> int \<Rightarrow> 'b node_row \<Rightarrow> 'b node_row" where
  "run_node worker expires now n = n\<lparr>no_status := NodeRunning, no_lease_owner := Some worker,
     no_lease_expires_at_ms := Some expires, no_attempt_count := no_attempt_count n + 1,
     no_updated_at_ms := now\<rparr>"

definition reclaim_nodes :: "string \<Rightarrow> int \<Rightarrow> 'b ag_db \<Rightarrow> 'b ag_db" where
  "reclaim_nodes gid now db =
     drop_expired_locks now (set_node (node_expired gid now) (unleased NodeReady now) db)"

definition lease_ready_tx ::
  "'b cipher \<Rightarrow> string \<Rightarrow> string \<Rightarrow> int \<Rightarrow> int \<Rightarrow> int \<Rightarrow> ('b ag_db, agent_node list) tx" where
  "lease_ready_tx c gid worker now lease limit db =
     (let db1 = reclaim_nodes gid now db in
      case find_graph gid db1 of
        None \<Rightarrow> Inr ([], db1)
      | Some g \<Rightarrow>
        if gr_status g \<noteq> GraphActive then Inr ([], db1) else
        (let capacity = max 0 (min limit (gr_max_concurrency g - int (running_count gid db1))) in
         if capacity = 0 then Inr ([], db1) else
         (let rows = ready_rows gid now capacity db1; expires = now + lease;
              db2 = set_node (\<lambda>n. List.member (map no_node_id rows) (no_node_id n))
                (run_node worker expires now) db1
          in chain (decode_all (\<lambda>r. node_with_lease c worker expires (dependencies (no_node_id r) db1) r) rows)
               (\<lambda>leased. Inr (leased, db2)))))"

definition lease_ready ::
  "'b cipher \<Rightarrow> string \<Rightarrow> string \<Rightarrow> int \<Rightarrow> int \<Rightarrow> int \<Rightarrow> ('b ag_db, agent_node list) eff" where
  "lease_ready c gid worker now lease limit =
     (if lease < 1 \<or> limit < 1 \<or> worker = []
      then raise (ValueError ''worker, lease, and limit must be positive'')
      else transaction (lease_ready_tx c gid worker now lease limit))"

section \<open>Leaving the running state\<close>

definition drop_locks_of :: "string \<Rightarrow> 'b ag_db \<Rightarrow> 'b ag_db" where
  "drop_locks_of i db = db\<lparr>ag_locks := delete_where (\<lambda>k. lk_owner_node_id k = i) (ag_locks db)\<rparr>"

text \<open>\<open>_wake_parent\<close>\<close>

definition wake_parent :: "string option \<Rightarrow> int \<Rightarrow> 'b ag_db \<Rightarrow> 'b ag_db" where
  "wake_parent parent now db = (case parent of
     None \<Rightarrow> db
   | Some p \<Rightarrow> if open_child db p then db
       else set_node (\<lambda>n. no_node_id n = p \<and> no_status n = NodeWaiting) (move_node NodeReady now) db)"

text \<open>\<open>_block_dependents\<close>: the rows are fetched before the loop changes any of them.\<close>

definition open_dependents :: "string \<Rightarrow> 'b ag_db \<Rightarrow> 'b node_row list" where
  "open_dependents i db = concat (map (\<lambda>e.
     if ed_predecessor_node_id e = i \<and> ed_edge_kind e = ''depends_on''
     then filter (\<lambda>n. no_node_id n = ed_dependent_node_id e \<and> \<not> node_terminal (no_status n)) (ag_nodes db)
     else []) (ag_edges db))"

fun block_all :: "'b cipher \<Rightarrow> 'b node_row list \<Rightarrow> int \<Rightarrow> 'b ag_db \<Rightarrow> exn + 'b ag_db" where
  "block_all c [] now db = Inr db"
| "block_all c (n # ns) now db =
     chain (release_parent_budget c n now
        (set_node (\<lambda>m. no_node_id m = no_node_id n) (unleased NodeBlocked now) db)) (\<lambda>db1.
     block_all c ns now (wake_parent (no_parent_node_id n) now db1))"

definition block_dependents :: "'b cipher \<Rightarrow> string \<Rightarrow> int \<Rightarrow> 'b ag_db \<Rightarrow> exn + 'b ag_db" where
  "block_dependents c i now db = block_all c (open_dependents i db) now db"

definition running_for :: "string \<Rightarrow> string \<Rightarrow> 'b node_row \<Rightarrow> bool" where
  "running_for i worker n \<longleftrightarrow> no_node_id n = i \<and> no_status n = NodeRunning \<and> no_lease_owner n = Some worker"

text \<open>The row leaves the running state for a terminal one, its locks go, its budget is given back.\<close>

definition settle_node :: "'b cipher \<Rightarrow> node_status \<Rightarrow> 'b node_row \<Rightarrow> int \<Rightarrow> 'b ag_db \<Rightarrow> exn + 'b ag_db" where
  "settle_node c st n now db = release_parent_budget c n now (drop_locks_of (no_node_id n)
     (set_node (\<lambda>m. no_node_id m = no_node_id n) (unleased st now) db))"

definition fail_node_tx :: "'b cipher \<Rightarrow> string \<Rightarrow> string \<Rightarrow> int \<Rightarrow> ('b ag_db, unit) tx" where
  "fail_node_tx c i worker now db = (case find (running_for i worker) (ag_nodes db) of
     None \<Rightarrow> Inl (RuntimeError ''Agent node lease is not owned by worker'')
   | Some n \<Rightarrow> chain (settle_node c NodeFailed n now db) (\<lambda>db1.
       chain (block_dependents c i now db1) (\<lambda>db2.
         Inr ((), wake_parent (no_parent_node_id n) now db2))))"

definition fail_node :: "'b cipher \<Rightarrow> string \<Rightarrow> string \<Rightarrow> int \<Rightarrow> ('b ag_db, unit) eff" where
  "fail_node c i worker now = transaction (fail_node_tx c i worker now)"

definition interruptible :: "string \<Rightarrow> 'b node_row \<Rightarrow> bool" where
  "interruptible i n \<longleftrightarrow> no_node_id n = i \<and> no_status n \<in> {NodeReady, NodeRunning, NodeWaiting}"

definition interrupt_node_tx :: "string \<Rightarrow> int \<Rightarrow> ('b ag_db, unit) tx" where
  "interrupt_node_tx i now db =
     (if count_where (interruptible i) (ag_nodes db) \<noteq> 1
      then Inl (RuntimeError ''Agent node is not interruptible'')
      else Inr ((), drop_locks_of i (set_node (interruptible i) (unleased NodeInterrupted now) db)))"

definition interrupt_node :: "string \<Rightarrow> int \<Rightarrow> ('b ag_db, unit) eff" where
  "interrupt_node i now = transaction (interrupt_node_tx i now)"

definition new_artifact_row ::
  "'b cipher \<Rightarrow> string \<Rightarrow> artifact_draft \<Rightarrow> 'b node_row \<Rightarrow> int \<Rightarrow> 'b artifact_row" where
  "new_artifact_row c aid d n now =
     \<lparr>at_artifact_id = aid, at_graph_id = no_graph_id n, at_producer_node_id = no_node_id n,
      at_artifact_type = rd_artifact_type d,
      at_payload = encrypt_json c (rd_payload d) (artifact_aad aid ''payload''),
      at_source_versions = encrypt_json c (map (\<lambda>(k, v). (k, JStr v)) (rd_source_versions d))
        (artifact_aad aid ''sources''),
      at_verification_state = rd_verification_state d, at_sensitivity = rd_sensitivity d,
      at_expires_at_ms = rd_expires_at_ms d, at_created_at_ms = now\<rparr>"

definition complete_node_tx ::
  "'b cipher \<Rightarrow> string \<Rightarrow> string \<Rightarrow> string \<Rightarrow> artifact_draft \<Rightarrow> int \<Rightarrow> ('b ag_db, artifact) tx" where
  "complete_node_tx c aid i worker d now db = (case find (running_for i worker) (ag_nodes db) of
     None \<Rightarrow> Inl (RuntimeError ''Agent node lease is not owned by worker'')
   | Some n \<Rightarrow>
     if list_ex (\<lambda>a. at_artifact_id a = aid) (ag_artifacts db)
     then Inl (IntegrityError ''UNIQUE constraint failed: runtime_artifacts'')
     else chain (settle_node c NodeCompleted n now
         (db\<lparr>ag_artifacts := ag_artifacts db @ [new_artifact_row c aid d n now]\<rparr>)) (\<lambda>db1.
       Inr (\<lparr>rf_artifact_id = aid, rf_graph_id = no_graph_id n, rf_producer_node_id = i,
              rf_artifact_type = rd_artifact_type d, rf_payload = rd_payload d,
              rf_source_versions = rd_source_versions d,
              rf_verification_state = rd_verification_state d\<rparr>,
            wake_parent (no_parent_node_id n) now db1)))"

definition complete_node ::
  "'b cipher \<Rightarrow> string \<Rightarrow> string \<Rightarrow> string \<Rightarrow> artifact_draft \<Rightarrow> int \<Rightarrow> ('b ag_db, artifact) eff" where
  "complete_node c aid i worker d now = transaction (complete_node_tx c aid i worker d now)"

section \<open>Cancelling a subtree\<close>

text \<open>
  The recursive query of \<open>cancel_subtree\<close> takes one identifier from its queue and appends the
  children of that node. A row has one parent, so it can enter the queue only when that parent
  leaves it; removing the rows that have entered bounds the recursion. Parents are fixed at
  insertion and point to older rows, so no row can enter twice.
\<close>

function descendants :: "string list \<Rightarrow> 'b node_row list \<Rightarrow> string list" where
  "descendants [] rows = []"
| "descendants (i # queue) rows = i # descendants
     (queue @ map no_node_id (filter (\<lambda>n. no_parent_node_id n = Some i) rows))
     (filter (\<lambda>n. no_parent_node_id n \<noteq> Some i) rows)"
  by pat_completeness auto

termination
proof (relation "measure (\<lambda>(queue, rows). length queue + length rows)", goal_cases)
  case (2 i queue rows)
  have "length (filter (\<lambda>n. no_parent_node_id n = Some i) rows) +
      length (filter (\<lambda>n. no_parent_node_id n \<noteq> Some i) rows) = length rows"
    by (rule sum_length_filter_compl)
  then show ?case by simp
qed simp

definition subtree_ids :: "string \<Rightarrow> 'b ag_db \<Rightarrow> string list" where
  "subtree_ids i db = (if find_node i db = None then [] else descendants [i] (ag_nodes db))"

fun cancel_all :: "'b cipher \<Rightarrow> string list \<Rightarrow> int \<Rightarrow> 'b ag_db \<Rightarrow> exn + 'b ag_db" where
  "cancel_all c [] now db = Inr db"
| "cancel_all c (i # ids) now db = (case find_node i db of
     None \<Rightarrow> cancel_all c ids now db
   | Some n \<Rightarrow> if node_terminal (no_status n) then cancel_all c ids now db
     else chain (settle_node c NodeCancelled n now db) (\<lambda>db1.
       chain (block_dependents c i now db1) (\<lambda>db2. cancel_all c ids now db2)))"

definition outer_parents :: "string list \<Rightarrow> 'b ag_db \<Rightarrow> string list" where
  "outer_parents ids db = remdups (List.map_filter (\<lambda>i. case find_node i db of
     None \<Rightarrow> None
   | Some n \<Rightarrow> (case no_parent_node_id n of None \<Rightarrow> None
       | Some p \<Rightarrow> if List.member ids p then None else Some p)) ids)"

definition cancel_subtree_tx :: "'b cipher \<Rightarrow> string \<Rightarrow> int \<Rightarrow> ('b ag_db, string list) tx" where
  "cancel_subtree_tx c i now db =
     (let ids = subtree_ids i db in
      chain (cancel_all c ids now db) (\<lambda>db1.
      let db2 = fold (\<lambda>p. wake_parent (Some p) now) (outer_parents ids db1) db1;
          db3 = (case find (\<lambda>g. gr_root_node_id g = i) (ag_graphs db2) of
             None \<Rightarrow> db2
           | Some g \<Rightarrow> db2\<lparr>ag_graphs := update_where
                (\<lambda>r. gr_graph_id r = gr_graph_id g \<and> gr_status r = GraphActive)
                (\<lambda>r. r\<lparr>gr_status := GraphCancelled, gr_updated_at_ms := now\<rparr>) (ag_graphs db2)\<rparr>)
      in Inr (ids, db3)))"

definition cancel_subtree :: "'b cipher \<Rightarrow> string \<Rightarrow> int \<Rightarrow> ('b ag_db, string list) eff" where
  "cancel_subtree c i now = transaction (cancel_subtree_tx c i now)"

section \<open>The terminal result\<close>

definition finish_graph_tx :: "string \<Rightarrow> string \<Rightarrow> graph_status \<Rightarrow> int \<Rightarrow> ('b ag_db, unit) tx" where
  "finish_graph_tx gid i status now db = (case find_graph gid db of
     None \<Rightarrow> Inl (LookupError ''graph does not exist'')
   | Some g \<Rightarrow>
     if gr_root_node_id g \<noteq> i
     then Inl (PermissionError ''only the root Agent may publish the terminal result'')
     else if gr_status g \<noteq> GraphActive then Inl (RuntimeError ''graph is already terminal'')
     else Inr ((), db\<lparr>ag_graphs := update_where (\<lambda>r. gr_graph_id r = gid)
       (\<lambda>r. r\<lparr>gr_status := status, gr_updated_at_ms := now\<rparr>) (ag_graphs db)\<rparr>))"

definition finish_graph :: "string \<Rightarrow> string \<Rightarrow> graph_status \<Rightarrow> int \<Rightarrow> ('b ag_db, unit) eff" where
  "finish_graph gid i status now =
     (if status = GraphActive then raise (ValueError ''finish_graph requires a terminal status'')
      else transaction (finish_graph_tx gid i status now))"

definition list_artifacts :: "'b cipher \<Rightarrow> string \<Rightarrow> 'b ag_db \<Rightarrow> exn + artifact list" where
  "list_artifacts c gid db = decode_all (artifact_of_row c)
     (sort_key at_created_at_ms (filter (\<lambda>a. at_graph_id a = gid) (ag_artifacts db)))"

end
