(* ===== verification/GraphComms.thy ===== *)
theory GraphComms
  imports GraphStore
begin

text \<open>
  The mailbox, the resource locks and the node checkpoints of \<open>storage/agent_store.py\<close>.
\<close>

section \<open>Mailbox\<close>

definition mail_of_correlation ::
  "string \<Rightarrow> string \<Rightarrow> string \<Rightarrow> mailbox_kind \<Rightarrow> string \<Rightarrow> 'b mail_row \<Rightarrow> bool" where
  "mail_of_correlation gid sender recipient kind cid m \<longleftrightarrow> ma_graph_id m = gid \<and>
     ma_sender_node_id m = sender \<and> ma_recipient_node_id m = recipient \<and> ma_kind m = kind \<and>
     ma_correlation_id m = Some cid"

definition inbox :: "string \<Rightarrow> 'b ag_db \<Rightarrow> 'b mail_row list" where
  "inbox i db = filter (\<lambda>m. ma_recipient_node_id m = i) (ag_mailbox db)"

definition new_mail_row ::
  "'b cipher \<Rightarrow> string \<Rightarrow> string \<Rightarrow> string \<Rightarrow> string \<Rightarrow> mailbox_kind \<Rightarrow> payload \<Rightarrow> string option \<Rightarrow> int \<Rightarrow> int
   \<Rightarrow> 'b mail_row" where
  "new_mail_row c mid gid sender recipient kind p cid sequence now =
     \<lparr>ma_item_id = mid, ma_graph_id = gid, ma_sender_node_id = sender, ma_recipient_node_id = recipient,
      ma_kind = kind, ma_correlation_id = cid, ma_sequence = sequence,
      ma_payload = encrypt_json c p (mail_aad mid), ma_state = MailPending, ma_created_at_ms = now,
      ma_delivered_at_ms = None, ma_acknowledged_at_ms = None\<rparr>"

definition insert_mail :: "'b mail_row \<Rightarrow> 'b ag_db \<Rightarrow> exn + 'b ag_db" where
  "insert_mail m db =
     (if list_ex (\<lambda>r. ma_item_id r = ma_item_id m \<or>
           ma_recipient_node_id r = ma_recipient_node_id m \<and> ma_sequence r = ma_sequence m) (ag_mailbox db)
      then Inl (IntegrityError ''UNIQUE constraint failed: runtime_mailbox'')
      else Inr (db\<lparr>ag_mailbox := ag_mailbox db @ [m]\<rparr>))"

definition send_mail_tx ::
  "'b cipher \<Rightarrow> string \<Rightarrow> string \<Rightarrow> string \<Rightarrow> string \<Rightarrow> mailbox_kind \<Rightarrow> payload \<Rightarrow> string option \<Rightarrow> int
   \<Rightarrow> ('b ag_db, mailbox_item) tx" where
  "send_mail_tx c mid gid sender recipient kind p cid now db =
     (if \<not> list_ex (node_in_graph gid sender) (ag_nodes db) \<or>
         \<not> list_ex (node_in_graph gid recipient) (ag_nodes db)
      then Inl (ValueError ''mail sender and recipient must belong to graph'') else
      (case (case cid of None \<Rightarrow> None
             | Some k \<Rightarrow> find (mail_of_correlation gid sender recipient kind k) (ag_mailbox db)) of
         Some m \<Rightarrow> chain (mail_of_row c (ma_state m) m) (\<lambda>item.
           if \<not> py_eq (JObj (mi_payload item)) (JObj p)
           then Inl (RuntimeError ''mailbox correlation identity collision'') else Inr (item, db))
       | None \<Rightarrow>
         (let sequence = max_sequence ma_sequence (inbox recipient db) + 1 in
          chain (insert_mail (new_mail_row c mid gid sender recipient kind p cid sequence now) db) (\<lambda>db'.
            Inr (\<lparr>mi_item_id = mid, mi_graph_id = gid, mi_sender_node_id = sender,
                   mi_recipient_node_id = recipient, mi_kind = kind, mi_sequence = sequence,
                   mi_payload = p, mi_state = MailPending, mi_correlation_id = cid\<rparr>, db')))))"

definition send_mail ::
  "'b cipher \<Rightarrow> string \<Rightarrow> string \<Rightarrow> string \<Rightarrow> string \<Rightarrow> mailbox_kind \<Rightarrow> payload \<Rightarrow> string option \<Rightarrow> int
   \<Rightarrow> ('b ag_db, mailbox_item) eff" where
  "send_mail c mid gid sender recipient kind p cid now =
     transaction (send_mail_tx c mid gid sender recipient kind p cid now)"

definition deliver :: "int \<Rightarrow> 'b mail_row \<Rightarrow> 'b mail_row" where
  "deliver now m = m\<lparr>ma_state := MailDelivered,
     ma_delivered_at_ms := (case ma_delivered_at_ms m of None \<Rightarrow> Some now | Some t \<Rightarrow> Some t)\<rparr>"

definition undelivered :: "string \<Rightarrow> 'b mail_row \<Rightarrow> bool" where
  "undelivered i m \<longleftrightarrow> ma_recipient_node_id m = i \<and> ma_state m \<in> {MailPending, MailDelivered}"

definition receive_mail_tx :: "'b cipher \<Rightarrow> string \<Rightarrow> int \<Rightarrow> ('b ag_db, mailbox_item list) tx" where
  "receive_mail_tx c i now db =
     chain (decode_all (mail_of_row c MailDelivered)
        (sort_key ma_sequence (filter (undelivered i) (ag_mailbox db)))) (\<lambda>items.
       Inr (items, db\<lparr>ag_mailbox := update_where
          (\<lambda>m. ma_recipient_node_id m = i \<and> ma_state m = MailPending) (deliver now) (ag_mailbox db)\<rparr>))"

definition receive_mail :: "'b cipher \<Rightarrow> string \<Rightarrow> int \<Rightarrow> ('b ag_db, mailbox_item list) eff" where
  "receive_mail c i now = transaction (receive_mail_tx c i now)"

definition acknowledge_mail_tx :: "string \<Rightarrow> string \<Rightarrow> int \<Rightarrow> ('b ag_db, unit) tx" where
  "acknowledge_mail_tx mid i now db =
     (let P = (\<lambda>m. ma_item_id m = mid \<and> ma_recipient_node_id m = i \<and>
           ma_state m \<in> {MailPending, MailDelivered, MailAcknowledged})
      in if count_where P (ag_mailbox db) \<noteq> 1
         then Inl (LookupError ''mailbox item does not belong to recipient'')
         else Inr ((), db\<lparr>ag_mailbox := update_where P
           (\<lambda>m. m\<lparr>ma_state := MailAcknowledged, ma_acknowledged_at_ms := Some now\<rparr>) (ag_mailbox db)\<rparr>))"

definition acknowledge_mail :: "string \<Rightarrow> string \<Rightarrow> int \<Rightarrow> ('b ag_db, unit) eff" where
  "acknowledge_mail mid i now = transaction (acknowledge_mail_tx mid i now)"

section \<open>Resource locks\<close>

definition lock_key :: "lock_row \<Rightarrow> string \<times> string \<times> string" where
  "lock_key k = (lk_tenant_key k, lk_resource_type k, lk_resource_id k)"

definition target_key :: "resource_target \<Rightarrow> string \<times> string \<times> string" where
  "target_key t = (rg_tenant_key t, rg_resource_type t, rg_resource_id t)"

definition new_lock_row :: "string \<Rightarrow> string \<Rightarrow> resource_target \<Rightarrow> int \<Rightarrow> int \<Rightarrow> lock_row" where
  "new_lock_row gid owner t now lease =
     \<lparr>lk_tenant_key = rg_tenant_key t, lk_resource_type = rg_resource_type t,
      lk_resource_id = rg_resource_id t, lk_graph_id = gid, lk_owner_node_id = owner,
      lk_expected_revision = rg_expected_revision t, lk_lease_expires_at_ms = now + lease,
      lk_created_at_ms = now\<rparr>"

text \<open>
  \<open>INSERT\<close>, and on the conflict of the primary key the renewal for the same owner. \<open>None\<close>: the
  resource is held by another node.
\<close>

definition take_lock :: "string \<Rightarrow> string \<Rightarrow> resource_target \<Rightarrow> int \<Rightarrow> int \<Rightarrow> lock_row list \<Rightarrow> lock_row list option" where
  "take_lock gid owner t now lease locks =
     (case find (\<lambda>k. lock_key k = target_key t) locks of
        None \<Rightarrow> Some (locks @ [new_lock_row gid owner t now lease])
      | Some k \<Rightarrow> if lk_owner_node_id k \<noteq> owner then None
          else Some (update_where (\<lambda>k. lock_key k = target_key t)
            (\<lambda>k. k\<lparr>lk_lease_expires_at_ms := now + lease, lk_expected_revision := rg_expected_revision t\<rparr>) locks))"

definition acquire_lock_tx :: "string \<Rightarrow> string \<Rightarrow> resource_target \<Rightarrow> int \<Rightarrow> int \<Rightarrow> ('b ag_db, bool) tx" where
  "acquire_lock_tx gid i t now lease db =
     (if \<not> list_ex (\<lambda>n. node_in_graph gid i n \<and> no_status n \<in> {NodeCreated, NodeReady, NodeRunning}) (ag_nodes db)
      then Inl (ValueError ''lock owner must be a running node in the graph'') else
      (let db1 = drop_expired_locks now db in
       case take_lock gid i t now lease (ag_locks db1) of
         None \<Rightarrow> Inr (False, db1) | Some locks \<Rightarrow> Inr (True, db1\<lparr>ag_locks := locks\<rparr>)))"

definition acquire_lock :: "string \<Rightarrow> string \<Rightarrow> resource_target \<Rightarrow> int \<Rightarrow> int \<Rightarrow> ('b ag_db, bool) eff" where
  "acquire_lock gid i t now lease =
     (if lease < 1 then raise (ValueError ''resource lock lease must be positive'')
      else transaction (acquire_lock_tx gid i t now lease))"

definition release_locks :: "string \<Rightarrow> 'b ag_db \<Rightarrow> 'b ag_db" where
  "release_locks i db = drop_locks_of i db"

definition scope_target :: "string \<Rightarrow> write_scope_target \<Rightarrow> resource_target" where
  "scope_target tenant t = \<lparr>rg_tenant_key = tenant, rg_resource_type = ws_resource_type t,
     rg_resource_id = ws_resource_id t, rg_expected_revision = ws_expected_revision t\<rparr>"

definition acquire_root_write_scope_tx ::
  "string \<Rightarrow> string \<Rightarrow> write_scope_target \<Rightarrow> int \<Rightarrow> int \<Rightarrow> ('b ag_db, string option) tx" where
  "acquire_root_write_scope_tx run tenant t now lease db =
     (case find (\<lambda>g. gr_root_run_id g = run \<and> find_node (gr_root_node_id g) db \<noteq> None) (ag_graphs db) of
        None \<Rightarrow> Inl (LookupError ''root Agent graph is unavailable'')
      | Some g \<Rightarrow>
     if gr_tenant_key g \<noteq> tenant
     then Inl (PermissionError ''root Agent tenant binding does not match the graph'') else
     if gr_status g \<noteq> GraphActive \<or> (case find_node (gr_root_node_id g) db of None \<Rightarrow> True
          | Some n \<Rightarrow> no_status n \<notin> {NodeCreated, NodeReady, NodeRunning})
     then Inl (LookupError ''root Agent graph is no longer active'') else
     (let db1 = drop_expired_locks now db; owner = gr_root_node_id g in
      case take_lock (gr_graph_id g) owner (scope_target tenant t) now lease (ag_locks db1) of
        None \<Rightarrow> Inr (None, db1) | Some locks \<Rightarrow> Inr (Some owner, db1\<lparr>ag_locks := locks\<rparr>)))"

definition acquire_root_write_scope ::
  "string \<Rightarrow> string \<Rightarrow> write_scope_target \<Rightarrow> int \<Rightarrow> int \<Rightarrow> ('b ag_db, string option) eff" where
  "acquire_root_write_scope run tenant t now lease =
     (if run = [] \<or> tenant = [] \<or> lease < 1
      then raise (ValueError ''root run, tenant, and positive lock lease are required'')
      else transaction (acquire_root_write_scope_tx run tenant t now lease))"

definition scope_lock :: "string \<Rightarrow> write_scope_target \<Rightarrow> lock_row \<Rightarrow> bool" where
  "scope_lock owner t k \<longleftrightarrow> lk_owner_node_id k = owner \<and> lk_resource_type k = ws_resource_type t \<and>
     lk_resource_id k = ws_resource_id t"

definition release_write_scope :: "string \<Rightarrow> write_scope_target \<Rightarrow> 'b ag_db \<Rightarrow> 'b ag_db" where
  "release_write_scope owner t db = db\<lparr>ag_locks := delete_where (scope_lock owner t) (ag_locks db)\<rparr>"

definition list_locks :: "string \<Rightarrow> int \<Rightarrow> 'b ag_db \<Rightarrow> resource_target list \<times> 'b ag_db" where
  "list_locks i now db = (let db1 = drop_expired_locks now db in
     (map (\<lambda>k. \<lparr>rg_tenant_key = lk_tenant_key k, rg_resource_type = lk_resource_type k,
          rg_resource_id = lk_resource_id k, rg_expected_revision = lk_expected_revision k\<rparr>)
        (sort_key (\<lambda>k. (lk_resource_type k, lk_resource_id k))
          (filter (\<lambda>k. lk_owner_node_id k = i) (ag_locks db1))), db1))"

definition owns_write_scope :: "string \<Rightarrow> write_scope_target list \<Rightarrow> int \<Rightarrow> 'b ag_db \<Rightarrow> bool \<times> 'b ag_db" where
  "owns_write_scope owner targets now db =
     (if targets = [] then (False, db) else
      (let db1 = drop_expired_locks now db in
       (list_all (\<lambda>t. list_ex (\<lambda>k. scope_lock owner t k \<and>
           lk_expected_revision k = ws_expected_revision t) (ag_locks db1)) targets, db1)))"

text \<open>
  \<open>renew_write_scope\<close> returns false at the first target that is not held, and the transaction
  commits: the targets before it have been renewed.
\<close>

definition renewable :: "string \<Rightarrow> write_scope_target \<Rightarrow> int \<Rightarrow> lock_row \<Rightarrow> bool" where
  "renewable owner t now k \<longleftrightarrow> scope_lock owner t k \<and>
     lk_expected_revision k = ws_expected_revision t \<and> now < lk_lease_expires_at_ms k"

fun renew_all :: "string \<Rightarrow> write_scope_target list \<Rightarrow> int \<Rightarrow> int \<Rightarrow> lock_row list \<Rightarrow> bool \<times> lock_row list" where
  "renew_all owner [] now lease locks = (True, locks)"
| "renew_all owner (t # ts) now lease locks =
     (let locks' = update_where (renewable owner t now)
        (\<lambda>k. k\<lparr>lk_lease_expires_at_ms := now + lease\<rparr>) locks
      in if count_where (renewable owner t now) locks \<noteq> 1 then (False, locks')
         else renew_all owner ts now lease locks')"

definition renew_write_scope :: "string \<Rightarrow> write_scope_target list \<Rightarrow> int \<Rightarrow> int \<Rightarrow> 'b ag_db \<Rightarrow> bool \<times> 'b ag_db" where
  "renew_write_scope owner targets now lease db =
     (if targets = [] \<or> lease < 1 then (False, db)
      else (case renew_all owner targets now lease (ag_locks db) of
        (ok, locks) \<Rightarrow> (ok, db\<lparr>ag_locks := locks\<rparr>)))"

section \<open>Checkpoints of nodes\<close>

definition save_node_checkpoint_tx ::
  "'b cipher \<Rightarrow> string \<Rightarrow> string \<Rightarrow> payload \<Rightarrow> int \<Rightarrow> ('b ag_db, agent_checkpoint) tx" where
  "save_node_checkpoint_tx c kid i state now db = (case find_node i db of
     None \<Rightarrow> Inl (LookupError ''Agent node does not exist'')
   | Some n \<Rightarrow>
     (let sequence = max_sequence nc_sequence (filter (\<lambda>k. nc_node_id k = i) (ag_checkpoints db)) + 1 in
      if list_ex (\<lambda>k. nc_checkpoint_id k = kid) (ag_checkpoints db)
      then Inl (IntegrityError ''UNIQUE constraint failed: runtime_agent_checkpoints'')
      else Inr (\<lparr>an_checkpoint_id = kid, an_checkpoint_graph_id = no_graph_id n,
             an_checkpoint_node_id = i, an_checkpoint_sequence = sequence,
             an_checkpoint_state = state, an_checkpoint_created_at_ms = now\<rparr>,
           db\<lparr>ag_checkpoints := ag_checkpoints db @
             [\<lparr>nc_checkpoint_id = kid, nc_graph_id = no_graph_id n, nc_node_id = i,
               nc_sequence = sequence, nc_state = encrypt_json c state (node_checkpoint_aad kid),
               nc_created_at_ms = now\<rparr>]\<rparr>)))"

definition save_node_checkpoint ::
  "'b cipher \<Rightarrow> string \<Rightarrow> string \<Rightarrow> payload \<Rightarrow> int \<Rightarrow> ('b ag_db, agent_checkpoint) eff" where
  "save_node_checkpoint c kid i state now = transaction (save_node_checkpoint_tx c kid i state now)"

definition latest_checkpoint :: "'b cipher \<Rightarrow> string \<Rightarrow> 'b ag_db \<Rightarrow> exn + agent_checkpoint option" where
  "latest_checkpoint c i db =
     (case first_by (\<lambda>k. - nc_sequence k) (filter (\<lambda>k. nc_node_id k = i) (ag_checkpoints db)) of
        None \<Rightarrow> Inr None
      | Some k \<Rightarrow> chain (agent_decrypt c (nc_state k) (node_checkpoint_aad (nc_checkpoint_id k))) (\<lambda>s.
          Inr (Some \<lparr>an_checkpoint_id = nc_checkpoint_id k, an_checkpoint_graph_id = nc_graph_id k,
            an_checkpoint_node_id = nc_node_id k, an_checkpoint_sequence = nc_sequence k,
            an_checkpoint_state = s, an_checkpoint_created_at_ms = nc_created_at_ms k\<rparr>)))"

end
