(* ===== verification/Supervisor.thy ===== *)
theory Supervisor
  imports GraphComms
begin

text \<open>
  \<open>MultiAgentSupervisor\<close> of \<open>runtime/multi_agent.py\<close>: the delegation rules over the graph store, one
  round of node execution with a worker parameter, and the publication of the terminal result.
\<close>

section \<open>Creation and delegation\<close>

text \<open>\<open>_delegation\<close>\<close>

fun can_delegate :: "agent_role \<Rightarrow> agent_role \<Rightarrow> bool" where
  "can_delegate ORCHESTRATOR r = True"
| "can_delegate AUTHOR r = (r \<in> {VERIFIER, OPERATOR})"
| "can_delegate DATA_ANALYST r = (r \<in> {VERIFIER, OPERATOR})"
| "can_delegate _ r = False"

definition supervisor_create ::
  "'b cipher \<Rightarrow> graph_record \<Rightarrow> node_spec \<Rightarrow> int \<Rightarrow> ('b ag_db, graph_record \<times> agent_node) eff" where
  "supervisor_create c g root_spec now =
     (if ns_role root_spec \<noteq> ORCHESTRATOR
      then raise (ValueError ''root node must use the orchestrator role'')
      else if ns_name root_spec \<noteq> ''root''
      then raise (ValueError (''root node name must be '' @ repr_string ''root''))
      else create_graph c g root_spec now)"

definition over_budget :: "node_spec \<Rightarrow> node_spec \<Rightarrow> (string \<times> int) option" where
  "over_budget parent spec = find (\<lambda>(k, v).
     (case map_of (ns_budgets parent) k of None \<Rightarrow> 0 | Some m \<Rightarrow> m) < v) (ns_budgets spec)"

definition authorize_child :: "string \<Rightarrow> agent_node \<Rightarrow> node_spec \<Rightarrow> exn + unit" where
  "authorize_child gid parent spec =
     (if an_graph_id parent \<noteq> gid then Inl (ValueError ''parent does not belong to graph'')
      else if \<not> can_delegate (ns_role (an_spec parent)) (ns_role spec)
      then Inl (PermissionError (''role '' @ agent_role_value (ns_role (an_spec parent)) @
        '' cannot delegate '' @ agent_role_value (ns_role spec)))
      else if \<not> list_all (List.member (ns_tool_ids (an_spec parent))) (ns_tool_ids spec)
      then Inl (PermissionError ''child tool authority exceeds parent authority'')
      else (case over_budget (an_spec parent) spec of
          Some (k, v) \<Rightarrow> Inl (PermissionError (''child '' @ k @ '' budget exceeds parent budget''))
        | None \<Rightarrow> Inr ()))"

definition supervisor_spawn ::
  "'b cipher \<Rightarrow> string \<Rightarrow> string \<Rightarrow> string \<Rightarrow> node_spec \<Rightarrow> bool \<Rightarrow> int \<Rightarrow> ('b ag_db, agent_node) eff" where
  "supervisor_spawn c i gid parent spec ready now db =
     (case chain (get_node c parent db) (\<lambda>p. authorize_child gid p spec) of
        Inl e \<Rightarrow> (Inl e, db)
      | Inr _ \<Rightarrow> spawn_child c i gid parent spec ready now db)"

section \<open>Executing ready nodes\<close>

text \<open>A worker acts on the graph as well: its tools take locks, read mail or delegate.\<close>

type_synonym ('b, 'w) node_worker = "execution_input \<Rightarrow> 'b ag_db \<Rightarrow> 'w \<Rightarrow> (exn + execution_result) \<times> 'b ag_db \<times> 'w"

text \<open>Acknowledging the mail a node has handled, one transaction after the other.\<close>

fun acknowledge_all :: "string list \<Rightarrow> string \<Rightarrow> int \<Rightarrow> ('b ag_db, unit) eff" where
  "acknowledge_all [] i now db = (Inr (), db)"
| "acknowledge_all (m # ms) i now db = (case acknowledge_mail m i now db of
     (Inl e, db') \<Rightarrow> (Inl e, db') | (Inr _, db') \<Rightarrow> acknowledge_all ms i now db')"

definition scoped_artifacts :: "agent_node \<Rightarrow> artifact list \<Rightarrow> artifact list" where
  "scoped_artifacts n as = (if an_parent_node_id n = None then as
     else filter (\<lambda>a. List.member (ns_dependency_node_ids (an_spec n)) (rf_producer_node_id a)) as)"

definition give_up_node :: "'b cipher \<Rightarrow> string \<Rightarrow> string \<Rightarrow> int \<Rightarrow> ('b ag_db, artifact option \<times> string option) eff" where
  "give_up_node c i worker now db = (case fail_node c i worker now db of
     (Inl e, db') \<Rightarrow> (Inl e, db') | (Inr _, db') \<Rightarrow> (Inr (None, Some i), db'))"

definition settle_execution ::
  "'b cipher \<Rightarrow> (string \<Rightarrow> string) \<Rightarrow> string \<Rightarrow> int \<Rightarrow> string \<Rightarrow> mailbox_item list \<Rightarrow> exn + execution_result \<Rightarrow>
     ('b ag_db, artifact option \<times> string option) eff" where
  "settle_execution c fresh worker now i mailbox r db = (case r of
     Inl e \<Rightarrow> if is_exception e then give_up_node c i worker now db else (Inl e, db)
   | Inr x \<Rightarrow>
     if \<not> list_all (List.member (map mi_item_id mailbox)) (xo_acknowledged_mail_ids x)
     then give_up_node c i worker now db
     else (case complete_node c (fresh i) i worker (xo_artifact x) now db of
        (Inl e, db1) \<Rightarrow> (Inl e, db1)
      | (Inr a, db1) \<Rightarrow> (case acknowledge_all (xo_acknowledged_mail_ids x) i now db1 of
           (Inl e, db2) \<Rightarrow> (Inl e, db2) | (Inr _, db2) \<Rightarrow> (Inr (Some a, None), db2))))"

definition execute_node ::
  "'b cipher \<Rightarrow> (string \<Rightarrow> string) \<Rightarrow> string \<Rightarrow> string \<Rightarrow> ('b, 'w) node_worker \<Rightarrow> int \<Rightarrow> agent_node \<Rightarrow> 'b ag_db \<Rightarrow> 'w \<Rightarrow>
     (exn + artifact option \<times> string option) \<times> 'b ag_db \<times> 'w" where
  "execute_node c fresh gid worker_id worker now n db world =
     (case receive_mail c (an_node_id n) now db of
        (Inl e, db1) \<Rightarrow> (Inl e, db1, world)
      | (Inr mailbox, db1) \<Rightarrow> (case list_artifacts c gid db1 of
          Inl e \<Rightarrow> (Inl e, db1, world)
        | Inr as \<Rightarrow> (case worker \<lparr>xi_node = n, xi_mailbox = mailbox,
              xi_dependency_artifacts = scoped_artifacts n as\<rparr> db1 world of
            (r, db2, world1) \<Rightarrow>
              (case settle_execution c fresh worker_id now (an_node_id n) mailbox r db2 of
                 (res, db3) \<Rightarrow> (res, db3, world1)))))"

fun execute_nodes ::
  "'b cipher \<Rightarrow> (string \<Rightarrow> string) \<Rightarrow> string \<Rightarrow> string \<Rightarrow> ('b, 'w) node_worker \<Rightarrow> int \<Rightarrow> agent_node list \<Rightarrow> 'b ag_db \<Rightarrow> 'w \<Rightarrow>
     (exn + artifact option \<times> string option) list \<times> 'b ag_db \<times> 'w" where
  "execute_nodes c fresh gid worker_id worker now [] db world = ([], db, world)"
| "execute_nodes c fresh gid worker_id worker now (n # ns) db world =
     (case execute_node c fresh gid worker_id worker now n db world of
        (r, db1, world1) \<Rightarrow> (case execute_nodes c fresh gid worker_id worker now ns db1 world1 of
           (rs, db2, world2) \<Rightarrow> (r # rs, db2, world2)))"

text \<open>
  One round. The model runs the gathered executions one after the other in the order of the lease;
  other interleavings of their store calls are runs of the graph's step system (\<open>GraphSystem\<close>).
\<close>

definition execute_ready ::
  "'b cipher \<Rightarrow> (string \<Rightarrow> string) \<Rightarrow> string \<Rightarrow> string \<Rightarrow> ('b, 'w) node_worker \<Rightarrow> int \<Rightarrow> int \<Rightarrow> 'b ag_db \<Rightarrow> 'w \<Rightarrow>
     (exn + execution_batch) \<times> 'b ag_db \<times> 'w" where
  "execute_ready c fresh gid worker_id worker now lease db world =
     (case get_graph gid db of
        Inl e \<Rightarrow> (Inl e, db, world)
      | Inr g \<Rightarrow> (case lease_ready c gid worker_id now lease (gl_max_concurrency (gp_limits g)) db of
          (Inl e, db1) \<Rightarrow> (Inl e, db1, world)
        | (Inr ns, db1) \<Rightarrow> (case execute_nodes c fresh gid worker_id worker now ns db1 world of
            (rs, db2, world2) \<Rightarrow> (case first_error rs of
               Some e \<Rightarrow> (Inl e, db2, world2)
             | None \<Rightarrow> (Inr \<lparr>xb_completed_artifacts = List.map_filter fst (results rs),
                 xb_failed_node_ids = List.map_filter snd (results rs)\<rparr>, db2, world2)))))"

section \<open>Publication\<close>

fun published_status :: "run_status \<Rightarrow> graph_status option" where
  "published_status COMPLETED = Some GraphCompleted"
| "published_status BLOCKED = Some GraphBlocked"
| "published_status FAILED = Some GraphFailed"
| "published_status CANCELLED = Some GraphCancelled"
| "published_status _ = None"

definition publish_terminal :: "string \<Rightarrow> string \<Rightarrow> run_status \<Rightarrow> int \<Rightarrow> ('b ag_db, unit) eff" where
  "publish_terminal gid i st now = (case published_status st of
     None \<Rightarrow> raise (ValueError ''terminal publication requires a terminal status'')
   | Some s \<Rightarrow> finish_graph gid i s now)"

text \<open>
  Waiting for mail: after an empty first look the coroutine either times out, or is notified and looks
  again at whatever the other coroutines have made of the tables in between.
\<close>

definition wait_for_mail ::
  "'b cipher \<Rightarrow> string \<Rightarrow> int \<Rightarrow> ('b ag_db \<Rightarrow> 'b ag_db) option \<Rightarrow> ('b ag_db, mailbox_item list) eff" where
  "wait_for_mail c i now notified db = (case receive_mail c i now db of
     (Inl e, db1) \<Rightarrow> (Inl e, db1)
   | (Inr items, db1) \<Rightarrow> if items \<noteq> [] then (Inr items, db1)
       else (case notified of None \<Rightarrow> (Inr [], db1)
         | Some others \<Rightarrow> receive_mail c i now (others db1)))"

section \<open>Merging artifacts\<close>

text \<open>\<open>dict.setdefault(key, []).append(value)\<close> on an association list in insertion order\<close>

fun add_claim :: "string \<Rightarrow> json \<Rightarrow> (string \<times> json list) list \<Rightarrow> (string \<times> json list) list" where
  "add_claim k v [] = [(k, [v])]"
| "add_claim k v ((k', vs) # rest) =
     (if k = k' then (k', vs @ [v]) # rest else (k', vs) # add_claim k v rest)"

definition artifact_claims :: "artifact \<Rightarrow> payload" where
  "artifact_claims a = (case json_get (rf_payload a) ''claims'' of Some (JObj d) \<Rightarrow> d | _ \<Rightarrow> [])"

definition claims_by_key :: "artifact list \<Rightarrow> (string \<times> json list) list" where
  "claims_by_key as = fold (\<lambda>(k, v). add_claim k v) (concat (map artifact_claims as)) []"

fun py_unique :: "json list \<Rightarrow> json list \<Rightarrow> json list" where
  "py_unique seen [] = seen"
| "py_unique seen (v # vs) = py_unique (if list_ex (\<lambda>w. py_eq w v) seen then seen else seen @ [v]) vs"

record artifact_merge =
  am_artifacts :: "artifact list"
  am_claims :: "(string \<times> json) list"
  am_conflicts :: "(string \<times> json list) list"

definition merge_artifacts :: "artifact list \<Rightarrow> artifact_merge" where
  "merge_artifacts as = (let grouped = map (\<lambda>(k, vs). (k, py_unique [] vs)) (claims_by_key as) in
     \<lparr>am_artifacts = as,
      am_claims = List.map_filter (\<lambda>(k, u). case u of [v] \<Rightarrow> Some (k, v) | _ \<Rightarrow> None) grouped,
      am_conflicts = filter (\<lambda>(k, u). length u \<noteq> 1) grouped\<rparr>)"

end
