(* ===== verification/GraphInv.thy ===== *)
theory GraphInv
  imports Supervisor
begin

text \<open>
  What the agent graph keeps: nodes form a forest within the limits of their graph, the reserved part
  of every budget cell is what the live children hold, a node that has started has all its
  dependencies completed, and an owner is recorded exactly while a node runs. Node rows change in two
  ways only: quietly (nothing starts, nothing terminal changes) or by being leased.
\<close>

named_theorems graph_frame \<open>tables an operation of the graph store leaves alone\<close>

section \<open>Rows\<close>

text \<open>The columns that are fixed at insertion.\<close>

definition node_core :: "'b node_row \<Rightarrow> 'b node_row" where
  "node_core n = n\<lparr>no_status := NodeCreated, no_lease_owner := None, no_lease_expires_at_ms := None,
     no_attempt_count := 0, no_updated_at_ms := 0\<rparr>"

lemma node_core_fields:
  assumes "node_core n = node_core m"
  shows "no_node_id n = no_node_id m" "no_graph_id n = no_graph_id m"
    "no_parent_node_id n = no_parent_node_id m" "no_depth n = no_depth m" "no_budget n = no_budget m"
    "no_tool_ids n = no_tool_ids m" "no_task_brief n = no_task_brief m" "no_name n = no_name m"
    "no_role n = no_role m" "no_canonical_path n = no_canonical_path m"
  using assms by (cases n; cases m; simp add: node_core_def)+

lemma node_core_moves [simp]:
  "node_core (move_node st now n) = node_core n" "node_core (unleased st now n) = node_core n"
  "node_core (run_node w ex now n) = node_core n"
  by (simp_all add: node_core_def move_node_def unleased_def run_node_def)

lemma moved_fields [simp]:
  "no_status (move_node st now n) = st" "no_status (unleased st now n) = st"
  "no_status (run_node w ex now n) = NodeRunning"
  "no_lease_owner (move_node st now n) = no_lease_owner n" "no_lease_owner (unleased st now n) = None"
  "no_lease_owner (run_node w ex now n) = Some w"
  "no_lease_expires_at_ms (move_node st now n) = no_lease_expires_at_ms n"
  "no_lease_expires_at_ms (unleased st now n) = None"
  "no_lease_expires_at_ms (run_node w ex now n) = Some ex"
  "no_node_id (move_node st now n) = no_node_id n" "no_node_id (unleased st now n) = no_node_id n"
  "no_node_id (run_node w ex now n) = no_node_id n"
  "no_graph_id (move_node st now n) = no_graph_id n" "no_graph_id (unleased st now n) = no_graph_id n"
  "no_graph_id (run_node w ex now n) = no_graph_id n"
  by (simp_all add: move_node_def unleased_def run_node_def)

definition started :: "node_status \<Rightarrow> bool" where
  "started st \<longleftrightarrow> st = NodeRunning \<or> st = NodeCompleted"

definition lease_row_ok :: "'b node_row \<Rightarrow> bool" where
  "lease_row_ok n \<longleftrightarrow> (no_status n = NodeRunning \<longleftrightarrow> no_lease_owner n \<noteq> None) \<and>
     (no_lease_owner n = None \<longleftrightarrow> no_lease_expires_at_ms n = None)"

definition quiet :: "'b node_row \<Rightarrow> 'b node_row \<Rightarrow> bool" where
  "quiet n m \<longleftrightarrow> node_core m = node_core n \<and> (node_terminal (no_status n) \<longrightarrow> m = n) \<and>
     (started (no_status m) \<longrightarrow> started (no_status n)) \<and>
     (no_status m = NodeRunning \<longrightarrow> no_status n = NodeRunning) \<and> (lease_row_ok n \<longrightarrow> lease_row_ok m)"

lemma quiet_refl [simp]: "quiet n n"
  by (simp add: quiet_def)

lemma quiet_trans: "quiet a b \<Longrightarrow> quiet b d \<Longrightarrow> quiet a d"
proof -
  assume ab: "quiet a b" and bd: "quiet b d"
  show "quiet a d"
  proof (cases "node_terminal (no_status a)")
    case True
    with ab have "b = a" unfolding quiet_def by blast
    with bd show ?thesis by simp
  next
    case False
    have "node_core d = node_core a" using ab bd unfolding quiet_def by (elim conjE) (rule trans)
    with False ab bd show ?thesis unfolding quiet_def by blast
  qed
qed

lemma quiet_moves:
  "no_status n \<in> {NodeCreated, NodeReady, NodeInterrupted, NodeWaiting} \<Longrightarrow>
     st \<in> {NodeCreated, NodeReady, NodeInterrupted, NodeWaiting} \<Longrightarrow> quiet n (move_node st now n)"
  "\<not> node_terminal (no_status n) \<Longrightarrow> \<not> started st \<Longrightarrow> quiet n (unleased st now n)"
  "no_status n = NodeRunning \<Longrightarrow> quiet n (unleased NodeCompleted now n)"
  by (auto simp: quiet_def lease_row_ok_def started_def)

section \<open>Tables of nodes\<close>

definition quietly :: "'b ag_db \<Rightarrow> 'b ag_db \<Rightarrow> bool" where
  "quietly db db' \<longleftrightarrow> list_all2 quiet (ag_nodes db) (ag_nodes db')"

lemma quietly_refl [simp]: "quietly db db"
  by (simp add: quietly_def list_all2_same)

lemma quietly_trans: "quietly a b \<Longrightarrow> quietly b d \<Longrightarrow> quietly a d"
  unfolding quietly_def by (rule list_all2_trans [of quiet quiet quiet]) (auto intro: quiet_trans)

lemma quietly_same: "ag_nodes db' = ag_nodes db \<Longrightarrow> quietly db db'"
  by (simp add: quietly_def list_all2_same)

lemma quietly_set_node:
  assumes "\<And>n. n \<in> set (ag_nodes db) \<Longrightarrow> P n \<Longrightarrow> quiet n (f n)"
  shows "quietly db (set_node P f db)"
proof -
  have "list_all2 quiet rows (update_where P f rows)" if "\<forall>n \<in> set rows. P n \<longrightarrow> quiet n (f n)" for rows
    using that by (induction rows) auto
  with assms show ?thesis by (simp add: quietly_def set_node_def)
qed

lemma core_all2: "map node_core ns' = map node_core ns \<longleftrightarrow> list_all2 (\<lambda>n m. node_core n = node_core m) ns' ns"
  by (simp add: list.rel_eq [symmetric] list.rel_map)

lemma quietly_core: "quietly db db' \<Longrightarrow> map node_core (ag_nodes db') = map node_core (ag_nodes db)"
  unfolding quietly_def by (induction rule: list_all2_induct) (simp_all add: quiet_def)

lemma all2_mem:
  assumes "list_all2 R ns ms"
  shows "m \<in> set ms \<Longrightarrow> \<exists>n \<in> set ns. R n m" and "n \<in> set ns \<Longrightarrow> \<exists>m \<in> set ms. R n m"
  using assms by (induction rule: list_all2_induct) auto

lemmas quietly_mem = all2_mem [where R = quiet]

lemma core_mem:
  assumes "map node_core ns' = map node_core ns"
  shows "m \<in> set ns' \<Longrightarrow> \<exists>n \<in> set ns. node_core m = node_core n"
    and "n \<in> set ns \<Longrightarrow> \<exists>m \<in> set ns'. node_core m = node_core n"
  using assms unfolding core_all2 by (auto dest: all2_mem)

lemma core_ids:
  assumes "map node_core ns' = map node_core ns"
  shows "map no_node_id ns' = map no_node_id ns" "map no_graph_id ns' = map no_graph_id ns"
    "map no_depth ns' = map no_depth ns" "map no_parent_node_id ns' = map no_parent_node_id ns"
  using assms unfolding core_all2 by (induction rule: list_all2_induct) (auto dest: node_core_fields)

lemma core_count:
  assumes "map node_core ns' = map node_core ns" and "\<And>n m. node_core n = node_core m \<Longrightarrow> P n \<longleftrightarrow> P m"
  shows "count_where P ns' = count_where P ns"
  using assms(1) unfolding core_all2
proof (induction rule: list_all2_induct)
  case (Cons n ns m ms)
  have "P n \<longleftrightarrow> P m" using Cons.hyps(1) by (rule assms(2))
  with Cons show ?case by simp
qed simp

definition live_ids :: "'b ag_db \<Rightarrow> string set" where
  "live_ids db = no_node_id ` {n \<in> set (ag_nodes db). \<not> node_terminal (no_status n)}"

lemma quietly_live: "quietly db db' \<Longrightarrow> live_ids db' \<subseteq> live_ids db"
proof
  fix i assume q: "quietly db db'" and "i \<in> live_ids db'"
  then obtain m where m: "m \<in> set (ag_nodes db')" "\<not> node_terminal (no_status m)" "no_node_id m = i"
    by (auto simp: live_ids_def)
  from quietly_mem(1) [of "ag_nodes db" "ag_nodes db'" m] q m(1)
  obtain n where n: "n \<in> set (ag_nodes db)" "quiet n m" by (auto simp: quietly_def)
  have "no_node_id n = no_node_id m" using n(2) by (metis quiet_def node_core_fields(1))
  moreover have "\<not> node_terminal (no_status n)" using n(2) m(2) by (auto simp: quiet_def)
  ultimately show "i \<in> live_ids db" using n m by (auto simp: live_ids_def)
qed

section \<open>What is held of a budget cell\<close>

definition node_amount :: "'b cipher \<Rightarrow> string \<Rightarrow> 'b node_row \<Rightarrow> int" where
  "node_amount c kind n = (case node_budgets c n of Inl _ \<Rightarrow> 0
     | Inr bs \<Rightarrow> (case map_of bs kind of None \<Rightarrow> 0 | Some v \<Rightarrow> v))"

definition live_child :: "string \<Rightarrow> string \<Rightarrow> 'b node_row \<Rightarrow> bool" where
  "live_child gid i n \<longleftrightarrow> no_graph_id n = gid \<and> no_parent_node_id n = Some i \<and> \<not> node_terminal (no_status n)"

definition held :: "'b cipher \<Rightarrow> 'b node_row list \<Rightarrow> string \<Rightarrow> string \<Rightarrow> string \<Rightarrow> int" where
  "held c ns gid i kind = sum_list (map (node_amount c kind) (filter (live_child gid i) ns))"

lemma held_simps [simp]:
  "held c [] gid i kind = 0"
  "held c (n # ns) gid i kind = (if live_child gid i n then node_amount c kind n else 0) + held c ns gid i kind"
  by (simp_all add: held_def)

lemma held_append: "held c (ns @ ms) gid i kind = held c ns gid i kind + held c ms gid i kind"
  by (simp add: held_def)

lemma node_budgets_core:
  assumes "node_core n = node_core m"
  shows "node_budgets c n = node_budgets c m"
  by (simp only: node_budgets_def node_core_fields [OF assms])

lemma node_amount_core: "node_core n = node_core m \<Longrightarrow> node_amount c kind n = node_amount c kind m"
  unfolding node_amount_def by (drule node_budgets_core [where c = c]) simp

definition same_live :: "'b node_row \<Rightarrow> 'b node_row \<Rightarrow> bool" where
  "same_live n m \<longleftrightarrow> node_core m = node_core n \<and> (node_terminal (no_status m) \<longleftrightarrow> node_terminal (no_status n))"

lemma held_same_live: "list_all2 same_live ns ms \<Longrightarrow> held c ms gid i kind = held c ns gid i kind"
proof (induction rule: list_all2_induct)
  case (Cons n ns m ms)
  have core: "node_core m = node_core n" using Cons.hyps(1) by (simp add: same_live_def)
  have "live_child gid i m = live_child gid i n"
    using Cons.hyps(1) unfolding same_live_def live_child_def node_core_fields [OF core] by blast
  moreover have "node_amount c kind m = node_amount c kind n" by (rule node_amount_core [OF core])
  ultimately show ?case using Cons.IH by simp
qed simp

lemma same_live_set_node:
  assumes "\<And>n. n \<in> set ns \<Longrightarrow> P n \<Longrightarrow> same_live n (f n)"
  shows "list_all2 same_live ns (update_where P f ns)"
  using assms by (induction ns) (auto simp: same_live_def)

lemma held_retire:
  assumes "distinct (map no_node_id ns)" "m \<in> set ns" "\<not> node_terminal (no_status m)" "node_terminal st"
  shows "held c (update_where (\<lambda>r. no_node_id r = no_node_id m) (unleased st now) ns) gid i kind =
    held c ns gid i kind - (if live_child gid i m then node_amount c kind m else 0)"
  using assms
proof (induction ns)
  case (Cons n ns)
  show ?case
  proof (cases "n = m")
    case True
    have other: "no_node_id r \<noteq> no_node_id m" if "r \<in> set ns" for r using that True Cons.prems(1) by (auto simp: image_iff)
    have "update_where (\<lambda>r. no_node_id r = no_node_id m) (unleased st now) ns = ns"
      unfolding update_where_def by (rule map_idI) (simp add: other)
    with True Cons.prems show ?thesis by (simp add: live_child_def)
  next
    case False
    with Cons.prems have "no_node_id n \<noteq> no_node_id m" by auto
    with False Cons show ?thesis by simp
  qed
qed simp

lemma live_ids_retire:
  assumes "node_terminal st"
  shows "live_ids (set_node (\<lambda>r. no_node_id r = i) (unleased st now) db) = live_ids db - {i}"
proof -
  have gone: "no_node_id r \<noteq> i" if "r \<in> set (update_where (\<lambda>r. no_node_id r = i) (unleased st now) ns)"
    "\<not> node_terminal (no_status r)" for r ns
    using that assms by (induction ns) (auto split: if_splits)
  have keep: "r \<in> set (update_where (\<lambda>r. no_node_id r = i) (unleased st now) ns) \<longleftrightarrow> r \<in> set ns"
    if "no_node_id r \<noteq> i" for r ns
    using that by (induction ns) (auto split: if_splits)
  show ?thesis
  proof (intro set_eqI iffI)
    fix j assume "j \<in> live_ids (set_node (\<lambda>r. no_node_id r = i) (unleased st now) db)"
    then obtain r where r: "r \<in> set (update_where (\<lambda>r. no_node_id r = i) (unleased st now) (ag_nodes db))"
      "\<not> node_terminal (no_status r)" "no_node_id r = j" by (auto simp: live_ids_def set_node_def)
    then have "no_node_id r \<noteq> i" by (intro gone) 
    moreover from this r(1) have "r \<in> set (ag_nodes db)" by (rule keep [THEN iffD1])
    ultimately show "j \<in> live_ids db - {i}" using r by (auto simp: live_ids_def)
  next
    fix j assume "j \<in> live_ids db - {i}"
    then obtain r where r: "r \<in> set (ag_nodes db)" "\<not> node_terminal (no_status r)" "no_node_id r = j" "j \<noteq> i"
      by (auto simp: live_ids_def)
    then have "r \<in> set (update_where (\<lambda>r. no_node_id r = i) (unleased st now) (ag_nodes db))"
      by (intro keep [THEN iffD2]) auto
    with r show "j \<in> live_ids (set_node (\<lambda>r. no_node_id r = i) (unleased st now) db)"
      by (auto simp: live_ids_def set_node_def)
  qed
qed

end
