(* ===== verification/GraphLedger.thy ===== *)
theory GraphLedger
  imports GraphInv
begin

text \<open>
  The budget cells of the agent graph: reserving, releasing and opening cells as maps over the ledger,
  and the exactness of the ledger (what is reserved is what the live children hold) with the
  operations that retire nodes.
\<close>

section \<open>Cells\<close>

definition cell_of :: "ledger_row \<Rightarrow> string \<times> string \<times> string" where
  "cell_of b = (lg_graph_id b, lg_node_id b, lg_budget_kind b)"

definition shift_cell ::
  "int \<Rightarrow> string \<Rightarrow> string \<Rightarrow> (string \<times> int) list \<Rightarrow> (int \<Rightarrow> int \<Rightarrow> int) \<Rightarrow> ledger_row \<Rightarrow> ledger_row" where
  "shift_cell now gid i bs f b =
     (if lg_graph_id b = gid \<and> lg_node_id b = i
      then (case map_of bs (lg_budget_kind b) of None \<Rightarrow> b
        | Some v \<Rightarrow> b\<lparr>lg_reserved := f (lg_reserved b) v, lg_updated_at_ms := now\<rparr>) else b)"

lemma shift_cell_fields [simp]:
  "lg_graph_id (shift_cell now gid i bs f b) = lg_graph_id b"
  "lg_node_id (shift_cell now gid i bs f b) = lg_node_id b"
  "lg_budget_kind (shift_cell now gid i bs f b) = lg_budget_kind b"
  "lg_maximum (shift_cell now gid i bs f b) = lg_maximum b"
  "lg_consumed (shift_cell now gid i bs f b) = lg_consumed b"
  "cell_of (shift_cell now gid i bs f b) = cell_of b"
  by (simp_all add: shift_cell_def cell_of_def split: option.splits)

lemma release_amounts_map:
  "distinct (map fst bs) \<Longrightarrow> release_amounts gid i bs now ledger =
     map (shift_cell now gid i bs (\<lambda>r v. max 0 (r - v))) ledger"
proof (induction bs arbitrary: ledger)
  case Nil
  then show ?case by (simp add: shift_cell_def map_idI)
next
  case (Cons p bs)
  obtain k v where p: "p = (k, v)" by fastforce
  have none: "map_of bs k = None" using Cons.prems p by (simp add: map_of_eq_None_iff)
  have "release_amounts gid i (p # bs) now ledger = map (shift_cell now gid i bs (\<lambda>r v. max 0 (r - v)))
      (update_where (ledger_cell gid i k)
        (\<lambda>b. b\<lparr>lg_reserved := max 0 (lg_reserved b - v), lg_updated_at_ms := now\<rparr>) ledger)"
    using Cons p by simp
  also have "\<dots> = map (shift_cell now gid i (p # bs) (\<lambda>r v. max 0 (r - v))) ledger"
    by (auto simp: update_where_def p shift_cell_def ledger_cell_def none)
  finally show ?case .
qed

lemma fits_cell:
  assumes "distinct (map cell_of ledger)" "count_where fits ledger = 1"
    and "\<And>b. fits b \<Longrightarrow> ledger_cell gid i k b"
    and "b \<in> set ledger" "ledger_cell gid i k b"
  shows "fits b"
proof -
  have "0 < count_where fits ledger" using assms(2) by simp
  then obtain b0 where b0: "b0 \<in> set ledger" "fits b0" by (auto simp: count_where_pos)
  have "cell_of b = cell_of b0" using assms(3) [OF b0(2)] assms(5) by (simp add: ledger_cell_def cell_of_def)
  with key_unique [OF assms(1) assms(4) b0(1)] b0(2) show ?thesis by simp
qed

lemma reserve_map:
  assumes "reserve_parent_budget gid i bs now ledger = Inr ledger'" "distinct (map fst bs)"
    and "distinct (map cell_of ledger)"
  shows "ledger' = map (shift_cell now gid i bs (+)) ledger"
    and "\<And>b v. b \<in> set ledger \<Longrightarrow> lg_graph_id b = gid \<Longrightarrow> lg_node_id b = i \<Longrightarrow>
      map_of bs (lg_budget_kind b) = Some v \<Longrightarrow> v \<le> lg_maximum b - lg_reserved b - lg_consumed b"
  using assms
proof (atomize (full), induction bs arbitrary: ledger)
  case Nil
  then show ?case by (simp add: shift_cell_def map_idI)
next
  case (Cons p bs)
  obtain k a where p: "p = (k, a)" by fastforce
  have none: "map_of bs k = None" using Cons.prems p by (simp add: map_of_eq_None_iff)
  let ?fits = "\<lambda>b. lg_graph_id b = gid \<and> lg_node_id b = i \<and> lg_budget_kind b = k \<and>
        a \<le> lg_maximum b - lg_reserved b - lg_consumed b"
  let ?f = "\<lambda>b. b\<lparr>lg_reserved := lg_reserved b + a, lg_updated_at_ms := now\<rparr>"
  from Cons.prems(1) p have one: "count_where ?fits ledger = 1"
    and rest: "reserve_parent_budget gid i bs now (update_where ?fits ?f ledger) = Inr ledger'"
    by (auto simp: Let_def split: if_splits)
  have fit: "?fits b" if "b \<in> set ledger" "ledger_cell gid i k b" for b
    using that by (intro fits_cell [OF Cons.prems(3) one, where gid = gid and i = i and k = k])
      (auto simp: ledger_cell_def)
  have upd: "update_where ?fits ?f ledger = map (\<lambda>b. if ledger_cell gid i k b then ?f b else b) ledger"
    unfolding update_where_def
    by (rule map_cong [OF refl]) (use fit in \<open>force simp: ledger_cell_def\<close>)
  have cells: "map cell_of (update_where ?fits ?f ledger) = map cell_of ledger"
    by (rule update_where_map_key) (simp add: cell_of_def)
  from Cons.IH [OF rest] Cons.prems p cells
  have ih: "ledger' = map (shift_cell now gid i bs (+)) (update_where ?fits ?f ledger)"
    "\<forall>b v. b \<in> set (update_where ?fits ?f ledger) \<longrightarrow> lg_graph_id b = gid \<longrightarrow> lg_node_id b = i \<longrightarrow>
      map_of bs (lg_budget_kind b) = Some v \<longrightarrow> v \<le> lg_maximum b - lg_reserved b - lg_consumed b"
    by auto
  have "ledger' = map (shift_cell now gid i (p # bs) (+)) ledger"
    unfolding ih(1) upd by (auto simp: p shift_cell_def ledger_cell_def none)
  moreover have "v \<le> lg_maximum b - lg_reserved b - lg_consumed b"
    if b: "b \<in> set ledger" "lg_graph_id b = gid" "lg_node_id b = i" "map_of (p # bs) (lg_budget_kind b) = Some v" for b v
  proof (cases "lg_budget_kind b = k")
    case True
    with b p fit [of b] show ?thesis by (simp add: ledger_cell_def)
  next
    case False
    then have "b \<in> set (update_where ?fits ?f ledger)" using b(1) by (force simp: set_update_where)
    with ih(2) b p False show ?thesis by auto
  qed
  ultimately show ?case by blast
qed

lemma insert_ledger_map:
  "insert_ledger gid i bs now ledger = Inr ledger' \<Longrightarrow> ledger' = ledger @
     map (\<lambda>(k, m). \<lparr>lg_graph_id = gid, lg_node_id = i, lg_budget_kind = k, lg_maximum = m,
        lg_reserved = 0, lg_consumed = 0, lg_updated_at_ms = now\<rparr>) bs"
proof (induction bs arbitrary: ledger)
  case (Cons p bs)
  obtain k a where p: "p = (k, a)" by fastforce
  from Cons.prems p have "insert_ledger gid i bs now (ledger @
        [\<lparr>lg_graph_id = gid, lg_node_id = i, lg_budget_kind = k, lg_maximum = a,
          lg_reserved = 0, lg_consumed = 0, lg_updated_at_ms = now\<rparr>]) = Inr ledger'" by (auto split: if_splits)
  from Cons.IH [OF this] show ?case by (simp add: p)
qed simp

lemma insert_ledger_distinct:
  "insert_ledger gid i bs now ledger = Inr ledger' \<Longrightarrow> distinct (map cell_of ledger) \<Longrightarrow>
     distinct (map cell_of ledger')"
proof (induction bs arbitrary: ledger)
  case (Cons p bs)
  obtain k a where p: "p = (k, a)" by fastforce
  have "distinct (map cell_of (ledger @
        [\<lparr>lg_graph_id = gid, lg_node_id = i, lg_budget_kind = k, lg_maximum = a,
          lg_reserved = 0, lg_consumed = 0, lg_updated_at_ms = now\<rparr>]))"
    using Cons.prems p by (auto simp: cell_of_def [abs_def] ledger_cell_def list_ex_iff split: if_splits)
  with Cons p show ?case by (auto split: if_splits)
qed simp

section \<open>Exactness\<close>

definition budgets_ok :: "'b cipher \<Rightarrow> 'b ag_db \<Rightarrow> bool" where
  "budgets_ok c db \<longleftrightarrow> (\<forall>n \<in> set (ag_nodes db). \<exists>bs. node_budgets c n = Inr bs \<and>
     distinct (map fst bs) \<and> (\<forall>p \<in> set bs. 0 \<le> snd p))"

definition cell_exact :: "'b cipher \<Rightarrow> 'b node_row list \<Rightarrow> ledger_row \<Rightarrow> bool" where
  "cell_exact c ns b \<longleftrightarrow>
     lg_reserved b = held c ns (lg_graph_id b) (lg_node_id b) (lg_budget_kind b) \<and>
     0 \<le> lg_consumed b \<and> lg_reserved b + lg_consumed b \<le> lg_maximum b"

definition ledger_exact :: "'b cipher \<Rightarrow> 'b ag_db \<Rightarrow> bool" where
  "ledger_exact c db \<longleftrightarrow> distinct (map cell_of (ag_ledger db)) \<and>
     (\<forall>b \<in> set (ag_ledger db). cell_exact c (ag_nodes db) b)"

lemma budgets_okD:
  assumes "budgets_ok c db" "n \<in> set (ag_nodes db)"
  obtains bs where "node_budgets c n = Inr bs" "distinct (map fst bs)" "\<forall>p \<in> set bs. 0 \<le> snd p"
  using assms unfolding budgets_ok_def by blast

lemma budgets_ok_core:
  assumes "budgets_ok c db" "map node_core (ag_nodes db') = map node_core (ag_nodes db)"
  shows "budgets_ok c db'"
  unfolding budgets_ok_def
proof
  fix m assume "m \<in> set (ag_nodes db')"
  from core_mem(1) [OF assms(2) this] obtain n where n: "n \<in> set (ag_nodes db)" "node_core m = node_core n"
    by blast
  show "\<exists>bs. node_budgets c m = Inr bs \<and> distinct (map fst bs) \<and> (\<forall>p \<in> set bs. 0 \<le> snd p)"
    unfolding node_budgets_core [OF n(2)] by (rule budgets_okD [OF assms(1) n(1)]) blast
qed

lemma node_amount_nonneg: "budgets_ok c db \<Longrightarrow> n \<in> set (ag_nodes db) \<Longrightarrow> 0 \<le> node_amount c k n"
proof -
  assume "budgets_ok c db" "n \<in> set (ag_nodes db)"
  then obtain bs where bs: "node_budgets c n = Inr bs" "\<forall>p \<in> set bs. 0 \<le> snd p" by (elim budgets_okD)
  show ?thesis
  proof (cases "map_of bs k")
    case (Some v)
    then have "(k, v) \<in> set bs" by (rule map_of_SomeD)
    with bs Some show ?thesis by (auto simp: node_amount_def)
  qed (simp add: node_amount_def bs(1))
qed

lemma held_nonneg: "budgets_ok c db \<Longrightarrow> 0 \<le> held c (ag_nodes db) gid i k"
  unfolding held_def by (rule sum_list_nonneg) (auto dest: node_amount_nonneg)

lemma held_member:
  assumes "budgets_ok c db" "n \<in> set (ag_nodes db)" "live_child gid i n"
  shows "node_amount c k n \<le> held c (ag_nodes db) gid i k"
proof -
  have "x \<le> sum_list xs" if "x \<in> set xs" "\<forall>y \<in> set xs. 0 \<le> y" for x :: int and xs
    using that by (induction xs) (auto simp: sum_list_nonneg)
  moreover have "node_amount c k n \<in> set (map (node_amount c k) (filter (live_child gid i) (ag_nodes db)))"
    using assms(2,3) by simp
  moreover have "\<forall>y \<in> set (map (node_amount c k) (filter (live_child gid i) (ag_nodes db))). 0 \<le> y"
    by (auto intro: node_amount_nonneg [OF assms(1)])
  ultimately show ?thesis unfolding held_def by blast
qed

lemma ledger_exact_held:
  assumes "ledger_exact c db" "ag_ledger db' = ag_ledger db"
    and "\<And>gid i k. held c (ag_nodes db') gid i k = held c (ag_nodes db) gid i k"
  shows "ledger_exact c db'"
  using assms(1) unfolding ledger_exact_def cell_exact_def assms(2,3) .

lemma ledger_exact_same:
  assumes "ledger_exact c db" "ag_ledger db' = ag_ledger db" "list_all2 same_live (ag_nodes db) (ag_nodes db')"
  shows "ledger_exact c db'"
  using assms(1,2) held_same_live [OF assms(3)] by (rule ledger_exact_held)

section \<open>Retiring a node\<close>

text \<open>
  \<open>db1\<close> has the row of the live node \<open>m\<close> in a terminal status; \<open>n\<close> is the row as it was fetched.
\<close>

lemma retire_exact:
  assumes ok: "budgets_ok c db" "ledger_exact c db" "distinct (map no_node_id (ag_nodes db))"
    and m: "m \<in> set (ag_nodes db)" "\<not> node_terminal (no_status m)" "node_core m = node_core n"
    and st: "node_terminal st"
    and db1: "ag_nodes db1 = update_where (\<lambda>r. no_node_id r = no_node_id n) (unleased st now) (ag_nodes db)"
      "ag_ledger db1 = ag_ledger db"
  shows "\<exists>ledger. release_parent_budget c n now db1 = Inr (db1\<lparr>ag_ledger := ledger\<rparr>) \<and>
    ledger_exact c (db1\<lparr>ag_ledger := ledger\<rparr>)"
proof -
  note mf = node_core_fields [OF m(3)]
  have held1: "held c (ag_nodes db1) gid i k = held c (ag_nodes db) gid i k -
      (if live_child gid i m then node_amount c k m else 0)" for gid i k
    unfolding db1(1) mf(1) [symmetric] by (rule held_retire [OF ok(3) m(1,2) st])
  show ?thesis
  proof (cases "no_parent_node_id n")
    case None
    with mf have "\<not> live_child gid i m" for gid i by (simp add: live_child_def)
    with held1 have "ledger_exact c (db1\<lparr>ag_ledger := ag_ledger db1\<rparr>)"
      by (intro ledger_exact_held [OF ok(2)]) (simp_all add: db1(2))
    with None show ?thesis by (intro exI [of _ "ag_ledger db1"]) (simp add: release_parent_budget_def)
  next
    case (Some p)
    obtain bs where "node_budgets c m = Inr bs" and bs2: "distinct (map fst bs)"
      using ok(1) m(1) by (elim budgets_okD)
    then have bs: "node_budgets c n = Inr bs" "distinct (map fst bs)"
      by (simp_all add: node_budgets_core [OF m(3), symmetric])
    let ?L = "map (shift_cell now (no_graph_id n) p bs (\<lambda>r v. max 0 (r - v))) (ag_ledger db)"
    have rel: "release_parent_budget c n now db1 = Inr (db1\<lparr>ag_ledger := ?L\<rparr>)"
      using Some bs db1(2) by (simp add: release_parent_budget_def release_amounts_map)
    have amt: "node_amount c k m = (case map_of bs k of None \<Rightarrow> 0 | Some v \<Rightarrow> v)" for k
      using bs(1) node_budgets_core [OF m(3), of c] by (simp add: node_amount_def)
    have child: "live_child gid i m \<longleftrightarrow> gid = no_graph_id n \<and> i = p" for gid i
      using m(2) Some mf by (auto simp: live_child_def)
    have cell: "cell_exact c (ag_nodes db1) b'"
      if b': "b' = shift_cell now (no_graph_id n) p bs (\<lambda>r v. max 0 (r - v)) b" and b: "b \<in> set (ag_ledger db)" for b b'
    proof -
      have old: "lg_reserved b = held c (ag_nodes db) (lg_graph_id b) (lg_node_id b) (lg_budget_kind b)"
        "0 \<le> lg_consumed b" "lg_reserved b + lg_consumed b \<le> lg_maximum b"
        using ok(2) b by (auto simp: ledger_exact_def cell_exact_def)
      show ?thesis
      proof (cases "live_child (lg_graph_id b) (lg_node_id b) m")
        case False
        with b' child have "b' = b" by (auto simp: shift_cell_def)
        with old False held1 show ?thesis by (simp add: cell_exact_def)
      next
        case True
        have amount: "0 \<le> node_amount c (lg_budget_kind b) m" by (rule node_amount_nonneg [OF ok(1) m(1)])
        have "node_amount c (lg_budget_kind b) m \<le> lg_reserved b"
          unfolding old(1) by (rule held_member [OF ok(1) m(1) True])
        with amount True child have "lg_reserved b' = lg_reserved b - node_amount c (lg_budget_kind b) m"
          unfolding b' amt by (auto simp: shift_cell_def split: option.splits)
        with amount old True held1 b' show ?thesis by (simp add: cell_exact_def)
      qed
    qed
    have "map cell_of ?L = map cell_of (ag_ledger db)" by simp
    with ok(2) have "distinct (map cell_of ?L)" by (simp only: ledger_exact_def)
    with cell have "ledger_exact c (db1\<lparr>ag_ledger := ?L\<rparr>)" unfolding ledger_exact_def by auto
    with rel show ?thesis by blast
  qed
qed

end
