(* ===== verification/GraphRetire.thy ===== *)
theory GraphRetire
  imports GraphLedger
begin

text \<open>
  Retiring nodes: waking a parent, blocking the dependents of a node and settling it keep the tables
  coherent, never fail, and leave exactly the named nodes without life. Completion, failure and the
  cancellation of a subtree are built from them.
\<close>

section \<open>Coherent tables\<close>

definition edges_ok :: "'b ag_db \<Rightarrow> bool" where
  "edges_ok db \<longleftrightarrow> distinct (ag_edges db) \<and> (\<forall>e \<in> set (ag_edges db). ed_edge_kind e = ''depends_on'' \<and>
     (\<exists>n \<in> set (ag_nodes db). no_node_id n = ed_dependent_node_id e \<and> no_graph_id n = ed_graph_id e) \<and>
     (\<exists>p \<in> set (ag_nodes db). no_node_id p = ed_predecessor_node_id e \<and> no_graph_id p = ed_graph_id e))"

lemma edges_okD:
  assumes "edges_ok db" "e \<in> set (ag_edges db)"
  shows "\<exists>n \<in> set (ag_nodes db). no_node_id n = ed_dependent_node_id e \<and> no_graph_id n = ed_graph_id e"
    and "\<exists>p \<in> set (ag_nodes db). no_node_id p = ed_predecessor_node_id e \<and> no_graph_id p = ed_graph_id e"
    and "ed_edge_kind e = ''depends_on''"
  using assms by (simp_all add: edges_ok_def)

definition coherent :: "'b cipher \<Rightarrow> 'b ag_db \<Rightarrow> bool" where
  "coherent c db \<longleftrightarrow> distinct (map no_node_id (ag_nodes db)) \<and> budgets_ok c db \<and> ledger_exact c db \<and> edges_ok db"

lemma coherentD:
  assumes "coherent c db"
  shows "distinct (map no_node_id (ag_nodes db))" "budgets_ok c db" "ledger_exact c db" "edges_ok db"
  using assms by (simp_all add: coherent_def)

text \<open>The tables that retiring leaves alone.\<close>

definition others :: "'b ag_db \<Rightarrow> 'b ag_db" where
  "others db = db\<lparr>ag_nodes := [], ag_locks := [], ag_ledger := []\<rparr>"

lemma others_fields:
  assumes "others db' = others db"
  shows "ag_graphs db' = ag_graphs db" "ag_edges db' = ag_edges db" "ag_mailbox db' = ag_mailbox db"
    "ag_artifacts db' = ag_artifacts db" "ag_checkpoints db' = ag_checkpoints db"
  using assms by (cases db; cases db'; simp add: others_def)+

lemma others_updates [simp]:
  "others (db\<lparr>ag_nodes := ns\<rparr>) = others db" "others (db\<lparr>ag_locks := ks\<rparr>) = others db"
  "others (db\<lparr>ag_ledger := bs\<rparr>) = others db" "others (set_node P f db) = others db"
  "others (drop_locks_of i db) = others db" "others (drop_expired_locks now db) = others db"
  by (simp_all add: others_def set_node_def drop_locks_of_def drop_expired_locks_def)

lemma node_updates [simp]:
  "ag_nodes (drop_locks_of i db) = ag_nodes db" "ag_ledger (drop_locks_of i db) = ag_ledger db"
  "ag_nodes (drop_expired_locks now db) = ag_nodes db" "ag_ledger (drop_expired_locks now db) = ag_ledger db"
  "ag_ledger (set_node P f db) = ag_ledger db" "ag_locks (set_node P f db) = ag_locks db"
  "ag_nodes (set_node P f db) = update_where P f (ag_nodes db)"
  by (simp_all add: set_node_def drop_locks_of_def drop_expired_locks_def)

lemma edges_ok_core:
  assumes "edges_ok db" "ag_edges db' = ag_edges db" "map node_core (ag_nodes db') = map node_core (ag_nodes db)"
  shows "edges_ok db'"
proof -
  have ex: "\<exists>m \<in> set (ag_nodes db'). no_node_id m = i \<and> no_graph_id m = g"
    if "\<exists>n \<in> set (ag_nodes db). no_node_id n = i \<and> no_graph_id n = g" for i g
  proof -
    from that obtain n where n: "n \<in> set (ag_nodes db)" "no_node_id n = i" "no_graph_id n = g" by blast
    from core_mem(2) [OF assms(3) n(1)] obtain m where m: "m \<in> set (ag_nodes db')" "node_core m = node_core n" by blast
    then show ?thesis using n node_core_fields(1,2) [OF m(2)] by (intro bexI [of _ m]) simp_all
  qed
  show ?thesis using assms(1) unfolding edges_ok_def assms(2) by (auto intro!: ex)
qed

lemma coherent_quietly:
  assumes "coherent c db" "quietly db db'" "ag_edges db' = ag_edges db" "ledger_exact c db'"
  shows "coherent c db'"
  using assms(1,4) core_ids(1) [OF quietly_core [OF assms(2)]]
    budgets_ok_core [OF _ quietly_core [OF assms(2)]] edges_ok_core [OF _ assms(3) quietly_core [OF assms(2)]]
  by (simp add: coherent_def)

section \<open>Waking a parent\<close>

lemma set_node_live:
  assumes "\<And>n. n \<in> set (ag_nodes db) \<Longrightarrow> P n \<Longrightarrow> same_live n (f n)"
  shows "list_all2 same_live (ag_nodes db) (ag_nodes (set_node P f db))"
  using assms by (simp add: same_live_set_node)

lemma same_live_ids: "list_all2 same_live ns ms \<Longrightarrow>
    no_node_id ` {n \<in> set ms. \<not> node_terminal (no_status n)} = no_node_id ` {n \<in> set ns. \<not> node_terminal (no_status n)}"
proof (induction rule: list_all2_induct)
  case (Cons n ns m ms)
  have core: "node_core m = node_core n" using Cons.hyps(1) by (simp add: same_live_def)
  have "node_terminal (no_status m) \<longleftrightarrow> node_terminal (no_status n)" using Cons.hyps(1) by (simp add: same_live_def)
  moreover have "{x \<in> set (a # as). \<not> node_terminal (no_status x)} =
    (if node_terminal (no_status a) then {} else {a}) \<union> {x \<in> set as. \<not> node_terminal (no_status x)}" for a :: "'a node_row" and as
    by auto
  ultimately show ?case using Cons.IH node_core_fields(1) [OF core] by simp
qed simp

lemma live_ids_same: "list_all2 same_live (ag_nodes db) (ag_nodes db') \<Longrightarrow> live_ids db' = live_ids db"
  unfolding live_ids_def by (rule same_live_ids)

lemma same_live_move: "\<not> node_terminal (no_status n) \<Longrightarrow> \<not> node_terminal st \<Longrightarrow> same_live n (move_node st now n)"
  by (simp add: same_live_def)

lemma wake_parent_cases:
  obtains "wake_parent p now db = db"
  | q where "wake_parent p now db = set_node (\<lambda>n. no_node_id n = q \<and> no_status n = NodeWaiting) (move_node NodeReady now) db"
proof (cases p)
  case None
  then show ?thesis using that(1) by (simp add: wake_parent_def)
next
  case (Some q)
  show ?thesis
  proof (cases "open_child db q")
    case True
    with Some show ?thesis using that(1) by (simp add: wake_parent_def)
  next
    case False
    with Some show ?thesis using that(2) [of q] by (simp add: wake_parent_def)
  qed
qed

lemma wake_parent_frame [simp]:
  "others (wake_parent p now db) = others db" "ag_locks (wake_parent p now db) = ag_locks db"
  "ag_ledger (wake_parent p now db) = ag_ledger db"
  by (cases rule: wake_parent_cases [of p now db]; simp)+

lemma wake_parent_live: "list_all2 same_live (ag_nodes db) (ag_nodes (wake_parent p now db))"
proof (cases rule: wake_parent_cases [of p now db])
  case 1
  then show ?thesis by (simp add: list_all2_same same_live_def)
next
  case (2 q)
  then show ?thesis using set_node_live [of db "\<lambda>n. no_node_id n = q \<and> no_status n = NodeWaiting" "move_node NodeReady now"]
    by (simp add: same_live_move)
qed

lemma wake_parent_quietly: "quietly db (wake_parent p now db)"
proof (cases rule: wake_parent_cases [of p now db])
  case (2 q)
  show ?thesis unfolding 2 by (rule quietly_set_node) (simp add: quiet_moves(1))
qed simp

lemma wake_parent_exact: "ledger_exact c db \<Longrightarrow> ledger_exact c (wake_parent p now db)"
  by (rule ledger_exact_same [OF _ _ wake_parent_live]) simp_all

lemma wake_parent_coherent: "coherent c db \<Longrightarrow> coherent c (wake_parent p now db)"
  by (rule coherent_quietly [OF _ wake_parent_quietly])
    (simp_all add: wake_parent_exact coherentD others_fields(2) [OF wake_parent_frame(1)])

section \<open>Retiring one node\<close>

definition fetched :: "'b ag_db \<Rightarrow> 'b node_row \<Rightarrow> bool" where
  "fetched db n \<longleftrightarrow> (\<exists>m \<in> set (ag_nodes db). \<not> node_terminal (no_status m) \<and> node_core m = node_core n)"

lemma fetched_live: "fetched db n \<Longrightarrow> no_node_id n \<in> live_ids db"
  unfolding fetched_def live_ids_def by (auto dest!: node_core_fields(1)) (metis (mono_tags) CollectI imageI)

lemma fetched_keep:
  assumes "fetched db n" "quietly db db'" "distinct (map no_node_id (ag_nodes db))" "no_node_id n \<in> live_ids db'"
  shows "fetched db' n"
proof -
  from assms(1) obtain m where m: "m \<in> set (ag_nodes db)" "node_core m = node_core n" by (auto simp: fetched_def)
  from core_mem(2) [OF quietly_core [OF assms(2)] m(1)]
  obtain m' where m': "m' \<in> set (ag_nodes db')" "node_core m' = node_core m" by blast
  from assms(4) obtain r where r: "r \<in> set (ag_nodes db')" "\<not> node_terminal (no_status r)" "no_node_id r = no_node_id n"
    by (auto simp: live_ids_def)
  have "no_node_id m' = no_node_id n" using node_core_fields(1) [OF m'(2)] node_core_fields(1) [OF m(2)] by simp
  with r have "r = m'"
    using key_unique [of no_node_id "ag_nodes db'" r m'] m'(1) assms(3) core_ids(1) [OF quietly_core [OF assms(2)]]
    by simp
  with r m' m(2) show ?thesis unfolding fetched_def by (intro bexI [of _ m']) simp_all
qed

text \<open>
  The row with the identity of \<open>n\<close> turns terminal (its locks may go) and its budget goes back to the
  parent. A completion needs a running row.
\<close>

lemma retire_ok:
  assumes co: "coherent c db" and n: "fetched db n"
    and st: "node_terminal st" "st = NodeCompleted \<Longrightarrow> \<exists>m \<in> set (ag_nodes db). no_node_id m = no_node_id n \<and> no_status m = NodeRunning"
    and db1: "db1 = set_node (\<lambda>m. no_node_id m = no_node_id n) (unleased st now) db"
    and db2: "ag_nodes db2 = ag_nodes db1" "ag_ledger db2 = ag_ledger db1" "others db2 = others db1"
  shows "\<exists>ledger. release_parent_budget c n now db2 = Inr (db2\<lparr>ag_ledger := ledger\<rparr>) \<and>
    coherent c (db2\<lparr>ag_ledger := ledger\<rparr>) \<and> quietly db (db2\<lparr>ag_ledger := ledger\<rparr>) \<and>
    live_ids (db2\<lparr>ag_ledger := ledger\<rparr>) = live_ids db - {no_node_id n}"
proof -
  note cs = coherentD [OF co]
  from n obtain m where m: "m \<in> set (ag_nodes db)" "\<not> node_terminal (no_status m)" "node_core m = node_core n"
    by (auto simp: fetched_def)
  have nodes2: "ag_nodes db2 = update_where (\<lambda>r. no_node_id r = no_node_id n) (unleased st now) (ag_nodes db)"
    by (simp add: db2 db1)
  from retire_exact [OF cs(2,3,1) m st(1) nodes2] db2(2) db1
  obtain ledger where rel: "release_parent_budget c n now db2 = Inr (db2\<lparr>ag_ledger := ledger\<rparr>)"
    and ex: "ledger_exact c (db2\<lparr>ag_ledger := ledger\<rparr>)" by auto
  have row: "r = m" if "r \<in> set (ag_nodes db)" "no_node_id r = no_node_id n" for r
    using key_unique [OF cs(1) that(1) m(1)] that(2) node_core_fields(1) [OF m(3)] by simp
  have q1: "quietly db db1" unfolding db1
  proof (rule quietly_set_node)
    fix r assume "r \<in> set (ag_nodes db)" "no_node_id r = no_node_id n"
    then have r: "r = m" by (rule row)
    show "quiet r (unleased st now r)"
    proof (cases "st = NodeCompleted")
      case True
      with st(2) row have "no_status m = NodeRunning" by blast
      with True r show ?thesis by (simp add: quiet_moves(3))
    next
      case False
      with st(1) have "\<not> started st" by (auto simp: started_def)
      with m(2) r show ?thesis by (intro quiet_moves(2)) simp_all
    qed
  qed
  then have q: "quietly db (db2\<lparr>ag_ledger := ledger\<rparr>)" by (simp add: quietly_def db2)
  have "others (db2\<lparr>ag_ledger := ledger\<rparr>) = others db" by (simp add: db2 db1)
  from coherent_quietly [OF co q others_fields(2) [OF this] ex]
  have "coherent c (db2\<lparr>ag_ledger := ledger\<rparr>)" .
  moreover have "live_ids (db2\<lparr>ag_ledger := ledger\<rparr>) = live_ids db1" by (simp add: live_ids_def db2)
  ultimately show ?thesis using rel q live_ids_retire [OF st(1), of "no_node_id n" now db]
    by (intro exI [of _ ledger]) (simp add: db1)
qed

section \<open>Blocking dependents\<close>

lemma block_all_ok:
  assumes "coherent c db" "\<forall>n \<in> set ns. fetched db n" "distinct (map no_node_id ns)"
  shows "\<exists>db'. block_all c ns now db = Inr db' \<and> coherent c db' \<and> quietly db db' \<and> others db' = others db \<and>
    ag_locks db' = ag_locks db \<and> live_ids db' = live_ids db - set (map no_node_id ns)"
  using assms
proof (induction ns arbitrary: db)
  case Nil
  then show ?case by simp
next
  case (Cons n ns)
  let ?db1 = "set_node (\<lambda>m. no_node_id m = no_node_id n) (unleased NodeBlocked now) db"
  from retire_ok [OF Cons.prems(1) _ _ _ refl refl refl refl, of n NodeBlocked now] Cons.prems(2)
  obtain ledger where rel: "release_parent_budget c n now ?db1 = Inr (?db1\<lparr>ag_ledger := ledger\<rparr>)"
    and co: "coherent c (?db1\<lparr>ag_ledger := ledger\<rparr>)" and q: "quietly db (?db1\<lparr>ag_ledger := ledger\<rparr>)"
    and lv: "live_ids (?db1\<lparr>ag_ledger := ledger\<rparr>) = live_ids db - {no_node_id n}" by auto
  define db2 where "db2 = wake_parent (no_parent_node_id n) now (?db1\<lparr>ag_ledger := ledger\<rparr>)"
  have co2: "coherent c db2" unfolding db2_def by (rule wake_parent_coherent [OF co])
  have q2: "quietly db db2" unfolding db2_def by (rule quietly_trans [OF q wake_parent_quietly])
  have lv2: "live_ids db2 = live_ids db - {no_node_id n}"
    unfolding db2_def live_ids_same [OF wake_parent_live] by (rule lv)
  have fe: "fetched db2 r" if r: "r \<in> set ns" for r
  proof (rule fetched_keep [OF _ q2 coherentD(1) [OF Cons.prems(1)]])
    show f: "fetched db r" using Cons.prems(2) r by simp
    have "no_node_id r \<in> live_ids db" by (rule fetched_live [OF f])
    moreover have "no_node_id r \<noteq> no_node_id n" using Cons.prems(3) imageI [OF r, of no_node_id] by auto
    ultimately show "no_node_id r \<in> live_ids db2" using lv2 by simp
  qed
  with Cons.IH [OF co2] Cons.prems(3) obtain db' where IH: "block_all c ns now db2 = Inr db'" "coherent c db'"
    "quietly db2 db'" "others db' = others db2" "ag_locks db' = ag_locks db2"
    "live_ids db' = live_ids db2 - set (map no_node_id ns)" by auto
  have "block_all c (n # ns) now db = Inr db'" using rel IH(1) by (simp add: db2_def)
  moreover have "others db2 = others db" "ag_locks db2 = ag_locks db" by (simp_all add: db2_def)
  moreover have "live_ids db' = live_ids db - set (map no_node_id (n # ns))" using IH(6) lv2 by auto
  ultimately show ?case using IH(2-5) quietly_trans [OF q2 IH(3)] by auto
qed

lemma open_dependents_mem:
  "n \<in> set (open_dependents i db) \<longleftrightarrow> n \<in> set (ag_nodes db) \<and> \<not> node_terminal (no_status n) \<and>
     (\<exists>e \<in> set (ag_edges db). depends_on (no_node_id n) i e)"
proof -
  have "n \<in> set (open_dependents i db) \<longleftrightarrow> (\<exists>e \<in> set (ag_edges db). ed_predecessor_node_id e = i \<and>
      ed_edge_kind e = ''depends_on'' \<and> n \<in> set (ag_nodes db) \<and> no_node_id n = ed_dependent_node_id e \<and>
      \<not> node_terminal (no_status n))"
    unfolding open_dependents_def set_concat set_map by (auto split: if_splits)
  then show ?thesis unfolding depends_on_def by metis
qed

lemma open_dependents_distinct:
  assumes ids: "distinct (map no_node_id (ag_nodes db))" and "edges_ok db"
  shows "distinct (map no_node_id (open_dependents i db))"
proof -
  let ?F = "\<lambda>e. if ed_predecessor_node_id e = i \<and> ed_edge_kind e = ''depends_on''
     then filter (\<lambda>n. no_node_id n = ed_dependent_node_id e \<and> \<not> node_terminal (no_status n)) (ag_nodes db) else []"
  have same: "e = e'" if p: "e \<in> set (ag_edges db)" "e' \<in> set (ag_edges db)" "n \<in> set (?F e)" "m \<in> set (?F e')"
    "no_node_id n = no_node_id m" for e e' n m
  proof -
    from p(3) have f1: "ed_predecessor_node_id e = i" "ed_edge_kind e = ''depends_on''"
      "ed_dependent_node_id e = no_node_id n" by (auto split: if_splits)
    from p(4) have f2: "ed_predecessor_node_id e' = i" "ed_edge_kind e' = ''depends_on''"
      "ed_dependent_node_id e' = no_node_id m" by (auto split: if_splits)
    obtain a where a: "a \<in> set (ag_nodes db)" "no_node_id a = ed_dependent_node_id e" "no_graph_id a = ed_graph_id e"
      using edges_okD(1) [OF assms(2) p(1)] by blast
    obtain b where b: "b \<in> set (ag_nodes db)" "no_node_id b = ed_dependent_node_id e'" "no_graph_id b = ed_graph_id e'"
      using edges_okD(1) [OF assms(2) p(2)] by blast
    have "a = b" using key_unique [OF ids a(1) b(1)] a(2) b(2) f1(3) f2(3) p(5) by simp
    with a(3) b(3) f1 f2 p(5) show ?thesis by (cases e; cases e') simp
  qed
  have "distinct (map no_node_id (concat (map ?F es)))" if "distinct es" "set es \<subseteq> set (ag_edges db)" for es
    using that
  proof (induction es)
    case (Cons e es)
    have "distinct (map no_node_id (?F e))" using ids by (simp add: distinct_map_filter)
    moreover have "no_node_id n \<noteq> no_node_id m" if "n \<in> set (?F e)" "e' \<in> set es" "m \<in> set (?F e')" for n m e'
    proof
      assume "no_node_id n = no_node_id m"
      with same [OF _ _ that(1,3)] Cons.prems(2) that(2) have "e = e'" by auto
      with Cons.prems(1) that(2) show False by simp
    qed
    ultimately show ?case using Cons by (fastforce simp: image_iff)
  qed simp
  from this [of "ag_edges db"] assms(2) show ?thesis by (simp add: open_dependents_def edges_ok_def)
qed

lemma block_dependents_ok:
  assumes "coherent c db"
  shows "\<exists>db'. block_dependents c i now db = Inr db' \<and> coherent c db' \<and> quietly db db' \<and> others db' = others db \<and>
    ag_locks db' = ag_locks db \<and> live_ids db' \<subseteq> live_ids db"
proof -
  have "\<forall>n \<in> set (open_dependents i db). fetched db n"
    using open_dependents_mem [of _ i db] unfolding fetched_def by blast
  from block_all_ok [OF assms this open_dependents_distinct [OF coherentD(1,4) [OF assms]], of now]
  show ?thesis unfolding block_dependents_def by auto
qed

section \<open>Settling\<close>

lemma settle_node_ok:
  assumes "coherent c db" "n \<in> set (ag_nodes db)" "\<not> node_terminal (no_status n)" "node_terminal st"
    and "st = NodeCompleted \<Longrightarrow> no_status n = NodeRunning"
  shows "\<exists>db'. settle_node c st n now db = Inr db' \<and> coherent c db' \<and> quietly db db' \<and> others db' = others db \<and>
    ag_locks db' = delete_where (\<lambda>k. lk_owner_node_id k = no_node_id n) (ag_locks db) \<and>
    live_ids db' = live_ids db - {no_node_id n}"
proof -
  let ?db1 = "set_node (\<lambda>m. no_node_id m = no_node_id n) (unleased st now) db"
  let ?db2 = "drop_locks_of (no_node_id n) ?db1"
  have f: "fetched db n" using assms(2,3) by (auto simp: fetched_def)
  from assms(2,5) have "st = NodeCompleted \<Longrightarrow> \<exists>m \<in> set (ag_nodes db). no_node_id m = no_node_id n \<and> no_status m = NodeRunning"
    by blast
  from retire_ok [OF assms(1) f assms(4) this refl, of ?db2 now]
  obtain ledger where "release_parent_budget c n now ?db2 = Inr (?db2\<lparr>ag_ledger := ledger\<rparr>)"
    "coherent c (?db2\<lparr>ag_ledger := ledger\<rparr>)" "quietly db (?db2\<lparr>ag_ledger := ledger\<rparr>)"
    "live_ids (?db2\<lparr>ag_ledger := ledger\<rparr>) = live_ids db - {no_node_id n}" by auto
  moreover have "ag_locks ?db2 = delete_where (\<lambda>k. lk_owner_node_id k = no_node_id n) (ag_locks db)"
    by (simp add: drop_locks_of_def)
  ultimately show ?thesis unfolding settle_node_def by (intro exI [of _ "?db2\<lparr>ag_ledger := ledger\<rparr>"]) simp
qed

text \<open>The loop of \<open>cancel_subtree\<close>: it runs to its end, and none of the listed nodes is left alive.\<close>

lemma cancel_all_ok:
  assumes "coherent c db"
  shows "\<exists>db'. cancel_all c ids now db = Inr db' \<and> coherent c db' \<and> quietly db db' \<and> others db' = others db \<and>
    live_ids db' \<subseteq> live_ids db - set ids \<and>
    (\<exists>X \<subseteq> set ids. ag_locks db' = delete_where (\<lambda>k. lk_owner_node_id k \<in> X) (ag_locks db))"
  using assms
proof (induction ids arbitrary: db)
  case Nil
  then show ?case by (auto simp: delete_where_def)
next
  case (Cons i ids)
  have skip: ?case if "i \<notin> live_ids db" "cancel_all c (i # ids) now db = cancel_all c ids now db"
  proof -
    from Cons.IH [OF Cons.prems] obtain db' X where "cancel_all c ids now db = Inr db'" "coherent c db'" "quietly db db'"
      "others db' = others db" "live_ids db' \<subseteq> live_ids db - set ids" "X \<subseteq> set ids"
      "ag_locks db' = delete_where (\<lambda>k. lk_owner_node_id k \<in> X) (ag_locks db)" by blast
    with that show ?thesis by (intro exI [of _ db'] conjI exI [of _ X]) auto
  qed
  show ?case
  proof (cases "find_node i db")
    case None
    then have "i \<notin> live_ids db" by (auto simp: live_ids_def find_node_def find_None_iff)
    with None skip show ?thesis by simp
  next
    case (Some n)
    then have n: "n \<in> set (ag_nodes db)" "no_node_id n = i" unfolding find_node_def by (auto dest: find_in_set)
    show ?thesis
    proof (cases "node_terminal (no_status n)")
      case True
      have "i \<notin> live_ids db"
      proof
        assume "i \<in> live_ids db"
        then obtain r where "r \<in> set (ag_nodes db)" "\<not> node_terminal (no_status r)" "no_node_id r = i"
          by (auto simp: live_ids_def)
        with key_unique [OF coherentD(1) [OF Cons.prems] n(1)] n(2) True show False by metis
      qed
      with True Some skip show ?thesis by simp
    next
      case False
      from settle_node_ok [OF Cons.prems n(1) False, of NodeCancelled now]
      obtain db1 where db1: "settle_node c NodeCancelled n now db = Inr db1" "coherent c db1" "quietly db db1"
        "others db1 = others db" "ag_locks db1 = delete_where (\<lambda>k. lk_owner_node_id k = no_node_id n) (ag_locks db)"
        "live_ids db1 = live_ids db - {no_node_id n}" by auto
      from block_dependents_ok [OF db1(2), of i now]
      obtain db2 where db2: "block_dependents c i now db1 = Inr db2" "coherent c db2" "quietly db1 db2"
        "others db2 = others db1" "ag_locks db2 = ag_locks db1" "live_ids db2 \<subseteq> live_ids db1" by blast
      from Cons.IH [OF db2(2)] obtain db' X where db': "cancel_all c ids now db2 = Inr db'" "coherent c db'"
        "quietly db2 db'" "others db' = others db2" "live_ids db' \<subseteq> live_ids db2 - set ids" "X \<subseteq> set ids"
        "ag_locks db' = delete_where (\<lambda>k. lk_owner_node_id k \<in> X) (ag_locks db2)" by blast
      have "cancel_all c (i # ids) now db = Inr db'" using Some False db1(1) db2(1) db'(1) by simp
      moreover have "quietly db db'" by (rule quietly_trans [OF db1(3) quietly_trans [OF db2(3) db'(3)]])
      moreover have "live_ids db' \<subseteq> live_ids db - set (i # ids)" using db1(6) db2(6) db'(5) n(2) by auto
      moreover have "ag_locks db' = delete_where (\<lambda>k. lk_owner_node_id k \<in> insert i X) (ag_locks db)"
        unfolding db'(7) db2(5) db1(5) n(2) delete_where_def by (auto intro: filter_cong)
      moreover have "insert i X \<subseteq> set (i # ids)" using db'(6) by auto
      ultimately show ?thesis using db'(2,4) db2(4) db1(4)
        by (intro exI [of _ db'] conjI exI [of _ "insert i X"]) simp_all
    qed
  qed
qed

end
