(* ===== verification/GraphShape.thy ===== *)
theory GraphShape
  imports GraphRetire SessionInv
begin

text \<open>
  The invariant of the agent graph: coherent tables, nodes placed in the forest of their graph and
  within its limits, owners exactly on running nodes, dependencies of started nodes completed, one lock
  per resource, numbered mailboxes. How it is kept by the three ways in which the node table changes:
  quietly, by leasing, and by a new row.
\<close>

section \<open>The invariant\<close>

definition graph_view :: "graph_row \<Rightarrow> graph_row" where
  "graph_view g = g\<lparr>gr_status := GraphActive, gr_updated_at_ms := 0\<rparr>"

lemma graph_view_fields:
  assumes "graph_view g = graph_view h"
  shows "gr_graph_id g = gr_graph_id h" "gr_root_run_id g = gr_root_run_id h"
    "gr_root_node_id g = gr_root_node_id h" "gr_max_depth g = gr_max_depth h"
    "gr_max_nodes g = gr_max_nodes h" "gr_max_concurrency g = gr_max_concurrency h"
    "gr_tenant_key g = gr_tenant_key h"
  using assms by (cases g; cases h; simp add: graph_view_def)+

definition placed :: "'b ag_db \<Rightarrow> 'b node_row \<Rightarrow> bool" where
  "placed db n \<longleftrightarrow>
     (\<exists>g \<in> set (ag_graphs db). gr_graph_id g = no_graph_id n \<and> no_depth n \<le> gr_max_depth g) \<and>
     (case no_parent_node_id n of
        None \<Rightarrow> no_depth n = 1
      | Some p \<Rightarrow> \<exists>m \<in> set (ag_nodes db). no_node_id m = p \<and> no_graph_id m = no_graph_id n \<and>
          no_depth n = no_depth m + 1)"

definition in_graph :: "string \<Rightarrow> 'b node_row \<Rightarrow> bool" where
  "in_graph gid n \<longleftrightarrow> no_graph_id n = gid"

definition within_graph_limits :: "'b ag_db \<Rightarrow> graph_row \<Rightarrow> bool" where
  "within_graph_limits db g \<longleftrightarrow>
     int (count_where (in_graph (gr_graph_id g)) (ag_nodes db)) \<le> gr_max_nodes g \<and>
     int (running_count (gr_graph_id g) db) \<le> gr_max_concurrency g"

definition forest_ok :: "'b ag_db \<Rightarrow> bool" where
  "forest_ok db \<longleftrightarrow> distinct (map gr_graph_id (ag_graphs db)) \<and> (\<forall>n \<in> set (ag_nodes db). placed db n) \<and>
     (\<forall>g \<in> set (ag_graphs db). within_graph_limits db g)"

definition deps_ok :: "'b ag_db \<Rightarrow> bool" where
  "deps_ok db \<longleftrightarrow> (\<forall>n \<in> set (ag_nodes db). started (no_status n) \<longrightarrow> (\<forall>e \<in> set (ag_edges db).
     ed_dependent_node_id e = no_node_id n \<longrightarrow> (\<forall>p \<in> set (ag_nodes db).
       no_node_id p = ed_predecessor_node_id e \<longrightarrow> no_status p = NodeCompleted)))"

definition leases_ok :: "'b ag_db \<Rightarrow> bool" where
  "leases_ok db \<longleftrightarrow> (\<forall>n \<in> set (ag_nodes db). lease_row_ok n)"

definition locks_ok :: "'b ag_db \<Rightarrow> bool" where
  "locks_ok db \<longleftrightarrow> distinct (map lock_key (ag_locks db))"

definition mail_key :: "'b mail_row \<Rightarrow> string \<times> string \<times> string \<times> mailbox_kind \<times> string option" where
  "mail_key m = (ma_graph_id m, ma_sender_node_id m, ma_recipient_node_id m, ma_kind m, ma_correlation_id m)"

definition mail_ok :: "'b ag_db \<Rightarrow> bool" where
  "mail_ok db \<longleftrightarrow> distinct (map ma_item_id (ag_mailbox db)) \<and>
     (\<forall>i. numbered (map ma_sequence (inbox i db))) \<and>
     distinct (map mail_key (filter (\<lambda>m. ma_correlation_id m \<noteq> None) (ag_mailbox db)))"

definition graph_ok :: "'b cipher \<Rightarrow> 'b ag_db \<Rightarrow> bool" where
  "graph_ok c db \<longleftrightarrow> coherent c db \<and> forest_ok db \<and> deps_ok db \<and> leases_ok db \<and> locks_ok db \<and> mail_ok db"

lemma graph_okD:
  assumes "graph_ok c db"
  shows "coherent c db" "forest_ok db" "deps_ok db" "leases_ok db" "locks_ok db" "mail_ok db"
  using assms by (simp_all add: graph_ok_def)

section \<open>Quiet changes\<close>

lemma placed_core:
  assumes "placed db n" "node_core m = node_core n" "map node_core (ag_nodes db') = map node_core (ag_nodes db)"
    and "map graph_view (ag_graphs db') = map graph_view (ag_graphs db)"
  shows "placed db' m"
proof -
  note f = node_core_fields [OF assms(2)]
  have g: "\<exists>h \<in> set (ag_graphs db'). graph_view h = graph_view g" if "g \<in> set (ag_graphs db)" for g
    using that assms(4) by (metis (mono_tags) imageE image_eqI list.set_map)
  have par: "\<exists>q \<in> set (ag_nodes db'). node_core q = node_core r" if "r \<in> set (ag_nodes db)" for r
    using core_mem(2) [OF assms(3) that] .
  from assms(1) obtain gr where gr: "gr \<in> set (ag_graphs db)" "gr_graph_id gr = no_graph_id n" "no_depth n \<le> gr_max_depth gr"
    by (auto simp: placed_def)
  from g [OF gr(1)] obtain h where h: "h \<in> set (ag_graphs db')" "graph_view h = graph_view gr" by blast
  have "\<exists>h \<in> set (ag_graphs db'). gr_graph_id h = no_graph_id m \<and> no_depth m \<le> gr_max_depth h"
    using h(1) gr(2,3) graph_view_fields(1,4) [OF h(2)] f by (intro bexI [of _ h]) simp_all
  moreover have "case no_parent_node_id m of None \<Rightarrow> no_depth m = 1
      | Some p \<Rightarrow> \<exists>r \<in> set (ag_nodes db'). no_node_id r = p \<and> no_graph_id r = no_graph_id m \<and> no_depth m = no_depth r + 1"
  proof (cases "no_parent_node_id m")
    case None
    with assms(1) f show ?thesis by (simp add: placed_def)
  next
    case (Some p)
    then have "no_parent_node_id n = Some p" using f(3) by simp
    with assms(1) obtain r where r: "r \<in> set (ag_nodes db)" "no_node_id r = p" "no_graph_id r = no_graph_id n"
      "no_depth n = no_depth r + 1" by (auto simp: placed_def)
    from par [OF r(1)] obtain q where q: "q \<in> set (ag_nodes db')" "node_core q = node_core r" by blast
    show ?thesis unfolding Some option.case
      using q(1) r(2-) node_core_fields(1,2,4) [OF q(2)] f(2,4) by (intro bexI [of _ q]) simp_all
  qed
  ultimately show ?thesis by (simp add: placed_def)
qed

lemma count_all2_le:
  "list_all2 (\<lambda>n m. Q m \<longrightarrow> P n) ns ms \<Longrightarrow> count_where Q ms \<le> count_where P ns"
  by (induction rule: list_all2_induct) auto

lemma quietly_running: "quietly db db' \<Longrightarrow> running_count gid db' \<le> running_count gid db"
  unfolding quietly_def running_count_def
  by (rule count_all2_le, erule list_all2_mono) (auto simp: quiet_def dest!: node_core_fields(2))

lemma forest_ok_quietly:
  assumes "forest_ok db" "quietly db db'" "map graph_view (ag_graphs db') = map graph_view (ag_graphs db)"
  shows "forest_ok db'"
proof -
  note core = quietly_core [OF assms(2)]
  have ids: "map gr_graph_id gs = map gr_graph_id (map graph_view gs)" for gs by (simp add: graph_view_def comp_def)
  have "map gr_graph_id (ag_graphs db') = map gr_graph_id (ag_graphs db)"
    by (simp only: ids [of "ag_graphs db'"] ids [of "ag_graphs db"] assms(3))
  moreover have "placed db' m" if m: "m \<in> set (ag_nodes db')" for m
  proof -
    from core_mem(1) [OF core m] obtain n where "n \<in> set (ag_nodes db)" "node_core m = node_core n" by blast
    with assms(1) show ?thesis by (intro placed_core [OF _ _ core assms(3)]) (auto simp: forest_ok_def)
  qed
  moreover have "within_graph_limits db' h" if h: "h \<in> set (ag_graphs db')" for h
  proof -
    obtain g where g: "g \<in> set (ag_graphs db)" "graph_view h = graph_view g"
      using h assms(3) by (metis (mono_tags) imageE image_eqI list.set_map)
    have "within_graph_limits db g" using assms(1) g(1) by (simp add: forest_ok_def)
    moreover have "count_where (in_graph gid) (ag_nodes db') = count_where (in_graph gid) (ag_nodes db)" for gid
      by (rule core_count [OF core]) (auto simp: in_graph_def dest: node_core_fields(2))
    ultimately show ?thesis using quietly_running [OF assms(2), of "gr_graph_id g"] graph_view_fields [OF g(2)]
      by (simp add: within_graph_limits_def)
  qed
  ultimately show ?thesis using assms(1) by (simp add: forest_ok_def)
qed

lemma deps_okD:
  "deps_ok db \<Longrightarrow> n \<in> set (ag_nodes db) \<Longrightarrow> started (no_status n) \<Longrightarrow> e \<in> set (ag_edges db) \<Longrightarrow>
   ed_dependent_node_id e = no_node_id n \<Longrightarrow> p \<in> set (ag_nodes db) \<Longrightarrow>
   no_node_id p = ed_predecessor_node_id e \<Longrightarrow> no_status p = NodeCompleted"
  unfolding deps_ok_def by blast

lemma deps_ok_quietly:
  assumes "deps_ok db" "quietly db db'" "ag_edges db' = ag_edges db"
  shows "deps_ok db'"
  unfolding deps_ok_def
proof (intro ballI impI)
  fix m e p'
  assume m: "m \<in> set (ag_nodes db')" "started (no_status m)" and e: "e \<in> set (ag_edges db')"
    "ed_dependent_node_id e = no_node_id m" and p': "p' \<in> set (ag_nodes db')" "no_node_id p' = ed_predecessor_node_id e"
  from assms(2) have q: "list_all2 quiet (ag_nodes db) (ag_nodes db')" by (simp add: quietly_def)
  from all2_mem(1) [OF q m(1)] obtain n where n: "n \<in> set (ag_nodes db)" "quiet n m" by blast
  from all2_mem(1) [OF q p'(1)] obtain p where p: "p \<in> set (ag_nodes db)" "quiet p p'" by blast
  have cn: "node_core m = node_core n" and cp: "node_core p' = node_core p"
    using n(2) p(2) by (simp_all add: quiet_def)
  have "no_status p = NodeCompleted"
  proof (rule deps_okD [OF assms(1) n(1) _ _ _ p(1)])
    show "started (no_status n)" using n(2) m(2) by (simp add: quiet_def)
    show "e \<in> set (ag_edges db)" using e(1) assms(3) by simp
    show "ed_dependent_node_id e = no_node_id n" using e(2) node_core_fields(1) [OF cn] by simp
    show "no_node_id p = ed_predecessor_node_id e" using p'(2) node_core_fields(1) [OF cp] by simp
  qed
  with p(2) show "no_status p' = NodeCompleted" by (simp add: quiet_def)
qed

lemma leases_ok_quietly: "leases_ok db \<Longrightarrow> quietly db db' \<Longrightarrow> leases_ok db'"
  unfolding leases_ok_def quietly_def by (auto simp: quiet_def dest!: all2_mem(1))

lemma mail_ok_same: "mail_ok db \<Longrightarrow> ag_mailbox db' = ag_mailbox db \<Longrightarrow> mail_ok db'"
  by (simp add: mail_ok_def inbox_def)

text \<open>What an operation owes when it changes the node table quietly.\<close>

lemma quiet_graph_ok:
  assumes "graph_ok c db" "quietly db db'" "map graph_view (ag_graphs db') = map graph_view (ag_graphs db)"
    and "ag_edges db' = ag_edges db" "ledger_exact c db'" "locks_ok db'" "mail_ok db'"
  shows "graph_ok c db'"
proof -
  note ok = graph_okD [OF assms(1)]
  show ?thesis unfolding graph_ok_def
    using coherent_quietly [OF ok(1) assms(2,4,5)] forest_ok_quietly [OF ok(2) assms(2,3)]
      deps_ok_quietly [OF ok(3) assms(2,4)] leases_ok_quietly [OF ok(4) assms(2)] assms(6,7) by blast
qed

lemma locks_delete: "locks_ok db \<Longrightarrow> ag_locks db' = delete_where P (ag_locks db) \<Longrightarrow> locks_ok db'"
  by (simp add: locks_ok_def)

text \<open>Operations that only touch tables beside nodes, edges and ledger.\<close>

lemma side_graph_ok:
  assumes "graph_ok c db" "ag_nodes db' = ag_nodes db" "ag_ledger db' = ag_ledger db" "ag_edges db' = ag_edges db"
    and "map graph_view (ag_graphs db') = map graph_view (ag_graphs db)" "locks_ok db'" "mail_ok db'"
  shows "graph_ok c db'"
proof (rule quiet_graph_ok [OF assms(1) quietly_same [OF assms(2)] assms(5,4) _ assms(6,7)])
  show "ledger_exact c db'"
    by (rule ledger_exact_held [OF coherentD(3) [OF graph_okD(1) [OF assms(1)]] assms(3)]) (simp add: assms(2))
qed

end
