(* ===== verification/GraphOps.thy ===== *)
theory GraphOps
  imports GraphShape
begin

text \<open>
  Every operation of the graph store that changes nodes quietly keeps the invariant: activation,
  failure, interruption, completion, cancellation, publication, mail, locks and checkpoints.
\<close>

section \<open>Building blocks\<close>

lemma set_node_graph_ok:
  assumes "graph_ok c db"
    and "\<And>n. n \<in> set (ag_nodes db) \<Longrightarrow> P n \<Longrightarrow> quiet n (f n) \<and> same_live n (f n)"
  shows "graph_ok c (set_node P f db)"
proof (rule quiet_graph_ok [OF assms(1)])
  note ok = graph_okD [OF assms(1)]
  show "quietly db (set_node P f db)" by (rule quietly_set_node) (simp add: assms(2))
  show "ledger_exact c (set_node P f db)"
    by (rule ledger_exact_same [OF coherentD(3) [OF ok(1)] _ set_node_live]) (simp_all add: assms(2))
  show "locks_ok (set_node P f db)" "mail_ok (set_node P f db)"
    using ok by (simp_all add: locks_ok_def mail_ok_def inbox_def set_node_def)
qed (simp_all add: set_node_def)

lemma drop_locks_graph_ok:
  assumes "graph_ok c db" "db' = db\<lparr>ag_locks := delete_where P (ag_locks db)\<rparr>"
  shows "graph_ok c db'"
  unfolding assms(2)
  by (rule side_graph_ok [OF assms(1)])
    (use graph_okD(5,6) [OF assms(1)] in \<open>simp_all add: locks_ok_def mail_ok_def inbox_def\<close>)

lemma drop_locks_of_ok: "graph_ok c db \<Longrightarrow> graph_ok c (drop_locks_of i db)"
  by (rule drop_locks_graph_ok) (simp_all add: drop_locks_of_def)

lemma drop_expired_ok: "graph_ok c db \<Longrightarrow> graph_ok c (drop_expired_locks now db)"
  by (rule drop_locks_graph_ok) (simp_all add: drop_expired_locks_def)

lemma wake_parent_ok: "graph_ok c db \<Longrightarrow> graph_ok c (wake_parent p now db)"
proof (cases rule: wake_parent_cases [of p now db])
  case (2 q)
  assume ok: "graph_ok c db"
  show ?thesis unfolding 2 by (rule set_node_graph_ok [OF ok]) (simp add: quiet_moves(1) same_live_move)
qed simp

text \<open>What retiring operations leave behind.\<close>

lemma retired_graph_ok:
  assumes "graph_ok c db" "coherent c db'" "quietly db db'" "others db' = others db"
    and "ag_locks db' = delete_where P (ag_locks db)"
  shows "graph_ok c db'"
proof (rule quiet_graph_ok [OF assms(1,3)])
  note ok = graph_okD [OF assms(1)]
  note o = others_fields [OF assms(4)]
  show "map graph_view (ag_graphs db') = map graph_view (ag_graphs db)" "ag_edges db' = ag_edges db"
    using o by simp_all
  show "ledger_exact c db'" by (rule coherentD(3) [OF assms(2)])
  show "locks_ok db'" by (rule locks_delete [OF ok(5) assms(5)])
  show "mail_ok db'" by (rule mail_ok_same [OF ok(6) o(3)])
qed

lemma no_deletion: "xs = delete_where (\<lambda>k. False) xs"
  by (simp add: delete_where_def)

section \<open>Node operations\<close>

lemma activate_ok: "graph_ok c db \<Longrightarrow> graph_ok c (snd (activate_node c i now db))"
proof -
  assume ok: "graph_ok c db"
  have "graph_ok c (snd (transaction (activate_node_tx i now) db))"
  proof (rule transaction_inv [where P = "graph_ok c", OF ok])
    fix r db' assume "activate_node_tx i now db = Inr (r, db')"
    then have "db' = set_node (\<lambda>n. no_node_id n = i \<and> no_status n = NodeCreated) (move_node NodeReady now) db"
      by (auto simp: activate_node_tx_def Let_def split: option.splits if_splits)
    then show "graph_ok c db'"
      by (simp only:) (rule set_node_graph_ok [OF ok], simp add: quiet_moves(1) same_live_move)
  qed
  then show ?thesis by (auto simp: activate_node_def split: prod.splits sum.splits)
qed

lemma reclaim_ok: "graph_ok c db \<Longrightarrow> graph_ok c (reclaim_nodes gid now db)"
  unfolding reclaim_nodes_def
  by (rule drop_expired_ok, rule set_node_graph_ok)
    (auto simp: node_expired_def started_def same_live_def intro!: quiet_moves(2))

lemma running_node:
  assumes "find (running_for i worker) (ag_nodes db) = Some n"
  shows "n \<in> set (ag_nodes db)" "no_node_id n = i" "no_status n = NodeRunning" "no_lease_owner n = Some worker"
    "\<not> node_terminal (no_status n)"
  using find_in_set [OF assms] by (simp_all add: running_for_def)

lemma fail_node_tx_total:
  assumes "graph_ok c db" "find (running_for i worker) (ag_nodes db) = Some n"
  shows "\<exists>db'. fail_node_tx c i worker now db = Inr ((), db') \<and> graph_ok c db' \<and> quietly db db' \<and>
    others db' = others db \<and> i \<notin> live_ids db' \<and>
    ag_locks db' = delete_where (\<lambda>k. lk_owner_node_id k = i) (ag_locks db)"
proof -
  note n = running_node [OF assms(2)]
  from settle_node_ok [OF graph_okD(1) [OF assms(1)] n(1,5), of NodeFailed now] n(2)
  obtain db1 where db1: "settle_node c NodeFailed n now db = Inr db1" "coherent c db1" "quietly db db1"
    "others db1 = others db" "ag_locks db1 = delete_where (\<lambda>k. lk_owner_node_id k = i) (ag_locks db)"
    "live_ids db1 = live_ids db - {i}" by auto
  from block_dependents_ok [OF db1(2), of i now]
  obtain db2 where db2: "block_dependents c i now db1 = Inr db2" "coherent c db2" "quietly db1 db2"
    "others db2 = others db1" "ag_locks db2 = ag_locks db1" "live_ids db2 \<subseteq> live_ids db1" by blast
  have q: "quietly db db2" by (rule quietly_trans [OF db1(3) db2(3)])
  have "graph_ok c db2"
    by (rule retired_graph_ok [OF assms(1) db2(2) q, of "\<lambda>k. lk_owner_node_id k = i"])
      (simp_all add: db1(4,5) db2(4,5))
  then have "graph_ok c (wake_parent (no_parent_node_id n) now db2)" by (rule wake_parent_ok)
  moreover have "i \<notin> live_ids (wake_parent (no_parent_node_id n) now db2)"
    unfolding live_ids_same [OF wake_parent_live] using db2(6) db1(6) by auto
  ultimately show ?thesis using assms(2) db1 db2 quietly_trans [OF q wake_parent_quietly]
    by (intro exI [of _ "wake_parent (no_parent_node_id n) now db2"]) (simp add: fail_node_tx_def)
qed

lemma fail_ok: "graph_ok c db \<Longrightarrow> graph_ok c (snd (fail_node c i worker now db))"
  unfolding fail_node_def
proof (rule transaction_inv [where P = "graph_ok c"])
  fix a db' assume ok: "graph_ok c db" and tx: "fail_node_tx c i worker now db = Inr (a, db')"
  from tx obtain n where "find (running_for i worker) (ag_nodes db) = Some n"
    by (auto simp: fail_node_tx_def split: option.splits)
  from fail_node_tx_total [OF ok this, of now] tx show "graph_ok c db'" by auto
qed

lemma interrupt_tx_Inr:
  "interrupt_node_tx i now db = Inr (a, db') \<Longrightarrow>
     db' = drop_locks_of i (set_node (interruptible i) (unleased NodeInterrupted now) db)"
  by (auto simp: interrupt_node_tx_def split: if_splits)

lemma interrupt_ok: "graph_ok c db \<Longrightarrow> graph_ok c (snd (interrupt_node i now db))"
  unfolding interrupt_node_def
proof (rule transaction_inv [where P = "graph_ok c"])
  fix a db' assume ok: "graph_ok c db" and tx: "interrupt_node_tx i now db = Inr (a, db')"
  show "graph_ok c db'" unfolding interrupt_tx_Inr [OF tx]
    by (rule drop_locks_of_ok, rule set_node_graph_ok [OF ok])
      (auto simp: interruptible_def started_def same_live_def intro!: quiet_moves(2))
qed

lemma artifacts_ok: "graph_ok c db \<Longrightarrow> graph_ok c (db\<lparr>ag_artifacts := as\<rparr>)"
  by (rule side_graph_ok) (auto dest: graph_okD(5,6) simp: locks_ok_def mail_ok_def inbox_def)

lemma complete_node_tx_total:
  assumes "graph_ok c db" "find (running_for i worker) (ag_nodes db) = Some n"
    and "\<not> list_ex (\<lambda>a. at_artifact_id a = aid) (ag_artifacts db)"
  shows "\<exists>a db'. complete_node_tx c aid i worker d now db = Inr (a, db') \<and> graph_ok c db' \<and> quietly db db' \<and>
    ag_artifacts db' = ag_artifacts db @ [new_artifact_row c aid d n now] \<and>
    (\<exists>m \<in> set (ag_nodes db'). no_node_id m = i \<and> no_status m = NodeCompleted) \<and>
    ag_locks db' = delete_where (\<lambda>k. lk_owner_node_id k = i) (ag_locks db) \<and>
    ag_graphs db' = ag_graphs db \<and> ag_edges db' = ag_edges db \<and> ag_mailbox db' = ag_mailbox db"
proof -
  note n = running_node [OF assms(2)]
  define db0 where "db0 = db\<lparr>ag_artifacts := ag_artifacts db @ [new_artifact_row c aid d n now]\<rparr>"
  have ok0: "graph_ok c db0" unfolding db0_def by (rule artifacts_ok [OF assms(1)])
  have n0: "n \<in> set (ag_nodes db0)" "ag_nodes db0 = ag_nodes db" "ag_locks db0 = ag_locks db"
    using n(1) by (simp_all add: db0_def)
  from settle_node_ok [OF graph_okD(1) [OF ok0] n0(1) n(5), of NodeCompleted now] n(2,3)
  obtain db1 where db1: "settle_node c NodeCompleted n now db0 = Inr db1" "coherent c db1" "quietly db0 db1"
    "others db1 = others db0" "ag_locks db1 = delete_where (\<lambda>k. lk_owner_node_id k = i) (ag_locks db0)" by auto
  have ok1: "graph_ok c db1" by (rule retired_graph_ok [OF ok0 db1(2-5)])
  have st1: "\<exists>m \<in> set (ag_nodes db1). no_node_id m = i \<and> no_status m = NodeCompleted"
  proof -
    have nodes1: "ag_nodes db1 = update_where (\<lambda>m. no_node_id m = no_node_id n) (unleased NodeCompleted now) (ag_nodes db0)"
      using db1(1) by (auto simp: settle_node_def release_parent_budget_def chain_Inr split: option.splits)
    have "unleased NodeCompleted now n \<in> set (ag_nodes db1)"
      unfolding nodes1 set_update_where using n0(1) by (auto intro!: image_eqI [of _ _ n])
    then show ?thesis using n(2) by (intro bexI [of _ "unleased NodeCompleted now n"]) simp_all
  qed
  let ?db' = "wake_parent (no_parent_node_id n) now db1"
  have "\<exists>m \<in> set (ag_nodes ?db'). no_node_id m = i \<and> no_status m = NodeCompleted"
  proof -
    from st1 obtain m where m: "m \<in> set (ag_nodes db1)" "no_node_id m = i" "no_status m = NodeCompleted" by blast
    from all2_mem(2) [OF wake_parent_quietly [unfolded quietly_def] m(1)]
    obtain m' where "m' \<in> set (ag_nodes ?db')" "quiet m m'" by blast
    with m show ?thesis by (intro bexI [of _ m']) (auto simp: quiet_def)
  qed
  moreover have "quietly db ?db'"
    using quietly_trans [OF db1(3) wake_parent_quietly] by (simp add: quietly_def n0(2))
  moreover have "graph_ok c ?db'" by (rule wake_parent_ok [OF ok1])
  moreover note o1 = others_fields [OF db1(4)] and o2 = others_fields [OF wake_parent_frame(1), of "no_parent_node_id n" now db1]
  ultimately show ?thesis using assms(2,3) db1(1,5) n0(3) o1 o2
    unfolding complete_node_tx_def assms(2) option.case db0_def [symmetric]
    by (intro exI [of _ ?db'] exI) (simp add: db0_def)
qed

lemma complete_tx_cases:
  assumes "complete_node_tx c aid i worker d now db = Inr (a, db')"
  obtains n where "find (running_for i worker) (ag_nodes db) = Some n"
    "\<not> list_ex (\<lambda>a. at_artifact_id a = aid) (ag_artifacts db)"
  using assms by (auto simp: complete_node_tx_def split: option.splits if_splits)

lemma complete_node_ok: "graph_ok c db \<Longrightarrow> graph_ok c (snd (complete_node c aid i worker d now db))"
  unfolding complete_node_def
proof (rule transaction_inv [where P = "graph_ok c"])
  fix a db' assume ok: "graph_ok c db" and tx: "complete_node_tx c aid i worker d now db = Inr (a, db')"
  from complete_tx_cases [OF tx] obtain n where "find (running_for i worker) (ag_nodes db) = Some n"
    "\<not> list_ex (\<lambda>a. at_artifact_id a = aid) (ag_artifacts db)" .
  from complete_node_tx_total [OF ok this, of d now] tx show "graph_ok c db'" by auto
qed

section \<open>Graphs\<close>

lemma graph_status_ok:
  assumes "graph_ok c db" "\<And>g. graph_view (f g) = graph_view g"
  shows "graph_ok c (db\<lparr>ag_graphs := update_where P f (ag_graphs db)\<rparr>)"
proof (rule side_graph_ok [OF assms(1)])
  show "map graph_view (ag_graphs (db\<lparr>ag_graphs := update_where P f (ag_graphs db)\<rparr>)) = map graph_view (ag_graphs db)"
    by (simp add: update_where_def assms(2))
qed (use graph_okD(5,6) [OF assms(1)] in \<open>simp_all add: locks_ok_def mail_ok_def inbox_def\<close>)

lemma finish_graph_ok: "graph_ok c db \<Longrightarrow> graph_ok c (snd (finish_graph gid i st now db))"
proof -
  assume ok: "graph_ok c db"
  have "graph_ok c (snd (transaction (finish_graph_tx gid i st now) db))"
  proof (rule transaction_inv [where P = "graph_ok c", OF ok])
    fix a db' assume "finish_graph_tx gid i st now db = Inr (a, db')"
    then have "db' = db\<lparr>ag_graphs := update_where (\<lambda>r. gr_graph_id r = gid)
       (\<lambda>r. r\<lparr>gr_status := st, gr_updated_at_ms := now\<rparr>) (ag_graphs db)\<rparr>"
      by (auto simp: finish_graph_tx_def split: option.splits if_splits)
    then show "graph_ok c db'" by (simp only:) (rule graph_status_ok [OF ok], simp add: graph_view_def)
  qed
  then show ?thesis using ok by (simp add: finish_graph_def raise_def)
qed

lemma wake_all_ok: "graph_ok c db \<Longrightarrow> graph_ok c (fold (\<lambda>p. wake_parent (Some p) now) ps db)"
  by (induction ps arbitrary: db) (simp_all add: wake_parent_ok)

lemma wake_all_quietly: "quietly db (fold (\<lambda>p. wake_parent (Some p) now) ps db)"
proof (induction ps arbitrary: db)
  case (Cons p ps)
  then show ?case using quietly_trans [OF wake_parent_quietly Cons.IH] by simp
qed simp

lemma wake_all_frame [simp]:
  "others (fold (\<lambda>p. wake_parent (Some p) now) ps db) = others db"
  "ag_locks (fold (\<lambda>p. wake_parent (Some p) now) ps db) = ag_locks db"
  by (induction ps arbitrary: db) simp_all

lemma cancel_subtree_tx_total:
  assumes "graph_ok c db"
  shows "\<exists>db'. cancel_subtree_tx c i now db = Inr (subtree_ids i db, db') \<and> graph_ok c db' \<and> quietly db db' \<and>
    live_ids db' \<inter> set (subtree_ids i db) = {} \<and> ag_edges db' = ag_edges db \<and> ag_mailbox db' = ag_mailbox db \<and>
    (\<exists>X \<subseteq> set (subtree_ids i db). ag_locks db' = delete_where (\<lambda>k. lk_owner_node_id k \<in> X) (ag_locks db))"
proof -
  let ?ids = "subtree_ids i db"
  from cancel_all_ok [OF graph_okD(1) [OF assms], of ?ids now] obtain db1 X where db1:
    "cancel_all c ?ids now db = Inr db1" "coherent c db1" "quietly db db1" "others db1 = others db"
    "live_ids db1 \<subseteq> live_ids db - set ?ids" "X \<subseteq> set ?ids"
    "ag_locks db1 = delete_where (\<lambda>k. lk_owner_node_id k \<in> X) (ag_locks db)" by blast
  define db2 where "db2 = fold (\<lambda>p. wake_parent (Some p) now) (outer_parents ?ids db1) db1"
  define db3 where "db3 = (case find (\<lambda>g. gr_root_node_id g = i) (ag_graphs db2) of
             None \<Rightarrow> db2
           | Some g \<Rightarrow> db2\<lparr>ag_graphs := update_where
                (\<lambda>r. gr_graph_id r = gr_graph_id g \<and> gr_status r = GraphActive)
                (\<lambda>r. r\<lparr>gr_status := GraphCancelled, gr_updated_at_ms := now\<rparr>) (ag_graphs db2)\<rparr>)"
  have ok2: "graph_ok c db2" unfolding db2_def
    by (rule wake_all_ok, rule retired_graph_ok [OF assms db1(2,3,4,7)])
  have ok3: "graph_ok c db3" unfolding db3_def
    by (cases "find (\<lambda>g. gr_root_node_id g = i) (ag_graphs db2)")
      (simp_all add: ok2 graph_status_ok graph_view_def)
  have q2: "quietly db db2" unfolding db2_def by (rule quietly_trans [OF db1(3) wake_all_quietly])
  have same: "ag_nodes db3 = ag_nodes db2" "ag_edges db3 = ag_edges db2" "ag_mailbox db3 = ag_mailbox db2"
    "ag_locks db3 = ag_locks db2"
    by (simp_all add: db3_def split: option.splits)
  have "live_ids db3 = live_ids db2" by (simp add: live_ids_def same)
  also have "\<dots> \<subseteq> live_ids db1" using quietly_live [OF wake_all_quietly] by (simp add: db2_def)
  finally have "live_ids db3 \<inter> set ?ids = {}" using db1(5) by blast
  moreover have "others db2 = others db" "ag_locks db2 = ag_locks db1" by (simp_all add: db2_def db1(4))
  moreover have "cancel_subtree_tx c i now db = Inr (?ids, db3)"
    unfolding cancel_subtree_tx_def Let_def db1(1) chain_simps db2_def [symmetric] db3_def [symmetric] ..
  moreover have "quietly db db3" using q2 by (simp add: quietly_def same)
  ultimately show ?thesis using ok3 same others_fields [OF \<open>others db2 = others db\<close>] db1(6,7) by auto
qed

lemma cancel_ok: "graph_ok c db \<Longrightarrow> graph_ok c (snd (cancel_subtree c i now db))"
  unfolding cancel_subtree_def using cancel_subtree_tx_total [of c db i now] by auto

section \<open>Mail\<close>

definition mail_core :: "'b mail_row \<Rightarrow> 'b mail_row" where
  "mail_core m = m\<lparr>ma_state := MailPending, ma_delivered_at_ms := None, ma_acknowledged_at_ms := None\<rparr>"

lemma mail_core_fields:
  assumes "mail_core m = mail_core n"
  shows "ma_item_id m = ma_item_id n" "ma_recipient_node_id m = ma_recipient_node_id n"
    "ma_sequence m = ma_sequence n" "mail_key m = mail_key n" "ma_payload m = ma_payload n"
    "ma_correlation_id m = ma_correlation_id n"
  using assms by (cases m; cases n; simp add: mail_core_def mail_key_def)+

lemma mail_rows_ok:
  assumes "mail_ok db" "map mail_core (ag_mailbox db') = map mail_core (ag_mailbox db)"
  shows "mail_ok db'"
proof -
  have all2: "list_all2 (\<lambda>m n. mail_core m = mail_core n) (ag_mailbox db') (ag_mailbox db)"
    using assms(2) by (simp add: list.rel_eq [symmetric] list.rel_map)
  have filt: "map f (filter P ms) = map f (filter P ns)"
    if "list_all2 (\<lambda>m n. mail_core m = mail_core n) ms ns" "\<And>m n. mail_core m = mail_core n \<Longrightarrow> P m = P n \<and> f m = f n"
    for ms ns P and f :: "_ \<Rightarrow> 'x"
    using that(1)
  proof (induction rule: list_all2_induct)
    case (Cons m ms n ns)
    from that(2) [OF Cons.hyps(1)] Cons.IH show ?case by simp
  qed simp
  have "map ma_sequence (inbox i db') = map ma_sequence (inbox i db)" for i
    unfolding inbox_def by (rule filt [OF all2]) (auto dest: mail_core_fields)
  moreover have "map ma_item_id (filter (\<lambda>_. True) (ag_mailbox db')) = map ma_item_id (filter (\<lambda>_. True) (ag_mailbox db))"
    by (rule filt [OF all2]) (auto dest: mail_core_fields)
  moreover have "map mail_key (filter (\<lambda>m. ma_correlation_id m \<noteq> None) (ag_mailbox db')) =
      map mail_key (filter (\<lambda>m. ma_correlation_id m \<noteq> None) (ag_mailbox db))"
    by (rule filt [OF all2]) (auto dest: mail_core_fields)
  ultimately show ?thesis using assms(1) by (simp add: mail_ok_def)
qed

lemma update_mail_core: "(\<And>m. mail_core (f m) = mail_core m) \<Longrightarrow>
    map mail_core (update_where P f ms) = map mail_core ms"
  by (simp add: update_where_def)

lemma mailbox_ok:
  assumes "graph_ok c db" "mail_ok (db\<lparr>ag_mailbox := ms\<rparr>)"
  shows "graph_ok c (db\<lparr>ag_mailbox := ms\<rparr>)"
  by (rule side_graph_ok [OF assms(1)]) (use assms(2) graph_okD(5) [OF assms(1)] in \<open>simp_all add: locks_ok_def\<close>)

lemma send_tx_cases:
  assumes "send_mail_tx c mid gid sender recipient kind p cid now db = Inr (item, db')"
  obtains (found) k m where "cid = Some k" "find (mail_of_correlation gid sender recipient kind k) (ag_mailbox db) = Some m"
      "mail_of_row c (ma_state m) m = Inr item" "py_eq (JObj (mi_payload item)) (JObj p)" "db' = db"
  | (sent) sequence where "sequence = max_sequence ma_sequence (inbox recipient db) + 1"
      "\<And>k. cid = Some k \<Longrightarrow> find (mail_of_correlation gid sender recipient kind k) (ag_mailbox db) = None"
      "insert_mail (new_mail_row c mid gid sender recipient kind p cid sequence now) db = Inr db'"
      "item = \<lparr>mi_item_id = mid, mi_graph_id = gid, mi_sender_node_id = sender,
         mi_recipient_node_id = recipient, mi_kind = kind, mi_sequence = sequence,
         mi_payload = p, mi_state = MailPending, mi_correlation_id = cid\<rparr>"
proof -
  let ?look = "case cid of None \<Rightarrow> None
     | Some k \<Rightarrow> find (mail_of_correlation gid sender recipient kind k) (ag_mailbox db)"
  show thesis
  proof (cases ?look)
    case None
    then have new: "find (mail_of_correlation gid sender recipient kind k) (ag_mailbox db) = None" if "cid = Some k" for k
      using that by simp
    from assms None show thesis unfolding send_mail_tx_def Let_def
      by (auto simp: chain_Inr split: if_splits intro!: sent [OF refl new])
  next
    case (Some m)
    then obtain k where k: "cid = Some k" "find (mail_of_correlation gid sender recipient kind k) (ag_mailbox db) = Some m"
      by (auto split: option.splits)
    from assms Some show thesis unfolding send_mail_tx_def Let_def
      by (auto simp: chain_Inr split: if_splits intro: found [OF k])
  qed
qed

lemma mail_of_correlation_key:
  "mail_of_correlation gid sender recipient kind k m \<longleftrightarrow> mail_key m = (gid, sender, recipient, kind, Some k)"
  by (auto simp: mail_of_correlation_def mail_key_def)

lemma insert_mail_ok:
  assumes "mail_ok db" "m = new_mail_row c mid gid sender recipient kind p cid
      (max_sequence ma_sequence (inbox recipient db) + 1) now"
    and "\<And>k. cid = Some k \<Longrightarrow> find (mail_of_correlation gid sender recipient kind k) (ag_mailbox db) = None"
    and "insert_mail m db = Inr db'"
  shows "mail_ok db'" and "db' = db\<lparr>ag_mailbox := ag_mailbox db @ [m]\<rparr>"
proof -
  show db': "db' = db\<lparr>ag_mailbox := ag_mailbox db @ [m]\<rparr>"
    using assms(4) by (auto simp: insert_mail_def split: if_splits)
  have m: "ma_recipient_node_id m = recipient" "ma_correlation_id m = cid" "mail_key m = (gid, sender, recipient, kind, cid)"
    "ma_sequence m = max_sequence ma_sequence (inbox recipient db) + 1"
    by (simp_all add: assms(2) new_mail_row_def mail_key_def)
  have "numbered (map ma_sequence (inbox i db'))" for i
  proof (cases "i = recipient")
    case True
    have "numbered (map ma_sequence (inbox recipient db))" using assms(1) by (simp add: mail_ok_def)
    from numbered_append [OF this] max_sequence_numbered [OF this] True m(1,4) show ?thesis
      by (simp add: db' inbox_def)
  next
    case False
    with assms(1) m(1) show ?thesis by (simp add: db' inbox_def mail_ok_def)
  qed
  moreover have "distinct (map ma_item_id (ag_mailbox db'))"
    using assms(1,4) by (auto simp: db' mail_ok_def insert_mail_def list_ex_iff split: if_splits)
  moreover have "distinct (map mail_key (filter (\<lambda>m. ma_correlation_id m \<noteq> None) (ag_mailbox db')))"
  proof (cases cid)
    case None
    with assms(1) m(2) show ?thesis by (simp add: db' mail_ok_def)
  next
    case (Some k)
    have "mail_key r \<noteq> mail_key m" if "r \<in> set (ag_mailbox db)" for r
      using assms(3) [OF Some] that m(3) Some by (auto simp: find_None mail_of_correlation_key)
    then have "mail_key m \<notin> mail_key ` (set (ag_mailbox db))" by (metis imageE)
    with assms(1) m(2) Some show ?thesis by (auto simp: db' mail_ok_def)
  qed
  ultimately show "mail_ok db'" by (simp add: mail_ok_def)
qed

lemma send_ok: "graph_ok c db \<Longrightarrow> graph_ok c (snd (send_mail c mid gid s r kind p cid now db))"
  unfolding send_mail_def
proof (rule transaction_inv [where P = "graph_ok c"])
  fix a db' assume ok: "graph_ok c db" and tx: "send_mail_tx c mid gid s r kind p cid now db = Inr (a, db')"
  from tx show "graph_ok c db'"
  proof (cases rule: send_tx_cases)
    case (sent sequence)
    from insert_mail_ok [OF graph_okD(6) [OF ok] _ sent(2) sent(3)] sent(1)
    have "mail_ok db'" "\<exists>ms. db' = db\<lparr>ag_mailbox := ms\<rparr>" by blast+
    with mailbox_ok [OF ok] show ?thesis by auto
  qed (simp add: ok)
qed

lemma receive_tx_Inr:
  "receive_mail_tx c i now db = Inr (items, db') \<Longrightarrow> db' = db\<lparr>ag_mailbox := update_where
          (\<lambda>m. ma_recipient_node_id m = i \<and> ma_state m = MailPending) (deliver now) (ag_mailbox db)\<rparr>"
  by (auto simp: receive_mail_tx_def chain_Inr)

lemma deliver_core [simp]: "mail_core (deliver now m) = mail_core m"
  by (simp add: mail_core_def deliver_def)

lemma receive_ok: "graph_ok c db \<Longrightarrow> graph_ok c (snd (receive_mail c' i now db))"
  unfolding receive_mail_def
proof (rule transaction_inv [where P = "graph_ok c"])
  fix a db' assume ok: "graph_ok c db" and tx: "receive_mail_tx c' i now db = Inr (a, db')"
  show "graph_ok c db'" unfolding receive_tx_Inr [OF tx]
    by (rule mailbox_ok [OF ok], rule mail_rows_ok [OF graph_okD(6) [OF ok]]) (simp add: update_mail_core)
qed

lemma acknowledge_tx_Inr:
  "acknowledge_mail_tx mid i now db = Inr (a, db') \<Longrightarrow> db' = db\<lparr>ag_mailbox := update_where
     (\<lambda>m. ma_item_id m = mid \<and> ma_recipient_node_id m = i \<and>
           ma_state m \<in> {MailPending, MailDelivered, MailAcknowledged})
     (\<lambda>m. m\<lparr>ma_state := MailAcknowledged, ma_acknowledged_at_ms := Some now\<rparr>) (ag_mailbox db)\<rparr>"
  by (auto simp: acknowledge_mail_tx_def Let_def split: if_splits)

lemma acknowledge_ok: "graph_ok c db \<Longrightarrow> graph_ok c (snd (acknowledge_mail mid i now db))"
  unfolding acknowledge_mail_def
proof (rule transaction_inv [where P = "graph_ok c"])
  fix a db' assume ok: "graph_ok c db" and tx: "acknowledge_mail_tx mid i now db = Inr (a, db')"
  show "graph_ok c db'" unfolding acknowledge_tx_Inr [OF tx]
    by (rule mailbox_ok [OF ok], rule mail_rows_ok [OF graph_okD(6) [OF ok]])
      (simp add: update_mail_core mail_core_def)
qed

end
