(* ===== verification/GraphGrow.thy ===== *)
theory GraphGrow
  imports GraphOps
begin

text \<open>
  The remaining operations keep the invariant: taking, renewing and releasing locks, checkpoints of
  nodes, leasing ready nodes, and the insertion of nodes with their budget cells and edges.
\<close>

section \<open>Locks\<close>

lemma locks_graph_ok: "graph_ok c db \<Longrightarrow> distinct (map lock_key ks) \<Longrightarrow> graph_ok c (db\<lparr>ag_locks := ks\<rparr>)"
  by (rule side_graph_ok) (auto dest: graph_okD(6) simp: locks_ok_def mail_ok_def inbox_def)

lemma update_lock_keys: "(\<And>k. lock_key (f k) = lock_key k) \<Longrightarrow> map lock_key (update_where P f ks) = map lock_key ks"
  by (rule update_where_map_key) simp

lemma new_lock_fields [simp]:
  "lock_key (new_lock_row gid owner t now lease) = target_key t"
  "lk_owner_node_id (new_lock_row gid owner t now lease) = owner"
  by (simp_all add: new_lock_row_def lock_key_def target_key_def)

lemma lock_key_renew [simp]:
  "lock_key (k\<lparr>lk_lease_expires_at_ms := e, lk_expected_revision := r\<rparr>) = lock_key k"
  "lock_key (k\<lparr>lk_lease_expires_at_ms := e\<rparr>) = lock_key k"
  by (simp_all add: lock_key_def)

lemma take_lock_cases:
  assumes "take_lock gid owner t now lease ks = Some ks'"
  obtains (fresh) "\<forall>k \<in> set ks. lock_key k \<noteq> target_key t" "ks' = ks @ [new_lock_row gid owner t now lease]"
  | (renewed) k where "k \<in> set ks" "lock_key k = target_key t" "lk_owner_node_id k = owner"
      "ks' = update_where (\<lambda>k. lock_key k = target_key t)
         (\<lambda>k. k\<lparr>lk_lease_expires_at_ms := now + lease, lk_expected_revision := rg_expected_revision t\<rparr>) ks"
proof (cases "find (\<lambda>k. lock_key k = target_key t) ks")
  case None
  then have "\<forall>k \<in> set ks. lock_key k \<noteq> target_key t" by (simp add: find_None)
  with None assms show ?thesis by (intro fresh) (simp_all add: take_lock_def)
next
  case (Some k)
  with find_in_set [OF Some] assms show ?thesis by (intro renewed [of k]) (simp_all add: take_lock_def split: if_splits)
qed

lemma take_lock_distinct:
  assumes "take_lock gid owner t now lease ks = Some ks'" "distinct (map lock_key ks)"
  shows "distinct (map lock_key ks')"
  using assms(1)
proof (cases rule: take_lock_cases)
  case fresh
  then have "target_key t \<notin> lock_key ` set ks" by (metis imageE)
  with fresh assms(2) show ?thesis by simp
next
  case (renewed k)
  with assms(2) show ?thesis by (simp add: update_lock_keys)
qed

lemma take_ok:
  assumes "graph_ok c db" "take_lock gid owner t now lease (ag_locks (drop_expired_locks now db)) = Some ks"
  shows "graph_ok c ((drop_expired_locks now db)\<lparr>ag_locks := ks\<rparr>)"
  using drop_expired_ok [OF assms(1), of now] take_lock_distinct [OF assms(2)]
  by (intro locks_graph_ok) (auto dest: graph_okD(5) simp: locks_ok_def)

lemma acquire_lock_ok: "graph_ok c db \<Longrightarrow> graph_ok c (snd (acquire_lock gid i t now lease db))"
proof -
  assume ok: "graph_ok c db"
  have "graph_ok c (snd (transaction (acquire_lock_tx gid i t now lease) db))"
    by (rule transaction_inv [where P = "graph_ok c", OF ok])
      (auto simp: acquire_lock_tx_def Let_def drop_expired_ok [OF ok] take_ok [OF ok] split: if_splits option.splits)
  with ok show ?thesis by (simp add: acquire_lock_def raise_def)
qed

lemma root_scope_ok: "graph_ok c db \<Longrightarrow> graph_ok c (snd (acquire_root_write_scope run tenant t now lease db))"
proof -
  assume ok: "graph_ok c db"
  have "graph_ok c (snd (transaction (acquire_root_write_scope_tx run tenant t now lease) db))"
    by (rule transaction_inv [where P = "graph_ok c", OF ok])
      (auto simp: acquire_root_write_scope_tx_def Let_def drop_expired_ok [OF ok] take_ok [OF ok]
        split: if_splits option.splits)
  with ok show ?thesis by (simp add: acquire_root_write_scope_def raise_def)
qed

lemma renew_all_keys: "map lock_key (snd (renew_all owner ts now lease ks)) = map lock_key ks"
  by (induction ts arbitrary: ks) (simp_all add: Let_def update_lock_keys)

lemma renew_ok: "graph_ok c db \<Longrightarrow> graph_ok c (snd (renew_write_scope owner ts now lease db))"
  using renew_all_keys [of owner ts now lease "ag_locks db"]
  by (auto simp: renew_write_scope_def split: prod.splits intro!: locks_graph_ok)
    (metis graph_okD(5) locks_ok_def snd_conv)

lemma release_scope_ok: "graph_ok c db \<Longrightarrow> graph_ok c (release_write_scope owner t db)"
  by (rule drop_locks_graph_ok) (simp_all add: release_write_scope_def)

lemma checkpoint_ok: "graph_ok c db \<Longrightarrow> graph_ok c (snd (save_node_checkpoint c' kid i st now db))"
  unfolding save_node_checkpoint_def
proof (rule transaction_inv [where P = "graph_ok c"])
  fix a db' assume ok: "graph_ok c db" and tx: "save_node_checkpoint_tx c' kid i st now db = Inr (a, db')"
  from tx obtain ks where "db' = db\<lparr>ag_checkpoints := ks\<rparr>"
    by (auto simp: save_node_checkpoint_tx_def Let_def split: option.splits if_splits)
  then show "graph_ok c db'"
    by (intro side_graph_ok [OF ok]) (use graph_okD(5,6) [OF ok] in \<open>auto simp: locks_ok_def mail_ok_def inbox_def\<close>)
qed

section \<open>Leasing\<close>

lemma ready_rows_leasable: "r \<in> set (ready_rows gid now capacity db) \<Longrightarrow> r \<in> set (ag_nodes db) \<and> node_leasable gid now db r"
  unfolding ready_rows_def by (auto dest: in_set_takeD)

lemma ready_rows_length: "int (length (ready_rows gid now capacity db)) \<le> max 0 capacity"
  by (simp add: ready_rows_def)

lemma ready_rows_distinct: "distinct (map no_node_id (ag_nodes db)) \<Longrightarrow> distinct (map no_node_id (ready_rows gid now capacity db))"
proof -
  assume d: "distinct (map no_node_id (ag_nodes db))"
  let ?xs = "filter (node_leasable gid now db) (ag_nodes db)"
  let ?key = "\<lambda>n. (- no_depth n, no_created_at_ms n, no_node_id n)"
  have inj: "inj_on no_node_id (set ?xs)" using d by (auto simp: distinct_map inj_on_def)
  have "distinct ?xs" using d by (simp add: distinct_map)
  then have "distinct (sort_key ?key ?xs)" by simp
  moreover have "inj_on no_node_id (set (sort_key ?key ?xs))" using inj by simp
  ultimately have "distinct (map no_node_id (sort_key ?key ?xs))" by (simp add: distinct_map)
  then show ?thesis unfolding ready_rows_def take_map [symmetric] by (rule distinct_take)
qed

text \<open>The node table after the leases: the chosen rows run, the others are untouched.\<close>

definition run_rows :: "string list \<Rightarrow> string \<Rightarrow> int \<Rightarrow> int \<Rightarrow> 'b ag_db \<Rightarrow> 'b ag_db" where
  "run_rows ids worker expires now db = set_node (\<lambda>n. List.member ids (no_node_id n)) (run_node worker expires now) db"

lemma run_rows_count:
  assumes "distinct (map no_node_id ns)" "distinct ids"
    and "\<And>n. n \<in> set ns \<Longrightarrow> List.member ids (no_node_id n) \<Longrightarrow> no_status n \<noteq> NodeRunning"
  shows "count_where (\<lambda>n. no_graph_id n = gid \<and> no_status n = NodeRunning)
      (update_where (\<lambda>n. List.member ids (no_node_id n)) (run_node w ex now) ns)
    \<le> count_where (\<lambda>n. no_graph_id n = gid \<and> no_status n = NodeRunning) ns
      + length (filter (\<lambda>i. i \<in> no_node_id ` set ns) ids)"
  using assms
proof (induction ns)
  case (Cons n ns)
  have prem: "distinct (map no_node_id ns)" "no_node_id n \<notin> no_node_id ` set ns" using Cons.prems(1) by auto
  have IH: "count_where (\<lambda>n. no_graph_id n = gid \<and> no_status n = NodeRunning)
      (update_where (\<lambda>n. List.member ids (no_node_id n)) (run_node w ex now) ns)
    \<le> count_where (\<lambda>n. no_graph_id n = gid \<and> no_status n = NodeRunning) ns
      + length (filter (\<lambda>i. i \<in> no_node_id ` set ns) ids)"
    using Cons.IH [OF prem(1) Cons.prems(2)] Cons.prems(3) by simp
  show ?case
  proof (cases "no_node_id n \<in> set ids")
    case False
    then have "filter (\<lambda>i. i \<in> no_node_id ` set (n # ns)) ids = filter (\<lambda>i. i \<in> no_node_id ` set ns) ids"
      by (intro filter_cong) auto
    with False IH show ?thesis by (simp add:)
  next
    case True
    have "length (filter (\<lambda>i. i \<in> no_node_id ` set (n # ns)) ids) = card (set ids \<inter> no_node_id ` set (n # ns))"
      using Cons.prems(2) by (simp only: distinct_length_filter Int_def) (simp add: Int_def conj_commute)
    also have "\<dots> = Suc (card (set ids \<inter> no_node_id ` set ns))" using True prem(2) by simp
    also have "card (set ids \<inter> no_node_id ` set ns) = length (filter (\<lambda>i. i \<in> no_node_id ` set ns) ids)"
      using Cons.prems(2) by (simp only: distinct_length_filter Int_def) (simp add: Int_def conj_commute)
    finally show ?thesis using True IH by (simp add:)
  qed
qed simp

lemma lease_tx_cases:
  assumes "lease_ready_tx c gid worker now lease limit db = Inr (ns, db')"
  obtains (idle) "ns = []" "db' = reclaim_nodes gid now db"
  | (leased) g rows capacity where "find_graph gid (reclaim_nodes gid now db) = Some g" "gr_status g = GraphActive"
      "capacity = max 0 (min limit (gr_max_concurrency g - int (running_count gid (reclaim_nodes gid now db))))"
      "0 < capacity" "rows = ready_rows gid now capacity (reclaim_nodes gid now db)"
      "decode_all (\<lambda>r. node_with_lease c worker (now + lease)
         (dependencies (no_node_id r) (reclaim_nodes gid now db)) r) rows = Inr ns"
      "db' = run_rows (map no_node_id rows) worker (now + lease) now (reclaim_nodes gid now db)"
proof (cases "find_graph gid (reclaim_nodes gid now db)")
  case None
  with assms show ?thesis by (intro idle) (simp_all add: lease_ready_tx_def Let_def)
next
  case (Some g)
  let ?cap = "max 0 (min limit (gr_max_concurrency g - int (running_count gid (reclaim_nodes gid now db))))"
  show ?thesis
  proof (cases "gr_status g = GraphActive \<and> ?cap \<noteq> 0")
    case False
    with Some assms show ?thesis by (intro idle) (auto simp: lease_ready_tx_def Let_def split: if_splits)
  next
    case True
    then have "0 < ?cap" by linarith
    with True Some assms show ?thesis
      by (intro leased [OF Some _ refl _ refl]) (auto simp: lease_ready_tx_def Let_def chain_Inr run_rows_def)
  qed
qed

lemma run_rows_graph_ok:
  assumes ok: "graph_ok c db" and g: "find_graph gid db = Some g"
    and cap: "capacity = max 0 (min limit (gr_max_concurrency g - int (running_count gid db)))"
    and rows: "rows = ready_rows gid now capacity db"
  shows "graph_ok c (run_rows (map no_node_id rows) worker ex now db)"
proof -
  let ?ids = "map no_node_id rows" and ?db' = "run_rows (map no_node_id rows) worker ex now db"
  note oks = graph_okD [OF ok] and co = coherentD [OF graph_okD(1) [OF ok]]
  have chosen: "node_leasable gid now db n" if "n \<in> set (ag_nodes db)" "no_node_id n \<in> set ?ids" for n
  proof -
    from that(2) obtain r where "r \<in> set rows" "no_node_id r = no_node_id n" by auto
    moreover from this ready_rows_leasable have "r \<in> set (ag_nodes db)" "node_leasable gid now db r"
      unfolding rows by blast+
    ultimately show ?thesis using key_unique [OF co(1) that(1), of r] by simp
  qed
  have not_running: "no_status n \<noteq> NodeRunning" if "n \<in> set (ag_nodes db)" "no_node_id n \<in> set ?ids" for n
    using chosen [OF that] by (auto simp: node_leasable_def)
  have nodes': "ag_nodes ?db' = update_where (\<lambda>n. List.member ?ids (no_node_id n)) (run_node worker ex now) (ag_nodes db)"
    by (simp add: run_rows_def)
  have live: "list_all2 same_live (ag_nodes db) (ag_nodes ?db')" unfolding nodes'
    by (rule same_live_set_node) (auto simp: same_live_def dest!: chosen simp: node_leasable_def)
  have core: "map node_core (ag_nodes ?db') = map node_core (ag_nodes db)"
    unfolding nodes' by (rule update_where_map_key) simp
  have same: "ag_ledger ?db' = ag_ledger db" "ag_edges ?db' = ag_edges db" "ag_graphs ?db' = ag_graphs db"
    "ag_locks ?db' = ag_locks db" "ag_mailbox ?db' = ag_mailbox db"
    by (simp_all add: run_rows_def set_node_def)
  have mem: "m \<in> set (ag_nodes ?db') \<longleftrightarrow> (\<exists>n \<in> set (ag_nodes db).
      m = (if no_node_id n \<in> set ?ids then run_node worker ex now n else n))" for m
    unfolding nodes' set_update_where by (auto simp:)
  have coherent: "coherent c ?db'" unfolding coherent_def
    using co core_ids(1) [OF core] budgets_ok_core [OF co(2) core] edges_ok_core [OF co(4) same(2) core]
      ledger_exact_same [OF co(3) same(1) live] by simp
  have forest: "forest_ok ?db'" unfolding forest_ok_def
  proof (intro conjI ballI)
    show "distinct (map gr_graph_id (ag_graphs ?db'))" using oks(2) same(3) by (simp add: forest_ok_def)
  next
    fix m assume m: "m \<in> set (ag_nodes ?db')"
    from core_mem(1) [OF core m] obtain n where "n \<in> set (ag_nodes db)" "node_core m = node_core n" by blast
    with oks(2) same(3) show "placed ?db' m" by (intro placed_core [OF _ _ core]) (auto simp: forest_ok_def)
  next
    fix h assume h: "h \<in> set (ag_graphs ?db')"
    then have old: "within_graph_limits db h" using oks(2) same(3) by (simp add: forest_ok_def)
    have cnt: "count_where (in_graph k) (ag_nodes ?db') = count_where (in_graph k) (ag_nodes db)" for k
      by (rule core_count [OF core]) (auto simp: in_graph_def dest: node_core_fields(2))
    have "int (running_count (gr_graph_id h) ?db') \<le> gr_max_concurrency h"
    proof (cases "gr_graph_id h = gid")
      case False
      have "running_count (gr_graph_id h) ?db' = running_count (gr_graph_id h) db"
        unfolding running_count_def nodes'
        by (rule count_where_update_eq) (use False chosen in \<open>auto simp: node_leasable_def\<close>)
      with old show ?thesis by (simp add: within_graph_limits_def)
    next
      case True
      have hg: "h = g"
        using key_unique [of gr_graph_id "ag_graphs db" h g] oks(2) h same(3) True g find_in_set
        by (fastforce simp: forest_ok_def find_graph_def)
      have "running_count gid ?db' \<le> running_count gid db + length (filter (\<lambda>i. i \<in> no_node_id ` set (ag_nodes db)) ?ids)"
        unfolding running_count_def nodes'
        by (rule run_rows_count [OF co(1)])
          (use ready_rows_distinct [OF co(1)] not_running in \<open>simp_all add: rows\<close>)
      also have "length (filter (\<lambda>i. i \<in> no_node_id ` set (ag_nodes db)) ?ids) \<le> length rows"
        using length_filter_le [of _ ?ids] by simp
      finally have "int (running_count gid ?db') \<le> int (running_count gid db) + int (length rows)" by linarith
      moreover have "int (length rows) \<le> capacity" using ready_rows_length [of gid now capacity db] cap rows by simp
      moreover have "int (running_count gid db) \<le> gr_max_concurrency g"
        using old hg True by (simp add: within_graph_limits_def)
      moreover have "capacity \<le> max 0 (gr_max_concurrency g - int (running_count gid db))" using cap by simp
      ultimately have "int (running_count gid ?db') \<le> gr_max_concurrency g" by linarith
      then show ?thesis unfolding True using hg by simp
    qed
    with old cnt show "within_graph_limits ?db' h" by (simp add: within_graph_limits_def)
  qed
  have deps: "deps_ok ?db'" unfolding deps_ok_def
  proof (intro ballI impI)
    fix m e p
    assume m: "m \<in> set (ag_nodes ?db')" "started (no_status m)" and e: "e \<in> set (ag_edges ?db')"
      "ed_dependent_node_id e = no_node_id m" and p: "p \<in> set (ag_nodes ?db')" "no_node_id p = ed_predecessor_node_id e"
    from m(1) mem obtain n where n: "n \<in> set (ag_nodes db)" "m = (if no_node_id n \<in> set ?ids then run_node worker ex now n else n)" by blast
    from p(1) mem obtain q where q: "q \<in> set (ag_nodes db)" "p = (if no_node_id q \<in> set ?ids then run_node worker ex now q else q)" by blast
    have idn: "no_node_id m = no_node_id n" and idq: "no_node_id p = no_node_id q" using n(2) q(2) by simp_all
    have e': "e \<in> set (ag_edges db)" using e(1) same(2) by simp
    have "no_status q = NodeCompleted"
    proof (cases "no_node_id n \<in> set ?ids")
      case False
      with n m(2) e(2) p(2) idq deps_okD [OF oks(3) n(1) _ e' _ q(1)] show ?thesis by simp
    next
      case True
      obtain d where d: "d \<in> set (ag_nodes db)" "no_node_id d = ed_dependent_node_id e" "no_graph_id d = ed_graph_id e"
        using edges_okD(1) [OF co(4) e'] by blast
      have "d = n" using key_unique [OF co(1) d(1) n(1)] d(2) e(2) idn by simp
      then have "ed_graph_id e = no_graph_id n" using d(3) by simp
      moreover have "\<not> open_dependency db n" using chosen [OF n(1) True] by (simp add: node_leasable_def)
      ultimately show ?thesis using e' e(2) idn edges_okD(3) [OF co(4) e'] q(1) p(2) idq
        by (auto simp: open_dependency_def list_ex_iff)
    qed
    moreover from this have "no_node_id q \<notin> set ?ids" using chosen [OF q(1)] by (auto simp: node_leasable_def)
    ultimately show "no_status p = NodeCompleted" using q(2) by simp
  qed
  have "leases_ok ?db'" unfolding leases_ok_def
  proof
    fix m assume "m \<in> set (ag_nodes ?db')"
    with mem obtain n where "n \<in> set (ag_nodes db)" "m = (if no_node_id n \<in> set ?ids then run_node worker ex now n else n)" by blast
    with oks(4) show "lease_row_ok m" by (auto simp: leases_ok_def lease_row_ok_def)
  qed
  with coherent forest deps show ?thesis using oks(5,6) same mail_ok_same [OF oks(6) same(5)]
    by (simp add: graph_ok_def locks_ok_def)
qed

lemma lease_ok: "graph_ok c db \<Longrightarrow> graph_ok c (snd (lease_ready c' gid worker now lease limit db))"
proof -
  assume ok: "graph_ok c db"
  have "graph_ok c (snd (transaction (lease_ready_tx c' gid worker now lease limit) db))"
  proof (rule transaction_inv [where P = "graph_ok c", OF ok])
    fix ns db' assume tx: "lease_ready_tx c' gid worker now lease limit db = Inr (ns, db')"
    note rok = reclaim_ok [OF ok, of gid now]
    from tx show "graph_ok c db'"
    proof (cases rule: lease_tx_cases)
      case idle
      with rok show ?thesis by simp
    next
      case (leased g rows capacity)
      show ?thesis unfolding leased(7) by (rule run_rows_graph_ok [OF rok leased(1,3,5)])
    qed
  qed
  with ok show ?thesis by (simp add: lease_ready_def raise_def)
qed

section \<open>New nodes\<close>

text \<open>A new row joins coherent tables: a fresh identity, a parent that is there, its budget reserved.\<close>

definition new_cells :: "string \<Rightarrow> string \<Rightarrow> (string \<times> int) list \<Rightarrow> int \<Rightarrow> ledger_row list" where
  "new_cells gid i bs now = map (\<lambda>(k, m). \<lparr>lg_graph_id = gid, lg_node_id = i, lg_budget_kind = k,
     lg_maximum = m, lg_reserved = 0, lg_consumed = 0, lg_updated_at_ms = now\<rparr>) bs"

lemma insert_node_Inr:
  assumes "insert_node n bs now db = Inr db'"
  obtains ledger where "\<forall>m \<in> set (ag_nodes db). \<not> node_conflict n m" "find_graph (no_graph_id n) db \<noteq> None"
    "insert_ledger (no_graph_id n) (no_node_id n) bs now (ag_ledger db) = Inr ledger"
    "ledger = ag_ledger db @ new_cells (no_graph_id n) (no_node_id n) bs now"
    "db' = db\<lparr>ag_nodes := ag_nodes db @ [n], ag_ledger := ledger\<rparr>"
    "case no_parent_node_id n of None \<Rightarrow> True | Some p \<Rightarrow> find_node p db \<noteq> None"
proof -
  from assms have "\<forall>m \<in> set (ag_nodes db). \<not> node_conflict n m" "find_graph (no_graph_id n) db \<noteq> None"
    "case no_parent_node_id n of None \<Rightarrow> True | Some p \<Rightarrow> find_node p db \<noteq> None"
    by (auto simp: insert_node_def list_ex_iff split: if_splits option.splits)
  moreover from assms obtain ledger where l:
    "insert_ledger (no_graph_id n) (no_node_id n) bs now (ag_ledger db) = Inr ledger"
    "db' = db\<lparr>ag_nodes := ag_nodes db @ [n], ag_ledger := ledger\<rparr>"
    by (auto simp: insert_node_def chain_Inr split: if_splits)
  ultimately show ?thesis using that insert_ledger_map [OF l(1)] by (simp add: new_cells_def)
qed

lemma new_node_budgets:
  "opens_sealed c \<Longrightarrow> node_budgets c (new_node_row c i gid parent path spec depth st now) = Inr (ns_budgets spec)"
proof -
  assume "opens_sealed c"
  moreover have "int_dict (JObj (map (\<lambda>(k, v). (k, JInt v)) bs)) = Inr bs" for bs
    using int_dict_jdict [of bs] by (simp add: jdict_def)
  ultimately show ?thesis by (simp add: node_budgets_def new_node_row_def)
qed

lemma new_node_fields [simp]:
  "no_node_id (new_node_row c i gid parent path spec depth st now) = i"
  "no_graph_id (new_node_row c i gid parent path spec depth st now) = gid"
  "no_parent_node_id (new_node_row c i gid parent path spec depth st now) = parent"
  "no_depth (new_node_row c i gid parent path spec depth st now) = depth"
  "no_status (new_node_row c i gid parent path spec depth st now) = st"
  "lease_row_ok (new_node_row c i gid parent path spec depth st now) \<longleftrightarrow> st \<noteq> NodeRunning"
  by (simp_all add: new_node_row_def lease_row_ok_def)

text \<open>Nobody is a child of an identity that is not in the table.\<close>

lemma no_children:
  assumes "\<forall>n \<in> set ns. no_parent_node_id n \<noteq> Some i"
  shows "held c ns gid i k = 0"
  using assms by (induction ns) (auto simp: live_child_def)

lemma parent_present:
  "forest_ok db \<Longrightarrow> n \<in> set (ag_nodes db) \<Longrightarrow> no_parent_node_id n = Some p \<Longrightarrow> p \<in> no_node_id ` set (ag_nodes db)"
proof -
  assume "forest_ok db" "n \<in> set (ag_nodes db)" "no_parent_node_id n = Some p"
  then have "placed db n" by (simp add: forest_ok_def)
  with \<open>no_parent_node_id n = Some p\<close> obtain m where "m \<in> set (ag_nodes db)" "no_node_id m = p"
    unfolding placed_def by auto
  then show ?thesis by blast
qed

lemma grow_ledger:
  assumes old: "distinct (map cell_of ledger)" "\<forall>b \<in> set ledger. cell_exact c ns b"
    and bs: "node_budgets c n = Inr bs" "distinct (map fst bs)" "\<forall>p \<in> set bs. 0 \<le> snd p"
    and fresh: "\<forall>m \<in> set ns. no_parent_node_id m \<noteq> Some (no_node_id n)" "no_parent_node_id n \<noteq> Some (no_node_id n)"
    and ledger1: "ledger1 = (case no_parent_node_id n of None \<Rightarrow> ledger
        | Some p \<Rightarrow> map (shift_cell now (no_graph_id n) p bs (+)) ledger)"
    and room: "\<And>p b v. no_parent_node_id n = Some p \<Longrightarrow> b \<in> set ledger \<Longrightarrow> lg_graph_id b = no_graph_id n \<Longrightarrow>
        lg_node_id b = p \<Longrightarrow> map_of bs (lg_budget_kind b) = Some v \<Longrightarrow> v \<le> lg_maximum b - lg_reserved b - lg_consumed b"
    and live: "\<not> node_terminal (no_status n)"
    and ledger2: "insert_ledger (no_graph_id n) (no_node_id n) bs now ledger1 = Inr ledger2"
  shows "distinct (map cell_of ledger2) \<and> (\<forall>b \<in> set ledger2. cell_exact c (ns @ [n]) b)"
proof
  have "map cell_of ledger1 = map cell_of ledger" by (simp add: ledger1 split: option.splits)
  with old(1) show "distinct (map cell_of ledger2)" using insert_ledger_distinct [OF ledger2] by simp
  have amt: "node_amount c k n = (case map_of bs k of None \<Rightarrow> 0 | Some v \<Rightarrow> v)" for k
    by (simp add: node_amount_def bs(1))
  have shifted: "cell_exact c (ns @ [n]) (shift_cell now (no_graph_id n) p bs (+) b)"
    if p: "no_parent_node_id n = Some p" and b: "b \<in> set ledger" for p b
  proof -
    have ex: "cell_exact c ns b" using old(2) b by blast
    have child: "live_child g i n \<longleftrightarrow> g = no_graph_id n \<and> i = p" for g i using live p by (auto simp: live_child_def)
    show ?thesis
    proof (cases "lg_graph_id b = no_graph_id n \<and> lg_node_id b = p")
      case False
      then have "\<not> live_child (lg_graph_id b) (lg_node_id b) n" using child by simp
      with ex False show ?thesis by (auto simp: cell_exact_def held_append shift_cell_def)
    next
      case True
      then have c': "live_child (lg_graph_id b) (lg_node_id b) n" using child by simp
      show ?thesis
      proof (cases "map_of bs (lg_budget_kind b)")
        case None
        with ex True c' show ?thesis by (simp add: cell_exact_def held_append shift_cell_def amt)
      next
        case (Some v)
        with room [OF p b] True have "v \<le> lg_maximum b - lg_reserved b - lg_consumed b" by simp
        with ex True c' Some show ?thesis by (simp add: cell_exact_def held_append shift_cell_def amt)
      qed
    qed
  qed
  have part1: "cell_exact c (ns @ [n]) b" if b: "b \<in> set ledger1" for b
  proof (cases "no_parent_node_id n")
    case None
    then have "\<not> live_child g i n" for g i by (simp add: live_child_def)
    with None b old(2) ledger1 show ?thesis by (auto simp: cell_exact_def held_append)
  next
    case (Some p)
    with b ledger1 shifted [OF Some] show ?thesis by auto
  qed
  have part2: "cell_exact c (ns @ [n]) b" if b: "b \<in> set (new_cells (no_graph_id n) (no_node_id n) bs now)" for b
  proof -
    from b obtain k m where km: "(k, m) \<in> set bs" "b = \<lparr>lg_graph_id = no_graph_id n, lg_node_id = no_node_id n,
      lg_budget_kind = k, lg_maximum = m, lg_reserved = 0, lg_consumed = 0, lg_updated_at_ms = now\<rparr>"
      by (auto simp: new_cells_def)
    have "held c (ns @ [n]) (no_graph_id n) (no_node_id n) k = 0"
      by (rule no_children) (use fresh in auto)
    moreover have "0 \<le> m" using bs(3) km(1) by force
    ultimately show ?thesis by (simp add: cell_exact_def km(2))
  qed
  have "ledger2 = ledger1 @ new_cells (no_graph_id n) (no_node_id n) bs now"
    using insert_ledger_map [OF ledger2] by (simp add: new_cells_def)
  with part1 part2 show "\<forall>b \<in> set ledger2. cell_exact c (ns @ [n]) b" by auto
qed

end
