(* ===== verification/GraphSpawn.thy ===== *)
theory GraphSpawn
  imports GraphGrow
begin

text \<open>Creating a graph and spawning a child keep the invariant.\<close>

section \<open>A new row\<close>

definition new_edges :: "string \<Rightarrow> string \<Rightarrow> string list \<Rightarrow> edge_row list" where
  "new_edges gid i ds = map (\<lambda>d. \<lparr>ed_graph_id = gid, ed_predecessor_node_id = d, ed_dependent_node_id = i,
     ed_edge_kind = ''depends_on''\<rparr>) ds"

lemma insert_edges_Inr:
  assumes "insert_edges gid i ds es = Inr es'"
  shows "es' = es @ new_edges gid i ds" and "distinct es \<Longrightarrow> distinct es'"
  using assms
proof (induction ds arbitrary: es)
  case (Cons d ds)
  let ?e = "\<lparr>ed_graph_id = gid, ed_predecessor_node_id = d, ed_dependent_node_id = i,
    ed_edge_kind = ''depends_on''\<rparr>"
  { case 1
    then show ?case using Cons.IH(1) [of "es @ [?e]"] by (simp add: Let_def new_edges_def split: if_splits)
  next
    case 2
    then show ?case using Cons.IH(2) [of "es @ [?e]"] by (simp add: Let_def split: if_splits) }
qed (simp_all add: new_edges_def)

lemma placed_more:
  assumes "placed db n" "set (ag_nodes db) \<subseteq> set (ag_nodes db')" "set (ag_graphs db) \<subseteq> set (ag_graphs db')"
  shows "placed db' n"
proof -
  from assms(1) obtain g where "g \<in> set (ag_graphs db)" "gr_graph_id g = no_graph_id n" "no_depth n \<le> gr_max_depth g"
    by (auto simp: placed_def)
  with assms(3) have "\<exists>g \<in> set (ag_graphs db'). gr_graph_id g = no_graph_id n \<and> no_depth n \<le> gr_max_depth g" by blast
  moreover have "case no_parent_node_id n of None \<Rightarrow> no_depth n = 1
      | Some p \<Rightarrow> \<exists>m \<in> set (ag_nodes db'). no_node_id m = p \<and> no_graph_id m = no_graph_id n \<and> no_depth n = no_depth m + 1"
    using assms(1,2) by (cases "no_parent_node_id n") (auto simp: placed_def)
  ultimately show ?thesis by (simp add: placed_def)
qed

lemma deps_ok_same: "ag_nodes db' = ag_nodes db \<Longrightarrow> ag_edges db' = ag_edges db \<Longrightarrow> deps_ok db' = deps_ok db"
  by (simp only: deps_ok_def)

lemma absent_parent:
  assumes "forest_ok db" "\<forall>m \<in> set (ag_nodes db). no_node_id m \<noteq> i"
  shows "\<forall>m \<in> set (ag_nodes db). no_parent_node_id m \<noteq> Some i"
proof
  fix m assume m: "m \<in> set (ag_nodes db)"
  show "no_parent_node_id m \<noteq> Some i"
  proof
    assume "no_parent_node_id m = Some i"
    from parent_present [OF assms(1) m this] assms(2) show False by (metis imageE)
  qed
qed

lemma grow_graph_ok:
  assumes ok: "graph_ok c db"
    and fresh: "\<forall>m \<in> set (ag_nodes db). no_node_id m \<noteq> no_node_id n"
    and place: "placed db n"
    and room: "\<And>g. g \<in> set (ag_graphs db) \<Longrightarrow> gr_graph_id g = no_graph_id n \<Longrightarrow>
        int (count_where (in_graph (no_graph_id n)) (ag_nodes db)) < gr_max_nodes g"
    and st: "\<not> started (no_status n)" "lease_row_ok n"
    and bs: "node_budgets c n = Inr bs" "distinct (map fst bs)" "\<forall>p \<in> set bs. 0 \<le> snd p"
    and ledger: "distinct (map cell_of ledger)" "\<forall>b \<in> set ledger. cell_exact c (ag_nodes db @ [n]) b"
    and edges: "es = new_edges (no_graph_id n) (no_node_id n) ds" "distinct (ag_edges db @ es)"
        "\<forall>d \<in> set ds. \<exists>m \<in> set (ag_nodes db). no_node_id m = d \<and> no_graph_id m = no_graph_id n"
    and db': "db' = db\<lparr>ag_nodes := ag_nodes db @ [n], ag_ledger := ledger, ag_edges := ag_edges db @ es\<rparr>"
  shows "graph_ok c db'"
proof -
  note oks = graph_okD [OF ok] and co = coherentD [OF graph_okD(1) [OF ok]]
  have fields: "ag_nodes db' = ag_nodes db @ [n]" "ag_graphs db' = ag_graphs db" "ag_edges db' = ag_edges db @ es"
    "ag_ledger db' = ledger" "ag_locks db' = ag_locks db" "ag_mailbox db' = ag_mailbox db"
    by (simp_all add: db')
  have nid: "no_node_id n \<notin> no_node_id ` set (ag_nodes db)" using fresh by (metis imageE)
  have edge_row: "ed_dependent_node_id e = no_node_id n" "ed_graph_id e = no_graph_id n" "ed_edge_kind e = ''depends_on''"
    "\<exists>m \<in> set (ag_nodes db). no_node_id m = ed_predecessor_node_id e \<and> no_graph_id m = ed_graph_id e"
    if "e \<in> set es" for e
    using that edges(1,3) by (auto simp: new_edges_def)
  have coherent: "coherent c db'" unfolding coherent_def
  proof (intro conjI)
    show "distinct (map no_node_id (ag_nodes db'))" using co(1) nid by (simp add: fields)
    show "budgets_ok c db'" using co(2) bs by (simp add: budgets_ok_def fields)
    show "ledger_exact c db'" using ledger by (simp add: ledger_exact_def fields)
    show "edges_ok db'" unfolding edges_ok_def
    proof (intro conjI ballI)
      show "distinct (ag_edges db')" using edges(2) by (simp add: fields)
      fix e assume e: "e \<in> set (ag_edges db')"
      show "ed_edge_kind e = ''depends_on''"
        using e edge_row(3) edges_okD(3) [OF co(4)] by (auto simp: fields)
      show "\<exists>m \<in> set (ag_nodes db'). no_node_id m = ed_dependent_node_id e \<and> no_graph_id m = ed_graph_id e"
        using e edge_row(1,2) edges_okD(1) [OF co(4)] by (auto simp: fields)
      show "\<exists>m \<in> set (ag_nodes db'). no_node_id m = ed_predecessor_node_id e \<and> no_graph_id m = ed_graph_id e"
        using e edge_row(4) edges_okD(2) [OF co(4)] by (auto simp: fields)
    qed
  qed
  have forest: "forest_ok db'" unfolding forest_ok_def
  proof (intro conjI ballI)
    show "distinct (map gr_graph_id (ag_graphs db'))" using oks(2) by (simp add: forest_ok_def fields)
  next
    fix m assume "m \<in> set (ag_nodes db')"
    with oks(2) place have "placed db m" by (auto simp: forest_ok_def fields)
    then show "placed db' m" by (rule placed_more) (auto simp: fields)
  next
    fix g assume g: "g \<in> set (ag_graphs db')"
    then have old: "within_graph_limits db g" using oks(2) by (simp add: forest_ok_def fields)
    have "running_count k db' = running_count k db" for k
      using st(1) by (auto simp: running_count_def fields started_def)
    moreover have "int (count_where (in_graph (gr_graph_id g)) (ag_nodes db')) \<le> gr_max_nodes g"
    proof (cases "gr_graph_id g = no_graph_id n")
      case True
      with room [of g] g show ?thesis by (simp add: fields in_graph_def)
    next
      case False
      with old show ?thesis by (simp add: fields in_graph_def within_graph_limits_def)
    qed
    ultimately show "within_graph_limits db' g" using old by (simp add: within_graph_limits_def)
  qed
  have deps: "deps_ok db'" unfolding deps_ok_def
  proof (intro ballI impI)
    fix m e p
    assume m: "m \<in> set (ag_nodes db')" "started (no_status m)" and e: "e \<in> set (ag_edges db')"
      "ed_dependent_node_id e = no_node_id m" and p: "p \<in> set (ag_nodes db')" "no_node_id p = ed_predecessor_node_id e"
    have m': "m \<in> set (ag_nodes db)" using m st(1) by (auto simp: fields)
    have e': "e \<in> set (ag_edges db)" using e edge_row(1) nid m' by (auto simp: fields)
    have "p \<noteq> n" using edges_okD(2) [OF co(4) e'] p(2) fresh by auto
    with p have p': "p \<in> set (ag_nodes db)" by (simp add: fields)
    show "no_status p = NodeCompleted" by (rule deps_okD [OF oks(3) m' m(2) e' e(2) p' p(2)])
  qed
  have "leases_ok db'" using oks(4) st(2) by (simp add: leases_ok_def fields)
  with coherent forest deps show ?thesis using oks(5) mail_ok_same [OF oks(6) fields(6)]
    by (simp add: graph_ok_def locks_ok_def fields)
qed

section \<open>Creating a graph\<close>

lemma graph_add_ok:
  assumes ok: "graph_ok c db" and new: "\<forall>h \<in> set (ag_graphs db). gr_graph_id h \<noteq> gr_graph_id g"
    and lim: "0 \<le> gr_max_nodes g" "0 \<le> gr_max_concurrency g"
  shows "graph_ok c (db\<lparr>ag_graphs := ag_graphs db @ [g]\<rparr>)"
    and "count_where (in_graph (gr_graph_id g)) (ag_nodes db) = 0"
proof -
  note oks = graph_okD [OF ok]
  let ?db = "db\<lparr>ag_graphs := ag_graphs db @ [g]\<rparr>"
  have none: "no_graph_id n \<noteq> gr_graph_id g" if "n \<in> set (ag_nodes db)" for n
    using oks(2) that new by (auto simp: forest_ok_def placed_def)
  then show zero: "count_where (in_graph (gr_graph_id g)) (ag_nodes db) = 0"
    by (simp add: count_where_zero in_graph_def)
  have "running_count (gr_graph_id g) db = 0" using none by (simp add: running_count_def count_where_zero)
  then have lim_g: "within_graph_limits ?db g" using lim zero by (simp add: within_graph_limits_def running_count_def)
  have lim_old: "within_graph_limits ?db h" if "within_graph_limits db h" for h
    using that by (simp add: within_graph_limits_def running_count_def)
  have place: "placed ?db n" if "placed db n" for n using that by (rule placed_more) auto
  have "gr_graph_id g \<notin> gr_graph_id ` set (ag_graphs db)" using new by (metis imageE)
  then have "distinct (map gr_graph_id (ag_graphs ?db))" using oks(2) by (simp add: forest_ok_def)
  moreover have "\<forall>n \<in> set (ag_nodes ?db). placed ?db n"
  proof
    fix n assume "n \<in> set (ag_nodes ?db)"
    then have "placed db n" using oks(2) by (simp add: forest_ok_def)
    then show "placed ?db n" by (rule place)
  qed
  moreover have "\<forall>h \<in> set (ag_graphs ?db). within_graph_limits ?db h"
  proof
    fix h assume "h \<in> set (ag_graphs ?db)"
    then consider "h = g" | "h \<in> set (ag_graphs db)" by auto
    then show "within_graph_limits ?db h"
    proof cases
      case 1
      then show ?thesis using lim_g by simp
    next
      case 2
      then have "within_graph_limits db h" using oks(2) by (simp add: forest_ok_def)
      then show ?thesis by (rule lim_old)
    qed
  qed
  ultimately have "forest_ok ?db" unfolding forest_ok_def by (intro conjI)
  moreover have "coherent c ?db" using oks(1)
    by (simp add: coherent_def budgets_ok_def ledger_exact_def edges_ok_def)
  moreover have "deps_ok ?db" using oks(3) deps_ok_same [of ?db db] by simp
  moreover have "leases_ok ?db" "locks_ok ?db" using oks(4,5) by (simp_all add: leases_ok_def locks_ok_def)
  moreover have "mail_ok ?db" using mail_ok_same [OF oks(6), of ?db] by simp
  ultimately show "graph_ok c ?db" by (simp add: graph_ok_def)
qed

lemma spec_budgets:
  "node_spec_ok spec \<Longrightarrow> distinct (map fst (ns_budgets spec)) \<and> (\<forall>p \<in> set (ns_budgets spec). 0 \<le> snd p)"
  using node_spec_budgets [of spec] by (auto simp: node_spec_ok_def)

lemma new_graph_fields [simp]:
  "gr_graph_id (new_graph_row g now) = gp_graph_id g" "gr_root_run_id (new_graph_row g now) = gp_root_run_id g"
  "gr_root_node_id (new_graph_row g now) = gp_root_node_id g"
  "gr_max_depth (new_graph_row g now) = gl_max_depth (gp_limits g)"
  "gr_max_nodes (new_graph_row g now) = gl_max_nodes (gp_limits g)"
  "gr_max_concurrency (new_graph_row g now) = gl_max_concurrency (gp_limits g)"
  "gr_status (new_graph_row g now) = GraphActive" "gr_tenant_key (new_graph_row g now) = gp_tenant_key g"
  by (simp_all add: new_graph_row_def)

lemma create_graph_tx_ok:
  assumes ok: "graph_ok c db" and c: "opens_sealed c" and spec: "node_spec_ok spec"
    and lim: "check_graph_limits (gp_limits g) = Inr (gp_limits g)"
    and tx: "create_graph_tx c g spec now db = Inr (r, db')"
  shows "graph_ok c db'"
proof -
  define g' where "g' = g\<lparr>gp_status := GraphActive,
                gp_trace_id := (if gp_trace_id g = [] then gp_root_run_id g else gp_trace_id g)\<rparr>"
  have g'f: "gp_graph_id g' = gp_graph_id g" "gp_limits g' = gp_limits g" "gp_root_node_id g' = gp_root_node_id g"
    by (simp_all add: g'_def)
  let ?n = "new_node_row c (gp_root_node_id g) (gp_graph_id g) None ''/root'' spec 1 NodeReady now"
  let ?db0 = "db\<lparr>ag_graphs := ag_graphs db @ [new_graph_row g' now]\<rparr>"
  from tx have new: "\<forall>h \<in> set (ag_graphs db). gr_graph_id h \<noteq> gp_graph_id g"
    and ins: "insert_node ?n (ns_budgets spec) now ?db0 = Inr db'"
    unfolding create_graph_tx_def Let_def g'_def [symmetric] g'f
    by (auto simp: chain_Inr list_ex_iff split: if_splits)
  have lims: "1 \<le> gl_max_depth (gp_limits g)" "1 \<le> gl_max_nodes (gp_limits g)" "1 \<le> gl_max_concurrency (gp_limits g)"
    using lim by (auto simp: check_graph_limits_def split: if_splits)
  have ok0: "graph_ok c ?db0" and zero: "count_where (in_graph (gp_graph_id g)) (ag_nodes db) = 0"
    using graph_add_ok [OF ok, of "new_graph_row g' now"] new lims g'f by auto
  from ins obtain ledger where ng: "\<forall>m \<in> set (ag_nodes ?db0). \<not> node_conflict ?n m"
    and l: "insert_ledger (gp_graph_id g) (gp_root_node_id g) (ns_budgets spec) now (ag_ledger db) = Inr ledger"
    and db': "db' = ?db0\<lparr>ag_nodes := ag_nodes ?db0 @ [?n], ag_ledger := ledger\<rparr>"
    by (elim insert_node_Inr) auto
  have fresh: "\<forall>m \<in> set (ag_nodes db). no_node_id m \<noteq> gp_root_node_id g" using ng by (auto simp: node_conflict_def)
  note co = coherentD [OF graph_okD(1) [OF ok]] and sb = spec_budgets [OF spec]
  note nb = new_node_budgets [OF c, of "gp_root_node_id g" "gp_graph_id g" None "''/root''" spec 1 NodeReady now]
  have led: "distinct (map cell_of ledger) \<and> (\<forall>b \<in> set ledger. cell_exact c (ag_nodes db @ [?n]) b)"
  proof (rule grow_ledger [OF _ _ nb])
    show "distinct (map cell_of (ag_ledger db))" "\<forall>b \<in> set (ag_ledger db). cell_exact c (ag_nodes db) b"
      using co(3) by (simp_all add: ledger_exact_def)
    show "\<forall>m \<in> set (ag_nodes db). no_parent_node_id m \<noteq> Some (no_node_id ?n)"
      using absent_parent [OF graph_okD(2) [OF ok] fresh] by simp
  qed (use sb l in simp_all)
  show ?thesis
  proof (rule grow_graph_ok [OF ok0, of ?n "ns_budgets spec" ledger "[]" "[]"])
    show "placed ?db0 ?n" using lims g'f by (simp add: placed_def)
    show "int (count_where (in_graph (no_graph_id ?n)) (ag_nodes ?db0)) < gr_max_nodes h"
      if "h \<in> set (ag_graphs ?db0)" "gr_graph_id h = no_graph_id ?n" for h
      using that new zero lims g'f by auto
    show "distinct (ag_edges ?db0 @ [])" using co(4) by (simp add: edges_ok_def)
  qed (use fresh led sb nb in \<open>auto simp: started_def new_edges_def db'\<close>)
qed

lemma create_ok:
  assumes "graph_ok c db" "opens_sealed c" "node_spec_ok spec" "check_graph_limits (gp_limits g) = Inr (gp_limits g)"
  shows "graph_ok c (snd (supervisor_create c g spec now db))"
proof -
  have "graph_ok c (snd (create_graph c g spec now db))" unfolding create_graph_def
    by (rule transaction_inv [where P = "graph_ok c", OF assms(1)]) (rule create_graph_tx_ok [OF assms])
  with assms(1) show ?thesis by (simp add: supervisor_create_def raise_def)
qed

section \<open>Spawning a child\<close>

lemma put_waiting_ok:
  assumes "graph_ok c db" "p \<in> set (ag_nodes db)" "no_node_id p = parent"
  shows "graph_ok c (put_waiting parent now p db)"
proof (cases "no_status p \<in> {NodeReady, NodeInterrupted}")
  case True
  have "n = p" if "n \<in> set (ag_nodes db)" "no_node_id n = parent" for n
    using key_unique [OF coherentD(1) [OF graph_okD(1) [OF assms(1)]] that(1) assms(2)] that(2) assms(3) by simp
  with True have "graph_ok c (set_node (\<lambda>n. no_node_id n = parent) (move_node NodeWaiting now) db)"
    by (intro set_node_graph_ok [OF assms(1)]) (auto simp: same_live_move intro!: quiet_moves(1))
  with True show ?thesis unfolding put_waiting_def by (simp only: if_True)
qed (simp add: put_waiting_def assms(1))

lemma put_waiting_frame [simp]:
  "ag_graphs (put_waiting parent now p db) = ag_graphs db" "ag_ledger (put_waiting parent now p db) = ag_ledger db"
  "ag_edges (put_waiting parent now p db) = ag_edges db" "ag_mailbox (put_waiting parent now p db) = ag_mailbox db"
  "ag_locks (put_waiting parent now p db) = ag_locks db" "ag_artifacts (put_waiting parent now p db) = ag_artifacts db"
  "map node_core (ag_nodes (put_waiting parent now p db)) = map node_core (ag_nodes db)"
  by (auto simp: put_waiting_def set_node_def intro!: update_where_map_key)

lemma spawn_tx_cases:
  assumes "spawn_child_tx c i gid parent spec ready now db = Inr (child, db')"
  obtains g p ledger db2 edges where "find_graph gid db = Some g" "gr_status g = GraphActive"
    "find (node_in_graph gid parent) (ag_nodes db) = Some p"
    "int (count_where (\<lambda>n. no_graph_id n = gid) (ag_nodes db)) < gr_max_nodes g"
    "no_depth p + 1 \<le> gr_max_depth g"
    "\<forall>d \<in> set (ns_dependency_node_ids spec). list_ex (node_in_graph gid d) (ag_nodes db)"
    "reserve_parent_budget gid parent (ns_budgets spec) now (ag_ledger db) = Inr ledger"
    "insert_node (new_node_row c i gid (Some parent) (no_canonical_path p @ ''/'' @ ns_name spec) spec
        (no_depth p + 1) (if ready then NodeReady else NodeCreated) now)
      (ns_budgets spec) now ((put_waiting parent now p db)\<lparr>ag_ledger := ledger\<rparr>) = Inr db2"
    "insert_edges gid i (ns_dependency_node_ids spec) (ag_edges db2) = Inr edges"
    "db' = db2\<lparr>ag_edges := edges\<rparr>"
    "child = spawned_node i gid (Some parent) (no_canonical_path p @ ''/'' @ ns_name spec) spec
        (no_depth p + 1) (if ready then NodeReady else NodeCreated)"
proof -
  from assms obtain g where g: "find_graph gid db = Some g" "gr_status g = GraphActive"
    by (auto simp: spawn_child_tx_def split: option.splits if_splits)
  from assms g obtain p where p: "find (node_in_graph gid parent) (ag_nodes db) = Some p"
    by (auto simp: spawn_child_tx_def split: option.splits)
  note tx = assms [unfolded spawn_child_tx_def Let_def g(1) p option.case]
  from tx g(2) have lim: "int (count_where (\<lambda>n. no_graph_id n = gid) (ag_nodes db)) < gr_max_nodes g"
    "no_depth p + 1 \<le> gr_max_depth g"
    "\<forall>d \<in> set (ns_dependency_node_ids spec). list_ex (node_in_graph gid d) (ag_nodes db)"
    by (simp_all add: list_ex_iff split: if_splits)
  note ifs = not_not [THEN iffD2, OF g(2), THEN if_not_P] lim(1) [unfolded not_le [symmetric], THEN if_not_P]
    lim(2) [unfolded not_less [symmetric], THEN if_not_P]
  have deps: "\<not> list_ex (\<lambda>d. \<not> list_ex (node_in_graph gid d) (ag_nodes db)) (ns_dependency_node_ids spec)"
    using lim(3) by (simp add: list_ex_iff)
  from tx [unfolded ifs deps [THEN if_not_P] chain_Inr] obtain ledger db2 edges where
    "reserve_parent_budget gid parent (ns_budgets spec) now (ag_ledger (put_waiting parent now p db)) = Inr ledger"
    "insert_node (new_node_row c i gid (Some parent) (no_canonical_path p @ ''/'' @ ns_name spec) spec
        (no_depth p + 1) (if ready then NodeReady else NodeCreated) now)
      (ns_budgets spec) now ((put_waiting parent now p db)\<lparr>ag_ledger := ledger\<rparr>) = Inr db2"
    "insert_edges gid i (ns_dependency_node_ids spec) (ag_edges db2) = Inr edges"
    "db' = db2\<lparr>ag_edges := edges\<rparr>"
    "child = spawned_node i gid (Some parent) (no_canonical_path p @ ''/'' @ ns_name spec) spec
        (no_depth p + 1) (if ready then NodeReady else NodeCreated)"
    by (elim exE conjE) (rule that, assumption, assumption, assumption, simp_all only: sum.inject prod.inject)
  with that [OF g p lim] show ?thesis by (simp only: put_waiting_frame)
qed

lemma spawn_tx_ok:
  assumes ok: "graph_ok c db" and c: "opens_sealed c" and spec: "node_spec_ok spec"
    and tx: "spawn_child_tx c i gid parent spec ready now db = Inr (child, db')"
  shows "graph_ok c db'"
  using tx
proof (cases rule: spawn_tx_cases)
  case (1 g p ledger db2 edges)
  from find_in_set [OF 1(3)] have p: "p \<in> set (ag_nodes db)" "no_node_id p = parent" "no_graph_id p = gid"
    by (simp_all add: node_in_graph_def)
  from find_in_set [OF 1(1) [unfolded find_graph_def]] have g: "g \<in> set (ag_graphs db)" "gr_graph_id g = gid" by simp_all
  define db1 where "db1 = put_waiting parent now p db"
  let ?n = "new_node_row c i gid (Some parent) (no_canonical_path p @ ''/'' @ ns_name spec) spec
        (no_depth p + 1) (if ready then NodeReady else NodeCreated) now"
  have ok1: "graph_ok c db1" unfolding db1_def by (rule put_waiting_ok [OF ok p(1,2)])
  have same: "ag_graphs db1 = ag_graphs db" "ag_ledger db1 = ag_ledger db" "ag_edges db1 = ag_edges db"
    and core: "map node_core (ag_nodes db1) = map node_core (ag_nodes db)" by (simp_all add: db1_def)
  have there: "\<exists>m \<in> set (ag_nodes db1). no_node_id m = no_node_id r \<and> no_graph_id m = no_graph_id r \<and> no_depth m = no_depth r"
    if "r \<in> set (ag_nodes db)" for r
  proof -
    from core_mem(2) [OF core that] obtain m where m: "m \<in> set (ag_nodes db1)" "node_core m = node_core r" by blast
    then show ?thesis using node_core_fields(1,2,4) [OF m(2)] by (intro bexI [of _ m]) simp_all
  qed
  from 1(8) obtain ledger2 where ng: "\<forall>m \<in> set (ag_nodes db1). \<not> node_conflict ?n m"
    and l: "insert_ledger gid i (ns_budgets spec) now ledger = Inr ledger2"
    and db2: "db2 = (db1\<lparr>ag_ledger := ledger\<rparr>)\<lparr>ag_nodes := ag_nodes db1 @ [?n], ag_ledger := ledger2\<rparr>"
    unfolding db1_def [symmetric] by (elim insert_node_Inr) auto
  have fresh: "\<forall>m \<in> set (ag_nodes db1). no_node_id m \<noteq> i" using ng by (auto simp: node_conflict_def)
  have parent_i: "parent \<noteq> i" using there [OF p(1)] p(2) fresh by auto
  note co = coherentD [OF graph_okD(1) [OF ok1]] and sb = spec_budgets [OF spec]
  note nb = new_node_budgets [OF c, of i gid "Some parent" "no_canonical_path p @ ''/'' @ ns_name spec" spec
    "no_depth p + 1" "if ready then NodeReady else NodeCreated" now]
  have cells: "distinct (map cell_of (ag_ledger db1))" "\<forall>b \<in> set (ag_ledger db1). cell_exact c (ag_nodes db1) b"
    using co(3) by (simp_all add: ledger_exact_def)
  note res = reserve_map [OF 1(7) [folded same(2)] sb [THEN conjunct1] cells(1)]
  have led: "distinct (map cell_of ledger2) \<and> (\<forall>b \<in> set ledger2. cell_exact c (ag_nodes db1 @ [?n]) b)"
  proof (rule grow_ledger [OF cells nb])
    show "\<forall>m \<in> set (ag_nodes db1). no_parent_node_id m \<noteq> Some (no_node_id ?n)"
      using absent_parent [OF graph_okD(2) [OF ok1] fresh] by simp
    show "ledger = (case no_parent_node_id ?n of None \<Rightarrow> ag_ledger db1
        | Some q \<Rightarrow> map (shift_cell now (no_graph_id ?n) q (ns_budgets spec) (+)) (ag_ledger db1))"
      using res(1) by simp
    show "v \<le> lg_maximum b - lg_reserved b - lg_consumed b"
      if "no_parent_node_id ?n = Some q" "b \<in> set (ag_ledger db1)" "lg_graph_id b = no_graph_id ?n"
        "lg_node_id b = q" "map_of (ns_budgets spec) (lg_budget_kind b) = Some v" for q b v
      using that res(2) [of b v] by simp
  qed (use sb l parent_i in simp_all)
  have e2: "ag_edges db2 = ag_edges db1" by (simp add: db2)
  have edges: "edges = ag_edges db1 @ new_edges gid i (ns_dependency_node_ids spec)"
    using insert_edges_Inr(1) [OF 1(9)] by (simp only: e2)
  have dist: "distinct (ag_edges db1 @ new_edges gid i (ns_dependency_node_ids spec))"
    using insert_edges_Inr(2) [OF 1(9)] co(4) unfolding edges e2 edges_ok_def by (rule meta_mp) blast
  show ?thesis
  proof (rule grow_graph_ok [OF ok1, of ?n "ns_budgets spec" ledger2 "new_edges gid i (ns_dependency_node_ids spec)"
        "ns_dependency_node_ids spec"])
    show "placed db1 ?n" using g 1(5) there [OF p(1)] p by (auto simp: placed_def same)
    show "int (count_where (in_graph (no_graph_id ?n)) (ag_nodes db1)) < gr_max_nodes h"
      if "h \<in> set (ag_graphs db1)" "gr_graph_id h = no_graph_id ?n" for h
    proof -
      have "h = g" using key_unique [of gr_graph_id "ag_graphs db" h g] graph_okD(2) [OF ok] that g
        by (simp add: forest_ok_def same)
      moreover have "count_where (in_graph gid) (ag_nodes db1) = count_where (in_graph gid) (ag_nodes db)"
        by (rule core_count [OF core]) (auto simp: in_graph_def dest: node_core_fields(2))
      ultimately show ?thesis using 1(4) by (simp add: in_graph_def [abs_def])
    qed
    show "\<forall>d \<in> set (ns_dependency_node_ids spec). \<exists>m \<in> set (ag_nodes db1). no_node_id m = d \<and> no_graph_id m = no_graph_id ?n"
    proof
      fix d assume "d \<in> set (ns_dependency_node_ids spec)"
      with 1(6) obtain r where "r \<in> set (ag_nodes db)" "no_node_id r = d" "no_graph_id r = gid"
        by (auto simp: list_ex_iff node_in_graph_def)
      with there [of r] show "\<exists>m \<in> set (ag_nodes db1). no_node_id m = d \<and> no_graph_id m = no_graph_id ?n" by auto
    qed
  qed (use fresh led sb nb edges dist 1(10) db2 in \<open>auto simp: started_def\<close>)
qed

lemma spawn_child_ok:
  assumes "graph_ok c db" "opens_sealed c" "node_spec_ok spec"
  shows "graph_ok c (snd (spawn_child c i gid parent spec ready now db))"
  unfolding spawn_child_def
  by (rule transaction_inv [where P = "graph_ok c", OF assms(1)]) (rule spawn_tx_ok [OF assms])

lemma spawn_ok:
  assumes "graph_ok c db" "opens_sealed c" "node_spec_ok spec"
  shows "graph_ok c (snd (supervisor_spawn c i gid parent spec ready now db))"
  using assms(1) spawn_child_ok [OF assms] by (simp add: supervisor_spawn_def split: sum.splits)

end
