(* ===== verification/GraphSystem.thy ===== *)
theory GraphSystem
  imports Supervisor GraphSpawn
begin

text \<open>
  The agent graph as one system: every state-changing call of the supervisor and of the graph store, in
  any order, by any number of workers, on a clock that never goes back. Each call is one transaction of
  the database actor. The supervisor's composite round \<open>execute_ready\<close> is a sequence of such calls
  and keeps the same invariant.
\<close>

datatype gs_op =
    GsCreate graph_record node_spec
  | GsSpawn string string string node_spec bool
  | GsActivate string
  | GsLease string string int int
  | GsFail string string
  | GsInterrupt string
  | GsComplete string string string artifact_draft
  | GsCancel string
  | GsSend string string string string mailbox_kind payload "string option"
  | GsReceive string
  | GsAcknowledge string string
  | GsLock string string resource_target int
  | GsUnlock string
  | GsRootScope string string write_scope_target int
  | GsReleaseScope string write_scope_target
  | GsListLocks string
  | GsOwns string "write_scope_target list"
  | GsRenew string "write_scope_target list" int
  | GsCheckpoint string string payload
  | GsPublish string string run_status

fun gs_step :: "'b cipher \<Rightarrow> int \<Rightarrow> gs_op \<Rightarrow> 'b ag_db \<Rightarrow> 'b ag_db" where
  "gs_step c now (GsCreate g spec) db = snd (supervisor_create c g spec now db)"
| "gs_step c now (GsSpawn i gid parent spec ready) db = snd (supervisor_spawn c i gid parent spec ready now db)"
| "gs_step c now (GsActivate i) db = snd (activate_node c i now db)"
| "gs_step c now (GsLease gid worker lease limit) db = snd (lease_ready c gid worker now lease limit db)"
| "gs_step c now (GsFail i worker) db = snd (fail_node c i worker now db)"
| "gs_step c now (GsInterrupt i) db = snd (interrupt_node i now db)"
| "gs_step c now (GsComplete aid i worker d) db = snd (complete_node c aid i worker d now db)"
| "gs_step c now (GsCancel i) db = snd (cancel_subtree c i now db)"
| "gs_step c now (GsSend mid gid s r kind p cid) db = snd (send_mail c mid gid s r kind p cid now db)"
| "gs_step c now (GsReceive i) db = snd (receive_mail c i now db)"
| "gs_step c now (GsAcknowledge mid i) db = snd (acknowledge_mail mid i now db)"
| "gs_step c now (GsLock gid i t lease) db = snd (acquire_lock gid i t now lease db)"
| "gs_step c now (GsUnlock i) db = release_locks i db"
| "gs_step c now (GsRootScope run tenant t lease) db = snd (acquire_root_write_scope run tenant t now lease db)"
| "gs_step c now (GsReleaseScope owner t) db = release_write_scope owner t db"
| "gs_step c now (GsListLocks i) db = snd (list_locks i now db)"
| "gs_step c now (GsOwns owner ts) db = snd (owns_write_scope owner ts now db)"
| "gs_step c now (GsRenew owner ts lease) db = snd (renew_write_scope owner ts now lease db)"
| "gs_step c now (GsCheckpoint kid i st) db = snd (save_node_checkpoint c kid i st now db)"
| "gs_step c now (GsPublish gid i st) db = snd (publish_terminal gid i st now db)"

text \<open>The checks that the constructors of the arguments have made: \<open>NodeSpec\<close> and \<open>GraphLimits\<close>.\<close>

fun gs_legal :: "gs_op \<Rightarrow> bool" where
  "gs_legal (GsCreate g spec) \<longleftrightarrow> node_spec_ok spec \<and> check_graph_limits (gp_limits g) = Inr (gp_limits g)"
| "gs_legal (GsSpawn i gid parent spec ready) \<longleftrightarrow> node_spec_ok spec"
| "gs_legal _ \<longleftrightarrow> True"

definition graph_inv :: "'b cipher \<Rightarrow> int \<Rightarrow> 'b ag_db \<Rightarrow> bool" where
  "graph_inv c now db \<longleftrightarrow> opens_sealed c \<and> graph_ok c db"

lemma graph_ok_empty: "graph_ok c empty_graph_db"
  by (simp add: graph_ok_def empty_graph_db_def coherent_def budgets_ok_def ledger_exact_def edges_ok_def
      forest_ok_def deps_ok_def leases_ok_def locks_ok_def mail_ok_def inbox_def)

lemma list_locks_ok: "graph_ok c db \<Longrightarrow> graph_ok c (snd (list_locks i now db))"
  by (simp add: list_locks_def Let_def drop_expired_ok)

lemma owns_scope_ok: "graph_ok c db \<Longrightarrow> graph_ok c (snd (owns_write_scope owner ts now db))"
  by (simp add: owns_write_scope_def Let_def drop_expired_ok)

lemma publish_ok: "graph_ok c db \<Longrightarrow> graph_ok c (snd (publish_terminal gid i st now db))"
  by (simp add: publish_terminal_def raise_def finish_graph_ok split: option.splits)

lemmas op_graph_ok = activate_ok lease_ok fail_ok interrupt_ok complete_node_ok cancel_ok send_ok receive_ok
  acknowledge_ok acquire_lock_ok drop_locks_of_ok root_scope_ok release_scope_ok list_locks_ok owns_scope_ok
  renew_ok checkpoint_ok publish_ok

lemma gs_step_ok:
  assumes "graph_ok c db" "opens_sealed c" "gs_legal op"
  shows "graph_ok c (gs_step c now op db)"
  using assms
  by (cases op) (simp_all add: op_graph_ok release_locks_def create_ok spawn_ok)

interpretation agents: clocked_steps "gs_step c" gs_legal "graph_inv c" for c :: "'b cipher"
  by unfold_locales (auto simp: graph_inv_def gs_step_ok)

lemma agents_run_ok:
  assumes "opens_sealed c" "timely gs_legal start ops"
  shows "graph_ok c (timed_run (gs_step c) ops empty_graph_db)"
  using agents.run_inv [of c start empty_graph_db ops] assms by (simp add: graph_inv_def graph_ok_empty)

section \<open>The supervisor's composite operations\<close>

lemma acknowledge_all_ok: "graph_ok c db \<Longrightarrow> graph_ok c (snd (acknowledge_all ms i now db))"
proof (induction ms arbitrary: db)
  case (Cons m ms)
  from acknowledge_ok [OF Cons.prems, of m i now] Cons.IH show ?case
    by (auto split: sum.splits prod.splits)
qed simp

lemma settle_execution_ok: "graph_ok c db \<Longrightarrow> graph_ok c (snd (settle_execution c fresh worker now i mailbox r db))"
proof -
  assume ok: "graph_ok c db"
  have give_up: "graph_ok c (snd (give_up_node c i worker now db))"
    using fail_ok [OF ok, of i worker now] by (auto simp: give_up_node_def split: sum.splits prod.splits)
  have done': "graph_ok c db2" if "complete_node c aid i worker d now db = (Inr a, db1)"
    "acknowledge_all ms i now db1 = (r', db2)" for aid d a db1 ms r' db2
    using acknowledge_all_ok [of c db1 ms i now] complete_node_ok [OF ok, of aid i worker d now] that by simp
  have part: "graph_ok c db1" if "complete_node c aid i worker d now db = (r', db1)" for aid d r' db1
    using complete_node_ok [OF ok, of aid i worker d now] that by simp
  show ?thesis
    using ok give_up by (auto simp: settle_execution_def dest: part done' split: sum.splits prod.splits)
qed

text \<open>A worker that keeps the invariant, as every operation of the graph does.\<close>

definition worker_keeps :: "'b cipher \<Rightarrow> ('b, 'w) node_worker \<Rightarrow> bool" where
  "worker_keeps c worker \<longleftrightarrow> (\<forall>x db w. graph_ok c db \<longrightarrow> graph_ok c (fst (snd (worker x db w))))"

lemma execute_node_ok:
  assumes "worker_keeps c worker" "graph_ok c db"
  shows "graph_ok c (fst (snd (execute_node c fresh gid worker_id worker now n db world)))"
proof -
  obtain r db1 where r: "receive_mail c (an_node_id n) now db = (r, db1)" by fastforce
  with receive_ok [OF assms(2), of c "an_node_id n" now] have ok: "graph_ok c db1" by simp
  show ?thesis
  proof (cases r)
    case (Inl e)
    with ok show ?thesis by (simp add: execute_node_def r)
  next
    case (Inr mailbox)
    show ?thesis
    proof (cases "list_artifacts c gid db1")
      case (Inl e)
      with ok Inr show ?thesis by (simp add: execute_node_def r)
    next
      case as: (Inr as)
      obtain v db2 w2 where w: "worker \<lparr>xi_node = n, xi_mailbox = mailbox,
          xi_dependency_artifacts = scoped_artifacts n as\<rparr> db1 world = (v, db2, w2)" by (metis prod_cases3)
      have "graph_ok c db2" using assms(1) ok w unfolding worker_keeps_def by (metis fst_conv snd_conv)
      note ok2 = settle_execution_ok [OF this, of fresh worker_id now "an_node_id n" mailbox v]
      obtain res db3 where "settle_execution c fresh worker_id now (an_node_id n) mailbox v db2 = (res, db3)" by fastforce
      with ok2 show ?thesis by (simp add: execute_node_def r Inr as w)
    qed
  qed
qed

lemma execute_nodes_ok:
  assumes "worker_keeps c worker"
  shows "graph_ok c db \<Longrightarrow> graph_ok c (fst (snd (execute_nodes c fresh gid worker_id worker now ns db world)))"
proof (induction ns arbitrary: db world)
  case (Cons n ns)
  obtain r db1 world1 where 1: "execute_node c fresh gid worker_id worker now n db world = (r, db1, world1)"
    by (metis prod_cases3)
  with execute_node_ok [OF assms Cons.prems, of fresh gid worker_id now n world] have "graph_ok c db1" by simp
  from Cons.IH [OF this, of world1] show ?case by (cases "execute_nodes c fresh gid worker_id worker now ns db1 world1") (simp add: 1)
qed simp

lemma execute_ready_ok:
  assumes "worker_keeps c worker" "graph_ok c db"
  shows "graph_ok c (fst (snd (execute_ready c fresh gid worker_id worker now lease db world)))"
proof (cases "get_graph gid db")
  case (Inl e)
  with assms show ?thesis by (simp add: execute_ready_def)
next
  case (Inr g)
  obtain r db1 where l: "lease_ready c gid worker_id now lease (gl_max_concurrency (gp_limits g)) db = (r, db1)"
    by fastforce
  with lease_ok [OF assms(2), of c gid worker_id now lease "gl_max_concurrency (gp_limits g)"] have "graph_ok c db1" by simp
  note ok = this execute_nodes_ok [OF assms(1) this, of fresh gid worker_id now _ world]
  show ?thesis
  proof (cases r)
    case (Inl e)
    with ok(1) show ?thesis by (simp add: execute_ready_def Inr l)
  next
    case ns: (Inr ns)
    obtain rs db2 w2 where "execute_nodes c fresh gid worker_id worker now ns db1 world = (rs, db2, w2)" by (metis prod_cases3)
    with ok(2) [of ns] show ?thesis by (simp add: execute_ready_def Inr l ns split: option.split)
  qed
qed

end
