(* ===== verification/GraphHistory.thy ===== *)
theory GraphHistory
  imports GraphSystem
begin

text \<open>
  What the past of a graph leaves behind: rows are never deleted, the columns fixed at insertion stay,
  a terminal node and a terminal graph never change again.
\<close>

definition kept :: "'b node_row \<Rightarrow> 'b node_row \<Rightarrow> bool" where
  "kept n m \<longleftrightarrow> node_core m = node_core n \<and> (node_terminal (no_status n) \<longrightarrow> m = n)"

definition graph_kept :: "graph_row \<Rightarrow> graph_row \<Rightarrow> bool" where
  "graph_kept g h \<longleftrightarrow> graph_view h = graph_view g \<and> (gr_status g \<noteq> GraphActive \<longrightarrow> h = g)"

definition grows :: "'b ag_db \<Rightarrow> 'b ag_db \<Rightarrow> bool" where
  "grows db db' \<longleftrightarrow> (\<forall>n \<in> set (ag_nodes db). \<exists>m \<in> set (ag_nodes db'). kept n m) \<and>
     set (ag_edges db) \<subseteq> set (ag_edges db') \<and> (\<forall>g \<in> set (ag_graphs db). \<exists>h \<in> set (ag_graphs db'). graph_kept g h)"

lemma kept_refl [simp]: "kept n n"
  by (simp add: kept_def)

lemma graph_kept_refl [simp]: "graph_kept g g"
  by (simp add: graph_kept_def)

lemma still_there:
  "n \<in> set ns \<Longrightarrow> \<exists>m \<in> set ns. kept n m" "n \<in> set ns \<Longrightarrow> \<exists>m \<in> set ns. kept m n" "g \<in> set gs \<Longrightarrow> \<exists>h \<in> set gs. graph_kept g h"
  using kept_refl graph_kept_refl by blast+

lemma quiet_kept: "quiet n m \<Longrightarrow> kept n m"
  unfolding quiet_def kept_def by blast

lemma kept_trans: "kept a b \<Longrightarrow> kept b d \<Longrightarrow> kept a d"
  by (cases "node_terminal (no_status a)") (simp_all add: kept_def)

lemma graph_kept_trans: "graph_kept a b \<Longrightarrow> graph_kept b d \<Longrightarrow> graph_kept a d"
  by (cases "gr_status a = GraphActive") (simp_all add: graph_kept_def)

lemma growsI:
  assumes "\<And>n. n \<in> set (ag_nodes db) \<Longrightarrow> \<exists>m \<in> set (ag_nodes db'). kept n m" "set (ag_edges db) \<subseteq> set (ag_edges db')"
    and "\<And>g. g \<in> set (ag_graphs db) \<Longrightarrow> \<exists>h \<in> set (ag_graphs db'). graph_kept g h"
  shows "grows db db'"
  using assms by (simp add: grows_def)

lemma growsD:
  assumes "grows db db'"
  shows "n \<in> set (ag_nodes db) \<Longrightarrow> \<exists>m \<in> set (ag_nodes db'). kept n m"
    and "e \<in> set (ag_edges db) \<Longrightarrow> e \<in> set (ag_edges db')"
    and "g \<in> set (ag_graphs db) \<Longrightarrow> \<exists>h \<in> set (ag_graphs db'). graph_kept g h"
  using assms by (auto simp: grows_def)

lemma grows_refl [simp]: "grows db db"
  by (rule growsI) (simp_all add: still_there)

lemma grows_trans: "grows a b \<Longrightarrow> grows b d \<Longrightarrow> grows a d"
  unfolding grows_def by (meson kept_trans graph_kept_trans subset_trans)

text \<open>Nothing but spawning and creation brings new rows.\<close>

definition steady :: "'b ag_db \<Rightarrow> 'b ag_db \<Rightarrow> bool" where
  "steady db db' \<longleftrightarrow> grows db db' \<and> (\<forall>m \<in> set (ag_nodes db'). \<exists>n \<in> set (ag_nodes db). kept n m)"

lemma steady_grows: "steady db db' \<Longrightarrow> grows db db'"
  by (simp add: steady_def)

lemma steadyI:
  assumes "\<And>n. n \<in> set (ag_nodes db) \<Longrightarrow> \<exists>m \<in> set (ag_nodes db'). kept n m"
    and "\<And>m. m \<in> set (ag_nodes db') \<Longrightarrow> \<exists>n \<in> set (ag_nodes db). kept n m"
    and "set (ag_edges db) \<subseteq> set (ag_edges db')"
    and "\<And>g. g \<in> set (ag_graphs db) \<Longrightarrow> \<exists>h \<in> set (ag_graphs db'). graph_kept g h"
  shows "steady db db'"
  using assms(2) growsI [OF assms(1,3,4)] by (simp add: steady_def)

lemma steady_refl [simp]: "steady db db"
  by (rule steadyI) (simp_all add: still_there)

lemma steady_trans: "steady a b \<Longrightarrow> steady b d \<Longrightarrow> steady a d"
  unfolding steady_def by (meson grows_trans kept_trans)

lemma quietly_steady:
  assumes "quietly db db'" "ag_edges db' = ag_edges db" "ag_graphs db' = ag_graphs db"
  shows "steady db db'"
proof (rule steadyI)
  fix n assume "n \<in> set (ag_nodes db)"
  from all2_mem(2) [OF assms(1) [unfolded quietly_def] this]
  show "\<exists>m \<in> set (ag_nodes db'). kept n m" by (blast intro: quiet_kept)
next
  fix m assume "m \<in> set (ag_nodes db')"
  from all2_mem(1) [OF assms(1) [unfolded quietly_def] this]
  show "\<exists>n \<in> set (ag_nodes db). kept n m" by (blast intro: quiet_kept)
qed (use assms(2,3) in \<open>simp_all add: still_there\<close>)

lemma same_steady:
  "ag_nodes db' = ag_nodes db \<Longrightarrow> ag_edges db' = ag_edges db \<Longrightarrow> ag_graphs db' = ag_graphs db \<Longrightarrow> steady db db'"
  by (rule quietly_steady) (simp_all add: quietly_same)

lemma transaction_steady:
  assumes "\<And>a db'. f db = Inr (a, db') \<Longrightarrow> steady db db'"
  shows "steady db (snd (transaction f db))"
  by (rule transaction_inv [where P = "steady db"]) (simp_all add: assms)

section \<open>Each operation\<close>

lemma activate_steady: "steady db (snd (activate_node c i now db))"
proof -
  have "steady db (snd (transaction (activate_node_tx i now) db))"
  proof (rule transaction_steady)
    fix r db' assume "activate_node_tx i now db = Inr (r, db')"
    then have "db' = set_node (\<lambda>n. no_node_id n = i \<and> no_status n = NodeCreated) (move_node NodeReady now) db"
      by (auto simp: activate_node_tx_def Let_def split: option.splits if_splits)
    then show "steady db db'"
      by (simp only:) (rule quietly_steady, rule quietly_set_node, simp_all add: set_node_def quiet_moves(1))
  qed
  then show ?thesis by (auto simp: activate_node_def split: sum.splits prod.splits)
qed

lemma reclaim_steady: "steady db (reclaim_nodes gid now db)"
proof (rule quietly_steady)
  have "quietly db (set_node (node_expired gid now) (unleased NodeReady now) db)"
    by (rule quietly_set_node) (auto simp: node_expired_def started_def intro!: quiet_moves(2))
  then show "quietly db (reclaim_nodes gid now db)"
    by (simp add: reclaim_nodes_def quietly_def drop_expired_locks_def)
qed (simp_all add: reclaim_nodes_def drop_expired_locks_def set_node_def)

lemma run_rows_steady:
  assumes "\<And>n. n \<in> set (ag_nodes db) \<Longrightarrow> no_node_id n \<in> set ids \<Longrightarrow> \<not> node_terminal (no_status n)"
  shows "steady db (run_rows ids worker ex now db)"
proof (rule steadyI)
  fix n assume n: "n \<in> set (ag_nodes db)"
  show "\<exists>m \<in> set (ag_nodes (run_rows ids worker ex now db)). kept n m"
  proof (cases "no_node_id n \<in> set ids")
    case True
    with assms [OF n] n show ?thesis
      by (intro bexI [of _ "run_node worker ex now n"])
        (auto simp: kept_def run_rows_def set_node_def set_update_where intro!: image_eqI [of _ _ n])
  next
    case False
    with n show ?thesis
      by (intro bexI [of _ n]) (auto simp: run_rows_def set_node_def set_update_where intro!: image_eqI [of _ _ n])
  qed
next
  fix m assume "m \<in> set (ag_nodes (run_rows ids worker ex now db))"
  then obtain n where "n \<in> set (ag_nodes db)" "m = (if no_node_id n \<in> set ids then run_node worker ex now n else n)"
    by (auto simp: run_rows_def set_node_def set_update_where)
  with assms show "\<exists>n \<in> set (ag_nodes db). kept n m" by (intro bexI [of _ n]) (auto simp: kept_def)
qed (simp_all add: run_rows_def set_node_def still_there)

lemma lease_steady: "graph_ok c db \<Longrightarrow> steady db (snd (lease_ready c' gid worker now lease limit db))"
proof -
  assume ok: "graph_ok c db"
  have "steady db (snd (transaction (lease_ready_tx c' gid worker now lease limit) db))"
  proof (rule transaction_steady)
    fix ns db' assume tx: "lease_ready_tx c' gid worker now lease limit db = Inr (ns, db')"
    from tx show "steady db db'"
    proof (cases rule: lease_tx_cases)
      case idle
      then show ?thesis by (simp add: reclaim_steady)
    next
      case (leased g rows capacity)
      let ?db = "reclaim_nodes gid now db"
      have "\<not> node_terminal (no_status n)" if n: "n \<in> set (ag_nodes ?db)" "no_node_id n \<in> set (map no_node_id rows)" for n
      proof -
        from n(2) obtain r where r: "r \<in> set rows" "no_node_id n = no_node_id r" by auto
        from ready_rows_leasable [of r gid now capacity ?db] r(1) leased(5)
        have "r \<in> set (ag_nodes ?db)" "node_leasable gid now ?db r" by simp_all
        moreover have "n = r"
          using key_unique [OF coherentD(1) [OF graph_okD(1) [OF reclaim_ok [OF ok]]] n(1) calculation(1) r(2)] .
        ultimately show ?thesis by (auto simp: node_leasable_def)
      qed
      from steady_trans [OF reclaim_steady run_rows_steady [OF this]] show ?thesis unfolding leased(7) .
    qed
  qed
  then show ?thesis by (simp add: lease_ready_def raise_def)
qed

lemma fail_steady: "graph_ok c db \<Longrightarrow> steady db (snd (fail_node c i worker now db))"
  unfolding fail_node_def
proof (rule transaction_steady)
  fix a db' assume ok: "graph_ok c db" and tx: "fail_node_tx c i worker now db = Inr (a, db')"
  from tx obtain n where "find (running_for i worker) (ag_nodes db) = Some n"
    by (auto simp: fail_node_tx_def split: option.splits)
  from fail_node_tx_total [OF ok this, of now] tx have "quietly db db'" "others db' = others db" by auto
  with others_fields [OF this(2)] show "steady db db'" by (intro quietly_steady) simp_all
qed

lemma interrupt_steady: "steady db (snd (interrupt_node i now db))"
  unfolding interrupt_node_def
proof (rule transaction_steady)
  fix a db' assume tx: "interrupt_node_tx i now db = Inr (a, db')"
  have "quietly db (set_node (interruptible i) (unleased NodeInterrupted now) db)"
    by (rule quietly_set_node) (auto simp: interruptible_def started_def intro!: quiet_moves(2))
  then show "steady db db'" unfolding interrupt_tx_Inr [OF tx]
    by (intro quietly_steady) (simp_all add: quietly_def drop_locks_of_def set_node_def)
qed

lemma complete_steady: "graph_ok c db \<Longrightarrow> steady db (snd (complete_node c aid i worker d now db))"
  unfolding complete_node_def
proof (rule transaction_steady)
  fix a db' assume ok: "graph_ok c db" and tx: "complete_node_tx c aid i worker d now db = Inr (a, db')"
  from complete_tx_cases [OF tx] obtain n where "find (running_for i worker) (ag_nodes db) = Some n"
    "\<not> list_ex (\<lambda>a. at_artifact_id a = aid) (ag_artifacts db)" .
  from complete_node_tx_total [OF ok this, of d now] tx
  have "quietly db db'" "ag_edges db' = ag_edges db" "ag_graphs db' = ag_graphs db" by auto
  then show "steady db db'" by (rule quietly_steady)
qed

lemma update_graphs_kept:
  assumes "g \<in> set gs" "\<And>g. g \<in> set gs \<Longrightarrow> P g \<Longrightarrow> graph_kept g (f g)"
  shows "\<exists>h \<in> set (update_where P f gs). graph_kept g h"
proof (rule bexI [of _ "if P g then f g else g"])
  show "graph_kept g (if P g then f g else g)" using assms by simp
  show "(if P g then f g else g) \<in> set (update_where P f gs)"
    unfolding set_update_where using assms(1) by (rule image_eqI [OF refl])
qed

lemma finish_steady: "graph_ok c db \<Longrightarrow> steady db (snd (finish_graph gid i st now db))"
proof -
  assume ok: "graph_ok c db"
  have "steady db (snd (transaction (finish_graph_tx gid i st now) db))"
  proof (rule transaction_steady)
    fix a db' assume tx: "finish_graph_tx gid i st now db = Inr (a, db')"
    then obtain g where g: "find_graph gid db = Some g" "gr_status g = GraphActive"
      and db': "db' = db\<lparr>ag_graphs := update_where (\<lambda>r. gr_graph_id r = gid)
       (\<lambda>r. r\<lparr>gr_status := st, gr_updated_at_ms := now\<rparr>) (ag_graphs db)\<rparr>"
      by (auto simp: finish_graph_tx_def split: option.splits if_splits)
    from find_in_set [OF g(1) [unfolded find_graph_def]] have gs: "g \<in> set (ag_graphs db)" "gr_graph_id g = gid" by auto
    have "distinct (map gr_graph_id (ag_graphs db))" using graph_okD(2) [OF ok] by (simp add: forest_ok_def)
    then have one: "h = g" if "h \<in> set (ag_graphs db)" "gr_graph_id h = gid" for h
      using key_unique [of gr_graph_id "ag_graphs db" h g] that gs by simp
    have "\<exists>h' \<in> set (ag_graphs db'). graph_kept h h'" if h: "h \<in> set (ag_graphs db)" for h
      unfolding db' by (simp, rule update_graphs_kept [OF h]) (use one g(2) in \<open>auto simp: graph_kept_def graph_view_def\<close>)
    then show "steady db db'" by (intro steadyI) (simp_all add: db' still_there)
  qed
  then show ?thesis by (simp add: finish_graph_def raise_def)
qed

lemma cancel_steady: "graph_ok c db \<Longrightarrow> steady db (snd (cancel_subtree c i now db))"
  unfolding cancel_subtree_def
proof (rule transaction_steady)
  fix ids db' assume ok: "graph_ok c db" and tx: "cancel_subtree_tx c i now db = Inr (ids, db')"
  from cancel_subtree_tx_total [OF ok, of i now] tx have q: "quietly db db'" "ag_edges db' = ag_edges db" by auto
  from cancel_all_ok [OF graph_okD(1) [OF ok], of "subtree_ids i db" now] obtain db1 where
    db1: "cancel_all c (subtree_ids i db) now db = Inr db1" "others db1 = others db" by blast
  define db2 where "db2 = fold (\<lambda>p. wake_parent (Some p) now) (outer_parents (subtree_ids i db) db1) db1"
  have g2: "ag_graphs db2 = ag_graphs db" using others_fields [of db2 db] by (simp add: db2_def db1(2))
  from tx have "db' = (case find (\<lambda>g. gr_root_node_id g = i) (ag_graphs db2) of
             None \<Rightarrow> db2
           | Some g \<Rightarrow> db2\<lparr>ag_graphs := update_where
                (\<lambda>r. gr_graph_id r = gr_graph_id g \<and> gr_status r = GraphActive)
                (\<lambda>r. r\<lparr>gr_status := GraphCancelled, gr_updated_at_ms := now\<rparr>) (ag_graphs db2)\<rparr>)"
    unfolding cancel_subtree_tx_def Let_def db1(1) chain_simps db2_def [symmetric] by simp
  then have "\<exists>h \<in> set (ag_graphs db'). graph_kept g h" if "g \<in> set (ag_graphs db)" for g
    using that by (auto simp: g2 still_there split: option.splits)
      (rule update_graphs_kept, auto simp: graph_kept_def graph_view_def)
  moreover have "\<exists>m \<in> set (ag_nodes db'). kept n m" if "n \<in> set (ag_nodes db)" for n
    using all2_mem(2) [OF q(1) [unfolded quietly_def] that] by (blast intro: quiet_kept)
  moreover have "\<exists>n \<in> set (ag_nodes db). kept n m" if "m \<in> set (ag_nodes db')" for m
    using all2_mem(1) [OF q(1) [unfolded quietly_def] that] by (blast intro: quiet_kept)
  ultimately show "steady db db'" using q(2) by (intro steadyI) simp_all
qed

lemma more_grows:
  assumes "set (ag_nodes db) \<subseteq> set (ag_nodes db')" "set (ag_edges db) \<subseteq> set (ag_edges db')"
    and "set (ag_graphs db) \<subseteq> set (ag_graphs db')"
  shows "grows db db'"
  using assms kept_refl graph_kept_refl unfolding grows_def by blast

lemma transaction_grows:
  assumes "\<And>a db'. f db = Inr (a, db') \<Longrightarrow> grows db db'"
  shows "grows db (snd (transaction f db))"
  by (rule transaction_inv [where P = "grows db"]) (simp_all add: assms)

lemma create_grows: "grows db (snd (supervisor_create c g spec now db))"
proof -
  have "grows db (snd (transaction (create_graph_tx c g spec now) db))"
  proof (rule transaction_grows)
    fix r db' assume "create_graph_tx c g spec now db = Inr (r, db')"
    then show "grows db db'"
      by (auto simp: create_graph_tx_def Let_def chain_Inr split: if_splits elim!: insert_node_Inr intro!: more_grows)
  qed
  then show ?thesis by (simp add: supervisor_create_def create_graph_def raise_def)
qed

lemma put_waiting_steady:
  assumes "graph_ok c db" "p \<in> set (ag_nodes db)" "no_node_id p = parent"
  shows "steady db (put_waiting parent now p db)"
proof (cases "no_status p \<in> {NodeReady, NodeInterrupted}")
  case True
  have "n = p" if "n \<in> set (ag_nodes db)" "no_node_id n = parent" for n
    using key_unique [OF coherentD(1) [OF graph_okD(1) [OF assms(1)]] that(1) assms(2)] that(2) assms(3) by simp
  with True have "quietly db (set_node (\<lambda>n. no_node_id n = parent) (move_node NodeWaiting now) db)"
    by (intro quietly_set_node) (auto intro!: quiet_moves(1))
  then have "steady db (set_node (\<lambda>n. no_node_id n = parent) (move_node NodeWaiting now) db)"
    by (rule quietly_steady) (simp_all add: set_node_def)
  with True show ?thesis unfolding put_waiting_def by (simp only: if_True)
qed (simp add: put_waiting_def)

lemma spawn_grows: "graph_ok c db \<Longrightarrow> grows db (snd (supervisor_spawn c i gid parent spec ready now db))"
proof -
  assume ok: "graph_ok c db"
  have "grows db (snd (transaction (spawn_child_tx c i gid parent spec ready now) db))"
  proof (rule transaction_grows)
    fix child db' assume tx: "spawn_child_tx c i gid parent spec ready now db = Inr (child, db')"
    from tx show "grows db db'"
    proof (cases rule: spawn_tx_cases)
      case (1 g p ledger db2 edges)
      from find_in_set [OF 1(3)] have p: "p \<in> set (ag_nodes db)" "no_node_id p = parent" by (simp_all add: node_in_graph_def)
      from 1(8) have "grows (put_waiting parent now p db) db2"
        by (elim insert_node_Inr) (auto intro!: more_grows)
      moreover have "grows db2 db'" using insert_edges_Inr(1) [OF 1(9)] 1(10) by (auto intro!: more_grows)
      ultimately show ?thesis using steady_grows [OF put_waiting_steady [OF ok p, of now]] by (blast intro: grows_trans)
    qed
  qed
  then show ?thesis by (auto simp: supervisor_spawn_def spawn_child_def split: sum.splits)
qed

lemma side_steady:
  "steady db (snd (send_mail c mid gid s r kind p cid now db))" "steady db (snd (receive_mail c i now db))"
  "steady db (snd (acknowledge_mail mid i now db))" "steady db (snd (acquire_lock gid i t now lease db))"
  "steady db (release_locks i db)" "steady db (snd (acquire_root_write_scope run tenant u now lease db))"
  "steady db (release_write_scope owner u db)" "steady db (snd (list_locks i now db))"
  "steady db (snd (owns_write_scope owner us now db))" "steady db (snd (renew_write_scope owner us now lease db))"
  "steady db (snd (save_node_checkpoint c kid i st now db))"
proof -
  show "steady db (snd (send_mail c mid gid s r kind p cid now db))" unfolding send_mail_def
    by (rule transaction_steady, erule send_tx_cases, auto simp: insert_mail_def intro!: same_steady split: if_splits)
  show "steady db (snd (receive_mail c i now db))" unfolding receive_mail_def
    by (rule transaction_steady, drule receive_tx_Inr, simp add: same_steady)
  show "steady db (snd (acknowledge_mail mid i now db))" unfolding acknowledge_mail_def
    by (rule transaction_steady, drule acknowledge_tx_Inr, simp add: same_steady)
  have "steady db (snd (transaction (acquire_lock_tx gid i t now lease) db))"
    by (rule transaction_steady) (auto simp: acquire_lock_tx_def Let_def drop_expired_locks_def intro!: same_steady
        split: if_splits option.splits)
  then show "steady db (snd (acquire_lock gid i t now lease db))" by (simp add: acquire_lock_def raise_def)
  have "steady db (snd (transaction (acquire_root_write_scope_tx run tenant u now lease) db))"
    by (rule transaction_steady) (auto simp: acquire_root_write_scope_tx_def Let_def drop_expired_locks_def
        intro!: same_steady split: if_splits option.splits)
  then show "steady db (snd (acquire_root_write_scope run tenant u now lease db))"
    by (simp add: acquire_root_write_scope_def raise_def)
  show "steady db (snd (save_node_checkpoint c kid i st now db))" unfolding save_node_checkpoint_def
    by (rule transaction_steady) (auto simp: save_node_checkpoint_tx_def Let_def intro!: same_steady
        split: if_splits option.splits)
qed (auto simp: release_locks_def drop_locks_of_def release_write_scope_def list_locks_def owns_write_scope_def
    renew_write_scope_def drop_expired_locks_def Let_def intro!: same_steady split: prod.splits)

fun adds_node :: "gs_op \<Rightarrow> bool" where
  "adds_node (GsCreate g spec) = True"
| "adds_node (GsSpawn i gid parent spec ready) = True"
| "adds_node _ = False"

lemma gs_step_steady:
  assumes "graph_ok c db" "\<not> adds_node op"
  shows "steady db (gs_step c now op db)"
  using assms
  by (cases op) (simp_all add: activate_steady lease_steady fail_steady interrupt_steady complete_steady cancel_steady
      side_steady publish_terminal_def raise_def finish_steady split: option.splits)

lemma gs_step_grows:
  assumes "graph_ok c db"
  shows "grows db (gs_step c now op db)"
proof (cases op)
  case (GsCreate g spec)
  then show ?thesis by (simp add: create_grows)
next
  case (GsSpawn i gid parent spec ready)
  with assms show ?thesis by (simp add: spawn_grows)
qed (rule steady_grows, rule gs_step_steady [OF assms], simp)+

section \<open>Runs\<close>

text \<open>Whatever follows a state only adds to it.\<close>

lemma run_grows:
  assumes "opens_sealed c" "graph_ok c db" "timely gs_legal start ops"
  shows "graph_ok c (timed_run (gs_step c) ops db)" "grows db (timed_run (gs_step c) ops db)"
proof -
  have inv: "graph_inv c start db" using assms(1,2) by (simp add: graph_inv_def)
  show "graph_ok c (timed_run (gs_step c) ops db)"
    using agents.run_inv [OF inv assms(3)] by (simp add: graph_inv_def)
  show "grows db (timed_run (gs_step c) ops db)"
    by (rule agents.run_keeps [where P = "grows db", OF inv assms(3) grows_refl])
      (auto simp: graph_inv_def intro: grows_trans gs_step_grows)
qed

end
