(* ===== verification/GraphAuthority.thy ===== *)
theory GraphAuthority
  imports GraphHistory
begin

text \<open>
  What a node row carries: the specification it was spawned with, which every later read returns, and
  which is within the authority of the parent's specification.
\<close>

section \<open>The specification in a row\<close>

definition row_node :: "node_spec \<Rightarrow> string list \<Rightarrow> 'b node_row \<Rightarrow> agent_node" where
  "row_node spec deps n = \<lparr>an_node_id = no_node_id n, an_graph_id = no_graph_id n,
     an_parent_node_id = no_parent_node_id n, an_canonical_path = no_canonical_path n,
     an_spec = spec\<lparr>ns_dependency_node_ids := deps\<rparr>, an_depth = no_depth n, an_status = no_status n,
     an_attempt_count = no_attempt_count n, an_lease_owner = no_lease_owner n,
     an_lease_expires_at_ms = no_lease_expires_at_ms n\<rparr>"

definition holds_spec :: "'b cipher \<Rightarrow> node_spec \<Rightarrow> 'b node_row \<Rightarrow> bool" where
  "holds_spec c spec n \<longleftrightarrow> no_role n = ns_role spec \<and> (\<forall>deps. node_of_row c deps n = Inr (row_node spec deps n))"

lemma holds_core:
  assumes "node_core m = node_core n" "holds_spec c spec n"
  shows "holds_spec c spec m"
proof -
  have fields: "no_node_id m = no_node_id n" "no_graph_id m = no_graph_id n" "no_parent_node_id m = no_parent_node_id n"
    "no_canonical_path m = no_canonical_path n" "no_name m = no_name n" "no_role m = no_role n"
    "no_task_brief m = no_task_brief n" "no_expected_output_type m = no_expected_output_type n"
    "no_context_mode m = no_context_mode n" "no_tool_ids m = no_tool_ids n" "no_budget m = no_budget n"
    "no_deadline_ms m = no_deadline_ms n" "no_depth m = no_depth n" "no_requires_write_scope m = no_requires_write_scope n"
    using assms(1) by (cases n; cases m; simp add: node_core_def)+
  have "node_of_row c deps m = map_sum id (\<lambda>x. x\<lparr>an_status := no_status m, an_attempt_count := no_attempt_count m,
      an_lease_owner := no_lease_owner m, an_lease_expires_at_ms := no_lease_expires_at_ms m\<rparr>) (node_of_row c deps n)" for deps
    by (simp add: node_of_row_def node_budgets_def fields chain_def split: sum.splits)
  with assms(2) show ?thesis by (simp add: holds_spec_def row_node_def fields)
qed

lemma check_node_spec_deps: "node_spec_ok spec \<Longrightarrow> check_node_spec (spec\<lparr>ns_dependency_node_ids := deps\<rparr>) =
    Inr (spec\<lparr>ns_dependency_node_ids := deps\<rparr>)"
  unfolding node_spec_ok_def check_node_spec_Inr by simp

lemma new_node_holds:
  assumes "opens_sealed c" "node_spec_ok spec"
  shows "holds_spec c spec (new_node_row c i gid parent path spec depth st now)"
proof -
  let ?n = "new_node_row c i gid parent path spec depth st now"
  have "node_of_row c deps ?n = Inr (row_node spec deps ?n)" for deps
  proof -
    have spec: "\<lparr>ns_name = ns_name spec, ns_role = ns_role spec, ns_task_brief = ns_task_brief spec,
         ns_expected_output_type = ns_expected_output_type spec, ns_tool_ids = ns_tool_ids spec,
         ns_budgets = ns_budgets spec, ns_context_mode = ns_context_mode spec, ns_deadline_ms = ns_deadline_ms spec,
         ns_dependency_node_ids = deps, ns_requires_write_scope = ns_requires_write_scope spec\<rparr>
      = spec\<lparr>ns_dependency_node_ids := deps\<rparr>" by simp
    have "node_budgets c ?n = Inr (ns_budgets spec)" by (rule new_node_budgets [OF assms(1)])
    then show ?thesis using assms(1) check_node_spec_deps [OF assms(2), of deps]
      unfolding node_of_row_def by (simp add: new_node_row_def json_at_def json_get_def spec row_node_def)
  qed
  then show ?thesis by (simp add: holds_spec_def new_node_row_def)
qed

section \<open>Authority\<close>

definition budget_of :: "node_spec \<Rightarrow> string \<Rightarrow> int" where
  "budget_of spec k = (case map_of (ns_budgets spec) k of None \<Rightarrow> 0 | Some v \<Rightarrow> v)"

definition within :: "node_spec \<Rightarrow> node_spec \<Rightarrow> bool" where
  "within p s \<longleftrightarrow> can_delegate (ns_role p) (ns_role s) \<and> set (ns_tool_ids s) \<subseteq> set (ns_tool_ids p) \<and>
     (\<forall>k. budget_of s k \<le> budget_of p k)"

definition parent_allows :: "'b cipher \<Rightarrow> 'b node_row list \<Rightarrow> string option \<Rightarrow> node_spec \<Rightarrow> bool" where
  "parent_allows c ns parent spec \<longleftrightarrow> (case parent of None \<Rightarrow> True
     | Some p \<Rightarrow> \<exists>q \<in> set ns. no_node_id q = p \<and> (\<exists>ps. node_spec_ok ps \<and> holds_spec c ps q \<and> within ps spec))"

definition authorized :: "'b cipher \<Rightarrow> 'b node_row list \<Rightarrow> 'b node_row \<Rightarrow> bool" where
  "authorized c ns n \<longleftrightarrow>
     (\<exists>spec. node_spec_ok spec \<and> holds_spec c spec n \<and> parent_allows c ns (no_parent_node_id n) spec)"

definition authority_ok :: "'b cipher \<Rightarrow> 'b ag_db \<Rightarrow> bool" where
  "authority_ok c db \<longleftrightarrow> (\<forall>n \<in> set (ag_nodes db). authorized c (ag_nodes db) n)"

lemma parent_allows_kept:
  assumes "parent_allows c ns parent spec" "\<And>q. q \<in> set ns \<Longrightarrow> \<exists>m \<in> set ns'. kept q m"
  shows "parent_allows c ns' parent spec"
proof (cases parent)
  case (Some p)
  with assms(1) obtain q ps where q: "q \<in> set ns" "no_node_id q = p" "node_spec_ok ps" "holds_spec c ps q" "within ps spec"
    by (auto simp: parent_allows_def)
  from assms(2) [OF q(1)] obtain m where m: "m \<in> set ns'" "node_core m = node_core q" unfolding kept_def by blast
  have "no_node_id m = p" "holds_spec c ps m" using node_core_fields(1) [OF m(2)] holds_core [OF m(2) q(4)] q(2) by simp_all
  with Some m(1) q(3,5) show ?thesis by (auto simp: parent_allows_def)
qed (simp add: parent_allows_def)

lemma authorized_kept:
  assumes "authorized c ns n" "kept n m" "\<And>q. q \<in> set ns \<Longrightarrow> \<exists>m \<in> set ns'. kept q m"
  shows "authorized c ns' m"
proof -
  from assms(1) obtain spec where s: "node_spec_ok spec" "holds_spec c spec n" "parent_allows c ns (no_parent_node_id n) spec"
    by (auto simp: authorized_def)
  from assms(2) have core: "node_core m = node_core n" by (simp add: kept_def)
  have "parent_allows c ns' (no_parent_node_id n) spec" by (rule parent_allows_kept [OF s(3) assms(3)])
  with s(1) holds_core [OF core s(2)] node_core_fields(3) [OF core] show ?thesis
    unfolding authorized_def by (intro exI [of _ spec]) simp
qed

lemma budget_nonneg: "node_spec_ok spec \<Longrightarrow> 0 \<le> budget_of spec k"
  using node_spec_budgets [of spec k] by (auto simp: budget_of_def dest: map_of_SomeD split: option.splits)

lemma authorize_within:
  assumes "authorize_child gid p spec = Inr u" "node_spec_ok spec" "node_spec_ok ps" "an_spec p = ps\<lparr>ns_dependency_node_ids := deps\<rparr>"
  shows "within ps spec \<and> an_graph_id p = gid"
proof -
  from assms(1,4) have a: "an_graph_id p = gid" "can_delegate (ns_role ps) (ns_role spec)"
    "set (ns_tool_ids spec) \<subseteq> set (ns_tool_ids ps)" "over_budget (an_spec p) spec = None"
    by (auto simp: authorize_child_def list_all_iff split: if_splits option.splits)
  have "budget_of spec k \<le> budget_of ps k" for k
  proof (cases "map_of (ns_budgets spec) k")
    case None
    then show ?thesis using budget_nonneg [OF assms(3), of k] by (simp add: budget_of_def)
  next
    case (Some v)
    then have "(k, v) \<in> set (ns_budgets spec)" by (rule map_of_SomeD)
    with a(4) assms(4) Some show ?thesis
      by (auto simp: over_budget_def find_None_iff budget_of_def not_less)
  qed
  with a show ?thesis by (simp add: within_def)
qed

lemma authority_steady:
  assumes "authority_ok c db" "steady db db'"
  shows "authority_ok c db'"
  unfolding authority_ok_def
proof
  fix m assume "m \<in> set (ag_nodes db')"
  with assms(2) obtain n where n: "n \<in> set (ag_nodes db)" "kept n m" unfolding steady_def by blast
  then have "authorized c (ag_nodes db) n" using assms(1) by (simp add: authority_ok_def)
  then show "authorized c (ag_nodes db') m"
    by (rule authorized_kept [OF _ n(2) growsD(1) [OF steady_grows [OF assms(2)]]])
qed

lemma authority_append:
  assumes "authority_ok c db" "authorized c (ag_nodes db) n" "ag_nodes db' = ag_nodes db @ [n]"
  shows "authority_ok c db'"
  unfolding authority_ok_def
proof
  fix m assume "m \<in> set (ag_nodes db')"
  then have "authorized c (ag_nodes db) m" using assms by (auto simp: authority_ok_def)
  then show "authorized c (ag_nodes db') m"
    by (rule authorized_kept [OF _ kept_refl]) (auto simp: assms(3) intro: kept_refl)
qed

lemma create_authority:
  assumes "authority_ok c db" "opens_sealed c" "node_spec_ok spec"
  shows "authority_ok c (snd (supervisor_create c g spec now db))"
proof -
  have "authority_ok c (snd (create_graph c g spec now db))" unfolding create_graph_def
  proof (rule transaction_inv [where P = "authority_ok c", OF assms(1)])
    fix r db' assume "create_graph_tx c g spec now db = Inr (r, db')"
    then obtain db0 where ins: "insert_node (new_node_row c (gp_root_node_id g) (gp_graph_id g) None ''/root'' spec 1 NodeReady now)
        (ns_budgets spec) now db0 = Inr db'" and db0: "ag_nodes db0 = ag_nodes db"
      by (auto simp: create_graph_tx_def Let_def chain_Inr split: if_splits)
    let ?n = "new_node_row c (gp_root_node_id g) (gp_graph_id g) None ''/root'' spec 1 NodeReady now"
    have "authorized c (ag_nodes db) ?n"
      using new_node_holds [OF assms(2,3)] assms(3) by (auto simp: authorized_def parent_allows_def)
    moreover have "ag_nodes db' = ag_nodes db @ [?n]" using ins by (elim insert_node_Inr) (simp add: db0)
    ultimately show "authority_ok c db'" by (rule authority_append [OF assms(1)])
  qed
  with assms(1) show ?thesis by (simp add: supervisor_create_def raise_def)
qed

lemma get_node_row:
  assumes "authority_ok c db" "get_node c i db = Inr x"
  obtains n spec where "n \<in> set (ag_nodes db)" "no_node_id n = i" "node_spec_ok spec" "holds_spec c spec n"
    "x = row_node spec (dependencies i db) n"
proof -
  from assms(2) obtain n where n: "find_node i db = Some n" "node_of_row c (dependencies i db) n = Inr x"
    by (auto simp: get_node_def split: option.splits)
  from find_in_set [OF n(1) [unfolded find_node_def]] have mem: "n \<in> set (ag_nodes db)" "no_node_id n = i" by simp_all
  with assms(1) obtain spec where s: "node_spec_ok spec" "holds_spec c spec n"
    by (auto simp: authority_ok_def authorized_def)
  then have "x = row_node spec (dependencies i db) n" using n(2) by (simp add: holds_spec_def)
  with that mem s show ?thesis by blast
qed

lemma spawn_authority:
  assumes "authority_ok c db" "graph_ok c db" "opens_sealed c" "node_spec_ok spec"
  shows "authority_ok c (snd (supervisor_spawn c i gid parent spec ready now db))"
proof (cases "chain (get_node c parent db) (\<lambda>p. authorize_child gid p spec)")
  case (Inl e)
  with assms(1) show ?thesis by (simp add: supervisor_spawn_def)
next
  case (Inr u)
  then obtain x where x: "get_node c parent db = Inr x" "authorize_child gid x spec = Inr ()" by (auto simp: chain_Inr)
  from get_node_row [OF assms(1) x(1)] obtain q ps where q: "q \<in> set (ag_nodes db)" "no_node_id q = parent"
    "node_spec_ok ps" "holds_spec c ps q" "x = row_node ps (dependencies parent db) q" .
  have allowed: "within ps spec"
    using authorize_within [OF x(2) assms(4) q(3)] q(5) by (simp add: row_node_def)
  have "authority_ok c (snd (spawn_child c i gid parent spec ready now db))" unfolding spawn_child_def
  proof (rule transaction_inv [where P = "authority_ok c", OF assms(1)])
    fix child db' assume tx: "spawn_child_tx c i gid parent spec ready now db = Inr (child, db')"
    then show "authority_ok c db'"
    proof (cases rule: spawn_tx_cases)
      case (1 g p ledger db2 edges)
      from find_in_set [OF 1(3)] have p: "p \<in> set (ag_nodes db)" "no_node_id p = parent" by (simp_all add: node_in_graph_def)
      let ?n = "new_node_row c i gid (Some parent) (no_canonical_path p @ ''/'' @ ns_name spec) spec
        (no_depth p + 1) (if ready then NodeReady else NodeCreated) now"
      note st = put_waiting_steady [OF assms(2) p, of now]
      have "parent_allows c (ag_nodes db) (Some parent) spec" using q allowed by (auto simp: parent_allows_def)
      then have "parent_allows c (ag_nodes (put_waiting parent now p db)) (Some parent) spec"
        by (rule parent_allows_kept) (rule growsD(1) [OF steady_grows [OF st]])
      then have "authorized c (ag_nodes (put_waiting parent now p db)) ?n"
        using new_node_holds [OF assms(3,4)] assms(4) by (auto simp: authorized_def)
      moreover have "ag_nodes db' = ag_nodes (put_waiting parent now p db) @ [?n]"
        using 1(8) 1(10) by (elim insert_node_Inr) simp
      ultimately show ?thesis by (rule authority_append [OF authority_steady [OF assms(1) st]])
    qed
  qed
  with Inr show ?thesis by (simp add: supervisor_spawn_def)
qed

lemma gs_step_authority:
  assumes "authority_ok c db" "graph_inv c now' db" "gs_legal op"
  shows "authority_ok c (gs_step c now op db)"
proof (cases "adds_node op")
  case False
  with assms show ?thesis by (intro authority_steady [OF assms(1) gs_step_steady]) (simp_all add: graph_inv_def)
next
  case True
  with assms show ?thesis
    by (cases op) (simp_all add: create_authority spawn_authority graph_inv_def)
qed

lemma agents_authority:
  assumes "opens_sealed c" "timely gs_legal start ops"
  shows "authority_ok c (timed_run (gs_step c) ops empty_graph_db)"
proof (rule agents.run_keeps [where P = "authority_ok c" and c = c])
  show "graph_inv c start empty_graph_db" using assms(1) by (simp add: graph_inv_def graph_ok_empty)
  show "authority_ok c empty_graph_db" by (simp add: authority_ok_def empty_graph_db_def)
qed (use assms(2) gs_step_authority in auto)

end
