(* ===== verification/GraphTree.thy ===== *)
theory GraphTree
  imports GraphAuthority
begin

text \<open>
  The subtree of a node: the recursive query of \<open>cancel_subtree\<close> against the relation it means, what a
  cancellation leaves behind, and the authority that shrinks from parent to child all the way down.
\<close>

inductive below :: "'b node_row list \<Rightarrow> string \<Rightarrow> string \<Rightarrow> bool" for rows i where
  self: "below rows i i"
| child: "below rows i p \<Longrightarrow> n \<in> set rows \<Longrightarrow> no_parent_node_id n = Some p \<Longrightarrow> below rows i (no_node_id n)"

definition below_any :: "'b node_row list \<Rightarrow> string set \<Rightarrow> string \<Rightarrow> bool" where
  "below_any rows S j \<longleftrightarrow> (\<exists>i \<in> S. below rows i j)"

lemma below_anyI: "i \<in> S \<Longrightarrow> below rows i j \<Longrightarrow> below_any rows S j"
  unfolding below_any_def by blast

lemma below_any_child:
  "below_any rows S p \<Longrightarrow> n \<in> set rows \<Longrightarrow> no_parent_node_id n = Some p \<Longrightarrow> below_any rows S (no_node_id n)"
  unfolding below_any_def by (blast intro: below.child)

lemma below_mono: "below rows i j \<Longrightarrow> set rows \<subseteq> set rows' \<Longrightarrow> below rows' i j"
  by (induction rule: below.induct) (auto intro: below.intros)

lemma below_trans: "below rows j k \<Longrightarrow> below rows i j \<Longrightarrow> below rows i k"
  by (induction rule: below.induct) (auto intro: below.child)

text \<open>One round of the queue: the head, and the rest with the children of the head.\<close>

lemma below_any_step:
  assumes "kids = {no_node_id n | n. n \<in> set rows \<and> no_parent_node_id n = Some i}"
    and "rest = filter (\<lambda>n. no_parent_node_id n \<noteq> Some i) rows"
  shows "below_any rows (insert i S) j \<longleftrightarrow> j = i \<or> below_any rest (S \<union> kids) j"
proof
  assume "below_any rows (insert i S) j"
  then obtain k where k: "below rows k j" "k \<in> insert i S" unfolding below_any_def by blast
  from k show "j = i \<or> below_any rest (S \<union> kids) j"
  proof (induction rule: below.induct)
    case self
    then show ?case by (auto intro: below_anyI below.self)
  next
    case (child p n)
    show ?case
    proof (cases "p = i")
      case True
      with child.hyps assms(1) have "no_node_id n \<in> kids" by blast
      then show ?thesis by (auto intro: below_anyI below.self)
    next
      case False
      with child.IH [OF child.prems] have "below_any rest (S \<union> kids) p" by blast
      moreover have "n \<in> set rest" using child.hyps False assms(2) by auto
      ultimately show ?thesis using child.hyps(3) by (blast intro: below_any_child)
    qed
  qed
next
  assume "j = i \<or> below_any rest (S \<union> kids) j"
  then consider "j = i" | k where "k \<in> S \<union> kids" "below rest k j" unfolding below_any_def by blast
  then show "below_any rows (insert i S) j"
  proof cases
    case 1
    then show ?thesis by (auto intro: below_anyI below.self)
  next
    case 2
    have b: "below rows k j" by (rule below_mono [OF 2(2)]) (auto simp: assms(2))
    show ?thesis
    proof (cases "k \<in> S")
      case True
      then show ?thesis by (intro below_anyI [OF _ b]) simp
    next
      case False
      with 2(1) assms(1) obtain n where "n \<in> set rows" "no_parent_node_id n = Some i" "k = no_node_id n" by blast
      then have "below rows i k" by (auto intro: below.intros)
      then show ?thesis by (intro below_anyI [OF _ below_trans [OF b]]) simp_all
    qed
  qed
qed

lemma descendants_below: "set (descendants queue rows) = {j. below_any rows (set queue) j}"
proof (induction queue rows rule: descendants.induct)
  case (1 rows)
  then show ?case by (simp add: below_any_def)
next
  case (2 i queue rows)
  let ?kids = "{no_node_id n | n. n \<in> set rows \<and> no_parent_node_id n = Some i}"
  have "set (queue @ map no_node_id (filter (\<lambda>n. no_parent_node_id n = Some i) rows)) = set queue \<union> ?kids" by auto
  with 2 have "set (descendants (i # queue) rows) =
      insert i {j. below_any (filter (\<lambda>n. no_parent_node_id n \<noteq> Some i) rows) (set queue \<union> ?kids) j}"
    by simp
  also have "\<dots> = {j. below_any rows (set (i # queue)) j}"
    using below_any_step [of ?kids rows i _ "set queue"] by auto
  finally show ?case .
qed

lemma subtree_below: "find_node i db \<noteq> None \<Longrightarrow> set (subtree_ids i db) = {j. below (ag_nodes db) i j}"
  by (auto simp add: subtree_ids_def descendants_below below_any_def simp del: descendants.simps)

text \<open>
  C29. Cancelling reaches the whole subtree: in every reachable state \<open>cancel_subtree\<close> of an existing
  node succeeds, returns exactly the node and its descendants, and leaves every one of them terminal;
  the nodes that were terminal before are unchanged.
\<close>

theorem cancel_subtree_cancels_descendants:
  assumes "opens_sealed c" "timely gs_legal start ops" "db = timed_run (gs_step c) ops empty_graph_db"
    and "find_node i db \<noteq> None"
  shows "\<exists>ids db'. cancel_subtree c i now db = (Inr ids, db') \<and> set ids = {j. below (ag_nodes db) i j} \<and>
    (\<forall>m \<in> set (ag_nodes db'). below (ag_nodes db) i (no_node_id m) \<longrightarrow> node_terminal (no_status m)) \<and>
    (\<forall>n \<in> set (ag_nodes db). node_terminal (no_status n) \<longrightarrow> n \<in> set (ag_nodes db'))"
proof -
  have ok: "graph_ok c db" using agents_run_ok [OF assms(1,2)] assms(3) by simp
  from cancel_subtree_tx_total [OF ok, of i now] obtain db' where db':
    "cancel_subtree_tx c i now db = Inr (subtree_ids i db, db')" "live_ids db' \<inter> set (subtree_ids i db) = {}" by blast
  then have run: "cancel_subtree c i now db = (Inr (subtree_ids i db), db')" by (simp add: cancel_subtree_def)
  have "steady db db'" using cancel_steady [OF ok, of i now] run by simp
  then have "n \<in> set (ag_nodes db')" if "n \<in> set (ag_nodes db)" "node_terminal (no_status n)" for n
    using growsD(1) [OF steady_grows that(1)] that(2) by (auto simp: kept_def)
  moreover have "node_terminal (no_status m)" if "m \<in> set (ag_nodes db')" "below (ag_nodes db) i (no_node_id m)" for m
    using that db'(2) unfolding subtree_below [OF assms(4)] live_ids_def by blast
  ultimately show ?thesis using run subtree_below [OF assms(4)] by blast
qed

section \<open>Authority down the tree\<close>

lemma within_tools: "within p s \<Longrightarrow> set (ns_tool_ids s) \<subseteq> set (ns_tool_ids p) \<and> (\<forall>k. budget_of s k \<le> budget_of p k)"
  by (simp add: within_def)

lemma below_specs:
  assumes "below (ag_nodes db) i j" "authority_ok c db" "distinct (map no_node_id (ag_nodes db))"
    and "a \<in> set (ag_nodes db)" "no_node_id a = i" "holds_spec c sa a" "b \<in> set (ag_nodes db)" "no_node_id b = j"
    and "holds_spec c sb b"
  shows "set (ns_tool_ids sb) \<subseteq> set (ns_tool_ids sa) \<and> (\<forall>k. budget_of sb k \<le> budget_of sa k)"
  using assms(1,7-9)
proof (induction arbitrary: b sb rule: below.induct)
  case self
  have same: "holds_spec c s n \<Longrightarrow> holds_spec c t n \<Longrightarrow> ns_tool_ids s = ns_tool_ids t \<and> ns_budgets s = ns_budgets t" for s t n
    by (cases s; cases t) (auto simp: holds_spec_def row_node_def)
  have "b = a" using key_unique [OF assms(3) self.prems(1) assms(4)] self.prems(2) assms(5) by simp
  with same [OF self.prems(3), of sa] assms(6) show ?case by (simp add: budget_of_def)
next
  case (child p n)
  have same: "holds_spec c s m \<Longrightarrow> holds_spec c t m \<Longrightarrow> ns_tool_ids s = ns_tool_ids t \<and> ns_budgets s = ns_budgets t" for s t m
    by (cases s; cases t) (auto simp: holds_spec_def row_node_def)
  have "b = n" using key_unique [OF assms(3) child.prems(1) child.hyps(2)] child.prems(2) by simp
  from child.hyps(2) assms(2) obtain spec where s: "holds_spec c spec n" "parent_allows c (ag_nodes db) (Some p) spec"
    unfolding authority_ok_def authorized_def child.hyps(3) [symmetric] by blast
  from s(2) obtain q ps where q: "q \<in> set (ag_nodes db)" "no_node_id q = p" "holds_spec c ps q" "within ps spec"
    by (auto simp: parent_allows_def)
  from child.IH [OF q(1-3)] within_tools [OF q(4)] same [OF s(1), of sb] child.prems(3) \<open>b = n\<close>
  show ?case by (auto simp: budget_of_def intro: order_trans)
qed

text \<open>
  C26. Authority only shrinks: in every reachable state a node reads back a specification whose tools
  are among the tools of each of its ancestors and whose budgets are within theirs.
\<close>

theorem descendants_within_authority:
  assumes "opens_sealed c" "timely gs_legal start ops" "db = timed_run (gs_step c) ops empty_graph_db"
    and "find_node i db \<noteq> None" "below (ag_nodes db) i j"
  shows "\<exists>a d. get_node c i db = Inr a \<and> get_node c j db = Inr d \<and>
    set (ns_tool_ids (an_spec d)) \<subseteq> set (ns_tool_ids (an_spec a)) \<and>
    (\<forall>k. budget_of (an_spec d) k \<le> budget_of (an_spec a) k)"
proof -
  have auth: "authority_ok c db" and ok: "graph_ok c db"
    using agents_authority [OF assms(1,2)] agents_run_ok [OF assms(1,2)] assms(3) by simp_all
  have read: "\<exists>n spec. n \<in> set (ag_nodes db) \<and> no_node_id n = k \<and> holds_spec c spec n \<and>
      get_node c k db = Inr (row_node spec (dependencies k db) n)" if "find_node k db \<noteq> None" for k
  proof -
    from that obtain n where n: "find_node k db = Some n" by blast
    from find_in_set [OF n [unfolded find_node_def]] have mem: "n \<in> set (ag_nodes db)" "no_node_id n = k" by simp_all
    with auth obtain spec where "holds_spec c spec n" by (auto simp: authority_ok_def authorized_def)
    with n mem show ?thesis by (auto simp: get_node_def holds_spec_def)
  qed
  have "find_node j db \<noteq> None"
    using assms(5,4) by (cases rule: below.cases) (auto simp: find_node_def find_None_iff)
  from read [OF this] obtain b sb where b: "b \<in> set (ag_nodes db)" "no_node_id b = j" "holds_spec c sb b"
    "get_node c j db = Inr (row_node sb (dependencies j db) b)" by blast
  from read [OF assms(4)] obtain a sa where a: "a \<in> set (ag_nodes db)" "no_node_id a = i" "holds_spec c sa a"
    "get_node c i db = Inr (row_node sa (dependencies i db) a)" by blast
  from below_specs [OF assms(5) auth coherentD(1) [OF graph_okD(1) [OF ok]] a(1-3) b(1-3)] a(4) b(4)
  show ?thesis by (simp add: row_node_def budget_of_def)
qed

end
