(* ===== verification/GraphProps.thy ===== *)
theory GraphProps
  imports GraphTree
begin

text \<open>
  What the agent graph guarantees over whole runs: budgets, limits, dependencies, the finality of
  terminal states, and what a blocked dependency does to the nodes behind it.
\<close>

lemma node_id_unique:
  "graph_ok c db \<Longrightarrow> n \<in> set (ag_nodes db) \<Longrightarrow> m \<in> set (ag_nodes db) \<Longrightarrow> no_node_id n = no_node_id m \<Longrightarrow> n = m"
  by (rule key_unique [OF coherentD(1) [OF graph_okD(1)]])

lemma graph_id_unique:
  "graph_ok c db \<Longrightarrow> g \<in> set (ag_graphs db) \<Longrightarrow> h \<in> set (ag_graphs db) \<Longrightarrow> gr_graph_id g = gr_graph_id h \<Longrightarrow> g = h"
  using graph_okD(2) [of c db] by (intro key_unique [of gr_graph_id "ag_graphs db"]) (simp_all add: forest_ok_def)

section \<open>Budgets, limits and dependencies\<close>

text \<open>
  C22. The budget ledger is exact: in every reachable state the reserved part of a cell is what the live
  children of its node hold of that budget, and never more than the maximum of the cell; a child gives
  back what it held when it completes, fails, is blocked or cancelled, once.
\<close>

theorem child_budgets_reserved:
  assumes "opens_sealed c" "timely gs_legal start ops" "db = timed_run (gs_step c) ops empty_graph_db"
    and "b \<in> set (ag_ledger db)"
  shows "lg_reserved b = held c (ag_nodes db) (lg_graph_id b) (lg_node_id b) (lg_budget_kind b) \<and>
    0 \<le> lg_reserved b \<and> lg_reserved b \<le> lg_maximum b"
proof -
  have "ledger_exact c db" using agents_run_ok [OF assms(1,2)] assms(3) by (simp add: graph_ok_def coherent_def)
  moreover have "0 \<le> held c (ag_nodes db) (lg_graph_id b) (lg_node_id b) (lg_budget_kind b)"
    by (rule held_nonneg) (use agents_run_ok [OF assms(1,2)] assms(3) in \<open>simp add: graph_ok_def coherent_def\<close>)
  ultimately show ?thesis using assms(4) by (auto simp: ledger_exact_def cell_exact_def)
qed

text \<open>
  A graph stays within its limits: in every reachable state a graph has at most \<open>max_nodes\<close> nodes, of
  which at most \<open>max_concurrency\<close> run, none of them deeper than \<open>max_depth\<close>.
\<close>

theorem graph_limits_hold:
  assumes "opens_sealed c" "timely gs_legal start ops" "db = timed_run (gs_step c) ops empty_graph_db"
    and "g \<in> set (ag_graphs db)"
  shows "int (count_where (\<lambda>n. no_graph_id n = gr_graph_id g) (ag_nodes db)) \<le> gr_max_nodes g \<and>
    int (running_count (gr_graph_id g) db) \<le> gr_max_concurrency g \<and>
    (\<forall>n \<in> set (ag_nodes db). no_graph_id n = gr_graph_id g \<longrightarrow> no_depth n \<le> gr_max_depth g)"
proof -
  have ok: "graph_ok c db" using agents_run_ok [OF assms(1,2)] assms(3) by simp
  note f = graph_okD(2) [OF ok, unfolded forest_ok_def]
  have "no_depth n \<le> gr_max_depth g" if n: "n \<in> set (ag_nodes db)" "no_graph_id n = gr_graph_id g" for n
  proof -
    from f n(1) obtain h where h: "h \<in> set (ag_graphs db)" "gr_graph_id h = no_graph_id n" "no_depth n \<le> gr_max_depth h"
      by (auto simp: placed_def)
    with graph_id_unique [OF ok h(1) assms(4)] n(2) show ?thesis by simp
  qed
  moreover have "within_graph_limits db g" using f assms(4) by blast
  ultimately show ?thesis by (simp add: within_graph_limits_def in_graph_def [abs_def])
qed

text \<open>
  C23. No node starts before its dependencies: in every reachable state, a node that runs or has
  completed depends only on completed nodes of its own graph.
\<close>

theorem dependencies_completed:
  assumes "opens_sealed c" "timely gs_legal start ops" "db = timed_run (gs_step c) ops empty_graph_db"
    and "n \<in> set (ag_nodes db)" "no_status n = NodeRunning \<or> no_status n = NodeCompleted"
    and "e \<in> set (ag_edges db)" "ed_dependent_node_id e = no_node_id n"
  shows "\<exists>p \<in> set (ag_nodes db). no_node_id p = ed_predecessor_node_id e \<and> no_graph_id p = no_graph_id n \<and>
    no_status p = NodeCompleted"
proof -
  have ok: "graph_ok c db" using agents_run_ok [OF assms(1,2)] assms(3) by simp
  note e = coherentD(4) [OF graph_okD(1) [OF ok]]
  from edges_okD(2) [OF e assms(6)] obtain p where p: "p \<in> set (ag_nodes db)" "no_node_id p = ed_predecessor_node_id e"
    "no_graph_id p = ed_graph_id e" by blast
  from edges_okD(1) [OF e assms(6)] obtain m where m: "m \<in> set (ag_nodes db)" "no_node_id m = ed_dependent_node_id e"
    "no_graph_id m = ed_graph_id e" by blast
  have "m = n" using node_id_unique [OF ok m(1) assms(4)] m(2) assms(7) by simp
  moreover have "no_status p = NodeCompleted"
    by (rule deps_okD [OF graph_okD(3) [OF ok] assms(4) _ assms(6,7) p(1,2)]) (use assms(5) in \<open>simp add: started_def\<close>)
  ultimately show ?thesis using p m by auto
qed

section \<open>Finality\<close>

text \<open>
  Terminal is final: once a node is completed, failed, blocked or cancelled, or a graph is terminal,
  its row never changes again, whatever operations follow.
\<close>

theorem terminal_is_final:
  assumes "opens_sealed c" "timely gs_legal start ops" "db = timed_run (gs_step c) ops empty_graph_db"
    and "timely gs_legal later ops2"
  shows "(\<forall>n \<in> set (ag_nodes db). node_terminal (no_status n) \<longrightarrow> n \<in> set (ag_nodes (timed_run (gs_step c) ops2 db))) \<and>
    (\<forall>g \<in> set (ag_graphs db). gr_status g \<noteq> GraphActive \<longrightarrow> g \<in> set (ag_graphs (timed_run (gs_step c) ops2 db)))"
proof -
  have ok: "graph_ok c db" using agents_run_ok [OF assms(1,2)] assms(3) by simp
  note gr = run_grows(2) [OF assms(1) ok assms(4)]
  show ?thesis using growsD(1,3) [OF gr] by (auto simp: kept_def graph_kept_def)
qed

text \<open>
  C28. A dead dependency is a dead end: when a node depends on one that failed, was blocked or was
  cancelled, then whatever operations follow it never runs and never completes. Only the direct
  dependents are marked blocked (\<open>_block_dependents\<close>), so the node of a longer chain waits for ever.
\<close>

theorem dead_dependency_starves:
  assumes "opens_sealed c" "timely gs_legal start ops" "db = timed_run (gs_step c) ops empty_graph_db"
    and "e \<in> set (ag_edges db)" "p \<in> set (ag_nodes db)" "no_node_id p = ed_predecessor_node_id e"
    and "no_status p \<in> {NodeFailed, NodeBlocked, NodeCancelled}" "timely gs_legal later ops2"
    and "m \<in> set (ag_nodes (timed_run (gs_step c) ops2 db))" "no_node_id m = ed_dependent_node_id e"
  shows "no_status m \<noteq> NodeRunning \<and> no_status m \<noteq> NodeCompleted"
proof -
  have ok: "graph_ok c db" using agents_run_ok [OF assms(1,2)] assms(3) by simp
  let ?db = "timed_run (gs_step c) ops2 db"
  note ok' = run_grows(1) [OF assms(1) ok assms(8)] and gr = run_grows(2) [OF assms(1) ok assms(8)]
  have "p \<in> set (ag_nodes ?db)" using growsD(1) [OF gr assms(5)] assms(7) by (auto simp: kept_def)
  then have "no_status p = NodeCompleted" if "started (no_status m)"
    by (rule deps_okD [OF graph_okD(3) [OF ok'] assms(9) that growsD(2) [OF gr assms(4)] assms(10) [symmetric] _ assms(6)])
  with assms(7) show ?thesis by (auto simp: started_def)
qed

section \<open>Progress\<close>

lemma ready_rows_count:
  "0 \<le> cap \<Longrightarrow> int (length (ready_rows gid now cap db)) =
     min cap (int (length (filter (node_leasable gid now db) (ag_nodes db))))"
  by (auto simp: ready_rows_def min_def)

lemma decode_leased:
  assumes "authority_ok c db" "\<And>r. r \<in> set rows \<Longrightarrow> r \<in> set (ag_nodes db)"
  shows "\<exists>ns. decode_all (\<lambda>r. node_with_lease c worker ex (deps r) r) rows = Inr ns \<and>
    map an_node_id ns = map no_node_id rows"
  using assms(2)
proof (induction rows)
  case (Cons r rows)
  then obtain ns where ns: "decode_all (\<lambda>r. node_with_lease c worker ex (deps r) r) rows = Inr ns"
    "map an_node_id ns = map no_node_id rows" by auto
  have "r \<in> set (ag_nodes db)" using Cons.prems by simp
  then obtain spec where "holds_spec c spec r" using assms(1) unfolding authority_ok_def authorized_def by blast
  then have r: "node_of_row c (deps r) r = Inr (row_node spec (deps r) r)" by (simp add: holds_spec_def)
  have "\<exists>x. node_with_lease c worker ex (deps r) r = Inr x \<and> an_node_id x = no_node_id r"
    by (simp add: node_with_lease_def r) (simp add: row_node_def)
  with ns show ?case by auto
qed simp

text \<open>
  Leasing makes progress: in every reachable state a call of \<open>lease_ready\<close> on an active graph
  returns, after the expired leases are reclaimed, as many nodes as the free concurrency, the limit
  and the leasable nodes allow, and each of them then runs for this worker under the new lease.
\<close>

theorem lease_ready_progress:
  assumes "opens_sealed c" "timely gs_legal start ops" "db = timed_run (gs_step c) ops empty_graph_db"
    and "find_graph gid db = Some g" "gr_status g = GraphActive" "1 \<le> lease" "1 \<le> limit" "worker \<noteq> []"
    and "db1 = reclaim_nodes gid now db"
  shows "\<exists>ns db'. lease_ready c gid worker now lease limit db = (Inr ns, db') \<and>
    int (length ns) = min (max 0 (min limit (gr_max_concurrency g - int (running_count gid db1))))
      (int (length (filter (node_leasable gid now db1) (ag_nodes db1)))) \<and>
    (\<forall>x \<in> set ns. \<exists>m \<in> set (ag_nodes db'). running_for (an_node_id x) worker m \<and>
       no_lease_expires_at_ms m = Some (now + lease))"
proof -
  have auth: "authority_ok c db1" unfolding assms(9)
    by (rule authority_steady [OF _ reclaim_steady]) (use agents_authority [OF assms(1,2)] assms(3) in simp)
  have g: "find_graph gid db1 = Some g"
    using assms(4) by (simp add: assms(9) find_graph_def reclaim_nodes_def drop_expired_locks_def set_node_def)
  let ?cap = "max 0 (min limit (gr_max_concurrency g - int (running_count gid db1)))"
  let ?rows = "ready_rows gid now ?cap db1"
  have call: "lease_ready c gid worker now lease limit db = transaction (lease_ready_tx c gid worker now lease limit) db"
    using assms(6-8) by (simp add: lease_ready_def)
  show ?thesis
  proof (cases "?cap = 0")
    case True
    then have "lease_ready_tx c gid worker now lease limit db = Inr ([], db1)"
      by (simp add: lease_ready_tx_def Let_def assms(9) [symmetric] g assms(5))
    with call True show ?thesis by simp
  next
    case False
    from decode_leased [OF auth, of ?rows worker "now + lease" "\<lambda>r. dependencies (no_node_id r) db1"] obtain ns where
      ns: "decode_all (\<lambda>r. node_with_lease c worker (now + lease) (dependencies (no_node_id r) db1) r) ?rows = Inr ns"
        "map an_node_id ns = map no_node_id ?rows"
      using ready_rows_leasable by blast
    define db2 where "db2 = run_rows (map no_node_id ?rows) worker (now + lease) now db1"
    have "lease_ready_tx c gid worker now lease limit db = Inr (ns, db2)"
      using False ns(1) unfolding lease_ready_tx_def Let_def assms(9) [symmetric] g option.case run_rows_def db2_def
      by (simp add: assms(5))
    then have run: "lease_ready c gid worker now lease limit db = (Inr ns, db2)" by (simp add: call)
    have "length ns = length ?rows" using ns(2) by (metis length_map)
    then have len: "int (length ns) = min ?cap (int (length (filter (node_leasable gid now db1) (ag_nodes db1))))"
      by (simp only: ready_rows_count max.cobounded1)
    have "\<exists>m \<in> set (ag_nodes db2). running_for (an_node_id x) worker m \<and> no_lease_expires_at_ms m = Some (now + lease)"
      if "x \<in> set ns" for x
    proof -
      have "an_node_id x \<in> set (map no_node_id ?rows)" using that ns(2) by (metis image_eqI list.set_map)
      then obtain r where r: "r \<in> set ?rows" "an_node_id x = no_node_id r" by auto
      then have "r \<in> set (ag_nodes db1)" using ready_rows_leasable by blast
      with r have "run_node worker (now + lease) now r \<in> set (ag_nodes db2)"
        by (auto simp: db2_def run_rows_def set_node_def set_update_where intro!: image_eqI [of _ _ r])
      then show ?thesis by (rule bexI [rotated]) (simp add: running_for_def r(2))
    qed
    with run len show ?thesis by blast
  qed
qed

end
