(* ===== verification/GraphMail.thy ===== *)
theory GraphMail
  imports GraphHistory
begin

text \<open>
  The mailbox over whole runs: a row keeps its identity and contents, leaves the undelivered states by an
  acknowledgement of its recipient only, and is therefore received again and again until then.
\<close>

definition unacked :: "'b mail_row \<Rightarrow> bool" where
  "unacked m \<longleftrightarrow> ma_state m \<in> {MailPending, MailDelivered}"

definition carried :: "'b mail_row \<Rightarrow> 'b mail_row \<Rightarrow> bool" where
  "carried m m' \<longleftrightarrow> mail_core m' = mail_core m \<and> (unacked m \<longrightarrow> unacked m')"

definition mail_sealed :: "'b cipher \<Rightarrow> 'b ag_db \<Rightarrow> bool" where
  "mail_sealed c db \<longleftrightarrow> (\<forall>m \<in> set (ag_mailbox db). \<exists>p. ma_payload m = encrypt_json c p (mail_aad (ma_item_id m)))"

definition mail_steady :: "'b cipher \<Rightarrow> (string \<times> string) set \<Rightarrow> 'b ag_db \<Rightarrow> 'b ag_db \<Rightarrow> bool" where
  "mail_steady c acks db db' \<longleftrightarrow> (mail_sealed c db \<longrightarrow> mail_sealed c db') \<and>
     (\<forall>m \<in> set (ag_mailbox db). \<exists>m' \<in> set (ag_mailbox db'). mail_core m' = mail_core m \<and>
        ((ma_item_id m, ma_recipient_node_id m) \<notin> acks \<longrightarrow> carried m m'))"

lemma carried_refl [simp]: "carried m m"
  by (simp add: carried_def)

lemma mail_steady_same: "ag_mailbox db' = ag_mailbox db \<Longrightarrow> mail_steady c acks db db'"
  by (auto simp: mail_steady_def mail_sealed_def)

lemma mail_steady_append:
  "ag_mailbox db' = ag_mailbox db @ [m] \<Longrightarrow> \<exists>p. ma_payload m = encrypt_json c p (mail_aad (ma_item_id m)) \<Longrightarrow>
     mail_steady c acks db db'"
  by (auto simp: mail_steady_def mail_sealed_def intro!: bexI)

lemma mail_steady_update:
  assumes "ag_mailbox db' = update_where P f (ag_mailbox db)"
    and "\<And>m. P m \<Longrightarrow> mail_core (f m) = mail_core m \<and> ((ma_item_id m, ma_recipient_node_id m) \<notin> acks \<longrightarrow> carried m (f m))"
  shows "mail_steady c acks db db'"
  unfolding mail_steady_def
proof
  show "mail_sealed c db \<longrightarrow> mail_sealed c db'"
  proof
    assume sealed: "mail_sealed c db"
    show "mail_sealed c db'" unfolding mail_sealed_def
    proof
      fix m' assume "m' \<in> set (ag_mailbox db')"
      then obtain m where m: "m \<in> set (ag_mailbox db)" "m' = (if P m then f m else m)"
        unfolding assms(1) set_update_where by blast
      then have "mail_core m' = mail_core m" using assms(2) by simp
      from mail_core_fields(1,5) [OF this] m(1) sealed
      show "\<exists>p. ma_payload m' = encrypt_json c p (mail_aad (ma_item_id m'))" by (simp add: mail_sealed_def)
    qed
  qed
  show "\<forall>m \<in> set (ag_mailbox db). \<exists>m' \<in> set (ag_mailbox db'). mail_core m' = mail_core m \<and>
      ((ma_item_id m, ma_recipient_node_id m) \<notin> acks \<longrightarrow> carried m m')"
  proof
    fix m assume "m \<in> set (ag_mailbox db)"
    then have "(if P m then f m else m) \<in> set (ag_mailbox db')" unfolding assms(1) set_update_where by (rule image_eqI [OF refl])
    then show "\<exists>m' \<in> set (ag_mailbox db'). mail_core m' = mail_core m \<and>
        ((ma_item_id m, ma_recipient_node_id m) \<notin> acks \<longrightarrow> carried m m')"
      by (rule bexI [rotated]) (simp add: assms(2))
  qed
qed

lemma transaction_mail:
  assumes "\<And>a db'. f db = Inr (a, db') \<Longrightarrow> mail_steady c acks db db'"
  shows "mail_steady c acks db (snd (transaction f db))"
  by (rule transaction_inv [where P = "mail_steady c acks db"]) (simp_all add: assms mail_steady_same)

section \<open>Each operation\<close>

lemma send_mail_steady: "mail_steady c acks db (snd (send_mail c mid gid s r kind p cid now db))"
  unfolding send_mail_def
proof (rule transaction_mail)
  fix item db' assume "send_mail_tx c mid gid s r kind p cid now db = Inr (item, db')"
  then show "mail_steady c acks db db'"
  proof (cases rule: send_tx_cases)
    case (sent sequence)
    then have "ag_mailbox db' = ag_mailbox db @ [new_mail_row c mid gid s r kind p cid sequence now]"
      by (auto simp: insert_mail_def split: if_splits)
    then show ?thesis by (rule mail_steady_append) (auto simp: new_mail_row_def)
  qed (simp add: mail_steady_same)
qed

lemma receive_mail_steady: "mail_steady c acks db (snd (receive_mail c' i now db))"
  unfolding receive_mail_def
proof (rule transaction_mail)
  fix items db' assume "receive_mail_tx c' i now db = Inr (items, db')"
  from receive_tx_Inr [OF this] have "ag_mailbox db' = update_where
     (\<lambda>m. ma_recipient_node_id m = i \<and> ma_state m = MailPending) (deliver now) (ag_mailbox db)" by simp
  then show "mail_steady c acks db db'"
    by (rule mail_steady_update) (simp add: carried_def unacked_def, simp add: deliver_def)
qed

lemma acknowledge_mail_steady: "(mid, i) \<in> acks \<Longrightarrow> mail_steady c acks db (snd (acknowledge_mail mid i now db))"
  unfolding acknowledge_mail_def
proof (rule transaction_mail)
  fix u db' assume acks: "(mid, i) \<in> acks" and tx: "acknowledge_mail_tx mid i now db = Inr (u, db')"
  from acknowledge_tx_Inr [OF tx] have "ag_mailbox db' = update_where (\<lambda>m. ma_item_id m = mid \<and>
      ma_recipient_node_id m = i \<and> ma_state m \<in> {MailPending, MailDelivered, MailAcknowledged})
     (\<lambda>m. m\<lparr>ma_state := MailAcknowledged, ma_acknowledged_at_ms := Some now\<rparr>) (ag_mailbox db)" by simp
  then show "mail_steady c acks db db'" by (rule mail_steady_update) (auto simp: mail_core_def acks)
qed

lemma retire_mail:
  assumes "graph_ok c db"
  shows "ag_mailbox (snd (fail_node c i worker now db)) = ag_mailbox db"
    and "ag_mailbox (snd (complete_node c aid i worker d now db)) = ag_mailbox db"
    and "ag_mailbox (snd (cancel_subtree c i now db)) = ag_mailbox db"
    and "ag_mailbox (snd (interrupt_node i now db)) = ag_mailbox db"
proof -
  note inv = transaction_inv [where P = "\<lambda>db'. ag_mailbox db' = ag_mailbox db"]
  show "ag_mailbox (snd (fail_node c i worker now db)) = ag_mailbox db" unfolding fail_node_def
  proof (rule inv)
    fix a db' assume tx: "fail_node_tx c i worker now db = Inr (a, db')"
    then obtain n where "find (running_for i worker) (ag_nodes db) = Some n"
      by (auto simp: fail_node_tx_def split: option.splits)
    from fail_node_tx_total [OF assms this, of now] tx show "ag_mailbox db' = ag_mailbox db"
      using others_fields [of db' db] by auto
  qed simp
  show "ag_mailbox (snd (complete_node c aid i worker d now db)) = ag_mailbox db" unfolding complete_node_def
  proof (rule inv)
    fix a db' assume tx: "complete_node_tx c aid i worker d now db = Inr (a, db')"
    from complete_tx_cases [OF tx] obtain n where "find (running_for i worker) (ag_nodes db) = Some n"
      "\<not> list_ex (\<lambda>a. at_artifact_id a = aid) (ag_artifacts db)" .
    from complete_node_tx_total [OF assms this, of d now] tx show "ag_mailbox db' = ag_mailbox db" by auto
  qed simp
  show "ag_mailbox (snd (cancel_subtree c i now db)) = ag_mailbox db"
    unfolding cancel_subtree_def using cancel_subtree_tx_total [OF assms, of i now] by auto
  show "ag_mailbox (snd (interrupt_node i now db)) = ag_mailbox db" unfolding interrupt_node_def
    by (rule inv, simp, drule interrupt_tx_Inr) (simp add: drop_locks_of_def set_node_def)
qed

lemma silent_mail:
  "ag_mailbox (snd (supervisor_create c g spec now db)) = ag_mailbox db"
  "ag_mailbox (snd (supervisor_spawn c i gid parent spec ready now db)) = ag_mailbox db"
  "ag_mailbox (snd (activate_node c i now db)) = ag_mailbox db"
  "ag_mailbox (snd (lease_ready c gid worker now lease limit db)) = ag_mailbox db"
  "ag_mailbox (snd (save_node_checkpoint c kid i st now db)) = ag_mailbox db"
  "ag_mailbox (snd (finish_graph gid i gst now db)) = ag_mailbox db"
  "ag_mailbox (snd (acquire_lock gid i t now lease db)) = ag_mailbox db"
  "ag_mailbox (release_locks i db) = ag_mailbox db"
  "ag_mailbox (snd (acquire_root_write_scope run tenant u now lease db)) = ag_mailbox db"
  "ag_mailbox (release_write_scope owner u db) = ag_mailbox db" "ag_mailbox (snd (list_locks i now db)) = ag_mailbox db"
  "ag_mailbox (snd (owns_write_scope owner us now db)) = ag_mailbox db"
  "ag_mailbox (snd (renew_write_scope owner us now lease db)) = ag_mailbox db"
proof -
  note inv = transaction_inv [where P = "\<lambda>db'. ag_mailbox db' = ag_mailbox db"]
  have "ag_mailbox (snd (create_graph c g spec now db)) = ag_mailbox db" unfolding create_graph_def
    by (rule inv) (auto simp: create_graph_tx_def Let_def chain_Inr split: if_splits elim!: insert_node_Inr)
  then show "ag_mailbox (snd (supervisor_create c g spec now db)) = ag_mailbox db"
    by (simp add: supervisor_create_def raise_def)
  have "ag_mailbox (snd (spawn_child c i gid parent spec ready now db)) = ag_mailbox db" unfolding spawn_child_def
    by (rule inv) (auto elim!: spawn_tx_cases insert_node_Inr)
  then show "ag_mailbox (snd (supervisor_spawn c i gid parent spec ready now db)) = ag_mailbox db"
    by (simp add: supervisor_spawn_def split: sum.splits)
  have "ag_mailbox (snd (transaction (activate_node_tx i now) db)) = ag_mailbox db"
    by (rule inv) (auto simp: activate_node_tx_def Let_def set_node_def split: option.splits if_splits)
  then show "ag_mailbox (snd (activate_node c i now db)) = ag_mailbox db"
    by (auto simp: activate_node_def split: sum.splits prod.splits)
  have re: "ag_mailbox (reclaim_nodes gid now db) = ag_mailbox db"
    by (simp add: reclaim_nodes_def drop_expired_locks_def set_node_def)
  have "ag_mailbox (snd (transaction (lease_ready_tx c gid worker now lease limit) db)) = ag_mailbox db"
    by (rule inv, simp, erule lease_tx_cases) (simp_all add: re run_rows_def set_node_def)
  then show "ag_mailbox (snd (lease_ready c gid worker now lease limit db)) = ag_mailbox db"
    by (simp add: lease_ready_def raise_def)
  show "ag_mailbox (snd (save_node_checkpoint c kid i st now db)) = ag_mailbox db" unfolding save_node_checkpoint_def
    by (rule inv) (auto simp: save_node_checkpoint_tx_def Let_def split: if_splits option.splits)
  have "ag_mailbox (snd (transaction (finish_graph_tx gid i gst now) db)) = ag_mailbox db"
    by (rule inv) (auto simp: finish_graph_tx_def split: if_splits option.splits)
  then show "ag_mailbox (snd (finish_graph gid i gst now db)) = ag_mailbox db" by (simp add: finish_graph_def raise_def)
  have "ag_mailbox (snd (transaction (acquire_lock_tx gid i t now lease) db)) = ag_mailbox db"
    by (rule inv) (auto simp: acquire_lock_tx_def Let_def drop_expired_locks_def split: if_splits option.splits)
  then show "ag_mailbox (snd (acquire_lock gid i t now lease db)) = ag_mailbox db" by (simp add: acquire_lock_def raise_def)
  have "ag_mailbox (snd (transaction (acquire_root_write_scope_tx run tenant u now lease) db)) = ag_mailbox db"
    by (rule inv) (auto simp: acquire_root_write_scope_tx_def Let_def drop_expired_locks_def split: if_splits option.splits)
  then show "ag_mailbox (snd (acquire_root_write_scope run tenant u now lease db)) = ag_mailbox db"
    by (simp add: acquire_root_write_scope_def raise_def)
qed (auto simp: release_locks_def drop_locks_of_def release_write_scope_def list_locks_def owns_write_scope_def
    renew_write_scope_def drop_expired_locks_def Let_def split: prod.splits)

fun acknowledged_by :: "gs_op \<Rightarrow> (string \<times> string) set" where
  "acknowledged_by (GsAcknowledge mid i) = {(mid, i)}"
| "acknowledged_by _ = {}"

lemma gs_step_mail: "graph_ok c db \<Longrightarrow> mail_steady c (acknowledged_by op) db (gs_step c now op db)"
  by (cases op) (simp_all add: silent_mail retire_mail mail_steady_same send_mail_steady receive_mail_steady
      acknowledge_mail_steady publish_terminal_def raise_def split: option.splits)

section \<open>Runs\<close>

text \<open>What a row in the mailbox has become after more operations.\<close>

definition mail_after :: "'b cipher \<Rightarrow> (string \<times> string) set \<Rightarrow> 'b mail_row \<Rightarrow> 'b ag_db \<Rightarrow> bool" where
  "mail_after c acks m db \<longleftrightarrow> mail_sealed c db \<and> (\<exists>m' \<in> set (ag_mailbox db). mail_core m' = mail_core m \<and>
     ((ma_item_id m, ma_recipient_node_id m) \<notin> acks \<longrightarrow> carried m m'))"

lemma mail_after_steady:
  assumes "mail_after c acks m db" "mail_steady c acks db db'"
  shows "mail_after c acks m db'"
proof -
  from assms(1) obtain m1 where 1: "mail_sealed c db" "m1 \<in> set (ag_mailbox db)" "mail_core m1 = mail_core m"
    "(ma_item_id m, ma_recipient_node_id m) \<notin> acks \<longrightarrow> carried m m1" by (auto simp: mail_after_def)
  from assms(2) 1(2) obtain m2 where 2: "m2 \<in> set (ag_mailbox db')" "mail_core m2 = mail_core m1"
    "(ma_item_id m1, ma_recipient_node_id m1) \<notin> acks \<longrightarrow> carried m1 m2" unfolding mail_steady_def by blast
  have "mail_sealed c db'" using assms(2) 1(1) by (simp add: mail_steady_def)
  moreover have "mail_core m2 = mail_core m" by (rule trans [OF 2(2) 1(3)])
  moreover have "carried m m2" if "(ma_item_id m, ma_recipient_node_id m) \<notin> acks"
    using that 1(4) 2(3) mail_core_fields(1,2) [OF 1(3)] \<open>mail_core m2 = mail_core m\<close> by (simp add: carried_def)
  ultimately show ?thesis using 2(1) unfolding mail_after_def by blast
qed

lemma mail_steady_mono: "mail_steady c A db db' \<Longrightarrow> A \<subseteq> B \<Longrightarrow> mail_steady c B db db'"
  unfolding mail_steady_def by (meson subsetD)

lemma run_mail:
  assumes "opens_sealed c" "graph_ok c db" "mail_sealed c db" "m \<in> set (ag_mailbox db)" "timely gs_legal start ops"
    and "\<Union> (acknowledged_by ` snd ` set ops) \<subseteq> acks"
  shows "mail_after c acks m (timed_run (gs_step c) ops db)"
proof -
  have "mail_after c acks m db" using assms(3,4) carried_refl unfolding mail_after_def by blast
  with assms(2,5,6) show ?thesis
  proof (induction ops arbitrary: db start)
    case (Cons x ops)
    obtain t op where x: "x = (t, op)" by fastforce
    have "graph_ok c (gs_step c t op db)" using Cons.prems(1,2) assms(1) x by (intro gs_step_ok) auto
    moreover have "mail_after c acks m (gs_step c t op db)"
      by (rule mail_after_steady [OF Cons.prems(4) mail_steady_mono [OF gs_step_mail [OF Cons.prems(1)]]])
        (use Cons.prems(3) x in auto)
    ultimately show ?case using Cons.IH [of "gs_step c t op db" t] Cons.prems(2,3) x by auto
  qed simp
qed

lemma step_sealed: "graph_ok c db \<Longrightarrow> mail_sealed c db \<Longrightarrow> mail_sealed c (gs_step c now op db)"
  using gs_step_mail [of c db op now] by (simp add: mail_steady_def)

lemma run_sealed:
  assumes "opens_sealed c" "timely gs_legal start ops"
  shows "mail_sealed c (timed_run (gs_step c) ops empty_graph_db)"
proof (rule agents.run_keeps [where P = "mail_sealed c" and c = c])
  show "graph_inv c start empty_graph_db" using assms(1) by (simp add: graph_inv_def graph_ok_empty)
  show "mail_sealed c empty_graph_db" by (simp add: mail_sealed_def empty_graph_db_def)
qed (use assms(2) step_sealed in \<open>auto simp: graph_inv_def\<close>)

section \<open>Receiving\<close>

lemma sealed_reads:
  "opens_sealed c \<Longrightarrow> mail_sealed c db \<Longrightarrow> m \<in> set (ag_mailbox db) \<Longrightarrow> \<exists>p. agent_decrypt c (ma_payload m) (mail_aad (ma_item_id m)) = Inr p"
  unfolding mail_sealed_def by (metis agent_decrypt_encrypt)

definition item_of :: "'b cipher \<Rightarrow> mailbox_state \<Rightarrow> 'b mail_row \<Rightarrow> mailbox_item" where
  "item_of c st m = (case mail_of_row c st m of Inr x \<Rightarrow> x | Inl _ \<Rightarrow> undefined)"

lemma sealed_item:
  "opens_sealed c \<Longrightarrow> mail_sealed c db \<Longrightarrow> m \<in> set (ag_mailbox db) \<Longrightarrow> mail_of_row c st m = Inr (item_of c st m)"
  using sealed_reads [of c db m] by (auto simp: item_of_def mail_of_row_def)

lemma item_of_fields:
  assumes "mail_of_row c st m = Inr x"
  shows "mi_item_id x = ma_item_id m" "mi_recipient_node_id x = ma_recipient_node_id m" "mi_sequence x = ma_sequence m"
    "mi_state x = st" "mail_of_row c st' m = Inr (x\<lparr>mi_state := st'\<rparr>)"
  using assms by (auto simp: mail_of_row_def chain_Inr)

lemma mail_of_row_core: "mail_core m = mail_core n \<Longrightarrow> mail_of_row c st m = mail_of_row c st n"
  by (cases m; cases n) (simp add: mail_core_def mail_of_row_def)

lemma decode_all_total:
  "(\<And>x. x \<in> set xs \<Longrightarrow> f x = Inr (g x)) \<Longrightarrow> decode_all f xs = Inr (map g xs)"
  by (induction xs) auto

lemma receive_total:
  assumes "opens_sealed c" "mail_sealed c db"
  shows "\<exists>db'. receive_mail c i now db =
    (Inr (map (item_of c MailDelivered) (sort_key ma_sequence (filter (undelivered i) (ag_mailbox db)))), db')"
proof -
  have "decode_all (mail_of_row c MailDelivered) (sort_key ma_sequence (filter (undelivered i) (ag_mailbox db))) =
      Inr (map (item_of c MailDelivered) (sort_key ma_sequence (filter (undelivered i) (ag_mailbox db))))"
    by (rule decode_all_total) (use sealed_item [OF assms] in auto)
  then show ?thesis by (simp add: receive_mail_def receive_mail_tx_def)
qed

lemma send_row:
  assumes "opens_sealed c" "send_mail c mid gid s r kind p cid now db = (Inr item, db1)"
  shows "\<exists>m \<in> set (ag_mailbox db1). mail_of_row c (ma_state m) m = Inr item \<and> ma_recipient_node_id m = r \<and>
    mi_recipient_node_id item = r \<and> mail_key m = (gid, s, r, kind, cid)"
proof -
  from assms(2) have "send_mail_tx c mid gid s r kind p cid now db = Inr (item, db1)"
    unfolding send_mail_def by (rule transaction_InrD)
  then show ?thesis
  proof (cases rule: send_tx_cases)
    case (found k m)
    from find_in_set [OF found(2)] have m: "m \<in> set (ag_mailbox db)" "mail_key m = (gid, s, r, kind, Some k)"
      by (simp_all add: mail_of_correlation_key)
    with found item_of_fields(2) [OF found(3)] show ?thesis by (intro bexI [of _ m]) (simp_all add: mail_key_def)
  next
    case (sent sequence)
    let ?m = "new_mail_row c mid gid s r kind p cid sequence now"
    from sent(3) have "?m \<in> set (ag_mailbox db1)" by (auto simp: insert_mail_def split: if_splits)
    then show ?thesis
      by (rule bexI [rotated]) (simp add: sent(4) mail_of_row_def new_mail_row_def mail_key_def assms(1))
  qed
qed

lemma find_correlated:
  assumes "graph_ok c db" "m \<in> set (ag_mailbox db)" "mail_of_correlation gid s r kind k m"
  shows "find (mail_of_correlation gid s r kind k) (ag_mailbox db) = Some m"
proof (cases "find (mail_of_correlation gid s r kind k) (ag_mailbox db)")
  case None
  with assms(2,3) show ?thesis by (simp add: find_None)
next
  case (Some x)
  let ?ms = "filter (\<lambda>m. ma_correlation_id m \<noteq> None) (ag_mailbox db)"
  from find_in_set [OF Some] have x: "x \<in> set (ag_mailbox db)" "mail_of_correlation gid s r kind k x" by simp_all
  have "distinct (map mail_key ?ms)" using graph_okD(6) [OF assms(1)] by (simp add: mail_ok_def)
  moreover have "x \<in> set ?ms" "m \<in> set ?ms" using x assms(2,3) by (auto simp: mail_of_correlation_def)
  moreover have "mail_key x = mail_key m" using x(2) assms(3) by (simp add: mail_of_correlation_key)
  ultimately have "x = m" by (rule key_unique)
  with Some show ?thesis by simp
qed

lemma member_grows:
  assumes "grows db db'" "list_ex (node_in_graph gid i) (ag_nodes db)"
  shows "list_ex (node_in_graph gid i) (ag_nodes db')"
proof -
  from assms(2) obtain n where n: "n \<in> set (ag_nodes db)" "no_node_id n = i" "no_graph_id n = gid"
    by (auto simp: list_ex_iff node_in_graph_def)
  from growsD(1) [OF assms(1) n(1)] obtain n' where n': "n' \<in> set (ag_nodes db')" "node_core n' = node_core n"
    unfolding kept_def by blast
  with n node_core_fields(1,2) [OF n'(2)] show ?thesis by (auto simp: list_ex_iff node_in_graph_def)
qed

text \<open>
  C32. Mail is delivered at least once: an item that \<open>send_mail\<close> returned unacknowledged is in the result
  of every later \<open>receive_mail\<close> of its recipient, whatever operations lie between, as long as that
  recipient has not acknowledged it; a reception lists its items in the order of their sequence.
\<close>

theorem mail_until_acknowledged:
  assumes "opens_sealed c" "timely gs_legal start ops" "db = timed_run (gs_step c) ops empty_graph_db"
    and "send_mail c mid gid s r kind p cid now db = (Inr item, db1)" "mi_state item \<noteq> MailAcknowledged"
    and "timely gs_legal later ops2" "\<forall>x \<in> set ops2. snd x \<noteq> GsAcknowledge (mi_item_id item) r"
  shows "\<exists>items db2. receive_mail c r t (timed_run (gs_step c) ops2 db1) = (Inr items, db2) \<and>
    item\<lparr>mi_state := MailDelivered\<rparr> \<in> set items \<and> sorted (map mi_sequence items)"
proof -
  let ?db = "timed_run (gs_step c) ops2 db1"
  have ok: "graph_ok c db" and sealed: "mail_sealed c db"
    using agents_run_ok [OF assms(1,2)] run_sealed [OF assms(1,2)] assms(3) by simp_all
  have ok1: "graph_ok c db1" using send_ok [OF ok, of mid gid s r kind p cid now] assms(4) by simp
  have sealed1: "mail_sealed c db1"
    using send_mail_steady [of c "{}" db mid gid s r kind p cid now] sealed assms(4) by (simp add: mail_steady_def)
  from send_row [OF assms(1,4)] obtain m where m: "m \<in> set (ag_mailbox db1)" "mail_of_row c (ma_state m) m = Inr item"
    "ma_recipient_node_id m = r" by blast
  have id: "mi_item_id item = ma_item_id m" "mi_state item = ma_state m" using item_of_fields [OF m(2)] by simp_all
  have "acknowledged_by op \<subseteq> - {(ma_item_id m, r)}" if "op \<noteq> GsAcknowledge (ma_item_id m) r" for op
    using that by (cases op) auto
  then have acks: "\<Union> (acknowledged_by ` snd ` set ops2) \<subseteq> - {(ma_item_id m, r)}"
    using assms(7) id(1) by fastforce
  from run_mail [OF assms(1) ok1 sealed1 m(1) assms(6) acks] m(3) obtain m' where
    m': "mail_sealed c ?db" "m' \<in> set (ag_mailbox ?db)" "carried m m'" by (auto simp: mail_after_def)
  have core: "mail_core m' = mail_core m" using m'(3) by (simp add: carried_def)
  have "unacked m" using assms(5) id(2) by (cases "ma_state m") (simp_all add: unacked_def)
  then have "unacked m'" using m'(3) by (simp add: carried_def)
  then have und: "undelivered r m'"
    using m(3) mail_core_fields(2) [OF core] by (auto simp: undelivered_def unacked_def)
  let ?rows = "sort_key ma_sequence (filter (undelivered r) (ag_mailbox ?db))"
  have "mail_of_row c MailDelivered m' = Inr (item\<lparr>mi_state := MailDelivered\<rparr>)"
    using item_of_fields(5) [OF m(2)] mail_of_row_core [OF core] by simp
  then have "item_of c MailDelivered m' = item\<lparr>mi_state := MailDelivered\<rparr>" by (simp add: item_of_def)
  then have "item\<lparr>mi_state := MailDelivered\<rparr> \<in> set (map (item_of c MailDelivered) ?rows)"
    using m'(2) und by (auto intro!: image_eqI [of _ _ m'])
  moreover have "map mi_sequence (map (item_of c MailDelivered) ?rows) = map ma_sequence ?rows"
    using item_of_fields(3) [OF sealed_item [OF assms(1) m'(1)]] by auto
  then have "sorted (map mi_sequence (map (item_of c MailDelivered) ?rows))" by (simp only: sorted_sort_key)
  ultimately show ?thesis using receive_total [OF assms(1) m'(1), of r t] by blast
qed

text \<open>
  A correlated send is idempotent: when \<open>send_mail\<close> with a correlation identifier has returned an item,
  then after any further operations the same send, under whatever new item identifier, changes nothing:
  it returns that item in its present state, or refuses a different payload.
\<close>

theorem correlated_send_idempotent:
  assumes "opens_sealed c" "timely gs_legal start ops" "db = timed_run (gs_step c) ops empty_graph_db"
    and "send_mail c mid gid s r kind p (Some k) now db = (Inr item, db1)" "timely gs_legal later ops2"
    and "db2 = timed_run (gs_step c) ops2 db1"
  shows "\<exists>st. send_mail c mid' gid s r kind p' (Some k) now' db2 =
    (if py_eq (JObj (mi_payload item)) (JObj p') then Inr (item\<lparr>mi_state := st\<rparr>)
     else Inl (RuntimeError ''mailbox correlation identity collision''), db2)"
proof -
  have ok: "graph_ok c db" and sealed: "mail_sealed c db"
    using agents_run_ok [OF assms(1,2)] run_sealed [OF assms(1,2)] assms(3) by simp_all
  have ok1: "graph_ok c db1" using send_ok [OF ok, of mid gid s r kind p "Some k" now] assms(4) by simp
  have sealed1: "mail_sealed c db1"
    using send_mail_steady [of c "{}" db mid gid s r kind p "Some k" now] sealed assms(4) by (simp add: mail_steady_def)
  from send_row [OF assms(1,4)] obtain m where m: "m \<in> set (ag_mailbox db1)" "mail_of_row c (ma_state m) m = Inr item"
    "mail_key m = (gid, s, r, kind, Some k)" by blast
  from run_mail [OF assms(1) ok1 sealed1 m(1) assms(5), of UNIV] assms(6) obtain m' where
    m': "m' \<in> set (ag_mailbox db2)" "mail_core m' = mail_core m" by (auto simp: mail_after_def)
  note ok2 = run_grows(1) [OF assms(1) ok1 assms(5), folded assms(6)]
  have key: "mail_of_correlation gid s r kind k m'" using m(3) mail_core_fields(4) [OF m'(2)]
    by (simp add: mail_of_correlation_key)
  have find: "find (mail_of_correlation gid s r kind k) (ag_mailbox db2) = Some m'" by (rule find_correlated [OF ok2 m'(1) key])
  have read: "mail_of_row c (ma_state m') m' = Inr (item\<lparr>mi_state := ma_state m'\<rparr>)"
    using item_of_fields(5) [OF m(2)] mail_of_row_core [OF m'(2)] by simp
  have members: "list_ex (node_in_graph gid s) (ag_nodes db2)" "list_ex (node_in_graph gid r) (ag_nodes db2)"
  proof -
    from assms(4) have "send_mail_tx c mid gid s r kind p (Some k) now db = Inr (item, db1)"
      unfolding send_mail_def by (rule transaction_InrD)
    then have there: "list_ex (node_in_graph gid s) (ag_nodes db)" "list_ex (node_in_graph gid r) (ag_nodes db)"
      by (auto simp: send_mail_tx_def split: if_splits)
    have gr: "grows db db2"
      using side_steady(1) [of db c mid gid s r kind p "Some k" now] steady_grows run_grows(2) [OF assms(1) ok1 assms(5)]
        assms(4,6) grows_trans by (metis snd_conv)
    from there show "list_ex (node_in_graph gid s) (ag_nodes db2)" "list_ex (node_in_graph gid r) (ag_nodes db2)"
      by (simp_all add: member_grows [OF gr])
  qed
  have "send_mail_tx c mid' gid s r kind p' (Some k) now' db2 =
    (if py_eq (JObj (mi_payload item)) (JObj p') then Inr (item\<lparr>mi_state := ma_state m'\<rparr>, db2)
     else Inl (RuntimeError ''mailbox correlation identity collision''))"
    unfolding send_mail_tx_def option.case find using members by (simp add: read)
  then show ?thesis by (intro exI [of _ "ma_state m'"]) (simp add: send_mail_def)
qed

end
