(* ===== verification/GraphLocks.thy ===== *)
theory GraphLocks
  imports GraphHistory
begin

text \<open>
  Resource locks: who may hold a row of \<open>runtime_resource_locks\<close> after an operation, given who held it
  before.
\<close>

definition locks_from :: "int \<Rightarrow> lock_row list \<Rightarrow> lock_row list \<Rightarrow> bool" where
  "locks_from now ks ks' \<longleftrightarrow> (\<forall>k' \<in> set ks'.
     (\<exists>k \<in> set ks. lock_key k = lock_key k' \<and> lk_owner_node_id k = lk_owner_node_id k') \<or>
     (\<forall>k \<in> set ks. lock_key k = lock_key k' \<longrightarrow> lk_lease_expires_at_ms k \<le> now))"

lemma locks_from_same [simp]: "locks_from now ks ks"
  by (auto simp: locks_from_def)

lemma locks_from_delete [simp]: "locks_from now ks (delete_where P ks)"
  by (auto simp: locks_from_def delete_where_def)

lemma locks_from_update:
  "(\<And>k. k \<in> set ks \<Longrightarrow> lock_key (f k) = lock_key k \<and> lk_owner_node_id (f k) = lk_owner_node_id k) \<Longrightarrow>
     locks_from now ks (update_where P f ks)"
  unfolding locks_from_def set_update_where by auto

lemma locks_from_trans:
  assumes "locks_from now ks ks1" "locks_from now ks1 ks2"
    "\<And>k. k \<in> set ks1 \<Longrightarrow> \<exists>k0 \<in> set ks. lock_key k0 = lock_key k \<and> lk_owner_node_id k0 = lk_owner_node_id k \<and>
       lk_lease_expires_at_ms k0 \<le> lk_lease_expires_at_ms k"
    "\<And>k. k \<in> set ks \<Longrightarrow> (\<exists>k1 \<in> set ks1. lock_key k1 = lock_key k \<and> lk_lease_expires_at_ms k \<le> lk_lease_expires_at_ms k1) \<or>
       lk_lease_expires_at_ms k \<le> now"
  shows "locks_from now ks ks2"
  unfolding locks_from_def
proof
  fix k' assume "k' \<in> set ks2"
  with assms(2) consider k1 where "k1 \<in> set ks1" "lock_key k1 = lock_key k'" "lk_owner_node_id k1 = lk_owner_node_id k'"
    | "\<forall>k \<in> set ks1. lock_key k = lock_key k' \<longrightarrow> lk_lease_expires_at_ms k \<le> now"
    unfolding locks_from_def by blast
  then show "(\<exists>k \<in> set ks. lock_key k = lock_key k' \<and> lk_owner_node_id k = lk_owner_node_id k') \<or>
     (\<forall>k \<in> set ks. lock_key k = lock_key k' \<longrightarrow> lk_lease_expires_at_ms k \<le> now)"
  proof cases
    case 1
    with assms(3) [OF 1(1)] show ?thesis by auto
  next
    case 2
    have "lk_lease_expires_at_ms k \<le> now" if "k \<in> set ks" "lock_key k = lock_key k'" for k
      using assms(4) [OF that(1)] 2 that(2) by fastforce
    then show ?thesis by blast
  qed
qed

definition after_expiry :: "int \<Rightarrow> lock_row list \<Rightarrow> lock_row list" where
  "after_expiry now ks = delete_where (\<lambda>k. lk_lease_expires_at_ms k \<le> now) ks"

lemma locks_from_expiry [simp]: "locks_from now' ks (after_expiry now ks)"
  unfolding after_expiry_def by (rule locks_from_delete)

lemma drop_expired_locks_after [simp]: "ag_locks (drop_expired_locks now db) = after_expiry now (ag_locks db)"
  by (simp add: drop_expired_locks_def after_expiry_def)

lemma take_lock_from:
  assumes "take_lock gid owner t now lease (after_expiry now ks) = Some ks'"
  shows "locks_from now ks ks'"
proof (rule locks_from_trans [of now ks "after_expiry now ks"])
  show "locks_from now ks (after_expiry now ks)" by simp
  show "locks_from now (after_expiry now ks) ks'"
    using assms
  proof (cases rule: take_lock_cases)
    case fresh
    then show ?thesis unfolding locks_from_def by auto
  next
    case (renewed k)
    show ?thesis unfolding renewed(4) by (rule locks_from_update) (simp add: lock_key_def)
  qed
qed (auto simp: after_expiry_def delete_where_def)

lemma renew_all_from: "locks_from now ks (snd (renew_all owner ts now' lease ks))"
proof -
  have pairs: "set (map (\<lambda>k. (lock_key k, lk_owner_node_id k)) (snd (renew_all owner ts now' lease ks))) =
      set (map (\<lambda>k. (lock_key k, lk_owner_node_id k)) ks)" for ks
  proof (induction ts arbitrary: ks)
    case (Cons t ts)
    have "map (\<lambda>k. (lock_key k, lk_owner_node_id k))
        (update_where (renewable owner t now') (\<lambda>k. k\<lparr>lk_lease_expires_at_ms := now' + lease\<rparr>) ks) =
      map (\<lambda>k. (lock_key k, lk_owner_node_id k)) ks"
      by (rule update_where_map_key) simp
    with Cons.IH [of "update_where (renewable owner t now') (\<lambda>k. k\<lparr>lk_lease_expires_at_ms := now' + lease\<rparr>) ks"]
    show ?case by (simp add: Let_def del: set_map)
  qed simp
  show ?thesis unfolding locks_from_def
  proof (intro ballI disjI1)
    fix k' assume "k' \<in> set (snd (renew_all owner ts now' lease ks))"
    then have "(lock_key k', lk_owner_node_id k') \<in> set (map (\<lambda>k. (lock_key k, lk_owner_node_id k)) ks)"
      using pairs [of ks] by (metis (mono_tags, lifting) image_eqI set_map)
    then show "\<exists>k \<in> set ks. lock_key k = lock_key k' \<and> lk_owner_node_id k = lk_owner_node_id k'" by auto
  qed
qed

section \<open>Operations that leave the locks alone\<close>

lemma transaction_locks:
  assumes "\<And>a db'. f db = Inr (a, db') \<Longrightarrow> locks_from now (ag_locks db) (ag_locks db')"
  shows "locks_from now (ag_locks db) (ag_locks (snd (transaction f db)))"
  by (rule transaction_inv [where P = "\<lambda>db'. locks_from now (ag_locks db) (ag_locks db')"]) (simp_all add: assms)

lemma create_locks: "ag_locks (snd (supervisor_create c g spec now db)) = ag_locks db"
proof -
  have "ag_locks (snd (create_graph c g spec now db)) = ag_locks db" unfolding create_graph_def
    by (rule transaction_inv [where P = "\<lambda>db'. ag_locks db' = ag_locks db"])
      (auto simp: create_graph_tx_def Let_def chain_Inr split: if_splits elim!: insert_node_Inr)
  then show ?thesis by (simp add: supervisor_create_def raise_def)
qed

lemma spawn_locks: "ag_locks (snd (supervisor_spawn c i gid parent spec ready now db)) = ag_locks db"
proof -
  have "ag_locks (snd (spawn_child c i gid parent spec ready now db)) = ag_locks db" unfolding spawn_child_def
    by (rule transaction_inv [where P = "\<lambda>db'. ag_locks db' = ag_locks db"])
      (auto elim!: spawn_tx_cases insert_node_Inr)
  then show ?thesis by (simp add: supervisor_spawn_def split: sum.splits)
qed

lemma activate_locks: "ag_locks (snd (activate_node c i now db)) = ag_locks db"
proof -
  have "ag_locks (snd (transaction (activate_node_tx i now) db)) = ag_locks db"
    by (rule transaction_inv [where P = "\<lambda>db'. ag_locks db' = ag_locks db"])
      (auto simp: activate_node_tx_def Let_def set_node_def split: option.splits if_splits)
  then show ?thesis by (auto simp: activate_node_def split: sum.splits prod.splits)
qed

lemma quiet_locks:
  "ag_locks (snd (send_mail c mid gid s r kind p cid now db)) = ag_locks db"
  "ag_locks (snd (receive_mail c i now db)) = ag_locks db"
  "ag_locks (snd (acknowledge_mail mid i now db)) = ag_locks db"
  "ag_locks (snd (save_node_checkpoint c kid i st now db)) = ag_locks db"
  "ag_locks (snd (finish_graph gid i gst now db)) = ag_locks db"
proof -
  note inv = transaction_inv [where P = "\<lambda>db'. ag_locks db' = ag_locks db"]
  show "ag_locks (snd (send_mail c mid gid s r kind p cid now db)) = ag_locks db" unfolding send_mail_def
    by (rule inv, simp, erule send_tx_cases, auto simp: insert_mail_def split: if_splits)
  show "ag_locks (snd (receive_mail c i now db)) = ag_locks db" unfolding receive_mail_def
    by (rule inv, simp, drule receive_tx_Inr, simp)
  show "ag_locks (snd (acknowledge_mail mid i now db)) = ag_locks db" unfolding acknowledge_mail_def
    by (rule inv, simp, drule acknowledge_tx_Inr, simp)
  show "ag_locks (snd (save_node_checkpoint c kid i st now db)) = ag_locks db" unfolding save_node_checkpoint_def
    by (rule inv) (auto simp: save_node_checkpoint_tx_def Let_def split: if_splits option.splits)
  have "ag_locks (snd (transaction (finish_graph_tx gid i gst now) db)) = ag_locks db"
    by (rule inv) (auto simp: finish_graph_tx_def split: if_splits option.splits)
  then show "ag_locks (snd (finish_graph gid i gst now db)) = ag_locks db" by (simp add: finish_graph_def raise_def)
qed

section \<open>Operations that release locks\<close>

lemma retire_locks:
  assumes "graph_ok c db"
  shows "locks_from t (ag_locks db) (ag_locks (snd (fail_node c i worker now db)))"
    and "locks_from t (ag_locks db) (ag_locks (snd (complete_node c aid i worker d now db)))"
    and "locks_from t (ag_locks db) (ag_locks (snd (cancel_subtree c i now db)))"
    and "locks_from t (ag_locks db) (ag_locks (snd (interrupt_node i now db)))"
proof -
  show "locks_from t (ag_locks db) (ag_locks (snd (fail_node c i worker now db)))" unfolding fail_node_def
  proof (rule transaction_locks)
    fix a db' assume tx: "fail_node_tx c i worker now db = Inr (a, db')"
    then obtain n where "find (running_for i worker) (ag_nodes db) = Some n"
      by (auto simp: fail_node_tx_def split: option.splits)
    from fail_node_tx_total [OF assms this, of now] tx show "locks_from t (ag_locks db) (ag_locks db')" by auto
  qed
  show "locks_from t (ag_locks db) (ag_locks (snd (complete_node c aid i worker d now db)))" unfolding complete_node_def
  proof (rule transaction_locks)
    fix a db' assume tx: "complete_node_tx c aid i worker d now db = Inr (a, db')"
    from complete_tx_cases [OF tx] obtain n where "find (running_for i worker) (ag_nodes db) = Some n"
      "\<not> list_ex (\<lambda>a. at_artifact_id a = aid) (ag_artifacts db)" .
    from complete_node_tx_total [OF assms this, of d now] tx show "locks_from t (ag_locks db) (ag_locks db')" by auto
  qed
  show "locks_from t (ag_locks db) (ag_locks (snd (cancel_subtree c i now db)))"
    unfolding cancel_subtree_def using cancel_subtree_tx_total [OF assms, of i now] by auto
  show "locks_from t (ag_locks db) (ag_locks (snd (interrupt_node i now db)))" unfolding interrupt_node_def
    by (rule transaction_locks, drule interrupt_tx_Inr) (simp add: drop_locks_of_def set_node_def)
qed

lemma lease_locks: "locks_from now (ag_locks db) (ag_locks (snd (lease_ready c gid worker now lease limit db)))"
proof -
  have re: "ag_locks (reclaim_nodes gid now db) = after_expiry now (ag_locks db)"
    by (simp add: reclaim_nodes_def)
  have "locks_from now (ag_locks db) (ag_locks (snd (transaction (lease_ready_tx c gid worker now lease limit) db)))"
    by (rule transaction_locks, erule lease_tx_cases)
      (simp_all add: re run_rows_def)
  then show ?thesis by (simp add: lease_ready_def raise_def)
qed

lemma lock_ops:
  "locks_from now (ag_locks db) (ag_locks (snd (acquire_lock gid i t now lease db)))"
  "locks_from now (ag_locks db) (ag_locks (snd (acquire_root_write_scope run tenant u now lease db)))"
  "locks_from now (ag_locks db) (ag_locks (release_locks i db))"
  "locks_from now (ag_locks db) (ag_locks (release_write_scope owner u db))"
  "locks_from now (ag_locks db) (ag_locks (snd (list_locks i now db)))"
  "locks_from now (ag_locks db) (ag_locks (snd (owns_write_scope owner us now db)))"
  "locks_from now (ag_locks db) (ag_locks (snd (renew_write_scope owner us now lease db)))"
proof -
  have "locks_from now (ag_locks db) (ag_locks (snd (transaction (acquire_lock_tx gid i t now lease) db)))"
    by (rule transaction_locks) (auto simp: acquire_lock_tx_def Let_def split: if_splits option.splits
        dest: take_lock_from)
  then show "locks_from now (ag_locks db) (ag_locks (snd (acquire_lock gid i t now lease db)))"
    by (simp add: acquire_lock_def raise_def)
  have "locks_from now (ag_locks db) (ag_locks (snd (transaction (acquire_root_write_scope_tx run tenant u now lease) db)))"
    by (rule transaction_locks) (auto simp: acquire_root_write_scope_tx_def Let_def split: if_splits option.splits
        dest: take_lock_from)
  then show "locks_from now (ag_locks db) (ag_locks (snd (acquire_root_write_scope run tenant u now lease db)))"
    by (simp add: acquire_root_write_scope_def raise_def)
  show "locks_from now (ag_locks db) (ag_locks (snd (renew_write_scope owner us now lease db)))"
    using renew_all_from [of now "ag_locks db" owner us now lease]
    by (auto simp: renew_write_scope_def split: prod.splits)
qed (simp_all add: release_locks_def drop_locks_of_def release_write_scope_def list_locks_def owns_write_scope_def
    Let_def)

lemma gs_step_locks: "graph_ok c db \<Longrightarrow> locks_from now (ag_locks db) (ag_locks (gs_step c now op db))"
  by (cases op) (simp_all add: create_locks spawn_locks activate_locks quiet_locks retire_locks lease_locks lock_ops
      publish_terminal_def raise_def split: option.splits)

text \<open>
  C27. A live lock never changes hands: whatever operation any node performs while the lease of a lock
  has not expired, the resource is afterwards held by the same node or by none.
\<close>

theorem live_lock_keeps_owner:
  assumes "opens_sealed c" "timely gs_legal start ops" "db = timed_run (gs_step c) ops empty_graph_db"
    and "k \<in> set (ag_locks db)" "now < lk_lease_expires_at_ms k"
    and "k' \<in> set (ag_locks (gs_step c now op db))" "lock_key k' = lock_key k"
  shows "lk_owner_node_id k' = lk_owner_node_id k"
proof -
  have ok: "graph_ok c db" using agents_run_ok [OF assms(1,2)] assms(3) by simp
  have one: "j = k" if "j \<in> set (ag_locks db)" "lock_key j = lock_key k" for j
    using key_unique [of lock_key "ag_locks db" j k] graph_okD(5) [OF ok] that assms(4) by (simp add: locks_ok_def)
  from gs_step_locks [OF ok, of now op] assms(6) consider j where "j \<in> set (ag_locks db)" "lock_key j = lock_key k'"
      "lk_owner_node_id j = lk_owner_node_id k'"
    | "\<forall>j \<in> set (ag_locks db). lock_key j = lock_key k' \<longrightarrow> lk_lease_expires_at_ms j \<le> now"
    unfolding locks_from_def by blast
  then show ?thesis
  proof cases
    case 1
    with one [OF 1(1)] assms(7) show ?thesis by simp
  next
    case 2
    with assms(4,5,7) show ?thesis by auto
  qed
qed

end
