(* ===== verification/GraphWitnesses.thy ===== *)
theory GraphWitnesses
  imports GraphProps GraphMail GraphLocks Samples
begin

text \<open>
  Witnesses of the agent graph: a small team (an orchestrator, an author, and two analysts behind the
  author and behind each other) run by \<open>gs_step\<close>, at which the properties are applied.
\<close>

section \<open>A team\<close>

definition demo_spec :: "string \<Rightarrow> agent_role \<Rightarrow> string list \<Rightarrow> int \<Rightarrow> string list \<Rightarrow> node_spec" where
  "demo_spec name role tools tokens deps = \<lparr>ns_name = name, ns_role = role, ns_task_brief = ''brief'',
     ns_expected_output_type = ''report'', ns_tool_ids = tools, ns_budgets = [(''tokens'', tokens)],
     ns_context_mode = ContextSelected, ns_deadline_ms = None, ns_dependency_node_ids = deps,
     ns_requires_write_scope = False\<rparr>"

definition demo_graph :: graph_record where
  "demo_graph = \<lparr>gp_graph_id = ''g'', gp_root_run_id = ''run'', gp_root_node_id = ''n0'', gp_tenant_key = ''tenant'',
     gp_app_id = ''app'', gp_source_resource_kind = ''message'', gp_source_resource_id = ''m1'',
     gp_agent_definition_id = ''agent'', gp_agent_definition_version = 1, gp_status = GraphActive,
     gp_limits = default_graph_limits, gp_trace_id = ''trace''\<rparr>"

definition demo_draft :: artifact_draft where
  "demo_draft = \<lparr>rd_artifact_type = ''report'', rd_payload = [(''text'', JStr ''done'')], rd_source_versions = [],
     rd_verification_state = NOT_REQUIRED, rd_sensitivity = ''internal'', rd_expires_at_ms = None\<rparr>"

definition demo_target :: resource_target where
  "demo_target = \<lparr>rg_tenant_key = ''tenant'', rg_resource_type = ''doc'', rg_resource_id = ''d1'',
     rg_expected_revision = None\<rparr>"

definition demo_team :: "(int \<times> gs_op) list" where
  "demo_team = [(1, GsCreate demo_graph (demo_spec ''root'' ORCHESTRATOR [''read'', ''write''] 10 [])),
     (2, GsSpawn ''n1'' ''g'' ''n0'' (demo_spec ''author'' AUTHOR [''read''] 4 []) True),
     (3, GsSpawn ''n2'' ''g'' ''n0'' (demo_spec ''first'' DATA_ANALYST [''read''] 3 [''n1'']) True),
     (4, GsSpawn ''n3'' ''g'' ''n0'' (demo_spec ''second'' DATA_ANALYST [] 3 [''n2'']) True)]"

definition demo_working :: "(int \<times> gs_op) list" where
  "demo_working = demo_team @ [(5, GsLease ''g'' ''w'' 100 2), (5, GsLock ''g'' ''n1'' demo_target 50)]"

definition demo_done :: "(int \<times> gs_op) list" where
  "demo_done = demo_working @ [(6, GsComplete ''a1'' ''n1'' ''w'' demo_draft), (7, GsLease ''g'' ''w'' 100 2)]"

definition demo_failed :: "(int \<times> gs_op) list" where
  "demo_failed = demo_working @ [(6, GsFail ''n1'' ''w'')]"

definition demo_db :: "(int \<times> gs_op) list \<Rightarrow> (string \<times> json) ag_db" where
  "demo_db ops = timed_run (gs_step plain_cipher) ops empty_graph_db"

lemma demo_timely:
  "timely gs_legal 0 demo_team" "timely gs_legal 0 demo_working" "timely gs_legal 0 demo_done"
  "timely gs_legal 0 demo_failed"
  by code_simp+

lemma list_exE: "list_ex P xs \<Longrightarrow> (\<And>x. x \<in> set xs \<Longrightarrow> P x \<Longrightarrow> Q) \<Longrightarrow> Q"
  by (auto simp: list_ex_iff)

section \<open>Budgets, limits and dependencies\<close>

theorem child_budgets_reserved_witness:
  "\<exists>b \<in> set (ag_ledger (demo_db demo_team)). lg_node_id b = ''n0'' \<and> lg_reserved b = 10 \<and>
     held plain_cipher (ag_nodes (demo_db demo_team)) ''g'' ''n0'' ''tokens'' = 10"
proof -
  have "list_ex (\<lambda>b. lg_graph_id b = ''g'' \<and> lg_node_id b = ''n0'' \<and> lg_budget_kind b = ''tokens'' \<and> lg_reserved b = 10)
      (ag_ledger (demo_db demo_team))" by code_simp
  then obtain b where b: "b \<in> set (ag_ledger (demo_db demo_team))" "lg_graph_id b = ''g''" "lg_node_id b = ''n0''"
    "lg_budget_kind b = ''tokens''" "lg_reserved b = 10" by (elim list_exE) blast
  with child_budgets_reserved [OF opens_plain_cipher demo_timely(1) demo_db_def b(1)] show ?thesis by auto
qed

theorem graph_limits_hold_witness:
  "\<exists>g \<in> set (ag_graphs (demo_db demo_working)). int (running_count (gr_graph_id g) (demo_db demo_working)) \<le> 3 \<and>
     running_count (gr_graph_id g) (demo_db demo_working) = 1"
proof -
  have "list_ex (\<lambda>g. gr_max_concurrency g = 3 \<and> running_count (gr_graph_id g) (demo_db demo_working) = 1)
      (ag_graphs (demo_db demo_working))" by code_simp
  then obtain g where g: "g \<in> set (ag_graphs (demo_db demo_working))" "gr_max_concurrency g = 3"
    "running_count (gr_graph_id g) (demo_db demo_working) = 1" by (elim list_exE) blast
  have "int (running_count (gr_graph_id g) (demo_db demo_working)) \<le> gr_max_concurrency g"
    using graph_limits_hold [OF opens_plain_cipher demo_timely(2) demo_db_def g(1)] by blast
  with g show ?thesis by (intro bexI [of _ g] conjI) simp_all
qed

theorem dependencies_completed_witness:
  "\<exists>p \<in> set (ag_nodes (demo_db demo_done)). no_node_id p = ''n1'' \<and> no_status p = NodeCompleted"
proof -
  have "list_ex (\<lambda>n. no_node_id n = ''n2'' \<and> no_status n = NodeRunning) (ag_nodes (demo_db demo_done))"
    "list_ex (\<lambda>e. ed_dependent_node_id e = ''n2'' \<and> ed_predecessor_node_id e = ''n1'') (ag_edges (demo_db demo_done))"
    by code_simp+
  then obtain n e where n: "n \<in> set (ag_nodes (demo_db demo_done))" "no_node_id n = ''n2''" "no_status n = NodeRunning"
    and e: "e \<in> set (ag_edges (demo_db demo_done))" "ed_dependent_node_id e = ''n2''" "ed_predecessor_node_id e = ''n1''"
    by (elim list_exE conjE) blast
  have "no_status n = NodeRunning \<or> no_status n = NodeCompleted" "ed_dependent_node_id e = no_node_id n" using n e by simp_all
  from dependencies_completed [OF opens_plain_cipher demo_timely(3) demo_db_def n(1) this(1) e(1) this(2)] e(3)
  show ?thesis by auto
qed

theorem terminal_is_final_witness:
  "\<exists>n \<in> set (ag_nodes (demo_db demo_done)). no_status n = NodeCompleted \<and>
     n \<in> set (ag_nodes (timed_run (gs_step plain_cipher) [(8, GsCancel ''n0'')] (demo_db demo_done)))"
proof -
  have "list_ex (\<lambda>n. no_status n = NodeCompleted) (ag_nodes (demo_db demo_done))" by code_simp
  then obtain n where n: "n \<in> set (ag_nodes (demo_db demo_done))" "no_status n = NodeCompleted" by (elim list_exE)
  have "timely gs_legal 8 [(8, GsCancel ''n0'')]" by simp
  from terminal_is_final [OF opens_plain_cipher demo_timely(3) demo_db_def this] n show ?thesis by auto
qed

theorem dead_dependency_starves_witness:
  "\<exists>m \<in> set (ag_nodes (timed_run (gs_step plain_cipher) [(7, GsLease ''g'' ''w'' 100 2)] (demo_db demo_failed))).
     no_node_id m = ''n3'' \<and> no_status m = NodeReady \<and> no_status m \<noteq> NodeRunning \<and> no_status m \<noteq> NodeCompleted"
proof -
  let ?more = "[(7, GsLease ''g'' ''w'' 100 2)]"
  have "list_ex (\<lambda>e. ed_dependent_node_id e = ''n3'' \<and> ed_predecessor_node_id e = ''n2'') (ag_edges (demo_db demo_failed))"
    by code_simp
  moreover have "list_ex (\<lambda>p. no_node_id p = ''n2'' \<and> no_status p = NodeBlocked) (ag_nodes (demo_db demo_failed))"
    by code_simp
  moreover have "list_ex (\<lambda>m. no_node_id m = ''n3'' \<and> no_status m = NodeReady)
       (ag_nodes (timed_run (gs_step plain_cipher) ?more (demo_db demo_failed)))"
    by code_simp
  ultimately obtain e p m where e: "e \<in> set (ag_edges (demo_db demo_failed))" "ed_dependent_node_id e = ''n3''" "ed_predecessor_node_id e = ''n2''"
    and p: "p \<in> set (ag_nodes (demo_db demo_failed))" "no_node_id p = ''n2''" "no_status p = NodeBlocked"
    and m: "m \<in> set (ag_nodes (timed_run (gs_step plain_cipher) ?more (demo_db demo_failed)))" "no_node_id m = ''n3''"
      "no_status m = NodeReady"
    by (elim list_exE conjE) blast
  have "no_node_id p = ed_predecessor_node_id e" "no_status p \<in> {NodeFailed, NodeBlocked, NodeCancelled}"
    "timely gs_legal 7 ?more" "no_node_id m = ed_dependent_node_id e" using e p m by simp_all
  from dead_dependency_starves [OF opens_plain_cipher demo_timely(4) demo_db_def e(1) p(1) this(1-3) m(1) this(4)] m
  show ?thesis by auto
qed

section \<open>The tree\<close>

theorem cancel_subtree_cancels_descendants_witness:
  "\<exists>ids db'. cancel_subtree plain_cipher ''n0'' 8 (demo_db demo_working) = (Inr ids, db') \<and> ''n3'' \<in> set ids"
proof -
  have found: "find_node ''n0'' (demo_db demo_working) \<noteq> None" by code_simp
  from cancel_subtree_cancels_descendants [OF opens_plain_cipher demo_timely(2) demo_db_def found, of 8]
  obtain ids db' where 1: "cancel_subtree plain_cipher ''n0'' 8 (demo_db demo_working) = (Inr ids, db')"
    "set ids = {j. below (ag_nodes (demo_db demo_working)) ''n0'' j}" by blast
  have "list_ex (\<lambda>n. no_node_id n = ''n3'' \<and> no_parent_node_id n = Some ''n0'') (ag_nodes (demo_db demo_working))" by code_simp
  then obtain n where "n \<in> set (ag_nodes (demo_db demo_working))" "no_node_id n = ''n3''" "no_parent_node_id n = Some ''n0''"
    by (elim list_exE) blast
  then have "below (ag_nodes (demo_db demo_working)) ''n0'' ''n3''" using below.child [OF below.self] by metis
  with 1 show ?thesis by auto
qed

theorem descendants_within_authority_witness:
  "\<exists>a d. get_node plain_cipher ''n0'' (demo_db demo_team) = Inr a \<and> get_node plain_cipher ''n1'' (demo_db demo_team) = Inr d \<and>
     set (ns_tool_ids (an_spec d)) \<subseteq> set (ns_tool_ids (an_spec a))"
proof -
  have found: "find_node ''n0'' (demo_db demo_team) \<noteq> None" by code_simp
  have "list_ex (\<lambda>n. no_node_id n = ''n1'' \<and> no_parent_node_id n = Some ''n0'') (ag_nodes (demo_db demo_team))" by code_simp
  then obtain n where "n \<in> set (ag_nodes (demo_db demo_team))" "no_node_id n = ''n1''" "no_parent_node_id n = Some ''n0''"
    by (elim list_exE) blast
  then have "below (ag_nodes (demo_db demo_team)) ''n0'' ''n1''" using below.child [OF below.self] by metis
  from descendants_within_authority [OF opens_plain_cipher demo_timely(1) demo_db_def found this] show ?thesis by blast
qed

section \<open>Locks, mail and leases\<close>

theorem live_lock_keeps_owner_witness:
  "\<exists>k \<in> set (ag_locks (demo_db demo_working)). lk_owner_node_id k = ''n1'' \<and>
     (\<forall>k' \<in> set (ag_locks (gs_step plain_cipher 20 (GsLock ''g'' ''n2'' demo_target 50) (demo_db demo_working))).
        lock_key k' = lock_key k \<longrightarrow> lk_owner_node_id k' = ''n1'')"
proof -
  have "list_ex (\<lambda>k. lk_owner_node_id k = ''n1'' \<and> 20 < lk_lease_expires_at_ms k) (ag_locks (demo_db demo_working))" by code_simp
  then obtain k where k: "k \<in> set (ag_locks (demo_db demo_working))" "lk_owner_node_id k = ''n1''" "20 < lk_lease_expires_at_ms k"
    by (elim list_exE) blast
  have "lk_owner_node_id k' = ''n1''" if "k' \<in> set (ag_locks (gs_step plain_cipher 20 (GsLock ''g'' ''n2'' demo_target 50)
      (demo_db demo_working)))" "lock_key k' = lock_key k" for k'
    using live_lock_keeps_owner [OF opens_plain_cipher demo_timely(2) demo_db_def k(1,3) that] k(2) by simp
  with k show ?thesis by (intro bexI [of _ k] conjI) blast+
qed

definition demo_send :: "string \<Rightarrow> payload \<Rightarrow> int \<Rightarrow> ((string \<times> json) ag_db, mailbox_item) eff" where
  "demo_send mid p now = send_mail plain_cipher mid ''g'' ''n0'' ''n1'' MailTask p (Some ''k'') now"

lemma demo_sent: "\<exists>item db1. demo_send ''m1'' [(''do'', JStr ''it'')] 5 (demo_db demo_team) = (Inr item, db1) \<and>
    (mi_state item, mi_item_id item, mi_payload item) = (MailPending, ''m1'', [(''do'', JStr ''it'')])"
proof -
  have "map_sum id (\<lambda>i. (mi_state i, mi_item_id i, mi_payload i))
      (fst (demo_send ''m1'' [(''do'', JStr ''it'')] 5 (demo_db demo_team))) = Inr (MailPending, ''m1'', [(''do'', JStr ''it'')])"
    by code_simp
  from result_Inr [OF this] show ?thesis by blast
qed

theorem mail_until_acknowledged_witness:
  "\<exists>item db1 items db2. demo_send ''m1'' [(''do'', JStr ''it'')] 5 (demo_db demo_team) = (Inr item, db1) \<and>
     receive_mail plain_cipher ''n1'' 9 (timed_run (gs_step plain_cipher) [(6, GsReceive ''n1'')] db1) = (Inr items, db2) \<and>
     item\<lparr>mi_state := MailDelivered\<rparr> \<in> set items"
proof -
  from demo_sent obtain item db1 where s: "demo_send ''m1'' [(''do'', JStr ''it'')] 5 (demo_db demo_team) = (Inr item, db1)"
    "mi_state item = MailPending" by auto
  have ops: "timely gs_legal 6 [(6, GsReceive ''n1'')]" "\<forall>x \<in> set [(6, GsReceive ''n1'')]. snd x \<noteq> GsAcknowledge (mi_item_id item) ''n1''"
    by simp_all
  have "mi_state item \<noteq> MailAcknowledged" using s(2) by simp
  from mail_until_acknowledged [OF opens_plain_cipher demo_timely(1) demo_db_def s(1) [unfolded demo_send_def] this ops, of 9] s(1)
  show ?thesis by blast
qed

theorem correlated_send_idempotent_witness:
  "\<exists>item db1 st. demo_send ''m1'' [(''do'', JStr ''it'')] 5 (demo_db demo_team) = (Inr item, db1) \<and>
     demo_send ''m2'' [(''do'', JStr ''it'')] 9 (timed_run (gs_step plain_cipher) [(6, GsAcknowledge ''m1'' ''n1'')] db1) =
       (Inr (item\<lparr>mi_state := st\<rparr>), timed_run (gs_step plain_cipher) [(6, GsAcknowledge ''m1'' ''n1'')] db1)"
proof -
  from demo_sent obtain item db1 where s: "demo_send ''m1'' [(''do'', JStr ''it'')] 5 (demo_db demo_team) = (Inr item, db1)"
    "mi_payload item = [(''do'', JStr ''it'')]" by auto
  have ops: "timely gs_legal 6 [(6, GsAcknowledge ''m1'' ''n1'')]" by simp
  have eq: "py_eq (JObj (mi_payload item)) (JObj [(''do'', JStr ''it'')])" unfolding s(2) by code_simp
  from correlated_send_idempotent [OF opens_plain_cipher demo_timely(1) demo_db_def s(1) [unfolded demo_send_def] ops refl,
      of "''m2''" "[(''do'', JStr ''it'')]" 9] eq s(1)
  show ?thesis by (auto simp: demo_send_def)
qed

theorem lease_ready_progress_witness:
  "\<exists>ns db'. lease_ready plain_cipher ''g'' ''w'' 5 100 2 (demo_db demo_team) = (Inr ns, db') \<and> length ns = 1"
proof -
  have "map_option (\<lambda>g. (gr_status g, gr_max_concurrency g)) (find_graph ''g'' (demo_db demo_team)) = Some (GraphActive, 3)" by code_simp
  then obtain g where g: "find_graph ''g'' (demo_db demo_team) = Some g" "gr_status g = GraphActive" "gr_max_concurrency g = 3" by auto
  have n: "int (running_count ''g'' (reclaim_nodes ''g'' 5 (demo_db demo_team))) = 0"
    "int (length (filter (node_leasable ''g'' 5 (reclaim_nodes ''g'' 5 (demo_db demo_team)))
       (ag_nodes (reclaim_nodes ''g'' 5 (demo_db demo_team))))) = 1" by code_simp+
  have side: "(1::int) \<le> 100" "(1::int) \<le> 2" "''w'' \<noteq> []" by simp_all
  from lease_ready_progress [OF opens_plain_cipher demo_timely(1) demo_db_def g(1,2) side refl, of 5] g(3)
  show ?thesis unfolding n by auto
qed

end
