(* ===== verification/GraphMerge.thy ===== *)
theory GraphMerge
  imports Supervisor
begin

text \<open>
  \<open>MultiAgentSupervisor.merge_artifacts\<close> against a reference that says, for one key at a time, what the
  artifacts claim: agreed values are merged and contradicting ones reported in the order of their first
  occurrence.
\<close>

section \<open>The reference\<close>

text \<open>Everything the artifacts say about a key, in order.\<close>

definition said_of :: "artifact list \<Rightarrow> string \<Rightarrow> json list" where
  "said_of as k = map snd (filter (\<lambda>p. fst p = k) (concat (map artifact_claims as)))"

text \<open>The values that are not equal to an earlier one.\<close>

definition first_said :: "json list \<Rightarrow> json list" where
  "first_said vs = map (nth vs) (filter (\<lambda>i. \<forall>j<i. \<not> py_eq (vs ! j) (vs ! i)) [0..<length vs])"

definition agreed :: "json list \<Rightarrow> bool" where
  "agreed vs \<longleftrightarrow> (\<forall>v \<in> set vs. py_eq (hd vs) v)"

section \<open>Collecting the claims\<close>

lemma py_eq_sym: "py_eq v w \<longleftrightarrow> py_eq w v" by (auto simp: py_eq_def)

lemma py_eq_trans: "py_eq u v \<Longrightarrow> py_eq v w \<Longrightarrow> py_eq u w" by (simp add: py_eq_def)

definition values_of :: "string \<Rightarrow> (string \<times> json list) list \<Rightarrow> json list" where
  "values_of k d = (case map_of d k of None \<Rightarrow> [] | Some vs \<Rightarrow> vs)"

lemma add_claim_values: "values_of k (add_claim k' v d) = values_of k d @ (if k = k' then [v] else [])"
  by (induction k' v d rule: add_claim.induct) (auto simp: values_of_def)

lemma add_claim_keys: "distinct (map fst d) \<Longrightarrow> distinct (map fst (add_claim k v d))"
  "fst ` set (add_claim k v d) = insert k (fst ` set d)"
proof -
  have keys: "fst ` set (add_claim k v d) = insert k (fst ` set d)" for k v d
    by (induction k v d rule: add_claim.induct) auto
  then show "fst ` set (add_claim k v d) = insert k (fst ` set d)" .
  show "distinct (map fst d) \<Longrightarrow> distinct (map fst (add_claim k v d))"
    by (induction k v d rule: add_claim.induct) (simp_all add: keys)
qed

lemma add_claim_full: "[] \<notin> snd ` set d \<Longrightarrow> [] \<notin> snd ` set (add_claim k v d)"
  by (induction k v d rule: add_claim.induct) auto

lemma claims_by_key_spec:
  "distinct (map fst (claims_by_key as))" "values_of k (claims_by_key as) = said_of as k" "[] \<notin> snd ` set (claims_by_key as)"
proof -
  let ?fold = "\<lambda>ps d. fold (\<lambda>(k, v). add_claim k v) ps d"
  have "distinct (map fst d) \<Longrightarrow> distinct (map fst (?fold ps d))" for ps d
    by (induction ps arbitrary: d) (auto simp: add_claim_keys)
  then show "distinct (map fst (claims_by_key as))" by (simp add: claims_by_key_def)
  have "[] \<notin> snd ` set d \<Longrightarrow> [] \<notin> snd ` set (?fold ps d)" for ps d
    by (induction ps arbitrary: d) (auto simp del: image_iff intro!: add_claim_full)
  then show "[] \<notin> snd ` set (claims_by_key as)" by (simp add: claims_by_key_def)
  have "values_of k (?fold ps d) = values_of k d @ map snd (filter (\<lambda>p. fst p = k) ps)" for ps d
    by (induction ps arbitrary: d) (auto simp: add_claim_values)
  then show "values_of k (claims_by_key as) = said_of as k" by (simp add: claims_by_key_def said_of_def values_of_def)
qed

section \<open>First occurrences\<close>

lemma py_unique_snoc: "py_unique seen (vs @ [v]) =
    (let u = py_unique seen vs in if list_ex (\<lambda>w. py_eq w v) u then u else u @ [v])"
  by (induction seen vs rule: py_unique.induct) (auto simp: Let_def)

lemma py_unique_covers: "list_ex (\<lambda>w. py_eq w v) (py_unique [] vs) \<longleftrightarrow> (\<exists>w \<in> set vs. py_eq w v)"
proof (induction vs arbitrary: v rule: rev_induct)
  case (snoc x vs)
  show ?case
  proof (cases "list_ex (\<lambda>w. py_eq w x) (py_unique [] vs)")
    case True
    then have "\<exists>w \<in> set vs. py_eq w x" by (simp add: snoc.IH)
    then have "(\<exists>w \<in> set vs. py_eq w v) \<longleftrightarrow> (\<exists>w \<in> set (vs @ [x]). py_eq w v)" by (auto intro: py_eq_trans)
    with True show ?thesis using snoc.IH [of v] by (simp add: py_unique_snoc Let_def)
  next
    case False
    then show ?thesis using snoc.IH [of v] by (auto simp: py_unique_snoc Let_def)
  qed
qed simp

lemma first_said_snoc: "first_said (vs @ [v]) = first_said vs @ (if \<exists>w \<in> set vs. py_eq w v then [] else [v])"
proof -
  have "map ((!) (vs @ [v])) (filter (\<lambda>i. \<forall>j<i. \<not> py_eq ((vs @ [v]) ! j) ((vs @ [v]) ! i)) [0..<length vs]) = first_said vs"
    unfolding first_said_def by (rule map_cong) (auto simp: nth_append intro!: filter_cong)
  moreover have "(\<forall>j<length vs. \<not> py_eq (vs ! j) v) \<longleftrightarrow> \<not> (\<exists>w \<in> set vs. py_eq w v)" by (metis in_set_conv_nth)
  ultimately show ?thesis by (auto simp: first_said_def nth_append)
qed

lemma py_unique_first_said: "py_unique [] vs = first_said vs"
proof (induction vs rule: rev_induct)
  case (snoc v vs)
  then show ?case using py_unique_covers [of v vs] by (simp add: py_unique_snoc first_said_snoc Let_def)
qed (simp add: first_said_def)

lemma first_said_agreed: "vs \<noteq> [] \<Longrightarrow> (if agreed vs then first_said vs = [hd vs] else 1 < length (first_said vs))"
proof (induction vs rule: rev_induct)
  case (snoc v vs)
  show ?case
  proof (cases "vs = []")
    case True
    then show ?thesis by (simp add: first_said_def agreed_def)
  next
    case False
    show ?thesis
    proof (cases "agreed vs")
      case True
      then have "(\<exists>w \<in> set vs. py_eq w v) \<longleftrightarrow> py_eq (hd vs) v"
        using False unfolding agreed_def by (meson hd_in_set py_eq_sym py_eq_trans)
      moreover have "agreed (vs @ [v]) \<longleftrightarrow> py_eq (hd vs) v" using True False by (auto simp: agreed_def)
      ultimately show ?thesis using snoc.IH True False by (simp add: first_said_snoc)
    next
      case contradiction: False
      then have "\<not> agreed (vs @ [v])" using False by (auto simp: agreed_def)
      with contradiction False snoc.IH show ?thesis by (simp add: first_said_snoc)
    qed
  qed
qed simp

section \<open>Equivalence\<close>

lemma map_of_map_filter:
  "distinct (map fst d) \<Longrightarrow> map_of (List.map_filter (\<lambda>(k, u). map_option (Pair k) (f u)) d) k =
     (case map_of d k of None \<Rightarrow> None | Some u \<Rightarrow> f u)"
  by (induction d) (auto simp: List.map_filter_def map_of_eq_None_iff image_iff split: option.splits)

lemma map_of_filter_value:
  "distinct (map fst d) \<Longrightarrow> map_of (filter (\<lambda>(k, u). P u) d) k =
     (case map_of d k of None \<Rightarrow> None | Some u \<Rightarrow> if P u then Some u else None)"
  by (induction d) (auto simp: map_of_eq_None_iff image_iff split: option.splits)

text \<open>
  C21. Merging artifacts is equivalent to the reference: a key is merged with the first value said of it
  when all values said of it are equal, and is reported as a conflict with its distinct values, in the
  order of their first occurrence, when they are not; a key nobody claims is in neither.
\<close>

theorem merge_artifacts_equivalent:
  "am_artifacts (merge_artifacts as) = as \<and>
   map_of (am_claims (merge_artifacts as)) k =
     (if said_of as k \<noteq> [] \<and> agreed (said_of as k) then Some (hd (said_of as k)) else None) \<and>
   map_of (am_conflicts (merge_artifacts as)) k =
     (if said_of as k \<noteq> [] \<and> \<not> agreed (said_of as k) then Some (first_said (said_of as k)) else None)"
proof -
  let ?grouped = "map (\<lambda>(k, vs). (k, py_unique [] vs)) (claims_by_key as)"
  note spec = claims_by_key_spec [where as = as]
  have "map fst ?grouped = map fst (claims_by_key as)" by auto
  then have d: "distinct (map fst ?grouped)" using spec(1) by metis
  have "map_of ?grouped k = map_option (py_unique []) (map_of (claims_by_key as) k)"
    by (simp add: map_of_map)
  moreover have "map_of (claims_by_key as) k = (if said_of as k = [] then None else Some (said_of as k))"
    using spec(2) [of k] spec(3) by (force simp: values_of_def dest: map_of_SomeD split: option.splits)
  ultimately have g: "map_of ?grouped k = (if said_of as k = [] then None else Some (first_said (said_of as k)))"
    by (simp add: py_unique_first_said)
  have "am_claims (merge_artifacts as) =
      List.map_filter (\<lambda>(k, u). map_option (Pair k) (case u of [v] \<Rightarrow> Some v | _ \<Rightarrow> None)) ?grouped"
    unfolding merge_artifacts_def Let_def artifact_merge.simps
    by (rule arg_cong [where f = "\<lambda>f. List.map_filter f ?grouped"]) (auto simp: fun_eq_iff split: list.splits)
  then have "map_of (am_claims (merge_artifacts as)) k =
      (case map_of ?grouped k of None \<Rightarrow> None | Some u \<Rightarrow> (case u of [v] \<Rightarrow> Some v | _ \<Rightarrow> None))"
    using map_of_map_filter [OF d, of "\<lambda>u. case u of [v] \<Rightarrow> Some v | _ \<Rightarrow> None" k] by metis
  moreover have "map_of (am_conflicts (merge_artifacts as)) k =
      (case map_of ?grouped k of None \<Rightarrow> None | Some u \<Rightarrow> if length u \<noteq> 1 then Some u else None)"
    using map_of_filter_value [OF d, of "\<lambda>u. length u \<noteq> 1" k] by (simp add: merge_artifacts_def Let_def)
  moreover have "am_artifacts (merge_artifacts as) = as" by (simp add: merge_artifacts_def Let_def)
  ultimately show ?thesis
    using g first_said_agreed [of "said_of as k"] by (auto split: list.splits if_splits)
qed

end
