(* ===== verification/Dicts.thy ===== *)
theory Dicts
  imports Prelude "HOL-Library.Multiset"
begin

text \<open>
  Python dictionaries as association lists in insertion order with distinct keys: assignment keeps the
  place of a key that is there, deletion removes it.
\<close>

fun dict_put :: "'k \<Rightarrow> 'v \<Rightarrow> ('k \<times> 'v) list \<Rightarrow> ('k \<times> 'v) list" where
  "dict_put k v [] = [(k, v)]"
| "dict_put k v ((k', v') # rest) = (if k = k' then (k, v) # rest else (k', v') # dict_put k v rest)"

text \<open>A dictionary comprehension: a repeated key keeps its place and takes the last value.\<close>

definition dict_of :: "('k \<times> 'v) list \<Rightarrow> ('k \<times> 'v) list" where
  "dict_of ps = fold (\<lambda>(k, v). dict_put k v) ps []"

fun dict_drop :: "'k \<Rightarrow> ('k \<times> 'v) list \<Rightarrow> ('k \<times> 'v) list" where
  "dict_drop k [] = []"
| "dict_drop k ((k', v) # rest) = (if k = k' then rest else (k', v) # dict_drop k rest)"

lemma map_of_dict_put: "map_of (dict_put k v d) = (map_of d)(k \<mapsto> v)"
  by (induction d) auto

lemma dict_put_keys: "distinct (map fst d) \<Longrightarrow> distinct (map fst (dict_put k v d))"
proof -
  have "set (map fst (dict_put k v d)) = insert k (set (map fst d))" for d :: "('a \<times> 'b) list"
    by (simp add: dom_map_of_conv_image_fst [symmetric] map_of_dict_put)
  then show "distinct (map fst d) \<Longrightarrow> distinct (map fst (dict_put k v d))"
    by (induction d) auto
qed

lemma dict_of_keys: "distinct (map fst (dict_of ps))"
proof -
  have "distinct (map fst d) \<Longrightarrow> distinct (map fst (fold (\<lambda>(k, v). dict_put k v) ps d))" for d
    by (induction ps arbitrary: d) (auto simp: dict_put_keys)
  then show ?thesis by (simp add: dict_of_def)
qed

lemma map_of_dict_of: "map_of (dict_of ps) = map_of (rev ps)"
proof -
  have "map_of (fold (\<lambda>(k, v). dict_put k v) ps d) = map_of (rev ps @ d)" for d
    by (induction ps arbitrary: d) (auto simp: map_of_dict_put map_of_append fun_eq_iff map_add_def split: option.splits)
  from this [of "[]"] show ?thesis by (simp add: dict_of_def)
qed

lemma dict_put_new: "map_of d k = None \<Longrightarrow> dict_put k v d = d @ [(k, v)]"
  by (induction d) (auto split: if_splits)

lemma dict_drop_set: "distinct (map fst d) \<Longrightarrow> set (dict_drop k d) = {p \<in> set d. fst p \<noteq> k}"
proof (induction k d rule: dict_drop.induct)
  case (2 k k' v rest)
  then have "k' \<notin> fst ` set rest" by simp
  then have "k = k' \<Longrightarrow> {p \<in> set rest. fst p \<noteq> k} = set rest" by force
  with 2 show ?case by auto
qed simp

lemma dict_put_set: "distinct (map fst d) \<Longrightarrow> set (dict_put k v d) = insert (k, v) {p \<in> set d. fst p \<noteq> k}"
proof (induction k v d rule: dict_put.induct)
  case (2 k v k' v' rest)
  then have "k' \<notin> fst ` set rest" by simp
  then have "k = k' \<Longrightarrow> {p \<in> set rest. fst p \<noteq> k} = set rest" by force
  with 2 show ?case by auto
qed simp

lemma dict_drop_distinct: "distinct (map fst d) \<Longrightarrow> distinct (map fst (dict_drop k d))"
  by (induction k d rule: dict_drop.induct) (auto simp: dict_drop_set)

lemma map_of_dict_drop: "distinct (map fst d) \<Longrightarrow> map_of (dict_drop k d) = (map_of d)(k := None)"
  by (induction k d rule: dict_drop.induct) (auto simp: fun_eq_iff map_of_eq_None_iff)

text \<open>A dictionary of lists, flattened to the pairs of key and member.\<close>

definition entries :: "('k \<times> 'v list) list \<Rightarrow> ('k \<times> 'v) list" where
  "entries d = concat (map (\<lambda>(k, vs). map (Pair k) vs) d)"

lemma entries_simps [simp]:
  "entries [] = []" "entries ((k, vs) # d) = map (Pair k) vs @ entries d"
  by (simp_all add: entries_def)

lemma entries_put:
  "map_of d k = Some vs \<Longrightarrow> mset (entries (dict_put k ws d)) + mset (map (Pair k) vs) =
     mset (entries d) + mset (map (Pair k) ws)"
  by (induction k ws d rule: dict_put.induct) (auto split: if_splits)

lemma entries_put_new: "map_of d k = None \<Longrightarrow> entries (dict_put k ws d) = entries d @ map (Pair k) ws"
  by (induction k ws d rule: dict_put.induct) (auto split: if_splits)

lemma entries_drop: "map_of d k = Some vs \<Longrightarrow> mset (entries (dict_drop k d)) + mset (map (Pair k) vs) = mset (entries d)"
  by (induction k d rule: dict_drop.induct) (auto split: if_splits)

lemma entries_mem: "map_of d k = Some vs \<Longrightarrow> v \<in> set vs \<Longrightarrow> (k, v) \<in> set (entries d)"
  by (induction d) (auto split: if_splits)

lemma entries_keys: "p \<in> set (entries d) \<Longrightarrow> fst p \<in> fst ` set d"
  by (induction d) auto

end
