(* ===== verification/Resources.thy ===== *)
theory Resources
  imports RunTypes Dicts
begin

text \<open>
  \<open>ResourcePackage\<close>, \<open>LoadedResources\<close> and \<open>ResourceLoader\<close> of \<open>runtime/resources.py\<close>: the packages
  an agent definition names, loaded in the order in which it names them. Reading the bundled JSON
  files is not modelled; the fields a package is built from are the arguments of \<open>resource_package_of\<close>.
\<close>

record resource_package =
  rp_package_id :: string
  rp_version :: string
  rp_instructions :: "string list"
  rp_policies :: "string list"
  rp_response_templates :: "string list"

text \<open>\<open>re.fullmatch(r"[a-z0-9][a-z0-9-]*", id)\<close> and \<open>re.fullmatch(r"[1-9]\d*\.\d+\.\d+", version)\<close>\<close>

definition lower_or_digit :: "char \<Rightarrow> bool" where
  "lower_or_digit ch \<longleftrightarrow> (let n = of_char ch :: nat in 97 \<le> n \<and> n \<le> 122 \<or> 48 \<le> n \<and> n \<le> 57)"

definition decimal_digit :: "char \<Rightarrow> bool" where
  "decimal_digit ch \<longleftrightarrow> (let n = of_char ch :: nat in 48 \<le> n \<and> n \<le> 57)"

fun package_id_ok :: "string \<Rightarrow> bool" where
  "package_id_ok [] = False"
| "package_id_ok (ch # rest) = (lower_or_digit ch \<and> list_all (\<lambda>x. lower_or_digit x \<or> x = CHR ''-'') rest)"

text \<open>The parts of a text between dots.\<close>

fun dot_parts :: "string \<Rightarrow> string \<Rightarrow> string list" where
  "dot_parts part [] = [part]"
| "dot_parts part (ch # rest) =
     (if ch = CHR ''.'' then part # dot_parts [] rest else dot_parts (part @ [ch]) rest)"

definition version_ok :: "string \<Rightarrow> bool" where
  "version_ok v = (case dot_parts [] v of
     [a, b, c] \<Rightarrow> a \<noteq> [] \<and> b \<noteq> [] \<and> c \<noteq> [] \<and> hd a \<noteq> CHR ''0'' \<and> list_all decimal_digit (a @ b @ c)
   | _ \<Rightarrow> False)"

definition check_resource_package :: "resource_package \<Rightarrow> exn + resource_package" where
  "check_resource_package p =
     (if \<not> package_id_ok (rp_package_id p) \<or> \<not> version_ok (rp_version p) \<or>
         rp_instructions p = [] \<or> rp_policies p = []
      then Inl (ValueError ''resource package identity is required'') else Inr p)"

record loaded_resources =
  lr_versions :: "(string \<times> string) list"
  lr_instructions :: "string list"
  lr_policies :: "string list"
  lr_response_templates :: "string list"

text \<open>\<open>ResourceLoader.__init__\<close>: the packages by identity, in insertion order.\<close>

type_synonym resource_loader = "(string \<times> resource_package) list"

fun add_packages :: "resource_loader \<Rightarrow> resource_package list \<Rightarrow> exn + resource_loader" where
  "add_packages known [] = Inr known"
| "add_packages known (p # ps) =
     (if map_of known (rp_package_id p) \<noteq> None
      then Inl (ValueError (''duplicate resource package: '' @ rp_package_id p))
      else add_packages (known @ [(rp_package_id p, p)]) ps)"

definition new_resource_loader :: "resource_package list \<Rightarrow> exn + resource_loader" where
  "new_resource_loader ps = add_packages [] ps"

fun named_packages :: "resource_loader \<Rightarrow> string list \<Rightarrow> exn + resource_package list" where
  "named_packages known [] = Inr []"
| "named_packages known (i # is) = (case map_of known i of
     None \<Rightarrow> Inl (LookupError (''resource package is unavailable: '' @ i))
   | Some p \<Rightarrow> chain (named_packages known is) (\<lambda>ps. Inr (p # ps)))"

definition load_resources :: "resource_loader \<Rightarrow> string list \<Rightarrow> exn + loaded_resources" where
  "load_resources known ids = chain (named_packages known ids) (\<lambda>ps.
     Inr \<lparr>lr_versions = dict_of (map (\<lambda>p. (rp_package_id p, rp_version p)) ps),
          lr_instructions = concat (map rp_instructions ps),
          lr_policies = concat (map rp_policies ps),
          lr_response_templates = concat (map rp_response_templates ps)\<rparr>)"

end
