(* ===== verification/ContextEngine.thy ===== *)
theory ContextEngine
  imports Resources "HOL-Library.Sublist"
begin

text \<open>
  \<open>ContextEngine\<close> of \<open>runtime/context.py\<close>: the messages of a turn, trimmed to the token capacity of the
  agent definition. The trimming loop is a partial function: \<open>None\<close> would be a loop that does not
  return.
\<close>

section \<open>Messages\<close>

record context_evidence =
  ce_source_ref :: string
  ce_content :: string
  ce_source_version :: string
  ce_required :: bool

record context_build =
  cb_messages :: "model_message list"
  cb_source_versions :: "(string \<times> string) list"
  cb_truncated_sources :: "string list"
  cb_estimated_tokens :: int
  cb_journal_compacted :: bool
  cb_input_message_count :: nat

definition plain_message :: "message_role \<Rightarrow> string \<Rightarrow> bool \<Rightarrow> model_message" where
  "plain_message role content trusted = \<lparr>mm_role = role, mm_content = content, mm_name = None,
     mm_tool_call_id = None, mm_trusted = trusted, mm_tool_calls = []\<rparr>"

text \<open>Instructions and policies, which the trimming never touches.\<close>

definition stable_messages :: "agent_definition \<Rightarrow> loaded_resources \<Rightarrow> model_message list" where
  "stable_messages d r = plain_message SYSTEM (ad_instructions d) True
     # map (\<lambda>i. plain_message SYSTEM i True) (lr_instructions r)
     @ map (\<lambda>p. plain_message SYSTEM (''Policy constraint: '' @ p) True) (lr_policies r)"

definition line_feed :: char where
  "line_feed = CHR 0x0A"

definition evidence_message :: "context_evidence \<Rightarrow> model_message" where
  "evidence_message e = plain_message USER
     (''Untrusted source evidence ['' @ ce_source_ref e @ '']:'' @ [line_feed] @ ce_content e) False"

definition estimate_tokens :: "model_message list \<Rightarrow> int" where
  "estimate_tokens ms = (\<Sum>m\<leftarrow>ms. max 1 ((int (length (mm_content m)) + 3) div 4) + 4)"

section \<open>Compacting the journal\<close>

fun join_with :: "string \<Rightarrow> string list \<Rightarrow> string" where
  "join_with sep [] = []"
| "join_with sep [s] = s"
| "join_with sep (s # ss) = s @ sep @ join_with sep ss"

definition structured_summary :: "model_message list \<Rightarrow> string" where
  "structured_summary ms = (if ms = [] then []
     else ''Compacted complete prior turns (unverified claims remain claims):'' @ [line_feed] @
       join_with [line_feed] (map (\<lambda>m. message_role_value (mm_role m) @ '': '' @ take 240 (mm_content m)) ms))"

text \<open>The cut moves back over tool results, so that a result stays with the turn that asked for it.\<close>

fun cut_back :: "model_message list \<Rightarrow> nat \<Rightarrow> nat" where
  "cut_back journal 0 = 0"
| "cut_back journal (Suc n) = (if mm_role (journal ! Suc n) = TOOL then cut_back journal n else Suc n)"

definition journal_cut :: "model_message list \<Rightarrow> nat" where
  "journal_cut journal = cut_back journal (length journal - min 6 (length journal))"

definition compact_journal ::
  "model_message list \<Rightarrow> model_message list \<Rightarrow> model_message \<Rightarrow> model_message list \<Rightarrow> model_message list" where
  "compact_journal fixed evidence request journal =
     (let cut = journal_cut journal; summary = structured_summary (take cut journal) in
      fixed @ evidence @ [request]
        @ (if summary \<noteq> [] then [plain_message SYSTEM summary True] else []) @ drop cut journal)"

section \<open>Trimming\<close>

text \<open>
  The first optional piece of evidence with a message that is still in the list. \<open>in\<close> and \<open>remove\<close>
  compare messages by value, and \<open>remove\<close> takes out the first that is equal.
\<close>

definition removable :: "context_evidence list \<Rightarrow> model_message list \<Rightarrow> context_evidence option" where
  "removable evidence messages =
     find (\<lambda>e. \<not> ce_required e \<and> List.member messages (evidence_message e)) evidence"

type_synonym trimmed = "exn + model_message list \<times> string list \<times> bool"

partial_function (option) trim_messages ::
  "int \<Rightarrow> context_evidence list \<Rightarrow> model_message list \<Rightarrow> model_message \<Rightarrow> model_message list \<Rightarrow>
     model_message list \<Rightarrow> string list \<Rightarrow> trimmed option" where
  "trim_messages capacity evidence fixed request journal messages truncated =
     (if estimate_tokens messages \<le> capacity then Some (Inr (messages, truncated, False))
      else (case removable evidence messages of
        Some e \<Rightarrow> trim_messages capacity evidence fixed request journal
          (remove1 (evidence_message e) messages) (truncated @ [ce_source_ref e])
      | None \<Rightarrow> if journal = []
          then Some (Inl (ValueError ''required context exceeds the AgentDefinition context capacity''))
          else Some (Inr (compact_journal fixed
            (filter (List.member messages) (map evidence_message evidence)) request journal, truncated, True))))"

declare trim_messages.simps [code]

definition build_context ::
  "agent_definition \<Rightarrow> loaded_resources \<Rightarrow> string \<Rightarrow> context_evidence list \<Rightarrow> model_message list \<Rightarrow>
     (exn + context_build) option" where
  "build_context d r user_request evidence journal =
     (let fixed = stable_messages d r; request = plain_message USER user_request False;
          messages = fixed @ map evidence_message evidence @ [request] @ journal in
      Option.bind (trim_messages (ad_max_context_tokens d) evidence fixed request journal messages [])
        (\<lambda>t. Some (chain t (\<lambda>(kept, truncated, compacted).
           if ad_max_context_tokens d < estimate_tokens kept
           then Inl (ValueError ''compacted context exceeds the AgentDefinition context capacity'')
           else Inr \<lparr>cb_messages = kept,
             cb_source_versions = dict_of (map (\<lambda>e. (ce_source_ref e, ce_source_version e)) evidence),
             cb_truncated_sources = truncated, cb_estimated_tokens = estimate_tokens kept,
             cb_journal_compacted = compacted, cb_input_message_count = length messages\<rparr>))))"

section \<open>The loop ends\<close>

lemma removable_mem:
  "removable evidence messages = Some e \<Longrightarrow> e \<in> set evidence \<and> \<not> ce_required e \<and> evidence_message e \<in> set messages"
  unfolding removable_def by (auto dest: find_in_set)

text \<open>What every round keeps, stated over the messages it starts from.\<close>

lemma trim_messages_result:
  assumes base: "I messages" and step: "\<And>ms e. I ms \<Longrightarrow> removable evidence ms = Some e \<Longrightarrow> I (remove1 (evidence_message e) ms)"
  shows "\<exists>t. trim_messages capacity evidence fixed request journal messages truncated = Some t \<and>
    (case t of Inl x \<Rightarrow> x = ValueError ''required context exceeds the AgentDefinition context capacity'' \<and> journal = []
     | Inr (kept, _, compacted) \<Rightarrow>
         if compacted then journal \<noteq> [] \<and> (\<exists>ms. I ms \<and> kept = compact_journal fixed (filter (List.member ms) (map evidence_message evidence)) request journal)
         else I kept \<and> estimate_tokens kept \<le> capacity)"
  using base
proof (induction "length messages" arbitrary: messages truncated rule: less_induct)
  case less
  show ?case
  proof (cases "estimate_tokens messages \<le> capacity")
    case True
    with less.prems show ?thesis by (simp add: trim_messages.simps)
  next
    case False
    show ?thesis
    proof (cases "removable evidence messages")
      case None
      with False less.prems show ?thesis by (auto simp: trim_messages.simps)
    next
      case (Some e)
      have mem: "evidence_message e \<in> set messages" using removable_mem [OF Some] by blast
      then have "messages \<noteq> []" by auto
      with mem have "length (remove1 (evidence_message e) messages) < length messages" by (simp add: length_remove1)
      from less.hyps [OF this step [OF less.prems Some]] show ?thesis
        using False Some by (subst trim_messages.simps) simp
    qed
  qed
qed

text \<open>
  C29. Building a context always returns: the trimming loop ends, with an error or with messages whose
  estimate is reported and within the capacity of the agent definition.
\<close>

theorem context_build_returns:
  "\<exists>t. build_context d r user_request evidence journal = Some t \<and>
     (case t of Inl x \<Rightarrow> is_value_error x
      | Inr b \<Rightarrow> estimate_tokens (cb_messages b) \<le> ad_max_context_tokens d \<and>
          cb_estimated_tokens b = estimate_tokens (cb_messages b) \<and> (cb_journal_compacted b \<longrightarrow> journal \<noteq> []))"
proof -
  let ?fixed = "stable_messages d r" and ?request = "plain_message USER user_request False"
  obtain t where t: "trim_messages (ad_max_context_tokens d) evidence ?fixed ?request journal
      (?fixed @ map evidence_message evidence @ [?request] @ journal) [] = Some t"
    "case t of Inl x \<Rightarrow> x = ValueError ''required context exceeds the AgentDefinition context capacity'' \<and> journal = []
     | Inr (kept, _, compacted) \<Rightarrow> if compacted then journal \<noteq> [] \<and> (\<exists>ms. True \<and> kept = compact_journal ?fixed
            (filter (List.member ms) (map evidence_message evidence)) ?request journal)
         else True \<and> estimate_tokens kept \<le> ad_max_context_tokens d"
    using trim_messages_result [of "\<lambda>_. True", OF TrueI] by blast
  with t show ?thesis
    by (cases t) (auto simp: build_context_def Let_def split: prod.splits)
qed

section \<open>What is kept\<close>

lemma cut_back_le: "cut_back journal n \<le> n"
  by (induction n) auto

lemma cut_back_turn: "cut_back journal n = 0 \<or> mm_role (journal ! cut_back journal n) \<noteq> TOOL"
  by (induction n) auto

lemma stable_system: "m \<in> set (stable_messages d r) \<Longrightarrow> mm_role m = SYSTEM"
  by (auto simp: stable_messages_def plain_message_def)

lemma evidence_user [simp]: "mm_role (evidence_message e) = USER"
  by (simp add: evidence_message_def plain_message_def)

text \<open>The shape of the list while it is trimmed.\<close>

definition trimmed_list ::
  "model_message list \<Rightarrow> context_evidence list \<Rightarrow> model_message list \<Rightarrow> model_message list \<Rightarrow> model_message list \<Rightarrow> bool" where
  "trimmed_list fixed evidence rest ms kept \<longleftrightarrow> ms = fixed @ kept @ rest \<and> subseq kept (map evidence_message evidence) \<and>
     (\<forall>e \<in> set evidence. ce_required e \<longrightarrow> evidence_message e \<in> set kept)"

definition clear_evidence :: "context_evidence list \<Rightarrow> model_message list \<Rightarrow> bool" where
  "clear_evidence evidence rest \<longleftrightarrow> (\<forall>e \<in> set evidence. evidence_message e \<notin> set rest \<and>
     (\<not> ce_required e \<longrightarrow> (\<forall>f \<in> set evidence. ce_required f \<longrightarrow> evidence_message f \<noteq> evidence_message e)))"

lemma subseq_remove1: "subseq (remove1 x xs) xs"
  by (induction xs) auto

lemma trimmed_step:
  assumes "trimmed_list fixed evidence rest ms kept" "removable evidence ms = Some e" "clear_evidence evidence rest"
    and "\<forall>m \<in> set fixed. mm_role m = SYSTEM"
  shows "trimmed_list fixed evidence rest (remove1 (evidence_message e) ms) (remove1 (evidence_message e) kept)"
proof -
  from removable_mem [OF assms(2)] have e: "e \<in> set evidence" "\<not> ce_required e" "evidence_message e \<in> set ms" by blast+
  have "evidence_message e \<notin> set fixed" using assms(4) evidence_user [of e] by (metis message_role.distinct(1))
  moreover have "evidence_message e \<notin> set rest" using assms(3) e(1) by (simp add: clear_evidence_def)
  moreover have "evidence_message f \<in> set (remove1 (evidence_message e) kept)"
    if "f \<in> set evidence" "ce_required f" for f
    using that assms(1,3) e(1,2) by (simp add: trimmed_list_def clear_evidence_def in_set_remove1)
  moreover have "subseq (remove1 (evidence_message e) kept) (map evidence_message evidence)"
    using subseq_order.trans [OF subseq_remove1, of kept "map evidence_message evidence"] assms(1)
    by (simp add: trimmed_list_def)
  ultimately show ?thesis using assms(1) by (auto simp: trimmed_list_def remove1_append remove1_idem)
qed

text \<open>
  Trimming keeps what must be kept: when no message of the evidence occurs in the request or the
  journal and no optional piece of evidence has the message of a required one, a context that is built
  is the instructions and policies, a selection of the evidence with every required piece, the request,
  and the journal, or a summary of its older part followed by its last messages, cut where no tool
  result is separated from its turn.
\<close>

theorem required_context_kept:
  assumes "build_context d r user_request evidence journal = Some (Inr b)"
    and "clear_evidence evidence (plain_message USER user_request False # journal)"
  shows "\<exists>kept. subseq kept (map evidence_message evidence) \<and>
    (\<forall>e \<in> set evidence. ce_required e \<longrightarrow> evidence_message e \<in> set kept) \<and>
    (if cb_journal_compacted b
     then cb_messages b = compact_journal (stable_messages d r) kept (plain_message USER user_request False) journal \<and>
       (journal_cut journal = 0 \<or> mm_role (journal ! journal_cut journal) \<noteq> TOOL) \<and>
       min 6 (length journal) \<le> length (drop (journal_cut journal) journal)
     else cb_messages b = stable_messages d r @ kept @ plain_message USER user_request False # journal)"
proof -
  let ?fixed = "stable_messages d r" and ?request = "plain_message USER user_request False"
  let ?I = "\<lambda>ms. \<exists>kept. trimmed_list ?fixed evidence (?request # journal) ms kept"
  have base: "?I (?fixed @ map evidence_message evidence @ [?request] @ journal)"
    by (rule exI [of _ "map evidence_message evidence"]) (simp add: trimmed_list_def)
  have step: "?I (remove1 (evidence_message e) ms)" if "?I ms" "removable evidence ms = Some e" for ms e
    using trimmed_step [OF _ that(2) assms(2)] that(1) stable_system by blast
  let ?t = "trim_messages (ad_max_context_tokens d) evidence ?fixed ?request journal
      (?fixed @ map evidence_message evidence @ [?request] @ journal) []"
  from trim_messages_result [where I = ?I and evidence = evidence and messages = "?fixed @ map evidence_message evidence @ [?request] @ journal"
      and capacity = "ad_max_context_tokens d" and fixed = ?fixed and request = ?request and journal = journal and truncated = "[]", OF base step]
  obtain t0 where t0: "?t = Some t0" "case t0 of Inl x \<Rightarrow> x = ValueError ''required context exceeds the AgentDefinition context capacity'' \<and> journal = []
     | Inr (kept, _, compacted) \<Rightarrow> if compacted then journal \<noteq> [] \<and> (\<exists>ms. ?I ms \<and> kept = compact_journal ?fixed
            (filter (List.member ms) (map evidence_message evidence)) ?request journal)
         else ?I kept \<and> estimate_tokens kept \<le> ad_max_context_tokens d" by blast
  then obtain t where
    t: "trim_messages (ad_max_context_tokens d) evidence ?fixed ?request journal
      (?fixed @ map evidence_message evidence @ [?request] @ journal) [] = Some t"
    "case t of Inl x \<Rightarrow> True
     | Inr (ms, _, compacted) \<Rightarrow> if compacted then (\<exists>ms0. ?I ms0 \<and> ms = compact_journal ?fixed
            (filter (List.member ms0) (map evidence_message evidence)) ?request journal) else ?I ms"
    by (cases t0) (auto split: prod.splits if_splits)
  from assms(1) t(1) obtain ms tr where ms: "t = Inr (ms, tr, cb_journal_compacted b)" "cb_messages b = ms"
    by (cases t) (auto simp: build_context_def Let_def split: prod.splits if_splits)
  show ?thesis
  proof (cases "cb_journal_compacted b")
    case False
    with t(2) ms obtain kept where "trimmed_list ?fixed evidence (?request # journal) ms kept" by auto
    with False ms(2) show ?thesis by (auto simp: trimmed_list_def)
  next
    case True
    with t(2) ms obtain ms0 kept where k: "trimmed_list ?fixed evidence (?request # journal) ms0 kept"
      "ms = compact_journal ?fixed (filter (List.member ms0) (map evidence_message evidence)) ?request journal" by auto
    have "subseq (filter (List.member ms0) (map evidence_message evidence)) (map evidence_message evidence)" by simp
    moreover have "evidence_message e \<in> set (filter (List.member ms0) (map evidence_message evidence))"
      if "e \<in> set evidence" "ce_required e" for e using that k(1) by (auto simp: trimmed_list_def)
    moreover have "min 6 (length journal) \<le> length (drop (journal_cut journal) journal)"
      using cut_back_le [of journal "length journal - min 6 (length journal)"] by (auto simp: journal_cut_def)
    moreover have "journal_cut journal = 0 \<or> mm_role (journal ! journal_cut journal) \<noteq> TOOL"
      unfolding journal_cut_def by (rule cut_back_turn)
    ultimately show ?thesis using True ms(2) k(2)
      by (intro exI [of _ "filter (List.member ms0) (map evidence_message evidence)"]) simp
  qed
qed

section \<open>Concrete inputs\<close>

definition sample_definition :: "int \<Rightarrow> agent_definition" where
  "sample_definition tokens = \<lparr>ad_agent_id = ''agent'', ad_version = 1, ad_instructions = ''Help.'', ad_model_profile = ''default'',
     ad_tool_ids = [], ad_resource_packages = [], ad_budget_limits = [], ad_max_context_tokens = tokens,
     ad_require_verified_external_effect = True, ad_policy_version = 1, ad_compactor_version = 1\<rparr>"

definition sample_resources :: loaded_resources where
  "sample_resources = \<lparr>lr_versions = [], lr_instructions = [], lr_policies = [], lr_response_templates = []\<rparr>"

definition sample_evidence :: "string \<Rightarrow> bool \<Rightarrow> context_evidence" where
  "sample_evidence ref required = \<lparr>ce_source_ref = ref, ce_content = ''text'', ce_source_version = ''1'', ce_required = required\<rparr>"

lemma context_build_returns_witness:
  "\<exists>b. build_context (sample_definition 35) sample_resources ''hello''
       [sample_evidence ''a'' True, sample_evidence ''b'' False] [] = Some (Inr b) \<and>
     estimate_tokens (cb_messages b) \<le> 35 \<and> \<not> cb_journal_compacted b"
proof -
  let ?t = "build_context (sample_definition 35) sample_resources ''hello''
       [sample_evidence ''a'' True, sample_evidence ''b'' False] []"
  have "case ?t of Some (Inr b) \<Rightarrow> True | _ \<Rightarrow> False" by code_simp
  then obtain b where "?t = Some (Inr b)" by (auto split: option.splits sum.splits)
  with context_build_returns [of "sample_definition 35" sample_resources "''hello''"
      "[sample_evidence ''a'' True, sample_evidence ''b'' False]" "[]"]
  show ?thesis by (auto simp: sample_definition_def)
qed

text \<open>One optional piece of evidence is dropped, the required one stays.\<close>

lemma required_context_kept_witness:
  "\<exists>kept. subseq kept (map evidence_message [sample_evidence ''a'' True, sample_evidence ''b'' False]) \<and>
    (\<forall>e \<in> set [sample_evidence ''a'' True, sample_evidence ''b'' False]. ce_required e \<longrightarrow> evidence_message e \<in> set kept)"
proof -
  let ?evidence = "[sample_evidence ''a'' True, sample_evidence ''b'' False]"
  have "clear_evidence ?evidence (plain_message USER ''hello'' False # [])" by code_simp
  moreover have "case build_context (sample_definition 35) sample_resources ''hello'' ?evidence [] of
      Some (Inr b) \<Rightarrow> cb_truncated_sources b = [''b''] | _ \<Rightarrow> False" by code_simp
  then obtain b where "build_context (sample_definition 35) sample_resources ''hello'' ?evidence [] = Some (Inr b)"
    by (auto split: option.splits sum.splits)
  ultimately show ?thesis using required_context_kept by blast
qed

text \<open>
  The hypothesis of \<open>required_context_kept\<close> is needed: messages are compared by value, so an optional piece of evidence with
  the reference and the content of a required one makes the loop drop the required one too.
\<close>

lemma required_evidence_dropped:
  "let evidence = [sample_evidence ''a'' True, sample_evidence ''a'' False] in
   \<exists>b. build_context (sample_definition 14) sample_resources ''hello'' evidence [] = Some (Inr b) \<and>
     evidence_message (sample_evidence ''a'' True) \<notin> set (cb_messages b)"
proof -
  have "case build_context (sample_definition 14) sample_resources ''hello''
        [sample_evidence ''a'' True, sample_evidence ''a'' False] [] of
      Some (Inr b) \<Rightarrow> \<not> List.member (cb_messages b) (evidence_message (sample_evidence ''a'' True)) | _ \<Rightarrow> False"
    by code_simp
  then show ?thesis unfolding Let_def by (auto split: option.splits sum.splits)
qed

end
