(* ===== verification/CapacityGate.thy ===== *)
theory CapacityGate
  imports Dicts
begin

text \<open>
  \<open>FairCapacityGate\<close> of \<open>runtime/capacity.py\<close>: permits of a resource, granted to the lanes that wait for
  them in round-robin order. No coroutine of the gate suspends while it holds the lock, so an operation
  is one step from the lock to its release; a future is a number, resolved once it is in \<open>cg_done\<close>. The
  clients of the gate are the bodies of \<open>capacity\<close>, each waiting for its future or holding a permit.
\<close>

section \<open>The gate\<close>

record capacity_lane =
  cl_tenant_key :: string
  cl_app_id :: string
  cl_scope_key :: string

definition check_capacity_lane :: "capacity_lane \<Rightarrow> exn + capacity_lane" where
  "check_capacity_lane l = (if cl_tenant_key l = [] \<or> cl_app_id l = [] \<or> cl_scope_key l = []
     then Inl (ValueError ''capacity lane identity is required'') else Inr l)"

record capacity_snapshot =
  cs_limit :: int
  cs_in_use :: int
  cs_queued :: nat
  cs_queued_lanes :: nat

record resource_state =
  rs_limit :: int
  rs_in_use :: int
  rs_queues :: "(capacity_lane \<times> nat list) list"
  rs_round_robin :: "capacity_lane list"

record capacity_gate =
  cg_resources :: "(string \<times> resource_state) list"
  cg_done :: "nat list"
  cg_next :: nat

definition empty_gate :: capacity_gate where
  "empty_gate = \<lparr>cg_resources = [], cg_done = [], cg_next = 0\<rparr>"

definition new_resource_state :: "int \<Rightarrow> resource_state" where
  "new_resource_state limit = \<lparr>rs_limit = limit, rs_in_use = 0, rs_queues = [], rs_round_robin = []\<rparr>"

text \<open>The deque after \<open>popleft\<close>: a lane with more waiters goes to the back of the round.\<close>

definition next_round :: "capacity_lane \<Rightarrow> capacity_lane list \<Rightarrow> nat list \<Rightarrow> resource_state \<Rightarrow> resource_state" where
  "next_round lane lanes queue s = (if queue \<noteq> []
     then s\<lparr>rs_queues := dict_put lane queue (rs_queues s), rs_round_robin := lanes @ [lane]\<rparr>
     else s\<lparr>rs_queues := dict_drop lane (rs_queues s), rs_round_robin := lanes\<rparr>)"

function dispatch_permits :: "nat list \<Rightarrow> resource_state \<Rightarrow> exn + resource_state \<times> nat list" where
  "dispatch_permits fin s =
     (if rs_in_use s < rs_limit s then (case rs_round_robin s of
        [] \<Rightarrow> Inr (s, fin)
      | lane # lanes \<Rightarrow> (case map_of (rs_queues s) lane of
          None \<Rightarrow> Inl (OtherError ''KeyError'' (cl_scope_key lane))
        | Some [] \<Rightarrow> Inl (OtherError ''IndexError'' ''pop from an empty deque'')
        | Some (f # queue) \<Rightarrow>
            if f \<in> set fin then dispatch_permits fin (next_round lane lanes queue s)
            else dispatch_permits (f # fin) ((next_round lane lanes queue s)\<lparr>rs_in_use := rs_in_use s + 1\<rparr>)))
      else Inr (s, fin))"
  by pat_completeness auto

text \<open>Every round takes one future out of the queues.\<close>

lemma next_round_entries:
  assumes "map_of (rs_queues s) lane = Some (f # queue)"
  shows "mset (entries (rs_queues s)) = add_mset (lane, f) (mset (entries (rs_queues (next_round lane lanes queue s))))"
  using entries_put [OF assms, of queue] entries_drop [OF assms] by (auto simp: next_round_def)

lemma next_round_fewer:
  "map_of (rs_queues s) lane = Some (f # queue) \<Longrightarrow>
     length (entries (rs_queues (next_round lane lanes queue s))) < length (entries (rs_queues s))"
  using arg_cong [OF next_round_entries [of s lane f queue lanes], of size] by simp

termination dispatch_permits
  by (relation "measure (\<lambda>(fin, s). length (entries (rs_queues s)))") (auto simp: next_round_fewer)

declare dispatch_permits.simps [simp del]

text \<open>\<open>state.queues\<close> with the future of a waiter that has just come.\<close>

definition join_queue :: "capacity_lane \<Rightarrow> nat \<Rightarrow> resource_state \<Rightarrow> resource_state" where
  "join_queue lane f s = (case map_of (rs_queues s) lane of
     None \<Rightarrow> s\<lparr>rs_queues := dict_put lane [f] (rs_queues s), rs_round_robin := rs_round_robin s @ [lane]\<rparr>
   | Some queue \<Rightarrow> s\<lparr>rs_queues := dict_put lane (queue @ [f]) (rs_queues s)\<rparr>)"

text \<open>The state a step leaves, with its resource dispatched.\<close>

definition dispatched :: "string \<Rightarrow> resource_state \<Rightarrow> capacity_gate \<Rightarrow> exn + capacity_gate" where
  "dispatched rid s g = chain (dispatch_permits (cg_done g) s) (\<lambda>(s', fin).
     Inr (g\<lparr>cg_done := fin, cg_resources := dict_put rid s' (cg_resources g)\<rparr>))"

text \<open>\<open>capacity\<close> up to the wait: the checks of the arguments and the locked part of \<open>_acquire\<close>.\<close>

definition enter_queue :: "string \<Rightarrow> capacity_lane \<Rightarrow> int \<Rightarrow> capacity_gate \<Rightarrow> exn + capacity_gate \<times> nat" where
  "enter_queue rid lane limit g =
     (if rid = [] \<or> limit < 1 then Inl (ValueError ''capacity resource and positive limit are required'')
      else (let f = cg_next g; g' = g\<lparr>cg_next := f + 1\<rparr> in
        chain (case map_of (cg_resources g) rid of
            None \<Rightarrow> Inr (new_resource_state limit)
          | Some s \<Rightarrow> if rs_limit s \<noteq> limit
              then Inl (ValueError (''capacity limit changed for active resource: '' @ rid)) else Inr s)
          (\<lambda>s. chain (dispatched rid (join_queue lane f s) g') (\<lambda>g''. Inr (g'', f)))))"

text \<open>The waiter's future leaves its queue; an empty queue leaves the round.\<close>

definition leave_queue :: "capacity_lane \<Rightarrow> nat \<Rightarrow> resource_state \<Rightarrow> resource_state" where
  "leave_queue lane f s = (case map_of (rs_queues s) lane of
     None \<Rightarrow> s
   | Some queue \<Rightarrow> let queue' = remove1 f queue in
       if queue' = [] then s\<lparr>rs_queues := dict_drop lane (rs_queues s), rs_round_robin := remove1 lane (rs_round_robin s)\<rparr>
       else s\<lparr>rs_queues := dict_put lane queue' (rs_queues s)\<rparr>)"

definition cancel_waiter :: "string \<Rightarrow> capacity_lane \<Rightarrow> nat \<Rightarrow> capacity_gate \<Rightarrow> exn + capacity_gate" where
  "cancel_waiter rid lane f g = (case map_of (cg_resources g) rid of
     None \<Rightarrow> Inl (OtherError ''KeyError'' rid)
   | Some s \<Rightarrow> if f \<in> set (cg_done g) then dispatched rid (s\<lparr>rs_in_use := rs_in_use s - 1\<rparr>) g
       else Inr (g\<lparr>cg_resources := dict_put rid (leave_queue lane f s) (cg_resources g)\<rparr>))"

definition release_permit :: "string \<Rightarrow> capacity_gate \<Rightarrow> exn + capacity_gate" where
  "release_permit rid g = (case map_of (cg_resources g) rid of
     None \<Rightarrow> Inl (OtherError ''KeyError'' rid)
   | Some s \<Rightarrow> if rs_in_use s < 1 then Inl (RuntimeError (''capacity permit underflow: '' @ rid))
       else dispatched rid (s\<lparr>rs_in_use := rs_in_use s - 1\<rparr>) g)"

definition snapshot_of :: "resource_state \<Rightarrow> capacity_snapshot" where
  "snapshot_of s = \<lparr>cs_limit = rs_limit s, cs_in_use = rs_in_use s,
     cs_queued = sum_list (map (length \<circ> snd) (rs_queues s)), cs_queued_lanes = length (rs_queues s)\<rparr>"

definition gate_snapshot :: "capacity_gate \<Rightarrow> (string \<times> capacity_snapshot) list" where
  "gate_snapshot g = map (\<lambda>(rid, s). (rid, snapshot_of s)) (sort_key fst (cg_resources g))"

section \<open>Lanes\<close>

definition rounds_ok :: "resource_state \<Rightarrow> bool" where
  "rounds_ok s \<longleftrightarrow> distinct (map fst (rs_queues s)) \<and> distinct (rs_round_robin s) \<and>
     set (rs_round_robin s) = fst ` set (rs_queues s) \<and> [] \<notin> snd ` set (rs_queues s)"

lemma lanes_head:
  assumes "rounds_ok s" "rs_round_robin s = lane # lanes"
  obtains f queue where "map_of (rs_queues s) lane = Some (f # queue)"
proof -
  from assms have "lane \<in> fst ` set (rs_queues s)" by (auto simp: rounds_ok_def)
  then obtain q where q: "map_of (rs_queues s) lane = Some q" by (metis map_of_eq_None_iff not_None_eq)
  with assms have "q \<noteq> []" by (auto simp: rounds_ok_def dest!: map_of_SomeD simp: image_iff)
  with q that show ?thesis by (cases q) auto
qed

lemma lanes_next_round:
  assumes "rounds_ok s" "rs_round_robin s = lane # lanes" "map_of (rs_queues s) lane = Some (f # queue)"
  shows "rounds_ok (next_round lane lanes queue s)"
proof -
  from assms have d: "distinct (map fst (rs_queues s))" and k: "fst ` set (rs_queues s) = insert lane (set lanes)"
    "lane \<notin> set lanes" "distinct lanes" "[] \<notin> snd ` set (rs_queues s)" by (auto simp: rounds_ok_def)
  show ?thesis
    using d k unfolding rounds_ok_def next_round_def
    by (auto simp: dict_put_keys dict_drop_distinct dict_put_set dict_drop_set image_iff)
qed

lemma lanes_in_use [simp]: "rounds_ok (s\<lparr>rs_in_use := n\<rparr>) = rounds_ok s"
  by (simp add: rounds_ok_def)

lemma next_round_fields [simp]:
  "rs_limit (next_round lane lanes queue s) = rs_limit s" "rs_in_use (next_round lane lanes queue s) = rs_in_use s"
  by (simp_all add: next_round_def)

section \<open>Dispatching\<close>

text \<open>
  Round robin: between two states of the round with \<open>grants\<close> in between, a lane is served or comes
  forward by one place for every permit granted to another lane.
\<close>

definition served_in_turn :: "capacity_lane list \<Rightarrow> (capacity_lane \<times> nat) list \<Rightarrow> capacity_lane list \<Rightarrow> bool" where
  "served_in_turn before grants after \<longleftrightarrow> (\<forall>front lane rear. before = front @ lane # rear \<longrightarrow>
     lane \<in> fst ` set grants \<or>
     length grants \<le> length front \<and> (\<exists>rear'. after = drop (length grants) front @ lane # rear'))"

lemma served_in_turn_none: "served_in_turn round [] round"
  by (auto simp: served_in_turn_def)

lemma served_in_turn_next:
  assumes "served_in_turn (lanes @ rear) grants after"
  shows "served_in_turn (lane # lanes) ((lane, f) # grants) after"
  unfolding served_in_turn_def
proof (intro allI impI)
  fix front lane' rear'
  assume s: "lane # lanes = front @ lane' # rear'"
  show "lane' \<in> fst ` set ((lane, f) # grants) \<or> length ((lane, f) # grants) \<le> length front \<and>
      (\<exists>b. after = drop (length ((lane, f) # grants)) front @ lane' # b)"
  proof (cases front)
    case Nil
    with s show ?thesis by simp
  next
    case (Cons l rest)
    with s have "lanes @ rear = rest @ lane' # (rear' @ rear)" by simp
    with assms Cons show ?thesis unfolding served_in_turn_def by fastforce
  qed
qed

text \<open>
  What a dispatch does to a resource in order: the futures it resolves are those it takes out of the
  queues, each is a permit, and it stops only when the limit is reached or nobody waits.
\<close>

lemma dispatch_permits_ok:
  assumes "rounds_ok s" "rs_in_use s \<le> rs_limit s" "distinct (map snd (entries (rs_queues s)))"
    and "snd ` set (entries (rs_queues s)) \<inter> set fin = {}"
  shows "\<exists>s' grants. dispatch_permits fin s = Inr (s', rev (map snd grants) @ fin) \<and> rounds_ok s' \<and> rs_limit s' = rs_limit s \<and>
    rs_in_use s' = rs_in_use s + int (length grants) \<and> rs_in_use s' \<le> rs_limit s \<and>
    (rs_round_robin s' = [] \<or> rs_in_use s' = rs_limit s) \<and>
    served_in_turn (rs_round_robin s) grants (rs_round_robin s') \<and>
    mset (entries (rs_queues s)) = mset (entries (rs_queues s')) + mset grants"
  using assms
proof (induction fin s rule: dispatch_permits.induct)
  case (1 fin s)
  show ?case
  proof (cases "rs_in_use s < rs_limit s \<and> rs_round_robin s \<noteq> []")
    case False
    with "1.prems" have "dispatch_permits fin s = Inr (s, rev (map snd []) @ fin)"
      by (subst dispatch_permits.simps) (auto split: list.splits)
    moreover have "rs_round_robin s = [] \<or> rs_in_use s = rs_limit s" using False "1.prems"(2) by auto
    ultimately show ?thesis using "1.prems" by (intro exI [of _ s] exI [of _ "[]"]) (simp add: served_in_turn_none)
  next
    case True
    then obtain lane lanes where rr: "rs_round_robin s = lane # lanes" by (cases "rs_round_robin s") auto
    obtain f queue where q: "map_of (rs_queues s) lane = Some (f # queue)" using lanes_head [OF "1.prems"(1) rr] .
    define s1 where "s1 = (next_round lane lanes queue s)\<lparr>rs_in_use := rs_in_use s + 1\<rparr>"
    have e: "mset (entries (rs_queues s)) = add_mset (lane, f) (mset (entries (rs_queues s1)))"
      unfolding s1_def using next_round_entries [OF q] by simp
    have m: "mset (map snd (entries (rs_queues s))) = add_mset f (mset (map snd (entries (rs_queues s1))))"
      using arg_cong [OF e, of "image_mset snd"] by simp
    have d: "distinct (f # map snd (entries (rs_queues s1)))"
      using m "1.prems"(3) by (metis mset.simps(2) mset_eq_imp_distinct_iff)
    have "insert f (snd ` set (entries (rs_queues s1))) = snd ` set (entries (rs_queues s))"
      using arg_cong [OF m, of set_mset] by simp
    then have f: "f \<notin> set fin" "snd ` set (entries (rs_queues s1)) \<inter> set (f # fin) = {}"
      using "1.prems"(4) d by auto
    have l: "rounds_ok s1" "rs_limit s1 = rs_limit s" "rs_in_use s1 = rs_in_use s + 1"
      using lanes_next_round [OF "1.prems"(1) rr q] by (simp_all add: s1_def)
    have "dispatch_permits fin s = dispatch_permits (f # fin) s1"
      using True rr q f(1) by (subst dispatch_permits.simps) (simp add: s1_def)
    moreover from "1.IH"(2) [of lane lanes "f # queue" f queue, folded s1_def] True rr q f d l
    obtain s' grants where "dispatch_permits (f # fin) s1 = Inr (s', rev (map snd grants) @ f # fin)" "rounds_ok s'"
      "rs_limit s' = rs_limit s" "rs_in_use s' = rs_in_use s + 1 + int (length grants)" "rs_in_use s' \<le> rs_limit s"
      "rs_round_robin s' = [] \<or> rs_in_use s' = rs_limit s"
      "served_in_turn (rs_round_robin s1) grants (rs_round_robin s')"
      "mset (entries (rs_queues s1)) = mset (entries (rs_queues s')) + mset grants" by auto
    moreover have "\<exists>rear. rs_round_robin s1 = lanes @ rear" by (cases "queue = []") (auto simp: s1_def next_round_def)
    then obtain rear where "rs_round_robin s1 = lanes @ rear" by blast
    ultimately show ?thesis using e rr served_in_turn_next [of lanes rear grants "rs_round_robin s'" lane f]
      by (intro exI [of _ s'] exI [of _ "(lane, f) # grants"]) simp
  qed
qed

section \<open>The gate and its clients\<close>

text \<open>
  A client is a body of \<open>capacity\<close> between \<open>_acquire\<close> and its end: its future, the resource and the lane.
  It waits while its future is not resolved; afterwards it owns a permit, which it gives back at the
  end of its body, or when a cancellation reaches it before its body starts.
\<close>

type_synonym gate_client = "nat \<times> string \<times> capacity_lane"

record gate_world =
  gw_gate :: capacity_gate
  gw_clients :: "gate_client list"

definition empty_world :: gate_world where
  "empty_world = \<lparr>gw_gate = empty_gate, gw_clients = []\<rparr>"

datatype gate_event =
    GateEnter string capacity_lane int
  | GateCancel nat
  | GateLeave nat

text \<open>
  A call whose arguments are refused leaves the gate as it is. A client is cancelled at any time before
  its body runs, and leaves once it has run.
\<close>

inductive gate_step :: "gate_world \<Rightarrow> gate_event \<Rightarrow> gate_world \<Rightarrow> bool" where
  enter: "enter_queue rid lane limit (gw_gate w) = Inr (g, f) \<Longrightarrow>
    gate_step w (GateEnter rid lane limit) \<lparr>gw_gate = g, gw_clients = gw_clients w @ [(f, rid, lane)]\<rparr>"
| refused: "enter_queue rid lane limit (gw_gate w) = Inl (ValueError m) \<Longrightarrow>
    gate_step w (GateEnter rid lane limit) w"
| cancel: "(f, rid, lane) \<in> set (gw_clients w) \<Longrightarrow> cancel_waiter rid lane f (gw_gate w) = Inr g \<Longrightarrow>
    gate_step w (GateCancel f) \<lparr>gw_gate = g, gw_clients = remove1 (f, rid, lane) (gw_clients w)\<rparr>"
| leave: "(f, rid, lane) \<in> set (gw_clients w) \<Longrightarrow> f \<in> set (cg_done (gw_gate w)) \<Longrightarrow>
    release_permit rid (gw_gate w) = Inr g \<Longrightarrow>
    gate_step w (GateLeave f) \<lparr>gw_gate = g, gw_clients = remove1 (f, rid, lane) (gw_clients w)\<rparr>"

inductive gate_reachable :: "gate_world \<Rightarrow> bool" where
  start: "gate_reachable empty_world"
| next_step: "gate_reachable w \<Longrightarrow> gate_step w e w' \<Longrightarrow> gate_reachable w'"

inductive_cases gate_enterE: "gate_step w (GateEnter rid lane limit) w'"
inductive_cases gate_cancelE: "gate_step w (GateCancel f) w'"
inductive_cases gate_leaveE: "gate_step w (GateLeave f) w'"

definition waiting_for :: "string \<Rightarrow> gate_client list \<Rightarrow> nat list \<Rightarrow> (capacity_lane \<times> nat) list" where
  "waiting_for rid cs fin = map (\<lambda>(f, r, lane). (lane, f)) (filter (\<lambda>(f, r, lane). r = rid \<and> f \<notin> set fin) cs)"

definition permits_held :: "string \<Rightarrow> gate_client list \<Rightarrow> nat list \<Rightarrow> nat" where
  "permits_held rid cs fin = length (filter (\<lambda>(f, r, lane). r = rid \<and> f \<in> set fin) cs)"

definition resource_ok :: "string \<Rightarrow> gate_client list \<Rightarrow> nat list \<Rightarrow> resource_state \<Rightarrow> bool" where
  "resource_ok rid cs fin s \<longleftrightarrow> rounds_ok s \<and> 1 \<le> rs_limit s \<and> rs_in_use s = int (permits_held rid cs fin) \<and>
     rs_in_use s \<le> rs_limit s \<and> (rs_round_robin s = [] \<or> rs_in_use s = rs_limit s) \<and>
     mset (entries (rs_queues s)) = mset (waiting_for rid cs fin)"

definition gate_ok :: "gate_world \<Rightarrow> bool" where
  "gate_ok w \<longleftrightarrow> (let g = gw_gate w; cs = gw_clients w in
     distinct (map fst (cg_resources g)) \<and> distinct (map fst cs) \<and>
     (\<forall>(f, rid, lane) \<in> set cs. f < cg_next g \<and> rid \<in> fst ` set (cg_resources g)) \<and>
     (\<forall>f \<in> set (cg_done g). f < cg_next g) \<and>
     (\<forall>(rid, s) \<in> set (cg_resources g). resource_ok rid cs (cg_done g) s))"

section \<open>Waiting and holding\<close>

lemma mset_waiting_for: "mset (waiting_for rid cs fin) =
    image_mset (\<lambda>(f, r, lane). (lane, f)) (filter_mset (\<lambda>(f, r, lane). r = rid \<and> f \<notin> set fin) (mset cs))"
  by (induction cs) (auto simp: waiting_for_def)

lemma permits_held_mset:
  "permits_held rid cs fin = size (filter_mset (\<lambda>(f, r, lane). r = rid \<and> f \<in> set fin) (mset cs))"
  by (induction cs) (auto simp: permits_held_def)

lemma held_waiting: "length (waiting_for rid cs fin) + permits_held rid cs fin = length (filter (\<lambda>(f, r, lane). r = rid) cs)"
  by (induction cs) (auto simp: waiting_for_def permits_held_def)

lemma waiting_resolved: "waiting_for rid cs (new @ fin) = filter (\<lambda>p. snd p \<notin> set new) (waiting_for rid cs fin)"
  by (induction cs) (auto simp: waiting_for_def)

lemma waiting_futures: "distinct (map fst cs) \<Longrightarrow> distinct (map snd (waiting_for rid cs fin))"
  by (induction cs) (auto simp: waiting_for_def image_iff)

lemma waiting_mem: "(lane, f) \<in> set (waiting_for rid cs fin) \<longleftrightarrow> (f, rid, lane) \<in> set cs \<and> f \<notin> set fin"
  by (auto simp: waiting_for_def image_iff)

lemma others_resolved:
  assumes "\<forall>f \<in> set new. \<exists>lane. (f, rid, lane) \<in> set cs" "distinct (map fst cs)" "r \<noteq> rid"
  shows "waiting_for r cs (new @ fin) = waiting_for r cs fin" "permits_held r cs (new @ fin) = permits_held r cs fin"
proof -
  have "f \<notin> set new" if "(f, r, lane) \<in> set cs" for f lane
    using that assms by (metis Pair_inject eq_key_imp_eq_value)
  then have w: "filter (\<lambda>(f, q, lane). q = r \<and> f \<notin> set (new @ fin)) cs = filter (\<lambda>(f, q, lane). q = r \<and> f \<notin> set fin) cs"
    by (intro filter_cong) auto
  then show "waiting_for r cs (new @ fin) = waiting_for r cs fin" by (simp add: waiting_for_def)
  then show "permits_held r cs (new @ fin) = permits_held r cs fin"
    using held_waiting [of r cs fin] held_waiting [of r cs "new @ fin"] by simp
qed

lemma own_resolved:
  assumes "mset (waiting_for rid cs fin) = mset left + mset grants" "distinct (map fst cs)"
  shows "mset (waiting_for rid cs (rev (map snd grants) @ fin)) = mset left"
    "permits_held rid cs (rev (map snd grants) @ fin) = permits_held rid cs fin + length grants"
proof -
  have "mset (map snd (waiting_for rid cs fin)) = mset (map snd left @ map snd grants)"
    using arg_cong [OF assms(1), of "image_mset snd"] by simp
  then have d: "distinct (map snd left @ map snd grants)"
    using waiting_futures [OF assms(2)] mset_eq_imp_distinct_iff by blast
  let ?P = "\<lambda>p. snd p \<notin> snd ` set grants"
  have "filter_mset ?P (mset left) = mset left"
    using d by (auto simp: filter_mset_eq_conv)
  moreover have "filter_mset ?P (mset grants) = {#}" by auto
  ultimately have "filter_mset ?P (mset (waiting_for rid cs fin)) = mset left" using assms(1) by simp
  then show m: "mset (waiting_for rid cs (rev (map snd grants) @ fin)) = mset left"
    by (simp add: waiting_resolved mset_filter)
  from arg_cong [OF m, of size] arg_cong [OF assms(1), of size]
  show "permits_held rid cs (rev (map snd grants) @ fin) = permits_held rid cs fin + length grants"
    using held_waiting [of rid cs fin] held_waiting [of rid cs "rev (map snd grants) @ fin"] by simp
qed

section \<open>Every step keeps the invariant\<close>

text \<open>The resource a step is about, before its dispatch: it may have room for more.\<close>

definition resource_ready :: "string \<Rightarrow> gate_client list \<Rightarrow> nat list \<Rightarrow> resource_state \<Rightarrow> bool" where
  "resource_ready rid cs fin s \<longleftrightarrow> rounds_ok s \<and> 1 \<le> rs_limit s \<and> rs_in_use s = int (permits_held rid cs fin) \<and>
     rs_in_use s \<le> rs_limit s \<and> mset (entries (rs_queues s)) = mset (waiting_for rid cs fin)"

definition others_ok :: "string \<Rightarrow> capacity_gate \<Rightarrow> gate_client list \<Rightarrow> bool" where
  "others_ok rid g cs \<longleftrightarrow> distinct (map fst (cg_resources g)) \<and> distinct (map fst cs) \<and>
     (\<forall>(f, r, lane) \<in> set cs. f < cg_next g \<and> (r = rid \<or> r \<in> fst ` set (cg_resources g))) \<and>
     (\<forall>f \<in> set (cg_done g). f < cg_next g) \<and>
     (\<forall>(r, s) \<in> set (cg_resources g). r \<noteq> rid \<longrightarrow> resource_ok r cs (cg_done g) s)"

lemma put_resource_ok:
  assumes "others_ok rid g cs" "resource_ok rid cs (cg_done g) s"
  shows "gate_ok \<lparr>gw_gate = g\<lparr>cg_resources := dict_put rid s (cg_resources g)\<rparr>, gw_clients = cs\<rparr>"
proof -
  let ?rs = "dict_put rid s (cg_resources g)"
  have d: "distinct (map fst (cg_resources g))" using assms(1) by (simp add: others_ok_def)
  then have st: "set ?rs = insert (rid, s) {p \<in> set (cg_resources g). fst p \<noteq> rid}" by (rule dict_put_set)
  have "resource_ok q cs (cg_done g) t" if "(q, t) \<in> set ?rs" for q t
    using that assms unfolding st others_ok_def by auto
  moreover have "f < cg_next g \<and> q \<in> fst ` set ?rs" if "(f, q, lane) \<in> set cs" for f q lane
    using that assms(1) unfolding st others_ok_def by force
  ultimately show ?thesis using assms(1) dict_put_keys [OF d, of rid s]
    by (auto simp: gate_ok_def others_ok_def Let_def)
qed

lemma dispatched_ok:
  assumes o: "others_ok rid g cs" and r: "resource_ready rid cs (cg_done g) s"
  shows "\<exists>g' s' grants. dispatched rid s g = Inr g' \<and> gate_ok \<lparr>gw_gate = g', gw_clients = cs\<rparr> \<and>
    map_of (cg_resources g') rid = Some s' \<and> cg_done g' = rev (map snd grants) @ cg_done g \<and>
    served_in_turn (rs_round_robin s) grants (rs_round_robin s')"
proof -
  have m: "mset (entries (rs_queues s)) = mset (waiting_for rid cs (cg_done g))" using r by (simp add: resource_ready_def)
  have d: "distinct (map fst cs)" using o by (simp add: others_ok_def)
  have "mset (map snd (entries (rs_queues s))) = mset (map snd (waiting_for rid cs (cg_done g)))" using m by simp
  then have e: "distinct (map snd (entries (rs_queues s)))"
    using waiting_futures [OF d] mset_eq_imp_distinct_iff by blast
  have se: "set (entries (rs_queues s)) = set (waiting_for rid cs (cg_done g))" using m mset_eq_setD by blast
  then have "snd ` set (entries (rs_queues s)) \<inter> set (cg_done g) = {}" by (auto simp: waiting_mem)
  with dispatch_permits_ok [of s "cg_done g"] r e obtain s' grants where
    s': "dispatch_permits (cg_done g) s = Inr (s', rev (map snd grants) @ cg_done g)" "rounds_ok s'" "rs_limit s' = rs_limit s"
      "rs_in_use s' = rs_in_use s + int (length grants)" "rs_in_use s' \<le> rs_limit s"
      "rs_round_robin s' = [] \<or> rs_in_use s' = rs_limit s" "served_in_turn (rs_round_robin s) grants (rs_round_robin s')"
      "mset (entries (rs_queues s)) = mset (entries (rs_queues s')) + mset grants"
    by (auto simp: resource_ready_def)
  let ?fin = "rev (map snd grants) @ cg_done g"
  note own = own_resolved [OF m [symmetric, unfolded s'(8)] d]
  have "mset grants \<subseteq># mset (waiting_for rid cs (cg_done g))"
    unfolding m [symmetric] s'(8) by (rule mset_subset_eq_add_right)
  then have g: "set grants \<subseteq> set (waiting_for rid cs (cg_done g))" by (metis set_mset_mono set_mset_mset)
  then have gc: "\<forall>f \<in> set (rev (map snd grants)). \<exists>lane. (f, rid, lane) \<in> set cs" using waiting_mem by fastforce
  have rs: "resource_ok rid cs ?fin s'" using s' r own by (simp add: resource_ok_def resource_ready_def)
  have "others_ok rid (g\<lparr>cg_done := ?fin\<rparr>) cs"
    using o gc others_resolved [OF gc d] by (fastforce simp: others_ok_def resource_ok_def)
  from put_resource_ok [OF this] rs
  have "gate_ok \<lparr>gw_gate = g\<lparr>cg_done := ?fin, cg_resources := dict_put rid s' (cg_resources g)\<rparr>, gw_clients = cs\<rparr>" by simp
  with s' show ?thesis by (auto simp: dispatched_def map_of_dict_put)
qed

text \<open>A waiter joins its lane.\<close>

lemma join_queue_ready:
  assumes "resource_ready rid cs fin s" "f \<notin> set fin"
  shows "resource_ready rid (cs @ [(f, rid, lane)]) fin (join_queue lane f s)"
proof -
  have l: "rounds_ok s" using assms(1) by (simp add: resource_ready_def)
  then have d: "distinct (map fst (rs_queues s))" by (simp add: rounds_ok_def)
  have p: "permits_held rid (cs @ [(f, rid, lane)]) fin = permits_held rid cs fin"
    "mset (waiting_for rid (cs @ [(f, rid, lane)]) fin) = add_mset (lane, f) (mset (waiting_for rid cs fin))"
    using assms(2) by (simp_all add: permits_held_def waiting_for_def)
  show ?thesis
  proof (cases "map_of (rs_queues s) lane")
    case None
    then have "lane \<notin> fst ` set (rs_queues s)" by (simp add: map_of_eq_None_iff)
    with None l have "rounds_ok (join_queue lane f s)"
      by (auto simp: rounds_ok_def join_queue_def dict_put_keys dict_put_set image_iff)
    with None assms(1) p show ?thesis by (simp add: resource_ready_def join_queue_def entries_put_new)
  next
    case (Some queue)
    then have "lane \<in> fst ` set (rs_queues s)" by (metis map_of_eq_None_iff option.distinct(1))
    then have "insert lane {x \<in> fst ` set (rs_queues s). x \<noteq> lane} = fst ` set (rs_queues s)" by blast
    moreover have "fst ` set (dict_put lane (queue @ [f]) (rs_queues s)) = insert lane {x \<in> fst ` set (rs_queues s). x \<noteq> lane}"
      using dict_put_set [OF d, of lane "queue @ [f]"] by (auto simp: image_iff)
    ultimately have "rounds_ok (join_queue lane f s)"
      using Some l d by (auto simp: rounds_ok_def join_queue_def dict_put_keys dict_put_set)
    moreover have "mset (entries (dict_put lane (queue @ [f]) (rs_queues s))) = add_mset (lane, f) (mset (entries (rs_queues s)))"
      using entries_put [OF Some, of "queue @ [f]"] by simp
    ultimately show ?thesis using Some assms(1) p by (simp add: resource_ready_def join_queue_def)
  qed
qed

text \<open>A waiter leaves its queue: its resource keeps its permits, so there is nothing to dispatch.\<close>

lemma waiting_remove:
  assumes "(f, rid, lane) \<in> set cs"
  shows "f \<notin> set fin \<Longrightarrow> mset (waiting_for rid cs fin) = add_mset (lane, f) (mset (waiting_for rid (remove1 (f, rid, lane) cs) fin))"
    "f \<notin> set fin \<Longrightarrow> permits_held rid (remove1 (f, rid, lane) cs) fin = permits_held rid cs fin"
    "f \<in> set fin \<Longrightarrow> mset (waiting_for rid (remove1 (f, rid, lane) cs) fin) = mset (waiting_for rid cs fin)"
    "f \<in> set fin \<Longrightarrow> permits_held rid cs fin = Suc (permits_held rid (remove1 (f, rid, lane) cs) fin)"
    "r \<noteq> rid \<Longrightarrow> mset (waiting_for r (remove1 (f, rid, lane) cs) fin) = mset (waiting_for r cs fin)"
    "r \<noteq> rid \<Longrightarrow> permits_held r (remove1 (f, rid, lane) cs) fin = permits_held r cs fin"
proof -
  have m: "mset cs = add_mset (f, rid, lane) (mset (remove1 (f, rid, lane) cs))" using assms by simp
  show "f \<notin> set fin \<Longrightarrow> mset (waiting_for rid cs fin) = add_mset (lane, f) (mset (waiting_for rid (remove1 (f, rid, lane) cs) fin))"
    "f \<in> set fin \<Longrightarrow> mset (waiting_for rid (remove1 (f, rid, lane) cs) fin) = mset (waiting_for rid cs fin)"
    "r \<noteq> rid \<Longrightarrow> mset (waiting_for r (remove1 (f, rid, lane) cs) fin) = mset (waiting_for r cs fin)"
    unfolding mset_waiting_for by (subst m; simp)+
  show "f \<notin> set fin \<Longrightarrow> permits_held rid (remove1 (f, rid, lane) cs) fin = permits_held rid cs fin"
    "f \<in> set fin \<Longrightarrow> permits_held rid cs fin = Suc (permits_held rid (remove1 (f, rid, lane) cs) fin)"
    "r \<noteq> rid \<Longrightarrow> permits_held r (remove1 (f, rid, lane) cs) fin = permits_held r cs fin"
    unfolding permits_held_mset by (subst m; simp)+
qed

lemma leave_queue_ok:
  assumes ok: "resource_ok rid cs fin s" and c: "(f, rid, lane) \<in> set cs" "f \<notin> set fin"
  shows "resource_ok rid (remove1 (f, rid, lane) cs) fin (leave_queue lane f s)"
proof -
  have l: "rounds_ok s" and m: "mset (entries (rs_queues s)) = mset (waiting_for rid cs fin)"
    using ok by (simp_all add: resource_ok_def)
  have d: "distinct (map fst (rs_queues s))" using l by (simp add: rounds_ok_def)
  note w = waiting_remove(1,2) [OF c(1) c(2)]
  have "(lane, f) \<in> set (entries (rs_queues s))" using c mset_eq_setD [OF m] by (simp add: waiting_mem)
  then obtain queue where q: "(lane, queue) \<in> set (rs_queues s)" "f \<in> set queue" by (auto simp: entries_def)
  then have Some: "map_of (rs_queues s) lane = Some queue" using d by simp
  have m1: "mset (map (Pair lane) queue) = add_mset (lane, f) (mset (map (Pair lane) (remove1 f queue)))"
    using image_mset_add_mset [of "Pair lane" f "mset (remove1 f queue)"] q(2) by (simp del: image_mset_add_mset)
  have lr: "lane \<in> set (rs_round_robin s)" using l q by (force simp: rounds_ok_def)
  show ?thesis
  proof (cases "remove1 f queue = []")
    case True
    then have "rounds_ok (leave_queue lane f s)"
      using l d Some by (auto simp: rounds_ok_def leave_queue_def dict_drop_distinct dict_drop_set image_iff)
    moreover have "mset (entries (dict_drop lane (rs_queues s))) = mset (waiting_for rid (remove1 (f, rid, lane) cs) fin)"
      using entries_drop [OF Some] m m1 True w(1) by simp
    moreover have "rs_round_robin s = [] \<or> rs_in_use s = rs_limit s" using ok unfolding resource_ok_def by blast
    ultimately show ?thesis using True Some ok w by (auto simp: resource_ok_def leave_queue_def)
  next
    case False
    have k: "fst ` set (dict_put lane (remove1 f queue) (rs_queues s)) = fst ` set (rs_queues s)"
      using q(1) dict_put_set [OF d, of lane "remove1 f queue"] by (force simp: image_iff)
    then have "rounds_ok (leave_queue lane f s)"
      using l d Some False by (auto simp: rounds_ok_def leave_queue_def dict_put_keys dict_put_set)
    moreover have "mset (entries (dict_put lane (remove1 f queue) (rs_queues s))) = mset (waiting_for rid (remove1 (f, rid, lane) cs) fin)"
      using entries_put [OF Some, of "remove1 f queue"] m m1 w(1) by simp
    ultimately show ?thesis using False Some ok w by (auto simp: resource_ok_def leave_queue_def)
  qed
qed

lemma gate_ok_others:
  "gate_ok w \<Longrightarrow> others_ok rid (gw_gate w) (gw_clients w)"
  by (auto simp: gate_ok_def others_ok_def Let_def)

lemma gate_resource:
  assumes "gate_ok w" "map_of (cg_resources (gw_gate w)) rid = Some s"
  shows "resource_ok rid (gw_clients w) (cg_done (gw_gate w)) s"
  using assms by (auto simp: gate_ok_def Let_def dest: map_of_SomeD)

lemma distinct_map_remove1: "distinct (map f xs) \<Longrightarrow> distinct (map f (remove1 x xs))"
  by (induction xs) (auto dest!: set_mp [OF set_remove1_subset])

lemma others_without:
  assumes "others_ok rid g cs" "(f, rid, lane) \<in> set cs"
  shows "others_ok rid g (remove1 (f, rid, lane) cs)"
proof -
  have "distinct (map fst (remove1 (f, rid, lane) cs))"
    using assms(1) by (auto simp: others_ok_def distinct_map_remove1)
  moreover have "resource_ok r (remove1 (f, rid, lane) cs) (cg_done g) t" if "(r, t) \<in> set (cg_resources g)" "r \<noteq> rid" for r t
    using that assms(1) waiting_remove(5,6) [OF assms(2) that(2)] by (auto simp: others_ok_def resource_ok_def)
  moreover have "f' < cg_next g \<and> (r = rid \<or> r \<in> fst ` set (cg_resources g))" if "(f', r, l) \<in> set (remove1 (f, rid, lane) cs)" for f' r l
    using assms(1) set_mp [OF set_remove1_subset that] by (auto simp: others_ok_def)
  ultimately show ?thesis using assms(1) unfolding others_ok_def by blast
qed

lemma permit_returned:
  assumes ok: "gate_ok w" and c: "(f, rid, lane) \<in> set (gw_clients w)" "f \<in> set (cg_done (gw_gate w))"
    and s: "map_of (cg_resources (gw_gate w)) rid = Some s"
  shows "1 \<le> rs_in_use s \<and> others_ok rid (gw_gate w) (remove1 (f, rid, lane) (gw_clients w)) \<and>
    resource_ready rid (remove1 (f, rid, lane) (gw_clients w)) (cg_done (gw_gate w)) (s\<lparr>rs_in_use := rs_in_use s - 1\<rparr>)"
  using gate_resource [OF ok s] others_without [OF gate_ok_others [OF ok] c(1)] waiting_remove(3,4) [OF c(1) c(2)]
  by (simp add: resource_ok_def resource_ready_def)

lemma client_resource:
  assumes "gate_ok w" "(f, rid, lane) \<in> set (gw_clients w)"
  obtains s where "map_of (cg_resources (gw_gate w)) rid = Some s"
proof -
  from assms have "rid \<in> fst ` set (cg_resources (gw_gate w))" by (auto simp: gate_ok_def Let_def)
  with that show ?thesis by (metis map_of_eq_None_iff not_None_eq)
qed

lemma cancel_waiter_ok:
  assumes ok: "gate_ok w" and c: "(f, rid, lane) \<in> set (gw_clients w)"
  shows "\<exists>g. cancel_waiter rid lane f (gw_gate w) = Inr g \<and>
    gate_ok \<lparr>gw_gate = g, gw_clients = remove1 (f, rid, lane) (gw_clients w)\<rparr>"
proof -
  obtain s where s: "map_of (cg_resources (gw_gate w)) rid = Some s" using client_resource [OF ok c] .
  show ?thesis
  proof (cases "f \<in> set (cg_done (gw_gate w))")
    case True
    with s permit_returned [OF ok c True s] dispatched_ok show ?thesis by (fastforce simp: cancel_waiter_def)
  next
    case False
    with s put_resource_ok [OF others_without [OF gate_ok_others [OF ok] c] leave_queue_ok [OF gate_resource [OF ok s] c False]]
    show ?thesis by (simp add: cancel_waiter_def)
  qed
qed

lemma release_permit_ok:
  assumes ok: "gate_ok w" and c: "(f, rid, lane) \<in> set (gw_clients w)" "f \<in> set (cg_done (gw_gate w))"
  shows "\<exists>g. release_permit rid (gw_gate w) = Inr g \<and>
    gate_ok \<lparr>gw_gate = g, gw_clients = remove1 (f, rid, lane) (gw_clients w)\<rparr>"
proof -
  obtain s where s: "map_of (cg_resources (gw_gate w)) rid = Some s" using client_resource [OF ok c(1)] .
  with permit_returned [OF ok c s] dispatched_ok show ?thesis by (fastforce simp: release_permit_def)
qed

text \<open>The resource a new waiter finds: that of its name, or a fresh one with the limit it names.\<close>

lemma enter_queue_ok:
  assumes ok: "gate_ok w"
  shows "(\<exists>m. enter_queue rid lane limit (gw_gate w) = Inl (ValueError m)) \<or>
    (\<exists>g f. enter_queue rid lane limit (gw_gate w) = Inr (g, f) \<and> gate_ok \<lparr>gw_gate = g, gw_clients = gw_clients w @ [(f, rid, lane)]\<rparr>)"
proof (cases "rid = [] \<or> limit < 1 \<or> (\<exists>s. map_of (cg_resources (gw_gate w)) rid = Some s \<and> rs_limit s \<noteq> limit)")
  case True
  then show ?thesis by (auto simp: enter_queue_def Let_def)
next
  case False
  let ?g = "gw_gate w" and ?cs = "gw_clients w" and ?f = "cg_next (gw_gate w)"
  define s where "s = (case map_of (cg_resources ?g) rid of None \<Rightarrow> new_resource_state limit | Some s \<Rightarrow> s)"
  have fresh: "?f \<notin> set (cg_done ?g)" "?f \<notin> fst ` set ?cs" using ok by (auto simp: gate_ok_def Let_def)
  have "resource_ready rid ?cs (cg_done ?g) s"
  proof (cases "map_of (cg_resources ?g) rid")
    case None
    then have "(f, rid, l) \<notin> set ?cs" for f l using ok by (auto simp: gate_ok_def Let_def map_of_eq_None_iff)
    then have "waiting_for rid ?cs (cg_done ?g) = []" "permits_held rid ?cs (cg_done ?g) = 0"
      by (auto simp: waiting_for_def permits_held_def filter_empty_conv)
    with None False show ?thesis by (simp add: s_def resource_ready_def new_resource_state_def rounds_ok_def)
  next
    case (Some s0)
    with gate_resource [OF ok Some] show ?thesis by (simp add: s_def resource_ready_def resource_ok_def)
  qed
  from join_queue_ready [OF this fresh(1), of lane]
  have r: "resource_ready rid (?cs @ [(?f, rid, lane)]) (cg_done ?g) (join_queue lane ?f s)" .
  have "resource_ok r (?cs @ [(?f, rid, lane)]) fin t = resource_ok r ?cs fin t" if "r \<noteq> rid" for r fin t
    using that by (simp add: resource_ok_def waiting_for_def permits_held_def)
  then have "others_ok rid (?g\<lparr>cg_next := ?f + 1\<rparr>) (?cs @ [(?f, rid, lane)])"
    using gate_ok_others [OF ok, of rid] fresh(2) unfolding others_ok_def by fastforce
  from dispatched_ok [OF this] r obtain g where "dispatched rid (join_queue lane ?f s) (?g\<lparr>cg_next := ?f + 1\<rparr>) = Inr g"
    "gate_ok \<lparr>gw_gate = g, gw_clients = ?cs @ [(?f, rid, lane)]\<rparr>" by auto
  moreover have "enter_queue rid lane limit ?g = chain (dispatched rid (join_queue lane ?f s) (?g\<lparr>cg_next := ?f + 1\<rparr>)) (\<lambda>g''. Inr (g'', ?f))"
    using False by (auto simp: enter_queue_def Let_def s_def split: option.splits)
  ultimately show ?thesis by simp
qed

lemma gate_step_ok: "gate_step w e w' \<Longrightarrow> gate_ok w \<Longrightarrow> gate_ok w'"
proof (induction rule: gate_step.induct)
  case (enter rid lane limit w g f)
  with enter_queue_ok [OF enter.prems, of rid lane limit] show ?case by auto
next
  case (cancel f rid lane w g)
  with cancel_waiter_ok [OF cancel.prems cancel.hyps(1)] show ?case by auto
next
  case (leave f rid lane w g)
  with release_permit_ok [OF leave.prems leave.hyps(1,2)] show ?case by auto
qed

lemma gate_reachable_ok: "gate_reachable w \<Longrightarrow> gate_ok w"
proof (induction rule: gate_reachable.induct)
  case start
  show ?case by (simp add: gate_ok_def empty_world_def empty_gate_def)
qed (rule gate_step_ok)

section \<open>What the gate promises\<close>

text \<open>
  C30. In every reachable state of the gate a resource has as many permits in use as clients own, never
  more than its limit, its snapshot counts the clients that wait, and a client waits only while all
  permits are in use; the gate never refuses a client that gives a permit back or is cancelled, and a
  request fails only for its arguments.
\<close>

theorem capacity_respected:
  assumes "gate_reachable w"
  shows "(case map_of (cg_resources (gw_gate w)) rid of
       None \<Rightarrow> \<forall>(f, r, lane) \<in> set (gw_clients w). r \<noteq> rid
     | Some s \<Rightarrow> rs_in_use s = int (permits_held rid (gw_clients w) (cg_done (gw_gate w))) \<and> rs_in_use s \<le> rs_limit s \<and>
         cs_queued (snapshot_of s) = length (waiting_for rid (gw_clients w) (cg_done (gw_gate w))) \<and>
         (waiting_for rid (gw_clients w) (cg_done (gw_gate w)) \<noteq> [] \<longrightarrow> rs_in_use s = rs_limit s)) \<and>
    (\<forall>(f, r, lane) \<in> set (gw_clients w). (\<exists>w'. gate_step w (GateCancel f) w') \<and>
       (f \<in> set (cg_done (gw_gate w)) \<longrightarrow> (\<exists>w'. gate_step w (GateLeave f) w'))) \<and>
    (\<exists>w'. gate_step w (GateEnter rid lane limit) w')"
proof (intro conjI)
  have ok: "gate_ok w" using assms by (rule gate_reachable_ok)
  show "case map_of (cg_resources (gw_gate w)) rid of
       None \<Rightarrow> \<forall>(f, r, lane) \<in> set (gw_clients w). r \<noteq> rid
     | Some s \<Rightarrow> rs_in_use s = int (permits_held rid (gw_clients w) (cg_done (gw_gate w))) \<and> rs_in_use s \<le> rs_limit s \<and>
         cs_queued (snapshot_of s) = length (waiting_for rid (gw_clients w) (cg_done (gw_gate w))) \<and>
         (waiting_for rid (gw_clients w) (cg_done (gw_gate w)) \<noteq> [] \<longrightarrow> rs_in_use s = rs_limit s)"
  proof (cases "map_of (cg_resources (gw_gate w)) rid")
    case None
    have "r \<noteq> rid" if "(f, r, lane) \<in> set (gw_clients w)" for f r lane
    proof (rule client_resource [OF ok that])
      fix s
      assume "map_of (cg_resources (gw_gate w)) r = Some s"
      with None show "r \<noteq> rid" by (cases "r = rid") auto
    qed
    with None show ?thesis by auto
  next
    case (Some s)
    note r = gate_resource [OF ok Some]
    have "size (mset (entries (rs_queues s))) = length (waiting_for rid (gw_clients w) (cg_done (gw_gate w)))"
      using r by (simp add: resource_ok_def)
    then have "cs_queued (snapshot_of s) = length (waiting_for rid (gw_clients w) (cg_done (gw_gate w)))"
      by (simp add: snapshot_of_def entries_def length_concat comp_def case_prod_beta)
    moreover have "rs_in_use s = rs_limit s" if "waiting_for rid (gw_clients w) (cg_done (gw_gate w)) \<noteq> []"
    proof -
      have "rs_queues s \<noteq> []" using r that by (auto simp: resource_ok_def)
      then have "rs_round_robin s \<noteq> []" using r by (auto simp: resource_ok_def rounds_ok_def)
      with r show ?thesis by (auto simp: resource_ok_def)
    qed
    ultimately show ?thesis using Some r by (auto simp: resource_ok_def)
  qed
  show "\<forall>(f, r, lane) \<in> set (gw_clients w). (\<exists>w'. gate_step w (GateCancel f) w') \<and>
       (f \<in> set (cg_done (gw_gate w)) \<longrightarrow> (\<exists>w'. gate_step w (GateLeave f) w'))"
  proof clarify
    fix f r lane
    assume c: "(f, r, lane) \<in> set (gw_clients w)"
    obtain g where "cancel_waiter r lane f (gw_gate w) = Inr g" using cancel_waiter_ok [OF ok c] by blast
    moreover have "\<exists>w'. gate_step w (GateLeave f) w'" if d: "f \<in> set (cg_done (gw_gate w))"
    proof -
      obtain g where "release_permit r (gw_gate w) = Inr g" using release_permit_ok [OF ok c d] by blast
      from gate_step.leave [OF c d this] show ?thesis by blast
    qed
    ultimately show "(\<exists>w'. gate_step w (GateCancel f) w') \<and>
        (f \<in> set (cg_done (gw_gate w)) \<longrightarrow> (\<exists>w'. gate_step w (GateLeave f) w'))"
      using gate_step.cancel [OF c] by blast
  qed
  show "\<exists>w'. gate_step w (GateEnter rid lane limit) w'"
    using enter_queue_ok [OF ok, of rid lane limit] by (blast intro: gate_step.intros)
qed

definition sample_lane :: "string \<Rightarrow> capacity_lane" where
  "sample_lane scope = \<lparr>cl_tenant_key = ''t'', cl_app_id = ''a'', cl_scope_key = scope\<rparr>"

text \<open>One permit, two waiters: the first owns it, the second waits.\<close>

lemma capacity_respected_witness:
  "\<exists>w s. gate_reachable w \<and> map_of (cg_resources (gw_gate w)) ''model'' = Some s \<and>
     waiting_for ''model'' (gw_clients w) (cg_done (gw_gate w)) \<noteq> [] \<and> rs_in_use s = rs_limit s"
proof -
  let ?e = "enter_queue ''model'' (sample_lane ''one'') 1 empty_gate"
  have "case ?e of Inr (g, f) \<Rightarrow> (case enter_queue ''model'' (sample_lane ''two'') 1 g of
      Inr (g', f') \<Rightarrow> waiting_for ''model'' [(f, ''model'', sample_lane ''one''), (f', ''model'', sample_lane ''two'')] (cg_done g') \<noteq> [] |
      Inl _ \<Rightarrow> False) | Inl _ \<Rightarrow> False" by code_simp
  then obtain g f where e1: "?e = Inr (g, f)"
    and x: "case enter_queue ''model'' (sample_lane ''two'') 1 g of Inl _ \<Rightarrow> False | Inr (g', f') \<Rightarrow>
      waiting_for ''model'' [(f, ''model'', sample_lane ''one''), (f', ''model'', sample_lane ''two'')] (cg_done g') \<noteq> []"
    by (cases ?e) auto
  from x obtain g' f' where e2: "enter_queue ''model'' (sample_lane ''two'') 1 g = Inr (g', f')"
    and wait: "waiting_for ''model'' [(f, ''model'', sample_lane ''one''), (f', ''model'', sample_lane ''two'')] (cg_done g') \<noteq> []"
    by (auto split: sum.splits)
  let ?w1 = "\<lparr>gw_gate = g, gw_clients = [(f, ''model'', sample_lane ''one'')]\<rparr>"
  let ?w2 = "\<lparr>gw_gate = g', gw_clients = [(f, ''model'', sample_lane ''one''), (f', ''model'', sample_lane ''two'')]\<rparr>"
  have "gate_reachable ?w1"
    using next_step [OF start gate_step.enter [of "''model''" "sample_lane ''one''" 1 empty_world]] e1 by (simp add: empty_world_def)
  then have r: "gate_reachable ?w2"
    using next_step [OF _ gate_step.enter [of "''model''" "sample_lane ''two''" 1 ?w1]] e2 by simp
  note c = conjunct1 [OF capacity_respected [OF r, of "''model''"]]
  show ?thesis
  proof (cases "map_of (cg_resources g') ''model''")
    case None
    with c show ?thesis by simp
  next
    case (Some s)
    with c wait have "rs_in_use s = rs_limit s" by simp
    with Some r wait show ?thesis by (intro exI [of _ ?w2] exI [of _ s]) simp
  qed
qed

end
