(* ===== verification/MemorySessions.thy ===== *)
theory MemorySessions
  imports Samples
begin

text \<open>
  \<open>SessionStore\<close> and \<open>InMemorySessionStore\<close> of \<open>runtime/sessions.py\<close>. The dictionaries of the in-memory
  store are maps and its \<open>defaultdict\<close> of journals a total function. The durable store of
  \<open>storage/session_store.py\<close> refines it: up to the first call that the durable store refuses or, for a
  waiting control, holds back, the in-memory store gives the same answers and they hold the same runs,
  journals and checkpoints.
\<close>

section \<open>The in-memory store\<close>

record memory_sessions =
  ms_runs :: "string \<rightharpoonup> run_status"
  ms_events :: "string \<Rightarrow> run_event list"
  ms_checkpoints :: "string \<rightharpoonup> run_checkpoint"

definition empty_sessions :: memory_sessions where
  "empty_sessions = \<lparr>ms_runs = Map.empty, ms_events = (\<lambda>_. []), ms_checkpoints = Map.empty\<rparr>"

definition memory_start_run :: "string \<Rightarrow> (memory_sessions, unit) eff" where
  "memory_start_run i m = (if ms_runs m i \<noteq> None then (Inl (ValueError (''run already exists: '' @ i)), m)
     else (Inr (), m\<lparr>ms_runs := (ms_runs m)(i \<mapsto> RUNNING)\<rparr>))"

definition memory_append_event :: "string \<Rightarrow> string \<Rightarrow> payload \<Rightarrow> int \<Rightarrow> (memory_sessions, run_event) eff" where
  "memory_append_event i event_type p now m =
     (if ms_runs m i = None then (Inl (run_missing i), m)
      else let e = \<lparr>en_run_id = i, en_sequence = int (length (ms_events m i)) + 1, en_event_type = event_type,
                    en_payload = p, en_created_at_ms = now\<rparr>
        in (Inr e, m\<lparr>ms_events := (ms_events m)(i := ms_events m i @ [e])\<rparr>))"

definition memory_save_checkpoint :: "run_checkpoint \<Rightarrow> (memory_sessions, unit) eff" where
  "memory_save_checkpoint k m = (Inr (), m\<lparr>ms_checkpoints := (ms_checkpoints m)(ck_run_id k \<mapsto> k)\<rparr>)"

definition memory_load_checkpoint :: "string \<Rightarrow> memory_sessions \<Rightarrow> run_checkpoint option" where
  "memory_load_checkpoint i m = ms_checkpoints m i"

definition memory_discard_checkpoint :: "string \<Rightarrow> (memory_sessions, unit) eff" where
  "memory_discard_checkpoint i m = (Inr (), m\<lparr>ms_checkpoints := (ms_checkpoints m)(i := None)\<rparr>)"

definition memory_run_status :: "string \<Rightarrow> memory_sessions \<Rightarrow> run_status option" where
  "memory_run_status i m = ms_runs m i"

text \<open>The last terminal event, read back as the durable store reads it.\<close>

definition memory_load_outcome :: "string \<Rightarrow> memory_sessions \<Rightarrow> exn + agent_outcome option" where
  "memory_load_outcome i m = (case find (\<lambda>e. en_event_type e = ''run_terminal'') (rev (ms_events m i)) of
     None \<Rightarrow> Inr None
   | Some e \<Rightarrow> chain (outcome_of_payload (en_payload e)) (\<lambda>out. Inr (Some out)))"

definition memory_finish_run :: "string \<Rightarrow> run_status \<Rightarrow> (memory_sessions, unit) eff" where
  "memory_finish_run i status m = (if status = RUNNING \<or> status = WAITING
     then (Inl (ValueError ''finish_run requires a terminal status''), m)
     else (Inr (), m\<lparr>ms_runs := (ms_runs m)(i \<mapsto> status)\<rparr>))"

text \<open>The event stays in the journal when \<open>finish_run\<close> then refuses the status.\<close>

definition memory_try_finish :: "string \<Rightarrow> agent_outcome \<Rightarrow> int \<Rightarrow> (memory_sessions, bool) eff" where
  "memory_try_finish i outcome now m =
     (case memory_append_event i ''run_terminal'' (outcome_payload outcome) now m of
        (Inl x, m1) \<Rightarrow> (Inl x, m1)
      | (Inr e, m1) \<Rightarrow> (case memory_finish_run i (oc_status outcome) m1 of
            (Inl x, m2) \<Rightarrow> (Inl x, m2)
          | (Inr u, m2) \<Rightarrow> (Inr True, m2)))"

section \<open>The protocol\<close>

text \<open>The calls of the protocol that change a store, and their answers.\<close>

datatype session_call =
    StartCall string string string string int int int string
  | AppendCall string string payload int
  | SaveCall run_checkpoint int
  | DiscardCall string
  | FinishCall string run_status int
  | OutcomeCall string agent_outcome "string list" int

datatype session_answer =
    Acknowledged
  | Appended run_event
  | Finished bool

definition answered :: "('a \<Rightarrow> session_answer) \<Rightarrow> (exn + 'a) \<times> 's \<Rightarrow> (exn + session_answer) \<times> 's" where
  "answered f r = (case r of (Inl x, s) \<Rightarrow> (Inl x, s) | (Inr a, s) \<Rightarrow> (Inr (f a), s))"

fun durable_call :: "'b cipher \<Rightarrow> session_call \<Rightarrow> ('b rt_db, session_answer) eff" where
  "durable_call c (StartCall i task s a v p now tr) db = answered (\<lambda>_. Acknowledged) (start_run i task s a v p now tr db)"
| "durable_call c (AppendCall i ty p now) db = answered Appended (append_event c i ty p now db)"
| "durable_call c (SaveCall k now) db = answered (\<lambda>_. Acknowledged) (save_checkpoint c k now db)"
| "durable_call c (DiscardCall i) db = answered (\<lambda>_. Acknowledged) (discard_checkpoint i db)"
| "durable_call c (FinishCall i status now) db = answered (\<lambda>_. Acknowledged) (finish_run i status now db)"
| "durable_call c (OutcomeCall i out applied now) db = answered Finished (try_finish_with_outcome c i out applied now db)"

fun memory_call :: "session_call \<Rightarrow> (memory_sessions, session_answer) eff" where
  "memory_call (StartCall i task s a v p now tr) m = answered (\<lambda>_. Acknowledged) (memory_start_run i m)"
| "memory_call (AppendCall i ty p now) m = answered Appended (memory_append_event i ty p now m)"
| "memory_call (SaveCall k now) m = answered (\<lambda>_. Acknowledged) (memory_save_checkpoint k m)"
| "memory_call (DiscardCall i) m = answered (\<lambda>_. Acknowledged) (memory_discard_checkpoint i m)"
| "memory_call (FinishCall i status now) m = answered (\<lambda>_. Acknowledged) (memory_finish_run i status m)"
| "memory_call (OutcomeCall i out applied now) m = answered Finished (memory_try_finish i out now m)"

text \<open>Terminal events are written by \<open>try_finish_with_outcome\<close> only.\<close>

fun legal_call :: "session_call \<Rightarrow> bool" where
  "legal_call (AppendCall i ty p now) = (ty \<noteq> ''run_terminal'')"
| "legal_call _ = True"

fun calls :: "(session_call \<Rightarrow> ('s, session_answer) eff) \<Rightarrow> session_call list \<Rightarrow> 's \<Rightarrow> (exn + session_answer) list \<times> 's" where
  "calls call [] s = ([], s)"
| "calls call (x # xs) s = (let (r, s1) = call x s; (rs, s2) = calls call xs s1 in (r # rs, s2))"

section \<open>The same sessions\<close>

definition same_sessions :: "'b cipher \<Rightarrow> 'b rt_db \<Rightarrow> memory_sessions \<Rightarrow> bool" where
  "same_sessions c db m \<longleftrightarrow> sessions_ok db \<and>
     (\<forall>i. run_status_of_run i db = memory_run_status i m) \<and> (\<forall>i. journal c i db = Inr (ms_events m i)) \<and>
     (\<forall>i. load_checkpoint c i db = Inr (memory_load_checkpoint i m))"

lemma answered_Inr: "answered f r = (Inr a, s) \<longleftrightarrow> (\<exists>b. r = (Inr b, s) \<and> a = f b)"
  by (cases r) (auto simp: answered_def split: sum.splits)

lemma journal_rows:
  assumes "sessions_ok db"
  shows "journal c i db = decode_all (event_of_row c) (run_events i db)"
proof -
  have "numbered (map rv_sequence (run_events i db))" using assms by (simp add: sessions_ok_def run_ok_def)
  moreover have "sorted (map int [a..<b])" for a b by (induction b) (auto simp: sorted_append)
  ultimately have "sorted (map rv_sequence (run_events i db))" unfolding numbered_def by metis
  then show ?thesis by (simp add: journal_def sort_key_id_if_sorted)
qed

lemma decode_all_snoc:
  "decode_all f (rs @ [r]) = chain (decode_all f rs) (\<lambda>as. chain (f r) (\<lambda>a. Inr (as @ [a])))"
  by (induction rs) (auto split: sum.splits simp: chain_def)

text \<open>Appending an event to the journal of a run, in both stores.\<close>

lemma journal_insert:
  assumes c: "opens_sealed c" and ok: "sessions_ok db" and ok': "sessions_ok db'"
    and db': "\<And>j. run_events j db' = run_events j (insert_run_event c i ty p now db)"
    and j: "\<forall>j. journal c j db = Inr (ms_events m j)"
  shows "journal c j db' = Inr (((ms_events m)(i := ms_events m i @ [\<lparr>en_run_id = i,
    en_sequence = int (length (ms_events m i)) + 1, en_event_type = ty, en_payload = p, en_created_at_ms = now\<rparr>])) j)"
proof -
  have rows: "decode_all (event_of_row c) (run_events j db) = Inr (ms_events m j)" for j
    using j journal_rows [OF ok, of c j] by simp
  have n: "next_sequence i db = int (length (ms_events m i)) + 1"
    using next_sequence_numbered [of i db] ok decode_all_length [OF rows [of i]] by (simp add: sessions_ok_def run_ok_def)
  show ?thesis
    using rows [of j] rows [of i] c n
    by (simp add: journal_rows [OF ok'] db' run_events_insert decode_all_snoc event_of_row_def session_decrypt_def)
qed

section \<open>Call by call\<close>

lemma same_run: "same_sessions c db m \<Longrightarrow> ms_runs m i = map_option rn_status (find_run i db)"
  unfolding same_sessions_def run_status_of_run_def memory_run_status_def by metis

lemma start_same:
  assumes "same_sessions c db m" "start_run i task s a v p now tr db = (Inr u, db')"
  shows "\<exists>m'. memory_start_run i m = (Inr u, m') \<and> same_sessions c db' m'"
proof -
  from transaction_InrD [OF assms(2) [unfolded start_run_def]]
  have none: "find_run i db = None" and "\<exists>r. rn_run_id r = i \<and> rn_status r = RUNNING \<and> db' = db\<lparr>db_runs := db_runs db @ [r]\<rparr>"
    unfolding start_run_tx_def by (auto split: if_splits intro!: exI conjI)
  then obtain r where r: "rn_run_id r = i" "rn_status r = RUNNING" and db': "db' = db\<lparr>db_runs := db_runs db @ [r]\<rparr>" by blast
  have ok: "sessions_ok db" "sessions_ok db'"
    using assms start_run_ok [of db i task s a v p now tr] by (simp_all add: same_sessions_def)
  have "run_status_of_run j db' = (if j = i then Some RUNNING else run_status_of_run j db)" for j
    using none r by (simp add: run_status_of_run_def find_run_def db' find_snoc split: option.splits)
  moreover have "journal c j db' = journal c j db" for j by (simp add: journal_def run_events_def db')
  moreover have "load_checkpoint c j db' = load_checkpoint c j db" for j by (simp add: load_checkpoint_def db')
  moreover have "ms_runs m i = None" using same_run [OF assms(1), of i] none by simp
  ultimately show ?thesis
    using assms(1) ok by (auto simp: same_sessions_def memory_start_run_def memory_run_status_def memory_load_checkpoint_def)
qed

lemma append_same:
  assumes c: "opens_sealed c" and same: "same_sessions c db m" and ty: "ty \<noteq> ''run_terminal''"
    and r: "append_event c i ty p now db = (Inr e, db')"
  shows "\<exists>m'. memory_append_event i ty p now m = (Inr e, m') \<and> same_sessions c db' m'"
proof -
  from transaction_InrD [OF r [unfolded append_event_def]]
  have run: "find_run i db \<noteq> None" and db': "db' = insert_run_event c i ty p now db"
    and e: "e = \<lparr>en_run_id = i, en_sequence = next_sequence i db, en_event_type = ty, en_payload = p, en_created_at_ms = now\<rparr>"
    by (auto simp: append_event_tx_def split: if_splits)
  have ok: "sessions_ok db" "sessions_ok db'"
    using same r append_event_ok [of db ty c i p now] ty by (simp_all add: same_sessions_def)
  have j: "\<forall>j. journal c j db = Inr (ms_events m j)" using same by (simp add: same_sessions_def)
  have "length (run_events i db) = length (ms_events m i)"
    using j journal_rows [OF ok(1), of c i] decode_all_length by metis
  then have n: "next_sequence i db = int (length (ms_events m i)) + 1"
    using next_sequence_numbered [of i db] ok(1) by (simp add: sessions_ok_def run_ok_def)
  note new = journal_insert [OF c ok(1,2) _ j, of i ty p now, unfolded db', OF refl]
  have "load_checkpoint c k db' = load_checkpoint c k db" "run_status_of_run k db' = run_status_of_run k db" for k
    by (simp_all add: load_checkpoint_def run_status_of_run_def db')
  moreover have "ms_runs m i \<noteq> None" using same_run [OF same, of i] run by simp
  ultimately show ?thesis
    using same ok(2) new by (auto simp: same_sessions_def memory_append_event_def memory_run_status_def
      memory_load_checkpoint_def e n db' Let_def)
qed

lemma save_same:
  assumes c: "opens_sealed c" and same: "same_sessions c db m" and r: "save_checkpoint c k now db = (Inr u, db')"
  shows "\<exists>m'. memory_save_checkpoint k m = (Inr u, m') \<and> same_sessions c db' m'"
proof -
  note cs = save_checkpoint_tx_cases [OF transaction_InrD [OF r [unfolded save_checkpoint_def]]]
  have ok: "sessions_ok db'"
    using same r save_checkpoint_ok [of db c k now] by (simp add: same_sessions_def)
  have "find (\<lambda>p. cp_run_id p = j) (db_checkpoints db') = find (\<lambda>p. cp_run_id p = j) (db_checkpoints db)"
    if "j \<noteq> ck_run_id k" for j
  proof -
    have "find (\<lambda>p. cp_run_id p = j) (update_where (\<lambda>p. cp_run_id p = ck_run_id k)
        (\<lambda>p. checkpoint_row_of c k now\<lparr>cp_created_at_ms := cp_created_at_ms p\<rparr>) rows) = find (\<lambda>p. cp_run_id p = j) rows" for rows
      using that by (induction rows) (auto simp: checkpoint_row_of_def)
    then show ?thesis using that by (simp add: cs(3) find_snoc checkpoint_row_of_def split: option.splits)
  qed
  then have "load_checkpoint c j db' = load_checkpoint c j db" if "j \<noteq> ck_run_id k" for j
    using that by (simp add: load_checkpoint_def)
  moreover have "load_checkpoint c (ck_run_id k) db' = Inr (Some k)"
    using saved_checkpoint_row [of c k now db db'] r c
    by (auto simp: load_checkpoint_def session_decrypt_def checkpoint_from_dict_dict)
  moreover have "journal c j db' = journal c j db" "run_status_of_run j db' = run_status_of_run j db" for j
    by (simp_all add: journal_def run_events_def run_status_of_run_def find_run_def cs(1,2))
  ultimately show ?thesis
    using same ok by (auto simp: same_sessions_def memory_save_checkpoint_def memory_run_status_def memory_load_checkpoint_def)
qed

lemma discard_same:
  assumes "same_sessions c db m" "discard_checkpoint i db = (Inr u, db')"
  shows "\<exists>m'. memory_discard_checkpoint i m = (Inr u, m') \<and> same_sessions c db' m'"
proof -
  have ok: "sessions_ok db'" using assms discard_checkpoint_ok [of db i] by (simp add: same_sessions_def)
  have "find (\<lambda>p. cp_run_id p = j) (delete_where (\<lambda>p. cp_run_id p = i) rows) =
      (if j = i then None else find (\<lambda>p. cp_run_id p = j) rows)" for j and rows :: "'a checkpoint_row list"
    unfolding delete_where_def by (induction rows) auto
  moreover have db': "db' = db\<lparr>db_checkpoints := delete_where (\<lambda>p. cp_run_id p = i) (db_checkpoints db),
     db_checkpoint_sources := delete_where (\<lambda>s. cs_run_id s = i) (db_checkpoint_sources db)\<rparr>"
    using assms(2) by (simp add: discard_checkpoint_def transaction_def)
  ultimately have "load_checkpoint c j db' = (if j = i then Inr None else load_checkpoint c j db)" for j
    by (simp add: load_checkpoint_def)
  moreover have "journal c j db' = journal c j db" "run_status_of_run j db' = run_status_of_run j db" for j
    by (simp_all add: journal_def run_events_def run_status_of_run_def find_run_def db')
  ultimately show ?thesis
    using assms(1) ok by (auto simp: same_sessions_def memory_discard_checkpoint_def memory_run_status_def memory_load_checkpoint_def)
qed

lemma set_status_same:
  assumes same: "same_sessions c db m" and ok: "sessions_ok (set_run_status i st now db)" and run: "find_run i db = Some r"
  shows "same_sessions c (set_run_status i st now db) (m\<lparr>ms_runs := (ms_runs m)(i \<mapsto> st)\<rparr>)"
proof -
  have "run_status_of_run j (set_run_status i st now db) = (if j = i then Some st else run_status_of_run j db)" for j
    using run by (auto simp: run_status_of_run_def find_run_set_status split: option.splits)
  moreover have "journal c j (set_run_status i st now db) = journal c j db" for j by (simp add: journal_def)
  moreover have "load_checkpoint c j (set_run_status i st now db) = load_checkpoint c j db" for j by (simp add: load_checkpoint_def)
  ultimately show ?thesis
    using same ok by (auto simp: same_sessions_def memory_run_status_def memory_load_checkpoint_def)
qed

lemma finish_same:
  assumes same: "same_sessions c db m" and r: "finish_run i st now db = (Inr u, db')"
  shows "\<exists>m'. memory_finish_run i st m = (Inr u, m') \<and> same_sessions c db' m'"
proof -
  have st: "st \<noteq> RUNNING" "st \<noteq> WAITING" using r by (auto simp: finish_run_def raise_def split: if_splits)
  then have "count_where (\<lambda>r. rn_run_id r = i) (db_runs db) = 1" and db': "db' = set_run_status i st now db"
    using r by (auto simp: finish_run_def transaction_def split: if_splits)
  then have "filter (\<lambda>r. rn_run_id r = i) (db_runs db) \<noteq> []" by (auto simp: count_where_def)
  then have "find_run i db \<noteq> None" by (auto simp: find_run_def find_None_iff filter_empty_conv)
  then obtain run where "find_run i db = Some run" by blast
  with set_status_same [OF same, of i st now run] finish_run_ok [of db i st now] same r st show ?thesis
    by (auto simp: same_sessions_def memory_finish_run_def db')
qed

lemma view_same:
  assumes "same_sessions c db m" "session_view db' = session_view db"
  shows "same_sessions c db' m"
  using assms session_view_cong [OF assms(2)]
  by (simp add: same_sessions_def run_status_of_run_def journal_def)

text \<open>An outcome that is not held back by a waiting control.\<close>

lemma outcome_same:
  assumes c: "opens_sealed c" and same: "same_sessions c db m"
    and r: "try_finish_with_outcome c i out applied now db = (Inr b, db')" and b: "b"
  shows "\<exists>m'. memory_try_finish i out now m = (Inr b, m') \<and> same_sessions c db' m'"
proof -
  have st: "oc_status out \<noteq> RUNNING" "oc_status out \<noteq> WAITING"
    using r by (auto simp: try_finish_with_outcome_def raise_def split: if_splits)
  have ok': "sessions_ok db'"
    using same r try_finish_ok [of db c i out applied now] by (simp add: same_sessions_def)
  have tx: "try_finish_tx c i out applied now db = Inr (b, db')"
    by (rule transaction_InrD) (use r st in \<open>simp add: try_finish_with_outcome_def\<close>)
  obtain run db2 where run: "find_run i db = Some run" and v2: "session_view db2 = session_view db"
    and db': "db' = set_run_status i (oc_status out) now (insert_run_event c i ''run_terminal'' (outcome_payload out) now db2)"
    using tx
  proof (cases rule: try_finish_tx_cases)
    case (1 run db1)
    have "session_view db1 = session_view db" using 1(3) by simp
    with 1(5) b that [OF 1(1)] view_supersede [of "rn_task_id run" now db1] show ?thesis by metis
  qed
  note same2 = view_same [OF same v2]
  define db3 where "db3 = insert_run_event c i ''run_terminal'' (outcome_payload out) now db2"
  have ev: "run_events j db' = run_events j db3" for j by (simp add: db' db3_def)
  have run2: "find_run i db2 = Some run" using run session_view_cong(1) [OF v2, of i] by simp
  have ok2: "sessions_ok db2" and j: "\<forall>j. journal c j db2 = Inr (ms_events m j)" using same2 by (simp_all add: same_sessions_def)
  note new = journal_insert [OF c ok2 ok' _ j, of i "''run_terminal''" "outcome_payload out" now, unfolded db3_def [symmetric], OF ev]
  have "run_status_of_run k db' = (if k = i then Some (oc_status out) else run_status_of_run k db2)" for k
    using run2 by (auto simp: run_status_of_run_def db' find_run_set_status split: option.splits)
  moreover have "load_checkpoint c k db' = load_checkpoint c k db2" for k by (simp add: load_checkpoint_def db')
  moreover have "ms_runs m i \<noteq> None" using same_run [OF same, of i] run by simp
  ultimately show ?thesis
    using same2 ok' new st b by (auto simp: same_sessions_def memory_try_finish_def memory_append_event_def
      memory_finish_run_def memory_run_status_def memory_load_checkpoint_def Let_def)
qed

section \<open>Reading\<close>

lemma find_rev_single: "filter P xs = [x] \<Longrightarrow> find P (rev xs) = Some x"
proof -
  have "find P ys = Some x" if "filter P ys = [x]" for ys using that by (induction ys) (auto split: if_splits)
  moreover assume "filter P xs = [x]"
  ultimately show ?thesis by (simp add: rev_filter [symmetric])
qed

lemma decode_all_filter:
  assumes "decode_all f rs = Inr as" "\<And>r a. f r = Inr a \<Longrightarrow> Q a \<longleftrightarrow> P r"
  shows "decode_all f (filter P rs) = Inr (filter Q as)"
  using assms(1) by (induction rs arbitrary: as) (auto simp: assms(2) split: sum.splits)

lemma outcome_read_same:
  assumes same: "same_sessions c db m"
  shows "load_outcome c i db = memory_load_outcome i m"
proof -
  have ok: "sessions_ok db" and j: "journal c i db = Inr (ms_events m i)" using same by (auto simp: same_sessions_def)
  have rows: "decode_all (event_of_row c) (run_events i db) = Inr (ms_events m i)" using j journal_rows [OF ok, of c i] by simp
  have "decode_all (event_of_row c) (terminal_rows i db) = Inr (filter (\<lambda>e. en_event_type e = ''run_terminal'') (ms_events m i))"
    unfolding terminal_rows_def by (rule decode_all_filter [OF rows]) (auto simp: event_of_row_def chain_Inr)
  moreover have "length (terminal_rows i db) \<le> 1" using ok by (simp add: sessions_ok_def run_ok_def)
  moreover have "rv_run_id e = i" if "e \<in> set (terminal_rows i db)" for e
    using that by (auto simp: terminal_rows_def run_events_def)
  ultimately consider "terminal_rows i db = []" "filter (\<lambda>e. en_event_type e = ''run_terminal'') (ms_events m i) = []"
    | row e where "terminal_rows i db = [row]" "rv_run_id row = i" "event_of_row c row = Inr e"
      "filter (\<lambda>e. en_event_type e = ''run_terminal'') (ms_events m i) = [e]"
    by (cases "terminal_rows i db") (auto split: sum.splits)
  then show ?thesis
  proof cases
    case 1
    then have "find (\<lambda>e. en_event_type e = ''run_terminal'') (rev (ms_events m i)) = None"
      by (auto simp: find_None_iff filter_empty_conv)
    with 1 show ?thesis by (simp add: load_outcome_def memory_load_outcome_def first_by_def)
  next
    case 2
    with find_rev_single [OF 2(4)] show ?thesis
      by (auto simp: load_outcome_def memory_load_outcome_def first_by_def event_of_row_def chain_Inr)
  qed
qed

section \<open>Refinement\<close>

lemma call_same:
  assumes "opens_sealed c" "same_sessions c db m" "legal_call x" "durable_call c x db = (Inr a, db')" "a \<noteq> Finished False"
  shows "\<exists>m'. memory_call x m = (Inr a, m') \<and> same_sessions c db' m'"
proof (cases x)
  case (StartCall i task s a v p now tr)
  with assms(4) show ?thesis by (auto simp: answered_Inr dest!: start_same [OF assms(2)])
next
  case (AppendCall i ty p now)
  with assms(3,4) show ?thesis by (auto simp: answered_Inr dest!: append_same [OF assms(1,2)])
next
  case (SaveCall k now)
  with assms(4) show ?thesis by (auto simp: answered_Inr dest!: save_same [OF assms(1,2)])
next
  case (DiscardCall i)
  with assms(4) show ?thesis by (auto simp: answered_Inr dest!: discard_same [OF assms(2)])
next
  case (FinishCall i status now)
  with assms(4) show ?thesis by (auto simp: answered_Inr dest!: finish_same [OF assms(2)])
next
  case (OutcomeCall i out applied now)
  with assms(4,5) show ?thesis by (auto simp: answered_Inr dest!: outcome_same [OF assms(1,2)])
qed

text \<open>A call the durable store carries out: it raises nothing and holds no completion back for a waiting control.\<close>

definition carried_out :: "exn + session_answer \<Rightarrow> bool" where
  "carried_out r \<longleftrightarrow> (case r of Inl _ \<Rightarrow> False | Inr a \<Rightarrow> a \<noteq> Finished False)"

lemma calls_length: "length (fst (calls call xs s)) = length xs"
  by (induction xs arbitrary: s) (auto simp: case_prod_unfold Let_def)

lemma calls_take: "fst (calls call (take n xs) s) = take n (fst (calls call xs s))"
proof (induction xs arbitrary: n s)
  case (Cons x xs)
  then show ?case by (cases n) (simp_all add: case_prod_unfold Let_def)
qed simp

lemma calls_nth:
  "n < length xs \<Longrightarrow> fst (call (xs ! n) (snd (calls call (take n xs) s))) = fst (calls call xs s) ! n"
proof (induction xs arbitrary: n s)
  case (Cons x xs)
  then show ?case by (cases n) (simp_all add: case_prod_unfold Let_def)
qed simp

text \<open>Where the durable store holds a completion back, the in-memory one carries it out.\<close>

lemma held_back:
  assumes "same_sessions c db m" "durable_call c x db = (Inr (Finished False), db')"
  shows "fst (memory_call x m) = Inr (Finished True)"
proof (cases x)
  case (OutcomeCall i out applied now)
  with assms(2) have r: "try_finish_with_outcome c i out applied now db = (Inr False, db')" by (auto simp: answered_Inr)
  then have st: "oc_status out \<noteq> RUNNING" "oc_status out \<noteq> WAITING"
    by (auto simp: try_finish_with_outcome_def raise_def split: if_splits)
  then have "try_finish_tx c i out applied now db = (Inr (False, db'))"
    using r by (intro transaction_InrD) (simp add: try_finish_with_outcome_def)
  then have "find_run i db \<noteq> None" by (auto simp: try_finish_tx_def split: option.splits)
  then have "ms_runs m i \<noteq> None" using same_run [OF assms(1), of i] by simp
  with st OutcomeCall show ?thesis
    by (auto simp: memory_try_finish_def memory_append_event_def memory_finish_run_def answered_def Let_def)
qed (use assms(2) in \<open>auto simp: answered_Inr\<close>)

lemma carried_out_refines:
  assumes "opens_sealed c" and "same_sessions c db m" and "list_all legal_call xs"
    and "list_all carried_out (fst (calls (durable_call c) xs db))"
  shows "fst (calls memory_call xs m) = fst (calls (durable_call c) xs db) \<and>
    same_sessions c (snd (calls (durable_call c) xs db)) (snd (calls memory_call xs m))"
  using assms(2-)
proof (induction xs arbitrary: db m)
  case (Cons x xs)
  obtain r db1 where r: "durable_call c x db = (r, db1)" by fastforce
  with Cons.prems(3) obtain a where a: "r = Inr a" "a \<noteq> Finished False"
    by (auto simp: carried_out_def case_prod_unfold Let_def split: sum.splits)
  obtain m1 where m1: "memory_call x m = (Inr a, m1)" "same_sessions c db1 m1"
    using call_same [OF assms(1) Cons.prems(1) _ _ a(2), of x db1] Cons.prems(2) r a(1) by auto
  from Cons.IH [OF m1(2)] Cons.prems(2,3) r m1(1) a(1) show ?case by (simp add: case_prod_unfold Let_def)
qed simp

text \<open>
  C31. The durable session store refines the in-memory one up to the first call it does not carry out: starting from the same
  sessions, for any sequence of calls, of which \<open>n\<close> come before the first one where the durable store raises or holds a
  completion back for a waiting control, the in-memory store gives the same \<open>n\<close> answers, then both hold the same runs,
  journals and checkpoints, and every outcome reads back the same from both. At a completion that is held back they part: the
  in-memory store, which knows no controls, carries it out.
\<close>

theorem durable_refines_memory:
  fixes c :: "'b cipher"
  assumes "opens_sealed c" and "same_sessions c db m" and "list_all legal_call xs"
    and "rs = fst (calls (durable_call c) xs db)" and "n = length (takeWhile carried_out rs)"
    and "db' = snd (calls (durable_call c) (take n xs) db)" and "m' = snd (calls memory_call (take n xs) m)"
  shows "fst (calls memory_call (take n xs) m) = take n rs \<and> same_sessions c db' m' \<and>
    (\<forall>i. load_outcome c i db' = memory_load_outcome i m') \<and>
    (n < length xs \<longrightarrow> rs ! n = Inr (Finished False) \<longrightarrow> fst (memory_call (xs ! n) m') = Inr (Finished True))"
proof -
  have first: "take n rs = takeWhile carried_out rs" unfolding assms(5) by (rule takeWhile_eq_take [symmetric])
  have "list_all legal_call (take n xs)" using assms(3) by (auto simp: list_all_iff dest: in_set_takeD)
  moreover have "fst (calls (durable_call c) (take n xs) db) = takeWhile carried_out rs"
    using first by (simp add: calls_take assms(4))
  moreover have "list_all carried_out (takeWhile carried_out rs)" by (auto simp: list_all_iff dest: set_takeWhileD)
  ultimately have same: "fst (calls memory_call (take n xs) m) = take n rs" "same_sessions c db' m'"
    using carried_out_refines [OF assms(1,2), of "take n xs"] first assms(6,7) by simp_all
  have "fst (memory_call (xs ! n) m') = Inr (Finished True)" if n: "n < length xs" "rs ! n = Inr (Finished False)"
  proof -
    have "fst (durable_call c (xs ! n) db') = Inr (Finished False)"
      using calls_nth [of n xs "durable_call c" db] n unfolding assms(4,6) by simp
    then obtain db2 where "durable_call c (xs ! n) db' = (Inr (Finished False), db2)" by (metis prod.collapse)
    from held_back [OF same(2) this] show ?thesis .
  qed
  with same outcome_read_same [OF same(2)] show ?thesis by blast
qed

section \<open>A run in both stores\<close>

definition finished_outcome :: agent_outcome where
  "finished_outcome = \<lparr>oc_status = COMPLETED, oc_summary = ''done'', oc_resource_refs = [], oc_warnings = []\<rparr>"

definition sample_calls :: "session_call list" where
  "sample_calls = [AppendCall ''r1'' ''turn'' [(''n'', JInt 1)] 21, DiscardCall ''r1'', OutcomeCall ''r1'' finished_outcome [] 22]"

text \<open>A run in both stores; for the durable one a follow-up then arrives, which holds back the completion of the run.\<close>

definition sample_both :: "(string \<times> json) rt_db \<times> memory_sessions" where
  "sample_both = (rt_step 16 (OpAdmitControl plain_cipher ''c1'' ''o9'' (sample_event ''e9'') ''s'' ''u'' STEER ''shorter'' (sample_draft ''k9''))
       (snd (start_run ''r1'' ''t1'' ''s'' ''agent'' 1 1 15 [] sample_admitted)),
     snd (memory_start_run ''r1'' empty_sessions))"

lemma sample_both_same: "same_sessions plain_cipher (fst sample_both) (snd sample_both)"
proof -
  have ok: "sessions_ok sample_admitted" using sample_admitted_ok by (simp add: runtime_ok_def)
  have "db_runs sample_admitted = [] \<and> db_run_events sample_admitted = [] \<and> db_checkpoints sample_admitted = []"
    by code_simp
  then have same: "same_sessions plain_cipher sample_admitted empty_sessions"
    using ok by (simp add: same_sessions_def empty_sessions_def run_status_of_run_def find_run_def memory_run_status_def
      journal_def run_events_def load_checkpoint_def memory_load_checkpoint_def)
  have "fst (start_run ''r1'' ''t1'' ''s'' ''agent'' 1 1 15 [] sample_admitted) = Inr ()" by code_simp
  then obtain db1 where r: "start_run ''r1'' ''t1'' ''s'' ''agent'' 1 1 15 [] sample_admitted = (Inr (), db1)" by (metis prod.collapse)
  from start_same [OF same this] have "same_sessions plain_cipher db1 (snd (memory_start_run ''r1'' empty_sessions))" by auto
  moreover have "session_view (fst sample_both) = session_view db1" using r by (simp add: sample_both_def frame)
  ultimately show ?thesis using view_same by (simp add: sample_both_def)
qed

lemma durable_refines_memory_witness:
  "\<exists>e. take 2 (fst (calls (durable_call plain_cipher) sample_calls (fst sample_both))) = [Inr (Appended e), Inr Acknowledged] \<and>
     fst (calls memory_call (take 2 sample_calls) (snd sample_both)) = [Inr (Appended e), Inr Acknowledged] \<and>
     fst (calls (durable_call plain_cipher) sample_calls (fst sample_both)) ! 2 = Inr (Finished False) \<and>
     fst (memory_call (sample_calls ! 2) (snd (calls memory_call (take 2 sample_calls) (snd sample_both)))) = Inr (Finished True)"
proof -
  let ?rs = "fst (calls (durable_call plain_cipher) sample_calls (fst sample_both))"
  have legal: "list_all legal_call sample_calls" by (simp add: sample_calls_def)
  have "case ?rs of [Inr (Appended e), Inr Acknowledged, Inr (Finished False)] \<Rightarrow> True | _ \<Rightarrow> False" by code_simp
  then obtain e where rs: "?rs = [Inr (Appended e), Inr Acknowledged, Inr (Finished False)]"
    by (auto split: list.splits sum.splits session_answer.splits bool.splits)
  have n: "length (takeWhile carried_out ?rs) = 2" by (simp add: rs carried_out_def)
  from durable_refines_memory [OF opens_plain_cipher sample_both_same legal refl n [symmetric] refl refl] rs
  show ?thesis by (simp add: sample_calls_def)
qed

end
