(* ===== verification/ToolExecutor.thy ===== *)
theory ToolExecutor
  imports GraphComms Idempotency CapacityGate
begin

text \<open>
  \<open>ToolRegistry\<close> and \<open>ToolExecutor\<close> of \<open>runtime/tools.py\<close>: a semantic tool runs only when it is
  registered, its arguments are valid, the policy allows it and, where asked for, the requester has
  approved it; a write holds the locks of its targets while it runs and claims an idempotency key first.
  Tools, policy and approval broker are protocols: functions that act on the world, which is the runtime
  store, the agent store, the capacity gate and the rest of the process (\<open>'e\<close>).
\<close>

section \<open>Types\<close>

record tool_context =
  cx_run_id :: string
  cx_node_id :: string
  cx_tenant_key :: string
  cx_app_id :: string
  cx_actor_id :: string
  cx_session_key :: string
  cx_identity_ref :: string
  cx_policy_version :: int
  cx_task_id :: "string option"
  cx_chat_id :: "string option"
  cx_source_message_id :: "string option"
  cx_reply_in_thread :: bool
  cx_write_scope :: "write_scope_target list"
  cx_write_scope_required :: bool
  cx_trace_id :: "string option"

record policy_decision =
  pd_allowed :: bool
  pd_reason :: string
  pd_approval_required :: bool

record tool_reconciliation =
  tn_observation :: payload
  tn_verification :: verification_record
  tn_safe_to_execute :: bool

record ('b, 'e) tool_world =
  tw_db :: "'b rt_db"
  tw_agents :: "'b ag_db"
  tw_gate :: capacity_gate
  tw_env :: 'e

text \<open>
  \<open>SemanticTool\<close>. \<open>resolve_write_target\<close> and \<open>parallel_safe_for\<close> are looked up with \<open>getattr\<close>; a resolver
  answers with a target or (\<open>None\<close>) with some other object. \<open>st_abandoned\<close> is what a tool leaves when its
  coroutine is cancelled while it runs.
\<close>

record ('b, 'e) semantic_tool =
  st_definition :: tool_definition
  st_validate :: "payload \<Rightarrow> exn + unit"
  st_execute :: "payload \<Rightarrow> tool_context \<Rightarrow> (('b, 'e) tool_world, payload) eff"
  st_verify :: "payload \<Rightarrow> payload \<Rightarrow> tool_context \<Rightarrow> (('b, 'e) tool_world, verification_record) eff"
  st_reconcile :: "payload \<Rightarrow> tool_context \<Rightarrow> (('b, 'e) tool_world, tool_reconciliation) eff"
  st_resolve_write_target :: "(payload \<Rightarrow> tool_context \<Rightarrow> ('b, 'e) tool_world \<Rightarrow> exn + write_scope_target option) option"
  st_parallel_safe_for :: "(payload \<Rightarrow> exn + bool) option"
  st_checkpoint_safe :: bool
  st_abandoned :: "payload \<Rightarrow> tool_context \<Rightarrow> ('b, 'e) tool_world \<Rightarrow> ('b, 'e) tool_world"

section \<open>The registry\<close>

type_synonym ('b, 'e) tool_registry = "(string \<times> ('b, 'e) semantic_tool) list"

fun register_tools :: "('b, 'e) tool_registry \<Rightarrow> ('b, 'e) semantic_tool list \<Rightarrow> exn + ('b, 'e) tool_registry" where
  "register_tools known [] = Inr known"
| "register_tools known (t # ts) = (let i = td_tool_id (st_definition t) in
     if map_of known i \<noteq> None then Inl (ValueError (''duplicate semantic tool: '' @ i))
     else register_tools (known @ [(i, t)]) ts)"

definition require_tool :: "('b, 'e) tool_registry \<Rightarrow> string \<Rightarrow> exn + ('b, 'e) semantic_tool" where
  "require_tool tools i = (case map_of tools i of
     None \<Rightarrow> Inl (LookupError (''semantic tool is unavailable: '' @ i)) | Some t \<Rightarrow> Inr t)"

definition allowed_definitions :: "('b, 'e) tool_registry \<Rightarrow> string list \<Rightarrow> exn + tool_definition list" where
  "allowed_definitions tools ids = decode_all (\<lambda>i. chain (require_tool tools i) (\<lambda>t. Inr (st_definition t))) ids"

text \<open>What the guard of a tool raises is not caught.\<close>

definition parallel_call :: "('b, 'e) semantic_tool \<Rightarrow> tool_call \<Rightarrow> exn + bool" where
  "parallel_call t call =
     (if td_effect (st_definition t) \<noteq> READ \<or> \<not> td_parallel_safe (st_definition t) then Inr False
      else case st_parallel_safe_for t of None \<Rightarrow> Inr True | Some guard \<Rightarrow> guard (call_arguments call))"

fun all_parallel :: "(('b, 'e) semantic_tool \<times> tool_call) list \<Rightarrow> exn + bool" where
  "all_parallel [] = Inr True"
| "all_parallel ((t, call) # rest) = chain (parallel_call t call) (\<lambda>b. if b then all_parallel rest else Inr False)"

definition batch_parallel_safe :: "('b, 'e) tool_registry \<Rightarrow> tool_call list \<Rightarrow> exn + bool" where
  "batch_parallel_safe tools calls =
     (if length calls < 2 then Inr False
      else (case decode_all (\<lambda>call. require_tool tools (call_tool_id call)) calls of
        Inl _ \<Rightarrow> Inr False
      | Inr ts \<Rightarrow> all_parallel (zip ts calls)))"

section \<open>The executor\<close>

text \<open>
  \<open>ToolExecutor.__init__\<close>; \<open>te_has_store\<close> and \<open>te_has_locks\<close> say whether an operation store and a lock
  store were given, \<open>te_has_gate\<close> whether a capacity gate was. \<open>te_dumps\<close> and \<open>te_sha256\<close> are the
  standard library's canonical \<open>json.dumps\<close> and hexadecimal SHA-256.
\<close>

record ('b, 'e) tool_executor =
  te_registry :: "('b, 'e) tool_registry"
  te_policy :: "tool_definition \<Rightarrow> tool_call \<Rightarrow> tool_context \<Rightarrow> (('b, 'e) tool_world, policy_decision) eff"
  te_approvals :: "tool_definition \<Rightarrow> tool_call \<Rightarrow> tool_context \<Rightarrow> (('b, 'e) tool_world, bool) eff"
  te_has_store :: bool
  te_has_locks :: bool
  te_claim_lease_ms :: int
  te_write_lock_lease_ms :: int
  te_has_gate :: bool
  te_tool_plugin_ids :: "(string \<times> string) list"
  te_plugin_concurrency :: "int option"
  te_dumps :: "payload \<Rightarrow> string"
  te_sha256 :: "string \<Rightarrow> string"

definition check_executor :: "('b, 'e) tool_executor \<Rightarrow> exn + ('b, 'e) tool_executor" where
  "check_executor x =
     (if min (te_claim_lease_ms x) (te_write_lock_lease_ms x) < 1
      then Inl (ValueError ''tool operation claim lease must be positive'')
      else if \<not> te_has_gate x \<and> te_tool_plugin_ids x \<noteq> []
      then Inl (ValueError ''tool plugin ownership requires a capacity gate'')
      else if te_has_gate x \<and> (case te_plugin_concurrency x of None \<Rightarrow> True | Some n \<Rightarrow> n < 1)
      then Inl (ValueError ''plugin concurrency must be positive with a capacity gate'')
      else Inr x)"

type_synonym ('b, 'e) executed = "(exn + tool_result) \<times> ('b, 'e) tool_world"

definition tool_failure :: "tool_call \<Rightarrow> tool_effect \<Rightarrow> string \<Rightarrow> string \<Rightarrow> tool_result" where
  "tool_failure call effect code summary = \<lparr>tr_call_id = call_call_id call, tr_tool_id = call_tool_id call,
     tr_observation = [], tr_effect = effect,
     tr_verification = \<lparr>vr_state = VERIFICATION_FAILED, vr_verifier_id = ''harness'', vr_summary = summary, vr_resource_refs = []\<rparr>,
     tr_error_code = Some code, tr_checkpoint_safe = True\<rparr>"

definition tool_uncertain :: "tool_call \<Rightarrow> tool_effect \<Rightarrow> string \<Rightarrow> string \<Rightarrow> tool_result" where
  "tool_uncertain call effect code summary = \<lparr>tr_call_id = call_call_id call, tr_tool_id = call_tool_id call,
     tr_observation = [], tr_effect = effect,
     tr_verification = \<lparr>vr_state = UNCERTAIN, vr_verifier_id = ''operation_journal'', vr_summary = summary, vr_resource_refs = []\<rparr>,
     tr_error_code = Some code, tr_checkpoint_safe = True\<rparr>"

definition operation_key :: "('b, 'e) tool_executor \<Rightarrow> tool_call \<Rightarrow> tool_definition \<Rightarrow> tool_context \<Rightarrow> string" where
  "operation_key x call d cx = te_sha256 x (''tool-operation:v1:'' @ cx_run_id cx @ '':'' @ cx_node_id cx @ '':'' @
     td_tool_id d @ '':'' @ show_int (td_version d) @ '':'' @ te_sha256 x (te_dumps x (call_arguments call)))"

definition operation_owner :: "tool_context \<Rightarrow> string" where
  "operation_owner cx = cx_run_id cx @ '':'' @ cx_node_id cx"

definition is_write :: "tool_definition \<Rightarrow> bool" where
  "is_write d \<longleftrightarrow> td_effect d = WRITE \<or> td_effect d = DESTRUCTIVE"

definition on_db :: "('b rt_db, 'a) eff \<Rightarrow> (('b, 'e) tool_world, 'a) eff" where
  "on_db f w = (case f (tw_db w) of (r, db) \<Rightarrow> (r, w\<lparr>tw_db := db\<rparr>))"

definition on_agents :: "('b ag_db, 'a) eff \<Rightarrow> (('b, 'e) tool_world, 'a) eff" where
  "on_agents f w = (case f (tw_agents w) of (r, db) \<Rightarrow> (r, w\<lparr>tw_agents := db\<rparr>))"

section \<open>One operation\<close>

text \<open>
  \<open>_execute_operation\<close> and \<open>_claim_write\<close>: the phases between their awaits. A step runs the await of
  its phase and what follows it up to the next one; a cancellation arrives between two steps.
\<close>

datatype op_phase =
    Claiming
  | Reconciling
  | Settling tool_reconciliation
  | Executing
  | Verifying payload
  | Completing payload verification_record
  | Settled "exn + tool_result"

definition first_phase :: "('b, 'e) tool_executor \<Rightarrow> tool_definition \<Rightarrow> op_phase" where
  "first_phase x d = (if is_write d \<and> te_has_store x then Claiming else Executing)"

definition observed :: "('b, 'e) semantic_tool \<Rightarrow> tool_call \<Rightarrow> payload \<Rightarrow> verification_record \<Rightarrow> string option \<Rightarrow> tool_result" where
  "observed t call observation verification code = \<lparr>tr_call_id = call_call_id call, tr_tool_id = call_tool_id call,
     tr_observation = observation, tr_effect = td_effect (st_definition t), tr_verification = verification,
     tr_error_code = code, tr_checkpoint_safe = st_checkpoint_safe t\<rparr>"

definition replayed :: "tool_call \<Rightarrow> tool_effect \<Rightarrow> string \<Rightarrow> tool_result" where
  "replayed call effect ref = \<lparr>tr_call_id = call_call_id call, tr_tool_id = call_tool_id call,
     tr_observation = [(''resource'', JObj [(''reference'', JStr ref)]), (''idempotent_replay'', JBool True)],
     tr_effect = effect,
     tr_verification = \<lparr>vr_state = VERIFIED, vr_verifier_id = ''operation_journal'',
       vr_summary = ''verified completed operation reused'', vr_resource_refs = [ref]\<rparr>,
     tr_error_code = None, tr_checkpoint_safe = False\<rparr>"

text \<open>What the claim says: replay, wait for the holder, reconcile or go ahead.\<close>

definition after_claim :: "('b, 'e) semantic_tool \<Rightarrow> tool_call \<Rightarrow> idempotency_claim \<Rightarrow> op_phase" where
  "after_claim t call claim = (let effect = td_effect (st_definition t) in
     case (if cl_state claim = ''completed'' then cl_result_ref claim else None) of
       Some (ch # ref) \<Rightarrow> Settled (Inr (replayed call effect (ch # ref)))
     | _ \<Rightarrow> if \<not> cl_acquired claim
         then Settled (Inr (tool_uncertain call effect ''operation_in_progress'' ''write claim is still active''))
         else if cl_recovery_required claim then Reconciling else Executing)"

definition after_reconcile :: "('b, 'e) semantic_tool \<Rightarrow> tool_call \<Rightarrow> exn + tool_reconciliation \<Rightarrow> op_phase" where
  "after_reconcile t call r = (case r of
     Inl e \<Rightarrow> if is_exception e
       then Settled (Inr (tool_uncertain call (td_effect (st_definition t)) ''ambiguous_external_effect''
         (''live reconciliation failed: '' @ exn_name e)))
       else Settled (Inl e)
   | Inr n \<Rightarrow> if vr_state (tn_verification n) = VERIFIED
       then (if vr_resource_refs (tn_verification n) \<noteq> [] then Settling n
             else Settled (Inr (observed t call (tn_observation n) (tn_verification n) None)))
       else if tn_safe_to_execute n then Executing
       else Settled (Inr (observed t call (tn_observation n) (tn_verification n) (Some ''ambiguous_external_effect''))))"

text \<open>\<open>except TimeoutError\<close> comes before \<open>except Exception\<close>; a cancellation passes both.\<close>

definition tool_raised :: "('b, 'e) semantic_tool \<Rightarrow> tool_call \<Rightarrow> exn \<Rightarrow> op_phase" where
  "tool_raised t call e = (let effect = td_effect (st_definition t) in case e of
     TimeoutError m \<Rightarrow> Settled (Inr (tool_failure call effect ''timeout_error'' m))
   | _ \<Rightarrow> if is_exception e then Settled (Inr (tool_failure call effect ''tool_error'' (exn_message e))) else Settled (Inl e))"

definition after_verify :: "('b, 'e) tool_executor \<Rightarrow> ('b, 'e) semantic_tool \<Rightarrow> tool_call \<Rightarrow> payload \<Rightarrow> verification_record \<Rightarrow> op_phase" where
  "after_verify x t call observation v =
     (if is_write (st_definition t) \<and> te_has_store x \<and> vr_state v = VERIFIED \<and> vr_resource_refs v \<noteq> []
      then Completing observation v else Settled (Inr (observed t call observation v None)))"

definition complete_operation ::
  "('b, 'e) tool_executor \<Rightarrow> ('b, 'e) semantic_tool \<Rightarrow> tool_call \<Rightarrow> tool_context \<Rightarrow> int \<Rightarrow> payload \<Rightarrow> verification_record \<Rightarrow>
     ('b, 'e) tool_world \<Rightarrow> op_phase \<times> ('b, 'e) tool_world" where
  "complete_operation x t call cx now observation v w =
     (case on_db (complete_idempotency (operation_key x call (st_definition t) cx) (operation_owner cx)
         (hd (vr_resource_refs v)) now) w of
        (Inl e, w1) \<Rightarrow> (Settled (Inl e), w1)
      | (Inr u, w1) \<Rightarrow> (Settled (Inr (observed t call observation v None)), w1))"

fun operation_step ::
  "('b, 'e) tool_executor \<Rightarrow> ('b, 'e) semantic_tool \<Rightarrow> tool_call \<Rightarrow> tool_context \<Rightarrow> int \<Rightarrow> op_phase \<Rightarrow>
     ('b, 'e) tool_world \<Rightarrow> op_phase \<times> ('b, 'e) tool_world" where
  "operation_step x t call cx now Claiming w =
     (case on_db (claim_idempotency (operation_key x call (st_definition t) cx) (td_tool_id (st_definition t))
         (operation_owner cx) (now + te_claim_lease_ms x) now) w of
        (Inl e, w1) \<Rightarrow> (Settled (Inl e), w1)
      | (Inr claim, w1) \<Rightarrow> (after_claim t call claim, w1))"
| "operation_step x t call cx now Reconciling w =
     (case st_reconcile t (call_arguments call) cx w of (r, w1) \<Rightarrow> (after_reconcile t call r, w1))"
| "operation_step x t call cx now (Settling n) w =
     complete_operation x t call cx now (tn_observation n) (tn_verification n) w"
| "operation_step x t call cx now Executing w =
     (case st_execute t (call_arguments call) cx w of
        (Inl e, w1) \<Rightarrow> (tool_raised t call e, w1)
      | (Inr observation, w1) \<Rightarrow> (Verifying observation, w1))"
| "operation_step x t call cx now (Verifying observation) w =
     (case st_verify t (call_arguments call) observation cx w of
        (Inl e, w1) \<Rightarrow> (tool_raised t call e, w1)
      | (Inr v, w1) \<Rightarrow> (after_verify x t call observation v, w1))"
| "operation_step x t call cx now (Completing observation v) w =
     complete_operation x t call cx now observation v w"
| "operation_step x t call cx now (Settled r) w = (Settled r, w)"

text \<open>What a cancelled operation leaves: the tool's coroutine may have been under way.\<close>

definition abandon_operation ::
  "('b, 'e) semantic_tool \<Rightarrow> tool_call \<Rightarrow> tool_context \<Rightarrow> op_phase \<Rightarrow> ('b, 'e) tool_world \<Rightarrow> ('b, 'e) tool_world" where
  "abandon_operation t call cx phase w = (case phase of
     Claiming \<Rightarrow> w | Settling _ \<Rightarrow> w | Completing _ _ \<Rightarrow> w | Settled _ \<Rightarrow> w
   | _ \<Rightarrow> st_abandoned t (call_arguments call) cx w)"

section \<open>The lease heartbeat\<close>

text \<open>
  \<open>_execute_with_lease_heartbeat\<close> and \<open>_renew_scope\<close>: the operation and the renewal run side by side.
  A schedule says which of them moves next, and at what time; \<open>None\<close> is a schedule that ends before
  either of them has finished. When a renewal fails the operation is cancelled.
\<close>

datatype op_tick = Advance int | Beat int

fun with_heartbeat ::
  "('b, 'e) tool_executor \<Rightarrow> ('b, 'e) semantic_tool \<Rightarrow> tool_call \<Rightarrow> tool_context \<Rightarrow> string \<Rightarrow> write_scope_target list \<Rightarrow>
     op_tick list \<Rightarrow> op_phase \<Rightarrow> ('b, 'e) tool_world \<Rightarrow> ('b, 'e) executed option" where
  "with_heartbeat x t call cx owner targets ticks (Settled r) w = Some (r, w)"
| "with_heartbeat x t call cx owner targets [] phase w = None"
| "with_heartbeat x t call cx owner targets (Advance now # ticks) phase w =
     (case operation_step x t call cx now phase w of (phase', w1) \<Rightarrow>
        with_heartbeat x t call cx owner targets ticks phase' w1)"
| "with_heartbeat x t call cx owner targets (Beat now # ticks) phase w =
     (case renew_write_scope owner targets now (te_write_lock_lease_ms x) (tw_agents w) of (renewed, agents) \<Rightarrow>
        (let w1 = w\<lparr>tw_agents := agents\<rparr> in
         if renewed then with_heartbeat x t call cx owner targets ticks phase w1
         else Some (Inr (tool_failure call (td_effect (st_definition t)) ''write_lock_expired''
             ''durable write lock renewal failed: RuntimeError''), abandon_operation t call cx phase w1)))"

text \<open>Without a lease only the operation moves.\<close>

fun without_heartbeat ::
  "('b, 'e) tool_executor \<Rightarrow> ('b, 'e) semantic_tool \<Rightarrow> tool_call \<Rightarrow> tool_context \<Rightarrow> op_tick list \<Rightarrow> op_phase \<Rightarrow>
     ('b, 'e) tool_world \<Rightarrow> ('b, 'e) executed option" where
  "without_heartbeat x t call cx ticks (Settled r) w = Some (r, w)"
| "without_heartbeat x t call cx [] phase w = None"
| "without_heartbeat x t call cx (Advance now # ticks) phase w =
     (case operation_step x t call cx now phase w of (phase', w1) \<Rightarrow> without_heartbeat x t call cx ticks phase' w1)"
| "without_heartbeat x t call cx (Beat now # ticks) phase w = without_heartbeat x t call cx ticks phase w"

section \<open>Locks around a write\<close>

text \<open>\<open>except (LookupError, PermissionError)\<close>, with the subclasses of \<open>LookupError\<close>\<close>

fun lock_refused :: "exn \<Rightarrow> bool" where
  "lock_refused (OtherError class m) = (class = ''KeyError'' \<or> class = ''IndexError'')"
| "lock_refused e = (is_lookup_error e \<or> is_permission_error e)"

definition resolution_failed :: "('b, 'e) semantic_tool \<Rightarrow> tool_call \<Rightarrow> exn \<Rightarrow> tool_result" where
  "resolution_failed t call e = tool_failure call (td_effect (st_definition t)) ''write_scope_resolution_failed''
     (''live write target resolution failed: '' @ exn_name e)"

definition same_target :: "write_scope_target \<Rightarrow> write_scope_target \<Rightarrow> bool" where
  "same_target a b \<longleftrightarrow> ws_resource_type a = ws_resource_type b \<and> ws_resource_id a = ws_resource_id b"

text \<open>The message has an apostrophe, the character of code 39.\<close>

definition durable_lock_expired :: string where
  "durable_lock_expired = ''the delegated writer'' @ [CHR 0x27] @ ''s durable resource lock expired''"

text \<open>The delegated writer: its live target is within the scope it was given, and the lease is renewed.\<close>

definition check_scoped_write ::
  "('b, 'e) tool_executor \<Rightarrow> ('b, 'e) semantic_tool \<Rightarrow> tool_call \<Rightarrow> tool_context \<Rightarrow> int \<Rightarrow> ('b, 'e) tool_world \<Rightarrow>
     (exn + tool_result option) \<times> ('b, 'e) tool_world" where
  "check_scoped_write x t call cx now w =
     (let fail = (\<lambda>code m. (Inr (Some (tool_failure call (td_effect (st_definition t)) code m)), w)) in
      case st_resolve_write_target t of
        None \<Rightarrow> fail ''write_scope_unsupported'' ''the scoped writer tool cannot resolve its live target''
      | Some resolver \<Rightarrow> (case resolver (call_arguments call) cx w of
          Inl e \<Rightarrow> if is_exception e then (Inr (Some (resolution_failed t call e)), w) else (Inl e, w)
        | Inr None \<Rightarrow> (Inl (OtherError ''AttributeError'' ''resource_type''), w)
        | Inr (Some actual) \<Rightarrow> (case find (same_target actual) (cx_write_scope cx) of
            None \<Rightarrow> fail ''write_scope_violation'' ''the actual write target is outside the delegated lock scope''
          | Some allowed \<Rightarrow>
              if ws_expected_revision allowed \<noteq> None \<and> ws_expected_revision actual \<noteq> ws_expected_revision allowed
              then fail ''write_revision_conflict''
                ''the live target revision changed after the delegated lock was acquired''
              else if cx_write_scope_required cx \<and> te_has_locks x
              then (case renew_write_scope (cx_run_id cx) (cx_write_scope cx) now (te_write_lock_lease_ms x) (tw_agents w) of
                  (renewed, agents) \<Rightarrow> (let w1 = w\<lparr>tw_agents := agents\<rparr> in
                    if renewed then (Inr None, w1)
                    else (Inr (Some (tool_failure call (td_effect (st_definition t)) ''write_lock_expired''
                      durable_lock_expired)), w1)))
              else (Inr None, w))))"

text \<open>The root agent: it locks its live target for the length of the call.\<close>

definition acquire_transient ::
  "('b, 'e) tool_executor \<Rightarrow> ('b, 'e) semantic_tool \<Rightarrow> tool_call \<Rightarrow> tool_context \<Rightarrow> int \<Rightarrow> ('b, 'e) tool_world \<Rightarrow>
     (exn + tool_result + string \<times> write_scope_target) \<times> ('b, 'e) tool_world" where
  "acquire_transient x t call cx now w =
     (let fail = (\<lambda>code m. Inr (Inl (tool_failure call (td_effect (st_definition t)) code m)));
          raised = (\<lambda>e. if lock_refused e then fail ''write_lock_unavailable'' (exn_message e)
             else if is_exception e then Inr (Inl (resolution_failed t call e)) else Inl e) in
      if \<not> te_has_locks x
      then (fail ''write_lock_validator_missing'' ''the root Agent has no durable resource lock store'', w)
      else (case st_resolve_write_target t of
        None \<Rightarrow> (fail ''write_scope_unsupported'' ''the root writer tool cannot resolve its live target'', w)
      | Some resolver \<Rightarrow> (case resolver (call_arguments call) cx w of
          Inl e \<Rightarrow> (raised e, w)
        | Inr None \<Rightarrow> (raised (TypeError ''target resolver returned an invalid target''), w)
        | Inr (Some target) \<Rightarrow>
            (case on_agents (acquire_root_write_scope (cx_run_id cx) (cx_tenant_key cx) target now
                (te_write_lock_lease_ms x)) w of
              (Inl e, w1) \<Rightarrow> (raised e, w1)
            | (Inr None, w1) \<Rightarrow> (fail ''write_target_busy'' ''the live write target is locked by another Agent graph'', w1)
            | (Inr (Some owner), w1) \<Rightarrow> (Inr (Inr (owner, target)), w1)))))"

definition released :: "string \<Rightarrow> write_scope_target \<Rightarrow> ('b, 'e) executed \<Rightarrow> ('b, 'e) executed" where
  "released owner target r = (case r of (a, w) \<Rightarrow>
     (a, w\<lparr>tw_agents := release_write_scope owner target (tw_agents w)\<rparr>))"

definition root_write :: "tool_definition \<Rightarrow> tool_context \<Rightarrow> bool" where
  "root_write d cx \<longleftrightarrow> is_write d \<and> cx_node_id cx = ''/root'' \<and> cx_task_id cx \<noteq> None \<and> cx_write_scope cx = []"

definition execute_locked ::
  "('b, 'e) tool_executor \<Rightarrow> ('b, 'e) semantic_tool \<Rightarrow> tool_call \<Rightarrow> tool_context \<Rightarrow> int \<Rightarrow> op_tick list \<Rightarrow>
     ('b, 'e) tool_world \<Rightarrow> ('b, 'e) executed option" where
  "execute_locked x t call cx now ticks w =
     (let d = st_definition t; first = first_phase x d in
      if root_write d cx
      then (case acquire_transient x t call cx now w of
          (Inl e, w1) \<Rightarrow> Some (Inl e, w1)
        | (Inr (Inl failure), w1) \<Rightarrow> Some (Inr failure, w1)
        | (Inr (Inr (owner, target)), w1) \<Rightarrow>
            map_option (released owner target) (with_heartbeat x t call cx owner [target] ticks first w1))
      else if cx_write_scope cx \<noteq> [] \<and> is_write d \<and> te_has_locks x
      then with_heartbeat x t call cx (cx_run_id cx) (cx_write_scope cx) ticks first w
      else without_heartbeat x t call cx ticks first w)"

definition execute_permitted ::
  "('b, 'e) tool_executor \<Rightarrow> ('b, 'e) semantic_tool \<Rightarrow> tool_call \<Rightarrow> tool_context \<Rightarrow> int \<Rightarrow> op_tick list \<Rightarrow>
     ('b, 'e) tool_world \<Rightarrow> ('b, 'e) executed option" where
  "execute_permitted x t call cx now ticks w =
     (let d = st_definition t; fail = (\<lambda>code m. Some (Inr (tool_failure call (td_effect d) code m), w)) in
      if cx_write_scope_required cx \<and> cx_write_scope cx = [] \<and> is_write d
      then fail ''write_lock_missing'' ''the delegated writer no longer owns its required resource lock''
      else if cx_write_scope_required cx \<and> \<not> te_has_locks x \<and> is_write d
      then fail ''write_lock_validator_missing'' ''the delegated writer has no runtime lock validator''
      else if cx_write_scope cx \<noteq> [] \<and> is_write d
      then (case check_scoped_write x t call cx now w of
          (Inl e, w1) \<Rightarrow> Some (Inl e, w1)
        | (Inr (Some failure), w1) \<Rightarrow> Some (Inr failure, w1)
        | (Inr None, w1) \<Rightarrow> execute_locked x t call cx now ticks w1)
      else execute_locked x t call cx now ticks w)"

section \<open>Capacity and authorisation\<close>

definition tool_lane :: "tool_context \<Rightarrow> capacity_lane" where
  "tool_lane cx = \<lparr>cl_tenant_key = cx_tenant_key cx, cl_app_id = cx_app_id cx,
     cl_scope_key = (case cx_chat_id cx of Some (ch # chat) \<Rightarrow> ch # chat | _ \<Rightarrow> cx_session_key cx)\<rparr>"

text \<open>The end of \<open>async with ... capacity(...)\<close>, whether the body returned or raised.\<close>

definition permit_given_back :: "string \<Rightarrow> ('b, 'e) executed \<Rightarrow> ('b, 'e) executed" where
  "permit_given_back rid a = (case release_permit rid (tw_gate (snd a)) of
     Inl e \<Rightarrow> (Inl e, snd a) | Inr g \<Rightarrow> (fst a, (snd a)\<lparr>tw_gate := g\<rparr>))"

text \<open>
  A call whose permit is not granted at once waits (\<open>None\<close>): the clients of \<open>CapacityGate\<close> say when it
  continues.
\<close>

definition execute_with_capacity ::
  "('b, 'e) tool_executor \<Rightarrow> ('b, 'e) semantic_tool \<Rightarrow> tool_call \<Rightarrow> tool_context \<Rightarrow> int \<Rightarrow> op_tick list \<Rightarrow>
     ('b, 'e) tool_world \<Rightarrow> ('b, 'e) executed option" where
  "execute_with_capacity x t call cx now ticks w =
     (case (map_of (te_tool_plugin_ids x) (td_tool_id (st_definition t)), te_has_gate x, te_plugin_concurrency x) of
        (Some plugin, True, Some n) \<Rightarrow> (case check_capacity_lane (tool_lane cx) of
            Inl e \<Rightarrow> Some (Inl e, w)
          | Inr lane \<Rightarrow> (case enter_queue (''plugin:'' @ plugin) lane n (tw_gate w) of
              Inl e \<Rightarrow> Some (Inl e, w)
            | Inr (g, f) \<Rightarrow> if f \<notin> set (cg_done g) then None
                else map_option (permit_given_back (''plugin:'' @ plugin))
                  (execute_permitted x t call cx now ticks (w\<lparr>tw_gate := g\<rparr>))))
      | _ \<Rightarrow> execute_permitted x t call cx now ticks w)"

fun invalid_arguments :: "exn \<Rightarrow> bool" where
  "invalid_arguments (TypeError m) = True"
| "invalid_arguments e = is_value_error e"

definition execute_tool ::
  "('b, 'e) tool_executor \<Rightarrow> tool_call \<Rightarrow> tool_context \<Rightarrow> int \<Rightarrow> op_tick list \<Rightarrow>
     ('b, 'e) tool_world \<Rightarrow> ('b, 'e) executed option" where
  "execute_tool x call cx now ticks w = (case require_tool (te_registry x) (call_tool_id call) of
     Inl e \<Rightarrow> Some (Inr (tool_failure call READ ''tool_unavailable'' (exn_message e)), w)
   | Inr t \<Rightarrow> (let d = st_definition t in case st_validate t (call_arguments call) of
       Inl e \<Rightarrow> if invalid_arguments e then Some (Inr (tool_failure call (td_effect d) ''validation_error'' (exn_message e)), w)
         else Some (Inl e, w)
     | Inr u \<Rightarrow> (case te_policy x d call cx w of
         (Inl e, w1) \<Rightarrow> Some (Inl e, w1)
       | (Inr decision, w1) \<Rightarrow>
           if \<not> pd_allowed decision
           then Some (Inr (tool_failure call (td_effect d) ''policy_error'' (pd_reason decision)), w1)
           else if pd_approval_required decision
           then (case te_approvals x d call cx w1 of
               (Inl e, w2) \<Rightarrow> Some (Inl e, w2)
             | (Inr granted, w2) \<Rightarrow>
                 if granted then execute_with_capacity x t call cx now ticks w2
                 else Some (Inr (tool_failure call (td_effect d) ''approval_rejected''
                   ''the requester rejected or did not approve this operation''), w2))
           else execute_with_capacity x t call cx now ticks w1)))"

end
