(* ===== verification/ToolProps.thy ===== *)
theory ToolProps
  imports ToolExecutor RuntimeEffects Samples
begin

text \<open>
  What the tool executor promises: every result names its call and carries a consistent verification, a
  tool runs only after validation, policy and approval, and a write that was verified once is answered
  from the operation journal ever after.
\<close>

section \<open>What protocols do to the runtime store\<close>

text \<open>
  A protocol may use the runtime store: it does so through the operations of the store. \<open>legal_executor\<close>
  says that of the policy, the approvals and every registered tool.
\<close>

definition legal_ops :: "(int \<times> 'b rt_op) list \<Rightarrow> bool" where
  "legal_ops ops \<longleftrightarrow> (\<forall>(t, op) \<in> set ops. rt_legal op)"

definition store_step :: "'b rt_db \<Rightarrow> 'b rt_db \<Rightarrow> bool" where
  "store_step db db' \<longleftrightarrow> (\<exists>ops. legal_ops ops \<and> db' = timed_run rt_step ops db)"

lemma store_step_refl [simp]: "store_step db db"
  unfolding store_step_def by (rule exI [of _ "[]"]) (simp add: legal_ops_def)

lemma store_step_op: "rt_legal op \<Longrightarrow> store_step db (rt_step t op db)"
  unfolding store_step_def by (rule exI [of _ "[(t, op)]"]) (simp add: legal_ops_def)

lemma timed_run_append: "timed_run step (xs @ ys) s = timed_run step ys (timed_run step xs s)"
  by (induction xs arbitrary: s) auto

lemma store_step_trans: "store_step a b \<Longrightarrow> store_step b c \<Longrightarrow> store_step a c"
  unfolding store_step_def legal_ops_def
  by (elim exE conjE) (rule_tac x = "ops @ opsa" in exI, auto simp: timed_run_append)

lemma store_step_claim: "store_step db (snd (claim_idempotency k kind owner ex now db))"
  using store_step_op [of "OpClaim k kind owner ex" db now] by simp

lemma store_step_complete: "store_step db (snd (complete_idempotency k owner ref now db))"
  using store_step_op [of "OpComplete k owner ref" db now] by simp

lemma run_completed:
  assumes "claims_ok db" "completed_with key ref db"
  shows "claims_ok (timed_run rt_step ops db) \<and> completed_with key ref (timed_run rt_step ops db)"
  using assms
proof (induction ops arbitrary: db)
  case (Cons x ops)
  then show ?case by (cases x) (simp add: step_claims_ok step_completed)
qed simp

lemma run_claims_ok: "claims_ok db \<Longrightarrow> claims_ok (timed_run rt_step ops db)"
proof (induction ops arbitrary: db)
  case (Cons x ops)
  then show ?case by (cases x) (simp add: step_claims_ok)
qed simp

definition legal_tool :: "('b, 'e) semantic_tool \<Rightarrow> bool" where
  "legal_tool t \<longleftrightarrow> (\<forall>a o' cx w. store_step (tw_db w) (tw_db (snd (st_execute t a cx w))) \<and>
     store_step (tw_db w) (tw_db (snd (st_verify t a o' cx w))) \<and>
     store_step (tw_db w) (tw_db (snd (st_reconcile t a cx w))) \<and> store_step (tw_db w) (tw_db (st_abandoned t a cx w)))"

definition legal_executor :: "('b, 'e) tool_executor \<Rightarrow> bool" where
  "legal_executor x \<longleftrightarrow> (\<forall>d call cx w. store_step (tw_db w) (tw_db (snd (te_policy x d call cx w))) \<and>
     store_step (tw_db w) (tw_db (snd (te_approvals x d call cx w)))) \<and> list_all (legal_tool \<circ> snd) (te_registry x)"

lemma legal_toolD:
  assumes "legal_tool t"
  shows "st_execute t a cx w = (r, w1) \<Longrightarrow> store_step (tw_db w) (tw_db w1)"
    "st_verify t a o' cx w = (r', w1) \<Longrightarrow> store_step (tw_db w) (tw_db w1)"
    "st_reconcile t a cx w = (r'', w1) \<Longrightarrow> store_step (tw_db w) (tw_db w1)"
    "store_step (tw_db w) (tw_db (st_abandoned t a cx w))"
  using assms unfolding legal_tool_def by (metis snd_conv)+

lemma legal_registered: "legal_executor x \<Longrightarrow> map_of (te_registry x) i = Some t \<Longrightarrow> legal_tool t"
  by (fastforce simp: legal_executor_def list_all_iff dest: map_of_SomeD)

section \<open>Every way a call ends\<close>

text \<open>The codes of the refusals, which come before the tool or take the place of its answer, and those of an operation.\<close>

definition refusal_codes :: "string list" where
  "refusal_codes = [''tool_unavailable'', ''validation_error'', ''policy_error'', ''approval_rejected'',
     ''write_lock_missing'', ''write_lock_validator_missing'', ''write_scope_unsupported'',
     ''write_scope_resolution_failed'', ''write_scope_violation'', ''write_revision_conflict'',
     ''write_lock_expired'', ''write_lock_unavailable'', ''write_target_busy'']"

definition tool_error_codes :: "string list" where
  "tool_error_codes = refusal_codes @ [''timeout_error'', ''tool_error'', ''operation_in_progress'', ''ambiguous_external_effect'']"

lemma refusal_codes_known: "code \<in> set refusal_codes \<Longrightarrow> code \<in> set tool_error_codes"
  by (simp add: tool_error_codes_def)

lemma known_codes [simp]:
  "''tool_unavailable'' \<in> set refusal_codes"
  "''validation_error'' \<in> set refusal_codes"
  "''policy_error'' \<in> set refusal_codes"
  "''approval_rejected'' \<in> set refusal_codes"
  "''write_lock_missing'' \<in> set refusal_codes"
  "''write_lock_validator_missing'' \<in> set refusal_codes"
  "''write_scope_unsupported'' \<in> set refusal_codes"
  "''write_scope_resolution_failed'' \<in> set refusal_codes"
  "''write_scope_violation'' \<in> set refusal_codes"
  "''write_revision_conflict'' \<in> set refusal_codes"
  "''write_lock_expired'' \<in> set refusal_codes"
  "''write_lock_unavailable'' \<in> set refusal_codes"
  "''write_target_busy'' \<in> set refusal_codes"
  "''tool_unavailable'' \<in> set tool_error_codes"
  "''validation_error'' \<in> set tool_error_codes"
  "''policy_error'' \<in> set tool_error_codes"
  "''approval_rejected'' \<in> set tool_error_codes"
  "''write_lock_missing'' \<in> set tool_error_codes"
  "''write_lock_validator_missing'' \<in> set tool_error_codes"
  "''write_scope_unsupported'' \<in> set tool_error_codes"
  "''write_scope_resolution_failed'' \<in> set tool_error_codes"
  "''write_scope_violation'' \<in> set tool_error_codes"
  "''write_revision_conflict'' \<in> set tool_error_codes"
  "''write_lock_expired'' \<in> set tool_error_codes"
  "''write_lock_unavailable'' \<in> set tool_error_codes"
  "''write_target_busy'' \<in> set tool_error_codes"
  "''timeout_error'' \<in> set tool_error_codes"
  "''tool_error'' \<in> set tool_error_codes"
  "''operation_in_progress'' \<in> set tool_error_codes"
  "''ambiguous_external_effect'' \<in> set tool_error_codes"
  by (simp_all add: tool_error_codes_def refusal_codes_def)

definition same_stores :: "('b, 'e) tool_world \<Rightarrow> ('b, 'e) tool_world \<Rightarrow> bool" where
  "same_stores w w' \<longleftrightarrow> tw_db w' = tw_db w \<and> tw_env w' = tw_env w"

text \<open>A refusal: an exception, or a failure with the code of a refusal.\<close>

definition refused_call :: "tool_call \<Rightarrow> tool_effect \<Rightarrow> exn + tool_result \<Rightarrow> bool" where
  "refused_call call effect r \<longleftrightarrow> (case r of Inl e \<Rightarrow> True
     | Inr f \<Rightarrow> \<exists>code \<in> set refusal_codes. \<exists>m. f = tool_failure call effect code m)"

text \<open>The operation ran, alone or beside a heartbeat.\<close>

definition ran_operation ::
  "('b, 'e) tool_executor \<Rightarrow> ('b, 'e) semantic_tool \<Rightarrow> tool_call \<Rightarrow> tool_context \<Rightarrow> op_tick list \<Rightarrow>
     ('b, 'e) tool_world \<Rightarrow> exn + tool_result \<Rightarrow> ('b, 'e) tool_world \<Rightarrow> bool" where
  "ran_operation x t call cx ticks w r w' \<longleftrightarrow>
     without_heartbeat x t call cx ticks (first_phase x (st_definition t)) w = Some (r, w') \<or>
     (\<exists>owner targets. with_heartbeat x t call cx owner targets ticks (first_phase x (st_definition t)) w = Some (r, w'))"

inductive call_ended for x t call cx ticks where
  refused: "refused_call call (td_effect (st_definition t)) r \<Longrightarrow> same_stores w w' \<Longrightarrow>
    call_ended x t call cx ticks w r w'"
| ran: "ran_operation x t call cx ticks w1 r1 w2 \<Longrightarrow> same_stores w w1 \<Longrightarrow> same_stores w2 w' \<Longrightarrow>
    r = r1 \<or> (\<exists>e. r = Inl e) \<Longrightarrow> call_ended x t call cx ticks w r w'"

lemma refused_simps [simp]:
  "refused_call call effect (Inl e)"
  "code \<in> set refusal_codes \<Longrightarrow> refused_call call effect (Inr (tool_failure call effect code m))"
  by (auto simp: refused_call_def)

lemma same_stores_simps [simp]:
  "same_stores w w" "same_stores w (w\<lparr>tw_agents := a\<rparr>)" "same_stores w (w\<lparr>tw_gate := g\<rparr>)"
  by (simp_all add: same_stores_def)

lemma same_stores_trans: "same_stores w w1 \<Longrightarrow> same_stores w1 w2 \<Longrightarrow> same_stores w w2"
  by (simp add: same_stores_def)

lemma call_ended_from: "same_stores w w1 \<Longrightarrow> call_ended x t call cx ticks w1 r w' \<Longrightarrow> call_ended x t call cx ticks w r w'"
  by (erule call_ended.cases) (blast intro: call_ended.intros same_stores_trans)+

lemma call_ended_to:
  "call_ended x t call cx ticks w r w1 \<Longrightarrow> same_stores w1 w' \<Longrightarrow> r' = r \<or> (\<exists>e. r' = Inl e) \<Longrightarrow> call_ended x t call cx ticks w r' w'"
proof (erule call_ended.cases)
  fix ra wa w'a
  assume "r = ra" "w = wa" "w1 = w'a" "refused_call call (td_effect (st_definition t)) ra" "same_stores wa w'a"
    "same_stores w1 w'" "r' = r \<or> (\<exists>e. r' = Inl e)"
  then show ?thesis by (intro call_ended.refused) (auto intro: same_stores_trans)
next
  fix v1 r1 v2 v v' ra
  assume "w = v" "r = ra" "w1 = v'" "ran_operation x t call cx ticks v1 r1 v2" "same_stores v v1" "same_stores v2 v'"
    "ra = r1 \<or> (\<exists>e. ra = Inl e)" "same_stores w1 w'" "r' = r \<or> (\<exists>e. r' = Inl e)"
  then show ?thesis by (intro call_ended.ran [of x t call cx ticks v1 r1 v2]) (auto intro: same_stores_trans)
qed

lemma call_refused: "refused_call call (td_effect (st_definition t)) r \<Longrightarrow> same_stores w w' \<Longrightarrow> call_ended x t call cx ticks w r w'"
  by (rule call_ended.refused)

lemma call_ran: "ran_operation x t call cx ticks w r w' \<Longrightarrow> call_ended x t call cx ticks w r w'"
  by (rule call_ended.ran) auto

lemma on_agents_same: "on_agents f w = (r, w') \<Longrightarrow> same_stores w w'"
  by (auto simp: on_agents_def split: prod.splits)

lemma acquire_transient_cases:
  assumes "acquire_transient x t call cx now w = (r, w')"
  shows "same_stores w w' \<and> (case r of Inl e \<Rightarrow> True
    | Inr (Inl f) \<Rightarrow> refused_call call (td_effect (st_definition t)) (Inr f) | Inr (Inr _) \<Rightarrow> True)"
  using assms
  by (auto simp: acquire_transient_def Let_def resolution_failed_def
      split: if_splits option.splits sum.splits prod.splits dest: on_agents_same)

lemma check_scoped_cases:
  assumes "check_scoped_write x t call cx now w = (r, w')"
  shows "same_stores w w' \<and> (case r of Inr (Some f) \<Rightarrow> refused_call call (td_effect (st_definition t)) (Inr f) | _ \<Rightarrow> True)"
  using assms
  by (auto simp: check_scoped_write_def Let_def resolution_failed_def
      split: if_splits option.splits sum.splits prod.splits)

lemma execute_locked_ended:
  assumes "execute_locked x t call cx now ticks w = Some (r, w')"
  shows "call_ended x t call cx ticks w r w'"
proof (cases "root_write (st_definition t) cx")
  case True
  obtain a w1 where a: "acquire_transient x t call cx now w = (a, w1)" by fastforce
  note same = acquire_transient_cases [OF a]
  consider e where "a = Inl e" | f where "a = Inr (Inl f)" | owner target where "a = Inr (Inr (owner, target))"
    by (cases a rule: sum.exhaust) (metis old.sum.exhaust surj_pair)+
  then show ?thesis
  proof cases
    case 3
    with assms True a obtain w2 where "with_heartbeat x t call cx owner [target] ticks (first_phase x (st_definition t)) w1 = Some (r, w2)"
      and "same_stores w2 w'"
      by (auto simp: execute_locked_def Let_def released_def)
    then have "call_ended x t call cx ticks w1 r w'"
      by (intro call_ended_to [OF call_ran]) (auto simp: ran_operation_def)
    with same show ?thesis by (auto intro: call_ended_from)
  qed (use assms True a same in \<open>auto simp: execute_locked_def Let_def intro!: call_refused\<close>)
next
  case False
  with assms have "ran_operation x t call cx ticks w r w'"
    by (auto simp: execute_locked_def Let_def ran_operation_def split: if_splits)
  then show ?thesis by (rule call_ran)
qed

lemma execute_permitted_ended:
  assumes "execute_permitted x t call cx now ticks w = Some (r, w')"
  shows "call_ended x t call cx ticks w r w'"
proof (cases "cx_write_scope cx \<noteq> [] \<and> is_write (st_definition t)")
  case True
  obtain a w1 where a: "check_scoped_write x t call cx now w = (a, w1)" by fastforce
  note same = check_scoped_cases [OF a]
  show ?thesis
  proof (cases "a = Inr None \<and> (cx_write_scope_required cx \<longrightarrow> te_has_locks x)")
    case proceed: True
    with assms True a have "execute_locked x t call cx now ticks w1 = Some (r, w')"
      by (auto simp: execute_permitted_def Let_def)
    with same show ?thesis by (blast intro: call_ended_from execute_locked_ended)
  next
    case False
    with assms True a same show ?thesis
      by (auto simp: execute_permitted_def Let_def split: if_splits sum.splits option.splits
          intro!: call_refused)
  qed
next
  case False
  then consider code m where "r = Inr (tool_failure call (td_effect (st_definition t)) code m)" "code \<in> set refusal_codes" "w' = w"
    | "execute_locked x t call cx now ticks w = Some (r, w')"
    using assms by (auto simp: execute_permitted_def Let_def split: if_splits)
  then show ?thesis by cases (auto intro: call_refused execute_locked_ended)
qed

lemma permit_given_back_cases:
  "permit_given_back rid (r, w) = (r', w') \<Longrightarrow> same_stores w w' \<and> (r' = r \<or> (\<exists>e. r' = Inl e))"
  by (auto simp: permit_given_back_def split: sum.splits)

lemma execute_with_capacity_ended:
  assumes "execute_with_capacity x t call cx now ticks w = Some (r, w')"
  shows "call_ended x t call cx ticks w r w'"
proof -
  consider e where "r = Inl e" "w' = w" | "execute_permitted x t call cx now ticks w = Some (r, w')"
    | g r1 w1 where "execute_permitted x t call cx now ticks (w\<lparr>tw_gate := g\<rparr>) = Some (r1, w1)" "same_stores w1 w'"
      "r = r1 \<or> (\<exists>e. r = Inl e)"
    using assms unfolding execute_with_capacity_def
    by (auto split: option.splits bool.splits sum.splits prod.splits if_splits dest: permit_given_back_cases)
  then show ?thesis
  proof cases
    case 1
    then show ?thesis by (auto intro: call_refused)
  next
    case 2
    then show ?thesis by (rule execute_permitted_ended)
  next
    case 3
    from call_ended_to [OF execute_permitted_ended [OF 3(1)] 3(2,3)] show ?thesis
      by (rule call_ended_from [OF same_stores_simps(3)])
  qed
qed

text \<open>Policy and approval, in order: the answer, and the world they leave.\<close>

definition screen_call ::
  "('b, 'e) tool_executor \<Rightarrow> tool_definition \<Rightarrow> tool_call \<Rightarrow> tool_context \<Rightarrow> (('b, 'e) tool_world, bool) eff" where
  "screen_call x d call cx w = (case te_policy x d call cx w of
     (Inl e, w1) \<Rightarrow> (Inl e, w1)
   | (Inr decision, w1) \<Rightarrow>
       if pd_allowed decision \<and> pd_approval_required decision then te_approvals x d call cx w1
       else (Inr (pd_allowed decision), w1))"

definition call_effect :: "('b, 'e) tool_executor \<Rightarrow> tool_call \<Rightarrow> tool_effect" where
  "call_effect x call = (case map_of (te_registry x) (call_tool_id call) of
     None \<Rightarrow> READ | Some t \<Rightarrow> td_effect (st_definition t))"

text \<open>A call is refused before the tool is reached, or its tool is known, screened and run.\<close>

lemma execute_tool_cases:
  assumes "execute_tool x call cx now ticks w = Some (r, w')"
  obtains (refused) "refused_call call (call_effect x call) r"
      "w' = w \<or> (\<exists>t. map_of (te_registry x) (call_tool_id call) = Some t \<and> w' = snd (screen_call x (st_definition t) call cx w))"
    | (admitted) t where "map_of (te_registry x) (call_tool_id call) = Some t" "st_validate t (call_arguments call) = Inr ()"
      "fst (screen_call x (st_definition t) call cx w) = Inr True"
      "call_ended x t call cx ticks (snd (screen_call x (st_definition t) call cx w)) r w'"
proof (cases "map_of (te_registry x) (call_tool_id call)")
  case None
  with assms refused show thesis by (auto simp: execute_tool_def require_tool_def call_effect_def)
next
  case (Some t)
  then have effect: "call_effect x call = td_effect (st_definition t)" by (simp add: call_effect_def)
  show thesis
  proof (cases "st_validate t (call_arguments call)")
    case (Inl e)
    with Some assms effect refused show thesis by (auto simp: execute_tool_def require_tool_def Let_def split: if_splits)
  next
    case (Inr u)
    obtain a w1 where p: "te_policy x (st_definition t) call cx w = (a, w1)" by fastforce
    show thesis
    proof (cases a)
      case (Inl e)
      with p Some Inr assms effect refused show thesis
        by (auto simp: execute_tool_def require_tool_def Let_def screen_call_def)
    next
      case (Inr decision)
      obtain b w2 where b: "te_approvals x (st_definition t) call cx w1 = (b, w2)" by fastforce
      consider "\<not> pd_allowed decision" | "pd_allowed decision" "\<not> pd_approval_required decision"
        | "pd_allowed decision" "pd_approval_required decision" "b = Inr True"
        | "pd_allowed decision" "pd_approval_required decision" "b \<noteq> Inr True" by blast
      then show thesis
      proof cases
        case 1
        with p Some Inr \<open>st_validate t (call_arguments call) = Inr u\<close> assms effect refused show thesis
          by (auto simp: execute_tool_def require_tool_def Let_def screen_call_def)
      next
        case 2
        with p Some Inr \<open>st_validate t (call_arguments call) = Inr u\<close> assms show thesis
          by (intro admitted [of t])
            (auto simp: execute_tool_def require_tool_def Let_def screen_call_def intro: execute_with_capacity_ended)
      next
        case 3
        with p b Some Inr \<open>st_validate t (call_arguments call) = Inr u\<close> assms show thesis
          by (intro admitted [of t])
            (auto simp: execute_tool_def require_tool_def Let_def screen_call_def intro: execute_with_capacity_ended)
      next
        case 4
        with p b Some Inr \<open>st_validate t (call_arguments call) = Inr u\<close> assms effect refused show thesis
          by (auto simp: execute_tool_def require_tool_def Let_def screen_call_def split: sum.splits if_splits)
      qed
    qed
  qed
qed

lemma screen_call_store:
  assumes "legal_executor x"
  shows "store_step (tw_db w) (tw_db (snd (screen_call x d call cx w)))"
proof -
  obtain a w1 where p: "te_policy x d call cx w = (a, w1)" by fastforce
  have step: "store_step (tw_db w) (tw_db w1)" "store_step (tw_db w1) (tw_db (snd (te_approvals x d call cx w1)))"
    using assms p unfolding legal_executor_def by (metis snd_conv)+
  show ?thesis using p step(1) store_step_trans [OF step] by (auto simp: screen_call_def split: sum.splits)
qed

section \<open>What a running operation keeps\<close>

text \<open>What every step of an operation keeps holds of its end, or of the state its cancellation found.\<close>

lemma without_heartbeat_keeps:
  assumes "without_heartbeat x t call cx ticks phase w = Some (r, w')" and "P phase w"
    and step: "\<And>phase w now phase' w1. P phase w \<Longrightarrow> operation_step x t call cx now phase w = (phase', w1) \<Longrightarrow> P phase' w1"
  shows "P (Settled r) w'"
  using assms(1,2)
proof (induction ticks arbitrary: phase w)
  case Nil
  then show ?case by (cases phase) auto
next
  case (Cons tick ticks)
  show ?case
  proof (cases "\<exists>r'. phase = Settled r'")
    case True
    with Cons.prems show ?thesis by auto
  next
    case False
    show ?thesis
    proof (cases tick)
      case (Advance now)
      obtain phase' w1 where s: "operation_step x t call cx now phase w = (phase', w1)" by fastforce
      with False Advance Cons.prems(1) have "without_heartbeat x t call cx ticks phase' w1 = Some (r, w')"
        by (cases phase) auto
      then show ?thesis using Cons.IH step [OF Cons.prems(2) s] by blast
    next
      case (Beat now)
      with False Cons.prems(1) have "without_heartbeat x t call cx ticks phase w = Some (r, w')" by (cases phase) auto
      then show ?thesis using Cons.IH Cons.prems(2) by blast
    qed
  qed
qed

lemma with_heartbeat_keeps:
  assumes "with_heartbeat x t call cx owner targets ticks phase w = Some (r, w')" and "P phase w"
    and step: "\<And>phase w now phase' w1. P phase w \<Longrightarrow> operation_step x t call cx now phase w = (phase', w1) \<Longrightarrow> P phase' w1"
    and beat: "\<And>phase w a. P phase w \<Longrightarrow> P phase (w\<lparr>tw_agents := a\<rparr>)"
  shows "P (Settled r) w' \<or> (\<exists>phase w1 m. P phase w1 \<and> w' = abandon_operation t call cx phase w1 \<and>
    r = Inr (tool_failure call (td_effect (st_definition t)) ''write_lock_expired'' m))"
  using assms(1,2)
proof (induction ticks arbitrary: phase w)
  case Nil
  then show ?case by (cases phase) auto
next
  case (Cons tick ticks)
  show ?case
  proof (cases "\<exists>r'. phase = Settled r'")
    case True
    with Cons.prems show ?thesis by auto
  next
    case False
    show ?thesis
    proof (cases tick)
      case (Advance now)
      obtain phase' w1 where s: "operation_step x t call cx now phase w = (phase', w1)" by fastforce
      with False Advance Cons.prems(1) have "with_heartbeat x t call cx owner targets ticks phase' w1 = Some (r, w')"
        by (cases phase) auto
      then show ?thesis using Cons.IH step [OF Cons.prems(2) s] by blast
    next
      case (Beat now)
      obtain ok a where a: "renew_write_scope owner targets now (te_write_lock_lease_ms x) (tw_agents w) = (ok, a)" by fastforce
      show ?thesis
      proof (cases ok)
        case True
        with a False Beat Cons.prems(1) have "with_heartbeat x t call cx owner targets ticks phase (w\<lparr>tw_agents := a\<rparr>) = Some (r, w')"
          by (cases phase) auto
        then show ?thesis using Cons.IH beat [OF Cons.prems(2)] by blast
      next
        case fails: False
        with a False Beat Cons.prems(1)
        have "r = Inr (tool_failure call (td_effect (st_definition t)) ''write_lock_expired''
            ''durable write lock renewal failed: RuntimeError'')" "w' = abandon_operation t call cx phase (w\<lparr>tw_agents := a\<rparr>)"
          by (cases phase; auto)+
        then show ?thesis using beat [OF Cons.prems(2)] by blast
      qed
    qed
  qed
qed

lemma ran_operation_keeps:
  assumes "ran_operation x t call cx ticks w r w'" and "P (first_phase x (st_definition t)) w"
    and "\<And>phase w now phase' w1. P phase w \<Longrightarrow> operation_step x t call cx now phase w = (phase', w1) \<Longrightarrow> P phase' w1"
    and "\<And>phase w a. P phase w \<Longrightarrow> P phase (w\<lparr>tw_agents := a\<rparr>)"
  shows "P (Settled r) w' \<or> (\<exists>phase w1 m. P phase w1 \<and> w' = abandon_operation t call cx phase w1 \<and>
    r = Inr (tool_failure call (td_effect (st_definition t)) ''write_lock_expired'' m))"
  using assms(1) unfolding ran_operation_def
proof
  assume "without_heartbeat x t call cx ticks (first_phase x (st_definition t)) w = Some (r, w')"
  then have "P (Settled r) w'" by (rule without_heartbeat_keeps [where P = P]) (fact assms(2), rule assms(3))
  then show ?thesis ..
next
  assume "\<exists>owner targets. with_heartbeat x t call cx owner targets ticks (first_phase x (st_definition t)) w = Some (r, w')"
  then obtain owner targets where
    "with_heartbeat x t call cx owner targets ticks (first_phase x (st_definition t)) w = Some (r, w')" by blast
  then show ?thesis by (rule with_heartbeat_keeps [where P = P]) (fact assms(2), rule assms(3), assumption+, rule assms(4))
qed

section \<open>Results\<close>

text \<open>A result of a call: its identifiers, the effect of the tool, and errors that are never verified.\<close>

definition result_of_call :: "tool_call \<Rightarrow> tool_effect \<Rightarrow> tool_result \<Rightarrow> bool" where
  "result_of_call call effect r \<longleftrightarrow> tr_call_id r = call_call_id call \<and> tr_tool_id r = call_tool_id call \<and>
     tr_effect r = effect \<and> (case tr_error_code r of None \<Rightarrow> True
       | Some code \<Rightarrow> code \<in> set tool_error_codes \<and> vr_state (tr_verification r) \<noteq> VERIFIED)"

lemma refused_result: "refused_call call effect (Inr r) \<Longrightarrow> result_of_call call effect r"
  by (auto simp: refused_call_def result_of_call_def tool_failure_def refusal_codes_known)

definition typed_phase :: "('b, 'e) semantic_tool \<Rightarrow> tool_call \<Rightarrow> op_phase \<Rightarrow> bool" where
  "typed_phase t call phase \<longleftrightarrow> (case phase of
     Settled (Inr r) \<Rightarrow> result_of_call call (td_effect (st_definition t)) r | _ \<Rightarrow> True)"

lemma typed_results [simp]:
  "code \<in> set tool_error_codes \<Longrightarrow> result_of_call call effect (tool_failure call effect code m)"
  "code \<in> set tool_error_codes \<Longrightarrow> result_of_call call effect (tool_uncertain call effect code m)"
  "result_of_call call effect (replayed call effect ref)"
  "result_of_call call (td_effect (st_definition t)) (observed t call observation v None)"
  "code \<in> set tool_error_codes \<Longrightarrow> vr_state v \<noteq> VERIFIED \<Longrightarrow>
     result_of_call call (td_effect (st_definition t)) (observed t call observation v (Some code))"
  by (simp_all add: result_of_call_def tool_failure_def tool_uncertain_def replayed_def observed_def)

lemma operation_step_typed:
  assumes "operation_step x t call cx now phase w = (phase', w1)" "typed_phase t call phase"
  shows "typed_phase t call phase'"
proof (cases phase)
  case Claiming
  with assms show ?thesis
    by (auto simp: typed_phase_def after_claim_def Let_def split: sum.splits prod.splits option.splits list.splits if_splits)
next
  case Reconciling
  with assms show ?thesis
    by (auto simp: typed_phase_def after_reconcile_def
        split: sum.splits prod.splits if_splits)
next
  case Executing
  with assms show ?thesis
    by (auto simp: typed_phase_def tool_raised_def Let_def split: sum.splits prod.splits exn.splits if_splits)
next
  case (Verifying observation)
  with assms show ?thesis
    by (auto simp: typed_phase_def tool_raised_def after_verify_def Let_def split: sum.splits prod.splits exn.splits if_splits)
qed (use assms in \<open>auto simp: typed_phase_def complete_operation_def split: sum.splits prod.splits\<close>)

text \<open>
  C32. Every result the executor returns is a result of its call: it names the call and the tool, carries
  the effect of the registered tool (a read when the tool is unknown), and an error code of the closed
  list of codes, never together with a verified state.
\<close>

theorem tool_result_well_typed:
  assumes "execute_tool x call cx now ticks w = Some (Inr r, w')"
  shows "result_of_call call (call_effect x call) r"
  using assms
proof (cases rule: execute_tool_cases)
  case refused
  then show ?thesis by (simp add: refused_result)
next
  case (admitted t)
  have effect: "call_effect x call = td_effect (st_definition t)" using admitted(1) by (simp add: call_effect_def)
  from admitted(4) show ?thesis
  proof cases
    case refused
    then show ?thesis by (simp add: refused_result effect)
  next
    case (ran w1 r1 w2)
    have "typed_phase t call (first_phase x (st_definition t))" by (simp add: typed_phase_def first_phase_def)
    with ran(1) have "typed_phase t call (Settled r1) \<or> (\<exists>phase w1 m. typed_phase t call phase \<and>
        w2 = abandon_operation t call cx phase w1 \<and>
        r1 = Inr (tool_failure call (td_effect (st_definition t)) ''write_lock_expired'' m))"
      by (rule ran_operation_keeps [where P = "\<lambda>phase w. typed_phase t call phase"]) (rule operation_step_typed)
    with ran(4) show ?thesis by (auto simp: typed_phase_def effect)
  qed
qed

text \<open>A tool is reached only when its arguments are valid and the screening has granted the call.\<close>

lemma unscreened_untouched:
  assumes "execute_tool x call cx now ticks w = Some (r, w')" "map_of (te_registry x) (call_tool_id call) = Some t"
    and "st_validate t (call_arguments call) \<noteq> Inr () \<or> fst (screen_call x (st_definition t) call cx w) \<noteq> Inr True"
  shows "w' = w \<or> w' = snd (screen_call x (st_definition t) call cx w)"
  using assms(1) by (cases rule: execute_tool_cases) (use assms(2,3) in auto)

section \<open>The operation journal\<close>

lemma claim_of_completed:
  assumes "claim_idempotency key kind owner ex now db = (Inr cl, db')" "cl_state cl = ''completed''" "cl_result_ref cl = Some ref"
  shows "completed_with key ref db'"
  using transaction_InrD [OF assms(1) [unfolded claim_idempotency_def]] assms(2,3) find_claim_set [of key db]
  by (auto simp: claim_tx_def completed_with_def split: option.splits if_splits)

definition journaled_phase :: "string \<Rightarrow> op_phase \<Rightarrow> ('b, 'e) tool_world \<Rightarrow> bool" where
  "journaled_phase key phase w \<longleftrightarrow> claims_ok (tw_db w) \<and> (case phase of
     Settled (Inr r) \<Rightarrow> \<forall>ref refs. tr_error_code r = None \<longrightarrow> vr_state (tr_verification r) = VERIFIED \<longrightarrow>
       vr_resource_refs (tr_verification r) = ref # refs \<longrightarrow> completed_with key ref (tw_db w)
   | Settling n \<Rightarrow> vr_resource_refs (tn_verification n) \<noteq> []
   | Completing observation v \<Rightarrow> vr_resource_refs v \<noteq> []
   | _ \<Rightarrow> True)"

lemma complete_operation_journaled:
  assumes "complete_operation x t call cx now observation v w = (phase', w1)" "claims_ok (tw_db w)" "vr_resource_refs v \<noteq> []"
  shows "journaled_phase (operation_key x call (st_definition t) cx) phase' w1"
proof -
  obtain a db1 where a: "complete_idempotency (operation_key x call (st_definition t) cx) (operation_owner cx)
      (hd (vr_resource_refs v)) now (tw_db w) = (a, db1)" by fastforce
  have ok: "claims_ok db1" using complete_ok [OF assms(2), of "operation_key x call (st_definition t) cx" "operation_owner cx"
      "hd (vr_resource_refs v)" now] a by simp
  show ?thesis
  proof (cases a)
    case (Inl e)
    with a ok assms(1) show ?thesis by (auto simp: complete_operation_def on_db_def journaled_phase_def)
  next
    case (Inr u)
    with a have "completed_with (operation_key x call (st_definition t) cx) (hd (vr_resource_refs v)) db1"
      using complete_completes by blast
    with a ok Inr assms(1) show ?thesis
      by (auto simp: complete_operation_def on_db_def journaled_phase_def observed_def)
  qed
qed

lemma claims_ok_step: "claims_ok db \<Longrightarrow> store_step db db' \<Longrightarrow> claims_ok db'"
  by (auto simp: store_step_def run_claims_ok)

text \<open>Outside its last phase a journaled operation only needs sound claims.\<close>

lemma journaled_open:
  assumes "claims_ok (tw_db w)" "case phase of Settled (Inr r) \<Rightarrow> tr_error_code r \<noteq> None \<or> vr_state (tr_verification r) \<noteq> VERIFIED \<or>
     vr_resource_refs (tr_verification r) = [] | Settling n \<Rightarrow> vr_resource_refs (tn_verification n) \<noteq> []
   | Completing observation v \<Rightarrow> vr_resource_refs v \<noteq> [] | _ \<Rightarrow> True"
  shows "journaled_phase key phase w"
  using assms by (auto simp: journaled_phase_def split: op_phase.splits sum.splits)

lemma operation_step_journaled:
  assumes s: "operation_step x t call cx now phase w = (phase', w1)" and j: "journaled_phase key phase w"
    and t: "is_write (st_definition t)" "te_has_store x" "legal_tool t" and key: "key = operation_key x call (st_definition t) cx"
  shows "journaled_phase key phase' w1"
proof (cases phase)
  case Claiming
  obtain a db1 where a: "claim_idempotency key (td_tool_id (st_definition t)) (operation_owner cx)
      (now + te_claim_lease_ms x) now (tw_db w) = (a, db1)" by fastforce
  have ok: "claims_ok db1"
    using claim_ok [of "tw_db w" key "td_tool_id (st_definition t)" "operation_owner cx" "now + te_claim_lease_ms x" now] a j
    by (simp add: journaled_phase_def)
  show ?thesis
  proof (cases a)
    case (Inl e)
    with a ok s Claiming key show ?thesis by (auto simp: on_db_def journaled_phase_def)
  next
    case (Inr cl)
    then have "phase' = after_claim t call cl" "tw_db w1 = db1" using a s Claiming key by (auto simp: on_db_def)
    then show ?thesis
      using ok claim_of_completed [of key _ _ _ _ "tw_db w" cl db1] a Inr
      by (auto simp: journaled_phase_def after_claim_def Let_def replayed_def tool_uncertain_def
          split: option.splits list.splits if_splits)
  qed
next
  case Reconciling
  obtain r where r: "st_reconcile t (call_arguments call) cx w = (r, w1)" "phase' = after_reconcile t call r"
    using s Reconciling by (auto split: prod.splits)
  have "claims_ok (tw_db w1)"
    using claims_ok_step [OF _ legal_toolD(3) [OF t(3) r(1)]] j by (simp add: journaled_phase_def)
  then show ?thesis unfolding r(2)
    by (rule journaled_open) (auto simp: after_reconcile_def observed_def tool_uncertain_def split: sum.splits if_splits)
next
  case Executing
  obtain r where r: "st_execute t (call_arguments call) cx w = (r, w1)"
    "phase' = (case r of Inl e \<Rightarrow> tool_raised t call e | Inr observation \<Rightarrow> Verifying observation)"
    using s Executing by (auto split: prod.splits sum.splits)
  have "claims_ok (tw_db w1)"
    using claims_ok_step [OF _ legal_toolD(1) [OF t(3) r(1)]] j by (simp add: journaled_phase_def)
  then show ?thesis unfolding r(2)
    by (rule journaled_open) (auto simp: tool_raised_def tool_failure_def Let_def split: sum.splits exn.splits if_splits)
next
  case (Verifying observation)
  obtain r where r: "st_verify t (call_arguments call) observation cx w = (r, w1)"
    "phase' = (case r of Inl e \<Rightarrow> tool_raised t call e | Inr v \<Rightarrow> after_verify x t call observation v)"
    using s Verifying by (auto split: prod.splits sum.splits)
  have "claims_ok (tw_db w1)"
    using claims_ok_step [OF _ legal_toolD(2) [OF t(3) r(1)]] j by (simp add: journaled_phase_def)
  then show ?thesis unfolding r(2)
    by (rule journaled_open)
      (use t in \<open>auto simp: tool_raised_def after_verify_def tool_failure_def observed_def Let_def split: sum.splits exn.splits if_splits\<close>)
next
  case (Settling n)
  with s j show ?thesis unfolding key by (intro complete_operation_journaled) (auto simp: journaled_phase_def)
next
  case (Completing observation v)
  with s j show ?thesis unfolding key by (intro complete_operation_journaled) (auto simp: journaled_phase_def)
qed (use s j in auto)

lemma journaled_agents: "journaled_phase key phase (w\<lparr>tw_agents := a\<rparr>) = journaled_phase key phase w"
  by (auto simp: journaled_phase_def split: op_phase.splits sum.splits)

text \<open>After a verified write the key of its operation is completed with the first reference.\<close>

lemma verified_write_completed:
  assumes ok: "claims_ok (tw_db w)" and x: "legal_executor x" and t: "map_of (te_registry x) (call_tool_id call) = Some t"
    and writes: "is_write (st_definition t)" "te_has_store x"
    and r: "execute_tool x call cx now ticks w = Some (Inr r, w')" "tr_error_code r = None"
      "vr_state (tr_verification r) = VERIFIED" "vr_resource_refs (tr_verification r) = ref # refs"
  shows "claims_ok (tw_db w') \<and> completed_with (operation_key x call (st_definition t) cx) ref (tw_db w')"
  using r(1)
proof (cases rule: execute_tool_cases)
  case refused
  with r(2) show ?thesis by (auto simp: refused_call_def tool_failure_def)
next
  case (admitted t')
  with t have "t' = t" by simp
  let ?v = "snd (screen_call x (st_definition t) call cx w)"
  have okv: "claims_ok (tw_db ?v)" by (rule claims_ok_step [OF ok screen_call_store [OF x]])
  from admitted(4) show ?thesis unfolding \<open>t' = t\<close>
  proof cases
    case refused
    with r(2) show ?thesis by (auto simp: refused_call_def tool_failure_def)
  next
    case (ran w1 r1 w2)
    let ?key = "operation_key x call (st_definition t) cx"
    have "journaled_phase ?key (first_phase x (st_definition t)) w1"
      using ran(2) okv by (simp add: journaled_phase_def first_phase_def same_stores_def)
    with ran(1) have "journaled_phase ?key (Settled r1) w2 \<or> (\<exists>phase w1 m. journaled_phase ?key phase w1 \<and>
        w2 = abandon_operation t call cx phase w1 \<and>
        r1 = Inr (tool_failure call (td_effect (st_definition t)) ''write_lock_expired'' m))"
      by (rule ran_operation_keeps [where P = "journaled_phase ?key"])
        (simp_all add: journaled_agents operation_step_journaled [OF _ _ writes legal_registered [OF x t] refl])
    moreover have "r1 = Inr r" using ran(4) by simp
    ultimately have "journaled_phase ?key (Settled (Inr r)) w2" using r(2) by (auto simp: tool_failure_def)
    with r(2-4) ran(3) show ?thesis by (auto simp: journaled_phase_def same_stores_def)
  qed
qed

definition replaying :: "string \<Rightarrow> string \<Rightarrow> 'b rt_db \<Rightarrow> 'e \<Rightarrow> exn + tool_result \<Rightarrow> op_phase \<Rightarrow> ('b, 'e) tool_world \<Rightarrow> bool" where
  "replaying key ref db env answer phase w \<longleftrightarrow> tw_db w = db \<and> tw_env w = env \<and> (phase = Claiming \<or> phase = Settled answer)"

lemma operation_step_replaying:
  assumes ok: "claims_ok db" "completed_with key ref db" "ref \<noteq> []" and key: "key = operation_key x call (st_definition t) cx"
    and p: "replaying key ref db env (Inr (replayed call (td_effect (st_definition t)) ref)) phase w"
    and s: "operation_step x t call cx now phase w = (phase', w1)"
  shows "replaying key ref db env (Inr (replayed call (td_effect (st_definition t)) ref)) phase' w1"
proof (cases "phase = Claiming")
  case True
  then have "phase' = after_claim t call \<lparr>cl_acquired = False, cl_state = ''completed'', cl_result_ref = Some ref,
      cl_recovery_required = False\<rparr>" "w1 = w"
    using s p ok key by (auto simp: on_db_def replaying_def completed_claim_result)
  with p ok(3) show ?thesis by (cases ref) (simp_all add: after_claim_def replaying_def)
qed (use p s in \<open>auto simp: replaying_def\<close>)

text \<open>A call whose key is completed never reaches the tool.\<close>

lemma completed_call_replayed:
  assumes ok: "claims_ok (tw_db w)" "completed_with (operation_key x call (st_definition t) cx) ref (tw_db w)" "ref \<noteq> []"
    and x: "legal_executor x"
    and t: "map_of (te_registry x) (call_tool_id call) = Some t" and writes: "is_write (st_definition t)" "te_has_store x"
    and r: "execute_tool x call cx now ticks w = Some (r, w')"
  shows "(same_stores w w' \<or> same_stores (snd (screen_call x (st_definition t) call cx w)) w') \<and>
    (r = Inr (replayed call (td_effect (st_definition t)) ref) \<or> refused_call call (td_effect (st_definition t)) r)"
  using r
proof (cases rule: execute_tool_cases)
  case refused
  with t show ?thesis by (auto simp: call_effect_def)
next
  case (admitted t')
  with t have "t' = t" by simp
  let ?v = "snd (screen_call x (st_definition t) call cx w)" and ?key = "operation_key x call (st_definition t) cx"
  obtain ops where "tw_db ?v = timed_run rt_step ops (tw_db w)"
    using screen_call_store [OF x, of w "st_definition t" call cx] unfolding store_step_def by blast
  then have okv: "claims_ok (tw_db ?v)" "completed_with ?key ref (tw_db ?v)" using run_completed [OF ok(1,2)] by simp_all
  from admitted(4) show ?thesis unfolding \<open>t' = t\<close>
  proof cases
    case refused
    then show ?thesis by blast
  next
    case (ran w1 r1 w2)
    let ?answer = "Inr (replayed call (td_effect (st_definition t)) ref)"
    have "replaying ?key ref (tw_db ?v) (tw_env ?v) ?answer (first_phase x (st_definition t)) w1"
      using ran(2) writes by (simp add: replaying_def first_phase_def same_stores_def)
    with ran(1) have "replaying ?key ref (tw_db ?v) (tw_env ?v) ?answer (Settled r1) w2 \<or>
        (\<exists>phase w1 m. replaying ?key ref (tw_db ?v) (tw_env ?v) ?answer phase w1 \<and> w2 = abandon_operation t call cx phase w1 \<and>
        r1 = Inr (tool_failure call (td_effect (st_definition t)) ''write_lock_expired'' m))"
    proof (rule ran_operation_keeps [where P = "replaying ?key ref (tw_db ?v) (tw_env ?v) ?answer"])
      show "replaying ?key ref (tw_db ?v) (tw_env ?v) ?answer phase' w1"
        if "replaying ?key ref (tw_db ?v) (tw_env ?v) ?answer phase v" "operation_step x t call cx now phase v = (phase', w1)"
        for phase v now phase' w1
        using operation_step_replaying [OF okv ok(3) refl that] .
    qed (simp add: replaying_def)
    with ran(3,4) show ?thesis by (auto simp: replaying_def same_stores_def abandon_operation_def)
  qed
qed


section \<open>A concrete tool\<close>

text \<open>A writing tool that counts how often it runs.\<close>

definition counting_tool :: "(string \<times> json, nat) semantic_tool" where
  "counting_tool = \<lparr>st_definition = \<lparr>td_tool_id = ''send'', td_version = 1, td_description = ''d'', td_input_schema = [],
       td_effect = WRITE, td_parallel_safe = False\<rparr>,
     st_validate = (\<lambda>_. Inr ()),
     st_execute = (\<lambda>_ _ w. (Inr [(''sent'', JBool True)], w\<lparr>tw_env := Suc (tw_env w)\<rparr>)),
     st_verify = (\<lambda>_ _ _ w. (Inr \<lparr>vr_state = VERIFIED, vr_verifier_id = ''lark'', vr_summary = ''sent'',
       vr_resource_refs = [''doc'']\<rparr>, w)),
     st_reconcile = (\<lambda>_ _ w. (Inl (RuntimeError ''unknown''), w)), st_resolve_write_target = None,
     st_parallel_safe_for = None, st_checkpoint_safe = True, st_abandoned = (\<lambda>_ _ w. w)\<rparr>"

definition sample_executor :: "(string \<times> json, nat) tool_executor" where
  "sample_executor = \<lparr>te_registry = [(''send'', counting_tool)],
     te_policy = (\<lambda>_ _ _ n. (Inr \<lparr>pd_allowed = True, pd_reason = [], pd_approval_required = False\<rparr>, n)),
     te_approvals = (\<lambda>_ _ _ n. (Inr True, n)), te_has_store = True, te_has_locks = False, te_claim_lease_ms = 1000,
     te_write_lock_lease_ms = 1000, te_has_gate = True, te_tool_plugin_ids = [(''send'', ''im'')],
     te_plugin_concurrency = Some 1, te_dumps = (\<lambda>_. ''args''), te_sha256 = (\<lambda>m. m)\<rparr>"

definition sample_context :: tool_context where
  "sample_context = \<lparr>cx_run_id = ''r1'', cx_node_id = ''/agents/a'', cx_tenant_key = ''t'', cx_app_id = ''a'',
     cx_actor_id = ''u'', cx_session_key = ''s'', cx_identity_ref = ''i'', cx_policy_version = 1, cx_task_id = None,
     cx_chat_id = None, cx_source_message_id = None, cx_reply_in_thread = False, cx_write_scope = [],
     cx_write_scope_required = False, cx_trace_id = None\<rparr>"

definition sample_call :: "string \<Rightarrow> tool_call" where
  "sample_call i = \<lparr>call_call_id = i, call_tool_id = ''send'', call_arguments = []\<rparr>"

definition sample_world :: "(string \<times> json, nat) tool_world" where
  "sample_world = \<lparr>tw_db = empty_db, tw_agents = empty_graph_db, tw_gate = empty_gate, tw_env = 0\<rparr>"

definition sample_ticks :: "op_tick list" where
  "sample_ticks = [Advance 10, Advance 11, Advance 12, Advance 13]"

definition first_execution :: "(string \<times> json, nat) executed option" where
  "first_execution = execute_tool sample_executor (sample_call ''c1'') sample_context 9 sample_ticks sample_world"

definition first_world :: "(string \<times> json, nat) tool_world" where
  "first_world = (case first_execution of Some (r, w) \<Rightarrow> w | None \<Rightarrow> sample_world)"

definition second_execution :: "(string \<times> json, nat) executed option" where
  "second_execution = execute_tool sample_executor (sample_call ''c2'') sample_context 20 sample_ticks first_world"

lemma sample_executor_legal: "legal_executor sample_executor"
  by (simp add: legal_executor_def sample_executor_def legal_tool_def counting_tool_def)

lemma first_execution_value:
  "\<exists>r. first_execution = Some (Inr r, first_world) \<and> tr_error_code r = None \<and>
     vr_state (tr_verification r) = VERIFIED \<and> vr_resource_refs (tr_verification r) = [''doc''] \<and> tw_env first_world = 1"
proof -
  have "case first_execution of Some (Inr r, w) \<Rightarrow> tr_error_code r = None \<and>
     vr_state (tr_verification r) = VERIFIED \<and> vr_resource_refs (tr_verification r) = [''doc''] \<and> tw_env w = 1 | _ \<Rightarrow> False"
    by code_simp
  then obtain r w where "first_execution = Some (Inr r, w)" "tr_error_code r = None" "vr_state (tr_verification r) = VERIFIED"
    "vr_resource_refs (tr_verification r) = [''doc'']" "tw_env w = 1" by (auto split: option.splits prod.splits sum.splits)
  moreover have "first_world = w"
    unfolding first_world_def \<open>first_execution = Some (Inr r, w)\<close> by simp
  ultimately show ?thesis by blast
qed

lemma tool_result_well_typed_witness:
  "\<exists>r w. first_execution = Some (Inr r, w) \<and> tr_call_id r = ''c1'' \<and> tr_effect r = WRITE"
proof -
  obtain r where r: "first_execution = Some (Inr r, first_world)" using first_execution_value by blast
  from tool_result_well_typed [OF r [unfolded first_execution_def]] show ?thesis
    using r by (auto simp: result_of_call_def sample_call_def call_effect_def sample_executor_def counting_tool_def)
qed


end
