(* ===== verification/Approvals.thy ===== *)
theory Approvals
  imports ToolProps
begin

text \<open>
  \<open>DurableApprovalBroker\<close> and \<open>ApprovalDecisionService\<close> of \<open>runtime/approvals.py\<close>: a destructive call waits
  for its requester, who answers by the buttons of a card. The texts of the card and of the answers (in
  Chinese, outside the 8-bit characters) and the standard library's \<open>json.dumps\<close> and SHA-256 are
  parameters.
\<close>

section \<open>The broker\<close>

record approval_texts =
  at_title :: string
  at_body :: "string \<Rightarrow> string"
  at_confirm :: string
  at_decline :: string
  at_note :: "int \<Rightarrow> string"
  at_answer :: "string \<Rightarrow> string"

text \<open>\<open>ab_clock_ms\<close> reads the clock; \<open>ab_outbox_id\<close> is the identifier that the store draws for the card.\<close>

record ('b, 'e) approval_broker =
  ab_cipher :: "'b cipher"
  ab_ttl_ms :: int
  ab_poll_delay_ms :: int
  ab_clock_ms :: "('b, 'e) tool_world \<Rightarrow> int"
  ab_outbox_id :: "('b, 'e) tool_world \<Rightarrow> string"
  ab_texts :: approval_texts
  ab_dumps :: "payload \<Rightarrow> string"
  ab_sha256 :: "string \<Rightarrow> string"

definition check_broker :: "('b, 'e) approval_broker \<Rightarrow> exn + ('b, 'e) approval_broker" where
  "check_broker b = (if min (ab_ttl_ms b) (ab_poll_delay_ms b) < 1
     then Inl (ValueError ''approval timing must be positive'') else Inr b)"

definition approval_id_of :: "(string \<Rightarrow> string) \<Rightarrow> string \<Rightarrow> string \<Rightarrow> string \<Rightarrow> string" where
  "approval_id_of sha run_id tool_id digest =
     ''apr_'' @ sha (run_id @ [CHR 0x00] @ tool_id @ [CHR 0x00] @ digest)"

definition card_button :: "string \<Rightarrow> string \<Rightarrow> string \<Rightarrow> string \<Rightarrow> json" where
  "card_button label kind approval_id decision = JObj [(''tag'', JStr ''button''),
     (''text'', JObj [(''tag'', JStr ''plain_text''), (''content'', JStr label)]), (''type'', JStr kind),
     (''value'', JObj [(''approval_id'', JStr approval_id), (''decision'', JStr decision)])]"

definition card_json :: "approval_texts \<Rightarrow> string \<Rightarrow> string \<Rightarrow> int \<Rightarrow> json" where
  "card_json tx tool_id approval_id expires = JObj [
     (''schema'', JStr ''2.0''), (''config'', JObj [(''wide_screen_mode'', JBool True)]),
     (''header'', JObj [(''title'', JObj [(''tag'', JStr ''plain_text''), (''content'', JStr (at_title tx))])]),
     (''body'', JObj [(''elements'', JArr [
       JObj [(''tag'', JStr ''markdown''), (''content'', JStr (at_body tx tool_id))],
       JObj [(''tag'', JStr ''action''), (''actions'', JArr [
         card_button (at_confirm tx) ''primary'' approval_id ''approved'',
         card_button (at_decline tx) ''default'' approval_id ''rejected''])],
       JObj [(''tag'', JStr ''note''), (''elements'', JArr [
         JObj [(''tag'', JStr ''plain_text''), (''content'', JStr (at_note tx expires))]])]])])]"

definition approval_card :: "approval_texts \<Rightarrow> tool_definition \<Rightarrow> tool_context \<Rightarrow> string \<Rightarrow> int \<Rightarrow> outbox_draft" where
  "approval_card tx d cx approval_id expires = \<lparr>od_publisher_id = ''feishu-im.reply'',
     od_destination_ref = (case cx_source_message_id cx of Some m \<Rightarrow> m | None \<Rightarrow> []),
     od_message_kind = ''approval'', od_idempotency_key = ''approval:'' @ approval_id @ '':request:v1'',
     od_payload = [(''chat_id'', jopt (cx_chat_id cx)), (''message_id'', jopt (cx_source_message_id cx)),
       (''reply_in_thread'', JBool (cx_reply_in_thread cx)), (''card'', card_json tx (td_tool_id d) approval_id expires)],
     od_available_at_ms = 0\<rparr>"

definition argument_digest :: "('b, 'e) approval_broker \<Rightarrow> tool_call \<Rightarrow> string" where
  "argument_digest b call = ab_sha256 b (ab_dumps b (call_arguments call))"

definition call_approval_id :: "('b, 'e) approval_broker \<Rightarrow> tool_definition \<Rightarrow> tool_call \<Rightarrow> tool_context \<Rightarrow> string" where
  "call_approval_id b d call cx = approval_id_of (ab_sha256 b) (cx_run_id cx) (td_tool_id d) (argument_digest b call)"

definition approval_request_of ::
  "('b, 'e) approval_broker \<Rightarrow> tool_definition \<Rightarrow> tool_call \<Rightarrow> tool_context \<Rightarrow> string \<Rightarrow> int \<Rightarrow> approval_request" where
  "approval_request_of b d call cx task_id now = \<lparr>aq_approval_id = call_approval_id b d call cx, aq_task_id = task_id,
     aq_run_id = cx_run_id cx, aq_tenant_key = cx_tenant_key cx, aq_app_id = cx_app_id cx,
     aq_session_key = cx_session_key cx, aq_actor_id = cx_actor_id cx, aq_tool_id = td_tool_id d,
     aq_argument_digest = argument_digest b call,
     aq_trace_id = (case cx_trace_id cx of Some (ch # trace) \<Rightarrow> ch # trace | _ \<Rightarrow> cx_run_id cx),
     aq_expires_at_ms = now + ab_ttl_ms b\<rparr>"

text \<open>What \<open>request\<close> makes of the state the store answers with.\<close>

definition approval_answer :: "('b, 'e) approval_broker \<Rightarrow> string \<Rightarrow> exn + bool" where
  "approval_answer b state = (if state = ''approved'' then Inr True
     else if state = ''pending'' then Inl (TaskDeferred ''approval_pending'' (ab_poll_delay_ms b)) else Inr False)"

definition broker_request ::
  "('b, 'e) approval_broker \<Rightarrow> tool_definition \<Rightarrow> tool_call \<Rightarrow> tool_context \<Rightarrow> (('b, 'e) tool_world, bool) eff" where
  "broker_request b d call cx w = (case (cx_task_id cx, cx_chat_id cx, cx_source_message_id cx) of
     (Some task_id, Some chat, Some message) \<Rightarrow>
       (let now = ab_clock_ms b w; approval_id = call_approval_id b d call cx in
        case check_outbox_draft (approval_card (ab_texts b) d cx approval_id (now + ab_ttl_ms b)) of
          Inl e \<Rightarrow> (Inl e, w)
        | Inr draft \<Rightarrow> (case on_db (request_approval (ab_cipher b) (ab_outbox_id b w)
              (approval_request_of b d call cx task_id now) draft now) w of
            (Inl e, w1) \<Rightarrow> (Inl e, w1)
          | (Inr state, w1) \<Rightarrow> (approval_answer b state, w1)))
   | _ \<Rightarrow> (Inl (RuntimeError ''destructive approval requires a durable IM task binding''), w))"

section \<open>The answer of the requester\<close>

text \<open>\<open>_mapping\<close> and \<open>_text\<close>\<close>

definition callback_mapping :: "json option \<Rightarrow> exn + payload" where
  "callback_mapping v = (case v of Some (JObj d) \<Rightarrow> Inr d
     | _ \<Rightarrow> Inl (ValueError ''approval callback field is not an object''))"

definition callback_text :: "json option \<Rightarrow> string \<Rightarrow> exn + string" where
  "callback_text v field = (case v of Some (JStr (ch # s)) \<Rightarrow> Inr (ch # s)
     | _ \<Rightarrow> Inl (ValueError (''approval callback requires '' @ field)))"

record approval_callback =
  cbk_approval_id :: string
  cbk_decision :: string
  cbk_actor_id :: string
  cbk_tenant_key :: string
  cbk_message_id :: string
  cbk_chat_id :: string
  cbk_event_id :: string

definition parse_callback :: "payload \<Rightarrow> exn + approval_callback" where
  "parse_callback raw =
     chain (callback_mapping (json_get raw ''header'')) (\<lambda>header.
     chain (callback_mapping (json_get raw ''event'')) (\<lambda>event.
     chain (callback_mapping (json_get event ''action'')) (\<lambda>action.
     chain (callback_mapping (json_get action ''value'')) (\<lambda>button.
     chain (callback_mapping (json_get event ''operator'')) (\<lambda>operator.
     chain (callback_mapping (json_get event ''context'')) (\<lambda>place.
     chain (callback_text (json_get button ''approval_id'') ''approval_id'') (\<lambda>approval_id.
     chain (callback_text (json_get button ''decision'') ''decision'') (\<lambda>decision.
     chain (callback_text (json_get operator ''open_id'') ''operator.open_id'') (\<lambda>actor.
     chain (callback_text (json_get operator ''tenant_key'') ''operator.tenant_key'') (\<lambda>tenant.
     chain (callback_text (json_get place ''open_message_id'') ''message_id'') (\<lambda>message.
     chain (callback_text (json_get place ''open_chat_id'') ''chat_id'') (\<lambda>chat.
     chain (callback_text (json_get header ''event_id'') ''header.event_id'') (\<lambda>event_id.
       Inr \<lparr>cbk_approval_id = approval_id, cbk_decision = decision, cbk_actor_id = actor, cbk_tenant_key = tenant,
            cbk_message_id = message, cbk_chat_id = chat, cbk_event_id = event_id\<rparr>)))))))))))))"

record 'b decision_service =
  ds_cipher :: "'b cipher"
  ds_app_id :: string
  ds_texts :: approval_texts
  ds_dumps :: "payload \<Rightarrow> string"

definition callback_event :: "'b decision_service \<Rightarrow> payload \<Rightarrow> approval_callback \<Rightarrow> int \<Rightarrow> normalized_event" where
  "callback_event s raw k now = \<lparr>ev_event_id = cbk_event_id k, ev_plugin_id = ''feishu-im'',
     ev_event_type = ''card.approval.decided'', ev_tenant_key = cbk_tenant_key k, ev_app_id = ds_app_id s,
     ev_occurred_at_ms = now, ev_received_at_ms = now, ev_resource_kind = ''im.message'', ev_resource_id = cbk_message_id k,
     ev_trace_id = cbk_event_id k, ev_schema_version = 1, ev_correlation_id = None,
     ev_source_payload = Some (ds_dumps s raw), ev_payload_expires_at_ms = None\<rparr>"

definition decision_acknowledgement :: "'b decision_service \<Rightarrow> approval_callback \<Rightarrow> string \<Rightarrow> outbox_draft" where
  "decision_acknowledgement s k result = \<lparr>od_publisher_id = ''feishu-im.reply'', od_destination_ref = cbk_message_id k,
     od_message_kind = ''progress'', od_idempotency_key = ''approval:'' @ cbk_approval_id k @ '':decision:'' @ cbk_event_id k,
     od_payload = [(''chat_id'', JStr (cbk_chat_id k)), (''message_id'', JStr (cbk_message_id k)),
       (''reply_in_thread'', JBool False), (''text'', JStr (at_answer (ds_texts s) result))],
     od_available_at_ms = 0\<rparr>"

text \<open>\<open>handle\<close>; the drafts of the acknowledgement have all their routing fields, so their check passes.\<close>

definition handle_decision ::
  "'b decision_service \<Rightarrow> string \<Rightarrow> payload \<Rightarrow> int \<Rightarrow> ('b rt_db, string) eff" where
  "handle_decision s outbox_id raw now db = (case parse_callback raw of
     Inl e \<Rightarrow> (Inl e, db)
   | Inr k \<Rightarrow> (case check_event (callback_event s raw k now) of
       Inl e \<Rightarrow> (Inl e, db)
     | Inr event \<Rightarrow> decide_approval (ds_cipher s) outbox_id event (cbk_approval_id k) (cbk_actor_id k) (cbk_decision k)
         (decision_acknowledgement s k) now db))"

section \<open>Only what the requester approved is executed\<close>

text \<open>The decision of the requester that approves, in time.\<close>

definition approving :: "approval_row \<Rightarrow> int \<times> 'b rt_op \<Rightarrow> bool" where
  "approving a x \<longleftrightarrow> (\<exists>t c oid e ack. x = (t, OpDecideApproval c oid e (ap_approval_id a) (ap_actor_id a) ''approved'' ack) \<and>
     ev_tenant_key e = ap_tenant_key a \<and> ev_app_id e = ap_app_id a \<and> t < ap_expires_at_ms a)"

lemma approving_update [simp]:
  "approving (a\<lparr>ap_state := s, ap_decided_at_ms := m\<rparr>) x = approving a x"
  by (simp add: approving_def)

lemma step_approving:
  assumes "approvals_ok db" and "b \<in> set (db_approvals (rt_step now op db))" "ap_state b = ''approved''"
  shows "b \<in> set (db_approvals db) \<or> approving b (now, op)"
proof (cases rule: step_approval_cases [of now op db])
  case same
  with assms(2) show ?thesis by simp
next
  case (new q)
  with assms(2,3) show ?thesis by (auto simp: new_approval_def)
next
  case (expired i)
  with settles_mem [of b i "''expired''" now "db_approvals db"] assms(2,3) show ?thesis by auto
next
  case (decided c oid e i actor dd ack a)
  show ?thesis
  proof (cases "b \<in> set (db_approvals db)")
    case False
    with settles_mem [of b i dd now "db_approvals db"] assms(2) decided(5) obtain y where
      y: "y \<in> set (db_approvals db)" "ap_approval_id y = i" "b = y\<lparr>ap_state := dd, ap_decided_at_ms := Some now\<rparr>"
      by auto
    have d: "distinct (map ap_approval_id (db_approvals db))" using assms(1) by (simp add: approvals_ok_def)
    have "a = y" using find_approval_Some [OF decided(2)] y key_unique [OF d _ y(1)] by simp
    with y decided assms(3) show ?thesis by (auto simp: approving_def authorized_def)
  qed simp
qed

text \<open>Every row was asked for by a request with its fields; only state and time of the decision change later.\<close>

definition requesting :: "approval_row \<Rightarrow> int \<times> 'b rt_op \<Rightarrow> bool" where
  "requesting a x \<longleftrightarrow> (\<exists>t c oid q draft. x = (t, OpRequestApproval c oid q draft) \<and>
     new_approval q t = a\<lparr>ap_state := ''pending'', ap_decided_at_ms := None\<rparr>)"

lemma requesting_update [simp]:
  "requesting (a\<lparr>ap_state := s, ap_decided_at_ms := m\<rparr>) x = requesting a x"
  by (simp add: requesting_def)

lemma step_requested:
  assumes "b \<in> set (db_approvals (rt_step now op db))"
  shows "(\<exists>a \<in> set (db_approvals db). \<exists>s m. b = a\<lparr>ap_state := s, ap_decided_at_ms := m\<rparr>) \<or> requesting b (now, op)"
proof -
  have old: ?thesis if "b \<in> set (db_approvals db)"
    using that by (intro disjI1 bexI [of _ b] exI [of _ "ap_state b"] exI [of _ "ap_decided_at_ms b"]) simp_all
  have settled: ?thesis if "b \<in> set (settles i s now (db_approvals db))" for i s
    using settles_mem [OF that] old by blast
  show ?thesis
  proof (cases rule: step_approval_cases [of now op db])
    case (new q c oid d)
    with assms old show ?thesis by (auto simp: requesting_def new_approval_def)
  qed (use assms old settled in auto)
qed

lemma run_requested:
  assumes "b \<in> set (db_approvals (timed_run rt_step ops empty_db))"
  shows "\<exists>x \<in> set ops. requesting b x"
  using assms
proof (induction ops arbitrary: b rule: rev_induct)
  case Nil
  then show ?case by (simp add: empty_db_def)
next
  case (snoc x ops)
  obtain t op where x: "x = (t, op)" by (cases x)
  have "b \<in> set (db_approvals (rt_step t op (timed_run rt_step ops empty_db)))"
    using snoc.prems x by (simp add: timed_run_append)
  from step_requested [OF this] snoc.IH x show ?case by fastforce
qed

text \<open>Every approval that stands as approved was asked for, and then decided so by its requester, in time.\<close>

lemma run_approving:
  assumes "timely rt_legal t0 ops" and "b \<in> set (db_approvals (timed_run rt_step ops empty_db))" "ap_state b = ''approved''"
  shows "\<exists>xs x ys. ops = xs @ x # ys \<and> approving b x \<and> (\<exists>y \<in> set xs. requesting b y)"
  using assms
proof (induction ops rule: rev_induct)
  case Nil
  then show ?case by (simp add: empty_db_def)
next
  case (snoc x ops)
  obtain t op where x: "x = (t, op)" by (cases x)
  have timely: "timely rt_legal t0 ops"
    using snoc.prems(1) by (auto simp: timely_def sorted_append simp flip: append_Cons)
  let ?db = "timed_run rt_step ops empty_db"
  have ok: "approvals_ok ?db" using runtime_okD(6) [OF runtime_reachable [OF timely]] .
  have b: "b \<in> set (db_approvals (rt_step t op ?db))" using snoc.prems(2) x by (simp add: timed_run_append)
  show ?case
  proof (cases "b \<in> set (db_approvals ?db)")
    case True
    from snoc.IH [OF timely this snoc.prems(3)] obtain xs y ys where
      "ops = xs @ y # ys" "approving b y" "\<exists>z \<in> set xs. requesting b z" by blast
    then show ?thesis by (intro exI [of _ xs] exI [of _ y] exI [of _ "ys @ [x]"]) simp
  next
    case False
    then have approved: "approving b (t, op)" using step_approving [OF ok b snoc.prems(3)] by blast
    from this have "\<not> requesting b (t, op)" by (auto simp: approving_def requesting_def)
    then obtain a s m where "a \<in> set (db_approvals ?db)" "b = a\<lparr>ap_state := s, ap_decided_at_ms := m\<rparr>"
      using step_requested [OF b] by blast
    with run_requested [of a ops] have "\<exists>y \<in> set ops. requesting b y" by auto
    with approved x show ?thesis by (intro exI [of _ ops] exI [of _ x] exI [of _ "[]"]) simp
  qed
qed

lemma broker_request_cases:
  assumes "broker_request b d call cx w = (r, w')"
  obtains (unbound) e where "r = Inl e" "w' = w" "\<forall>reason delay. e \<noteq> TaskDeferred reason delay"
  | (asked) task out draft where "cx_task_id cx = Some task" "w' = w\<lparr>tw_db := tw_db w'\<rparr>" "r = chain out (approval_answer b)"
      "request_approval (ab_cipher b) (ab_outbox_id b w) (approval_request_of b d call cx task (ab_clock_ms b w)) draft
          (ab_clock_ms b w) (tw_db w) = (out, tw_db w')"
proof (cases "\<exists>task chat message. cx_task_id cx = Some task \<and> cx_chat_id cx = Some chat \<and> cx_source_message_id cx = Some message")
  case True
  then obtain task chat message where ids: "cx_task_id cx = Some task" "cx_chat_id cx = Some chat"
    "cx_source_message_id cx = Some message" by blast
  let ?now = "ab_clock_ms b w" and ?q = "approval_request_of b d call cx task (ab_clock_ms b w)"
  let ?card = "approval_card (ab_texts b) d cx (call_approval_id b d call cx) (?now + ab_ttl_ms b)"
  obtain out db where out: "request_approval (ab_cipher b) (ab_outbox_id b w) ?q ?card ?now (tw_db w) = (out, db)" by fastforce
  show thesis
  proof (cases "check_outbox_draft ?card")
    case (Inl e)
    then have "\<forall>reason delay. e \<noteq> TaskDeferred reason delay" by (auto simp: check_outbox_draft_def split: if_splits)
    with Inl assms ids show thesis by (intro unbound [of e]) (simp_all add: broker_request_def Let_def)
  next
    case (Inr c)
    then have "c = ?card" by (simp add: check_outbox_draft_def split: if_splits)
    with assms ids Inr out have "r = chain out (approval_answer b)" "w' = w\<lparr>tw_db := db\<rparr>"
      by (auto simp: broker_request_def Let_def on_db_def split: sum.splits)
    with out ids show thesis by (intro asked [of task out ?card]) simp_all
  qed
qed (use assms in \<open>auto intro: unbound simp: broker_request_def split: option.splits\<close>)

lemma broker_request_store: "store_step (tw_db w) (tw_db (snd (broker_request b d call cx w)))"
proof -
  obtain r w' where r: "broker_request b d call cx w = (r, w')" by fastforce
  then show ?thesis
  proof (cases rule: broker_request_cases)
    case (asked task out draft)
    have "rt_step (ab_clock_ms b w) (OpRequestApproval (ab_cipher b) (ab_outbox_id b w)
        (approval_request_of b d call cx task (ab_clock_ms b w)) draft) (tw_db w) = tw_db w'"
      using asked(4) by simp
    with r show ?thesis using store_step_op [of "OpRequestApproval (ab_cipher b) (ab_outbox_id b w)
        (approval_request_of b d call cx task (ab_clock_ms b w)) draft" "tw_db w" "ab_clock_ms b w"] by simp
  qed (use r in simp)
qed

text \<open>The recorded request of a call, whatever its state.\<close>

definition approval_of_call ::
  "('b, 'e) approval_broker \<Rightarrow> tool_definition \<Rightarrow> tool_call \<Rightarrow> tool_context \<Rightarrow> approval_row \<Rightarrow> bool" where
  "approval_of_call b d call cx a \<longleftrightarrow> ap_approval_id a = call_approval_id b d call cx \<and> Some (ap_task_id a) = cx_task_id cx \<and>
     ap_run_id a = cx_run_id cx \<and> ap_actor_id a = cx_actor_id cx \<and> ap_tool_id a = td_tool_id d \<and>
     ap_argument_digest a = argument_digest b call"

lemma approval_request_of_sels [simp]:
  "aq_approval_id (approval_request_of b d call cx task now) = call_approval_id b d call cx"
  "aq_task_id (approval_request_of b d call cx task now) = task"
  "aq_run_id (approval_request_of b d call cx task now) = cx_run_id cx"
  "aq_actor_id (approval_request_of b d call cx task now) = cx_actor_id cx"
  "aq_tool_id (approval_request_of b d call cx task now) = td_tool_id d"
  "aq_argument_digest (approval_request_of b d call cx task now) = argument_digest b call"
  by (simp_all add: approval_request_of_def)

text \<open>A request that is answered has its row, in the answered state unless it is new or expires now.\<close>

lemma request_approval_answered:
  assumes "request_approval c oid q draft now db = (Inr state, db')"
  shows "\<exists>a \<in> set (db_approvals db'). ap_approval_id a = aq_approval_id q \<and> ap_task_id a = aq_task_id q \<and> ap_run_id a = aq_run_id q \<and>
      ap_actor_id a = aq_actor_id q \<and> ap_tool_id a = aq_tool_id q \<and> ap_argument_digest a = aq_argument_digest q \<and> ap_state a = state \<and>
      (state = ''approved'' \<longrightarrow> a \<in> set (db_approvals db))"
proof -
  have tx: "request_approval_tx c oid q draft now db = Inr (state, db')"
    using assms unfolding request_approval_def by (rule transaction_InrD)
  show ?thesis
  proof (cases "find_approval (aq_approval_id q) db")
    case None
    then have "insert_outbox c oid draft (aq_task_id q) now (db\<lparr>db_approvals := db_approvals db @ [new_approval q now]\<rparr>) = Inr db'"
      "state = ''pending''" using tx by (auto simp: request_approval_tx_def split: if_splits sum.splits)
    with insert_outbox_frame(6) [OF this(1)] show ?thesis by (auto simp: new_approval_def)
  next
    case (Some a)
    note a = find_approval_Some [OF Some]
    show ?thesis
    proof (cases "ap_state a = ''pending'' \<and> ap_expires_at_ms a \<le> now")
      case True
      with tx Some have "state = ''expired''" "db' = settle_approval (aq_approval_id q) ''expired'' now db"
        "(ap_task_id a, ap_run_id a, ap_actor_id a, ap_tool_id a, ap_argument_digest a)
              = (aq_task_id q, aq_run_id q, aq_actor_id q, aq_tool_id q, aq_argument_digest q)"
        by (auto simp: request_approval_tx_def split: if_splits)
      with a True show ?thesis
        by (intro bexI [of _ "a\<lparr>ap_state := ''expired'', ap_decided_at_ms := Some now\<rparr>"])
          (auto simp: settle_approval_eq settles_def table_simps)
    next
      case False
      with tx Some a show ?thesis by (auto simp: request_approval_tx_def split: if_splits)
    qed
  qed
qed

lemma request_approval_not_deferred:
  "fst (request_approval c oid q draft now db) \<noteq> Inl (TaskDeferred reason delay)"
  by (auto simp: request_approval_def transaction_def request_approval_tx_def insert_outbox_def
      split: option.splits sum.splits)

lemma broker_answered:
  assumes "broker_request b d call cx w = (r, w')" and "r = Inr granted \<or> r = Inl (TaskDeferred reason delay)"
  shows "\<exists>a \<in> set (db_approvals (tw_db w')). approval_of_call b d call cx a \<and>
    (r = Inr True \<longrightarrow> ap_state a = ''approved'' \<and> a \<in> set (db_approvals (tw_db w)))"
  using assms(1)
proof (cases rule: broker_request_cases)
  case (asked task out draft)
  show ?thesis
  proof (cases out)
    case (Inr state)
    with asked(4) have "request_approval (ab_cipher b) (ab_outbox_id b w) (approval_request_of b d call cx task (ab_clock_ms b w)) draft
          (ab_clock_ms b w) (tw_db w) = (Inr state, tw_db w')" by simp
    from request_approval_answered [OF this] asked(1,3) Inr show ?thesis
      by (auto simp: approval_of_call_def approval_answer_def split: if_splits)
  next
    case (Inl e)
    with asked assms(2) request_approval_not_deferred show ?thesis by (metis chain_simps(1) fst_conv sum.distinct(1))
  qed
next
  case (unbound e)
  with assms(2) show ?thesis by auto
qed

lemma screened_by_broker:
  assumes "te_approvals x = broker_request b" "te_policy x d call cx w = (Inr decision, w1)" "pd_approval_required decision"
  shows "snd (screen_call x d call cx w) \<in> {w1, snd (broker_request b d call cx w1)}"
    "fst (screen_call x d call cx w) = Inr True \<Longrightarrow> fst (broker_request b d call cx w1) = Inr True"
  using assms by (auto simp: screen_call_def split: if_splits)

text \<open>
  In the history of the store this very call was asked for - this run, requester and task, this tool, and arguments whose
  canonical JSON has the digest of the request - and its requester then approved that request before it expired.
\<close>

definition approved_in ::
  "('b, 'e) approval_broker \<Rightarrow> tool_definition \<Rightarrow> tool_call \<Rightarrow> tool_context \<Rightarrow> (int \<times> 'b rt_op) list \<Rightarrow> bool" where
  "approved_in b d call cx ops \<longleftrightarrow> (\<exists>xs ys t c oid q draft t' c' oid' e ack.
     ops = xs @ (t', OpDecideApproval c' oid' e (aq_approval_id q) (cx_actor_id cx) ''approved'' ack) # ys \<and>
     (t, OpRequestApproval c oid q draft) \<in> set xs \<and>
     aq_run_id q = cx_run_id cx \<and> aq_actor_id q = cx_actor_id cx \<and> Some (aq_task_id q) = cx_task_id cx \<and>
     aq_tool_id q = td_tool_id d \<and> aq_argument_digest q = ab_sha256 b (ab_dumps b (call_arguments call)) \<and>
     ev_tenant_key e = aq_tenant_key q \<and> ev_app_id e = aq_app_id q \<and> t' < aq_expires_at_ms q)"

lemma approved_inD:
  assumes "approved_in b d call cx ops"
  shows "\<exists>(t, op) \<in> set ops. \<exists>c oid q draft. op = OpRequestApproval c oid q draft \<and>
    aq_argument_digest q = ab_sha256 b (ab_dumps b (call_arguments call))"
  using assms unfolding approved_in_def by (elim exE conjE) (rule_tac x = "(t, OpRequestApproval c oid q draft)" in bexI, auto)

lemma broker_needs_approval:
  assumes "broker_request b d call cx w = (Inr True, w')" "timely rt_legal t0 ops" "tw_db w = timed_run rt_step ops empty_db"
  shows "approved_in b d call cx ops"
proof -
  obtain a where a: "approval_of_call b d call cx a" "ap_state a = ''approved''" "a \<in> set (db_approvals (tw_db w))"
    using broker_answered [OF assms(1)] by auto
  with run_approving [OF assms(2), of a] assms(3) obtain xs x ys y where
    ops: "ops = xs @ x # ys" and x: "approving a x" and y: "y \<in> set xs" "requesting a y" by auto
  obtain t c oid q draft where q: "y = (t, OpRequestApproval c oid q draft)"
    "new_approval q t = a\<lparr>ap_state := ''pending'', ap_decided_at_ms := None\<rparr>" using y(2) by (auto simp: requesting_def)
  then have q': "aq_approval_id q = ap_approval_id a" "aq_run_id q = ap_run_id a" "aq_actor_id q = ap_actor_id a"
    "aq_task_id q = ap_task_id a" "aq_tool_id q = ap_tool_id a" "aq_argument_digest q = ap_argument_digest a"
    "aq_tenant_key q = ap_tenant_key a" "aq_app_id q = ap_app_id a" "aq_expires_at_ms q = ap_expires_at_ms a"
    by (cases a; simp add: new_approval_def)+
  obtain t' c' oid' e ack where d: "x = (t', OpDecideApproval c' oid' e (ap_approval_id a) (ap_actor_id a) ''approved'' ack)"
    "ev_tenant_key e = ap_tenant_key a" "ev_app_id e = ap_app_id a" "t' < ap_expires_at_ms a" using x by (auto simp: approving_def)
  have call: "ap_run_id a = cx_run_id cx" "ap_actor_id a = cx_actor_id cx" "Some (ap_task_id a) = cx_task_id cx"
    "ap_tool_id a = td_tool_id d" "ap_argument_digest a = ab_sha256 b (ab_dumps b (call_arguments call))"
    using a(1) by (simp_all add: approval_of_call_def argument_digest_def)
  show ?thesis
    unfolding approved_in_def
    by (intro exI [of _ xs] exI [of _ ys] exI [of _ t] exI [of _ c] exI [of _ oid] exI [of _ q] exI [of _ draft] exI [of _ t']
        exI [of _ c'] exI [of _ oid'] exI [of _ e] exI [of _ ack]) (use ops y(1) q(1) q' d call in simp)
qed

text \<open>
  C4. A call that needs an approval is executed only after its own requester approved it: where the
  approvals of the executor are the durable broker and the policy asks for an approval, either the call is refused
  with an exception or a failure, and the world is left as the policy or the request of the approval leaves it, so that the
  tool was never reached; or the history of the runtime store has a request for this tool by this requester in this run and
  task whose digest is the SHA-256 of the canonical JSON of exactly these arguments, and after it the requester's decision
  that approves it, before it expired. An approval given for other arguments lets no call through but at a collision of
  SHA-256.
\<close>

theorem unapproved_call_refused:
  assumes "execute_tool x call cx now ticks w = Some (r, w')" and "map_of (te_registry x) (call_tool_id call) = Some t"
    and "te_approvals x = broker_request b" and "te_policy x (st_definition t) call cx w = (Inr decision, w1)"
    and "pd_approval_required decision" and "timely rt_legal t0 ops" and "tw_db w1 = timed_run rt_step ops empty_db"
  shows "refused_call call (call_effect x call) r \<and> w' \<in> {w, w1, snd (broker_request b (st_definition t) call cx w1)} \<or>
    approved_in b (st_definition t) call cx ops"
  using assms(1)
proof (cases rule: execute_tool_cases)
  case refused
  with screened_by_broker(1) [OF assms(3-5)] assms(2) show ?thesis by auto
next
  case (admitted t')
  with assms(2) have "fst (screen_call x (st_definition t) call cx w) = Inr True" by simp
  from screened_by_broker(2) [OF assms(3-5) this]
  obtain v where "broker_request b (st_definition t) call cx w1 = (Inr True, v)" by (metis prod.collapse)
  from broker_needs_approval [OF this assms(6,7)] show ?thesis ..
qed

section \<open>The answer reaches the call\<close>

lemma run_approvals_ok: "approvals_ok db \<Longrightarrow> approvals_ok (timed_run rt_step ops db)"
proof (induction ops arbitrary: db)
  case (Cons x ops)
  then show ?case by (cases x) (simp add: step_approvals_ok)
qed simp

lemma approval_of_call_update [simp]:
  "approval_of_call b d call cx (a\<lparr>ap_state := s, ap_decided_at_ms := m\<rparr>) = approval_of_call b d call cx a"
  by (simp add: approval_of_call_def)

lemma run_approval_of_call:
  assumes "\<exists>a \<in> set (db_approvals db). approval_of_call b d call cx a"
  shows "\<exists>a \<in> set (db_approvals (timed_run rt_step ops db)). approval_of_call b d call cx a"
  using assms
proof (induction ops arbitrary: db)
  case (Cons x ops)
  obtain t op where x: "x = (t, op)" by (cases x)
  have keep: "\<exists>a \<in> set (settles i s t (db_approvals db)). approval_of_call b d call cx a" for i s
  proof -
    obtain a where a: "a \<in> set (db_approvals db)" "approval_of_call b d call cx a" using Cons.prems by blast
    show ?thesis
    proof (cases "ap_approval_id a = i \<and> ap_state a = ''pending''")
      case True
      with a show ?thesis
        by (intro bexI [of _ "a\<lparr>ap_state := s, ap_decided_at_ms := Some t\<rparr>"]) (auto simp: settles_def table_simps)
    next
      case False
      with a show ?thesis by (intro bexI [of _ a]) (auto simp: settles_def table_simps)
    qed
  qed
  have "\<exists>a \<in> set (db_approvals (rt_step t op db)). approval_of_call b d call cx a"
    by (cases rule: step_approval_cases [of t op db]) (use Cons.prems keep in auto)
  from Cons.IH [OF this] x show ?case by simp
qed simp

text \<open>A decision that was taken has its row.\<close>

lemma decide_approval_answered:
  assumes "decide_approval c oid e i actor d ack now db = (Inr answer, db')" "answer \<noteq> ''unauthorized''"
  shows "\<exists>a \<in> set (db_approvals db'). ap_approval_id a = i \<and> ap_state a = answer"
proof -
  have tx: "decide_approval_tx c oid e i actor d ack now db = Inr (answer, db')"
    using assms(1) by (auto simp: decide_approval_def raise_def transaction_def split: if_splits sum.splits)
  then show ?thesis
  proof (cases rule: decide_approval_tx_cases)
    case (again a)
    with find_approval_Some [OF again(1)] show ?thesis by auto
  next
    case (decided a pk db1 db2)
    note a = find_approval_Some [OF decided(1)]
    have rows: "db_approvals db' = db_approvals db2" "a \<in> set (db_approvals db1)"
      using insert_outbox_frame(6) [OF decided(5)] insert_event_frame(6) [OF decided(3)] a by simp_all
    have settled: "\<exists>b \<in> set (settles i s now (db_approvals db1)). ap_approval_id b = i \<and> ap_state b = s"
      if "ap_state a = ''pending''" for s
      using rows(2) a(2) that
      by (intro bexI [of _ "a\<lparr>ap_state := s, ap_decided_at_ms := Some now\<rparr>"]) (auto simp: settles_def table_simps)
    with decided(4) rows a assms(2) show ?thesis
      by (auto simp: approval_verdict_def settle_approval_eq split: if_splits)
  qed
qed

lemma handle_decision_cases:
  assumes "handle_decision s oid raw now db = (Inr answer, db')" "parse_callback raw = Inr k"
  shows "\<exists>e. decide_approval (ds_cipher s) oid e (cbk_approval_id k) (cbk_actor_id k) (cbk_decision k)
      (decision_acknowledgement s k) now db = (Inr answer, db')"
  using assms by (auto simp: handle_decision_def split: sum.splits)

text \<open>
  C11. The answer of the requester reaches the waiting call: after a call was deferred because its approval is
  pending, and the decision service has answered the callback of its card, whatever runs on the store before
  and after, the next request for the same call does not wait and grants exactly when the answer was approved.
\<close>

theorem decision_answers_call:
  assumes "approvals_ok (tw_db w0)" and "broker_request b d call cx w0 = (Inl (TaskDeferred reason delay), w1)"
    and "handle_decision s oid raw now (timed_run rt_step ops (tw_db w1)) = (Inr answer, db)"
    and "parse_callback raw = Inr k" and "cbk_approval_id k = call_approval_id b d call cx"
    and "answer \<in> {''approved'', ''rejected'', ''expired''}" and "tw_db w2 = timed_run rt_step ops' db"
  shows "broker_request b d call cx w2 = (Inr (answer = ''approved''), w2)"
proof -
  obtain e where dec: "decide_approval (ds_cipher s) oid e (cbk_approval_id k) (cbk_actor_id k) (cbk_decision k)
      (decision_acknowledgement s k) now (timed_run rt_step ops (tw_db w1)) = (Inr answer, db)"
    using handle_decision_cases [OF assms(3,4)] by blast
  obtain ops0 where w1: "tw_db w1 = timed_run rt_step ops0 (tw_db w0)"
    using broker_request_store [of w0 b d call cx] assms(2) by (auto simp: store_step_def)
  have run: "tw_db w2 = timed_run rt_step (ops @ (now, OpDecideApproval (ds_cipher s) oid e (cbk_approval_id k) (cbk_actor_id k)
      (cbk_decision k) (decision_acknowledgement s k)) # ops') (tw_db w1)"
    using dec assms(7) by (simp add: timed_run_append)
  obtain a where a: "a \<in> set (db_approvals (tw_db w2))" "approval_of_call b d call cx a"
    using broker_answered [OF assms(2), of undefined reason delay] run_approval_of_call [of "tw_db w1" b d call cx] run
    by (metis (no_types, lifting))
  obtain x where "x \<in> set (db_approvals db)" "ap_approval_id x = call_approval_id b d call cx" "ap_state x = answer"
    using decide_approval_answered [OF dec] assms(5,6) by auto
  then have x: "x \<in> set (db_approvals (tw_db w2))" using run_settled [of x db ops'] assms(6,7) by auto
  have ok: "approvals_ok (tw_db w2)" using run_approvals_ok [OF assms(1)] run w1 by (metis timed_run_append)
  then have d: "distinct (map ap_approval_id (db_approvals (tw_db w2)))" by (simp add: approvals_ok_def)
  have "x = a" using key_unique [OF d x a(1)] a(2) \<open>ap_approval_id x = _\<close> by (simp add: approval_of_call_def)
  have found: "find_approval (call_approval_id b d call cx) (tw_db w2) = Some a"
  proof (cases "find_approval (call_approval_id b d call cx) (tw_db w2)")
    case None
    then show ?thesis using a by (auto simp: find_approval_def find_None_iff approval_of_call_def)
  next
    case (Some y)
    from key_unique [OF d find_approval_Some(1) [OF Some] a(1)] find_approval_Some(2) [OF Some] a(2) Some show ?thesis
      by (simp add: approval_of_call_def)
  qed
  show ?thesis
  proof (cases "check_outbox_draft (approval_card (ab_texts b) d cx (call_approval_id b d call cx) (ab_clock_ms b w2 + ab_ttl_ms b))")
    case Inl
    with assms(2) show ?thesis
      by (auto simp: broker_request_def Let_def check_outbox_draft_def approval_card_def split: option.splits if_splits)
  next
    case (Inr draft)
    have "request_approval (ab_cipher b) (ab_outbox_id b w2) (approval_request_of b d call cx (ap_task_id a) (ab_clock_ms b w2)) draft
        (ab_clock_ms b w2) (tw_db w2) = (Inr answer, tw_db w2)"
      using found a(2) assms(6) \<open>x = a\<close> \<open>ap_state x = answer\<close>
      by (auto simp: request_approval_def transaction_def request_approval_tx_def approval_of_call_def)
    with assms(2,6) Inr a(2) show ?thesis
      by (auto simp: broker_request_def Let_def on_db_def approval_answer_def approval_of_call_def split: option.splits)
  qed
qed

section \<open>A concrete approval\<close>

definition sample_dumps :: "payload \<Rightarrow> string" where
  "sample_dumps p = concat (map (\<lambda>(k, v). k @ ''='' @ py_str v @ '';'') p)"

definition sample_texts :: approval_texts where
  "sample_texts = \<lparr>at_title = ''confirm'', at_body = (\<lambda>tool. tool), at_confirm = ''yes'', at_decline = ''no'',
     at_note = (\<lambda>_. ''expires''), at_answer = (\<lambda>r. r)\<rparr>"

definition sample_broker :: "(string \<times> json, nat) approval_broker" where
  "sample_broker = \<lparr>ab_cipher = plain_cipher, ab_ttl_ms = 900000, ab_poll_delay_ms = 2000, ab_clock_ms = (\<lambda>_. 20),
     ab_outbox_id = (\<lambda>_. ''o6''), ab_texts = sample_texts, ab_dumps = sample_dumps, ab_sha256 = (\<lambda>m. m)\<rparr>"

definition sample_service :: "(string \<times> json) decision_service" where
  "sample_service = \<lparr>ds_cipher = plain_cipher, ds_app_id = ''a'', ds_texts = sample_texts, ds_dumps = (\<lambda>_. ''raw'')\<rparr>"

definition bound_context :: tool_context where
  "bound_context = sample_context\<lparr>cx_task_id := Some ''t1'', cx_chat_id := Some ''chat'', cx_source_message_id := Some ''m''\<rparr>"

definition sample_approval_id :: string where
  "sample_approval_id = call_approval_id sample_broker (st_definition counting_tool) (sample_call ''c1'') bound_context"

definition sample_callback :: payload where
  "sample_callback = [(''header'', JObj [(''event_id'', JStr ''e9'')]), (''event'', JObj [
     (''action'', JObj [(''value'', JObj [(''approval_id'', JStr sample_approval_id), (''decision'', JStr ''approved'')])]),
     (''operator'', JObj [(''open_id'', JStr ''u''), (''tenant_key'', JStr ''t'')]),
     (''context'', JObj [(''open_message_id'', JStr ''m''), (''open_chat_id'', JStr ''chat'')])])]"

definition admitted_world :: "(string \<times> json, nat) tool_world" where
  "admitted_world = sample_world\<lparr>tw_db := timed_run rt_step [(10, sample_admit)] empty_db\<rparr>"

definition asking_executor :: "(string \<times> json, nat) tool_executor" where
  "asking_executor = sample_executor\<lparr>te_policy := (\<lambda>_ _ _ w. (Inr \<lparr>pd_allowed = True, pd_reason = [],
     pd_approval_required = True\<rparr>, w)), te_approvals := broker_request sample_broker\<rparr>"

text \<open>The requester has approved the deletion of one document; the call wants to delete another.\<close>

definition doc_call :: "string \<Rightarrow> tool_call" where
  "doc_call doc = (sample_call ''c1'')\<lparr>call_arguments := [(''doc'', JStr doc)]\<rparr>"

definition doc_request :: approval_request where
  "doc_request = approval_request_of sample_broker (st_definition counting_tool) (doc_call ''d1'') bound_context ''t1'' 20"

definition doc_history :: "(int \<times> (string \<times> json) rt_op) list" where
  "doc_history = [(10, sample_admit), (20, OpRequestApproval plain_cipher ''o6'' doc_request (sample_draft ''k6'')),
     (30, OpDecideApproval plain_cipher ''o8'' ((sample_event ''e9'')\<lparr>ev_tenant_key := ''t'', ev_app_id := ''a''\<rparr>)
        (aq_approval_id doc_request) ''u'' ''approved'' (\<lambda>_. sample_draft ''k8''))]"

definition doc_world :: "(string \<times> json, nat) tool_world" where
  "doc_world = sample_world\<lparr>tw_db := timed_run rt_step doc_history empty_db\<rparr>"

lemma other_document_unapproved:
  "\<not> approved_in sample_broker (st_definition counting_tool) (doc_call ''d2'') bound_context doc_history"
  by (auto dest!: approved_inD simp: doc_history_def sample_admit_def doc_request_def approval_request_of_def argument_digest_def
      sample_broker_def sample_dumps_def doc_call_def sample_call_def)

lemma unapproved_call_refused_witness:
  "\<exists>r w'. execute_tool asking_executor (doc_call ''d1'') bound_context 40 sample_ticks doc_world = Some (Inr r, w') \<and>
     tr_error_code r = None \<and> approved_in sample_broker (st_definition counting_tool) (doc_call ''d1'') bound_context doc_history \<and>
   (\<exists>v. execute_tool asking_executor (doc_call ''d2'') bound_context 40 sample_ticks doc_world =
     Some (Inl (TaskDeferred ''approval_pending'' 2000), v) \<and> tw_env v = 0)"
proof -
  let ?run = "\<lambda>doc. execute_tool asking_executor (doc_call doc) bound_context 40 sample_ticks doc_world"
  have "case ?run ''d1'' of Some (Inr r, w') \<Rightarrow> tr_error_code r = None | _ \<Rightarrow> False" by code_simp
  then obtain r w' where 1: "?run ''d1'' = Some (Inr r, w')" "tr_error_code r = None"
    by (auto split: option.splits prod.splits sum.splits)
  have "case ?run ''d2'' of Some (Inl e, v) \<Rightarrow> e = TaskDeferred ''approval_pending'' 2000 | _ \<Rightarrow> False" by code_simp
  then obtain v where 2: "?run ''d2'' = Some (Inl (TaskDeferred ''approval_pending'' 2000), v)"
    by (auto split: option.splits prod.splits sum.splits)
  have t: "map_of (te_registry asking_executor) (call_tool_id (doc_call doc)) = Some counting_tool"
    "te_approvals asking_executor = broker_request sample_broker"
    "te_policy asking_executor (st_definition counting_tool) (doc_call doc) bound_context doc_world =
      (Inr \<lparr>pd_allowed = True, pd_reason = [], pd_approval_required = True\<rparr>, doc_world)" for doc
    by (simp_all add: asking_executor_def sample_executor_def doc_call_def sample_call_def)
  have timely: "timely rt_legal 0 doc_history" by code_simp
  have db: "tw_db doc_world = timed_run rt_step doc_history empty_db" by (simp add: doc_world_def)
  have allow: "pd_approval_required \<lparr>pd_allowed = True, pd_reason = [], pd_approval_required = True\<rparr>" by simp
  note C = unapproved_call_refused [OF _ t allow timely db]
  from C [OF 1(1)] 1(2) have approved: "approved_in sample_broker (st_definition counting_tool) (doc_call ''d1'') bound_context doc_history"
    by (auto simp: refused_call_def tool_failure_def)
  from C [OF 2] other_document_unapproved
  have "v \<in> {doc_world, doc_world, snd (broker_request sample_broker (st_definition counting_tool) (doc_call ''d2'') bound_context doc_world)}"
    by blast
  moreover have "tw_env (snd (broker_request sample_broker (st_definition counting_tool) (doc_call ''d2'') bound_context doc_world)) = 0"
    by code_simp
  ultimately have "tw_env v = 0" by (auto simp: doc_world_def sample_world_def)
  with 1 2 approved show ?thesis by blast
qed

lemma decision_answers_call_witness:
  "\<exists>w1 db. broker_request sample_broker (st_definition counting_tool) (sample_call ''c1'') bound_context admitted_world =
      (Inl (TaskDeferred ''approval_pending'' 2000), w1) \<and>
     handle_decision sample_service ''o8'' sample_callback 50 (tw_db w1) = (Inr ''approved'', db) \<and>
     fst (broker_request sample_broker (st_definition counting_tool) (sample_call ''c1'') bound_context (w1\<lparr>tw_db := db\<rparr>)) = Inr True"
proof -
  let ?ask = "broker_request sample_broker (st_definition counting_tool) (sample_call ''c1'') bound_context"
  define w1 where "w1 = snd (?ask admitted_world)"
  define db where "db = snd (handle_decision sample_service ''o8'' sample_callback 50 (tw_db (snd (?ask admitted_world))))"
  have "fst (?ask admitted_world) = Inl (TaskDeferred ''approval_pending'' 2000)" by code_simp
  then have 1: "?ask admitted_world = (Inl (TaskDeferred ''approval_pending'' 2000), w1)" by (simp add: w1_def prod_eq_iff)
  have "fst (handle_decision sample_service ''o8'' sample_callback 50 (tw_db (snd (?ask admitted_world)))) = Inr ''approved''"
    by code_simp
  then have 2: "handle_decision sample_service ''o8'' sample_callback 50 (timed_run rt_step [] (tw_db w1)) = (Inr ''approved'', db)"
    by (simp add: w1_def db_def prod_eq_iff)
  have k: "case parse_callback sample_callback of Inr k \<Rightarrow> cbk_approval_id k = sample_approval_id | Inl e \<Rightarrow> False" by code_simp
  then obtain k where k: "parse_callback sample_callback = Inr k" "cbk_approval_id k = sample_approval_id"
    by (auto split: sum.splits)
  have "approvals_ok (tw_db admitted_world)"
    unfolding admitted_world_def using run_approvals_ok [OF runtime_okD(6) [OF runtime_ok_empty], of "[(10, sample_admit)]"] by simp
  from decision_answers_call [OF this 1 2 k(1), of "w1\<lparr>tw_db := db\<rparr>" "[]"] k(2)
  have "?ask (w1\<lparr>tw_db := db\<rparr>) = (Inr True, w1\<lparr>tw_db := db\<rparr>)" by (simp add: sample_approval_id_def)
  with 1 2 show ?thesis by simp
qed

end
