(* ===== verification/Harness.thy ===== *)
theory Harness
  imports ToolExecutor RuntimeSystem ContextEngine
begin

text \<open>
  \<open>AgentHarness\<close> of \<open>runtime/harness.py\<close>: the run loop of one agent. A run alternates between the model
  and its tools until the model answers without calling a tool; every turn reads the controls of the
  requester, and ends with a checkpoint. The model provider is a protocol; sessions and controls are
  those of the durable stores.
\<close>

section \<open>Programs with awaits\<close>

text \<open>
  A coroutine as a function of its state. \<open>None\<close> is a coroutine that has not come to its end: it waits,
  or its process has died.
\<close>

type_synonym ('s, 'a) flow = "'s \<Rightarrow> ((exn + 'a) \<times> 's) option"

definition return_with :: "'a \<Rightarrow> ('s, 'a) flow" where
  "return_with a s = Some (Inr a, s)"

definition raising :: "exn \<Rightarrow> ('s, 'a) flow" where
  "raising e s = Some (Inl e, s)"

definition and_then :: "('s, 'a) flow \<Rightarrow> ('a \<Rightarrow> ('s, 'c) flow) \<Rightarrow> ('s, 'c) flow" where
  "and_then m f s = (case m s of None \<Rightarrow> None
     | Some (Inl e, s1) \<Rightarrow> Some (Inl e, s1) | Some (Inr a, s1) \<Rightarrow> f a s1)"

definition modify :: "('s \<Rightarrow> 's) \<Rightarrow> ('s, unit) flow" where
  "modify f s = Some (Inr (), f s)"

fun for_each :: "('x \<Rightarrow> ('s, unit) flow) \<Rightarrow> 'x list \<Rightarrow> ('s, unit) flow" where
  "for_each f [] = return_with ()"
| "for_each f (y # ys) = and_then (f y) (\<lambda>_. for_each f ys)"

fun collect :: "('x \<Rightarrow> ('s, 'a) flow) \<Rightarrow> 'x list \<Rightarrow> ('s, 'a list) flow" where
  "collect f [] = return_with []"
| "collect f (y # ys) = and_then (f y) (\<lambda>a. and_then (collect f ys) (\<lambda>as. return_with (a # as)))"

section \<open>The harness and a run\<close>

record harness_request =
  hq_run_id :: string
  hq_task_id :: string
  hq_node_id :: string
  hq_user_request :: string
  hq_tool_context :: tool_context
  hq_evidence :: "context_evidence list"

text \<open>
  \<open>hn_provider\<close> is the provider identity and its concurrency when a capacity gate is given, \<open>hn_dumps\<close> the
  JSON rendering of a tool observation and \<open>hn_fingerprint\<close> the hash of the rendered tool schemas.
\<close>

record ('b, 'e) agent_harness =
  hn_cipher :: "'b cipher"
  hn_model :: "model_request \<Rightarrow> ('e, model_response) eff"
  hn_tools :: "('b, 'e) tool_registry"
  hn_executor :: "('b, 'e) tool_executor"
  hn_resources :: resource_loader
  hn_has_controls :: bool
  hn_provider :: "(string \<times> int) option"
  hn_dumps :: "payload \<Rightarrow> string"
  hn_fingerprint :: "tool_definition list \<Rightarrow> string"

definition check_harness :: "('b, 'e) agent_harness \<Rightarrow> exn + ('b, 'e) agent_harness" where
  "check_harness h = (case hn_provider h of
     Some (i, n) \<Rightarrow> if n < 1 then Inl (ValueError ''model provider concurrency must be positive'') else Inr h
   | None \<Rightarrow> Inr h)"

text \<open>
  What happens while a run awaits: the operations of other clients on the runtime store, what becomes
  of the agent store, of the gate and of the rest of the process, and a cancellation of the token. For
  a wait on the wall clock also its readings before and after, whether the timeout strikes, and the time
  and schedule of a tool call.
\<close>

record ('b, 'e) moment =
  mo_ops :: "(int \<times> 'b rt_op) list"
  mo_agents :: "'b ag_db \<Rightarrow> 'b ag_db"
  mo_gate :: "capacity_gate \<Rightarrow> capacity_gate"
  mo_env :: "'e \<Rightarrow> 'e"
  mo_cancel :: "string option"
  mo_start_ns :: int
  mo_end_ns :: int
  mo_timeout :: bool
  mo_now :: int
  mo_ticks :: "op_tick list"

text \<open>
  The variables of \<open>run\<close> with its token and its wall clock, the world, the moments to come, and (for the
  statements of theorems only) the results of all the tool calls so far.
\<close>

record ('b, 'e) harness_run =
  hr_world :: "('b, 'e) tool_world"
  hr_moments :: "('b, 'e) moment list"
  hr_turn :: int
  hr_journal :: "model_message list"
  hr_verified :: "verification_record list"
  hr_unresolved :: "string list"
  hr_nonpersistable :: "string list"
  hr_ledger :: budget_ledger
  hr_applied :: "string list"
  hr_pending :: "string list"
  hr_cancelled :: "string option"
  hr_last_ns :: int
  hr_remainder_ns :: int
  hr_results :: "tool_result list"

text \<open>\<open>CancellationToken.cancel\<close>: the first reason stays.\<close>

definition cancel_token :: "string \<Rightarrow> ('b, 'e) harness_run \<Rightarrow> ('b, 'e) harness_run" where
  "cancel_token reason s = (if hr_cancelled s = None then s\<lparr>hr_cancelled := Some reason\<rparr> else s)"

definition others_act :: "('b, 'e) moment \<Rightarrow> ('b, 'e) tool_world \<Rightarrow> ('b, 'e) tool_world" where
  "others_act m w = \<lparr>tw_db = timed_run rt_step (mo_ops m) (tw_db w), tw_agents = mo_agents m (tw_agents w),
     tw_gate = mo_gate m (tw_gate w), tw_env = mo_env m (tw_env w)\<rparr>"

definition pass_moment :: "('b, 'e) moment \<Rightarrow> ('b, 'e) harness_run \<Rightarrow> ('b, 'e) harness_run" where
  "pass_moment m s = (let s1 = s\<lparr>hr_world := others_act m (hr_world s)\<rparr> in
     case mo_cancel m of None \<Rightarrow> s1 | Some reason \<Rightarrow> cancel_token reason s1)"

definition next_moment :: "(('b, 'e) harness_run, ('b, 'e) moment) flow" where
  "next_moment s = (case hr_moments s of [] \<Rightarrow> None
     | m # ms \<Rightarrow> Some (Inr m, s\<lparr>hr_moments := ms\<rparr>))"

text \<open>A call of the session store or the control inbox.\<close>

definition on_sessions :: "('b rt_db, 'a) eff \<Rightarrow> (('b, 'e) harness_run, 'a) flow" where
  "on_sessions f = and_then next_moment (\<lambda>m s. let s1 = pass_moment m s in
     case f (tw_db (hr_world s1)) of (r, db) \<Rightarrow> Some (r, s1\<lparr>hr_world := (hr_world s1)\<lparr>tw_db := db\<rparr>\<rparr>))"

definition run_event_flow ::
  "('b, 'e) agent_harness \<Rightarrow> harness_request \<Rightarrow> int \<Rightarrow> string \<Rightarrow> payload \<Rightarrow> (('b, 'e) harness_run, unit) flow" where
  "run_event_flow h q now ty p = and_then (on_sessions (append_event (hn_cipher h) (hq_run_id q) ty p now))
     (\<lambda>_. return_with ())"

section \<open>Budgets and wall time\<close>

definition consume_if_limited :: "budget_kind \<Rightarrow> int \<Rightarrow> (('b, 'e) harness_run, unit) flow" where
  "consume_if_limited kind amount s = (if ledger_limits (hr_ledger s) kind = None then Some (Inr (), s)
     else (case consume kind amount False (hr_ledger s) of
        Inl e \<Rightarrow> Some (Inl e, s) | Inr l \<Rightarrow> Some (Inr (), s\<lparr>hr_ledger := l\<rparr>)))"

definition wall_exceeded :: exn where
  "wall_exceeded = WallTimeBudgetExceeded ''wall_time_ms budget exceeded''"

text \<open>\<open>_ActiveWallTime\<close>\<close>

definition charge_wall_time :: "int \<Rightarrow> (('b, 'e) harness_run, unit) flow" where
  "charge_wall_time now_ns s =
     (let total = hr_remainder_ns s + max 0 (now_ns - hr_last_ns s); ms = total div 1000000;
          s1 = s\<lparr>hr_last_ns := now_ns, hr_remainder_ns := total mod 1000000\<rparr> in
      if ms \<noteq> 0 \<and> ledger_limits (hr_ledger s) WALL_TIME_MS \<noteq> None
      then (case consume WALL_TIME_MS ms False (hr_ledger s) of
          Inl e \<Rightarrow> Some (Inl wall_exceeded, s1)
        | Inr l \<Rightarrow> Some (Inr (), s1\<lparr>hr_ledger := l\<rparr>))
      else Some (Inr (), s1))"

text \<open>A timeout error of the awaited call itself is taken for the timeout, too.\<close>

definition timeout_as_exceeded :: "exn + 'a \<Rightarrow> exn + 'a" where
  "timeout_as_exceeded r = (case r of Inl (TimeoutError m) \<Rightarrow> Inl wall_exceeded | _ \<Rightarrow> r)"

text \<open>The awaited call; when the timeout strikes, what the call has done by then is part of the moment.\<close>

definition wait_for ::
  "(('b, 'e) moment \<Rightarrow> (('b, 'e) tool_world, 'a) flow) \<Rightarrow> (('b, 'e) harness_run, 'a) flow" where
  "wait_for call = and_then next_moment (\<lambda>m. and_then (charge_wall_time (mo_start_ns m)) (\<lambda>_ s.
     let s1 = pass_moment m s; called = map_option (\<lambda>(r, w). (r, s1\<lparr>hr_world := w\<rparr>)) (call m (hr_world s1)) in
     if ledger_limits (hr_ledger s) WALL_TIME_MS = None then called
     else if available (hr_ledger s) WALL_TIME_MS \<le> 0 then Some (Inl wall_exceeded, s)
     else (case (if mo_timeout m then Some (Inl (TimeoutError []), s1) else called) of None \<Rightarrow> None
        | Some (r, s2) \<Rightarrow> and_then (charge_wall_time (mo_end_ns m))
            (\<lambda>_ s3. Some (timeout_as_exceeded r, s3)) s2)))"

text \<open>The model provider acts on the rest of the process.\<close>

definition on_env :: "('e, 'a) eff \<Rightarrow> (('b, 'e) tool_world, 'a) eff" where
  "on_env f w = (case f (tw_env w) of (r, env) \<Rightarrow> (r, w\<lparr>tw_env := env\<rparr>))"

text \<open>
  \<open>_complete_model\<close>: with a capacity gate the call waits for a permit of its provider. A permit that is
  not granted at once may be granted by what the other clients of the gate do.
\<close>

definition complete_model ::
  "('b, 'e) agent_harness \<Rightarrow> model_request \<Rightarrow> tool_context \<Rightarrow> ('b, 'e) moment \<Rightarrow> (('b, 'e) tool_world, model_response) flow" where
  "complete_model h mq cx m w = (let call = on_env (hn_model h mq) in case hn_provider h of
     None \<Rightarrow> Some (call w)
   | Some (provider, n) \<Rightarrow> (let rid = ''provider:'' @ provider in case check_capacity_lane (tool_lane cx) of
       Inl e \<Rightarrow> Some (Inl e, w)
     | Inr lane \<Rightarrow> (case enter_queue rid lane n (tw_gate w) of
         Inl e \<Rightarrow> Some (Inl e, w)
       | Inr (g, f) \<Rightarrow> (let g1 = (if f \<in> set (cg_done g) then g else mo_gate m g) in
           if f \<notin> set (cg_done g1) then None
           else (case call (w\<lparr>tw_gate := g1\<rparr>) of (r, w1) \<Rightarrow> (case release_permit rid (tw_gate w1) of
               Inl e \<Rightarrow> Some (Inl e, w1) | Inr g2 \<Rightarrow> Some (r, w1\<lparr>tw_gate := g2\<rparr>)))))))"

section \<open>Controls\<close>

definition raise_if_cancelled :: "(('b, 'e) harness_run, unit) flow" where
  "raise_if_cancelled s = (case hr_cancelled s of None \<Rightarrow> Some (Inr (), s)
     | Some reason \<Rightarrow> Some (Inl (CancelledByPolicyError (if reason = [] then ''cancelled'' else reason)), s))"

definition apply_control :: "run_control \<Rightarrow> ('b, 'e) harness_run \<Rightarrow> ('b, 'e) harness_run" where
  "apply_control k s =
     (if List.member (hr_applied s) (ct_control_id k)
      then (if List.member (hr_pending s) (ct_control_id k) then s
            else s\<lparr>hr_pending := hr_pending s @ [ct_control_id k]\<rparr>)
      else (let s1 = s\<lparr>hr_applied := hr_applied s @ [ct_control_id k], hr_pending := hr_pending s @ [ct_control_id k]\<rparr> in
        case ct_kind k of
          CANCEL \<Rightarrow> cancel_token ''Cancelled by the originating requester.'' s1
        | INTERRUPT \<Rightarrow> cancel_token ''Interrupted by the originating requester.'' s1
        | kind \<Rightarrow> s1\<lparr>hr_journal := hr_journal s1 @ [plain_message USER
            ((if kind = STEER then ''Steering update'' else ''Follow-up'') @ '' from the originating requester:'' @
             [line_feed] @ ct_text k) False]\<rparr>))"

definition apply_pending ::
  "('b, 'e) agent_harness \<Rightarrow> harness_request \<Rightarrow> (('b, 'e) harness_run, unit) flow" where
  "apply_pending h q = (if hn_has_controls h
     then and_then (on_sessions (\<lambda>db. (pending_controls (hn_cipher h) (hq_task_id q) db, db)))
       (\<lambda>ks. modify (fold apply_control ks))
     else return_with ())"

text \<open>\<open>dict.fromkeys\<close> keeps the first occurrence.\<close>

definition acknowledge_pending ::
  "('b, 'e) agent_harness \<Rightarrow> harness_request \<Rightarrow> int \<Rightarrow> (('b, 'e) harness_run, unit) flow" where
  "acknowledge_pending h q now s = (if hn_has_controls h \<and> hr_pending s \<noteq> []
     then on_sessions (acknowledge_controls (hq_task_id q) (rev (remdups (rev (hr_pending s)))) now) s
     else Some (Inr (), s))"

section \<open>A turn\<close>

definition build_flow ::
  "agent_definition \<Rightarrow> loaded_resources \<Rightarrow> harness_request \<Rightarrow> (('b, 'e) harness_run, context_build) flow" where
  "build_flow d loaded q s =
     map_option (\<lambda>r. (r, s)) (build_context d loaded (hq_user_request q) (hq_evidence q) (hr_journal s))"

definition model_request_of ::
  "('b, 'e) agent_harness \<Rightarrow> harness_request \<Rightarrow> agent_definition \<Rightarrow> context_build \<Rightarrow> budget_ledger \<Rightarrow> exn + model_request" where
  "model_request_of h q d cb ledger = chain (allowed_definitions (hn_tools h) (ad_tool_ids d)) (\<lambda>tools.
     Inr \<lparr>mq_run_id = hq_run_id q, mq_node_id = hq_node_id q, mq_model_profile = ad_model_profile d,
          mq_messages = cb_messages cb, mq_tools = tools,
          mq_remaining_budget = map (\<lambda>l. (budget_kind_value (bl_kind l), available ledger (bl_kind l))) (ad_budget_limits d)\<rparr>)"

definition compaction_payload :: "agent_definition \<Rightarrow> context_build \<Rightarrow> payload" where
  "compaction_payload d cb = [(''compactor_version'', JInt (ad_compactor_version d)),
     (''input_message_count'', JInt (int (cb_input_message_count cb))),
     (''output_message_count'', JInt (int (length (cb_messages cb)))),
     (''estimated_tokens'', JInt (cb_estimated_tokens cb))]"

text \<open>From the top of the loop to the answer of the model.\<close>

definition ask_model ::
  "('b, 'e) agent_harness \<Rightarrow> harness_request \<Rightarrow> agent_definition \<Rightarrow> loaded_resources \<Rightarrow> int \<Rightarrow>
     (('b, 'e) harness_run, context_build \<times> model_response) flow" where
  "ask_model h q d loaded now =
     and_then (modify (\<lambda>s. s\<lparr>hr_turn := hr_turn s + 1\<rparr>)) (\<lambda>_.
     and_then (apply_pending h q) (\<lambda>_.
     and_then raise_if_cancelled (\<lambda>_.
     and_then (build_flow d loaded q) (\<lambda>cb.
     and_then (if cb_journal_compacted cb then run_event_flow h q now ''context_compacted'' (compaction_payload d cb)
       else return_with ()) (\<lambda>_.
     and_then (\<lambda>s. Some (model_request_of h q d cb (hr_ledger s), s)) (\<lambda>mq.
     and_then (\<lambda>s. run_event_flow h q now ''turn_started'' [(''turn'', JInt (hr_turn s)),
       (''context_tokens'', JInt (cb_estimated_tokens cb)), (''truncated_sources'', jstrs (cb_truncated_sources cb))] s) (\<lambda>_.
     and_then (wait_for (complete_model h mq (hq_tool_context q))) (\<lambda>response.
     return_with (cb, response)))))))))"

definition assistant_message :: "model_response \<Rightarrow> model_message" where
  "assistant_message r = \<lparr>mm_role = ASSISTANT, mm_content = mr_content r, mm_name = None, mm_tool_call_id = None,
     mm_trusted = False, mm_tool_calls = mr_tool_calls r\<rparr>"

definition completed_payload :: "int \<Rightarrow> model_response \<Rightarrow> payload" where
  "completed_payload turn r = [(''turn'', JInt turn), (''tool_call_count'', JInt (int (length (mr_tool_calls r)))),
     (''provider_response_id'', jopt (mr_provider_response_id r)),
     (''usage'', JObj [(''input_tokens'', JInt (mu_input_tokens (mr_usage r))),
       (''output_tokens'', JInt (mu_output_tokens (mr_usage r))), (''cost_micros'', JInt (mu_cost_micros (mr_usage r)))])]"

text \<open>The answer is charged and recorded, and the controls are read again.\<close>

definition record_response ::
  "('b, 'e) agent_harness \<Rightarrow> harness_request \<Rightarrow> int \<Rightarrow> model_response \<Rightarrow> (('b, 'e) harness_run, unit) flow" where
  "record_response h q now r =
     and_then (consume_if_limited COST_MICROS (mu_cost_micros (mr_usage r))) (\<lambda>_.
     and_then (modify (\<lambda>s. s\<lparr>hr_journal := hr_journal s @ [assistant_message r]\<rparr>)) (\<lambda>_.
     and_then (\<lambda>s. run_event_flow h q now ''model_completed'' (completed_payload (hr_turn s) r) s) (\<lambda>_.
     and_then (apply_pending h q) (\<lambda>_. raise_if_cancelled))))"

subsection \<open>Checkpoints\<close>

definition redacted_observation :: string where
  "redacted_observation = ''{'' @ [CHR 0x22] @ ''observation_redacted_refetch_required'' @ [CHR 0x22] @ '':true}''"

text \<open>\<open>_checkpoint_messages\<close>\<close>

definition redacted_message :: "string list \<Rightarrow> model_message \<Rightarrow> model_message" where
  "redacted_message calls m = (if mm_role m = TOOL \<and> (case mm_tool_call_id m of None \<Rightarrow> False | Some i \<Rightarrow> List.member calls i)
     then m\<lparr>mm_content := redacted_observation\<rparr> else m)"

definition all_budget_kinds :: "budget_kind list" where
  "all_budget_kinds = [TOOL_CALLS, EXTERNAL_WRITES, WALL_TIME_MS, COST_MICROS, AGENT_NODES]"

text \<open>\<open>ledger.consumed\<close> as a dictionary, here in the order of the enumeration.\<close>

definition consumed_budget :: "budget_ledger \<Rightarrow> (string \<times> int) list" where
  "consumed_budget l = concat (map (\<lambda>k. case ledger_consumed l k of None \<Rightarrow> [] | Some n \<Rightarrow> [(budget_kind_value k, n)])
     all_budget_kinds)"

definition turn_checkpoint ::
  "harness_request \<Rightarrow> agent_definition \<Rightarrow> loaded_resources \<Rightarrow> string \<Rightarrow> context_build \<Rightarrow> ('b, 'e) harness_run \<Rightarrow> run_checkpoint" where
  "turn_checkpoint q d loaded fingerprint cb s = \<lparr>ck_run_id = hq_run_id q, ck_agent_id = ad_agent_id d,
     ck_agent_version = ad_version d, ck_resource_versions = lr_versions loaded, ck_next_turn = hr_turn s + 1,
     ck_messages = map (redacted_message (hr_nonpersistable s)) (hr_journal s), ck_verified_effects = hr_verified s,
     ck_blockers = [], ck_source_versions = cb_source_versions cb, ck_consumed_budget = consumed_budget (hr_ledger s),
     ck_compactor_version = ad_compactor_version d, ck_applied_control_ids = sort (remdups (hr_applied s)),
     ck_unresolved_external_effects = hr_unresolved s, ck_policy_version = ad_policy_version d,
     ck_tool_schema_fingerprint = fingerprint\<rparr>"

text \<open>The checkpoint is saved before the controls it contains are acknowledged.\<close>

definition save_turn ::
  "('b, 'e) agent_harness \<Rightarrow> harness_request \<Rightarrow> agent_definition \<Rightarrow> loaded_resources \<Rightarrow> string \<Rightarrow> int \<Rightarrow> context_build \<Rightarrow>
     (('b, 'e) harness_run, unit) flow" where
  "save_turn h q d loaded fingerprint now cb =
     and_then (\<lambda>s. on_sessions (save_checkpoint (hn_cipher h) (turn_checkpoint q d loaded fingerprint cb s) now) s) (\<lambda>_.
     and_then (acknowledge_pending h q now) (\<lambda>_. modify (\<lambda>s. s\<lparr>hr_pending := []\<rparr>)))"

subsection \<open>The last answer\<close>

text \<open>\<open>_outcome\<close>\<close>

definition run_outcome :: "string \<Rightarrow> agent_definition \<Rightarrow> verification_record list \<Rightarrow> string list \<Rightarrow> agent_outcome" where
  "run_outcome content d verified unresolved =
     (let refs = concat (map vr_resource_refs verified) in
      if unresolved \<noteq> []
      then \<lparr>oc_status = FAILED,
        oc_summary = ''The Agent produced a response, but at least one external effect '' @
          ''was not verified. Completion cannot be claimed safely.'',
        oc_resource_refs = refs, oc_warnings = [''external_effect_unverified'']\<rparr>
      else if ad_require_verified_external_effect d \<and> verified = []
      then \<lparr>oc_status = FAILED,
        oc_summary = ''The Agent produced a response but no required external effect was verified.'',
        oc_resource_refs = [], oc_warnings = [''verification_missing'']\<rparr>
      else \<lparr>oc_status = COMPLETED, oc_summary = (if content = [] then ''Completed.'' else content),
        oc_resource_refs = refs, oc_warnings = []\<rparr>)"

definition finish_flow ::
  "('b, 'e) agent_harness \<Rightarrow> harness_request \<Rightarrow> agent_outcome \<Rightarrow> string list \<Rightarrow> int \<Rightarrow> (('b, 'e) harness_run, bool) flow" where
  "finish_flow h q outcome applied now =
     on_sessions (try_finish_with_outcome (hn_cipher h) (hq_run_id q) outcome applied now)"

text \<open>\<open>None\<close> is \<open>continue\<close>: another turn, because controls had to be acknowledged or are waiting.\<close>

definition answer_turn ::
  "('b, 'e) agent_harness \<Rightarrow> harness_request \<Rightarrow> agent_definition \<Rightarrow> loaded_resources \<Rightarrow> string \<Rightarrow> int \<Rightarrow> context_build \<Rightarrow>
     string \<Rightarrow> (('b, 'e) harness_run, agent_outcome option) flow" where
  "answer_turn h q d loaded fingerprint now cb content s =
     (if hr_pending s \<noteq> [] then and_then (save_turn h q d loaded fingerprint now cb) (\<lambda>_. return_with None) s
      else (let outcome = run_outcome content d (hr_verified s) (hr_unresolved s) in
        and_then (finish_flow h q outcome [] now)
          (\<lambda>finished. return_with (if finished then Some outcome else None)) s))"

subsection \<open>Tool calls\<close>

definition request_call ::
  "('b, 'e) agent_harness \<Rightarrow> harness_request \<Rightarrow> int \<Rightarrow> tool_call \<Rightarrow> (('b, 'e) harness_run, unit) flow" where
  "request_call h q now call =
     and_then raise_if_cancelled (\<lambda>_. and_then (consume_if_limited TOOL_CALLS 1) (\<lambda>_.
       run_event_flow h q now ''tool_requested''
         [(''call_id'', JStr (call_call_id call)), (''tool_id'', JStr (call_tool_id call))]))"

text \<open>
  Calls that are safe in parallel are gathered under one wait, the others follow each other. The gathered
  calls only read; here they run in the order of the list, and those that an exception leaves behind are
  part of the moments that follow.
\<close>

definition run_calls ::
  "('b, 'e) agent_harness \<Rightarrow> harness_request \<Rightarrow> tool_call list \<Rightarrow> (('b, 'e) harness_run, tool_result list) flow" where
  "run_calls h q calls =
     (let call_at = (\<lambda>m call. execute_tool (hn_executor h) call (hq_tool_context q) (mo_now m) (mo_ticks m)) in
      case batch_parallel_safe (hn_tools h) calls of
        Inl e \<Rightarrow> raising e
      | Inr together \<Rightarrow> if together then wait_for (\<lambda>m. collect (call_at m) calls)
          else collect (\<lambda>call. wait_for (\<lambda>m. call_at m call)) calls)"

definition observation_payload :: "tool_result \<Rightarrow> payload" where
  "observation_payload r = [(''observation'', JObj (tr_observation r)), (''error_code'', jopt (tr_error_code r)),
     (''verification'', JObj [(''state'', JStr (verification_state_value (vr_state (tr_verification r)))),
       (''summary'', JStr (vr_summary (tr_verification r))), (''resource_refs'', jstrs (vr_resource_refs (tr_verification r)))])]"

definition tool_message :: "('b, 'e) agent_harness \<Rightarrow> tool_result \<Rightarrow> model_message" where
  "tool_message h r = \<lparr>mm_role = TOOL, mm_content = hn_dumps h (observation_payload r), mm_name = Some (tr_tool_id r),
     mm_tool_call_id = Some (tr_call_id r), mm_trusted = False, mm_tool_calls = []\<rparr>"

definition writes_externally :: "tool_result \<Rightarrow> bool" where
  "writes_externally r \<longleftrightarrow> tr_effect r = WRITE \<or> tr_effect r = DESTRUCTIVE"

definition unresolved_label :: "tool_result \<Rightarrow> string" where
  "unresolved_label r = tr_call_id r @ '':'' @ tr_tool_id r @ '':'' @
     (case tr_error_code r of Some (ch # code) \<Rightarrow> ch # code | _ \<Rightarrow> verification_state_value (vr_state (tr_verification r)))"

definition note_result :: "('b, 'e) agent_harness \<Rightarrow> tool_result \<Rightarrow> ('b, 'e) harness_run \<Rightarrow> ('b, 'e) harness_run" where
  "note_result h r s =
     (let s1 = (if vr_state (tr_verification r) = VERIFIED then s\<lparr>hr_verified := hr_verified s @ [tr_verification r]\<rparr>
          else if writes_externally r then s\<lparr>hr_unresolved := hr_unresolved s @ [unresolved_label r]\<rparr> else s) in
      s1\<lparr>hr_nonpersistable := (if tr_checkpoint_safe r then hr_nonpersistable s1 else hr_nonpersistable s1 @ [tr_call_id r]),
         hr_journal := hr_journal s1 @ [tool_message h r]\<rparr>)"

definition result_payload :: "tool_result \<Rightarrow> payload" where
  "result_payload r = [(''call_id'', JStr (tr_call_id r)), (''tool_id'', JStr (tr_tool_id r)),
     (''error_code'', jopt (tr_error_code r)),
     (''verification'', JStr (verification_state_value (vr_state (tr_verification r))))]"

definition record_result ::
  "('b, 'e) agent_harness \<Rightarrow> harness_request \<Rightarrow> int \<Rightarrow> tool_result \<Rightarrow> (('b, 'e) harness_run, unit) flow" where
  "record_result h q now r =
     and_then (if writes_externally r then consume_if_limited EXTERNAL_WRITES 1 else return_with ()) (\<lambda>_.
     and_then (modify (note_result h r)) (\<lambda>_.
       run_event_flow h q now (if tool_succeeded r then ''tool_completed'' else ''tool_failed'') (result_payload r)))"

text \<open>The end of a turn that called tools: controls, checkpoint, acknowledgement.\<close>

definition close_turn ::
  "('b, 'e) agent_harness \<Rightarrow> harness_request \<Rightarrow> agent_definition \<Rightarrow> loaded_resources \<Rightarrow> string \<Rightarrow> int \<Rightarrow> context_build \<Rightarrow>
     (('b, 'e) harness_run, unit) flow" where
  "close_turn h q d loaded fingerprint now cb =
     and_then (apply_pending h q) (\<lambda>_.
     and_then raise_if_cancelled (\<lambda>_.
     and_then (save_turn h q d loaded fingerprint now cb) (\<lambda>_.
     (\<lambda>s. run_event_flow h q now ''checkpoint_saved'' [(''next_turn'', JInt (hr_turn s + 1))] s))))"

definition tools_turn ::
  "('b, 'e) agent_harness \<Rightarrow> harness_request \<Rightarrow> agent_definition \<Rightarrow> loaded_resources \<Rightarrow> string \<Rightarrow> int \<Rightarrow> context_build \<Rightarrow>
     tool_call list \<Rightarrow> (('b, 'e) harness_run, agent_outcome option) flow" where
  "tools_turn h q d loaded fingerprint now cb calls =
     and_then (for_each (request_call h q now) calls) (\<lambda>_.
     and_then (run_calls h q calls) (\<lambda>rs.
     and_then (modify (\<lambda>s. s\<lparr>hr_results := hr_results s @ rs\<rparr>)) (\<lambda>_.
     and_then (for_each (record_result h q now) rs) (\<lambda>_.
     and_then (close_turn h q d loaded fingerprint now cb) (\<lambda>_.
     return_with None)))))"

definition harness_turn ::
  "('b, 'e) agent_harness \<Rightarrow> harness_request \<Rightarrow> agent_definition \<Rightarrow> loaded_resources \<Rightarrow> string \<Rightarrow> int \<Rightarrow>
     (('b, 'e) harness_run, agent_outcome option) flow" where
  "harness_turn h q d loaded fingerprint now =
     and_then (ask_model h q d loaded now) (\<lambda>(cb, r).
     and_then (record_response h q now r) (\<lambda>_.
       if mr_tool_calls r = [] then answer_turn h q d loaded fingerprint now cb (mr_content r)
       else tools_turn h q d loaded fingerprint now cb (mr_tool_calls r)))"

section \<open>A run\<close>

text \<open>The classes of \<open>except (LookupError, ValueError, RuntimeError)\<close>, with the builtin subclasses.\<close>

fun handled_failure :: "exn \<Rightarrow> bool" where
  "handled_failure (OtherError class m) = (class \<in> set [''KeyError'', ''IndexError'', ''UnicodeError'',
     ''UnicodeDecodeError'', ''UnicodeEncodeError'', ''JSONDecodeError'', ''NotImplementedError'', ''RecursionError''])"
| "handled_failure e = (is_lookup_error e \<or> is_value_error e \<or> is_runtime_error e)"

definition failed_run :: "exn \<Rightarrow> string \<Rightarrow> agent_outcome" where
  "failed_run e warning = \<lparr>oc_status = FAILED, oc_summary = exn_message e, oc_resource_refs = [], oc_warnings = [warning]\<rparr>"

text \<open>The \<open>except\<close> clauses, in order; any other exception leaves \<open>run\<close>.\<close>

definition failure_outcome :: "exn \<Rightarrow> agent_outcome option" where
  "failure_outcome e = (case e of
     CancelledByPolicyError reason \<Rightarrow>
       Some \<lparr>oc_status = CANCELLED, oc_summary = reason, oc_resource_refs = [], oc_warnings = []\<rparr>
   | WallTimeBudgetExceeded m \<Rightarrow> Some (failed_run e ''wall_time_budget_exhausted'')
   | _ \<Rightarrow> if handled_failure e then Some (failed_run e (exn_name e)) else None)"

text \<open>A cancelled run applies the controls it has read with its outcome, and acknowledges them.\<close>

definition end_failed ::
  "('b, 'e) agent_harness \<Rightarrow> harness_request \<Rightarrow> int \<Rightarrow> exn \<Rightarrow> (('b, 'e) harness_run, agent_outcome) flow" where
  "end_failed h q now e = (case failure_outcome e of
     None \<Rightarrow> raising e
   | Some outcome \<Rightarrow> (let stopped = (oc_status outcome = CANCELLED) in
       and_then (\<lambda>s. finish_flow h q outcome (if stopped then hr_pending s else []) now s) (\<lambda>_.
       and_then (if stopped then acknowledge_pending h q now else return_with ()) (\<lambda>_. return_with outcome))))"

text \<open>The loop over the turns, each with its moments; with no turns left the run is still under way.\<close>

fun run_turns ::
  "('b, 'e) agent_harness \<Rightarrow> harness_request \<Rightarrow> agent_definition \<Rightarrow> loaded_resources \<Rightarrow> string \<Rightarrow> int \<Rightarrow>
     ('b, 'e) moment list list \<Rightarrow> (('b, 'e) harness_run, agent_outcome) flow" where
  "run_turns h q d loaded fingerprint now [] s = None"
| "run_turns h q d loaded fingerprint now (ms # turns) s =
     (case harness_turn h q d loaded fingerprint now (s\<lparr>hr_moments := ms\<rparr>) of
        None \<Rightarrow> None
      | Some (Inl e, s1) \<Rightarrow> end_failed h q now e s1
      | Some (Inr (Some outcome), s1) \<Rightarrow> Some (Inr outcome, s1)
      | Some (Inr None, s1) \<Rightarrow> run_turns h q d loaded fingerprint now turns s1)"

subsection \<open>Beginning and resuming\<close>

text \<open>\<open>_validate_checkpoint\<close>; two dictionaries are equal when they have the same items.\<close>

definition same_dict :: "('k \<times> 'v) list \<Rightarrow> ('k \<times> 'v) list \<Rightarrow> bool" where
  "same_dict a b \<longleftrightarrow> set a = set b"

definition evidence_versions :: "harness_request \<Rightarrow> (string \<times> string) list" where
  "evidence_versions q = dict_of (map (\<lambda>e. (ce_source_ref e, ce_source_version e)) (hq_evidence q))"

definition validate_checkpoint ::
  "run_checkpoint \<Rightarrow> agent_definition \<Rightarrow> (string \<times> string) list \<Rightarrow> (string \<times> string) list \<Rightarrow> string \<Rightarrow> exn + unit" where
  "validate_checkpoint k d resources sources fingerprint =
     (if ck_agent_id k \<noteq> ad_agent_id d \<or> ck_agent_version k \<noteq> ad_version d
      then Inl (ValueError ''checkpoint AgentDefinition is incompatible'')
      else if \<not> same_dict (ck_resource_versions k) resources
      then Inl (ValueError ''checkpoint resources are incompatible'')
      else if \<not> same_dict (ck_source_versions k) sources
      then Inl (ValueError ''checkpoint source evidence is stale'')
      else if ck_compactor_version k \<noteq> ad_compactor_version d
      then Inl (ValueError ''checkpoint compactor is incompatible'')
      else if ck_policy_version k \<noteq> ad_policy_version d
      then Inl (ValueError ''checkpoint policy is incompatible'')
      else if ck_tool_schema_fingerprint k \<noteq> fingerprint
      then Inl (ValueError ''checkpoint tool schema is incompatible'')
      else Inr ())"

fun restore_budget :: "(string \<times> int) list \<Rightarrow> (('b, 'e) harness_run, unit) flow" where
  "restore_budget [] s = Some (Inr (), s)"
| "restore_budget ((key, amount) # rest) s = (case enum_of ''BudgetKind'' budget_kind_value all_budget_kinds key of
     Inl e \<Rightarrow> Some (Inl e, s)
   | Inr kind \<Rightarrow> restore_budget rest (if ledger_limits (hr_ledger s) kind = None then s
       else s\<lparr>hr_ledger := (hr_ledger s)\<lparr>ledger_consumed := (ledger_consumed (hr_ledger s))(kind \<mapsto> amount)\<rparr>\<rparr>))"

definition restored_run :: "run_checkpoint \<Rightarrow> ('b, 'e) harness_run \<Rightarrow> ('b, 'e) harness_run" where
  "restored_run k s = s\<lparr>hr_journal := ck_messages k, hr_verified := ck_verified_effects k,
     hr_unresolved := ck_unresolved_external_effects k, hr_turn := ck_next_turn k - 1,
     hr_applied := ck_applied_control_ids k\<rparr>"

definition resume_checkpoint ::
  "('b, 'e) agent_harness \<Rightarrow> harness_request \<Rightarrow> int \<Rightarrow> run_checkpoint \<Rightarrow> (('b, 'e) harness_run, unit) flow" where
  "resume_checkpoint h q now k =
     and_then (modify (restored_run k)) (\<lambda>_.
     and_then (if hn_has_controls h \<and> ck_applied_control_ids k \<noteq> []
       then on_sessions (acknowledge_controls (hq_task_id q) (ck_applied_control_ids k) now) else return_with ()) (\<lambda>_.
     restore_budget (ck_consumed_budget k)))"

definition resume_run ::
  "('b, 'e) agent_harness \<Rightarrow> harness_request \<Rightarrow> agent_definition \<Rightarrow> loaded_resources \<Rightarrow> string \<Rightarrow> int \<Rightarrow>
     (('b, 'e) harness_run, unit) flow" where
  "resume_run h q d loaded fingerprint now =
     and_then (on_sessions (\<lambda>db. (load_checkpoint (hn_cipher h) (hq_run_id q) db, db))) (\<lambda>checkpoint.
     and_then (on_sessions (\<lambda>db. (Inr (run_status_of_run (hq_run_id q) db), db))) (\<lambda>status.
     if status \<noteq> Some RUNNING then raising (LookupError (''running run is unavailable: '' @ hq_run_id q))
     else (case checkpoint of None \<Rightarrow> return_with ()
       | Some k \<Rightarrow> (case validate_checkpoint k d (lr_versions loaded) (evidence_versions q) fingerprint of
           Inl e \<Rightarrow> and_then (on_sessions (discard_checkpoint (hq_run_id q))) (\<lambda>_.
             run_event_flow h q now ''checkpoint_invalidated'' [(''reason'', JStr (exn_message e))])
         | Inr _ \<Rightarrow> resume_checkpoint h q now k))))"

definition begin_run ::
  "('b, 'e) agent_harness \<Rightarrow> harness_request \<Rightarrow> agent_definition \<Rightarrow> int \<Rightarrow> (('b, 'e) harness_run, unit) flow" where
  "begin_run h q d now =
     and_then (on_sessions (start_run (hq_run_id q) (hq_task_id q) (cx_session_key (hq_tool_context q)) (ad_agent_id d)
       (ad_version d) (ad_policy_version d) now
       (case cx_trace_id (hq_tool_context q) of Some (ch # trace) \<Rightarrow> ch # trace | _ \<Rightarrow> hq_run_id q))) (\<lambda>_.
     run_event_flow h q now ''run_started'' [(''agent_id'', JStr (ad_agent_id d)), (''agent_version'', JInt (ad_version d)),
       (''node_id'', JStr (hq_node_id q))])"

definition new_run ::
  "budget_ledger \<Rightarrow> string option \<Rightarrow> ('b, 'e) moment list \<Rightarrow> ('b, 'e) tool_world \<Rightarrow> ('b, 'e) harness_run" where
  "new_run ledger token ms w = \<lparr>hr_world = w, hr_moments = ms, hr_turn = 0, hr_journal = [], hr_verified = [],
     hr_unresolved = [], hr_nonpersistable = [], hr_ledger = ledger, hr_applied = [], hr_pending = [],
     hr_cancelled = token, hr_last_ns = 0, hr_remainder_ns = 0, hr_results = []\<rparr>"

definition prepare_run ::
  "('b, 'e) agent_harness \<Rightarrow> agent_definition \<Rightarrow> exn + loaded_resources \<times> string \<times> budget_ledger" where
  "prepare_run h d = chain (load_resources (hn_resources h) (ad_resource_packages d)) (\<lambda>loaded.
     chain (allowed_definitions (hn_tools h) (ad_tool_ids d)) (\<lambda>tools.
     chain (from_limits (ad_budget_limits d)) (\<lambda>ledger. Inr (loaded, hn_fingerprint h tools, ledger))))"

text \<open>
  \<open>run\<close>. \<open>start_ns\<close> is the reading of the monotonic clock when the wall time starts; \<open>opening\<close> are the moments
  before the first turn. An exception outside the \<open>try\<close> leaves \<open>run\<close> as it is.
\<close>

definition agent_run ::
  "('b, 'e) agent_harness \<Rightarrow> harness_request \<Rightarrow> agent_definition \<Rightarrow> string option \<Rightarrow> bool \<Rightarrow> int \<Rightarrow> int \<Rightarrow>
     ('b, 'e) moment list \<Rightarrow> ('b, 'e) moment list list \<Rightarrow> ('b, 'e) tool_world \<Rightarrow>
     ((exn + agent_outcome) \<times> ('b, 'e) harness_run) option" where
  "agent_run h q d token resume now start_ns opening turns w =
     (case prepare_run h d of
        Inl e \<Rightarrow> raising e (new_run \<lparr>ledger_limits = Map.empty, ledger_consumed = Map.empty, ledger_reserved = Map.empty\<rparr>
          token opening w)
      | Inr (loaded, fingerprint, ledger) \<Rightarrow>
          and_then (if resume then resume_run h q d loaded fingerprint now else begin_run h q d now) (\<lambda>_.
          and_then (modify (\<lambda>s. s\<lparr>hr_last_ns := start_ns, hr_remainder_ns := 0\<rparr>)) (\<lambda>_.
          run_turns h q d loaded fingerprint now turns)) (new_run ledger token opening w))"

end
