(* ===== verification/Plugins.thy ===== *)
theory Plugins
  imports Approvals Harness
begin

text \<open>
  \<open>runtime/plugins.py\<close>: the capability plugins and their manager, with \<open>AllowConfiguredTools\<close> of
  \<open>bootstrap/gateway.py\<close>, the policy that asks the manager before every tool call; \<open>runtime/rollout.py\<close>
  and \<open>runtime/targets.py\<close>. A plugin is a protocol: its methods are functions on the process around it.
\<close>

section \<open>Plugins\<close>

datatype plugin_state = PluginDiscovered | PluginReady | PluginUnhealthy | PluginStopped

fun plugin_state_value :: "plugin_state \<Rightarrow> string" where
  "plugin_state_value PluginDiscovered = ''discovered''"
| "plugin_state_value PluginReady = ''ready''"
| "plugin_state_value PluginUnhealthy = ''unhealthy''"
| "plugin_state_value PluginStopped = ''stopped''"

record plugin_manifest =
  pf_plugin_id :: string
  pf_version :: string
  pf_runtime_api :: int
  pf_capabilities :: "string list"
  pf_events :: "string list"
  pf_required_scopes :: "string list"
  pf_storage_namespace :: string
  pf_resources :: "string list"

text \<open>The characters that \<open>str.lower\<close> changes, of the code points below 256.\<close>

definition is_upper_char :: "char \<Rightarrow> bool" where
  "is_upper_char c = (let n = of_char c :: nat in 65 \<le> n \<and> n \<le> 90 \<or> 192 \<le> n \<and> n \<le> 222 \<and> n \<noteq> 215)"

definition check_manifest :: "plugin_manifest \<Rightarrow> exn + plugin_manifest" where
  "check_manifest m =
     (if pf_plugin_id m = [] \<or> list_ex is_upper_char (pf_plugin_id m)
      then Inl (ValueError ''plugin_id must be non-empty lowercase text'')
      else if pf_runtime_api m < 1 then Inl (ValueError ''runtime_api must be positive'')
      else if pf_capabilities m = [] then Inl (ValueError ''plugin must declare at least one capability'')
      else if \<not> distinct (pf_capabilities m) then Inl (ValueError ''plugin capabilities must be unique'')
      else Inr m)"

record plugin_health =
  hl_healthy :: bool
  hl_reason :: "string option"

record 'e capability_plugin =
  pl_manifest :: plugin_manifest
  pl_initialize :: "('e, unit) eff"
  pl_health :: "('e, plugin_health) eff"
  pl_stop :: "('e, unit) eff"

record 'e managed_plugin =
  mp_plugin :: "'e capability_plugin"
  mp_state :: plugin_state
  mp_reason :: "string option"

record 'e plugin_manager =
  pm_runtime_api :: int
  pm_allowlist :: "string list"
  pm_mandatory :: "string list"
  pm_plugins :: "(string \<times> 'e managed_plugin) list"

text \<open>The manager and the rest of the process, on which the methods of its plugins act.\<close>

record 'e plugin_host =
  ph_manager :: "'e plugin_manager"
  ph_rest :: 'e

definition new_manager :: "int \<Rightarrow> string list \<Rightarrow> string list option \<Rightarrow> exn + 'e plugin_manager" where
  "new_manager api allowlist mandatory =
     (let required = (case mandatory of None \<Rightarrow> allowlist | Some ids \<Rightarrow> ids) in
      if \<not> set required \<subseteq> set allowlist then Inl (ValueError ''mandatory plugins must be allowlisted'')
      else Inr \<lparr>pm_runtime_api = api, pm_allowlist = allowlist, pm_mandatory = required, pm_plugins = []\<rparr>)"

text \<open>\<open>sep.join(parts)\<close>\<close>

fun join_text :: "string \<Rightarrow> string list \<Rightarrow> string" where
  "join_text sep [] = []"
| "join_text sep [x] = x"
| "join_text sep (x # y # ys) = x @ sep @ join_text sep (y # ys)"

definition overlap :: "string list \<Rightarrow> 'e managed_plugin \<Rightarrow> string list" where
  "overlap claimed m = sort (remdups (filter (\<lambda>c. c \<in> set claimed) (pf_capabilities (pl_manifest (mp_plugin m)))))"

definition register_plugin :: "'e capability_plugin \<Rightarrow> ('e plugin_manager, unit) eff" where
  "register_plugin p m = (let f = pl_manifest p in
     if pf_plugin_id f \<notin> set (pm_allowlist m)
     then (Inl (ValueError (''plugin is not allowlisted: '' @ pf_plugin_id f)), m)
     else if pf_runtime_api f \<noteq> pm_runtime_api m
     then (Inl (ValueError (''plugin '' @ pf_plugin_id f @ '' requires runtime API '' @ show_int (pf_runtime_api f))), m)
     else if map_of (pm_plugins m) (pf_plugin_id f) \<noteq> None
     then (Inl (ValueError (''duplicate plugin id: '' @ pf_plugin_id f)), m)
     else case find (\<lambda>x. overlap (pf_capabilities f) (snd x) \<noteq> []) (pm_plugins m) of
       Some (i, managed) \<Rightarrow> (Inl (ValueError (''duplicate capabilities: '' @ py_repr (JArr (map JStr (overlap (pf_capabilities f) managed))))), m)
     | None \<Rightarrow> (Inr (), m\<lparr>pm_plugins := pm_plugins m @
         [(pf_plugin_id f, \<lparr>mp_plugin = p, mp_state = PluginDiscovered, mp_reason = None\<rparr>)]\<rparr>))"

section \<open>Their life\<close>

definition on_rest :: "('e, 'a) eff \<Rightarrow> ('e plugin_host, 'a) eff" where
  "on_rest f h = (case f (ph_rest h) of (r, w) \<Rightarrow> (r, h\<lparr>ph_rest := w\<rparr>))"

definition update_plugin ::
  "string \<Rightarrow> ('e managed_plugin \<Rightarrow> 'e managed_plugin) \<Rightarrow> 'e plugin_host \<Rightarrow> 'e plugin_host" where
  "update_plugin i f h = h\<lparr>ph_manager := ph_manager h\<lparr>pm_plugins :=
     map (\<lambda>(k, m). (k, if k = i then f m else m)) (pm_plugins (ph_manager h))\<rparr>\<rparr>"

definition set_plugin_state :: "string \<Rightarrow> plugin_state \<Rightarrow> 'e plugin_host \<Rightarrow> 'e plugin_host" where
  "set_plugin_state i s = update_plugin i (\<lambda>m. m\<lparr>mp_state := s\<rparr>)"

definition mark_plugin :: "string \<Rightarrow> plugin_state \<Rightarrow> string option \<Rightarrow> 'e plugin_host \<Rightarrow> 'e plugin_host" where
  "mark_plugin i s reason = update_plugin i (\<lambda>m. m\<lparr>mp_state := s, mp_reason := reason\<rparr>)"

text \<open>\<open>_observe_health\<close>: a check that raises counts as unhealthy, a cancellation passes through.\<close>

definition observe_health :: "'e capability_plugin \<Rightarrow> ('e plugin_host, plugin_health) eff" where
  "observe_health p h = (case on_rest (pl_health p) h of
     (Inl e, h1) \<Rightarrow>
       if is_exception e
       then (Inr \<lparr>hl_healthy = False, hl_reason = Some (''health check failed: '' @ exn_name e)\<rparr>, h1)
       else (Inl e, h1)
   | (Inr health, h1) \<Rightarrow> (Inr health, h1))"

text \<open>
  The body of the loop of \<open>start\<close> for one plugin; the result says whether the plugin joins the initialized
  ones. A stop under \<open>suppress\<close> only changes the process.
\<close>

definition start_one :: "string \<Rightarrow> 'e capability_plugin \<Rightarrow> ('e plugin_host, bool) eff" where
  "start_one i p h = (let mandatory = i \<in> set (pm_mandatory (ph_manager h)) in
     case on_rest (pl_initialize p) h of
       (Inl e, h1) \<Rightarrow>
         if \<not> is_exception e then (Inl e, h1)
         else (let h2 = snd (on_rest (pl_stop p)
             (mark_plugin i PluginUnhealthy (Some (''initialization failed: '' @ exn_name e)) h1)) in
           if mandatory then (Inl (RuntimeError (''mandatory plugin failed initialization: '' @ i)), h2)
           else (Inr False, h2))
     | (Inr u, h1) \<Rightarrow> (case observe_health p h1 of
         (Inl e, h2) \<Rightarrow> (Inl e, h2)
       | (Inr health, h2) \<Rightarrow>
           if \<not> hl_healthy health
           then (let h3 = mark_plugin i PluginUnhealthy (hl_reason health) h2 in
             if mandatory
             then (Inl (RuntimeError (''plugin failed readiness: '' @ i @ '': '' @
                 (case hl_reason health of Some (ch # s) \<Rightarrow> ch # s | _ \<Rightarrow> ''unknown''))), snd (on_rest (pl_stop p) h3))
             else (Inr True, h3))
           else (Inr True, set_plugin_state i PluginReady h2)))"

text \<open>The handler of \<open>start\<close>: stop what was initialized, the last one first, and raise.\<close>

fun roll_back :: "string list \<Rightarrow> exn \<Rightarrow> ('e plugin_host, unit) eff" where
  "roll_back [] e h = (Inl e, h)"
| "roll_back (i # ids) e h = (case map_of (pm_plugins (ph_manager h)) i of
     None \<Rightarrow> roll_back ids e h
   | Some m \<Rightarrow> (case on_rest (pl_stop (mp_plugin m)) h of
       (Inl e', h1) \<Rightarrow> (Inl e', h1)
     | (Inr u, h1) \<Rightarrow> roll_back ids e (set_plugin_state i PluginStopped h1)))"

fun start_all :: "string list \<Rightarrow> string list \<Rightarrow> ('e plugin_host, unit) eff" where
  "start_all initialized [] h = (Inr (), h)"
| "start_all initialized (i # ids) h = (case map_of (pm_plugins (ph_manager h)) i of
     None \<Rightarrow> start_all initialized ids h
   | Some m \<Rightarrow> (case start_one i (mp_plugin m) h of
       (Inl e, h1) \<Rightarrow> roll_back initialized e h1
     | (Inr joins, h1) \<Rightarrow> start_all (if joins then i # initialized else initialized) ids h1))"

definition plugin_ids :: "'e plugin_manager \<Rightarrow> string list" where
  "plugin_ids m = map fst (pm_plugins m)"

definition start_plugins :: "('e plugin_host, unit) eff" where
  "start_plugins h = start_all [] (sort (plugin_ids (ph_manager h))) h"

text \<open>\<open>managed.state\<close> and \<open>managed.reason\<close> after a check\<close>

definition check_plugin :: "string \<Rightarrow> 'e capability_plugin \<Rightarrow> ('e plugin_host, plugin_health) eff" where
  "check_plugin i p h = (case observe_health p h of
     (Inl e, h1) \<Rightarrow> (Inl e, h1)
   | (Inr health, h1) \<Rightarrow> (Inr health,
       mark_plugin i (if hl_healthy health then PluginReady else PluginUnhealthy) (hl_reason health) h1))"

fun refresh_all :: "string list \<Rightarrow> ('e plugin_host, (string \<times> plugin_health) list) eff" where
  "refresh_all [] h = (Inr [], h)"
| "refresh_all (i # ids) h = (case map_of (pm_plugins (ph_manager h)) i of
     None \<Rightarrow> refresh_all ids h
   | Some m \<Rightarrow> (case check_plugin i (mp_plugin m) h of
       (Inl e, h1) \<Rightarrow> (Inl e, h1)
     | (Inr health, h1) \<Rightarrow> (case refresh_all ids h1 of
         (Inl e, h2) \<Rightarrow> (Inl e, h2)
       | (Inr result, h2) \<Rightarrow> (Inr ((i, health) # result), h2))))"

definition refresh_health :: "('e plugin_host, (string \<times> plugin_health) list) eff" where
  "refresh_health h = refresh_all (plugin_ids (ph_manager h)) h"

definition current_health :: "string \<Rightarrow> ('e plugin_host, plugin_health) eff" where
  "current_health i h = (case map_of (pm_plugins (ph_manager h)) i of
     None \<Rightarrow> (Inl (LookupError (''plugin is unavailable: '' @ i)), h)
   | Some m \<Rightarrow>
       if mp_state m \<noteq> PluginReady \<and> mp_state m \<noteq> PluginUnhealthy
       then (Inr \<lparr>hl_healthy = False, hl_reason = Some (''plugin is '' @ plugin_state_value (mp_state m))\<rparr>, h)
       else check_plugin i (mp_plugin m) h)"

fun stop_all :: "string list \<Rightarrow> ('e plugin_host, unit) eff" where
  "stop_all [] h = (Inr (), h)"
| "stop_all (i # ids) h = (case map_of (pm_plugins (ph_manager h)) i of
     None \<Rightarrow> stop_all ids h
   | Some m \<Rightarrow>
       if mp_state m = PluginReady \<or> mp_state m = PluginUnhealthy
       then (case on_rest (pl_stop (mp_plugin m)) h of
           (Inl e, h1) \<Rightarrow> (Inl e, h1)
         | (Inr u, h1) \<Rightarrow> stop_all ids (set_plugin_state i PluginStopped h1))
       else stop_all ids h)"

definition stop_plugins :: "('e plugin_host, unit) eff" where
  "stop_plugins h = stop_all (rev (sort (plugin_ids (ph_manager h)))) h"

text \<open>\<open>providers\<close>: a later plugin overwrites the entry of an earlier one.\<close>

definition capability_provider :: "'e plugin_manager \<Rightarrow> string \<Rightarrow> 'e managed_plugin option" where
  "capability_provider m c = map_option snd
     (find (\<lambda>x. c \<in> set (pf_capabilities (pl_manifest (mp_plugin (snd x))))) (rev (pm_plugins m)))"

fun require_capabilities :: "string list \<Rightarrow> 'e plugin_manager \<Rightarrow> exn + unit" where
  "require_capabilities [] m = Inr ()"
| "require_capabilities (c # cs) m = (case capability_provider m c of
     None \<Rightarrow> Inl (LookupError (''capability is unavailable: '' @ c))
   | Some managed \<Rightarrow>
       if mp_state managed \<noteq> PluginReady then Inl (RuntimeError (''capability provider is not ready: '' @ c))
       else require_capabilities cs m)"

definition plugin_snapshot :: "'e plugin_manager \<Rightarrow> (string \<times> plugin_state \<times> string option) list" where
  "plugin_snapshot m = map (\<lambda>(i, p). (i, mp_state p, mp_reason p)) (pm_plugins m)"

section \<open>What every operation keeps\<close>

definition plugin_of :: "'e plugin_host \<Rightarrow> string \<Rightarrow> 'e managed_plugin option" where
  "plugin_of h = map_of (pm_plugins (ph_manager h))"

definition plugin_state_of :: "'e plugin_host \<Rightarrow> string \<Rightarrow> plugin_state option" where
  "plugin_state_of h i = map_option mp_state (plugin_of h i)"

text \<open>The manager but for the states and reasons of its plugins.\<close>

definition plugin_table :: "'e plugin_host \<Rightarrow> int \<times> string list \<times> string list \<times> (string \<times> 'e capability_plugin) list" where
  "plugin_table h = (pm_runtime_api (ph_manager h), pm_allowlist (ph_manager h), pm_mandatory (ph_manager h),
     map (\<lambda>(i, m). (i, mp_plugin m)) (pm_plugins (ph_manager h)))"

lemma on_rest_manager: "on_rest f h = (r, h') \<Longrightarrow> ph_manager h' = ph_manager h"
  by (auto simp: on_rest_def split: prod.splits)

lemma on_rest_snd [simp]: "ph_manager (snd (on_rest f h)) = ph_manager h"
  by (simp add: on_rest_def split: prod.splits)

lemma same_manager:
  assumes "ph_manager h' = ph_manager h"
  shows "plugin_table h' = plugin_table h" "plugin_of h' = plugin_of h" "plugin_state_of h' = plugin_state_of h"
  using assms by (simp_all add: plugin_table_def plugin_of_def plugin_state_of_def fun_eq_iff)

lemmas on_rest_same = same_manager [OF on_rest_manager]

lemma on_rest_snd_same [simp]:
  "plugin_table (snd (on_rest f h)) = plugin_table h" "plugin_of (snd (on_rest f h)) = plugin_of h"
  "plugin_state_of (snd (on_rest f h)) = plugin_state_of h"
  by (rule same_manager [OF on_rest_snd])+

lemma map_of_update_at: "map_of (map (\<lambda>(k, m). (k, if k = i then f m else m)) ps) j =
   map_option (if j = i then f else id) (map_of ps j)"
  by (induction ps) (auto simp: id_def)

lemma plugin_of_update: "plugin_of (update_plugin i f h) j = map_option (if j = i then f else id) (plugin_of h j)"
  by (simp add: plugin_of_def update_plugin_def map_of_update_at)

lemma plugin_table_marks [simp]:
  "plugin_table (set_plugin_state i st h) = plugin_table h" "plugin_table (mark_plugin i st reason h) = plugin_table h"
  by (auto simp: plugin_table_def set_plugin_state_def mark_plugin_def update_plugin_def)

lemma plugin_state_of_marks [simp]:
  "plugin_state_of (set_plugin_state i st h) j = (if j = i \<and> plugin_of h i \<noteq> None then Some st else plugin_state_of h j)"
  "plugin_state_of (mark_plugin i st reason h) j = (if j = i \<and> plugin_of h i \<noteq> None then Some st else plugin_state_of h j)"
  unfolding plugin_state_of_def set_plugin_state_def mark_plugin_def plugin_of_update
  by (auto simp: option.map_comp comp_def)

lemma plugin_of_table:
  assumes "plugin_table h' = plugin_table h"
  shows "map_option mp_plugin (plugin_of h' i) = map_option mp_plugin (plugin_of h i)"
    "(plugin_of h' i = None) = (plugin_of h i = None)" "pm_mandatory (ph_manager h') = pm_mandatory (ph_manager h)"
proof -
  have "map_option mp_plugin (plugin_of g i) = map_of (map (\<lambda>(i, m). (i, mp_plugin m)) (pm_plugins (ph_manager g))) i" for g
    by (simp add: plugin_of_def map_of_map)
  then show "map_option mp_plugin (plugin_of h' i) = map_option mp_plugin (plugin_of h i)"
    using assms unfolding plugin_table_def by (metis prod.inject)
  then show "(plugin_of h' i = None) = (plugin_of h i = None)" by (cases "plugin_of h i"; cases "plugin_of h' i"; simp)
  show "pm_mandatory (ph_manager h') = pm_mandatory (ph_manager h)" using assms by (simp add: plugin_table_def)
qed

lemma observe_health_manager: "observe_health p h = (r, h') \<Longrightarrow> ph_manager h' = ph_manager h"
  by (auto simp: observe_health_def split: prod.splits sum.splits if_splits dest: on_rest_manager)

lemma check_plugin_table: "check_plugin i p h = (r, h') \<Longrightarrow> plugin_table h' = plugin_table h"
  by (auto simp: check_plugin_def split: prod.splits sum.splits dest: same_manager(1) [OF observe_health_manager])

lemma refresh_all_table: "refresh_all ids h = (r, h') \<Longrightarrow> plugin_table h' = plugin_table h"
  by (induction ids arbitrary: h r h') (auto split: option.splits prod.splits sum.splits dest: check_plugin_table)

lemma current_health_table: "current_health i h = (r, h') \<Longrightarrow> plugin_table h' = plugin_table h"
  by (auto simp: current_health_def split: option.splits if_splits dest: check_plugin_table)

lemma stop_all_table: "stop_all ids h = (r, h') \<Longrightarrow> plugin_table h' = plugin_table h"
  by (induction ids arbitrary: h) (auto split: option.splits prod.splits sum.splits if_splits dest: on_rest_same(1))

lemma roll_back_table: "roll_back ids e h = (r, h') \<Longrightarrow> plugin_table h' = plugin_table h"
  by (induction ids arbitrary: h) (auto split: option.splits prod.splits sum.splits if_splits dest: on_rest_same(1))

text \<open>What starting one plugin does to the table and to the states.\<close>

lemma start_one_effect:
  assumes "start_one i p h = (r, h')"
  shows "plugin_table h' = plugin_table h"
    "j \<noteq> i \<Longrightarrow> plugin_state_of h' j = plugin_state_of h j"
    "plugin_of h i \<noteq> None \<Longrightarrow> (case r of
       Inl e \<Rightarrow> plugin_state_of h' i \<in> {plugin_state_of h i, Some PluginUnhealthy}
     | Inr joins \<Rightarrow> plugin_state_of h' i \<in> {Some PluginUnhealthy} \<union> (if joins then {Some PluginReady} else {}) \<and>
         (i \<in> set (pm_mandatory (ph_manager h)) \<longrightarrow> joins \<and> plugin_state_of h' i = Some PluginReady))"
proof -
  obtain a h1 where a: "on_rest (pl_initialize p) h = (a, h1)" by fastforce
  note h1 = on_rest_same [OF a]
  obtain b h2 where b: "observe_health p h1 = (b, h2)" by fastforce
  note h2 = same_manager [OF observe_health_manager [OF b]]
  show "plugin_table h' = plugin_table h" "j \<noteq> i \<Longrightarrow> plugin_state_of h' j = plugin_state_of h j"
    using assms a b h1 h2 by (auto simp: start_one_def Let_def split: sum.splits if_splits)
  show "plugin_of h i \<noteq> None \<Longrightarrow> (case r of
       Inl e \<Rightarrow> plugin_state_of h' i \<in> {plugin_state_of h i, Some PluginUnhealthy}
     | Inr joins \<Rightarrow> plugin_state_of h' i \<in> {Some PluginUnhealthy} \<union> (if joins then {Some PluginReady} else {}) \<and>
         (i \<in> set (pm_mandatory (ph_manager h)) \<longrightarrow> joins \<and> plugin_state_of h' i = Some PluginReady))"
    using assms a b h1 h2 by (auto simp: start_one_def Let_def split: sum.splits if_splits)
qed

lemma start_all_table: "start_all initialized ids h = (r, h') \<Longrightarrow> plugin_table h' = plugin_table h"
proof (induction ids arbitrary: initialized h)
  case (Cons i ids)
  show ?case
  proof (cases "map_of (pm_plugins (ph_manager h)) i")
    case (Some m)
    obtain a h1 where a: "start_one i (mp_plugin m) h = (a, h1)" by fastforce
    from Cons.prems Some a have "plugin_table h' = plugin_table h1"
      by (cases a) (auto dest: roll_back_table Cons.IH)
    then show ?thesis using start_one_effect(1) [OF a] by simp
  qed (use Cons in simp)
qed simp

text \<open>The invariant: every plugin passed the checks of \<open>register\<close>, and no two claim the same capability.\<close>

definition claims_apart :: "'e capability_plugin \<Rightarrow> 'e capability_plugin \<Rightarrow> bool" where
  "claims_apart p q \<longleftrightarrow> set (pf_capabilities (pl_manifest p)) \<inter> set (pf_capabilities (pl_manifest q)) = {}"

definition plugins_ok :: "int \<times> string list \<times> string list \<times> (string \<times> 'e capability_plugin) list \<Rightarrow> bool" where
  "plugins_ok t = (case t of (api, allowlist, mandatory, ps) \<Rightarrow>
     distinct (map fst ps) \<and> set mandatory \<subseteq> set allowlist \<and> sorted_wrt claims_apart (map snd ps) \<and>
     (\<forall>(i, p) \<in> set ps. pf_plugin_id (pl_manifest p) = i \<and> i \<in> set allowlist \<and> pf_runtime_api (pl_manifest p) = api))"

definition host_ok :: "'e plugin_host \<Rightarrow> bool" where
  "host_ok h \<longleftrightarrow> plugins_ok (plugin_table h)"

datatype 'e plugin_op = RegisterPlugin "'e capability_plugin" | StartPlugins | StopPlugins | RefreshHealth
  | CurrentHealth string | OtherWork "'e \<Rightarrow> 'e"

fun host_step :: "'e plugin_op \<Rightarrow> 'e plugin_host \<Rightarrow> 'e plugin_host" where
  "host_step (RegisterPlugin p) h = h\<lparr>ph_manager := snd (register_plugin p (ph_manager h))\<rparr>"
| "host_step StartPlugins h = snd (start_plugins h)"
| "host_step StopPlugins h = snd (stop_plugins h)"
| "host_step RefreshHealth h = snd (refresh_health h)"
| "host_step (CurrentHealth i) h = snd (current_health i h)"
| "host_step (OtherWork f) h = h\<lparr>ph_rest := f (ph_rest h)\<rparr>"

lemma overlap_Nil: "overlap claimed m = [] \<longleftrightarrow> set claimed \<inter> set (pf_capabilities (pl_manifest (mp_plugin m))) = {}"
proof -
  have "set (overlap claimed m) = set claimed \<inter> set (pf_capabilities (pl_manifest (mp_plugin m)))"
    by (auto simp: overlap_def)
  then show ?thesis by (metis set_empty)
qed

lemma register_cases:
  obtains "snd (register_plugin p m) = m"
    | "snd (register_plugin p m) = m\<lparr>pm_plugins := pm_plugins m @
         [(pf_plugin_id (pl_manifest p), \<lparr>mp_plugin = p, mp_state = PluginDiscovered, mp_reason = None\<rparr>)]\<rparr>"
      "pf_plugin_id (pl_manifest p) \<in> set (pm_allowlist m)" "pf_runtime_api (pl_manifest p) = pm_runtime_api m"
      "map_of (pm_plugins m) (pf_plugin_id (pl_manifest p)) = None"
      "find (\<lambda>x. overlap (pf_capabilities (pl_manifest p)) (snd x) \<noteq> []) (pm_plugins m) = None"
proof (cases "snd (register_plugin p m) = m")
  case False
  then have "pf_plugin_id (pl_manifest p) \<in> set (pm_allowlist m)" "pf_runtime_api (pl_manifest p) = pm_runtime_api m"
      "map_of (pm_plugins m) (pf_plugin_id (pl_manifest p)) = None"
      "find (\<lambda>x. overlap (pf_capabilities (pl_manifest p)) (snd x) \<noteq> []) (pm_plugins m) = None"
    by (auto simp: register_plugin_def Let_def split: if_splits option.splits)
  with that(2) show thesis by (simp add: register_plugin_def)
qed (rule that(1))

lemma register_ok:
  assumes "host_ok h"
  shows "host_ok (h\<lparr>ph_manager := snd (register_plugin p (ph_manager h))\<rparr>)"
proof -
  let ?m = "ph_manager h" and ?f = "pl_manifest p"
  consider (refused) "snd (register_plugin p ?m) = ?m"
    | (added) "snd (register_plugin p ?m) = ?m\<lparr>pm_plugins := pm_plugins ?m @
         [(pf_plugin_id ?f, \<lparr>mp_plugin = p, mp_state = PluginDiscovered, mp_reason = None\<rparr>)]\<rparr>"
      "pf_plugin_id ?f \<in> set (pm_allowlist ?m)" "pf_runtime_api ?f = pm_runtime_api ?m"
      "map_of (pm_plugins ?m) (pf_plugin_id ?f) = None" "find (\<lambda>x. overlap (pf_capabilities ?f) (snd x) \<noteq> []) (pm_plugins ?m) = None"
    by (rule register_cases [of p ?m]) blast+
  then show ?thesis
  proof cases
    case refused
    with assms show ?thesis by (simp add: host_ok_def plugin_table_def)
  next
    case added
    have fresh: "pf_plugin_id ?f \<notin> fst ` set (pm_plugins ?m)" using added(4) by (simp add: map_of_eq_None_iff)
    have apart: "claims_apart (mp_plugin (snd x)) p" if "x \<in> set (pm_plugins ?m)" for x
      using added(5) that unfolding find_None_iff overlap_Nil claims_apart_def by blast
    with assms fresh added(1-3) show ?thesis
      by (auto simp: host_ok_def plugin_table_def plugins_ok_def sorted_wrt_append comp_def case_prod_unfold rev_image_eqI)
  qed
qed

interpretation plugin_hosts: invariant_steps host_step host_ok
proof unfold_locales
  fix h :: "'a plugin_host" and op
  assume ok: "host_ok h"
  have keep: "plugin_table (host_step op h) = plugin_table h \<Longrightarrow> host_ok (host_step op h)"
    using ok by (simp add: host_ok_def)
  show "host_ok (host_step op h)"
  proof (cases op)
    case (RegisterPlugin p)
    with register_ok [OF ok] show ?thesis by simp
  next
    case StartPlugins
    obtain r h' where "start_plugins h = (r, h')" by fastforce
    then show ?thesis using StartPlugins by (intro keep) (auto simp: start_plugins_def dest: start_all_table)
  next
    case StopPlugins
    obtain r h' where "stop_plugins h = (r, h')" by fastforce
    then show ?thesis using StopPlugins by (intro keep) (auto simp: stop_plugins_def dest: stop_all_table)
  next
    case RefreshHealth
    obtain r h' where "refresh_health h = (r, h')" by fastforce
    then show ?thesis using RefreshHealth by (intro keep) (auto simp: refresh_health_def dest: refresh_all_table)
  next
    case (CurrentHealth i)
    obtain r h' where "current_health i h = (r, h')" by fastforce
    then show ?thesis using CurrentHealth by (intro keep) (auto dest: current_health_table)
  next
    case (OtherWork f)
    then show ?thesis by (intro keep) (simp add: plugin_table_def)
  qed
qed

section \<open>Starting is all or nothing\<close>

definition stops_cleanly :: "'e plugin_host \<Rightarrow> bool" where
  "stops_cleanly h \<longleftrightarrow> (\<forall>(i, m) \<in> set (pm_plugins (ph_manager h)). \<forall>w. fst (pl_stop (mp_plugin m) w) = Inr ())"

lemma stops_cleanly_table: "plugin_table h' = plugin_table h \<Longrightarrow> stops_cleanly h' = stops_cleanly h"
proof -
  have "stops_cleanly g = (\<forall>(i, p) \<in> set (snd (snd (snd (plugin_table g)))). \<forall>w. fst (pl_stop p w) = Inr ())" for g :: "'a plugin_host"
    by (auto simp: stops_cleanly_def plugin_table_def)
  then show "plugin_table h' = plugin_table h \<Longrightarrow> stops_cleanly h' = stops_cleanly h" by simp
qed

lemma roll_back_stops:
  assumes "stops_cleanly h" "roll_back ids e h = (r, h')"
  shows "r = Inl e \<and> plugin_state_of h' j =
    (if j \<in> set ids \<and> plugin_of h j \<noteq> None then Some PluginStopped else plugin_state_of h j)"
  using assms
proof (induction ids arbitrary: h)
  case (Cons i ids)
  show ?case
  proof (cases "plugin_of h i")
    case None
    then have "roll_back ids e h = (r, h')" using Cons.prems(2) by (simp add: plugin_of_def)
    from Cons.IH [OF Cons.prems(1) this] None show ?thesis by (cases "j = i") simp_all
  next
    case (Some m)
    obtain a h1 where a: "on_rest (pl_stop (mp_plugin m)) h = (a, h1)" by fastforce
    have "(i, m) \<in> set (pm_plugins (ph_manager h))" using Some by (auto simp: plugin_of_def dest: map_of_SomeD)
    with Cons.prems(1) have "fst (pl_stop (mp_plugin m) (ph_rest h)) = Inr ()" unfolding stops_cleanly_def by fast
    then have "a = Inr ()" using a by (auto simp: on_rest_def split: prod.splits)
    with Cons.prems(2) a Some have r: "roll_back ids e (set_plugin_state i PluginStopped h1) = (r, h')"
      by (simp add: plugin_of_def)
    have table: "plugin_table (set_plugin_state i PluginStopped h1) = plugin_table h" using on_rest_same(1) [OF a] by simp
    from Cons.IH [OF _ r] Cons.prems(1) have "r = Inl e \<and> plugin_state_of h' j =
      (if j \<in> set ids \<and> plugin_of (set_plugin_state i PluginStopped h1) j \<noteq> None then Some PluginStopped
       else plugin_state_of (set_plugin_state i PluginStopped h1) j)"
      by (simp add: stops_cleanly_table [OF table])
    moreover have "plugin_of (set_plugin_state i PluginStopped h1) j = None \<longleftrightarrow> plugin_of h j = None"
      by (rule plugin_of_table(2) [OF table])
    moreover have "plugin_of h1 i = Some m" "plugin_state_of h1 j = plugin_state_of h j"
      using on_rest_same(2,3) [OF a] Some by simp_all
    ultimately show ?thesis using Some by (cases "j = i"; cases "plugin_of h j") simp_all
  qed
qed simp

lemma roll_back_raises: "roll_back ids e h = (r, h') \<Longrightarrow> \<exists>e'. r = Inl e'"
  by (induction ids arbitrary: h) (auto split: option.splits prod.splits sum.splits)

text \<open>While the loop runs: who is ready has joined, and who was passed is ready or was found unhealthy.\<close>

definition loop_ok :: "string set \<Rightarrow> string list \<Rightarrow> 'e plugin_host \<Rightarrow> bool" where
  "loop_ok passed initialized h \<longleftrightarrow> (\<forall>j. plugin_of h j \<noteq> None \<longrightarrow>
     (plugin_state_of h j = Some PluginReady \<longrightarrow> j \<in> set initialized) \<and>
     (j \<in> passed \<longrightarrow> plugin_state_of h j \<in> {Some PluginReady, Some PluginUnhealthy} \<and>
        (j \<in> set (pm_mandatory (ph_manager h)) \<longrightarrow> plugin_state_of h j = Some PluginReady)))"

lemma start_all_states:
  assumes "loop_ok passed initialized h" "start_all initialized ids h = (r, h')"
  shows "case r of Inr _ \<Rightarrow> \<exists>joined. loop_ok (passed \<union> set ids) joined h'
    | Inl e \<Rightarrow> stops_cleanly h \<longrightarrow> (\<forall>j. plugin_state_of h' j \<noteq> Some PluginReady)"
  using assms
proof (induction ids arbitrary: passed initialized h)
  case (Cons i ids)
  show ?case
  proof (cases "plugin_of h i")
    case None
    have "loop_ok (insert i passed) initialized h" using Cons.prems(1) None by (auto simp: loop_ok_def)
    from Cons.IH [OF this] Cons.prems(2) None show ?thesis by (simp add: plugin_of_def split: sum.splits)
  next
    case (Some m)
    obtain a h1 where a: "start_one i (mp_plugin m) h = (a, h1)" by fastforce
    note e = start_one_effect [OF a]
    have clean: "stops_cleanly h1 = stops_cleanly h" by (rule stops_cleanly_table [OF e(1)])
    have i: "plugin_of h i \<noteq> None" using Some by simp
    show ?thesis
    proof (cases a)
      case (Inl x)
      with Cons.prems(2) a Some have rolled: "roll_back initialized x h1 = (r, h')" by (simp add: plugin_of_def)
      have "plugin_state_of h' j \<noteq> Some PluginReady" if clean: "stops_cleanly h1" for j
      proof
        note undone = roll_back_stops [OF clean rolled]
        assume ready: "plugin_state_of h' j = Some PluginReady"
        then have h1: "plugin_state_of h1 j = Some PluginReady" "\<not> (j \<in> set initialized \<and> plugin_of h1 j \<noteq> None)"
          using undone [of j] by (auto split: if_splits)
        then have "plugin_state_of h j = Some PluginReady" using e(2) [of j] e(3) [OF i] Inl by (cases "j = i") auto
        then have "j \<in> set initialized" "plugin_of h j \<noteq> None"
          using Cons.prems(1) by (auto simp: loop_ok_def plugin_state_of_def)
        with h1(2) plugin_of_table(2) [OF e(1)] show False by simp
      qed
      with roll_back_raises [OF rolled] clean show ?thesis by auto
    next
      case (Inr joins)
      have "loop_ok (insert i passed) (if joins then i # initialized else initialized) h1"
        unfolding loop_ok_def
      proof (intro allI impI)
        fix j assume "plugin_of h1 j \<noteq> None"
        then have j: "plugin_of h j \<noteq> None" using plugin_of_table(2) [OF e(1)] by simp
        show "(plugin_state_of h1 j = Some PluginReady \<longrightarrow> j \<in> set (if joins then i # initialized else initialized)) \<and>
          (j \<in> insert i passed \<longrightarrow> plugin_state_of h1 j \<in> {Some PluginReady, Some PluginUnhealthy} \<and>
          (j \<in> set (pm_mandatory (ph_manager h1)) \<longrightarrow> plugin_state_of h1 j = Some PluginReady))"
          using Cons.prems(1) j e(2) [of j] e(3) [OF i] Inr plugin_of_table(3) [OF e(1)]
          by (cases "j = i") (auto simp: loop_ok_def split: if_splits)
      qed
      from Cons.IH [OF this] Cons.prems(2) a Some Inr clean show ?thesis by (simp add: plugin_of_def split: sum.splits)
    qed
  qed
qed auto

text \<open>
  C33. Starting the plugins is all or nothing: from a manager whose plugins are only discovered, a start that returns
  leaves every plugin ready or known to be unhealthy, and every mandatory one ready; a start that raises, whatever was
  thrown and wherever, leaves no plugin ready, provided that the \<open>stop\<close> of a plugin does not raise. A \<open>stop\<close> that
  raises ends the roll-back (\<open>failed_stop_ends_roll_back\<close>).
\<close>

theorem start_all_or_nothing:
  assumes "\<forall>x \<in> set (pm_plugins (ph_manager h)). mp_state (snd x) = PluginDiscovered"
    and "start_plugins h = (r, h')"
  shows "case r of
      Inr _ \<Rightarrow> \<forall>i \<in> set (plugin_ids (ph_manager h')). plugin_state_of h' i \<in> {Some PluginReady, Some PluginUnhealthy} \<and>
        (i \<in> set (pm_mandatory (ph_manager h')) \<longrightarrow> plugin_state_of h' i = Some PluginReady)
    | Inl e \<Rightarrow> stops_cleanly h \<longrightarrow> (\<forall>i. plugin_state_of h' i \<noteq> Some PluginReady)"
proof -
  have "plugin_state_of h j \<noteq> Some PluginReady" for j
    using assms(1) by (force simp: plugin_state_of_def plugin_of_def dest: map_of_SomeD)
  then have "loop_ok {} [] h" by (simp add: loop_ok_def)
  note states = start_all_states [OF this assms(2) [unfolded start_plugins_def]]
  have "plugin_table h' = plugin_table h" using assms(2) by (auto simp: start_plugins_def dest: start_all_table)
  then have "map fst (snd (snd (snd (plugin_table h')))) = map fst (snd (snd (snd (plugin_table h))))" by simp
  then have ids: "plugin_ids (ph_manager h') = plugin_ids (ph_manager h)"
    by (simp add: plugin_table_def plugin_ids_def comp_def case_prod_unfold)
  have known: "plugin_of h' i \<noteq> None" if "i \<in> set (plugin_ids (ph_manager h'))" for i
    using that by (auto simp: plugin_of_def plugin_ids_def map_of_eq_None_iff)
  show ?thesis
  proof (cases r)
    case (Inr u)
    with states obtain joined where "loop_ok (set (sort (plugin_ids (ph_manager h)))) joined h'" by auto
    with Inr ids known show ?thesis by (auto simp: loop_ok_def)
  qed (use states in simp)
qed

section \<open>Capabilities of an agent\<close>

lemma provider_unique:
  assumes "host_ok h" "(i, m) \<in> set (pm_plugins (ph_manager h))" "c \<in> set (pf_capabilities (pl_manifest (mp_plugin m)))"
  shows "capability_provider (ph_manager h) c = Some m"
proof -
  let ?ps = "pm_plugins (ph_manager h)" and ?P = "\<lambda>x. c \<in> set (pf_capabilities (pl_manifest (mp_plugin (snd x))))"
  have apart: "sorted_wrt claims_apart (map (mp_plugin \<circ> snd) ?ps)"
    using assms(1) by (simp add: host_ok_def plugins_ok_def plugin_table_def comp_def case_prod_unfold)
  have "x = y" if "x \<in> set ?ps" "y \<in> set ?ps" "?P x" "?P y" for x y
  proof -
    from that(1,2) obtain k l where kl: "k < length ?ps" "l < length ?ps" "x = ?ps ! k" "y = ?ps ! l" by (auto simp: in_set_conv_nth)
    have "\<not> k < l" "\<not> l < k"
      using sorted_wrt_nth_less [OF apart, of k l] sorted_wrt_nth_less [OF apart, of l k] kl that(3,4)
      by (auto simp: claims_apart_def)
    with kl show "x = y" by (simp add: nat_neq_iff [symmetric])
  qed
  then have same: "x = (i, m)" if "x \<in> set ?ps" "?P x" for x using assms(2,3) that by simp
  have "find ?P (rev ?ps) = Some (i, m)"
  proof (cases "find ?P (rev ?ps)")
    case None
    with assms(2,3) show ?thesis by (force simp: find_None_iff)
  next
    case (Some x)
    from find_in_set [OF this] have "x \<in> set ?ps" "?P x" by simp_all
    with Some same show ?thesis by simp
  qed
  then show ?thesis by (simp add: capability_provider_def)
qed

lemma new_manager_ok: "new_manager api allowlist mandatory = Inr m \<Longrightarrow> host_ok \<lparr>ph_manager = m, ph_rest = w\<rparr>"
  by (auto simp: new_manager_def Let_def host_ok_def plugins_ok_def plugin_table_def split: if_splits)

text \<open>
  C34. An agent gets the capabilities it requires exactly when each of them is claimed by a registered plugin that
  is ready: after any operations on the manager (registrations, starts, stops, checks, and whatever the plugins do
  in between) the check passes if and only if every required capability has such a plugin.
\<close>

theorem capabilities_need_ready_plugins:
  assumes "new_manager api allowlist mandatory = Inr m" and "h = fold host_step ops \<lparr>ph_manager = m, ph_rest = w\<rparr>"
  shows "require_capabilities cs (ph_manager h) = Inr () \<longleftrightarrow>
    list_all (\<lambda>c. list_ex (\<lambda>(i, m). mp_state m = PluginReady \<and> c \<in> set (pf_capabilities (pl_manifest (mp_plugin m))))
      (pm_plugins (ph_manager h))) cs"
proof (induction cs)
  case (Cons c cs)
  have ok: "host_ok h" using plugin_hosts.run_inv [OF new_manager_ok [OF assms(1)]] assms(2) by simp
  have "(\<exists>m. capability_provider (ph_manager h) c = Some m \<and> mp_state m = PluginReady) \<longleftrightarrow>
    list_ex (\<lambda>(i, m). mp_state m = PluginReady \<and> c \<in> set (pf_capabilities (pl_manifest (mp_plugin m)))) (pm_plugins (ph_manager h))"
    (is "?l = ?r")
  proof
    assume ?l
    then obtain i m where "find (\<lambda>x. c \<in> set (pf_capabilities (pl_manifest (mp_plugin (snd x))))) (rev (pm_plugins (ph_manager h))) = Some (i, m)"
      "mp_state m = PluginReady" by (auto simp: capability_provider_def)
    with find_in_set [OF this(1)] show ?r by (auto simp: list_ex_iff)
  next
    assume ?r
    with provider_unique [OF ok] show ?l by (auto simp: list_ex_iff)
  qed
  with Cons.IH show ?case by (auto split: option.splits)
qed simp

section \<open>The policy of the gateway\<close>

text \<open>
  \<open>AllowConfiguredTools\<close>: \<open>ct_has_plugins\<close> says whether there is a manager; a tool that names one plugin is the
  tool with the list of that plugin.
\<close>

record configured_tools =
  ct_has_plugins :: bool
  ct_tool_plugin_ids :: "(string \<times> string list) list"

definition tool_plugins :: "configured_tools \<Rightarrow> string \<Rightarrow> string list" where
  "tool_plugins c tool_id = (case map_of (ct_tool_plugin_ids c) tool_id of None \<Rightarrow> [] | Some ids \<Rightarrow> ids)"

fun unhealthy_plugin :: "string list \<Rightarrow> ('e plugin_host, string option) eff" where
  "unhealthy_plugin [] h = (Inr None, h)"
| "unhealthy_plugin (i # ids) h = (case current_health i h of
     (Inl e, h1) \<Rightarrow> (Inl e, h1)
   | (Inr health, h1) \<Rightarrow> if \<not> hl_healthy health then (Inr (Some i), h1) else unhealthy_plugin ids h1)"

definition bound_decision :: "tool_definition \<Rightarrow> tool_context \<Rightarrow> policy_decision" where
  "bound_decision d cx =
     (if cx_tenant_key cx = [] \<or> cx_app_id cx = [] \<or> cx_actor_id cx = [] \<or> cx_identity_ref cx = []
      then \<lparr>pd_allowed = False, pd_reason = ''trusted Feishu execution bindings are incomplete'', pd_approval_required = False\<rparr>
      else \<lparr>pd_allowed = True, pd_reason = ''tool is enabled by the production capability profile'',
        pd_approval_required = (td_effect d = DESTRUCTIVE)\<rparr>)"

definition authorize_configured ::
  "configured_tools \<Rightarrow> tool_definition \<Rightarrow> tool_call \<Rightarrow> tool_context \<Rightarrow> (('b, 'e plugin_host) tool_world, policy_decision) eff" where
  "authorize_configured c d call cx w =
     (if \<not> ct_has_plugins c then (Inr (bound_decision d cx), w)
      else case on_env (unhealthy_plugin (tool_plugins c (td_tool_id d))) w of
        (Inl e, w1) \<Rightarrow> (Inl e, w1)
      | (Inr (Some i), w1) \<Rightarrow> (Inr \<lparr>pd_allowed = False, pd_reason = ''capability plugin is unhealthy: '' @ i,
          pd_approval_required = False\<rparr>, w1)
      | (Inr None, w1) \<Rightarrow> (Inr (bound_decision d cx), w1))"

lemma check_plugin_state:
  assumes "check_plugin i p h = (Inr health, h')" "plugin_of h i \<noteq> None"
  shows "plugin_state_of h' j = (if j = i then Some (if hl_healthy health then PluginReady else PluginUnhealthy)
    else plugin_state_of h j)"
proof -
  obtain a h1 where a: "observe_health p h = (a, h1)" by fastforce
  note same = same_manager [OF observe_health_manager [OF a]]
  from assms a show ?thesis by (auto simp: check_plugin_def same split: sum.splits)
qed

lemma current_health_state:
  assumes "current_health i h = (Inr health, h')"
  shows "j \<noteq> i \<Longrightarrow> plugin_state_of h' j = plugin_state_of h j" "hl_healthy health \<Longrightarrow> plugin_state_of h' i = Some PluginReady"
proof -
  from assms obtain m where m: "plugin_of h i = Some m" by (auto simp: current_health_def plugin_of_def split: option.splits)
  with assms show "j \<noteq> i \<Longrightarrow> plugin_state_of h' j = plugin_state_of h j" "hl_healthy health \<Longrightarrow> plugin_state_of h' i = Some PluginReady"
    using check_plugin_state [of i "mp_plugin m" h health h'] by (auto simp: current_health_def plugin_of_def split: if_splits)
qed

lemma all_plugins_healthy:
  assumes "unhealthy_plugin ids h = (Inr None, h')"
  shows "(\<forall>i \<in> set ids. plugin_state_of h' i = Some PluginReady) \<and>
    (\<forall>j. plugin_state_of h j = Some PluginReady \<longrightarrow> plugin_state_of h' j = Some PluginReady)"
  using assms
proof (induction ids arbitrary: h)
  case (Cons i ids)
  then obtain health h1 where h1: "current_health i h = (Inr health, h1)" "hl_healthy health" "unhealthy_plugin ids h1 = (Inr None, h')"
    by (auto split: prod.splits sum.splits if_splits)
  with Cons.IH [OF h1(3)] current_health_state [OF h1(1)] show ?case by (metis set_ConsD)
qed simp

text \<open>
  The plugins that a call depends on, asked one after the other: each is one that was started, and its own \<open>health\<close>
  answers, in the process as it is now, that it is healthy. The result is the process after the last answer.
\<close>

definition started_plugin :: "'e plugin_host \<Rightarrow> string \<Rightarrow> 'e capability_plugin option" where
  "started_plugin h i = (case plugin_of h i of
     Some m \<Rightarrow> if mp_state m = PluginReady \<or> mp_state m = PluginUnhealthy then Some (mp_plugin m) else None
   | None \<Rightarrow> None)"

fun healthy_answers :: "(string \<Rightarrow> 'e capability_plugin option) \<Rightarrow> string list \<Rightarrow> 'e \<Rightarrow> 'e option" where
  "healthy_answers ps [] e = Some e"
| "healthy_answers ps (i # ids) e = (case ps i of None \<Rightarrow> None
     | Some p \<Rightarrow> (case pl_health p e of
         (Inl x, e1) \<Rightarrow> None
       | (Inr health, e1) \<Rightarrow> if hl_healthy health then healthy_answers ps ids e1 else None))"

lemma current_health_asks:
  assumes "current_health i h = (Inr health, h1)" "hl_healthy health"
  shows "\<exists>p. started_plugin h i = Some p \<and> pl_health p (ph_rest h) = (Inr health, ph_rest h1) \<and> started_plugin h1 = started_plugin h"
proof -
  from assms obtain m where m: "plugin_of h i = Some m" "mp_state m = PluginReady \<or> mp_state m = PluginUnhealthy"
    "check_plugin i (mp_plugin m) h = (Inr health, h1)"
    by (auto simp: current_health_def plugin_of_def split: option.splits if_splits)
  obtain a h2 where o': "observe_health (mp_plugin m) h = (a, h2)" by fastforce
  with m(3) have a: "a = Inr health" "h1 = mark_plugin i PluginReady (hl_reason health) h2"
    using assms(2) by (auto simp: check_plugin_def split: sum.splits)
  have "pl_health (mp_plugin m) (ph_rest h) = (Inr health, ph_rest h2)"
    using o' a(1) assms(2) by (auto simp: observe_health_def on_rest_def split: prod.splits sum.splits if_splits)
  moreover have "ph_rest h1 = ph_rest h2" by (simp add: a(2) mark_plugin_def update_plugin_def)
  moreover have "started_plugin h1 = started_plugin h"
  proof
    fix j
    have "plugin_of h1 j = map_option (if j = i then (\<lambda>m. m\<lparr>mp_state := PluginReady, mp_reason := hl_reason health\<rparr>) else id) (plugin_of h j)"
      unfolding a(2) mark_plugin_def plugin_of_update same_manager(2) [OF observe_health_manager [OF o']] ..
    then show "started_plugin h1 j = started_plugin h j"
      using m(1,2) by (cases "j = i"; cases "plugin_of h j") (auto simp: started_plugin_def)
  qed
  ultimately show ?thesis using m(1,2) by (auto simp: started_plugin_def)
qed

lemma all_plugins_answer:
  assumes "unhealthy_plugin ids h = (Inr None, h')"
  shows "healthy_answers (started_plugin h) ids (ph_rest h) = Some (ph_rest h')"
  using assms
proof (induction ids arbitrary: h)
  case (Cons i ids)
  then obtain health h1 where h1: "current_health i h = (Inr health, h1)" "hl_healthy health" "unhealthy_plugin ids h1 = (Inr None, h')"
    by (auto split: prod.splits sum.splits if_splits)
  from current_health_asks [OF h1(1,2)] Cons.IH [OF h1(3)] h1(2) show ?case by auto
qed simp


section \<open>A plugin that never started\<close>

text \<open>
  The table does not tell a plugin that failed to initialize (and was stopped for it) from one that is unhealthy
  for a while: the next check that succeeds makes it ready, although it was never initialized.
\<close>

lemma failed_initialization_readmitted:
  assumes "fst (pl_initialize (mp_plugin m) (ph_rest h)) = Inl e" "is_exception e" "i \<notin> set (pm_mandatory (ph_manager h))"
    and "plugin_of h i = Some m" "\<And>w. pl_health (mp_plugin m) w = (Inr \<lparr>hl_healthy = True, hl_reason = None\<rparr>, w)"
  shows "\<exists>h1 h2. start_one i (mp_plugin m) h = (Inr False, h1) \<and>
    current_health i h1 = (Inr \<lparr>hl_healthy = True, hl_reason = None\<rparr>, h2) \<and> plugin_state_of h2 i = Some PluginReady"
proof -
  have "\<exists>h1. start_one i (mp_plugin m) h = (Inr False, h1)"
    using assms(1-3) by (cases "pl_initialize (mp_plugin m) (ph_rest h)") (simp add: start_one_def Let_def on_rest_def)
  then obtain h1 where s: "start_one i (mp_plugin m) h = (Inr False, h1)" by blast
  note e = start_one_effect [OF s]
  have i: "plugin_of h i \<noteq> None" using assms(4) by simp
  then have "plugin_of h1 i \<noteq> None" "map_option mp_plugin (plugin_of h1 i) = Some (mp_plugin m)"
    using plugin_of_table [OF e(1)] assms(4) by simp_all
  then obtain m1 where m1: "plugin_of h1 i = Some m1" "mp_plugin m1 = mp_plugin m" by auto
  have "mp_state m1 = PluginUnhealthy" using e(3) [OF i] m1(1) by (simp add: plugin_state_of_def)
  then have "\<exists>h2. current_health i h1 = (Inr \<lparr>hl_healthy = True, hl_reason = None\<rparr>, h2)"
    using m1 assms(5) by (simp add: current_health_def plugin_of_def check_plugin_def observe_health_def on_rest_def)
  then obtain h2 where "current_health i h1 = (Inr \<lparr>hl_healthy = True, hl_reason = None\<rparr>, h2)" by blast
  with s current_health_state(2) [OF this] show ?thesis by auto
qed

section \<open>A concrete manager\<close>

text \<open>The mandatory ingress and an optional plugin that fails to initialize; the process counts the stops.\<close>

definition sample_plugin :: "string \<Rightarrow> string list \<Rightarrow> bool \<Rightarrow> nat capability_plugin" where
  "sample_plugin i caps starts = \<lparr>pl_manifest = \<lparr>pf_plugin_id = i, pf_version = ''1'', pf_runtime_api = 1, pf_capabilities = caps,
       pf_events = [], pf_required_scopes = [], pf_storage_namespace = [], pf_resources = []\<rparr>,
     pl_initialize = (\<lambda>w. (if starts then Inr () else Inl (RuntimeError ''no scope''), w)),
     pl_health = (\<lambda>w. (Inr \<lparr>hl_healthy = True, hl_reason = None\<rparr>, w)), pl_stop = (\<lambda>w. (Inr (), Suc w))\<rparr>"

definition sample_manager :: "nat plugin_manager" where
  "sample_manager = \<lparr>pm_runtime_api = 1, pm_allowlist = [''im'', ''docs''], pm_mandatory = [''im''], pm_plugins = []\<rparr>"

definition sample_host :: "nat plugin_host" where
  "sample_host = \<lparr>ph_manager = sample_manager, ph_rest = 0\<rparr>"

definition sample_registrations :: "nat plugin_op list" where
  "sample_registrations = [RegisterPlugin (sample_plugin ''im'' [''chat''] True), RegisterPlugin (sample_plugin ''docs'' [''write''] False)]"

definition registered_host :: "nat plugin_host" where
  "registered_host = \<lparr>ph_manager = sample_manager\<lparr>pm_plugins :=
     [(''im'', \<lparr>mp_plugin = sample_plugin ''im'' [''chat''] True, mp_state = PluginDiscovered, mp_reason = None\<rparr>),
      (''docs'', \<lparr>mp_plugin = sample_plugin ''docs'' [''write''] False, mp_state = PluginDiscovered, mp_reason = None\<rparr>)]\<rparr>, ph_rest = 0\<rparr>"

lemma sample_registered: "fold host_step sample_registrations sample_host = registered_host"
  by (simp add: sample_registrations_def sample_host_def registered_host_def sample_manager_def register_plugin_def
      sample_plugin_def overlap_def Let_def)

lemma start_all_or_nothing_witness:
  "fst (start_plugins registered_host) = Inr () \<and>
   plugin_state_of (snd (start_plugins registered_host)) ''im'' = Some PluginReady"
proof -
  obtain r h' where s: "start_plugins registered_host = (r, h')" by fastforce
  have "map_sum id (\<lambda>_. ()) (fst (start_plugins registered_host)) = Inr () \<and>
    plugin_ids (ph_manager (snd (start_plugins registered_host))) = [''im'', ''docs''] \<and>
    pm_mandatory (ph_manager (snd (start_plugins registered_host))) = [''im'']" by code_simp
  with s have v: "r = Inr ()" "plugin_ids (ph_manager h') = [''im'', ''docs'']" "pm_mandatory (ph_manager h') = [''im'']"
    by (cases r; simp)+
  have "\<forall>x \<in> set (pm_plugins (ph_manager registered_host)). mp_state (snd x) = PluginDiscovered"
    by (auto simp: registered_host_def)
  from start_all_or_nothing [OF this s] s v show ?thesis by simp
qed

text \<open>
  A mandatory plugin that fails to initialize makes the others stop, the last one first; the \<open>stop\<close> of one of them raises,
  and it and those before it stay ready.
\<close>

definition failing_plugin :: "string \<Rightarrow> bool \<Rightarrow> bool \<Rightarrow> nat managed_plugin" where
  "failing_plugin i starts stops = \<lparr>mp_plugin = (sample_plugin i [i] starts)\<lparr>pl_stop := (\<lambda>w.
     (if stops then Inr () else Inl (RuntimeError ''busy''), w))\<rparr>, mp_state = PluginDiscovered, mp_reason = None\<rparr>"

definition failing_host :: "nat plugin_host" where
  "failing_host = \<lparr>ph_manager = \<lparr>pm_runtime_api = 1, pm_allowlist = [''docs'', ''drive'', ''im''], pm_mandatory = [''im''],
     pm_plugins = [(''docs'', failing_plugin ''docs'' True True), (''drive'', failing_plugin ''drive'' True False),
       (''im'', failing_plugin ''im'' False True)]\<rparr>, ph_rest = 0\<rparr>"

lemma failed_stop_ends_roll_back:
  "fst (start_plugins failing_host) = Inl (RuntimeError ''busy'') \<and>
   map (plugin_state_of (snd (start_plugins failing_host))) [''docs'', ''drive'', ''im''] =
     [Some PluginReady, Some PluginReady, Some PluginUnhealthy]"
  by code_simp

lemma capabilities_need_ready_plugins_witness:
  "require_capabilities [''chat''] (ph_manager (snd (start_plugins registered_host))) = Inr () \<and>
   require_capabilities [''chat'', ''write''] (ph_manager (snd (start_plugins registered_host))) \<noteq> Inr ()"
proof -
  let ?h = "fold host_step (sample_registrations @ [StartPlugins]) \<lparr>ph_manager = sample_manager, ph_rest = 0\<rparr>"
  have new: "new_manager 1 [''im'', ''docs''] (Some [''im'']) = Inr sample_manager"
    by (simp add: new_manager_def sample_manager_def)
  have h: "?h = snd (start_plugins registered_host)"
    using sample_registered by (simp add: sample_host_def)
  have "list_all (\<lambda>c. list_ex (\<lambda>(i, m). mp_state m = PluginReady \<and> c \<in> set (pf_capabilities (pl_manifest (mp_plugin m))))
      (pm_plugins (ph_manager (snd (start_plugins registered_host))))) [''chat'']" by code_simp
  moreover have "\<not> list_all (\<lambda>c. list_ex (\<lambda>(i, m). mp_state m = PluginReady \<and> c \<in> set (pf_capabilities (pl_manifest (mp_plugin m))))
      (pm_plugins (ph_manager (snd (start_plugins registered_host))))) [''chat'', ''write'']" by code_simp
  ultimately show ?thesis
    using capabilities_need_ready_plugins [OF new refl, of _ "sample_registrations @ [StartPlugins]" 0, unfolded h] by blast
qed

definition hosted_tool :: "(string \<times> json, nat plugin_host) semantic_tool" where
  "hosted_tool = \<lparr>st_definition = \<lparr>td_tool_id = ''send'', td_version = 1, td_description = ''d'', td_input_schema = [],
       td_effect = WRITE, td_parallel_safe = False\<rparr>,
     st_validate = (\<lambda>_. Inr ()),
     st_execute = (\<lambda>_ _ w. (Inr [(''sent'', JBool True)], w\<lparr>tw_env := (tw_env w)\<lparr>ph_rest := Suc (ph_rest (tw_env w))\<rparr>\<rparr>)),
     st_verify = (\<lambda>_ _ _ w. (Inr \<lparr>vr_state = VERIFIED, vr_verifier_id = ''lark'', vr_summary = ''sent'',
       vr_resource_refs = [''doc'']\<rparr>, w)),
     st_reconcile = (\<lambda>_ _ w. (Inl (RuntimeError ''unknown''), w)), st_resolve_write_target = None,
     st_parallel_safe_for = None, st_checkpoint_safe = True, st_abandoned = (\<lambda>_ _ w. w)\<rparr>"

definition hosted_broker :: "(string \<times> json, nat plugin_host) approval_broker" where
  "hosted_broker = \<lparr>ab_cipher = plain_cipher, ab_ttl_ms = 900000, ab_poll_delay_ms = 2000, ab_clock_ms = (\<lambda>_. 20),
     ab_outbox_id = (\<lambda>_. ''o6''), ab_texts = sample_texts, ab_dumps = sample_dumps, ab_sha256 = (\<lambda>m. m)\<rparr>"

definition hosted_policy :: configured_tools where
  "hosted_policy = \<lparr>ct_has_plugins = True, ct_tool_plugin_ids = [(''send'', [''im''])]\<rparr>"

definition hosted_executor :: "(string \<times> json, nat plugin_host) tool_executor" where
  "hosted_executor = \<lparr>te_registry = [(''send'', hosted_tool)], te_policy = authorize_configured hosted_policy,
     te_approvals = broker_request hosted_broker, te_has_store = True, te_has_locks = False, te_claim_lease_ms = 1000,
     te_write_lock_lease_ms = 1000, te_has_gate = True, te_tool_plugin_ids = [(''send'', ''im'')],
     te_plugin_concurrency = Some 1, te_dumps = (\<lambda>_. ''args''), te_sha256 = (\<lambda>m. m)\<rparr>"

definition hosted_world :: "(string \<times> json, nat plugin_host) tool_world" where
  "hosted_world = \<lparr>tw_db = empty_db, tw_agents = empty_graph_db, tw_gate = empty_gate, tw_env = snd (start_plugins registered_host)\<rparr>"

definition hosted_run :: "(string \<times> json, nat plugin_host) executed option" where
  "hosted_run = execute_tool hosted_executor (sample_call ''c1'') sample_context 9 sample_ticks hosted_world"

text \<open>The plugin is marked as ready, but answers that it is down when it is asked.\<close>

definition down_world :: "(string \<times> json, nat plugin_host) tool_world" where
  "down_world = hosted_world\<lparr>tw_env := update_plugin ''im'' (\<lambda>m. m\<lparr>mp_plugin := (mp_plugin m)\<lparr>pl_health :=
     (\<lambda>w. (Inr \<lparr>hl_healthy = False, hl_reason = Some ''down''\<rparr>, w))\<rparr>\<rparr>) (tw_env hosted_world)\<rparr>"


end
