(* ===== verification/Rollout.thy ===== *)
theory Rollout
  imports Plugins
begin

text \<open>
  \<open>runtime/rollout.py\<close>, the choice of the definition of the root agent for a group, and
  \<open>runtime/targets.py\<close>, the identities of write targets. SHA-256 of the UTF-8 text (its bytes, or its
  hexadecimal digits) and Unicode normalization and case folding of the standard library are parameters.
\<close>

section \<open>Rollout\<close>

record root_rollout =
  rl_stable_version :: int
  rl_canary_version :: "int option"
  rl_canary_percent :: int
  rl_salt :: string

definition check_rollout :: "root_rollout \<Rightarrow> exn + root_rollout" where
  "check_rollout r =
     (if rl_stable_version r < 1 then Inl (ValueError ''stable Agent definition version must be positive'')
      else if rl_canary_percent r < 0 \<or> 100 < rl_canary_percent r
      then Inl (ValueError ''canary percentage must be between 0 and 100'')
      else if rl_canary_percent r = 0 then Inr r
      else if (case rl_canary_version r of None \<Rightarrow> True | Some v \<Rightarrow> v < 1)
      then Inl (ValueError ''enabled canary requires a positive definition version'')
      else if rl_canary_version r = Some (rl_stable_version r)
      then Inl (ValueError ''canary definition version must differ from stable'')
      else if blank (rl_salt r) then Inl (ValueError ''enabled canary requires a rollout salt'')
      else Inr r)"

text \<open>\<open>int.from_bytes(digest[:8], "big")\<close>\<close>

definition bytes_number :: "string \<Rightarrow> int" where
  "bytes_number s = foldl (\<lambda>n c. 256 * n + int (of_char c)) 0 s"

definition rollout_bucket :: "(string \<Rightarrow> string) \<Rightarrow> root_rollout \<Rightarrow> string \<Rightarrow> string \<Rightarrow> string \<Rightarrow> int" where
  "rollout_bucket digest r tenant app chat =
     bytes_number (take 8 (digest (rl_salt r @ [CHR 0x00] @ tenant @ [CHR 0x00] @ app @ [CHR 0x00] @ chat))) mod 100"

text \<open>The assertion cannot fail on a checked rollout; without one it raises.\<close>

definition select_version :: "(string \<Rightarrow> string) \<Rightarrow> root_rollout \<Rightarrow> string \<Rightarrow> string \<Rightarrow> string \<Rightarrow> exn + int" where
  "select_version digest r tenant app chat =
     (if tenant = [] \<or> app = [] \<or> chat = [] then Inl (ValueError ''rollout selection requires trusted group bindings'')
      else if rl_canary_percent r = 0 then Inr (rl_stable_version r)
      else if rollout_bucket digest r tenant app chat < rl_canary_percent r
      then (case rl_canary_version r of Some v \<Rightarrow> Inr v | None \<Rightarrow> Inl (OtherError ''AssertionError'' []))
      else Inr (rl_stable_version r))"

lemma rollout_bucket_range: "0 \<le> rollout_bucket digest r tenant app chat \<and> rollout_bucket digest r tenant app chat < 100"
  by (simp add: rollout_bucket_def)

lemma select_version_cases:
  assumes "check_rollout r = Inr r" "[] \<notin> {tenant, app, chat}"
  shows "select_version digest r tenant app chat = Inr
    (if rollout_bucket digest r tenant app chat < rl_canary_percent r then the (rl_canary_version r) else rl_stable_version r)"
  using assms rollout_bucket_range [of digest r tenant app chat]
  by (auto simp: select_version_def check_rollout_def split: if_splits option.splits)

text \<open>
  A rollout only ever grows: when the percentage of a checked rollout is raised, every group keeps the canary
  version once it has it, and the groups that change, change from stable to canary; at 100 percent every group has it.
\<close>

lemma rollout_monotone:
  assumes "check_rollout r = Inr r" and "r' = r\<lparr>rl_canary_percent := percent\<rparr>" and "check_rollout r' = Inr r'"
    and "rl_canary_percent r \<le> percent" and "[] \<notin> {tenant, app, chat}"
  shows "(select_version digest r' tenant app chat = select_version digest r tenant app chat \<or>
      (select_version digest r tenant app chat = Inr (rl_stable_version r) \<and>
       map_sum id Some (select_version digest r' tenant app chat) = Inr (rl_canary_version r))) \<and>
    (percent = 100 \<longrightarrow> map_sum id Some (select_version digest r' tenant app chat) = Inr (rl_canary_version r))"
proof -
  have r': "rollout_bucket digest r' tenant app chat = rollout_bucket digest r tenant app chat"
    "rl_stable_version r' = rl_stable_version r" "rl_canary_version r' = rl_canary_version r" "rl_canary_percent r' = percent"
    using assms(2) by (simp_all add: rollout_bucket_def)
  have canary: "rl_canary_version r = Some (the (rl_canary_version r))" if "0 < percent"
    using assms(3) r' that by (auto simp: check_rollout_def split: if_splits option.splits)
  note choice = select_version_cases [OF assms(1,5), of digest] select_version_cases [OF assms(3,5), of digest, unfolded r']
  show ?thesis
    using rollout_bucket_range [of digest r tenant app chat] canary assms(4) by (auto simp: choice)
qed

section \<open>Write targets\<close>

text \<open>\<open>str.split()\<close>: the words between runs of whitespace.\<close>

fun words_from :: "string \<Rightarrow> string \<Rightarrow> string list" where
  "words_from word [] = (if word = [] then [] else [word])"
| "words_from word (ch # s) =
     (if is_space ch then (if word = [] then words_from [] s else word # words_from [] s) else words_from (word @ [ch]) s)"

definition text_words :: "string \<Rightarrow> string list" where
  "text_words s = words_from [] s"

definition logical_reservation ::
  "(string \<Rightarrow> string) \<Rightarrow> (string \<Rightarrow> string) \<Rightarrow> (string \<Rightarrow> string) \<Rightarrow> string \<Rightarrow> string \<Rightarrow> exn + write_scope_target" where
  "logical_reservation nfkc casefold sha256 resource_type v =
     (if resource_type = [] \<or> blank v then Inl (ValueError ''logical reservation identity is required'')
      else Inr \<lparr>ws_resource_type = resource_type, ws_resource_id = ''logical:'' @
        sha256 (resource_type @ [CHR 0x00] @ casefold (join_text '' '' (text_words (nfkc v)))), ws_expected_revision = None\<rparr>)"

definition exact_target :: "string \<Rightarrow> string list \<Rightarrow> exn + write_scope_target" where
  "exact_target resource_type parts =
     (if resource_type = [] \<or> parts = [] \<or> list_ex blank parts
      then Inl (ValueError ''exact write target identity is required'')
      else Inr \<lparr>ws_resource_type = resource_type, ws_resource_id = join_text '':'' parts, ws_expected_revision = None\<rparr>)"

lemma words_from_words: "w \<in> set (words_from word s) \<Longrightarrow> list_all (\<lambda>c. \<not> is_space c) word \<Longrightarrow> w \<noteq> [] \<and> list_all (\<lambda>c. \<not> is_space c) w"
  by (induction word s rule: words_from.induct) (auto split: if_splits)

lemma words_from_append: "list_all (\<lambda>c. \<not> is_space c) w \<Longrightarrow> words_from word (w @ s) = words_from (word @ w) s"
  by (induction w arbitrary: word) auto

text \<open>Normalizing a title twice changes nothing: the words of the joined words are the words.\<close>

lemma words_join: "text_words (join_text '' '' (text_words s)) = text_words s"
proof -
  have "text_words (join_text '' '' ws) = ws" if "\<forall>w \<in> set ws. w \<noteq> [] \<and> list_all (\<lambda>c. \<not> is_space c) w" for ws
    using that
  proof (induction "'' ''" ws rule: join_text.induct)
    case (2 w)
    then show ?case using words_from_append [of w "[]" "[]"] by (simp add: text_words_def)
  next
    case (3 w v vs)
    then show ?case using words_from_append [of w "[]" "CHR '' '' # join_text '' '' (v # vs)"]
      by (simp add: text_words_def is_space_def)
  qed (simp add: text_words_def)
  with words_from_words [of _ "[]" s] show ?thesis by (simp add: text_words_def)
qed

text \<open>
  Two logical reservations of the same kind name the same target whenever their titles differ only in how
  their words are spaced (here under a normalization that leaves the spacing alone).
\<close>

lemma reservation_ignores_spacing:
  assumes "text_words v = text_words v'" and "\<And>s. nfkc s = s"
  shows "logical_reservation nfkc casefold sha256 resource_type v = logical_reservation nfkc casefold sha256 resource_type v'"
proof -
  have "blank s \<longleftrightarrow> text_words s = []" for s
  proof -
    have "words_from word s = [] \<longleftrightarrow> word = [] \<and> blank s" for word
      by (induction word s rule: words_from.induct) (auto simp: blank_def)
    then show ?thesis by (simp add: text_words_def)
  qed
  with assms show ?thesis by (simp add: logical_reservation_def)
qed

end
