(* ===== verification/HarnessKeeps.thy ===== *)
theory HarnessKeeps
  imports Harness ToolProps RunOutcomes
begin

text \<open>
  What the steps of a run keep. A property of the run that survives the moments of other clients, the
  calls of the stores and of the tools, and the bookkeeping of the loop survives a whole turn up to the
  point where its tool results are recorded.
\<close>

section \<open>Keeping a property\<close>

named_theorems flow_rules \<open>flows that keep a property\<close>

definition flow_keeps :: "('s \<Rightarrow> bool) \<Rightarrow> ('s, 'a) flow \<Rightarrow> bool" where
  "flow_keeps P f \<longleftrightarrow> (\<forall>s r s'. P s \<longrightarrow> f s = Some (r, s') \<longrightarrow> P s')"

lemma flow_keepsI: "(\<And>s r s'. P s \<Longrightarrow> f s = Some (r, s') \<Longrightarrow> P s') \<Longrightarrow> flow_keeps P f"
  by (auto simp: flow_keeps_def)

lemma flow_keepsD: "flow_keeps P f \<Longrightarrow> f s = Some (r, s') \<Longrightarrow> P s \<Longrightarrow> P s'"
  by (auto simp: flow_keeps_def)

lemma and_thenE:
  assumes "and_then m f s = Some (r, s')"
  obtains (raised) e where "m s = Some (Inl e, s')" "r = Inl e"
    | (returned) a s1 where "m s = Some (Inr a, s1)" "f a s1 = Some (r, s')"
  using assms by (auto simp: and_then_def split: option.splits prod.splits sum.splits)

lemma keeps_basic [flow_rules]:
  "flow_keeps P (return_with a)" "flow_keeps P (raising e)"
  by (auto simp: flow_keeps_def return_with_def raising_def)

lemma keeps_cancelled [flow_rules]: "flow_keeps P raise_if_cancelled"
  by (auto simp: flow_keeps_def raise_if_cancelled_def split: option.splits)

lemma keeps_and_then [flow_rules]:
  assumes "flow_keeps P m" "\<And>a. flow_keeps P (f a)"
  shows "flow_keeps P (and_then m f)"
  by (rule flow_keepsI, erule and_thenE) (auto dest: flow_keepsD [OF assms(1)] flow_keepsD [OF assms(2)])

lemma keeps_modify: "(\<And>s. P s \<Longrightarrow> P (f s)) \<Longrightarrow> flow_keeps P (modify f)"
  by (auto simp: flow_keeps_def modify_def)

lemma keeps_for_each [flow_rules]: "(\<And>y. flow_keeps P (f y)) \<Longrightarrow> flow_keeps P (for_each f ys)"
  by (induction ys) (auto intro: flow_rules)

lemma keeps_collect [flow_rules]: "(\<And>y. flow_keeps P (f y)) \<Longrightarrow> flow_keeps P (collect f ys)"
  by (induction ys) (auto intro: flow_rules)

lemma keeps_if [flow_rules]: "flow_keeps P f \<Longrightarrow> flow_keeps P g \<Longrightarrow> flow_keeps P (if b then f else g)"
  by simp

text \<open>A flow that reads the state first.\<close>

lemma keeps_reading: "(\<And>x. flow_keeps P (f x)) \<Longrightarrow> flow_keeps P (\<lambda>s. f (g s) s)"
  by (auto simp: flow_keeps_def)

lemma collect_length: "collect f ys s = Some (Inr rs, s') \<Longrightarrow> length rs = length ys"
proof (induction ys arbitrary: s rs)
  case (Cons y ys)
  then show ?case
    by (auto elim!: and_thenE simp: return_with_def)
qed (simp add: return_with_def)

section \<open>What a call does to the runtime store\<close>

definition stepped_world :: "'b rt_db \<Rightarrow> ('b, 'e) tool_world \<Rightarrow> bool" where
  "stepped_world db w \<longleftrightarrow> store_step db (tw_db w)"

lemma on_db_stepped:
  assumes "on_db f w = (r, w1)" "stepped_world db w" "store_step (tw_db w) (snd (f (tw_db w)))"
  shows "stepped_world db w1"
  using assms by (auto simp: on_db_def stepped_world_def split: prod.splits intro: store_step_trans)

lemma complete_operation_stepped:
  "complete_operation x t call cx now observation v w = (phase', w1) \<Longrightarrow> stepped_world db w \<Longrightarrow> stepped_world db w1"
  unfolding complete_operation_def
  by (auto split: prod.splits sum.splits elim!: on_db_stepped intro: store_step_complete)

lemma on_env_db: "on_env f w = (r, w1) \<Longrightarrow> tw_db w1 = tw_db w"
  by (auto simp: on_env_def split: prod.splits)

lemma operation_step_stepped:
  assumes s: "operation_step x t call cx now phase w = (phase', w1)" and w: "stepped_world db w" and t: "legal_tool t"
  shows "stepped_world db w1"
proof (cases phase)
  case Claiming
  obtain a w2 where a: "on_db (claim_idempotency (operation_key x call (st_definition t) cx) (td_tool_id (st_definition t))
      (operation_owner cx) (now + te_claim_lease_ms x) now) w = (a, w2)" by fastforce
  have "w2 = w1" using s a Claiming by (cases a) auto
  with on_db_stepped [OF a w store_step_claim] show ?thesis by simp
next
  case (Settling n)
  with s have "complete_operation x t call cx now (tn_observation n) (tn_verification n) w = (phase', w1)" by simp
  then show ?thesis using w by (rule complete_operation_stepped)
next
  case (Completing observation v)
  with s have "complete_operation x t call cx now observation v w = (phase', w1)" by simp
  then show ?thesis using w by (rule complete_operation_stepped)
next
  case Reconciling
  then obtain r where "st_reconcile t (call_arguments call) cx w = (r, w1)" using s by (auto split: prod.splits)
  from legal_toolD(3) [OF t this] w show ?thesis unfolding stepped_world_def by (rule store_step_trans [rotated])
next
  case Executing
  then obtain r where "st_execute t (call_arguments call) cx w = (r, w1)" using s by (auto split: prod.splits sum.splits)
  from legal_toolD(1) [OF t this] w show ?thesis unfolding stepped_world_def by (rule store_step_trans [rotated])
next
  case (Verifying observation)
  then obtain r where "st_verify t (call_arguments call) observation cx w = (r, w1)" using s by (auto split: prod.splits sum.splits)
  from legal_toolD(2) [OF t this] w show ?thesis unfolding stepped_world_def by (rule store_step_trans [rotated])
qed (use s w in simp)

lemma abandon_stepped:
  assumes "legal_tool t" "stepped_world db w"
  shows "stepped_world db (abandon_operation t call cx phase w)"
  using assms(2) store_step_trans [OF _ legal_toolD(4) [OF assms(1), of w "call_arguments call" cx]]
  by (auto simp: abandon_operation_def stepped_world_def split: op_phase.splits)

lemma execute_tool_stepped:
  assumes "legal_executor x" "execute_tool x call cx now ticks w = Some (r, w')"
  shows "store_step (tw_db w) (tw_db w')"
  using assms(2)
proof (cases rule: execute_tool_cases)
  case refused
  then show ?thesis using screen_call_store [OF assms(1)] by auto
next
  case (admitted t)
  let ?v = "snd (screen_call x (st_definition t) call cx w)"
  have v: "store_step (tw_db w) (tw_db ?v)" by (rule screen_call_store [OF assms(1)])
  note t = legal_registered [OF assms(1) admitted(1)]
  from admitted(4) show ?thesis
  proof cases
    case refused
    with v show ?thesis by (simp add: same_stores_def)
  next
    case (ran w1 r1 w2)
    have "stepped_world (tw_db w) w1" using ran(2) v by (simp add: stepped_world_def same_stores_def)
    with ran(1) have "stepped_world (tw_db w) w2 \<or> (\<exists>phase v m. stepped_world (tw_db w) v \<and>
        w2 = abandon_operation t call cx phase v \<and>
        r1 = Inr (tool_failure call (td_effect (st_definition t)) ''write_lock_expired'' m))"
    proof (rule ran_operation_keeps [where P = "\<lambda>phase. stepped_world (tw_db w)"])
      show "stepped_world (tw_db w) v'" if "stepped_world (tw_db w) v"
        "operation_step x t call cx now phase v = (phase', v')" for phase v now phase' v'
        using operation_step_stepped [OF that(2,1) t] .
    qed (simp add: stepped_world_def)
    then have "stepped_world (tw_db w) w2" using abandon_stepped [OF t] by blast
    with ran(3) show ?thesis by (simp add: stepped_world_def same_stores_def)
  qed
qed

text \<open>What the tool calls of a harness may do to the runtime store.\<close>

definition executes_within :: "('b rt_db \<Rightarrow> 'b rt_db \<Rightarrow> bool) \<Rightarrow> ('b, 'e) agent_harness \<Rightarrow> bool" where
  "executes_within step h \<longleftrightarrow> (\<forall>call cx now ticks w r w'.
     execute_tool (hn_executor h) call cx now ticks w = Some (r, w') \<longrightarrow> step (tw_db w) (tw_db w'))"

lemma executes_within_any [simp]: "executes_within (\<lambda>a b. True) h"
  by (simp add: executes_within_def)

lemma executes_within_store: "legal_executor (hn_executor h) \<Longrightarrow> executes_within store_step h"
  by (auto simp: executes_within_def execute_tool_stepped)

section \<open>What a turn keeps\<close>

text \<open>
  A property of the run that the moments, the calls and the bookkeeping of the loop keep. \<open>legal\<close> says
  which moments are considered, \<open>step\<close> what a call may do to the runtime store.
\<close>

locale run_invariant =
  fixes P :: "('b, 'e) harness_run \<Rightarrow> bool" and legal :: "('b, 'e) moment \<Rightarrow> bool" and step :: "'b rt_db \<Rightarrow> 'b rt_db \<Rightarrow> bool"
  assumes next_one: "P s \<Longrightarrow> hr_moments s = m # ms \<Longrightarrow> legal m \<and> P (s\<lparr>hr_moments := ms\<rparr>)"
    and pass: "P s \<Longrightarrow> legal m \<Longrightarrow> P (pass_moment m s)"
    and called: "P s \<Longrightarrow> step (tw_db (hr_world s)) (tw_db w) \<Longrightarrow> P (s\<lparr>hr_world := w\<rparr>)"
    and stored: "store_step a b \<Longrightarrow> step a b"
    and joined: "step a b \<Longrightarrow> step b d \<Longrightarrow> step a d"
    and charged: "P s \<Longrightarrow> P (s\<lparr>hr_last_ns := n, hr_remainder_ns := k\<rparr>)"
    and consumed: "P s \<Longrightarrow> consume kind n False (hr_ledger s) = Inr l \<Longrightarrow> ledger_limits (hr_ledger s) kind \<noteq> None \<Longrightarrow>
      P (s\<lparr>hr_ledger := l\<rparr>)"
    and controlled: "P s \<Longrightarrow> P (apply_control c s)"
    and journalled: "P s \<Longrightarrow> P (s\<lparr>hr_journal := j\<rparr>)"
    and turned: "P s \<Longrightarrow> P (s\<lparr>hr_turn := hr_turn s + 1\<rparr>)"
    and acknowledged: "P s \<Longrightarrow> P (s\<lparr>hr_pending := []\<rparr>)"
begin

lemma keeps_store:
  assumes "\<And>db. store_step db (snd (f db))"
  shows "flow_keeps P (on_sessions f)"
proof (rule flow_keepsI)
  fix s r s'
  assume p: "P s" and f: "on_sessions f s = Some (r, s')"
  then obtain m ms where m: "hr_moments s = m # ms"
    by (auto simp: on_sessions_def next_moment_def and_then_def split: list.splits)
  let ?s = "pass_moment m (s\<lparr>hr_moments := ms\<rparr>)"
  have "P ?s" using next_one [OF p m] by (blast intro: pass)
  moreover have "s' = ?s\<lparr>hr_world := (hr_world ?s)\<lparr>tw_db := snd (f (tw_db (hr_world ?s)))\<rparr>\<rparr>"
    using f m by (auto simp: on_sessions_def next_moment_def and_then_def Let_def split: prod.splits)
  ultimately show "P s'" using called stored assms by simp
qed

lemma keeps_charge: "flow_keeps P (charge_wall_time n)"
proof (rule flow_keepsI)
  fix s r s'
  assume "P s" and "charge_wall_time n s = Some (r, s')"
  then show "P s'"
    using consumed [OF charged [where s = s and n = n]] charged
    by (auto simp: charge_wall_time_def Let_def split: if_splits sum.splits)
qed

lemma keeps_consume: "flow_keeps P (consume_if_limited kind n)"
  by (rule flow_keepsI) (auto simp: consume_if_limited_def split: if_splits sum.splits intro: consumed)

lemma keeps_wait:
  assumes "\<And>m w r w'. call m w = Some (r, w') \<Longrightarrow> step (tw_db w) (tw_db w')"
  shows "flow_keeps P (wait_for call)"
proof (rule flow_keepsI)
  fix s r s'
  assume p: "P s" and w: "wait_for call s = Some (r, s')"
  then obtain m ms where m: "hr_moments s = m # ms"
    by (auto simp: wait_for_def next_moment_def and_then_def split: list.splits)
  have n: "legal m" "P (s\<lparr>hr_moments := ms\<rparr>)" using next_one [OF p m] by auto
  obtain a s1 where a: "charge_wall_time (mo_start_ns m) (s\<lparr>hr_moments := ms\<rparr>) = Some (a, s1)"
    using w m by (auto simp: wait_for_def next_moment_def and_then_def split: option.splits)
  have p1: "P s1" by (rule flow_keepsD [OF keeps_charge a n(2)])
  let ?s = "pass_moment m s1"
  have p2: "P ?s" by (rule pass [OF p1 n(1)])
  have p3: "P (?s\<lparr>hr_world := w'\<rparr>)" if "call m (hr_world ?s) = Some (r', w')" for r' w'
    by (rule called [OF p2 assms [OF that]])
  have p4: "P s'" if "P s3" "and_then (charge_wall_time (mo_end_ns m)) (\<lambda>_ s4. Some (g s4, s4)) s3 = Some (r, s')" for s3 g
    using that(2) by (rule and_thenE) (auto intro: flow_keepsD [OF keeps_charge _ that(1)])
  show "P s'"
  proof (cases a)
    case (Inl e)
    with w m a p1 show ?thesis by (auto simp: wait_for_def next_moment_def and_then_def)
  next
    case (Inr u)
    with w m a p1 p2 p3 p4 show ?thesis
      by (auto simp: wait_for_def next_moment_def and_then_def [of next_moment] and_then_def [of "charge_wall_time (mo_start_ns m)"]
          Let_def split: if_splits option.splits prod.splits)
  qed
qed

lemma keeps_read: "flow_keeps P (on_sessions (\<lambda>db. (f db, db)))"
  by (rule keeps_store) simp

lemma keeps_event:
  assumes "ty \<noteq> ''run_terminal''"
  shows "flow_keeps P (run_event_flow h q now ty p)"
  unfolding run_event_flow_def
proof (intro keeps_and_then keeps_store keeps_basic)
  show "store_step db (snd (append_event (hn_cipher h) (hq_run_id q) ty p now db))" for db
    using store_step_op [of "OpAppendEvent (hn_cipher h) (hq_run_id q) ty p" db now] assms by simp
qed

lemma keeps_pending: "flow_keeps P (apply_pending h q)"
proof -
  have "P (fold apply_control ks s)" if "P s" for ks s
    using that by (induction ks arbitrary: s) (auto intro: controlled)
  then show ?thesis
    unfolding apply_pending_def by (intro keeps_if keeps_and_then keeps_read keeps_modify keeps_basic)
qed

lemma store_step_acknowledge: "store_step db (snd (acknowledge_controls i ids now db))"
  using store_step_op [of "OpAcknowledge i ids" db now] by simp

lemma keeps_acknowledge: "flow_keeps P (acknowledge_pending h q now)"
proof (rule flow_keepsI)
  fix s r s'
  assume "P s" "acknowledge_pending h q now s = Some (r, s')"
  then show "P s'"
    using flow_keepsD [OF keeps_store [OF store_step_acknowledge]] by (auto simp: acknowledge_pending_def split: if_splits)
qed

lemma on_env_same_db: "on_env f w = (r, w1) \<Longrightarrow> tw_db w1 = tw_db w"
  by (auto simp: on_env_def split: prod.splits)

lemma complete_model_db: "complete_model h mq cx m w = Some (r, w') \<Longrightarrow> tw_db w' = tw_db w"
  by (auto simp: complete_model_def Let_def split: option.splits prod.splits sum.splits if_splits dest!: on_env_same_db)

lemma keeps_model: "flow_keeps P (wait_for (complete_model h mq cx))"
  by (rule keeps_wait) (simp add: complete_model_db stored)

lemma keeps_tools:
  assumes "executes_within step h"
  shows "flow_keeps P (run_calls h q calls)"
proof -
  have one: "step (tw_db w) (tw_db w')" if "execute_tool (hn_executor h) call cx now ticks w = Some (r, w')"
    for call cx now ticks r and w w' :: "('b, 'e) tool_world"
    using assms that by (auto simp: executes_within_def)
  have "step (tw_db w) (tw_db w')"
    if "collect (\<lambda>call. execute_tool (hn_executor h) call cx now ticks) cs w = Some (rs, w')"
    for cx now ticks cs and w w' :: "('b, 'e) tool_world" and rs
  proof -
    have "flow_keeps (\<lambda>v. step (tw_db w) (tw_db v)) (collect (\<lambda>call. execute_tool (hn_executor h) call cx now ticks) cs)"
      by (intro keeps_collect flow_keepsI) (blast intro: joined one)
    from flow_keepsD [where P = "\<lambda>v. step (tw_db w) (tw_db v)" and s' = w', OF this that] show ?thesis by (simp add: stored)
  qed
  then show ?thesis
    unfolding run_calls_def Let_def
    by (split sum.split) (intro conjI allI impI keeps_basic keeps_if keeps_wait keeps_collect; (assumption | rule one))
qed

lemma keeps_build: "flow_keeps P (build_flow d loaded q)"
  by (rule flow_keepsI) (auto simp: build_flow_def)

lemma keeps_ask: "flow_keeps P (ask_model h q d loaded now)"
  unfolding ask_model_def
  by (intro keeps_and_then keeps_modify keeps_pending keeps_cancelled keeps_build keeps_if keeps_event keeps_model keeps_basic
      keeps_reading [where f = "\<lambda>x. run_event_flow h q now ''turn_started'' (x::payload)"])
    (auto intro: turned flow_keepsI keeps_event simp: flow_keeps_def)

lemma keeps_event_read:
  assumes "ty \<noteq> ''run_terminal''"
  shows "flow_keeps P (\<lambda>s. run_event_flow h q now ty (g s) s)"
  by (rule keeps_reading [where f = "\<lambda>x. run_event_flow h q now ty x"]) (rule keeps_event [OF assms])

lemma keeps_response: "flow_keeps P (record_response h q now r)"
  unfolding record_response_def
  by (rule keeps_and_then, rule keeps_consume, rule keeps_and_then, rule keeps_modify, erule journalled,
      rule keeps_and_then, rule keeps_event_read, simp, rule keeps_and_then, rule keeps_pending, rule keeps_cancelled)

lemma keeps_record:
  assumes "\<And>s. P s \<Longrightarrow> P (note_result h r s)"
  shows "flow_keeps P (record_result h q now r)"
  unfolding record_result_def
  by (intro keeps_and_then keeps_if keeps_consume keeps_modify keeps_event keeps_basic) (simp_all add: assms)

lemma keeps_request: "flow_keeps P (request_call h q now call)"
  unfolding request_call_def by (intro keeps_and_then keeps_consume keeps_cancelled keeps_event) simp

lemma store_step_save: "store_step db (snd (save_checkpoint c k now db))"
  using store_step_op [of "OpSaveCheckpoint c k" db now] by simp

lemma keeps_save: "flow_keeps P (save_turn h q d loaded fingerprint now cb)"
  unfolding save_turn_def
proof (intro keeps_and_then keeps_acknowledge keeps_modify)
  show "flow_keeps P (\<lambda>s. on_sessions (save_checkpoint (hn_cipher h) (turn_checkpoint q d loaded fingerprint cb s) now) s)"
    by (rule keeps_reading [where f = "\<lambda>k. on_sessions (save_checkpoint (hn_cipher h) k now)"])
      (intro keeps_store store_step_save)
qed (rule acknowledged)

lemma keeps_close: "flow_keeps P (close_turn h q d loaded fingerprint now cb)"
  unfolding close_turn_def
  by (intro keeps_and_then keeps_pending keeps_cancelled keeps_save keeps_event_read) simp

lemma store_step_finish: "store_step db (snd (try_finish_with_outcome c i outcome applied now db))"
  using store_step_op [of "OpTryFinish c i outcome applied" db now] by simp

lemma keeps_finish: "flow_keeps P (finish_flow h q outcome applied now)"
  unfolding finish_flow_def by (intro keeps_store store_step_finish)

lemma keeps_answer: "flow_keeps P (answer_turn h q d loaded fingerprint now cb content)"
proof (rule flow_keepsI)
  fix s r s'
  assume p: "P s" and a: "answer_turn h q d loaded fingerprint now cb content s = Some (r, s')"
  show "P s'"
  proof (cases "hr_pending s = []")
    case True
    let ?f = "\<lambda>outcome. and_then (finish_flow h q outcome [] now) (\<lambda>b. return_with (if b then Some outcome else None))"
    have "flow_keeps P (?f outcome)" for outcome by (intro keeps_and_then keeps_finish keeps_basic)
    moreover have "?f (run_outcome content d (hr_verified s) (hr_unresolved s)) s = Some (r, s')"
      using a True by (simp add: answer_turn_def Let_def)
    ultimately show ?thesis using p by (blast intro: flow_keepsD)
  next
    case False
    let ?f = "and_then (save_turn h q d loaded fingerprint now cb) (\<lambda>_. return_with (None :: agent_outcome option))"
    have "flow_keeps P ?f" by (intro keeps_and_then keeps_save keeps_basic)
    moreover have "?f s = Some (r, s')" using a False by (simp add: answer_turn_def)
    ultimately show ?thesis using p by (blast intro: flow_keepsD)
  qed
qed

lemma keeps_end_failed: "flow_keeps P (end_failed h q now e)"
proof (cases "failure_outcome e")
  case (Some outcome)
  have "flow_keeps P (\<lambda>s. finish_flow h q outcome (if b then hr_pending s else []) now s)" for b
    by (rule keeps_reading [where f = "\<lambda>ids. finish_flow h q outcome ids now"]) (rule keeps_finish)
  with Some show ?thesis
    by (simp only: end_failed_def Let_def option.case) (intro keeps_and_then keeps_if keeps_acknowledge keeps_basic)
qed (simp add: end_failed_def keeps_basic)

end

section \<open>What a whole run keeps\<close>

text \<open>
  The same for a property that also survives the recording of results and the restoring of a checkpoint:
  it holds of a run from its opening to its end, however it ends.
\<close>

locale whole_run_invariant = run_invariant +
  assumes noted: "P s \<Longrightarrow> P (note_result h r s)"
    and collected: "P s \<Longrightarrow> P (s\<lparr>hr_results := rs\<rparr>)"
    and restored: "P s \<Longrightarrow> P (restored_run k s)"
    and budgeted: "P s \<Longrightarrow> P (s\<lparr>hr_ledger := l\<rparr>)"
    and next_turn: "P s \<Longrightarrow> (\<And>m. m \<in> set ms \<Longrightarrow> legal m) \<Longrightarrow> P (s\<lparr>hr_moments := ms\<rparr>)"
begin

lemma keeps_tools_turn:
  assumes "executes_within step h"
  shows "flow_keeps P (tools_turn h q d loaded fingerprint now cb calls)"
  unfolding tools_turn_def
  by (intro keeps_and_then keeps_for_each keeps_request keeps_tools keeps_modify keeps_record keeps_close keeps_basic)
    (simp_all add: collected noted assms)

lemma keeps_turn:
  assumes "executes_within step h"
  shows "flow_keeps P (harness_turn h q d loaded fingerprint now)"
  unfolding harness_turn_def case_prod_unfold
  by (intro keeps_and_then keeps_ask keeps_response keeps_if keeps_answer keeps_tools_turn assms)

lemma keeps_turns:
  assumes h: "executes_within step h" and "\<And>m ms. ms \<in> set turns \<Longrightarrow> m \<in> set ms \<Longrightarrow> legal m"
  shows "flow_keeps P (run_turns h q d loaded fingerprint now turns)"
proof (rule flow_keepsI)
  fix s r s'
  assume "P s" "run_turns h q d loaded fingerprint now turns s = Some (r, s')"
  then show "P s'" using assms(2)
  proof (induction turns arbitrary: s)
    case (Cons ms turns)
    obtain a s1 where a: "harness_turn h q d loaded fingerprint now (s\<lparr>hr_moments := ms\<rparr>) = Some (a, s1)"
      using Cons.prems(2) by (auto split: option.splits)
    have "P (s\<lparr>hr_moments := ms\<rparr>)" using Cons.prems(1,3) by (intro next_turn) auto
    with a have p1: "P s1" by (blast intro: flow_keepsD [OF keeps_turn [OF h]])
    consider e where "a = Inl e" | outcome where "a = Inr (Some outcome)" | "a = Inr None"
      by (cases a) auto
    then show ?case
    proof cases
      case 1
      with a Cons.prems(2) have "end_failed h q now e s1 = Some (r, s')" by simp
      with p1 show ?thesis by (blast intro: flow_keepsD [OF keeps_end_failed])
    next
      case 2
      with a Cons.prems(2) p1 show ?thesis by simp
    next
      case 3
      with a Cons.prems(2) have "run_turns h q d loaded fingerprint now turns s1 = Some (r, s')" by simp
      with Cons.IH [OF p1] Cons.prems(3) show ?thesis by auto
    qed
  qed simp
qed

lemma keeps_restore: "flow_keeps P (restore_budget items)"
proof (rule flow_keepsI)
  fix s r s'
  assume "P s" "restore_budget items s = Some (r, s')"
  then show "P s'"
    by (induction items s arbitrary: r rule: restore_budget.induct) (auto simp: budgeted split: sum.splits if_splits)
qed

lemma store_step_discard: "store_step db (snd (discard_checkpoint i db))"
  using store_step_op [of "OpDiscardCheckpoint i" db 0] by simp

lemma store_step_start: "store_step db (snd (start_run i task key agent v p now trace db))"
  using store_step_op [of "OpStartRun i task key agent v p trace" db now] by simp

lemma keeps_resume: "flow_keeps P (resume_run h q d loaded fingerprint now)"
proof -
  have "flow_keeps P (resume_checkpoint h q now k)" for k
    unfolding resume_checkpoint_def
    by (intro keeps_and_then keeps_modify keeps_if keeps_store store_step_acknowledge keeps_restore keeps_basic) (rule restored)
  moreover have "flow_keeps P (and_then (on_sessions (discard_checkpoint (hq_run_id q))) (\<lambda>_.
      run_event_flow h q now ''checkpoint_invalidated'' p))" for p
    by (intro keeps_and_then keeps_store store_step_discard keeps_event) simp
  ultimately show ?thesis
    unfolding resume_run_def
    by (intro keeps_and_then keeps_read keeps_if keeps_basic) (auto split: option.splits sum.splits intro: keeps_basic)
qed

lemma keeps_begin: "flow_keeps P (begin_run h q d now)"
  unfolding begin_run_def by (intro keeps_and_then keeps_store store_step_start keeps_event) simp

lemma keeps_run:
  assumes "agent_run h q d token resume now start_ns opening turns w = Some (r, s)"
    and "\<And>ledger. P (new_run ledger token opening w)" and "\<And>m ms. ms \<in> set turns \<Longrightarrow> m \<in> set ms \<Longrightarrow> legal m"
    and "executes_within step h"
  shows "P s"
proof (cases "prepare_run h d")
  case (Inl e)
  with assms(1,2) show ?thesis by (auto simp: agent_run_def raising_def)
next
  case (Inr a)
  obtain loaded fingerprint ledger where a: "a = (loaded, fingerprint, ledger)" by (cases a)
  let ?f = "and_then (if resume then resume_run h q d loaded fingerprint now else begin_run h q d now) (\<lambda>_.
    and_then (modify (\<lambda>s. s\<lparr>hr_last_ns := start_ns, hr_remainder_ns := 0\<rparr>)) (\<lambda>_.
    run_turns h q d loaded fingerprint now turns))"
  have "flow_keeps P ?f"
    by (intro keeps_and_then keeps_if keeps_resume keeps_begin keeps_modify keeps_turns) (auto intro: charged assms(3,4))
  moreover have "?f (new_run ledger token opening w) = Some (r, s)" using assms(1) Inr a by (simp add: agent_run_def)
  ultimately show ?thesis using assms(2) by (blast intro: flow_keepsD)
qed

end

end
