(* ===== verification/HarnessProps.thy ===== *)
theory HarnessProps
  imports HarnessKeeps
begin

text \<open>
  What a run of the harness promises: the outcome it returns is the outcome the store records, a
  completed run has no unverified external effect, and tools are called within the budget.
\<close>

section \<open>The outcome is recorded\<close>

definition legal_moment :: "('b, 'e) moment \<Rightarrow> bool" where
  "legal_moment m \<longleftrightarrow> legal_ops (mo_ops m)"

definition sessions_kept :: "('b, 'e) harness_run \<Rightarrow> bool" where
  "sessions_kept s \<longleftrightarrow> sessions_ok (tw_db (hr_world s)) \<and> (\<forall>m \<in> set (hr_moments s). legal_moment m)"

lemma run_sessions_ok: "sessions_ok db \<Longrightarrow> legal_ops ops \<Longrightarrow> sessions_ok (timed_run rt_step ops db)"
  unfolding legal_ops_def
  by (induction ops arbitrary: db) (auto simp: step_sessions_ok)

lemma store_step_sessions: "store_step db db' \<Longrightarrow> sessions_ok db \<Longrightarrow> sessions_ok db'"
  by (auto simp: store_step_def run_sessions_ok)

lemma run_outcome_kept:
  "sessions_ok db \<Longrightarrow> legal_ops ops \<Longrightarrow> has_outcome c i outcome db \<Longrightarrow> has_outcome c i outcome (timed_run rt_step ops db)"
  unfolding legal_ops_def
  by (induction ops arbitrary: db) (auto simp: step_sessions_ok step_outcome)

lemma pass_moment_world: "hr_world (pass_moment m s) = others_act m (hr_world s)"
  by (simp add: pass_moment_def cancel_token_def Let_def split: option.splits)

lemma pass_moment_moments: "hr_moments (pass_moment m s) = hr_moments s"
  by (simp add: pass_moment_def cancel_token_def Let_def split: option.splits)

lemma others_db [simp]: "tw_db (others_act m w) = timed_run rt_step (mo_ops m) (tw_db w)"
  by (simp add: others_act_def)

lemma apply_control_frame:
  "hr_world (apply_control c s) = hr_world s" "hr_moments (apply_control c s) = hr_moments s"
  "hr_results (apply_control c s) = hr_results s" "hr_verified (apply_control c s) = hr_verified s"
  "hr_unresolved (apply_control c s) = hr_unresolved s" "hr_ledger (apply_control c s) = hr_ledger s"
  by (simp_all add: apply_control_def cancel_token_def Let_def split: run_control_kind.splits)

lemma pass_moment_frame:
  "hr_results (pass_moment m s) = hr_results s" "hr_verified (pass_moment m s) = hr_verified s"
  "hr_unresolved (pass_moment m s) = hr_unresolved s" "hr_ledger (pass_moment m s) = hr_ledger s"
  by (simp_all add: pass_moment_def cancel_token_def Let_def split: option.splits)

lemma note_result_frame:
  "hr_world (note_result h r s) = hr_world s" "hr_moments (note_result h r s) = hr_moments s"
  "hr_results (note_result h r s) = hr_results s" "hr_ledger (note_result h r s) = hr_ledger s"
  by (simp_all add: note_result_def Let_def)

interpretation sessions_run: whole_run_invariant sessions_kept legal_moment store_step
  by unfold_locales
    (auto simp: sessions_kept_def legal_moment_def pass_moment_world pass_moment_moments apply_control_frame note_result_frame
      restored_run_def run_sessions_ok store_step_sessions intro: store_step_trans)

text \<open>Once the outcome is there, it stays.\<close>

definition outcome_kept :: "'b cipher \<Rightarrow> string \<Rightarrow> agent_outcome \<Rightarrow> ('b, 'e) harness_run \<Rightarrow> bool" where
  "outcome_kept c i outcome s \<longleftrightarrow> sessions_kept s \<and> has_outcome c i outcome (tw_db (hr_world s))"

lemma store_step_outcome:
  "store_step db db' \<Longrightarrow> sessions_ok db \<Longrightarrow> has_outcome c i outcome db \<Longrightarrow> has_outcome c i outcome db'"
  by (auto simp: store_step_def run_outcome_kept)

interpretation outcome_run: run_invariant "outcome_kept c i outcome" legal_moment store_step
  by unfold_locales
    (auto simp: outcome_kept_def sessions_kept_def legal_moment_def pass_moment_world pass_moment_moments apply_control_frame
      run_sessions_ok run_outcome_kept store_step_sessions store_step_outcome intro: store_step_trans)

lemma finish_recorded:
  assumes "sessions_kept s" and "finish_flow h q outcome applied now s = Some (Inr b, s')"
    and "b \<or> oc_status outcome \<noteq> COMPLETED"
  shows "outcome_kept (hn_cipher h) (hq_run_id q) outcome s' \<and> oc_status outcome \<noteq> RUNNING"
proof -
  obtain m ms where m: "hr_moments s = m # ms"
    using assms(2) by (auto simp: finish_flow_def on_sessions_def next_moment_def and_then_def split: list.splits)
  let ?s = "pass_moment m (s\<lparr>hr_moments := ms\<rparr>)"
  obtain db where db: "try_finish_with_outcome (hn_cipher h) (hq_run_id q) outcome applied now (tw_db (hr_world ?s)) = (Inr b, db)"
    "tw_db (hr_world s') = db"
    using assms(2) m by (auto simp: finish_flow_def on_sessions_def next_moment_def and_then_def Let_def split: prod.splits)
  have kept: "sessions_kept ?s" using sessions_run.next_one [OF assms(1) m] sessions_run.pass by blast
  have b: b using try_finish_Inr(1) [OF db(1)] assms(3) by (cases rule: try_finish_tx_cases) auto
  have "sessions_kept s'" using flow_keepsD [OF sessions_run.keeps_finish assms(2) assms(1)] .
  moreover have "has_outcome (hn_cipher h) (hq_run_id q) outcome db"
    using kept try_finish_outcome db(1) b by (auto simp: sessions_kept_def)
  ultimately show ?thesis using db try_finish_Inr(2) [OF db(1)] by (simp add: outcome_kept_def)
qed

text \<open>The two ways a run returns an outcome.\<close>

lemma failure_status: "failure_outcome e = Some outcome \<Longrightarrow> oc_status outcome = FAILED \<or> oc_status outcome = CANCELLED"
  by (cases e) (auto simp: failure_outcome_def failed_run_def split: if_splits)

lemma end_failed_recorded:
  assumes "sessions_kept s" and "end_failed h q now e s = Some (Inr outcome, s')"
  shows "outcome_kept (hn_cipher h) (hq_run_id q) outcome s' \<and> (oc_status outcome = FAILED \<or> oc_status outcome = CANCELLED)"
proof -
  obtain o' where o': "failure_outcome e = Some o'"
    using assms(2) by (cases "failure_outcome e") (auto simp: end_failed_def raising_def)
  note st = failure_status [OF o']
  define stopped where "stopped \<longleftrightarrow> oc_status o' = CANCELLED"
  from assms(2) o' obtain b s1 s2 where f: "finish_flow h q o' (if stopped then hr_pending s else []) now s = Some (Inr b, s1)"
    and a: "(if stopped then acknowledge_pending h q now else return_with ()) s1 = Some (Inr (), s2)"
    and r: "outcome = o'" "s' = s2"
    by (auto simp: end_failed_def Let_def stopped_def return_with_def elim!: and_thenE)
  have "outcome_kept (hn_cipher h) (hq_run_id q) o' s1"
    using finish_recorded [OF assms(1) f] st by auto
  then have "outcome_kept (hn_cipher h) (hq_run_id q) o' s2"
    using flow_keepsD [OF outcome_run.keeps_acknowledge] a by (auto simp: return_with_def split: if_splits)
  with r st show ?thesis by simp
qed

lemma answer_turn_outcome:
  assumes "answer_turn h q d loaded fingerprint now cb content s = Some (Inr (Some outcome), s')"
  shows "outcome = run_outcome content d (hr_verified s) (hr_unresolved s) \<and>
    finish_flow h q outcome [] now s = Some (Inr True, s')"
  using assms
  by (auto simp: answer_turn_def Let_def return_with_def elim!: and_thenE split: if_splits)

lemma tools_turn_goes_on: "tools_turn h q d loaded fingerprint now cb calls s = Some (Inr x, s') \<Longrightarrow> x = None"
  by (auto simp: tools_turn_def return_with_def elim!: and_thenE)

lemma harness_turn_cases:
  assumes "harness_turn h q d loaded fingerprint now s = Some (Inr x, s')"
  obtains cb r s1 s2 where "ask_model h q d loaded now s = Some (Inr (cb, r), s1)" "record_response h q now r s1 = Some (Inr (), s2)"
    "(if mr_tool_calls r = [] then answer_turn h q d loaded fingerprint now cb (mr_content r)
      else tools_turn h q d loaded fingerprint now cb (mr_tool_calls r)) s2 = Some (Inr x, s')"
  using assms by (auto simp: harness_turn_def elim!: and_thenE)

lemma run_turns_recorded:
  assumes h: "executes_within store_step h"
    and "sessions_kept s" and "\<And>m ms. ms \<in> set turns \<Longrightarrow> m \<in> set ms \<Longrightarrow> legal_moment m"
    and "run_turns h q d loaded fingerprint now turns s = Some (Inr outcome, s')"
  shows "outcome_kept (hn_cipher h) (hq_run_id q) outcome s' \<and> oc_status outcome \<noteq> RUNNING"
  using assms(2-4)
proof (induction turns arbitrary: s)
  case (Cons ms turns)
  obtain a s1 where a: "harness_turn h q d loaded fingerprint now (s\<lparr>hr_moments := ms\<rparr>) = Some (a, s1)"
    using Cons.prems(3) by (auto split: option.splits)
  have kept: "sessions_kept (s\<lparr>hr_moments := ms\<rparr>)" using Cons.prems(1,2) by (intro sessions_run.next_turn) auto
  with a have k1: "sessions_kept s1" by (blast intro: flow_keepsD [OF sessions_run.keeps_turn [OF h]])
  consider e where "a = Inl e" | o' where "a = Inr (Some o')" | "a = Inr None" by (cases a) auto
  then show ?case
  proof cases
    case 1
    with a Cons.prems(3) have "end_failed h q now e s1 = Some (Inr outcome, s')" by simp
    from end_failed_recorded [OF k1 this] show ?thesis by auto
  next
    case 2
    with a Cons.prems(3) have r: "harness_turn h q d loaded fingerprint now (s\<lparr>hr_moments := ms\<rparr>) = Some (Inr (Some outcome), s')"
      by simp
    obtain cb rs s2 s3 where t: "ask_model h q d loaded now (s\<lparr>hr_moments := ms\<rparr>) = Some (Inr (cb, rs), s2)"
      "record_response h q now rs s2 = Some (Inr (), s3)"
      "(if mr_tool_calls rs = [] then answer_turn h q d loaded fingerprint now cb (mr_content rs)
        else tools_turn h q d loaded fingerprint now cb (mr_tool_calls rs)) s3 = Some (Inr (Some outcome), s')"
      by (rule harness_turn_cases [OF r])
    have "answer_turn h q d loaded fingerprint now cb (mr_content rs) s3 = Some (Inr (Some outcome), s')"
      using t(3) tools_turn_goes_on by (fastforce split: if_splits)
    then have "finish_flow h q outcome [] now s3 = Some (Inr True, s')" by (simp add: answer_turn_outcome)
    moreover have "sessions_kept s3"
      using flow_keepsD [OF sessions_run.keeps_response t(2)] flow_keepsD [OF sessions_run.keeps_ask t(1)] kept by blast
    ultimately show ?thesis using finish_recorded by blast
  next
    case 3
    with a Cons.prems(3) have "run_turns h q d loaded fingerprint now turns s1 = Some (Inr outcome, s')" by simp
    with Cons.IH [OF k1] Cons.prems(2) show ?thesis by auto
  qed
qed simp

lemma agent_run_cases:
  assumes "agent_run h q d token resume now start_ns opening turns w = Some (Inr outcome, s')"
  obtains loaded fingerprint ledger s1 where "prepare_run h d = Inr (loaded, fingerprint, ledger)"
    "(if resume then resume_run h q d loaded fingerprint now else begin_run h q d now) (new_run ledger token opening w) =
      Some (Inr (), s1)"
    "run_turns h q d loaded fingerprint now turns (s1\<lparr>hr_last_ns := start_ns, hr_remainder_ns := 0\<rparr>) = Some (Inr outcome, s')"
  using assms
  by (auto simp: agent_run_def raising_def modify_def elim!: and_thenE split: sum.splits prod.splits)

text \<open>
  C1. What a run returns is what is recorded: whatever the other clients of the store do while it awaits,
  an outcome that \<open>run\<close> returns is the terminal outcome of its run in the store, and reads back as it was
  returned.
\<close>

theorem returned_outcome_recorded:
  assumes "agent_run h q d token resume now start_ns opening turns w = Some (Inr outcome, s)"
    and "legal_executor (hn_executor h)" and "opens_sealed (hn_cipher h)" and "sessions_ok (tw_db w)"
    and "list_all (list_all legal_moment) (opening # turns)"
  shows "load_outcome (hn_cipher h) (hq_run_id q) (tw_db (hr_world s)) = Inr (Some outcome)"
  using assms(1)
proof (rule agent_run_cases)
  fix loaded fingerprint ledger s1
  assume o: "(if resume then resume_run h q d loaded fingerprint now else begin_run h q d now) (new_run ledger token opening w) =
      Some (Inr (), s1)"
    and t: "run_turns h q d loaded fingerprint now turns (s1\<lparr>hr_last_ns := start_ns, hr_remainder_ns := 0\<rparr>) = Some (Inr outcome, s)"
  have "sessions_kept (new_run ledger token opening w)" using assms(4,5) by (simp add: sessions_kept_def new_run_def list_all_iff)
  with o have "sessions_kept s1"
    by (auto split: if_splits dest: flow_keepsD [OF sessions_run.keeps_resume] flow_keepsD [OF sessions_run.keeps_begin])
  then have "sessions_kept (s1\<lparr>hr_last_ns := start_ns, hr_remainder_ns := 0\<rparr>)" by (rule sessions_run.charged)
  moreover have "legal_moment m" if "ms \<in> set turns" "m \<in> set ms" for m ms using assms(5) that by (auto simp: list_all_iff)
  ultimately have
    "outcome_kept (hn_cipher h) (hq_run_id q) outcome s" "oc_status outcome \<noteq> RUNNING"
    using run_turns_recorded [OF executes_within_store [OF assms(2)] _ _ t] by blast+
  with assms(3) show ?thesis by (auto simp: outcome_kept_def intro: has_outcome_load)
qed

text \<open>The error that the loop of a run raises, and the state it raises it in.\<close>

fun turns_error ::
  "('b, 'e) agent_harness \<Rightarrow> harness_request \<Rightarrow> agent_definition \<Rightarrow> loaded_resources \<Rightarrow> string \<Rightarrow> int \<Rightarrow>
     ('b, 'e) moment list list \<Rightarrow> ('b, 'e) harness_run \<Rightarrow> (exn \<times> ('b, 'e) harness_run) option" where
  "turns_error h q d loaded fingerprint now [] s = None"
| "turns_error h q d loaded fingerprint now (ms # turns) s =
     (case harness_turn h q d loaded fingerprint now (s\<lparr>hr_moments := ms\<rparr>) of
        Some (Inl e, s1) \<Rightarrow> Some (e, s1)
      | Some (Inr None, s1) \<Rightarrow> turns_error h q d loaded fingerprint now turns s1
      | _ \<Rightarrow> None)"

definition loop_error ::
  "('b, 'e) agent_harness \<Rightarrow> harness_request \<Rightarrow> agent_definition \<Rightarrow> string option \<Rightarrow> bool \<Rightarrow> int \<Rightarrow> int \<Rightarrow>
     ('b, 'e) moment list \<Rightarrow> ('b, 'e) moment list list \<Rightarrow> ('b, 'e) tool_world \<Rightarrow> (exn \<times> ('b, 'e) harness_run) option" where
  "loop_error h q d token resume now start_ns opening turns w =
     (case prepare_run h d of
        Inl _ \<Rightarrow> None
      | Inr (loaded, fingerprint, ledger) \<Rightarrow>
          (case (if resume then resume_run h q d loaded fingerprint now else begin_run h q d now) (new_run ledger token opening w) of
             Some (Inr _, s) \<Rightarrow> turns_error h q d loaded fingerprint now turns (s\<lparr>hr_last_ns := start_ns, hr_remainder_ns := 0\<rparr>)
           | _ \<Rightarrow> None))"

definition ends_run :: "exn \<Rightarrow> bool" where
  "ends_run e \<longleftrightarrow> (case e of CancelledByPolicyError _ \<Rightarrow> True | _ \<Rightarrow> handled_failure e)"

lemma failure_outcome_ends: "failure_outcome e = None \<longleftrightarrow> \<not> ends_run e"
  by (cases e) (auto simp: failure_outcome_def ends_run_def)

lemma turns_error_kept:
  assumes "executes_within store_step h" "turns_error h q d loaded fingerprint now turns s = Some (e, s')" "sessions_kept s"
    and "\<And>m ms. ms \<in> set turns \<Longrightarrow> m \<in> set ms \<Longrightarrow> legal_moment m"
  shows "sessions_kept s' \<and> run_turns h q d loaded fingerprint now turns s = end_failed h q now e s'"
  using assms(2-4)
proof (induction turns arbitrary: s)
  case (Cons ms turns)
  obtain a s1 where a: "harness_turn h q d loaded fingerprint now (s\<lparr>hr_moments := ms\<rparr>) = Some (a, s1)"
    using Cons.prems(1) by (auto split: option.splits)
  have "sessions_kept (s\<lparr>hr_moments := ms\<rparr>)" using Cons.prems(2,3) by (intro sessions_run.next_turn) auto
  with a have k1: "sessions_kept s1" by (blast intro: flow_keepsD [OF sessions_run.keeps_turn [OF assms(1)]])
  show ?case
  proof (cases a)
    case (Inl e1)
    with a Cons.prems(1) k1 show ?thesis by simp
  next
    case (Inr x)
    with a Cons.prems(1) have "x = None" "turns_error h q d loaded fingerprint now turns s1 = Some (e, s')"
      by (auto split: option.splits)
    moreover have "legal_moment m" if "ms' \<in> set turns" "m \<in> set ms'" for m ms' using that Cons.prems(3) [of ms' m] by simp
    ultimately show ?thesis using a Inr Cons.IH [OF _ k1] by simp
  qed
qed simp

lemma loop_error_kept:
  assumes "loop_error h q d token resume now start_ns opening turns w = Some (e, s)" "executes_within store_step h"
    and "sessions_ok (tw_db w)" "list_all (list_all legal_moment) (opening # turns)"
  shows "sessions_kept s \<and> agent_run h q d token resume now start_ns opening turns w = end_failed h q now e s"
proof -
  obtain loaded fingerprint ledger where p: "prepare_run h d = Inr (loaded, fingerprint, ledger)"
    using assms(1) by (auto simp: loop_error_def split: sum.splits)
  define first where "first = (if resume then resume_run h q d loaded fingerprint now else begin_run h q d now)"
  have le: "(case first (new_run ledger token opening w) of
      Some (Inr _, s) \<Rightarrow> turns_error h q d loaded fingerprint now turns (s\<lparr>hr_last_ns := start_ns, hr_remainder_ns := 0\<rparr>)
    | _ \<Rightarrow> None) = Some (e, s)" using assms(1) by (simp only: loop_error_def p first_def sum.case prod.case)
  then obtain x s1 where x: "first (new_run ledger token opening w) = Some (x, s1)"
    by (cases "first (new_run ledger token opening w)") auto
  with le have "x = Inr ()" by (cases x) simp_all
  with x le have s1: "first (new_run ledger token opening w) = Some (Inr (), s1)"
    and e: "turns_error h q d loaded fingerprint now turns (s1\<lparr>hr_last_ns := start_ns, hr_remainder_ns := 0\<rparr>) = Some (e, s)"
    by simp_all
  have "sessions_kept (new_run ledger token opening w)" using assms(3,4) by (simp add: sessions_kept_def new_run_def list_all_iff)
  with s1 have "sessions_kept s1"
    by (auto simp: first_def split: if_splits dest: flow_keepsD [OF sessions_run.keeps_resume] flow_keepsD [OF sessions_run.keeps_begin])
  then have k: "sessions_kept (s1\<lparr>hr_last_ns := start_ns, hr_remainder_ns := 0\<rparr>)" by (rule sessions_run.charged)
  have "legal_moment m" if "ms \<in> set turns" "m \<in> set ms" for m ms using assms(4) that by (auto simp: list_all_iff)
  from turns_error_kept [OF assms(2) e k this] have "sessions_kept s"
    "run_turns h q d loaded fingerprint now turns (s1\<lparr>hr_last_ns := start_ns, hr_remainder_ns := 0\<rparr>) = end_failed h q now e s" by auto
  with s1 show ?thesis
    by (simp add: agent_run_def p first_def [symmetric] and_then_def modify_def)
qed

text \<open>The store takes a failed or cancelled outcome of every run that is still running.\<close>

lemma finish_answers:
  assumes "hr_moments s = m # ms" "oc_status outcome = FAILED \<or> oc_status outcome = CANCELLED"
  obtains (recorded) s' where "finish_flow h q outcome applied now s = Some (Inr True, s')" "hr_moments s' = ms"
    | (refused) e' s' where "finish_flow h q outcome applied now s = Some (Inl e', s')"
        "run_status_of_run (hq_run_id q) (tw_db (hr_world s')) \<noteq> Some RUNNING"
proof -
  let ?s = "pass_moment m (s\<lparr>hr_moments := ms\<rparr>)"
  obtain r db where db: "try_finish_with_outcome (hn_cipher h) (hq_run_id q) outcome applied now (tw_db (hr_world ?s)) = (r, db)"
    by fastforce
  have f: "finish_flow h q outcome applied now s = Some (r, ?s\<lparr>hr_world := (hr_world ?s)\<lparr>tw_db := db\<rparr>\<rparr>)"
    using db assms(1) by (simp add: finish_flow_def on_sessions_def next_moment_def and_then_def Let_def)
  show thesis
  proof (cases r)
    case (Inl e')
    have same: "db = tw_db (hr_world ?s)" and st: "run_status_of_run (hq_run_id q) (tw_db (hr_world ?s)) \<noteq> Some RUNNING"
      using db assms(2) Inl by (auto simp: try_finish_with_outcome_def transaction_def try_finish_tx_def run_status_of_run_def Let_def
          split: sum.splits option.splits if_splits)
    show thesis by (rule refused [OF f [unfolded Inl]]) (use same st in simp)
  next
    case (Inr b)
    have "b" using try_finish_Inr(1) [OF db [unfolded Inr]] assms(2) by (cases rule: try_finish_tx_cases) auto
    with f Inr have "finish_flow h q outcome applied now s = Some (Inr True, ?s\<lparr>hr_world := (hr_world ?s)\<lparr>tw_db := db\<rparr>\<rparr>)" by simp
    then show thesis by (rule recorded) (simp add: pass_moment_moments)
  qed
qed

lemma acknowledge_answers:
  assumes "hr_moments s \<noteq> []"
  shows "\<exists>s'. acknowledge_pending h q now s = Some (Inr (), s')"
  using assms
  by (cases "hr_moments s")
    (auto simp: acknowledge_pending_def on_sessions_def next_moment_def and_then_def Let_def acknowledge_controls_def transaction_def)

lemma end_failed_answers:
  assumes "sessions_kept s" "2 \<le> length (hr_moments s)" "failure_outcome e = Some outcome"
  obtains (recorded) s' where "end_failed h q now e s = Some (Inr outcome, s')"
    | (refused) e' s' where "end_failed h q now e s = Some (Inl e', s')"
        "run_status_of_run (hq_run_id q) (tw_db (hr_world s')) \<noteq> Some RUNNING"
proof -
  obtain m ms where m: "hr_moments s = m # ms" "ms \<noteq> []" using assms(2) by (cases "hr_moments s"; cases "tl (hr_moments s)") auto
  define applied where "applied = (if oc_status outcome = CANCELLED then hr_pending s else [])"
  show thesis
  proof (rule finish_answers [OF m(1) failure_status [OF assms(3)], where h = h and q = q and applied = applied and now = now])
    fix s1 assume f: "finish_flow h q outcome applied now s = Some (Inr True, s1)" "hr_moments s1 = ms"
    obtain s2 where "(if oc_status outcome = CANCELLED then acknowledge_pending h q now else return_with ()) s1 = Some (Inr (), s2)"
      using acknowledge_answers [of s1 h q now] m(2) f(2) by (cases "oc_status outcome = CANCELLED") (auto simp: return_with_def)
    with f(1) show thesis
      by (intro recorded) (simp add: end_failed_def assms(3) Let_def and_then_def return_with_def applied_def)
  next
    fix e' s1 assume f: "finish_flow h q outcome applied now s = Some (Inl e', s1)"
      "run_status_of_run (hq_run_id q) (tw_db (hr_world s1)) \<noteq> Some RUNNING"
    then show thesis by (intro refused [of e' s1]) (simp_all add: end_failed_def assms(3) Let_def and_then_def applied_def)
  qed
qed

text \<open>
  C5. An error of the loop of a run, whatever raised it, is answered by its class: a cancellation by policy ends the run
  cancelled with its reason, an exhausted wall time ends it failed with the warning wall_time_budget_exhausted, every other
  lookup, value or runtime error (the deferral of a pending approval is one) ends it failed with the name of its class, and
  the outcome that \<open>run\<close> returns reads back from the store; only when the run is not running any more does it raise
  instead. Any other error leaves \<open>run\<close> as it was raised, with nothing recorded. The handler always returns or raises,
  in at most two awaits.
\<close>

theorem failed_run_recorded:
  assumes "loop_error h q d token resume now start_ns opening turns w = Some (e, s)" and "2 \<le> length (hr_moments s)"
    and "legal_executor (hn_executor h)" and "opens_sealed (hn_cipher h)" and "sessions_ok (tw_db w)"
    and "list_all (list_all legal_moment) (opening # turns)"
  shows "\<exists>r s'. agent_run h q d token resume now start_ns opening turns w = Some (r, s') \<and>
    (if ends_run e then
       (case r of
          Inl e' \<Rightarrow> run_status_of_run (hq_run_id q) (tw_db (hr_world s')) \<noteq> Some RUNNING
        | Inr outcome \<Rightarrow> load_outcome (hn_cipher h) (hq_run_id q) (tw_db (hr_world s')) = Inr (Some outcome) \<and>
            outcome = \<lparr>oc_status = (case e of CancelledByPolicyError _ \<Rightarrow> CANCELLED | _ \<Rightarrow> FAILED),
              oc_summary = exn_message e, oc_resource_refs = [],
              oc_warnings = (case e of CancelledByPolicyError _ \<Rightarrow> []
                | WallTimeBudgetExceeded _ \<Rightarrow> [''wall_time_budget_exhausted''] | _ \<Rightarrow> [exn_name e])\<rparr>)
     else r = Inl e \<and> s' = s)"
proof -
  note k = loop_error_kept [OF assms(1) executes_within_store [OF assms(3)] assms(5,6)]
  then have run: "agent_run h q d token resume now start_ns opening turns w = end_failed h q now e s" by simp
  show ?thesis
  proof (cases "failure_outcome e")
    case None
    then have "end_failed h q now e s = Some (Inl e, s)" "\<not> ends_run e"
      using failure_outcome_ends [of e] by (simp_all add: end_failed_def raising_def)
    then show ?thesis unfolding run by simp
  next
    case (Some outcome)
    have ends: "ends_run e" using Some failure_outcome_ends [of e] by auto
    have outcome: "outcome = \<lparr>oc_status = (case e of CancelledByPolicyError _ \<Rightarrow> CANCELLED | _ \<Rightarrow> FAILED),
        oc_summary = exn_message e, oc_resource_refs = [],
        oc_warnings = (case e of CancelledByPolicyError _ \<Rightarrow> []
          | WallTimeBudgetExceeded _ \<Rightarrow> [''wall_time_budget_exhausted''] | _ \<Rightarrow> [exn_name e])\<rparr>"
      using Some by (cases e) (auto simp: failure_outcome_def failed_run_def split: if_splits)
    show ?thesis
    proof (rule end_failed_answers [OF conjunct1 [OF k] assms(2) Some, of h q now])
      fix s' assume f: "end_failed h q now e s = Some (Inr outcome, s')"
      have "load_outcome (hn_cipher h) (hq_run_id q) (tw_db (hr_world s')) = Inr (Some outcome)"
        using end_failed_recorded [OF conjunct1 [OF k] f] assms(4) by (auto simp: outcome_kept_def intro: has_outcome_load)
      with f ends outcome show ?thesis unfolding run by simp
    next
      fix e' s' assume "end_failed h q now e s = Some (Inl e', s')"
        "run_status_of_run (hq_run_id q) (tw_db (hr_world s')) \<noteq> Some RUNNING"
      with ends show ?thesis unfolding run by simp
    qed
  qed
qed

section \<open>External effects\<close>

definition verified_result :: "tool_result \<Rightarrow> bool" where
  "verified_result r \<longleftrightarrow> vr_state (tr_verification r) = VERIFIED"

text \<open>What the run remembers of its results, beyond what it began with.\<close>

definition effects_noted :: "verification_record list \<Rightarrow> string list \<Rightarrow> ('b, 'e) harness_run \<Rightarrow> bool" where
  "effects_noted vs us s \<longleftrightarrow> hr_verified s = vs @ map tr_verification (filter verified_result (hr_results s)) \<and>
     hr_unresolved s = us @ map unresolved_label (filter (\<lambda>r. \<not> verified_result r \<and> writes_externally r) (hr_results s))"

definition effect_view :: "('b, 'e) harness_run \<Rightarrow> tool_result list \<times> verification_record list \<times> string list" where
  "effect_view s = (hr_results s, hr_verified s, hr_unresolved s)"

interpretation effects_run: run_invariant "\<lambda>s. effect_view s = v" "\<lambda>m. True" "\<lambda>a b. True"
  by unfold_locales (auto simp: effect_view_def apply_control_frame pass_moment_frame)

text \<open>Recording the results of a turn, one after the other.\<close>

lemma for_each_Cons: "for_each f (y # ys) s = Some (Inr (), s') \<Longrightarrow> \<exists>s1. f y s = Some (Inr (), s1) \<and> for_each f ys s1 = Some (Inr (), s')"
  by (auto elim!: and_thenE)

lemma note_result_view:
  "effect_view (note_result h r s) = (hr_results s, hr_verified s @ (if verified_result r then [tr_verification r] else []),
     hr_unresolved s @ (if \<not> verified_result r \<and> writes_externally r then [unresolved_label r] else []))"
  by (simp add: note_result_def effect_view_def verified_result_def Let_def)

lemma record_result_view:
  assumes "record_result h q now r s = Some (Inr (), s')"
  shows "effect_view s' = (hr_results s, hr_verified s @ (if verified_result r then [tr_verification r] else []),
     hr_unresolved s @ (if \<not> verified_result r \<and> writes_externally r then [unresolved_label r] else []))"
proof -
  let ?ty = "if tool_succeeded r then ''tool_completed'' else ''tool_failed''"
  obtain s1 where c: "(if writes_externally r then consume_if_limited EXTERNAL_WRITES 1 else return_with ()) s = Some (Inr (), s1)"
    and e: "run_event_flow h q now ?ty (result_payload r) (note_result h r s1) = Some (Inr (), s')"
    using assms by (auto simp: record_result_def modify_def elim!: and_thenE)
  have "flow_keeps (\<lambda>v. effect_view v = effect_view s)
      (if writes_externally r then consume_if_limited EXTERNAL_WRITES 1 else return_with ())"
    by (intro keeps_if effects_run.keeps_consume keeps_basic)
  from flow_keepsD [OF this c] have "effect_view s1 = effect_view s" by simp
  moreover have "effect_view s' = effect_view (note_result h r s1)"
    by (rule flow_keepsD [OF effects_run.keeps_event e]) simp_all
  ultimately show ?thesis by (simp add: note_result_view) (simp add: effect_view_def)
qed

lemma record_results_view:
  assumes "for_each (record_result h q now) rs s = Some (Inr (), s')"
  shows "effect_view s' = (hr_results s, hr_verified s @ map tr_verification (filter verified_result rs),
     hr_unresolved s @ map unresolved_label (filter (\<lambda>r. \<not> verified_result r \<and> writes_externally r) rs))"
  using assms
proof (induction rs arbitrary: s)
  case Nil
  then show ?case by (simp add: return_with_def effect_view_def)
next
  case (Cons r rs)
  then obtain s1 where s1: "record_result h q now r s = Some (Inr (), s1)" "for_each (record_result h q now) rs s1 = Some (Inr (), s')"
    using for_each_Cons [OF Cons.prems] by blast
  from record_result_view [OF s1(1)] Cons.IH [OF s1(2)] show ?case by (simp add: effect_view_def)
qed

lemma tools_turn_steps:
  assumes "tools_turn h q d loaded fingerprint now cb calls s = Some (Inr x, s')"
  obtains s1 rs s2 s3 where "for_each (request_call h q now) calls s = Some (Inr (), s1)"
    "run_calls h q calls s1 = Some (Inr rs, s2)"
    "for_each (record_result h q now) rs (s2\<lparr>hr_results := hr_results s2 @ rs\<rparr>) = Some (Inr (), s3)"
    "close_turn h q d loaded fingerprint now cb s3 = Some (Inr (), s')"
  using assms by (auto simp: tools_turn_def modify_def return_with_def elim!: and_thenE)

lemma tools_turn_noted:
  assumes "tools_turn h q d loaded fingerprint now cb calls s = Some (Inr x, s')" and "effects_noted vs us s"
  shows "effects_noted vs us s'"
  using assms(1)
proof (rule tools_turn_steps)
  fix s1 rs s2 s3
  assume t: "for_each (request_call h q now) calls s = Some (Inr (), s1)" "run_calls h q calls s1 = Some (Inr rs, s2)"
    "for_each (record_result h q now) rs (s2\<lparr>hr_results := hr_results s2 @ rs\<rparr>) = Some (Inr (), s3)"
    "close_turn h q d loaded fingerprint now cb s3 = Some (Inr (), s')"
  have "effect_view s1 = effect_view s"
    by (rule flow_keepsD [OF keeps_for_each [OF effects_run.keeps_request] t(1)]) simp
  moreover have "effect_view s2 = effect_view s1" by (rule flow_keepsD [OF effects_run.keeps_tools [OF executes_within_any] t(2)]) simp
  moreover have "effect_view s' = effect_view s3" by (rule flow_keepsD [OF effects_run.keeps_close t(4)]) simp
  ultimately show ?thesis
    using record_results_view [OF t(3)] assms(2) by (simp add: effect_view_def effects_noted_def)
qed

lemma effects_noted_view: "effect_view s' = effect_view s \<Longrightarrow> effects_noted vs us s' = effects_noted vs us s"
  by (simp add: effect_view_def effects_noted_def)

text \<open>A turn notes its effects, and an outcome it returns is drawn from them.\<close>

lemma harness_turn_noted:
  assumes "harness_turn h q d loaded fingerprint now s = Some (Inr x, s')" and "effects_noted vs us s"
  shows "effects_noted vs us s' \<and> (case x of None \<Rightarrow> True
    | Some outcome \<Rightarrow> \<exists>content. outcome = run_outcome content d (hr_verified s') (hr_unresolved s'))"
  using assms(1)
proof (rule harness_turn_cases)
  fix cb r s1 s2
  assume t: "ask_model h q d loaded now s = Some (Inr (cb, r), s1)" "record_response h q now r s1 = Some (Inr (), s2)"
    "(if mr_tool_calls r = [] then answer_turn h q d loaded fingerprint now cb (mr_content r)
      else tools_turn h q d loaded fingerprint now cb (mr_tool_calls r)) s2 = Some (Inr x, s')"
  have "effect_view s1 = effect_view s" by (rule flow_keepsD [OF effects_run.keeps_ask t(1)]) simp
  moreover have "effect_view s2 = effect_view s1" by (rule flow_keepsD [OF effects_run.keeps_response t(2)]) simp
  ultimately have n: "effects_noted vs us s2" using assms(2) effects_noted_view by metis
  show ?thesis
  proof (cases "mr_tool_calls r = []")
    case True
    with t(3) have a: "answer_turn h q d loaded fingerprint now cb (mr_content r) s2 = Some (Inr x, s')" by simp
    have v: "effect_view s' = effect_view s2" by (rule flow_keepsD [OF effects_run.keeps_answer a]) simp
    with n have "effects_noted vs us s'" using effects_noted_view by metis
    moreover have "\<exists>content. outcome = run_outcome content d (hr_verified s') (hr_unresolved s')" if "x = Some outcome" for outcome
      using answer_turn_outcome [OF a [unfolded that]] v by (auto simp: effect_view_def)
    ultimately show ?thesis by (auto split: option.split)
  next
    case False
    with t(3) have a: "tools_turn h q d loaded fingerprint now cb (mr_tool_calls r) s2 = Some (Inr x, s')" by simp
    from tools_turn_noted [OF a n] tools_turn_goes_on [OF a] show ?thesis by simp
  qed
qed

lemma end_failed_status:
  assumes "end_failed h q now e s = Some (Inr outcome, s')"
  shows "oc_status outcome \<noteq> COMPLETED"
  using assms failure_status [of e]
  by (cases "failure_outcome e") (auto simp: end_failed_def raising_def return_with_def Let_def elim!: and_thenE)

lemma run_turns_noted:
  assumes "run_turns h q d loaded fingerprint now turns s = Some (Inr outcome, s')" and "effects_noted vs us s"
    and "oc_status outcome = COMPLETED"
  shows "effects_noted vs us s' \<and> (\<exists>content. outcome = run_outcome content d (hr_verified s') (hr_unresolved s'))"
  using assms
proof (induction turns arbitrary: s)
  case (Cons ms turns)
  obtain a s1 where a: "harness_turn h q d loaded fingerprint now (s\<lparr>hr_moments := ms\<rparr>) = Some (a, s1)"
    using Cons.prems(1) by (auto split: option.splits)
  have n: "effects_noted vs us (s\<lparr>hr_moments := ms\<rparr>)" using Cons.prems(2) by (simp add: effects_noted_def)
  consider e where "a = Inl e" | o' where "a = Inr (Some o')" | "a = Inr None" by (cases a) auto
  then show ?case
  proof cases
    case 1
    with a Cons.prems(1) have "end_failed h q now e s1 = Some (Inr outcome, s')" by simp
    with Cons.prems(3) end_failed_status show ?thesis by blast
  next
    case 2
    with a Cons.prems(1) have "harness_turn h q d loaded fingerprint now (s\<lparr>hr_moments := ms\<rparr>) = Some (Inr (Some outcome), s')"
      by simp
    from harness_turn_noted [OF this n] show ?thesis by simp
  next
    case 3
    with a Cons.prems(1) have "run_turns h q d loaded fingerprint now turns s1 = Some (Inr outcome, s')" by simp
    moreover have "effects_noted vs us s1" using harness_turn_noted [OF a [unfolded 3] n] by simp
    ultimately show ?thesis using Cons.IH Cons.prems(3) by blast
  qed
qed simp

text \<open>
  C37. A run never claims completion over an unverified effect: when a fresh run returns an outcome that is
  completed, every result of a writing tool in the run was verified, the resources it reports are those of
  the verified results in order, and where the agent definition demands an effect there is a verified one.
\<close>

theorem completed_run_verified:
  assumes "agent_run h q d token False now start_ns opening turns w = Some (Inr outcome, s)"
    and "oc_status outcome = COMPLETED"
  shows "(\<forall>r \<in> set (hr_results s). writes_externally r \<longrightarrow> verified_result r) \<and>
    oc_resource_refs outcome = concat (map (\<lambda>r. vr_resource_refs (tr_verification r)) (filter verified_result (hr_results s))) \<and>
    (ad_require_verified_external_effect d \<longrightarrow> (\<exists>r \<in> set (hr_results s). verified_result r))"
  using assms(1)
proof (rule agent_run_cases)
  fix loaded fingerprint ledger s1
  assume o: "(if False then resume_run h q d loaded fingerprint now else begin_run h q d now) (new_run ledger token opening w) =
      Some (Inr (), s1)"
    and t: "run_turns h q d loaded fingerprint now turns (s1\<lparr>hr_last_ns := start_ns, hr_remainder_ns := 0\<rparr>) = Some (Inr outcome, s)"
  have "flow_keeps (\<lambda>s. effect_view s = ([], [], [])) (begin_run h q d now)"
    unfolding begin_run_def by (intro keeps_and_then effects_run.keeps_store sessions_run.store_step_start effects_run.keeps_event) simp
  from flow_keepsD [OF this] o have "effect_view s1 = ([], [], [])" by (auto simp: new_run_def effect_view_def)
  then have "effects_noted [] [] (s1\<lparr>hr_last_ns := start_ns, hr_remainder_ns := 0\<rparr>)"
    by (simp add: effects_noted_def effect_view_def)
  from run_turns_noted [OF t this assms(2)] obtain content where n: "effects_noted [] [] s"
    and oc: "outcome = run_outcome content d (hr_verified s) (hr_unresolved s)" by blast
  from oc assms(2) have "hr_unresolved s = []" "ad_require_verified_external_effect d \<longrightarrow> hr_verified s \<noteq> []"
    "oc_resource_refs outcome = concat (map vr_resource_refs (hr_verified s))"
    by (auto simp: run_outcome_def Let_def split: if_splits)
  with n show ?thesis by (auto simp: effects_noted_def filter_empty_conv comp_def)
qed

section \<open>Budgets\<close>

text \<open>The ledger is sound, and the calls that were charged exceed the results by at least \<open>k\<close>.\<close>

definition budget_ahead :: "(budget_kind \<rightharpoonup> int) \<Rightarrow> int \<Rightarrow> ('b, 'e) harness_run \<Rightarrow> bool" where
  "budget_ahead lim k s \<longleftrightarrow> ledger_ok (hr_ledger s) \<and> ledger_limits (hr_ledger s) = lim \<and>
     (lim TOOL_CALLS \<noteq> None \<longrightarrow> int (length (hr_results s)) + k \<le> get0 (ledger_consumed (hr_ledger s)) TOOL_CALLS)"

lemma consume_grows:
  "consume kind n False l = Inr l' \<Longrightarrow> get0 (ledger_consumed l) j + (if j = kind then n else 0) = get0 (ledger_consumed l') j \<and> 0 \<le> n"
  by (auto simp: consume_def split: if_splits)

lemma consume_ahead:
  assumes "budget_ahead lim k s" "consume kind n False (hr_ledger s) = Inr l"
  shows "budget_ahead lim k (s\<lparr>hr_ledger := l\<rparr>)"
  using assms(1) consume_ok [OF _ assms(2)] consume_grows [OF assms(2), of TOOL_CALLS]
  by (auto simp: budget_ahead_def split: if_splits)

interpretation budget_run: run_invariant "budget_ahead lim k" "\<lambda>m. True" "\<lambda>a b. True"
  by unfold_locales (simp_all add: consume_ahead, simp_all add: budget_ahead_def apply_control_frame pass_moment_frame)

lemma request_call_charged:
  assumes "request_call h q now call s = Some (Inr (), s')" "budget_ahead lim k s"
  shows "budget_ahead lim (k + 1) s'"
proof -
  obtain s1 where c: "consume_if_limited TOOL_CALLS 1 s = Some (Inr (), s1)"
    and e: "run_event_flow h q now ''tool_requested''
      [(''call_id'', JStr (call_call_id call)), (''tool_id'', JStr (call_tool_id call))] s1 = Some (Inr (), s')"
    using assms(1) by (auto simp: request_call_def raise_if_cancelled_def elim!: and_thenE split: option.splits)
  have "budget_ahead lim (k + 1) s1"
    using c assms(2) consume_ok [of "hr_ledger s" TOOL_CALLS 1 False] consume_grows [of TOOL_CALLS 1 "hr_ledger s" _ TOOL_CALLS]
    by (auto simp: consume_if_limited_def budget_ahead_def split: if_splits sum.splits)
  then show ?thesis using flow_keepsD [OF budget_run.keeps_event e, where k1 = "k + 1" and lim1 = lim] by simp
qed

lemma request_calls_charged:
  "for_each (request_call h q now) calls s = Some (Inr (), s') \<Longrightarrow> budget_ahead lim k s \<Longrightarrow>
   budget_ahead lim (k + int (length calls)) s'"
proof (induction calls arbitrary: s k)
  case (Cons call calls)
  obtain s1 where "request_call h q now call s = Some (Inr (), s1)" "for_each (request_call h q now) calls s1 = Some (Inr (), s')"
    using for_each_Cons [OF Cons.prems(1)] by blast
  then have "budget_ahead lim (k + 1 + int (length calls)) s'" using request_call_charged Cons.prems(2) Cons.IH by blast
  then show ?case by (simp add: algebra_simps)
qed (simp add: return_with_def)

lemma wait_for_called:
  assumes "wait_for call s = Some (Inr a, s')"
  shows "\<exists>m w w'. call m w = Some (Inr a, w')"
  using assms
  by (auto simp: wait_for_def and_then_def [of next_moment] and_then_def [of "charge_wall_time _"] Let_def timeout_as_exceeded_def
      split: option.splits prod.splits sum.splits if_splits exn.splits)

lemma run_calls_length: "run_calls h q calls s = Some (Inr rs, s') \<Longrightarrow> length rs = length calls"
  unfolding run_calls_def Let_def
  by (auto simp: raising_def split: if_splits sum.splits dest: collect_length dest!: wait_for_called)

lemma tools_turn_within:
  assumes "tools_turn h q d loaded fingerprint now cb calls s = Some (r, s')" and "budget_ahead lim 0 s"
  shows "budget_ahead lim 0 s'"
proof -
  let ?after = "\<lambda>rs. and_then (modify (\<lambda>s. s\<lparr>hr_results := hr_results s @ rs\<rparr>)) (\<lambda>_. and_then (for_each (record_result h q now) rs)
    (\<lambda>_. and_then (close_turn h q d loaded fingerprint now cb) (\<lambda>_. return_with (None :: agent_outcome option))))"
  have keeps_record: "flow_keeps (budget_ahead lim 0) (record_result h q now r)" for r
    by (rule budget_run.keeps_record) (simp add: budget_ahead_def note_result_frame)
  let ?rest = "\<lambda>rs. and_then (for_each (record_result h q now) rs)
    (\<lambda>_. and_then (close_turn h q d loaded fingerprint now cb) (\<lambda>_. return_with (None :: agent_outcome option)))"
  have rest: "flow_keeps (budget_ahead lim 0) (?rest rs)" for rs
    by (intro keeps_and_then keeps_for_each keeps_record budget_run.keeps_close keeps_basic)
  have after: "budget_ahead lim 0 s'"
    if "?after rs s2 = Some (r, s')" "budget_ahead lim (int (length rs)) s2" for rs s2
  proof (rule flow_keepsD [OF rest])
    show "?rest rs (s2\<lparr>hr_results := hr_results s2 @ rs\<rparr>) = Some (r, s')"
      using that(1) by (auto simp: modify_def elim: and_thenE)
    show "budget_ahead lim 0 (s2\<lparr>hr_results := hr_results s2 @ rs\<rparr>)" using that(2) by (simp add: budget_ahead_def)
  qed
  from assms(1) [unfolded tools_turn_def] show ?thesis
  proof (rule and_thenE)
    fix e assume "for_each (request_call h q now) calls s = Some (Inl e, s')"
    from flow_keepsD [OF keeps_for_each [OF budget_run.keeps_request] this assms(2)] show ?thesis .
  next
    fix u s1
    assume "for_each (request_call h q now) calls s = Some (Inr u, s1)"
      and s1: "and_then (run_calls h q calls) ?after s1 = Some (r, s')"
    then have b: "budget_ahead lim (int (length calls)) s1" using request_calls_charged [of h q now calls s s1 lim 0] assms(2) by simp
    from s1 show ?thesis
    proof (rule and_thenE)
      fix e assume "run_calls h q calls s1 = Some (Inl e, s')"
      with b have "budget_ahead lim (int (length calls)) s'" by (blast intro: flow_keepsD [OF budget_run.keeps_tools [OF executes_within_any]])
      then show ?thesis by (auto simp: budget_ahead_def)
    next
      fix rs s2
      assume c: "run_calls h q calls s1 = Some (Inr rs, s2)" and s2: "?after rs s2 = Some (r, s')"
      from b have "budget_ahead lim (int (length calls)) s2" by (rule flow_keepsD [OF budget_run.keeps_tools [OF executes_within_any] c])
      with after [OF s2] run_calls_length [OF c] show ?thesis by simp
    qed
  qed
qed

lemma turn_within: "flow_keeps (budget_ahead lim 0) (harness_turn h q d loaded fingerprint now)"
  unfolding harness_turn_def case_prod_unfold
  by (intro keeps_and_then budget_run.keeps_ask budget_run.keeps_response keeps_if budget_run.keeps_answer flow_keepsI)
    (rule tools_turn_within)

lemma turns_within:
  "run_turns h q d loaded fingerprint now turns s = Some (r, s') \<Longrightarrow> budget_ahead lim 0 s \<Longrightarrow> budget_ahead lim 0 s'"
proof (induction turns arbitrary: s)
  case (Cons ms turns)
  obtain a s1 where a: "harness_turn h q d loaded fingerprint now (s\<lparr>hr_moments := ms\<rparr>) = Some (a, s1)"
    using Cons.prems(1) by (auto split: option.splits)
  have "budget_ahead lim 0 (s\<lparr>hr_moments := ms\<rparr>)" using Cons.prems(2) by (simp add: budget_ahead_def)
  with a have b: "budget_ahead lim 0 s1" by (blast intro: flow_keepsD [OF turn_within])
  consider e where "a = Inl e" | o' where "a = Inr (Some o')" | "a = Inr None" by (cases a) auto
  then show ?case
  proof cases
    case 1
    with a Cons.prems(1) have "end_failed h q now e s1 = Some (r, s')" by simp
    with b show ?thesis by (blast intro: flow_keepsD [OF budget_run.keeps_end_failed])
  next
    case 2
    with a b Cons.prems(1) show ?thesis by simp
  next
    case 3
    with a Cons.prems(1) have "run_turns h q d loaded fingerprint now turns s1 = Some (r, s')" by simp
    then show ?thesis using Cons.IH b by blast
  qed
qed simp

text \<open>
  C38. Tools are called within the budget: in a fresh run the budgets of the agent definition are never
  overdrawn, however the run ends, and where it limits tool calls the results of all the calls that were
  made are no more than the limit.
\<close>

theorem run_within_budget:
  assumes "agent_run h q d token False now start_ns opening turns w = Some (r, s)"
    and "from_limits (ad_budget_limits d) = Inr l0" and "\<forall>x \<in> set (ad_budget_limits d). 0 \<le> bl_maximum x"
    and "prepare_run h d = Inr p"
  shows "ledger_ok (hr_ledger s) \<and> ledger_limits (hr_ledger s) = ledger_limits l0 \<and>
    (\<forall>n. ledger_limits l0 TOOL_CALLS = Some n \<longrightarrow> int (length (hr_results s)) \<le> n)"
proof -
  obtain loaded fingerprint where p: "p = (loaded, fingerprint, l0)"
    using assms(2,4) by (auto simp: prepare_run_def chain_def split: sum.splits)
  have "ledger_consumed l0 = Map.empty" using assms(2) by (auto simp: from_limits_def split: if_splits)
  then have "budget_ahead (ledger_limits l0) 0 (new_run l0 token opening w)"
    using from_limits_ok [OF assms(2,3)] by (simp add: budget_ahead_def new_run_def)
  moreover have "flow_keeps (budget_ahead (ledger_limits l0) 0) (begin_run h q d now)"
    unfolding begin_run_def
    by (intro keeps_and_then budget_run.keeps_store sessions_run.store_step_start budget_run.keeps_event) simp
  moreover have "flow_keeps (budget_ahead (ledger_limits l0) 0) (run_turns h q d loaded fingerprint now turns)"
    by (rule flow_keepsI) (rule turns_within)
  moreover have "flow_keeps (budget_ahead (ledger_limits l0) 0) (modify (\<lambda>s. s\<lparr>hr_last_ns := start_ns, hr_remainder_ns := 0\<rparr>))"
    by (rule keeps_modify) (rule budget_run.charged)
  ultimately have keep: "flow_keeps (budget_ahead (ledger_limits l0) 0) (and_then (begin_run h q d now) (\<lambda>_.
      and_then (modify (\<lambda>s. s\<lparr>hr_last_ns := start_ns, hr_remainder_ns := 0\<rparr>)) (\<lambda>_.
      run_turns h q d loaded fingerprint now turns)))" and new: "budget_ahead (ledger_limits l0) 0 (new_run l0 token opening w)"
    by (blast intro: keeps_and_then)+
  have "and_then (begin_run h q d now) (\<lambda>_. and_then (modify (\<lambda>s. s\<lparr>hr_last_ns := start_ns, hr_remainder_ns := 0\<rparr>)) (\<lambda>_.
      run_turns h q d loaded fingerprint now turns)) (new_run l0 token opening w) = Some (r, s)"
    using assms(1) by (simp add: agent_run_def assms(4) p)
  from flow_keepsD [OF keep this new] have b: "budget_ahead (ledger_limits l0) 0 s" .
  then have ok: "ledger_ok (hr_ledger s)" "ledger_limits (hr_ledger s) = ledger_limits l0" by (simp_all add: budget_ahead_def)
  have "int (length (hr_results s)) \<le> n" if "ledger_limits l0 TOOL_CALLS = Some n" for n
  proof -
    have "int (length (hr_results s)) \<le> get0 (ledger_consumed (hr_ledger s)) TOOL_CALLS" using b that by (simp add: budget_ahead_def)
    moreover have "get0 (ledger_limits (hr_ledger s)) TOOL_CALLS = n" using ok(2) that by (simp add: get0_def)
    moreover have "0 \<le> get0 (ledger_reserved (hr_ledger s)) TOOL_CALLS \<and> get0 (ledger_consumed (hr_ledger s)) TOOL_CALLS +
        get0 (ledger_reserved (hr_ledger s)) TOOL_CALLS \<le> get0 (ledger_limits (hr_ledger s)) TOOL_CALLS"
      using ok(1) by (auto simp: ledger_ok_def)
    ultimately show ?thesis by linarith
  qed
  with ok show ?thesis by blast
qed

end
