(* ===== verification/HarnessResume.thy ===== *)
theory HarnessResume
  imports HarnessProps
begin

text \<open>
  A restart of a run: what the last checkpoint holds is what the resumed run goes on with, as long as the
  other clients of the store leave the run and its checkpoint alone.
\<close>

section \<open>Operations that leave a run alone\<close>

fun leaves_run :: "string \<Rightarrow> 'b rt_op \<Rightarrow> bool" where
  "leaves_run i (OpSaveCheckpoint c k) = (ck_run_id k \<noteq> i)"
| "leaves_run i (OpDiscardCheckpoint j) = (j \<noteq> i)"
| "leaves_run i (OpFinishRun j st) = (j \<noteq> i)"
| "leaves_run i (OpTryFinish c j oc ids) = (j \<noteq> i)"
| "leaves_run i (OpStartRun j task key agent v p trace) = (j \<noteq> i)"
| "leaves_run i _ = True"

definition run_view :: "string \<Rightarrow> 'b rt_db \<Rightarrow> run_row option \<times> 'b checkpoint_row option" where
  "run_view i db = (find_run i db, find (\<lambda>p. cp_run_id p = i) (db_checkpoints db))"

lemma find_update_other:
  "(\<And>r. P r \<Longrightarrow> \<not> Q r) \<Longrightarrow> (\<And>r. P r \<Longrightarrow> \<not> Q (f r)) \<Longrightarrow> find Q (update_where P f rows) = find Q rows"
  by (induction rows) auto

lemma find_delete_other: "(\<And>r. P r \<Longrightarrow> \<not> Q r) \<Longrightarrow> find Q (delete_where P rows) = find Q rows"
  by (induction rows) (auto simp: delete_where_def)

lemma view_cong: "session_view db' = session_view db \<Longrightarrow> run_view i db' = run_view i db"
  by (auto simp: session_view_def run_view_def find_run_def)

lemma save_view: "ck_run_id k \<noteq> i \<Longrightarrow> run_view i (snd (save_checkpoint c k now db)) = run_view i db"
  unfolding save_checkpoint_def
proof (rule keeps_tx)
  fix u t assume i: "ck_run_id k \<noteq> i" and "save_checkpoint_tx c k now db = Inr (u, t)"
  note cs = save_checkpoint_tx_cases [OF this(2)]
  have row: "cp_run_id (checkpoint_row_of c k now) = ck_run_id k" by (simp add: checkpoint_row_of_def)
  have "find (\<lambda>p. cp_run_id p = i) (db_checkpoints t) = find (\<lambda>p. cp_run_id p = i) (db_checkpoints db)"
    unfolding cs(3) using i row by (auto simp: find_update_other find_snoc split: option.splits)
  with cs(1) show "run_view i t = run_view i db" by (simp add: run_view_def find_run_def)
qed

lemma discard_view: "j \<noteq> i \<Longrightarrow> run_view i (snd (discard_checkpoint j db)) = run_view i db"
  by (simp add: discard_checkpoint_def transaction_def run_view_def find_run_def find_delete_other)

lemma set_status_view: "j \<noteq> i \<Longrightarrow> run_view i (set_run_status j st now db) = run_view i db"
  by (simp add: run_view_def find_run_set_status) (simp add: set_run_status_def split: option.splits)

lemma insert_event_view: "run_view i (insert_run_event c j ty p now db) = run_view i db"
  by (simp add: insert_run_event_def run_view_def find_run_def Let_def)

lemma start_view: "j \<noteq> i \<Longrightarrow> run_view i (snd (start_run j task key agent v p now trace db)) = run_view i db"
  unfolding start_run_def
  by (rule keeps_tx) (auto simp: start_run_tx_def run_view_def find_run_def find_snoc split: if_splits option.splits)

lemma finish_view: "j \<noteq> i \<Longrightarrow> run_view i (snd (finish_run j st now db)) = run_view i db"
  by (simp add: finish_run_def transaction_def raise_def set_status_view)

lemma try_finish_view:
  assumes "j \<noteq> i"
  shows "run_view i (snd (try_finish_with_outcome c j oc ids now db)) = run_view i db"
proof (cases "oc_status oc = RUNNING \<or> oc_status oc = WAITING")
  case False
  have "run_view i (snd (transaction (try_finish_tx c j oc ids now) db)) = run_view i db"
  proof (rule keeps_tx)
    fix b t assume "try_finish_tx c j oc ids now db = Inr (b, t)"
    then show "run_view i t = run_view i db"
    proof (cases rule: try_finish_tx_cases)
      case (1 run db1)
      have v1: "session_view db1 = session_view db" using 1(3) by simp
      show ?thesis
      proof (cases b)
        case False
        with 1(4) view_cong [OF v1] show ?thesis by simp
      next
        case True
        then obtain db2 where v2: "session_view db2 = session_view db"
          and t: "t = set_run_status j (oc_status oc) now
            (insert_run_event c j ''run_terminal'' (outcome_payload oc) now db2)"
          using 1(5) v1 view_supersede [of "rn_task_id run" now db1] by metis
        with assms view_cong [OF v2] show ?thesis by (simp add: set_status_view insert_event_view)
      qed
    qed
  qed
  with False show ?thesis by (simp add: try_finish_with_outcome_def)
qed (auto simp: try_finish_with_outcome_def raise_def)

lemma step_view:
  assumes "leaves_run i op"
  shows "run_view i (rt_step now op db) = run_view i db"
proof (cases op)
  case (OpAppendEvent c j ty p)
  have "run_view i (snd (append_event c j ty p now db)) = run_view i db"
    unfolding append_event_def by (rule keeps_tx) (auto simp: append_event_tx_def insert_event_view split: if_splits)
  with OpAppendEvent show ?thesis by simp
qed (use assms in \<open>simp_all add: save_view discard_view start_view finish_view try_finish_view\<close>,
  (rule view_cong, simp add: frame)+)

section \<open>Awaits of a run that is left alone\<close>

definition leaves_moment :: "string \<Rightarrow> ('b, 'e) moment \<Rightarrow> bool" where
  "leaves_moment i m \<longleftrightarrow> (\<forall>(t, op) \<in> set (mo_ops m). leaves_run i op)"

definition left_alone :: "string \<Rightarrow> run_row option \<times> 'b checkpoint_row option \<Rightarrow> ('b, 'e) harness_run \<Rightarrow> bool" where
  "left_alone i v s \<longleftrightarrow> run_view i (tw_db (hr_world s)) = v \<and> (\<forall>m \<in> set (hr_moments s). leaves_moment i m)"

lemma run_of_view: "(\<forall>(t, op) \<in> set ops. leaves_run i op) \<Longrightarrow> run_view i (timed_run rt_step ops db) = run_view i db"
proof (induction ops arbitrary: db)
  case (Cons x ops)
  then show ?case by (cases x) (simp add: step_view)
qed simp

text \<open>What the loop carries from turn to turn, apart from the world and the moments.\<close>

definition run_locals ::
  "('b, 'e) harness_run \<Rightarrow> int \<times> model_message list \<times> verification_record list \<times> string list \<times> budget_ledger \<times> string list" where
  "run_locals s = (hr_turn s, hr_journal s, hr_verified s, hr_unresolved s, hr_ledger s, hr_applied s)"

lemma pass_locals: "run_locals (pass_moment m s) = run_locals s"
  by (simp add: run_locals_def pass_moment_def cancel_token_def Let_def split: option.splits)

lemma on_sessions_left:
  assumes "on_sessions f s = Some (r, s')" "left_alone i v s" "\<And>db. run_view i (snd (f db)) = run_view i db"
  shows "left_alone i v s' \<and> run_locals s' = run_locals s \<and> (\<exists>db. run_view i db = v \<and> fst (f db) = r)"
proof -
  obtain m ms where m: "hr_moments s = m # ms"
    using assms(1) by (auto simp: on_sessions_def next_moment_def and_then_def split: list.splits)
  let ?s = "pass_moment m (s\<lparr>hr_moments := ms\<rparr>)"
  have view: "run_view i (tw_db (hr_world ?s)) = v"
    using assms(2) m run_of_view [of "mo_ops m" i] by (simp add: left_alone_def leaves_moment_def pass_moment_world)
  have s': "s' = ?s\<lparr>hr_world := (hr_world ?s)\<lparr>tw_db := snd (f (tw_db (hr_world ?s)))\<rparr>\<rparr>" "r = fst (f (tw_db (hr_world ?s)))"
    using assms(1) m by (auto simp: on_sessions_def next_moment_def and_then_def Let_def split: prod.splits)
  have "run_locals s' = run_locals s" using pass_locals [of m "s\<lparr>hr_moments := ms\<rparr>"] s'(1) by (simp add: run_locals_def)
  moreover have "left_alone i v s'"
    using s'(1) view assms(2,3) m by (simp add: left_alone_def pass_moment_moments)
  ultimately show ?thesis using view s'(2) by blast
qed

section \<open>Budgets\<close>

text \<open>A ledger of the run: the limits it began with, nothing reserved, and charges for limited kinds only.\<close>

definition ledger_of_run :: "budget_ledger \<Rightarrow> budget_ledger \<Rightarrow> bool" where
  "ledger_of_run l0 l \<longleftrightarrow> ledger_limits l = ledger_limits l0 \<and> ledger_reserved l = Map.empty \<and>
     dom (ledger_consumed l) \<subseteq> dom (ledger_limits l0)"

lemma consume_of_run:
  assumes "ledger_of_run l0 l" "consume kind n False l = Inr l'" "ledger_limits l kind \<noteq> None"
  shows "ledger_of_run l0 l'"
proof -
  have "l' = l\<lparr>ledger_consumed := (ledger_consumed l)(kind \<mapsto> get0 (ledger_consumed l) kind + n)\<rparr>"
    using assms(2) by (auto simp: consume_def split: if_splits)
  moreover have "kind \<in> dom (ledger_limits l0)" using assms(1,3) by (auto simp: ledger_of_run_def)
  ultimately show ?thesis using assms(1) by (simp add: ledger_of_run_def)
qed

interpretation ledger_run: run_invariant "\<lambda>s. ledger_of_run l0 (hr_ledger s)" "\<lambda>m. True" "\<lambda>a b. True"
  by unfold_locales (auto simp: apply_control_frame pass_moment_frame consume_of_run)

lemma all_kinds: "k \<in> set all_budget_kinds" "distinct all_budget_kinds"
  by (cases k) (simp_all add: all_budget_kinds_def)

lemma budget_kind_of_value: "enum_of ''BudgetKind'' budget_kind_value all_budget_kinds (budget_kind_value k) = Inr k"
  by (cases k) (simp_all add: enum_of_def all_budget_kinds_def)

definition carried :: "(budget_kind \<rightharpoonup> int) \<Rightarrow> budget_kind list \<Rightarrow> budget_ledger \<Rightarrow> (budget_kind \<rightharpoonup> int)" where
  "carried C ks l = (\<lambda>k. if k \<in> set ks \<and> C k \<noteq> None \<and> ledger_limits l k \<noteq> None then C k else ledger_consumed l k)"

definition budget_items :: "(budget_kind \<rightharpoonup> int) \<Rightarrow> budget_kind list \<Rightarrow> (string \<times> int) list" where
  "budget_items C ks = concat (map (\<lambda>k. case C k of None \<Rightarrow> [] | Some n \<Rightarrow> [(budget_kind_value k, n)]) ks)"

lemma restore_budget_kinds:
  "restore_budget (budget_items C ks) s =
   Some (Inr (), s\<lparr>hr_ledger := (hr_ledger s)\<lparr>ledger_consumed := carried C ks (hr_ledger s)\<rparr>\<rparr>)"
proof (induction ks arbitrary: s)
  case Nil
  then show ?case by (simp add: budget_items_def carried_def)
next
  case (Cons k ks)
  show ?case
  proof (cases "\<exists>n. C k = Some n \<and> ledger_limits (hr_ledger s) k \<noteq> None")
    case False
    then have "carried C (k # ks) (hr_ledger s) = carried C ks (hr_ledger s)" by (auto simp: carried_def fun_eq_iff)
    moreover have "restore_budget (budget_items C (k # ks)) s = restore_budget (budget_items C ks) s"
      using False by (auto simp: budget_items_def budget_kind_of_value split: option.splits)
    ultimately show ?thesis by (simp add: Cons.IH)
  next
    case True
    then obtain n where n: "C k = Some n" "ledger_limits (hr_ledger s) k \<noteq> None" by blast
    let ?s = "s\<lparr>hr_ledger := (hr_ledger s)\<lparr>ledger_consumed := (ledger_consumed (hr_ledger s))(k \<mapsto> n)\<rparr>\<rparr>"
    have "carried C (k # ks) (hr_ledger s) = carried C ks (hr_ledger ?s)" using n by (auto simp: carried_def fun_eq_iff)
    moreover have "restore_budget (budget_items C (k # ks)) s = restore_budget (budget_items C ks) ?s"
      using n by (auto simp: budget_items_def budget_kind_of_value)
    ultimately show ?thesis by (simp add: Cons.IH)
  qed
qed

lemma restore_consumed:
  assumes "ledger_of_run l0 l" and "hr_ledger s = l0" and "ledger_consumed l0 = Map.empty" "ledger_reserved l0 = Map.empty"
  shows "restore_budget (consumed_budget l) s = Some (Inr (), s\<lparr>hr_ledger := l\<rparr>)"
proof -
  have "carried (ledger_consumed l) all_budget_kinds l0 k = ledger_consumed l k" for k
  proof (cases "ledger_consumed l k")
    case None
    then show ?thesis using assms(3) by (simp add: carried_def)
  next
    case (Some n)
    then have "ledger_limits l0 k \<noteq> None" using assms(1) by (auto simp: ledger_of_run_def)
    with Some all_kinds(1) [of k] show ?thesis by (simp add: carried_def)
  qed
  then have "carried (ledger_consumed l) all_budget_kinds l0 = ledger_consumed l" by blast
  moreover have "l0\<lparr>ledger_consumed := ledger_consumed l\<rparr> = l"
    using assms(1,4) by (cases l0; cases l) (simp add: ledger_of_run_def)
  ultimately show ?thesis
    using restore_budget_kinds [of "ledger_consumed l" all_budget_kinds s] assms(2)
    by (simp add: consumed_budget_def budget_items_def)
qed

section \<open>The resumed run\<close>

lemma load_checkpoint_view:
  assumes "run_view i db' = run_view i db"
  shows "load_checkpoint c i db' = load_checkpoint c i db" "run_status_of_run i db' = run_status_of_run i db"
  using assms by (auto simp: run_view_def load_checkpoint_def run_status_of_run_def)

lemma validate_own_checkpoint:
  assumes "build_context d loaded (hq_user_request q) (hq_evidence q) j = Some (Inr cb)"
  shows "validate_checkpoint (turn_checkpoint q d loaded fingerprint cb s) d (lr_versions loaded) (evidence_versions q) fingerprint = Inr ()"
proof -
  have "cb_source_versions cb = evidence_versions q"
    using assms by (auto simp: build_context_def evidence_versions_def Let_def chain_def split: sum.splits prod.splits if_splits bind_splits)
  then show ?thesis by (simp add: validate_checkpoint_def turn_checkpoint_def same_dict_def)
qed

lemma and_then_modify: "and_then (modify f) g s = g () (f s)"
  by (simp add: and_then_def modify_def)

lemma acknowledge_view: "run_view i (snd (acknowledge_controls t ids now db)) = run_view i db"
  by (rule view_cong) (simp add: frame)

lemma acknowledge_returns: "fst (acknowledge_controls t ids now db) = Inr ()"
  by (simp add: acknowledge_controls_def transaction_def)

lemma resume_checkpoint_left:
  assumes "resume_checkpoint h q now (turn_checkpoint q d loaded fingerprint cb s) s0 = Some (r, s')"
    and "hr_ledger s0 = l0" "ledger_consumed l0 = Map.empty" "ledger_reserved l0 = Map.empty" "ledger_of_run l0 (hr_ledger s)"
    and "left_alone i v s0"
  shows "r = Inr () \<and> run_locals s' = (hr_turn s, map (redacted_message (hr_nonpersistable s)) (hr_journal s), hr_verified s,
    hr_unresolved s, hr_ledger s, sort (remdups (hr_applied s)))"
proof -
  let ?k = "turn_checkpoint q d loaded fingerprint cb s"
  let ?ack = "if hn_has_controls h \<and> ck_applied_control_ids ?k \<noteq> []
    then on_sessions (acknowledge_controls (hq_task_id q) (ck_applied_control_ids ?k) now) else return_with ()"
  have left: "left_alone i v (restored_run ?k s0)" using assms(6) by (simp add: left_alone_def restored_run_def)
  have acked: "r1 = Inr () \<and> run_locals s1 = run_locals (restored_run ?k s0)"
    if "?ack (restored_run ?k s0) = Some (r1, s1)" for r1 s1
  proof (cases "hn_has_controls h \<and> ck_applied_control_ids ?k \<noteq> []")
    case True
    with that have "on_sessions (acknowledge_controls (hq_task_id q) (ck_applied_control_ids ?k) now) (restored_run ?k s0) = Some (r1, s1)"
      by (simp only: if_True simp_thms not_False_eq_True)
    from on_sessions_left [OF this left acknowledge_view] show ?thesis by (auto simp only: acknowledge_returns)
  next
    case False
    with that have "return_with () (restored_run ?k s0) = Some (r1, s1)" by (simp only: if_False simp_thms)
    then show ?thesis by (simp add: return_with_def)
  qed
  from assms(1) have "and_then ?ack (\<lambda>_. restore_budget (ck_consumed_budget ?k)) (restored_run ?k s0) = Some (r, s')"
    by (simp only: resume_checkpoint_def and_then_modify)
  then obtain s1 where a: "?ack (restored_run ?k s0) = Some (Inr (), s1)" and b: "restore_budget (ck_consumed_budget ?k) s1 = Some (r, s')"
  proof (rule and_thenE)
    fix e assume "?ack (restored_run ?k s0) = Some (Inl e, s')"
    from acked [OF this] show thesis by blast
  next
    fix u s1 assume "?ack (restored_run ?k s0) = Some (Inr u, s1)" "restore_budget (ck_consumed_budget ?k) s1 = Some (r, s')"
    moreover have "u = ()" by simp
    ultimately show thesis using that [of s1] by blast
  qed
  have l: "run_locals s1 = run_locals (restored_run ?k s0)" using acked [OF a] by simp
  then have "hr_ledger s1 = l0" using assms(2) by (simp add: run_locals_def restored_run_def)
  then have "restore_budget (consumed_budget (hr_ledger s)) s1 = Some (Inr (), s1\<lparr>hr_ledger := hr_ledger s\<rparr>)"
    by (rule restore_consumed [OF assms(5) _ assms(3,4)])
  with b have "s' = s1\<lparr>hr_ledger := hr_ledger s\<rparr>" "r = Inr ()" by (simp_all add: turn_checkpoint_def)
  with l show ?thesis by (simp add: run_locals_def restored_run_def turn_checkpoint_def)
qed

text \<open>
  C39. A restart loses nothing: after a turn has saved its checkpoint, a resumed run of the same agent
  definition, resources, tools and evidence goes on with the same turn, verified and unresolved effects,
  budget and applied controls, and with the journal in which the observations that must not be kept are
  redacted, whatever the other clients do as long as they leave this run alone.
\<close>

theorem resume_restores_checkpoint:
  assumes "opens_sealed (hn_cipher h)"
    and "build_context d loaded (hq_user_request q) (hq_evidence q) j = Some (Inr cb)"
    and "save_checkpoint (hn_cipher h) (turn_checkpoint q d loaded fingerprint cb s) now db = (Inr (), db1)"
    and "run_status_of_run (hq_run_id q) db1 = Some RUNNING"
    and "ledger_of_run l0 (hr_ledger s)" and "ledger_consumed l0 = Map.empty" and "ledger_reserved l0 = Map.empty"
    and "tw_db w = timed_run rt_step ops db1" and "\<forall>(t, op) \<in> set ops. leaves_run (hq_run_id q) op"
    and "\<forall>m \<in> set moments. leaves_moment (hq_run_id q) m"
    and "resume_run h q d loaded fingerprint later (new_run l0 token moments w) = Some (r, s')"
  shows "r = Inr () \<and> run_locals s' = (hr_turn s, map (redacted_message (hr_nonpersistable s)) (hr_journal s), hr_verified s,
    hr_unresolved s, hr_ledger s, sort (remdups (hr_applied s)))"
proof -
  let ?i = "hq_run_id q" and ?k = "turn_checkpoint q d loaded fingerprint cb s"
  define v where "v = run_view ?i db1"
  have left: "left_alone ?i v (new_run l0 token moments w)"
    using assms(8-10) run_of_view [of ops ?i db1] by (simp add: left_alone_def new_run_def v_def)
  have view: "load_checkpoint (hn_cipher h) ?i db = Inr (Some ?k)" "run_status_of_run ?i db = Some RUNNING"
    if "run_view ?i db = v" for db
  proof -
    obtain p where "find (\<lambda>p. cp_run_id p = ck_run_id ?k) (db_checkpoints db1) = Some p"
      "cp_payload p = encrypt_json (hn_cipher h) (checkpoint_dict ?k) (checkpoint_aad (ck_run_id ?k))"
      using saved_checkpoint_row [OF assms(3)] by blast
    then have "load_checkpoint (hn_cipher h) ?i db1 = Inr (Some ?k)"
      using assms(1) by (simp add: load_checkpoint_def checkpoint_from_dict_dict turn_checkpoint_def)
    with that load_checkpoint_view [of ?i db db1] assms(4)
    show "load_checkpoint (hn_cipher h) ?i db = Inr (Some ?k)" "run_status_of_run ?i db = Some RUNNING" by (simp_all add: v_def)
  qed
  have read: "\<exists>db. run_view ?i db = v \<and> f db = a" "left_alone ?i v s2" "run_locals s2 = run_locals s1"
    if "on_sessions (\<lambda>db. (f db, db)) s1 = Some (a, s2)" "left_alone ?i v s1" for f :: "'a rt_db \<Rightarrow> exn + 'z" and a s1 s2
    using on_sessions_left [OF that] by simp_all
  let ?load = "on_sessions (\<lambda>db. (load_checkpoint (hn_cipher h) ?i db, db)) :: (('a, 'b) harness_run, run_checkpoint option) flow"
  let ?status = "on_sessions (\<lambda>db. (Inr (run_status_of_run ?i db), db)) :: (('a, 'b) harness_run, run_status option) flow"
  from assms(11) obtain a s1 where a: "?load (new_run l0 token moments w) = Some (a, s1)"
    by (auto simp: resume_run_def and_then_def split: option.splits)
  then have "a = Inr (Some ?k)" and l1: "left_alone ?i v s1" "run_locals s1 = run_locals (new_run l0 token moments w)"
    using read [OF a left] view by auto
  with a assms(11) obtain b s2 where b: "?status s1 = Some (b, s2)"
    by (auto simp: resume_run_def and_then_def split: option.splits)
  then have "b = Inr (Some RUNNING)" and l2: "left_alone ?i v s2" "run_locals s2 = run_locals s1"
    using read [OF b l1(1)] view by auto
  with a b \<open>a = Inr (Some ?k)\<close> assms(11) have "resume_checkpoint h q later ?k s2 = Some (r, s')"
    by (simp add: resume_run_def and_then_def [of ?load] and_then_def [of ?status] validate_own_checkpoint [OF assms(2)])
  moreover have "hr_ledger s2 = l0" using l1(2) l2(2) by (simp add: run_locals_def new_run_def)
  ultimately show ?thesis using resume_checkpoint_left [OF _ _ assms(6,7,5) l2(1)] by blast
qed

end
