(* ===== verification/HarnessWitnesses.thy ===== *)
theory HarnessWitnesses
  imports HarnessResume
begin

text \<open>
  A concrete run: the model calls the counting tool once, sees its verified result, and answers.
\<close>

definition sample_model :: "model_request \<Rightarrow> (nat, model_response) eff" where
  "sample_model mq n = (Inr \<lparr>mr_content = ''done'',
     mr_tool_calls = (if n = 0 then [sample_call ''c1''] else []),
     mr_usage = \<lparr>mu_input_tokens = 1, mu_output_tokens = 1, mu_cost_micros = 2\<rparr>, mr_provider_response_id = None\<rparr>, n)"

definition sample_harness :: "(string \<times> json, nat) agent_harness" where
  "sample_harness = \<lparr>hn_cipher = plain_cipher, hn_model = sample_model, hn_tools = [(''send'', counting_tool)],
     hn_executor = sample_executor, hn_resources = [], hn_has_controls = False, hn_provider = Some (''openai'', 1),
     hn_dumps = (\<lambda>_. ''{}''), hn_fingerprint = (\<lambda>_. ''f'')\<rparr>"

definition sample_agent :: agent_definition where
  "sample_agent = \<lparr>ad_agent_id = ''a'', ad_version = 1, ad_instructions = ''i'', ad_model_profile = ''m'',
     ad_tool_ids = [''send''], ad_resource_packages = [],
     ad_budget_limits = [\<lparr>bl_kind = TOOL_CALLS, bl_maximum = 1\<rparr>, \<lparr>bl_kind = WALL_TIME_MS, bl_maximum = 1000\<rparr>],
     ad_max_context_tokens = 1000, ad_require_verified_external_effect = True, ad_policy_version = 1, ad_compactor_version = 1\<rparr>"

definition sample_hreq :: harness_request where
  "sample_hreq = \<lparr>hq_run_id = ''r1'', hq_task_id = ''t1'', hq_node_id = ''/agents/a'', hq_user_request = ''send it'',
     hq_tool_context = sample_context, hq_evidence = []\<rparr>"

definition quiet_moment :: "(string \<times> json, nat) moment" where
  "quiet_moment = \<lparr>mo_ops = [], mo_agents = id, mo_gate = id, mo_env = id, mo_cancel = None, mo_start_ns = 0, mo_end_ns = 5000000,
     mo_timeout = False, mo_now = 30, mo_ticks = sample_ticks\<rparr>"

definition sample_run :: "((exn + agent_outcome) \<times> (string \<times> json, nat) harness_run) option" where
  "sample_run = agent_run sample_harness sample_hreq sample_agent None False 40 0 (replicate 2 quiet_moment)
     (replicate 2 (replicate 12 quiet_moment)) (sample_world\<lparr>tw_db := sample_admitted\<rparr>)"

lemma sample_run_value:
  "\<exists>outcome s. sample_run = Some (Inr outcome, s) \<and> oc_status outcome = COMPLETED \<and> length (hr_results s) = 1"
proof -
  have "case sample_run of Some (Inr outcome, s) \<Rightarrow> oc_status outcome = COMPLETED \<and> length (hr_results s) = 1 | _ \<Rightarrow> False"
    by code_simp
  note v = this
  show ?thesis
  proof (cases sample_run)
    case None
    with v show ?thesis by simp
  next
    case (Some p)
    obtain x s where p: "p = (x, s)" by (cases p)
    from v have "case x of Inl _ \<Rightarrow> False | Inr outcome \<Rightarrow> oc_status outcome = COMPLETED \<and> length (hr_results s) = 1"
      unfolding Some p by simp
    then show ?thesis using Some p by (cases x) auto
  qed
qed

lemma returned_outcome_recorded_witness:
  "\<exists>outcome s. sample_run = Some (Inr outcome, s) \<and> load_outcome plain_cipher ''r1'' (tw_db (hr_world s)) = Inr (Some outcome)"
proof -
  obtain outcome s where r: "sample_run = Some (Inr outcome, s)" using sample_run_value by blast
  have "sessions_ok (tw_db (sample_world\<lparr>tw_db := sample_admitted\<rparr>))" using runtime_okD(7) [OF sample_admitted_ok] by simp
  moreover have "list_all (list_all legal_moment) (replicate 2 quiet_moment # replicate 2 (replicate 12 quiet_moment))"
    by (simp add: list_all_iff legal_moment_def quiet_moment_def legal_ops_def)
  moreover have "opens_sealed (hn_cipher sample_harness)" "legal_executor (hn_executor sample_harness)"
    by (simp_all add: sample_harness_def sample_executor_legal)
  ultimately have "load_outcome (hn_cipher sample_harness) (hq_run_id sample_hreq) (tw_db (hr_world s)) = Inr (Some outcome)"
    by (intro returned_outcome_recorded [OF r [unfolded sample_run_def]])
  then show ?thesis using r by (auto simp: sample_harness_def sample_hreq_def)
qed

lemma completed_run_verified_witness:
  "\<exists>outcome s r. sample_run = Some (Inr outcome, s) \<and> hr_results s = [r] \<and> verified_result r \<and>
     oc_resource_refs outcome = vr_resource_refs (tr_verification r)"
proof -
  obtain outcome s where r: "sample_run = Some (Inr outcome, s)" "oc_status outcome = COMPLETED" "length (hr_results s) = 1"
    using sample_run_value by blast
  from r(3) obtain x where x: "hr_results s = [x]" by (cases "hr_results s") auto
  from completed_run_verified [OF r(1) [unfolded sample_run_def] r(2)] show ?thesis
    using r(1) x by (auto simp: sample_agent_def split: if_splits)
qed

lemma run_within_budget_witness:
  "\<exists>outcome s. sample_run = Some (outcome, s) \<and> ledger_ok (hr_ledger s) \<and> length (hr_results s) \<le> 1"
proof -
  obtain outcome s where r: "sample_run = Some (Inr outcome, s)" using sample_run_value by blast
  have l: "\<exists>l. from_limits (ad_budget_limits sample_agent) = Inr l \<and> ledger_limits l TOOL_CALLS = Some 1"
    by (simp add: sample_agent_def from_limits_def)
  have "\<exists>p. prepare_run sample_harness sample_agent = Inr p"
    using l by (auto simp: prepare_run_def sample_harness_def sample_agent_def load_resources_def allowed_definitions_def require_tool_def)
  with l run_within_budget [OF r [unfolded sample_run_def]] r show ?thesis
    by (fastforce simp: sample_agent_def)
qed

section \<open>A restart\<close>

definition no_resources :: loaded_resources where
  "no_resources = \<lparr>lr_versions = [], lr_instructions = [], lr_policies = [], lr_response_templates = []\<rparr>"

definition sample_ledger :: budget_ledger where
  "sample_ledger = \<lparr>ledger_limits = [TOOL_CALLS \<mapsto> 3], ledger_consumed = Map.empty, ledger_reserved = Map.empty\<rparr>"

text \<open>A run after its first turn, with an observation that must not be kept.\<close>

definition sample_turn :: "(string \<times> json, nat) harness_run" where
  "sample_turn = (new_run (sample_ledger\<lparr>ledger_consumed := [TOOL_CALLS \<mapsto> 2]\<rparr>) None [] (sample_world\<lparr>tw_db := sample_admitted\<rparr>))
     \<lparr>hr_turn := 1, hr_nonpersistable := [''c1''], hr_applied := [''k2'', ''k1''],
       hr_journal := [\<lparr>mm_role = TOOL, mm_content = ''secret'', mm_name = Some ''send'', mm_tool_call_id = Some ''c1'',
         mm_trusted = False, mm_tool_calls = []\<rparr>]\<rparr>"

definition sample_build :: context_build where
  "sample_build = (case build_context sample_agent no_resources ''send it'' [] [] of Some (Inr cb) \<Rightarrow> cb | _ \<Rightarrow>
     \<lparr>cb_messages = [], cb_source_versions = [], cb_truncated_sources = [], cb_estimated_tokens = 0,
      cb_journal_compacted = False, cb_input_message_count = 0\<rparr>)"

definition sample_checkpointed :: "(exn + unit) \<times> (string \<times> json) rt_db" where
  "sample_checkpointed = save_checkpoint plain_cipher
     (turn_checkpoint sample_hreq sample_agent no_resources ''f'' sample_build sample_turn) 41
     (rt_step 40 (OpStartRun ''r1'' ''t1'' ''s'' ''a'' 1 1 ''r1'') sample_admitted)"

definition sample_restart :: "((exn + unit) \<times> (string \<times> json, nat) harness_run) option" where
  "sample_restart = resume_run sample_harness sample_hreq sample_agent no_resources ''f'' 50
     (new_run sample_ledger None (replicate 3 quiet_moment) (sample_world\<lparr>tw_db := snd sample_checkpointed\<rparr>))"

lemma resume_restores_checkpoint_witness:
  "\<exists>s. sample_restart = Some (Inr (), s) \<and> hr_turn s = 1 \<and> ledger_consumed (hr_ledger s) TOOL_CALLS = Some 2 \<and>
     hr_applied s = [''k1'', ''k2''] \<and> map mm_content (hr_journal s) = [redacted_observation]"
proof -
  have "case sample_restart of Some (r, s) \<Rightarrow> True | None \<Rightarrow> False" by code_simp
  then obtain r s where r: "sample_restart = Some (r, s)" by (auto split: option.splits prod.splits)
  have "case build_context sample_agent no_resources ''send it'' [] [] of Some (Inr cb) \<Rightarrow> True | _ \<Rightarrow> False" by code_simp
  then have cb: "build_context sample_agent no_resources (hq_user_request sample_hreq) (hq_evidence sample_hreq) [] = Some (Inr sample_build)"
    by (auto simp: sample_build_def sample_hreq_def split: option.splits sum.splits)
  have v: "fst sample_checkpointed = Inr () \<and> run_status_of_run ''r1'' (snd sample_checkpointed) = Some RUNNING" by code_simp
  have cipher: "hn_cipher sample_harness = plain_cipher" by (simp add: sample_harness_def)
  have k: "save_checkpoint (hn_cipher sample_harness)
      (turn_checkpoint sample_hreq sample_agent no_resources ''f'' sample_build sample_turn) 41
      (rt_step 40 (OpStartRun ''r1'' ''t1'' ''s'' ''a'' 1 1 ''r1'') sample_admitted) = (Inr (), snd sample_checkpointed)"
  proof (rule trans)
    show "sample_checkpointed = (Inr (), snd sample_checkpointed)" by (rule prod_eqI) (simp_all only: v fst_conv snd_conv)
  qed (simp only: sample_checkpointed_def cipher)
  have "hq_run_id sample_hreq = ''r1''" by (simp add: sample_hreq_def)
  then have running: "run_status_of_run (hq_run_id sample_hreq) (snd sample_checkpointed) = Some RUNNING"
    by (simp only: v)
  have a: "opens_sealed (hn_cipher sample_harness)" by (simp add: sample_harness_def)
  have l: "ledger_of_run sample_ledger (hr_ledger sample_turn)" "ledger_consumed sample_ledger = Map.empty"
    "ledger_reserved sample_ledger = Map.empty"
    by (simp_all add: ledger_of_run_def sample_turn_def sample_ledger_def new_run_def)
  have m: "\<forall>m \<in> set (replicate 3 quiet_moment). leaves_moment (hq_run_id sample_hreq) m"
    by (simp add: leaves_moment_def quiet_moment_def)
  have w: "tw_db (sample_world\<lparr>tw_db := snd sample_checkpointed\<rparr>) = timed_run rt_step [] (snd sample_checkpointed)"
    "\<forall>(t, op) \<in> set []. leaves_run (hq_run_id sample_hreq) op" by simp_all
  have "r = Inr () \<and> run_locals s = (hr_turn sample_turn,
      map (redacted_message (hr_nonpersistable sample_turn)) (hr_journal sample_turn), hr_verified sample_turn,
      hr_unresolved sample_turn, hr_ledger sample_turn, sort (remdups (hr_applied sample_turn)))"
    by (rule resume_restores_checkpoint [OF a cb k running l w m r [unfolded sample_restart_def]])
  moreover have "sort (remdups (hr_applied sample_turn)) = [''k1'', ''k2'']" by code_simp
  ultimately show ?thesis using r
    by (auto simp: run_locals_def sample_turn_def redacted_message_def new_run_def)
qed

section \<open>A pending approval\<close>

text \<open>The tool of the run needs an approval, which the broker has asked for and nobody has given yet.\<close>

definition deferring_harness :: "(string \<times> json, nat) agent_harness" where
  "deferring_harness = sample_harness\<lparr>hn_executor := sample_executor
     \<lparr>te_policy := (\<lambda>_ _ _ n. (Inr \<lparr>pd_allowed = True, pd_reason = [], pd_approval_required = True\<rparr>, n)),
      te_approvals := (\<lambda>_ _ _ n. (Inl (TaskDeferred ''approval_pending'' 2000), n))\<rparr>\<rparr>"

definition sample_deferred :: "((exn + agent_outcome) \<times> (string \<times> json, nat) harness_run) option" where
  "sample_deferred = agent_run deferring_harness sample_hreq sample_agent None False 40 0 (replicate 2 quiet_moment)
     (replicate 2 (replicate 12 quiet_moment)) (sample_world\<lparr>tw_db := sample_admitted\<rparr>)"

lemma failed_run_recorded_witness:
  "\<exists>outcome s. sample_deferred = Some (Inr outcome, s) \<and> oc_status outcome = FAILED \<and> oc_warnings outcome = [''TaskDeferred''] \<and>
     load_outcome plain_cipher ''r1'' (tw_db (hr_world s)) = Inr (Some outcome)"
proof -
  let ?start = "sample_world\<lparr>tw_db := sample_admitted\<rparr>" and ?opening = "replicate 2 quiet_moment"
    and ?turns = "replicate 2 (replicate 12 quiet_moment)"
  have v: "case loop_error deferring_harness sample_hreq sample_agent None False 40 0 ?opening ?turns ?start of
      Some (e, s) \<Rightarrow> e = TaskDeferred ''approval_pending'' 2000 \<and> 2 \<le> length (hr_moments s) | None \<Rightarrow> False"
    by code_simp
  obtain e s where raised: "loop_error deferring_harness sample_hreq sample_agent None False 40 0 ?opening ?turns ?start = Some (e, s)"
  proof (cases "loop_error deferring_harness sample_hreq sample_agent None False 40 0 ?opening ?turns ?start")
    case None
    from v show thesis unfolding None by simp
  next
    case (Some x)
    then show thesis using that by (cases x) simp
  qed
  from v have e: "e = TaskDeferred ''approval_pending'' 2000" and awaits: "2 \<le> length (hr_moments s)" unfolding raised by simp_all
  have sessions: "sessions_ok (tw_db ?start)" using runtime_okD(7) [OF sample_admitted_ok] by simp
  have legal: "list_all (list_all legal_moment) (?opening # ?turns)"
    by (simp add: list_all_iff legal_moment_def quiet_moment_def legal_ops_def)
  have harness: "opens_sealed (hn_cipher deferring_harness)" "legal_executor (hn_executor deferring_harness)"
    using sample_executor_legal by (simp_all add: deferring_harness_def sample_harness_def legal_executor_def)
  note f = failed_run_recorded [OF raised awaits harness(2,1) sessions legal, folded sample_deferred_def]
  have ends: "ends_run e" by (simp add: e ends_run_def)
  have w: "case sample_deferred of Some (Inr outcome, s) \<Rightarrow> True | _ \<Rightarrow> False" by code_simp
  obtain r s' where run: "sample_deferred = Some (r, s')" using f by blast
  from w obtain outcome where r: "r = Inr outcome" unfolding run by (cases r) simp_all
  from f ends have "load_outcome (hn_cipher deferring_harness) (hq_run_id sample_hreq) (tw_db (hr_world s')) = Inr (Some outcome)"
    "oc_status outcome = FAILED" "oc_warnings outcome = [''TaskDeferred'']" unfolding run r by (simp_all add: e)
  with run r show ?thesis by (auto simp: deferring_harness_def sample_harness_def sample_hreq_def)
qed

end
