(* ===== verification/IMModels.thy ===== *)
theory IMModels
  imports RuntimeSystem Rollout
begin

text \<open>
  The data of the IM capability (\<open>capabilities/im/models.py\<close>), the tables of \<open>IM_SCHEMA\<close> and \<open>IM_BLOB_SCHEMA\<close> of
  \<open>storage/migrations.py\<close>, which live in the database of the runtime, and the SQL operator \<open>LIKE\<close>.
\<close>

section \<open>Messages\<close>

datatype im_admission_reason = Admitted | NotGroup | BotSender | BotNotMentioned | EmptyRequest | AccessRevoked
  | DisabledGroup | UnauthorizedActor | Malformed

record mention =
  mn_open_id :: string
  mn_display_name :: "string option"

record attachment_reference =
  af_resource_key :: string
  af_resource_type :: string
  af_filename :: "string option"
  af_media_type :: "string option"
  af_declared_size :: "int option"

definition check_attachment :: "attachment_reference \<Rightarrow> exn + attachment_reference" where
  "check_attachment a =
     (if af_resource_key a = [] \<or> af_resource_type a = [] then Inl (ValueError ''attachment resource identity is required'')
      else if (case af_declared_size a of None \<Rightarrow> False | Some n \<Rightarrow> n < 0) then Inl (ValueError ''attachment size cannot be negative'')
      else Inr a)"

record incoming_message =
  ig_event_id :: string
  ig_tenant_key :: string
  ig_app_id :: string
  ig_chat_id :: string
  ig_chat_type :: string
  ig_message_id :: string
  ig_message_type :: string
  ig_sender_id :: string
  ig_sender_type :: string
  ig_body_text :: string
  ig_mentions :: "mention list"
  ig_attachments :: "attachment_reference list"
  ig_occurred_at_ms :: int
  ig_received_at_ms :: int
  ig_chat_name :: "string option"
  ig_thread_id :: "string option"
  ig_root_id :: "string option"
  ig_parent_id :: "string option"
  ig_sender_name :: "string option"
  ig_updated_at_ms :: "int option"
  ig_is_recalled :: bool
  ig_is_deleted :: bool

definition check_incoming :: "incoming_message \<Rightarrow> exn + incoming_message" where
  "check_incoming m =
     (if list_ex blank [ig_event_id m, ig_tenant_key m, ig_app_id m, ig_chat_id m, ig_message_id m, ig_message_type m,
          ig_sender_id m, ig_sender_type m]
      then Inl (ValueError ''message identity fields must be non-empty'') else Inr m)"

text \<open>\<open>x or y\<close> on optional texts: the empty text counts as absent.\<close>

definition some_text :: "string option \<Rightarrow> string option" where
  "some_text v = (case v of Some (ch # s) \<Rightarrow> Some (ch # s) | _ \<Rightarrow> None)"

definition text_or :: "string option \<Rightarrow> string \<Rightarrow> string" where
  "text_or v other = (case some_text v of Some s \<Rightarrow> s | None \<Rightarrow> other)"

definition message_session_key :: "incoming_message \<Rightarrow> string" where
  "message_session_key m = join_text ''/'' [ig_tenant_key m, ig_app_id m, ig_chat_id m,
     text_or (ig_thread_id m) (text_or (ig_root_id m) (ig_message_id m))]"

definition explicitly_mentions :: "incoming_message \<Rightarrow> string \<Rightarrow> bool" where
  "explicitly_mentions m open_id \<longleftrightarrow> list_ex (\<lambda>x. mn_open_id x = open_id) (ig_mentions m)"

definition message_version :: "incoming_message \<Rightarrow> int" where
  "message_version m = (case ig_updated_at_ms m of Some t \<Rightarrow> if t = 0 then ig_occurred_at_ms m else t
     | None \<Rightarrow> ig_occurred_at_ms m)"

record stored_message =
  sg_tenant_key :: string
  sg_app_id :: string
  sg_chat_id :: string
  sg_message_id :: string
  sg_message_type :: string
  sg_sender_id :: string
  sg_sender_type :: string
  sg_body_text :: string
  sg_mentions :: "mention list"
  sg_occurred_at_ms :: int
  sg_source_version_ms :: int
  sg_thread_id :: "string option"
  sg_root_id :: "string option"
  sg_parent_id :: "string option"
  sg_sender_name :: "string option"
  sg_is_recalled :: bool
  sg_is_deleted :: bool

record stored_attachment =
  sa_tenant_key :: string
  sa_app_id :: string
  sa_chat_id :: string
  sa_message_id :: string
  sa_resource_key :: string
  sa_resource_type :: string
  sa_filename :: "string option"
  sa_media_type :: "string option"
  sa_declared_size :: "int option"
  sa_blob_id :: "string option"
  sa_download_state :: string
  sa_parse_state :: string
  sa_parsed_content :: "string option"
  sa_warning_code :: "string option"

record im_admission_decision =
  dn_reason :: im_admission_reason
  dn_task_id :: "string option"
  dn_created :: bool
  dn_control_id :: "string option"

definition decision_admitted :: "im_admission_decision \<Rightarrow> bool" where
  "decision_admitted d \<longleftrightarrow> dn_reason d = Admitted"

definition denied :: "im_admission_reason \<Rightarrow> im_admission_decision" where
  "denied reason = \<lparr>dn_reason = reason, dn_task_id = None, dn_created = False, dn_control_id = None\<rparr>"

section \<open>The tables\<close>

record 'b chat_row =
  ch_tenant_key :: string
  ch_app_id :: string
  ch_chat_id :: string
  ch_name :: "'b option"
  ch_chat_mode :: string
  ch_enabled :: bool
  ch_bot_member_state :: string
  ch_access_state :: string
  ch_last_reconciled_at_ms :: int
  ch_retention_policy_id :: string
  ch_purge_after_ms :: "int option"

record 'b message_row =
  mg_tenant_key :: string
  mg_app_id :: string
  mg_message_id :: string
  mg_chat_id :: string
  mg_thread_id :: "string option"
  mg_root_id :: "string option"
  mg_parent_id :: "string option"
  mg_sender_type :: string
  mg_sender_id :: string
  mg_sender_name :: "'b option"
  mg_message_type :: string
  mg_content :: 'b
  mg_mentions :: 'b
  mg_content_hash :: string
  mg_created_at_source_ms :: int
  mg_updated_at_source_ms :: int
  mg_is_recalled :: bool
  mg_is_deleted :: bool
  mg_schema_version :: int
  mg_last_reconciled_at_ms :: int
  mg_expires_at_ms :: "int option"

record 'b attachment_row =
  aw_tenant_key :: string
  aw_app_id :: string
  aw_message_id :: string
  aw_resource_key :: string
  aw_chat_id :: string
  aw_resource_type :: string
  aw_filename :: "'b option"
  aw_media_type :: "string option"
  aw_declared_size :: "int option"
  aw_blob_id :: "string option"
  aw_download_state :: string
  aw_parse_state :: string
  aw_parser_id :: "string option"
  aw_parser_version :: "string option"
  aw_parsed_content :: "'b option"
  aw_parsed_content_hash :: "string option"
  aw_warning_code :: "string option"
  aw_expires_at_ms :: "int option"
  aw_parsing_policy_version :: "string option"

record blob_row =
  fb_blob_id :: string
  fb_byte_size :: int
  fb_media_type :: "string option"
  fb_created_at_ms :: int

text \<open>The database: the runtime tables and those of the capability.\<close>

record 'b im_db =
  im_runtime :: "'b rt_db"
  im_chats :: "'b chat_row list"
  im_messages :: "'b message_row list"
  im_attachments :: "'b attachment_row list"
  im_file_blobs :: "blob_row list"

definition empty_im_db :: "'b im_db" where
  "empty_im_db = \<lparr>im_runtime = empty_db, im_chats = [], im_messages = [], im_attachments = [], im_file_blobs = []\<rparr>"

type_synonym im_key = "string \<times> string \<times> string"

definition chat_key :: "'b chat_row \<Rightarrow> im_key" where
  "chat_key c = (ch_tenant_key c, ch_app_id c, ch_chat_id c)"

definition message_key :: "'b message_row \<Rightarrow> im_key" where
  "message_key m = (mg_tenant_key m, mg_app_id m, mg_message_id m)"

definition message_chat :: "'b message_row \<Rightarrow> im_key" where
  "message_chat m = (mg_tenant_key m, mg_app_id m, mg_chat_id m)"

definition attachment_message :: "'b attachment_row \<Rightarrow> im_key" where
  "attachment_message a = (aw_tenant_key a, aw_app_id a, aw_message_id a)"

definition attachment_chat :: "'b attachment_row \<Rightarrow> im_key" where
  "attachment_chat a = (aw_tenant_key a, aw_app_id a, aw_chat_id a)"

section \<open>LIKE\<close>

text \<open>\<open>_\<close> stands for one character, \<open>%\<close> for any number; ASCII letters are compared without case.\<close>

definition like_lower :: "char \<Rightarrow> char" where
  "like_lower ch = (let n = of_char ch :: nat in if 65 \<le> n \<and> n \<le> 90 then char_of (n + 32) else ch)"

fun sql_like :: "string \<Rightarrow> string \<Rightarrow> bool" where
  "sql_like [] t = (t = [])"
| "sql_like (p # ps) [] = (p = CHR ''%'' \<and> sql_like ps [])"
| "sql_like (p # ps) (ch # t) =
     (if p = CHR ''%'' then sql_like ps (ch # t) \<or> sql_like (p # ps) t
      else (p = CHR ''_'' \<or> like_lower p = like_lower ch) \<and> sql_like ps t)"

lemma sql_like_percent: "sql_like [CHR ''%''] t"
  by (induction t) auto

lemma sql_like_prefix: "list_all (\<lambda>ch. ch \<noteq> CHR ''%'') pre \<Longrightarrow> sql_like (pre @ [CHR ''%'']) (pre @ t)"
  by (induction pre) (auto simp: sql_like_percent)

end
