(* ===== verification/IMRepository.thy ===== *)
theory IMRepository
  imports IMModels
begin

text \<open>
  \<open>SQLiteIMRepository\<close> of \<open>capabilities/im/repository.py\<close>: the encrypted mirror of messages, attachments and chats,
  with recall tombstones, revocation and restoration of a chat. The cipher and its keyed digest are parameters.
\<close>

record 'b im_repository =
  ir_cipher :: "'b cipher"
  ir_digest :: "string \<Rightarrow> string"

definition im_message_aad :: "string \<Rightarrow> string \<Rightarrow> string \<Rightarrow> string \<Rightarrow> string" where
  "im_message_aad tenant app message_id field = ''im_messages:'' @ tenant @ '':'' @ app @ '':'' @ message_id @ '':'' @ field @ '':v1''"

definition im_chat_aad :: "string \<Rightarrow> string \<Rightarrow> string \<Rightarrow> string" where
  "im_chat_aad tenant app chat = ''im_chats:'' @ tenant @ '':'' @ app @ '':'' @ chat @ '':name:v1''"

definition im_attachment_aad :: "string \<Rightarrow> string \<Rightarrow> string \<Rightarrow> string \<Rightarrow> string \<Rightarrow> string" where
  "im_attachment_aad tenant app message_id key field =
     ''im_attachments:'' @ tenant @ '':'' @ app @ '':'' @ message_id @ '':'' @ key @ '':'' @ field @ '':v1''"

definition encrypt_optional :: "'b cipher \<Rightarrow> string option \<Rightarrow> string \<Rightarrow> 'b option" where
  "encrypt_optional c v aad = map_option (seal_bytes c aad) v"

definition decrypt_optional :: "'b cipher \<Rightarrow> 'b option \<Rightarrow> string \<Rightarrow> exn + string option" where
  "decrypt_optional c v aad = (case v of None \<Rightarrow> Inr None | Some b \<Rightarrow> chain (decrypt_text c b aad) (\<lambda>s. Inr (Some s)))"

section \<open>Chats\<close>

definition find_chat :: "im_key \<Rightarrow> 'b im_db \<Rightarrow> 'b chat_row option" where
  "find_chat k db = find (\<lambda>c. chat_key c = k) (im_chats db)"

definition chat_admission_denial :: "string \<Rightarrow> string \<Rightarrow> string \<Rightarrow> 'b im_db \<Rightarrow> im_admission_reason option" where
  "chat_admission_denial tenant app chat db = (case find_chat (tenant, app, chat) db of
     None \<Rightarrow> None
   | Some row \<Rightarrow>
       if ch_access_state row = ''revoked'' then Some AccessRevoked
       else if \<not> ch_enabled row \<or> ch_bot_member_state row = ''removed'' then Some DisabledGroup
       else None)"

text \<open>\<open>INSERT INTO im_chats ... ON CONFLICT DO UPDATE\<close>: the row to insert, or the update of the row in place.\<close>

definition put_chat :: "'b chat_row \<Rightarrow> ('b chat_row \<Rightarrow> 'b chat_row) \<Rightarrow> 'b im_db \<Rightarrow> 'b im_db" where
  "put_chat row upd db = db\<lparr>im_chats :=
     (if find_chat (chat_key row) db = None then im_chats db @ [row]
      else update_where (\<lambda>c. chat_key c = chat_key row) upd (im_chats db))\<rparr>"

definition new_chat_row :: "string \<Rightarrow> string \<Rightarrow> string \<Rightarrow> 'b option \<Rightarrow> string \<Rightarrow> int \<Rightarrow> 'b chat_row" where
  "new_chat_row tenant app chat name mode now = \<lparr>ch_tenant_key = tenant, ch_app_id = app, ch_chat_id = chat, ch_name = name,
     ch_chat_mode = mode, ch_enabled = True, ch_bot_member_state = ''present'', ch_access_state = ''visible'',
     ch_last_reconciled_at_ms = now, ch_retention_policy_id = ''default'', ch_purge_after_ms = None\<rparr>"

definition chat_row_of :: "'b im_repository \<Rightarrow> incoming_message \<Rightarrow> 'b chat_row" where
  "chat_row_of r m = new_chat_row (ig_tenant_key m) (ig_app_id m) (ig_chat_id m)
     (encrypt_optional (ir_cipher r) (ig_chat_name m) (im_chat_aad (ig_tenant_key m) (ig_app_id m) (ig_chat_id m)))
     (ig_chat_type m) (ig_received_at_ms m)"

definition seen_chat :: "'b chat_row \<Rightarrow> 'b chat_row \<Rightarrow> 'b chat_row" where
  "seen_chat row c = c\<lparr>ch_name := (case ch_name row of None \<Rightarrow> ch_name c | Some n \<Rightarrow> Some n), ch_chat_mode := ch_chat_mode row,
     ch_bot_member_state := (if ch_access_state c = ''revoked'' then ch_bot_member_state c else ''present''),
     ch_access_state := (if ch_access_state c = ''revoked'' then ch_access_state c else ''visible''),
     ch_last_reconciled_at_ms := ch_last_reconciled_at_ms row\<rparr>"

definition upsert_chat :: "'b im_repository \<Rightarrow> incoming_message \<Rightarrow> 'b im_db \<Rightarrow> 'b im_db" where
  "upsert_chat r m = put_chat (chat_row_of r m) (seen_chat (chat_row_of r m))"

definition restore_chat_access :: "string \<Rightarrow> string \<Rightarrow> string \<Rightarrow> int \<Rightarrow> ('b im_db, unit) eff" where
  "restore_chat_access tenant app chat now = transaction (\<lambda>db. Inr ((),
     put_chat (new_chat_row tenant app chat None ''unknown'' now)
       (\<lambda>c. c\<lparr>ch_enabled := True, ch_bot_member_state := ''present'', ch_access_state := ''visible'',
         ch_last_reconciled_at_ms := now, ch_purge_after_ms := None\<rparr>) db))"

section \<open>Messages\<close>

definition find_message :: "im_key \<Rightarrow> 'b im_db \<Rightarrow> 'b message_row option" where
  "find_message k db = find (\<lambda>m. message_key m = k) (im_messages db)"

text \<open>
  \<open>DELETE FROM runtime_checkpoints WHERE run_id IN (SELECT ...)\<close>; the sources of a checkpoint go with it
  (\<open>ON DELETE CASCADE\<close>).
\<close>

definition drop_checkpoints :: "(string \<Rightarrow> bool) \<Rightarrow> 'b im_db \<Rightarrow> 'b im_db" where
  "drop_checkpoints cited db = (let rt = im_runtime db;
       runs = map cs_run_id (filter (\<lambda>s. cited (cs_source_ref s)) (db_checkpoint_sources rt)) in
     db\<lparr>im_runtime := rt\<lparr>db_checkpoints := filter (\<lambda>k. cp_run_id k \<notin> set runs) (db_checkpoints rt),
       db_checkpoint_sources := filter (\<lambda>s. cs_run_id s \<notin> set runs) (db_checkpoint_sources rt)\<rparr>\<rparr>)"

definition cites_message :: "string \<Rightarrow> string \<Rightarrow> bool" where
  "cites_message message_id ref \<longleftrightarrow> ref = ''im.message:'' @ message_id \<or> sql_like (''im.attachment:'' @ message_id @ '':%'') ref"

definition mention_json :: "mention \<Rightarrow> json" where
  "mention_json m = JObj [(''display_name'', jopt (mn_display_name m)), (''open_id'', JStr (mn_open_id m))]"

definition days_ms :: "int \<Rightarrow> int" where
  "days_ms n = n * 24 * 60 * 60 * 1000"

definition new_message_row :: "'b im_repository \<Rightarrow> incoming_message \<Rightarrow> 'b message_row" where
  "new_message_row r m = (let aad = im_message_aad (ig_tenant_key m) (ig_app_id m) (ig_message_id m) in
     \<lparr>mg_tenant_key = ig_tenant_key m, mg_app_id = ig_app_id m, mg_message_id = ig_message_id m, mg_chat_id = ig_chat_id m,
      mg_thread_id = ig_thread_id m, mg_root_id = ig_root_id m, mg_parent_id = ig_parent_id m,
      mg_sender_type = ig_sender_type m, mg_sender_id = ig_sender_id m,
      mg_sender_name = encrypt_optional (ir_cipher r) (ig_sender_name m) (aad ''sender_name''),
      mg_message_type = ig_message_type m, mg_content = seal_bytes (ir_cipher r) (aad ''content'') (ig_body_text m),
      mg_mentions = seal (ir_cipher r) (aad ''mentions'') (JArr (map mention_json (ig_mentions m))),
      mg_content_hash = ir_digest r (ig_body_text m), mg_created_at_source_ms = ig_occurred_at_ms m,
      mg_updated_at_source_ms = message_version m, mg_is_recalled = ig_is_recalled m, mg_is_deleted = ig_is_deleted m,
      mg_schema_version = 1, mg_last_reconciled_at_ms = ig_received_at_ms m,
      mg_expires_at_ms = Some (ig_received_at_ms m + days_ms 90)\<rparr>)"

text \<open>The conflict clause keeps creation time and schema version of the row.\<close>

definition put_message :: "'b message_row \<Rightarrow> 'b im_db \<Rightarrow> 'b im_db" where
  "put_message row db = db\<lparr>im_messages :=
     (if find_message (message_key row) db = None then im_messages db @ [row]
      else update_where (\<lambda>m. message_key m = message_key row)
        (\<lambda>m. row\<lparr>mg_created_at_source_ms := mg_created_at_source_ms m, mg_schema_version := mg_schema_version m\<rparr>)
        (im_messages db))\<rparr>"

definition new_attachment_row :: "'b im_repository \<Rightarrow> incoming_message \<Rightarrow> attachment_reference \<Rightarrow> 'b attachment_row" where
  "new_attachment_row r m a = \<lparr>aw_tenant_key = ig_tenant_key m, aw_app_id = ig_app_id m, aw_message_id = ig_message_id m,
     aw_resource_key = af_resource_key a, aw_chat_id = ig_chat_id m, aw_resource_type = af_resource_type a,
     aw_filename = encrypt_optional (ir_cipher r) (af_filename a)
       (im_attachment_aad (ig_tenant_key m) (ig_app_id m) (ig_message_id m) (af_resource_key a) ''filename''),
     aw_media_type = af_media_type a, aw_declared_size = af_declared_size a, aw_blob_id = None,
     aw_download_state = ''referenced'', aw_parse_state = ''not_parsed'', aw_parser_id = None, aw_parser_version = None,
     aw_parsed_content = None, aw_parsed_content_hash = None, aw_warning_code = None,
     aw_expires_at_ms = Some (ig_received_at_ms m + days_ms 30), aw_parsing_policy_version = None\<rparr>"

text \<open>The primary key of an attachment: two with the same key in one message do not fit.\<close>

fun insert_attachments :: "'b im_repository \<Rightarrow> incoming_message \<Rightarrow> attachment_reference list \<Rightarrow> 'b im_db \<Rightarrow> exn + 'b im_db" where
  "insert_attachments r m [] db = Inr db"
| "insert_attachments r m (a # as) db =
     (if list_ex (\<lambda>x. attachment_message x = (ig_tenant_key m, ig_app_id m, ig_message_id m) \<and>
           aw_resource_key x = af_resource_key a) (im_attachments db)
      then Inl (IntegrityError ''UNIQUE constraint failed: im_attachments'')
      else insert_attachments r m as (db\<lparr>im_attachments := im_attachments db @ [new_attachment_row r m a]\<rparr>))"

definition delete_attachments_of :: "im_key \<Rightarrow> 'b im_db \<Rightarrow> 'b im_db" where
  "delete_attachments_of k db = db\<lparr>im_attachments := filter (\<lambda>a. attachment_message a \<noteq> k) (im_attachments db)\<rparr>"

text \<open>The stored version wins over an older one, and a tombstone over the same version without one.\<close>

definition outdated :: "'b message_row \<Rightarrow> incoming_message \<Rightarrow> bool" where
  "outdated x m \<longleftrightarrow> message_version m < mg_updated_at_source_ms x \<or>
     (mg_updated_at_source_ms x = message_version m \<and> (mg_is_recalled x \<or> mg_is_deleted x) \<and>
      \<not> (ig_is_recalled m \<or> ig_is_deleted m))"

definition incoming_key :: "incoming_message \<Rightarrow> im_key" where
  "incoming_key m = (ig_tenant_key m, ig_app_id m, ig_message_id m)"

definition write_message :: "'b im_repository \<Rightarrow> incoming_message \<Rightarrow> 'b im_db \<Rightarrow> exn + bool \<times> 'b im_db" where
  "write_message r m db =
     (case insert_attachments r m (ig_attachments m)
        (delete_attachments_of (incoming_key m) (put_message (new_message_row r m) db)) of
        Inl e \<Rightarrow> Inl e
      | Inr db' \<Rightarrow> Inr (True, db'))"

definition upsert_message_tx :: "'b im_repository \<Rightarrow> incoming_message \<Rightarrow> ('b im_db, bool) tx" where
  "upsert_message_tx r m db = (let db1 = upsert_chat r m db in
     if (case find_chat (ig_tenant_key m, ig_app_id m, ig_chat_id m) db1 of
           Some c \<Rightarrow> ch_access_state c = ''revoked'' | None \<Rightarrow> False)
     then Inr (False, db1)
     else case find_message (incoming_key m) db1 of
       None \<Rightarrow> write_message r m db1
     | Some x \<Rightarrow>
         if outdated x m then Inr (True, db1)
         else write_message r m (if mg_updated_at_source_ms x \<noteq> message_version m
           then drop_checkpoints (cites_message (ig_message_id m)) db1 else db1))"

definition upsert_message :: "'b im_repository \<Rightarrow> incoming_message \<Rightarrow> ('b im_db, bool) eff" where
  "upsert_message r m = transaction (upsert_message_tx r m)"

section \<open>Recall and revocation\<close>

text \<open>\<open>SELECT DISTINCT blob_id\<close>\<close>

definition blob_ids_of :: "('b attachment_row \<Rightarrow> bool) \<Rightarrow> 'b im_db \<Rightarrow> string list" where
  "blob_ids_of sel db = remdups (List.map_filter aw_blob_id (filter sel (im_attachments db)))"

fun drop_unreferenced_blobs :: "string list \<Rightarrow> 'b im_db \<Rightarrow> string list \<times> 'b im_db" where
  "drop_unreferenced_blobs [] db = ([], db)"
| "drop_unreferenced_blobs (b # bs) db =
     (if list_ex (\<lambda>a. aw_blob_id a = Some b) (im_attachments db) then drop_unreferenced_blobs bs db
      else (case drop_unreferenced_blobs bs (db\<lparr>im_file_blobs := filter (\<lambda>f. fb_blob_id f \<noteq> b) (im_file_blobs db)\<rparr>) of
        (gone, db') \<Rightarrow> (b # gone, db')))"

definition tombstone_row :: "'b im_repository \<Rightarrow> string \<Rightarrow> string \<Rightarrow> string \<Rightarrow> string \<Rightarrow> int \<Rightarrow> int \<Rightarrow> 'b message_row" where
  "tombstone_row r tenant app chat message_id version now = (let aad = im_message_aad tenant app message_id in
     \<lparr>mg_tenant_key = tenant, mg_app_id = app, mg_message_id = message_id, mg_chat_id = chat, mg_thread_id = None,
      mg_root_id = None, mg_parent_id = None, mg_sender_type = ''unknown'', mg_sender_id = ''unknown'', mg_sender_name = None,
      mg_message_type = ''unknown'', mg_content = seal_bytes (ir_cipher r) (aad ''content'') [],
      mg_mentions = seal (ir_cipher r) (aad ''mentions'') (JArr []), mg_content_hash = ir_digest r [],
      mg_created_at_source_ms = version, mg_updated_at_source_ms = version, mg_is_recalled = True, mg_is_deleted = False,
      mg_schema_version = 1, mg_last_reconciled_at_ms = now, mg_expires_at_ms = Some (now + days_ms 90)\<rparr>)"

definition recall_row :: "'b im_repository \<Rightarrow> string \<Rightarrow> string \<Rightarrow> string \<Rightarrow> string \<Rightarrow> int \<Rightarrow> int \<Rightarrow> 'b im_db \<Rightarrow> 'b im_db" where
  "recall_row r tenant app chat message_id version now db = db\<lparr>im_messages :=
     (if find_message (tenant, app, message_id) db = None
      then im_messages db @ [tombstone_row r tenant app chat message_id version now]
      else update_where (\<lambda>m. message_key m = (tenant, app, message_id))
        (\<lambda>m. m\<lparr>mg_is_recalled := True, mg_updated_at_source_ms := version, mg_last_reconciled_at_ms := now\<rparr>) (im_messages db))\<rparr>"

definition recalled_db :: "'b im_repository \<Rightarrow> string \<Rightarrow> string \<Rightarrow> string \<Rightarrow> string \<Rightarrow> int \<Rightarrow> int \<Rightarrow> 'b im_db \<Rightarrow> 'b im_db" where
  "recalled_db r tenant app chat message_id version now db =
     delete_attachments_of (tenant, app, message_id) (drop_checkpoints (cites_message message_id)
       (recall_row r tenant app chat message_id version now (put_chat (new_chat_row tenant app chat None ''unknown'' now) id db)))"

definition invalidate_message ::
  "'b im_repository \<Rightarrow> string \<Rightarrow> string \<Rightarrow> string \<Rightarrow> string \<Rightarrow> int \<Rightarrow> int \<Rightarrow> ('b im_db, string list) eff" where
  "invalidate_message r tenant app chat message_id version now = transaction (\<lambda>db.
     if (case find_message (tenant, app, message_id) db of Some x \<Rightarrow> version < mg_updated_at_source_ms x | None \<Rightarrow> False)
     then Inr ([], db)
     else Inr (drop_unreferenced_blobs (blob_ids_of (\<lambda>a. attachment_message a = (tenant, app, message_id)) db)
       (recalled_db r tenant app chat message_id version now db)))"

text \<open>Deleting the messages of a chat deletes their attachments (\<open>ON DELETE CASCADE\<close>).\<close>

definition delete_messages_of :: "im_key \<Rightarrow> 'b im_db \<Rightarrow> 'b im_db" where
  "delete_messages_of k db = (let gone = map message_key (filter (\<lambda>m. message_chat m = k) (im_messages db)) in
     db\<lparr>im_messages := filter (\<lambda>m. message_chat m \<noteq> k) (im_messages db),
        im_attachments := filter (\<lambda>a. attachment_message a \<notin> set gone) (im_attachments db)\<rparr>)"

definition revoke_chat :: "string \<Rightarrow> string \<Rightarrow> string \<Rightarrow> int \<Rightarrow> 'b im_db \<Rightarrow> 'b im_db" where
  "revoke_chat tenant app chat now = put_chat
     ((new_chat_row tenant app chat None ''unknown'' now)\<lparr>ch_enabled := False, ch_bot_member_state := ''removed'',
        ch_access_state := ''revoked'', ch_purge_after_ms := Some now\<rparr>)
     (\<lambda>c. c\<lparr>ch_enabled := False, ch_bot_member_state := ''removed'', ch_access_state := ''revoked'',
        ch_last_reconciled_at_ms := now, ch_purge_after_ms := Some now\<rparr>)"

definition cancel_chat_tasks :: "string \<Rightarrow> string \<Rightarrow> string \<Rightarrow> int \<Rightarrow> 'b rt_db \<Rightarrow> 'b rt_db" where
  "cancel_chat_tasks tenant app chat now rt = rt\<lparr>db_tasks := update_where
     (\<lambda>t. sql_like (tenant @ ''/'' @ app @ ''/'' @ chat @ ''/%'') (tk_session_key t) \<and> tk_state t = TaskPending \<and>
        tk_command_type t \<noteq> ''im.revoke_chat_access'')
     (\<lambda>t. t\<lparr>tk_state := TaskCancelled, tk_updated_at_ms := now\<rparr>) (db_tasks rt)\<rparr>"

text \<open>The checkpoints that cite a message of the chat.\<close>

definition drop_chat_checkpoints :: "im_key \<Rightarrow> 'b im_db \<Rightarrow> 'b im_db" where
  "drop_chat_checkpoints k db =
     (let refs = map (\<lambda>m. ''im.message:'' @ mg_message_id m) (filter (\<lambda>m. message_chat m = k) (im_messages db)) in
      if refs = [] then db else drop_checkpoints (\<lambda>ref. ref \<in> set refs) db)"

definition revoked_db :: "string \<Rightarrow> string \<Rightarrow> string \<Rightarrow> int \<Rightarrow> 'b im_db \<Rightarrow> 'b im_db" where
  "revoked_db tenant app chat now db =
     (let k = (tenant, app, chat); db1 = revoke_chat tenant app chat now (delete_messages_of k (drop_chat_checkpoints k db)) in
      db1\<lparr>im_runtime := cancel_chat_tasks tenant app chat now (im_runtime db1)\<rparr>)"

definition revoke_chat_access :: "string \<Rightarrow> string \<Rightarrow> string \<Rightarrow> int \<Rightarrow> ('b im_db, string list) eff" where
  "revoke_chat_access tenant app chat now = transaction (\<lambda>db.
     Inr (drop_unreferenced_blobs (blob_ids_of (\<lambda>a. attachment_chat a = (tenant, app, chat)) db) (revoked_db tenant app chat now db)))"

end
