(* ===== verification/IMReads.thy ===== *)
theory IMReads
  imports IMRepository
begin

text \<open>
  The queries of \<open>SQLiteIMRepository\<close>, which decrypt what they return, and the two records that the ingestion of an
  attachment makes.
\<close>

section \<open>Messages\<close>

text \<open>A stored name is a text or null; what is not an object with an identity is skipped.\<close>

definition mention_of_json :: "json \<Rightarrow> mention option" where
  "mention_of_json v = (case v of
     JObj d \<Rightarrow> (if truthy (json_get d ''open_id'')
       then Some \<lparr>mn_open_id = (case json_get d ''open_id'' of Some i \<Rightarrow> py_str i | None \<Rightarrow> []),
         mn_display_name = (case json_get d ''display_name'' of None \<Rightarrow> None | Some JNull \<Rightarrow> None | Some n \<Rightarrow> Some (py_str n))\<rparr>
       else None)
   | _ \<Rightarrow> None)"

definition mentions_of_json :: "json \<Rightarrow> exn + mention list" where
  "mentions_of_json v = (case v of JArr xs \<Rightarrow> Inr (List.map_filter mention_of_json xs)
     | _ \<Rightarrow> Inl (ValueError ''stored mentions must be a list''))"

definition decrypt_value :: "'b cipher \<Rightarrow> 'b \<Rightarrow> string \<Rightarrow> exn + json" where
  "decrypt_value c b aad = (case unseal c aad b of None \<Rightarrow> Inl (OtherError ''InvalidTag'' []) | Some v \<Rightarrow> Inr v)"

definition read_message :: "'b im_repository \<Rightarrow> 'b message_row \<Rightarrow> exn + stored_message" where
  "read_message r x = (let aad = im_message_aad (mg_tenant_key x) (mg_app_id x) (mg_message_id x) in
     chain (decrypt_text (ir_cipher r) (mg_content x) (aad ''content'')) (\<lambda>body.
     chain (decrypt_value (ir_cipher r) (mg_mentions x) (aad ''mentions'')) (\<lambda>raw.
     chain (mentions_of_json raw) (\<lambda>mentions.
     chain (decrypt_optional (ir_cipher r) (mg_sender_name x) (aad ''sender_name'')) (\<lambda>sender.
       Inr \<lparr>sg_tenant_key = mg_tenant_key x, sg_app_id = mg_app_id x, sg_chat_id = mg_chat_id x, sg_message_id = mg_message_id x,
         sg_message_type = mg_message_type x, sg_sender_id = mg_sender_id x, sg_sender_type = mg_sender_type x,
         sg_body_text = body, sg_mentions = mentions, sg_occurred_at_ms = mg_created_at_source_ms x,
         sg_source_version_ms = mg_updated_at_source_ms x, sg_thread_id = mg_thread_id x, sg_root_id = mg_root_id x,
         sg_parent_id = mg_parent_id x, sg_sender_name = sender, sg_is_recalled = mg_is_recalled x,
         sg_is_deleted = mg_is_deleted x\<rparr>)))))"

definition get_message :: "'b im_repository \<Rightarrow> string \<Rightarrow> string \<Rightarrow> string \<Rightarrow> 'b im_db \<Rightarrow> exn + stored_message option" where
  "get_message r tenant app message_id db = (case find_message (tenant, app, message_id) db of
     None \<Rightarrow> Inr None | Some x \<Rightarrow> chain (read_message r x) (\<lambda>m. Inr (Some m)))"

text \<open>\<open>ORDER BY ... DESC LIMIT n\<close>; rows with equal keys keep the order of the table.\<close>

definition latest :: "('r \<Rightarrow> 'k :: linorder) \<Rightarrow> int \<Rightarrow> 'r list \<Rightarrow> 'r list" where
  "latest key n rows = take (nat n) (rev (sort_key key (rev rows)))"

definition live_message :: "'b message_row \<Rightarrow> bool" where
  "live_message x \<longleftrightarrow> \<not> mg_is_recalled x \<and> \<not> mg_is_deleted x"

definition recent_rows :: "im_key \<Rightarrow> int \<Rightarrow> int \<Rightarrow> 'b im_db \<Rightarrow> 'b message_row list" where
  "recent_rows k before limit db = rev (latest (\<lambda>x. (mg_created_at_source_ms x, mg_message_id x)) limit
     (filter (\<lambda>x. message_chat x = k \<and> mg_created_at_source_ms x \<le> before \<and> live_message x) (im_messages db)))"

definition recent_messages ::
  "'b im_repository \<Rightarrow> string \<Rightarrow> string \<Rightarrow> string \<Rightarrow> int \<Rightarrow> int \<Rightarrow> 'b im_db \<Rightarrow> exn + stored_message list" where
  "recent_messages r tenant app chat before limit db =
     (if limit < 1 \<or> 100 < limit then Inl (ValueError ''message context limit must be between 1 and 100'')
      else decode_all (read_message r) (recent_rows (tenant, app, chat) before limit db))"

section \<open>Attachments\<close>

definition read_attachment :: "'b im_repository \<Rightarrow> 'b attachment_row \<Rightarrow> exn + stored_attachment" where
  "read_attachment r a = (let aad = im_attachment_aad (aw_tenant_key a) (aw_app_id a) (aw_message_id a) (aw_resource_key a) in
     chain (decrypt_optional (ir_cipher r) (aw_filename a) (aad ''filename'')) (\<lambda>filename.
     chain (decrypt_optional (ir_cipher r) (aw_parsed_content a) (aad ''parsed_content'')) (\<lambda>parsed.
       Inr \<lparr>sa_tenant_key = aw_tenant_key a, sa_app_id = aw_app_id a, sa_chat_id = aw_chat_id a, sa_message_id = aw_message_id a,
         sa_resource_key = aw_resource_key a, sa_resource_type = aw_resource_type a, sa_filename = filename,
         sa_media_type = aw_media_type a, sa_declared_size = aw_declared_size a, sa_blob_id = aw_blob_id a,
         sa_download_state = aw_download_state a, sa_parse_state = aw_parse_state a, sa_parsed_content = parsed,
         sa_warning_code = aw_warning_code a\<rparr>)))"

definition attachment_is :: "string \<Rightarrow> string \<Rightarrow> string \<Rightarrow> string \<Rightarrow> string \<Rightarrow> 'b attachment_row \<Rightarrow> bool" where
  "attachment_is tenant app chat message_id key a \<longleftrightarrow> attachment_chat a = (tenant, app, chat) \<and>
     aw_message_id a = message_id \<and> aw_resource_key a = key"

definition get_attachment ::
  "'b im_repository \<Rightarrow> string \<Rightarrow> string \<Rightarrow> string \<Rightarrow> string \<Rightarrow> string \<Rightarrow> 'b im_db \<Rightarrow> exn + stored_attachment option" where
  "get_attachment r tenant app chat message_id key db =
     (case find (attachment_is tenant app chat message_id key) (im_attachments db) of
        None \<Rightarrow> Inr None | Some a \<Rightarrow> chain (read_attachment r a) (\<lambda>x. Inr (Some x)))"

text \<open>The join with the message: its key is unique, so that an attachment joins at most one row.\<close>

definition recent_attachment_rows :: "im_key \<Rightarrow> int \<Rightarrow> int \<Rightarrow> int \<Rightarrow> 'b im_db \<Rightarrow> 'b attachment_row list" where
  "recent_attachment_rows k since before limit db = map fst (latest (\<lambda>(a, m). (mg_created_at_source_ms m, aw_message_id a)) limit
     (filter (\<lambda>(a, m). attachment_chat a = k \<and> since \<le> mg_created_at_source_ms m \<and> mg_created_at_source_ms m \<le> before \<and> live_message m)
       (List.map_filter (\<lambda>a. map_option (Pair a) (find_message (attachment_message a) db)) (im_attachments db))))"

definition recent_attachments ::
  "'b im_repository \<Rightarrow> string \<Rightarrow> string \<Rightarrow> string \<Rightarrow> int \<Rightarrow> int \<Rightarrow> int \<Rightarrow> 'b im_db \<Rightarrow> exn + stored_attachment list" where
  "recent_attachments r tenant app chat since before limit db =
     (if limit < 1 \<or> 500 < limit then Inl (ValueError ''attachment discovery limit must be between 1 and 500'')
      else decode_all (read_attachment r) (recent_attachment_rows (tenant, app, chat) since before limit db))"

text \<open>An update that finds no row raises, and the transaction leaves nothing behind.\<close>

definition update_attachment ::
  "stored_attachment \<Rightarrow> string \<Rightarrow> ('b attachment_row \<Rightarrow> 'b attachment_row) \<Rightarrow> 'b im_db \<Rightarrow> exn + unit \<times> 'b im_db" where
  "update_attachment a missing upd db = (let this = attachment_is (sa_tenant_key a) (sa_app_id a) (sa_chat_id a) (sa_message_id a)
       (sa_resource_key a) in
     if length (filter this (im_attachments db)) \<noteq> 1 then Inl (LookupError missing)
     else Inr ((), db\<lparr>im_attachments := update_where this upd (im_attachments db)\<rparr>))"

definition record_attachment_blob ::
  "stored_attachment \<Rightarrow> string \<Rightarrow> int \<Rightarrow> string option \<Rightarrow> int \<Rightarrow> ('b im_db, unit) eff" where
  "record_attachment_blob a blob_id byte_size media_type now = transaction (\<lambda>db.
     update_attachment a ''attachment reference disappeared during ingest''
       (\<lambda>x. x\<lparr>aw_blob_id := Some blob_id, aw_media_type := (case media_type of None \<Rightarrow> aw_media_type x | Some t \<Rightarrow> Some t),
          aw_download_state := ''downloaded''\<rparr>)
       (if list_ex (\<lambda>f. fb_blob_id f = blob_id) (im_file_blobs db) then db
        else db\<lparr>im_file_blobs := im_file_blobs db @ [\<lparr>fb_blob_id = blob_id, fb_byte_size = byte_size, fb_media_type = media_type,
          fb_created_at_ms = now\<rparr>]\<rparr>))"

definition parsed_row ::
  "'b im_repository \<Rightarrow> stored_attachment \<Rightarrow> string \<Rightarrow> string \<Rightarrow> string \<Rightarrow> string option \<Rightarrow> string \<Rightarrow> string option \<Rightarrow>
     'b attachment_row \<Rightarrow> 'b attachment_row" where
  "parsed_row r a parser_id parser_version policy content state warning_code x =
     x\<lparr>aw_parse_state := state, aw_parser_id := Some parser_id, aw_parser_version := Some parser_version,
       aw_parsing_policy_version := Some policy,
       aw_parsed_content := encrypt_optional (ir_cipher r) content
         (im_attachment_aad (sa_tenant_key a) (sa_app_id a) (sa_message_id a) (sa_resource_key a) ''parsed_content''),
       aw_parsed_content_hash := map_option (ir_digest r) content, aw_warning_code := warning_code\<rparr>"

definition record_attachment_parse ::
  "'b im_repository \<Rightarrow> stored_attachment \<Rightarrow> string \<Rightarrow> string \<Rightarrow> string \<Rightarrow> string option \<Rightarrow> string \<Rightarrow> string option \<Rightarrow>
     ('b im_db, unit) eff" where
  "record_attachment_parse r a parser_id parser_version policy content state warning_code =
     (if state \<notin> {''parsed'', ''metadata_only'', ''blocked'', ''failed''} then raise (ValueError ''invalid attachment parse state'')
      else transaction (update_attachment a ''attachment reference disappeared during parse''
        (parsed_row r a parser_id parser_version policy content state warning_code)))"

end
