(* ===== verification/IMSystem.thy ===== *)
theory IMSystem
  imports IMReads
begin

text \<open>
  The mirror and the runtime in one database: every operation of the repository and of the runtime store as one step,
  the invariant of the mirror's tables, and an interpretation of \<open>clocked_steps\<close>: the capability, which deletes
  checkpoints and cancels tasks of the runtime, keeps every invariant of the runtime.
\<close>

datatype 'b im_op =
    ImRuntime "'b rt_op"
  | ImUpsert "'b im_repository" incoming_message
  | ImInvalidate "'b im_repository" string string string string int
  | ImRevoke string string string
  | ImRestore string string string
  | ImRecordBlob stored_attachment string int "string option"
  | ImRecordParse "'b im_repository" stored_attachment string string string "string option" string "string option"

fun im_step :: "int \<Rightarrow> 'b im_op \<Rightarrow> 'b im_db \<Rightarrow> 'b im_db" where
  "im_step now (ImRuntime op) db = db\<lparr>im_runtime := rt_step now op (im_runtime db)\<rparr>"
| "im_step now (ImUpsert r m) db = snd (upsert_message r m db)"
| "im_step now (ImInvalidate r tenant app chat i version) db = snd (invalidate_message r tenant app chat i version now db)"
| "im_step now (ImRevoke tenant app chat) db = snd (revoke_chat_access tenant app chat now db)"
| "im_step now (ImRestore tenant app chat) db = snd (restore_chat_access tenant app chat now db)"
| "im_step now (ImRecordBlob a b n t) db = snd (record_attachment_blob a b n t now db)"
| "im_step now (ImRecordParse r a p v pol content state w) db = snd (record_attachment_parse r a p v pol content state w db)"

fun im_legal :: "'b im_op \<Rightarrow> bool" where
  "im_legal (ImRuntime op) = rt_legal op"
| "im_legal _ = True"

section \<open>The invariant of the mirror\<close>

definition attachment_key :: "'b attachment_row \<Rightarrow> im_key \<times> string" where
  "attachment_key a = (attachment_message a, aw_resource_key a)"

definition chats_ok :: "'b im_db \<Rightarrow> bool" where
  "chats_ok db \<longleftrightarrow> distinct (map chat_key (im_chats db)) \<and> message_chat ` set (im_messages db) \<subseteq> chat_key ` set (im_chats db)"

definition attachments_ok :: "'b im_db \<Rightarrow> bool" where
  "attachments_ok db \<longleftrightarrow> distinct (map message_key (im_messages db)) \<and> distinct (map attachment_key (im_attachments db)) \<and>
     attachment_message ` set (im_attachments db) \<subseteq> message_key ` set (im_messages db)"

definition blobs_ok :: "'b im_db \<Rightarrow> bool" where
  "blobs_ok db \<longleftrightarrow> (\<forall>a \<in> set (im_attachments db). \<forall>b. aw_blob_id a = Some b \<longrightarrow> b \<in> fb_blob_id ` set (im_file_blobs db))"

definition mirror_ok :: "'b im_db \<Rightarrow> bool" where
  "mirror_ok db \<longleftrightarrow> chats_ok db \<and> attachments_ok db \<and> blobs_ok db"

definition im_ok :: "int \<Rightarrow> 'b im_db \<Rightarrow> bool" where
  "im_ok now db \<longleftrightarrow> runtime_ok now (im_runtime db) \<and> mirror_ok db"

named_theorems mirror_frame \<open>what an operation leaves alone\<close>

lemma put_chat_frame [mirror_frame]:
  "im_runtime (put_chat row upd db) = im_runtime db" "im_messages (put_chat row upd db) = im_messages db"
  "im_attachments (put_chat row upd db) = im_attachments db" "im_file_blobs (put_chat row upd db) = im_file_blobs db"
  by (simp_all add: put_chat_def)

lemma put_message_frame [mirror_frame]:
  "im_runtime (put_message row db) = im_runtime db" "im_chats (put_message row db) = im_chats db"
  "im_attachments (put_message row db) = im_attachments db" "im_file_blobs (put_message row db) = im_file_blobs db"
  by (simp_all add: put_message_def)

lemma recall_row_frame [mirror_frame]:
  "im_runtime (recall_row r t a c i v n db) = im_runtime db" "im_chats (recall_row r t a c i v n db) = im_chats db"
  "im_attachments (recall_row r t a c i v n db) = im_attachments db" "im_file_blobs (recall_row r t a c i v n db) = im_file_blobs db"
  by (simp_all add: recall_row_def)

lemma drop_checkpoints_frame [mirror_frame]:
  "im_chats (drop_checkpoints P db) = im_chats db" "im_messages (drop_checkpoints P db) = im_messages db"
  "im_attachments (drop_checkpoints P db) = im_attachments db" "im_file_blobs (drop_checkpoints P db) = im_file_blobs db"
  by (simp_all add: drop_checkpoints_def Let_def)

lemma delete_attachments_frame [mirror_frame]:
  "im_runtime (delete_attachments_of k db) = im_runtime db" "im_chats (delete_attachments_of k db) = im_chats db"
  "im_messages (delete_attachments_of k db) = im_messages db" "im_file_blobs (delete_attachments_of k db) = im_file_blobs db"
  by (simp_all add: delete_attachments_of_def)

lemma delete_messages_frame [mirror_frame]:
  "im_runtime (delete_messages_of k db) = im_runtime db" "im_chats (delete_messages_of k db) = im_chats db"
  "im_file_blobs (delete_messages_of k db) = im_file_blobs db"
  by (simp_all add: delete_messages_of_def Let_def)

lemma insert_attachments_frame:
  assumes "insert_attachments r m as db = Inr db'"
  shows "im_runtime db' = im_runtime db" "im_chats db' = im_chats db" "im_messages db' = im_messages db"
    "im_file_blobs db' = im_file_blobs db"
    "set (im_attachments db') = set (im_attachments db) \<union> new_attachment_row r m ` set as"
    "distinct (map attachment_key (im_attachments db)) \<Longrightarrow> distinct (map attachment_key (im_attachments db'))"
proof -
  have "im_runtime db' = im_runtime db \<and> im_chats db' = im_chats db \<and> im_messages db' = im_messages db \<and>
    im_file_blobs db' = im_file_blobs db \<and> set (im_attachments db') = set (im_attachments db) \<union> new_attachment_row r m ` set as \<and>
    (distinct (map attachment_key (im_attachments db)) \<longrightarrow> distinct (map attachment_key (im_attachments db')))"
    using assms
  proof (induction as arbitrary: db)
    case (Cons a as)
    let ?db = "db\<lparr>im_attachments := im_attachments db @ [new_attachment_row r m a]\<rparr>"
    have fresh: "\<not> list_ex (\<lambda>x. attachment_message x = (ig_tenant_key m, ig_app_id m, ig_message_id m) \<and>
           aw_resource_key x = af_resource_key a) (im_attachments db)" and rest: "insert_attachments r m as ?db = Inr db'"
      using Cons.prems by (auto split: if_splits)
    have "attachment_key (new_attachment_row r m a) = ((ig_tenant_key m, ig_app_id m, ig_message_id m), af_resource_key a)"
      by (simp add: attachment_key_def attachment_message_def new_attachment_row_def)
    with fresh have "attachment_key (new_attachment_row r m a) \<notin> attachment_key ` set (im_attachments db)"
      by (auto simp: list_ex_iff attachment_key_def)
    with Cons.IH [OF rest] show ?case by auto
  qed simp
  then show "im_runtime db' = im_runtime db" "im_chats db' = im_chats db" "im_messages db' = im_messages db"
    "im_file_blobs db' = im_file_blobs db"
    "set (im_attachments db') = set (im_attachments db) \<union> new_attachment_row r m ` set as"
    "distinct (map attachment_key (im_attachments db)) \<Longrightarrow> distinct (map attachment_key (im_attachments db'))"
    by simp_all
qed

lemma drop_unreferenced_effect:
  assumes "drop_unreferenced_blobs bs db = (gone, db')"
  shows "im_runtime db' = im_runtime db" "im_chats db' = im_chats db" "im_messages db' = im_messages db"
    "im_attachments db' = im_attachments db"
    "set gone = {b \<in> set bs. \<forall>a \<in> set (im_attachments db). aw_blob_id a \<noteq> Some b}"
    "set (im_file_blobs db') = {f \<in> set (im_file_blobs db). fb_blob_id f \<notin> set gone}"
proof -
  have "im_runtime db' = im_runtime db \<and> im_chats db' = im_chats db \<and> im_messages db' = im_messages db \<and>
    im_attachments db' = im_attachments db \<and> set gone = {b \<in> set bs. \<forall>a \<in> set (im_attachments db). aw_blob_id a \<noteq> Some b} \<and>
    set (im_file_blobs db') = {f \<in> set (im_file_blobs db). fb_blob_id f \<notin> set gone}"
    using assms
  proof (induction bs arbitrary: db gone)
    case (Cons b bs)
    show ?case
    proof (cases "list_ex (\<lambda>a. aw_blob_id a = Some b) (im_attachments db)")
      case True
      with Cons.prems Cons.IH [of db gone] show ?thesis by (auto simp: list_ex_iff)
    next
      case False
      let ?db = "db\<lparr>im_file_blobs := filter (\<lambda>f. fb_blob_id f \<noteq> b) (im_file_blobs db)\<rparr>"
      obtain rest db1 where rest: "drop_unreferenced_blobs bs ?db = (rest, db1)" by fastforce
      with Cons.prems False have "gone = b # rest" "db' = db1" by auto
      with Cons.IH [of ?db rest] rest False show ?thesis by (auto simp: list_ex_iff)
    qed
  qed auto
  then show "im_runtime db' = im_runtime db" "im_chats db' = im_chats db" "im_messages db' = im_messages db"
    "im_attachments db' = im_attachments db"
    "set gone = {b \<in> set bs. \<forall>a \<in> set (im_attachments db). aw_blob_id a \<noteq> Some b}"
    "set (im_file_blobs db') = {f \<in> set (im_file_blobs db). fb_blob_id f \<notin> set gone}"
    by simp_all
qed

section \<open>Every operation keeps it\<close>

lemma find_chat_None: "find_chat k db = None \<longleftrightarrow> k \<notin> chat_key ` set (im_chats db)"
  by (auto simp: find_chat_def find_None_iff)

lemma find_message_None: "find_message k db = None \<longleftrightarrow> k \<notin> message_key ` set (im_messages db)"
  by (auto simp: find_message_def find_None_iff)

lemma put_chat_keys:
  assumes "\<And>c. chat_key c = chat_key row \<Longrightarrow> chat_key (upd c) = chat_key row"
  shows "map chat_key (im_chats (put_chat row upd db)) =
    map chat_key (im_chats db) @ (if find_chat (chat_key row) db = None then [chat_key row] else [])"
proof -
  have "map chat_key (update_where (\<lambda>c. chat_key c = chat_key row) upd (im_chats db)) = map chat_key (im_chats db)"
    by (rule update_where_map_key) (simp add: assms)
  then show ?thesis by (simp add: put_chat_def)
qed

lemma put_chat_ok:
  assumes "\<And>c. chat_key c = chat_key row \<Longrightarrow> chat_key (upd c) = chat_key row"
  shows "chats_ok db \<Longrightarrow> chats_ok (put_chat row upd db)" "chat_key row \<in> chat_key ` set (im_chats (put_chat row upd db))"
proof -
  have keys: "map chat_key (im_chats (put_chat row upd db)) =
    map chat_key (im_chats db) @ (if find_chat (chat_key row) db = None then [chat_key row] else [])"
    by (rule put_chat_keys) (rule assms)
  have k: "chat_key ` set (im_chats (put_chat row upd db)) = chat_key ` set (im_chats db) \<union> {chat_key row}"
    unfolding set_map [symmetric] keys using find_chat_None [of "chat_key row" db] by auto
  then show "chat_key row \<in> chat_key ` set (im_chats (put_chat row upd db))" by simp
  show "chats_ok (put_chat row upd db)" if "chats_ok db"
    using that k keys find_chat_None [of "chat_key row" db] by (auto simp: chats_ok_def mirror_frame)
qed

lemma put_message_ok:
  assumes "chats_ok db" "attachments_ok db" "message_chat row \<in> chat_key ` set (im_chats db)"
  shows "chats_ok (put_message row db)" "attachments_ok (put_message row db)"
    "message_key row \<in> message_key ` set (im_messages (put_message row db))"
proof -
  let ?upd = "\<lambda>m. row\<lparr>mg_created_at_source_ms := mg_created_at_source_ms m, mg_schema_version := mg_schema_version m\<rparr>"
  have row: "message_key (?upd m) = message_key row" "message_chat (?upd m) = message_chat row" for m
    by (simp_all add: message_key_def message_chat_def)
  have keys: "map message_key (im_messages (put_message row db)) =
    map message_key (im_messages db) @ (if find_message (message_key row) db = None then [message_key row] else [])"
  proof -
    have "map message_key (update_where (\<lambda>m. message_key m = message_key row) ?upd (im_messages db)) = map message_key (im_messages db)"
      by (rule update_where_map_key) (simp add: row)
    then show ?thesis by (simp add: put_message_def)
  qed
  then have k: "message_key ` set (im_messages (put_message row db)) = message_key ` set (im_messages db) \<union> {message_key row}"
    unfolding set_map [symmetric] keys using find_message_None [of "message_key row" db] by auto
  then show "message_key row \<in> message_key ` set (im_messages (put_message row db))" by simp
  show "attachments_ok (put_message row db)"
    using assms(2) k keys find_message_None [of "message_key row" db] by (auto simp: attachments_ok_def mirror_frame)
  have "message_chat ` set (im_messages (put_message row db)) \<subseteq> message_chat ` set (im_messages db) \<union> {message_chat row}"
    using row by (auto simp: put_message_def table_simps)
  also have "\<dots> \<subseteq> chat_key ` set (im_chats db)" using assms(1,3) by (simp add: chats_ok_def)
  finally show "chats_ok (put_message row db)" using assms(1) by (simp add: chats_ok_def mirror_frame)
qed

lemma recall_row_ok:
  assumes "chats_ok db" "attachments_ok db" "(tenant, app, chat) \<in> chat_key ` set (im_chats db)"
  shows "chats_ok (recall_row r tenant app chat i v n db)" "attachments_ok (recall_row r tenant app chat i v n db)"
proof -
  let ?db = "recall_row r tenant app chat i v n db" and ?upd = "\<lambda>m. m\<lparr>mg_is_recalled := True, mg_updated_at_source_ms := v,
    mg_last_reconciled_at_ms := n\<rparr>"
  have row: "message_key (?upd m) = message_key m" "message_chat (?upd m) = message_chat m" for m :: "'a message_row"
    by (simp_all add: message_key_def message_chat_def)
  have new: "message_key (tombstone_row r tenant app chat i v n) = (tenant, app, i)"
    "message_chat (tombstone_row r tenant app chat i v n) = (tenant, app, chat)"
    by (simp_all add: message_key_def message_chat_def tombstone_row_def Let_def)
  have keys: "map message_key (im_messages ?db) =
    map message_key (im_messages db) @ (if find_message (tenant, app, i) db = None then [(tenant, app, i)] else [])"
  proof -
    have "map message_key (update_where (\<lambda>m. message_key m = (tenant, app, i)) ?upd (im_messages db)) = map message_key (im_messages db)"
      by (rule update_where_map_key) (simp add: row)
    with new show ?thesis by (simp add: recall_row_def)
  qed
  then have k: "message_key ` set (im_messages ?db) = message_key ` set (im_messages db) \<union>
      (if find_message (tenant, app, i) db = None then {(tenant, app, i)} else {})"
    unfolding set_map [symmetric] keys by auto
  show "attachments_ok ?db"
    using assms(2) k keys find_message_None [of "(tenant, app, i)" db] by (auto simp: attachments_ok_def mirror_frame split: if_splits)
  have "message_chat ` set (im_messages ?db) \<subseteq> message_chat ` set (im_messages db) \<union> {(tenant, app, chat)}"
    using row new by (auto simp: recall_row_def table_simps)
  also have "\<dots> \<subseteq> chat_key ` set (im_chats db)" using assms(1,3) by (simp add: chats_ok_def)
  finally show "chats_ok ?db" using assms(1) by (simp add: chats_ok_def mirror_frame)
qed

lemma delete_attachments_ok: "attachments_ok db \<Longrightarrow> attachments_ok (delete_attachments_of k db)"
  by (auto simp: attachments_ok_def delete_attachments_of_def distinct_map_filter)

lemma delete_messages_ok:
  assumes "chats_ok db" "attachments_ok db"
  shows "chats_ok (delete_messages_of k db)" "attachments_ok (delete_messages_of k db)"
proof -
  show "chats_ok (delete_messages_of k db)" using assms(1) by (auto simp: chats_ok_def delete_messages_of_def Let_def)
  have "attachment_message a \<in> message_key ` set (im_messages (delete_messages_of k db))"
    if a: "a \<in> set (im_attachments (delete_messages_of k db))" for a
  proof -
    have "a \<in> set (im_attachments db)" and gone: "attachment_message a \<notin> message_key ` {m \<in> set (im_messages db). message_chat m = k}"
      using a by (auto simp: delete_messages_of_def Let_def)
    then obtain m where "m \<in> set (im_messages db)" "message_key m = attachment_message a"
      using assms(2) by (fastforce simp: attachments_ok_def)
    with gone show ?thesis by (force simp: delete_messages_of_def Let_def)
  qed
  then show "attachments_ok (delete_messages_of k db)"
    using assms(2) by (auto simp: attachments_ok_def delete_messages_of_def Let_def distinct_map_filter)
qed

lemma blobs_ok_mono: "blobs_ok db \<Longrightarrow> set (im_attachments db') \<subseteq> set (im_attachments db) \<Longrightarrow>
    im_file_blobs db' = im_file_blobs db \<Longrightarrow> blobs_ok db'"
  by (auto simp: blobs_ok_def)

lemma mirror_cong:
  assumes "im_chats db' = im_chats db" "im_messages db' = im_messages db" "im_attachments db' = im_attachments db"
    "im_file_blobs db' = im_file_blobs db"
  shows "mirror_ok db' = mirror_ok db"
  using assms by (simp add: mirror_ok_def chats_ok_def attachments_ok_def blobs_ok_def)

lemma drop_unreferenced_ok:
  assumes "mirror_ok db" "drop_unreferenced_blobs bs db = (gone, db')"
  shows "mirror_ok db'"
proof -
  note e = drop_unreferenced_effect [OF assms(2)]
  have "b \<in> fb_blob_id ` set (im_file_blobs db')" if "a \<in> set (im_attachments db')" "aw_blob_id a = Some b" for a b
  proof -
    have "b \<in> fb_blob_id ` set (im_file_blobs db)" "b \<notin> set gone"
      using assms(1) that e(4,5) by (auto simp: mirror_ok_def blobs_ok_def)
    then show ?thesis using e(6) by auto
  qed
  then have "blobs_ok db'" by (simp add: blobs_ok_def)
  with assms(1) e(2-4) show ?thesis by (simp add: mirror_ok_def chats_ok_def attachments_ok_def)
qed

lemma chat_row_of_key: "chat_key (chat_row_of r m) = (ig_tenant_key m, ig_app_id m, ig_chat_id m)"
  by (simp add: chat_key_def chat_row_of_def new_chat_row_def)

lemma seen_chat_key: "chat_key (seen_chat row c) = chat_key c"
  by (simp add: chat_key_def seen_chat_def)

lemma upsert_chat_ok:
  assumes "chats_ok db"
  shows "chats_ok (upsert_chat r m db)" "(ig_tenant_key m, ig_app_id m, ig_chat_id m) \<in> chat_key ` set (im_chats (upsert_chat r m db))"
  using put_chat_ok [of "chat_row_of r m" "seen_chat (chat_row_of r m)" db] assms
  by (simp_all add: upsert_chat_def seen_chat_key chat_row_of_key)

lemma upsert_chat_frame [mirror_frame]:
  "im_runtime (upsert_chat r m db) = im_runtime db" "im_messages (upsert_chat r m db) = im_messages db"
  "im_attachments (upsert_chat r m db) = im_attachments db" "im_file_blobs (upsert_chat r m db) = im_file_blobs db"
  by (simp_all add: upsert_chat_def mirror_frame)

lemma chat_upsert_mirror_ok: "mirror_ok db \<Longrightarrow> mirror_ok (upsert_chat r m db)"
  by (auto simp: mirror_ok_def attachments_ok_def blobs_ok_def mirror_frame intro: upsert_chat_ok(1))

lemma drop_checkpoints_mirror_ok: "mirror_ok db \<Longrightarrow> mirror_ok (drop_checkpoints P db)"
  by (subst mirror_cong) (simp_all add: mirror_frame)

lemma write_message_ok:
  assumes "mirror_ok db" "(ig_tenant_key m, ig_app_id m, ig_chat_id m) \<in> chat_key ` set (im_chats db)"
    and "write_message r m db = Inr (b, db')"
  shows "mirror_ok db'" "b" "im_runtime db' = im_runtime db"
proof -
  let ?row = "new_message_row r m"
  let ?db1 = "delete_attachments_of (incoming_key m) (put_message ?row db)"
  have row: "message_chat ?row = (ig_tenant_key m, ig_app_id m, ig_chat_id m)" "message_key ?row = incoming_key m"
    by (simp_all add: message_chat_def message_key_def new_message_row_def incoming_key_def Let_def)
  have ins: "insert_attachments r m (ig_attachments m) ?db1 = Inr db'" and b
    using assms(3) by (auto simp: write_message_def split: sum.splits)
  then show b by simp
  note e = insert_attachments_frame [OF ins]
  have put: "chats_ok (put_message ?row db)" "attachments_ok (put_message ?row db)"
    "incoming_key m \<in> message_key ` set (im_messages (put_message ?row db))"
    using put_message_ok [of db ?row] assms(1,2) row by (simp_all add: mirror_ok_def)
  then have at1: "attachments_ok ?db1" by (intro delete_attachments_ok)
  have new: "attachment_message (new_attachment_row r m a) = incoming_key m" "aw_blob_id (new_attachment_row r m a) = None" for a
    by (simp_all add: attachment_message_def new_attachment_row_def incoming_key_def)
  have "attachments_ok db'"
    using at1 e(3,5,6) new(1) put(3) by (auto simp: attachments_ok_def mirror_frame)
  moreover have "chats_ok db'" using put(1) e(2,3) by (simp add: chats_ok_def mirror_frame)
  moreover have "blobs_ok db'"
    using assms(1) e(4,5) new(2) by (auto simp: mirror_ok_def blobs_ok_def mirror_frame delete_attachments_of_def)
  ultimately show "mirror_ok db'" by (simp add: mirror_ok_def)
  show "im_runtime db' = im_runtime db" using e(1) by (simp add: mirror_frame)
qed

text \<open>What the capability does to the runtime's tables.\<close>

definition without_runs :: "string set \<Rightarrow> 'b rt_db \<Rightarrow> 'b rt_db" where
  "without_runs I rt = rt\<lparr>db_checkpoints := filter (\<lambda>k. cp_run_id k \<notin> I) (db_checkpoints rt),
     db_checkpoint_sources := filter (\<lambda>s. cs_run_id s \<notin> I) (db_checkpoint_sources rt)\<rparr>"

lemma without_none: "without_runs {} rt = rt"
  by (simp add: without_runs_def)

lemma drop_checkpoints_runtime: "\<exists>I. im_runtime (drop_checkpoints P db) = without_runs I (im_runtime db)"
  by (auto simp: drop_checkpoints_def without_runs_def Let_def)

lemma upsert_message_tx_ok:
  assumes "mirror_ok db" "upsert_message_tx r m db = Inr (b, db')"
  shows "mirror_ok db'" "\<exists>I. im_runtime db' = without_runs I (im_runtime db)"
proof -
  let ?db1 = "upsert_chat r m db"
  have ok: "mirror_ok ?db1" and chat: "(ig_tenant_key m, ig_app_id m, ig_chat_id m) \<in> chat_key ` set (im_chats ?db1)"
    using chat_upsert_mirror_ok [OF assms(1)] upsert_chat_ok(2) assms(1) by (auto simp: mirror_ok_def)
  have chat': "(ig_tenant_key m, ig_app_id m, ig_chat_id m) \<in> chat_key ` set (im_chats (drop_checkpoints P ?db1))" for P
    using chat by (simp add: mirror_frame)
  have drop: "mirror_ok (drop_checkpoints P ?db1)" for P by (rule drop_checkpoints_mirror_ok [OF ok])
  have none: "\<exists>I. im_runtime ?db1 = without_runs I (im_runtime db)"
    by (intro exI [of _ "{}"]) (simp add: without_none mirror_frame)
  consider "db' = ?db1" | "write_message r m ?db1 = Inr (b, db')"
    | P where "write_message r m (drop_checkpoints P ?db1) = Inr (b, db')"
    using assms(2) by (auto simp: upsert_message_tx_def Let_def split: if_splits option.splits)
  then have "mirror_ok db' \<and> (\<exists>I. im_runtime db' = without_runs I (im_runtime db))"
  proof cases
    case 1
    with ok none show ?thesis by simp
  next
    case 2
    from write_message_ok [OF ok chat 2] none show ?thesis by simp
  next
    case 3
    from write_message_ok [OF drop chat' 3] drop_checkpoints_runtime [of P ?db1] show ?thesis by (simp add: mirror_frame)
  qed
  then show "mirror_ok db'" "\<exists>I. im_runtime db' = without_runs I (im_runtime db)" by simp_all
qed

lemma new_chat_row_key: "chat_key (new_chat_row tenant app chat name mode now) = (tenant, app, chat)"
  by (simp add: chat_key_def new_chat_row_def)

lemma put_chat_mirror_ok:
  assumes "\<And>c. chat_key c = chat_key row \<Longrightarrow> chat_key (upd c) = chat_key row" "mirror_ok db"
  shows "mirror_ok (put_chat row upd db)"
  using put_chat_ok(1) [of row upd db] assms by (simp add: mirror_ok_def attachments_ok_def blobs_ok_def mirror_frame)

lemma recall_row_mirror_ok:
  assumes "mirror_ok db" "(tenant, app, chat) \<in> chat_key ` set (im_chats db)"
  shows "mirror_ok (recall_row r tenant app chat i v n db)"
  using recall_row_ok [of db tenant app chat r i v n] assms by (simp add: mirror_ok_def blobs_ok_def mirror_frame)

lemma delete_attachments_mirror_ok: "mirror_ok db \<Longrightarrow> mirror_ok (delete_attachments_of k db)"
  using delete_attachments_ok [of db k]
  by (auto simp: mirror_ok_def chats_ok_def blobs_ok_def mirror_frame) (auto simp: delete_attachments_of_def)

lemma delete_messages_mirror_ok: "mirror_ok db \<Longrightarrow> mirror_ok (delete_messages_of k db)"
  using delete_messages_ok [of db k]
  by (auto simp: mirror_ok_def blobs_ok_def mirror_frame) (auto simp: delete_messages_of_def Let_def)

lemma recalled_db_ok:
  assumes "mirror_ok db"
  shows "mirror_ok (recalled_db r tenant app chat i v now db)"
    "\<exists>I. im_runtime (recalled_db r tenant app chat i v now db) = without_runs I (im_runtime db)"
proof -
  let ?db1 = "put_chat (new_chat_row tenant app chat None ''unknown'' now) id db"
  let ?db2 = "recall_row r tenant app chat i v now ?db1"
  have 1: "mirror_ok ?db1" by (rule put_chat_mirror_ok [OF _ assms]) simp
  have "(tenant, app, chat) \<in> chat_key ` set (im_chats ?db1)"
    using put_chat_ok(2) [of "new_chat_row tenant app chat None ''unknown'' now" id db] by (simp add: new_chat_row_key)
  then have "mirror_ok ?db2" by (rule recall_row_mirror_ok [OF 1])
  then show "mirror_ok (recalled_db r tenant app chat i v now db)"
    unfolding recalled_db_def by (intro delete_attachments_mirror_ok drop_checkpoints_mirror_ok)
  show "\<exists>I. im_runtime (recalled_db r tenant app chat i v now db) = without_runs I (im_runtime db)"
    using drop_checkpoints_runtime [of "cites_message i" ?db2] by (auto simp: recalled_db_def mirror_frame)
qed

lemma invalidate_message_cases:
  obtains "snd (invalidate_message r tenant app chat i v now db) = db"
    | gone where "drop_unreferenced_blobs (blob_ids_of (\<lambda>a. attachment_message a = (tenant, app, i)) db)
        (recalled_db r tenant app chat i v now db) = (gone, snd (invalidate_message r tenant app chat i v now db))"
proof (cases "case find_message (tenant, app, i) db of Some x \<Rightarrow> v < mg_updated_at_source_ms x | None \<Rightarrow> False")
  case True
  then show thesis by (intro that(1)) (simp add: invalidate_message_def transaction_def)
next
  case False
  then show thesis by (intro that(2) [of "fst (drop_unreferenced_blobs (blob_ids_of (\<lambda>a. attachment_message a = (tenant, app, i)) db)
        (recalled_db r tenant app chat i v now db))"]) (simp add: invalidate_message_def transaction_def)
qed

lemma invalidate_message_ok:
  assumes "mirror_ok db"
  shows "mirror_ok (snd (invalidate_message r tenant app chat i v now db)) \<and>
    (\<exists>I. im_runtime (snd (invalidate_message r tenant app chat i v now db)) = without_runs I (im_runtime db))"
proof (cases rule: invalidate_message_cases [of r tenant app chat i v now db])
  case 1
  with assms without_none [of "im_runtime db"] show ?thesis by metis
next
  case (2 gone)
  note ok = recalled_db_ok [OF assms, of r tenant app chat i v now]
  from drop_unreferenced_ok [OF ok(1) 2] drop_unreferenced_effect(1) [OF 2] ok(2) show ?thesis by auto
qed

lemma revoke_chat_mirror_ok: "mirror_ok db \<Longrightarrow> mirror_ok (revoke_chat tenant app chat now db)"
  unfolding revoke_chat_def by (rule put_chat_mirror_ok) (auto simp: chat_key_def new_chat_row_def)

lemma drop_chat_checkpoints_frame [mirror_frame]:
  "im_chats (drop_chat_checkpoints k db) = im_chats db" "im_messages (drop_chat_checkpoints k db) = im_messages db"
  "im_attachments (drop_chat_checkpoints k db) = im_attachments db" "im_file_blobs (drop_chat_checkpoints k db) = im_file_blobs db"
  by (simp_all add: drop_chat_checkpoints_def Let_def mirror_frame)

lemma drop_chat_checkpoints_runtime: "\<exists>I. im_runtime (drop_chat_checkpoints k db) = without_runs I (im_runtime db)"
proof (cases "filter (\<lambda>m. message_chat m = k) (im_messages db) = []")
  case True
  then show ?thesis by (intro exI [of _ "{}"]) (simp add: drop_chat_checkpoints_def without_none)
next
  case False
  let ?refs = "map (\<lambda>m. ''im.message:'' @ mg_message_id m) (filter (\<lambda>m. message_chat m = k) (im_messages db))"
  have "drop_chat_checkpoints k db = drop_checkpoints (\<lambda>ref. ref \<in> set ?refs) db"
    using False unfolding drop_chat_checkpoints_def Let_def by (simp only: map_is_Nil_conv if_False)
  with drop_checkpoints_runtime [of "\<lambda>ref. ref \<in> set ?refs" db] show ?thesis by (simp only:)
qed

lemma revoked_db_ok:
  assumes "mirror_ok db"
  shows "mirror_ok (revoked_db tenant app chat now db)"
    "\<exists>I. im_runtime (revoked_db tenant app chat now db) = cancel_chat_tasks tenant app chat now (without_runs I (im_runtime db))"
proof -
  let ?k = "(tenant, app, chat)"
  let ?db1 = "revoke_chat tenant app chat now (delete_messages_of ?k (drop_chat_checkpoints ?k db))"
  have "mirror_ok (drop_chat_checkpoints ?k db)" using assms by (subst mirror_cong) (simp_all add: mirror_frame)
  then have "mirror_ok ?db1" by (intro revoke_chat_mirror_ok delete_messages_mirror_ok)
  then show "mirror_ok (revoked_db tenant app chat now db)" unfolding revoked_db_def Let_def by (subst mirror_cong) simp_all
  have "im_runtime ?db1 = im_runtime (drop_chat_checkpoints ?k db)" by (simp add: revoke_chat_def mirror_frame)
  with drop_chat_checkpoints_runtime [of ?k db]
  show "\<exists>I. im_runtime (revoked_db tenant app chat now db) = cancel_chat_tasks tenant app chat now (without_runs I (im_runtime db))"
    by (auto simp: revoked_db_def Let_def)
qed

lemma revoke_chat_access_cases:
  obtains gone where "drop_unreferenced_blobs (blob_ids_of (\<lambda>a. attachment_chat a = (tenant, app, chat)) db)
    (revoked_db tenant app chat now db) = (gone, snd (revoke_chat_access tenant app chat now db))"
    "fst (revoke_chat_access tenant app chat now db) = Inr gone"
  by (cases "drop_unreferenced_blobs (blob_ids_of (\<lambda>a. attachment_chat a = (tenant, app, chat)) db) (revoked_db tenant app chat now db)")
    (auto simp: revoke_chat_access_def transaction_def)

lemma revoke_chat_access_ok:
  assumes "mirror_ok db"
  shows "mirror_ok (snd (revoke_chat_access tenant app chat now db)) \<and>
    (\<exists>I. im_runtime (snd (revoke_chat_access tenant app chat now db)) = cancel_chat_tasks tenant app chat now (without_runs I (im_runtime db)))"
proof (cases rule: revoke_chat_access_cases [of tenant app chat db now])
  case (1 gone)
  note ok = revoked_db_ok [OF assms, of tenant app chat now]
  from drop_unreferenced_ok [OF ok(1) 1(1)] drop_unreferenced_effect(1) [OF 1(1)] ok(2) show ?thesis by auto
qed

lemma restore_chat_access_ok:
  assumes "mirror_ok db"
  shows "mirror_ok (snd (restore_chat_access tenant app chat now db))"
    "im_runtime (snd (restore_chat_access tenant app chat now db)) = im_runtime db"
  using put_chat_mirror_ok [OF _ assms, of "new_chat_row tenant app chat None ''unknown'' now" "\<lambda>c. c\<lparr>ch_enabled := True,
    ch_bot_member_state := ''present'', ch_access_state := ''visible'', ch_last_reconciled_at_ms := now, ch_purge_after_ms := None\<rparr>"]
  by (simp_all add: restore_chat_access_def transaction_def mirror_frame chat_key_def)

lemma update_attachment_ok:
  assumes "mirror_ok db" "update_attachment a missing upd db = Inr (u, db')"
    and "\<And>x. attachment_key (upd x) = attachment_key x"
    and "\<And>x b. aw_blob_id (upd x) = Some b \<Longrightarrow> aw_blob_id x = Some b \<or> b \<in> fb_blob_id ` set (im_file_blobs db)"
  shows "mirror_ok db'" "im_runtime db' = im_runtime db"
proof -
  let ?mine = "attachment_is (sa_tenant_key a) (sa_app_id a) (sa_chat_id a) (sa_message_id a) (sa_resource_key a)"
  have db': "db' = db\<lparr>im_attachments := update_where ?mine upd (im_attachments db)\<rparr>"
    using assms(2) by (simp add: update_attachment_def Let_def split: if_splits)
  have keys: "map attachment_key (im_attachments db') = map attachment_key (im_attachments db)"
    using update_where_map_key [of ?mine attachment_key upd] assms(3) by (simp add: db')
  have "attachment_message ` set (im_attachments db') = fst ` set (map attachment_key (im_attachments db'))"
    by (simp add: attachment_key_def image_image)
  then have fk: "attachment_message ` set (im_attachments db') = attachment_message ` set (im_attachments db)"
    unfolding keys by (simp add: attachment_key_def image_image)
  have "blobs_ok db'" using assms(1,4) by (force simp: mirror_ok_def blobs_ok_def db' table_simps)
  then show "mirror_ok db'"
    using assms(1) keys fk by (simp add: mirror_ok_def attachments_ok_def chats_ok_def) (simp add: db')
  show "im_runtime db' = im_runtime db" by (simp add: db')
qed

lemma record_attachment_blob_ok:
  assumes "mirror_ok db"
  shows "mirror_ok (snd (record_attachment_blob a b n t now db))" "im_runtime (snd (record_attachment_blob a b n t now db)) = im_runtime db"
proof -
  let ?db = "if list_ex (\<lambda>f. fb_blob_id f = b) (im_file_blobs db) then db
        else db\<lparr>im_file_blobs := im_file_blobs db @ [\<lparr>fb_blob_id = b, fb_byte_size = n, fb_media_type = t, fb_created_at_ms = now\<rparr>]\<rparr>"
  have ok: "mirror_ok ?db" "b \<in> fb_blob_id ` set (im_file_blobs ?db)" "im_runtime ?db = im_runtime db"
    using assms by (auto simp: mirror_ok_def chats_ok_def attachments_ok_def blobs_ok_def list_ex_iff)
  have "mirror_ok (snd (record_attachment_blob a b n t now db)) \<and> im_runtime (snd (record_attachment_blob a b n t now db)) = im_runtime db"
    unfolding record_attachment_blob_def
  proof (rule transaction_inv [where P = "\<lambda>s. mirror_ok s \<and> im_runtime s = im_runtime db"])
    show "mirror_ok db \<and> im_runtime db = im_runtime db" using assms by simp
    fix u s assume "update_attachment a ''attachment reference disappeared during ingest''
       (\<lambda>x. x\<lparr>aw_blob_id := Some b, aw_media_type := (case t of None \<Rightarrow> aw_media_type x | Some t \<Rightarrow> Some t),
          aw_download_state := ''downloaded''\<rparr>) ?db = Inr (u, s)"
    from update_attachment_ok [OF ok(1) this] ok(2,3) show "mirror_ok s \<and> im_runtime s = im_runtime db"
      by (auto simp: attachment_key_def attachment_message_def)
  qed
  then show "mirror_ok (snd (record_attachment_blob a b n t now db))" "im_runtime (snd (record_attachment_blob a b n t now db)) = im_runtime db"
    by simp_all
qed

lemma record_attachment_parse_ok:
  assumes "mirror_ok db"
  shows "mirror_ok (snd (record_attachment_parse r a p v pol content state w db)) \<and>
    im_runtime (snd (record_attachment_parse r a p v pol content state w db)) = im_runtime db"
proof (cases "state \<in> {''parsed'', ''metadata_only'', ''blocked'', ''failed''}")
  case True
  have "mirror_ok (snd (transaction (update_attachment a m (parsed_row r a p v pol content state w)) db)) \<and>
    im_runtime (snd (transaction (update_attachment a m (parsed_row r a p v pol content state w)) db)) = im_runtime db" for m
  proof (rule transaction_inv [where P = "\<lambda>s. mirror_ok s \<and> im_runtime s = im_runtime db"])
    show "mirror_ok db \<and> im_runtime db = im_runtime db" using assms by simp
    fix u s assume "update_attachment a m (parsed_row r a p v pol content state w) db = Inr (u, s)"
    from update_attachment_ok [OF assms this] show "mirror_ok s \<and> im_runtime s = im_runtime db"
      by (simp add: parsed_row_def attachment_key_def attachment_message_def)
  qed
  with True show ?thesis by (simp only: record_attachment_parse_def not_True_eq_False if_False)
next
  case False
  then show ?thesis using assms by (simp add: record_attachment_parse_def raise_def)
qed

section \<open>The runtime under the capability\<close>

lemma without_runs_ok: "runtime_ok now rt \<Longrightarrow> runtime_ok now (without_runs I rt)"
proof -
  assume ok: "runtime_ok now rt"
  have s: "sessions_ok (without_runs I rt)"
    using runtime_okD(7) [OF ok]
    by (simp add: sessions_ok_def run_ok_def find_run_def run_events_def terminal_rows_def without_runs_def distinct_map_filter)
  show ?thesis
    using ok s by (simp add: runtime_ok_def without_runs_def queue_ok_def outbox_ok_def lanes_ok_def events_ok_def claims_ok_def
        approvals_ok_def)
qed

lemma cancel_chat_tasks_ok:
  assumes "runtime_ok now rt"
  shows "runtime_ok now (cancel_chat_tasks tenant app chat t rt)"
proof -
  let ?P = "\<lambda>x. sql_like (tenant @ ''/'' @ app @ ''/'' @ chat @ ''/%'') (tk_session_key x) \<and> tk_state x = TaskPending \<and>
        tk_command_type x \<noteq> ''im.revoke_chat_access''"
  let ?f = "\<lambda>x. x\<lparr>tk_state := TaskCancelled, tk_updated_at_ms := t\<rparr>"
  let ?rt = "cancel_chat_tasks tenant app chat t rt"
  have tasks: "db_tasks ?rt = update_where ?P ?f (db_tasks rt)" by (simp add: cancel_chat_tasks_def)
  have ids: "map tk_task_id (db_tasks ?rt) = map tk_task_id (db_tasks rt)"
    "map task_binding (db_tasks ?rt) = map task_binding (db_tasks rt)"
    unfolding tasks by (rule update_where_map_key; simp add: task_binding_def)+
  have live: "session_live now s (db_tasks ?rt) = session_live now s (db_tasks rt)" for s
    unfolding session_live_def live_count_def tasks of_nat_eq_iff
    by (rule count_where_update_eq) (auto simp: task_live_def)
  have "\<forall>x \<in> set (db_tasks ?rt). task_row_ok x"
    unfolding tasks by (rule ball_update_where [OF queue_okD(2) [OF runtime_okD(1) [OF assms]]]) (auto simp: task_row_ok_def)
  then have "queue_ok now ?rt"
    using runtime_okD(1) [OF assms] ids live by (simp add: queue_ok_def)
  moreover have "events_ok ?rt" using runtime_okD(4) [OF assms] ids(2) by (simp add: events_ok_def) (simp add: cancel_chat_tasks_def)
  moreover have "session_view ?rt = session_view rt" by (simp add: session_view_def cancel_chat_tasks_def)
  then have "sessions_ok ?rt" using session_view_cong(5) runtime_okD(7) [OF assms] by blast
  moreover have "outbox_ok ?rt" "lanes_ok ?rt" "claims_ok ?rt" "approvals_ok ?rt"
    using runtime_okD [OF assms] by (simp_all add: cancel_chat_tasks_def outbox_ok_def lanes_ok_def claims_ok_def approvals_ok_def)
  ultimately show ?thesis by (simp add: runtime_ok_def)
qed

interpretation mirror: clocked_steps im_step im_legal im_ok
proof
  fix now later and db :: "'a im_db" and op
  assume ok: "im_ok now db"
  then have rt: "runtime_ok now (im_runtime db)" and m: "mirror_ok db" by (simp_all add: im_ok_def)
  show "im_ok later db" if "now \<le> later"
    using ok runtime.tick_inv [OF rt that] by (simp add: im_ok_def)
  show "im_ok now (im_step now op db)" if "im_legal op"
  proof (cases op)
    case (ImRuntime rop)
    with that have "runtime_ok now (rt_step now rop (im_runtime db))" by (intro runtime.step_at [OF rt]) simp
    with ImRuntime m show ?thesis by (simp add: im_ok_def) (subst mirror_cong, simp_all)
  next
    case (ImUpsert r x)
    have "mirror_ok (snd (upsert_message r x db)) \<and> (\<exists>I. im_runtime (snd (upsert_message r x db)) = without_runs I (im_runtime db))"
      unfolding upsert_message_def
    proof (rule transaction_inv [where P = "\<lambda>s. mirror_ok s \<and> (\<exists>I. im_runtime s = without_runs I (im_runtime db))"])
      show "mirror_ok db \<and> (\<exists>I. im_runtime db = without_runs I (im_runtime db))"
        using m without_none [of "im_runtime db"] by metis
    qed (use upsert_message_tx_ok [OF m] in blast)
    then show ?thesis using ImUpsert without_runs_ok [OF rt] by (auto simp: im_ok_def)
  next
    case (ImInvalidate r tenant app chat i v)
    with invalidate_message_ok [OF m, of r tenant app chat i v now] without_runs_ok [OF rt] show ?thesis
      by (auto simp: im_ok_def)
  next
    case (ImRevoke tenant app chat)
    with revoke_chat_access_ok [OF m, of tenant app chat now] cancel_chat_tasks_ok [OF without_runs_ok [OF rt]] show ?thesis
      by (auto simp: im_ok_def)
  next
    case (ImRestore tenant app chat)
    with restore_chat_access_ok [OF m, of tenant app chat now] rt show ?thesis by (simp add: im_ok_def)
  next
    case (ImRecordBlob a b n t)
    with record_attachment_blob_ok [OF m, of a b n t now] rt show ?thesis by (simp add: im_ok_def)
  next
    case (ImRecordParse r a p v pol content state w)
    with record_attachment_parse_ok [OF m, of r a p v pol content state w] rt show ?thesis by (simp add: im_ok_def)
  qed
qed

lemma im_ok_empty: "im_ok now empty_im_db"
  using runtime_ok_empty [of now] by (simp add: im_ok_def empty_im_db_def mirror_ok_def chats_ok_def attachments_ok_def blobs_ok_def)

lemma im_reachable: "timely im_legal now ops \<Longrightarrow> im_ok (last (now # map fst ops)) (timed_run im_step ops empty_im_db)"
  by (rule mirror.run_inv [OF im_ok_empty])

end
