(* ===== verification/IMAdmission.thy ===== *)
theory IMAdmission
  imports IMSystem
begin

text \<open>
  What turns callbacks of the platform into durable work: \<open>capabilities/im/admission.py\<close> and \<open>admission_policy.py\<close>
  (messages), \<open>membership.py\<close> (the bot was added) and \<open>lifecycle.py\<close> (a message was recalled, the bot was removed), with
  the handlers of the tasks they admit, and \<open>publisher.py\<close>, which sends replies. Command words outside the 8-bit
  characters, texts of the answers and the identifiers that the code draws are parameters.
\<close>

section \<open>Text\<close>

definition strip_text :: "string \<Rightarrow> string" where
  "strip_text s = rev (dropWhile is_space (rev (dropWhile is_space s)))"

text \<open>\<open>str.casefold\<close> on the code points below 256, except the micro sign, which has no image there.\<close>

definition fold_char :: "char \<Rightarrow> string" where
  "fold_char ch = (let n = of_char ch :: nat in
     if 65 \<le> n \<and> n \<le> 90 \<or> 192 \<le> n \<and> n \<le> 222 \<and> n \<noteq> 215 then [char_of (n + 32)]
     else if n = 223 then ''ss'' else [ch])"

definition casefold_text :: "string \<Rightarrow> string" where
  "casefold_text s = concat (map fold_char s)"

fun starts_with :: "string \<Rightarrow> string \<Rightarrow> bool" where
  "starts_with s [] = True"
| "starts_with [] (p # ps) = False"
| "starts_with (ch # s) (p # ps) = (ch = p \<and> starts_with s ps)"

section \<open>Admission of a message\<close>

record admission_policy =
  py_enabled_chat_ids :: "string list"
  py_authorized_actor_ids :: "string list"

definition evaluate_policy :: "admission_policy \<Rightarrow> incoming_message \<Rightarrow> im_admission_reason" where
  "evaluate_policy p m =
     (if py_enabled_chat_ids p \<noteq> [] \<and> ig_chat_id m \<notin> set (py_enabled_chat_ids p) then DisabledGroup
      else if py_authorized_actor_ids p \<noteq> [] \<and> ig_sender_id m \<notin> set (py_authorized_actor_ids p) then UnauthorizedActor
      else Admitted)"

text \<open>The words of a command besides \<open>/cancel\<close>, \<open>/interrupt\<close> and \<open>/steer\<close>.\<close>

record control_words =
  cw_cancel :: "string list"
  cw_interrupt :: "string list"
  cw_steer :: "string list"

record 'b im_admission =
  ia_cipher :: "'b cipher"
  ia_repository :: "'b im_repository"
  ia_bot_open_id :: "string option"
  ia_acknowledgement_text :: string
  ia_definition_version :: "incoming_message \<Rightarrow> int"
  ia_policy :: admission_policy
  ia_words :: control_words
  ia_dumps :: "payload \<Rightarrow> string"

definition check_admission :: "'b im_admission \<Rightarrow> exn + 'b im_admission" where
  "check_admission s =
     (if ia_bot_open_id s = Some [] then Inl (ValueError ''bot_open_id is required'')
      else if blank (ia_acknowledgement_text s) then Inl (ValueError ''acknowledgement_text is required'')
      else Inr s)"

definition evaluate_source :: "incoming_message \<Rightarrow> im_admission_reason" where
  "evaluate_source m =
     (if ig_chat_type m \<noteq> ''group'' then NotGroup
      else if ig_sender_type m \<in> {''bot'', ''app'', ''system''} then BotSender
      else Admitted)"

definition evaluate_trigger :: "'b im_admission \<Rightarrow> incoming_message \<Rightarrow> im_admission_reason" where
  "evaluate_trigger s m = (case some_text (ia_bot_open_id s) of
     None \<Rightarrow> BotNotMentioned
   | Some open_id \<Rightarrow>
       if \<not> explicitly_mentions m open_id then BotNotMentioned
       else if blank (ig_body_text m) then EmptyRequest
       else Admitted)"

text \<open>The loop over the prefixes: the first one that leaves an instruction.\<close>

fun steer_instruction :: "string list \<Rightarrow> string \<Rightarrow> string option" where
  "steer_instruction [] body = None"
| "steer_instruction (p # ps) body =
     (if starts_with (casefold_text body) (casefold_text p) \<and> strip_text (drop (length p) body) \<noteq> []
      then Some (strip_text (drop (length p) body))
      else steer_instruction ps body)"

definition classify_control :: "control_words \<Rightarrow> string \<Rightarrow> run_control_kind \<times> string" where
  "classify_control w body = (let words = strip_text body; normalized = casefold_text words in
     if normalized \<in> set (''/cancel'' # cw_cancel w) then (CANCEL, words)
     else if normalized \<in> set (''/interrupt'' # cw_interrupt w) then (INTERRUPT, words)
     else case steer_instruction (''/steer '' # cw_steer w) words of
       Some instruction \<Rightarrow> (STEER, instruction)
     | None \<Rightarrow> (FOLLOW_UP, words))"

definition message_event :: "'b im_admission \<Rightarrow> string \<Rightarrow> incoming_message \<Rightarrow> normalized_event" where
  "message_event s trace m = \<lparr>ev_event_id = ig_event_id m, ev_plugin_id = ''feishu-im'',
     ev_event_type = ''im.message.receive_v1'', ev_tenant_key = ig_tenant_key m, ev_app_id = ig_app_id m,
     ev_occurred_at_ms = ig_occurred_at_ms m, ev_received_at_ms = ig_received_at_ms m, ev_resource_kind = ''im.message'',
     ev_resource_id = ig_message_id m, ev_trace_id = trace, ev_schema_version = 1,
     ev_correlation_id = (case some_text (ig_thread_id m) of Some t \<Rightarrow> Some t | None \<Rightarrow> ig_root_id m),
     ev_source_payload = Some (ia_dumps s [(''chat_id'', JStr (ig_chat_id m)), (''message_id'', JStr (ig_message_id m)),
       (''sender_id'', JStr (ig_sender_id m)), (''thread_id'', jopt (ig_thread_id m))]),
     ev_payload_expires_at_ms = Some (ig_received_at_ms m + days_ms 7)\<rparr>"

definition message_command :: "incoming_message \<Rightarrow> int \<Rightarrow> task_command" where
  "message_command m version = \<lparr>tc_plugin_id = ''feishu-im'', tc_command_type = ''im.handle_mention'',
     tc_session_key = message_session_key m,
     tc_payload = [(''tenant_key'', JStr (ig_tenant_key m)), (''app_id'', JStr (ig_app_id m)), (''chat_id'', JStr (ig_chat_id m)),
       (''message_id'', JStr (ig_message_id m)), (''thread_id'', jopt (ig_thread_id m)), (''root_id'', jopt (ig_root_id m)),
       (''sender_id'', JStr (ig_sender_id m)), (''request'', JStr (strip_text (ig_body_text m))),
       (''agent_definition_version'', JInt version)],
     tc_priority = 0, tc_available_at_ms = ig_received_at_ms m, tc_max_attempts = 5, tc_group_id = Some (ig_chat_id m)\<rparr>"

definition message_acknowledgement :: "'b im_admission \<Rightarrow> incoming_message \<Rightarrow> outbox_draft" where
  "message_acknowledgement s m = \<lparr>od_publisher_id = ''feishu-im.reply'', od_destination_ref = ig_message_id m,
     od_message_kind = ''acknowledgement'',
     od_idempotency_key = ''im:'' @ ig_tenant_key m @ '':'' @ ig_app_id m @ '':'' @ ig_message_id m @ '':acknowledgement:v1'',
     od_payload = [(''chat_id'', JStr (ig_chat_id m)), (''message_id'', JStr (ig_message_id m)),
       (''reply_in_thread'', JBool (ig_thread_id m \<noteq> None)), (''text'', JStr (ia_acknowledgement_text s))],
     od_available_at_ms = ig_received_at_ms m\<rparr>"

text \<open>The three values that \<open>admit\<close> builds before it touches the store, each checked by its constructor.\<close>

definition admission_parts ::
  "'b im_admission \<Rightarrow> string \<Rightarrow> incoming_message \<Rightarrow> exn + normalized_event \<times> task_command \<times> outbox_draft" where
  "admission_parts s trace m =
     chain (check_event (message_event s trace m)) (\<lambda>event.
     chain (if ia_definition_version s m < 1 then Inl (ValueError ''selected Agent definition version must be positive'')
            else check_task_command (message_command m (ia_definition_version s m))) (\<lambda>command.
     chain (check_outbox_draft (message_acknowledgement s m)) (\<lambda>acknowledgement. Inr (event, command, acknowledgement))))"

text \<open>The identifiers that are drawn on the way.\<close>

record admission_ids =
  ai_trace_id :: string
  ai_control_id :: string
  ai_control_outbox_id :: string
  ai_task_id :: string
  ai_outbox_id :: string

definition on_runtime :: "('b rt_db, 'a) eff \<Rightarrow> ('b im_db, 'a) eff" where
  "on_runtime f db = (case f (im_runtime db) of (r, rt) \<Rightarrow> (r, db\<lparr>im_runtime := rt\<rparr>))"

definition admit_work ::
  "'b im_admission \<Rightarrow> admission_ids \<Rightarrow> (nat \<Rightarrow> 'b im_db \<Rightarrow> 'b im_db) \<Rightarrow> incoming_message \<Rightarrow>
     normalized_event \<times> task_command \<times> outbox_draft \<Rightarrow> ('b im_db, im_admission_decision) eff" where
  "admit_work s ids meanwhile m parts db = (case (parts, classify_control (ia_words s) (ig_body_text m)) of
     ((event, command, acknowledgement), (kind, words)) \<Rightarrow>
       (case on_runtime (admit_control (ia_cipher s) (ai_control_id ids) (ai_control_outbox_id ids) event (message_session_key m)
           (ig_sender_id m) kind words acknowledgement (ig_received_at_ms m)) (meanwhile 2 db) of
         (Inl e, db1) \<Rightarrow> (Inl e, db1)
       | (Inr (Some c), db1) \<Rightarrow> (Inr \<lparr>dn_reason = Admitted, dn_task_id = Some (cr_task_id c), dn_created = cr_created c,
           dn_control_id = Some (cr_control_id c)\<rparr>, db1)
       | (Inr None, db1) \<Rightarrow>
           (case on_runtime (admit (ia_cipher s) (ai_task_id ids) (ai_outbox_id ids) event command (Some acknowledgement)
               (ig_received_at_ms m)) (meanwhile 3 db1) of
             (Inl e, db2) \<Rightarrow> (Inl e, db2)
           | (Inr a, db2) \<Rightarrow> (Inr \<lparr>dn_reason = Admitted, dn_task_id = Some (ar_task_id a), dn_created = ar_created a,
               dn_control_id = None\<rparr>, db2))))"

text \<open>
  \<open>admit\<close>. At each of its four awaits other clients of the database may run before the operation does: \<open>meanwhile k\<close>
  is what they do before the one with number \<open>k\<close>.
\<close>

definition admit_message ::
  "'b im_admission \<Rightarrow> admission_ids \<Rightarrow> (nat \<Rightarrow> 'b im_db \<Rightarrow> 'b im_db) \<Rightarrow> incoming_message \<Rightarrow>
     ('b im_db, im_admission_decision) eff" where
  "admit_message s ids meanwhile m db =
     (if evaluate_source m \<noteq> Admitted then (Inr (denied (evaluate_source m)), db)
      else if evaluate_policy (ia_policy s) m \<noteq> Admitted then (Inr (denied (evaluate_policy (ia_policy s) m)), db)
      else case chat_admission_denial (ig_tenant_key m) (ig_app_id m) (ig_chat_id m) (meanwhile 0 db) of
        Some reason \<Rightarrow> (Inr (denied reason), meanwhile 0 db)
      | None \<Rightarrow>
          (case upsert_message (ia_repository s) m (meanwhile 1 (meanwhile 0 db)) of
            (Inl e, db1) \<Rightarrow> (Inl e, db1)
          | (Inr False, db1) \<Rightarrow> (Inr (denied AccessRevoked), db1)
          | (Inr True, db1) \<Rightarrow>
              if evaluate_trigger s m \<noteq> Admitted then (Inr (denied (evaluate_trigger s m)), db1)
              else (case admission_parts s (ai_trace_id ids) m of
                Inl e \<Rightarrow> (Inl e, db1)
              | Inr parts \<Rightarrow> admit_work s ids meanwhile m parts db1)))"

end
