(* ===== verification/IMLifecycle.thy ===== *)
theory IMLifecycle
  imports IMAdmission TaskWorker
begin

text \<open>
  \<open>capabilities/im/membership.py\<close>, \<open>lifecycle.py\<close> and \<open>publisher.py\<close>: the callbacks of the platform about the bot and
  about recalled messages, the handlers of the tasks that they admit, and the publisher of replies. Decoded callbacks
  are JSON objects; the membership service, the blob files and the channel are protocols on the rest of the process.
\<close>

section \<open>Callbacks\<close>

definition required_text :: "string \<Rightarrow> json option \<Rightarrow> string \<Rightarrow> exn + string" where
  "required_text what v field = (case v of Some (JStr (ch # s)) \<Rightarrow> Inr (ch # s)
     | _ \<Rightarrow> Inl (ValueError (what @ field)))"

text \<open>\<open>int(text)\<close>: blanks around, a sign, and digits that single underscores may separate.\<close>

definition digit_value :: "char \<Rightarrow> int option" where
  "digit_value ch = (let n = of_char ch :: nat in if 48 \<le> n \<and> n \<le> 57 then Some (int n - 48) else None)"

fun digits_value :: "int \<Rightarrow> string \<Rightarrow> int option" where
  "digits_value n [] = Some n"
| "digits_value n (ch # s) = (case digit_value ch of
     Some d \<Rightarrow> digits_value (10 * n + d) s
   | None \<Rightarrow> if ch = CHR ''_'' then (case s of
         [] \<Rightarrow> None
       | ch' # s' \<Rightarrow> (case digit_value ch' of Some d \<Rightarrow> digits_value (10 * n + d) s' | None \<Rightarrow> None))
     else None)"

definition natural_text :: "string \<Rightarrow> int option" where
  "natural_text s = (case s of [] \<Rightarrow> None | ch # s' \<Rightarrow>
     (case digit_value ch of Some d \<Rightarrow> digits_value d s' | None \<Rightarrow> None))"

definition parse_int :: "string \<Rightarrow> int option" where
  "parse_int s = (case strip_text s of
     [] \<Rightarrow> None
   | ch # rest \<Rightarrow> if ch = CHR ''-'' then map_option uminus (natural_text rest)
       else if ch = CHR ''+'' then natural_text rest else natural_text (ch # rest))"

definition to_milliseconds :: "int \<Rightarrow> int" where
  "to_milliseconds t = (if t < 1000000000000 then t * 1000 else t)"

definition timestamp_ms :: "string \<Rightarrow> json option \<Rightarrow> exn + int" where
  "timestamp_ms missing v = (case v of
     Some (JInt n) \<Rightarrow> Inr (to_milliseconds n)
   | Some (JStr s) \<Rightarrow> (case parse_int s of
       Some n \<Rightarrow> Inr (to_milliseconds n)
     | None \<Rightarrow> Inl (ValueError (''invalid literal for int() with base 10: '' @ py_repr (JStr s))))
   | _ \<Rightarrow> Inl (ValueError missing))"

record 'b callback_service =
  cb_cipher :: "'b cipher"
  cb_app_id :: string
  cb_dumps :: "payload \<Rightarrow> string"

definition check_callbacks :: "'b callback_service \<Rightarrow> exn + 'b callback_service" where
  "check_callbacks s = (if cb_app_id s = [] then Inl (ValueError ''app_id is required'') else Inr s)"

text \<open>The event and the command of an internal task, admitted without an answer to the chat.\<close>

definition callback_event_of ::
  "'b callback_service \<Rightarrow> string \<Rightarrow> string \<Rightarrow> string \<Rightarrow> string \<Rightarrow> string \<Rightarrow> string \<Rightarrow> int \<Rightarrow> int \<Rightarrow> payload \<Rightarrow> normalized_event" where
  "callback_event_of s trace event_id event_type tenant kind resource occurred now p =
     \<lparr>ev_event_id = event_id, ev_plugin_id = ''feishu-im'', ev_event_type = event_type, ev_tenant_key = tenant,
      ev_app_id = cb_app_id s, ev_occurred_at_ms = occurred, ev_received_at_ms = now, ev_resource_kind = kind,
      ev_resource_id = resource, ev_trace_id = trace, ev_schema_version = 1, ev_correlation_id = None,
      ev_source_payload = Some (cb_dumps s p), ev_payload_expires_at_ms = Some (now + days_ms 1)\<rparr>"

definition callback_command :: "'b callback_service \<Rightarrow> string \<Rightarrow> string \<Rightarrow> string \<Rightarrow> string option \<Rightarrow> int \<Rightarrow> payload \<Rightarrow> task_command" where
  "callback_command s command_type tenant lane group_id now p =
     \<lparr>tc_plugin_id = ''feishu-im'', tc_command_type = command_type, tc_session_key = tenant @ ''/'' @ cb_app_id s @ ''/'' @ lane,
      tc_payload = p, tc_priority = 0, tc_available_at_ms = now, tc_max_attempts = 5, tc_group_id = group_id\<rparr>"

definition admit_callback ::
  "'b callback_service \<Rightarrow> string \<Rightarrow> int \<Rightarrow> normalized_event \<Rightarrow> task_command \<Rightarrow> ('b im_db, admission_result) eff" where
  "admit_callback s task_id now event command db =
     (case chain (check_event event) (\<lambda>e. chain (check_task_command command) (\<lambda>c. Inr (e, c))) of
        Inl e \<Rightarrow> (Inl e, db)
      | Inr (e, c) \<Rightarrow> on_runtime (admit (cb_cipher s) task_id [] e c None now) db)"

section \<open>The bot was added\<close>

text \<open>\<open>handle_bot_added\<close>; \<open>raw\<close> and \<open>chat\<close> are the attributes of the callback.\<close>

definition bot_added_parts ::
  "'b callback_service \<Rightarrow> string \<Rightarrow> int \<Rightarrow> json option \<Rightarrow> json option \<Rightarrow> exn + normalized_event \<times> task_command" where
  "bot_added_parts s trace now raw chat =
     (let missing = ''bot-added event is missing '';
          header = (case raw of Some (JObj d) \<Rightarrow> (case json_get d ''header'' of Some (JObj h) \<Rightarrow> h | _ \<Rightarrow> []) | _ \<Rightarrow> []) in
      chain (required_text missing (json_get header ''event_id'') ''event_id'') (\<lambda>event_id.
      chain (required_text missing (json_get header ''tenant_key'') ''tenant_key'') (\<lambda>tenant.
      chain (required_text missing chat ''chat_id'') (\<lambda>chat_id.
      chain (timestamp_ms (missing @ ''create_time'') (json_get header ''create_time'')) (\<lambda>occurred.
        let p = [(''tenant_key'', JStr tenant), (''app_id'', JStr (cb_app_id s)), (''chat_id'', JStr chat_id)] in
        Inr (callback_event_of s trace event_id ''im.chat.member.bot.added_v1'' tenant ''im.chat'' chat_id occurred now p,
          callback_command s ''im.ensure_owner_membership'' tenant (chat_id @ ''/membership'') (Some chat_id) now p))))))"

definition handle_bot_added ::
  "'b callback_service \<Rightarrow> string \<Rightarrow> string \<Rightarrow> int \<Rightarrow> json option \<Rightarrow> json option \<Rightarrow> ('b im_db, admission_result) eff" where
  "handle_bot_added s trace task_id now raw chat db = (case bot_added_parts s trace now raw chat of
     Inl e \<Rightarrow> (Inl e, db) | Inr (event, command) \<Rightarrow> admit_callback s task_id now event command db)"

section \<open>A message was recalled, the bot was removed\<close>

definition lifecycle_missing :: string where
  "lifecycle_missing = ''lifecycle event is missing ''"

definition lifecycle_envelope :: "payload \<Rightarrow> exn + payload \<times> payload" where
  "lifecycle_envelope raw = (case (json_get raw ''header'', json_get raw ''event'') of
     (Some (JObj header), Some (JObj event)) \<Rightarrow> Inr (header, event)
   | _ \<Rightarrow> Inl (ValueError ''lifecycle event envelope is malformed''))"

text \<open>\<open>_admit\<close> up to the store\<close>

definition lifecycle_parts ::
  "'b callback_service \<Rightarrow> string \<Rightarrow> int \<Rightarrow> payload \<Rightarrow> string \<Rightarrow> string \<Rightarrow> string \<Rightarrow> string \<Rightarrow> string \<Rightarrow> payload \<Rightarrow>
     exn + normalized_event \<times> task_command" where
  "lifecycle_parts s trace now header event_type kind resource command_type lane p =
     chain (required_text lifecycle_missing (json_get header ''tenant_key'') ''tenant_key'') (\<lambda>tenant.
     chain (timestamp_ms (lifecycle_missing @ ''create_time'') (json_get header ''create_time'')) (\<lambda>occurred.
     chain (required_text lifecycle_missing (json_get header ''event_id'') ''event_id'') (\<lambda>event_id.
       Inr (callback_event_of s trace event_id event_type tenant kind resource occurred now p,
         callback_command s command_type tenant lane
           (case json_get p ''chat_id'' of Some (JStr c) \<Rightarrow> Some c | _ \<Rightarrow> None) now p))))"

definition recalled_parts :: "'b callback_service \<Rightarrow> string \<Rightarrow> int \<Rightarrow> payload \<Rightarrow> exn + normalized_event \<times> task_command" where
  "recalled_parts s trace now raw =
     chain (lifecycle_envelope raw) (\<lambda>(header, event).
     chain (required_text lifecycle_missing (json_get event ''message_id'') ''message_id'') (\<lambda>message_id.
     chain (required_text lifecycle_missing (json_get event ''chat_id'') ''chat_id'') (\<lambda>chat_id.
     chain (timestamp_ms (lifecycle_missing @ ''recall_time'') (if truthy (json_get event ''recall_time'')
         then json_get event ''recall_time'' else json_get header ''create_time'')) (\<lambda>version.
     chain (required_text lifecycle_missing (json_get header ''tenant_key'') ''tenant_key'') (\<lambda>tenant.
       lifecycle_parts s trace now header ''im.message.recalled_v1'' ''im.message'' message_id ''im.invalidate_message''
         (chat_id @ ''/lifecycle/'' @ message_id)
         [(''tenant_key'', JStr tenant), (''app_id'', JStr (cb_app_id s)), (''chat_id'', JStr chat_id),
          (''message_id'', JStr message_id), (''source_version_ms'', JInt version)])))))"

definition removed_parts :: "'b callback_service \<Rightarrow> string \<Rightarrow> int \<Rightarrow> payload \<Rightarrow> exn + normalized_event \<times> task_command" where
  "removed_parts s trace now raw =
     chain (lifecycle_envelope raw) (\<lambda>(header, event).
     chain (required_text lifecycle_missing (json_get event ''chat_id'') ''chat_id'') (\<lambda>chat_id.
     chain (required_text lifecycle_missing (json_get header ''tenant_key'') ''tenant_key'') (\<lambda>tenant.
       lifecycle_parts s trace now header ''im.chat.member.bot.deleted_v1'' ''im.chat'' chat_id ''im.revoke_chat_access''
         (chat_id @ ''/lifecycle/access'')
         [(''tenant_key'', JStr tenant), (''app_id'', JStr (cb_app_id s)), (''chat_id'', JStr chat_id)])))"

definition handle_lifecycle ::
  "'b callback_service \<Rightarrow> string \<Rightarrow> int \<Rightarrow> exn + normalized_event \<times> task_command \<Rightarrow> ('b im_db, admission_result) eff" where
  "handle_lifecycle s task_id now parts db = (case parts of
     Inl e \<Rightarrow> (Inl e, db) | Inr (event, command) \<Rightarrow> admit_callback s task_id now event command db)"

definition handle_message_recalled :: "'b callback_service \<Rightarrow> string \<Rightarrow> string \<Rightarrow> int \<Rightarrow> payload \<Rightarrow> ('b im_db, admission_result) eff" where
  "handle_message_recalled s trace task_id now raw = handle_lifecycle s task_id now (recalled_parts s trace now raw)"

definition handle_bot_removed :: "'b callback_service \<Rightarrow> string \<Rightarrow> string \<Rightarrow> int \<Rightarrow> payload \<Rightarrow> ('b im_db, admission_result) eff" where
  "handle_bot_removed s trace task_id now raw = handle_lifecycle s task_id now (removed_parts s trace now raw)"

section \<open>The handlers of these tasks\<close>

text \<open>The database and the rest of the process.\<close>

record ('b, 'w) im_world =
  iw_db :: "'b im_db"
  iw_rest :: 'w

definition on_mirror :: "('b im_db, 'a) eff \<Rightarrow> (('b, 'w) im_world, 'a) eff" where
  "on_mirror f w = (case f (iw_db w) of (r, db) \<Rightarrow> (r, w\<lparr>iw_db := db\<rparr>))"

definition on_process :: "('w, 'a) eff \<Rightarrow> (('b, 'w) im_world, 'a) eff" where
  "on_process f w = (case f (iw_rest w) of (r, rest) \<Rightarrow> (r, w\<lparr>iw_rest := rest\<rparr>))"

definition succeeded :: task_execution_result where
  "succeeded = \<lparr>xr_state = TaskSucceeded, xr_terminal_message = None, xr_error_code = None\<rparr>"

definition failed_by_class :: "leased_task \<Rightarrow> exn \<Rightarrow> task_execution_result" where
  "failed_by_class task e = \<lparr>xr_state = TaskFailed, xr_terminal_message = None, xr_error_code = Some (exn_name e)\<rparr>"

text \<open>\<open>MembershipTaskHandler\<close>; \<open>has_repository\<close> says whether there is an access repository.\<close>

definition membership_execute ::
  "(string \<Rightarrow> ('w, unit) eff) \<Rightarrow> bool \<Rightarrow> leased_task \<Rightarrow> int \<Rightarrow> (('b, 'w) im_world, task_execution_result) eff" where
  "membership_execute ensure_current_user has_repository task now w =
     (case required_text ''membership task requires '' (json_get (lt_payload task) ''chat_id'') ''chat_id'' of
        Inl e \<Rightarrow> (Inl e, w)
      | Inr chat \<Rightarrow> (case on_process (ensure_current_user chat) w of
          (Inl e, w1) \<Rightarrow> (Inl e, w1)
        | (Inr u, w1) \<Rightarrow>
            if \<not> has_repository then (Inr succeeded, w1)
            else (case (json_get (lt_payload task) ''tenant_key'', json_get (lt_payload task) ''app_id'') of
                (Some (JStr tenant), Some (JStr app)) \<Rightarrow> (case on_mirror (restore_chat_access tenant app chat now) w1 of
                    (Inl e, w2) \<Rightarrow> (Inl e, w2) | (Inr u, w2) \<Rightarrow> (Inr succeeded, w2))
              | _ \<Rightarrow> (Inl (ValueError ''membership task requires tenant_key and app_id''), w1))))"

fun delete_blobs :: "(string \<Rightarrow> ('w, bool) eff) \<Rightarrow> string list \<Rightarrow> (('b, 'w) im_world, unit) eff" where
  "delete_blobs delete [] w = (Inr (), w)"
| "delete_blobs delete (b # bs) w = (case on_process (delete b) w of
     (Inl e, w1) \<Rightarrow> (Inl e, w1) | (Inr gone, w1) \<Rightarrow> delete_blobs delete bs w1)"

definition lifecycle_field :: "leased_task \<Rightarrow> string \<Rightarrow> exn + string" where
  "lifecycle_field task name = required_text ''IM lifecycle task requires '' (json_get (lt_payload task) name) name"

text \<open>The operation of the repository that a task of the lifecycle asks for.\<close>

definition lifecycle_operation :: "'b im_repository \<Rightarrow> leased_task \<Rightarrow> int \<Rightarrow> exn + ('b im_db, string list) eff" where
  "lifecycle_operation r task now =
     chain (lifecycle_field task ''tenant_key'') (\<lambda>tenant.
     chain (lifecycle_field task ''app_id'') (\<lambda>app.
     chain (lifecycle_field task ''chat_id'') (\<lambda>chat.
       if lt_command_type task = ''im.invalidate_message''
       then (case json_get (lt_payload task) ''source_version_ms'' of
           Some (JInt version) \<Rightarrow> chain (lifecycle_field task ''message_id'') (\<lambda>message_id.
             Inr (invalidate_message r tenant app chat message_id version now))
         | _ \<Rightarrow> Inl (ValueError ''message invalidation requires source_version_ms''))
       else if lt_command_type task = ''im.revoke_chat_access'' then Inr (revoke_chat_access tenant app chat now)
       else Inl (ValueError (''unsupported IM lifecycle command: '' @ lt_command_type task)))))"

definition lifecycle_execute ::
  "'b im_repository \<Rightarrow> (string \<Rightarrow> ('w, bool) eff) \<Rightarrow> leased_task \<Rightarrow> int \<Rightarrow> (('b, 'w) im_world, task_execution_result) eff" where
  "lifecycle_execute r delete task now w = (case lifecycle_operation r task now of
     Inl e \<Rightarrow> (Inl e, w)
   | Inr operation \<Rightarrow> (case on_mirror operation w of
       (Inl e, w1) \<Rightarrow> (Inl e, w1)
     | (Inr blob_ids, w1) \<Rightarrow> (case delete_blobs delete blob_ids w1 of
         (Inl e, w2) \<Rightarrow> (Inl e, w2) | (Inr u, w2) \<Rightarrow> (Inr succeeded, w2))))"

definition membership_handler :: "(string \<Rightarrow> ('w, unit) eff) \<Rightarrow> bool \<Rightarrow> ('b, 'w) im_world task_handler" where
  "membership_handler ensure has_repository =
     \<lparr>th_execute = membership_execute ensure has_repository, th_failure = failed_by_class\<rparr>"

definition lifecycle_handler :: "'b im_repository \<Rightarrow> (string \<Rightarrow> ('w, bool) eff) \<Rightarrow> ('b, 'w) im_world task_handler" where
  "lifecycle_handler r delete = \<lparr>th_execute = lifecycle_execute r delete, th_failure = failed_by_class\<rparr>"

section \<open>Replies\<close>

text \<open>What the channel answers: the truth of \<open>success\<close>, the attribute \<open>message_id\<close>, and the code of an error.\<close>

record send_result =
  sr_success :: bool
  sr_message_id :: "json option"
  sr_error_code :: "string option"

record 'w im_publisher =
  pb_send :: "string \<Rightarrow> payload \<Rightarrow> payload \<Rightarrow> ('w, send_result) eff"
  pb_uuid5 :: "string \<Rightarrow> string"

definition im_message_kinds :: "string list" where
  "im_message_kinds = [''acknowledgement'', ''progress'', ''approval'', ''completed'', ''blocked'', ''failed'', ''cancelled'']"

text \<open>The checks before anything is sent: the chat, the message to answer, and what to say.\<close>

definition publish_parts :: "leased_outbox_message \<Rightarrow> exn + string \<times> string \<times> payload" where
  "publish_parts item = (let p = lo_payload item; missing = ''Feishu IM outbox payload requires '' in
     if lo_publisher_id item \<noteq> ''feishu-im.reply''
     then Inl (ValueError ''outbox item is not owned by the Feishu IM publisher'')
     else if lo_message_kind item \<notin> set im_message_kinds then Inl (ValueError ''unsupported Feishu IM result kind'')
     else chain (required_text missing (json_get p ''chat_id'') ''chat_id'') (\<lambda>chat.
       chain (required_text missing (json_get p ''message_id'') ''message_id'') (\<lambda>message_id.
       if lo_message_kind item = ''approval''
       then (case json_get p ''card'' of Some (JObj c) \<Rightarrow> Inr (chat, message_id, [(''card'', JObj c)])
         | _ \<Rightarrow> Inl (ValueError ''Feishu IM approval outbox payload requires card''))
       else chain (required_text missing (json_get p ''text'') ''text'') (\<lambda>words. Inr (chat, message_id, [(''text'', JStr words)])))))"

definition publish_reply :: "'w im_publisher \<Rightarrow> leased_outbox_message \<Rightarrow> ('w, string) eff" where
  "publish_reply b item w = (case publish_parts item of
     Inl e \<Rightarrow> (Inl e, w)
   | Inr (chat, message_id, message) \<Rightarrow>
       (case pb_send b chat message [(''reply_to'', JStr message_id),
           (''reply_in_thread'', JBool (truthy (json_get (lo_payload item) ''reply_in_thread''))),
           (''receive_id_type'', JStr ''chat_id''), (''reply_target_gone'', JStr ''fail''),
           (''uuid'', JStr (pb_uuid5 b (''urn:codex2lark:feishu-im-reply:'' @ lo_idempotency_key item)))] w of
         (Inl e, w1) \<Rightarrow> (Inl e, w1)
       | (Inr result, w1) \<Rightarrow> (case sr_message_id result of
           Some (JStr (ch # ref)) \<Rightarrow> if sr_success result then (Inr (ch # ref), w1)
             else (Inl (RuntimeError (''Feishu IM reply was not confirmed: '' @
               (case sr_error_code result of Some c \<Rightarrow> c | None \<Rightarrow> ''ambiguous_send''))), w1)
         | _ \<Rightarrow> (Inl (RuntimeError (''Feishu IM reply was not confirmed: '' @
               (case sr_error_code result of Some c \<Rightarrow> c | None \<Rightarrow> ''ambiguous_send''))), w1))))"

end
