(* ===== verification/IMProps.thy ===== *)
theory IMProps
  imports IMLifecycle
begin

text \<open>
  What the mirror promises to its clients: a chat that lost its access stays silent until it is restored, a recalled
  message does not come back, and a stored message reads back as it was sent.
\<close>

section \<open>A chat without access\<close>

definition chat_shut :: "im_key \<Rightarrow> 'b im_db \<Rightarrow> bool" where
  "chat_shut k db \<longleftrightarrow> k \<in> chat_key ` set (im_chats db) \<and>
     (\<forall>c \<in> set (im_chats db). chat_key c = k \<longrightarrow> ch_access_state c = ''revoked'')"

definition chat_silent :: "im_key \<Rightarrow> 'b im_db \<Rightarrow> bool" where
  "chat_silent k db \<longleftrightarrow> (\<forall>m \<in> set (im_messages db). message_chat m = k \<longrightarrow> \<not> live_message m)"

definition chat_closed :: "im_key \<Rightarrow> 'b im_db \<Rightarrow> bool" where
  "chat_closed k db \<longleftrightarrow> chat_shut k db \<and> chat_silent k db"

fun reopens :: "im_key \<Rightarrow> 'b im_op \<Rightarrow> bool" where
  "reopens k (ImRestore tenant app chat) = (k = (tenant, app, chat))"
| "reopens k _ = False"

lemma chat_closed_cong: "im_chats db' = im_chats db \<Longrightarrow> im_messages db' = im_messages db \<Longrightarrow> chat_closed k db' = chat_closed k db"
  by (simp add: chat_closed_def chat_shut_def chat_silent_def)

lemma chat_shut_found:
  assumes "chat_shut k db"
  obtains c where "find_chat k db = Some c" "ch_access_state c = ''revoked''"
proof (cases "find_chat k db")
  case None
  with assms show thesis by (simp add: find_chat_None chat_shut_def)
next
  case (Some c)
  with find_in_set [of "\<lambda>c. chat_key c = k" "im_chats db" c] assms show thesis
    by (intro that) (auto simp: find_chat_def chat_shut_def)
qed

lemma put_chat_shut:
  assumes "chat_shut k db" and "\<And>c. chat_key (upd c) = chat_key c"
    and "\<And>c. ch_access_state c = ''revoked'' \<Longrightarrow> ch_access_state (upd c) = ''revoked'' \<or> chat_key row \<noteq> k"
  shows "chat_shut k (put_chat row upd db)"
proof (cases "find_chat (chat_key row) db")
  case None
  then have "chat_key row \<noteq> k" using assms(1) by (auto simp: find_chat_None chat_shut_def)
  with None assms(1) show ?thesis by (simp add: put_chat_def chat_shut_def)
next
  case (Some x)
  let ?rows = "update_where (\<lambda>c. chat_key c = chat_key row) upd (im_chats db)"
  have "map chat_key ?rows = map chat_key (im_chats db)" by (rule update_where_map_key) (simp add: assms(2))
  then have keys: "chat_key ` set ?rows = chat_key ` set (im_chats db)" unfolding set_map [symmetric] by simp
  have "\<forall>c \<in> set ?rows. chat_key c = k \<longrightarrow> ch_access_state c = ''revoked''"
    using assms(1) by (intro ball_update_where) (auto simp: chat_shut_def assms(2) dest: assms(3))
  with Some keys assms(1) show ?thesis by (simp add: put_chat_def chat_shut_def)
qed

lemma put_chat_closed:
  assumes "chat_closed k db" and "\<And>c. chat_key (upd c) = chat_key c"
    and "\<And>c. ch_access_state c = ''revoked'' \<Longrightarrow> ch_access_state (upd c) = ''revoked'' \<or> chat_key row \<noteq> k"
  shows "chat_closed k (put_chat row upd db)"
  using put_chat_shut [of k db upd row] assms by (simp add: chat_closed_def chat_silent_def mirror_frame)

lemma seen_revoked: "ch_access_state c = ''revoked'' \<Longrightarrow> ch_access_state (seen_chat row c) = ''revoked''"
  by (simp add: seen_chat_def)

lemma upsert_chat_closed: "chat_closed k db \<Longrightarrow> chat_closed k (upsert_chat r m db)"
  unfolding upsert_chat_def by (rule put_chat_closed) (simp_all add: seen_chat_key seen_revoked)

lemma write_message_closed:
  assumes "chat_closed k db" "(ig_tenant_key m, ig_app_id m, ig_chat_id m) \<noteq> k" "write_message r m db = Inr (b, db')"
  shows "chat_closed k db'"
proof -
  let ?row = "new_message_row r m"
  let ?upd = "\<lambda>x. ?row\<lparr>mg_created_at_source_ms := mg_created_at_source_ms x, mg_schema_version := mg_schema_version x\<rparr>"
  have row: "message_chat ?row \<noteq> k" "message_chat (?upd x) \<noteq> k" for x
    using assms(2) by (simp_all add: message_chat_def new_message_row_def Let_def)
  have "insert_attachments r m (ig_attachments m) (delete_attachments_of (incoming_key m) (put_message ?row db)) = Inr db'"
    using assms(3) by (auto simp: write_message_def split: sum.splits)
  note e = insert_attachments_frame(2,3) [OF this]
  have "chat_silent k (put_message ?row db)"
  proof (cases "find_message (message_key ?row) db")
    case None
    with assms(1) row(1) show ?thesis by (auto simp: chat_closed_def chat_silent_def put_message_def)
  next
    case (Some x)
    have "\<forall>y \<in> set (update_where (\<lambda>x. message_key x = message_key ?row) ?upd (im_messages db)). message_chat y = k \<longrightarrow> \<not> live_message y"
      using assms(1) row(2) by (intro ball_update_where) (auto simp: chat_closed_def chat_silent_def)
    with Some show ?thesis by (simp add: chat_silent_def put_message_def)
  qed
  with assms(1) e show ?thesis by (simp add: chat_closed_def chat_shut_def chat_silent_def mirror_frame)
qed

lemma upsert_message_shut:
  assumes "chat_shut (ig_tenant_key m, ig_app_id m, ig_chat_id m) db"
  shows "upsert_message r m db = (Inr False, upsert_chat r m db)"
proof -
  have "chat_shut (ig_tenant_key m, ig_app_id m, ig_chat_id m) (upsert_chat r m db)"
    unfolding upsert_chat_def by (rule put_chat_shut [OF assms]) (simp_all add: seen_chat_key seen_revoked)
  then obtain c where "find_chat (ig_tenant_key m, ig_app_id m, ig_chat_id m) (upsert_chat r m db) = Some c"
    "ch_access_state c = ''revoked''" by (rule chat_shut_found)
  then have "upsert_message_tx r m db = Inr (False, upsert_chat r m db)" by (simp add: upsert_message_tx_def Let_def)
  then show ?thesis by (simp add: upsert_message_def)
qed

lemma upsert_message_cases:
  assumes "upsert_message_tx r m db = Inr (b, db')"
  obtains (refused) "\<not> b" "db' = upsert_chat r m db"
    | (kept) x where "b" "db' = upsert_chat r m db" "find_message (incoming_key m) db = Some x" "outdated x m"
    | (written) db1 where "write_message r m db1 = Inr (b, db')" "b" "im_chats db1 = im_chats (upsert_chat r m db)"
        "im_messages db1 = im_messages db" "im_attachments db1 = im_attachments db" "\<And>x. find_message (incoming_key m) db = Some x \<Longrightarrow> \<not> outdated x m"
proof -
  let ?db1 = "upsert_chat r m db"
  let ?revoked = "case find_chat (ig_tenant_key m, ig_app_id m, ig_chat_id m) ?db1 of
    Some c \<Rightarrow> ch_access_state c = ''revoked'' | None \<Rightarrow> False"
  have same: "find_message (incoming_key m) ?db1 = find_message (incoming_key m) db"
    by (simp add: find_message_def mirror_frame)
  have true: "write_message r m d = Inr (b, db') \<Longrightarrow> b" for d by (auto simp: write_message_def split: sum.splits)
  show thesis
  proof (cases ?revoked)
    case True
    with assms show thesis by (intro refused) (simp_all add: upsert_message_tx_def Let_def)
  next
    case open': False
    show thesis
    proof (cases "find_message (incoming_key m) db")
      case None
      with assms open' same have "write_message r m ?db1 = Inr (b, db')" by (simp add: upsert_message_tx_def Let_def)
      from this true [OF this] show thesis by (rule written) (simp_all add: mirror_frame None)
    next
      case (Some x)
      show thesis
      proof (cases "outdated x m")
        case True
        with assms open' same Some show thesis by (intro kept [of x]) (simp_all add: upsert_message_tx_def Let_def)
      next
        case False
        let ?db2 = "if mg_updated_at_source_ms x \<noteq> message_version m
           then drop_checkpoints (cites_message (ig_message_id m)) ?db1 else ?db1"
        have "write_message r m ?db2 = Inr (b, db')"
          using assms open' same Some False by (simp add: upsert_message_tx_def Let_def)
        from this true [OF this] show thesis by (rule written) (simp_all add: mirror_frame Some False)
      qed
    qed
  qed
qed

lemma upsert_closed:
  assumes "chat_closed k db"
  shows "chat_closed k (snd (upsert_message r m db))"
proof (cases "(ig_tenant_key m, ig_app_id m, ig_chat_id m) = k")
  case True
  with assms have "upsert_message r m db = (Inr False, upsert_chat r m db)"
    by (intro upsert_message_shut) (simp add: chat_closed_def)
  with upsert_chat_closed [OF assms] show ?thesis by simp
next
  case False
  show ?thesis unfolding upsert_message_def
  proof (rule transaction_inv [where P = "chat_closed k", OF assms])
    fix b db' assume "upsert_message_tx r m db = Inr (b, db')"
    then show "chat_closed k db'"
    proof (cases rule: upsert_message_cases)
      case (written db1)
      have "chat_closed k db1"
        using upsert_chat_closed [OF assms] chat_closed_cong [of db1 "upsert_chat r m db"] written(3,4) by (simp add: mirror_frame)
      from write_message_closed [OF this False written(1)] show ?thesis .
    qed (simp_all add: upsert_chat_closed assms)
  qed
qed

lemma recalled_db_closed:
  assumes "chat_closed k db"
  shows "chat_closed k (recalled_db r tenant app chat i v now db)"
proof -
  let ?db1 = "put_chat (new_chat_row tenant app chat None ''unknown'' now) id db"
  have "chat_closed k ?db1" by (rule put_chat_closed [OF assms]) simp_all
  moreover have "chat_silent k (recall_row r tenant app chat i v now ?db1)" if "chat_silent k ?db1"
    using that by (auto simp: recall_row_def chat_silent_def live_message_def tombstone_row_def Let_def message_chat_def table_simps)
  ultimately show ?thesis by (simp add: recalled_db_def chat_closed_def chat_shut_def chat_silent_def mirror_frame)
qed

lemma invalidate_closed: "chat_closed k db \<Longrightarrow> chat_closed k (snd (invalidate_message r tenant app chat i v now db))"
proof (cases rule: invalidate_message_cases [of r tenant app chat i v now db])
  case (2 gone)
  assume "chat_closed k db"
  from recalled_db_closed [OF this] drop_unreferenced_effect(2,3) [OF 2] show ?thesis by (metis chat_closed_cong)
qed simp

lemma revoked_db_closed:
  shows "chat_closed k db \<Longrightarrow> chat_closed k (revoked_db tenant app chat now db)"
    and "chat_closed (tenant, app, chat) (revoked_db tenant app chat now db)"
proof -
  let ?k = "(tenant, app, chat)"
  let ?db1 = "delete_messages_of ?k (drop_chat_checkpoints ?k db)"
  have same: "chat_closed j (revoked_db tenant app chat now db) = chat_closed j (revoke_chat tenant app chat now ?db1)" for j
    unfolding revoked_db_def Let_def by (rule chat_closed_cong) simp_all
  show "chat_closed k (revoked_db tenant app chat now db)" if closed: "chat_closed k db"
  proof -
    have "chat_closed k ?db1"
      using closed by (simp add: chat_closed_def chat_shut_def chat_silent_def mirror_frame) (auto simp: delete_messages_of_def Let_def mirror_frame)
    then show ?thesis unfolding same revoke_chat_def by (rule put_chat_closed) (simp_all add: chat_key_def)
  qed
  let ?row = "(new_chat_row tenant app chat None ''unknown'' now)\<lparr>ch_enabled := False, ch_bot_member_state := ''removed'',
        ch_access_state := ''revoked'', ch_purge_after_ms := Some now\<rparr>"
  let ?upd = "\<lambda>c. c\<lparr>ch_enabled := False, ch_bot_member_state := ''removed'', ch_access_state := ''revoked'',
        ch_last_reconciled_at_ms := now, ch_purge_after_ms := Some now\<rparr>"
  have key: "chat_key ?row = ?k" "chat_key (?upd c) = chat_key c" for c :: "'b chat_row"
    by (simp_all add: chat_key_def new_chat_row_def)
  have "?k \<in> chat_key ` set (im_chats (put_chat ?row ?upd ?db1))"
    using put_chat_ok(2) [of ?row ?upd ?db1] by (simp add: key)
  moreover have "\<forall>c \<in> set (im_chats (put_chat ?row ?upd ?db1)). chat_key c = ?k \<longrightarrow> ch_access_state c = ''revoked''"
    using find_chat_None [of ?k ?db1] by (auto simp: put_chat_def key table_simps image_iff)
  moreover have "chat_silent ?k (put_chat ?row ?upd ?db1)"
    by (simp add: chat_silent_def mirror_frame) (simp add: delete_messages_of_def Let_def)
  ultimately show "chat_closed ?k (revoked_db tenant app chat now db)"
    unfolding same revoke_chat_def by (simp add: chat_closed_def chat_shut_def)
qed

lemma revoke_closed:
  "chat_closed k db \<Longrightarrow> chat_closed k (snd (revoke_chat_access tenant app chat now db))"
  "chat_closed (tenant, app, chat) (snd (revoke_chat_access tenant app chat now db))"
proof -
  obtain gone where "drop_unreferenced_blobs (blob_ids_of (\<lambda>a. attachment_chat a = (tenant, app, chat)) db)
    (revoked_db tenant app chat now db) = (gone, snd (revoke_chat_access tenant app chat now db))"
    by (rule revoke_chat_access_cases)
  note e = drop_unreferenced_effect(2,3) [OF this]
  from chat_closed_cong [OF e] revoked_db_closed show
    "chat_closed k db \<Longrightarrow> chat_closed k (snd (revoke_chat_access tenant app chat now db))"
    "chat_closed (tenant, app, chat) (snd (revoke_chat_access tenant app chat now db))" by blast+
qed

lemma update_attachment_frame:
  "update_attachment a missing upd db = Inr (u, db') \<Longrightarrow> im_chats db' = im_chats db \<and> im_messages db' = im_messages db"
  by (auto simp: update_attachment_def Let_def split: if_splits)

lemma record_attachment_frame:
  "im_chats (snd (record_attachment_blob a b n t now db)) = im_chats db \<and>
   im_messages (snd (record_attachment_blob a b n t now db)) = im_messages db"
  "im_chats (snd (record_attachment_parse r a p v pol content state w db)) = im_chats db \<and>
   im_messages (snd (record_attachment_parse r a p v pol content state w db)) = im_messages db"
proof -
  show "im_chats (snd (record_attachment_blob a b n t now db)) = im_chats db \<and>
    im_messages (snd (record_attachment_blob a b n t now db)) = im_messages db"
    unfolding record_attachment_blob_def
    by (rule transaction_inv) (auto dest!: update_attachment_frame split: if_splits)
  show "im_chats (snd (record_attachment_parse r a p v pol content state w db)) = im_chats db \<and>
    im_messages (snd (record_attachment_parse r a p v pol content state w db)) = im_messages db"
  proof (cases "state \<in> {''parsed'', ''metadata_only'', ''blocked'', ''failed''}")
    case True
    have "im_chats (snd (transaction (update_attachment a x (parsed_row r a p v pol content state w)) db)) = im_chats db \<and>
      im_messages (snd (transaction (update_attachment a x (parsed_row r a p v pol content state w)) db)) = im_messages db" for x
      by (rule transaction_inv) (auto dest: update_attachment_frame)
    with True show ?thesis by (simp only: record_attachment_parse_def not_True_eq_False if_False)
  qed (simp add: record_attachment_parse_def raise_def)
qed

lemma step_closed: "chat_closed k db \<Longrightarrow> \<not> reopens k op \<Longrightarrow> chat_closed k (im_step now op db)"
proof (cases op)
  case (ImRestore tenant app chat)
  assume closed: "chat_closed k db" and "\<not> reopens k op"
  with ImRestore have other: "(tenant, app, chat) \<noteq> k" by auto
  have "chat_closed k (put_chat (new_chat_row tenant app chat None ''unknown'' now)
       (\<lambda>c. c\<lparr>ch_enabled := True, ch_bot_member_state := ''present'', ch_access_state := ''visible'',
         ch_last_reconciled_at_ms := now, ch_purge_after_ms := None\<rparr>) db)"
    by (rule put_chat_closed [OF closed]) (use other in \<open>auto simp: chat_key_def new_chat_row_def\<close>)
  with ImRestore show ?thesis by (simp add: restore_chat_access_def)
next
  case (ImRuntime rop)
  assume "chat_closed k db"
  then have "chat_closed k (db\<lparr>im_runtime := rt\<rparr>)" for rt by (subst chat_closed_cong) simp_all
  with ImRuntime show ?thesis by simp
qed (auto simp: upsert_closed invalidate_closed revoke_closed record_attachment_frame
    cong: chat_closed_cong intro: chat_closed_cong [THEN iffD2])

lemma run_closed:
  "chat_closed k db \<Longrightarrow> list_all (\<lambda>(t, op). \<not> reopens k op) ops \<Longrightarrow> chat_closed k (timed_run im_step ops db)"
  by (induction ops arbitrary: db) (auto simp: step_closed)

lemma recent_closed:
  assumes "chat_closed (tenant, app, chat) db" "1 \<le> limit" "limit \<le> 100"
  shows "recent_messages r tenant app chat before limit db = Inr []"
proof -
  have "filter (\<lambda>x. message_chat x = (tenant, app, chat) \<and> mg_created_at_source_ms x \<le> before \<and> live_message x) (im_messages db) = []"
    using assms(1) by (auto simp: filter_empty_conv chat_closed_def chat_silent_def)
  with assms(2,3) show ?thesis by (simp add: recent_messages_def recent_rows_def latest_def)
qed

end
