(* ===== verification/IMRecall.thy ===== *)
theory IMRecall
  imports IMProps
begin

text \<open>
  Recalled messages stay out of what the mirror hands to the agent, and stored messages read back as they were sent.
\<close>

section \<open>Tombstones\<close>

definition withdrawn :: "im_key \<Rightarrow> int \<Rightarrow> 'b im_db \<Rightarrow> bool" where
  "withdrawn k v db \<longleftrightarrow> k \<in> message_key ` set (im_messages db) \<and>
     (\<forall>x \<in> set (im_messages db). message_key x = k \<longrightarrow> \<not> live_message x \<and> v \<le> mg_updated_at_source_ms x)"

text \<open>
  What may bring a recalled message back: a newer version of it that is not itself recalled or deleted, and the end of
  the access to a chat of the application, which deletes the messages of the chat with their tombstones.
\<close>

fun revives :: "im_key \<Rightarrow> int \<Rightarrow> 'b im_op \<Rightarrow> bool" where
  "revives k v (ImUpsert r m) = (incoming_key m = k \<and> v < message_version m \<and> \<not> (ig_is_recalled m \<or> ig_is_deleted m))"
| "revives k v (ImRevoke tenant app chat) = (tenant = fst k \<and> app = fst (snd k))"
| "revives k v _ = False"

lemma withdrawn_cong: "im_messages db' = im_messages db \<Longrightarrow> withdrawn k v db' = withdrawn k v db"
  by (simp add: withdrawn_def)

lemma withdrawn_found:
  assumes "withdrawn k v db"
  obtains x where "find_message k db = Some x" "\<not> live_message x" "v \<le> mg_updated_at_source_ms x"
proof (cases "find_message k db")
  case None
  with assms show thesis by (simp add: find_message_None withdrawn_def)
next
  case (Some x)
  with find_in_set [of "\<lambda>x. message_key x = k" "im_messages db" x] assms show thesis
    by (intro that) (auto simp: find_message_def withdrawn_def)
qed

text \<open>An update of the rows with one key.\<close>

lemma withdrawn_update:
  assumes "withdrawn k v db" "\<And>x. message_key x = j \<Longrightarrow> message_key (f x) = j"
    and "\<And>x. j = k \<Longrightarrow> x \<in> set (im_messages db) \<Longrightarrow> message_key x = j \<Longrightarrow> \<not> live_message (f x) \<and> v \<le> mg_updated_at_source_ms (f x)"
  shows "withdrawn k v (db\<lparr>im_messages := update_where (\<lambda>x. message_key x = j) f (im_messages db)\<rparr>)"
proof -
  have "map message_key (update_where (\<lambda>x. message_key x = j) f (im_messages db)) = map message_key (im_messages db)"
    by (rule update_where_map_key) (simp add: assms(2))
  then have "message_key ` set (update_where (\<lambda>x. message_key x = j) f (im_messages db)) = message_key ` set (im_messages db)"
    unfolding set_map [symmetric] by simp
  moreover have "\<forall>x \<in> set (update_where (\<lambda>x. message_key x = j) f (im_messages db)).
      message_key x = k \<longrightarrow> \<not> live_message x \<and> v \<le> mg_updated_at_source_ms x"
  proof (rule ball_update_where)
    show "\<forall>x \<in> set (im_messages db). message_key x = k \<longrightarrow> \<not> live_message x \<and> v \<le> mg_updated_at_source_ms x"
      using assms(1) by (simp add: withdrawn_def)
    fix x assume "x \<in> set (im_messages db)" "message_key x = j"
    with assms(2,3) show "message_key (f x) = k \<longrightarrow> \<not> live_message (f x) \<and> v \<le> mg_updated_at_source_ms (f x)" by metis
  qed
  ultimately show ?thesis using assms(1) by (simp add: withdrawn_def)
qed

lemma withdrawn_append:
  "withdrawn k v db \<Longrightarrow> message_key row \<noteq> k \<Longrightarrow> withdrawn k v (db\<lparr>im_messages := im_messages db @ [row]\<rparr>)"
  by (simp add: withdrawn_def)

lemma message_row_key: "message_key (new_message_row r m) = incoming_key m"
  by (simp add: message_key_def new_message_row_def incoming_key_def Let_def)

lemma write_message_inserts:
  "write_message r m db = Inr (b, db') \<Longrightarrow>
    insert_attachments r m (ig_attachments m) (delete_attachments_of (incoming_key m) (put_message (new_message_row r m) db)) = Inr db'"
  by (auto simp: write_message_def split: sum.splits)

lemma upsert_withdrawn:
  assumes "withdrawn k v db" "\<not> revives k v (ImUpsert r m)"
  shows "withdrawn k v (snd (upsert_message r m db))"
  unfolding upsert_message_def
proof (rule transaction_inv [where P = "withdrawn k v", OF assms(1)])
  fix b db' assume "upsert_message_tx r m db = Inr (b, db')"
  then show "withdrawn k v db'"
  proof (cases rule: upsert_message_cases)
    case (written db1)
    let ?row = "new_message_row r m"
    let ?f = "\<lambda>x. ?row\<lparr>mg_created_at_source_ms := mg_created_at_source_ms x, mg_schema_version := mg_schema_version x\<rparr>"
    have old: "withdrawn k v db1" using assms(1) by (rule withdrawn_cong [OF written(4), THEN iffD2])
    have key: "message_key (?f x) = incoming_key m" for x
      by (simp add: message_key_def new_message_row_def incoming_key_def Let_def)
    have row: "\<not> live_message (?f x) \<and> v \<le> mg_updated_at_source_ms (?f x)" if "incoming_key m = k" for x
    proof -
      obtain y where y: "find_message k db = Some y" "\<not> live_message y" "v \<le> mg_updated_at_source_ms y"
        using assms(1) by (rule withdrawn_found)
      with that written(6) have "\<not> outdated y m" by simp
      with y(2,3) assms(2) that show ?thesis
        by (auto simp: outdated_def live_message_def new_message_row_def Let_def)
    qed
    have "withdrawn k v (put_message ?row db1)"
    proof (cases "find_message (incoming_key m) db1")
      case None
      then have "incoming_key m \<noteq> k" using old by (auto simp: find_message_None withdrawn_def)
      with None old show ?thesis by (simp add: put_message_def message_row_key withdrawn_append)
    next
      case (Some x)
      have "withdrawn k v (db1\<lparr>im_messages := update_where (\<lambda>x. message_key x = incoming_key m) ?f (im_messages db1)\<rparr>)"
        by (rule withdrawn_update [OF old key row])
      with Some show ?thesis by (simp add: put_message_def message_row_key)
    qed
    with insert_attachments_frame(3) [OF write_message_inserts [OF written(1)]] show ?thesis
      by (simp add: withdrawn_def mirror_frame)
  qed (use assms(1) in \<open>simp_all add: withdrawn_def mirror_frame\<close>)
qed

lemma recalled_messages: "im_messages (recalled_db r tenant app chat i v now db) =
    im_messages (recall_row r tenant app chat i v now db)"
  by (simp add: recalled_db_def mirror_frame) (simp add: recall_row_def find_message_def mirror_frame)

lemma invalidate_message_guarded:
  obtains "snd (invalidate_message r tenant app chat i v now db) = db"
      "\<exists>x. find_message (tenant, app, i) db = Some x \<and> v < mg_updated_at_source_ms x"
    | "im_messages (snd (invalidate_message r tenant app chat i v now db)) = im_messages (recall_row r tenant app chat i v now db)"
      "\<And>x. find_message (tenant, app, i) db = Some x \<Longrightarrow> mg_updated_at_source_ms x \<le> v"
proof (cases "case find_message (tenant, app, i) db of Some x \<Rightarrow> v < mg_updated_at_source_ms x | None \<Rightarrow> False")
  case True
  then show thesis by (intro that(1)) (auto simp: invalidate_message_def split: option.splits)
next
  case False
  obtain gone db' where drop: "drop_unreferenced_blobs (blob_ids_of (\<lambda>a. attachment_message a = (tenant, app, i)) db)
        (recalled_db r tenant app chat i v now db) = (gone, db')" by fastforce
  with False have "snd (invalidate_message r tenant app chat i v now db) = db'" by (simp add: invalidate_message_def)
  with False drop_unreferenced_effect(3) [OF drop] show thesis
    by (intro that(2)) (auto simp: recalled_messages split: option.splits)
qed

lemma recall_withdraws:
  assumes "\<And>x. find_message (tenant, app, i) db = Some x \<Longrightarrow> mg_updated_at_source_ms x \<le> v"
  shows "withdrawn (tenant, app, i) v (snd (invalidate_message r tenant app chat i v now db))"
proof (cases rule: invalidate_message_guarded [of r tenant app chat i v now db])
  case 1
  with assms show ?thesis by fastforce
next
  case 2
  have key: "message_key (tombstone_row r tenant app chat i v now) = (tenant, app, i)" "\<not> live_message (tombstone_row r tenant app chat i v now)"
    "mg_updated_at_source_ms (tombstone_row r tenant app chat i v now) = v"
    by (simp_all add: message_key_def live_message_def tombstone_row_def Let_def)
  have "withdrawn (tenant, app, i) v (recall_row r tenant app chat i v now db)"
  proof (cases "find_message (tenant, app, i) db")
    case None
    then have "\<forall>x \<in> set (im_messages db). message_key x \<noteq> (tenant, app, i)" by (simp add: find_message_def find_None)
    with None key show ?thesis by (simp add: recall_row_def withdrawn_def)
  next
    case (Some x)
    let ?f = "\<lambda>m. m\<lparr>mg_is_recalled := True, mg_updated_at_source_ms := v, mg_last_reconciled_at_ms := now\<rparr>"
    let ?rows = "update_where (\<lambda>m. message_key m = (tenant, app, i)) ?f (im_messages db)"
    have f: "message_key (?f m) = message_key m" for m :: "'a message_row" by (simp add: message_key_def)
    have "x \<in> set (im_messages db)" "message_key x = (tenant, app, i)"
      using find_in_set [of "\<lambda>m. message_key m = (tenant, app, i)" "im_messages db" x] Some by (simp_all add: find_message_def)
    moreover have "map message_key ?rows = map message_key (im_messages db)" by (rule update_where_map_key) (simp add: f)
    then have "message_key ` set ?rows = message_key ` set (im_messages db)" unfolding set_map [symmetric] by simp
    moreover have "\<forall>y \<in> set ?rows. message_key y = (tenant, app, i) \<longrightarrow> \<not> live_message y \<and> v \<le> mg_updated_at_source_ms y"
      by (auto simp: table_simps live_message_def)
    ultimately have "withdrawn (tenant, app, i) v (db\<lparr>im_messages := ?rows\<rparr>)" by (simp add: withdrawn_def rev_image_eqI)
    with Some show ?thesis by (simp add: recall_row_def)
  qed
  with 2(1) show ?thesis by (simp add: withdrawn_def)
qed

lemma invalidate_withdrawn:
  assumes "withdrawn k v db"
  shows "withdrawn k v (snd (invalidate_message r tenant app chat i u now db))"
proof (cases "(tenant, app, i) = k")
  case True
  obtain y where y: "find_message k db = Some y" "v \<le> mg_updated_at_source_ms y"
    using assms by (rule withdrawn_found)
  show ?thesis
  proof (cases "mg_updated_at_source_ms y \<le> u")
    case True
    have "withdrawn (tenant, app, i) u (snd (invalidate_message r tenant app chat i u now db))"
      by (rule recall_withdraws) (use y \<open>(tenant, app, i) = k\<close> True in auto)
    with y(2) True \<open>(tenant, app, i) = k\<close> show ?thesis by (auto simp: withdrawn_def)
  next
    case False
    with y \<open>(tenant, app, i) = k\<close> have "snd (invalidate_message r tenant app chat i u now db) = db"
      by (simp add: invalidate_message_def)
    with assms show ?thesis by simp
  qed
next
  case False
  show ?thesis
  proof (cases rule: invalidate_message_guarded [of r tenant app chat i u now db])
    case 1
    with assms show ?thesis by simp
  next
    case 2
    have "message_key (tombstone_row r tenant app chat i u now) = (tenant, app, i)"
      by (simp add: message_key_def tombstone_row_def Let_def)
    with assms False have "withdrawn k v (recall_row r tenant app chat i u now db)"
      by (auto simp: recall_row_def intro!: withdrawn_append withdrawn_update) (simp_all add: message_key_def)
    with 2(1) show ?thesis by (simp add: withdrawn_def)
  qed
qed

lemma revoke_withdrawn:
  assumes "withdrawn k v db" "\<not> (tenant = fst k \<and> app = fst (snd k))"
  shows "withdrawn k v (snd (revoke_chat_access tenant app chat now db))"
proof -
  obtain gone where "drop_unreferenced_blobs (blob_ids_of (\<lambda>a. attachment_chat a = (tenant, app, chat)) db)
    (revoked_db tenant app chat now db) = (gone, snd (revoke_chat_access tenant app chat now db))"
    by (rule revoke_chat_access_cases)
  note e = drop_unreferenced_effect(3) [OF this]
  have rows: "im_messages (revoked_db tenant app chat now db) = filter (\<lambda>m. message_chat m \<noteq> (tenant, app, chat)) (im_messages db)"
    by (simp add: revoked_db_def Let_def revoke_chat_def mirror_frame) (simp add: delete_messages_of_def Let_def mirror_frame)
  have other: "message_chat m \<noteq> (tenant, app, chat)" if "message_key m = k" for m :: "'a message_row"
    using assms(2) that by (auto simp: message_key_def message_chat_def)
  from assms(1) obtain x where "x \<in> set (im_messages db)" "message_key x = k" by (auto simp: withdrawn_def)
  with other assms(1) show ?thesis by (auto simp: withdrawn_def e rows)
qed

lemma step_withdrawn:
  assumes "withdrawn k v db" "\<not> revives k v op"
  shows "withdrawn k v (im_step now op db)"
proof (cases op)
  case (ImUpsert r m)
  with upsert_withdrawn [OF assms(1)] assms(2) show ?thesis by simp
next
  case (ImRevoke tenant app chat)
  with revoke_withdrawn [OF assms(1), of tenant app chat now] assms(2) show ?thesis by simp
next
  case (ImInvalidate r tenant app chat i u)
  with invalidate_withdrawn [OF assms(1)] show ?thesis by simp
next
  case (ImRestore tenant app chat)
  with assms(1) show ?thesis by (simp add: restore_chat_access_def withdrawn_def mirror_frame)
qed (use assms(1) in \<open>simp_all add: withdrawn_def record_attachment_frame\<close>)

lemma run_withdrawn:
  "withdrawn k v db \<Longrightarrow> list_all (\<lambda>(t, op). \<not> revives k v op) ops \<Longrightarrow> withdrawn k v (timed_run im_step ops db)"
  by (induction ops arbitrary: db) (auto simp: step_withdrawn)

section \<open>What the reads return\<close>

lemma latest_subset: "set (latest key n rows) \<subseteq> set rows"
  using set_take_subset [of "nat n" "rev (sort_key key (rev rows))"] by (simp add: latest_def)

lemma recent_rows_live: "x \<in> set (recent_rows k before limit db) \<Longrightarrow> x \<in> set (im_messages db) \<and> live_message x \<and> message_chat x = k"
  using latest_subset [of "\<lambda>x. (mg_created_at_source_ms x, mg_message_id x)" limit
    "filter (\<lambda>x. message_chat x = k \<and> mg_created_at_source_ms x \<le> before \<and> live_message x) (im_messages db)"]
  by (auto simp: recent_rows_def)

lemma read_message_same: "read_message r x = Inr g \<Longrightarrow>
    sg_tenant_key g = mg_tenant_key x \<and> sg_app_id g = mg_app_id x \<and> sg_message_id g = mg_message_id x \<and>
    sg_chat_id g = mg_chat_id x \<and> sg_is_recalled g = mg_is_recalled x \<and> sg_is_deleted g = mg_is_deleted x"
  by (auto simp: read_message_def Let_def chain_Inr)

lemma read_attachment_same: "read_attachment r a = Inr g \<Longrightarrow>
    sa_tenant_key g = aw_tenant_key a \<and> sa_app_id g = aw_app_id a \<and> sa_message_id g = aw_message_id a"
  by (auto simp: read_attachment_def Let_def chain_Inr)

lemma recent_messages_live:
  assumes "recent_messages r tenant app chat before limit db = Inr ms" "g \<in> set ms"
  obtains x where "x \<in> set (im_messages db)" "live_message x" "message_key x = (tenant, app, sg_message_id g)"
proof -
  have "decode_all (read_message r) (recent_rows (tenant, app, chat) before limit db) = Inr ms"
    using assms(1) by (simp add: recent_messages_def split: if_splits)
  from decode_all_set [OF this assms(2)] obtain x where x: "x \<in> set (recent_rows (tenant, app, chat) before limit db)"
    "read_message r x = Inr g" by blast
  from recent_rows_live [OF x(1)] read_message_same [OF x(2)] show thesis
    by (intro that [of x]) (auto simp: message_key_def message_chat_def)
qed

lemma recent_attachments_live:
  assumes "recent_attachments r tenant app chat since before limit db = Inr as" "g \<in> set as"
  obtains x where "find_message (tenant, app, sa_message_id g) db = Some x" "live_message x"
proof -
  have "decode_all (read_attachment r) (recent_attachment_rows (tenant, app, chat) since before limit db) = Inr as"
    using assms(1) by (simp add: recent_attachments_def split: if_splits)
  from decode_all_set [OF this assms(2)] obtain a where a: "a \<in> set (recent_attachment_rows (tenant, app, chat) since before limit db)"
    "read_attachment r a = Inr g" by blast
  let ?joined = "filter (\<lambda>(a, m). attachment_chat a = (tenant, app, chat) \<and> since \<le> mg_created_at_source_ms m \<and>
      mg_created_at_source_ms m \<le> before \<and> live_message m)
    (List.map_filter (\<lambda>a. map_option (Pair a) (find_message (attachment_message a) db)) (im_attachments db))"
  from a(1) obtain m where "(a, m) \<in> set ?joined"
    using latest_subset [of "\<lambda>(a, m). (mg_created_at_source_ms m, aw_message_id a)" limit ?joined]
    by (auto simp: recent_attachment_rows_def)
  then have "find_message (attachment_message a) db = Some m" "live_message m" "attachment_chat a = (tenant, app, chat)"
    by (auto simp: map_filter_def)
  with read_attachment_same [OF a(2)] show thesis
    by (intro that [of m]) (auto simp: attachment_message_def attachment_chat_def)
qed

section \<open>Reading a message back\<close>

text \<open>What is stored of a message; the time of its creation is that of its first version.\<close>

definition stored_form :: "incoming_message \<Rightarrow> int \<Rightarrow> stored_message" where
  "stored_form m created = \<lparr>sg_tenant_key = ig_tenant_key m, sg_app_id = ig_app_id m, sg_chat_id = ig_chat_id m,
     sg_message_id = ig_message_id m, sg_message_type = ig_message_type m, sg_sender_id = ig_sender_id m,
     sg_sender_type = ig_sender_type m, sg_body_text = ig_body_text m, sg_mentions = ig_mentions m,
     sg_occurred_at_ms = created, sg_source_version_ms = message_version m, sg_thread_id = ig_thread_id m,
     sg_root_id = ig_root_id m, sg_parent_id = ig_parent_id m, sg_sender_name = ig_sender_name m,
     sg_is_recalled = ig_is_recalled m, sg_is_deleted = ig_is_deleted m\<rparr>"

definition first_seen :: "incoming_message \<Rightarrow> 'b im_db \<Rightarrow> int" where
  "first_seen m db = (case find_message (incoming_key m) db of None \<Rightarrow> ig_occurred_at_ms m | Some x \<Rightarrow> mg_created_at_source_ms x)"

lemma mention_read: "mn_open_id x \<noteq> [] \<Longrightarrow> mention_of_json (mention_json x) = Some x"
  by (cases x) (auto simp: mention_of_json_def mention_json_def json_get_def truthy_def jopt_def split: option.splits)

lemma mentions_read:
  assumes "list_all (\<lambda>x. mn_open_id x \<noteq> []) xs"
  shows "mentions_of_json (JArr (map mention_json xs)) = Inr xs"
proof -
  have "List.map_filter mention_of_json (map mention_json xs) = xs"
    using assms by (induction xs) (simp_all add: mention_read)
  then show ?thesis by (simp add: mentions_of_json_def)
qed

lemma optional_read: "opens_sealed c \<Longrightarrow> decrypt_optional c (encrypt_optional c v aad) aad = Inr v"
  by (cases v) (simp_all add: encrypt_optional_def decrypt_optional_def)

lemma row_read:
  assumes "opens_sealed (ir_cipher r)" "list_all (\<lambda>x. mn_open_id x \<noteq> []) (ig_mentions m)"
  shows "read_message r ((new_message_row r m)\<lparr>mg_created_at_source_ms := created, mg_schema_version := n\<rparr>) = Inr (stored_form m created)"
proof -
  have "decrypt_value (ir_cipher r) (seal (ir_cipher r) aad v) aad = Inr v" for aad v
    using assms(1) by (simp add: decrypt_value_def opens_sealed_def)
  with assms show ?thesis
    by (simp add: read_message_def new_message_row_def Let_def mentions_read optional_read stored_form_def)
qed

lemma find_update_where:
  assumes "\<And>x. k x = j \<Longrightarrow> k (f x) = j"
  shows "find (\<lambda>x. k x = j) (update_where (\<lambda>x. k x = j) f rows) = map_option f (find (\<lambda>x. k x = j) rows)"
  using assms by (induction rows) auto

lemma find_snoc_new: "find P xs = None \<Longrightarrow> P x \<Longrightarrow> find P (xs @ [x]) = Some x"
  by (induction xs) (auto split: if_splits)

lemma put_message_found:
  "\<exists>n. find_message (incoming_key m) (put_message (new_message_row r m) db) =
    Some ((new_message_row r m)\<lparr>mg_created_at_source_ms := first_seen m db, mg_schema_version := n\<rparr>)"
proof (cases "find_message (incoming_key m) db")
  case None
  then have "find_message (incoming_key m) (put_message (new_message_row r m) db) = Some (new_message_row r m)"
    by (simp add: put_message_def message_row_key find_message_def find_snoc_new)
  then show ?thesis
    by (intro exI [of _ 1]) (simp add: None first_seen_def, simp add: new_message_row_def Let_def)
next
  case (Some x)
  let ?f = "\<lambda>x. (new_message_row r m)\<lparr>mg_created_at_source_ms := mg_created_at_source_ms x, mg_schema_version := mg_schema_version x\<rparr>"
  have "message_key (?f y) = incoming_key m" for y by (simp add: message_key_def new_message_row_def incoming_key_def Let_def)
  then have "find (\<lambda>x. message_key x = incoming_key m) (update_where (\<lambda>x. message_key x = incoming_key m) ?f (im_messages db)) =
    map_option ?f (find (\<lambda>x. message_key x = incoming_key m) (im_messages db))" by (intro find_update_where)
  with Some show ?thesis by (auto simp: put_message_def message_row_key find_message_def first_seen_def)
qed

definition attached_form :: "incoming_message \<Rightarrow> attachment_reference \<Rightarrow> stored_attachment" where
  "attached_form m a = \<lparr>sa_tenant_key = ig_tenant_key m, sa_app_id = ig_app_id m, sa_chat_id = ig_chat_id m,
     sa_message_id = ig_message_id m, sa_resource_key = af_resource_key a, sa_resource_type = af_resource_type a,
     sa_filename = af_filename a, sa_media_type = af_media_type a, sa_declared_size = af_declared_size a, sa_blob_id = None,
     sa_download_state = ''referenced'', sa_parse_state = ''not_parsed'', sa_parsed_content = None, sa_warning_code = None\<rparr>"

lemma attachment_row_read:
  "opens_sealed (ir_cipher r) \<Longrightarrow> read_attachment r (new_attachment_row r m a) = Inr (attached_form m a)"
  by (simp add: read_attachment_def new_attachment_row_def Let_def optional_read attached_form_def) (simp add: decrypt_optional_def)

lemma attachment_found:
  assumes "distinct (map attachment_key rows)" "x \<in> set rows" "attachment_is t p c i k x"
  shows "find (attachment_is t p c i k) rows = Some x"
proof (cases "find (attachment_is t p c i k) rows")
  case None
  with assms(2,3) show ?thesis by (auto simp: find_None)
next
  case (Some y)
  then have y: "y \<in> set rows" "attachment_is t p c i k y" using find_in_set [of "attachment_is t p c i k" rows y] by simp_all
  then have "attachment_key y = attachment_key x"
    using assms(3) by (simp add: attachment_is_def attachment_key_def attachment_message_def attachment_chat_def)
  with assms(1,2) y(1) have "y = x" by (simp add: distinct_map inj_on_def)
  with Some show ?thesis by simp
qed

text \<open>
  C8. Once a message is stored, and the version at hand was not outdated by what the mirror held, it reads back as it was
  sent: its text, sender and mentions opened, with the time of its first version, and each attachment as referenced.
\<close>

theorem stored_message_reads_back:
  assumes "opens_sealed (ir_cipher r)" "list_all (\<lambda>x. mn_open_id x \<noteq> []) (ig_mentions m)" "mirror_ok db"
    and "upsert_message r m db = (Inr True, db')"
    and "\<And>x. find_message (incoming_key m) db = Some x \<Longrightarrow> \<not> outdated x m"
  shows "get_message r (ig_tenant_key m) (ig_app_id m) (ig_message_id m) db' = Inr (Some (stored_form m (first_seen m db))) \<and>
    (\<forall>a \<in> set (ig_attachments m). get_attachment r (ig_tenant_key m) (ig_app_id m) (ig_chat_id m) (ig_message_id m)
      (af_resource_key a) db' = Inr (Some (attached_form m a)))"
proof -
  have "upsert_message_tx r m db = Inr (True, db')" by (rule transaction_InrD [OF assms(4) [unfolded upsert_message_def]])
  then obtain db1 where written: "write_message r m db1 = Inr (True, db')" "im_messages db1 = im_messages db"
    "im_attachments db1 = im_attachments db"
    by (cases rule: upsert_message_cases) (use assms(5) in auto)
  note e = insert_attachments_frame [OF write_message_inserts [OF written(1)]]
  have same: "find_message (incoming_key m) db' = find_message (incoming_key m) (put_message (new_message_row r m) db1)"
    by (simp add: find_message_def e(3) mirror_frame)
  obtain n where "find_message (incoming_key m) (put_message (new_message_row r m) db1) =
    Some ((new_message_row r m)\<lparr>mg_created_at_source_ms := first_seen m db1, mg_schema_version := n\<rparr>)"
    using put_message_found by blast
  moreover have "first_seen m db1 = first_seen m db" by (simp add: first_seen_def find_message_def written(2))
  ultimately have read: "get_message r (ig_tenant_key m) (ig_app_id m) (ig_message_id m) db' =
    Inr (Some (stored_form m (first_seen m db)))"
    using row_read [OF assms(1,2)] same by (simp add: get_message_def incoming_key_def)
  have "distinct (map attachment_key (im_attachments (delete_attachments_of (incoming_key m) (put_message (new_message_row r m) db1))))"
    using assms(3) by (simp add: delete_attachments_of_def mirror_frame written(3) mirror_ok_def attachments_ok_def distinct_map_filter)
  note distinct = e(6) [OF this]
  have "get_attachment r (ig_tenant_key m) (ig_app_id m) (ig_chat_id m) (ig_message_id m) (af_resource_key a) db' =
    Inr (Some (attached_form m a))" if a: "a \<in> set (ig_attachments m)" for a
  proof -
    have "new_attachment_row r m a \<in> set (im_attachments db')" using a e(5) by simp
    moreover have "attachment_is (ig_tenant_key m) (ig_app_id m) (ig_chat_id m) (ig_message_id m) (af_resource_key a) (new_attachment_row r m a)"
      by (simp add: attachment_is_def attachment_chat_def new_attachment_row_def)
    ultimately have "find (attachment_is (ig_tenant_key m) (ig_app_id m) (ig_chat_id m) (ig_message_id m) (af_resource_key a))
      (im_attachments db') = Some (new_attachment_row r m a)" by (rule attachment_found [OF distinct])
    with attachment_row_read [OF assms(1)] show ?thesis by (simp add: get_attachment_def)
  qed
  with read show ?thesis by blast
qed

text \<open>
  C7. Once a message was recalled at a version no older than the stored one, then whatever operations follow, as long as
  no newer live version of it arrives and no chat of the application loses its access, neither the recent messages nor the
  recent attachments of any chat show it, and reading it shows it as recalled or deleted.
\<close>

theorem recalled_message_stays_hidden:
  assumes "\<And>x. find_message (tenant, app, i) db = Some x \<Longrightarrow> mg_updated_at_source_ms x \<le> v"
    and "list_all (\<lambda>(t, op). \<not> revives (tenant, app, i) v op) ops"
    and "db' = timed_run im_step ops (snd (invalidate_message r tenant app chat i v now db))"
  shows "(recent_messages r' tenant app chat' before limit db' = Inr ms \<longrightarrow> i \<notin> sg_message_id ` set ms) \<and>
    (recent_attachments r' tenant app chat' since before limit db' = Inr as \<longrightarrow> i \<notin> sa_message_id ` set as) \<and>
    (get_message r' tenant app i db' = Inr (Some g) \<longrightarrow> sg_is_recalled g \<or> sg_is_deleted g)"
proof -
  have gone: "withdrawn (tenant, app, i) v db'"
    unfolding assms(3) by (rule run_withdrawn [OF recall_withdraws [OF assms(1)] assms(2)])
  obtain x where x: "find_message (tenant, app, i) db' = Some x" "\<not> live_message x"
    using gone by (rule withdrawn_found)
  have "i \<notin> sg_message_id ` set ms" if "recent_messages r' tenant app chat' before limit db' = Inr ms"
    using gone by (auto simp: withdrawn_def elim!: recent_messages_live [OF that])
  moreover have "i \<notin> sa_message_id ` set as" if "recent_attachments r' tenant app chat' since before limit db' = Inr as"
    using x by (auto elim!: recent_attachments_live [OF that])
  moreover have "sg_is_recalled g \<or> sg_is_deleted g" if "get_message r' tenant app i db' = Inr (Some g)"
    using that x by (auto simp: get_message_def chain_Inr live_message_def dest!: read_message_same)
  ultimately show ?thesis by blast
qed

text \<open>
  C5. Once a chat lost its access, then whatever operations follow except its restoration, admission refuses the chat as
  revoked, its recent messages are empty, and no message of it is admitted, whatever other clients (that do not restore
  the chat either) do at the awaits of the admission.
\<close>

theorem revoked_chat_stays_closed:
  assumes "list_all (\<lambda>(t, op). \<not> reopens (tenant, app, chat) op) ops"
    and "\<And>k. list_all (\<lambda>(t, op). \<not> reopens (tenant, app, chat) op) (others k)"
    and "db' = timed_run im_step ops (snd (revoke_chat_access tenant app chat now db))"
    and "(ig_tenant_key m, ig_app_id m, ig_chat_id m) = (tenant, app, chat)" and "1 \<le> limit" "limit \<le> 100"
  shows "chat_admission_denial tenant app chat db' = Some AccessRevoked \<and>
    recent_messages r tenant app chat before limit db' = Inr [] \<and>
    (\<exists>reason. reason \<noteq> Admitted \<and> fst (admit_message s ids (\<lambda>k. timed_run im_step (others k)) m db') = Inr (denied reason))"
proof -
  have closed: "chat_closed (tenant, app, chat) db'" unfolding assms(3) by (rule run_closed [OF revoke_closed(2) assms(1)])
  have denial: "chat_admission_denial tenant app chat d = Some AccessRevoked" if shut: "chat_closed (tenant, app, chat) d" for d :: "'a im_db"
  proof -
    obtain c where "find_chat (tenant, app, chat) d = Some c" "ch_access_state c = ''revoked''"
      by (rule chat_shut_found [of "(tenant, app, chat)" d]) (use shut in \<open>simp add: chat_closed_def\<close>)
    then show ?thesis by (simp add: chat_admission_denial_def)
  qed
  have "chat_admission_denial (ig_tenant_key m) (ig_app_id m) (ig_chat_id m) (timed_run im_step (others 0) db') = Some AccessRevoked"
    using denial [OF run_closed [OF closed assms(2)]] assms(4) by simp
  then have "\<exists>reason. reason \<noteq> Admitted \<and> fst (admit_message s ids (\<lambda>k. timed_run im_step (others k)) m db') = Inr (denied reason)"
    by (auto simp: admit_message_def)
  with denial [OF closed] recent_closed [OF closed assms(5,6)] show ?thesis by blast
qed

end
