(* ===== verification/IMDelivery.thy ===== *)
theory IMDelivery
  imports IMRecall RuntimeProps
begin

text \<open>
  The admission of messages over the whole database: a message that is delivered again is answered by the task it became,
  and a denied one leaves the runtime alone.
\<close>

section \<open>The events of controls\<close>

definition control_events :: "'b rt_db \<Rightarrow> int list" where
  "control_events db = map rc_event_pk (db_controls db)"

lemma controls_insert_outbox: "insert_outbox c i d t now db = Inr db' \<Longrightarrow> control_events db' = control_events db"
  by (auto simp: insert_outbox_def control_events_def split: if_splits)

lemma controls_insert_event: "insert_event c e now db = Inr (pk, db') \<Longrightarrow> control_events db' = control_events db"
  by (auto simp: insert_event_def Let_def control_events_def split: if_splits)

lemma controls_admit: "control_events (snd (admit c i oid e cmd ack now db)) = control_events db"
  unfolding admit_def
proof (rule keeps_tx)
  fix r db' assume "admit_tx c i oid e cmd ack now db = Inr (r, db')"
  then show "control_events db' = control_events db"
  proof (cases rule: admit_tx_cases)
    case (fresh pk db1 db2)
    have "control_events db' = control_events db2" using fresh(5) by (auto split: option.splits dest: controls_insert_outbox)
    also have "\<dots> = control_events db1" by (simp add: insert_task_cases(1) [OF fresh(3)] control_events_def)
    also have "\<dots> = control_events db" by (rule controls_insert_event [OF fresh(2)])
    finally show ?thesis .
  qed simp
qed

lemma controls_settle: "control_events (settle_approval i s now db) = control_events db"
  by (simp add: settle_approval_def control_events_def)

lemma controls_request: "control_events (snd (request_approval c oid q draft now db)) = control_events db"
  unfolding request_approval_def
proof (rule keeps_tx)
  fix r t assume tx: "request_approval_tx c oid q draft now db = Inr (r, t)"
  show "control_events t = control_events db"
  proof (cases "find_approval (aq_approval_id q) db")
    case None
    then have "insert_outbox c oid draft (aq_task_id q) now
        (db\<lparr>db_approvals := db_approvals db @ [new_approval q now]\<rparr>) = Inr t"
      using tx by (auto simp: request_approval_tx_def split: if_splits sum.splits)
    from controls_insert_outbox [OF this] show ?thesis by (simp add: control_events_def)
  next
    case (Some a)
    with tx show ?thesis by (auto simp: request_approval_tx_def controls_settle split: if_splits)
  qed
qed

lemma controls_verdict: "approval_verdict a e actor d now db = (r, db') \<Longrightarrow> control_events db' = control_events db"
  by (auto simp: approval_verdict_cases controls_settle split: if_splits)

lemma controls_decide: "control_events (snd (decide_approval c oid e i actor d ack now db)) = control_events db"
proof -
  have "control_events (snd (transaction (decide_approval_tx c oid e i actor d ack now) db)) = control_events db"
  proof (rule keeps_tx)
    fix r t assume "decide_approval_tx c oid e i actor d ack now db = Inr (r, t)"
    then show "control_events t = control_events db"
    proof (cases rule: decide_approval_tx_cases)
      case (decided a pk db1 db2)
      then show ?thesis using controls_insert_outbox controls_verdict controls_insert_event by metis
    qed simp
  qed
  then show ?thesis by (simp add: decide_approval_def raise_def)
qed

lemma controls_apply: "control_events (apply_controls t ids now db) = control_events db"
  "control_events (supersede_controls t now db) = control_events db"
  unfolding control_events_def apply_controls_def supersede_controls_def
  by (simp_all add: update_where_map_key)

lemma controls_try_finish: "control_events (snd (try_finish_with_outcome c i oc ids now db)) = control_events db"
proof -
  have "control_events (snd (transaction (try_finish_tx c i oc ids now) db)) = control_events db"
  proof (rule keeps_tx)
    fix b t assume "try_finish_tx c i oc ids now db = Inr (b, t)"
    moreover have "control_events (set_run_status i st now (insert_run_event c i ty p now d)) = control_events d" for st ty p and d :: "'a rt_db"
      by (simp add: set_run_status_def insert_run_event_def Let_def control_events_def)
    ultimately show "control_events t = control_events db"
      by (cases rule: try_finish_tx_cases; cases b) (auto simp: controls_apply split: if_splits)
  qed
  then show ?thesis by (simp add: try_finish_with_outcome_def raise_def)
qed

lemma controls_sessions:
  "control_events (snd (start_run i task s a v p now tr db)) = control_events db"
  "control_events (snd (append_event c i ty pl now db)) = control_events db"
  "control_events (snd (save_checkpoint c k now db)) = control_events db"
  "control_events (snd (discard_checkpoint i db)) = control_events db"
  "control_events (snd (finish_run i st now db)) = control_events db"
proof -
  show "control_events (snd (start_run i task s a v p now tr db)) = control_events db"
    unfolding start_run_def by (rule keeps_tx) (auto simp: start_run_tx_def control_events_def split: if_splits)
  show "control_events (snd (append_event c i ty pl now db)) = control_events db"
    unfolding append_event_def
    by (rule keeps_tx) (auto simp: append_event_tx_def insert_run_event_def Let_def control_events_def split: if_splits)
  show "control_events (snd (save_checkpoint c k now db)) = control_events db"
    unfolding save_checkpoint_def
    by (rule keeps_tx) (auto simp: save_checkpoint_tx_def chain_Inr upsert_checkpoint_def control_events_def split: if_splits)
  show "control_events (snd (discard_checkpoint i db)) = control_events db"
    by (simp add: discard_checkpoint_def transaction_def control_events_def)
  show "control_events (snd (finish_run i st now db)) = control_events db"
    by (simp add: finish_run_def transaction_def raise_def set_run_status_def control_events_def)
qed

lemma admit_control_events:
  assumes "n \<in> set (control_events (snd (admit_control c cid oid e s actor kind tx ack now db)))" "n \<notin> set (control_events db)"
  shows "n = db_event_seq db + 1" "n \<in> re_event_pk ` set (db_events (snd (admit_control c cid oid e s actor kind tx ack now db)))"
proof -
  let ?P = "\<lambda>d. n \<in> set (control_events d) \<longrightarrow> n \<notin> set (control_events db) \<longrightarrow>
    n = db_event_seq db + 1 \<and> n \<in> re_event_pk ` set (db_events d)"
  have "?P (snd (admit_control c cid oid e s actor kind tx ack now db))"
    unfolding admit_control_def
  proof (rule transaction_inv [where P = ?P])
    fix r t assume "admit_control_tx c cid oid e s actor kind tx ack now db = Inr (r, t)"
    then show "?P t"
    proof (cases rule: admit_control_tx_cases)
      case (fresh u p pk db1 db2)
      have "control_events t = control_events db2" by (rule controls_insert_outbox [OF fresh(7)])
      moreover have "control_events db2 = control_events db1 @ [pk]" "db_events db2 = db_events db1"
        using fresh(6) by (auto simp: insert_control_def control_events_def new_control_row_def split: if_splits)
      moreover note controls_insert_event [OF fresh(5)] insert_event_cases [OF fresh(5)] insert_outbox_frame(2) [OF fresh(7)]
      ultimately show ?thesis by auto
    qed auto
  qed simp
  with assms show "n = db_event_seq db + 1"
    "n \<in> re_event_pk ` set (db_events (snd (admit_control c cid oid e s actor kind tx ack now db)))" by blast+
qed

lemma step_control_events:
  obtains c cid oid e s actor kind tx ack where "op = OpAdmitControl c cid oid e s actor kind tx ack"
    | "control_events (rt_step now op db) = control_events db"
proof (cases op)
  case (OpAcknowledge i ids)
  then show thesis by (intro that(2)) (simp add: acknowledge_controls_def transaction_def controls_apply)
qed (rule that, simp, ((simp add: controls_admit controls_request controls_decide controls_try_finish controls_sessions; fail)
      | (simp add: control_events_def frame)))+

section \<open>A delivered message\<close>

text \<open>An event becomes a task or a control of a task, never both.\<close>

definition bindings :: "'b rt_db \<Rightarrow> (string \<times> int option) set" where
  "bindings db = set (map task_binding (db_tasks db))"

definition controls_apart :: "'b rt_db \<Rightarrow> bool" where
  "controls_apart db \<longleftrightarrow> set (control_events db) \<subseteq> re_event_pk ` set (db_events db) \<and>
     (\<forall>i n. (i, Some n) \<in> bindings db \<longrightarrow> n \<notin> set (control_events db))"

lemma bindings_identities: "bindings db = (\<lambda>(i, pk, _). (i, pk)) ` set (identities db)"
  by (simp add: bindings_def identities_def image_image binding_of_identity [abs_def])

lemma step_bindings: "bindings db \<subseteq> bindings (rt_step now op db)"
  unfolding bindings_identities by (rule image_mono [OF step_identities])

lemma admit_bindings:
  assumes "(i, Some n) \<in> bindings (snd (admit c t oid e cmd ack now db))" "(i, Some n) \<notin> bindings db"
  shows "n = db_event_seq db + 1"
proof -
  let ?P = "\<lambda>d. (i, Some n) \<in> bindings d \<longrightarrow> (i, Some n) \<in> bindings db \<or> n = db_event_seq db + 1"
  have "?P (snd (admit c t oid e cmd ack now db))" unfolding admit_def
  proof (rule transaction_inv [where P = ?P])
    fix r db' assume "admit_tx c t oid e cmd ack now db = Inr (r, db')"
    then show "?P db'"
    proof (cases rule: admit_tx_cases)
      case (fresh pk db1 db2)
      have "bindings db' = insert (t, Some pk) (bindings db)"
        using acknowledged(1) [OF fresh(5)] insert_event_frame(1) [OF fresh(2)] insert_task_cases(1) [OF fresh(3)]
        by (simp add: bindings_def task_binding_def new_task_row_def)
      with insert_event_cases(2) [OF fresh(2)] show ?thesis by auto
    qed simp
  qed simp
  with assms show ?thesis by blast
qed

lemma step_new_bindings:
  obtains c i oid e cmd ack where "op = OpAdmit c i oid e cmd ack" | "bindings (rt_step now op db) = bindings db"
proof (cases op)
  case (OpLeaseTasks c w lease limit L)
  then show thesis by (intro that(2)) (simp add: bindings_identities lease_identities)
next
  case (OpGiveBackTask a w i)
  then show thesis by (intro that(2)) (simp add: bindings_identities act_identities)
qed (rule that, simp add: bindings_def frame)+

lemma step_controls_apart:
  assumes "events_ok db" "controls_apart db"
  shows "controls_apart (rt_step now op db)"
proof -
  let ?db = "rt_step now op db"
  have fk: "set (control_events db) \<subseteq> re_event_pk ` set (db_events db)" and apart: "\<And>i n. (i, Some n) \<in> bindings db \<Longrightarrow> n \<notin> set (control_events db)"
    using assms(2) by (auto simp: controls_apart_def)
  have seq: "n \<in> re_event_pk ` set (db_events db) \<Longrightarrow> n \<le> db_event_seq db" for n using events_okD(3) [OF assms(1)] by auto
  have old: "(i, Some n) \<in> bindings db \<Longrightarrow> n \<le> db_event_seq db" for i n
    using events_okD(4) [OF assms(1)] seq by (auto simp: bindings_ok_def bindings_def)
  have mono: "re_event_pk ` set (db_events db) \<subseteq> re_event_pk ` set (db_events ?db)" by (rule image_mono [OF step_events])
  show ?thesis
  proof (cases rule: step_control_events [where op = op and now = now and db = db])
    case (1 c cid oid e s actor kind tx ack)
    have same: "bindings ?db = bindings db" using 1 by (simp add: bindings_def admit_control_frame(1) [OF refl])
    have new: "n \<in> set (control_events ?db) \<Longrightarrow> n \<notin> set (control_events db) \<Longrightarrow> n = db_event_seq db + 1 \<and> n \<in> re_event_pk ` set (db_events ?db)" for n
      using admit_control_events [of n c cid oid e s actor kind tx ack now db] 1 by simp
    have "n \<in> re_event_pk ` set (db_events ?db)" if "n \<in> set (control_events ?db)" for n
      using new [OF that] fk mono by blast
    moreover have "n \<notin> set (control_events ?db)" if "(i, Some n) \<in> bindings ?db" for i n
      using new [of n] old [of i n] apart [of i n] that same by auto
    ultimately show ?thesis by (auto simp: controls_apart_def)
  next
    case controls: 2
    show ?thesis
    proof (cases rule: step_new_bindings [where op = op and now = now and db = db])
      case (1 c i oid e cmd ack)
      have "n \<notin> set (control_events db)" if "(j, Some n) \<in> bindings ?db" for j n
      proof (cases "(j, Some n) \<in> bindings db")
        case False
        with that 1 have "n = db_event_seq db + 1" using admit_bindings [of j n c i oid e cmd ack now db] by simp
        with seq [of n] fk show ?thesis by auto
      qed (rule apart)
      with controls fk mono show ?thesis by (auto simp: controls_apart_def)
    next
      case 2
      with controls fk mono apart show ?thesis by (auto simp: controls_apart_def)
    qed
  qed
qed

text \<open>The event of a message is bound to a task.\<close>

definition delivered :: "normalized_event \<Rightarrow> string \<Rightarrow> 'b rt_db \<Rightarrow> bool" where
  "delivered e i db \<longleftrightarrow> events_ok db \<and> controls_apart db \<and> bound e i db"

lemma step_delivered: "delivered e i db \<Longrightarrow> delivered e i (rt_step now op db)"
  by (simp add: delivered_def step_events_ok step_controls_apart step_bound)

definition inbox_view :: "'b rt_db \<Rightarrow> _" where
  "inbox_view db = (db_events db, db_event_seq db, map task_binding (db_tasks db), db_controls db)"

lemma inbox_view_cong:
  assumes "inbox_view db' = inbox_view db"
  shows "events_ok db' = events_ok db" "controls_apart db' = controls_apart db" "bound e i db' = bound e i db"
proof -
  have v: "db_events db' = db_events db" "db_event_seq db' = db_event_seq db"
    "map task_binding (db_tasks db') = map task_binding (db_tasks db)" "db_controls db' = db_controls db"
    using assms by (simp_all add: inbox_view_def)
  show "events_ok db' = events_ok db" by (rule events_ok_cong [OF v(1-3)])
  show "controls_apart db' = controls_apart db" "bound e i db' = bound e i db"
    unfolding controls_apart_def bindings_def control_events_def bound_def v by (rule refl)+
qed

lemma without_runs_view: "inbox_view (without_runs I rt) = inbox_view rt"
  by (simp add: inbox_view_def without_runs_def)

lemma cancel_view: "inbox_view (cancel_chat_tasks tenant app chat now rt) = inbox_view rt"
  by (simp add: inbox_view_def cancel_chat_tasks_def update_where_map_key task_binding_def)

section \<open>Over the whole database\<close>

lemma upsert_effect:
  assumes "mirror_ok db"
  shows "mirror_ok (snd (upsert_message r m db)) \<and> inbox_view (im_runtime (snd (upsert_message r m db))) = inbox_view (im_runtime db)"
  unfolding upsert_message_def
proof (rule transaction_inv [where P = "\<lambda>d. mirror_ok d \<and> inbox_view (im_runtime d) = inbox_view (im_runtime db)"])
  fix b d assume "upsert_message_tx r m db = Inr (b, d)"
  from upsert_message_tx_ok [OF assms this] without_runs_view show "mirror_ok d \<and> inbox_view (im_runtime d) = inbox_view (im_runtime db)"
    by auto
qed (simp add: assms)

lemma step_mirror:
  assumes "mirror_ok db"
  obtains rop where "op = ImRuntime rop" "mirror_ok (im_step now op db)" "im_runtime (im_step now op db) = rt_step now rop (im_runtime db)"
    | "mirror_ok (im_step now op db)" "inbox_view (im_runtime (im_step now op db)) = inbox_view (im_runtime db)"
proof (cases op)
  case (ImRuntime rop)
  moreover have "mirror_ok (im_step now op db)" using assms ImRuntime by simp (subst mirror_cong, simp_all)
  ultimately show thesis by (intro that(1)) simp_all
next
  case (ImUpsert r m)
  with upsert_effect [OF assms, of r m] show thesis by (intro that(2)) simp_all
next
  case (ImInvalidate r tenant app chat i v)
  with invalidate_message_ok [OF assms, of r tenant app chat i v now] show thesis by (intro that(2)) (auto simp: without_runs_view)
next
  case (ImRevoke tenant app chat)
  with revoke_chat_access_ok [OF assms, of tenant app chat now] show thesis
    by (intro that(2)) (auto simp: without_runs_view cancel_view)
next
  case (ImRestore tenant app chat)
  with restore_chat_access_ok [OF assms, of tenant app chat now] show thesis by (intro that(2)) simp_all
next
  case (ImRecordBlob a b n t)
  with record_attachment_blob_ok [OF assms, of a b n t now] show thesis by (intro that(2)) simp_all
next
  case (ImRecordParse r a p v pol content state w)
  with record_attachment_parse_ok [OF assms, of r a p v pol content state w] show thesis by (intro that(2)) simp_all
qed

text \<open>What the operations of the runtime and a change outside the inbox keep, every run over the whole database keeps.\<close>

definition kept :: "('b rt_db \<Rightarrow> bool) \<Rightarrow> bool" where
  "kept P \<longleftrightarrow> (\<forall>now op rt. P rt \<longrightarrow> P (rt_step now op rt)) \<and> (\<forall>rt rt'. inbox_view rt' = inbox_view rt \<longrightarrow> P rt \<longrightarrow> P rt')"

lemma kept_step:
  assumes "kept P" "mirror_ok db" "P (im_runtime db)"
  shows "mirror_ok (im_step now op db) \<and> P (im_runtime (im_step now op db))"
  using assms by (cases rule: step_mirror [OF assms(2), where op = op and now = now]) (auto simp: kept_def)

lemma kept_run:
  "kept P \<Longrightarrow> mirror_ok db \<Longrightarrow> P (im_runtime db) \<Longrightarrow>
    mirror_ok (timed_run im_step ops db) \<and> P (im_runtime (timed_run im_step ops db))"
  by (induction ops arbitrary: db) (auto simp: kept_step)

definition inbox_ok :: "'b rt_db \<Rightarrow> bool" where
  "inbox_ok db \<longleftrightarrow> events_ok db \<and> controls_apart db"

lemma keptI:
  assumes "\<And>now op rt. P rt \<Longrightarrow> P (rt_step now op rt)" "\<And>rt rt'. inbox_view rt' = inbox_view rt \<Longrightarrow> P rt \<Longrightarrow> P rt'"
  shows "kept P"
  using assms unfolding kept_def by blast

lemma kept_inbox_ok: "kept inbox_ok"
proof (rule keptI)
  show "inbox_ok (rt_step now op rt)" if "inbox_ok rt" for now op and rt :: "'a rt_db"
    using that by (simp add: inbox_ok_def step_events_ok step_controls_apart)
  show "inbox_ok rt'" if "inbox_view rt' = inbox_view rt" "inbox_ok rt" for rt rt' :: "'a rt_db"
    using that(2) by (simp add: inbox_ok_def inbox_view_cong [OF that(1)])
qed

lemma kept_delivered: "kept (delivered e i)"
proof (rule keptI)
  show "delivered e i (rt_step now op rt)" if "delivered e i rt" for now op and rt :: "'a rt_db"
    by (rule step_delivered [OF that])
  show "delivered e i rt'" if "inbox_view rt' = inbox_view rt" "delivered e i rt" for rt rt' :: "'a rt_db"
    using that(2) by (simp add: delivered_def inbox_view_cong [OF that(1)])
qed

lemma inbox_ok_empty: "mirror_ok (empty_im_db :: 'b im_db)" "inbox_ok (im_runtime (empty_im_db :: 'b im_db))"
proof -
  have "im_ok 0 (empty_im_db :: 'b im_db)" by (rule im_ok_empty)
  then have ok: "runtime_ok 0 (im_runtime (empty_im_db :: 'b im_db))" "mirror_ok (empty_im_db :: 'b im_db)" by (simp_all add: im_ok_def)
  from ok(2) show "mirror_ok (empty_im_db :: 'b im_db)" .
  have "controls_apart (im_runtime (empty_im_db :: 'b im_db))"
    by (simp add: controls_apart_def control_events_def bindings_def empty_im_db_def empty_db_def)
  with runtime_okD(4) [OF ok(1)] show "inbox_ok (im_runtime (empty_im_db :: 'b im_db))" by (simp add: inbox_ok_def)
qed

section \<open>Admission\<close>

lemma admit_message_cases:
  assumes "admit_message s ids meanwhile m db = (Inr d, db')" "decision_admitted d"
  obtains parts db1 where "db1 = snd (upsert_message (ia_repository s) m (meanwhile 1 (meanwhile 0 db)))"
    "admission_parts s (ai_trace_id ids) m = Inr parts" "admit_work s ids meanwhile m parts db1 = (Inr d, db')"
proof -
  have no: "\<not> decision_admitted (denied reason)" if "reason \<noteq> Admitted" for reason using that by (simp add: decision_admitted_def denied_def)
  have "chat_admission_denial t a c d = Some reason \<Longrightarrow> reason \<noteq> Admitted" for t a c and d :: "'a im_db" and reason
    by (auto simp: chat_admission_denial_def split: option.splits if_splits)
  with assms no show thesis
    unfolding admit_message_def
    by (auto split: if_splits option.splits prod.splits sum.splits bool.splits intro: that)
qed

lemma check_event_same: "check_event e = Inr e' \<Longrightarrow> e' = e"
  by (auto simp: check_event_def split: if_splits)

lemma parts_event: "admission_parts s trace m = Inr (event, command, ack) \<Longrightarrow> event = message_event s trace m"
  by (auto simp: admission_parts_def chain_Inr dest: check_event_same)

lemma on_runtime_Inr: "on_runtime f db = (Inr a, db') \<Longrightarrow> f (im_runtime db) = (Inr a, im_runtime db')"
  by (auto simp: on_runtime_def split: prod.splits)

lemma mirror_runtime: "mirror_ok (db\<lparr>im_runtime := rt\<rparr>) = mirror_ok db"
  by (rule mirror_cong) simp_all

lemma on_runtime_mirror: "mirror_ok (snd (on_runtime f db)) = mirror_ok db"
  by (simp add: on_runtime_def mirror_runtime split: prod.splits)

lemma delivered_no_control:
  assumes "delivered e i db"
  shows "admit_control c cid oid e s actor kind words ack now db = (Inr None, db)"
proof -
  obtain r where r: "r \<in> set (db_events db)" "event_key r = key_of_event e" "(i, Some (re_event_pk r)) \<in> bindings db"
    using assms by (auto simp: delivered_def bound_def bindings_def)
  have found: "find_event e db = Some r"
    using assms r by (auto simp: find_event_def delivered_def intro: find_key events_okD(1))
  have "re_event_pk r \<notin> rc_event_pk ` set (db_controls db)"
    using assms r(3) by (auto simp: delivered_def controls_apart_def control_events_def)
  then have "find (\<lambda>x. rc_event_pk x = re_event_pk r) (db_controls db) = None"
    unfolding find_None by (metis image_eqI)
  then have "existing_control e db = None" by (simp add: existing_control_def found)
  with found have "admit_control_tx c cid oid e s actor kind words ack now db = Inr (None, db)" by (simp add: admit_control_tx_def)
  then show ?thesis by (simp add: admit_control_def)
qed

lemma admit_task_delivered:
  assumes "inbox_ok db" "admit c i oid e cmd ack now db = (Inr r, db')"
  shows "delivered e (ar_task_id r) db'"
proof -
  have "inbox_ok (rt_step now (OpAdmit c i oid e cmd ack) db)" using assms(1) kept_inbox_ok by (simp only: kept_def) blast
  then have "inbox_ok db'" using assms(2) by simp
  with admit_bound [OF assms(2)] show ?thesis by (simp add: delivered_def inbox_ok_def)
qed

lemma delivered_key: "key_of_event e' = key_of_event e \<Longrightarrow> delivered e' i db = delivered e i db"
  by (simp add: delivered_def bound_def)

lemma key_of_message: "key_of_event (message_event s trace m) = (ig_tenant_key m, ig_app_id m, ig_event_id m)"
  by (simp add: key_of_event_def message_event_def)

lemma kept_meanwhile_upsert:
  assumes "kept P" "mirror_ok db" "P (im_runtime db)"
  shows "mirror_ok (snd (upsert_message r m (timed_run im_step (others 1) (timed_run im_step (others 0) db)))) \<and>
    P (im_runtime (snd (upsert_message r m (timed_run im_step (others 1) (timed_run im_step (others 0) db)))))"
proof -
  have "mirror_ok (timed_run im_step (others 1) (timed_run im_step (others 0) db)) \<and>
    P (im_runtime (timed_run im_step (others 1) (timed_run im_step (others 0) db)))"
    using kept_run [OF assms(1)] kept_run [OF assms] by blast
  with upsert_effect assms(1) show ?thesis unfolding kept_def by blast
qed

lemma on_runtime_step: "on_runtime f db = (r, db1) \<Longrightarrow> db1 = db\<lparr>im_runtime := snd (f (im_runtime db))\<rparr>"
  by (auto simp: on_runtime_def split: prod.splits)

lemma admit_work_cases:
  assumes "admit_work s ids meanwhile m (event, command, ack) db = (Inr d, db')"
  obtains (control) x db1 where "d = \<lparr>dn_reason = Admitted, dn_task_id = Some (cr_task_id x), dn_created = cr_created x,
        dn_control_id = Some (cr_control_id x)\<rparr>"
      "on_runtime (admit_control (ia_cipher s) (ai_control_id ids) (ai_control_outbox_id ids) event (message_session_key m)
        (ig_sender_id m) (fst (classify_control (ia_words s) (ig_body_text m))) (snd (classify_control (ia_words s) (ig_body_text m)))
        ack (ig_received_at_ms m)) (meanwhile 2 db) = (Inr (Some x), db1)"
    | (task) a db1 where "d = \<lparr>dn_reason = Admitted, dn_task_id = Some (ar_task_id a), dn_created = ar_created a, dn_control_id = None\<rparr>"
      "on_runtime (admit_control (ia_cipher s) (ai_control_id ids) (ai_control_outbox_id ids) event (message_session_key m)
        (ig_sender_id m) (fst (classify_control (ia_words s) (ig_body_text m))) (snd (classify_control (ia_words s) (ig_body_text m)))
        ack (ig_received_at_ms m)) (meanwhile 2 db) = (Inr None, db1)"
      "on_runtime (admit (ia_cipher s) (ai_task_id ids) (ai_outbox_id ids) event command (Some ack) (ig_received_at_ms m))
        (meanwhile 3 db1) = (Inr a, db')"
  using assms unfolding admit_work_def
  by (auto split: prod.splits sum.splits option.splits)

lemma work_delivers:
  assumes "mirror_ok db" "inbox_ok (im_runtime db)" "dn_control_id d = None"
    and "admit_work s ids (\<lambda>k. timed_run im_step (others k)) m (event, command, ack) db = (Inr d, db')"
  obtains i where "dn_task_id d = Some i" "mirror_ok db'" "delivered event i (im_runtime db')"
  using assms(4)
proof (cases rule: admit_work_cases)
  case (control x db1)
  with assms(3) show thesis by simp
next
  case (task a db1)
  have "mirror_ok (timed_run im_step (others 2) db) \<and> inbox_ok (im_runtime (timed_run im_step (others 2) db))"
    by (rule kept_run [OF kept_inbox_ok assms(1,2)])
  moreover have "inbox_ok (snd (admit_control c cid oid e se actor kind words ak now rt))" if "inbox_ok rt"
    for c cid oid e se actor kind words ak now and rt :: "'a rt_db"
  proof -
    have "inbox_ok (rt_step now (OpAdmitControl c cid oid e se actor kind words ak) rt)"
      using that kept_inbox_ok by (simp only: kept_def) blast
    then show ?thesis by simp
  qed
  ultimately have "mirror_ok db1 \<and> inbox_ok (im_runtime db1)"
    using on_runtime_step [OF task(2)] by (simp add: mirror_runtime)
  then have "mirror_ok (timed_run im_step (others 3) db1)" "inbox_ok (im_runtime (timed_run im_step (others 3) db1))"
    using kept_run [OF kept_inbox_ok] by blast+
  moreover note on_runtime_Inr [OF task(3)] on_runtime_mirror [of "admit (ia_cipher s) (ai_task_id ids) (ai_outbox_id ids) event command (Some ack) (ig_received_at_ms m)"
    "timed_run im_step (others 3) db1"]
  ultimately have "delivered event (ar_task_id a) (im_runtime db')" "mirror_ok db'"
    using admit_task_delivered task(3) by auto
  with task(1) show thesis by (intro that) simp_all
qed

lemma work_again:
  assumes "mirror_ok db" "delivered event i (im_runtime db)"
    and "admit_work s ids (\<lambda>k. timed_run im_step (others k)) m (event, command, ack) db = (Inr d, db')"
  shows "d = \<lparr>dn_reason = Admitted, dn_task_id = Some i, dn_created = False, dn_control_id = None\<rparr>"
  using assms(3)
proof (cases rule: admit_work_cases)
  case (control x db1)
  have "delivered event i (im_runtime (timed_run im_step (others 2) db))" using kept_run [OF kept_delivered assms(1,2)] by simp
  with on_runtime_Inr [OF control(2)] show ?thesis by (simp add: delivered_no_control)
next
  case (task a db1)
  have 2: "mirror_ok (timed_run im_step (others 2) db)" "delivered event i (im_runtime (timed_run im_step (others 2) db))"
    using kept_run [OF kept_delivered assms(1,2)] by simp_all
  then have "db1 = (timed_run im_step (others 2) db)\<lparr>im_runtime := im_runtime (timed_run im_step (others 2) db)\<rparr>"
    using on_runtime_step [OF task(2)] by (simp add: delivered_no_control)
  then have "delivered event i (im_runtime (timed_run im_step (others 3) db1))"
    using kept_run [OF kept_delivered 2] by simp
  then have "admit (ia_cipher s) (ai_task_id ids) (ai_outbox_id ids) event command (Some ack) (ig_received_at_ms m)
      (im_runtime (timed_run im_step (others 3) db1)) = (Inr \<lparr>ar_created = False, ar_task_id = i\<rparr>, im_runtime (timed_run im_step (others 3) db1))"
    by (intro bound_admit_again) (simp_all add: delivered_def)
  with on_runtime_Inr [OF task(3)] task(1) show ?thesis by auto
qed

text \<open>
  C6. When a message was admitted as a task, then after any operations of any clients every later delivery of its event that
  is admitted at all is answered by the same task, not as a new one and not as a control of a running task; other clients
  may act at every await of both admissions.
\<close>

theorem redelivery_same_task:
  assumes "admit_message s ids (\<lambda>k. timed_run im_step (others k)) m (timed_run im_step earlier empty_im_db) = (Inr d, db1)"
    and "decision_admitted d" "dn_control_id d = None"
    and "(ig_tenant_key m', ig_app_id m', ig_event_id m') = (ig_tenant_key m, ig_app_id m, ig_event_id m)"
    and "admit_message s' ids' (\<lambda>k. timed_run im_step (others' k)) m' (timed_run im_step ops db1) = (Inr d', db2)"
    and "decision_admitted d'"
  shows "d' = \<lparr>dn_reason = Admitted, dn_task_id = dn_task_id d, dn_created = False, dn_control_id = None\<rparr>"
proof -
  have start: "mirror_ok (timed_run im_step earlier empty_im_db)" "inbox_ok (im_runtime (timed_run im_step earlier empty_im_db))"
    using kept_run [OF kept_inbox_ok] inbox_ok_empty by blast+
  obtain event command ack w where w: "w = snd (upsert_message (ia_repository s) m (timed_run im_step (others 1) (timed_run im_step (others 0) (timed_run im_step earlier empty_im_db))))"
    and parts: "admission_parts s (ai_trace_id ids) m = Inr (event, command, ack)"
    and work: "admit_work s ids (\<lambda>k. timed_run im_step (others k)) m (event, command, ack) w = (Inr d, db1)"
    using assms(2) by (rule admit_message_cases [OF assms(1)]) (metis prod_cases3)
  have "mirror_ok w" "inbox_ok (im_runtime w)"
    unfolding w using kept_meanwhile_upsert [OF kept_inbox_ok start] by blast+
  then obtain i where i: "dn_task_id d = Some i" "mirror_ok db1" "delivered event i (im_runtime db1)"
    by (rule work_delivers [OF _ _ assms(3) work])
  obtain event' command' ack' w' where w': "w' = snd (upsert_message (ia_repository s') m' (timed_run im_step (others' 1) (timed_run im_step (others' 0) (timed_run im_step ops db1))))"
    and parts': "admission_parts s' (ai_trace_id ids') m' = Inr (event', command', ack')"
    and work': "admit_work s' ids' (\<lambda>k. timed_run im_step (others' k)) m' (event', command', ack') w' = (Inr d', db2)"
    using assms(6) by (rule admit_message_cases [OF assms(5)]) (metis prod_cases3)
  have "key_of_event event' = key_of_event event"
    using assms(4) by (simp add: parts_event [OF parts] parts_event [OF parts'] key_of_message)
  then have "delivered event' i (im_runtime db1)" using i(3) delivered_key by blast
  then have "mirror_ok (timed_run im_step ops db1)" "delivered event' i (im_runtime (timed_run im_step ops db1))"
    using kept_run [OF kept_delivered i(2)] by blast+
  from kept_meanwhile_upsert [OF kept_delivered this] have "mirror_ok w'" "delivered event' i (im_runtime w')"
    unfolding w' by blast+
  from work_again [OF this work'] i(1) show ?thesis by simp
qed

end
