(* ===== verification/IMWitnesses.thy ===== *)
theory IMWitnesses
  imports IMDelivery Samples
begin

text \<open>Concrete inputs at which the properties of the message mirror and of its admission are applied.\<close>

definition sample_repository :: "(string \<times> json) im_repository" where
  "sample_repository = \<lparr>ir_cipher = plain_cipher, ir_digest = (\<lambda>s. ''digest:'' @ s)\<rparr>"

definition sample_message :: incoming_message where
  "sample_message = \<lparr>ig_event_id = ''e1'', ig_tenant_key = ''tenant'', ig_app_id = ''app'', ig_chat_id = ''chat'',
     ig_chat_type = ''group'', ig_message_id = ''m1'', ig_message_type = ''text'', ig_sender_id = ''u'', ig_sender_type = ''user'',
     ig_body_text = ''write the report'', ig_mentions = [\<lparr>mn_open_id = ''bot'', mn_display_name = Some ''Bot''\<rparr>],
     ig_attachments = [\<lparr>af_resource_key = ''file'', af_resource_type = ''file'', af_filename = Some ''a.pdf'', af_media_type = None,
       af_declared_size = Some 5\<rparr>],
     ig_occurred_at_ms = 5, ig_received_at_ms = 10, ig_chat_name = Some ''Team'', ig_thread_id = None, ig_root_id = None,
     ig_parent_id = None, ig_sender_name = Some ''User'', ig_updated_at_ms = None, ig_is_recalled = False, ig_is_deleted = False\<rparr>"

definition sample_admission :: "(string \<times> json) im_admission" where
  "sample_admission = \<lparr>ia_cipher = plain_cipher, ia_repository = sample_repository, ia_bot_open_id = Some ''bot'',
     ia_acknowledgement_text = ''on it'', ia_definition_version = (\<lambda>m. 1),
     ia_policy = \<lparr>py_enabled_chat_ids = [], py_authorized_actor_ids = []\<rparr>,
     ia_words = \<lparr>cw_cancel = [], cw_interrupt = [], cw_steer = []\<rparr>, ia_dumps = (\<lambda>p. ''payload'')\<rparr>"

definition sample_ids :: "string \<Rightarrow> admission_ids" where
  "sample_ids i = \<lparr>ai_trace_id = ''trace'' @ i, ai_control_id = ''c'' @ i, ai_control_outbox_id = ''co'' @ i,
     ai_task_id = ''t'' @ i, ai_outbox_id = ''o'' @ i\<rparr>"

definition sample_stored :: "(string \<times> json) im_db" where
  "sample_stored = snd (upsert_message sample_repository sample_message empty_im_db)"

lemma sample_stored_value: "upsert_message sample_repository sample_message empty_im_db = (Inr True, sample_stored)"
proof -
  have "fst (upsert_message sample_repository sample_message empty_im_db) = Inr True" by code_simp
  then show ?thesis by (simp add: sample_stored_def prod_eq_iff)
qed

lemma stored_message_reads_back_witness:
  "get_message sample_repository ''tenant'' ''app'' ''m1'' sample_stored = Inr (Some (stored_form sample_message 5)) \<and>
   get_attachment sample_repository ''tenant'' ''app'' ''chat'' ''m1'' ''file'' sample_stored =
     Inr (Some (attached_form sample_message (hd (ig_attachments sample_message))))"
proof -
  have empty: "find_message k (empty_im_db :: (string \<times> json) im_db) = None" for k by (simp add: find_message_def empty_im_db_def)
  have "opens_sealed (ir_cipher sample_repository)" by (simp add: sample_repository_def)
  moreover have "list_all (\<lambda>x. mn_open_id x \<noteq> []) (ig_mentions sample_message)" by (simp add: sample_message_def)
  moreover have "\<not> outdated x sample_message" if "find_message (incoming_key sample_message) empty_im_db = Some x"
    for x :: "(string \<times> json) message_row" using that empty by simp
  ultimately have "get_message sample_repository (ig_tenant_key sample_message) (ig_app_id sample_message) (ig_message_id sample_message)
      sample_stored = Inr (Some (stored_form sample_message (first_seen sample_message (empty_im_db :: (string \<times> json) im_db)))) \<and>
    (\<forall>a \<in> set (ig_attachments sample_message). get_attachment sample_repository (ig_tenant_key sample_message)
      (ig_app_id sample_message) (ig_chat_id sample_message) (ig_message_id sample_message) (af_resource_key a) sample_stored =
      Inr (Some (attached_form sample_message a)))"
    by (intro stored_message_reads_back [OF _ _ inbox_ok_empty(1) sample_stored_value])
  then show ?thesis by (simp add: sample_message_def first_seen_def empty)
qed

text \<open>The message is recalled at version 7, and its old version is delivered again.\<close>

lemma recalled_message_stays_hidden_witness:
  "\<exists>ms. recent_messages sample_repository ''tenant'' ''app'' ''chat'' 100 10
      (timed_run im_step [(12, ImUpsert sample_repository sample_message), (13, ImRestore ''tenant'' ''app'' ''chat'')]
        (snd (invalidate_message sample_repository ''tenant'' ''app'' ''chat'' ''m1'' 7 11 sample_stored))) = Inr ms \<and>
    ''m1'' \<notin> sg_message_id ` set ms"
proof -
  let ?db = "timed_run im_step [(12, ImUpsert sample_repository sample_message), (13, ImRestore ''tenant'' ''app'' ''chat'')]
        (snd (invalidate_message sample_repository ''tenant'' ''app'' ''chat'' ''m1'' 7 11 sample_stored))"
  have "map_option mg_updated_at_source_ms (find_message (''tenant'', ''app'', ''m1'') sample_stored) = Some 5"
    unfolding sample_stored_def by code_simp
  then have old: "mg_updated_at_source_ms x \<le> 7" if "find_message (''tenant'', ''app'', ''m1'') sample_stored = Some x" for x
    using that by simp
  have ops: "list_all (\<lambda>(t, op). \<not> revives (''tenant'', ''app'', ''m1'') 7 op)
    [(12, ImUpsert sample_repository sample_message), (13, ImRestore ''tenant'' ''app'' ''chat'')]"
    by (simp add: sample_message_def message_version_def)
  have "recent_messages sample_repository ''tenant'' ''app'' ''chat'' 100 10 ?db = Inr []"
    unfolding sample_stored_def by code_simp
  with recalled_message_stays_hidden [OF old ops refl] show ?thesis by blast
qed

lemma revoked_chat_stays_closed_witness:
  "\<exists>reason. reason \<noteq> Admitted \<and> fst (admit_message sample_admission (sample_ids ''1'') (\<lambda>k. timed_run im_step []) sample_message
    (timed_run im_step [(12, ImUpsert sample_repository sample_message)]
      (snd (revoke_chat_access ''tenant'' ''app'' ''chat'' 11 sample_stored)))) = Inr (denied reason)"
  using revoked_chat_stays_closed [of "''tenant''" "''app''" "''chat''" "[(12, ImUpsert sample_repository sample_message)]" "\<lambda>k. []"
    "timed_run im_step [(12, ImUpsert sample_repository sample_message)] (snd (revoke_chat_access ''tenant'' ''app'' ''chat'' 11 sample_stored))"
    11 sample_stored sample_message 10 sample_repository 100 sample_admission "sample_ids ''1''"]
  by (simp add: sample_message_def)

text \<open>The message is delivered again while its task is leased.\<close>

definition sample_delivery :: "string \<Rightarrow> (int \<times> (string \<times> json) im_op) list \<Rightarrow> (string \<times> json) im_db \<Rightarrow>
    (exn + im_admission_decision) \<times> (string \<times> json) im_db" where
  "sample_delivery i ops db = admit_message sample_admission (sample_ids i) (\<lambda>k. timed_run im_step []) sample_message
     (timed_run im_step ops db)"

definition sample_leasing :: "(int \<times> (string \<times> json) im_op) list" where
  "sample_leasing = [(20, ImRuntime (OpLeaseTasks plain_cipher ''w'' 100 1 None))]"

lemma redelivery_same_task_witness:
  "\<exists>d db1. sample_delivery ''2'' sample_leasing (snd (sample_delivery ''1'' [] empty_im_db)) = (Inr d, db1) \<and>
    d = \<lparr>dn_reason = Admitted, dn_task_id = Some ''t1'', dn_created = False, dn_control_id = None\<rparr>"
proof -
  have "map_sum id (\<lambda>d. (decision_admitted d, dn_control_id d, dn_task_id d)) (fst (sample_delivery ''1'' [] empty_im_db)) =
    Inr (True, None, Some ''t1'')" by code_simp
  from result_Inr [OF this] obtain d db1 where first: "sample_delivery ''1'' [] empty_im_db = (Inr d, db1)"
    "decision_admitted d" "dn_control_id d = None" "dn_task_id d = Some ''t1''" by auto
  have "map_sum id decision_admitted (fst (sample_delivery ''2'' sample_leasing (snd (sample_delivery ''1'' [] empty_im_db)))) = Inr True"
    by code_simp
  from result_Inr [OF this] obtain d' db2 where second: "sample_delivery ''2'' sample_leasing db1 = (Inr d', db2)" "decision_admitted d'"
    by (auto simp: first(1))
  have "d' = \<lparr>dn_reason = Admitted, dn_task_id = dn_task_id d, dn_created = False, dn_control_id = None\<rparr>"
    by (rule redelivery_same_task [OF first(1) [unfolded sample_delivery_def] first(2,3) refl second(1) [unfolded sample_delivery_def] second(2)])
  with first second(1) show ?thesis by auto
qed

section \<open>Two observations\<close>

text \<open>
  The bot is removed from a chat and added again before the task of the removal ran. That task then cancels the pending
  task which would have restored the access, and the chat stays revoked.
\<close>

definition sample_callbacks :: "(string \<times> json) callback_service" where
  "sample_callbacks = \<lparr>cb_cipher = plain_cipher, cb_app_id = ''app'', cb_dumps = (\<lambda>p. ''payload'')\<rparr>"

definition sample_header :: "string \<Rightarrow> json" where
  "sample_header i = JObj [(''event_id'', JStr i), (''tenant_key'', JStr ''tenant''), (''create_time'', JStr ''5'')]"

definition sample_readded :: "(string \<times> json) im_db" where
  "sample_readded = snd (revoke_chat_access ''tenant'' ''app'' ''chat'' 30
     (snd (handle_bot_added sample_callbacks ''trace2'' ''added'' 21 (Some (JObj [(''header'', sample_header ''e2'')])) (Some (JStr ''chat''))
       (snd (handle_bot_removed sample_callbacks ''trace1'' ''removed'' 20
         [(''header'', sample_header ''e1''), (''event'', JObj [(''chat_id'', JStr ''chat'')])] empty_im_db)))))"

lemma revocation_cancels_membership:
  "map (\<lambda>t. (tk_command_type t, tk_state t)) (db_tasks (im_runtime sample_readded)) =
     [(''im.revoke_chat_access'', TaskPending), (''im.ensure_owner_membership'', TaskCancelled)]"
  "chat_admission_denial ''tenant'' ''app'' ''chat'' sample_readded = Some AccessRevoked"
  by code_simp+

text \<open>
  The revocation deletes the tombstone of a recalled message with the other messages of the chat: once the bot is back, an
  older redelivery brings the recalled content into the context.
\<close>

definition sample_resurrected :: "(string \<times> json) im_db" where
  "sample_resurrected = timed_run im_step
     [(11, ImInvalidate sample_repository ''tenant'' ''app'' ''chat'' ''m1'' 7), (12, ImRevoke ''tenant'' ''app'' ''chat''),
      (13, ImRestore ''tenant'' ''app'' ''chat''), (14, ImUpsert sample_repository sample_message)] sample_stored"

lemma recalled_message_resurrected:
  "map_sum id (map sg_body_text) (recent_messages sample_repository ''tenant'' ''app'' ''chat'' 100 10 sample_resurrected) =
    Inr [''write the report'']"
  by code_simp

end
