(* ===== verification/Maintenance.thy ===== *)
theory Maintenance
  imports IMSystem AgentSchema
begin

text \<open>
  \<open>StorageMaintenance\<close> of \<open>storage/maintenance.py\<close>: garbage collection of what has expired, and the purges of a message, a
  chat, a tenant or everything. They run while the process is stopped, under the lock of the data directory, on the
  runtime tables, the mirror, the agent graph and the blob files. Where a query has \<open>LIMIT\<close> without an order, the model takes
  the rows in the order of the table. Backup and restore of archives are not modelled.
\<close>

section \<open>The storage\<close>

record audit_row =
  au_operation :: string
  au_target_kind :: string
  au_target_digest :: string
  au_result_counts :: string
  au_created_at_ms :: int

text \<open>The blob files with their sizes, in the order of their paths; a file lies where its identifier says.\<close>

record 'b storage =
  so_mirror :: "'b im_db"
  so_graphs :: "'b ag_db"
  so_audit :: "audit_row list"
  so_files :: "(string \<times> int) list"

definition so_runtime :: "'b storage \<Rightarrow> 'b rt_db" where
  "so_runtime s = im_runtime (so_mirror s)"

definition on_mirror_of :: "('b im_db \<Rightarrow> 'b im_db) \<Rightarrow> 'b storage \<Rightarrow> 'b storage" where
  "on_mirror_of f s = s\<lparr>so_mirror := f (so_mirror s)\<rparr>"

definition on_runtime_of :: "('b rt_db \<Rightarrow> 'b rt_db) \<Rightarrow> 'b storage \<Rightarrow> 'b storage" where
  "on_runtime_of f s = s\<lparr>so_mirror := (so_mirror s)\<lparr>im_runtime := f (im_runtime (so_mirror s))\<rparr>\<rparr>"

definition on_graphs_of :: "('b ag_db \<Rightarrow> 'b ag_db) \<Rightarrow> 'b storage \<Rightarrow> 'b storage" where
  "on_graphs_of f s = s\<lparr>so_graphs := f (so_graphs s)\<rparr>"

section \<open>Blob files\<close>

definition valid_blob_id :: "string \<Rightarrow> bool" where
  "valid_blob_id b \<longleftrightarrow> length b = 64 \<and> list_all (\<lambda>ch. List.member ''0123456789abcdef'' ch) b"

definition invalid_blob :: exn where
  "invalid_blob = RuntimeError ''database or blob directory contains an invalid blob identifier''"

definition file_size :: "string \<Rightarrow> 'b storage \<Rightarrow> int option" where
  "file_size b s = map_of (so_files s) b"

definition unlink_file :: "string \<Rightarrow> 'b storage \<Rightarrow> 'b storage" where
  "unlink_file b s = s\<lparr>so_files := filter (\<lambda>f. fst f \<noteq> b) (so_files s)\<rparr>"

definition blob_referenced :: "string \<Rightarrow> 'b im_db \<Rightarrow> bool" where
  "blob_referenced b db \<longleftrightarrow> list_ex (\<lambda>a. aw_blob_id a = Some b) (im_attachments db)"

definition drop_blob_row :: "string \<Rightarrow> 'b im_db \<Rightarrow> 'b im_db" where
  "drop_blob_row b db = db\<lparr>im_file_blobs := filter (\<lambda>f. fb_blob_id f \<noteq> b) (im_file_blobs db)\<rparr>"

text \<open>\<open>_delete_blob_ids\<close>, and the loop of \<open>_purge\<close>, which does not look at the form of an identifier.\<close>

fun delete_files :: "bool \<Rightarrow> string list \<Rightarrow> int \<times> int \<Rightarrow> ('b storage, int \<times> int) eff" where
  "delete_files validating [] acc s = (Inr acc, s)"
| "delete_files validating (b # bs) (n, bytes) s =
     (if validating \<and> \<not> valid_blob_id b then (Inl invalid_blob, s)
      else case file_size b s of
        None \<Rightarrow> delete_files validating bs (n, bytes) s
      | Some k \<Rightarrow> delete_files validating bs (n + 1, bytes + k) (unlink_file b s))"

section \<open>Garbage collection\<close>

text \<open>The first \<open>n\<close> rows that are due, and the table without them.\<close>

definition due_rows :: "nat \<Rightarrow> ('r \<Rightarrow> bool) \<Rightarrow> 'r list \<Rightarrow> 'r list" where
  "due_rows n P rows = take n (filter P rows)"

definition without_keys :: "('r \<Rightarrow> 'k) \<Rightarrow> 'r list \<Rightarrow> 'r list \<Rightarrow> 'r list" where
  "without_keys key gone rows = filter (\<lambda>r. key r \<notin> set (map key gone)) rows"

definition firsts :: "'a list \<Rightarrow> 'a list" where
  "firsts xs = rev (remdups (rev xs))"

definition attachment_due :: "int \<Rightarrow> 'b attachment_row \<Rightarrow> bool" where
  "attachment_due now a \<longleftrightarrow> null_le (aw_expires_at_ms a) now"

definition message_due :: "int \<Rightarrow> 'b message_row \<Rightarrow> bool" where
  "message_due now m \<longleftrightarrow> null_le (mg_expires_at_ms m) now"

definition gc_candidates :: "int \<Rightarrow> nat \<Rightarrow> 'b im_db \<Rightarrow> string list" where
  "gc_candidates now n db = take (2 * n) (firsts (List.map_filter aw_blob_id (filter (\<lambda>a. attachment_due now a \<or>
     list_ex (\<lambda>m. message_key m = attachment_message a \<and> message_due now m) (im_messages db)) (im_attachments db))))"

definition scope_pattern :: "string \<Rightarrow> string \<Rightarrow> string" where
  "scope_pattern tenant app = tenant @ ''/'' @ app @ ''/%''"

text \<open>The source of a checkpoint of a run has expired.\<close>

definition source_due :: "int \<Rightarrow> 'b im_db \<Rightarrow> run_row \<Rightarrow> checkpoint_source_row \<Rightarrow> bool" where
  "source_due now db r s \<longleftrightarrow>
     list_ex (\<lambda>m. message_due now m \<and> sql_like (scope_pattern (mg_tenant_key m) (mg_app_id m)) (rn_session_key r) \<and>
       cites_message (mg_message_id m) (cs_source_ref s)) (im_messages db) \<or>
     list_ex (\<lambda>a. attachment_due now a \<and> sql_like (scope_pattern (aw_tenant_key a) (aw_app_id a)) (rn_session_key r) \<and>
       cs_source_ref s = ''im.attachment:'' @ aw_message_id a @ '':'' @ aw_resource_key a) (im_attachments db)"

definition gc_runs :: "int \<Rightarrow> nat \<Rightarrow> 'b im_db \<Rightarrow> string list" where
  "gc_runs now n db = take n (firsts (map cs_run_id (filter (\<lambda>s. list_ex (\<lambda>r. rn_run_id r = cs_run_id s \<and> source_due now db r s)
     (db_runs (im_runtime db))) (db_checkpoint_sources (im_runtime db)))))"

definition drop_runs_checkpoints :: "(string \<Rightarrow> bool) \<Rightarrow> 'b rt_db \<Rightarrow> 'b rt_db" where
  "drop_runs_checkpoints P rt = rt\<lparr>db_checkpoints := filter (\<lambda>k. \<not> P (cp_run_id k)) (db_checkpoints rt),
     db_checkpoint_sources := filter (\<lambda>s. \<not> P (cs_run_id s)) (db_checkpoint_sources rt)\<rparr>"

definition payload_due :: "int \<Rightarrow> 'b event_row \<Rightarrow> bool" where
  "payload_due now e \<longleftrightarrow> re_payload e \<noteq> None \<and> null_le (re_payload_expires_at_ms e) now"

definition cleared_events :: "int \<Rightarrow> nat \<Rightarrow> 'b rt_db \<Rightarrow> int list" where
  "cleared_events now n rt = take n (sort (map re_event_pk (filter (payload_due now) (db_events rt))))"

definition clear_payloads :: "int list \<Rightarrow> 'b rt_db \<Rightarrow> 'b rt_db" where
  "clear_payloads pks rt = rt\<lparr>db_events := update_where (\<lambda>e. re_event_pk e \<in> set pks) (\<lambda>e. e\<lparr>re_payload := None\<rparr>) (db_events rt)\<rparr>"

definition delete_due_attachments :: "int \<Rightarrow> nat \<Rightarrow> 'b im_db \<Rightarrow> 'b im_db" where
  "delete_due_attachments now n db = db\<lparr>im_attachments :=
     without_keys attachment_key (due_rows n (attachment_due now) (im_attachments db)) (im_attachments db)\<rparr>"

definition delete_due_messages :: "int \<Rightarrow> nat \<Rightarrow> 'b im_db \<Rightarrow> 'b im_db" where
  "delete_due_messages now n db = (let gone = due_rows n (message_due now) (im_messages db) in
     db\<lparr>im_messages := without_keys message_key gone (im_messages db),
        im_attachments := filter (\<lambda>a. attachment_message a \<notin> set (map message_key gone)) (im_attachments db)\<rparr>)"

definition delete_due_artifacts :: "int \<Rightarrow> nat \<Rightarrow> 'b ag_db \<Rightarrow> 'b ag_db" where
  "delete_due_artifacts now n db = db\<lparr>ag_artifacts :=
     without_keys at_artifact_id (due_rows n (\<lambda>a. null_le (at_expires_at_ms a) now) (ag_artifacts db)) (ag_artifacts db)\<rparr>"

definition delete_due_claims :: "int \<Rightarrow> nat \<Rightarrow> 'b rt_db \<Rightarrow> 'b rt_db" where
  "delete_due_claims now n rt = rt\<lparr>db_idempotency :=
     without_keys ik_key (due_rows n (\<lambda>r. ik_expires_at_ms r \<le> now) (db_idempotency rt)) (db_idempotency rt)\<rparr>"

text \<open>\<open>_delete_orphan_scheduler_lanes\<close>\<close>

definition orphan_lane :: "'b task_row list \<Rightarrow> string \<times> string \<Rightarrow> bool" where
  "orphan_lane tasks k \<longleftrightarrow>
     fst k = ''tenant'' \<and> \<not> list_ex (\<lambda>t. tenant_lane t = k) tasks \<or>
     fst k = ''app'' \<and> \<not> list_ex (\<lambda>t. app_lane t = k) tasks \<or>
     fst k = ''group'' \<and> \<not> list_ex (\<lambda>t. group_lane t = Some k) tasks \<or>
     fst k = ''session'' \<and> \<not> list_ex (\<lambda>t. session_lane t = k) tasks"

definition delete_orphan_lanes :: "'b rt_db \<Rightarrow> 'b rt_db" where
  "delete_orphan_lanes rt = rt\<lparr>db_lanes := (\<lambda>k. if orphan_lane (db_tasks rt) k then None else db_lanes rt k)\<rparr>"

record gc_result =
  gc_event_payloads_cleared :: nat
  gc_messages_deleted :: nat
  gc_attachments_deleted :: nat
  gc_artifacts_deleted :: nat
  gc_idempotency_deleted :: nat
  gc_checkpoints_deleted :: nat
  gc_blobs_deleted :: int
  gc_bytes_reclaimed :: int

text \<open>The transaction, with the numbers of rows it changed.\<close>

definition gc_transaction :: "int \<Rightarrow> nat \<Rightarrow> 'b storage \<Rightarrow> gc_result \<times> 'b storage" where
  "gc_transaction now n s =
     (let runs = gc_runs now n (so_mirror s);
          s1 = on_runtime_of (drop_runs_checkpoints (\<lambda>i. i \<in> set runs)) s;
          pks = cleared_events now n (so_runtime s1);
          s2 = on_runtime_of (clear_payloads pks) s1;
          s3 = on_mirror_of (delete_due_attachments now n) s2;
          s4 = on_mirror_of (delete_due_messages now n) s3;
          s5 = on_graphs_of (delete_due_artifacts now n) s4;
          s6 = on_runtime_of (delete_due_claims now n) s5
      in (\<lparr>gc_event_payloads_cleared = length (filter (\<lambda>e. re_event_pk e \<in> set pks) (db_events (so_runtime s1))),
           gc_messages_deleted = length (due_rows n (message_due now) (im_messages (so_mirror s3))),
           gc_attachments_deleted = length (due_rows n (attachment_due now) (im_attachments (so_mirror s2))),
           gc_artifacts_deleted = length (due_rows n (\<lambda>a. null_le (at_expires_at_ms a) now) (ag_artifacts (so_graphs s4))),
           gc_idempotency_deleted = length (due_rows n (\<lambda>r. ik_expires_at_ms r \<le> now) (db_idempotency (so_runtime s5))),
           gc_checkpoints_deleted = length (filter (\<lambda>k. cp_run_id k \<in> set runs) (db_checkpoints (so_runtime s))),
           gc_blobs_deleted = 0, gc_bytes_reclaimed = 0\<rparr>,
          on_runtime_of delete_orphan_lanes s6))"

text \<open>The loop over the blobs; files that are gone stay gone when it raises.\<close>

fun gc_blobs :: "string list \<Rightarrow> int \<times> int \<Rightarrow> ('b storage, int \<times> int) eff" where
  "gc_blobs [] acc s = (Inr acc, s)"
| "gc_blobs (b # bs) (n, bytes) s =
     (if \<not> valid_blob_id b then (Inl invalid_blob, s)
      else if blob_referenced b (so_mirror s) then gc_blobs bs (n, bytes) s
      else (let s1 = on_mirror_of (drop_blob_row b) (unlink_file b s) in
        case file_size b s of
          None \<Rightarrow> gc_blobs bs (n, bytes) s1
        | Some k \<Rightarrow> gc_blobs bs (n + 1, bytes + k) s1))"

definition garbage_collect :: "int \<Rightarrow> int \<Rightarrow> ('b storage, gc_result) eff" where
  "garbage_collect now batch_size s =
     (if batch_size < 1 \<or> 10000 < batch_size then (Inl (ValueError ''gc batch size must be between 1 and 10000''), s)
      else (let n = nat batch_size; candidates = gc_candidates now n (so_mirror s) in
        case gc_transaction now n s of (r, s1) \<Rightarrow>
          (case gc_blobs (take n (sort (remdups (candidates @ take n (map fst (so_files s1)))))) (0, 0) s1 of
             (Inl e, s2) \<Rightarrow> (Inl e, s2\<lparr>so_mirror := so_mirror s1\<rparr>)
           | (Inr (blobs, bytes), s2) \<Rightarrow> (Inr (r\<lparr>gc_blobs_deleted := blobs, gc_bytes_reclaimed := bytes\<rparr>), s2))))"

section \<open>Deleting rows that others refer to\<close>

definition lost :: "('r \<Rightarrow> 'k) \<Rightarrow> 'r list \<Rightarrow> 'r list \<Rightarrow> 'k \<Rightarrow> bool" where
  "lost key old new k \<longleftrightarrow> list_ex (\<lambda>r. key r = k) old \<and> \<not> list_ex (\<lambda>r. key r = k) new"

text \<open>A row refers to one that was deleted; references with \<open>ON DELETE CASCADE\<close> are followed by the deletions themselves.\<close>

definition fk_runtime :: "'b rt_db \<Rightarrow> 'b rt_db \<Rightarrow> bool" where
  "fk_runtime old new \<longleftrightarrow>
     (let event = lost re_event_pk (db_events old) (db_events new); task = lost tk_task_id (db_tasks old) (db_tasks new);
          run = lost rn_run_id (db_runs old) (db_runs new) in
      list_ex (\<lambda>t. case tk_event_pk t of None \<Rightarrow> False | Some pk \<Rightarrow> event pk) (db_tasks new) \<or>
      list_ex (\<lambda>r. task (rn_task_id r)) (db_runs new) \<or>
      list_ex (\<lambda>v. run (rv_run_id v)) (db_run_events new) \<or>
      list_ex (\<lambda>q. case ob_run_id q of None \<Rightarrow> False | Some i \<Rightarrow> run i) (db_outbox new) \<or>
      list_ex (\<lambda>q. case ob_task_id q of None \<Rightarrow> False | Some i \<Rightarrow> task i) (db_outbox new) \<or>
      list_ex (\<lambda>c. event (rc_event_pk c) \<or> task (rc_target_task_id c)) (db_controls new) \<or>
      list_ex (\<lambda>a. task (ap_task_id a)) (db_approvals new))"

definition fk_graphs :: "'b ag_db \<Rightarrow> 'b ag_db \<Rightarrow> bool" where
  "fk_graphs old new \<longleftrightarrow>
     (let node = lost no_node_id (ag_nodes old) (ag_nodes new) in
      list_ex (\<lambda>x. case no_parent_node_id x of None \<Rightarrow> False | Some i \<Rightarrow> node i) (ag_nodes new) \<or>
      list_ex (\<lambda>e. node (ed_predecessor_node_id e) \<or> node (ed_dependent_node_id e)) (ag_edges new) \<or>
      list_ex (\<lambda>m. node (ma_sender_node_id m) \<or> node (ma_recipient_node_id m)) (ag_mailbox new) \<or>
      list_ex (\<lambda>a. node (at_producer_node_id a)) (ag_artifacts new) \<or>
      list_ex (\<lambda>k. node (lk_owner_node_id k)) (ag_locks new) \<or>
      list_ex (\<lambda>g. node (lg_node_id g)) (ag_ledger new))"

definition fk_checked :: "'b storage \<Rightarrow> 'b storage \<Rightarrow> exn + 'b storage" where
  "fk_checked old new = (if fk_runtime (so_runtime old) (so_runtime new) \<or> fk_graphs (so_graphs old) (so_graphs new)
     then Inl (IntegrityError ''FOREIGN KEY constraint failed'') else Inr new)"

text \<open>Statements one after the other, each checked at its end.\<close>

fun statements :: "('b storage \<Rightarrow> 'b storage) list \<Rightarrow> 'b storage \<Rightarrow> exn + 'b storage" where
  "statements [] s = Inr s"
| "statements (f # fs) s = chain (fk_checked s (f s)) (statements fs)"

definition delete_graphs :: "(graph_row \<Rightarrow> bool) \<Rightarrow> 'b ag_db \<Rightarrow> 'b ag_db" where
  "delete_graphs P db = (let graphs = map gr_graph_id (filter P (ag_graphs db));
       nodes = map no_node_id (filter (\<lambda>x. no_graph_id x \<in> set graphs) (ag_nodes db)) in
     \<lparr>ag_graphs = filter (\<lambda>g. \<not> P g) (ag_graphs db),
      ag_nodes = filter (\<lambda>x. no_graph_id x \<notin> set graphs) (ag_nodes db),
      ag_edges = filter (\<lambda>x. ed_graph_id x \<notin> set graphs) (ag_edges db),
      ag_mailbox = filter (\<lambda>x. ma_graph_id x \<notin> set graphs) (ag_mailbox db),
      ag_artifacts = filter (\<lambda>x. at_graph_id x \<notin> set graphs) (ag_artifacts db),
      ag_checkpoints = filter (\<lambda>x. nc_graph_id x \<notin> set graphs \<and> nc_node_id x \<notin> set nodes) (ag_checkpoints db),
      ag_locks = filter (\<lambda>x. lk_graph_id x \<notin> set graphs) (ag_locks db),
      ag_ledger = filter (\<lambda>x. lg_graph_id x \<notin> set graphs) (ag_ledger db)\<rparr>)"

definition delete_controls :: "string list \<Rightarrow> int list \<Rightarrow> 'b rt_db \<Rightarrow> 'b rt_db" where
  "delete_controls tasks events rt = rt\<lparr>db_controls :=
     filter (\<lambda>c. \<not> (rc_target_task_id c \<in> set tasks \<or> rc_event_pk c \<in> set events)) (db_controls rt)\<rparr>"

definition outbox_of :: "string list \<Rightarrow> string list \<Rightarrow> 'b outbox_row \<Rightarrow> bool" where
  "outbox_of tasks runs q \<longleftrightarrow> (case ob_task_id q of None \<Rightarrow> False | Some i \<Rightarrow> i \<in> set tasks) \<or>
     (case ob_run_id q of None \<Rightarrow> False | Some i \<Rightarrow> i \<in> set runs)"

definition delete_outbox :: "string list \<Rightarrow> string list \<Rightarrow> 'b rt_db \<Rightarrow> 'b rt_db" where
  "delete_outbox tasks runs rt = rt\<lparr>db_outbox := filter (\<lambda>q. \<not> outbox_of tasks runs q) (db_outbox rt)\<rparr>"

definition delete_journals :: "string list \<Rightarrow> 'b rt_db \<Rightarrow> 'b rt_db" where
  "delete_journals runs rt = rt\<lparr>db_run_events := filter (\<lambda>v. rv_run_id v \<notin> set runs) (db_run_events rt)\<rparr>"

text \<open>Deleting a run deletes its checkpoint and the sources of it.\<close>

definition delete_runs :: "string list \<Rightarrow> 'b rt_db \<Rightarrow> 'b rt_db" where
  "delete_runs runs rt = drop_runs_checkpoints (\<lambda>i. i \<in> set runs)
     (rt\<lparr>db_runs := filter (\<lambda>r. rn_run_id r \<notin> set runs) (db_runs rt)\<rparr>)"

definition delete_tasks :: "string list \<Rightarrow> 'b rt_db \<Rightarrow> 'b rt_db" where
  "delete_tasks tasks rt = rt\<lparr>db_tasks := filter (\<lambda>t. tk_task_id t \<notin> set tasks) (db_tasks rt)\<rparr>"

definition delete_events :: "int list \<Rightarrow> 'b rt_db \<Rightarrow> 'b rt_db" where
  "delete_events pks rt = rt\<lparr>db_events := filter (\<lambda>e. re_event_pk e \<notin> set pks) (db_events rt)\<rparr>"

definition delete_approvals :: "string list \<Rightarrow> 'b rt_db \<Rightarrow> 'b rt_db" where
  "delete_approvals tasks rt = rt\<lparr>db_approvals := filter (\<lambda>a. ap_task_id a \<notin> set tasks) (db_approvals rt)\<rparr>"

text \<open>Deleting a message deletes its attachments, deleting a chat its messages.\<close>

definition delete_attachments_where :: "('b attachment_row \<Rightarrow> bool) \<Rightarrow> 'b im_db \<Rightarrow> 'b im_db" where
  "delete_attachments_where P db = db\<lparr>im_attachments := filter (\<lambda>a. \<not> P a) (im_attachments db)\<rparr>"

definition delete_messages_where :: "('b message_row \<Rightarrow> bool) \<Rightarrow> 'b im_db \<Rightarrow> 'b im_db" where
  "delete_messages_where P db = (let gone = map message_key (filter P (im_messages db)) in
     delete_attachments_where (\<lambda>a. attachment_message a \<in> set gone)
       (db\<lparr>im_messages := filter (\<lambda>m. \<not> P m) (im_messages db)\<rparr>))"

definition delete_chats_where :: "('b chat_row \<Rightarrow> bool) \<Rightarrow> 'b im_db \<Rightarrow> 'b im_db" where
  "delete_chats_where P db = (let gone = map chat_key (filter P (im_chats db)) in
     delete_messages_where (\<lambda>m. message_chat m \<in> set gone) (db\<lparr>im_chats := filter (\<lambda>c. \<not> P c) (im_chats db)\<rparr>))"

section \<open>Purges\<close>

record purge_plan =
  pp_messages :: "string list"
  pp_tasks :: "string list"
  pp_runs :: "string list"
  pp_events :: "int list"

record purge_result =
  pr_target_kind :: string
  pr_messages_deleted :: nat
  pr_attachments_deleted :: nat
  pr_checkpoints_deleted :: nat
  pr_tasks_deleted :: nat
  pr_runs_deleted :: nat
  pr_outbox_deleted :: nat
  pr_blobs_deleted :: int
  pr_bytes_reclaimed :: int

text \<open>SHA-256, the rendering of the counts, and the time of the audit row.\<close>

record maintenance_env =
  me_sha256 :: "string \<Rightarrow> string"
  me_dumps :: "(string \<times> int) list \<Rightarrow> string"
  me_now_ms :: int

definition runs_of_tasks :: "string list \<Rightarrow> 'b rt_db \<Rightarrow> string list" where
  "runs_of_tasks tasks rt = map rn_run_id (filter (\<lambda>r. rn_task_id r \<in> set tasks) (db_runs rt))"

definition events_of_tasks :: "string list \<Rightarrow> 'b rt_db \<Rightarrow> int list" where
  "events_of_tasks tasks rt = List.map_filter tk_event_pk (filter (\<lambda>t. tk_task_id t \<in> set tasks) (db_tasks rt))"

definition message_plan :: "string \<Rightarrow> string \<Rightarrow> string \<Rightarrow> 'b rt_db \<Rightarrow> purge_plan" where
  "message_plan tenant app i rt =
     (let pks = map re_event_pk (filter (\<lambda>e. re_tenant_key e = tenant \<and> re_app_id e = app \<and> re_resource_kind e = ''im.message'' \<and>
            re_resource_id e = i) (db_events rt));
          tasks = map tk_task_id (filter (\<lambda>t. case tk_event_pk t of None \<Rightarrow> False | Some pk \<Rightarrow> pk \<in> set pks) (db_tasks rt))
      in \<lparr>pp_messages = [i], pp_tasks = tasks, pp_runs = runs_of_tasks tasks rt, pp_events = events_of_tasks tasks rt\<rparr>)"

definition chat_plan :: "string \<Rightarrow> string \<Rightarrow> string \<Rightarrow> 'b im_db \<Rightarrow> purge_plan" where
  "chat_plan tenant app chat db =
     (let rt = im_runtime db;
          tasks = map tk_task_id (filter (\<lambda>t. sql_like (tenant @ ''/'' @ app @ ''/'' @ chat @ ''/%'') (tk_session_key t)) (db_tasks rt))
      in \<lparr>pp_messages = map mg_message_id (filter (\<lambda>m. message_chat m = (tenant, app, chat)) (im_messages db)), pp_tasks = tasks,
        pp_runs = runs_of_tasks tasks rt,
        pp_events = events_of_tasks tasks rt @ map re_event_pk (filter (\<lambda>e. re_tenant_key e = tenant \<and> re_app_id e = app \<and>
          re_resource_kind e = ''im.chat'' \<and> re_resource_id e = chat) (db_events rt))\<rparr>)"

text \<open>The temporary table of message identifiers has a primary key: two applications of a tenant may clash in it.\<close>

definition tenant_plan :: "string \<Rightarrow> 'b im_db \<Rightarrow> exn + purge_plan" where
  "tenant_plan tenant db =
     (let rt = im_runtime db;
          messages = map mg_message_id (filter (\<lambda>m. mg_tenant_key m = tenant) (im_messages db));
          events = map re_event_pk (filter (\<lambda>e. re_tenant_key e = tenant) (db_events rt));
          tasks = map tk_task_id (filter (\<lambda>t. (case tk_event_pk t of None \<Rightarrow> False | Some pk \<Rightarrow> pk \<in> set events) \<or>
            sql_like (tenant @ ''/%'') (tk_session_key t)) (db_tasks rt))
      in if \<not> distinct messages then Inl (IntegrityError ''UNIQUE constraint failed: purge_messages.message_id'')
         else Inr \<lparr>pp_messages = messages, pp_tasks = tasks, pp_runs = runs_of_tasks tasks rt, pp_events = events\<rparr>)"

definition insert_audit :: "maintenance_env \<Rightarrow> string \<Rightarrow> string \<Rightarrow> (string \<times> int) list \<Rightarrow> 'b storage \<Rightarrow> 'b storage" where
  "insert_audit env kind digest numbers s = s\<lparr>so_audit := so_audit s @ [\<lparr>au_operation = ''purge'', au_target_kind = kind,
     au_target_digest = digest, au_result_counts = me_dumps env numbers, au_created_at_ms = me_now_ms env\<rparr>]\<rparr>"

definition checkpoint_purged :: "purge_plan \<Rightarrow> 'b rt_db \<Rightarrow> string \<Rightarrow> bool" where
  "checkpoint_purged p rt i \<longleftrightarrow> i \<in> set (pp_runs p) \<or>
     list_ex (\<lambda>s. cs_run_id s = i \<and> list_ex (\<lambda>m. cites_message m (cs_source_ref s)) (pp_messages p)) (db_checkpoint_sources rt)"

definition plan_message :: "string \<Rightarrow> string \<Rightarrow> purge_plan \<Rightarrow> im_key \<Rightarrow> bool" where
  "plan_message tenant app p k \<longleftrightarrow> fst k = tenant \<and> fst (snd k) = app \<and> snd (snd k) \<in> set (pp_messages p)"

text \<open>The statements of \<open>_purge\<close>, in order; \<open>chats\<close> are those that go.\<close>

definition purge_statements ::
  "string \<Rightarrow> string \<Rightarrow> purge_plan \<Rightarrow> ('b chat_row \<Rightarrow> bool) \<Rightarrow> 'b rt_db \<Rightarrow> ('b storage \<Rightarrow> 'b storage) list" where
  "purge_statements tenant app p chats rt =
     [on_runtime_of (drop_runs_checkpoints (checkpoint_purged p rt)),
      on_runtime_of (delete_controls (pp_tasks p) (pp_events p)),
      on_runtime_of (delete_outbox (pp_tasks p) (pp_runs p)),
      on_runtime_of (delete_journals (pp_runs p)),
      on_graphs_of (delete_graphs (\<lambda>g. gr_root_run_id g \<in> set (pp_runs p))),
      on_runtime_of (delete_runs (pp_runs p)),
      on_runtime_of (delete_tasks (pp_tasks p)),
      on_runtime_of (delete_events (pp_events p)),
      on_mirror_of (delete_attachments_where (\<lambda>a. plan_message tenant app p (attachment_message a))),
      on_mirror_of (delete_messages_where (\<lambda>m. plan_message tenant app p (message_key m))),
      on_mirror_of (delete_chats_where chats)]"

definition purge_counts :: "string \<Rightarrow> string \<Rightarrow> string \<Rightarrow> purge_plan \<Rightarrow> 'b storage \<Rightarrow> purge_result" where
  "purge_counts kind tenant app p s = (let rt = so_runtime s; db = so_mirror s in
     \<lparr>pr_target_kind = kind,
      pr_messages_deleted = length (filter (\<lambda>m. plan_message tenant app p (message_key m)) (im_messages db)),
      pr_attachments_deleted = length (filter (\<lambda>a. plan_message tenant app p (attachment_message a)) (im_attachments db)),
      pr_checkpoints_deleted = length (filter (\<lambda>k. checkpoint_purged p rt (cp_run_id k)) (db_checkpoints rt)),
      pr_tasks_deleted = length (filter (\<lambda>t. tk_task_id t \<in> set (pp_tasks p)) (db_tasks rt)),
      pr_runs_deleted = length (filter (\<lambda>r. rn_run_id r \<in> set (pp_runs p)) (db_runs rt)),
      pr_outbox_deleted = length (filter (outbox_of (pp_tasks p) (pp_runs p)) (db_outbox rt)),
      pr_blobs_deleted = 0, pr_bytes_reclaimed = 0\<rparr>)"

definition count_list :: "purge_result \<Rightarrow> nat \<Rightarrow> (string \<times> int) list" where
  "count_list r blobs = [(''messages'', int (pr_messages_deleted r)), (''attachments'', int (pr_attachments_deleted r)),
     (''checkpoints'', int (pr_checkpoints_deleted r)), (''tasks'', int (pr_tasks_deleted r)), (''runs'', int (pr_runs_deleted r)),
     (''outbox'', int (pr_outbox_deleted r)), (''blobs'', int blobs)]"

text \<open>\<open>_drop_blob_metadata\<close> is the loop of the repository over the mirror.\<close>

definition drop_blobs :: "string list \<Rightarrow> 'b storage \<Rightarrow> string list \<times> 'b storage" where
  "drop_blobs candidates s = (case drop_unreferenced_blobs candidates (so_mirror s) of (gone, db) \<Rightarrow> (gone, s\<lparr>so_mirror := db\<rparr>))"

definition purge_transaction ::
  "maintenance_env \<Rightarrow> string \<Rightarrow> string \<Rightarrow> string \<Rightarrow> string \<Rightarrow> purge_plan \<Rightarrow> ('b chat_row \<Rightarrow> bool) \<Rightarrow>
     ('b storage, purge_result \<times> string list) tx" where
  "purge_transaction env kind tenant app resource p chats s =
     chain (statements (purge_statements tenant app p chats (so_runtime s)) s) (\<lambda>s1.
     case drop_blobs (blob_ids_of (\<lambda>a. plan_message tenant app p (attachment_message a)) (so_mirror s)) s1 of (gone, s2) \<Rightarrow>
       let r = purge_counts kind tenant app p s in
       Inr ((r, gone), on_runtime_of delete_orphan_lanes
         (insert_audit env kind (me_sha256 env (tenant @ '':'' @ app @ '':'' @ resource)) (count_list r (length gone)) s2)))"

text \<open>\<open>_purge\<close>: the files go after the commit.\<close>

definition purge_target ::
  "maintenance_env \<Rightarrow> string \<Rightarrow> string \<Rightarrow> string \<Rightarrow> string \<Rightarrow> bool \<Rightarrow> purge_plan \<Rightarrow> ('b chat_row \<Rightarrow> bool) \<Rightarrow>
     ('b storage, purge_result) eff" where
  "purge_target env kind tenant app resource present p chats s =
     (if list_ex blank [tenant, app, resource] then (Inl (ValueError ''purge target identifiers are required''), s)
      else if \<not> present then (Inl (LookupError (''exact '' @ kind @ '' purge target does not exist'')), s)
      else case transaction (purge_transaction env kind tenant app resource p chats) s of
        (Inl e, s1) \<Rightarrow> (Inl e, s1)
      | (Inr (r, gone), s1) \<Rightarrow> (case delete_files False gone (0, 0) s1 of
          (Inl e, s2) \<Rightarrow> (Inl e, s2)
        | (Inr (blobs, bytes), s2) \<Rightarrow> (Inr (r\<lparr>pr_blobs_deleted := blobs, pr_bytes_reclaimed := bytes\<rparr>), s2)))"

definition purge_message :: "maintenance_env \<Rightarrow> string \<Rightarrow> string \<Rightarrow> string \<Rightarrow> ('b storage, purge_result) eff" where
  "purge_message env tenant app i s = purge_target env ''message'' tenant app i
     (list_ex (\<lambda>m. message_key m = (tenant, app, i)) (im_messages (so_mirror s)))
     (message_plan tenant app i (so_runtime s)) (\<lambda>c. False) s"

definition purge_chat :: "maintenance_env \<Rightarrow> string \<Rightarrow> string \<Rightarrow> string \<Rightarrow> ('b storage, purge_result) eff" where
  "purge_chat env tenant app chat s = purge_target env ''chat'' tenant app chat
     (list_ex (\<lambda>c. chat_key c = (tenant, app, chat)) (im_chats (so_mirror s)))
     (chat_plan tenant app chat (so_mirror s)) (\<lambda>c. chat_key c = (tenant, app, chat)) s"

text \<open>\<open>purge_tenant\<close>: the references are checked when the transaction commits.\<close>

definition tenant_exists :: "string \<Rightarrow> 'b storage \<Rightarrow> bool" where
  "tenant_exists tenant s \<longleftrightarrow> list_ex (\<lambda>c. ch_tenant_key c = tenant) (im_chats (so_mirror s)) \<or>
     list_ex (\<lambda>e. re_tenant_key e = tenant) (db_events (so_runtime s)) \<or>
     list_ex (\<lambda>g. gr_tenant_key g = tenant) (ag_graphs (so_graphs s)) \<or>
     list_ex (\<lambda>t. sql_like (tenant @ ''/%'') (tk_session_key t)) (db_tasks (so_runtime s))"

definition delete_claims_of_runs :: "string list \<Rightarrow> 'b rt_db \<Rightarrow> 'b rt_db" where
  "delete_claims_of_runs runs rt = rt\<lparr>db_idempotency :=
     filter (\<lambda>r. \<not> list_ex (\<lambda>i. sql_like (i @ '':%'') (ik_owner r)) runs) (db_idempotency rt)\<rparr>"

definition tenant_statements :: "string \<Rightarrow> purge_plan \<Rightarrow> ('b storage \<Rightarrow> 'b storage) list" where
  "tenant_statements tenant p =
     [on_runtime_of (delete_approvals (pp_tasks p)),
      on_runtime_of (delete_controls (pp_tasks p) (pp_events p)),
      on_runtime_of (delete_outbox (pp_tasks p) (pp_runs p)),
      on_runtime_of (delete_claims_of_runs (pp_runs p)),
      on_runtime_of (delete_journals (pp_runs p)),
      on_runtime_of (drop_runs_checkpoints (\<lambda>i. i \<in> set (pp_runs p))),
      on_graphs_of (delete_graphs (\<lambda>g. gr_tenant_key g = tenant)),
      on_runtime_of (delete_runs (pp_runs p)),
      on_runtime_of (delete_tasks (pp_tasks p)),
      on_runtime_of (delete_events (pp_events p)),
      on_mirror_of (delete_attachments_where (\<lambda>a. aw_tenant_key a = tenant)),
      on_mirror_of (delete_messages_where (\<lambda>m. mg_tenant_key m = tenant)),
      on_mirror_of (delete_chats_where (\<lambda>c. ch_tenant_key c = tenant))]"

definition tenant_counts :: "string \<Rightarrow> purge_plan \<Rightarrow> 'b storage \<Rightarrow> purge_result" where
  "tenant_counts tenant p s =
     \<lparr>pr_target_kind = ''tenant'', pr_messages_deleted = length (pp_messages p),
      pr_attachments_deleted = length (filter (\<lambda>a. aw_tenant_key a = tenant) (im_attachments (so_mirror s))),
      pr_checkpoints_deleted = length (filter (\<lambda>k. cp_run_id k \<in> set (pp_runs p)) (db_checkpoints (so_runtime s))),
      pr_tasks_deleted = length (pp_tasks p), pr_runs_deleted = length (pp_runs p),
      pr_outbox_deleted = length (filter (outbox_of (pp_tasks p) (pp_runs p)) (db_outbox (so_runtime s))),
      pr_blobs_deleted = 0, pr_bytes_reclaimed = 0\<rparr>"

definition tenant_transaction :: "maintenance_env \<Rightarrow> string \<Rightarrow> ('b storage, purge_result \<times> string list) tx" where
  "tenant_transaction env tenant s =
     chain (tenant_plan tenant (so_mirror s)) (\<lambda>p. let r = tenant_counts tenant p s in
     case drop_blobs (blob_ids_of (\<lambda>a. aw_tenant_key a = tenant) (so_mirror s)) (fold (\<lambda>f. f) (tenant_statements tenant p) s) of
       (gone, s1) \<Rightarrow> chain (fk_checked s (on_runtime_of delete_orphan_lanes
           (insert_audit env ''tenant'' (me_sha256 env tenant) (count_list r (length gone)) s1))) (\<lambda>s2.
         Inr ((r, gone), s2)))"

definition purge_tenant :: "maintenance_env \<Rightarrow> string \<Rightarrow> ('b storage, purge_result) eff" where
  "purge_tenant env tenant s =
     (if blank tenant then (Inl (ValueError ''tenant purge target is required''), s)
      else if \<not> tenant_exists tenant s then (Inl (LookupError ''exact tenant purge target does not exist''), s)
      else case transaction (tenant_transaction env tenant) s of
        (Inl e, s1) \<Rightarrow> (Inl e, s1)
      | (Inr (r, gone), s1) \<Rightarrow> (case delete_files True gone (0, 0) s1 of
          (Inl e, s2) \<Rightarrow> (Inl e, s2)
        | (Inr (blobs, bytes), s2) \<Rightarrow> (Inr (r\<lparr>pr_blobs_deleted := blobs, pr_bytes_reclaimed := bytes\<rparr>), s2)))"

text \<open>
  \<open>purge_all\<close>: every table but the schema's own; the counter of event keys goes on. \<open>lanes\<close> is the number of rows that the map of
  the lanes stands for; the table of the plugins is written by no code.
\<close>

definition table_counts :: "int \<Rightarrow> 'b storage \<Rightarrow> (string \<times> int) list" where
  "table_counts lanes s = (let rt = so_runtime s; ag = so_graphs s; db = so_mirror s in
     [(''runtime_plugins'', 0), (''runtime_events'', int (length (db_events rt))), (''runtime_tasks'', int (length (db_tasks rt))),
      (''runtime_runs'', int (length (db_runs rt))), (''runtime_run_events'', int (length (db_run_events rt))),
      (''runtime_outbox'', int (length (db_outbox rt))), (''runtime_idempotency'', int (length (db_idempotency rt))),
      (''runtime_checkpoints'', int (length (db_checkpoints rt))), (''runtime_graphs'', int (length (ag_graphs ag))),
      (''runtime_agent_nodes'', int (length (ag_nodes ag))), (''runtime_agent_edges'', int (length (ag_edges ag))),
      (''runtime_mailbox'', int (length (ag_mailbox ag))), (''runtime_artifacts'', int (length (ag_artifacts ag))),
      (''runtime_agent_checkpoints'', int (length (ag_checkpoints ag))), (''runtime_resource_locks'', int (length (ag_locks ag))),
      (''runtime_budget_ledger'', int (length (ag_ledger ag))), (''runtime_run_controls'', int (length (db_controls rt))),
      (''runtime_checkpoint_sources'', int (length (db_checkpoint_sources rt))),
      (''runtime_approvals'', int (length (db_approvals rt))), (''runtime_scheduler_lanes'', lanes),
      (''im_chats'', int (length (im_chats db))), (''im_messages'', int (length (im_messages db))),
      (''im_attachments'', int (length (im_attachments db))), (''im_file_blobs'', int (length (im_file_blobs db)))])"

definition emptied :: "'b storage \<Rightarrow> 'b storage" where
  "emptied s = s\<lparr>so_mirror := empty_im_db\<lparr>im_runtime := empty_db\<lparr>db_event_seq := db_event_seq (so_runtime s)\<rparr>\<rparr>,
     so_graphs := empty_graph_db, so_audit := []\<rparr>"

definition purge_all :: "maintenance_env \<Rightarrow> int \<Rightarrow> ('b storage, purge_result) eff" where
  "purge_all env lanes s =
     (if list_ex (\<lambda>f. \<not> valid_blob_id (fst f)) (so_files s) then (Inl invalid_blob, s)
      else (Inr \<lparr>pr_target_kind = ''all'', pr_messages_deleted = length (im_messages (so_mirror s)),
          pr_attachments_deleted = length (im_attachments (so_mirror s)),
          pr_checkpoints_deleted = length (db_checkpoints (so_runtime s)) + length (ag_checkpoints (so_graphs s)),
          pr_tasks_deleted = length (db_tasks (so_runtime s)), pr_runs_deleted = length (db_runs (so_runtime s)),
          pr_outbox_deleted = length (db_outbox (so_runtime s)), pr_blobs_deleted = int (length (so_files s)),
          pr_bytes_reclaimed = sum_list (map snd (so_files s))\<rparr>,
        (insert_audit env ''all'' (me_sha256 env ''all-business-data-v1'')
          (table_counts lanes s @ [(''blobs'', int (length (so_files s)))]) (emptied s))\<lparr>so_files := []\<rparr>))"

section \<open>Status\<close>

text \<open>\<open>_state_counts\<close>, \<open>_sum_attempts\<close>, \<open>_oldest_pending_age\<close> and \<open>_referenced_blob_ids\<close>, the queries of
  \<open>status\<close>; the answer of the first is a dictionary, whose order is not used.\<close>

definition state_counts :: "('r \<Rightarrow> 's) \<Rightarrow> 'r list \<Rightarrow> ('s \<times> nat) list" where
  "state_counts state rows = map (\<lambda>x. (x, length (filter (\<lambda>r. state r = x) rows))) (firsts (map state rows))"

definition sum_attempts :: "('r \<Rightarrow> int) \<Rightarrow> 'r list \<Rightarrow> int" where
  "sum_attempts attempts rows = sum_list (map attempts rows)"

definition oldest_pending_age :: "('r \<Rightarrow> bool) \<Rightarrow> ('r \<Rightarrow> int) \<Rightarrow> int \<Rightarrow> 'r list \<Rightarrow> int" where
  "oldest_pending_age pending created now rows = (case map created (filter pending rows) of
     [] \<Rightarrow> 0 | t # ts \<Rightarrow> max 0 (now - fold min ts t))"

definition referenced_blob_ids :: "'b im_db \<Rightarrow> exn + string list" where
  "referenced_blob_ids db = (let ids = sort (blob_ids_of (\<lambda>a. True) db) in
     if list_ex (\<lambda>b. \<not> valid_blob_id b) ids then Inl (RuntimeError ''database contains an invalid blob identifier'') else Inr ids)"

end
