(* ===== verification/MaintenanceProps.thy ===== *)
theory MaintenanceProps
  imports Maintenance IMProps
begin

text \<open>
  Maintenance keeps the invariants of the runtime and of the mirror, never removes the file of a blob that an attachment
  refers to, and a purge leaves nothing of its target.
\<close>

section \<open>The runtime with fewer rows\<close>

definition sublist_of :: "'r list \<Rightarrow> 'r list \<Rightarrow> bool" where
  "sublist_of new old \<longleftrightarrow> (\<exists>P. new = filter P old)"

lemma sublist_refl: "sublist_of xs xs"
  unfolding sublist_of_def by (rule exI [of _ "\<lambda>x. True"]) simp

lemma sublist_filter: "sublist_of (filter P xs) xs"
  by (auto simp: sublist_of_def)

lemma sublist_trans:
  assumes "sublist_of zs ys" "sublist_of ys xs"
  shows "sublist_of zs xs"
proof -
  obtain P Q where "zs = filter P ys" "ys = filter Q xs" using assms by (auto simp: sublist_of_def)
  then have "zs = filter (\<lambda>x. Q x \<and> P x) xs" by simp
  then show ?thesis by (auto simp: sublist_of_def)
qed

lemma sublist_set: "sublist_of ys xs \<Longrightarrow> set ys \<subseteq> set xs"
  by (auto simp: sublist_of_def)

lemma sublist_distinct: "sublist_of ys xs \<Longrightarrow> distinct (map k xs) \<Longrightarrow> distinct (map k ys)"
  by (auto simp: sublist_of_def distinct_map_filter)

lemma sublist_count: "sublist_of ys xs \<Longrightarrow> count_where Q ys \<le> count_where Q xs"
proof -
  assume "sublist_of ys xs"
  then obtain P where ys: "ys = filter P xs" by (auto simp: sublist_of_def)
  show ?thesis unfolding ys by (induction xs) auto
qed

text \<open>Every table keeps some of its rows; a journal is kept or dropped as a whole.\<close>

definition shrunk :: "'b rt_db \<Rightarrow> 'b rt_db \<Rightarrow> bool" where
  "shrunk old new \<longleftrightarrow> sublist_of (db_tasks new) (db_tasks old) \<and> sublist_of (db_events new) (db_events old) \<and>
     sublist_of (db_runs new) (db_runs old) \<and> sublist_of (db_outbox new) (db_outbox old) \<and>
     sublist_of (db_idempotency new) (db_idempotency old) \<and> sublist_of (db_approvals new) (db_approvals old) \<and>
     sublist_of (db_controls new) (db_controls old) \<and> sublist_of (db_checkpoints new) (db_checkpoints old) \<and>
     (\<exists>P. db_run_events new = filter (\<lambda>v. P (rv_run_id v)) (db_run_events old)) \<and>
     db_event_seq new = db_event_seq old \<and> db_next_sequence new = db_next_sequence old \<and> db_lanes new \<subseteq>\<^sub>m db_lanes old"

lemma shrunk_refl: "shrunk rt rt"
  by (simp add: shrunk_def sublist_refl) (rule exI [of _ "\<lambda>i. True"], simp)

lemma shrunk_trans:
  assumes "shrunk a b" "shrunk b c"
  shows "shrunk a c"
proof -
  obtain P Q where "db_run_events b = filter (\<lambda>v. P (rv_run_id v)) (db_run_events a)"
    "db_run_events c = filter (\<lambda>v. Q (rv_run_id v)) (db_run_events b)"
    using assms by (auto simp: shrunk_def)
  then have "\<exists>R. db_run_events c = filter (\<lambda>v. R (rv_run_id v)) (db_run_events a)"
    by (intro exI [of _ "\<lambda>i. P i \<and> Q i"]) simp
  with assms show ?thesis unfolding shrunk_def by (auto intro: sublist_trans map_le_trans)
qed

lemma not_lost:
  assumes "\<not> lost key old new k" "k \<in> key ` set old"
  shows "k \<in> key ` set new"
proof -
  have "\<exists>r \<in> set old. key r = k" using assms(2) by blast
  with assms(1) have "\<exists>r \<in> set new. key r = k" by (auto simp: lost_def list_ex_iff)
  then show ?thesis by blast
qed

lemma shrunk_queue:
  assumes "queue_ok now old" "shrunk old new"
  shows "queue_ok now new"
proof (rule queue_okI)
  have sub: "sublist_of (db_tasks new) (db_tasks old)" using assms(2) by (simp add: shrunk_def)
  show "distinct (map tk_task_id (db_tasks new))" using assms(1) sublist_distinct [OF sub, of tk_task_id] by (simp add: queue_ok_def)
  show "\<forall>t \<in> set (db_tasks new). task_row_ok t" using assms(1) sublist_set [OF sub] by (auto simp: queue_ok_def)
  show "session_live now s (db_tasks new) \<le> 1" for s
  proof -
    have "session_live now s (db_tasks new) \<le> session_live now s (db_tasks old)"
      using sublist_count [OF sub] by (simp add: session_live_def live_count_def)
    also have "\<dots> \<le> 1" using assms(1) by (simp add: queue_ok_def)
    finally show ?thesis .
  qed
qed

lemma shrunk_events:
  assumes "events_ok old" "shrunk old new" "\<not> fk_runtime old new"
  shows "events_ok new"
proof -
  have sub: "sublist_of (db_events new) (db_events old)" "set (db_tasks new) \<subseteq> set (db_tasks old)" "db_event_seq new = db_event_seq old"
    using assms(2) sublist_set by (auto simp: shrunk_def)
  note old = events_okD [OF assms(1)]
  have bound: "n \<in> re_event_pk ` set (db_events new)" if binding: "(i, Some n) \<in> set (map task_binding (db_tasks new))" for i n
  proof -
    obtain t where t: "t \<in> set (db_tasks new)" "tk_event_pk t = Some n"
      using binding by (force simp: task_binding_def)
    then have "(tk_task_id t, Some n) \<in> set (map task_binding (db_tasks old))" using sub(2) binding_mem by blast
    then have "n \<in> re_event_pk ` set (db_events old)" using old(4) by (auto simp: bindings_ok_def)
    moreover have "\<not> lost re_event_pk (db_events old) (db_events new) n"
      using assms(3) t by (auto simp: fk_runtime_def Let_def list_ex_iff split: option.splits)
    ultimately show ?thesis using not_lost by metis
  qed
  have unique: "i = j" if "(i, Some n) \<in> set (map task_binding (db_tasks new))" "(j, Some n) \<in> set (map task_binding (db_tasks new))" for i j n
  proof -
    have "set (map task_binding (db_tasks new)) \<subseteq> set (map task_binding (db_tasks old))" using sub(2) by auto
    then have "(i, Some n) \<in> set (map task_binding (db_tasks old))" "(j, Some n) \<in> set (map task_binding (db_tasks old))"
      using that by blast+
    then show ?thesis using old(4) unfolding bindings_ok_def by blast
  qed
  have "bindings_ok (re_event_pk ` set (db_events new)) (map task_binding (db_tasks new))"
    using bound unique by (simp add: bindings_ok_def)
  moreover have "distinct (map event_key (db_events new))" "distinct (map re_event_pk (db_events new))"
    using old(1,2) sublist_distinct [OF sub(1)] by blast+
  moreover have "\<forall>e \<in> set (db_events new). re_event_pk e \<le> db_event_seq new"
    using old(3) sublist_set [OF sub(1)] sub(3) by auto
  ultimately show ?thesis by (simp add: events_ok_def)
qed

lemma shrunk_sessions:
  assumes "sessions_ok old" "shrunk old new" "\<not> fk_runtime old new"
  shows "sessions_ok new"
proof -
  have sub: "sublist_of (db_runs new) (db_runs old)" "sublist_of (db_checkpoints new) (db_checkpoints old)" using assms(2) by (auto simp: shrunk_def)
  obtain P where journal: "db_run_events new = filter (\<lambda>v. P (rv_run_id v)) (db_run_events old)" using assms(2) by (auto simp: shrunk_def)
  have distinct: "distinct (map rn_run_id (db_runs old))" "distinct (map rn_run_id (db_runs new))"
    using assms(1) sublist_distinct [OF sub(1), of rn_run_id] by (simp_all add: sessions_ok_def)
  have "run_ok i new" for i
  proof -
    have old: "run_ok i old" using assms(1) by (simp add: sessions_ok_def)
    have events: "run_events i new = (if P i then run_events i old else [])"
    proof (cases "P i")
      case True
      then show ?thesis by (auto simp: run_events_def journal intro: filter_cong)
    next
      case False
      then show ?thesis by (auto simp: run_events_def journal filter_empty_conv)
    qed
    show ?thesis
    proof (cases "run_events i new = []")
      case True
      then show ?thesis by (simp add: run_ok_def terminal_rows_def numbered_def)
    next
      case False
      with events have same: "run_events i new = run_events i old" by (simp split: if_splits)
      then have "find_run i old \<noteq> None" using old False by (auto simp: run_ok_def)
      then have "i \<in> rn_run_id ` set (db_runs old)" by (auto simp: find_run_def find_None)
      moreover obtain v where "v \<in> set (db_run_events new)" "rv_run_id v = i"
        using False by (auto simp: run_events_def filter_empty_conv)
      then have "\<not> lost rn_run_id (db_runs old) (db_runs new) i"
        using assms(3) by (auto simp: fk_runtime_def Let_def list_ex_iff)
      ultimately obtain r where r: "r \<in> set (db_runs new)" "rn_run_id r = i" using not_lost by (metis imageE)
      then have "find_run i new = Some r" "find_run i old = Some r"
        using find_key [OF distinct(2) r] find_key [OF distinct(1), of r i] sublist_set [OF sub(1)] by (auto simp: find_run_def)
      then show ?thesis using old same by (simp add: run_ok_def terminal_rows_def)
    qed
  qed
  moreover have "distinct (map cp_run_id (db_checkpoints new))"
    using assms(1) sublist_distinct [OF sub(2), of cp_run_id] by (simp add: sessions_ok_def)
  ultimately show ?thesis using distinct(2) by (simp add: sessions_ok_def)
qed

lemma shrunk_ok:
  assumes "runtime_ok now old" "shrunk old new" "\<not> fk_runtime old new"
  shows "runtime_ok now new"
proof -
  note old = runtime_okD [OF assms(1)]
  have "outbox_ok new"
    using old(2) assms(2) sublist_distinct sublist_set unfolding outbox_ok_def shrunk_def by blast
  moreover have "claims_ok new"
    using old(5) assms(2) sublist_distinct sublist_set unfolding claims_ok_def shrunk_def by blast
  moreover have "approvals_ok new"
    using old(6) assms(2) sublist_distinct sublist_set unfolding approvals_ok_def shrunk_def by blast
  moreover have "lanes_ok new"
  proof -
    have le: "db_lanes new \<subseteq>\<^sub>m db_lanes old" "db_next_sequence new = db_next_sequence old" using assms(2) by (simp_all add: shrunk_def)
    have "db_lanes old k = Some l" if "db_lanes new k = Some l" for k l
      using le(1) that by (metis domI map_le_def)
    note sub = this
    show ?thesis unfolding lanes_ok_def le(2)
    proof (intro conjI allI impI)
      show "0 \<le> db_next_sequence old" using old(3) by (simp add: lanes_ok_def)
      show "0 < ln_last_served_sequence l" "ln_last_served_sequence l \<le> db_next_sequence old" if "db_lanes new k = Some l" for k l
        using old(3) sub [OF that] unfolding lanes_ok_def by blast+
      show "x = y" if "db_lanes new (''tenant'', x) = Some l" "db_lanes new (''tenant'', y) = Some m"
          "ln_last_served_sequence l = ln_last_served_sequence m" for x y l m
        using old(3) sub [OF that(1)] sub [OF that(2)] that(3) unfolding lanes_ok_def by blast
    qed
  qed
  ultimately show ?thesis
    using shrunk_queue [OF old(1) assms(2)] shrunk_events [OF old(4) assms(2,3)] shrunk_sessions [OF old(7) assms(2,3)]
    by (simp add: runtime_ok_def)
qed

end
