(* ===== verification/MaintenanceInv.thy ===== *)
theory MaintenanceInv
  imports MaintenanceProps
begin

text \<open>
  The storage as a machine: collections, purges and everything the process itself does to its database keep the invariants of
  the runtime and of the mirror, and no file goes that an attachment refers to.
\<close>

section \<open>The mirror with fewer rows\<close>

lemma delete_attachments_where_ok: "mirror_ok db \<Longrightarrow> mirror_ok (delete_attachments_where P db)"
  by (auto simp: mirror_ok_def chats_ok_def attachments_ok_def blobs_ok_def delete_attachments_where_def distinct_map_filter)

lemma delete_messages_where_ok:
  assumes "mirror_ok db"
  shows "mirror_ok (delete_messages_where P db)"
proof -
  have chats: "chats_ok db" and atts: "attachments_ok db" and blobs: "blobs_ok db" using assms by (simp_all add: mirror_ok_def)
  let ?db = "delete_messages_where P db"
  have "attachment_message a \<in> message_key ` set (im_messages ?db)" if a: "a \<in> set (im_attachments ?db)" for a
  proof -
    have "a \<in> set (im_attachments db)" and gone: "attachment_message a \<notin> message_key ` {m \<in> set (im_messages db). P m}"
      using a by (auto simp: delete_messages_where_def delete_attachments_where_def Let_def)
    then obtain m where "m \<in> set (im_messages db)" "message_key m = attachment_message a"
      using atts by (fastforce simp: attachments_ok_def)
    with gone show ?thesis by (force simp: delete_messages_where_def delete_attachments_where_def Let_def)
  qed
  then have "attachments_ok ?db"
    using atts by (auto simp: attachments_ok_def delete_messages_where_def delete_attachments_where_def Let_def distinct_map_filter)
  moreover have "chats_ok ?db"
    using chats by (auto simp: chats_ok_def delete_messages_where_def delete_attachments_where_def Let_def)
  moreover have "blobs_ok ?db"
    using blobs by (rule blobs_ok_mono) (auto simp: delete_messages_where_def delete_attachments_where_def Let_def)
  ultimately show ?thesis by (simp add: mirror_ok_def)
qed

text \<open>Without the rows of a chat's messages the chat itself can go.\<close>

lemma delete_chats_as_messages:
  "delete_chats_where P db = (delete_messages_where (\<lambda>m. message_chat m \<in> set (map chat_key (filter P (im_chats db)))) db)
     \<lparr>im_chats := filter (\<lambda>c. \<not> P c) (im_chats db)\<rparr>"
  by (simp add: delete_chats_where_def delete_messages_where_def delete_attachments_where_def Let_def)

lemma delete_chats_where_ok:
  assumes "mirror_ok db"
  shows "mirror_ok (delete_chats_where P db)"
proof -
  let ?gone = "chat_key ` {c \<in> set (im_chats db). P c}"
  let ?mid = "delete_messages_where (\<lambda>m. message_chat m \<in> set (map chat_key (filter P (im_chats db)))) db"
  have mid: "mirror_ok ?mid" using assms by (rule delete_messages_where_ok)
  have frames: "im_chats ?mid = im_chats db" "set (im_messages ?mid) = {m \<in> set (im_messages db). message_chat m \<notin> ?gone}"
    by (auto simp: delete_messages_where_def delete_attachments_where_def Let_def)
  have "message_chat m \<in> chat_key ` {c \<in> set (im_chats db). \<not> P c}" if m: "m \<in> set (im_messages ?mid)" for m
  proof -
    have "message_chat m \<in> chat_key ` set (im_chats db)" "message_chat m \<notin> ?gone"
      using mid m frames by (auto simp: mirror_ok_def chats_ok_def)
    then show ?thesis by blast
  qed
  with mid frames(1) show ?thesis
    by (auto simp: delete_chats_as_messages mirror_ok_def chats_ok_def attachments_ok_def blobs_ok_def distinct_map_filter)
qed

lemma without_keys_set: "set (without_keys key gone rows) = {r \<in> set rows. key r \<notin> key ` set gone}"
  by (auto simp: without_keys_def)

lemma delete_due_messages_as: "delete_due_messages now n db =
    delete_messages_where (\<lambda>m. message_key m \<in> set (map message_key (due_rows n (message_due now) (im_messages db)))) db"
proof -
  let ?gone = "due_rows n (message_due now) (im_messages db)"
  have "set ?gone \<subseteq> set (im_messages db)" by (auto simp: due_rows_def dest: in_set_takeD)
  then have keys: "set (map message_key (filter (\<lambda>m. message_key m \<in> set (map message_key ?gone)) (im_messages db)))
      = set (map message_key ?gone)" by auto
  show ?thesis unfolding delete_due_messages_def delete_messages_where_def delete_attachments_where_def Let_def keys without_keys_def
    by simp
qed

lemma delete_due_attachments_as: "delete_due_attachments now n db = delete_attachments_where
    (\<lambda>a. attachment_key a \<in> set (map attachment_key (due_rows n (attachment_due now) (im_attachments db)))) db"
  by (simp add: delete_due_attachments_def delete_attachments_where_def without_keys_def)

named_theorems mirror_deletion \<open>what the deletions leave of the mirror\<close>

lemma delete_attachments_where_frame [mirror_deletion]:
  "im_runtime (delete_attachments_where P db) = im_runtime db" "im_chats (delete_attachments_where P db) = im_chats db"
  "im_messages (delete_attachments_where P db) = im_messages db" "im_file_blobs (delete_attachments_where P db) = im_file_blobs db"
  "set (im_attachments (delete_attachments_where P db)) = {a \<in> set (im_attachments db). \<not> P a}"
  by (auto simp: delete_attachments_where_def)

lemma delete_messages_where_frame [mirror_deletion]:
  "im_runtime (delete_messages_where P db) = im_runtime db" "im_chats (delete_messages_where P db) = im_chats db"
  "set (im_messages (delete_messages_where P db)) = {m \<in> set (im_messages db). \<not> P m}"
  "im_file_blobs (delete_messages_where P db) = im_file_blobs db"
  "set (im_attachments (delete_messages_where P db)) =
     {a \<in> set (im_attachments db). attachment_message a \<notin> message_key ` {m \<in> set (im_messages db). P m}}"
  by (auto simp: delete_messages_where_def Let_def delete_attachments_where_def)

lemma delete_chats_where_frame [mirror_deletion]:
  "im_runtime (delete_chats_where P db) = im_runtime db"
  "set (im_chats (delete_chats_where P db)) = {c \<in> set (im_chats db). \<not> P c}"
  "set (im_messages (delete_chats_where P db)) =
     {m \<in> set (im_messages db). message_chat m \<notin> chat_key ` {c \<in> set (im_chats db). P c}}"
  "set (im_attachments (delete_chats_where P db)) = {a \<in> set (im_attachments db). attachment_message a \<notin>
     message_key ` {m \<in> set (im_messages db). message_chat m \<in> chat_key ` {c \<in> set (im_chats db). P c}}}"
  "im_file_blobs (delete_chats_where P db) = im_file_blobs db"
  by (auto simp: delete_chats_as_messages mirror_deletion)

section \<open>The invariant of the storage\<close>

definition blob_refs :: "'b im_db \<Rightarrow> string set" where
  "blob_refs db = {b. \<exists>a \<in> set (im_attachments db). aw_blob_id a = Some b}"

definition files_ok :: "'b storage \<Rightarrow> bool" where
  "files_ok s \<longleftrightarrow> blob_refs (so_mirror s) \<subseteq> fst ` set (so_files s)"

definition so_ok :: "int \<Rightarrow> 'b storage \<Rightarrow> bool" where
  "so_ok now s \<longleftrightarrow> im_ok now (so_mirror s) \<and> files_ok s"

lemma so_ok_parts: "so_ok now s \<longleftrightarrow> runtime_ok now (so_runtime s) \<and> mirror_ok (so_mirror s) \<and> files_ok s"
  by (auto simp: so_ok_def im_ok_def so_runtime_def)

text \<open>A statement that takes rows away: it may leave references without their row, which the checks refuse.\<close>

definition reduces :: "('b storage \<Rightarrow> 'b storage) \<Rightarrow> bool" where
  "reduces f \<longleftrightarrow> (\<forall>s. shrunk (so_runtime s) (so_runtime (f s)) \<and> so_files (f s) = so_files s \<and>
     (mirror_ok (so_mirror s) \<longrightarrow> mirror_ok (so_mirror (f s))) \<and> blob_refs (so_mirror (f s)) \<subseteq> blob_refs (so_mirror s))"

lemma reduces_files: "reduces f \<Longrightarrow> files_ok s \<Longrightarrow> files_ok (f s)"
  by (auto simp: reduces_def files_ok_def)

lemma reduces_checked:
  assumes "reduces f" "so_ok now s" "\<not> fk_runtime (so_runtime s) (so_runtime (f s))"
  shows "so_ok now (f s)"
proof -
  have "shrunk (so_runtime s) (so_runtime (f s))" "mirror_ok (so_mirror (f s))"
    using assms(1,2) by (simp_all add: reduces_def so_ok_parts)
  moreover have "runtime_ok now (so_runtime (f s))"
    using assms(2) shrunk_ok [OF _ calculation(1) assms(3)] by (simp add: so_ok_parts)
  moreover have "files_ok (f s)" using assms(2) reduces_files [OF assms(1)] by (simp add: so_ok_parts)
  ultimately show ?thesis by (simp add: so_ok_parts)
qed

lemma reduces_comp: "reduces f \<Longrightarrow> reduces g \<Longrightarrow> reduces (\<lambda>s. g (f s))"
  unfolding reduces_def by (fastforce intro: shrunk_trans)

lemma reduces_fold: "\<forall>f \<in> set fs. reduces f \<Longrightarrow> reduces (fold (\<lambda>f. f) fs)"
proof (induction fs)
  case Nil
  show ?case by (simp add: reduces_def shrunk_refl)
next
  case (Cons f fs)
  have "fold (\<lambda>f. f) (f # fs) = (\<lambda>s. fold (\<lambda>f. f) fs (f s))" by (simp add: fun_eq_iff)
  with Cons reduces_comp show ?case by (metis list.set_intros)
qed

lemma statements_ok:
  assumes "so_ok now s" "\<forall>f \<in> set fs. reduces f" "statements fs s = Inr s'"
  shows "so_ok now s'"
  using assms
proof (induction fs arbitrary: s)
  case (Cons f fs)
  from Cons.prems(3) have "\<not> fk_runtime (so_runtime s) (so_runtime (f s))" "statements fs (f s) = Inr s'"
    by (auto simp: fk_checked_def split: if_splits)
  then show ?case using Cons.IH [of "f s"] Cons.prems(1,2) reduces_checked by (metis list.set_intros)
qed simp

lemma statements_frame:
  assumes "\<forall>f \<in> set fs. reduces f" "statements fs s = Inr s'"
  shows "so_files s' = so_files s" "blob_refs (so_mirror s') \<subseteq> blob_refs (so_mirror s)"
proof -
  have "so_files s' = so_files s \<and> blob_refs (so_mirror s') \<subseteq> blob_refs (so_mirror s)"
    using assms
  proof (induction fs arbitrary: s)
    case (Cons f fs)
    from Cons.prems(2) have "statements fs (f s) = Inr s'" by (auto simp: fk_checked_def split: if_splits)
    then have "so_files s' = so_files (f s)" "blob_refs (so_mirror s') \<subseteq> blob_refs (so_mirror (f s))"
      using Cons.IH Cons.prems(1) by auto
    moreover have "so_files (f s) = so_files s" "blob_refs (so_mirror (f s)) \<subseteq> blob_refs (so_mirror s)"
      using Cons.prems(1) by (simp_all add: reduces_def)
    ultimately show ?case by auto
  qed simp
  then show "so_files s' = so_files s" "blob_refs (so_mirror s') \<subseteq> blob_refs (so_mirror s)" by simp_all
qed

section \<open>The statements take rows away\<close>

named_theorems deletion \<open>statements that only delete\<close>

lemma reduces_runtime: "(\<And>rt. shrunk rt (f rt)) \<Longrightarrow> reduces (on_runtime_of f)"
  unfolding reduces_def on_runtime_of_def so_runtime_def
  by (auto simp: blob_refs_def) (subst mirror_cong, simp_all)+

lemma reduces_mirror:
  assumes "\<And>db. im_runtime (f db) = im_runtime db" "\<And>db. mirror_ok db \<Longrightarrow> mirror_ok (f db)"
    "\<And>db. set (im_attachments (f db)) \<subseteq> set (im_attachments db)"
  shows "reduces (on_mirror_of f)"
  using assms unfolding reduces_def on_mirror_of_def so_runtime_def blob_refs_def by (auto simp: shrunk_refl) blast

lemma reduces_graphs: "reduces (on_graphs_of f)"
  by (simp add: reduces_def on_graphs_of_def so_runtime_def shrunk_refl)

lemma reduces_audit: "reduces (insert_audit env kind digest numbers)"
  by (simp add: reduces_def insert_audit_def so_runtime_def shrunk_refl)

lemmas shrunk_simps = shrunk_def sublist_refl sublist_filter

lemma keeps_journals: "\<exists>P. rows = filter (\<lambda>v. P (rv_run_id v)) rows"
  by (rule exI [of _ "\<lambda>i. True"]) simp

lemma some_journals: "\<exists>Q. filter (\<lambda>v. rv_run_id v \<notin> I) rows = filter (\<lambda>v. Q (rv_run_id v)) rows"
  by (rule exI [of _ "\<lambda>i. i \<notin> I"]) simp

lemma fewer_lanes: "(\<lambda>k. if P k then None else lanes k) \<subseteq>\<^sub>m lanes"
  by (auto simp: map_le_def split: if_splits)

lemma runtime_deletions [deletion]:
  "reduces (on_runtime_of (drop_runs_checkpoints P))"
  "reduces (on_runtime_of (delete_controls tasks events))"
  "reduces (on_runtime_of (delete_outbox tasks runs))"
  "reduces (on_runtime_of (delete_journals runs))"
  "reduces (on_runtime_of (delete_runs runs))"
  "reduces (on_runtime_of (delete_tasks tasks))"
  "reduces (on_runtime_of (delete_events events))"
  "reduces (on_runtime_of (delete_approvals tasks))"
  "reduces (on_runtime_of (delete_claims_of_runs runs))"
  "reduces (on_runtime_of (delete_due_claims now n))"
  "reduces (on_runtime_of delete_orphan_lanes)"
  by (rule reduces_runtime, simp add: shrunk_simps drop_runs_checkpoints_def delete_controls_def delete_outbox_def delete_journals_def
      delete_runs_def delete_tasks_def delete_events_def delete_approvals_def delete_claims_of_runs_def delete_due_claims_def
      without_keys_def delete_orphan_lanes_def fewer_lanes keeps_journals some_journals)+

lemma mirror_deletions [deletion]:
  "reduces (on_mirror_of (delete_attachments_where Pa))"
  "reduces (on_mirror_of (delete_messages_where Pm))"
  "reduces (on_mirror_of (delete_chats_where Pc))"
  "reduces (on_mirror_of (delete_due_attachments now n))"
  "reduces (on_mirror_of (delete_due_messages now n))"
  by (rule reduces_mirror; auto simp: mirror_deletion delete_attachments_where_ok delete_messages_where_ok delete_chats_where_ok
      delete_due_attachments_as delete_due_messages_as)+

declare reduces_graphs [deletion] reduces_audit [deletion]

end
