(* ===== verification/StorageSystem.thy ===== *)
theory StorageSystem
  imports MaintenanceInv
begin

text \<open>
  The life of a data directory: what the process does to its database and blob files while it runs, and the maintenance
  between the runs. Every such sequence keeps the invariants of the runtime and of the mirror, and every blob an attachment
  refers to has its file.
\<close>

section \<open>Blobs that attachments refer to\<close>

lemma refs_same: "im_attachments db' = im_attachments db \<Longrightarrow> blob_refs db' = blob_refs db"
  by (simp add: blob_refs_def)

lemma refs_fewer: "set (im_attachments db') \<subseteq> set (im_attachments db) \<Longrightarrow> blob_refs db' \<subseteq> blob_refs db"
  by (auto simp: blob_refs_def)

lemma refs_upsert: "blob_refs (snd (upsert_message r m db)) \<subseteq> blob_refs db"
  unfolding upsert_message_def
proof (rule transaction_inv [where P = "\<lambda>s. blob_refs s \<subseteq> blob_refs db"])
  fix b db' assume "upsert_message_tx r m db = Inr (b, db')"
  then show "blob_refs db' \<subseteq> blob_refs db"
  proof (cases rule: upsert_message_cases)
    case refused
    then show ?thesis by (simp add: refs_same [of "upsert_chat r m db" db] mirror_frame)
  next
    case (kept x)
    then show ?thesis by (simp add: refs_same [of "upsert_chat r m db" db] mirror_frame)
  next
    case (written db1)
    let ?db2 = "delete_attachments_of (incoming_key m) (put_message (new_message_row r m) db1)"
    have "insert_attachments r m (ig_attachments m) ?db2 = Inr db'"
      using written(1) by (auto simp: write_message_def split: sum.splits)
    note e = insert_attachments_frame(5) [OF this]
    have "aw_blob_id (new_attachment_row r m a) = None" for a by (simp add: new_attachment_row_def)
    then show ?thesis using e written(5) by (auto simp: blob_refs_def delete_attachments_of_def mirror_frame)
  qed
qed simp

lemma refs_recalled: "blob_refs (recalled_db r tenant app chat i v now db) \<subseteq> blob_refs db"
  by (rule refs_fewer) (auto simp: recalled_db_def delete_attachments_of_def mirror_frame)

lemma refs_revoked: "blob_refs (revoked_db tenant app chat now db) \<subseteq> blob_refs db"
  by (rule refs_fewer) (auto simp: revoked_db_def Let_def revoke_chat_def delete_messages_of_def mirror_frame)

lemma refs_dropped:
  assumes "drop_unreferenced_blobs bs db = (gone, db')"
  shows "blob_refs db' = blob_refs db" "set gone \<inter> blob_refs db' = {}"
  using drop_unreferenced_effect(4,5) [OF assms] by (auto simp: blob_refs_def)

lemma refs_invalidate:
  assumes "invalidate_message r tenant app chat i v now db = (Inr gone, db')"
  shows "blob_refs db' \<subseteq> blob_refs db" "set gone \<inter> blob_refs db' = {}"
proof -
  have "blob_refs db' \<subseteq> blob_refs db \<and> set gone \<inter> blob_refs db' = {}"
  proof (cases "case find_message (tenant, app, i) db of Some x \<Rightarrow> v < mg_updated_at_source_ms x | None \<Rightarrow> False")
    case True
    with assms show ?thesis by (simp add: invalidate_message_def transaction_def)
  next
    case False
    with assms have "drop_unreferenced_blobs (blob_ids_of (\<lambda>a. attachment_message a = (tenant, app, i)) db)
        (recalled_db r tenant app chat i v now db) = (gone, db')"
      by (auto simp: invalidate_message_def transaction_def split: prod.splits)
    from refs_dropped [OF this] refs_recalled [of r tenant app chat i v now db] show ?thesis by blast
  qed
  then show "blob_refs db' \<subseteq> blob_refs db" "set gone \<inter> blob_refs db' = {}" by simp_all
qed

lemma refs_revoke:
  assumes "revoke_chat_access tenant app chat now db = (Inr gone, db')"
  shows "blob_refs db' \<subseteq> blob_refs db" "set gone \<inter> blob_refs db' = {}"
proof -
  obtain gone' where "drop_unreferenced_blobs (blob_ids_of (\<lambda>a. attachment_chat a = (tenant, app, chat)) db)
    (revoked_db tenant app chat now db) = (gone', snd (revoke_chat_access tenant app chat now db))"
    "fst (revoke_chat_access tenant app chat now db) = Inr gone'"
    by (rule revoke_chat_access_cases)
  with assms have "drop_unreferenced_blobs (blob_ids_of (\<lambda>a. attachment_chat a = (tenant, app, chat)) db)
    (revoked_db tenant app chat now db) = (gone, db')" by simp
  from refs_dropped [OF this] refs_revoked [of tenant app chat now db]
  show "blob_refs db' \<subseteq> blob_refs db" "set gone \<inter> blob_refs db' = {}" by blast+
qed

lemma refs_update:
  assumes "update_attachment a missing upd db = Inr (u, db')"
    and "\<And>x. aw_blob_id (upd x) = aw_blob_id x \<or> aw_blob_id (upd x) = Some b"
  shows "blob_refs db' \<subseteq> insert b (blob_refs db)"
proof -
  let ?mine = "attachment_is (sa_tenant_key a) (sa_app_id a) (sa_chat_id a) (sa_message_id a) (sa_resource_key a)"
  have "db' = db\<lparr>im_attachments := update_where ?mine upd (im_attachments db)\<rparr>"
    using assms(1) by (simp add: update_attachment_def Let_def split: if_splits)
  then have rows: "set (im_attachments db') \<subseteq> set (im_attachments db) \<union> upd ` set (im_attachments db)"
    by (auto simp: table_simps)
  show ?thesis
  proof
    fix c assume "c \<in> blob_refs db'"
    then obtain x where x: "x \<in> set (im_attachments db')" "aw_blob_id x = Some c" unfolding blob_refs_def by blast
    with rows have "x \<in> set (im_attachments db) \<union> upd ` set (im_attachments db)" by blast
    then obtain y where y: "y \<in> set (im_attachments db)" "x = y \<or> x = upd y" by blast
    then show "c \<in> insert b (blob_refs db)" using x(2) assms(2) [of y] unfolding blob_refs_def by auto
  qed
qed

lemma refs_record_blob: "blob_refs (snd (record_attachment_blob a b n t now db)) \<subseteq> insert b (blob_refs db)"
  unfolding record_attachment_blob_def
proof (rule transaction_inv [where P = "\<lambda>s. blob_refs s \<subseteq> insert b (blob_refs db)"])
  let ?db = "if list_ex (\<lambda>f. fb_blob_id f = b) (im_file_blobs db) then db
        else db\<lparr>im_file_blobs := im_file_blobs db @ [\<lparr>fb_blob_id = b, fb_byte_size = n, fb_media_type = t, fb_created_at_ms = now\<rparr>]\<rparr>"
  fix u s assume up: "update_attachment a ''attachment reference disappeared during ingest''
       (\<lambda>x. x\<lparr>aw_blob_id := Some b, aw_media_type := (case t of None \<Rightarrow> aw_media_type x | Some t \<Rightarrow> Some t),
          aw_download_state := ''downloaded''\<rparr>) ?db = Inr (u, s)"
  have "blob_refs ?db = blob_refs db" by (rule refs_same) simp
  with refs_update [OF up, of b] show "blob_refs s \<subseteq> insert b (blob_refs db)" by simp
qed auto

lemma refs_record_parse: "blob_refs (snd (record_attachment_parse r a p v pol content state w db)) \<subseteq> blob_refs db"
proof (cases "state \<in> {''parsed'', ''metadata_only'', ''blocked'', ''failed''}")
  case True
  let ?up = "parsed_row r a p v pol content state w"
  have "blob_refs (snd (transaction (update_attachment a m ?up) db)) \<subseteq> blob_refs db" for m
  proof (rule transaction_inv [where P = "\<lambda>s. blob_refs s \<subseteq> blob_refs db"])
    fix u s assume up: "update_attachment a m ?up db = Inr (u, s)"
    let ?mine = "attachment_is (sa_tenant_key a) (sa_app_id a) (sa_chat_id a) (sa_message_id a) (sa_resource_key a)"
    have "s = db\<lparr>im_attachments := update_where ?mine ?up (im_attachments db)\<rparr>"
      using up by (simp add: update_attachment_def Let_def split: if_splits)
    then have rows: "set (im_attachments s) \<subseteq> set (im_attachments db) \<union> ?up ` set (im_attachments db)"
      by (auto simp: table_simps)
    have "aw_blob_id (?up x) = aw_blob_id x" for x by (simp add: parsed_row_def)
    with rows show "blob_refs s \<subseteq> blob_refs db" by (force simp: blob_refs_def)
  qed simp
  with True show ?thesis by (simp only: record_attachment_parse_def not_True_eq_False if_False)
next
  case False
  then show ?thesis by (simp add: record_attachment_parse_def raise_def)
qed

section \<open>Deleting files\<close>

lemma delete_files_ok:
  assumes "so_ok now s" "set bs \<inter> blob_refs (so_mirror s) = {}"
  shows "so_ok now (snd (delete_files v bs acc s))"
  using assms
proof (induction v bs acc s rule: delete_files.induct)
  case (2 v b bs n bytes s)
  have mirror: "so_mirror (unlink_file b s) = so_mirror s" by (simp add: unlink_file_def)
  have "b \<notin> blob_refs (so_mirror s)" "blob_refs (so_mirror s) \<subseteq> fst ` set (so_files s)"
    using "2.prems" by (auto simp: so_ok_def files_ok_def)
  then have "files_ok (unlink_file b s)" unfolding files_ok_def mirror by (auto simp: unlink_file_def)
  then have "so_ok now (unlink_file b s)" "set bs \<inter> blob_refs (so_mirror (unlink_file b s)) = {}"
    using "2.prems" mirror by (auto simp: so_ok_def)
  with "2.IH" "2.prems" show ?case by (auto split: option.splits)
qed simp

lemma gc_blobs_ok:
  assumes "so_ok now s"
  shows "so_ok now (snd (gc_blobs bs acc s))" "im_attachments (so_mirror (snd (gc_blobs bs acc s))) = im_attachments (so_mirror s)"
proof -
  have "so_ok now (snd (gc_blobs bs acc s)) \<and>
    im_attachments (so_mirror (snd (gc_blobs bs acc s))) = im_attachments (so_mirror s)"
    using assms
  proof (induction bs acc s rule: gc_blobs.induct)
    case (2 b bs n bytes s)
    let ?s1 = "on_mirror_of (drop_blob_row b) (unlink_file b s)"
    have step: "so_ok now ?s1" "im_attachments (so_mirror ?s1) = im_attachments (so_mirror s)" if "\<not> blob_referenced b (so_mirror s)"
    proof -
      have free: "b \<notin> blob_refs (so_mirror s)" using that by (auto simp: blob_referenced_def list_ex_iff blob_refs_def)
      show same: "im_attachments (so_mirror ?s1) = im_attachments (so_mirror s)"
        by (simp add: on_mirror_of_def drop_blob_row_def unlink_file_def)
      have "mirror_ok (so_mirror ?s1)"
        using "2.prems" free by (fastforce simp: so_ok_parts mirror_ok_def chats_ok_def attachments_ok_def blobs_ok_def
            on_mirror_of_def drop_blob_row_def unlink_file_def blob_refs_def)
      moreover have "files_ok ?s1"
        using "2.prems" free unfolding so_ok_parts files_ok_def refs_same [OF same]
        by (auto simp: on_mirror_of_def unlink_file_def)
      ultimately show "so_ok now ?s1"
        using "2.prems" by (simp add: so_ok_parts so_runtime_def on_mirror_of_def drop_blob_row_def unlink_file_def)
    qed
    show ?case
    proof (cases "valid_blob_id b \<and> \<not> blob_referenced b (so_mirror s)")
      case True
      with "2.IH"(2) [of ?s1] "2.IH"(3) [of ?s1] step show ?thesis by (auto simp: Let_def split: option.splits)
    next
      case False
      with "2.IH"(1) "2.prems" show ?thesis by auto
    qed
  qed simp
  then show "so_ok now (snd (gc_blobs bs acc s))"
    "im_attachments (so_mirror (snd (gc_blobs bs acc s))) = im_attachments (so_mirror s)" by simp_all
qed


section \<open>Every operation\<close>

lemma on_mirror_ok:
  assumes "im_ok now (f (so_mirror s))" "blob_refs (f (so_mirror s)) \<subseteq> fst ` set (so_files s)"
  shows "so_ok now (on_mirror_of f s)"
  using assms by (simp add: so_ok_def files_ok_def on_mirror_of_def)

lemma events_ok_keys:
  assumes "map event_key (db_events db') = map event_key (db_events db)"
    "map re_event_pk (db_events db') = map re_event_pk (db_events db)"
    "db_event_seq db' = db_event_seq db" "db_tasks db' = db_tasks db"
  shows "events_ok db' = events_ok db"
proof -
  have bounded: "(\<forall>e \<in> set es. re_event_pk e \<le> n) \<longleftrightarrow> list_all (\<lambda>k. k \<le> n) (map re_event_pk es)" for es :: "'a event_row list" and n
    by (simp add: list_all_iff)
  show ?thesis unfolding events_ok_def bounded set_map [symmetric] assms ..
qed

lemma gc_transaction_ok:
  assumes "so_ok now s"
  shows "so_ok now (snd (gc_transaction due n s))"
proof -
  let ?runs = "gc_runs due n (so_mirror s)"
  let ?s1 = "on_runtime_of (drop_runs_checkpoints (\<lambda>i. i \<in> set ?runs)) s"
  let ?pks = "cleared_events due n (so_runtime ?s1)"
  let ?s2 = "on_runtime_of (clear_payloads ?pks) ?s1"
  let ?s3 = "on_mirror_of (delete_due_attachments due n) ?s2"
  let ?s4 = "on_mirror_of (delete_due_messages due n) ?s3"
  let ?s5 = "on_graphs_of (delete_due_artifacts due n) ?s4"
  let ?s6 = "on_runtime_of (delete_due_claims due n) ?s5"
  have safe: "\<not> fk_runtime rt rt'" if "db_tasks rt' = db_tasks rt" "db_events rt' = db_events rt" "db_runs rt' = db_runs rt"
    for rt rt' :: "'a rt_db"
    using that by (auto simp: fk_runtime_def lost_def list_ex_iff split: option.splits)
  have 1: "so_ok now ?s1"
    by (rule reduces_checked [OF deletion(1) assms], rule safe) (simp_all add: on_runtime_of_def so_runtime_def drop_runs_checkpoints_def)
  have keys: "map event_key (db_events (clear_payloads ?pks rt)) = map event_key (db_events rt)"
    "map re_event_pk (db_events (clear_payloads ?pks rt)) = map re_event_pk (db_events rt)" for rt :: "'a rt_db"
    unfolding clear_payloads_def by (auto intro!: update_where_map_key simp: event_key_def)
  have "runtime_ok now (clear_payloads ?pks rt)" if ok: "runtime_ok now rt" for rt :: "'a rt_db"
  proof -
    have "events_ok (clear_payloads ?pks rt)"
      using runtime_okD(4) [OF ok] by (subst events_ok_keys [OF keys]) (simp_all add: clear_payloads_def)
    moreover have "sessions_ok (clear_payloads ?pks rt)"
      using runtime_okD(7) [OF ok] by (subst session_view_cong(5) [of _ rt]) (simp_all add: clear_payloads_def session_view_def)
    ultimately show ?thesis
      using ok by (simp add: runtime_ok_def clear_payloads_def queue_ok_def outbox_ok_def lanes_ok_def claims_ok_def approvals_ok_def)
  qed
  then have 2: "so_ok now ?s2"
    using 1 mirror_cong [of "so_mirror ?s2" "so_mirror ?s1"]
    by (simp add: so_ok_parts on_runtime_of_def so_runtime_def files_ok_def blob_refs_def)
  have 3: "so_ok now ?s3" by (rule reduces_checked [OF _ 2], rule deletion, rule safe) (simp_all add: on_mirror_of_def so_runtime_def delete_due_attachments_as mirror_deletion)
  have 4: "so_ok now ?s4" by (rule reduces_checked [OF _ 3], rule deletion, rule safe) (simp_all add: on_mirror_of_def so_runtime_def delete_due_messages_as mirror_deletion)
  have 5: "so_ok now ?s5" by (rule reduces_checked [OF _ 4], rule deletion, rule safe) (simp_all add: on_graphs_of_def so_runtime_def)
  have 6: "so_ok now ?s6" by (rule reduces_checked [OF _ 5], rule deletion, rule safe) (simp_all add: on_runtime_of_def so_runtime_def delete_due_claims_def)
  have "so_ok now (on_runtime_of delete_orphan_lanes ?s6)"
    by (rule reduces_checked [OF _ 6], rule deletion, rule safe) (simp_all add: on_runtime_of_def so_runtime_def delete_orphan_lanes_def)
  then show ?thesis by (simp add: gc_transaction_def Let_def)
qed


lemma garbage_collect_ok:
  assumes "so_ok now s"
  shows "so_ok now (snd (garbage_collect due b s))"
proof (cases "b < 1 \<or> 10000 < b")
  case True
  with assms show ?thesis by (auto simp: garbage_collect_def)
next
  case False
  obtain r s1 where tx: "gc_transaction due (nat b) s = (r, s1)" by fastforce
  let ?bs = "take (nat b) (sort (remdups (gc_candidates due (nat b) (so_mirror s) @ take (nat b) (map fst (so_files s1)))))"
  obtain v s2 where blobs: "gc_blobs ?bs (0, 0) s1 = (v, s2)" by fastforce
  have 1: "so_ok now s1" using gc_transaction_ok [OF assms, of due "nat b"] tx by simp
  have 2: "so_ok now s2" "im_attachments (so_mirror s2) = im_attachments (so_mirror s1)"
    using gc_blobs_ok [OF 1, of ?bs "(0, 0)"] by (simp_all add: blobs)
  have "so_ok now (s2\<lparr>so_mirror := so_mirror s1\<rparr>)"
    using 1 2 refs_same [OF 2(2)] by (simp add: so_ok_def files_ok_def)
  with 2(1) False tx blobs show ?thesis
    by (cases v) (auto simp: garbage_collect_def Let_def)
qed

text \<open>A purge: rows first, then the files of blobs no attachment is left for.\<close>

lemma drop_blobs_ok:
  assumes "so_ok now s" "drop_blobs bs s = (gone, s')"
  shows "so_ok now s'" "so_runtime s' = so_runtime s" "set gone \<inter> blob_refs (so_mirror s') = {}" "so_files s' = so_files s"
    "so_graphs s' = so_graphs s"
proof -
  have d: "drop_unreferenced_blobs bs (so_mirror s) = (gone, so_mirror s')" and s': "s' = s\<lparr>so_mirror := so_mirror s'\<rparr>"
    using assms(2) by (auto simp: drop_blobs_def split: prod.splits)
  show rt: "so_runtime s' = so_runtime s" using drop_unreferenced_effect(1) [OF d] by (simp add: so_runtime_def)
  have "so_files (s\<lparr>so_mirror := db\<rparr>) = so_files s" "so_graphs (s\<lparr>so_mirror := db\<rparr>) = so_graphs s" for db by simp_all
  with s' show files: "so_files s' = so_files s" and "so_graphs s' = so_graphs s" by metis+
  show "set gone \<inter> blob_refs (so_mirror s') = {}" by (rule refs_dropped(2) [OF d])
  show "so_ok now s'"
    using assms(1) rt files refs_dropped(1) [OF d] drop_unreferenced_ok [OF _ d] by (simp add: so_ok_parts files_ok_def)
qed

lemma tidy_ok:
  assumes "so_ok now s"
  shows "so_ok now (on_runtime_of delete_orphan_lanes (insert_audit env kind digest numbers s))"
proof -
  have a: "so_ok now (insert_audit env kind digest numbers s)"
    using assms by (simp add: so_ok_parts so_runtime_def files_ok_def insert_audit_def)
  have no: "\<not> fk_runtime (rt :: 'a rt_db) (delete_orphan_lanes rt)" for rt
    by (auto simp: fk_runtime_def lost_def list_ex_iff delete_orphan_lanes_def split: option.splits)
  show ?thesis by (rule reduces_checked [OF _ a], rule deletion) (simp add: on_runtime_of_def so_runtime_def no)
qed

lemma purge_transaction_ok:
  assumes "so_ok now s" "purge_transaction env kind tenant app res p chats s = Inr ((r, gone), s')"
  shows "so_ok now s'" "set gone \<inter> blob_refs (so_mirror s') = {}"
proof -
  obtain s1 where s1: "statements (purge_statements tenant app p chats (so_runtime s)) s = Inr s1"
    using assms(2) unfolding purge_transaction_def chain_Inr by blast
  obtain g s2 where s2: "drop_blobs (blob_ids_of (\<lambda>a. plan_message tenant app p (attachment_message a)) (so_mirror s)) s1 = (g, s2)"
    by fastforce
  have g: "g = gone" and s': "s' = on_runtime_of delete_orphan_lanes (insert_audit env kind (me_sha256 env (tenant @ '':'' @ app @ '':'' @ res))
      (count_list (purge_counts kind tenant app p s) (length gone)) s2)"
    using assms(2) unfolding purge_transaction_def s1 chain_simps s2 by (auto simp: Let_def)
  note s2 = s2 [unfolded g]
  have 1: "so_ok now s1"
    by (rule statements_ok [OF assms(1) _ s1]) (simp add: purge_statements_def deletion)
  note 2 = drop_blobs_ok [OF 1 s2]
  show "so_ok now s'" unfolding s' by (rule tidy_ok [OF 2(1)])
  show "set gone \<inter> blob_refs (so_mirror s') = {}"
    using 2(3) by (simp add: s' on_runtime_of_def insert_audit_def blob_refs_def)
qed

lemma purge_target_ok:
  assumes "so_ok now s"
  shows "so_ok now (snd (purge_target env kind tenant app res present p chats s))"
proof (cases "list_ex blank [tenant, app, res] \<or> \<not> present")
  case True
  with assms show ?thesis by (auto simp: purge_target_def)
next
  case False
  show ?thesis
  proof (cases "purge_transaction env kind tenant app res p chats s")
    case (Inl e)
    with False assms show ?thesis by (auto simp: purge_target_def transaction_def)
  next
    case (Inr x)
    obtain r gone s' where x: "x = ((r, gone), s')" by (metis prod.exhaust)
    have "so_ok now (snd (delete_files False gone (0, 0) s'))"
      using delete_files_ok purge_transaction_ok [OF assms Inr [unfolded x]] by blast
    with False Inr x show ?thesis
      by (auto simp: purge_target_def transaction_def split: sum.splits prod.splits)
  qed
qed

lemma drop_blobs_reduces: "reduces (\<lambda>s :: 'a storage. snd (drop_blobs bs s))"
  unfolding reduces_def
proof
  fix s :: "'a storage"
  obtain g db where d: "drop_unreferenced_blobs bs (so_mirror s) = (g, db)" by fastforce
  show "shrunk (so_runtime s) (so_runtime (snd (drop_blobs bs s))) \<and> so_files (snd (drop_blobs bs s)) = so_files s \<and>
      (mirror_ok (so_mirror s) \<longrightarrow> mirror_ok (so_mirror (snd (drop_blobs bs s)))) \<and>
      blob_refs (so_mirror (snd (drop_blobs bs s))) \<subseteq> blob_refs (so_mirror s)"
    using drop_unreferenced_ok [OF _ d] drop_unreferenced_effect(1) [OF d] refs_dropped(1) [OF d]
    by (simp add: drop_blobs_def d so_runtime_def shrunk_refl)
qed

lemma tenant_transaction_ok:
  assumes "so_ok now s" "tenant_transaction env tenant s = Inr ((r, gone), s')"
  shows "so_ok now s'" "set gone \<inter> blob_refs (so_mirror s') = {}"
proof -
  obtain p where p: "tenant_plan tenant (so_mirror s) = Inr p"
    using assms(2) unfolding tenant_transaction_def chain_Inr by blast
  obtain g s1 where s1: "drop_blobs (blob_ids_of (\<lambda>a. aw_tenant_key a = tenant) (so_mirror s)) (fold (\<lambda>f. f) (tenant_statements tenant p) s) = (g, s1)"
    by fastforce
  let ?numbers = "count_list (tenant_counts tenant p s) (length g)"
  have g: "g = gone"
    and checked: "fk_checked s (on_runtime_of delete_orphan_lanes (insert_audit env ''tenant'' (me_sha256 env tenant) ?numbers s1)) = Inr s'"
    using assms(2) unfolding tenant_transaction_def p chain_simps Let_def s1 prod.case chain_Inr by auto
  note s1 = s1 [unfolded g]
  have "reduces (fold (\<lambda>f. f) (tenant_statements tenant p :: ('a storage \<Rightarrow> 'a storage) list))"
    by (rule reduces_fold) (simp add: tenant_statements_def deletion)
  then have all: "reduces (\<lambda>s :: 'a storage. on_runtime_of delete_orphan_lanes (insert_audit env ''tenant'' (me_sha256 env tenant) ?numbers
      (snd (drop_blobs bs (fold (\<lambda>f. f) (tenant_statements tenant p) s)))))" for bs
    by (intro reduces_comp [OF _ deletion(11)] reduces_comp [OF _ reduces_audit] reduces_comp [OF _ drop_blobs_reduces])
  let ?s' = "on_runtime_of delete_orphan_lanes (insert_audit env ''tenant'' (me_sha256 env tenant) ?numbers s1)"
  have s': "s' = ?s'" "\<not> fk_runtime (so_runtime s) (so_runtime ?s')" using checked by (auto simp: fk_checked_def split: if_splits)
  show "so_ok now s'"
    using reduces_checked [OF all [of "blob_ids_of (\<lambda>a. aw_tenant_key a = tenant) (so_mirror s)"] assms(1)] s'(2)
    unfolding s'(1) s1 snd_conv by blast
  have d: "drop_unreferenced_blobs (blob_ids_of (\<lambda>a. aw_tenant_key a = tenant) (so_mirror s))
      (so_mirror (fold (\<lambda>f. f) (tenant_statements tenant p) s)) = (gone, so_mirror s1)"
    using s1 by (auto simp: drop_blobs_def split: prod.splits)
  show "set gone \<inter> blob_refs (so_mirror s') = {}"
    using refs_dropped(2) [OF d] by (simp add: s'(1) on_runtime_of_def insert_audit_def blob_refs_def)
qed

lemma purge_tenant_ok:
  assumes "so_ok now s"
  shows "so_ok now (snd (purge_tenant env tenant s))"
proof (cases "blank tenant \<or> \<not> tenant_exists tenant s")
  case True
  with assms show ?thesis by (auto simp: purge_tenant_def)
next
  case False
  show ?thesis
  proof (cases "tenant_transaction env tenant s")
    case (Inl e)
    with False assms show ?thesis by (auto simp: purge_tenant_def transaction_def)
  next
    case (Inr x)
    obtain r gone s' where x: "x = ((r, gone), s')" by (metis prod.exhaust)
    have "so_ok now (snd (delete_files True gone (0, 0) s'))"
      using delete_files_ok tenant_transaction_ok [OF assms Inr [unfolded x]] by blast
    with False Inr x show ?thesis
      by (auto simp: purge_tenant_def transaction_def split: sum.splits prod.splits)
  qed
qed


lemma purge_all_ok:
  assumes "so_ok now s"
  shows "so_ok now (snd (purge_all env lanes s))"
proof (cases "list_ex (\<lambda>f. \<not> valid_blob_id (fst f)) (so_files s)")
  case True
  with assms show ?thesis by (simp add: purge_all_def)
next
  case False
  let ?rt = "empty_db\<lparr>db_event_seq := db_event_seq (so_runtime s)\<rparr> :: 'a rt_db"
  have "events_ok ?rt" by (simp add: events_ok_def bindings_ok_def empty_db_def)
  moreover have "sessions_ok ?rt" using runtime_okD(7) [OF runtime_ok_empty [where 'a = 'a]]
    by (subst session_view_cong(5) [of _ empty_db]) (simp_all add: session_view_def)
  ultimately have "runtime_ok now ?rt"
    using runtime_ok_empty [of now, where 'a = 'a] by (simp add: runtime_ok_def queue_ok_def outbox_ok_def lanes_ok_def claims_ok_def approvals_ok_def)
  with False show ?thesis
    by (simp add: purge_all_def so_ok_parts so_runtime_def insert_audit_def emptied_def empty_im_db_def files_ok_def blob_refs_def
        mirror_ok_def chats_ok_def attachments_ok_def blobs_ok_def)
qed

section \<open>The machine\<close>

datatype 'b so_op =
    SoMirror "'b im_op"
  | SoIngest stored_attachment string int "string option" int
  | SoRecall "'b im_repository" string string string string int
  | SoRevoke string string string
  | SoCollect int int
  | SoPurgeMessage maintenance_env string string string
  | SoPurgeChat maintenance_env string string string
  | SoPurgeTenant maintenance_env string
  | SoPurgeAll maintenance_env int

text \<open>
  \<open>put\<close> of the blob store writes a file only where there is none; the file comes before the row that refers to it
  (\<open>capabilities/im/attachments.py\<close>), and a recall or a lost chat deletes the files of what the database returns
  (\<open>IMLifecycleTaskHandler\<close>).
\<close>

definition put_file :: "string \<Rightarrow> int \<Rightarrow> 'b storage \<Rightarrow> 'b storage" where
  "put_file b k s = (if file_size b s = None then s\<lparr>so_files := so_files s @ [(b, k)]\<rparr> else s)"

definition with_files :: "('b im_db, string list) eff \<Rightarrow> 'b storage \<Rightarrow> 'b storage" where
  "with_files f s = (case f (so_mirror s) of
     (Inl e, db) \<Rightarrow> s\<lparr>so_mirror := db\<rparr> | (Inr gone, db) \<Rightarrow> snd (delete_files True gone (0, 0) (s\<lparr>so_mirror := db\<rparr>)))"

fun so_step :: "int \<Rightarrow> 'b so_op \<Rightarrow> 'b storage \<Rightarrow> 'b storage" where
  "so_step now (SoMirror op) s = on_mirror_of (im_step now op) s"
| "so_step now (SoIngest a b n t k) s = on_mirror_of (im_step now (ImRecordBlob a b n t)) (put_file b k s)"
| "so_step now (SoRecall r tenant app chat i v) s = with_files (invalidate_message r tenant app chat i v now) s"
| "so_step now (SoRevoke tenant app chat) s = with_files (revoke_chat_access tenant app chat now) s"
| "so_step now (SoCollect due n) s = snd (garbage_collect due n s)"
| "so_step now (SoPurgeMessage env tenant app i) s = snd (purge_message env tenant app i s)"
| "so_step now (SoPurgeChat env tenant app chat) s = snd (purge_chat env tenant app chat s)"
| "so_step now (SoPurgeTenant env tenant) s = snd (purge_tenant env tenant s)"
| "so_step now (SoPurgeAll env lanes) s = snd (purge_all env lanes s)"

fun so_legal :: "'b so_op \<Rightarrow> bool" where
  "so_legal (SoMirror (ImRecordBlob a b n t)) = False"
| "so_legal (SoMirror op) = im_legal op"
| "so_legal _ = True"

lemma refs_step:
  assumes "so_legal (SoMirror op)"
  shows "blob_refs (im_step now op db) \<subseteq> blob_refs db"
proof (cases op)
  case (ImInvalidate r tenant app chat i v)
  obtain g db' where "invalidate_message r tenant app chat i v now db = (Inr g, db')"
    by (cases "invalidate_message r tenant app chat i v now db")
      (auto simp: invalidate_message_def transaction_def split: if_splits)
  with refs_invalidate(1) [OF this] ImInvalidate show ?thesis by simp
next
  case (ImRevoke tenant app chat)
  obtain g db' where "revoke_chat_access tenant app chat now db = (Inr g, db')"
    by (cases "revoke_chat_access tenant app chat now db") (auto simp: revoke_chat_access_def transaction_def split: prod.splits)
  with refs_revoke(1) [OF this] ImRevoke show ?thesis by simp
next
  case (ImRestore tenant app chat)
  have "im_attachments (snd (restore_chat_access tenant app chat now db)) = im_attachments db"
    by (simp add: restore_chat_access_def transaction_def mirror_frame)
  from refs_same [OF this] ImRestore show ?thesis by simp
next
  case (ImRuntime rop)
  then show ?thesis using refs_same [of "im_step now op db" db] by simp
next
  case (ImUpsert r m)
  then show ?thesis by (simp add: refs_upsert)
next
  case (ImRecordParse r a p v pol content state w)
  then show ?thesis by (simp add: refs_record_parse)
qed (use assms in simp)

lemma with_files_ok:
  assumes "so_ok now s" "im_ok now (snd (f (so_mirror s)))"
    "\<And>db. snd (f (so_mirror s)) = db \<Longrightarrow> blob_refs db \<subseteq> blob_refs (so_mirror s)"
    "\<And>gone db. f (so_mirror s) = (Inr gone, db) \<Longrightarrow> set gone \<inter> blob_refs db = {}"
  shows "so_ok now (with_files f s)"
proof -
  obtain v db where f: "f (so_mirror s) = (v, db)" by fastforce
  have ok: "so_ok now (s\<lparr>so_mirror := db\<rparr>)"
    using assms(1,2) assms(3) [of db] by (auto simp: f so_ok_def files_ok_def)
  then show ?thesis using assms(4) delete_files_ok [OF ok] by (cases v) (simp_all add: with_files_def f)
qed

interpretation storage: clocked_steps so_step so_legal so_ok
proof
  fix now later and s :: "'a storage" and op
  assume ok: "so_ok now s"
  then have im: "im_ok now (so_mirror s)" and refs: "blob_refs (so_mirror s) \<subseteq> fst ` set (so_files s)"
    by (simp_all add: so_ok_def files_ok_def)
  show "so_ok later s" if "now \<le> later"
    using ok mirror.tick_inv [OF im that] by (simp add: so_ok_def)
  show "so_ok now (so_step now op s)" if legal: "so_legal op"
  proof (cases op)
    case (SoMirror mop)
    then have "im_legal mop" "blob_refs (im_step now mop (so_mirror s)) \<subseteq> blob_refs (so_mirror s)"
      using legal refs_step [of mop] by (cases mop; simp)+
    with SoMirror refs mirror.step_at [OF im] show ?thesis by (simp add: on_mirror_ok)
  next
    case (SoIngest a b n t k)
    have "blob_refs (so_mirror s) \<subseteq> fst ` set (so_files (put_file b k s))" "b \<in> fst ` set (so_files (put_file b k s))"
      "so_mirror (put_file b k s) = so_mirror s"
      using refs by (auto simp: put_file_def file_size_def map_of_eq_None_iff)
    then have "so_ok now (on_mirror_of (im_step now (ImRecordBlob a b n t)) (put_file b k s))"
      using refs_record_blob [of a b n t now "so_mirror s"] mirror.step_at [OF im, of "ImRecordBlob a b n t"]
      by (intro on_mirror_ok) auto
    with SoIngest show ?thesis by simp
  next
    case (SoRecall r tenant app chat i v)
    have "so_ok now (with_files (invalidate_message r tenant app chat i v now) s)"
    proof (rule with_files_ok [OF ok])
      show "im_ok now (snd (invalidate_message r tenant app chat i v now (so_mirror s)))" using mirror.step_at [OF im, of "ImInvalidate r tenant app chat i v"] by simp
      show "blob_refs db \<subseteq> blob_refs (so_mirror s)" if "snd (invalidate_message r tenant app chat i v now (so_mirror s)) = db" for db
        using refs_step [of "ImInvalidate r tenant app chat i v" now "so_mirror s"] that by simp
    qed (rule refs_invalidate(2))
    with SoRecall show ?thesis by simp
  next
    case (SoRevoke tenant app chat)
    have "so_ok now (with_files (revoke_chat_access tenant app chat now) s)"
    proof (rule with_files_ok [OF ok])
      show "im_ok now (snd (revoke_chat_access tenant app chat now (so_mirror s)))" using mirror.step_at [OF im, of "ImRevoke tenant app chat"] by simp
      show "blob_refs db \<subseteq> blob_refs (so_mirror s)" if "snd (revoke_chat_access tenant app chat now (so_mirror s)) = db" for db
        using refs_step [of "ImRevoke tenant app chat" now "so_mirror s"] that by simp
    qed (rule refs_revoke(2))
    with SoRevoke show ?thesis by simp
  qed (simp_all add: ok garbage_collect_ok purge_message_def purge_chat_def purge_target_ok purge_tenant_ok purge_all_ok)
qed

definition empty_storage :: "'b storage" where
  "empty_storage = \<lparr>so_mirror = empty_im_db, so_graphs = empty_graph_db, so_audit = [], so_files = []\<rparr>"

lemma so_ok_empty: "so_ok now empty_storage"
  using im_ok_empty [of now] by (simp add: so_ok_def files_ok_def blob_refs_def empty_storage_def) (simp add: empty_im_db_def)

end
