(* ===== verification/MaintenancePurge.thy ===== *)
theory MaintenancePurge
  imports StorageSystem
begin

text \<open>
  What a purge leaves. A chat that was purged is gone with its messages, their attachments, its tasks and everything its runs
  recorded; nothing else of the mirror goes. A purge that fails changes nothing.
\<close>

section \<open>The effect of the statements\<close>

lemma statements_fold: "statements fs s = Inr s' \<Longrightarrow> s' = fold (\<lambda>f. f) fs s"
  by (induction fs arbitrary: s) (auto simp: fk_checked_def split: if_splits)

named_theorems parts \<open>parts of a storage after a statement\<close>

lemma storage_parts [parts]:
  "so_runtime (on_runtime_of f s) = f (so_runtime s)"
  "so_runtime (on_mirror_of g s) = im_runtime (g (so_mirror s))"
  "so_runtime (on_graphs_of h s) = so_runtime s"
  "so_runtime (insert_audit env k d numbers s) = so_runtime s"
  "im_runtime (so_mirror s) = so_runtime s"
  "so_mirror (on_mirror_of g s) = g (so_mirror s)"
  "so_mirror (on_graphs_of h s) = so_mirror s"
  "so_graphs (on_graphs_of h s) = h (so_graphs s)" "so_graphs (on_runtime_of f s) = so_graphs s"
  "so_graphs (on_mirror_of g s) = so_graphs s" "so_graphs (insert_audit env k d numbers s) = so_graphs s"
  "so_mirror (insert_audit env k d numbers s) = so_mirror s"
  "im_chats (so_mirror (on_runtime_of f s)) = im_chats (so_mirror s)"
  "im_messages (so_mirror (on_runtime_of f s)) = im_messages (so_mirror s)"
  "im_attachments (so_mirror (on_runtime_of f s)) = im_attachments (so_mirror s)"
  "im_file_blobs (so_mirror (on_runtime_of f s)) = im_file_blobs (so_mirror s)"
  "so_audit (on_runtime_of f s) = so_audit s" "so_audit (on_mirror_of g s) = so_audit s" "so_audit (on_graphs_of h s) = so_audit s"
  "so_files (on_runtime_of f s) = so_files s" "so_files (on_mirror_of g s) = so_files s"
  "so_files (on_graphs_of h s) = so_files s" "so_files (insert_audit env k d numbers s) = so_files s"
  by (simp_all add: on_runtime_of_def on_mirror_of_def on_graphs_of_def insert_audit_def so_runtime_def)

text \<open>What the runtime is after the statements of a purge: what the plan names is gone from every table.\<close>

definition purged_runtime :: "purge_plan \<Rightarrow> 'b rt_db \<Rightarrow> 'b rt_db" where
  "purged_runtime p rt = delete_events (pp_events p) (delete_tasks (pp_tasks p) (delete_runs (pp_runs p) (delete_journals (pp_runs p)
     (delete_outbox (pp_tasks p) (pp_runs p) (delete_controls (pp_tasks p) (pp_events p)
       (drop_runs_checkpoints (checkpoint_purged p rt) rt))))))"

lemma purged_runtime_rows:
  "db_tasks (purged_runtime p rt) = filter (\<lambda>t. tk_task_id t \<notin> set (pp_tasks p)) (db_tasks rt)"
  "db_runs (purged_runtime p rt) = filter (\<lambda>r. rn_run_id r \<notin> set (pp_runs p)) (db_runs rt)"
  "db_run_events (purged_runtime p rt) = filter (\<lambda>v. rv_run_id v \<notin> set (pp_runs p)) (db_run_events rt)"
  "db_outbox (purged_runtime p rt) = filter (\<lambda>q. \<not> outbox_of (pp_tasks p) (pp_runs p) q) (db_outbox rt)"
  "db_events (purged_runtime p rt) = filter (\<lambda>e. re_event_pk e \<notin> set (pp_events p)) (db_events rt)"
  "db_approvals (purged_runtime p rt) = db_approvals rt" "db_idempotency (purged_runtime p rt) = db_idempotency rt"
  "db_event_seq (purged_runtime p rt) = db_event_seq rt" "db_next_sequence (purged_runtime p rt) = db_next_sequence rt"
  "db_lanes (purged_runtime p rt) = db_lanes rt"
  "db_controls (purged_runtime p rt) = filter (\<lambda>c. \<not> (rc_target_task_id c \<in> set (pp_tasks p) \<or> rc_event_pk c \<in> set (pp_events p)))
     (db_controls rt)"
  "db_checkpoints (purged_runtime p rt) = filter (\<lambda>k. \<not> checkpoint_purged p rt (cp_run_id k)) (db_checkpoints rt)"
  "db_checkpoint_sources (purged_runtime p rt) = filter (\<lambda>k. \<not> checkpoint_purged p rt (cs_run_id k)) (db_checkpoint_sources rt)"
  by (auto simp: purged_runtime_def delete_events_def delete_tasks_def delete_runs_def delete_journals_def delete_outbox_def
      delete_controls_def drop_runs_checkpoints_def checkpoint_purged_def intro!: filter_cong)

lemma purge_statements_effect:
  assumes "statements (purge_statements tenant app p chats (so_runtime s)) s = Inr s'"
  shows "so_runtime s' = purged_runtime p (so_runtime s)"
    "so_graphs s' = delete_graphs (\<lambda>g. gr_root_run_id g \<in> set (pp_runs p)) (so_graphs s)"
    "set (im_chats (so_mirror s')) = {c \<in> set (im_chats (so_mirror s)). \<not> chats c}"
    "set (im_messages (so_mirror s')) = {m \<in> set (im_messages (so_mirror s)). \<not> plan_message tenant app p (message_key m) \<and>
       message_chat m \<notin> chat_key ` {c \<in> set (im_chats (so_mirror s)). chats c}}"
    "set (im_attachments (so_mirror s')) = {a \<in> set (im_attachments (so_mirror s)). \<not> plan_message tenant app p (attachment_message a) \<and>
       attachment_message a \<notin> message_key ` {m \<in> set (im_messages (so_mirror s)). \<not> plan_message tenant app p (message_key m) \<and>
         message_chat m \<in> chat_key ` {c \<in> set (im_chats (so_mirror s)). chats c}}}"
    "im_file_blobs (so_mirror s') = im_file_blobs (so_mirror s)"
    "so_audit s' = so_audit s" "so_files s' = so_files s"
  using statements_fold [OF assms]
  by (auto simp: purge_statements_def parts mirror_deletion purged_runtime_def)

lemma delete_files_sizes:
  "file_size c (snd (delete_files False bs acc s)) = (if c \<in> set bs then None else file_size c s)"
proof (induction "False" bs acc s rule: delete_files.induct)
  case (2 b bs n bytes s)
  have "map_of (filter (\<lambda>f. fst f \<noteq> b) fs) c = (if c = b then None else map_of fs c)" for fs :: "(string \<times> int) list"
    by (induction fs) auto
  then have "file_size c (unlink_file b s) = (if c = b then None else file_size c s)" by (simp add: file_size_def unlink_file_def)
  with 2 show ?case by (auto split: option.splits)
qed simp

lemma delete_files_quiet: "\<exists>n bytes. fst (delete_files False bs acc s) = Inr (n, bytes)"
  by (induction "False" bs acc s rule: delete_files.induct) (auto split: option.splits)

lemma delete_files_frame: "so_mirror (snd (delete_files v bs acc s)) = so_mirror s" "so_graphs (snd (delete_files v bs acc s)) = so_graphs s"
  "so_audit (snd (delete_files v bs acc s)) = so_audit s"
  by (induction v bs acc s rule: delete_files.induct) (auto simp: unlink_file_def split: option.splits)

lemma delete_files_kept: "f \<in> set (so_files s) \<Longrightarrow> fst f \<notin> set bs \<Longrightarrow> f \<in> set (so_files (snd (delete_files v bs acc s)))"
  by (induction v bs acc s rule: delete_files.induct) (auto simp: unlink_file_def split: option.splits)

lemma delete_files_gone:
  "b \<in> set bs \<Longrightarrow> b \<notin> fst ` set (so_files (snd (delete_files False bs acc s)))"
proof (induction "False" bs acc s rule: delete_files.induct)
  case (2 c bs n bytes s)
  have absent: "b \<notin> fst ` set (so_files (snd (delete_files False cs acc t)))" if "b \<notin> fst ` set (so_files t)" for cs acc and t :: "'a storage"
    using that by (induction "False" cs acc t rule: delete_files.induct) (auto simp: unlink_file_def split: option.splits)
  show ?case
  proof (cases "c = b")
    case True
    have "b \<notin> fst ` set (so_files s)" if "file_size c s = None"
      using that True by (simp add: file_size_def map_of_eq_None_iff)
    moreover have "b \<notin> fst ` set (so_files (unlink_file c s))" using True by (auto simp: unlink_file_def)
    ultimately show ?thesis using absent by (auto split: option.splits)
  next
    case False
    with 2 show ?thesis by (auto split: option.splits)
  qed
qed simp

text \<open>A purge that answers ran its statements; one that fails left everything as it was.\<close>

lemma purge_target_cases:
  obtains (failed) e where "purge_target env kind tenant app res present p chats s = (Inl e, s)"
    | (purged) r gone s1 where "present" "purge_transaction env kind tenant app res p chats s = Inr ((r, gone), s1)"
        "snd (purge_target env kind tenant app res present p chats s) = snd (delete_files False gone (0, 0) s1)"
        "fst (purge_target env kind tenant app res present p chats s) =
           Inr (r\<lparr>pr_blobs_deleted := fst (projr (fst (delete_files False gone (0, 0) s1))),
             pr_bytes_reclaimed := snd (projr (fst (delete_files False gone (0, 0) s1)))\<rparr>)"
proof (cases "list_ex blank [tenant, app, res] \<or> \<not> present")
  case True
  then show thesis by (intro failed [of "projl (fst (purge_target env kind tenant app res present p chats s))"]) (auto simp: purge_target_def)
next
  case False
  show thesis
  proof (cases "purge_transaction env kind tenant app res p chats s")
    case (Inl e)
    with False show thesis by (intro failed) (auto simp: purge_target_def transaction_def)
  next
    case (Inr x)
    obtain r gone s1 where x: "x = ((r, gone), s1)" by (metis prod.exhaust)
    obtain n bytes where "fst (delete_files False gone (0, 0) s1) = Inr (n, bytes)" using delete_files_quiet by blast
    then obtain s2 where "delete_files False gone (0, 0) s1 = (Inr (n, bytes), s2)" by (metis prod.collapse)
    with False Inr x show thesis
      by (intro purged) (auto simp: purge_target_def transaction_def)
  qed
qed


section \<open>A chat\<close>

text \<open>
  The session keys of a chat begin with its key. SQLite's LIKE, with which a purge looks for them, takes no notice of the case
  of ASCII letters and lets an underscore of the key stand for any character.
\<close>

definition chat_prefix :: "im_key \<Rightarrow> string" where
  "chat_prefix k = fst k @ ''/'' @ fst (snd k) @ ''/'' @ snd (snd k) @ ''/''"

definition begins_alike :: "string \<Rightarrow> string \<Rightarrow> bool" where
  "begins_alike pre s \<longleftrightarrow> list_all2 (\<lambda>p ch. p = CHR ''_'' \<or> like_lower p = like_lower ch) pre (take (length pre) s)"

lemma begins_alike_simps [simp]: "begins_alike [] s" "\<not> begins_alike (p # pre) []"
  "begins_alike (p # pre) (ch # s) \<longleftrightarrow> (p = CHR ''_'' \<or> like_lower p = like_lower ch) \<and> begins_alike pre s"
  by (simp_all add: begins_alike_def)

lemma sql_like_begins: "CHR ''%'' \<notin> set pre \<Longrightarrow> sql_like (pre @ ''%'') s = begins_alike pre s"
  by (induction pre arbitrary: s; case_tac s) (auto simp: sql_like_percent)

lemma begins_alike_prefix: "begins_alike pre (pre @ s)"
  by (induction pre) auto

definition task_of_chat :: "im_key \<Rightarrow> 'b task_row \<Rightarrow> bool" where
  "task_of_chat k t \<longleftrightarrow> begins_alike (chat_prefix k) (tk_session_key t)"

definition tasks_of_chat :: "im_key \<Rightarrow> 'b rt_db \<Rightarrow> string set" where
  "tasks_of_chat k rt = tk_task_id ` {t \<in> set (db_tasks rt). task_of_chat k t}"

definition runs_of_chat :: "im_key \<Rightarrow> 'b rt_db \<Rightarrow> string set" where
  "runs_of_chat k rt = rn_run_id ` {r \<in> set (db_runs rt). rn_task_id r \<in> tasks_of_chat k rt}"

definition events_of_chat :: "im_key \<Rightarrow> 'b rt_db \<Rightarrow> int set" where
  "events_of_chat k rt = {pk. \<exists>t \<in> set (db_tasks rt). tk_task_id t \<in> tasks_of_chat k rt \<and> tk_event_pk t = Some pk} \<union>
     re_event_pk ` {e \<in> set (db_events rt). re_tenant_key e = fst k \<and> re_app_id e = fst (snd k) \<and>
       re_resource_kind e = ''im.chat'' \<and> re_resource_id e = snd (snd k)}"

text \<open>A source of a checkpoint that refers to a message, or to an attachment of it.\<close>

definition refers_to :: "string \<Rightarrow> string \<Rightarrow> bool" where
  "refers_to message_id ref \<longleftrightarrow> ref = ''im.message:'' @ message_id \<or> begins_alike (''im.attachment:'' @ message_id @ '':'') ref"

lemma cites_message_refers: "CHR ''%'' \<notin> set message_id \<Longrightarrow> cites_message message_id ref = refers_to message_id ref"
  using sql_like_begins [of "''im.attachment:'' @ message_id @ '':''" ref] by (simp add: cites_message_def refers_to_def)

definition checkpoint_of_chat :: "im_key \<Rightarrow> 'b storage \<Rightarrow> string \<Rightarrow> bool" where
  "checkpoint_of_chat k s i \<longleftrightarrow> i \<in> runs_of_chat k (so_runtime s) \<or>
     (\<exists>c \<in> set (db_checkpoint_sources (so_runtime s)). cs_run_id c = i \<and>
        (\<exists>m \<in> set (im_messages (so_mirror s)). message_chat m = k \<and> refers_to (mg_message_id m) (cs_source_ref c)))"

text \<open>No name of the chat is itself a pattern.\<close>

definition plain_names :: "im_key \<Rightarrow> 'b storage \<Rightarrow> bool" where
  "plain_names k s \<longleftrightarrow> CHR ''%'' \<notin> set (chat_prefix k) \<and>
     list_all (\<lambda>m. message_chat m = k \<longrightarrow> CHR ''%'' \<notin> set (mg_message_id m)) (im_messages (so_mirror s))"

lemma set_map_filter: "set (List.map_filter f xs) = {y. \<exists>x \<in> set xs. f x = Some y}"
  by (induction xs) (auto simp: List.map_filter_simps split: option.splits)

lemma chat_plan_messages:
  "set (pp_messages (chat_plan tenant app chat db)) = mg_message_id ` {m \<in> set (im_messages db). message_chat m = (tenant, app, chat)}"
  by (auto simp: chat_plan_def Let_def)

lemma chat_plan_names:
  assumes "CHR ''%'' \<notin> set (chat_prefix (tenant, app, chat))"
  shows "set (pp_tasks (chat_plan tenant app chat db)) = tasks_of_chat (tenant, app, chat) (im_runtime db)"
    "set (pp_runs (chat_plan tenant app chat db)) = runs_of_chat (tenant, app, chat) (im_runtime db)"
    "set (pp_events (chat_plan tenant app chat db)) = events_of_chat (tenant, app, chat) (im_runtime db)"
proof -
  let ?rt = "im_runtime db"
  have like: "sql_like (tenant @ CHR ''/'' # app @ CHR ''/'' # chat @ ''/%'') x = begins_alike (chat_prefix (tenant, app, chat)) x" for x
    using sql_like_begins [OF assms, of x] by (simp add: chat_prefix_def)
  show tasks: "set (pp_tasks (chat_plan tenant app chat db)) = tasks_of_chat (tenant, app, chat) ?rt"
    by (auto simp: chat_plan_def Let_def like tasks_of_chat_def task_of_chat_def)
  show "set (pp_runs (chat_plan tenant app chat db)) = runs_of_chat (tenant, app, chat) ?rt"
    by (auto simp: chat_plan_def Let_def like tasks_of_chat_def runs_of_chat_def runs_of_tasks_def task_of_chat_def)
  have "chat_plan tenant app chat db = \<lparr>pp_messages = pp_messages (chat_plan tenant app chat db),
      pp_tasks = pp_tasks (chat_plan tenant app chat db), pp_runs = pp_runs (chat_plan tenant app chat db),
      pp_events = events_of_tasks (pp_tasks (chat_plan tenant app chat db)) ?rt @ map re_event_pk (filter (\<lambda>e. re_tenant_key e = tenant \<and>
        re_app_id e = app \<and> re_resource_kind e = ''im.chat'' \<and> re_resource_id e = chat) (db_events ?rt))\<rparr>"
    by (simp add: chat_plan_def Let_def)
  from arg_cong [OF this, of pp_events] show "set (pp_events (chat_plan tenant app chat db)) = events_of_chat (tenant, app, chat) ?rt"
    by (auto simp: events_of_chat_def events_of_tasks_def set_map_filter tasks)
qed

lemma file_size_None: "file_size b s = None \<longleftrightarrow> b \<notin> fst ` set (so_files s)"
  by (simp add: file_size_def map_of_eq_None_iff)

lemma filter_key:
  assumes "distinct (map key rows)"
  shows "filter (\<lambda>r. key r \<notin> key ` {r \<in> set rows. P r}) rows = filter (\<lambda>r. \<not> P r) rows"
proof (rule filter_cong [OF refl])
  fix r assume "r \<in> set rows"
  with assms show "(key r \<notin> key ` {r \<in> set rows. P r}) = (\<not> P r)" by (auto simp: distinct_map inj_on_def)
qed

lemma chat_plan_keys:
  assumes "mirror_ok db" "m \<in> set (im_messages db)"
  shows "plan_message tenant app (chat_plan tenant app chat db) (message_key m) \<longleftrightarrow> message_chat m = (tenant, app, chat)"
proof
  assume "plan_message tenant app (chat_plan tenant app chat db) (message_key m)"
  then obtain n where n: "n \<in> set (im_messages db)" "message_chat n = (tenant, app, chat)" "message_key m = message_key n"
    unfolding plan_message_def chat_plan_messages by (auto simp: message_key_def message_chat_def)
  then have "m = n" using assms by (auto simp: mirror_ok_def attachments_ok_def distinct_map inj_on_def)
  with n(2) show "message_chat m = (tenant, app, chat)" by simp
next
  assume c: "message_chat m = (tenant, app, chat)"
  then have "mg_message_id m \<in> set (pp_messages (chat_plan tenant app chat db))" unfolding chat_plan_messages using assms(2) by blast
  with c show "plan_message tenant app (chat_plan tenant app chat db) (message_key m)"
    by (simp add: plan_message_def message_key_def message_chat_def)
qed

lemma chat_plan_attachments:
  assumes "mirror_ok db" "a \<in> set (im_attachments db)"
  shows "plan_message tenant app (chat_plan tenant app chat db) (attachment_message a) \<longleftrightarrow>
    attachment_message a \<in> message_key ` {m \<in> set (im_messages db). message_chat m = (tenant, app, chat)}"
proof -
  obtain m where m: "m \<in> set (im_messages db)" "attachment_message a = message_key m"
    using assms by (fastforce simp: mirror_ok_def attachments_ok_def)
  have "message_key m \<in> message_key ` {m \<in> set (im_messages db). message_chat m = (tenant, app, chat)} \<longleftrightarrow>
      message_chat m = (tenant, app, chat)"
  proof
    assume "message_key m \<in> message_key ` {m \<in> set (im_messages db). message_chat m = (tenant, app, chat)}"
    then obtain n where "n \<in> set (im_messages db)" "message_chat n = (tenant, app, chat)" "message_key n = message_key m" by auto
    then show "message_chat m = (tenant, app, chat)"
      using assms(1) m(1) by (auto simp: mirror_ok_def attachments_ok_def distinct_map inj_on_def)
  qed (use m(1) in blast)
  then show ?thesis unfolding m(2) chat_plan_keys [OF assms(1) m(1)] by blast
qed

text \<open>Everything of a chat is gone, everything else of the mirror, of the runtime and of the graphs is still there.\<close>

definition chat_purged :: "im_key \<Rightarrow> 'b storage \<Rightarrow> 'b storage \<Rightarrow> bool" where
  "chat_purged k s s' \<longleftrightarrow>
     set (im_chats (so_mirror s')) = {c \<in> set (im_chats (so_mirror s)). chat_key c \<noteq> k} \<and>
     set (im_messages (so_mirror s')) = {m \<in> set (im_messages (so_mirror s)). message_chat m \<noteq> k} \<and>
     set (im_attachments (so_mirror s')) = {a \<in> set (im_attachments (so_mirror s)).
       attachment_message a \<notin> message_key ` {m \<in> set (im_messages (so_mirror s)). message_chat m = k}} \<and>
     set (im_file_blobs (so_mirror s')) = {f \<in> set (im_file_blobs (so_mirror s)).
       fb_blob_id f \<notin> blob_refs (so_mirror s) - blob_refs (so_mirror s')}"

text \<open>A lane of the scheduler goes with the last task that could use it.\<close>

definition runtime_purged :: "im_key \<Rightarrow> 'b storage \<Rightarrow> 'b storage \<Rightarrow> bool" where
  "runtime_purged k s s' \<longleftrightarrow> (let rt = so_runtime s; rt' = so_runtime s'; tasks = tasks_of_chat k rt; runs = runs_of_chat k rt in
     db_tasks rt' = filter (\<lambda>t. \<not> task_of_chat k t) (db_tasks rt) \<and>
     db_runs rt' = filter (\<lambda>r. rn_task_id r \<notin> tasks) (db_runs rt) \<and>
     db_run_events rt' = filter (\<lambda>v. rv_run_id v \<notin> runs) (db_run_events rt) \<and>
     db_outbox rt' = filter (\<lambda>q. ob_task_id q \<notin> Some ` tasks \<and> ob_run_id q \<notin> Some ` runs) (db_outbox rt) \<and>
     db_checkpoints rt' = filter (\<lambda>c. \<not> checkpoint_of_chat k s (cp_run_id c)) (db_checkpoints rt) \<and>
     db_checkpoint_sources rt' = filter (\<lambda>c. \<not> checkpoint_of_chat k s (cs_run_id c)) (db_checkpoint_sources rt) \<and>
     db_controls rt' = filter (\<lambda>c. rc_target_task_id c \<notin> tasks \<and> rc_event_pk c \<notin> events_of_chat k rt) (db_controls rt) \<and>
     db_events rt' = filter (\<lambda>e. re_event_pk e \<notin> events_of_chat k rt) (db_events rt) \<and>
     db_approvals rt' = db_approvals rt \<and> db_idempotency rt' = db_idempotency rt \<and>
     db_event_seq rt' = db_event_seq rt \<and> db_next_sequence rt' = db_next_sequence rt \<and>
     (\<forall>l. db_lanes rt' l = (if orphan_lane (db_tasks rt') l then None else db_lanes rt l)))"

definition graphs_purged :: "im_key \<Rightarrow> 'b storage \<Rightarrow> 'b storage \<Rightarrow> bool" where
  "graphs_purged k s s' \<longleftrightarrow> (let g = so_graphs s; g' = so_graphs s'; runs = runs_of_chat k (so_runtime s);
       gone = gr_graph_id ` {x \<in> set (ag_graphs g). gr_root_run_id x \<in> runs};
       nodes = no_node_id ` {x \<in> set (ag_nodes g). no_graph_id x \<in> gone} in
     ag_graphs g' = filter (\<lambda>x. gr_root_run_id x \<notin> runs) (ag_graphs g) \<and>
     ag_nodes g' = filter (\<lambda>x. no_graph_id x \<notin> gone) (ag_nodes g) \<and>
     ag_edges g' = filter (\<lambda>x. ed_graph_id x \<notin> gone) (ag_edges g) \<and>
     ag_mailbox g' = filter (\<lambda>x. ma_graph_id x \<notin> gone) (ag_mailbox g) \<and>
     ag_artifacts g' = filter (\<lambda>x. at_graph_id x \<notin> gone) (ag_artifacts g) \<and>
     ag_checkpoints g' = filter (\<lambda>x. nc_graph_id x \<notin> gone \<and> nc_node_id x \<notin> nodes) (ag_checkpoints g) \<and>
     ag_locks g' = filter (\<lambda>x. lk_graph_id x \<notin> gone) (ag_locks g) \<and>
     ag_ledger g' = filter (\<lambda>x. lg_graph_id x \<notin> gone) (ag_ledger g))"

text \<open>
  Exactly the blobs of the attachments that went lose their files, except those other attachments refer to, which have theirs;
  the audit of the maintenance has one row more.
\<close>

definition blobs_purged :: "'b storage \<Rightarrow> 'b storage \<Rightarrow> bool" where
  "blobs_purged s s' \<longleftrightarrow> (\<forall>b. file_size b s' =
       (if b \<in> blob_refs (so_mirror s) - blob_refs (so_mirror s') then None else file_size b s)) \<and>
     (\<forall>b \<in> blob_refs (so_mirror s'). file_size b s' \<noteq> None)"

definition purge_audited :: "maintenance_env \<Rightarrow> im_key \<Rightarrow> 'b storage \<Rightarrow> 'b storage \<Rightarrow> bool" where
  "purge_audited env k s s' \<longleftrightarrow> (\<exists>numbers. so_audit s' = so_audit s @
     [\<lparr>au_operation = ''purge'', au_target_kind = ''chat'',
       au_target_digest = me_sha256 env (fst k @ '':'' @ fst (snd k) @ '':'' @ snd (snd k)),
       au_result_counts = me_dumps env numbers, au_created_at_ms = me_now_ms env\<rparr>])"

lemma purge_chat_transaction:
  assumes ok: "so_ok now s"
    and tx: "purge_transaction env ''chat'' tenant app chat (chat_plan tenant app chat (so_mirror s)) (\<lambda>c. chat_key c = (tenant, app, chat)) s
      = Inr ((r, gone), s')"
    and chat: "\<exists>c \<in> set (im_chats (so_mirror s)). chat_key c = (tenant, app, chat)"
    and plain: "plain_names (tenant, app, chat) s"
  shows "chat_purged (tenant, app, chat) s s'" "runtime_purged (tenant, app, chat) s s'" "graphs_purged (tenant, app, chat) s s'"
    "purge_audited env (tenant, app, chat) s s'" "so_files s' = so_files s"
    "set gone = blob_refs (so_mirror s) - blob_refs (so_mirror s')"
proof -
  let ?k = "(tenant, app, chat)"
  let ?p = "chat_plan tenant app chat (so_mirror s)"
  obtain s1 where s1: "statements (purge_statements tenant app ?p (\<lambda>c. chat_key c = ?k) (so_runtime s)) s = Inr s1"
    using tx unfolding purge_transaction_def chain_Inr by blast
  obtain g s2 where s2: "drop_blobs (blob_ids_of (\<lambda>a. plan_message tenant app ?p (attachment_message a)) (so_mirror s)) s1 = (g, s2)"
    by fastforce
  obtain numbers where g: "g = gone" and s': "s' = on_runtime_of delete_orphan_lanes (insert_audit env ''chat''
      (me_sha256 env (tenant @ '':'' @ app @ '':'' @ chat)) numbers s2)"
    using tx unfolding purge_transaction_def s1 chain_simps s2 by (auto simp: Let_def)
  note e = purge_statements_effect [OF s1]
  have d: "drop_unreferenced_blobs (blob_ids_of (\<lambda>a. plan_message tenant app ?p (attachment_message a)) (so_mirror s)) (so_mirror s1)
      = (gone, so_mirror s2)"
    using s2 by (auto simp: drop_blobs_def g split: prod.splits)
  note f = drop_unreferenced_effect [OF d]
  have g2: "so_graphs s2 = so_graphs s1" "so_audit s2 = so_audit s1" "so_files s2 = so_files s1"
    using s2 by (auto simp: drop_blobs_def split: prod.splits)
  show "purge_audited env ?k s s'" "so_files s' = so_files s"
    unfolding purge_audited_def s' by (auto simp: on_runtime_of_def insert_audit_def g2 e(7,8))
  have rt: "so_runtime s2 = so_runtime s1" using f(1) by (simp add: so_runtime_def)
  have m: "mirror_ok (so_mirror s)" and r: "runtime_ok now (so_runtime s)" using ok by (simp_all add: so_ok_parts)
  have "CHR ''%'' \<notin> set (chat_prefix ?k)" using plain by (simp add: plain_names_def)
  note plan = chat_plan_names [OF this, of "so_mirror s", unfolded storage_parts(5)]
  have one: "chat_key ` {c \<in> set (im_chats (so_mirror s)). chat_key c = ?k} = {?k}" using chat by auto
  have messages: "set (im_messages (so_mirror s1)) = {x \<in> set (im_messages (so_mirror s)). message_chat x \<noteq> ?k}"
    unfolding e(4) one using chat_plan_keys [OF m] by auto
  have "{x \<in> set (im_messages (so_mirror s)). \<not> plan_message tenant app ?p (message_key x) \<and> message_chat x \<in> {?k}} = {}"
    using chat_plan_keys [OF m] by auto
  then have attachments: "set (im_attachments (so_mirror s1)) = {a \<in> set (im_attachments (so_mirror s)).
      attachment_message a \<notin> message_key ` {x \<in> set (im_messages (so_mirror s)). message_chat x = ?k}}"
    unfolding e(5) one using chat_plan_attachments [OF m] by auto
  have keys: "distinct (map tk_task_id (db_tasks (so_runtime s)))" "distinct (map rn_run_id (db_runs (so_runtime s)))"
    using runtime_okD(1,7) [OF r] by (simp_all add: queue_ok_def sessions_ok_def)
  have tasks: "db_tasks (so_runtime s1) = filter (\<lambda>t. \<not> task_of_chat ?k t) (db_tasks (so_runtime s))"
    unfolding e(1) purged_runtime_rows plan tasks_of_chat_def by (rule filter_key [OF keys(1)])
  have runs: "db_runs (so_runtime s1) = filter (\<lambda>x. rn_task_id x \<notin> tasks_of_chat ?k (so_runtime s)) (db_runs (so_runtime s))"
    unfolding e(1) purged_runtime_rows plan runs_of_chat_def by (rule filter_key [OF keys(2)])
  have "list_ex (\<lambda>m. cites_message m ref) (pp_messages ?p) \<longleftrightarrow>
      (\<exists>m \<in> set (im_messages (so_mirror s)). message_chat m = ?k \<and> refers_to (mg_message_id m) ref)" for ref
    using plain by (auto simp: list_ex_iff chat_plan_messages plain_names_def list_all_iff cites_message_refers)
  then have checkpoint: "checkpoint_purged ?p (so_runtime s) i = checkpoint_of_chat ?k s i" for i
    by (auto simp: checkpoint_purged_def checkpoint_of_chat_def plan list_ex_iff)
  have outbox: "outbox_of (pp_tasks ?p) (pp_runs ?p) q \<longleftrightarrow>
      ob_task_id q \<in> Some ` tasks_of_chat ?k (so_runtime s) \<or> ob_run_id q \<in> Some ` runs_of_chat ?k (so_runtime s)" for q
    by (auto simp: outbox_of_def plan split: option.splits)
  show "runtime_purged ?k s s'"
    unfolding runtime_purged_def Let_def s' using tasks runs
    by (simp add: parts delete_orphan_lanes_def rt e(1) purged_runtime_rows plan checkpoint outbox)
  show "graphs_purged ?k s s'"
    unfolding graphs_purged_def Let_def s' 
    by (simp add: parts g2(1) e(2) plan delete_graphs_def Let_def)
  have refs: "blob_refs (so_mirror s') = blob_refs (so_mirror s1)"
    by (rule refs_same) (simp add: s' parts f(4))
  have gone: "set gone = {b. \<exists>a \<in> set (im_attachments (so_mirror s)). plan_message tenant app ?p (attachment_message a) \<and>
      aw_blob_id a = Some b} - blob_refs (so_mirror s1)"
    unfolding f(5) blob_ids_of_def set_remdups set_map_filter blob_refs_def set_filter by blast
  show refs_gone: "set gone = blob_refs (so_mirror s) - blob_refs (so_mirror s')"
    unfolding gone refs unfolding blob_refs_def attachments using chat_plan_attachments [OF m] by blast
  have "so_mirror s' = im_runtime_update delete_orphan_lanes (so_mirror s2)" by (simp add: s' on_runtime_of_def insert_audit_def)
  then show "chat_purged ?k s s'"
    unfolding chat_purged_def refs_gone [symmetric] using messages attachments e(3,6) f by simp
qed

text \<open>
  C9. A purge of a chat that answers has taken away the chat, its messages with their attachments, every file that no
  attachment is left for, the tasks whose session key begins with the key of the chat (up to the case of letters and the
  underscores of that key, as LIKE compares), their runs with journals, checkpoints and agent graphs, the outbox messages,
  controls and events of both, and every checkpoint that cites a message of the chat. Every other row of every table and every
  other file is as it was, but for lanes of the scheduler without a task and a new row of the audit. A purge that fails
  has changed nothing. No identifier involved contains a percent sign.
\<close>

theorem purge_chat_complete:
  assumes "so_ok now s" "plain_names (tenant, app, chat) s"
  shows "case purge_chat env tenant app chat s of
      (Inl e, s') \<Rightarrow> s' = s
    | (Inr r, s') \<Rightarrow> chat_purged (tenant, app, chat) s s' \<and> runtime_purged (tenant, app, chat) s s' \<and>
        graphs_purged (tenant, app, chat) s s' \<and> blobs_purged s s' \<and> purge_audited env (tenant, app, chat) s s' \<and>
        (\<forall>t \<in> set (db_tasks (so_runtime s')). \<not> prefix (chat_prefix (tenant, app, chat)) (tk_session_key t))"
proof (cases rule: purge_target_cases [where env = env and kind = "''chat''" and tenant = tenant and app = app and res = chat
      and present = "list_ex (\<lambda>c. chat_key c = (tenant, app, chat)) (im_chats (so_mirror s))"
      and p = "chat_plan tenant app chat (so_mirror s)" and chats = "\<lambda>c. chat_key c = (tenant, app, chat)" and s = s])
  case (failed e)
  then show ?thesis by (simp add: purge_chat_def)
next
  case (purged r gone s1)
  let ?k = "(tenant, app, chat)"
  let ?s2 = "snd (delete_files False gone (0, 0) s1)"
  have chat: "\<exists>c \<in> set (im_chats (so_mirror s)). chat_key c = ?k" using purged(1) by (simp add: list_ex_iff)
  note tx = purge_chat_transaction [OF assms(1) purged(2) chat assms(2)] purge_transaction_ok [OF assms(1) purged(2)]
  have same: "so_mirror ?s2 = so_mirror s1" "so_runtime ?s2 = so_runtime s1" "so_graphs ?s2 = so_graphs s1"
    "so_audit ?s2 = so_audit s1"
    by (simp_all add: delete_files_frame so_runtime_def)
  have finished: "chat_purged ?k s ?s2" "runtime_purged ?k s ?s2" "graphs_purged ?k s ?s2" "purge_audited env ?k s ?s2"
    using tx(1-4) by (simp_all add: chat_purged_def runtime_purged_def graphs_purged_def purge_audited_def same)
  have sizes: "file_size b ?s2 = (if b \<in> blob_refs (so_mirror s) - blob_refs (so_mirror s1) then None else file_size b s)" for b
    unfolding delete_files_sizes tx(6) using tx(5) by (simp add: file_size_def)
  have "so_ok now ?s2" using delete_files_ok [OF tx(7,8)] by simp
  then have "blob_refs (so_mirror s1) \<subseteq> fst ` set (so_files ?s2)" by (simp add: so_ok_def files_ok_def same)
  then have "file_size b ?s2 \<noteq> None" if "b \<in> blob_refs (so_mirror s1)" for b
    unfolding file_size_None using that by blast
  then have files: "blobs_purged s ?s2" unfolding blobs_purged_def same using sizes by blast
  have "\<not> prefix (chat_prefix ?k) (tk_session_key t)" if "t \<in> set (db_tasks (so_runtime ?s2))" for t
    using that finished(2) begins_alike_prefix by (auto simp: runtime_purged_def Let_def task_of_chat_def prefix_def)
  with finished files purged(3,4) show ?thesis by (simp add: purge_chat_def case_prod_beta)
qed

text \<open>
  C10. Whatever the process does to its database and its blob files, and whatever maintenance follows - garbage collection and
  purges of a message, a chat, a tenant or everything, completed or failed - the invariants of the runtime tables and of the
  mirror hold, and every blob an attachment refers to has its file.
\<close>

theorem storage_keeps_invariants:
  assumes "timely so_legal now ops" "s = timed_run so_step ops empty_storage" "last (now # map fst ops) \<le> later"
  shows "runtime_ok later (so_runtime s) \<and> mirror_ok (so_mirror s) \<and>
    (\<forall>a \<in> set (im_attachments (so_mirror s)). \<forall>b. aw_blob_id a = Some b \<longrightarrow> file_size b s \<noteq> None)"
proof -
  have "so_ok later s"
    unfolding assms(2) by (rule storage.tick_inv [OF storage.run_inv [OF so_ok_empty assms(1)] assms(3)])
  then show ?thesis by (auto simp: so_ok_parts files_ok_def blob_refs_def file_size_None)
qed

end
