(* ===== verification/MaintenanceWitnesses.thy ===== *)
theory MaintenanceWitnesses
  imports MaintenancePurge IMWitnesses
begin

text \<open>Concrete data directories at which the properties of maintenance are applied, and observations on its purges.\<close>

definition sample_maintenance :: maintenance_env where
  "sample_maintenance = \<lparr>me_sha256 = (\<lambda>s. ''sha:'' @ s), me_dumps = (\<lambda>c. ''{}''), me_now_ms = 90\<rparr>"

definition sample_blob :: string where
  "sample_blob = replicate 64 (CHR ''a'')"

text \<open>A message with an attachment is stored, its task runs, and the run writes a journal and a checkpoint.\<close>

definition sample_chat_admit :: "string \<Rightarrow> (string \<times> json) rt_op" where
  "sample_chat_admit i = OpAdmit plain_cipher i (''o'' @ i) ((sample_event (''e'' @ i))\<lparr>ev_resource_kind := ''im.message''\<rparr>)
     (sample_command\<lparr>tc_session_key := ''tenant/app/chat/u''\<rparr>) (Some (sample_draft (''k'' @ i)))"

definition sample_life :: "(int \<times> (string \<times> json) so_op) list" where
  "sample_life = [(10, SoMirror (ImUpsert sample_repository sample_message)),
     (12, SoIngest (attached_form sample_message (hd (ig_attachments sample_message))) sample_blob 5 None 33),
     (15, SoMirror (ImRuntime (sample_chat_admit ''t1''))),
     (20, SoMirror (ImRuntime (OpLeaseTasks plain_cipher ''w'' 100 1 None))),
     (21, SoMirror (ImRuntime (OpStartRun ''r1'' ''t1'' ''tenant/app/chat/u'' ''im.agent'' 1 1 ''trace''))),
     (22, SoMirror (ImRuntime (OpAppendEvent plain_cipher ''r1'' ''model_decision'' [])))]"

definition sample_directory :: "(string \<times> json) storage" where
  "sample_directory = timed_run so_step sample_life empty_storage"

lemma sample_life_timely: "timely so_legal 0 sample_life"
  by code_simp

lemma sample_directory_ok: "so_ok 22 sample_directory"
  using storage.run_inv [OF so_ok_empty sample_life_timely] by (simp add: sample_directory_def sample_life_def)

text \<open>
  The run saves a checkpoint that cites the message, and two more tasks are admitted: one for another chat, and one for a chat
  of the same name in an application whose name differs in the case of its letters only.
\<close>

definition sample_cited :: run_checkpoint where
  "sample_cited = \<lparr>ck_run_id = ''r1'', ck_agent_id = ''im.agent'', ck_agent_version = 1, ck_resource_versions = [], ck_next_turn = 1,
     ck_messages = [], ck_verified_effects = [], ck_blockers = [], ck_source_versions = [(''im.message:m1'', ''v1'')],
     ck_consumed_budget = [], ck_compactor_version = 1, ck_applied_control_ids = [], ck_unresolved_external_effects = [],
     ck_policy_version = 1, ck_tool_schema_fingerprint = ''f''\<rparr>"

definition sample_other_admit :: "string \<Rightarrow> string \<Rightarrow> string \<Rightarrow> (string \<times> json) rt_op" where
  "sample_other_admit i app chat = OpAdmit plain_cipher i (''o'' @ i) ((sample_event (''e'' @ i))\<lparr>ev_app_id := app\<rparr>)
     (sample_command\<lparr>tc_session_key := ''tenant/'' @ app @ ''/'' @ chat @ ''/u''\<rparr>) (Some (sample_draft (''k'' @ i)))"

definition sample_neighbours :: "(int \<times> (string \<times> json) so_op) list" where
  "sample_neighbours = sample_life @
    [(23, SoMirror (ImRuntime (OpSaveCheckpoint plain_cipher sample_cited))),
     (24, SoMirror (ImRuntime (sample_other_admit ''t2'' ''app'' ''chat2''))),
     (25, SoMirror (ImRuntime (sample_other_admit ''t3'' ''APP'' ''chat'')))]"

definition sample_shared :: "(string \<times> json) storage" where
  "sample_shared = timed_run so_step sample_neighbours empty_storage"

lemma sample_shared_ok: "so_ok 25 sample_shared"
proof -
  have "timely so_legal 0 sample_neighbours" by code_simp
  from storage.run_inv [OF so_ok_empty this] show ?thesis by (simp add: sample_shared_def sample_neighbours_def sample_life_def)
qed

lemma sample_shared_rows:
  "map tk_task_id (db_tasks (so_runtime sample_shared)) = [''t1'', ''t2'', ''t3''] \<and>
   map cp_run_id (db_checkpoints (so_runtime sample_shared)) = [''r1''] \<and>
   map cs_source_ref (db_checkpoint_sources (so_runtime sample_shared)) = [''im.message:m1''] \<and>
   length (db_outbox (so_runtime sample_shared)) = 3 \<and> plain_names (''tenant'', ''app'', ''chat'') sample_shared"
  unfolding sample_shared_def by code_simp

lemma purge_chat_complete_witness:
  "\<exists>r s'. purge_chat sample_maintenance ''tenant'' ''app'' ''chat'' sample_shared = (Inr r, s') \<and>
     pr_messages_deleted r = 1 \<and> pr_runs_deleted r = 1 \<and> pr_checkpoints_deleted r = 1 \<and> pr_bytes_reclaimed r = 33 \<and>
     chat_purged (''tenant'', ''app'', ''chat'') sample_shared s' \<and> runtime_purged (''tenant'', ''app'', ''chat'') sample_shared s' \<and>
     graphs_purged (''tenant'', ''app'', ''chat'') sample_shared s' \<and> blobs_purged sample_shared s'"
proof -
  have plain: "plain_names (''tenant'', ''app'', ''chat'') sample_shared" using sample_shared_rows by blast
  have "map_sum id (\<lambda>r. (pr_messages_deleted r, pr_runs_deleted r, pr_checkpoints_deleted r, pr_bytes_reclaimed r))
      (fst (purge_chat sample_maintenance ''tenant'' ''app'' ''chat'' sample_shared)) = Inr (1, 1, 1, 33)"
    unfolding sample_shared_def by code_simp
  from result_Inr [OF this] obtain r s' where "purge_chat sample_maintenance ''tenant'' ''app'' ''chat'' sample_shared = (Inr r, s')"
    "pr_messages_deleted r = 1" "pr_runs_deleted r = 1" "pr_checkpoints_deleted r = 1" "pr_bytes_reclaimed r = 33" by auto
  with purge_chat_complete [OF sample_shared_ok plain, where env = sample_maintenance] show ?thesis by auto
qed

text \<open>A collection, and the purge of a message the mirror does not know, which fails.\<close>

definition sample_upkeep :: "(int \<times> (string \<times> json) so_op) list" where
  "sample_upkeep = sample_life @ [(500, SoCollect 400 10), (600, SoPurgeMessage sample_maintenance ''tenant'' ''app'' ''m2'')]"

lemma storage_keeps_invariants_witness:
  "runtime_ok 700 (so_runtime (timed_run so_step sample_upkeep empty_storage)) \<and>
   mirror_ok (so_mirror (timed_run so_step sample_upkeep empty_storage)) \<and>
   list_all (\<lambda>a. case aw_blob_id a of None \<Rightarrow> True | Some b \<Rightarrow> file_size b (timed_run so_step sample_upkeep empty_storage) \<noteq> None)
     (im_attachments (so_mirror (timed_run so_step sample_upkeep empty_storage)))"
proof -
  have timely: "timely so_legal 0 sample_upkeep" by code_simp
  have later: "last (0 # map fst sample_upkeep) \<le> 700" by (simp add: sample_upkeep_def)
  show ?thesis
    using storage_keeps_invariants [OF timely refl later] by (simp add: list_all_iff split: option.split)
qed

section \<open>Observations\<close>

text \<open>LIKE takes no notice of the case of letters: the purge of a chat of one application takes a task of the other with it.\<close>

lemma purge_takes_similar_tasks:
  "map tk_task_id (db_tasks (so_runtime (snd (purge_chat sample_maintenance ''tenant'' ''app'' ''chat'' sample_shared)))) = [''t2''] \<and>
   map tk_session_key (filter (\<lambda>t. tk_task_id t = ''t3'') (db_tasks (so_runtime sample_shared))) = [''tenant/APP/chat/u'']"
  unfolding sample_shared_def by code_simp

text \<open>
  The rows of approvals refer to their task, and neither the purge of a message nor that of a chat deletes them: with any
  approval, settled or not, it fails.
\<close>

definition sample_deletion :: approval_request where
  "sample_deletion = \<lparr>aq_approval_id = ''ap1'', aq_task_id = ''t1'', aq_run_id = ''r1'', aq_tenant_key = ''tenant'',
     aq_app_id = ''app'', aq_session_key = ''tenant/app/chat/u'', aq_actor_id = ''u'', aq_tool_id = ''delete'',
     aq_argument_digest = ''d'', aq_trace_id = ''trace'', aq_expires_at_ms = 100\<rparr>"

definition sample_approved :: "(string \<times> json) storage" where
  "sample_approved = so_step 30 (SoMirror (ImRuntime (OpRequestApproval plain_cipher ''o6'' sample_deletion
     (sample_draft ''k6'')))) sample_directory"

lemma purge_fails_with_approval:
  "fst (purge_chat sample_maintenance ''tenant'' ''app'' ''chat'' sample_approved) = Inl (IntegrityError ''FOREIGN KEY constraint failed'')"
  "fst (purge_message sample_maintenance ''tenant'' ''app'' ''m1'' sample_approved) = Inl (IntegrityError ''FOREIGN KEY constraint failed'')"
  unfolding sample_approved_def sample_directory_def by code_simp+

text \<open>A follow-up that became a control of the running task leaves its event behind when the chat is purged.\<close>

definition sample_followed :: "(string \<times> json) storage" where
  "sample_followed = so_step 30 (SoMirror (ImRuntime (OpAdmitControl plain_cipher ''c1'' ''o9''
     ((sample_event ''e9'')\<lparr>ev_resource_kind := ''im.message'', ev_resource_id := ''m9'', ev_source_payload := Some ''chat''\<rparr>)
     ''tenant/app/chat/u'' ''u'' STEER ''shorter'' (sample_draft ''k9'')))) sample_directory"

lemma purge_leaves_control_event:
  "map (\<lambda>e. (re_event_id e, re_payload e \<noteq> None)) (db_events (so_runtime (snd
     (purge_chat sample_maintenance ''tenant'' ''app'' ''chat'' sample_followed)))) = [(''e9'', True)]"
  unfolding sample_followed_def sample_directory_def by code_simp

text \<open>A message of the same identifier in two applications of a tenant makes the purge of the tenant fail.\<close>

lemma tenant_purge_fails_with_two_apps:
  "fst (purge_tenant sample_maintenance ''tenant'' (timed_run so_step
     [(10, SoMirror (ImUpsert sample_repository sample_message)),
      (11, SoMirror (ImUpsert sample_repository (sample_message\<lparr>ig_app_id := ''app2''\<rparr>)))] empty_storage)) =
   Inl (IntegrityError ''UNIQUE constraint failed: purge_messages.message_id'')"
  by code_simp

text \<open>An expired key is collected although nobody knows what became of its effect, and the next claim starts it afresh.\<close>

definition sample_claimed :: "(string \<times> json) storage" where
  "sample_claimed = so_step 10 (SoMirror (ImRuntime (OpClaim ''send'' ''im.send'' ''run:1'' 50))) empty_storage"

lemma collected_claim_is_fresh:
  "map_sum id (\<lambda>c. (cl_acquired c, cl_recovery_required c)) (fst (claim_idempotency ''send'' ''im.send'' ''run:2'' 200 60
     (so_runtime sample_claimed))) = Inr (True, True)"
  "map_sum id (\<lambda>c. (cl_acquired c, cl_recovery_required c)) (fst (claim_idempotency ''send'' ''im.send'' ''run:2'' 200 60
     (so_runtime (snd (garbage_collect 60 10 sample_claimed))))) = Inr (True, False)"
  unfolding sample_claimed_def by code_simp+

end
