(* ===== verification/Spec2Isabelle.thy ===== *)
theory Spec2Isabelle
  imports Witnesses GraphWitnesses GraphMerge ContextEngine CapacityGate MemorySessions Rollout HarnessWitnesses IMWitnesses
  MaintenanceWitnesses
begin

text \<open>
  A verification development for Codex2Lark (\<open>src/src/codex2lark\<close>), the durable agent runtime behind a
  Feishu (Lark) bot: inbound events become tasks of a SQLite queue, a worker runs agents on them, tools
  act on the outside world, and replies leave through a transactional outbox.

  \<^bold>\<open>The program and its parts.\<close> An event is admitted (\<open>storage/runtime_store.py\<close>, \<open>admit\<close>) in one
  transaction that stores the event, its task and an acknowledgement message. The worker
  (\<open>runtime/tasks.py\<close>) leases tasks under a fair scheduler and concurrency limits, runs the handler of
  the task and finishes, retries or defers it. The handler starts a run of the harness
  (\<open>runtime/harness.py\<close>), which alternates between the model and its tools and keeps a numbered journal, a
  checkpoint and one outcome in the session store (\<open>storage/session_store.py\<close>). A run builds
  its context (\<open>runtime/context.py\<close>) and calls tools through the executor (\<open>runtime/tools.py\<close>), which asks
  policy and requester, takes resource locks, waits for capacity (\<open>runtime/capacity.py\<close>) and records
  external effects under an idempotency key. Large requests become a graph of agents
  (\<open>storage/agent_store.py\<close>, \<open>runtime/multi_agent.py\<close>) with budgets, dependencies, mail, locks and
  artifacts. Messages wait in the outbox until the dispatcher (\<open>runtime/outbox.py\<close>) has published them.
  The messages of the chats come in through \<open>capabilities/im\<close>: an encrypted mirror of chats, messages and
  attachments (\<open>repository.py\<close>) in the same database, the admission of a message as a task or as a control of a
  running one (\<open>admission.py\<close>), the recall of messages and the loss and return of access to a chat
  (\<open>lifecycle.py\<close>, \<open>membership.py\<close>), and the replies (\<open>publisher.py\<close>). While the process is stopped, maintenance
  (\<open>storage/maintenance.py\<close>) collects what has expired and purges messages, chats and tenants.

  \<^bold>\<open>State and operations.\<close> A table is a list of rows in insertion order, a row a record with the columns
  of the schema (\<open>RuntimeSchema\<close>, \<open>AgentSchema\<close>, from \<open>storage/migrations.py\<close>); the two databases are the
  records \<open>rt_db\<close> and \<open>ag_db\<close>. An operation is a state transformer (\<open>eff\<close>) that returns \<open>exn + 'a\<close> with the
  new state; \<open>transaction\<close> (\<open>Prelude\<close>) is \<open>SQLiteDatabase.transaction\<close>: a body that raises leaves no trace.
  Times are parameters (the code reads them from a clock argument), identifiers that the code draws at
  random are arguments. Python integers are \<open>int\<close> (they do not overflow), dictionaries are association
  lists in insertion order (\<open>Dicts\<close>) or maps, coroutines that interleave are explicit sequences of steps.
  Payloads are JSON values; the envelope cipher (\<open>storage/crypto.py\<close>, AES-GCM of a third-party package)
  is the parameter \<open>'b cipher\<close>, and where a theorem reads a stored payload it assumes \<open>opens_sealed\<close>: a
  value sealed under some associated data opens under the same. Tools, policies, brokers, publishers,
  handlers and workers are protocols in the code and function parameters here.

  \<^bold>\<open>Theories, in the order of the code.\<close>
  \<^item> \<open>Prelude\<close>, \<open>Dicts\<close>: exceptions, transactions, tables, JSON, the cipher; the locales
    \<open>invariant_steps\<close> and \<open>clocked_steps\<close> (a step that keeps an invariant, alone or under a clock that never
    goes back) with their run lemmas.
  \<^item> \<open>Budgets\<close>, \<open>Events\<close>, \<open>RunTypes\<close>, \<open>AgentTypes\<close>, \<open>Resources\<close>: the data of \<open>core/\<close>, \<open>runtime/types.py\<close>,
    \<open>runtime/multi_agent.py\<close> and \<open>runtime/resources.py\<close> with the checks of their constructors.
  \<^item> \<open>TaskQueue\<close>, \<open>TaskQueueInv\<close>, \<open>TaskLeasing\<close>, \<open>TaskStore\<close>: the queue of \<open>storage/runtime_store.py\<close>, its
    invariant, the fair selection, and every operation on a leased task. \<open>LeaseStore\<close> states what a
    lease-based store promises as the locales \<open>lease_store\<close> and \<open>lease_outcomes\<close>; the task queue
    (\<open>TaskStore\<close>) and the outbox (\<open>Dispatcher\<close>) interpret both.
  \<^item> \<open>Outbox\<close>, \<open>OutboxOrder\<close>, \<open>Dispatcher\<close>; \<open>Admission\<close>; \<open>Idempotency\<close>; \<open>ApprovalStore\<close>; \<open>ControlStore\<close>:
    the rest of the runtime store, and \<open>runtime/outbox.py\<close>.
  \<^item> \<open>TaskWorker\<close>: \<open>runtime/tasks.py\<close>. \<open>SessionStore\<close>, \<open>SessionInv\<close>: \<open>storage/session_store.py\<close>.
    \<open>MemorySessions\<close>: \<open>runtime/sessions.py\<close> and the refinement between the two.
  \<^item> \<open>RuntimeFrames\<close>, \<open>RuntimeSystem\<close>: all operations of the runtime database as one step \<open>rt_step\<close>, an
    interpretation of \<open>clocked_steps\<close>; \<open>RuntimeProps\<close>, \<open>RuntimeEffects\<close>, \<open>RunOutcomes\<close>: what every
    run of it guarantees.
  \<^item> \<open>AgentSchema\<close>, \<open>GraphStore\<close>, \<open>GraphComms\<close>, \<open>Supervisor\<close>: the agent graph and its supervisor;
    \<open>GraphInv\<close>, \<open>GraphLedger\<close>, \<open>GraphRetire\<close>, \<open>GraphShape\<close>, \<open>GraphOps\<close>, \<open>GraphGrow\<close>, \<open>GraphSpawn\<close>: its
    invariant and the proof that every operation keeps it; \<open>GraphSystem\<close>: the step \<open>gs_step\<close>, again an
    interpretation of \<open>clocked_steps\<close>; \<open>GraphHistory\<close>, \<open>GraphAuthority\<close>, \<open>GraphTree\<close>, \<open>GraphProps\<close>,
    \<open>GraphLocks\<close>, \<open>GraphMail\<close>, \<open>GraphMerge\<close>: what every run guarantees.
  \<^item> \<open>ContextEngine\<close>, \<open>CapacityGate\<close>, \<open>ToolExecutor\<close>, \<open>ToolProps\<close>: \<open>runtime/context.py\<close>,
    \<open>runtime/capacity.py\<close> and \<open>runtime/tools.py\<close>. A tool, the policy and the approvals act on the whole world of a
    call (stores, agent graph, gate and the rest of the process). \<open>Approvals\<close>: the broker and the decision service of
    \<open>runtime/approvals.py\<close>, as such an approver and over the same store. \<open>Plugins\<close>: \<open>runtime/plugins.py\<close>, an
    interpretation of \<open>invariant_steps\<close>, and the policy of the gateway (\<open>AllowConfiguredTools\<close>) over it;
    \<open>Rollout\<close>: \<open>runtime/rollout.py\<close> and \<open>runtime/targets.py\<close>.
  \<^item> \<open>Harness\<close>: the run loop of \<open>runtime/harness.py\<close> as coroutines (\<open>flow\<close>) over a state that holds the variables
    of \<open>run\<close> and the world; at every await a \<open>moment\<close> says what the other clients do. \<open>HarnessKeeps\<close>: the locales
    \<open>run_invariant\<close> and \<open>whole_run_invariant\<close>, a property of a run that the moments, calls and steps of the loop
    keep, with what follows for turns and runs; \<open>HarnessProps\<close> and \<open>HarnessResume\<close> interpret them for the session
    tables, the recorded outcome, the effects and the budget, and prove what a run and a restart promise.
  \<^item> \<open>IMModels\<close>, \<open>IMRepository\<close>, \<open>IMReads\<close>: the data and the repository of \<open>capabilities/im\<close>; \<open>IMSystem\<close>: mirror and
    runtime as one step \<open>im_step\<close>, an interpretation of \<open>clocked_steps\<close>; \<open>IMAdmission\<close>, \<open>IMLifecycle\<close>: admission and its
    policy, membership, lifecycle and publisher, as programs on mirror and process; \<open>IMProps\<close>, \<open>IMRecall\<close>,
    \<open>IMDelivery\<close>: what follows for lost chats, recalled messages, reads and repeated deliveries.
  \<^item> \<open>Maintenance\<close>: \<open>storage/maintenance.py\<close> on mirror, runtime, graph and blob files; \<open>MaintenanceProps\<close>,
    \<open>MaintenanceInv\<close>: deletions and the invariants they keep; \<open>StorageSystem\<close>: process and maintenance as one step
    \<open>so_step\<close>, an interpretation of \<open>clocked_steps\<close>; \<open>MaintenancePurge\<close>: what a purge leaves.
  \<^item> \<open>Samples\<close>, \<open>Witnesses\<close>, \<open>GraphWitnesses\<close>, \<open>HarnessWitnesses\<close>, \<open>IMWitnesses\<close>, \<open>MaintenanceWitnesses\<close>: concrete inputs at which the properties are applied.

  \<^bold>\<open>What the lemmas show.\<close> Of the queue: one live lease per session, bounded attempts, limits and
  fairness of a lease call, progress, and that a worker round settles what it leased. Of the outbox:
  causal order, unique intents, settled dispatches. Of effects and decisions: admission once, a fresh
  claim once, results replayed, no call without its requester's approval of exactly its arguments (SHA-256 and
  \<open>json.dumps\<close> are parameters, so up to their collisions), answers that reach the waiting call, and no call past the
  policy of the gateway and a fresh health check of its plugins. Of plugins: a start that is
  all or nothing where no \<open>stop\<close> fails, capabilities only of ready plugins. Of sessions: numbered
  journals, one final outcome (\<open>finish_run\<close>, which nobody calls, can still overwrite the status), checkpoints that read
  back, completion only when no control waits, and refinement of the in-memory store up to a completion that a
  control holds back. Of the agent graph: exact budget reservations, limits of size,
  dependencies before execution, final rows, authority that only shrinks, locks and mail, and the fate
  of dependents of a failed node. Of a run: contexts that fit and keep what is required, capacity that
  is never exceeded, tool results of a closed shape, verified writes that are never repeated, outcomes
  that are returned as recorded, errors of the loop that end the run by their class (a deferral too, against the docs),
  completion only over verified writes, budgets, and restarts. Of the mirror:
  messages that read back as sent, recalled messages that stay hidden and chats that stay closed under any later
  operations, and one task however often a message is delivered. Of maintenance: every invariant kept by every
  collection and purge, no file lost that is referred to, and the exact effect of the purge of a chat on every table:
  it leaves nothing of the chat, and takes nothing else but tasks whose session key LIKE does not tell from those of the chat.

  \<^bold>\<open>Termination and bounds.\<close> No definition carries fuel. The dispatch loop of the capacity gate is a
  \<open>function\<close> whose measure is the number of queued futures. The trimming loop of the context engine is a
  \<open>partial_function\<close> whose value \<open>None\<close> is a loop that does not return, and \<open>context_build_returns\<close>
  shows that it always returns. A tool call runs along a schedule of ticks, a run along the moments at
  which it awaits and the list of its turns; there \<open>None\<close> is a schedule that ends too early: the call or
  the run is still under way, or its process has died.

  \<^bold>\<open>Not modelled.\<close> The database thread, the driver of the migrations, backup archives, key rotation and file
  locking (I/O); the cipher (third party); the delegation tools of \<open>runtime/delegation.py\<close>, which expose the
  supervisor to the model as tools; the adapters of \<open>capabilities/im\<close> that decode the events of the platform, download
  and parse attachments and read live messages; the document, drive, sheet, whiteboard and digest capabilities and the
  services under them, which call the Lark command line and the model provider; the bootstrap, the command line and the
  MCP interface (process wiring). Logging and tracing calls are left out throughout. Strings are lists of 8-bit
  characters, so that texts of messages outside that range appear in the model as the arguments they are in the code.
  Where maintenance deletes a limited number of rows without an order, the model takes them in the order of the table.
\<close>

end
